(* ===== verification/Prelude.thy ===== *)
theory Prelude
  imports Main "HOL-Library.Word" "HOL-Library.Monad_Syntax"
begin

text \<open>
  Vocabulary shared by every component of the development: the machine integer types of the
  Rust sources, results with errors as the left summand of a sum, bounds-checked reads of a byte
  buffer, and big-endian and native-endian byte conversions of the standard library
  (\<^verbatim>\<open>u16::from_be_bytes\<close>, \<^verbatim>\<open>u32::from_ne_bytes\<close>, \<^verbatim>\<open>u32::to_be\<close>, \<^verbatim>\<open>saturating_sub\<close>), with
  the generic lemmas on them that the components use.
\<close>

unbundle bit_operations_syntax

section \<open>Types\<close>

type_synonym u8 = "8 word"
type_synonym u16 = "16 word"
type_synonym u32 = "32 word"
type_synonym u64 = "64 word"
type_synonym u128 = "128 word"
type_synonym bytes = "8 word list"
type_synonym ('e, 'a) result = "'e + 'a"

text \<open>
  The collections of the development: \<open>mem_safe\<close> holds the facts that rule out a read outside the
  frame, \<open>endian_simps\<close> the byte-order conversions.
\<close>

named_theorems mem_safe "reads that stay inside the buffer"
named_theorems endian_simps "byte-order conversions"

section \<open>Results\<close>

definition is_ok :: "('e, 'a) result \<Rightarrow> bool" where
  "is_ok r = (case r of Inl _ \<Rightarrow> False | Inr _ \<Rightarrow> True)"

lemma is_ok_simps [simp]: "is_ok (Inr x)" "\<not> is_ok (Inl e)"
  by (simp_all add: is_ok_def)

lemma is_ok_iff: "is_ok r \<longleftrightarrow> (\<exists>x. r = Inr x)"
  by (cases r) auto

text \<open>The operator \<^verbatim>\<open>?\<close>: an error ends the function. \<open>ok_or\<close> turns an absent value into an error.\<close>

definition and_then :: "('e, 'a) result \<Rightarrow> ('a \<Rightarrow> ('e, 'b) result) \<Rightarrow> ('e, 'b) result" where
  "and_then r f = (case r of Inl e \<Rightarrow> Inl e | Inr x \<Rightarrow> f x)"

definition ok_or :: "'a option \<Rightarrow> 'e \<Rightarrow> ('e, 'a) result" where
  "ok_or v e = (case v of None \<Rightarrow> Inl e | Some x \<Rightarrow> Inr x)"

definition map_err :: "('e \<Rightarrow> 'f) \<Rightarrow> ('e, 'a) result \<Rightarrow> ('f, 'a) result" where
  "map_err f r = (case r of Inl e \<Rightarrow> Inl (f e) | Inr x \<Rightarrow> Inr x)"

lemma and_then_simps [simp]: "and_then (Inr x) f = f x" "and_then (Inl e) f = Inl e"
  by (simp_all add: and_then_def)

lemma ok_or_simps [simp]: "ok_or (Some x) e = Inr x" "ok_or None e = Inl e"
  by (simp_all add: ok_or_def)

lemma map_err_simps [simp]: "map_err f (Inr x) = Inr x" "map_err f (Inl e) = Inl (f e)"
  by (simp_all add: map_err_def)

lemma and_then_Inr_iff: "and_then r f = Inr y \<longleftrightarrow> (\<exists>x. r = Inr x \<and> f x = Inr y)"
  by (cases r) auto

lemma and_then_Inl_iff: "and_then r f = Inl e \<longleftrightarrow> r = Inl e \<or> (\<exists>x. r = Inr x \<and> f x = Inl e)"
  by (cases r) auto

lemma ok_or_Inr_iff: "ok_or v e = Inr x \<longleftrightarrow> v = Some x"
  by (cases v) auto

lemmas result_iffs = and_then_Inr_iff and_then_Inl_iff ok_or_Inr_iff

text \<open>The operator \<^verbatim>\<open>?\<close> in a function that changes a state: an error ends it in the state reached.\<close>

definition try_then :: "('e, 'a) result \<times> 's \<Rightarrow> ('a \<Rightarrow> 's \<Rightarrow> ('e, 'b) result \<times> 's) \<Rightarrow> ('e, 'b) result \<times> 's" where
  "try_then r f = (case r of (Inl e, s) \<Rightarrow> (Inl e, s) | (Inr x, s) \<Rightarrow> f x s)"

lemma try_then_simps [simp]: "try_then (Inl e, s) f = (Inl e, s)" "try_then (Inr x, s) f = f x s"
  by (simp_all add: try_then_def)

lemma try_then_assoc: "try_then (try_then r f) g = try_then r (\<lambda>x s. try_then (f x s) g)"
  by (auto simp: try_then_def split: prod.splits sum.splits)

lemma try_then_Inr_iff: "try_then r f = (Inr y, s') \<longleftrightarrow> (\<exists>x s. r = (Inr x, s) \<and> f x s = (Inr y, s'))"
  by (auto simp: try_then_def split: prod.splits sum.splits)

lemma try_then_Inl_iff:
  "try_then r f = (Inl e, s') \<longleftrightarrow> r = (Inl e, s') \<or> (\<exists>x s. r = (Inr x, s) \<and> f x s = (Inl e, s'))"
  by (auto simp: try_then_def split: prod.splits sum.splits)

section \<open>Saturating arithmetic\<close>

definition saturating_sub :: "'w::len word \<Rightarrow> 'w word \<Rightarrow> 'w word" where
  "saturating_sub a b = (if a < b then 0 else a - b)"

lemma unat_saturating_sub: "unat (saturating_sub a b) = unat a - unat b"
  by (auto simp: saturating_sub_def word_less_nat_alt unat_sub_if_size)

definition saturating_add :: "'w::len word \<Rightarrow> 'w word \<Rightarrow> 'w word" where
  "saturating_add a b = (if unat a + unat b \<ge> 2 ^ LENGTH('w) then - 1 else a + b)"

definition saturating_mul :: "'w::len word \<Rightarrow> 'w word \<Rightarrow> 'w word" where
  "saturating_mul a b = (if unat a * unat b \<ge> 2 ^ LENGTH('w) then - 1 else a * b)"

lemma unat_saturating_add:
  fixes a b :: "'w::len word"
  shows "unat (saturating_add a b) = min (unat a + unat b) (2 ^ LENGTH('w) - 1)"
  by (auto simp: saturating_add_def unsigned_minus_1_eq_mask mask_eq_exp_minus_1 unat_word_ariths not_le)

lemma uint_saturating_add:
  fixes a b :: "'w::len word"
  shows "uint (saturating_add a b) = min (uint a + uint b) (2 ^ LENGTH('w) - 1)"
  unfolding uint_nat unat_saturating_add by (simp add: of_nat_min of_nat_diff)

lemma unat_saturating_mul:
  fixes a b :: "'w::len word"
  shows "unat (saturating_mul a b) = min (unat a * unat b) (2 ^ LENGTH('w) - 1)"
  by (auto simp: saturating_mul_def unsigned_minus_1_eq_mask mask_eq_exp_minus_1 unat_word_ariths not_le)

section \<open>Bounds-checked reads\<close>

text \<open>
  A raw pointer read \<^verbatim>\<open>*((start + i) as *const u8)\<close> of a frame that occupies the addresses from
  \<^verbatim>\<open>start\<close> to \<^verbatim>\<open>end\<close>: \<open>None\<close> is a read outside the frame, which the program must never make.
\<close>

definition rd :: "bytes \<Rightarrow> nat \<Rightarrow> u8 option" where
  "rd bs i = (if i < length bs then Some (bs ! i) else None)"

definition rd_slice :: "bytes \<Rightarrow> nat \<Rightarrow> nat \<Rightarrow> bytes option" where
  "rd_slice bs i n = (if i + n \<le> length bs then Some (take n (drop i bs)) else None)"

lemma rd_Some [mem_safe]: "i < length bs \<Longrightarrow> rd bs i = Some (bs ! i)"
  by (simp add: rd_def)

lemma rd_slice_Some [mem_safe]: "i + n \<le> length bs \<Longrightarrow> rd_slice bs i n = Some (take n (drop i bs))"
  by (simp add: rd_slice_def)

lemma rd_slice_length: "rd_slice bs i n = Some xs \<Longrightarrow> length xs = n"
  by (auto simp: rd_slice_def split: if_splits)

section \<open>Byte order\<close>

datatype endian = LittleEndian | BigEndian

text \<open>The value of bytes read with the most significant byte first.\<close>

fun be_val :: "bytes \<Rightarrow> nat" where
  "be_val [] = 0"
| "be_val (b # bs) = unat b * 256 ^ length bs + be_val bs"

definition from_be_bytes :: "bytes \<Rightarrow> 'w::len word" where
  "from_be_bytes bs = word_of_nat (be_val bs)"

definition from_ne_bytes :: "endian \<Rightarrow> bytes \<Rightarrow> 'w::len word" where
  "from_ne_bytes e bs =
     (case e of LittleEndian \<Rightarrow> from_be_bytes (rev bs) | BigEndian \<Rightarrow> from_be_bytes bs)"

text \<open>The \<open>n\<close> bytes of a number, least significant first.\<close>

fun le_digits :: "nat \<Rightarrow> nat \<Rightarrow> bytes" where
  "le_digits 0 x = []"
| "le_digits (Suc n) x = word_of_nat x # le_digits n (x div 256)"

definition to_be_bytes :: "nat \<Rightarrow> 'w::len word \<Rightarrow> bytes" where
  "to_be_bytes n w = rev (le_digits n (unat w))"

definition to_ne_bytes :: "endian \<Rightarrow> nat \<Rightarrow> 'w::len word \<Rightarrow> bytes" where
  "to_ne_bytes e n w =
     (case e of LittleEndian \<Rightarrow> le_digits n (unat w) | BigEndian \<Rightarrow> to_be_bytes n w)"

text \<open>
  \<^verbatim>\<open>x.to_be()\<close>: the value whose native representation is the big-endian one of \<open>x\<close>;
  \<^verbatim>\<open>from_be\<close> is the same function.
\<close>

definition to_be :: "endian \<Rightarrow> nat \<Rightarrow> 'w::len word \<Rightarrow> 'w word" where
  "to_be e n w = from_ne_bytes e (to_be_bytes n w)"

lemma length_le_digits [simp]: "length (le_digits n x) = n"
  by (induction n arbitrary: x) auto

lemma length_to_be_bytes [simp]: "length (to_be_bytes n w) = n"
  by (simp add: to_be_bytes_def)

lemma length_to_ne_bytes [simp]: "length (to_ne_bytes e n w) = n"
  by (cases e) (simp_all add: to_ne_bytes_def)

lemma be_val_append: "be_val (xs @ ys) = be_val xs * 256 ^ length ys + be_val ys"
  by (induction xs) (auto simp: power_add algebra_simps)

lemma unat_u8_bound: "unat (b :: u8) < 256"
  using unsigned_less [where 'a = nat and w = b] by simp

lemma be_val_bound: "be_val bs < 256 ^ length bs"
proof (induction bs)
  case (Cons b bs)
  have "unat b * 256 ^ length bs + be_val bs < unat b * 256 ^ length bs + 256 ^ length bs"
    using Cons.IH by simp
  also have "\<dots> = (unat b + 1) * 256 ^ length bs"
    by simp
  also have "\<dots> \<le> 256 * 256 ^ length bs"
    using unat_u8_bound [of b] by (intro mult_right_mono) simp_all
  finally show ?case by simp
qed simp

lemma be_val_rev_le_digits: "be_val (rev (le_digits n x)) = x mod 256 ^ n"
proof (induction n arbitrary: x)
  case (Suc n)
  have "x mod (256 * 256 ^ n) = 256 * (x div 256 mod 256 ^ n) + x mod 256"
    by (simp add: mod_mult2_eq)
  then show ?case
    by (simp add: be_val_append Suc unat_of_nat)
qed simp

lemma le_digits_be_val: "le_digits (length bs) (be_val (rev bs)) = bs"
proof (induction bs)
  case (Cons b bs)
  note b = unat_u8_bound [of b]
  have v: "be_val (rev (b # bs)) = be_val (rev bs) * 256 + unat b"
    by (simp add: be_val_append)
  have "(word_of_nat (be_val (rev bs) * 256 + unat b) :: u8) = b"
    by (simp only: word_unat_eq_iff unat_of_nat) (simp add: b)
  moreover have "(be_val (rev bs) * 256 + unat b) div 256 = be_val (rev bs)"
    using b by simp
  ultimately show ?case
    using Cons.IH by (simp only: length_Cons le_digits.simps v)
qed simp

lemma from_be_to_be_bytes [endian_simps]:
  fixes w :: "'w::len word"
  assumes "LENGTH('w) = 8 * n"
  shows "from_be_bytes (to_be_bytes n w) = w"
proof -
  have "unat w < 256 ^ n"
    using unsigned_less [where 'a = nat and w = w] assms by (simp add: power_mult)
  then show ?thesis
    by (simp add: from_be_bytes_def to_be_bytes_def be_val_rev_le_digits)
qed

lemma from_ne_to_ne_bytes [endian_simps]:
  fixes w :: "'w::len word"
  assumes "LENGTH('w) = 8 * n"
  shows "from_ne_bytes e (to_ne_bytes e n w) = w"
  using from_be_to_be_bytes [OF assms, of w]
  by (cases e) (simp_all add: from_ne_bytes_def to_ne_bytes_def to_be_bytes_def)

lemma to_be_from_be_bytes [endian_simps]:
  assumes "LENGTH('w::len) = 8 * length bs"
  shows "to_be_bytes (length bs) (from_be_bytes bs :: 'w word) = bs"
proof -
  have "be_val bs < 2 ^ LENGTH('w)"
    using be_val_bound [of bs] assms by (simp add: power_mult)
  then show ?thesis
    using le_digits_be_val [of "rev bs"]
    by (simp add: to_be_bytes_def from_be_bytes_def unat_of_nat)
qed

text \<open>
  The two views of an address agree on every target: the bytes as they arrive on the wire, read
  natively, are the big-endian conversion of the number they spell.
\<close>

lemma to_be_of_wire [endian_simps]:
  assumes "LENGTH('w::len) = 8 * length bs"
  shows "to_be e (length bs) (from_be_bytes bs :: 'w word) = from_ne_bytes e bs"
  by (simp add: to_be_def to_be_from_be_bytes [OF assms])

lemma to_be_involution [endian_simps]:
  fixes w :: "'w::len word"
  assumes "LENGTH('w) = 8 * n"
  shows "to_be e n (to_be e n w) = w"
proof (cases e)
  case LittleEndian
  have "to_be e (length (rev (to_be_bytes n w))) (from_be_bytes (rev (to_be_bytes n w)) :: 'w word)
      = from_ne_bytes e (rev (to_be_bytes n w))"
    by (rule to_be_of_wire) (simp add: assms)
  with LittleEndian show ?thesis
    by (simp add: to_be_def [of LittleEndian n w] from_ne_bytes_def from_be_to_be_bytes [OF assms])
next
  case BigEndian
  then show ?thesis
    by (simp add: to_be_def from_ne_bytes_def from_be_to_be_bytes [OF assms])
qed

lemma be_val_inj: "length xs = length ys \<Longrightarrow> be_val xs = be_val ys \<Longrightarrow> xs = ys"
  by (metis le_digits_be_val length_rev rev_rev_ident)

lemma from_ne_bytes_inj:
  assumes "LENGTH('w::len) = 8 * length xs" "length ys = length xs"
    and eq: "(from_ne_bytes e xs :: 'w word) = from_ne_bytes e ys"
  shows "xs = ys"
proof -
  have b: "be_val zs < 2 ^ LENGTH('w)" if "length zs = length xs" for zs
    using be_val_bound [of zs] assms(1) that by (simp add: power_mult)
  have inj: "us = vs" if "length us = length xs" "length vs = length xs"
      "(from_be_bytes us :: 'w word) = from_be_bytes vs" for us vs
  proof (rule be_val_inj)
    show "be_val us = be_val vs"
      using that(3) b [OF that(1)] b [OF that(2)]
      by (auto simp: from_be_bytes_def word_unat_eq_iff unat_of_nat)
  qed (use that in simp)
  show ?thesis
    using inj [of xs ys] inj [of "rev xs" "rev ys"] eq assms(2)
    by (cases e) (auto simp: from_ne_bytes_def)
qed

section \<open>Lists\<close>

text \<open>
  Writing a slice over an array, as \<^verbatim>\<open>copy_from_slice\<close> and \<^verbatim>\<open>copy_nonoverlapping\<close> do: the
  destination keeps its length.
\<close>

definition write_slice :: "'a list \<Rightarrow> nat \<Rightarrow> 'a list \<Rightarrow> 'a list" where
  "write_slice dst i src = take i dst @ src @ drop (i + length src) dst"

lemma length_write_slice [simp]:
  "i + length src \<le> length dst \<Longrightarrow> length (write_slice dst i src) = length dst"
  by (simp add: write_slice_def)

lemma take_write_slice [simp]: "length src = n \<Longrightarrow> take n (write_slice dst 0 src) = src"
  by (simp add: write_slice_def)

lemma nth_write_slice:
  assumes "i + length src \<le> length dst" "j < length dst"
  shows "write_slice dst i src ! j =
         (if i \<le> j \<and> j < i + length src then src ! (j - i) else dst ! j)"
  using assms by (auto simp: write_slice_def nth_append min_def)

end
