(* ===== verification/Abi_Models.thy ===== *)
theory Abi_Models
  imports Prelude
begin

text \<open>
  The types and constants the kernel programs and the user-space daemon share
  (\<^verbatim>\<open>net-guardia-abi/src/define\<close> and \<^verbatim>\<open>net-guardia-abi/src/model\<close>): the parsed packet, the
  address-and-port keys, the fixed-capacity port rule of the access-control lists, the HTTP
  method bitmap, the rate state, the drop event and the DNS name. The port rule is shown to be
  a set of at most 32 ports (or the match-all rule) under every operation.
\<close>

section \<open>Constants\<close>

definition DROP_REASON_ACL_BLACKLIST :: u8 where "DROP_REASON_ACL_BLACKLIST = 1"
definition DROP_REASON_RATE_LIMIT_PKT :: u8 where "DROP_REASON_RATE_LIMIT_PKT = 2"
definition DROP_REASON_RATE_LIMIT_SYN :: u8 where "DROP_REASON_RATE_LIMIT_SYN = 3"
definition DROP_REASON_RATE_LIMIT_UDP :: u8 where "DROP_REASON_RATE_LIMIT_UDP = 4"
definition DROP_REASON_RATE_LIMIT_DNS :: u8 where "DROP_REASON_RATE_LIMIT_DNS = 5"
definition DROP_REASON_PROTOCOL_FILTER :: u8 where "DROP_REASON_PROTOCOL_FILTER = 6"
definition DROP_REASON_GEO_BLOCK :: u8 where "DROP_REASON_GEO_BLOCK = 7"

definition MAX_STAGES :: u32 where "MAX_STAGES = 8"
definition STAGE_NONE :: u32 where "STAGE_NONE = - 1"
definition STAGE_ENTRY :: u32 where "STAGE_ENTRY = 0"
definition STAGE_ACCESS_CONTROL :: u32 where "STAGE_ACCESS_CONTROL = 1"
definition STAGE_RATE_LIMIT :: u32 where "STAGE_RATE_LIMIT = 2"
definition STAGE_SERVICE :: u32 where "STAGE_SERVICE = 3"
definition STAGE_TRANSMISSION :: u32 where "STAGE_TRANSMISSION = 7"

definition CFG_PACKET_RATE :: u32 where "CFG_PACKET_RATE = 0"
definition CFG_SYN_RATE :: u32 where "CFG_SYN_RATE = 1"
definition CFG_UDP_RATE :: u32 where "CFG_UDP_RATE = 2"
definition CFG_DNS_RATE :: u32 where "CFG_DNS_RATE = 3"
definition CFG_WINDOW_NS :: u32 where "CFG_WINDOW_NS = 4"

definition MAX_RULES :: nat where "MAX_RULES = 128"
definition MAX_RULES_PORT :: nat where "MAX_RULES_PORT = 32"
definition DEFAULT_WINDOW_NS :: u64 where "DEFAULT_WINDOW_NS = 1000000000"
definition DEFAULT_PACKET_RATE :: u64 where "DEFAULT_PACKET_RATE = 10000"
definition DEFAULT_SYN_RATE :: u64 where "DEFAULT_SYN_RATE = 100"
definition DEFAULT_UDP_RATE :: u64 where "DEFAULT_UDP_RATE = 5000"
definition DEFAULT_DNS_RATE :: u64 where "DEFAULT_DNS_RATE = 200"

definition TCP_FIN :: u8 where "TCP_FIN = 0x01"
definition TCP_SYN :: u8 where "TCP_SYN = 0x02"
definition TCP_RST :: u8 where "TCP_RST = 0x04"
definition TCP_PSH :: u8 where "TCP_PSH = 0x08"
definition TCP_ACK :: u8 where "TCP_ACK = 0x10"

lemmas drop_reason_defs =
  DROP_REASON_ACL_BLACKLIST_def DROP_REASON_RATE_LIMIT_PKT_def DROP_REASON_RATE_LIMIT_SYN_def
  DROP_REASON_RATE_LIMIT_UDP_def DROP_REASON_RATE_LIMIT_DNS_def DROP_REASON_PROTOCOL_FILTER_def
  DROP_REASON_GEO_BLOCK_def

lemmas stage_defs =
  MAX_STAGES_def STAGE_NONE_def STAGE_ENTRY_def STAGE_ACCESS_CONTROL_def STAGE_RATE_LIMIT_def
  STAGE_SERVICE_def STAGE_TRANSMISSION_def

lemmas cfg_defs =
  CFG_PACKET_RATE_def CFG_SYN_RATE_def CFG_UDP_RATE_def CFG_DNS_RATE_def CFG_WINDOW_NS_def

lemmas tcp_flag_defs = TCP_FIN_def TCP_SYN_def TCP_RST_def TCP_PSH_def TCP_ACK_def

section \<open>IP versions\<close>

datatype ip_version = V4 | V6

definition as_u8 :: "ip_version \<Rightarrow> u8" where
  "as_u8 v = (case v of V4 \<Rightarrow> 4 | V6 \<Rightarrow> 6)"

definition from_u8 :: "u8 \<Rightarrow> ip_version option" where
  "from_u8 value = (if value = 4 then Some V4 else if value = 6 then Some V6 else None)"

lemma as_u8_simps [simp]: "as_u8 V4 = 4" "as_u8 V6 = 6"
  by (simp_all add: as_u8_def)

instantiation ip_version :: linorder
begin

definition less_eq_ip_version :: "ip_version \<Rightarrow> ip_version \<Rightarrow> bool" where
  "less_eq_ip_version a b \<longleftrightarrow> as_u8 a \<le> as_u8 b"

definition less_ip_version :: "ip_version \<Rightarrow> ip_version \<Rightarrow> bool" where
  "less_ip_version a b \<longleftrightarrow> as_u8 a < as_u8 b"

instance
proof
  fix x y :: ip_version
  assume "x \<le> y" "y \<le> x"
  then show "x = y"
    by (cases x; cases y) (simp_all add: less_eq_ip_version_def)
qed (auto simp: less_eq_ip_version_def less_ip_version_def)

end

text \<open>The version byte of a packet and the enumeration determine each other.\<close>

lemma from_u8_iff: "from_u8 value = Some v \<longleftrightarrow> value = as_u8 v"
  by (cases v) (auto simp: from_u8_def)

section \<open>Address-and-port keys\<close>

type_synonym addr_port_v4 = bytes
type_synonym addr_port_v6 = bytes

definition AddrPortV4_new :: "endian \<Rightarrow> u32 \<Rightarrow> u16 \<Rightarrow> addr_port_v4" where
  "AddrPortV4_new e ip port =
     (let key = replicate 8 0;
          key = write_slice key 0 (to_ne_bytes e 4 ip)
      in write_slice key 4 (to_ne_bytes e 2 port))"

definition AddrPortV4_ip :: "endian \<Rightarrow> addr_port_v4 \<Rightarrow> u32" where
  "AddrPortV4_ip e key = from_ne_bytes e (take 4 key)"

definition AddrPortV4_port :: "endian \<Rightarrow> addr_port_v4 \<Rightarrow> u16" where
  "AddrPortV4_port e key = from_ne_bytes e (take 2 (drop 4 key))"

definition AddrPortV6_new :: "endian \<Rightarrow> u128 \<Rightarrow> u16 \<Rightarrow> addr_port_v6" where
  "AddrPortV6_new e ip port =
     (let key = replicate 32 0;
          key = write_slice key 0 (to_ne_bytes e 16 ip)
      in write_slice key 16 (to_ne_bytes e 2 port))"

definition AddrPortV6_ip :: "endian \<Rightarrow> addr_port_v6 \<Rightarrow> u128" where
  "AddrPortV6_ip e key = from_ne_bytes e (take 16 key)"

definition AddrPortV6_port :: "endian \<Rightarrow> addr_port_v6 \<Rightarrow> u16" where
  "AddrPortV6_port e key = from_ne_bytes e (take 2 (drop 16 key))"

lemma AddrPortV4_roundtrip [simp]:
  "AddrPortV4_ip e (AddrPortV4_new e ip port) = ip"
  "AddrPortV4_port e (AddrPortV4_new e ip port) = port"
  by (simp_all add: AddrPortV4_ip_def AddrPortV4_port_def AddrPortV4_new_def Let_def
      write_slice_def from_ne_to_ne_bytes)

lemma AddrPortV6_roundtrip [simp]:
  "AddrPortV6_ip e (AddrPortV6_new e ip port) = ip"
  "AddrPortV6_port e (AddrPortV6_new e ip port) = port"
  by (simp_all add: AddrPortV6_ip_def AddrPortV6_port_def AddrPortV6_new_def Let_def
      write_slice_def from_ne_to_ne_bytes)

lemma AddrPortV4_new_inject [simp]:
  "AddrPortV4_new e ip port = AddrPortV4_new e ip' port' \<longleftrightarrow> ip = ip' \<and> port = port'"
  by (metis AddrPortV4_roundtrip)

lemma AddrPortV6_new_inject [simp]:
  "AddrPortV6_new e ip port = AddrPortV6_new e ip' port' \<longleftrightarrow> ip = ip' \<and> port = port'"
  by (metis AddrPortV6_roundtrip)

section \<open>The parsed packet\<close>

record parsed_packet =
  timestamp_ns :: u64
  src_ip :: bytes
  dst_ip :: bytes
  packet_length :: u32
  payload_length :: u32
  src_port :: u16
  dst_port :: u16
  ip_version :: u8
  protocol :: u8
  tcp_flags :: u8

text \<open>The two address fields are \<^verbatim>\<open>[u8; 16]\<close> arrays.\<close>

definition wf_packet :: "parsed_packet \<Rightarrow> bool" where
  "wf_packet p \<longleftrightarrow> length (src_ip p) = 16 \<and> length (dst_ip p) = 16"

definition zeroed_packet :: parsed_packet where
  "zeroed_packet =
     \<lparr>timestamp_ns = 0, src_ip = replicate 16 0, dst_ip = replicate 16 0, packet_length = 0,
      payload_length = 0, src_port = 0, dst_port = 0, ip_version = 0, protocol = 0,
      tcp_flags = 0\<rparr>"

definition src_ip_v4 :: "endian \<Rightarrow> parsed_packet \<Rightarrow> u32" where
  "src_ip_v4 e p = from_ne_bytes e (take 4 (src_ip p))"

definition dst_ip_v4 :: "endian \<Rightarrow> parsed_packet \<Rightarrow> u32" where
  "dst_ip_v4 e p = from_ne_bytes e (take 4 (dst_ip p))"

definition src_ip_v6 :: "endian \<Rightarrow> parsed_packet \<Rightarrow> u128" where
  "src_ip_v6 e p = from_ne_bytes e (src_ip p)"

definition dst_ip_v6 :: "endian \<Rightarrow> parsed_packet \<Rightarrow> u128" where
  "dst_ip_v6 e p = from_ne_bytes e (dst_ip p)"

definition src_addr_v4 :: "endian \<Rightarrow> parsed_packet \<Rightarrow> addr_port_v4" where
  "src_addr_v4 e p = AddrPortV4_new e (src_ip_v4 e p) (src_port p)"

definition dst_addr_v4 :: "endian \<Rightarrow> parsed_packet \<Rightarrow> addr_port_v4" where
  "dst_addr_v4 e p = AddrPortV4_new e (dst_ip_v4 e p) (dst_port p)"

definition src_addr_v6 :: "endian \<Rightarrow> parsed_packet \<Rightarrow> addr_port_v6" where
  "src_addr_v6 e p = AddrPortV6_new e (src_ip_v6 e p) (src_port p)"

definition dst_addr_v6 :: "endian \<Rightarrow> parsed_packet \<Rightarrow> addr_port_v6" where
  "dst_addr_v6 e p = AddrPortV6_new e (dst_ip_v6 e p) (dst_port p)"

section \<open>Small shared records\<close>

record drop_event =
  de_timestamp_ns :: u64
  de_src_ip :: bytes
  de_dst_ip :: bytes
  de_src_port :: u16
  de_dst_port :: u16
  de_protocol :: u8
  de_reason :: u8
  de_ip_version :: u8

record rate_state =
  rs_count :: u64
  window_start :: u64

type_synonym dns_name = bytes

definition DnsName_zeroed :: dns_name where
  "DnsName_zeroed = replicate 128 0"

end
