(* ===== verification/Packet_Parsing.thy ===== *)
theory Packet_Parsing
  imports Abi_Models
begin

text \<open>
  The packet parser both XDP programs run (\<^verbatim>\<open>net-guardia-abi/src/ebpf/parsing.rs\<close>) and the
  symmetric queue hash (\<^verbatim>\<open>net-guardia-abi/src/ebpf/symmetric_hash.rs\<close>).

  A frame is the list of bytes between \<^verbatim>\<open>ctx.data()\<close> and \<^verbatim>\<open>ctx.data_end()\<close>, so \<^verbatim>\<open>start + n > end\<close>
  reads \<open>n > length bs\<close>. The functions live in the option monad, where \<open>None\<close> is a read outside
  the frame; the source's own \<^verbatim>\<open>Option\<close> is an option or a flag inside it. The parser writes its
  result through a pointer, so a failed parse returns the partly overwritten packet too.

  What the \<^verbatim>\<open>network_types\<close> crate and the target decide is the argument \<open>P\<close>: the byte order, the
  decoding of the Ethernet type field and the numbers of TCP and UDP. The header structures of
  the crate are the packed wire layouts, of the sizes \<^verbatim>\<open>define/offset.rs\<close> asserts.
\<close>

section \<open>What the platform provides\<close>

datatype ether_type = EtIpv4 | EtIpv6 | EtOther

record platform =
  ne :: endian
  ether_type_of :: "u16 \<Rightarrow> ether_type option"
  IpProto_Tcp :: u8
  IpProto_Udp :: u8

locale ip_platform =
  fixes P :: platform
  assumes ether_ipv4: "ether_type_of P w = Some EtIpv4 \<longleftrightarrow> w = 0x0800"
    and ether_ipv6: "ether_type_of P w = Some EtIpv6 \<longleftrightarrow> w = 0x86DD"
    and tcp_number: "IpProto_Tcp P = 6"
    and udp_number: "IpProto_Udp P = 17"

definition std_platform :: "endian \<Rightarrow> platform" where
  "std_platform e =
     \<lparr>ne = e,
      ether_type_of = (\<lambda>w. if w = 0x0800 then Some EtIpv4 else if w = 0x86DD then Some EtIpv6
                           else if w = 0x0806 then Some EtOther else None),
      IpProto_Tcp = 6, IpProto_Udp = 17\<rparr>"

interpretation std: ip_platform "std_platform e"
  by unfold_locales (auto simp: std_platform_def)

section \<open>Header offsets\<close>

definition ETHER_HEADER_END :: nat where "ETHER_HEADER_END = 14"
definition IPV4_HEADER_START :: nat where "IPV4_HEADER_START = ETHER_HEADER_END"
definition IPV4_HEADER_END :: nat where "IPV4_HEADER_END = IPV4_HEADER_START + 20"
definition IPV6_HEADER_START :: nat where "IPV6_HEADER_START = ETHER_HEADER_END"
definition IPV6_HEADER_END :: nat where "IPV6_HEADER_END = IPV6_HEADER_START + 40"
definition IPV6_TCP_HEADER_START :: nat where "IPV6_TCP_HEADER_START = IPV6_HEADER_END"
definition IPV6_UDP_HEADER_START :: nat where "IPV6_UDP_HEADER_START = IPV6_HEADER_END"
definition TCP_HDR_SIZE :: nat where "TCP_HDR_SIZE = 20"
definition UDP_HDR_SIZE :: nat where "UDP_HDR_SIZE = 8"

lemmas offset_defs =
  ETHER_HEADER_END_def IPV4_HEADER_START_def IPV4_HEADER_END_def IPV6_HEADER_START_def
  IPV6_HEADER_END_def IPV6_TCP_HEADER_START_def IPV6_UDP_HEADER_START_def TCP_HDR_SIZE_def
  UDP_HDR_SIZE_def

section \<open>The parser\<close>

definition read_be_u16 :: "bytes \<Rightarrow> nat \<Rightarrow> u16 option option" where
  "read_be_u16 bs offset =
     (if offset + 2 > length bs then Some None
      else do {
        hi \<leftarrow> rd bs offset;
        lo \<leftarrow> rd bs (offset + 1);
        Some (Some (from_be_bytes [hi, lo]))
      })"

definition parse_ipv4_header_len :: "bytes \<Rightarrow> nat option option" where
  "parse_ipv4_header_len bs =
     (if IPV4_HEADER_START + 1 > length bs then Some None
      else do {
        version_ihl \<leftarrow> rd bs IPV4_HEADER_START;
        let version = drop_bit 4 version_ihl;
            ihl = unat (version_ihl AND 0x0f)
        in if version \<noteq> 4 \<or> \<not> (5 \<le> ihl \<and> ihl \<le> 15) then Some None
           else let header_len = ihl * 4
                in if IPV4_HEADER_START + header_len > length bs then Some None
                   else Some (Some header_len)
      })"

type_synonym l4_info = "u16 \<times> u16 \<times> u8 \<times> nat \<times> nat"

definition parse_tcp :: "bytes \<Rightarrow> nat \<Rightarrow> nat \<Rightarrow> l4_info option option" where
  "parse_tcp bs tcp_start transport_len =
     (if tcp_start + TCP_HDR_SIZE > length bs then Some None
      else if transport_len < TCP_HDR_SIZE then Some None
      else do {
        off \<leftarrow> rd bs (tcp_start + 12);
        let data_offset = unat (drop_bit 4 off)
        in if \<not> (5 \<le> data_offset \<and> data_offset \<le> 15) then Some None
           else let header_len = data_offset * 4
                in if header_len > transport_len \<or> tcp_start + header_len > length bs
                   then Some None
                   else do {
                     flags \<leftarrow> rd bs (tcp_start + 13);
                     source \<leftarrow> rd_slice bs tcp_start 2;
                     dest \<leftarrow> rd_slice bs (tcp_start + 2) 2;
                     Some (Some (from_be_bytes source, from_be_bytes dest, flags, header_len,
                       transport_len))
                   }
      })"

definition parse_udp :: "bytes \<Rightarrow> nat \<Rightarrow> nat \<Rightarrow> l4_info option option" where
  "parse_udp bs udp_start transport_len =
     (if udp_start + UDP_HDR_SIZE > length bs then Some None
      else if transport_len < UDP_HDR_SIZE then Some None
      else do {
        len \<leftarrow> rd_slice bs (udp_start + 4) 2;
        let udp_len = unat (from_be_bytes len :: u16)
        in if udp_len < UDP_HDR_SIZE \<or> udp_len > transport_len then Some None
           else do {
             source \<leftarrow> rd_slice bs udp_start 2;
             dest \<leftarrow> rd_slice bs (udp_start + 2) 2;
             Some (Some (from_be_bytes source, from_be_bytes dest, 0, 8, udp_len))
           }
      })"

text \<open>The \<^verbatim>\<open>match\<close> on the protocol number, common to both address families.\<close>

definition parse_l4 :: "platform \<Rightarrow> bytes \<Rightarrow> u8 \<Rightarrow> nat \<Rightarrow> nat \<Rightarrow> nat \<Rightarrow> l4_info option option" where
  "parse_l4 P bs proto tcp_start udp_start transport_len =
     (if proto = IpProto_Tcp P then parse_tcp bs tcp_start transport_len
      else if proto = IpProto_Udp P then parse_udp bs udp_start transport_len
      else Some (Some (0, 0, 0, 0, 0)))"

definition write_l4 :: "parsed_packet \<Rightarrow> l4_info \<Rightarrow> parsed_packet" where
  "write_l4 t l4 =
     (case l4 of (sport, dport, flags, l4_header_len, transport_len) \<Rightarrow>
        t\<lparr>payload_length := saturating_sub (word_of_nat transport_len) (word_of_nat l4_header_len),
          src_port := sport, dst_port := dport, tcp_flags := flags\<rparr>)"

definition parse_ipv4_packet :: "platform \<Rightarrow> bytes \<Rightarrow> parsed_packet \<Rightarrow> (bool \<times> parsed_packet) option" where
  "parse_ipv4_packet P bs t =
     (if IPV4_HEADER_END > length bs then Some (False, t)
      else do {
        hl \<leftarrow> parse_ipv4_header_len bs;
        case hl of
          None \<Rightarrow> Some (False, t)
        | Some ipv4_header_len \<Rightarrow> do {
            let l4_start = IPV4_HEADER_START + ipv4_header_len;
            total_field \<leftarrow> read_be_u16 bs (IPV4_HEADER_START + 2);
            case total_field of
              None \<Rightarrow> Some (False, t)
            | Some total_len \<Rightarrow> do {
                let ip_total_len = unat total_len;
                if ip_total_len < ipv4_header_len then Some (False, t)
                else do {
                  let transport_len = ip_total_len - ipv4_header_len;
                  src \<leftarrow> rd_slice bs (IPV4_HEADER_START + 12) 4;
                  dst \<leftarrow> rd_slice bs (IPV4_HEADER_START + 16) 4;
                  proto \<leftarrow> rd bs (IPV4_HEADER_START + 9);
                  let t = t\<lparr>src_ip := write_slice (src_ip t) 0 src,
                            dst_ip := write_slice (dst_ip t) 0 dst,
                            packet_length := word_of_nat ip_total_len,
                            ip_version := as_u8 V4, protocol := proto\<rparr>;
                  l4 \<leftarrow> parse_l4 P bs proto l4_start l4_start transport_len;
                  case l4 of
                    None \<Rightarrow> Some (False, t)
                  | Some info \<Rightarrow> Some (True, write_l4 t info)
                }
              }
          }
      })"

definition parse_ipv6_packet :: "platform \<Rightarrow> bytes \<Rightarrow> parsed_packet \<Rightarrow> (bool \<times> parsed_packet) option" where
  "parse_ipv6_packet P bs t =
     (if IPV6_HEADER_END > length bs then Some (False, t)
      else do {
        pl \<leftarrow> read_be_u16 bs (IPV6_HEADER_START + 4);
        case pl of
          None \<Rightarrow> Some (False, t)
        | Some plen \<Rightarrow> do {
            let payload_len = unat plen;
            src \<leftarrow> rd_slice bs (IPV6_HEADER_START + 8) 16;
            dst \<leftarrow> rd_slice bs (IPV6_HEADER_START + 24) 16;
            next_hdr \<leftarrow> rd bs (IPV6_HEADER_START + 6);
            let t = t\<lparr>src_ip := write_slice (src_ip t) 0 src,
                      dst_ip := write_slice (dst_ip t) 0 dst,
                      packet_length := word_of_nat (IPV6_HEADER_END - IPV6_HEADER_START + payload_len),
                      ip_version := as_u8 V6, protocol := next_hdr\<rparr>;
            l4 \<leftarrow> parse_l4 P bs next_hdr IPV6_TCP_HEADER_START IPV6_UDP_HEADER_START payload_len;
            case l4 of
              None \<Rightarrow> Some (False, t)
            | Some info \<Rightarrow> Some (True, write_l4 t info)
          }
      })"

definition parse_packet :: "platform \<Rightarrow> bytes \<Rightarrow> parsed_packet \<Rightarrow> (bool \<times> parsed_packet) option" where
  "parse_packet P bs target =
     (if ETHER_HEADER_END > length bs then Some (False, target)
      else do {
        ty \<leftarrow> rd_slice bs 12 2;
        case ether_type_of P (from_be_bytes ty) of
          None \<Rightarrow> Some (False, target)
        | Some EtIpv4 \<Rightarrow> parse_ipv4_packet P bs target
        | Some EtIpv6 \<Rightarrow> parse_ipv6_packet P bs target
        | Some EtOther \<Rightarrow> Some (False, target)
      })"

section \<open>No read leaves the frame\<close>

lemma read_be_u16_safe:
  "read_be_u16 bs off = Some (if off + 2 \<le> length bs then Some (from_be_bytes [bs ! off, bs ! (off + 1)]) else None)"
  by (auto simp: read_be_u16_def mem_safe)

lemma parse_ipv4_header_len_safe [simp]: "parse_ipv4_header_len bs \<noteq> None"
  by (auto simp: parse_ipv4_header_len_def mem_safe Let_def)

lemma parse_ipv4_header_len_bound:
  "parse_ipv4_header_len bs = Some (Some n) \<Longrightarrow> 20 \<le> n \<and> n \<le> 60 \<and> IPV4_HEADER_START + n \<le> length bs"
  by (auto simp: parse_ipv4_header_len_def Let_def split: if_splits Option.bind_splits)

lemma parse_tcp_safe [simp]: "parse_tcp bs s n \<noteq> None"
  by (auto simp: parse_tcp_def Let_def TCP_HDR_SIZE_def mem_safe)

lemma parse_udp_safe [simp]: "parse_udp bs s n \<noteq> None"
  by (auto simp: parse_udp_def Let_def UDP_HDR_SIZE_def mem_safe)

lemma parse_l4_safe [simp]: "parse_l4 P bs proto s u n \<noteq> None"
  by (simp add: parse_l4_def del: not_None_eq)

text \<open>
  The two address families, past the reads of their fixed headers: the packet as the network
  layer leaves it, then the transport layer.
\<close>

definition ipv4_written :: "bytes \<Rightarrow> parsed_packet \<Rightarrow> parsed_packet" where
  "ipv4_written bs t =
     t\<lparr>src_ip := write_slice (src_ip t) 0 (take 4 (drop 26 bs)),
       dst_ip := write_slice (dst_ip t) 0 (take 4 (drop 30 bs)),
       packet_length := word_of_nat (unat (from_be_bytes [bs ! 16, bs ! 17] :: u16)),
       ip_version := 4, protocol := bs ! 23\<rparr>"

definition ipv6_written :: "bytes \<Rightarrow> parsed_packet \<Rightarrow> parsed_packet" where
  "ipv6_written bs t =
     t\<lparr>src_ip := write_slice (src_ip t) 0 (take 16 (drop 22 bs)),
       dst_ip := write_slice (dst_ip t) 0 (take 16 (drop 38 bs)),
       packet_length := word_of_nat (40 + unat (from_be_bytes [bs ! 18, bs ! 19] :: u16)),
       ip_version := 6, protocol := bs ! 20\<rparr>"

definition finish_l4 :: "parsed_packet \<Rightarrow> l4_info option option \<Rightarrow> (bool \<times> parsed_packet) option" where
  "finish_l4 t l4 =
     (case l4 of None \<Rightarrow> None | Some None \<Rightarrow> Some (False, t) | Some (Some info) \<Rightarrow> Some (True, write_l4 t info))"

lemma bind_finish_l4:
  "Option.bind l4 (case_option (Some (False, t)) (\<lambda>info. Some (True, write_l4 t info))) = finish_l4 t l4"
  by (auto simp: finish_l4_def split: option.splits)

lemma finish_l4_safe [simp]: "finish_l4 t l4 \<noteq> None \<longleftrightarrow> l4 \<noteq> None"
  by (auto simp: finish_l4_def split: option.splits)

lemma parse_ipv4_packet_eq:
  "parse_ipv4_packet P bs t =
     (if length bs < 34 then Some (False, t)
      else case parse_ipv4_header_len bs of
             None \<Rightarrow> None
           | Some None \<Rightarrow> Some (False, t)
           | Some (Some n) \<Rightarrow>
               let ip_total_len = unat (from_be_bytes [bs ! 16, bs ! 17] :: u16)
               in if ip_total_len < n then Some (False, t)
                  else finish_l4 (ipv4_written bs t)
                         (parse_l4 P bs (bs ! 23) (14 + n) (14 + n) (ip_total_len - n)))"
  by (auto simp: parse_ipv4_packet_def offset_defs read_be_u16_safe Let_def mem_safe
      ipv4_written_def bind_finish_l4 [symmetric] split: option.splits)

lemma parse_ipv6_packet_eq:
  "parse_ipv6_packet P bs t =
     (if length bs < 54 then Some (False, t)
      else finish_l4 (ipv6_written bs t)
             (parse_l4 P bs (bs ! 20) 54 54 (unat (from_be_bytes [bs ! 18, bs ! 19] :: u16))))"
  by (auto simp: parse_ipv6_packet_def offset_defs read_be_u16_safe Let_def mem_safe
      ipv6_written_def bind_finish_l4 [symmetric])

lemma parse_ipv4_packet_safe [simp]: "parse_ipv4_packet P bs t \<noteq> None"
  by (simp add: parse_ipv4_packet_eq Let_def del: not_None_eq split: option.split)

lemma parse_ipv6_packet_safe [simp]: "parse_ipv6_packet P bs t \<noteq> None"
  by (simp add: parse_ipv6_packet_eq del: not_None_eq)

lemma parse_packet_eq:
  "parse_packet P bs t =
     (if length bs < 14 then Some (False, t)
      else case ether_type_of P (from_be_bytes (take 2 (drop 12 bs))) of
             Some EtIpv4 \<Rightarrow> parse_ipv4_packet P bs t
           | Some EtIpv6 \<Rightarrow> parse_ipv6_packet P bs t
           | _ \<Rightarrow> Some (False, t))"
  by (auto simp: parse_packet_def ETHER_HEADER_END_def mem_safe split: option.splits ether_type.splits)

lemma parse_packet_total: "parse_packet P bs t \<noteq> None"
  by (simp add: parse_packet_eq del: not_None_eq split: option.split ether_type.split)

section \<open>What a successful parse says\<close>

text \<open>What the transport layer reports is inside the frame and inside the datagram.\<close>

lemma parse_tcp_Some:
  assumes "parse_tcp bs s n = Some (Some info)"
  obtains doff where "5 \<le> doff" "doff \<le> 15" "4 * doff \<le> n" "s + 4 * doff \<le> length bs"
    "info = (from_be_bytes (take 2 (drop s bs)), from_be_bytes (take 2 (drop (s + 2) bs)),
             bs ! (s + 13), 4 * doff, n)"
proof -
  have g: "s + 20 \<le> length bs" "20 \<le> n"
    using assms by (auto simp: parse_tcp_def TCP_HDR_SIZE_def split: if_splits)
  let ?d = "unat (drop_bit 4 (bs ! (s + 12)))"
  have "parse_tcp bs s n =
      (if \<not> (5 \<le> ?d \<and> ?d \<le> 15) then Some None
       else if ?d * 4 > n \<or> s + ?d * 4 > length bs then Some None
       else Some (Some (from_be_bytes (take 2 (drop s bs)), from_be_bytes (take 2 (drop (s + 2) bs)),
              bs ! (s + 13), ?d * 4, n)))"
    using g by (simp add: parse_tcp_def TCP_HDR_SIZE_def Let_def mem_safe)
  then show ?thesis
    using assms by (intro that [of ?d]) (auto split: if_splits)
qed

lemma parse_udp_Some:
  assumes "parse_udp bs s n = Some (Some info)"
  obtains ulen where "8 \<le> ulen" "ulen \<le> n" "s + 8 \<le> length bs"
    "ulen = unat (from_be_bytes (take 2 (drop (s + 4) bs)) :: u16)"
    "info = (from_be_bytes (take 2 (drop s bs)), from_be_bytes (take 2 (drop (s + 2) bs)),
             0, 8, ulen)"
proof -
  have g: "s + 8 \<le> length bs" "8 \<le> n"
    using assms by (auto simp: parse_udp_def UDP_HDR_SIZE_def split: if_splits)
  let ?u = "unat (from_be_bytes (take 2 (drop (s + 4) bs)) :: u16)"
  have "parse_udp bs s n =
      (if ?u < 8 \<or> ?u > n then Some None
       else Some (Some (from_be_bytes (take 2 (drop s bs)), from_be_bytes (take 2 (drop (s + 2) bs)),
              0, 8, ?u)))"
    using g by (simp add: parse_udp_def UDP_HDR_SIZE_def Let_def mem_safe)
  then show ?thesis
    using assms g by (intro that [of ?u]) (auto split: if_splits)
qed

lemma parse_l4_lengths:
  assumes "parse_l4 P bs proto s u n = Some (Some (sp, dp, fl, hl, trl))"
  shows "hl \<le> trl" "trl \<le> n"
proof -
  have "hl \<le> trl \<and> trl \<le> n"
  proof (cases "proto = IpProto_Tcp P")
    case True
    then have "parse_tcp bs s n = Some (Some (sp, dp, fl, hl, trl))"
      using assms by (simp add: parse_l4_def)
    then show ?thesis by (rule parse_tcp_Some) simp
  next
    case not_tcp: False
    show ?thesis
    proof (cases "proto = IpProto_Udp P")
      case True
      then have "parse_udp bs u n = Some (Some (sp, dp, fl, hl, trl))"
        using assms not_tcp by (simp add: parse_l4_def)
      then show ?thesis by (rule parse_udp_Some) simp
    next
      case False
      then show ?thesis using assms not_tcp by (simp add: parse_l4_def)
    qed
  qed
  then show "hl \<le> trl" "trl \<le> n" by simp_all
qed

lemma write_l4_payload:
  assumes "hl \<le> trl" "trl < 2 ^ 32"
  shows "unat (payload_length (write_l4 t (sp, dp, fl, hl, trl))) = trl - hl"
  using assms by (simp add: write_l4_def unat_saturating_sub unat_of_nat)

lemma write_l4_other [simp]:
  "src_ip (write_l4 t l4) = src_ip t" "dst_ip (write_l4 t l4) = dst_ip t"
  "packet_length (write_l4 t l4) = packet_length t" "ip_version (write_l4 t l4) = ip_version t"
  "protocol (write_l4 t l4) = protocol t" "timestamp_ns (write_l4 t l4) = timestamp_ns t"
  by (simp_all add: write_l4_def split: prod.split)

lemma unat_u16_bound: "unat (w :: u16) < 65536"
  using unsigned_less [where 'a = nat and w = w] by simp

lemma finish_l4_ok:
  assumes "finish_l4 t l4 = Some (True, p)"
  obtains info where "l4 = Some (Some info)" "p = write_l4 t info"
  using assms by (auto simp: finish_l4_def split: option.splits)

lemma parse_ipv4_ok:
  assumes "parse_ipv4_packet P bs t = Some (True, p)"
  obtains n info where "34 \<le> length bs" "parse_ipv4_header_len bs = Some (Some n)"
    "n \<le> unat (from_be_bytes [bs ! 16, bs ! 17] :: u16)"
    "parse_l4 P bs (bs ! 23) (14 + n) (14 + n)
       (unat (from_be_bytes [bs ! 16, bs ! 17] :: u16) - n) = Some (Some info)"
    "p = write_l4 (ipv4_written bs t) info"
  using assms
  by (auto simp: parse_ipv4_packet_eq Let_def split: if_splits option.splits elim!: finish_l4_ok)

lemma parse_ipv6_ok:
  assumes "parse_ipv6_packet P bs t = Some (True, p)"
  obtains info where "54 \<le> length bs"
    "parse_l4 P bs (bs ! 20) 54 54 (unat (from_be_bytes [bs ! 18, bs ! 19] :: u16)) = Some (Some info)"
    "p = write_l4 (ipv6_written bs t) info"
  using assms
  by (auto simp: parse_ipv6_packet_eq split: if_splits elim!: finish_l4_ok)

definition ipv4_fields :: "bytes \<Rightarrow> parsed_packet \<Rightarrow> bool" where
  "ipv4_fields bs p \<longleftrightarrow> 34 \<le> length bs \<and> ip_version p = 4 \<and>
     take 4 (src_ip p) = take 4 (drop 26 bs) \<and> take 4 (dst_ip p) = take 4 (drop 30 bs) \<and>
     protocol p = bs ! 23 \<and> unat (packet_length p) = be_val [bs ! 16, bs ! 17]"

definition ipv6_fields :: "bytes \<Rightarrow> parsed_packet \<Rightarrow> bool" where
  "ipv6_fields bs p \<longleftrightarrow> 54 \<le> length bs \<and> ip_version p = 6 \<and>
     src_ip p = take 16 (drop 22 bs) \<and> dst_ip p = take 16 (drop 38 bs) \<and>
     protocol p = bs ! 20 \<and> unat (packet_length p) = 40 + be_val [bs ! 18, bs ! 19]"

lemma unat_be2: "unat (from_be_bytes [a, b] :: u16) = be_val [a, b]"
proof -
  have "be_val [a, b] < 256 ^ length [a, b]" by (rule be_val_bound)
  then show ?thesis by (simp add: from_be_bytes_def unat_of_nat del: be_val.simps of_nat_add of_nat_mult)
qed

lemma be_val2_bound: "be_val [a, b] < 65536"
  using be_val_bound [of "[a, b]"] by simp

lemma ipv4_written_fields:
  assumes "wf_packet t" "34 \<le> length bs"
  shows "ipv4_fields bs (write_l4 (ipv4_written bs t) info)"
    "wf_packet (write_l4 (ipv4_written bs t) info)"
  using assms be_val2_bound [of "bs ! 16" "bs ! 17"]
  by (simp_all add: ipv4_fields_def ipv4_written_def wf_packet_def unat_be2 unat_of_nat
      del: be_val.simps)

lemma ipv6_written_fields:
  assumes "wf_packet t" "54 \<le> length bs"
  shows "ipv6_fields bs (write_l4 (ipv6_written bs t) info)"
    "wf_packet (write_l4 (ipv6_written bs t) info)"
  using assms be_val2_bound [of "bs ! 18" "bs ! 19"]
  by (simp_all add: ipv6_fields_def ipv6_written_def wf_packet_def unat_be2 unat_of_nat
      write_slice_def unat_word_ariths del: be_val.simps)

lemma payload_le_packet4:
  assumes "parse_l4 P bs proto s u (m - n) = Some (Some info)" "m < 65536"
  shows "unat (payload_length (write_l4 t info)) \<le> m - n"
proof -
  obtain sp dp fl hl trl where info: "info = (sp, dp, fl, hl, trl)" by (cases info) auto
  have "hl \<le> trl" "trl \<le> m - n"
    using parse_l4_lengths [OF assms(1) [unfolded info]] by simp_all
  then show ?thesis
    using write_l4_payload [of hl trl t sp dp fl] assms(2) by (simp add: info)
qed

lemma parse_packet_ok_cases:
  assumes "parse_packet P bs t = Some (True, p)"
  obtains (v4) "ether_type_of P (from_be_bytes (take 2 (drop 12 bs))) = Some EtIpv4"
      "parse_ipv4_packet P bs t = Some (True, p)"
  | (v6) "ether_type_of P (from_be_bytes (take 2 (drop 12 bs))) = Some EtIpv6"
      "parse_ipv6_packet P bs t = Some (True, p)"
  using assms by (auto simp: parse_packet_eq split: if_splits option.splits ether_type.splits)

lemma parse_packet_ok_fields:
  assumes "parse_packet P bs t = Some (True, p)" "wf_packet t"
  shows "wf_packet p \<and> timestamp_ns p = timestamp_ns t \<and>
    unat (payload_length p) \<le> unat (packet_length p) \<and>
    (ipv4_fields bs p \<or> ipv6_fields bs p)"
  using assms(1)
proof (cases rule: parse_packet_ok_cases)
  case v4
  from v4(2) obtain n info where h: "34 \<le> length bs"
    "parse_l4 P bs (bs ! 23) (14 + n) (14 + n)
       (unat (from_be_bytes [bs ! 16, bs ! 17] :: u16) - n) = Some (Some info)"
    "p = write_l4 (ipv4_written bs t) info"
    by (rule parse_ipv4_ok)
  have "unat (payload_length p) \<le> unat (from_be_bytes [bs ! 16, bs ! 17] :: u16) - n"
    unfolding h(3) by (rule payload_le_packet4 [OF h(2) unat_u16_bound])
  with ipv4_written_fields [OF assms(2) h(1), of info] show ?thesis
    by (auto simp: h(3) unat_be2 ipv4_fields_def ipv4_written_def simp del: be_val.simps)
next
  case v6
  from v6(2) obtain info where h: "54 \<le> length bs"
    "parse_l4 P bs (bs ! 20) 54 54 (unat (from_be_bytes [bs ! 18, bs ! 19] :: u16) - 0) = Some (Some info)"
    "p = write_l4 (ipv6_written bs t) info"
    by (rule parse_ipv6_ok) simp
  have "unat (payload_length p) \<le> unat (from_be_bytes [bs ! 18, bs ! 19] :: u16) - 0"
    unfolding h(3) by (rule payload_le_packet4 [OF h(2) unat_u16_bound])
  with ipv6_written_fields [OF assms(2) h(1), of info] show ?thesis
    by (auto simp: h(3) unat_be2 ipv6_fields_def ipv6_written_def simp del: be_val.simps)
qed

text \<open>A failed parse leaves the transport fields and the time stamp of the previous packet.\<close>

lemma finish_l4_failed:
  "finish_l4 t l4 = Some (False, p) \<Longrightarrow> p = t"
  by (auto simp: finish_l4_def split: option.splits)

lemma parse_packet_failed:
  assumes "parse_packet P bs t = Some (False, p)"
  shows "p = t \<or> p = ipv4_written bs t \<or> p = ipv6_written bs t"
  using assms
  by (auto simp: parse_packet_eq parse_ipv4_packet_eq parse_ipv6_packet_eq Let_def
      split: if_splits option.splits ether_type.splits dest!: finish_l4_failed)

end
