(* ===== verification/Rate_Limit_Stage.thy ===== *)
theory Rate_Limit_Stage
  imports Packet_Parsing
begin

text \<open>
  The rate limiter of the ingress program (\<^verbatim>\<open>ingress-ebpf/src/action/rate_limit.rs\<close>): four
  fixed-window counters per source address (packets, SYN, UDP, DNS). The program is built in
  the release profile, so \<^verbatim>\<open>now - window_start\<close> and \<^verbatim>\<open>count += 1\<close> wrap at 64 bits.

  The kernel's LRU hash map may evict entries when it inserts one, so its insertion is an
  argument \<open>ins\<close> of the model with the contract \<open>lru_map\<close>: the inserted key holds its new value
  (or the map is unchanged when the insertion fails), and every other key keeps its value or is
  gone.
\<close>

section \<open>Maps\<close>

type_synonym 'k rate_map = "'k \<Rightarrow> rate_state option"
type_synonym 'k lru_insert = "'k rate_map \<Rightarrow> 'k \<Rightarrow> rate_state \<Rightarrow> 'k rate_map"

record rate_maps =
  IPV4_PACKET_RATE_MAP :: "u32 rate_map"
  IPV6_PACKET_RATE_MAP :: "u128 rate_map"
  IPV4_SYN_RATE_MAP :: "u32 rate_map"
  IPV6_SYN_RATE_MAP :: "u128 rate_map"
  IPV4_UDP_RATE_MAP :: "u32 rate_map"
  IPV6_UDP_RATE_MAP :: "u128 rate_map"
  IPV4_DNS_RATE_MAP :: "u32 rate_map"
  IPV6_DNS_RATE_MAP :: "u128 rate_map"

text \<open>The kernel services the stage calls: the two LRU insertions.\<close>

record lru_api =
  lru4 :: "u32 lru_insert"
  lru6 :: "u128 lru_insert"

locale lru_map =
  fixes ins :: "'k lru_insert"
  assumes ins_self: "ins m k v k = Some v \<or> ins m k v = m"
    and ins_other: "k' \<noteq> k \<Longrightarrow> ins m k v k' = m k' \<or> ins m k v k' = None"

text \<open>
  The shape of every such insertion: a policy \<open>victim\<close> picks the entry to evict, if any, and the
  new entry is stored.
\<close>

definition evicting_insert :: "('k rate_map \<Rightarrow> 'k \<Rightarrow> 'k option) \<Rightarrow> 'k lru_insert" where
  "evicting_insert victim m k v =
     (case victim m k of None \<Rightarrow> m | Some k' \<Rightarrow> m(k' := None))(k \<mapsto> v)"

interpretation evict: lru_map "evicting_insert victim"
  by unfold_locales (auto simp: evicting_insert_def split: option.split)

section \<open>The limiter\<close>

type_synonym rate_config = "u32 \<Rightarrow> u64 option"

definition get_config :: "rate_config \<Rightarrow> u32 \<Rightarrow> u64 \<Rightarrow> u64" where
  "get_config C index dflt =
     (case C index of Some v \<Rightarrow> if v > 0 then v else dflt | None \<Rightarrow> dflt)"

definition is_syn_only :: "platform \<Rightarrow> parsed_packet \<Rightarrow> bool" where
  "is_syn_only P pkt \<longleftrightarrow>
     protocol pkt = IpProto_Tcp P \<and> tcp_flags pkt AND TCP_SYN \<noteq> 0 \<and> tcp_flags pkt AND TCP_ACK = 0"

definition check_rate ::
  "'k lru_insert \<Rightarrow> 'k rate_map \<Rightarrow> 'k \<Rightarrow> u64 \<Rightarrow> u64 \<Rightarrow> u64 \<Rightarrow> bool \<times> 'k rate_map" where
  "check_rate ins m key now window limit =
     (case m key of
        Some state \<Rightarrow>
          if now - window_start state \<ge> window
          then (False, m(key \<mapsto> state\<lparr>rs_count := 1, window_start := now\<rparr>))
          else let c = rs_count state + 1
               in (c > limit, m(key \<mapsto> state\<lparr>rs_count := c\<rparr>))
      | None \<Rightarrow> (False, ins m key \<lparr>rs_count = 1, window_start = now\<rparr>))"

text \<open>
  The four checks run in the order of the source; each one that runs updates its map, and the
  first that exceeds its limit ends the stage with its reason.
\<close>

definition ipv4_should_drop ::
  "platform \<Rightarrow> lru_api \<Rightarrow> rate_config \<Rightarrow> u64 \<Rightarrow> rate_maps \<Rightarrow> parsed_packet \<Rightarrow> u8 option \<times> rate_maps" where
  "ipv4_should_drop P L C now R pkt =
     (let window = get_config C CFG_WINDOW_NS DEFAULT_WINDOW_NS;
          ip = src_ip_v4 (ne P) pkt;
          (hit, m) = check_rate (lru4 L) (IPV4_PACKET_RATE_MAP R) ip now window
                       (get_config C CFG_PACKET_RATE DEFAULT_PACKET_RATE);
          R = R\<lparr>IPV4_PACKET_RATE_MAP := m\<rparr>
      in if hit then (Some DROP_REASON_RATE_LIMIT_PKT, R) else
      let (hit, R) =
            (if is_syn_only P pkt then
               let (hit, m) = check_rate (lru4 L) (IPV4_SYN_RATE_MAP R) ip now window
                                (get_config C CFG_SYN_RATE DEFAULT_SYN_RATE)
               in (hit, R\<lparr>IPV4_SYN_RATE_MAP := m\<rparr>)
             else (False, R))
      in if hit then (Some DROP_REASON_RATE_LIMIT_SYN, R) else
      let (hit, R) =
            (if protocol pkt = IpProto_Udp P then
               let (hit, m) = check_rate (lru4 L) (IPV4_UDP_RATE_MAP R) ip now window
                                (get_config C CFG_UDP_RATE DEFAULT_UDP_RATE)
               in (hit, R\<lparr>IPV4_UDP_RATE_MAP := m\<rparr>)
             else (False, R))
      in if hit then (Some DROP_REASON_RATE_LIMIT_UDP, R) else
      let (hit, R) =
            (if protocol pkt = IpProto_Udp P \<and> dst_port pkt = 53 then
               let (hit, m) = check_rate (lru4 L) (IPV4_DNS_RATE_MAP R) ip now window
                                (get_config C CFG_DNS_RATE DEFAULT_DNS_RATE)
               in (hit, R\<lparr>IPV4_DNS_RATE_MAP := m\<rparr>)
             else (False, R))
      in if hit then (Some DROP_REASON_RATE_LIMIT_DNS, R) else (None, R))"

definition ipv6_should_drop ::
  "platform \<Rightarrow> lru_api \<Rightarrow> rate_config \<Rightarrow> u64 \<Rightarrow> rate_maps \<Rightarrow> parsed_packet \<Rightarrow> u8 option \<times> rate_maps" where
  "ipv6_should_drop P L C now R pkt =
     (let window = get_config C CFG_WINDOW_NS DEFAULT_WINDOW_NS;
          ip = src_ip_v6 (ne P) pkt;
          (hit, m) = check_rate (lru6 L) (IPV6_PACKET_RATE_MAP R) ip now window
                       (get_config C CFG_PACKET_RATE DEFAULT_PACKET_RATE);
          R = R\<lparr>IPV6_PACKET_RATE_MAP := m\<rparr>
      in if hit then (Some DROP_REASON_RATE_LIMIT_PKT, R) else
      let (hit, R) =
            (if is_syn_only P pkt then
               let (hit, m) = check_rate (lru6 L) (IPV6_SYN_RATE_MAP R) ip now window
                                (get_config C CFG_SYN_RATE DEFAULT_SYN_RATE)
               in (hit, R\<lparr>IPV6_SYN_RATE_MAP := m\<rparr>)
             else (False, R))
      in if hit then (Some DROP_REASON_RATE_LIMIT_SYN, R) else
      let (hit, R) =
            (if protocol pkt = IpProto_Udp P then
               let (hit, m) = check_rate (lru6 L) (IPV6_UDP_RATE_MAP R) ip now window
                                (get_config C CFG_UDP_RATE DEFAULT_UDP_RATE)
               in (hit, R\<lparr>IPV6_UDP_RATE_MAP := m\<rparr>)
             else (False, R))
      in if hit then (Some DROP_REASON_RATE_LIMIT_UDP, R) else
      let (hit, R) =
            (if protocol pkt = IpProto_Udp P \<and> dst_port pkt = 53 then
               let (hit, m) = check_rate (lru6 L) (IPV6_DNS_RATE_MAP R) ip now window
                                (get_config C CFG_DNS_RATE DEFAULT_DNS_RATE)
               in (hit, R\<lparr>IPV6_DNS_RATE_MAP := m\<rparr>)
             else (False, R))
      in if hit then (Some DROP_REASON_RATE_LIMIT_DNS, R) else (None, R))"

definition should_drop ::
  "platform \<Rightarrow> lru_api \<Rightarrow> rate_config \<Rightarrow> u64 \<Rightarrow> rate_maps \<Rightarrow> parsed_packet \<Rightarrow> u8 option \<times> rate_maps" where
  "should_drop P L C now R pkt =
     (if ip_version pkt = as_u8 V4 then ipv4_should_drop P L C now R pkt
      else if ip_version pkt = as_u8 V6 then ipv6_should_drop P L C now R pkt
      else (None, R))"

lemma get_config_pos: "dflt > 0 \<Longrightarrow> get_config C index dflt > 0"
  by (auto simp: get_config_def split: option.split)

section \<open>The counters of one source\<close>

text \<open>
  A source's counter over a run of packets, one time stamp each: the list says which packets are
  dropped.
\<close>

fun rate_run :: "'k lru_insert \<Rightarrow> 'k \<Rightarrow> u64 \<Rightarrow> u64 \<Rightarrow> 'k rate_map \<Rightarrow> u64 list \<Rightarrow> bool list" where
  "rate_run ins key window limit m [] = []"
| "rate_run ins key window limit m (t # ts) =
     (case check_rate ins m key t window limit of
        (hit, m') \<Rightarrow> hit # rate_run ins key window limit m' ts)"

definition passed :: "bool list \<Rightarrow> nat" where
  "passed hits = length (filter Not hits)"

lemma passed_simps [simp]: "passed [] = 0" "passed (h # hs) = (if h then 0 else 1) + passed hs"
  by (simp_all add: passed_def)

lemma check_rate_tracked:
  assumes "m key = Some st"
  shows "check_rate ins m key now window limit =
    (if now - window_start st \<ge> window
     then (False, m(key \<mapsto> st\<lparr>rs_count := 1, window_start := now\<rparr>))
     else (rs_count st + 1 > limit, m(key \<mapsto> st\<lparr>rs_count := rs_count st + 1\<rparr>)))"
  using assms by (simp add: check_rate_def Let_def)

text \<open>
  Inside one window the counter admits exactly the packets up to the limit: from count \<open>c\<close>, of
  the next \<open>n\<close> packets that fall inside the window, \<open>limit - c\<close> pass (as long as the 64-bit
  counter does not wrap).
\<close>

lemma rate_run_same_window:
  assumes "m key = Some st" "\<forall>t \<in> set ts. t - window_start st < window"
    and "unat (rs_count st) + length ts < 2 ^ 64"
  shows "passed (rate_run ins key window limit m ts) = min (length ts) (unat limit - unat (rs_count st))"
  using assms
proof (induction ts arbitrary: m st)
  case (Cons t ts)
  let ?st = "st\<lparr>rs_count := rs_count st + 1\<rparr>"
  have lt: "t - window_start st < window" using Cons.prems(2) by simp
  have c: "unat (rs_count st + 1) = Suc (unat (rs_count st))"
    using Cons.prems(3) by (simp add: unat_word_ariths)
  have IH: "passed (rate_run ins key window limit (m(key \<mapsto> ?st)) ts) =
      min (length ts) (unat limit - unat (rs_count ?st))"
    by (rule Cons.IH) (use Cons.prems c in simp_all)
  have hit: "rs_count st + 1 > limit \<longleftrightarrow> unat limit < Suc (unat (rs_count st))"
    by (simp add: word_less_nat_alt c)
  have run: "rate_run ins key window limit m (t # ts) =
      (rs_count st + 1 > limit) # rate_run ins key window limit (m(key \<mapsto> ?st)) ts"
    using lt by (simp add: check_rate_tracked [where m = m and key = key and st = st, OF Cons.prems(1)] not_le [symmetric])
  show ?case
    unfolding run passed_simps IH hit
    using c by (auto simp: min_def)
qed simp

text \<open>
  Over any stretch of time shorter than the window at most twice the limit passes: the rest of
  the old window and one fresh window.
\<close>

lemma unat_diff_u64: "unat b \<le> unat a \<Longrightarrow> unat (a - b) = unat a - unat (b :: u64)"
  by (simp add: unat_sub_if_size)

lemma rate_run_span:
  assumes "m key = Some st" "sorted (map unat ts)" "limit > 0"
    and "\<forall>t \<in> set ts. unat (window_start st) \<le> unat t"
    and "\<forall>t \<in> set ts. \<forall>t' \<in> set ts. unat t - unat t' < unat window"
    and "unat (rs_count st) + length ts < 2 ^ 64"
  shows "passed (rate_run ins key window limit m ts) \<le> (unat limit - unat (rs_count st)) + unat limit"
  using assms
proof (induction ts arbitrary: m st)
  case (Cons t ts)
  have L: "unat limit > 0" using Cons.prems(3) by (simp add: word_less_nat_alt)
  show ?case
  proof (cases "t - window_start st \<ge> window")
    case True
    let ?st = "st\<lparr>rs_count := 1, window_start := t\<rparr>"
    have run: "rate_run ins key window limit m (t # ts) =
        False # rate_run ins key window limit (m(key \<mapsto> ?st)) ts"
      using True by (simp add: check_rate_tracked [where m = m and key = key and st = st, OF Cons.prems(1)] not_le [symmetric])
    have in_window: "t' - window_start ?st < window" if "t' \<in> set ts" for t'
    proof -
      have "unat t \<le> unat t'" using Cons.prems(2) that by simp
      moreover have "unat t' - unat t < unat window" using Cons.prems(5) that by simp
      ultimately show ?thesis by (simp add: word_less_nat_alt unat_diff_u64)
    qed
    have "passed (rate_run ins key window limit (m(key \<mapsto> ?st)) ts) \<le> unat limit - 1"
      by (subst rate_run_same_window [where st = ?st]) (use in_window Cons.prems(6) in auto)
    then show ?thesis using L by (simp only: run passed_simps) simp
  next
    case False
    let ?st = "st\<lparr>rs_count := rs_count st + 1\<rparr>"
    have c: "unat (rs_count st + 1) = Suc (unat (rs_count st))"
      using Cons.prems(6) by (simp add: unat_word_ariths)
    have run: "rate_run ins key window limit m (t # ts) =
        (rs_count st + 1 > limit) # rate_run ins key window limit (m(key \<mapsto> ?st)) ts"
      using False by (simp add: check_rate_tracked [where m = m and key = key and st = st, OF Cons.prems(1)] not_le [symmetric])
    have "passed (rate_run ins key window limit (m(key \<mapsto> ?st)) ts)
        \<le> (unat limit - unat (rs_count ?st)) + unat limit"
      by (rule Cons.IH) (use Cons.prems c in simp_all)
    then show ?thesis
      by (simp only: run passed_simps) (auto simp: c word_less_nat_alt)
  qed
qed simp

text \<open>A source that is not tracked yet starts a fresh window with its first packet.\<close>

context lru_map
begin

lemma rate_run_fresh:
  assumes "m key = None" "ins m key \<lparr>rs_count = 1, window_start = t\<rparr> key \<noteq> None" "limit > 0"
    and "\<forall>t' \<in> set ts. t' - t < window" "length ts < 2 ^ 64 - 1"
  shows "passed (rate_run ins key window limit m (t # ts)) = min (Suc (length ts)) (unat limit)"
proof -
  let ?st = "\<lparr>rs_count = 1, window_start = t\<rparr>"
  have st: "ins m key ?st key = Some ?st"
    using ins_self [of m key ?st] assms(1,2) by auto
  have "passed (rate_run ins key window limit (ins m key ?st) ts) = min (length ts) (unat limit - 1)"
    by (subst rate_run_same_window [where st = ?st]) (use st assms(4,5) in auto)
  moreover have "unat limit > 0" using assms(3) by (simp add: word_less_nat_alt)
  ultimately show ?thesis
    using assms(1) by (auto simp: check_rate_def min_def)
qed

text \<open>One source's packets never change the verdict on another: its entry stays or is evicted.\<close>

lemma check_rate_other:
  assumes "k \<noteq> key" "check_rate ins m key now window limit = (hit, m')"
  shows "m' k = m k \<or> m' k = None"
  using assms ins_other [OF assms(1), of m "\<lparr>rs_count = 1, window_start = now\<rparr>"]
  by (auto simp: check_rate_def Let_def split: option.splits if_splits)

end

end
