(* ===== verification/Rust_Float.thy ===== *)
theory Rust_Float
  imports Prelude Complex_Main "HOL-Library.Log_Nat"
begin

text \<open>
  The floating-point numbers of the sources: \<^verbatim>\<open>f32\<close> and \<^verbatim>\<open>f64\<close> as IEEE 754 values. A finite value is
  the rational number it stands for (both zeros are 0, which no comparison or conversion in the
  sources tells apart), and an operation is the exact one followed by rounding to the nearest value
  of the format, ties to even, with overflow to infinity.
\<close>

datatype flt = NaN | PosInf | NegInf | Fin rat

text \<open>A format: precision in bits, least exponent of a unit in the last place, overflow exponent.\<close>

record float_format =
  prec :: nat
  min_exp :: int
  max_exp :: int

definition f64 :: float_format where
  "f64 = \<lparr>prec = 53, min_exp = - 1074, max_exp = 1024\<rparr>"

definition f32 :: float_format where
  "f32 = \<lparr>prec = 24, min_exp = - 149, max_exp = 128\<rparr>"

section \<open>Rounding\<close>

text \<open>The exponent of a positive rational: \<open>2\<^sup>e \<le> q < 2\<^sup>e\<^sup>+\<^sup>1\<close>.\<close>

definition exponent :: "rat \<Rightarrow> int" where
  "exponent q =
     (let (a, b) = quotient_of q; k = int (floorlog 2 (nat a)) - int (floorlog 2 (nat b))
      in if 2 powi k \<le> q then k else k - 1)"

definition round_half_even :: "rat \<Rightarrow> int" where
  "round_half_even x =
     (let n = \<lfloor>x\<rfloor>; d = x - of_int n
      in if d < 1 / 2 then n else if d > 1 / 2 then n + 1 else if even n then n else n + 1)"

definition round_pos :: "float_format \<Rightarrow> rat \<Rightarrow> rat" where
  "round_pos f q =
     (if q \<le> 0 then 0
      else let e = max (exponent q - int (prec f) + 1) (min_exp f)
           in of_int (round_half_even (q / 2 powi e)) * 2 powi e)"

definition to_flt :: "float_format \<Rightarrow> rat \<Rightarrow> flt" where
  "to_flt f q =
     (if q \<ge> 0
      then let r = round_pos f q in if r \<ge> 2 powi max_exp f then PosInf else Fin r
      else let r = round_pos f (- q) in if r \<ge> 2 powi max_exp f then NegInf else Fin (- r))"

section \<open>Operations\<close>

fun fle :: "flt \<Rightarrow> flt \<Rightarrow> bool" where
  "fle NaN _ = False"
| "fle _ NaN = False"
| "fle NegInf _ = True"
| "fle _ PosInf = True"
| "fle (Fin a) (Fin b) = (a \<le> b)"
| "fle _ _ = False"

definition fge :: "flt \<Rightarrow> flt \<Rightarrow> bool" where
  "fge a b = fle b a"

text \<open>\<^verbatim>\<open>n as f64\<close>, multiplication, and \<^verbatim>\<open>x as u64\<close>, which truncates and saturates.\<close>

definition u64_as_f64 :: "u64 \<Rightarrow> flt" where
  "u64_as_f64 n = to_flt f64 (of_nat (unat n))"

fun fmul :: "float_format \<Rightarrow> flt \<Rightarrow> flt \<Rightarrow> flt" where
  "fmul f (Fin a) (Fin b) = to_flt f (a * b)"
| "fmul f NaN _ = NaN"
| "fmul f _ NaN = NaN"
| "fmul f (Fin a) PosInf = (if a = 0 then NaN else if a > 0 then PosInf else NegInf)"
| "fmul f (Fin a) NegInf = (if a = 0 then NaN else if a > 0 then NegInf else PosInf)"
| "fmul f PosInf (Fin b) = (if b = 0 then NaN else if b > 0 then PosInf else NegInf)"
| "fmul f NegInf (Fin b) = (if b = 0 then NaN else if b > 0 then NegInf else PosInf)"
| "fmul f PosInf PosInf = PosInf"
| "fmul f NegInf NegInf = PosInf"
| "fmul f PosInf NegInf = NegInf"
| "fmul f NegInf PosInf = NegInf"

fun f64_as_u64 :: "flt \<Rightarrow> u64" where
  "f64_as_u64 NaN = 0"
| "f64_as_u64 NegInf = 0"
| "f64_as_u64 PosInf = - 1"
| "f64_as_u64 (Fin q) = (if q \<le> 0 then 0 else if q \<ge> 2 ^ 64 then - 1 else word_of_int \<lfloor>q\<rfloor>)"

section \<open>Rounding is monotone\<close>

lemma floorlog_powi:
  assumes "a > 0"
  shows "2 powi (int (floorlog 2 (nat a)) - 1) \<le> (of_int a :: rat)" "of_int a < (2 :: rat) powi int (floorlog 2 (nat a))"
proof -
  let ?l = "floorlog 2 (nat a)"
  have b: "2 ^ (?l - 1) \<le> nat a" "nat a < 2 ^ ?l" using floorlog_bounds [of "nat a" 2] assms by auto
  have "?l > 0" using assms by (simp add: floorlog_def)
  have "(of_nat (2 ^ (?l - 1)) :: rat) \<le> of_nat (nat a)" "(of_nat (nat a) :: rat) < of_nat (2 ^ ?l)"
    using b by (simp_all only: of_nat_le_iff of_nat_less_iff)
  moreover have "int ?l - 1 = int (?l - 1)" using \<open>?l > 0\<close> by simp
  ultimately show "2 powi (int ?l - 1) \<le> (of_int a :: rat)" "of_int a < (2 :: rat) powi int ?l"
    using assms by (simp_all only: power_int_of_nat) simp_all
qed

lemma exponent_bounds:
  assumes "q > 0"
  shows "2 powi exponent q \<le> q" "q < 2 powi (exponent q + 1)"
proof -
  obtain a b where ab: "quotient_of q = (a, b)" by force
  then have q: "q = of_int a / of_int b" "b > 0" by (auto simp: quotient_of_div quotient_of_denom_pos)
  with assms have a: "a > 0" by (simp add: zero_less_divide_iff)
  let ?la = "int (floorlog 2 (nat a))" and ?lb = "int (floorlog 2 (nat b))"
  note fa = floorlog_powi [OF a] and fb = floorlog_powi [OF q(2)]
  have "q < 2 powi ?la / 2 powi (?lb - 1)"
    unfolding q(1) using fa fb a q(2) by (intro frac_less) auto
  then have hi: "q < 2 powi (?la - ?lb + 1)" by (simp add: power_int_diff power_int_add)
  have "2 powi (?la - 1) / 2 powi ?lb \<le> q"
    unfolding q(1) using fa fb a q(2) by (intro frac_le) (auto intro: less_imp_le)
  then have lo: "2 powi (?la - ?lb - 1) \<le> q" by (simp add: power_int_diff power_int_add field_simps)
  show "2 powi exponent q \<le> q" "q < 2 powi (exponent q + 1)"
    using lo hi by (auto simp: exponent_def ab Let_def)
qed

lemma powi_less_imp: "(2 :: rat) powi m < 2 powi n \<Longrightarrow> m < n"
  by (rule ccontr) (use power_int_increasing [of n m "2 :: rat"] in linarith)

lemma exponent_mono:
  assumes "0 < p" "p \<le> q"
  shows "exponent p \<le> exponent q"
proof -
  have "(2 :: rat) powi exponent p < 2 powi (exponent q + 1)"
    using exponent_bounds(1) [OF assms(1)] exponent_bounds(2) [of q] assms by linarith
  then show ?thesis using powi_less_imp by fastforce
qed

lemma round_half_even_mono:
  assumes "x \<le> y"
  shows "round_half_even x \<le> round_half_even y"
proof (cases "\<lfloor>x\<rfloor> = \<lfloor>y\<rfloor>")
  case True
  with assms show ?thesis by (auto simp: round_half_even_def Let_def)
next
  case False
  with assms have "\<lfloor>x\<rfloor> + 1 \<le> \<lfloor>y\<rfloor>" using floor_mono [OF assms] by linarith
  then show ?thesis by (auto simp: round_half_even_def Let_def)
qed

lemma round_half_even_int [simp]: "round_half_even (of_int n) = n"
  by (simp add: round_half_even_def)

lemma round_half_even_le: "x \<le> of_int n \<Longrightarrow> round_half_even x \<le> n"
  using round_half_even_mono [of x "of_int n"] by simp

lemma round_half_even_ge: "of_int n \<le> x \<Longrightarrow> n \<le> round_half_even x"
  using round_half_even_mono [of "of_int n" x] by simp

lemma powi_nat: "(2 :: rat) powi (int n) = of_int (2 ^ n)"
  by simp

lemma round_pos_mono:
  assumes "0 < p" "p \<le> q" "prec f > 0"
  shows "round_pos f p \<le> round_pos f q"
proof -
  let ?e = "\<lambda>q. max (exponent q - int (prec f) + 1) (min_exp f)"
  have e: "?e p \<le> ?e q" using exponent_mono [OF assms(1,2)] by auto
  show ?thesis
  proof (cases "?e p = ?e q")
    case True
    have "p / 2 powi ?e q \<le> q / 2 powi ?e q" using assms(2) by (simp add: divide_right_mono)
    then have "round_half_even (p / 2 powi ?e q) \<le> round_half_even (q / 2 powi ?e q)" by (rule round_half_even_mono)
    then show ?thesis using True assms(1,2) by (simp add: round_pos_def Let_def)
  next
    case False
    with e have eq: "?e q = exponent q - int (prec f) + 1" "?e p + 1 \<le> ?e q" by auto
    have "p < 2 powi (exponent p + 1)" by (rule exponent_bounds(2) [OF assms(1)])
    also have "\<dots> \<le> 2 powi (?e p + int (prec f))" by (rule power_int_increasing) auto
    finally have "p / 2 powi ?e p \<le> 2 powi (int (prec f))"
      by (simp add: power_int_add divide_le_eq mult.commute less_imp_le)
    then have p: "round_half_even (p / 2 powi ?e p) \<le> 2 ^ prec f" by (intro round_half_even_le) simp
    have "2 powi (?e q + (int (prec f) - 1)) \<le> q"
      using exponent_bounds(1) [of q] assms eq(1) by simp
    then have "2 powi int (prec f - 1) \<le> q / 2 powi ?e q"
      using assms(3) by (simp add: power_int_add le_divide_eq mult.commute of_nat_diff del: power_int_of_nat)
    then have q: "2 ^ (prec f - 1) \<le> round_half_even (q / 2 powi ?e q)" by (intro round_half_even_ge) simp
    have "of_int (round_half_even (p / 2 powi ?e p)) * 2 powi ?e p \<le> of_int (2 ^ prec f) * (2 :: rat) powi ?e p"
      using p by (intro mult_right_mono) (simp_all only: of_int_le_iff, simp)
    also have "\<dots> = 2 powi (int (prec f) + ?e p)" by (simp add: power_int_add)
    also have "\<dots> \<le> 2 powi (int (prec f - 1) + ?e q)" using eq(2) assms(3) by (intro power_int_increasing) (auto simp: of_nat_diff)
    also have "\<dots> = of_int (2 ^ (prec f - 1)) * 2 powi ?e q" by (simp add: power_int_add)
    also have "\<dots> \<le> of_int (round_half_even (q / 2 powi ?e q)) * 2 powi ?e q"
      using q by (intro mult_right_mono) (simp_all only: of_int_le_iff, simp)
    finally show ?thesis using assms(1,2) by (simp add: round_pos_def Let_def)
  qed
qed

lemma round_pos_nat:
  assumes "n < 2 ^ prec f" "min_exp f \<le> 0"
  shows "round_pos f (of_nat n) = of_nat n"
proof (cases "n = 0")
  case False
  let ?e = "max (exponent (of_nat n) - int (prec f) + 1) (min_exp f)"
  have "(2 :: rat) powi exponent (of_nat n) \<le> of_nat n" using False by (intro exponent_bounds(1)) simp
  also have "\<dots> < of_nat (2 ^ prec f)" using assms(1) by (simp only: of_nat_less_iff)
  also have "\<dots> = 2 powi int (prec f)" by simp
  finally have "exponent (of_nat n :: rat) < int (prec f)" by (rule powi_less_imp)
  then have "?e \<le> 0" using assms(2) by simp
  then obtain k where e: "?e = - int k" using nonpos_int_cases by metis
  have div: "(of_nat n :: rat) / 2 powi (- int k) = of_int (int n * 2 ^ k)"
    by (simp add: power_int_minus divide_inverse)
  have "of_int (int n * 2 ^ k) * (2 :: rat) powi (- int k) = of_nat n" by (simp add: power_int_minus)
  with False show ?thesis
    unfolding round_pos_def Let_def e div round_half_even_int by simp
qed (simp add: round_pos_def)

section \<open>Scaling an integer down\<close>

lemma f64_simps [simp]: "prec f64 = 53" "min_exp f64 = - 1074" "max_exp f64 = 1024"
  by (simp_all add: f64_def)

lemma below_overflow: "m < 2 ^ 53 \<Longrightarrow> (of_nat m :: rat) < 2 powi 1024"
proof -
  assume "m < 2 ^ 53"
  then have "(of_nat m :: rat) < of_nat (2 ^ 1024)" by (simp only: of_nat_less_iff) simp
  also have "\<dots> = 2 powi 1024" by (simp add: power_int_def)
  finally show ?thesis .
qed

lemma to_flt_nat:
  assumes "m < 2 ^ 53"
  shows "to_flt f64 (of_nat m) = Fin (of_nat m)"
  using below_overflow [OF assms] round_pos_nat [of m f64] assms by (simp add: to_flt_def Let_def not_le)

text \<open>An integer below \<open>2\<^sup>5\<^sup>3\<close> times a factor in the unit interval does not grow.\<close>

lemma scale_nat:
  assumes "m < 2 ^ 53" "0 \<le> q" "q \<le> 1"
  shows "fmul f64 (to_flt f64 (of_nat m)) (Fin q) = Fin (round_pos f64 (of_nat m * q))"
    "round_pos f64 (of_nat m * q) \<le> of_nat m"
proof -
  have rn: "round_pos f64 (of_nat m) = of_nat m" using assms(1) by (intro round_pos_nat) simp_all
  show le: "round_pos f64 (of_nat m * q) \<le> of_nat m"
  proof (cases "of_nat m * q > 0")
    case True
    have "of_nat m * q \<le> of_nat m" using assms(2,3) by (simp add: mult_left_le)
    with True show ?thesis using round_pos_mono [of "of_nat m * q" "of_nat m" f64] rn by simp
  qed (simp add: round_pos_def not_less)
  show "fmul f64 (to_flt f64 (of_nat m)) (Fin q) = Fin (round_pos f64 (of_nat m * q))"
    using le below_overflow [OF assms(1)] assms(2) by (simp add: to_flt_nat [OF assms(1)]) (simp add: to_flt_def Let_def)
qed

lemma scale_le:
  assumes "unat n < 2 ^ 53" "0 \<le> q" "q \<le> 1"
  shows "f64_as_u64 (fmul f64 (u64_as_f64 n) (Fin q)) \<le> n"
proof -
  define m where "m = unat n"
  define r where "r = round_pos f64 (of_nat m * q)"
  have m: "m < 2 ^ 53" using assms(1) by (simp add: m_def)
  have mul: "fmul f64 (u64_as_f64 n) (Fin q) = Fin r"
    using scale_nat(1) [OF m assms(2,3)] by (simp only: u64_as_f64_def m_def [symmetric] r_def)
  have le: "r \<le> of_nat m" using scale_nat(2) [OF m assms(2,3)] by (simp add: r_def)
  show ?thesis
  proof (cases "r \<le> 0")
    case False
    have fl: "0 \<le> \<lfloor>r\<rfloor>" "\<lfloor>r\<rfloor> \<le> int m" using le False by (simp_all add: floor_le_iff)
    have small: "int m < 2 ^ 64" using m by simp
    have r: "r < 2 ^ 64"
    proof -
      have "(of_nat m :: rat) < of_nat (2 ^ 64)" using small m by (simp only: of_nat_less_iff) simp
      also have "(of_nat (2 ^ 64) :: rat) = 2 ^ 64" by simp
      finally show ?thesis using le by linarith
    qed
    with fl have "uint (word_of_int \<lfloor>r\<rfloor> :: u64) = \<lfloor>r\<rfloor>" by (intro word_of_int_inverse) simp_all
    moreover have "uint n = int m" by (simp add: m_def)
    ultimately show ?thesis using False fl r by (simp add: mul word_le_def)
  qed (simp add: mul)
qed

section \<open>Numbers of the unit interval\<close>

lemma f32_simps [simp]: "prec f32 = 24" "min_exp f32 = - 149" "max_exp f32 = 128"
  by (simp_all add: f32_def)

lemma to_flt_unit:
  assumes "0 < q" "q \<le> 1" "f \<in> {f32, f64}"
  shows "to_flt f q = Fin (round_pos f q)" "0 \<le> round_pos f q" "round_pos f q \<le> 1"
proof -
  have "round_pos f (of_nat 1) = of_nat 1" using assms(3) by (intro round_pos_nat) auto
  then show le: "round_pos f q \<le> 1" using round_pos_mono [of q 1 f] assms by auto
  show "0 \<le> round_pos f q"
    using assms(1) round_half_even_ge [of 0] by (auto simp: round_pos_def Let_def not_le intro!: mult_nonneg_nonneg)
  have "(1 :: rat) < 2 powi max_exp f" using assms(3) by (intro one_less_power_int) auto
  with le assms(1) show "to_flt f q = Fin (round_pos f q)" by (simp add: to_flt_def Let_def not_le)
qed

lemma fle_unit:
  assumes "0 < a" "a \<le> b" "b \<le> 1" "f \<in> {f32, f64}"
  shows "fle (to_flt f a) (to_flt f b)" "fle (to_flt f b) (Fin 1)" "fle (Fin 0) (to_flt f b)"
proof -
  have "round_pos f a \<le> round_pos f b" using assms by (intro round_pos_mono) auto
  then show "fle (to_flt f a) (to_flt f b)" "fle (to_flt f b) (Fin 1)" "fle (Fin 0) (to_flt f b)"
    using assms to_flt_unit [of a f] to_flt_unit [of b f] by simp_all
qed

end
