(* ===== verification/Domain_Errors.thy ===== *)
theory Domain_Errors
  imports Rust_Float
begin

text \<open>
  The error values of the control plane (\<^verbatim>\<open>domain/data_plane/error.rs\<close>, \<^verbatim>\<open>domain/response/error.rs\<close>,
  \<^verbatim>\<open>common/error\<close>), with the constructors the modelled operations return. The source error that
  \<^verbatim>\<open>traceable!\<close> attaches to some variants for logging is left out.
\<close>

datatype ebpf_error =
    ProgramNotFound | GetProgramFailed | LoadProgramFailed | AttachProgramFailed | ProgramFdFailed
  | MapNotFound | MapOperationError | IpDoesNotExist | RuleReachLimit
  | InvalidIpAddress string
  | InvalidDnsDomain string
  | DnsLabelOutOfRange nat
  | DnsDomainTooLong string
  | TooManyDnsDomains nat
  | InvalidRateLimitValue string u64
  | InvalidCountryCode string
  | InvalidGeoIpCidr string
  | IpVersionMismatch string
  | NotLoaded

datatype system_error = InvalidConfigField string | InvalidPipelineStage string string

datatype soar_error =
    CapReached u32
  | InvalidTtl u64 u64
  | InvalidTtlNonPositive u64
  | TtlTooLarge u64
  | ActionFailed string
  | UnknownActionType string
  | RateLimitUnavailable
  | InvalidRateLimitFactor flt
  | WebhookMissingParam string
  | WebhookUrlNoHost
  | WebhookUnsupportedScheme string
  | WebhookDnsEmpty string
  | WebhookSsrfBlocked string string
  | WebhookHttpStatus u16
  | UnblockRuleNotFound int
  | AclCleanupFailed
  | PendingUnblockQueueFailed string
  | UnknownConditionType string
  | InvalidConditionOperator string string
  | ValidationFailed string
  | RateLimitOwnerUnavailable
  | RateLimitOwnerJoinFailed

text \<open>What the database layer reports is not interpreted: a message.\<close>

datatype error = Ebpf ebpf_error | System system_error | Soar soar_error | Database string

end
