(* ===== verification/Port_Rule.thy ===== *)
theory Port_Rule
  imports Abi_Models
begin

text \<open>
  The port rule of an access-control entry (\<^verbatim>\<open>net-guardia-abi/src/model/port_rule.rs\<close>): a flag
  that matches every port, or an array of 32 ports of which the first \<^verbatim>\<open>count\<close> are in use. The
  loops and the array accesses are written out, with an index outside the array as the value
  \<open>None\<close>; the lemmas show that a well-formed rule is a set of at most 32 ports, that every
  operation keeps it well-formed and never indexes outside the array.
\<close>

section \<open>The rule and its operations\<close>

record port_rule =
  match_all :: u8
  count :: u8
  ports :: "u16 list"

definition PORT_RULE_MATCH_ALL :: u8 where "PORT_RULE_MATCH_ALL = 1"

definition new_empty :: port_rule where
  "new_empty = \<lparr>match_all = 0, count = 0, ports = replicate MAX_RULES_PORT 0\<rparr>"

definition new_match_all :: port_rule where
  "new_match_all =
     \<lparr>match_all = PORT_RULE_MATCH_ALL, count = 0, ports = replicate MAX_RULES_PORT 0\<rparr>"

definition is_match_all :: "port_rule \<Rightarrow> bool" where
  "is_match_all r \<longleftrightarrow> match_all r = PORT_RULE_MATCH_ALL"

text \<open>
  The three loops run over the indices \<^verbatim>\<open>0..count\<close>. \<open>find_port\<close> is their common search: it
  stops at the first index that holds the port and breaks at index 32.
\<close>

datatype port_search = Found nat | OffEnd | NotFound

fun find_port :: "u16 list \<Rightarrow> nat list \<Rightarrow> u16 \<Rightarrow> port_search" where
  "find_port ps [] port = NotFound"
| "find_port ps (i # is) port =
     (if i \<ge> MAX_RULES_PORT then OffEnd
      else if ps ! i = port then Found i
      else find_port ps is port)"

definition contains :: "port_rule \<Rightarrow> u16 \<Rightarrow> bool" where
  "contains r port =
     (if is_match_all r then True
      else case find_port (ports r) [0..<unat (count r)] port of
             Found _ \<Rightarrow> True | OffEnd \<Rightarrow> False | NotFound \<Rightarrow> False)"

definition add_port :: "port_rule \<Rightarrow> u16 \<Rightarrow> bool \<times> port_rule" where
  "add_port r port =
     (if is_match_all r then (True, r)
      else case find_port (ports r) [0..<unat (count r)] port of
             Found _ \<Rightarrow> (True, r)
           | OffEnd \<Rightarrow> (False, r)
           | NotFound \<Rightarrow>
               if unat (count r) \<ge> MAX_RULES_PORT then (False, r)
               else (True, r\<lparr>ports := (ports r)[unat (count r) := port], count := count r + 1\<rparr>))"

text \<open>
  \<^verbatim>\<open>for j in i..count - 1 { ports[j] = ports[j + 1] }\<close>; reading or writing outside the array is
  \<open>None\<close>.
\<close>

fun shift_down :: "u16 list \<Rightarrow> nat list \<Rightarrow> u16 list option" where
  "shift_down ps [] = Some ps"
| "shift_down ps (j # js) =
     (if j + 1 < length ps then shift_down (ps[j := ps ! (j + 1)]) js else None)"

definition remove_port :: "port_rule \<Rightarrow> u16 \<Rightarrow> (bool \<times> port_rule) option" where
  "remove_port r port =
     (case find_port (ports r) [0..<unat (count r)] port of
        Found i \<Rightarrow>
          (case shift_down (ports r) [i..<unat (count r) - 1] of
             None \<Rightarrow> None
           | Some ps \<Rightarrow>
               let c = count r - 1
               in if unat c < length ps
                  then Some (True, r\<lparr>count := c, ports := ps[unat c := 0]\<rparr>)
                  else None)
      | OffEnd \<Rightarrow> Some (False, r)
      | NotFound \<Rightarrow> Some (False, r))"

definition to_port_vec :: "port_rule \<Rightarrow> u16 list" where
  "to_port_vec r = take (min (unat (count r)) MAX_RULES_PORT) (ports r)"

definition is_empty :: "port_rule \<Rightarrow> bool" where
  "is_empty r \<longleftrightarrow> \<not> is_match_all r \<and> count r = 0"

section \<open>Well-formed rules\<close>

definition wf_rule :: "port_rule \<Rightarrow> bool" where
  "wf_rule r \<longleftrightarrow> length (ports r) = MAX_RULES_PORT \<and> unat (count r) \<le> MAX_RULES_PORT \<and>
     distinct (to_port_vec r)"

lemma wf_ruleD:
  assumes "wf_rule r"
  shows "length (ports r) = MAX_RULES_PORT" "unat (count r) \<le> MAX_RULES_PORT"
    "distinct (to_port_vec r)"
  using assms by (simp_all add: wf_rule_def)

lemma to_port_vec_wf: "wf_rule r \<Longrightarrow> to_port_vec r = take (unat (count r)) (ports r)"
  by (simp add: wf_rule_def to_port_vec_def)

lemma set_to_port_vec:
  assumes "wf_rule r"
  shows "set (to_port_vec r) = {ports r ! i | i. i < unat (count r)}"
  using wf_ruleD(1,2) [OF assms]
  by (auto simp: to_port_vec_wf [OF assms] nth_image [symmetric])

lemma find_port_NotFound:
  assumes "\<forall>i \<in> set is. i < MAX_RULES_PORT"
  shows "find_port ps is port = NotFound \<longleftrightarrow> (\<forall>i \<in> set is. ps ! i \<noteq> port)"
  using assms by (induction "is") auto

lemma find_port_Found: "find_port ps is port = Found i \<Longrightarrow> i \<in> set is \<and> ps ! i = port"
  by (induction "is") (auto split: if_splits)

lemma find_port_OffEnd: "find_port ps is port = OffEnd \<Longrightarrow> \<exists>i \<in> set is. i \<ge> MAX_RULES_PORT"
  by (induction "is") (auto split: if_splits)

lemma find_port_wf:
  assumes "wf_rule r"
  obtains (found) i where "find_port (ports r) [0..<unat (count r)] port = Found i"
      "i < unat (count r)" "ports r ! i = port" "port \<in> set (to_port_vec r)"
  | (absent) "find_port (ports r) [0..<unat (count r)] port = NotFound"
      "port \<notin> set (to_port_vec r)"
proof (cases "find_port (ports r) [0..<unat (count r)] port")
  case (Found i)
  then show ?thesis
    using find_port_Found [OF Found] assms found by (auto simp: set_to_port_vec)
next
  case OffEnd
  then show ?thesis
    using find_port_OffEnd [OF OffEnd] assms by (auto simp: wf_rule_def)
next
  case NotFound
  moreover have "\<forall>i \<in> set [0..<unat (count r)]. i < MAX_RULES_PORT"
    using assms by (auto simp: wf_rule_def)
  ultimately show ?thesis
    using assms find_port_NotFound [of "[0..<unat (count r)]" "ports r" port] absent
    by (fastforce simp: set_to_port_vec)
qed

lemma contains_iff:
  "wf_rule r \<Longrightarrow> contains r port \<longleftrightarrow> is_match_all r \<or> port \<in> set (to_port_vec r)"
  by (erule find_port_wf [where port = port]) (auto simp: contains_def)

lemma wf_new_empty [simp]: "wf_rule new_empty"
  and wf_new_match_all [simp]: "wf_rule new_match_all"
  by (simp_all add: wf_rule_def new_empty_def new_match_all_def to_port_vec_def)

lemma new_empty_simps [simp]: "to_port_vec new_empty = []" "\<not> is_match_all new_empty"
  by (simp_all add: new_empty_def to_port_vec_def is_match_all_def PORT_RULE_MATCH_ALL_def)

lemma new_match_all_simps [simp]: "is_match_all new_match_all"
  by (simp add: new_match_all_def is_match_all_def)

lemma length_to_port_vec: "wf_rule r \<Longrightarrow> length (to_port_vec r) = unat (count r)"
  by (simp add: to_port_vec_wf wf_ruleD)

subsection \<open>Adding a port\<close>

lemma unat_count_Suc:
  "unat (count r) < MAX_RULES_PORT \<Longrightarrow> unat (count r + 1) = Suc (unat (count r))"
  by (simp add: MAX_RULES_PORT_def unat_word_ariths)

lemma append_port_vec:
  assumes "wf_rule r" "unat (count r) < MAX_RULES_PORT"
  shows "to_port_vec (r\<lparr>ports := (ports r)[unat (count r) := port], count := count r + 1\<rparr>)
         = to_port_vec r @ [port]"
  using assms unat_count_Suc [OF assms(2)]
  by (simp add: to_port_vec_def wf_rule_def take_Suc_conv_app_nth min_absorb1)

lemma add_port_cases:
  assumes "wf_rule r" "\<not> is_match_all r"
  shows "add_port r port =
    (if port \<in> set (to_port_vec r) then (True, r)
     else if length (to_port_vec r) = MAX_RULES_PORT then (False, r)
     else (True, r\<lparr>ports := (ports r)[unat (count r) := port], count := count r + 1\<rparr>))"
proof -
  have le: "unat (count r) \<le> MAX_RULES_PORT" using assms by (simp add: wf_rule_def)
  from assms(1) show ?thesis
    by (rule find_port_wf [where port = port])
      (use assms le in \<open>auto simp: add_port_def length_to_port_vec\<close>)
qed

lemma is_match_all_add [simp]: "is_match_all (snd (add_port r port)) = is_match_all r"
  by (auto simp: add_port_def is_match_all_def split: port_search.splits)

lemma wf_add_port:
  assumes "wf_rule r"
  shows "wf_rule (snd (add_port r port))"
proof (cases "is_match_all r")
  case True
  then show ?thesis using assms by (simp add: add_port_def)
next
  case False
  show ?thesis
  proof (cases "port \<in> set (to_port_vec r) \<or> length (to_port_vec r) = MAX_RULES_PORT")
    case True
    then show ?thesis using assms False by (auto simp: add_port_cases)
  next
    case new: False
    then have lt: "unat (count r) < MAX_RULES_PORT"
      using assms length_to_port_vec [OF assms] by (simp add: wf_rule_def)
    then have "wf_rule (r\<lparr>ports := (ports r)[unat (count r) := port], count := count r + 1\<rparr>)"
      using assms new append_port_vec [OF assms lt, of port] unat_count_Suc [OF lt]
      by (simp add: wf_rule_def)
    then show ?thesis using assms False new by (simp add: add_port_cases)
  qed
qed

lemma add_port_set:
  assumes "wf_rule r" "\<not> is_match_all r"
  shows "fst (add_port r port) \<longleftrightarrow> port \<in> set (to_port_vec r) \<or> length (to_port_vec r) < MAX_RULES_PORT"
    and "set (to_port_vec (snd (add_port r port))) =
         (if fst (add_port r port) then insert port (set (to_port_vec r)) else set (to_port_vec r))"
proof -
  have le: "length (to_port_vec r) \<le> MAX_RULES_PORT"
    using assms by (simp add: length_to_port_vec wf_rule_def)
  then show "fst (add_port r port) \<longleftrightarrow>
      port \<in> set (to_port_vec r) \<or> length (to_port_vec r) < MAX_RULES_PORT"
    using assms by (auto simp: add_port_cases)
  show "set (to_port_vec (snd (add_port r port))) =
      (if fst (add_port r port) then insert port (set (to_port_vec r)) else set (to_port_vec r))"
    using assms le append_port_vec [OF assms(1), of port]
    by (auto simp: add_port_cases length_to_port_vec)
qed

subsection \<open>Removing a port\<close>

lemma shift_down_eq:
  assumes "i \<le> n" "n < length ps"
  shows "shift_down ps [i..<n] = Some (take i ps @ take (n - i) (drop (Suc i) ps) @ drop n ps)"
  using assms
proof (induction "n - i" arbitrary: i ps)
  case 0
  then show ?case by simp
next
  case (Suc k)
  then have lt: "i < n" by simp
  let ?ps = "ps[i := ps ! Suc i]"
  have step: "shift_down ps [i..<n] = shift_down ?ps [Suc i..<n]"
    using lt Suc.prems by (simp add: upt_conv_Cons)
  have IH: "shift_down ?ps [Suc i..<n] =
      Some (take (Suc i) ?ps @ take (n - Suc i) (drop (Suc (Suc i)) ?ps) @ drop n ?ps)"
    by (rule Suc.hyps(1)) (use Suc.hyps(2) lt Suc.prems in simp_all)
  have "take (Suc i) ?ps = take i ps @ [ps ! Suc i]"
    using lt Suc.prems by (simp add: take_Suc_conv_app_nth)
  moreover have "take (n - i) (drop (Suc i) ps) =
      ps ! Suc i # take (n - Suc i) (drop (Suc (Suc i)) ps)"
    using lt Suc.prems by (simp add: Cons_nth_drop_Suc [symmetric] Suc_diff_Suc [symmetric])
  ultimately show ?case
    using step IH lt by simp
qed

lemma take_remove_nth:
  assumes "Suc n \<le> length ps" "i \<le> n" "distinct (take (Suc n) ps)"
  shows "take i ps @ take (n - i) (drop (Suc i) ps) = remove1 (ps ! i) (take (Suc n) ps)"
proof -
  have split: "take (Suc n) ps = take i ps @ ps ! i # take (n - i) (drop (Suc i) ps)"
    using assms(1,2)
    by (subst id_take_nth_drop [where i = i and xs = "take (Suc n) ps"])
      (simp_all add: min_def drop_take)
  with assms(3) have "ps ! i \<notin> set (take i ps)"
    by simp
  then show ?thesis
    by (simp add: split remove1_append)
qed

lemma remove_port_vec:
  assumes "wf_rule r" "i < unat (count r)" "ports r ! i = port"
    and found: "find_port (ports r) [0..<unat (count r)] port = Found i"
  obtains r' where "remove_port r port = Some (True, r')" "match_all r' = match_all r"
    "length (ports r') = MAX_RULES_PORT" "unat (count r') = unat (count r) - 1"
    "take (unat (count r')) (ports r') = remove1 port (to_port_vec r)"
proof -
  let ?n = "unat (count r) - 1"
  let ?c = "count r - 1"
  let ?ps = "take i (ports r) @ take (?n - i) (drop (Suc i) (ports r)) @ drop ?n (ports r)"
  have bounds: "i \<le> ?n" "?n < length (ports r)" "Suc ?n = unat (count r)"
    using wf_ruleD(1,2) [OF assms(1)] assms(2) by simp_all
  have c: "unat ?c = ?n"
    using assms(2) by (subst unat_minus_one) auto
  have len: "length ?ps = MAX_RULES_PORT"
    using bounds wf_ruleD(1,2) [OF assms(1)] by (auto simp: min_def)
  let ?r' = "r\<lparr>count := ?c, ports := ?ps[unat ?c := 0]\<rparr>"
  have eq: "remove_port r port = Some (True, ?r')"
    using found shift_down_eq [OF bounds(1,2)] len bounds assms(1) c
    by (simp add: remove_port_def Let_def wf_rule_def del: One_nat_def)
  have len2: "length (take i (ports r) @ take (?n - i) (drop (Suc i) (ports r))) = ?n"
    using bounds by simp
  have "take ?n (?ps[?n := 0]) = take i (ports r) @ take (?n - i) (drop (Suc i) (ports r))"
    by (metis append_assoc append_eq_conv_conj le_refl len2 take_update_cancel)
  also have "\<dots> = remove1 (ports r ! i) (take (Suc ?n) (ports r))"
    by (rule take_remove_nth) (use bounds wf_ruleD [OF assms(1)] to_port_vec_wf [OF assms(1)] in simp_all)
  finally have "take (unat (count ?r')) (ports ?r') = remove1 port (to_port_vec r)"
    using assms(3) to_port_vec_wf [OF assms(1)] bounds(3) c by (simp del: One_nat_def)
  from that [OF eq _ _ _ this] show ?thesis
    using len c by simp
qed

lemma wf_remove_port:
  assumes "wf_rule r"
  obtains b r' where "remove_port r port = Some (b, r')" "wf_rule r'"
    "b \<longleftrightarrow> port \<in> set (to_port_vec r)" "is_match_all r' = is_match_all r"
    "to_port_vec r' = remove1 port (to_port_vec r)"
  using assms
proof (rule find_port_wf [where port = port])
  fix i
  assume f: "find_port (ports r) [0..<unat (count r)] port = Found i" "i < unat (count r)"
    "ports r ! i = port" "port \<in> set (to_port_vec r)"
  obtain r' where r': "remove_port r port = Some (True, r')" "match_all r' = match_all r"
    "length (ports r') = MAX_RULES_PORT" "unat (count r') = unat (count r) - 1"
    "take (unat (count r')) (ports r') = remove1 port (to_port_vec r)"
    using remove_port_vec [OF assms f(2,3,1)] by blast
  have le: "unat (count r') \<le> MAX_RULES_PORT"
    using r'(4) wf_ruleD(2) [OF assms] by simp
  then have vec: "to_port_vec r' = remove1 port (to_port_vec r)"
    using r'(5) by (simp add: to_port_vec_def)
  then have "wf_rule r'"
    using r'(3) le assms by (simp add: wf_rule_def)
  then show thesis
    using that [of True r'] r'(1,2) vec f(4) by (simp add: is_match_all_def)
next
  assume "find_port (ports r) [0..<unat (count r)] port = NotFound" "port \<notin> set (to_port_vec r)"
  then show thesis
    using that [of False r] assms by (simp add: remove_port_def remove1_idem)
qed

end
