(* ===== verification/Access_Control_Stage.thy ===== *)
theory Access_Control_Stage
  imports Packet_Parsing Port_Rule
begin

text \<open>
  The access-control tests of the ingress program (\<^verbatim>\<open>ingress-ebpf/src/action/access_control.rs\<close>).
  The BPF hash maps are read as partial functions from the key; a GeoIP trie is read through its
  longest-prefix lookup \<^verbatim>\<open>LpmTrie::get\<close>, a function of the key's prefix length and data.
\<close>

record acl_maps =
  IPV4_SRC_WHITELIST :: "u32 \<Rightarrow> port_rule option"
  IPV6_SRC_WHITELIST :: "u128 \<Rightarrow> port_rule option"
  IPV4_DST_WHITELIST :: "u32 \<Rightarrow> port_rule option"
  IPV6_DST_WHITELIST :: "u128 \<Rightarrow> port_rule option"
  IPV4_SRC_BLACKLIST :: "u32 \<Rightarrow> port_rule option"
  IPV6_SRC_BLACKLIST :: "u128 \<Rightarrow> port_rule option"
  IPV4_DST_BLACKLIST :: "u32 \<Rightarrow> port_rule option"
  IPV6_DST_BLACKLIST :: "u128 \<Rightarrow> port_rule option"
  GEO_BLOCK_V4 :: "u32 \<Rightarrow> u32 \<Rightarrow> u8 option"
  GEO_BLOCK_V6 :: "u32 \<Rightarrow> u128 \<Rightarrow> u8 option"

definition ipv4_is_geo_blocked :: "endian \<Rightarrow> acl_maps \<Rightarrow> parsed_packet \<Rightarrow> bool" where
  "ipv4_is_geo_blocked e M pkt =
     (let src = from_ne_bytes e (take 4 (src_ip pkt)) in GEO_BLOCK_V4 M 32 src \<noteq> None)"

definition ipv6_is_geo_blocked :: "endian \<Rightarrow> acl_maps \<Rightarrow> parsed_packet \<Rightarrow> bool" where
  "ipv6_is_geo_blocked e M pkt =
     (let src = from_ne_bytes e (src_ip pkt) in GEO_BLOCK_V6 M 128 src \<noteq> None)"

text \<open>\<^verbatim>\<open>if let Some(rule) = map.get(&ip) && rule.contains(port)\<close>\<close>

definition rule_hit :: "('k \<Rightarrow> port_rule option) \<Rightarrow> 'k \<Rightarrow> u16 \<Rightarrow> bool" where
  "rule_hit m k port = (case m k of Some rule \<Rightarrow> contains rule port | None \<Rightarrow> False)"

definition ipv4_is_whitelisted :: "endian \<Rightarrow> acl_maps \<Rightarrow> parsed_packet \<Rightarrow> bool" where
  "ipv4_is_whitelisted e M pkt =
     (let src = src_ip_v4 e pkt; dst = dst_ip_v4 e pkt
      in if rule_hit (IPV4_SRC_WHITELIST M) src (src_port pkt) then True
         else if rule_hit (IPV4_DST_WHITELIST M) dst (dst_port pkt) then True
         else False)"

definition ipv6_is_whitelisted :: "endian \<Rightarrow> acl_maps \<Rightarrow> parsed_packet \<Rightarrow> bool" where
  "ipv6_is_whitelisted e M pkt =
     (let src = src_ip_v6 e pkt; dst = dst_ip_v6 e pkt
      in if rule_hit (IPV6_SRC_WHITELIST M) src (src_port pkt) then True
         else if rule_hit (IPV6_DST_WHITELIST M) dst (dst_port pkt) then True
         else False)"

definition ipv4_is_blacklisted :: "endian \<Rightarrow> acl_maps \<Rightarrow> parsed_packet \<Rightarrow> bool" where
  "ipv4_is_blacklisted e M pkt =
     (let src = src_ip_v4 e pkt; dst = dst_ip_v4 e pkt
      in if rule_hit (IPV4_SRC_BLACKLIST M) src (src_port pkt) then True
         else if rule_hit (IPV4_DST_BLACKLIST M) dst (dst_port pkt) then True
         else False)"

definition ipv6_is_blacklisted :: "endian \<Rightarrow> acl_maps \<Rightarrow> parsed_packet \<Rightarrow> bool" where
  "ipv6_is_blacklisted e M pkt =
     (let src = src_ip_v6 e pkt; dst = dst_ip_v6 e pkt
      in if rule_hit (IPV6_SRC_BLACKLIST M) src (src_port pkt) then True
         else if rule_hit (IPV6_DST_BLACKLIST M) dst (dst_port pkt) then True
         else False)"

text \<open>
  The verdict of the whole stage, as \<^verbatim>\<open>try_access_control\<close> composes the tests: the whitelist
  first, then the GeoIP tries, then the blacklist.
\<close>

datatype acl_verdict = Whitelisted | Blocked u8 | NoMatch

definition acl_verdict_of :: "endian \<Rightarrow> acl_maps \<Rightarrow> parsed_packet \<Rightarrow> acl_verdict" where
  "acl_verdict_of e M pkt =
     (if ip_version pkt = as_u8 V4 then
        if ipv4_is_whitelisted e M pkt then Whitelisted
        else if ipv4_is_geo_blocked e M pkt then Blocked DROP_REASON_GEO_BLOCK
        else if ipv4_is_blacklisted e M pkt then Blocked DROP_REASON_ACL_BLACKLIST
        else NoMatch
      else if ip_version pkt = as_u8 V6 then
        if ipv6_is_whitelisted e M pkt then Whitelisted
        else if ipv6_is_geo_blocked e M pkt then Blocked DROP_REASON_GEO_BLOCK
        else if ipv6_is_blacklisted e M pkt then Blocked DROP_REASON_ACL_BLACKLIST
        else NoMatch
      else NoMatch)"

lemma rule_hit_match_all: "m k = Some r \<Longrightarrow> is_match_all r \<Longrightarrow> rule_hit m k port"
  by (simp add: rule_hit_def contains_def)

lemma ipv4_blacklisted_src:
  "IPV4_SRC_BLACKLIST M (src_ip_v4 e pkt) = Some r \<Longrightarrow> contains r (src_port pkt) \<Longrightarrow>
   ipv4_is_blacklisted e M pkt"
  by (simp add: ipv4_is_blacklisted_def rule_hit_def)

lemma ipv6_blacklisted_src:
  "IPV6_SRC_BLACKLIST M (src_ip_v6 e pkt) = Some r \<Longrightarrow> contains r (src_port pkt) \<Longrightarrow>
   ipv6_is_blacklisted e M pkt"
  by (simp add: ipv6_is_blacklisted_def rule_hit_def)

text \<open>A whitelisted packet is never blocked, whatever the other lists say.\<close>

lemma whitelist_wins:
  "ip_version pkt = 4 \<Longrightarrow> ipv4_is_whitelisted e M pkt \<Longrightarrow> acl_verdict_of e M pkt = Whitelisted"
  "ip_version pkt = 6 \<Longrightarrow> ipv6_is_whitelisted e M pkt \<Longrightarrow> acl_verdict_of e M pkt = Whitelisted"
  by (simp_all add: acl_verdict_of_def)

lemma blocked_reason:
  "acl_verdict_of e M pkt = Blocked reason \<Longrightarrow>
   reason = DROP_REASON_GEO_BLOCK \<or> reason = DROP_REASON_ACL_BLACKLIST"
  by (auto simp: acl_verdict_of_def split: if_splits)

end
