(* ===== verification/Acl_Adapter.thy ===== *)
theory Acl_Adapter
  imports Access_Control_Stage Domain_Errors
begin

text \<open>
  The user-space side of the access-control lists (\<^verbatim>\<open>adapter/ebpf/access_control.rs\<close>): eight BPF
  hash maps from an address to a port rule, edited by the control plane and read by the ingress
  program. The maps live in the kernel: an update through aya either changes one key or fails and
  changes nothing, as the locale \<open>bpf_hash\<close> says; inserting over a key that is present never fails,
  inserting a new one fails when the map is full, and deleting an absent key fails.

  A \<open>None\<close> of the removal operations is an index outside a port array, which the invariant
  \<open>wf_map\<close> rules out.
\<close>

section \<open>The kernel's hash maps\<close>

type_synonym ('k, 'v) hm_insert = "('k \<rightharpoonup> 'v) \<Rightarrow> 'k \<Rightarrow> 'v \<Rightarrow> ('k \<rightharpoonup> 'v) option"
type_synonym ('k, 'v) hm_remove = "('k \<rightharpoonup> 'v) \<Rightarrow> 'k \<Rightarrow> ('k \<rightharpoonup> 'v) option"

locale bpf_hash =
  fixes ins :: "('k, 'v) hm_insert" and del :: "('k, 'v) hm_remove"
  assumes ins_Some: "ins m k v = Some m' \<Longrightarrow> m' = m(k \<mapsto> v)"
    and ins_present: "m k \<noteq> None \<Longrightarrow> ins m k v \<noteq> None"
    and del_Some: "del m k = Some m' \<Longrightarrow> m' = m(k := None)"
    and del_iff: "del m k \<noteq> None \<longleftrightarrow> m k \<noteq> None"

text \<open>A map with room for \<open>cap\<close> entries.\<close>

definition cap_insert :: "nat \<Rightarrow> ('k, 'v) hm_insert" where
  "cap_insert cap m k v = (if m k \<noteq> None \<or> card (dom m) < cap then Some (m(k \<mapsto> v)) else None)"

definition key_remove :: "('k, 'v) hm_remove" where
  "key_remove m k = (if m k = None then None else Some (m(k := None)))"

interpretation capped: bpf_hash "cap_insert cap" key_remove
  by unfold_locales (auto simp: cap_insert_def key_remove_def split: if_splits)

section \<open>Directions, lists and addresses\<close>

datatype flow_direction = Source | Destination
datatype list_type = White | Black

definition flow_direction_as_str :: "flow_direction \<Rightarrow> string" where
  "flow_direction_as_str d = (case d of Source \<Rightarrow> ''source'' | Destination \<Rightarrow> ''destination'')"

definition flow_direction_from_str :: "string \<Rightarrow> (string, flow_direction) result" where
  "flow_direction_from_str v =
     (if v = ''source'' then Inr Source else if v = ''destination'' then Inr Destination
      else Inl (''unknown ACL direction: '' @ v))"

definition list_type_as_str :: "list_type \<Rightarrow> string" where
  "list_type_as_str t = (case t of White \<Rightarrow> ''whitelist'' | Black \<Rightarrow> ''blacklist'')"

definition list_type_from_str :: "string \<Rightarrow> (string, list_type) result" where
  "list_type_from_str v =
     (if v = ''whitelist'' then Inr White else if v = ''blacklist'' then Inr Black
      else Inl (''unknown ACL list_type: '' @ v))"

lemma as_str_roundtrip [simp]:
  "flow_direction_from_str (flow_direction_as_str d) = Inr d"
  "list_type_from_str (list_type_as_str t) = Inr t"
  by (cases d; cases t; simp add: flow_direction_from_str_def flow_direction_as_str_def
      list_type_from_str_def list_type_as_str_def)+

text \<open>An IP address as its number (\<^verbatim>\<open>to_bits\<close>), with a port.\<close>

record socket_addr_v4 =
  sa4_ip :: u32
  sa4_port :: u16

record socket_addr_v6 =
  sa6_ip :: u128
  sa6_port :: u16

text \<open>\<^verbatim>\<open>NativeConvert\<close>: the map keys are addresses in network byte order.\<close>

definition ipv4_from_native :: "endian \<Rightarrow> u32 \<Rightarrow> u32" where
  "ipv4_from_native e native = to_be e 4 native"

definition ipv4_into_native :: "endian \<Rightarrow> u32 \<Rightarrow> u32" where
  "ipv4_into_native e k = to_be e 4 k"

definition ipv6_from_native :: "endian \<Rightarrow> u128 \<Rightarrow> u128" where
  "ipv6_from_native e native = to_be e 16 native"

definition ipv6_into_native :: "endian \<Rightarrow> u128 \<Rightarrow> u128" where
  "ipv6_into_native e k = to_be e 16 k"

definition addr_port_v4_from_native :: "endian \<Rightarrow> socket_addr_v4 \<Rightarrow> addr_port_v4" where
  "addr_port_v4_from_native e sa = AddrPortV4_new e (to_be e 4 (sa4_ip sa)) (sa4_port sa)"

definition addr_port_v4_into_native :: "endian \<Rightarrow> addr_port_v4 \<Rightarrow> socket_addr_v4" where
  "addr_port_v4_into_native e k = \<lparr>sa4_ip = to_be e 4 (AddrPortV4_ip e k), sa4_port = AddrPortV4_port e k\<rparr>"

definition addr_port_v6_from_native :: "endian \<Rightarrow> socket_addr_v6 \<Rightarrow> addr_port_v6" where
  "addr_port_v6_from_native e sa = AddrPortV6_new e (to_be e 16 (sa6_ip sa)) (sa6_port sa)"

definition addr_port_v6_into_native :: "endian \<Rightarrow> addr_port_v6 \<Rightarrow> socket_addr_v6" where
  "addr_port_v6_into_native e k = \<lparr>sa6_ip = to_be e 16 (AddrPortV6_ip e k), sa6_port = AddrPortV6_port e k\<rparr>"

lemma native_roundtrip [endian_simps]:
  "ipv4_into_native e (ipv4_from_native e a) = a"
  "ipv6_into_native e (ipv6_from_native e b) = b"
  "addr_port_v4_into_native e (addr_port_v4_from_native e sa) = sa"
  "addr_port_v6_into_native e (addr_port_v6_from_native e sb) = sb"
  by (simp_all add: ipv4_into_native_def ipv4_from_native_def ipv6_into_native_def ipv6_from_native_def
      addr_port_v4_into_native_def addr_port_v4_from_native_def addr_port_v6_into_native_def
      addr_port_v6_from_native_def to_be_involution AddrPortV4_roundtrip AddrPortV6_roundtrip)

section \<open>One list\<close>

text \<open>\<^verbatim>\<open>MapWrapper\<close>: \<open>None\<close> where the eBPF object is not loaded.\<close>

type_synonym 'k map_wrapper = "('k \<rightharpoonup> port_rule) option"

datatype port_rule_removal = Unchanged | Update | Delete

definition get_list :: "('k \<Rightarrow> 'n) \<Rightarrow> 'k map_wrapper \<Rightarrow> ('n \<times> u16 list) set" where
  "get_list into_native w =
     (case w of None \<Rightarrow> {} | Some m \<Rightarrow> {(into_native key, to_port_vec rule) | key rule. m key = Some rule})"

definition map_wrapper_add ::
  "('k, port_rule) hm_insert \<Rightarrow> 'k map_wrapper \<Rightarrow> 'k \<Rightarrow> u16 \<Rightarrow> (ebpf_error, 'k map_wrapper) result" where
  "map_wrapper_add ins w ip port =
     and_then (ok_or w NotLoaded) (\<lambda>m.
       if port = 0 then
         and_then (ok_or (ins m ip new_match_all) MapOperationError) (\<lambda>m. Inr (Some m))
       else
         let rule = (case m ip of Some r \<Rightarrow> r | None \<Rightarrow> new_empty) in
         if is_match_all rule then Inr w
         else
           let (added, rule) = add_port rule port in
           if \<not> added then Inl RuleReachLimit
           else and_then (ok_or (ins m ip rule) MapOperationError) (\<lambda>m. Inr (Some m)))"

definition remove_port_from_rule :: "port_rule \<Rightarrow> u16 \<Rightarrow> (port_rule_removal \<times> port_rule) option" where
  "remove_port_from_rule rule port =
     (if is_match_all rule then Some (if port = 0 then Delete else Unchanged, rule)
      else map_option (\<lambda>(_, rule). (if is_empty rule then Delete else Update, rule)) (remove_port rule port))"

definition map_wrapper_remove ::
  "('k, port_rule) hm_insert \<Rightarrow> ('k, port_rule) hm_remove \<Rightarrow> 'k map_wrapper \<Rightarrow> 'k \<Rightarrow> u16
   \<Rightarrow> (ebpf_error, 'k map_wrapper) result option" where
  "map_wrapper_remove ins del w ip port =
     (case w of
        None \<Rightarrow> Some (Inl NotLoaded)
      | Some m \<Rightarrow>
          if port = 0 then
            Some (and_then (ok_or (del m ip) MapOperationError) (\<lambda>m. Inr (Some m)))
          else
            (case m ip of
               None \<Rightarrow> Some (Inl IpDoesNotExist)
             | Some rule \<Rightarrow>
                 (case remove_port_from_rule rule port of
                    None \<Rightarrow> None
                  | Some (Unchanged, _) \<Rightarrow> Some (Inr w)
                  | Some (Delete, _) \<Rightarrow>
                      Some (and_then (ok_or (del m ip) MapOperationError) (\<lambda>m. Inr (Some m)))
                  | Some (Update, rule) \<Rightarrow>
                      Some (and_then (ok_or (ins m ip rule) MapOperationError) (\<lambda>m. Inr (Some m))))))"

text \<open>The rules a map holds are well-formed, and none is empty: an entry always matches some port.\<close>

definition wf_map :: "('k \<rightharpoonup> port_rule) \<Rightarrow> bool" where
  "wf_map m \<longleftrightarrow> (\<forall>k r. m k = Some r \<longrightarrow> wf_rule r \<and> \<not> is_empty r)"

lemma wf_map_upd: "wf_map m \<Longrightarrow> wf_rule r \<Longrightarrow> \<not> is_empty r \<Longrightarrow> wf_map (m(k \<mapsto> r))"
  by (auto simp: wf_map_def)

lemma wf_map_del: "wf_map m \<Longrightarrow> wf_map (m(k := None))"
  by (auto simp: wf_map_def)

lemma wf_map_empty [simp]: "wf_map Map.empty"
  by (simp add: wf_map_def)

text \<open>The ports an entry matches, as the ingress program reads it.\<close>

lemma contains_add_port:
  assumes "wf_rule r" "\<not> is_match_all r" "add_port r port = (True, r')"
  shows "contains r' p \<longleftrightarrow> contains r p \<or> p = port" "wf_rule r'" "\<not> is_empty r'" "\<not> is_match_all r'"
proof -
  have m: "\<not> is_match_all r'" using is_match_all_add [of r port] assms(2,3) by simp
  then show "\<not> is_match_all r'" .
  show wf: "wf_rule r'" using wf_add_port [OF assms(1), of port] assms(3) by simp
  have ports: "set (to_port_vec r') = insert port (set (to_port_vec r))"
    using add_port_set(2) [OF assms(1,2), of port] assms(3) by simp
  show "contains r' p \<longleftrightarrow> contains r p \<or> p = port"
    using ports contains_iff [OF wf] contains_iff [OF assms(1)] assms(2) m by auto
  have "unat (count r') \<noteq> 0" using ports length_to_port_vec [OF wf] by (metis empty_not_insert length_0_conv list.set(1))
  with m show "\<not> is_empty r'" by (auto simp: is_empty_def)
qed

locale acl_map = bpf_hash ins del
  for ins :: "('k, port_rule) hm_insert" and del :: "('k, port_rule) hm_remove"
begin

lemma add_Ok:
  assumes "wf_map m" "map_wrapper_add ins (Some m) ip port = Inr w"
  obtains m' where "w = Some m'" "wf_map m'"
    "\<And>k p. rule_hit m' k p \<longleftrightarrow> rule_hit m k p \<or> k = ip \<and> (port = 0 \<or> p = port)"
proof (cases "port = 0")
  case True
  with assms(2) obtain m' where m': "ins m ip new_match_all = Some m'" "w = Some m'"
    by (auto simp: map_wrapper_add_def result_iffs)
  from ins_Some [OF this(1)] have "m' = m(ip \<mapsto> new_match_all)" .
  moreover have "wf_rule new_match_all" "\<not> is_empty new_match_all"
    by (simp_all add: is_empty_def)
  ultimately show ?thesis
    using True m'(2) wf_map_upd [OF assms(1), of new_match_all ip]
    by (intro that [of m']) (auto simp: rule_hit_def contains_def)
next
  case False
  define rule where "rule = (case m ip of Some r \<Rightarrow> r | None \<Rightarrow> new_empty)"
  have wf: "wf_rule rule" using assms(1) by (auto simp: rule_def wf_map_def split: option.split)
  have hit: "rule_hit m ip p \<longleftrightarrow> contains rule p" for p
    by (auto simp: rule_hit_def rule_def contains_iff split: option.split)
  show ?thesis
  proof (cases "is_match_all rule")
    case True
    with assms(2) \<open>port \<noteq> 0\<close> have "w = Some m" by (simp add: map_wrapper_add_def rule_def Let_def)
    with assms(1) True hit \<open>port \<noteq> 0\<close> show ?thesis by (intro that [of m]) (auto simp: contains_def)
  next
    case nma: False
    obtain added rule' where add: "add_port rule port = (added, rule')" by force
    with assms(2) nma \<open>port \<noteq> 0\<close> have "added" and "ins m ip rule' = Some (the w)" "w \<noteq> None"
      by (auto simp: map_wrapper_add_def rule_def [symmetric] Let_def result_iffs split: if_splits)
    note c = contains_add_port [OF wf nma add [unfolded \<open>added\<close> [THEN eqTrueI]]]
    have "the w = m(ip \<mapsto> rule')" using ins_Some \<open>ins m ip rule' = Some (the w)\<close> by blast
    with \<open>w \<noteq> None\<close> have "w = Some (m(ip \<mapsto> rule'))" by force
    then show ?thesis
      using c hit \<open>port \<noteq> 0\<close> wf_map_upd [OF assms(1) c(2,3)]
      by (intro that [of "m(ip \<mapsto> rule')"]) (auto simp: rule_hit_def)
  qed
qed

lemma add_limit:
  assumes "wf_map m" "port \<noteq> 0"
  shows "map_wrapper_add ins (Some m) ip port = Inl RuleReachLimit \<longleftrightarrow>
    (\<exists>r. m ip = Some r \<and> \<not> is_match_all r \<and> port \<notin> set (to_port_vec r) \<and> length (to_port_vec r) = MAX_RULES_PORT)"
proof -
  define rule where "rule = (case m ip of Some r \<Rightarrow> r | None \<Rightarrow> new_empty)"
  have wf: "wf_rule rule" using assms(1) by (auto simp: rule_def wf_map_def split: option.split)
  have "map_wrapper_add ins (Some m) ip port = Inl RuleReachLimit \<longleftrightarrow> \<not> is_match_all rule \<and> \<not> fst (add_port rule port)"
    using assms(2) by (auto simp: map_wrapper_add_def rule_def [symmetric] Let_def ok_or_def and_then_def
        split: prod.split option.split if_splits)
  also have "\<dots> \<longleftrightarrow> \<not> is_match_all rule \<and> port \<notin> set (to_port_vec rule) \<and> length (to_port_vec rule) = MAX_RULES_PORT"
    using add_port_cases [OF wf] by (cases "is_match_all rule") (simp_all split: if_splits)
  finally show ?thesis by (auto simp: rule_def MAX_RULES_PORT_def split: option.split)
qed

lemma remove_rule:
  assumes "wf_rule r" "\<not> is_match_all r"
  obtains r' where "remove_port_from_rule r port = Some (if is_empty r' then Delete else Update, r')"
    "wf_rule r'" "\<not> is_match_all r'" "\<And>p. contains r' p \<longleftrightarrow> contains r p \<and> p \<noteq> port"
proof (rule wf_remove_port [OF assms(1), of port])
  fix b r'
  assume r': "remove_port r port = Some (b, r')" "wf_rule r'" "is_match_all r' = is_match_all r"
    "to_port_vec r' = remove1 port (to_port_vec r)"
  have "set (to_port_vec r') = set (to_port_vec r) - {port}"
    using r'(4) wf_ruleD(3) [OF assms(1)] by simp
  with r' assms show thesis
    by (intro that [of r']) (auto simp: remove_port_from_rule_def contains_iff)
qed

lemma is_empty_hits: "wf_rule r \<Longrightarrow> is_empty r \<Longrightarrow> \<not> contains r p"
  by (auto simp: is_empty_def contains_iff to_port_vec_wf)

lemma remove_Ok:
  assumes "wf_map m" "m ip \<noteq> None"
  obtains m' where "map_wrapper_remove ins del (Some m) ip port = Some (Inr (Some m'))" "wf_map m'"
    "\<And>k p. rule_hit m' k p \<longleftrightarrow> rule_hit m k p \<and>
       \<not> (k = ip \<and> (port = 0 \<or> p = port \<and> \<not> is_match_all (the (m ip))))"
proof -
  obtain r where r: "m ip = Some r" using assms(2) by blast
  then have wf: "wf_rule r" using assms(1) by (auto simp: wf_map_def)
  have del: "del m ip = Some (m(ip := None))"
    using del_iff [of m ip] del_Some [of m ip] assms(2) by (metis not_None_eq)
  have ins: "ins m ip r' = Some (m(ip \<mapsto> r'))" for r'
    using ins_present [where m = m and k = ip, OF assms(2)] ins_Some by (metis not_None_eq)
  consider "port = 0" | "port \<noteq> 0" "is_match_all r" | "port \<noteq> 0" "\<not> is_match_all r" by blast
  then show ?thesis
  proof cases
    case 1
    with del assms(1) show ?thesis
      by (intro that [of "m(ip := None)"]) (auto simp: map_wrapper_remove_def rule_hit_def wf_map_del)
  next
    case 2
    with r assms(1) show ?thesis
      by (intro that [of m]) (auto simp: map_wrapper_remove_def remove_port_from_rule_def)
  next
    case 3
    obtain r' where r': "remove_port_from_rule r port = Some (if is_empty r' then Delete else Update, r')"
      "wf_rule r'" "\<not> is_match_all r'" "\<And>p. contains r' p \<longleftrightarrow> contains r p \<and> p \<noteq> port"
      using remove_rule [OF wf 3(2)] by blast
    show ?thesis
    proof (cases "is_empty r'")
      case True
      then have "\<not> (contains r p \<and> p \<noteq> port)" for p
        using is_empty_hits [OF r'(2)] r'(4) by blast
      with True 3 r r' del assms(1) show ?thesis
        by (intro that [of "m(ip := None)"]) (auto simp: map_wrapper_remove_def rule_hit_def wf_map_del)
    next
      case False
      with 3 r r' ins assms(1) wf_map_upd [OF assms(1) r'(2)] show ?thesis
        by (intro that [of "m(ip \<mapsto> r')"]) (auto simp: map_wrapper_remove_def rule_hit_def)
    qed
  qed
qed

lemma remove_absent:
  "m ip = None \<Longrightarrow> map_wrapper_remove ins del (Some m) ip port =
     Some (Inl (if port = 0 then MapOperationError else IpDoesNotExist))"
  using del_iff [of m ip] by (simp add: map_wrapper_remove_def)

end

interpretation acl_capped: acl_map "cap_insert cap" key_remove
  by unfold_locales

section \<open>The eight lists\<close>

record access_control_lists =
  ipv4_src_whitelist :: "u32 map_wrapper"
  ipv4_src_blacklist :: "u32 map_wrapper"
  ipv4_dst_whitelist :: "u32 map_wrapper"
  ipv4_dst_blacklist :: "u32 map_wrapper"
  ipv6_src_whitelist :: "u128 map_wrapper"
  ipv6_src_blacklist :: "u128 map_wrapper"
  ipv6_dst_whitelist :: "u128 map_wrapper"
  ipv6_dst_blacklist :: "u128 map_wrapper"

text \<open>The kernel's operations on maps with IPv4 and with IPv6 keys, and the host's byte order.\<close>

record acl_api =
  acl_ne :: endian
  ins4 :: "(u32, port_rule) hm_insert"
  del4 :: "(u32, port_rule) hm_remove"
  ins6 :: "(u128, port_rule) hm_insert"
  del6 :: "(u128, port_rule) hm_remove"

definition AccessControl_unavailable :: access_control_lists where
  "AccessControl_unavailable =
     \<lparr>ipv4_src_whitelist = None, ipv4_src_blacklist = None, ipv4_dst_whitelist = None, ipv4_dst_blacklist = None,
      ipv6_src_whitelist = None, ipv6_src_blacklist = None, ipv6_dst_whitelist = None, ipv6_dst_blacklist = None\<rparr>"

text \<open>Which of the eight maps an operation reads or writes.\<close>

definition ipv4_list :: "flow_direction \<Rightarrow> list_type \<Rightarrow> access_control_lists \<Rightarrow> u32 map_wrapper" where
  "ipv4_list d t ac =
     (case (d, t) of
        (Source, White) \<Rightarrow> ipv4_src_whitelist ac
      | (Source, Black) \<Rightarrow> ipv4_src_blacklist ac
      | (Destination, White) \<Rightarrow> ipv4_dst_whitelist ac
      | (Destination, Black) \<Rightarrow> ipv4_dst_blacklist ac)"

definition set_ipv4_list :: "flow_direction \<Rightarrow> list_type \<Rightarrow> u32 map_wrapper \<Rightarrow> access_control_lists \<Rightarrow> access_control_lists" where
  "set_ipv4_list d t w ac =
     (case (d, t) of
        (Source, White) \<Rightarrow> ac\<lparr>ipv4_src_whitelist := w\<rparr>
      | (Source, Black) \<Rightarrow> ac\<lparr>ipv4_src_blacklist := w\<rparr>
      | (Destination, White) \<Rightarrow> ac\<lparr>ipv4_dst_whitelist := w\<rparr>
      | (Destination, Black) \<Rightarrow> ac\<lparr>ipv4_dst_blacklist := w\<rparr>)"

definition ipv6_list :: "flow_direction \<Rightarrow> list_type \<Rightarrow> access_control_lists \<Rightarrow> u128 map_wrapper" where
  "ipv6_list d t ac =
     (case (d, t) of
        (Source, White) \<Rightarrow> ipv6_src_whitelist ac
      | (Source, Black) \<Rightarrow> ipv6_src_blacklist ac
      | (Destination, White) \<Rightarrow> ipv6_dst_whitelist ac
      | (Destination, Black) \<Rightarrow> ipv6_dst_blacklist ac)"

definition set_ipv6_list :: "flow_direction \<Rightarrow> list_type \<Rightarrow> u128 map_wrapper \<Rightarrow> access_control_lists \<Rightarrow> access_control_lists" where
  "set_ipv6_list d t w ac =
     (case (d, t) of
        (Source, White) \<Rightarrow> ac\<lparr>ipv6_src_whitelist := w\<rparr>
      | (Source, Black) \<Rightarrow> ac\<lparr>ipv6_src_blacklist := w\<rparr>
      | (Destination, White) \<Rightarrow> ac\<lparr>ipv6_dst_whitelist := w\<rparr>
      | (Destination, Black) \<Rightarrow> ac\<lparr>ipv6_dst_blacklist := w\<rparr>)"

definition get_ipv4_list :: "acl_api \<Rightarrow> access_control_lists \<Rightarrow> flow_direction \<Rightarrow> list_type \<Rightarrow> (u32 \<times> u16 list) set" where
  "get_ipv4_list A ac d t = get_list (ipv4_into_native (acl_ne A)) (ipv4_list d t ac)"

definition get_ipv6_list :: "acl_api \<Rightarrow> access_control_lists \<Rightarrow> flow_direction \<Rightarrow> list_type \<Rightarrow> (u128 \<times> u16 list) set" where
  "get_ipv6_list A ac d t = get_list (ipv6_into_native (acl_ne A)) (ipv6_list d t ac)"

definition add_ipv4_list ::
  "acl_api \<Rightarrow> flow_direction \<Rightarrow> list_type \<Rightarrow> socket_addr_v4 \<Rightarrow> access_control_lists \<Rightarrow> (ebpf_error, access_control_lists) result" where
  "add_ipv4_list A d t address ac =
     (let ip = to_be (acl_ne A) 4 (sa4_ip address); port = sa4_port address
      in and_then (map_wrapper_add (ins4 A) (ipv4_list d t ac) ip port) (\<lambda>w. Inr (set_ipv4_list d t w ac)))"

definition add_ipv6_list ::
  "acl_api \<Rightarrow> flow_direction \<Rightarrow> list_type \<Rightarrow> socket_addr_v6 \<Rightarrow> access_control_lists \<Rightarrow> (ebpf_error, access_control_lists) result" where
  "add_ipv6_list A d t address ac =
     (let ip = to_be (acl_ne A) 16 (sa6_ip address); port = sa6_port address
      in and_then (map_wrapper_add (ins6 A) (ipv6_list d t ac) ip port) (\<lambda>w. Inr (set_ipv6_list d t w ac)))"

definition remove_ipv4_list ::
  "acl_api \<Rightarrow> flow_direction \<Rightarrow> list_type \<Rightarrow> socket_addr_v4 \<Rightarrow> access_control_lists
   \<Rightarrow> (ebpf_error, access_control_lists) result option" where
  "remove_ipv4_list A d t address ac =
     (let ip = to_be (acl_ne A) 4 (sa4_ip address); port = sa4_port address
      in map_option (\<lambda>r. and_then r (\<lambda>w. Inr (set_ipv4_list d t w ac)))
           (map_wrapper_remove (ins4 A) (del4 A) (ipv4_list d t ac) ip port))"

definition remove_ipv6_list ::
  "acl_api \<Rightarrow> flow_direction \<Rightarrow> list_type \<Rightarrow> socket_addr_v6 \<Rightarrow> access_control_lists
   \<Rightarrow> (ebpf_error, access_control_lists) result option" where
  "remove_ipv6_list A d t address ac =
     (let ip = to_be (acl_ne A) 16 (sa6_ip address); port = sa6_port address
      in map_option (\<lambda>r. and_then r (\<lambda>w. Inr (set_ipv6_list d t w ac)))
           (map_wrapper_remove (ins6 A) (del6 A) (ipv6_list d t ac) ip port))"

lemma list_set_get [simp]:
  "ipv4_list d t (set_ipv4_list d' t' w ac) = (if d = d' \<and> t = t' then w else ipv4_list d t ac)"
  "ipv6_list d t (set_ipv6_list d' t' w' ac) = (if d = d' \<and> t = t' then w' else ipv6_list d t ac)"
  "ipv4_list d t (set_ipv6_list d' t' w' ac) = ipv4_list d t ac"
  "ipv6_list d t (set_ipv4_list d' t' w ac) = ipv6_list d t ac"
  by (cases d; cases t; cases d'; cases t';
      simp add: ipv4_list_def ipv6_list_def set_ipv4_list_def set_ipv6_list_def)+

text \<open>The lists are loaded, and their rules are well-formed.\<close>

definition wf_list :: "'k map_wrapper \<Rightarrow> bool" where
  "wf_list w = (case w of None \<Rightarrow> False | Some m \<Rightarrow> wf_map m)"

definition wf_acl :: "access_control_lists \<Rightarrow> bool" where
  "wf_acl ac \<longleftrightarrow> (\<forall>d t. wf_list (ipv4_list d t ac) \<and> wf_list (ipv6_list d t ac))"

lemma wf_list_Some [simp]: "wf_list (Some m) = wf_map m"
  by (simp add: wf_list_def)

lemma wf_listE: "wf_list w \<Longrightarrow> (\<And>m. w = Some m \<Longrightarrow> wf_map m \<Longrightarrow> P) \<Longrightarrow> P"
  by (simp add: wf_list_def split: option.splits)

text \<open>What a list matches: pairs of an address as a number and a port.\<close>

definition listed_v4 :: "acl_api \<Rightarrow> access_control_lists \<Rightarrow> flow_direction \<Rightarrow> list_type \<Rightarrow> (u32 \<times> u16) set" where
  "listed_v4 A ac d t = {(a, p). rule_hit (the (ipv4_list d t ac)) (to_be (acl_ne A) 4 a) p}"

definition listed_v6 :: "acl_api \<Rightarrow> access_control_lists \<Rightarrow> flow_direction \<Rightarrow> list_type \<Rightarrow> (u128 \<times> u16) set" where
  "listed_v6 A ac d t = {(a, p). rule_hit (the (ipv6_list d t ac)) (to_be (acl_ne A) 16 a) p}"

definition entry_ports :: "u16 \<Rightarrow> u16 set" where
  "entry_ports port = (if port = 0 then UNIV else {port})"

lemma to_be_twice [simp]:
  "to_be e 4 (to_be e 4 (a :: u32)) = a" "to_be e 16 (to_be e 16 (c :: u128)) = c"
  by (simp_all add: to_be_involution)

lemma to_be_eq_iff [simp]:
  "(to_be e 4 (a :: u32) = to_be e 4 b) = (a = b)" "(to_be e 16 (c :: u128) = to_be e 16 d) = (c = d)"
  by (metis to_be_twice)+

lemma wf_acl_set:
  assumes "wf_acl ac" "wf_map m"
  shows "wf_acl (set_ipv4_list d t (Some m) ac)"
  using assms by (simp add: wf_acl_def)

lemma wf_acl_set6:
  assumes "wf_acl ac" "wf_map m"
  shows "wf_acl (set_ipv6_list d t (Some m) ac)"
  using assms by (simp add: wf_acl_def)

lemma wf_acl_lists:
  assumes "wf_acl ac"
  obtains m where "ipv4_list d t ac = Some m" "wf_map m"
  using assms unfolding wf_acl_def by (metis wf_listE)

lemma wf_acl_lists6:
  assumes "wf_acl ac"
  obtains m where "ipv6_list d t ac = Some m" "wf_map m"
  using assms unfolding wf_acl_def by (metis wf_listE)

locale acl_kernel = v4: acl_map "ins4 A" "del4 A" + v6: acl_map "ins6 A" "del6 A"
  for A :: acl_api
begin

lemma add_ipv4_list_Ok:
  assumes wf: "wf_acl ac" and add: "add_ipv4_list A d t sa ac = Inr ac'"
  shows "wf_acl ac'" "listed_v4 A ac' d t = listed_v4 A ac d t \<union> {sa4_ip sa} \<times> entry_ports (sa4_port sa)"
    "\<And>d' t'. (d', t') \<noteq> (d, t) \<Longrightarrow> ipv4_list d' t' ac' = ipv4_list d' t' ac"
    "\<And>d' t'. ipv6_list d' t' ac' = ipv6_list d' t' ac"
proof -
  obtain m where m: "ipv4_list d t ac = Some m" "wf_map m" by (rule wf_acl_lists [OF wf])
  obtain w where w: "map_wrapper_add (ins4 A) (Some m) (to_be (acl_ne A) 4 (sa4_ip sa)) (sa4_port sa) = Inr w"
    and ac': "ac' = set_ipv4_list d t w ac"
    using add m(1) by (auto simp: add_ipv4_list_def Let_def result_iffs)
  obtain m' where m': "w = Some m'" "wf_map m'" "\<And>k p. rule_hit m' k p \<longleftrightarrow> rule_hit m k p
      \<or> k = to_be (acl_ne A) 4 (sa4_ip sa) \<and> (sa4_port sa = 0 \<or> p = sa4_port sa)"
    using v4.add_Ok [OF m(2) w] by metis
  show "wf_acl ac'" using wf m' unfolding ac' by (simp add: wf_acl_set)
  show "listed_v4 A ac' d t = listed_v4 A ac d t \<union> {sa4_ip sa} \<times> entry_ports (sa4_port sa)"
    by (auto simp: listed_v4_def ac' m m' entry_ports_def split: if_splits)
qed (use add in \<open>auto simp: add_ipv4_list_def Let_def result_iffs\<close>)

lemma add_ipv6_list_Ok:
  assumes wf: "wf_acl ac" and add: "add_ipv6_list A d t sa ac = Inr ac'"
  shows "wf_acl ac'" "listed_v6 A ac' d t = listed_v6 A ac d t \<union> {sa6_ip sa} \<times> entry_ports (sa6_port sa)"
    "\<And>d' t'. (d', t') \<noteq> (d, t) \<Longrightarrow> ipv6_list d' t' ac' = ipv6_list d' t' ac"
    "\<And>d' t'. ipv4_list d' t' ac' = ipv4_list d' t' ac"
proof -
  obtain m where m: "ipv6_list d t ac = Some m" "wf_map m" by (rule wf_acl_lists6 [OF wf])
  obtain w where w: "map_wrapper_add (ins6 A) (Some m) (to_be (acl_ne A) 16 (sa6_ip sa)) (sa6_port sa) = Inr w"
    and ac': "ac' = set_ipv6_list d t w ac"
    using add m(1) by (auto simp: add_ipv6_list_def Let_def result_iffs)
  obtain m' where m': "w = Some m'" "wf_map m'" "\<And>k p. rule_hit m' k p \<longleftrightarrow> rule_hit m k p
      \<or> k = to_be (acl_ne A) 16 (sa6_ip sa) \<and> (sa6_port sa = 0 \<or> p = sa6_port sa)"
    using v6.add_Ok [OF m(2) w] by metis
  show "wf_acl ac'" using wf m' unfolding ac' by (simp add: wf_acl_set6)
  show "listed_v6 A ac' d t = listed_v6 A ac d t \<union> {sa6_ip sa} \<times> entry_ports (sa6_port sa)"
    by (auto simp: listed_v6_def ac' m m' entry_ports_def split: if_splits)
qed (use add in \<open>auto simp: add_ipv6_list_def Let_def result_iffs\<close>)

text \<open>
  Removing an entry that is present: never an index outside the array, never an error. The pairs
  removed are all those of the address for port 0, the port otherwise, and none when the entry
  matches every port.
\<close>

lemma remove_ipv4_list_Ok:
  assumes wf: "wf_acl ac" and m: "ipv4_list d t ac = Some m" and present: "m (to_be (acl_ne A) 4 (sa4_ip sa)) = Some r"
  obtains ac' where "remove_ipv4_list A d t sa ac = Some (Inr ac')" "wf_acl ac'"
    "listed_v4 A ac' d t = listed_v4 A ac d t - {sa4_ip sa} \<times>
       (if sa4_port sa = 0 then UNIV else if is_match_all r then {} else {sa4_port sa})"
    "\<And>d' t'. (d', t') \<noteq> (d, t) \<Longrightarrow> ipv4_list d' t' ac' = ipv4_list d' t' ac"
proof -
  have "wf_map m" using wf_acl_lists [OF wf] m by (metis option.inject)
  then obtain m' where m': "map_wrapper_remove (ins4 A) (del4 A) (Some m) (to_be (acl_ne A) 4 (sa4_ip sa)) (sa4_port sa)
      = Some (Inr (Some m'))" "wf_map m'"
    "\<And>k p. rule_hit m' k p \<longleftrightarrow> rule_hit m k p \<and>
       \<not> (k = to_be (acl_ne A) 4 (sa4_ip sa) \<and> (sa4_port sa = 0 \<or> p = sa4_port sa \<and> \<not> is_match_all r))"
    using v4.remove_Ok [of m "to_be (acl_ne A) 4 (sa4_ip sa)" "sa4_port sa"] present
    by (metis option.discI option.sel)
  show thesis
  proof (rule that)
    show "remove_ipv4_list A d t sa ac = Some (Inr (set_ipv4_list d t (Some m') ac))"
      by (simp add: remove_ipv4_list_def Let_def m m')
    show "wf_acl (set_ipv4_list d t (Some m') ac)" using wf m'(2) by (rule wf_acl_set)
    show "listed_v4 A (set_ipv4_list d t (Some m') ac) d t = listed_v4 A ac d t - {sa4_ip sa} \<times>
       (if sa4_port sa = 0 then UNIV else if is_match_all r then {} else {sa4_port sa})"
      by (auto simp: listed_v4_def m m' split: if_splits)
  qed auto
qed

lemma remove_ipv4_list_absent:
  "ipv4_list d t ac = Some m \<Longrightarrow> m (to_be (acl_ne A) 4 (sa4_ip sa)) = None \<Longrightarrow>
   remove_ipv4_list A d t sa ac = Some (Inl (if sa4_port sa = 0 then MapOperationError else IpDoesNotExist))"
  by (simp add: remove_ipv4_list_def Let_def v4.remove_absent)

lemma remove_ipv6_list_Ok:
  assumes wf: "wf_acl ac" and m: "ipv6_list d t ac = Some m" and present: "m (to_be (acl_ne A) 16 (sa6_ip sa)) = Some r"
  obtains ac' where "remove_ipv6_list A d t sa ac = Some (Inr ac')" "wf_acl ac'"
    "listed_v6 A ac' d t = listed_v6 A ac d t - {sa6_ip sa} \<times>
       (if sa6_port sa = 0 then UNIV else if is_match_all r then {} else {sa6_port sa})"
    "\<And>d' t'. (d', t') \<noteq> (d, t) \<Longrightarrow> ipv6_list d' t' ac' = ipv6_list d' t' ac"
proof -
  have "wf_map m" using wf_acl_lists6 [OF wf] m by (metis option.inject)
  then obtain m' where m': "map_wrapper_remove (ins6 A) (del6 A) (Some m) (to_be (acl_ne A) 16 (sa6_ip sa)) (sa6_port sa)
      = Some (Inr (Some m'))" "wf_map m'"
    "\<And>k p. rule_hit m' k p \<longleftrightarrow> rule_hit m k p \<and>
       \<not> (k = to_be (acl_ne A) 16 (sa6_ip sa) \<and> (sa6_port sa = 0 \<or> p = sa6_port sa \<and> \<not> is_match_all r))"
    using v6.remove_Ok [of m "to_be (acl_ne A) 16 (sa6_ip sa)" "sa6_port sa"] present
    by (metis option.discI option.sel)
  show thesis
  proof (rule that)
    show "remove_ipv6_list A d t sa ac = Some (Inr (set_ipv6_list d t (Some m') ac))"
      by (simp add: remove_ipv6_list_def Let_def m m')
    show "wf_acl (set_ipv6_list d t (Some m') ac)" using wf m'(2) by (rule wf_acl_set6)
    show "listed_v6 A (set_ipv6_list d t (Some m') ac) d t = listed_v6 A ac d t - {sa6_ip sa} \<times>
       (if sa6_port sa = 0 then UNIV else if is_match_all r then {} else {sa6_port sa})"
      by (auto simp: listed_v6_def m m' split: if_splits)
  qed auto
qed

lemma remove_ipv6_list_absent:
  "ipv6_list d t ac = Some m \<Longrightarrow> m (to_be (acl_ne A) 16 (sa6_ip sa)) = None \<Longrightarrow>
   remove_ipv6_list A d t sa ac = Some (Inl (if sa6_port sa = 0 then MapOperationError else IpDoesNotExist))"
  by (simp add: remove_ipv6_list_def Let_def v6.remove_absent)

end

definition capped_api :: "endian \<Rightarrow> acl_api" where
  "capped_api e = \<lparr>acl_ne = e, ins4 = cap_insert MAX_RULES, del4 = key_remove,
     ins6 = cap_insert MAX_RULES, del6 = key_remove\<rparr>"

interpretation capped_acl: acl_kernel "capped_api e"
  by unfold_locales (auto simp: capped_api_def capped.ins_Some capped.ins_present capped.del_Some capped.del_iff
      simp del: not_None_eq)

end
