(* ===== verification/Rust_Net.thy ===== *)
theory Rust_Net
  imports Prelude
begin

text \<open>
  Textual IP addresses as the standard library reads and writes them: \<^verbatim>\<open>Ipv4Addr\<close>, \<^verbatim>\<open>Ipv6Addr\<close> and
  \<^verbatim>\<open>IpAddr\<close> with \<^verbatim>\<open>parse\<close>, and \<^verbatim>\<open>to_string\<close>. An address is its number (\<^verbatim>\<open>to_bits\<close>). A reader takes
  the rest of the input and returns a value and what is left, or fails and consumes nothing.
\<close>

datatype ip_addr = IpV4 u32 | IpV6 u128

type_synonym 'a reader = "string \<Rightarrow> ('a \<times> string) option"

section \<open>Digits\<close>

definition digit_of :: "nat \<Rightarrow> char \<Rightarrow> nat option" where
  "digit_of radix c =
     (let n = of_char c :: nat;
          d = (if 48 \<le> n \<and> n \<le> 57 then Some (n - 48)
               else if 97 \<le> n \<and> n \<le> 122 then Some (n - 87)
               else if 65 \<le> n \<and> n \<le> 90 then Some (n - 55)
               else None)
      in case d of Some v \<Rightarrow> if v < radix then Some v else None | None \<Rightarrow> None)"

text \<open>
  \<^verbatim>\<open>read_number\<close> with a bound on the digits: \<open>k\<close> digits and the value \<open>acc\<close> have been read; more
  than \<open>mx\<close> digits, or a value above \<open>limit\<close>, is a failure.
\<close>

fun read_digits :: "nat \<Rightarrow> nat \<Rightarrow> nat \<Rightarrow> nat \<Rightarrow> nat \<Rightarrow> (nat \<times> nat) reader" where
  "read_digits radix mx limit k acc [] = Some ((k, acc), [])"
| "read_digits radix mx limit k acc (c # cs) =
     (case digit_of radix c of
        None \<Rightarrow> Some ((k, acc), c # cs)
      | Some d \<Rightarrow>
          if acc * radix + d > limit then None
          else if Suc k > mx then None
          else read_digits radix mx limit (Suc k) (acc * radix + d) cs)"

definition read_number :: "nat \<Rightarrow> nat \<Rightarrow> nat \<Rightarrow> bool \<Rightarrow> nat reader" where
  "read_number radix mx limit allow_zero_prefix s =
     (case read_digits radix mx limit 0 0 s of
        None \<Rightarrow> None
      | Some ((k, v), rest) \<Rightarrow>
          if k = 0 then None
          else if \<not> allow_zero_prefix \<and> take 1 s = ''0'' \<and> k > 1 then None
          else Some (v, rest))"

definition read_given_char :: "char \<Rightarrow> unit reader" where
  "read_given_char c s = (case s of x # rest \<Rightarrow> if x = c then Some ((), rest) else None | [] \<Rightarrow> None)"

text \<open>A separator is expected before every item but the first.\<close>

definition read_separator :: "char \<Rightarrow> nat \<Rightarrow> 'a reader \<Rightarrow> 'a reader" where
  "read_separator c i r s =
     (if i > 0 then (case read_given_char c s of None \<Rightarrow> None | Some (_, s) \<Rightarrow> r s) else r s)"

section \<open>IPv4\<close>

definition read_octet :: "nat \<Rightarrow> nat reader" where
  "read_octet i = read_separator (CHR ''.'') i (read_number 10 3 255 False)"

definition ipv4_of_octets :: "nat \<Rightarrow> nat \<Rightarrow> nat \<Rightarrow> nat \<Rightarrow> u32" where
  "ipv4_of_octets a b c d = word_of_nat (((a * 256 + b) * 256 + c) * 256 + d)"

definition read_ipv4_addr :: "u32 reader" where
  "read_ipv4_addr s =
     do { (a, s) \<leftarrow> read_octet 0 s; (b, s) \<leftarrow> read_octet 1 s; (c, s) \<leftarrow> read_octet 2 s; (d, s) \<leftarrow> read_octet 3 s;
          Some (ipv4_of_octets a b c d, s) }"

section \<open>IPv6\<close>

text \<open>
  \<^verbatim>\<open>read_groups\<close>: at most \<open>limit\<close> groups of hexadecimal digits, the last two possibly written as an
  IPv4 address; the groups read, whether they end in an IPv4 address, and the rest.
\<close>

fun read_groups :: "nat \<Rightarrow> nat \<Rightarrow> string \<Rightarrow> nat list \<times> bool \<times> string" where
  "read_groups i 0 s = ([], False, s)"
| "read_groups i (Suc left) s =
     (case (if left > 0 then read_separator (CHR '':'') i read_ipv4_addr s else None) of
        Some (v4, s) \<Rightarrow> ([unat v4 div 65536, unat v4 mod 65536], True, s)
      | None \<Rightarrow>
          (case read_separator (CHR '':'') i (read_number 16 4 65535 True) s of
             None \<Rightarrow> ([], False, s)
           | Some (g, s) \<Rightarrow>
               let (gs, v4, s) = read_groups (Suc i) left s in (g # gs, v4, s)))"

fun groups_val :: "nat list \<Rightarrow> nat" where
  "groups_val [] = 0"
| "groups_val (g # gs) = g * 65536 ^ length gs + groups_val gs"

definition read_ipv6_addr :: "u128 reader" where
  "read_ipv6_addr s =
     (let (hd_groups, head_ipv4, s) = read_groups 0 8 s in
      if length hd_groups = 8 then Some (word_of_nat (groups_val hd_groups), s)
      else if head_ipv4 then None
      else
        do { (_, s) \<leftarrow> read_given_char (CHR '':'') s; (_, s) \<leftarrow> read_given_char (CHR '':'') s;
             (let limit = 8 - (length hd_groups + 1);
                  (tl_groups, _, s) = read_groups 0 limit s
              in Some (word_of_nat (groups_val
                   (hd_groups @ replicate (8 - length hd_groups - length tl_groups) 0 @ tl_groups)), s)) })"

section \<open>Parsing a whole string\<close>

definition parse_with :: "'a reader \<Rightarrow> string \<Rightarrow> 'a option" where
  "parse_with r s = (case r s of Some (v, []) \<Rightarrow> Some v | _ \<Rightarrow> None)"

definition parse_ipv4 :: "string \<Rightarrow> u32 option" where
  "parse_ipv4 s = (if length s > 15 then None else parse_with read_ipv4_addr s)"

definition parse_ipv6 :: "string \<Rightarrow> u128 option" where
  "parse_ipv6 s = parse_with read_ipv6_addr s"

definition read_ip_addr :: "ip_addr reader" where
  "read_ip_addr s =
     (case read_ipv4_addr s of
        Some (v, rest) \<Rightarrow> Some (IpV4 v, rest)
      | None \<Rightarrow> map_option (\<lambda>(v, rest). (IpV6 v, rest)) (read_ipv6_addr s))"

definition parse_ip_addr :: "string \<Rightarrow> ip_addr option" where
  "parse_ip_addr s = parse_with read_ip_addr s"

section \<open>Writing an IPv4 address\<close>

definition decimal_digit :: "nat \<Rightarrow> char" where
  "decimal_digit d = char_of (48 + d)"

definition show_octet :: "nat \<Rightarrow> string" where
  "show_octet n =
     (if n < 10 then [decimal_digit n]
      else if n < 100 then [decimal_digit (n div 10), decimal_digit (n mod 10)]
      else [decimal_digit (n div 100), decimal_digit (n div 10 mod 10), decimal_digit (n mod 10)])"

definition show_ipv4 :: "u32 \<Rightarrow> string" where
  "show_ipv4 w =
     (let n = unat w
      in show_octet (n div 16777216) @ ''.'' @ show_octet (n div 65536 mod 256) @ ''.''
         @ show_octet (n div 256 mod 256) @ ''.'' @ show_octet (n mod 256))"

section \<open>Writing an IPv6 address\<close>

definition hex_digit :: "nat \<Rightarrow> char" where
  "hex_digit d = (if d < 10 then char_of (48 + d) else char_of (87 + d))"

fun show_hex :: "nat \<Rightarrow> nat \<Rightarrow> string" where
  "show_hex 0 n = []"
| "show_hex (Suc k) n = (if n < 16 then [hex_digit n] else show_hex k (n div 16) @ [hex_digit (n mod 16)])"

fun show_groups :: "nat list \<Rightarrow> string" where
  "show_groups [] = []"
| "show_groups [g] = show_hex 4 g"
| "show_groups (g # gs) = show_hex 4 g @ '':'' @ show_groups gs"

definition segments :: "u128 \<Rightarrow> nat list" where
  "segments a = map (\<lambda>i. unat a div 65536 ^ (7 - i) mod 65536) [0..<8]"

text \<open>The first longest run of zero groups: its start and its length.\<close>

fun longest_zero_run :: "nat \<Rightarrow> nat list \<Rightarrow> nat \<times> nat \<Rightarrow> nat \<times> nat \<Rightarrow> nat \<times> nat" where
  "longest_zero_run i [] cur best = best"
| "longest_zero_run i (g # gs) (start, len) best =
     (if g = 0 then
        let cur = (if len = 0 then (i, 1) else (start, len + 1))
        in longest_zero_run (Suc i) gs cur (if snd cur > snd best then cur else best)
      else longest_zero_run (Suc i) gs (0, 0) best)"

definition show_ipv6 :: "u128 \<Rightarrow> string" where
  "show_ipv6 a =
     (let gs = segments a in
      if take 6 gs = [0, 0, 0, 0, 0, 65535] then ''::ffff:'' @ show_ipv4 (ucast a)
      else
        let (start, len) = longest_zero_run 0 gs (0, 0) (0, 0)
        in if len > 1 then show_groups (take start gs) @ ''::'' @ show_groups (drop (start + len) gs)
           else show_groups gs)"

definition show_ip_addr :: "ip_addr \<Rightarrow> string" where
  "show_ip_addr ip = (case ip of IpV4 a \<Rightarrow> show_ipv4 a | IpV6 a \<Rightarrow> show_ipv6 a)"

section \<open>Round trip\<close>

lemma digit_of_decimal: "d < 10 \<Longrightarrow> digit_of 10 (decimal_digit d) = Some d"
  by (simp add: digit_of_def decimal_digit_def Let_def)

lemma decimal_digit_zero: "d < 10 \<Longrightarrow> decimal_digit d = CHR ''0'' \<longleftrightarrow> d = 0"
proof -
  assume d: "d < 10"
  have z: "digit_of 10 (CHR ''0'') = Some 0" "decimal_digit 0 = CHR ''0''" by code_simp+
  then show ?thesis using digit_of_decimal [OF d] by (metis option.inject)
qed

definition stops :: "string \<Rightarrow> bool" where
  "stops rest \<longleftrightarrow> (case rest of [] \<Rightarrow> True | c # _ \<Rightarrow> digit_of 10 c = None)"

lemma read_digits_stops: "stops rest \<Longrightarrow> read_digits 10 mx limit k acc rest = Some ((k, acc), rest)"
  by (cases rest) (auto simp: stops_def)

lemma read_show_octet:
  assumes "n < 256" "stops rest"
  shows "read_number 10 3 255 False (show_octet n @ rest) = Some (n, rest)"
proof -
  consider "n < 10" | "10 \<le> n" "n < 100" | "100 \<le> n" by linarith
  then show ?thesis
  proof cases
    case 1
    then show ?thesis
      using read_digits_stops [OF assms(2)] by (simp add: read_number_def show_octet_def digit_of_decimal)
  next
    case 2
    have "n div 10 < 10" "n div 10 \<noteq> 0" "n div 10 * 10 + n mod 10 = n" "\<not> 255 < n div 10" using 2 by auto
    with 2 show ?thesis
      using read_digits_stops [OF assms(2)]
      by (simp add: read_number_def show_octet_def digit_of_decimal decimal_digit_zero)
  next
    case 3
    have d: "n div 100 < 10" "n div 100 \<noteq> 0" "(n div 100 * 10 + n div 10 mod 10) * 10 + n mod 10 = n"
      using 3 assms(1) by (auto simp: div_mult2_eq [of n 10 10, simplified])
    with 3 assms(1) show ?thesis
      using read_digits_stops [OF assms(2)]
      by (simp add: read_number_def show_octet_def digit_of_decimal decimal_digit_zero)
  qed
qed

lemma stops_dot [simp]: "stops (CHR ''.'' # rest)"
  unfolding stops_def by (simp, code_simp)

lemma ipv4_octets:
  fixes w :: u32
  defines "n \<equiv> unat w"
  shows "n div 16777216 < 256"
    and "ipv4_of_octets (n div 16777216) (n div 65536 mod 256) (n div 256 mod 256) (n mod 256) = w"
proof -
  have "n < 4294967296" using unsigned_less [where 'a = nat and w = w] by (simp add: n_def)
  then show "n div 16777216 < 256" by simp
  have "n div 256 = n div 65536 * 256 + n div 256 mod 256" "n div 65536 = n div 16777216 * 256 + n div 65536 mod 256"
    using div_mult2_eq [of n 256 256] div_mult2_eq [of n 65536 256] by simp_all
  then have "((n div 16777216 * 256 + n div 65536 mod 256) * 256 + n div 256 mod 256) * 256 + n mod 256 = n"
    by (metis div_mult_mod_eq)
  then show "ipv4_of_octets (n div 16777216) (n div 65536 mod 256) (n div 256 mod 256) (n mod 256) = w"
    by (simp only: ipv4_of_octets_def) (simp add: n_def)
qed

lemma read_show_ipv4: "stops rest \<Longrightarrow> read_ipv4_addr (show_ipv4 w @ rest) = Some (w, rest)"
  using ipv4_octets [of w]
  by (simp add: read_ipv4_addr_def show_ipv4_def Let_def read_octet_def read_separator_def read_given_char_def
      read_show_octet)

lemma length_show_ipv4: "length (show_ipv4 w) \<le> 15"
proof -
  have l: "length (show_octet n) \<le> 3" for n by (simp add: show_octet_def)
  show ?thesis
    using l [of "unat w div 16777216"] l [of "unat w div 65536 mod 256"] l [of "unat w div 256 mod 256"] l [of "unat w mod 256"]
    by (simp only: show_ipv4_def Let_def length_append) simp
qed

lemma parse_show_ipv4 [simp]: "parse_ipv4 (show_ipv4 w) = Some w" "parse_ip_addr (show_ipv4 w) = Some (IpV4 w)"
  using length_show_ipv4 [of w] read_show_ipv4 [of "[]" w]
  by (simp_all add: parse_ipv4_def parse_ip_addr_def parse_with_def read_ip_addr_def stops_def)

lemma digit_ex [intro]: "k < 10 \<Longrightarrow> \<exists>d<10. decimal_digit k = decimal_digit d"
  by blast

lemma show_ipv4_chars: "x \<in> set (show_ipv4 w) \<Longrightarrow> x = CHR ''.'' \<or> (\<exists>d<10. x = decimal_digit d)"
proof -
  have o: "\<exists>d<10. x = decimal_digit d" if "x \<in> set (show_octet n)" "n < 256" for n
  proof -
    have "n div 100 < 10" "n div 10 mod 10 < 10" "n mod 10 < 10" using that(2) by simp_all
    then show ?thesis using that(1) digit_ex by (auto simp: show_octet_def split: if_splits)
  qed
  let ?n = "unat w"
  have b: "?n div 16777216 < 256" "?n div 65536 mod 256 < 256" "?n div 256 mod 256 < 256" "?n mod 256 < 256"
    using ipv4_octets(1) [of w] by simp_all
  assume "x \<in> set (show_ipv4 w)"
  then show ?thesis using b [THEN o [rotated]] by (auto simp: show_ipv4_def Let_def)
qed

lemma of_char_decimal_digit: "d < 10 \<Longrightarrow> of_char (decimal_digit d) = (48 + d :: nat)"
  by (simp add: decimal_digit_def)

end
