(* ===== verification/Ip_Utils.thy ===== *)
theory Ip_Utils
  imports Rust_Net Abi_Models Domain_Errors
begin

unbundle bit_operations_syntax

text \<open>
  Helpers on textual addresses (\<^verbatim>\<open>common/utils/ip_address.rs\<close>): the IP version, and whether an
  address belongs to the inside of the network. The predicates of \<^verbatim>\<open>std::net\<close> are written out on
  the address as a number.
\<close>

definition octet :: "nat \<Rightarrow> u32 \<Rightarrow> nat" where
  "octet i a = unat a div 256 ^ (3 - i) mod 256"

definition v4_is_loopback :: "u32 \<Rightarrow> bool" where "v4_is_loopback a \<longleftrightarrow> octet 0 a = 127"

definition v4_is_private :: "u32 \<Rightarrow> bool" where
  "v4_is_private a \<longleftrightarrow> octet 0 a = 10 \<or> octet 0 a = 172 \<and> 16 \<le> octet 1 a \<and> octet 1 a \<le> 31
     \<or> octet 0 a = 192 \<and> octet 1 a = 168"

definition v4_is_link_local :: "u32 \<Rightarrow> bool" where
  "v4_is_link_local a \<longleftrightarrow> octet 0 a = 169 \<and> octet 1 a = 254"

definition v6_segment0 :: "u128 \<Rightarrow> u16" where
  "v6_segment0 a = ucast (drop_bit 112 a)"

definition is_private_ip :: "ip_addr \<Rightarrow> bool" where
  "is_private_ip ip =
     (case ip of
        IpV4 v4 \<Rightarrow> v4_is_loopback v4 \<or> v4_is_private v4 \<or> v4_is_link_local v4 \<or> v4 = 0 \<or> v4 = - 1
      | IpV6 v6 \<Rightarrow> v6 = 1 \<or> v6 = 0 \<or> v6_segment0 v6 AND 0xffc0 = 0xfe80 \<or> v6_segment0 v6 AND 0xfe00 = 0xfc00)"

definition is_internal_ip :: "string \<Rightarrow> bool" where
  "is_internal_ip ip_str = (case parse_ip_addr ip_str of None \<Rightarrow> False | Some ip \<Rightarrow> is_private_ip ip)"

definition ip_version_from_str :: "string \<Rightarrow> (ebpf_error, ip_version) result" where
  "ip_version_from_str ip =
     (case parse_ip_addr ip of
        Some (IpV4 _) \<Rightarrow> Inr V4
      | Some (IpV6 _) \<Rightarrow> Inr V6
      | None \<Rightarrow> Inl (InvalidIpAddress ip))"

lemma ip_version_from_str_iff: "is_ok (ip_version_from_str ip) \<longleftrightarrow> parse_ip_addr ip \<noteq> None"
  by (auto simp: ip_version_from_str_def split: option.split ip_addr.split)

end
