(* ===== verification/Block_Store.thy ===== *)
theory Block_Store
  imports Acl_Adapter Ip_Utils
begin

text \<open>
  The tables of the control plane's database that hold access-control rules and automatic blocks
  (\<^verbatim>\<open>adapter/persistence/acl.rs\<close>, \<^verbatim>\<open>adapter/persistence/soar_block.rs\<close>), with one definition per
  statement. A table is the list of its rows in insertion order; a transaction either commits all
  of its statements or changes nothing, which is the argument \<open>ok\<close>. Times are seconds: the columns
  hold the fixed-width text \<^verbatim>\<open>YYYY-MM-DD hh:mm:ss\<close>, which SQLite compares in the order of time, and
  \<open>now\<close> is \<^verbatim>\<open>datetime('now')\<close>.
\<close>

section \<open>Tables\<close>

record acl_row =
  ar_ip_version :: u8
  ar_direction :: string
  ar_list_type :: string
  ar_ip_address :: string
  ar_port :: int

record acl_rule_view =
  rv_ip_version :: ip_version
  rv_direction :: flow_direction
  rv_list_type :: list_type
  rv_ip_address :: string
  rv_port :: u16

record soar_block_row =
  sb_id :: int
  sb_source_ip :: string
  sb_playbook_id :: int
  sb_expires_at :: int
  sb_unblocked_at :: "int option"
  sb_created_acl_rule :: bool
  sb_preserve_acl_on_unblock :: bool

record pending_unblock =
  pu_id :: int
  pu_source_ip :: string
  pu_retry_count :: int
  pu_exhausted_at :: "int option"
  pu_last_error :: "string option"

record active_block_view =
  ab_id :: int
  ab_source_ip :: string
  ab_playbook_id :: int
  ab_expires_at :: int

record database =
  acl_rules :: "acl_row list"
  soar_block_rules :: "soar_block_row list"
  pending_unblocks :: "pending_unblock list"
  soar_block_seq :: int
  pending_seq :: int

definition db_error :: error where
  "db_error = Database ''query failed''"

section \<open>Access-control rules\<close>

definition row_of :: "ip_version \<Rightarrow> flow_direction \<Rightarrow> list_type \<Rightarrow> string \<Rightarrow> u16 \<Rightarrow> acl_row" where
  "row_of v d t ip port =
     \<lparr>ar_ip_version = as_u8 v, ar_direction = flow_direction_as_str d, ar_list_type = list_type_as_str t,
      ar_ip_address = ip, ar_port = uint port\<rparr>"

text \<open>\<^verbatim>\<open>INSERT OR IGNORE\<close> under the table's uniqueness constraint.\<close>

definition insert_or_ignore :: "'a \<Rightarrow> 'a list \<Rightarrow> 'a list" where
  "insert_or_ignore r rows = (if r \<in> set rows then rows else rows @ [r])"

definition insert_acl_rule ::
  "bool \<Rightarrow> ip_version \<Rightarrow> flow_direction \<Rightarrow> list_type \<Rightarrow> string \<Rightarrow> u16 \<Rightarrow> bool \<Rightarrow> database \<Rightarrow> (error, database) result" where
  "insert_acl_rule ok v d t ip port preserve_active_soar_blocks db =
     (if \<not> ok then Inl db_error
      else
        let db = db\<lparr>acl_rules := insert_or_ignore (row_of v d t ip port) (acl_rules db)\<rparr>
        in Inr (if preserve_active_soar_blocks
                then db\<lparr>soar_block_rules := map (\<lambda>b. if sb_source_ip b = ip \<and> sb_unblocked_at b = None
                                                     then b\<lparr>sb_preserve_acl_on_unblock := True\<rparr> else b)
                                              (soar_block_rules db)\<rparr>
                else db))"

definition delete_acl_rule ::
  "bool \<Rightarrow> ip_version \<Rightarrow> flow_direction \<Rightarrow> list_type \<Rightarrow> string \<Rightarrow> u16 \<Rightarrow> database \<Rightarrow> (error, database) result" where
  "delete_acl_rule ok v d t ip port db =
     (if \<not> ok then Inl db_error
      else Inr (db\<lparr>acl_rules := filter (\<lambda>r. r \<noteq> row_of v d t ip port) (acl_rules db)\<rparr>))"

definition decode_acl_port :: "int \<Rightarrow> (error, u16) result" where
  "decode_acl_port raw = (if 0 \<le> raw \<and> raw < 65536 then Inr (word_of_int raw) else Inl db_error)"

definition decode_acl_direction :: "string \<Rightarrow> (error, flow_direction) result" where
  "decode_acl_direction raw = map_err (\<lambda>_. db_error) (flow_direction_from_str raw)"

definition decode_acl_list_type :: "string \<Rightarrow> (error, list_type) result" where
  "decode_acl_list_type raw = map_err (\<lambda>_. db_error) (list_type_from_str raw)"

definition acl_rule_from_row :: "acl_row \<Rightarrow> (error, acl_rule_view) result" where
  "acl_rule_from_row r =
     and_then (ok_or (from_u8 (ar_ip_version r)) db_error) (\<lambda>v.
     and_then (decode_acl_direction (ar_direction r)) (\<lambda>d.
     and_then (decode_acl_list_type (ar_list_type r)) (\<lambda>t.
     and_then (decode_acl_port (ar_port r)) (\<lambda>p.
       Inr \<lparr>rv_ip_version = v, rv_direction = d, rv_list_type = t, rv_ip_address = ar_ip_address r, rv_port = p\<rparr>))))"

fun collect_results :: "('e, 'a) result list \<Rightarrow> ('e, 'a list) result" where
  "collect_results [] = Inr []"
| "collect_results (r # rs) = and_then r (\<lambda>x. and_then (collect_results rs) (\<lambda>xs. Inr (x # xs)))"

definition list_acl_rules :: "bool \<Rightarrow> database \<Rightarrow> (error, acl_rule_view list) result" where
  "list_acl_rules ok db =
     (if \<not> ok then Inl db_error else collect_results (map acl_rule_from_row (acl_rules db)))"

definition has_manual_acl_rule :: "bool \<Rightarrow> string \<Rightarrow> database \<Rightarrow> (error, bool) result" where
  "has_manual_acl_rule ok ip db =
     (if \<not> ok then Inl db_error
      else Inr (length (filter (\<lambda>r. ar_ip_address r = ip \<and> ar_direction r = ''source'' \<and> ar_list_type r = ''blacklist''
                  \<and> list_ex (\<lambda>b. sb_source_ip b = ar_ip_address r \<and> sb_unblocked_at b = None
                       \<and> (sb_preserve_acl_on_unblock b \<or> \<not> sb_created_acl_rule b)) (soar_block_rules db))
                (acl_rules db)) > 0))"

section \<open>Automatic blocks\<close>

definition active_at :: "int \<Rightarrow> soar_block_row \<Rightarrow> bool" where
  "active_at now b \<longleftrightarrow> sb_unblocked_at b = None \<and> sb_expires_at b > now"

definition active_block_from_row :: "soar_block_row \<Rightarrow> active_block_view" where
  "active_block_from_row b =
     \<lparr>ab_id = sb_id b, ab_source_ip = sb_source_ip b, ab_playbook_id = sb_playbook_id b, ab_expires_at = sb_expires_at b\<rparr>"

definition count_active_soar_blocks :: "bool \<Rightarrow> int \<Rightarrow> database \<Rightarrow> (error, nat) result" where
  "count_active_soar_blocks ok now db =
     (if \<not> ok then Inl db_error else Inr (length (filter (active_at now) (soar_block_rules db))))"

definition list_expired_soar_blocks :: "bool \<Rightarrow> int \<Rightarrow> database \<Rightarrow> (error, active_block_view list) result" where
  "list_expired_soar_blocks ok now db =
     (if \<not> ok then Inl db_error
      else Inr (map active_block_from_row
             (filter (\<lambda>b. sb_expires_at b \<le> now \<and> sb_unblocked_at b = None) (soar_block_rules db))))"

definition list_active_soar_blocks :: "bool \<Rightarrow> int \<Rightarrow> database \<Rightarrow> (error, active_block_view list) result" where
  "list_active_soar_blocks ok now db =
     (if \<not> ok then Inl db_error
      else Inr (map active_block_from_row (filter (active_at now) (soar_block_rules db))))"

definition find_soar_block_by_id :: "bool \<Rightarrow> int \<Rightarrow> database \<Rightarrow> (error, active_block_view option) result" where
  "find_soar_block_by_id ok i db =
     (if \<not> ok then Inl db_error
      else Inr (map_option active_block_from_row (List.find (\<lambda>b. sb_id b = i) (soar_block_rules db))))"

definition mark_soar_block_unblocked :: "bool \<Rightarrow> int \<Rightarrow> int \<Rightarrow> database \<Rightarrow> (error, database) result" where
  "mark_soar_block_unblocked ok now i db =
     (if \<not> ok then Inl db_error
      else Inr (db\<lparr>soar_block_rules := map (\<lambda>b. if sb_id b = i then b\<lparr>sb_unblocked_at := Some now\<rparr> else b)
                                         (soar_block_rules db)\<rparr>))"

definition soar_acl_row :: "ip_version \<Rightarrow> string \<Rightarrow> acl_row" where
  "soar_acl_row v ip = \<lparr>ar_ip_version = as_u8 v, ar_direction = ''source'', ar_list_type = ''blacklist'',
     ar_ip_address = ip, ar_port = 0\<rparr>"

definition commit_soar_block_to_db ::
  "bool \<Rightarrow> int \<Rightarrow> string \<Rightarrow> ip_version \<Rightarrow> int \<Rightarrow> int \<Rightarrow> database \<Rightarrow> (error, int \<times> database) result" where
  "commit_soar_block_to_db ok now source_ip v playbook_id expires_at db =
     (if \<not> ok then Inl db_error
      else
        let existing_acl_count = length (filter (\<lambda>r. r = soar_acl_row v source_ip) (acl_rules db));
            active_soar_owned_count = length (filter (\<lambda>b. sb_source_ip b = source_ip \<and> active_at now b
                \<and> sb_created_acl_rule b \<and> \<not> sb_preserve_acl_on_unblock b) (soar_block_rules db));
            created_acl_rule = (existing_acl_count = 0 \<or> active_soar_owned_count > 0);
            soar_block_id = soar_block_seq db + 1;
            b = \<lparr>sb_id = soar_block_id, sb_source_ip = source_ip, sb_playbook_id = playbook_id, sb_expires_at = expires_at,
                 sb_unblocked_at = None, sb_created_acl_rule = created_acl_rule, sb_preserve_acl_on_unblock = False\<rparr>
        in Inr (soar_block_id,
             db\<lparr>soar_block_rules := soar_block_rules db @ [b], soar_block_seq := soar_block_id,
                acl_rules := insert_or_ignore (soar_acl_row v source_ip) (acl_rules db)\<rparr>))"

text \<open>The query for \<^verbatim>\<open>should_delete_acl\<close> fails where the block does not exist, and with it the transaction.\<close>

definition commit_soar_unblock_to_db ::
  "bool \<Rightarrow> int \<Rightarrow> int \<Rightarrow> ip_version \<Rightarrow> string \<Rightarrow> database \<Rightarrow> (error, database) result" where
  "commit_soar_unblock_to_db ok now soar_block_id v source_ip db =
     (if \<not> ok then Inl db_error
      else
        case List.find (\<lambda>b. sb_id b = soar_block_id) (soar_block_rules db) of
          None \<Rightarrow> Inl db_error
        | Some b \<Rightarrow>
            let should_delete_acl = (sb_created_acl_rule b \<and> \<not> sb_preserve_acl_on_unblock b
                  \<and> \<not> list_ex (\<lambda>c. sb_id c \<noteq> soar_block_id \<and> sb_source_ip c = source_ip \<and> active_at now c)
                       (soar_block_rules db));
                db = (if should_delete_acl
                      then db\<lparr>acl_rules := filter (\<lambda>r. r \<noteq> soar_acl_row v source_ip) (acl_rules db)\<rparr> else db)
            in mark_soar_block_unblocked True now soar_block_id db)"

section \<open>Addresses waiting to be unblocked\<close>

definition insert_pending_unblock :: "bool \<Rightarrow> string \<Rightarrow> database \<Rightarrow> (error, int \<times> database) result" where
  "insert_pending_unblock ok source_ip db =
     (if \<not> ok then Inl db_error
      else
        let i = pending_seq db + 1
        in Inr (i, db\<lparr>pending_unblocks := pending_unblocks db @ [\<lparr>pu_id = i, pu_source_ip = source_ip, pu_retry_count = 0,
                          pu_exhausted_at = None, pu_last_error = None\<rparr>], pending_seq := i\<rparr>))"

definition list_pending_unblocks :: "bool \<Rightarrow> database \<Rightarrow> (error, pending_unblock list) result" where
  "list_pending_unblocks ok db = (if \<not> ok then Inl db_error else Inr (sort_key pu_id (pending_unblocks db)))"

definition delete_pending_unblock :: "bool \<Rightarrow> int \<Rightarrow> database \<Rightarrow> (error, database) result" where
  "delete_pending_unblock ok i db =
     (if \<not> ok then Inl db_error
      else Inr (db\<lparr>pending_unblocks := filter (\<lambda>p. pu_id p \<noteq> i) (pending_unblocks db)\<rparr>))"

definition mark_pending_unblock_exhausted :: "bool \<Rightarrow> int \<Rightarrow> int \<Rightarrow> string \<Rightarrow> database \<Rightarrow> (error, database) result" where
  "mark_pending_unblock_exhausted ok now i last_error db =
     (if \<not> ok then Inl db_error
      else Inr (db\<lparr>pending_unblocks := map (\<lambda>p. if pu_id p = i
                      then p\<lparr>pu_exhausted_at := Some now, pu_last_error := Some last_error\<rparr> else p) (pending_unblocks db)\<rparr>))"

definition increment_pending_unblock_retry :: "bool \<Rightarrow> int \<Rightarrow> database \<Rightarrow> (error, database) result" where
  "increment_pending_unblock_retry ok i db =
     (if \<not> ok then Inl db_error
      else Inr (db\<lparr>pending_unblocks := map (\<lambda>p. if pu_id p = i then p\<lparr>pu_retry_count := pu_retry_count p + 1\<rparr> else p)
                      (pending_unblocks db)\<rparr>))"

section \<open>Rows decode to what was inserted\<close>

lemma acl_rule_from_row_of [simp]:
  "acl_rule_from_row (row_of v d t ip port) =
     Inr \<lparr>rv_ip_version = v, rv_direction = d, rv_list_type = t, rv_ip_address = ip, rv_port = port\<rparr>"
proof -
  have "uint port < 65536" using uint_bounded [of port] by simp
  moreover have "from_u8 (as_u8 v) = Some v" by (simp add: from_u8_iff)
  ultimately show ?thesis
    by (simp add: acl_rule_from_row_def row_of_def decode_acl_direction_def decode_acl_list_type_def
        decode_acl_port_def)
qed

lemma soar_acl_row_of: "soar_acl_row v ip = row_of v Source Black ip 0"
  by (simp add: soar_acl_row_def row_of_def flow_direction_as_str_def list_type_as_str_def)

lemma row_of_inject [simp]:
  "row_of v d t ip port = row_of v' d' t' ip' port' \<longleftrightarrow> v = v' \<and> d = d' \<and> t = t' \<and> ip = ip' \<and> port = port'"
proof
  assume "row_of v d t ip port = row_of v' d' t' ip' port'"
  then have "acl_rule_from_row (row_of v d t ip port) = acl_rule_from_row (row_of v' d' t' ip' port')" by (rule arg_cong)
  then show "v = v' \<and> d = d' \<and> t = t' \<and> ip = ip' \<and> port = port'" by simp
qed simp

lemma collect_results_Inr: "collect_results (map Inr xs) = Inr xs"
  by (induction xs) auto

text \<open>The rows are those the code writes, without duplicates.\<close>

definition row_of_view :: "acl_rule_view \<Rightarrow> acl_row" where
  "row_of_view r = row_of (rv_ip_version r) (rv_direction r) (rv_list_type r) (rv_ip_address r) (rv_port r)"

lemma acl_rule_from_row_of_view [simp]: "acl_rule_from_row (row_of_view r) = Inr r"
  by (simp add: row_of_view_def)

definition wf_rows :: "database \<Rightarrow> bool" where
  "wf_rows db \<longleftrightarrow> distinct (acl_rules db) \<and> (\<exists>rs. acl_rules db = map row_of_view rs)"

lemma list_acl_rules_wf: "acl_rules db = map row_of_view rs \<Longrightarrow> list_acl_rules True db = Inr rs"
  by (simp add: list_acl_rules_def comp_def collect_results_Inr)

lemma set_insert_or_ignore [simp]: "set (insert_or_ignore r rows) = insert r (set rows)"
  by (auto simp: insert_or_ignore_def)

lemma distinct_insert_or_ignore [simp]: "distinct (insert_or_ignore r rows) = distinct rows"
  by (auto simp: insert_or_ignore_def)

section \<open>The life of an automatic block\<close>

text \<open>
  Which ids are in use, and the two facts the block rows promise: an address with a block in force
  has its rule in the table, unless it is one of those in \<open>gone\<close>, which the administrator removed, and a rule the
  administrator claimed is not touched.
\<close>

definition wf_ids :: "database \<Rightarrow> bool" where
  "wf_ids db \<longleftrightarrow> distinct (map sb_id (soar_block_rules db)) \<and> (\<forall>b\<in>set (soar_block_rules db). sb_id b \<le> soar_block_seq db)"

definition covered :: "int \<Rightarrow> acl_row set \<Rightarrow> database \<Rightarrow> bool" where
  "covered now gone db \<longleftrightarrow> (\<forall>b\<in>set (soar_block_rules db). active_at now b \<longrightarrow>
     (\<exists>v. ip_version_from_str (sb_source_ip b) = Inr v
        \<and> (soar_acl_row v (sb_source_ip b) \<in> set (acl_rules db) \<or> soar_acl_row v (sb_source_ip b) \<in> gone)))"

definition claimed :: "ip_version \<Rightarrow> string \<Rightarrow> database \<Rightarrow> bool" where
  "claimed v ip db \<longleftrightarrow> soar_acl_row v ip \<in> set (acl_rules db) \<and>
     (\<forall>b\<in>set (soar_block_rules db). sb_source_ip b = ip \<longrightarrow> sb_unblocked_at b = None \<longrightarrow>
        sb_preserve_acl_on_unblock b \<or> \<not> sb_created_acl_rule b)"

text \<open>
  The statements the response engine and the administrator run, with the arguments the code gives
  them: the version of the address, and the address of the block that is lifted. The administrator's removal of a rule
  is a step of its own in \<open>store_reach\<close> below.
\<close>

inductive store_step :: "int \<Rightarrow> database \<Rightarrow> database \<Rightarrow> bool" for now where
  block: "ip_version_from_str ip = Inr v \<Longrightarrow> commit_soar_block_to_db ok now ip v pid expires db = Inr (i, db')
          \<Longrightarrow> store_step now db db'"
| unblock: "b \<in> set (soar_block_rules db) \<Longrightarrow> ip_version_from_str (sb_source_ip b) = Inr v
          \<Longrightarrow> commit_soar_unblock_to_db ok now (sb_id b) v (sb_source_ip b) db = Inr db' \<Longrightarrow> store_step now db db'"
| mark: "mark_soar_block_unblocked ok now i db = Inr db' \<Longrightarrow> store_step now db db'"
| add: "insert_acl_rule ok v d t ip port (d = Source \<and> t = Black) db = Inr db' \<Longrightarrow> store_step now db db'"
| queue: "insert_pending_unblock ok ip db = Inr (i, db') \<Longrightarrow> store_step now db db'"
| unqueue: "delete_pending_unblock ok i db = Inr db' \<Longrightarrow> store_step now db db'"
| give_up: "mark_pending_unblock_exhausted ok now i msg db = Inr db' \<Longrightarrow> store_step now db db'"
| retry: "increment_pending_unblock_retry ok i db = Inr db' \<Longrightarrow> store_step now db db'"

inductive_cases store_stepE: "store_step now db db'"

lemma pending_result:
  "insert_pending_unblock ok ip db = Inr (i, db') \<Longrightarrow> \<exists>ps n. db' = db\<lparr>pending_unblocks := ps, pending_seq := n\<rparr>"
  "delete_pending_unblock ok i db = Inr db' \<Longrightarrow> \<exists>ps. db' = db\<lparr>pending_unblocks := ps\<rparr>"
  "mark_pending_unblock_exhausted ok now i msg db = Inr db' \<Longrightarrow> \<exists>ps. db' = db\<lparr>pending_unblocks := ps\<rparr>"
  "increment_pending_unblock_retry ok i db = Inr db' \<Longrightarrow> \<exists>ps. db' = db\<lparr>pending_unblocks := ps\<rparr>"
  by (auto simp: insert_pending_unblock_def delete_pending_unblock_def mark_pending_unblock_exhausted_def
      increment_pending_unblock_retry_def Let_def split: if_splits)

lemma find_id:
  assumes "wf_ids db" "b \<in> set (soar_block_rules db)"
  shows "List.find (\<lambda>c. sb_id c = sb_id b) (soar_block_rules db) = Some b"
proof -
  obtain c where c: "List.find (\<lambda>c. sb_id c = sb_id b) (soar_block_rules db) = Some c"
    using assms(2) by (cases "List.find (\<lambda>c. sb_id c = sb_id b) (soar_block_rules db)") (auto simp: find_None_iff)
  then have "c \<in> set (soar_block_rules db)" "sb_id c = sb_id b"
    by (auto simp: find_Some_iff)
  with assms c show ?thesis by (metis wf_ids_def distinct_map inj_on_eq_iff)
qed

lemma mark_simps [simp]:
  "mark_soar_block_unblocked True now i db = Inr (db\<lparr>soar_block_rules := map (\<lambda>b. if sb_id b = i
     then b\<lparr>sb_unblocked_at := Some now\<rparr> else b) (soar_block_rules db)\<rparr>)"
  by (simp add: mark_soar_block_unblocked_def)

text \<open>Three of the statements update block rows in place.\<close>

lemma wf_ids_map:
  assumes "wf_ids db" "soar_block_rules db' = map f (soar_block_rules db)" "\<And>b. sb_id (f b) = sb_id b"
    "soar_block_seq db' = soar_block_seq db"
  shows "wf_ids db'"
  using assms(1,4) by (auto simp: wf_ids_def assms(2,3) comp_def)

lemma unblock_result:
  assumes "wf_ids db" "b \<in> set (soar_block_rules db)"
    and "commit_soar_unblock_to_db ok now (sb_id b) v (sb_source_ip b) db = Inr db'"
  shows "soar_block_rules db' = map (\<lambda>c. if sb_id c = sb_id b then c\<lparr>sb_unblocked_at := Some now\<rparr> else c) (soar_block_rules db)"
    and "soar_block_seq db' = soar_block_seq db"
    and "acl_rules db' = (if sb_created_acl_rule b \<and> \<not> sb_preserve_acl_on_unblock b \<and>
           (\<forall>c\<in>set (soar_block_rules db). sb_id c \<noteq> sb_id b \<longrightarrow> sb_source_ip c = sb_source_ip b \<longrightarrow> \<not> active_at now c)
         then filter (\<lambda>r. r \<noteq> soar_acl_row v (sb_source_ip b)) (acl_rules db) else acl_rules db)"
  using assms(3) find_id [OF assms(1,2)]
  by (auto simp: commit_soar_unblock_to_db_def Let_def list_ex_iff split: if_splits)

lemma insert_result:
  assumes "insert_acl_rule ok v d t ip port preserve db = Inr db'"
  shows "soar_block_rules db' = map (\<lambda>b. if preserve \<and> sb_source_ip b = ip \<and> sb_unblocked_at b = None
           then b\<lparr>sb_preserve_acl_on_unblock := True\<rparr> else b) (soar_block_rules db)"
    and "soar_block_seq db' = soar_block_seq db"
    and "acl_rules db' = insert_or_ignore (row_of v d t ip port) (acl_rules db)"
  using assms by (auto simp: insert_acl_rule_def Let_def split: if_splits)

lemma wf_ids_step: "store_step now db db' \<Longrightarrow> wf_ids db \<Longrightarrow> wf_ids db'"
proof (induction rule: store_step.induct)
  case (block ip v ok pid expires db i db')
  then show ?case
    by (fastforce simp: commit_soar_block_to_db_def wf_ids_def Let_def split: if_splits)
next
  case (unblock b db v ok db')
  note r = unblock_result [OF unblock.prems unblock.hyps(1,3)]
  show ?case by (rule wf_ids_map [OF unblock.prems r(1) _ r(2)]) simp
next
  case (mark ok i db db')
  then have "db' = db\<lparr>soar_block_rules := map (\<lambda>b. if sb_id b = i then b\<lparr>sb_unblocked_at := Some now\<rparr> else b)
      (soar_block_rules db)\<rparr>"
    by (auto simp: mark_soar_block_unblocked_def split: if_splits)
  then show ?case
    by (intro wf_ids_map [OF mark.prems, of _ "\<lambda>b. if sb_id b = i then b\<lparr>sb_unblocked_at := Some now\<rparr> else b"]) simp_all
next
  case (add ok v d t ip port db db')
  note r = insert_result [OF add.hyps]
  show ?case by (rule wf_ids_map [OF add.prems r(1) _ r(2)]) simp
qed (auto simp: wf_ids_def dest!: pending_result)

lemma covered_step:
  assumes "store_step now db db'" "wf_ids db" "covered now gone db"
  shows "covered now gone db'"
  using assms
proof (induction rule: store_step.induct)
  case (block ip v ok pid expires db i db')
  then show ?case
    by (auto simp: commit_soar_block_to_db_def covered_def Let_def split: if_splits)
next
  case (unblock b db v ok db')
  note r = unblock_result [OF unblock.prems(1) unblock.hyps(1,3)]
  show ?case
    unfolding covered_def
  proof (intro ballI impI)
    fix c assume "c \<in> set (soar_block_rules db')" "active_at now c"
    then have c: "c \<in> set (soar_block_rules db)" "sb_id c \<noteq> sb_id b"
      by (auto simp: r(1) active_at_def split: if_splits)
    then obtain w where w: "ip_version_from_str (sb_source_ip c) = Inr w"
        "soar_acl_row w (sb_source_ip c) \<in> set (acl_rules db) \<or> soar_acl_row w (sb_source_ip c) \<in> gone"
      using unblock.prems(2) \<open>active_at now c\<close> by (auto simp: covered_def)
    moreover have "soar_acl_row w (sb_source_ip c) \<noteq> soar_acl_row v (sb_source_ip b) \<or> sb_source_ip c = sb_source_ip b"
      by (auto simp: soar_acl_row_of)
    ultimately show "\<exists>v. ip_version_from_str (sb_source_ip c) = Inr v
        \<and> (soar_acl_row v (sb_source_ip c) \<in> set (acl_rules db') \<or> soar_acl_row v (sb_source_ip c) \<in> gone)"
      using c \<open>active_at now c\<close> by (auto simp: r(3))
  qed
next
  case (mark ok i db db')
  then show ?case
    by (auto simp: mark_soar_block_unblocked_def covered_def active_at_def split: if_splits)
next
  case (add ok v d t ip port db db')
  then show ?case
    by (fastforce simp: covered_def insert_result active_at_def split: if_splits)
qed (auto simp: covered_def dest!: pending_result)

text \<open>
  Reachable stores: time passes, and the statements run. The rows in \<open>gone\<close> are those the administrator removed and
  that no statement has written again: every write of the two tables is one of the steps.
\<close>

definition empty_db :: database where
  "empty_db = \<lparr>acl_rules = [], soar_block_rules = [], pending_unblocks = [], soar_block_seq = 0, pending_seq = 0\<rparr>"

inductive store_reach :: "int \<Rightarrow> acl_row set \<Rightarrow> database \<Rightarrow> bool" where
  init: "store_reach now {} empty_db"
| tick: "store_reach now gone db \<Longrightarrow> now \<le> now' \<Longrightarrow> store_reach now' gone db"
| step: "store_reach now gone db \<Longrightarrow> store_step now db db' \<Longrightarrow> store_reach now (gone - set (acl_rules db')) db'"
| remove: "store_reach now gone db \<Longrightarrow> delete_acl_rule ok v d t ip port db = Inr db'
          \<Longrightarrow> store_reach now (insert (row_of v d t ip port) gone) db'"

lemma covered_later: "covered now gone db \<Longrightarrow> now \<le> now' \<Longrightarrow> covered now' gone db"
  by (auto simp: covered_def active_at_def)

lemma covered_refresh: "covered now gone db \<Longrightarrow> covered now (gone - set (acl_rules db)) db"
  by (auto simp: covered_def)

lemma covered_remove:
  "delete_acl_rule ok v d t ip port db = Inr db' \<Longrightarrow> covered now gone db \<Longrightarrow> covered now (insert (row_of v d t ip port) gone) db'"
  by (auto simp: covered_def delete_acl_rule_def split: if_splits)

lemma store_reach_inv: "store_reach now gone db \<Longrightarrow> wf_ids db \<and> covered now gone db \<and> gone \<inter> set (acl_rules db) = {}"
proof (induction rule: store_reach.induct)
  case (init now)
  then show ?case by (simp add: empty_db_def wf_ids_def covered_def)
next
  case (tick now gone db now')
  then show ?case using covered_later by blast
next
  case (step now gone db db')
  then show ?case using wf_ids_step covered_step covered_refresh by blast
next
  case (remove now gone db ok v d t ip port db')
  then have "wf_ids db' \<and> (insert (row_of v d t ip port) gone) \<inter> set (acl_rules db') = {}"
    by (auto simp: delete_acl_rule_def wf_ids_def split: if_splits)
  moreover have "covered now (insert (row_of v d t ip port) gone) db'"
    by (rule covered_remove [OF remove.hyps(2) conjunct1 [OF conjunct2 [OF remove.IH]]])
  ultimately show ?case by simp
qed

text \<open>What keeps a claimed rule: lifting a block that is still in force, in particular.\<close>

lemma claimed_block:
  assumes "claimed v ip db" "commit_soar_block_to_db ok now ip' v' pid expires db = Inr (i, db')"
    and "ip_version_from_str ip = Inr v" "ip_version_from_str ip' = Inr v'"
  shows "claimed v ip db'"
proof (cases "ip' = ip")
  case True
  with assms have "v' = v" by simp
  have "soar_acl_row v ip \<in> set (acl_rules db)" using assms(1) by (simp add: claimed_def)
  then have acl: "filter (\<lambda>r. r = soar_acl_row v ip) (acl_rules db) \<noteq> []" by (auto simp: filter_empty_conv)
  have own: "filter (\<lambda>b. sb_source_ip b = ip \<and> active_at now b \<and> sb_created_acl_rule b \<and> \<not> sb_preserve_acl_on_unblock b)
      (soar_block_rules db) = []"
    using assms(1) by (auto simp: claimed_def active_at_def filter_empty_conv)
  show ?thesis
    using assms(1,2) True \<open>v' = v\<close> acl own
    by (simp add: commit_soar_block_to_db_def claimed_def Let_def split: if_splits) (use acl in force)
next
  case False
  with assms(1,2) show ?thesis
    by (simp add: commit_soar_block_to_db_def claimed_def Let_def split: if_splits) force+
qed

lemma claimed_unblock:
  assumes "claimed v ip db" "wf_ids db" "b \<in> set (soar_block_rules db)" "sb_unblocked_at b = None"
    and "commit_soar_unblock_to_db ok now (sb_id b) v' (sb_source_ip b) db = Inr db'"
  shows "claimed v ip db'"
proof -
  note r = unblock_result [OF assms(2,3,5)]
  have "soar_acl_row v ip \<in> set (acl_rules db')"
  proof (cases "sb_source_ip b = ip")
    case True
    with assms(1,3,4) have "sb_preserve_acl_on_unblock b \<or> \<not> sb_created_acl_rule b" by (auto simp: claimed_def)
    then show ?thesis using assms(1) by (auto simp: r(3) claimed_def)
  next
    case False
    then show ?thesis using assms(1) by (auto simp: r(3) claimed_def soar_acl_row_of)
  qed
  then show ?thesis using assms(1) by (auto simp: claimed_def r(1))
qed

lemma claimed_add:
  assumes "insert_acl_rule ok v Source Black ip 0 True db = Inr db'"
  shows "claimed v ip db'"
proof -
  note r = insert_result [OF assms]
  have "sb_preserve_acl_on_unblock b" if b: "b \<in> set (soar_block_rules db')" "sb_source_ip b = ip" "sb_unblocked_at b = None" for b
  proof -
    obtain c where "b = (if sb_source_ip c = ip \<and> sb_unblocked_at c = None then c\<lparr>sb_preserve_acl_on_unblock := True\<rparr> else c)"
      using b(1) unfolding r(1) set_map by (elim imageE) simp
    with b(2,3) show ?thesis by (simp split: if_splits)
  qed
  then show ?thesis by (simp add: claimed_def r(3) soar_acl_row_of)
qed

section \<open>Properties\<close>

text \<open>
  C5. In every state of the database that its statements reach (automatic blocks, lifting them in any order,
  overlapping or not, marking them expired, the queue of pending unblocks, the administrator adding and removing
  rules), an address with a block in force has its blacklist rule in the table exactly when the administrator
  has not removed that rule since it was last written: lifting one of several overlapping blocks never removes
  the rule the others rely on, and a further block of the address brings a removed rule back.
\<close>

theorem active_blocks_keep_their_rule:
  assumes "store_reach now gone db" "b \<in> set (soar_block_rules db)" "active_at now b"
  shows "\<exists>v row. ip_version_from_str (sb_source_ip b) = Inr v
    \<and> row = \<lparr>ar_ip_version = as_u8 v, ar_direction = ''source'', ar_list_type = ''blacklist'',
              ar_ip_address = sb_source_ip b, ar_port = 0\<rparr>
    \<and> (row \<in> set (acl_rules db) \<longleftrightarrow> row \<notin> gone)"
  using store_reach_inv [OF assms(1)] assms(2,3) unfolding covered_def soar_acl_row_def by blast

definition sample_ip :: string where "sample_ip = show_ipv4 3221225985"

lemma sample_ip_version: "ip_version_from_str sample_ip = Inr V4"
  by (simp add: ip_version_from_str_def sample_ip_def)

definition sample_block :: "int \<Rightarrow> int \<Rightarrow> soar_block_row" where
  "sample_block i expires = \<lparr>sb_id = i, sb_source_ip = sample_ip, sb_playbook_id = i, sb_expires_at = expires,
     sb_unblocked_at = None, sb_created_acl_rule = True, sb_preserve_acl_on_unblock = False\<rparr>"

definition one_block :: database where
  "one_block = empty_db\<lparr>soar_block_rules := [sample_block 1 100], soar_block_seq := 1, acl_rules := [soar_acl_row V4 sample_ip]\<rparr>"

definition two_blocks :: database where
  "two_blocks = one_block\<lparr>soar_block_rules := [sample_block 1 100, sample_block 2 200], soar_block_seq := 2\<rparr>"

lemma two_blocks_steps:
  "commit_soar_block_to_db True 0 sample_ip V4 1 100 empty_db = Inr (1, one_block)"
  "commit_soar_block_to_db True 0 sample_ip V4 2 200 one_block = Inr (2, two_blocks)"
  by (simp_all add: commit_soar_block_to_db_def empty_db_def one_block_def two_blocks_def sample_block_def
      insert_or_ignore_def active_at_def Let_def)

lemma reach_two_blocks: "store_reach 0 {} two_blocks"
proof -
  have "store_reach 0 ({} - set (acl_rules one_block)) one_block"
    by (rule store_reach.step [OF store_reach.init store_step.block [OF sample_ip_version two_blocks_steps(1)]])
  from store_reach.step [OF this store_step.block [OF sample_ip_version two_blocks_steps(2)]] show ?thesis by simp
qed

theorem active_blocks_keep_their_rule_witness:
  "\<exists>db v. commit_soar_unblock_to_db True 0 1 V4 sample_ip two_blocks = Inr db
    \<and> ip_version_from_str sample_ip = Inr v
    \<and> \<lparr>ar_ip_version = as_u8 v, ar_direction = ''source'', ar_list_type = ''blacklist'',
        ar_ip_address = sample_ip, ar_port = 0\<rparr> \<in> set (acl_rules db)"
proof -
  let ?db = "two_blocks\<lparr>soar_block_rules := [(sample_block 1 100)\<lparr>sb_unblocked_at := Some 0\<rparr>, sample_block 2 200]\<rparr>"
  have u: "commit_soar_unblock_to_db True 0 (sb_id (sample_block 1 100)) V4 (sb_source_ip (sample_block 1 100)) two_blocks = Inr ?db"
    by (simp add: commit_soar_unblock_to_db_def two_blocks_def sample_block_def active_at_def Let_def)
  have "store_reach 0 ({} - set (acl_rules ?db)) ?db"
    by (rule store_reach.step [OF reach_two_blocks store_step.unblock [OF _ _ u]])
      (simp_all add: two_blocks_def sample_block_def sample_ip_version)
  then have "store_reach 0 {} ?db" by simp
  from active_blocks_keep_their_rule [OF this, of "sample_block 2 200"] u show ?thesis
    by (simp add: sample_block_def active_at_def)
qed

text \<open>
  The administrator's removal does take the row of a block that is still in force: the kernel and the table forget
  the address, while the block stays listed as active.
\<close>

lemma removal_drops_active_block:
  "\<exists>db. delete_acl_rule True V4 Source Black sample_ip 0 two_blocks = Inr db \<and> acl_rules db = []
     \<and> store_reach 0 {row_of V4 Source Black sample_ip 0} db
     \<and> (\<exists>b\<in>set (soar_block_rules db). sb_source_ip b = sample_ip \<and> active_at 0 b)"
proof -
  let ?db = "two_blocks\<lparr>acl_rules := []\<rparr>"
  have d: "delete_acl_rule True V4 Source Black sample_ip 0 two_blocks = Inr ?db"
    by (simp add: delete_acl_rule_def two_blocks_def one_block_def soar_acl_row_of)
  from store_reach.remove [OF reach_two_blocks d] d show ?thesis
    by (intro exI [of _ ?db]) (simp add: two_blocks_def sample_block_def active_at_def)
qed

text \<open>
  A blacklist rule the administrator adds for an address survives the automatic blocks of that
  address: it is in the table after any number of further blocks and after every block in force is
  lifted, whether the block was placed before or after the rule.
\<close>

theorem administrator_rule_survives_blocks:
  assumes "ip_version_from_str ip = Inr v" "wf_ids db"
    and "insert_acl_rule ok v Source Black ip 0 True db = Inr db\<^sub>1"
    and "ip_version_from_str ip' = Inr v'"
    and "commit_soar_block_to_db ok\<^sub>2 now ip' v' pid expires db\<^sub>1 = Inr (i, db\<^sub>2)"
    and "b \<in> set (soar_block_rules db\<^sub>2)" "sb_unblocked_at b = None"
    and "commit_soar_unblock_to_db ok\<^sub>3 now' (sb_id b) v\<^sub>b (sb_source_ip b) db\<^sub>2 = Inr db\<^sub>3"
  shows "row_of v Source Black ip 0 \<in> set (acl_rules db\<^sub>1) \<inter> set (acl_rules db\<^sub>2) \<inter> set (acl_rules db\<^sub>3)"
proof -
  have 1: "claimed v ip db\<^sub>1" by (rule claimed_add [OF assms(3)])
  have 2: "claimed v ip db\<^sub>2" by (rule claimed_block [OF 1 assms(5,1,4)])
  have "wf_ids db\<^sub>1"
    using store_step.add [of ok v Source Black ip 0 db db\<^sub>1 now] assms(2,3) wf_ids_step by simp
  then have "wf_ids db\<^sub>2" using store_step.block [OF assms(4,5)] wf_ids_step by blast
  from claimed_unblock [OF 2 this assms(6-8)] 1 2 show ?thesis
    by (simp add: claimed_def soar_acl_row_of)
qed

theorem administrator_rule_survives_blocks_witness:
  "\<exists>db\<^sub>1 i db\<^sub>2 db\<^sub>3. insert_acl_rule True V4 Source Black sample_ip 0 True one_block = Inr db\<^sub>1
    \<and> commit_soar_block_to_db True 0 sample_ip V4 2 200 db\<^sub>1 = Inr (i, db\<^sub>2)
    \<and> commit_soar_unblock_to_db True 50 1 V4 sample_ip db\<^sub>2 = Inr db\<^sub>3
    \<and> row_of V4 Source Black sample_ip 0 \<in> set (acl_rules db\<^sub>3)"
proof -
  obtain db\<^sub>1 where 1: "insert_acl_rule True V4 Source Black sample_ip 0 True one_block = Inr db\<^sub>1"
    by (simp add: insert_acl_rule_def Let_def)
  obtain i db\<^sub>2 where 2: "commit_soar_block_to_db True 0 sample_ip V4 2 200 db\<^sub>1 = Inr (i, db\<^sub>2)"
    by (simp add: commit_soar_block_to_db_def Let_def)
  let ?b = "(sample_block 1 100)\<lparr>sb_preserve_acl_on_unblock := True\<rparr>"
  have "soar_block_rules db\<^sub>1 = [?b]"
    using insert_result(1) [OF 1] by (simp add: one_block_def sample_block_def)
  then have b: "?b \<in> set (soar_block_rules db\<^sub>2)"
    using 2 by (simp add: commit_soar_block_to_db_def Let_def) force
  have "wf_ids one_block" by (simp add: wf_ids_def one_block_def sample_block_def)
  moreover obtain db\<^sub>3 where 3: "commit_soar_unblock_to_db True 50 (sb_id ?b) V4 (sb_source_ip ?b) db\<^sub>2 = Inr db\<^sub>3"
    using b by (cases "List.find (\<lambda>c. sb_id c = 1) (soar_block_rules db\<^sub>2)")
      (auto simp: commit_soar_unblock_to_db_def find_None_iff sample_block_def Let_def)
  ultimately show ?thesis
    using administrator_rule_survives_blocks [OF sample_ip_version _ 1 sample_ip_version 2 b _ 3] 1 2 3
    by (simp add: sample_block_def)
qed

end
