(* ===== verification/Rate_Limit_Control.thy ===== *)
theory Rate_Limit_Control
  imports Rate_Limit_Stage Domain_Errors Rust_Float Block_Store
begin

text \<open>
  The control side of the rate limiter: the adapter of the kernel's configuration array
  (\<^verbatim>\<open>adapter/ebpf/rate_limit.rs\<close>), the service that changes it with its table
  (\<^verbatim>\<open>core/data_plane/rate_limit_service.rs\<close>, \<^verbatim>\<open>adapter/persistence/enforcement.rs\<close>) and the task that
  lowers and restores the rates for automatic responses (\<^verbatim>\<open>core/response/rate_limit_owner.rs\<close>).

  Whether the kernel carries out the \<open>n\<close>-th system call is \<open>K n\<close>; the adapter's state counts them. A
  point in time is a number of nanoseconds. The blocking closures of the owner task do not panic, so
  joining them succeeds. The text of a reply is a value with what the text names.
\<close>

section \<open>The configuration array\<close>

record rl_config =
  config_map :: "rate_config option"
  syscalls :: nat

definition RateLimitConfig_unavailable :: rl_config where
  "RateLimitConfig_unavailable = \<lparr>config_map = None, syscalls = 0\<rparr>"

definition get_at :: "(nat \<Rightarrow> bool) \<Rightarrow> u32 \<Rightarrow> rl_config \<Rightarrow> (error, u64) result \<times> rl_config" where
  "get_at K index s =
     (case config_map s of
        None \<Rightarrow> (Inl (Ebpf NotLoaded), s)
      | Some m \<Rightarrow>
          ((if K (syscalls s) then ok_or (m index) (Ebpf MapOperationError) else Inl (Ebpf MapOperationError)),
           s\<lparr>syscalls := syscalls s + 1\<rparr>))"

definition set_at :: "(nat \<Rightarrow> bool) \<Rightarrow> u32 \<Rightarrow> u64 \<Rightarrow> rl_config \<Rightarrow> (error, unit) result \<times> rl_config" where
  "set_at K index value s =
     (case config_map s of
        None \<Rightarrow> (Inl (Ebpf NotLoaded), s)
      | Some m \<Rightarrow>
          if K (syscalls s) \<and> m index \<noteq> None
          then (Inr (), s\<lparr>config_map := Some (m(index \<mapsto> value)), syscalls := syscalls s + 1\<rparr>)
          else (Inl (Ebpf MapOperationError), s\<lparr>syscalls := syscalls s + 1\<rparr>))"

definition get_packet_rate where "get_packet_rate K = get_at K 0"
definition get_syn_rate where "get_syn_rate K = get_at K 1"
definition get_udp_rate where "get_udp_rate K = get_at K 2"
definition get_dns_rate where "get_dns_rate K = get_at K 3"
definition get_window_ns where "get_window_ns K = get_at K 4"
definition set_packet_rate where "set_packet_rate K = set_at K 0"
definition set_syn_rate where "set_syn_rate K = set_at K 1"
definition set_udp_rate where "set_udp_rate K = set_at K 2"
definition set_dns_rate where "set_dns_rate K = set_at K 3"
definition set_window_ns where "set_window_ns K = set_at K 4"

lemmas accessors = get_packet_rate_def get_syn_rate_def get_udp_rate_def get_dns_rate_def get_window_ns_def
  set_packet_rate_def set_syn_rate_def set_udp_rate_def set_dns_rate_def set_window_ns_def

section \<open>The service\<close>

definition PACKET_RATE_KEY :: string where "PACKET_RATE_KEY = ''packet_rate''"
definition SYN_RATE_KEY :: string where "SYN_RATE_KEY = ''syn_rate''"
definition UDP_RATE_KEY :: string where "UDP_RATE_KEY = ''udp_rate''"
definition DNS_RATE_KEY :: string where "DNS_RATE_KEY = ''dns_rate''"
definition WINDOW_NS_KEY :: string where "WINDOW_NS_KEY = ''window_ns''"

lemmas rate_keys = PACKET_RATE_KEY_def SYN_RATE_KEY_def UDP_RATE_KEY_def DNS_RATE_KEY_def WINDOW_NS_KEY_def

record rate_limit_settings =
  rls_packet_rate :: "u64 option"
  rls_syn_rate :: "u64 option"
  rls_udp_rate :: "u64 option"
  rls_dns_rate :: "u64 option"
  rls_window_ns :: "u64 option"

record rate_limit_change =
  ch_key :: string
  ch_old :: u64
  ch_new :: u64

record rl_state =
  rl_cfg :: rl_config
  rl_rows :: "(string \<times> int) list"

definition encode_rate_limit_value :: "u64 \<Rightarrow> (error, int) result" where
  "encode_rate_limit_value value = (if uint value < 2 ^ 63 then Inr (uint value) else Inl db_error)"

definition decode_rate_limit_value :: "int \<Rightarrow> (error, u64) result" where
  "decode_rate_limit_value raw = (if raw \<ge> 0 then Inr (word_of_int raw) else Inl db_error)"

text \<open>\<^verbatim>\<open>INSERT OR REPLACE\<close> on the primary key.\<close>

definition insert_or_replace :: "string \<times> int \<Rightarrow> (string \<times> int) list \<Rightarrow> (string \<times> int) list" where
  "insert_or_replace kv rows = filter (\<lambda>r. fst r \<noteq> fst kv) rows @ [kv]"

definition set_rate_limits :: "bool \<Rightarrow> (string \<times> u64) list \<Rightarrow> (string \<times> int) list \<Rightarrow> (error, (string \<times> int) list) result" where
  "set_rate_limits ok values rows =
     and_then (collect_results (map (\<lambda>(key, value). and_then (encode_rate_limit_value value) (\<lambda>v. Inr (key, v))) values))
       (\<lambda>encoded. if \<not> ok then Inl db_error else Inr (fold insert_or_replace encoded rows))"

definition load_rate_limit_config :: "bool \<Rightarrow> (string \<times> int) list \<Rightarrow> (error, (string \<times> u64) list) result" where
  "load_rate_limit_config ok rows =
     (if \<not> ok then Inl db_error
      else collect_results (map (\<lambda>(key, raw). and_then (decode_rate_limit_value raw) (\<lambda>v. Inr (key, v))) rows))"

definition validate_rate_limit_value :: "string \<Rightarrow> u64 \<Rightarrow> (error, unit) result" where
  "validate_rate_limit_value key value = (if value = 0 then Inl (Ebpf (InvalidRateLimitValue key value)) else Inr ())"

definition apply_rate :: "(nat \<Rightarrow> bool) \<Rightarrow> string \<Rightarrow> u64 \<Rightarrow> rl_config \<Rightarrow> (error, unit) result \<times> rl_config" where
  "apply_rate K key value s =
     (if key = PACKET_RATE_KEY then set_packet_rate K value s
      else if key = SYN_RATE_KEY then set_syn_rate K value s
      else if key = UDP_RATE_KEY then set_udp_rate K value s
      else if key = DNS_RATE_KEY then set_dns_rate K value s
      else if key = WINDOW_NS_KEY then set_window_ns K value s
      else (Inr (), s))"

definition rollback :: "(nat \<Rightarrow> bool) \<Rightarrow> (string \<times> u64) list \<Rightarrow> rl_config \<Rightarrow> rl_config" where
  "rollback K applied s = fold (\<lambda>(key, old) s. snd (apply_rate K key old s)) (rev applied) s"

text \<open>One of the five \<^verbatim>\<open>if let Some(v)\<close> blocks.\<close>

definition prepare_one ::
  "string \<Rightarrow> (rl_config \<Rightarrow> (error, u64) result \<times> rl_config) \<Rightarrow> u64 option \<Rightarrow> rate_limit_change list \<Rightarrow> rl_config
   \<Rightarrow> (error, rate_limit_change list) result \<times> rl_config" where
  "prepare_one key get value changes s =
     (case value of
        None \<Rightarrow> (Inr changes, s)
      | Some v \<Rightarrow>
          try_then (validate_rate_limit_value key v, s) (\<lambda>_ s.
          try_then (get s) (\<lambda>old s. (Inr (changes @ [\<lparr>ch_key = key, ch_old = old, ch_new = v\<rparr>]), s))))"

definition prepare_changes ::
  "(nat \<Rightarrow> bool) \<Rightarrow> rate_limit_settings \<Rightarrow> rl_config \<Rightarrow> (error, rate_limit_change list) result \<times> rl_config" where
  "prepare_changes K settings s =
     try_then (prepare_one PACKET_RATE_KEY (get_packet_rate K) (rls_packet_rate settings) [] s) (\<lambda>changes s.
     try_then (prepare_one SYN_RATE_KEY (get_syn_rate K) (rls_syn_rate settings) changes s) (\<lambda>changes s.
     try_then (prepare_one UDP_RATE_KEY (get_udp_rate K) (rls_udp_rate settings) changes s) (\<lambda>changes s.
     try_then (prepare_one DNS_RATE_KEY (get_dns_rate K) (rls_dns_rate settings) changes s) (\<lambda>changes s.
     prepare_one WINDOW_NS_KEY (get_window_ns K) (rls_window_ns settings) changes s))))"

fun apply_changes ::
  "(nat \<Rightarrow> bool) \<Rightarrow> rate_limit_change list \<Rightarrow> (string \<times> u64) list \<Rightarrow> rl_config
   \<Rightarrow> (error, (string \<times> u64) list) result \<times> rl_config" where
  "apply_changes K [] applied s = (Inr applied, s)"
| "apply_changes K (change # changes) applied s =
     (case apply_rate K (ch_key change) (ch_new change) s of
        (Inl err, s) \<Rightarrow> (Inl err, rollback K applied s)
      | (Inr _, s) \<Rightarrow> apply_changes K changes (applied @ [(ch_key change, ch_old change)]) s)"

definition update_rate_limits ::
  "(nat \<Rightarrow> bool) \<Rightarrow> bool \<Rightarrow> rate_limit_settings \<Rightarrow> rl_state \<Rightarrow> (error, unit) result \<times> rl_state" where
  "update_rate_limits K ok settings st =
     (case prepare_changes K settings (rl_cfg st) of
        (Inl e, s) \<Rightarrow> (Inl e, st\<lparr>rl_cfg := s\<rparr>)
      | (Inr changes, s) \<Rightarrow>
          (case apply_changes K changes [] s of
             (Inl e, s) \<Rightarrow> (Inl e, st\<lparr>rl_cfg := s\<rparr>)
           | (Inr applied, s) \<Rightarrow>
               (case set_rate_limits ok (map (\<lambda>c. (ch_key c, ch_new c)) changes) (rl_rows st) of
                  Inl e \<Rightarrow> (Inl e, st\<lparr>rl_cfg := rollback K applied s\<rparr>)
                | Inr rows \<Rightarrow> (Inr (), st\<lparr>rl_cfg := s, rl_rows := rows\<rparr>))))"

definition restore_rate_limits :: "(nat \<Rightarrow> bool) \<Rightarrow> bool \<Rightarrow> rl_state \<Rightarrow> rl_state" where
  "restore_rate_limits K ok st =
     (case load_rate_limit_config ok (rl_rows st) of
        Inl _ \<Rightarrow> st
      | Inr configs \<Rightarrow> st\<lparr>rl_cfg := fold (\<lambda>(key, value) s. snd (apply_rate K key value s)) configs (rl_cfg st)\<rparr>)"

definition current_settings :: "(nat \<Rightarrow> bool) \<Rightarrow> rl_config \<Rightarrow> (error, rate_limit_settings) result \<times> rl_config" where
  "current_settings K s =
     try_then (get_packet_rate K s) (\<lambda>packet s.
     try_then (get_syn_rate K s) (\<lambda>syn s.
     try_then (get_udp_rate K s) (\<lambda>udp s.
     try_then (get_dns_rate K s) (\<lambda>dns s.
     try_then (get_window_ns K s) (\<lambda>window s.
       (Inr \<lparr>rls_packet_rate = Some packet, rls_syn_rate = Some syn, rls_udp_rate = Some udp, rls_dns_rate = Some dns,
             rls_window_ns = Some window\<rparr>, s))))))"

section \<open>What the service does to the array\<close>

definition rate_index :: "string \<Rightarrow> u32 option" where
  "rate_index key =
     map_of [(PACKET_RATE_KEY, 0), (SYN_RATE_KEY, 1), (UDP_RATE_KEY, 2), (DNS_RATE_KEY, 3), (WINDOW_NS_KEY, 4)] key"

lemma apply_rate_index:
  "apply_rate K key v s = (case rate_index key of Some i \<Rightarrow> set_at K i v s | None \<Rightarrow> (Inr (), s))"
  by (simp add: apply_rate_def rate_index_def accessors rate_keys)

text \<open>The array is there, with its five entries.\<close>

definition loaded :: "rate_config \<Rightarrow> bool" where
  "loaded m \<longleftrightarrow> (\<forall>i\<in>{0, 1, 2, 3, 4}. m i \<noteq> None)"

lemma rate_index_loaded: "loaded m \<Longrightarrow> rate_index key = Some i \<Longrightarrow> m i \<noteq> None"
  by (auto simp: loaded_def rate_index_def split: if_splits)

lemma loaded_upd: "loaded m \<Longrightarrow> loaded (m(i \<mapsto> v))"
  by (simp add: loaded_def)

lemma set_at_cases:
  assumes "config_map s = Some m" "m i \<noteq> None" "set_at K i v s = (r, s')"
  shows "syscalls s' = Suc (syscalls s) \<and>
    (if K (syscalls s) then r = Inr () \<and> config_map s' = Some (m(i \<mapsto> v))
     else r = Inl (Ebpf MapOperationError) \<and> config_map s' = Some m)"
  using assms by (auto simp: set_at_def)

lemma apply_rate_cases:
  assumes "config_map s = Some m" "loaded m" "rate_index key = Some i" "apply_rate K key v s = (r, s')"
  shows "syscalls s' = Suc (syscalls s) \<and>
    (if K (syscalls s) then r = Inr () \<and> config_map s' = Some (m(i \<mapsto> v))
     else r = Inl (Ebpf MapOperationError) \<and> config_map s' = Some m)"
  using assms(4) by (intro set_at_cases [OF assms(1) rate_index_loaded [OF assms(2,3)]]) (simp add: apply_rate_index assms(3))

text \<open>Entries of the roll-back list hold values of the array \<open>m\<^sub>0\<close>, and the array differs from it only there.\<close>

definition undoes :: "(string \<times> u64) list \<Rightarrow> rate_config \<Rightarrow> rate_config \<Rightarrow> bool" where
  "undoes applied m m\<^sub>0 \<longleftrightarrow>
     (\<forall>(key, old)\<in>set applied. \<exists>i. rate_index key = Some i \<and> m\<^sub>0 i = Some old)
     \<and> (\<forall>i. m i \<noteq> m\<^sub>0 i \<longrightarrow> (\<exists>(key, old)\<in>set applied. rate_index key = Some i))"

lemma rollback_restores:
  assumes "config_map s = Some m" "loaded m" "undoes applied m m\<^sub>0" "\<forall>n\<ge>syscalls s. K n"
  shows "config_map (rollback K applied s) = Some m\<^sub>0"
  using assms
proof (induction applied arbitrary: s m rule: rev_induct)
  case Nil
  then have "m = m\<^sub>0" by (auto simp: undoes_def)
  with Nil show ?case by (simp add: rollback_def)
next
  case (snoc x xs)
  obtain key old where x: "x = (key, old)" by force
  with snoc.prems(3) obtain i where i: "rate_index key = Some i" "m\<^sub>0 i = Some old" by (auto simp: undoes_def)
  obtain r s' where a: "apply_rate K key old s = (r, s')" by force
  note c = apply_rate_cases [OF snoc.prems(1,2) i(1) a]
  have u: "undoes xs (m(i \<mapsto> old)) m\<^sub>0"
    using snoc.prems(3) i by (auto simp: undoes_def x split: if_splits)
  have "config_map s' = Some (m(i \<mapsto> old))" "\<forall>n\<ge>syscalls s'. K n" using snoc.prems(4) c by simp_all
  then have "config_map (rollback K xs s') = Some m\<^sub>0"
    using snoc.IH [OF _ loaded_upd [OF snoc.prems(2)] u] by blast
  then show ?case by (simp add: rollback_def x a)
qed

definition apply_all :: "rate_limit_change list \<Rightarrow> rate_config \<Rightarrow> rate_config" where
  "apply_all changes m = fold (\<lambda>c m. m(the (rate_index (ch_key c)) \<mapsto> ch_new c)) changes m"

lemma apply_changes_cases:
  assumes "config_map s = Some m" "loaded m" "undoes applied m m\<^sub>0" "apply_changes K changes applied s = (r, s')"
    and "\<forall>c\<in>set changes. \<exists>i. rate_index (ch_key c) = Some i \<and> m\<^sub>0 i = Some (ch_old c)"
    and "\<forall>n\<ge>syscalls s. n \<noteq> n0 \<longrightarrow> K n"
  shows "(case r of
       Inr applied' \<Rightarrow> config_map s' = Some (apply_all changes m) \<and> loaded (apply_all changes m) \<and> undoes applied' (apply_all changes m) m\<^sub>0
     | Inl _ \<Rightarrow> config_map s' = Some m\<^sub>0 \<and> \<not> K n0) \<and> (isl r \<or> syscalls s \<le> syscalls s')"
  using assms
proof (induction changes arbitrary: s m applied)
  case Nil
  then show ?case by (auto simp: apply_all_def)
next
  case (Cons c cs)
  obtain i where i: "rate_index (ch_key c) = Some i" "m\<^sub>0 i = Some (ch_old c)" using Cons.prems(5) by auto
  obtain r1 s1 where a: "apply_rate K (ch_key c) (ch_new c) s = (r1, s1)" by force
  note ac = apply_rate_cases [OF Cons.prems(1,2) i(1) a]
  show ?case
  proof (cases "K (syscalls s)")
    case True
    have u: "undoes (applied @ [(ch_key c, ch_old c)]) (m(i \<mapsto> ch_new c)) m\<^sub>0"
      using Cons.prems(3) i by (auto simp: undoes_def)
    have rest: "apply_changes K cs (applied @ [(ch_key c, ch_old c)]) s1 = (r, s')"
      using Cons.prems(4) a ac True by simp
    have c1: "config_map s1 = Some (m(i \<mapsto> ch_new c))" "syscalls s1 = Suc (syscalls s)" using ac True by simp_all
    have "\<forall>c\<in>set cs. \<exists>i. rate_index (ch_key c) = Some i \<and> m\<^sub>0 i = Some (ch_old c)"
      "\<forall>n\<ge>syscalls s1. n \<noteq> n0 \<longrightarrow> K n" using Cons.prems(5,6) c1(2) by simp_all
    note IH = Cons.IH [OF c1(1) loaded_upd [OF Cons.prems(2)] u rest this]
    have "apply_all (c # cs) m = apply_all cs (m(i \<mapsto> ch_new c))" by (simp add: apply_all_def i(1))
    with IH c1(2) show ?thesis by (auto simp: fun_upd_def split: sum.splits)
  next
    case False
    with Cons.prems(6) have "n0 = syscalls s" by blast
    then have "\<forall>n\<ge>syscalls s1. K n" using Cons.prems(6) ac by simp
    then have "config_map (rollback K applied s1) = Some m\<^sub>0"
      using ac False by (intro rollback_restores [OF _ Cons.prems(2,3)]) simp_all
    moreover have "(r, s') = (Inl (Ebpf MapOperationError), rollback K applied s1)"
      using Cons.prems(4) a ac False by simp
    ultimately show ?thesis using \<open>n0 = syscalls s\<close> False by simp
  qed
qed

text \<open>The changes that the settings ask for.\<close>

definition settings_list :: "rate_limit_settings \<Rightarrow> (string \<times> u32 \<times> u64 option) list" where
  "settings_list settings =
     [(PACKET_RATE_KEY, 0, rls_packet_rate settings), (SYN_RATE_KEY, 1, rls_syn_rate settings),
      (UDP_RATE_KEY, 2, rls_udp_rate settings), (DNS_RATE_KEY, 3, rls_dns_rate settings),
      (WINDOW_NS_KEY, 4, rls_window_ns settings)]"

definition changes_for :: "rate_config \<Rightarrow> (string \<times> u32 \<times> u64 option) list \<Rightarrow> rate_limit_change list" where
  "changes_for m l = concat (map (\<lambda>(key, i, v). case v of None \<Rightarrow> [] | Some v \<Rightarrow> [\<lparr>ch_key = key, ch_old = the (m i), ch_new = v\<rparr>]) l)"

definition asked :: "rate_limit_settings \<Rightarrow> u32 \<Rightarrow> u64 option" where
  "asked settings i = (case map_of (map snd (settings_list settings)) i of Some v \<Rightarrow> v | None \<Rightarrow> None)"

definition prepared :: "rate_config \<Rightarrow> (string \<times> u32 \<times> u64 option) list \<Rightarrow> (error, rate_limit_change list) result \<times> rl_config \<Rightarrow> bool" where
  "prepared m l rs \<longleftrightarrow> config_map (snd rs) = Some m
     \<and> (\<forall>cs. fst rs = Inr cs \<longrightarrow> cs = changes_for m l \<and> (\<forall>(key, i, v)\<in>set l. v \<noteq> Some 0))"

lemma prepare_step:
  assumes "prepared m l rs"
  shows "prepared m (l @ [(key, i, v)]) (try_then rs (\<lambda>changes s. prepare_one key (get_at K i) v changes s))"
  using assms
  by (cases rs; cases "fst rs")
    (auto simp: prepared_def prepare_one_def changes_for_def validate_rate_limit_value_def get_at_def try_then_def ok_or_def
      split: option.splits if_splits)

lemma prepare_changes_Ok:
  assumes "config_map s = Some m"
  shows "prepared m (settings_list settings) (prepare_changes K settings s)"
proof -
  have "prepared m [] (Inr [], s)" using assms by (simp add: prepared_def changes_for_def)
  from this [THEN prepare_step, THEN prepare_step, THEN prepare_step, THEN prepare_step, THEN prepare_step]
  show ?thesis by (simp add: prepare_changes_def accessors settings_list_def try_then_assoc)
qed

definition updated :: "rate_limit_settings \<Rightarrow> rate_config \<Rightarrow> rate_config" where
  "updated settings m = (\<lambda>i. case asked settings i of Some v \<Rightarrow> Some v | None \<Rightarrow> m i)"

lemma apply_all_changes: "apply_all (changes_for m (settings_list settings)) m' = updated settings m'"
proof
  fix i
  show "apply_all (changes_for m (settings_list settings)) m' i = updated settings m' i"
    by (cases "rls_packet_rate settings"; cases "rls_syn_rate settings"; cases "rls_udp_rate settings";
        cases "rls_dns_rate settings"; cases "rls_window_ns settings")
      (simp_all add: apply_all_def changes_for_def settings_list_def rate_index_def rate_keys updated_def asked_def)
qed

lemma asked_listed: "(key, i, v) \<in> set (settings_list settings) \<Longrightarrow> asked settings i = v"
  by (auto simp: asked_def settings_list_def)

lemma changes_asked:
  assumes "c \<in> set (changes_for m (settings_list settings))"
  shows "\<exists>i. asked settings i = Some (ch_new c)"
proof -
  obtain key i v where "(key, i, Some v) \<in> set (settings_list settings)" "ch_new c = v"
    using assms by (auto simp: changes_for_def split: option.splits)
  then show ?thesis using asked_listed by blast
qed

lemma changes_for_old:
  assumes "loaded m" "c \<in> set (changes_for m (settings_list settings))"
  shows "\<exists>i. rate_index (ch_key c) = Some i \<and> m i = Some (ch_old c)"
  using assms by (auto simp: changes_for_def settings_list_def rate_index_def rate_keys loaded_def split: option.splits)

lemma map_of_filter_key: "map_of (filter (\<lambda>r. fst r \<noteq> k) rows) k' = (if k' = k then None else map_of rows k')"
  by (induction rows) auto

lemma map_of_insert_or_replace: "map_of (insert_or_replace kv rows) = (map_of rows)(fst kv \<mapsto> snd kv)"
  by (rule ext) (auto simp: insert_or_replace_def map_of_filter_key map_add_def split: option.splits)

lemma map_of_fold_insert: "map_of (fold insert_or_replace l rows) = map_of rows ++ map_of (rev l)"
  by (induction l arbitrary: rows) (auto simp: map_of_insert_or_replace fun_eq_iff map_add_def split: option.splits)

lemma collect_encoded:
  "collect_results (map (\<lambda>(key, value). and_then (encode_rate_limit_value value) (\<lambda>v. Inr (key, v))) values) = Inr l \<Longrightarrow>
   l = map (\<lambda>(key, value). (key, uint value)) values"
  by (induction "values" arbitrary: l) (auto simp: result_iffs encode_rate_limit_value_def split: if_splits)

lemma collect_encoded_ok:
  assumes "\<forall>(key, v)\<in>set values. uint v < 2 ^ 63"
  shows "\<exists>l. collect_results (map (\<lambda>(key, value). and_then (encode_rate_limit_value value) (\<lambda>v. Inr (key, v))) values) = Inr l"
  using assms by (induction "values") (auto simp: encode_rate_limit_value_def)

lemma set_rate_limits_refuses:
  assumes "set_rate_limits ok values rows = Inl e" "\<forall>(key, v)\<in>set values. uint v < 2 ^ 63"
  shows "\<not> ok"
  using assms(1) collect_encoded_ok [OF assms(2)] by (auto simp: set_rate_limits_def result_iffs)

lemma set_rate_limits_rows:
  assumes "set_rate_limits ok (map (\<lambda>c. (ch_key c, ch_new c)) (changes_for m (settings_list settings))) rows = Inr rows'"
    and "(key, i, Some v) \<in> set (settings_list settings)"
  shows "map_of rows' key = Some (uint v)"
proof -
  let ?l = "map (\<lambda>c. (ch_key c, uint (ch_new c))) (changes_for m (settings_list settings))"
  obtain l where l: "collect_results (map (\<lambda>(key, value). and_then (encode_rate_limit_value value) (\<lambda>v. Inr (key, v)))
      (map (\<lambda>c. (ch_key c, ch_new c)) (changes_for m (settings_list settings)))) = Inr l" "rows' = fold insert_or_replace l rows"
    using assms(1) by (auto simp: set_rate_limits_def result_iffs split: if_splits)
  then have "rows' = fold insert_or_replace ?l rows" using collect_encoded [OF l(1)] by (simp add: comp_def)
  then have "map_of rows' = map_of rows ++ map_of (rev ?l)" by (simp add: map_of_fold_insert)
  then show ?thesis
    using assms(2)
    by (cases "rls_packet_rate settings"; cases "rls_syn_rate settings"; cases "rls_udp_rate settings";
        cases "rls_dns_rate settings"; cases "rls_window_ns settings")
      (auto simp: changes_for_def settings_list_def rate_keys)
qed

text \<open>The outcome of a change, where at most one thing goes wrong.\<close>

lemma update_spec:
  assumes "config_map (rl_cfg st) = Some m" "loaded m"
    and "(\<forall>n. K n) \<or> ok \<and> (\<forall>i v. asked settings i = Some v \<longrightarrow> uint v < 2 ^ 63) \<and> (\<forall>n. n \<noteq> n0 \<longrightarrow> K n)"
    and "update_rate_limits K ok settings st = (r, st')"
  shows "case r of
      Inr _ \<Rightarrow> config_map (rl_cfg st') = Some (updated settings m) \<and> loaded (updated settings m)
        \<and> (\<forall>i. asked settings i \<noteq> Some 0)
        \<and> (\<forall>key i v. (key, i, Some v) \<in> set (settings_list settings) \<longrightarrow> map_of (rl_rows st') key = Some (uint v))
    | Inl _ \<Rightarrow> config_map (rl_cfg st') = Some m \<and> rl_rows st' = rl_rows st"
proof -
  obtain r1 s1 where p: "prepare_changes K settings (rl_cfg st) = (r1, s1)" by force
  note pr = prepare_changes_Ok [OF assms(1), where K = K and settings = settings, unfolded p prepared_def, simplified]
  show ?thesis
  proof (cases r1)
    case (Inl e)
    with p pr assms(4) show ?thesis by (auto simp: update_rate_limits_def)
  next
    case (Inr cs)
    have cs: "cs = changes_for m (settings_list settings)" using pr Inr by simp
    have nz: "asked settings i \<noteq> Some 0" for i
      using pr Inr by (auto simp: asked_def settings_list_def)
    obtain r2 s2 where a: "apply_changes K cs [] s1 = (r2, s2)" by force
    have one: "\<forall>n\<ge>syscalls s1. n \<noteq> n0 \<longrightarrow> K n" using assms(3) by blast
    have "undoes [] m m" by (simp add: undoes_def)
    note ac = apply_changes_cases [OF conjunct1 [OF pr] assms(2) this a _ one] changes_for_old [OF assms(2)]
    show ?thesis
    proof (cases r2)
      case r2: (Inl e)
      with a p Inr assms(4) ac cs show ?thesis by (auto simp: update_rate_limits_def)
    next
      case r2: (Inr applied)
      have m2: "config_map s2 = Some (updated settings m)" "loaded (updated settings m)" "undoes applied (updated settings m) m"
        using ac cs r2 by (auto simp: apply_all_changes)
      show ?thesis
      proof (cases "set_rate_limits ok (map (\<lambda>c. (ch_key c, ch_new c)) cs) (rl_rows st)")
        case db: (Inl e)
        have "\<forall>(key, v)\<in>set (map (\<lambda>c. (ch_key c, ch_new c)) cs). uint v < 2 ^ 63" if "\<not> (\<forall>n. K n)"
          using assms(3) that changes_asked unfolding cs by fastforce
        then have "\<forall>n. K n" using set_rate_limits_refuses [OF db] assms(3) by blast
        then have "config_map (rollback K applied s2) = Some m" using rollback_restores [OF m2] by blast
        with db a r2 p Inr assms(4) show ?thesis by (auto simp: update_rate_limits_def)
      next
        case db: (Inr rows)
        have "rl_cfg st' = s2" "rl_rows st' = rows" "r = Inr ()"
          using db a r2 p Inr assms(4) by (auto simp: update_rate_limits_def)
        then show ?thesis using m2(1,2) nz set_rate_limits_rows [OF db [unfolded cs]] by auto
      qed
    qed
  qed
qed

section \<open>Properties of the service\<close>

text \<open>
  Changing the rate limits is atomic over the kernel's array and the table, where at most one
  thing goes wrong (one system call fails, or the database refuses the values): either the call
  succeeds, the limiter then reads exactly the values that were asked for, reads the old ones for
  the others, and the table holds the new ones; or it fails and both are as before.
\<close>

theorem rate_limit_update_is_atomic:
  assumes "config_map (rl_cfg st) = Some m" "loaded m"
    and "(\<forall>n. K n) \<or> ok \<and> (\<forall>i v. asked settings i = Some v \<longrightarrow> uint v < 2 ^ 63) \<and> (\<forall>n. n \<noteq> n0 \<longrightarrow> K n)"
    and "update_rate_limits K ok settings st = (r, st')"
  shows "case r of
      Inr _ \<Rightarrow> \<exists>m'. config_map (rl_cfg st') = Some m'
        \<and> (\<forall>i. case asked settings i of Some v \<Rightarrow> \<forall>dflt. get_config m' i dflt = v | None \<Rightarrow> m' i = m i)
        \<and> (\<forall>key i v. (key, i, Some v) \<in> set (settings_list settings) \<longrightarrow> map_of (rl_rows st') key = Some (uint v))
    | Inl _ \<Rightarrow> config_map (rl_cfg st') = Some m \<and> rl_rows st' = rl_rows st"
  using update_spec [OF assms]
proof (cases r)
  case (Inr u)
  have "get_config (updated settings m) i dflt = v" if "asked settings i = Some v" "asked settings i \<noteq> Some 0" for i v dflt
    using that by (auto simp: get_config_def updated_def word_gt_0)
  with update_spec [OF assms] Inr show ?thesis by (auto simp: updated_def split: option.splits)
qed simp

text \<open>The array as the kernel creates it: five zeros.\<close>

definition zero_array :: rate_config where
  "zero_array = (\<lambda>i. if i < 5 then Some 0 else None)"

definition fresh_limits :: rl_state where
  "fresh_limits = \<lparr>rl_cfg = \<lparr>config_map = Some zero_array, syscalls = 0\<rparr>, rl_rows = []\<rparr>"

definition packet_500 :: rate_limit_settings where
  "packet_500 = \<lparr>rls_packet_rate = Some 500, rls_syn_rate = None, rls_udp_rate = None, rls_dns_rate = None, rls_window_ns = None\<rparr>"

lemma loaded_zero_array: "loaded zero_array"
  by (simp add: loaded_def zero_array_def)

theorem rate_limit_update_is_atomic_witness:
  "(\<exists>st'. update_rate_limits (\<lambda>_. True) True packet_500 fresh_limits = (Inr (), st')
      \<and> get_config (the (config_map (rl_cfg st'))) CFG_PACKET_RATE DEFAULT_PACKET_RATE = 500
      \<and> map_of (rl_rows st') ''packet_rate'' = Some 500)
   \<and> (\<exists>st'. update_rate_limits (\<lambda>_. True) False packet_500 fresh_limits = (Inl db_error, st')
      \<and> config_map (rl_cfg st') = Some zero_array \<and> rl_rows st' = [])"
proof -
  have m: "config_map (rl_cfg fresh_limits) = Some zero_array" by (simp add: fresh_limits_def)
  note P = rate_limit_update_is_atomic [OF m loaded_zero_array, of "\<lambda>_. True"]
  note defs = update_rate_limits_def prepare_changes_def prepare_one_def packet_500_def fresh_limits_def accessors get_at_def
    zero_array_def validate_rate_limit_value_def apply_rate_def set_at_def rate_keys set_rate_limits_def encode_rate_limit_value_def
  have a: "asked packet_500 CFG_PACKET_RATE = Some 500" "(PACKET_RATE_KEY, 0, Some 500) \<in> set (settings_list packet_500)"
    by (simp_all add: asked_def settings_list_def packet_500_def CFG_PACKET_RATE_def)
  obtain st1 where 1: "update_rate_limits (\<lambda>_. True) True packet_500 fresh_limits = (Inr (), st1)" by (simp add: defs)
  obtain st2 where 2: "update_rate_limits (\<lambda>_. True) False packet_500 fresh_limits = (Inl db_error, st2)" by (simp add: defs)
  obtain m1 where m1: "config_map (rl_cfg st1) = Some m1"
      "\<forall>i. case asked packet_500 i of Some v \<Rightarrow> \<forall>dflt. get_config m1 i dflt = v | None \<Rightarrow> m1 i = zero_array i"
      "\<forall>key i v. (key, i, Some v) \<in> set (settings_list packet_500) \<longrightarrow> map_of (rl_rows st1) key = Some (uint v)"
    using P [OF _ 1] by auto
  have "get_config m1 CFG_PACKET_RATE DEFAULT_PACKET_RATE = 500" using m1(2) [rule_format, of CFG_PACKET_RATE] a(1) by simp
  moreover have "map_of (rl_rows st1) ''packet_rate'' = Some 500" using m1(3) a(2) by (auto simp: PACKET_RATE_KEY_def)
  moreover have "config_map (rl_cfg st2) = Some zero_array" "rl_rows st2 = []" using P [OF _ 2] by (auto simp: fresh_limits_def)
  ultimately show ?thesis using 1 2 m1(1) by simp
qed

end
