(* ===== verification/Rate_Limit_Owner.thy ===== *)
theory Rate_Limit_Owner
  imports Rate_Limit_Control
begin

text \<open>
  The task that lowers the rate limits for a while and restores them
  (\<^verbatim>\<open>core/response/rate_limit_owner.rs\<close>). It handles one command at a time, so a run of it is a
  sequence of commands with the times at which it takes them up.
\<close>

section \<open>Time\<close>

text \<open>
  \<^verbatim>\<open>Instant\<close> counts nanoseconds in signed 64-bit seconds; adding a duration past its range is
  refused.
\<close>

type_synonym instant = nat

definition instant_checked_add :: "instant \<Rightarrow> u64 \<Rightarrow> instant option" where
  "instant_checked_add now secs =
     (let t = now + unat secs * 10 ^ 9 in if t < 2 ^ 63 * 10 ^ 9 then Some t else None)"

section \<open>State and commands\<close>

record active_adjustment =
  aa_original :: "u64 list"
  aa_expires :: instant

datatype rate_limit_cmd =
    Adjust flt u64 string string
  | RestoreIfExpired

datatype restore_outcome = Restored | NotExpired | NoActiveAdjustment

datatype adjust_message = RatesReduced flt u64 string | TtlExtended u64 string

datatype owner_reply =
    AdjustReply "(error, adjust_message) result"
  | RestoreReply "(error, restore_outcome) result"

record owner =
  ow_state :: "active_adjustment option"
  ow_cfg :: rl_config

section \<open>Adjusting and restoring\<close>

text \<open>The setter of the \<open>i\<close>-th rate, in the order of \<^verbatim>\<open>RATE_KEYS\<close>.\<close>

definition set_rate_nr :: "(nat \<Rightarrow> bool) \<Rightarrow> nat \<Rightarrow> u64 \<Rightarrow> rl_config \<Rightarrow> (error, unit) result \<times> rl_config" where
  "set_rate_nr K i v s =
     (if i = 0 then set_packet_rate K v s
      else if i = 1 then set_syn_rate K v s
      else if i = 2 then set_udp_rate K v s
      else if i = 3 then set_dns_rate K v s
      else (Inr (), s))"

fun restore_loop :: "(nat \<Rightarrow> bool) \<Rightarrow> u64 list \<Rightarrow> nat list \<Rightarrow> nat list \<Rightarrow> rl_config \<Rightarrow> nat list \<times> rl_config" where
  "restore_loop K original [] errors s = (errors, s)"
| "restore_loop K original (i # is) errors s =
     (case set_rate_nr K i (original ! i) s of
        (Inl _, s) \<Rightarrow> restore_loop K original is (errors @ [i]) s
      | (Inr _, s) \<Rightarrow> restore_loop K original is errors s)"

definition restore_prefix ::
  "(nat \<Rightarrow> bool) \<Rightarrow> u64 list \<Rightarrow> nat \<Rightarrow> string \<Rightarrow> rl_config \<Rightarrow> (error, unit) result \<times> rl_config" where
  "restore_prefix K original n action_type s =
     (let (errors, s) = restore_loop K original (rev [0..<n]) [] s
      in (if errors = [] then Inr () else Inl (Soar (ActionFailed action_type)), s))"

definition rollback_adjustment ::
  "(nat \<Rightarrow> bool) \<Rightarrow> u64 list \<Rightarrow> nat \<Rightarrow> error \<Rightarrow> rl_config \<Rightarrow> (error, unit) result \<times> rl_config" where
  "rollback_adjustment K original applied_count cause s =
     (case restore_prefix K original applied_count ''adjust_rate_limit_rollback'' s of
        (Inl _, s) \<Rightarrow> (Inl (Soar (ActionFailed ''adjust_rate_limit'')), s)
      | (Inr _, s) \<Rightarrow> (Inl cause, s))"

definition apply_adjustment ::
  "(nat \<Rightarrow> bool) \<Rightarrow> u64 list \<Rightarrow> u64 list \<Rightarrow> rl_config \<Rightarrow> (error, unit) result \<times> rl_config" where
  "apply_adjustment K original rates s =
     (case set_packet_rate K (rates ! 0) s of
        (Inl err, s) \<Rightarrow> (Inl err, s)
      | (Inr _, s) \<Rightarrow>
     (case set_syn_rate K (rates ! 1) s of
        (Inl err, s) \<Rightarrow> rollback_adjustment K original 1 err s
      | (Inr _, s) \<Rightarrow>
     (case set_udp_rate K (rates ! 2) s of
        (Inl err, s) \<Rightarrow> rollback_adjustment K original 2 err s
      | (Inr _, s) \<Rightarrow>
     (case set_dns_rate K (rates ! 3) s of
        (Inl err, s) \<Rightarrow> rollback_adjustment K original 3 err s
      | (Inr _, s) \<Rightarrow> (Inr (), s)))))"

definition scaled_rate :: "flt \<Rightarrow> u64 \<Rightarrow> u64" where
  "scaled_rate factor orig = max (f64_as_u64 (fmul f64 (u64_as_f64 orig) factor)) 1"

definition first_adjust ::
  "(nat \<Rightarrow> bool) \<Rightarrow> flt \<Rightarrow> rl_config \<Rightarrow> (error, u64 list \<times> u64 list) result \<times> rl_config" where
  "first_adjust K factor s =
     try_then (get_packet_rate K s) (\<lambda>packet s.
     try_then (get_syn_rate K s) (\<lambda>syn s.
     try_then (get_udp_rate K s) (\<lambda>udp s.
     try_then (get_dns_rate K s) (\<lambda>dns s.
       let orig = [packet, syn, udp, dns]; new = map (scaled_rate factor) orig
       in try_then (apply_adjustment K orig new s) (\<lambda>_ s. (Inr (orig, new), s))))))"

definition restore_rates :: "(nat \<Rightarrow> bool) \<Rightarrow> u64 list \<Rightarrow> rl_config \<Rightarrow> (error, unit) result \<times> rl_config" where
  "restore_rates K original s = restore_prefix K original (length original) ''restore_rate_limit'' s"

section \<open>The task\<close>

definition owner_step :: "(nat \<Rightarrow> bool) \<Rightarrow> instant \<Rightarrow> rate_limit_cmd \<Rightarrow> owner \<Rightarrow> owner_reply \<times> owner" where
  "owner_step K now cmd ow =
     (case cmd of
        Adjust factor ttl_secs source_ip _ \<Rightarrow>
          (case instant_checked_add now ttl_secs of
             None \<Rightarrow> (AdjustReply (Inl (Soar (TtlTooLarge ttl_secs))), ow)
           | Some expires \<Rightarrow>
               (case ow_state ow of
                  Some adj \<Rightarrow>
                    (AdjustReply (Inr (TtlExtended ttl_secs source_ip)),
                     ow\<lparr>ow_state := Some (adj\<lparr>aa_expires := expires\<rparr>)\<rparr>)
                | None \<Rightarrow>
                    (case first_adjust K factor (ow_cfg ow) of
                       (Inr (orig, new), s) \<Rightarrow>
                         (AdjustReply (Inr (RatesReduced factor ttl_secs source_ip)),
                          \<lparr>ow_state = Some \<lparr>aa_original = orig, aa_expires = expires\<rparr>, ow_cfg = s\<rparr>)
                     | (Inl e, s) \<Rightarrow> (AdjustReply (Inl e), ow\<lparr>ow_cfg := s\<rparr>))))
      | RestoreIfExpired \<Rightarrow>
          (case ow_state ow of
             Some adj \<Rightarrow>
               if now \<ge> aa_expires adj
               then (case restore_rates K (aa_original adj) (ow_cfg ow) of
                       (Inr _, s) \<Rightarrow> (RestoreReply (Inr Restored), \<lparr>ow_state = None, ow_cfg = s\<rparr>)
                     | (Inl e, s) \<Rightarrow> (RestoreReply (Inl e), ow\<lparr>ow_cfg := s\<rparr>))
               else (RestoreReply (Inr NotExpired), ow)
           | None \<Rightarrow> (RestoreReply (Inr NoActiveAdjustment), ow)))"

fun owner_run :: "(nat \<Rightarrow> bool) \<Rightarrow> (instant \<times> rate_limit_cmd) list \<Rightarrow> owner \<Rightarrow> owner" where
  "owner_run K [] ow = ow"
| "owner_run K ((now, cmd) # cmds) ow = owner_run K cmds (snd (owner_step K now cmd ow))"

text \<open>The callers' side: the reply of the task, or an error where it has ended.\<close>

definition owner_adjust ::
  "(nat \<Rightarrow> bool) \<Rightarrow> bool \<Rightarrow> instant \<Rightarrow> flt \<Rightarrow> u64 \<Rightarrow> string \<Rightarrow> string \<Rightarrow> owner \<Rightarrow> (error, adjust_message) result \<times> owner" where
  "owner_adjust K alive now f ttl source_ip attack_type ow =
     (if \<not> alive then (Inl (Soar RateLimitOwnerUnavailable), ow)
      else case owner_step K now (Adjust f ttl source_ip attack_type) ow of
             (AdjustReply r, ow) \<Rightarrow> (r, ow)
           | (RestoreReply _, ow) \<Rightarrow> (Inl (Soar RateLimitOwnerUnavailable), ow))"

definition restore_if_expired ::
  "(nat \<Rightarrow> bool) \<Rightarrow> bool \<Rightarrow> instant \<Rightarrow> owner \<Rightarrow> (error, restore_outcome) result \<times> owner" where
  "restore_if_expired K alive now ow =
     (if \<not> alive then (Inl (Soar RateLimitOwnerUnavailable), ow)
      else case owner_step K now RestoreIfExpired ow of
             (RestoreReply r, ow) \<Rightarrow> (r, ow)
           | (AdjustReply _, ow) \<Rightarrow> (Inl (Soar RateLimitOwnerUnavailable), ow))"

section \<open>Rates of the array\<close>

definition rates_of :: "rate_config \<Rightarrow> u64 list" where
  "rates_of m = [the (m 0), the (m 1), the (m 2), the (m 3)]"

definition with_rates :: "u64 list \<Rightarrow> rate_config \<Rightarrow> rate_config" where
  "with_rates l m = m(0 \<mapsto> l ! 0, 1 \<mapsto> l ! 1, 2 \<mapsto> l ! 2, 3 \<mapsto> l ! 3)"

lemma list_of_4: "length l = 4 \<Longrightarrow> [l ! 0, l ! 1, l ! 2, l ! 3] = l"
  by (rule nth_equalityI) (auto simp: less_Suc_eq numeral_eq_Suc)

lemma with_rates_simps [simp]:
  "loaded m \<Longrightarrow> with_rates (rates_of m) m = m"
  "loaded m \<Longrightarrow> loaded (with_rates l m)"
  "with_rates l (with_rates l' m) = with_rates l m"
  "length l = 4 \<Longrightarrow> rates_of (with_rates l m) = l"
  "length (rates_of m) = 4"
  by (auto simp: with_rates_def rates_of_def loaded_def fun_eq_iff list_of_4 [simplified])

lemma set_rate_nr_at:
  assumes "i < 4"
  shows "set_rate_nr K i v s = set_at K (word_of_nat i) v s"
proof -
  consider "i = 0" | "i = 1" | "i = 2" | "i = 3" using assms by linarith
  then show ?thesis by cases (simp_all add: set_rate_nr_def accessors)
qed

lemma get_at_Ok:
  assumes "config_map s = Some m" "loaded m" "i \<in> {0, 1, 2, 3, 4}"
  shows "get_at K i s = (if K (syscalls s) then Inr (the (m i)) else Inl (Ebpf MapOperationError), s\<lparr>syscalls := Suc (syscalls s)\<rparr>)"
  using assms by (fastforce simp: get_at_def loaded_def)

text \<open>A setter that the kernel carries out, and one that it does not.\<close>

lemma set_at_Ok:
  assumes "config_map s = Some m" "loaded m" "i \<in> {0, 1, 2, 3, 4}" "K (syscalls s)"
  shows "set_at K i v s = (Inr (), s\<lparr>config_map := Some (m(i \<mapsto> v)), syscalls := Suc (syscalls s)\<rparr>)"
  using assms by (auto simp: set_at_def loaded_def)

lemma set_at_fails:
  assumes "config_map s = Some m" "\<not> K (syscalls s)"
  shows "set_at K i v s = (Inl (Ebpf MapOperationError), s\<lparr>syscalls := Suc (syscalls s)\<rparr>)"
  using assms by (auto simp: set_at_def)

lemma restore_loop_Ok:
  assumes "config_map s = Some m" "loaded m" "\<forall>n\<ge>syscalls s. K n" "\<forall>i\<in>set is. i < 4"
  shows "\<exists>s'. restore_loop K l is errors s = (errors, s') \<and> config_map s' = Some (fold (\<lambda>i m. m(word_of_nat i \<mapsto> l ! i)) is m)"
  using assms
proof (induction "is" arbitrary: s m)
  case (Cons i "is")
  have "i \<in> {0, 1, 2, 3}" using Cons.prems(4) by auto
  then have "(word_of_nat i :: u32) \<in> {0, 1, 2, 3, 4}" by auto
  then have set: "set_rate_nr K i (l ! i) s = (Inr (), s\<lparr>config_map := Some (m(word_of_nat i \<mapsto> l ! i)), syscalls := Suc (syscalls s)\<rparr>)"
    using Cons.prems set_at_Ok [OF Cons.prems(1,2)] by (simp add: set_rate_nr_at)
  show ?case
    using Cons.IH [of "s\<lparr>config_map := Some (m(word_of_nat i \<mapsto> l ! i)), syscalls := Suc (syscalls s)\<rparr>" "m(word_of_nat i \<mapsto> l ! i)"]
      Cons.prems loaded_upd [OF Cons.prems(2)]
    by (simp add: set fun_upd_def)
qed simp

lemma restore_prefix_Ok:
  assumes "config_map s = Some m" "loaded m" "\<forall>n\<ge>syscalls s. K n" "k \<le> 4"
  shows "\<exists>s'. restore_prefix K l k a s = (Inr (), s') \<and> config_map s' = Some (fold (\<lambda>i m. m(word_of_nat i \<mapsto> l ! i)) (rev [0..<k]) m)"
  using restore_loop_Ok [OF assms(1-3), of "rev [0..<k]" l "[]"] assms(4) by (auto simp: restore_prefix_def)

lemma restore_rates_Ok:
  assumes "config_map s = Some m" "loaded m" "\<forall>n\<ge>syscalls s. K n" "length l = 4"
  shows "\<exists>s'. restore_rates K l s = (Inr (), s') \<and> config_map s' = Some (with_rates l m)"
proof -
  have "rev [0..<4] = [3, 2, 1, 0]" by (simp add: upt_rec)
  then have "fold (\<lambda>i m. m(word_of_nat i \<mapsto> l ! i)) (rev [0..<4]) m = with_rates l m"
    by (auto simp: with_rates_def fun_eq_iff)
  then show ?thesis using restore_prefix_Ok [OF assms(1-3), of 4 l] assms(4) by (simp add: restore_rates_def)
qed

lemma first_adjust_Ok:
  assumes "config_map s = Some m" "loaded m" "\<forall>n\<ge>syscalls s. K n"
  shows "\<exists>s'. first_adjust K f s = (Inr (rates_of m, map (scaled_rate f) (rates_of m)), s')
    \<and> config_map s' = Some (with_rates (map (scaled_rate f) (rates_of m)) m)"
  using assms
  by (simp add: first_adjust_def apply_adjustment_def accessors get_at_Ok set_at_Ok loaded_upd rates_of_def with_rates_def)

text \<open>What the kernel's answers leave of the array after an adjustment.\<close>

lemma rollback_adjustment_undoes:
  assumes "config_map s = Some m" "loaded m" "\<forall>n\<ge>syscalls s. K n" "k \<le> 4"
    and "fold (\<lambda>i m. m(word_of_nat i \<mapsto> l ! i)) (rev [0..<k]) m = m\<^sub>0"
  shows "\<exists>s'. rollback_adjustment K l k e s = (Inl e, s') \<and> config_map s' = Some m\<^sub>0"
  using restore_prefix_Ok [OF assms(1-4), where l = l and a = "''adjust_rate_limit_rollback''"] assms(5)
  by (auto simp: rollback_adjustment_def)

lemma apply_adjustment_fault:
  assumes "config_map s = Some m" "loaded m" "\<forall>n. n \<noteq> n0 \<longrightarrow> K n" "apply_adjustment K (rates_of m) rates s = (Inl e, s')"
  shows "config_map s' = Some m"
proof -
  have m: "Some (the (m 0)) = m 0" "Some (the (m 1)) = m 1" "Some (the (m 2)) = m 2"
    using assms(2) by (auto simp: loaded_def)
  have up: "rev [0..<1] = [0 :: nat]" "rev [0..<2] = [1, 0 :: nat]" "rev [0..<3] = [2, 1, 0 :: nat]"
    by (simp_all add: upt_rec)
  define s1 where "s1 = s\<lparr>config_map := Some (m(0 \<mapsto> rates ! 0)), syscalls := Suc (syscalls s)\<rparr>"
  define s2 where "s2 = s\<lparr>config_map := Some (m(0 \<mapsto> rates ! 0, 1 \<mapsto> rates ! 1)), syscalls := Suc (Suc (syscalls s))\<rparr>"
  define s3 where "s3 = s\<lparr>config_map := Some (m(0 \<mapsto> rates ! 0, 1 \<mapsto> rates ! 1, 2 \<mapsto> rates ! 2)),
    syscalls := Suc (Suc (Suc (syscalls s)))\<rparr>"
  have later: "\<forall>n\<ge>k. K n" if "\<not> K i" "i < k" for i k using assms(3) that by (metis leD)
  consider "\<not> K (syscalls s)" | "K (syscalls s)" "\<not> K (Suc (syscalls s))"
    | "K (syscalls s)" "K (Suc (syscalls s))" "\<not> K (Suc (Suc (syscalls s)))"
    | "K (syscalls s)" "K (Suc (syscalls s))" "K (Suc (Suc (syscalls s)))" "\<not> K (Suc (Suc (Suc (syscalls s))))"
    | "K (syscalls s)" "K (Suc (syscalls s))" "K (Suc (Suc (syscalls s)))" "K (Suc (Suc (Suc (syscalls s))))" by blast
  then show ?thesis
  proof cases
    case 1
    then show ?thesis using assms(1,4) by (auto simp: apply_adjustment_def accessors set_at_fails)
  next
    case 2
    have "\<exists>s'. rollback_adjustment K (rates_of m) 1 (Ebpf MapOperationError) (s1\<lparr>syscalls := Suc (syscalls s1)\<rparr>) = (Inl (Ebpf MapOperationError), s')
        \<and> config_map s' = Some m"
      using 2 assms(2) m later by (intro rollback_adjustment_undoes [where m = "m(0 \<mapsto> rates ! 0)"])
        (auto simp: s1_def up rates_of_def loaded_upd fun_eq_iff)
    then show ?thesis
      using 2 assms(1,2,4) by (auto simp: apply_adjustment_def accessors set_at_Ok set_at_fails s1_def)
  next
    case 3
    have "\<exists>s'. rollback_adjustment K (rates_of m) 2 (Ebpf MapOperationError) (s2\<lparr>syscalls := Suc (syscalls s2)\<rparr>) = (Inl (Ebpf MapOperationError), s')
        \<and> config_map s' = Some m"
      using 3 assms(2) m later by (intro rollback_adjustment_undoes [where m = "m(0 \<mapsto> rates ! 0, 1 \<mapsto> rates ! 1)"])
        (auto simp: s2_def up rates_of_def loaded_upd fun_eq_iff)
    then show ?thesis
      using 3 assms(1,2,4) by (auto simp: apply_adjustment_def accessors set_at_Ok set_at_fails s2_def loaded_upd)
  next
    case 4
    have "\<exists>s'. rollback_adjustment K (rates_of m) 3 (Ebpf MapOperationError) (s3\<lparr>syscalls := Suc (syscalls s3)\<rparr>) = (Inl (Ebpf MapOperationError), s')
        \<and> config_map s' = Some m"
      using 4 assms(2) m later
      by (intro rollback_adjustment_undoes [where m = "m(0 \<mapsto> rates ! 0, 1 \<mapsto> rates ! 1, 2 \<mapsto> rates ! 2)"])
        (auto simp: s3_def up rates_of_def loaded_upd fun_eq_iff)
    then show ?thesis
      using 4 assms(1,2,4) by (auto simp: apply_adjustment_def accessors set_at_Ok set_at_fails s3_def loaded_upd)
  next
    case 5
    then show ?thesis using assms(1,2,4) by (simp add: apply_adjustment_def accessors set_at_Ok loaded_upd)
  qed
qed

lemma first_adjust_reads:
  assumes "config_map s = Some m" "loaded m" "first_adjust K f s = (r, s')"
  shows "isl r \<and> config_map s' = Some m \<or> (\<exists>s1. config_map s1 = Some m \<and> syscalls s1 = syscalls s + 4 \<and>
    try_then (apply_adjustment K (rates_of m) (map (scaled_rate f) (rates_of m)) s1)
      (\<lambda>_ s. (Inr (rates_of m, map (scaled_rate f) (rates_of m)), s)) = (r, s'))"
proof (cases "K (syscalls s) \<and> K (Suc (syscalls s)) \<and> K (Suc (Suc (syscalls s))) \<and> K (Suc (Suc (Suc (syscalls s))))")
  case True
  with assms have "try_then (apply_adjustment K (rates_of m) (map (scaled_rate f) (rates_of m))
      (s\<lparr>syscalls := Suc (Suc (Suc (Suc (syscalls s))))\<rparr>)) (\<lambda>_ s. (Inr (rates_of m, map (scaled_rate f) (rates_of m)), s)) = (r, s')"
    by (simp add: first_adjust_def accessors get_at_Ok rates_of_def Let_def)
  then show ?thesis using assms(1) by (intro disjI2 exI conjI) simp_all
next
  case False
  with assms show ?thesis by (auto simp: first_adjust_def accessors get_at_Ok split: if_splits)
qed

lemma apply_adjustment_calls:
  assumes "config_map s = Some m" "loaded m" "apply_adjustment K l rates s = (Inr u, s')"
  shows "\<forall>n<4. K (syscalls s + n)"
proof -
  have no_rollback: "rollback_adjustment K l k e t \<noteq> (Inr u, s')" for k e t
    by (auto simp: rollback_adjustment_def split: prod.splits sum.splits)
  have "K (syscalls s) \<and> K (Suc (syscalls s)) \<and> K (Suc (Suc (syscalls s))) \<and> K (Suc (Suc (Suc (syscalls s))))"
    using assms no_rollback
    by (auto simp: apply_adjustment_def accessors set_at_def loaded_def split: if_splits option.splits)
  then show ?thesis by (auto simp: less_Suc_eq numeral_eq_Suc)
qed

lemma apply_adjustment_done:
  assumes "config_map s = Some m" "loaded m" "apply_adjustment K l rates s = (Inr u, s')"
  shows "config_map s' = Some (with_rates rates m)"
proof -
  have "K (syscalls s + 0)" "K (syscalls s + 1)" "K (syscalls s + 2)" "K (syscalls s + 3)"
    by (rule apply_adjustment_calls [OF assms, rule_format]; simp)+
  then show ?thesis
    using assms by (simp add: apply_adjustment_def accessors set_at_Ok loaded_upd with_rates_def eval_nat_numeral) force
qed

definition owner_inv :: "rate_config \<Rightarrow> owner \<Rightarrow> bool" where
  "owner_inv m\<^sub>0 ow \<longleftrightarrow> (\<exists>m. config_map (ow_cfg ow) = Some m \<and> loaded m \<and>
     (case ow_state ow of
        None \<Rightarrow> m = m\<^sub>0
      | Some adj \<Rightarrow> aa_original adj = rates_of m\<^sub>0 \<and> with_rates (rates_of m\<^sub>0) m = m\<^sub>0))"

lemma owner_inv_step:
  assumes "owner_inv m\<^sub>0 ow" "\<forall>n. K n" "loaded m\<^sub>0"
  shows "owner_inv m\<^sub>0 (snd (owner_step K now cmd ow))"
proof -
  obtain m where m: "config_map (ow_cfg ow) = Some m" "loaded m"
    "case ow_state ow of None \<Rightarrow> m = m\<^sub>0 | Some adj \<Rightarrow> aa_original adj = rates_of m\<^sub>0 \<and> with_rates (rates_of m\<^sub>0) m = m\<^sub>0"
    using assms(1) by (auto simp: owner_inv_def)
  have K: "\<forall>n\<ge>syscalls (ow_cfg ow). K n" using assms(2) by simp
  show ?thesis
  proof (cases cmd)
    case (Adjust f ttl ip at)
    obtain s' where s': "first_adjust K f (ow_cfg ow) = (Inr (rates_of m, map (scaled_rate f) (rates_of m)), s')"
        "config_map s' = Some (with_rates (map (scaled_rate f) (rates_of m)) m)"
      using first_adjust_Ok [OF m(1,2) K] by blast
    show ?thesis
      using m s' by (auto simp: owner_step_def Adjust owner_inv_def split: option.splits)
  next
    case RestoreIfExpired
    show ?thesis
    proof (cases "ow_state ow")
      case (Some adj)
      with m have "length (aa_original adj) = 4" by simp
      from restore_rates_Ok [OF m(1,2) K this] m Some assms(3) show ?thesis
        by (auto simp: owner_step_def RestoreIfExpired owner_inv_def)
    qed (use assms(1) in \<open>simp add: owner_step_def RestoreIfExpired\<close>)
  qed
qed

lemma owner_inv_run:
  "\<lbrakk>owner_inv m\<^sub>0 ow; \<forall>n. K n; loaded m\<^sub>0\<rbrakk> \<Longrightarrow> owner_inv m\<^sub>0 (owner_run K cmds ow)"
  by (induction K cmds ow rule: owner_run.induct) (simp_all add: owner_inv_step)

section \<open>Properties\<close>

text \<open>
  C22. Lowering the rate limits is temporary. After any sequence of commands (adjustments that extend
  one another, attempts to restore, at any times), asking the task to restore once the last
  expiry has passed succeeds, and the kernel's array is then exactly the one from before the first
  adjustment; it says \<^verbatim>\<open>NotExpired\<close> only before that expiry.
\<close>

theorem lowered_rates_are_restored:
  assumes "config_map s = Some m\<^sub>0" "loaded m\<^sub>0" "\<forall>n. K n"
    and "ow = owner_run K cmds \<lparr>ow_state = None, ow_cfg = s\<rparr>"
  shows "\<exists>r ow'. restore_if_expired K True now ow = (Inr r, ow') \<and>
    (if r = NotExpired then \<exists>adj. ow_state ow = Some adj \<and> now < aa_expires adj
     else config_map (ow_cfg ow') = Some m\<^sub>0 \<and> ow_state ow' = None)"
proof -
  have "owner_inv m\<^sub>0 ow"
    unfolding assms(4) by (rule owner_inv_run [OF _ assms(3,2)]) (simp add: owner_inv_def assms(1,2))
  then obtain m where m: "config_map (ow_cfg ow) = Some m" "loaded m"
    "case ow_state ow of None \<Rightarrow> m = m\<^sub>0 | Some adj \<Rightarrow> aa_original adj = rates_of m\<^sub>0 \<and> with_rates (rates_of m\<^sub>0) m = m\<^sub>0"
    by (auto simp: owner_inv_def)
  show ?thesis
  proof (cases "ow_state ow")
    case None
    with m show ?thesis by (simp add: restore_if_expired_def owner_step_def)
  next
    case (Some adj)
    then have "length (aa_original adj) = 4" using m by simp
    from restore_rates_Ok [OF m(1,2) _ this, of K] assms(3) obtain s' where
      "restore_rates K (aa_original adj) (ow_cfg ow) = (Inr (), s')" "config_map s' = Some (with_rates (aa_original adj) m)"
      by auto
    with m Some show ?thesis by (auto simp: restore_if_expired_def owner_step_def)
  qed
qed

definition busy_array :: rate_config where
  "busy_array = (\<lambda>i. if i < 4 then Some 100 else if i = 4 then Some 1000000000 else None)"

definition busy_config :: rl_config where
  "busy_config = \<lparr>config_map = Some busy_array, syscalls = 0\<rparr>"

lemma loaded_busy: "loaded busy_array"
  by (simp add: loaded_def busy_array_def)

definition two_adjustments :: "(instant \<times> rate_limit_cmd) list" where
  "two_adjustments =
     [(0, Adjust (Fin (1 / 2)) 60 ''192.0.2.1'' ''dos_ddos''), (30000000000, Adjust (Fin (1 / 10)) 60 ''192.0.2.2'' ''dos_ddos'')]"

theorem lowered_rates_are_restored_witness:
  "\<exists>ow'. restore_if_expired (\<lambda>_. True) True 90000000000
      (owner_run (\<lambda>_. True) two_adjustments \<lparr>ow_state = None, ow_cfg = busy_config\<rparr>) = (Inr Restored, ow')
    \<and> config_map (ow_cfg ow') = Some busy_array"
proof -
  let ?K = "\<lambda>_ :: nat. True" and ?ow0 = "\<lparr>ow_state = None, ow_cfg = busy_config\<rparr>"
  have c: "config_map busy_config = Some busy_array" by (simp add: busy_config_def)
  define ow where "ow = owner_run ?K two_adjustments ?ow0"
  obtain s1 where f: "first_adjust ?K (Fin (1 / 2)) busy_config
      = (Inr (rates_of busy_array, map (scaled_rate (Fin (1 / 2))) (rates_of busy_array)), s1)"
    using first_adjust_Ok [OF c loaded_busy, of ?K] by auto
  then have st: "ow_state ow = Some \<lparr>aa_original = rates_of busy_array, aa_expires = 90000000000\<rparr>"
    by (simp add: ow_def two_adjustments_def owner_step_def instant_checked_add_def Let_def)
  obtain r ow' where r: "restore_if_expired ?K True 90000000000 ow = (Inr r, ow')"
      "if r = NotExpired then \<exists>adj. ow_state ow = Some adj \<and> 90000000000 < aa_expires adj
       else config_map (ow_cfg ow') = Some busy_array \<and> ow_state ow' = None"
    using lowered_rates_are_restored [OF c loaded_busy, of ?K ow two_adjustments 90000000000] by (auto simp: ow_def)
  then have "r \<noteq> NotExpired" using st by auto
  moreover have "r \<noteq> NoActiveAdjustment"
    using r(1) st by (auto simp: restore_if_expired_def owner_step_def split: prod.splits sum.splits)
  ultimately have "r = Restored" by (cases r) auto
  then show ?thesis using r by (simp add: ow_def)
qed

text \<open>
  C33. An adjustment keeps every rate between 1 and what it was: for a factor in the unit interval and
  rates below \<open>2\<^sup>5\<^sup>3\<close> (the integers that \<^verbatim>\<open>f64\<close> holds exactly), each of the four rates the array
  then holds is at least 1 and at most the old rate, or 1 where that was 0; the window is untouched.
\<close>

theorem adjusted_rates_are_bounded:
  assumes "config_map s = Some m" "loaded m" "first_adjust K (Fin q) s = (Inr (orig, new), s')"
    and "0 \<le> q" "q \<le> 1" "\<forall>v\<in>set (rates_of m). unat v < 2 ^ 53"
  shows "orig = rates_of m \<and> config_map s' = Some (with_rates new m)
    \<and> (\<forall>i<4. 1 \<le> new ! i \<and> new ! i \<le> max (orig ! i) 1)"
proof -
  obtain s1 where s1: "config_map s1 = Some m"
    "apply_adjustment K (rates_of m) (map (scaled_rate (Fin q)) (rates_of m)) s1 = (Inr (), s')"
    and on: "orig = rates_of m" "new = map (scaled_rate (Fin q)) (rates_of m)"
    using first_adjust_reads [OF assms(1-3)] by (auto simp: try_then_Inr_iff)
  have "config_map s' = Some (with_rates new m)" using apply_adjustment_done [OF s1(1) assms(2) s1(2)] on by simp
  moreover have "1 \<le> scaled_rate (Fin q) v \<and> scaled_rate (Fin q) v \<le> max v 1" if "unat v < 2 ^ 53" for v
    using scale_le [OF that assms(4,5)] by (auto simp: scaled_rate_def max_def)
  moreover have "length (rates_of m) = 4" by simp
  ultimately show ?thesis using on assms(6) by simp
qed

theorem adjusted_rates_are_bounded_witness:
  "\<exists>orig new s'. first_adjust (\<lambda>_. True) (Fin (1 / 2)) busy_config = (Inr (orig, new), s')
    \<and> (\<forall>i<4. 1 \<le> new ! i \<and> new ! i \<le> 100)"
proof -
  have c: "config_map busy_config = Some busy_array" by (simp add: busy_config_def)
  have r: "rates_of busy_array = [100, 100, 100, 100]" by (simp add: rates_of_def busy_array_def)
  obtain orig new s' where f: "first_adjust (\<lambda>_. True) (Fin (1 / 2)) busy_config = (Inr (orig, new), s')"
    using first_adjust_Ok [OF c loaded_busy, of "\<lambda>_. True" "Fin (1 / 2)"] by auto
  have "orig = [100, 100, 100, 100]" "\<forall>i<4. 1 \<le> new ! i \<and> new ! i \<le> max (orig ! i) 1"
    using adjusted_rates_are_bounded [OF c loaded_busy f] r by auto
  moreover have "[100, 100, 100, 100 :: u64] ! i = 100" if "i < 4" for i
  proof -
    have "i = 0 \<or> i = 1 \<or> i = 2 \<or> i = 3" using that by linarith
    then show ?thesis by auto
  qed
  moreover have "max 100 1 = (100 :: u64)" by simp
  ultimately show ?thesis using f by auto
qed

text \<open>
  An adjustment that fails leaves no trace: where one system call fails, the array is the one
  from before, with the rates written already put back.
\<close>

theorem failed_adjustment_is_undone:
  assumes "config_map s = Some m" "loaded m" "\<forall>n. n \<noteq> n0 \<longrightarrow> K n" "first_adjust K f s = (Inl e, s')"
  shows "config_map s' = Some m"
  using first_adjust_reads [OF assms(1,2,4)] apply_adjustment_fault [OF _ assms(2,3)]
  by (auto simp: try_then_Inl_iff)

theorem failed_adjustment_is_undone_witness:
  "\<exists>e s'. first_adjust (\<lambda>n. n \<noteq> 6) (Fin (1 / 2)) busy_config = (Inl e, s') \<and> config_map s' = Some busy_array"
proof -
  have c: "config_map busy_config = Some busy_array" by (simp add: busy_config_def)
  obtain r s' where f: "first_adjust (\<lambda>n. n \<noteq> 6) (Fin (1 / 2)) busy_config = (r, s')" by force
  have "isl r"
  proof (rule ccontr)
    assume "\<not> isl r"
    then obtain s1 s2 where "config_map s1 = Some busy_array" "syscalls s1 = 4"
      "apply_adjustment (\<lambda>n. n \<noteq> 6) (rates_of busy_array) (map (scaled_rate (Fin (1 / 2))) (rates_of busy_array)) s1 = (Inr (), s2)"
      using first_adjust_reads [OF c loaded_busy f] by (cases r) (auto simp: try_then_Inr_iff busy_config_def)
    from apply_adjustment_calls [OF this(1) loaded_busy this(3)] this(2) show False by (auto dest: spec [of _ 2])
  qed
  then obtain e where e: "r = Inl e" by (auto simp: isl_def)
  from failed_adjustment_is_undone [OF c loaded_busy _ f [unfolded e], of 6] f e show ?thesis by simp
qed

text \<open>
  An array that has not been configured (all zeros, where the limiter applies its built-in
  defaults of 10000 packets a window and so on) is not scaled by the factor: whatever the factor,
  the adjustment leaves a limit of one packet, one SYN, one UDP and one DNS packet per window.
\<close>

theorem unconfigured_rates_collapse_to_one:
  assumes "first_adjust (\<lambda>_. True) f \<lparr>config_map = Some zero_array, syscalls = 0\<rparr> = (Inr (orig, new), s')"
  shows "get_config zero_array CFG_PACKET_RATE DEFAULT_PACKET_RATE = 10000
    \<and> (\<exists>m. config_map s' = Some m \<and> get_config m CFG_PACKET_RATE DEFAULT_PACKET_RATE = 1
          \<and> get_config m CFG_SYN_RATE DEFAULT_SYN_RATE = 1 \<and> get_config m CFG_UDP_RATE DEFAULT_UDP_RATE = 1
          \<and> get_config m CFG_DNS_RATE DEFAULT_DNS_RATE = 1)"
proof -
  let ?s = "\<lparr>config_map = Some zero_array, syscalls = 0\<rparr>"
  have r: "rates_of zero_array = [0, 0, 0, 0]" by (simp add: rates_of_def zero_array_def)
  have z: "u64_as_f64 0 = Fin 0" by (simp add: u64_as_f64_def to_flt_def round_pos_def Let_def)
  have "f64_as_u64 (fmul f64 (Fin 0) f) = 0" by (cases f) (simp_all add: to_flt_def round_pos_def Let_def)
  then have "scaled_rate f 0 = 1" by (simp add: scaled_rate_def z max_def)
  with first_adjust_Ok [OF _ loaded_zero_array, of ?s "\<lambda>_. True" f] assms r
  have "config_map s' = Some (with_rates [1, 1, 1, 1] zero_array)" by auto
  then show ?thesis
    by (simp add: get_config_def zero_array_def with_rates_def CFG_PACKET_RATE_def CFG_SYN_RATE_def CFG_UDP_RATE_def
        CFG_DNS_RATE_def DEFAULT_PACKET_RATE_def)
qed

theorem unconfigured_rates_collapse_to_one_witness:
  "\<exists>orig new s' m. first_adjust (\<lambda>_. True) (Fin (1 / 2)) \<lparr>config_map = Some zero_array, syscalls = 0\<rparr> = (Inr (orig, new), s')
    \<and> config_map s' = Some m \<and> get_config m CFG_PACKET_RATE DEFAULT_PACKET_RATE = 1"
proof -
  obtain orig new s' where f: "first_adjust (\<lambda>_. True) (Fin (1 / 2)) \<lparr>config_map = Some zero_array, syscalls = 0\<rparr> = (Inr (orig, new), s')"
    using first_adjust_Ok [OF _ loaded_zero_array, of "\<lparr>config_map = Some zero_array, syscalls = 0\<rparr>" "\<lambda>_. True" "Fin (1 / 2)"] by auto
  from unconfigured_rates_collapse_to_one [OF this] f show ?thesis by auto
qed

text \<open>
  Restoring discards what an administrator changed meanwhile: while an adjustment is active, a
  successful change of the packet rate is in force and stored, but the next restore puts the array
  back to the rates from before the adjustment. The table keeps the administrator's value, which
  the limiter reads again only after a restart.
\<close>

theorem restore_discards_administrator_change:
  assumes "config_map (rl_cfg st) = Some m" "loaded m" "\<forall>n. K n"
    and "update_rate_limits K ok settings st = (Inr (), st')" "asked settings 0 = Some v"
    and "aa_expires adj \<le> now" "length (aa_original adj) = 4"
    and "owner_step K now RestoreIfExpired \<lparr>ow_state = Some adj, ow_cfg = rl_cfg st'\<rparr> = (r, ow')"
  shows "r = RestoreReply (Inr Restored) \<and> map_of (rl_rows st') ''packet_rate'' = Some (uint v)
    \<and> the (config_map (ow_cfg ow')) 0 = Some (aa_original adj ! 0)"
proof -
  obtain m' where m': "config_map (rl_cfg st') = Some m'" "loaded m'"
    and rows: "map_of (rl_rows st') PACKET_RATE_KEY = Some (uint v)"
    using update_spec [OF assms(1,2) disjI1 [OF assms(3)] assms(4)] assms(5)
    by (auto simp: settings_list_def asked_def)
  from restore_rates_Ok [OF m' _ assms(7), of K] assms(3) obtain s' where
    "restore_rates K (aa_original adj) (rl_cfg st') = (Inr (), s')" "config_map s' = Some (with_rates (aa_original adj) m')"
    by auto
  with assms(6,8) rows show ?thesis by (auto simp: owner_step_def with_rates_def PACKET_RATE_KEY_def)
qed

theorem restore_discards_administrator_change_witness:
  "\<exists>st' ow'. update_rate_limits (\<lambda>_. True) True packet_500 \<lparr>rl_cfg = busy_config, rl_rows = []\<rparr> = (Inr (), st')
    \<and> owner_step (\<lambda>_. True) 7 RestoreIfExpired
        \<lparr>ow_state = Some \<lparr>aa_original = [200, 200, 200, 200], aa_expires = 7\<rparr>, ow_cfg = rl_cfg st'\<rparr>
        = (RestoreReply (Inr Restored), ow')
    \<and> map_of (rl_rows st') ''packet_rate'' = Some 500 \<and> the (config_map (ow_cfg ow')) 0 = Some 200"
proof -
  let ?st = "\<lparr>rl_cfg = busy_config, rl_rows = []\<rparr>" and ?adj = "\<lparr>aa_original = [200, 200, 200, 200], aa_expires = 7\<rparr>"
  obtain st' where u: "update_rate_limits (\<lambda>_. True) True packet_500 ?st = (Inr (), st')"
    by (simp add: update_rate_limits_def prepare_changes_def prepare_one_def packet_500_def busy_config_def busy_array_def accessors
        get_at_def validate_rate_limit_value_def apply_rate_def set_at_def rate_keys set_rate_limits_def encode_rate_limit_value_def)
  obtain r ow' where o: "owner_step (\<lambda>_. True) 7 RestoreIfExpired \<lparr>ow_state = Some ?adj, ow_cfg = rl_cfg st'\<rparr> = (r, ow')" by force
  have "asked packet_500 0 = Some 500" by (simp add: asked_def settings_list_def packet_500_def)
  from restore_discards_administrator_change [OF _ loaded_busy _ u this _ _ o] u o show ?thesis by (simp add: busy_config_def)
qed

end
