(* ===== verification/Attack_Types.thy ===== *)
theory Attack_Types
  imports Domain_Errors Rust_Text Rust_Float
begin

text \<open>
  The vocabulary of detections: sources, events (\<^verbatim>\<open>domain/common/event.rs\<close>) and the canonical attack
  types that the labels of the detectors are translated to (\<^verbatim>\<open>domain/detection/attack_type.rs\<close>).
\<close>

section \<open>Sources and events\<close>

datatype detection_source = MlSource | Correlation | Beaconing | Suricata

text \<open>The source of the learned models is written in capitals.\<close>

definition ml_label :: string where
  "ml_label = [CHR ''M'', CHR ''L'']"

definition detection_source_display :: "detection_source \<Rightarrow> string" where
  "detection_source_display s =
     (case s of MlSource \<Rightarrow> ml_label | Correlation \<Rightarrow> ''Correlation'' | Beaconing \<Rightarrow> ''Beaconing'' | Suricata \<Rightarrow> ''Suricata'')"

definition detection_source_from_str :: "string \<Rightarrow> detection_source option" where
  "detection_source_from_str s =
     (if s \<in> {ml_label, ''ml''} then Some MlSource
      else if s \<in> {''Suricata'', ''suricata''} then Some Suricata
      else if s \<in> {''Beaconing'', ''beaconing'', ''CV'', ''cv''} then Some Beaconing
      else if s \<in> {''Correlation'', ''correlation'', ''Graph'', ''graph''} then Some Correlation
      else None)"

lemma detection_source_roundtrip [simp]: "detection_source_from_str (detection_source_display s) = Some s"
  by (cases s) (simp_all add: detection_source_from_str_def detection_source_display_def ml_label_def)

record detection_event =
  de_source :: detection_source
  de_attack_type :: string
  de_confidence :: flt
  de_source_ip :: string
  de_dest_ip :: string
  de_protocol :: u8
  de_packet_count :: u64
  de_flow_duration_us :: u64
  de_ae_score :: flt
  de_anomaly_score :: flt
  de_c2_score :: flt

record detection_diagnostic =
  dd_source :: detection_source
  dd_name :: string
  dd_value :: flt

record threat_event =
  te_attack_type :: string
  te_confidence :: flt
  te_source_ip :: string
  te_dest_ip :: string
  te_flow_count :: u32
  te_packet_rate :: flt
  te_protocol :: u8
  te_geoip_country :: "string option"
  te_is_repeat_offender :: bool
  te_sources :: "detection_source list"
  te_active_source_count :: nat
  te_fused_confidence :: flt
  te_diagnostics :: "detection_diagnostic list"

section \<open>Canonical attack types\<close>

datatype attack_type =
    BruteForce | PortScan | C2Beacon | DnsTunnel | SqlInjection | Xss | Exploit | LateralMovement
  | Reconnaissance | Cryptomining | DosDdos | BotActivity | UnknownAttack

definition attack_type_as_str :: "attack_type \<Rightarrow> string" where
  "attack_type_as_str t =
     (case t of
        BruteForce \<Rightarrow> ''brute_force'' | PortScan \<Rightarrow> ''port_scan'' | C2Beacon \<Rightarrow> ''c2_beacon'' | DnsTunnel \<Rightarrow> ''dns_tunnel''
      | SqlInjection \<Rightarrow> ''sql_injection'' | Xss \<Rightarrow> ''xss'' | Exploit \<Rightarrow> ''exploit'' | LateralMovement \<Rightarrow> ''lateral_movement''
      | Reconnaissance \<Rightarrow> ''reconnaissance'' | Cryptomining \<Rightarrow> ''cryptomining'' | DosDdos \<Rightarrow> ''dos_ddos''
      | BotActivity \<Rightarrow> ''bot_activity'' | UnknownAttack \<Rightarrow> ''unknown'')"

definition ALL_ATTACK_TYPES :: "attack_type list" where
  "ALL_ATTACK_TYPES =
     [BruteForce, PortScan, C2Beacon, DnsTunnel, SqlInjection, Xss, Exploit, LateralMovement, Reconnaissance, Cryptomining,
      DosDdos, BotActivity, UnknownAttack]"

definition canonical_from_str :: "string \<Rightarrow> attack_type option" where
  "canonical_from_str s = List.find (\<lambda>c. attack_type_as_str c = s) ALL_ATTACK_TYPES"

definition translate_ml :: "string \<Rightarrow> attack_type" where
  "translate_ml label =
     (if label \<in> {''brute force'', ''brute_force'', ''bruteforce''} then BruteForce
      else if label \<in> {''port_scan'', ''portscan''} then PortScan
      else if label \<in> {''reconnaissance'', ''recon''} then Reconnaissance
      else if label \<in> {''c2 communication'', ''c2'', ''c2_beacon'', ''command_and_control''} then C2Beacon
      else if label \<in> {''dns tunneling'', ''dns_tunnel'', ''dns tunnel''} then DnsTunnel
      else if label \<in> {''sql injection'', ''sql_injection'', ''sqli''} then SqlInjection
      else if label \<in> {''xss'', ''cross_site_scripting''} then Xss
      else if label \<in> {''web attack'', ''web_attack''} then Exploit
      else if label \<in> {''exploitation'', ''exploit''} then Exploit
      else if label \<in> {''dos/ddos'', ''dos_ddos'', ''ddos'', ''dos''} then DosDdos
      else if label \<in> {''cryptomining'', ''cryptocurrency_mining'', ''mining''} then Cryptomining
      else if label \<in> {''bot'', ''bot_activity'', ''botnet'', ''malware''} then BotActivity
      else if label \<in> {''lateral movement'', ''lateral_movement''} then LateralMovement
      else UnknownAttack)"

definition translate_beaconing :: "string \<Rightarrow> attack_type" where
  "translate_beaconing label = C2Beacon"

definition translate_correlation :: "string \<Rightarrow> attack_type" where
  "translate_correlation label =
     (if label \<in> {''scan'', ''port_scan'', ''reconnaissance''} then PortScan
      else if label \<in> {''lateral'', ''lateral_movement''} then LateralMovement
      else if label \<in> {''botnet'', ''bot'', ''bot_activity''} then BotActivity
      else UnknownAttack)"

definition translate_suricata :: "string \<Rightarrow> attack_type" where
  "translate_suricata label =
     (if label \<in> {''network-scan''} then PortScan
      else if label \<in> {''attempted-recon'', ''misc-activity''} then Reconnaissance
      else if label \<in> {''attempted-admin'', ''successful-admin'', ''attempted-user'', ''successful-user'', ''shellcode-detect'',
                        ''attempted-exploit''} then Exploit
      else if label \<in> {''web-application-attack''} then Exploit
      else if label \<in> {''web-application-activity''} then Exploit
      else if label \<in> {''sql-injection''} then SqlInjection
      else if label \<in> {''xss'', ''cross-site-scripting''} then Xss
      else if label \<in> {''attempted-dos'', ''successful-dos'', ''denial-of-service''} then DosDdos
      else if label \<in> {''trojan-activity'', ''malware-cnc'', ''command-and-control''} then C2Beacon
      else if label \<in> {''suspicious-login'', ''unsuccessful-user'', ''brute-force''} then BruteForce
      else if label \<in> {''coin-mining'', ''policy-violation''} then Cryptomining
      else if label \<in> {''dns-tunnel'', ''protocol-command-decode''} then DnsTunnel
      else UnknownAttack)"

definition translate_label :: "detection_source \<Rightarrow> string \<Rightarrow> attack_type" where
  "translate_label source raw_label =
     (let normalized = to_ascii_lowercase (trim raw_label)
      in case source of
           MlSource \<Rightarrow> translate_ml normalized
         | Beaconing \<Rightarrow> translate_beaconing normalized
         | Correlation \<Rightarrow> translate_correlation normalized
         | Suricata \<Rightarrow> translate_suricata normalized)"

lemma canonical_roundtrip [simp]: "canonical_from_str (attack_type_as_str t) = Some t"
  by (cases t) (simp_all add: canonical_from_str_def ALL_ATTACK_TYPES_def attack_type_as_str_def)

lemma canonical_from_str_Some: "canonical_from_str s = Some t \<longleftrightarrow> s = attack_type_as_str t"
  using canonical_roundtrip by (auto simp: canonical_from_str_def find_Some_iff)

end
