(* ===== verification/Timed_Windows.thy ===== *)
theory Timed_Windows
  imports Rate_Limit_Owner Attack_Types "HOL-Library.AList" "HOL-Library.Multiset"
begin

text \<open>
  What the three correlation detectors share: a set of distinct items collected over a window of time
  that starts anew once it has passed (\<^verbatim>\<open>core/correlation\<close>), the capped clean-up of the tracked
  keys (\<^verbatim>\<open>correlation_cleanup.rs\<close>), and the interface \<open>timed_detector\<close>, under which what the
  detectors guarantee is proved once. The concurrent map is the list of its entries; in which order it
  is walked is the interface \<open>iteration\<close>.
\<close>

section \<open>Windows\<close>

record 'a timed_set =
  ts_items :: "'a set"
  ts_window_start :: instant
  ts_last_alerted :: "instant option"

definition restart_window :: "instant \<Rightarrow> ('a, 'm) timed_set_scheme \<Rightarrow> ('a, 'm) timed_set_scheme" where
  "restart_window now t = t\<lparr>ts_items := {}, ts_window_start := now\<rparr>"

definition expire_window :: "nat \<Rightarrow> instant \<Rightarrow> ('a, 'm) timed_set_scheme \<Rightarrow> ('a, 'm) timed_set_scheme" where
  "expire_window w now t = (if now - ts_window_start t \<ge> w then restart_window now t else t)"

definition suppressed :: "nat \<Rightarrow> instant \<Rightarrow> ('a, 'm) timed_set_scheme \<Rightarrow> bool" where
  "suppressed w now t = (case ts_last_alerted t of Some l \<Rightarrow> now - l < w | None \<Rightarrow> False)"

text \<open>One observation: whether it raises an alert, and the entry after it.\<close>

definition window_step :: "nat \<Rightarrow> nat \<Rightarrow> instant \<Rightarrow> 'a \<Rightarrow> ('a, 'm) timed_set_scheme \<Rightarrow> bool \<times> ('a, 'm) timed_set_scheme" where
  "window_step w th now x t =
     (let t = expire_window w now t; t = t\<lparr>ts_items := insert x (ts_items t)\<rparr>
      in if card (ts_items t) \<ge> th
         then if suppressed w now t then (False, restart_window now t)
              else (True, (restart_window now t)\<lparr>ts_last_alerted := Some now\<rparr>)
         else (False, t))"

definition capped_cleanup ::
    "('k list \<Rightarrow> 'k list) \<Rightarrow> instant \<Rightarrow> nat \<Rightarrow> nat \<Rightarrow> ('k \<times> ('a, 'm) timed_set_scheme) list \<Rightarrow> nat \<times> ('k \<times> ('a, 'm) timed_set_scheme) list" where
  "capped_cleanup it now w max_tracked entries =
     (let kept = filter (\<lambda>e. now - ts_window_start (snd e) < w) entries;
          left = (if length kept > max_tracked
                  then let keys_to_remove = take (length kept - max_tracked) (it (map fst kept))
                       in filter (\<lambda>e. fst e \<notin> set keys_to_remove) kept
                  else kept)
      in (length entries - length left, left))"

text \<open>The order in which a map is walked: each key once.\<close>

locale iteration =
  fixes it :: "'k list \<Rightarrow> 'k list"
  assumes it_perm: "mset (it ks) = mset ks"

interpretation in_order: iteration "\<lambda>ks. ks"
  by unfold_locales simp

context iteration
begin

lemma cleanup_bounded:
  assumes "distinct (map fst entries)"
  shows "length (snd (capped_cleanup it now w mx entries)) \<le> mx"
proof -
  define kept where "kept = filter (\<lambda>e. now - ts_window_start (snd e) < w) entries"
  define ks where "ks = take (length kept - mx) (it (map fst kept))"
  have d: "distinct (map fst kept)" using assms by (simp add: kept_def distinct_map_filter)
  have "mset (it (map fst kept)) = mset (map fst kept)" by (rule it_perm)
  then have di: "distinct (it (map fst kept))" and li: "length (it (map fst kept)) = length kept"
    and si: "set (it (map fst kept)) = fst ` set kept"
    using d by (metis mset_eq_imp_distinct_iff, metis length_map size_mset, metis set_map set_mset_mset)
  have dk: "distinct ks" "set ks \<subseteq> fst ` set kept" using di si by (auto simp: ks_def dest: in_set_takeD)
  have "length (filter (\<lambda>e. fst e \<notin> set ks) kept) = card (fst ` set kept - set ks)"
  proof -
    have "length (filter (\<lambda>e. fst e \<notin> set ks) kept) = card (set (map fst (filter (\<lambda>e. fst e \<notin> set ks) kept)))"
      using d by (metis distinct_card distinct_map_filter length_map)
    also have "set (map fst (filter (\<lambda>e. fst e \<notin> set ks) kept)) = fst ` set kept - set ks" by auto
    finally show ?thesis .
  qed
  also have "\<dots> = length kept - length ks"
    using dk d by (simp add: card_Diff_subset distinct_card) (metis distinct_card length_map set_map)
  finally have "length (filter (\<lambda>e. fst e \<notin> set ks) kept) = length kept - length ks" .
  moreover have "length ks = length kept - mx" using li by (simp add: ks_def)
  ultimately show ?thesis by (simp add: capped_cleanup_def Let_def kept_def [symmetric] ks_def [symmetric])
qed

lemma cleanup_distinct:
  assumes "distinct (map fst entries)"
  shows "distinct (map fst (snd (capped_cleanup it now w mx entries)))"
  using assms by (simp add: capped_cleanup_def Let_def distinct_map_filter)

lemma cleanup_submap:
  assumes "distinct (map fst entries)"
  shows "map_of (snd (capped_cleanup it now w mx entries)) \<subseteq>\<^sub>m map_of entries"
  using assms cleanup_distinct [OF assms, of now w mx]
  by (auto simp: map_le_def capped_cleanup_def Let_def distinct_map_filter map_of_eq_Some_iff split: if_splits dest!: domD)

lemma cleanup_uncapped:
  assumes "distinct (map fst entries)" "length entries \<le> mx" "map_of entries k = Some t"
  shows "map_of (snd (capped_cleanup it now w mx entries)) k = (if now - ts_window_start t < w then Some t else None)"
proof -
  have "length (filter (\<lambda>e. now - ts_window_start (snd e) < w) entries) \<le> mx"
    using assms(2) length_filter_le [of "\<lambda>e. now - ts_window_start (snd e) < w" entries] by linarith
  then have "map_of (snd (capped_cleanup it now w mx entries)) k = map_of (filter (\<lambda>e. now - ts_window_start (snd e) < w) entries) k"
    by (simp add: capped_cleanup_def Let_def)
  moreover have "map_of (filter (\<lambda>e. now - ts_window_start (snd e) < w) entries) k = (if now - ts_window_start t < w then Some t else None)"
    using assms(1,3) by (induction entries) (auto simp: map_of_eq_None_iff dest: map_of_SomeD)
  ultimately show ?thesis by simp
qed

end

section \<open>Facts about a step\<close>

lemma restart_simps [simp]:
  "ts_items (restart_window now t) = {}" "ts_window_start (restart_window now t) = now" "ts_last_alerted (restart_window now t) = ts_last_alerted t"
  by (simp_all add: restart_window_def)

lemma expire_simps [simp]: "ts_last_alerted (expire_window w now t) = ts_last_alerted t"
  by (simp add: expire_window_def)

definition extended :: "nat \<Rightarrow> instant \<Rightarrow> 'a \<Rightarrow> ('a, 'm) timed_set_scheme \<Rightarrow> 'a set" where
  "extended w now x t = insert x (ts_items (expire_window w now t))"

lemma window_step_cases:
  obtains (quiet) "card (extended w now x t) < th" "window_step w th now x t = (False, (expire_window w now t)\<lparr>ts_items := extended w now x t\<rparr>)"
  | (held) l t' where "th \<le> card (extended w now x t)" "ts_last_alerted t = Some l" "now - l < w" "window_step w th now x t = (False, t')"
      "ts_items t' = {}" "ts_window_start t' = now" "ts_last_alerted t' = Some l"
  | (alert) t' where "th \<le> card (extended w now x t)" "\<And>l. ts_last_alerted t = Some l \<Longrightarrow> w \<le> now - l" "window_step w th now x t = (True, t')"
      "ts_items t' = {}" "ts_window_start t' = now" "ts_last_alerted t' = Some now"
proof (cases "card (extended w now x t) < th")
  case True
  then show ?thesis by (intro quiet) (simp_all add: window_step_def extended_def Let_def)
next
  case False
  let ?t = "restart_window now ((expire_window w now t)\<lparr>ts_items := extended w now x t\<rparr>)"
  show ?thesis
  proof (cases "suppressed w now t")
    case True
    then obtain l where l: "ts_last_alerted t = Some l" "now - l < w" by (auto simp: suppressed_def split: option.splits)
    with False show ?thesis by (intro held [of l ?t]) (simp_all add: window_step_def extended_def suppressed_def Let_def)
  next
    case s: False
    then have "w \<le> now - l" if "ts_last_alerted t = Some l" for l using that by (simp add: suppressed_def)
    with s False show ?thesis
      by (intro alert [of "?t\<lparr>ts_last_alerted := Some now\<rparr>"]) (simp_all add: window_step_def extended_def suppressed_def Let_def)
  qed
qed

section \<open>Runs of one window\<close>

text \<open>No observation of the list reaches the threshold.\<close>

fun quiet :: "nat \<Rightarrow> nat \<Rightarrow> ('a, 'm) timed_set_scheme \<Rightarrow> (instant \<times> 'a) list \<Rightarrow> bool" where
  "quiet w th t [] = True"
| "quiet w th t ((now, x) # xs) =
     (card (extended w now x t) < th \<and> quiet w th ((expire_window w now t)\<lparr>ts_items := extended w now x t\<rparr>) xs)"

lemma quiet_no_restart:
  assumes "quiet w th t xs" "t0 \<le> ts_window_start t" "\<forall>x\<in>set xs. t0 \<le> fst x \<and> fst x < t0 + w" "card (ts_items t) < th"
  shows "card (ts_items t \<union> snd ` set xs) < th"
  using assms
proof (induction xs arbitrary: t)
  case (Cons y xs)
  obtain now x where y: "y = (now, x)" by (cases y)
  have "expire_window w now t = t" using Cons.prems(2,3) y by (auto simp: expire_window_def)
  then show ?case using Cons.IH [of "t\<lparr>ts_items := insert x (ts_items t)\<rparr>"] Cons.prems y by (simp add: extended_def insert_commute)
qed simp

text \<open>Within one window's length a window starts anew at most once, so what it can miss is less than twice the threshold.\<close>

lemma quiet_split:
  assumes "quiet w th t xs" "\<forall>x\<in>set xs. t0 \<le> fst x \<and> fst x < t0 + w" "finite (ts_items t)" "card (ts_items t) < th"
  shows "\<exists>A B. ts_items t \<union> snd ` set xs = A \<union> B \<and> card A < th \<and> card B < th"
  using assms
proof (induction xs arbitrary: t)
  case Nil
  then show ?case by (intro exI [of _ "ts_items t"]) simp
next
  case (Cons y xs)
  obtain now x where y: "y = (now, x)" by (cases y)
  show ?case
  proof (cases "now - ts_window_start t \<ge> w")
    case True
    let ?t = "(restart_window now t)\<lparr>ts_items := {x}\<rparr>"
    have "extended w now x t = {x}" "expire_window w now t = restart_window now t" using True by (simp_all add: extended_def expire_window_def)
    then have "quiet w th ?t xs" "card (ts_items ?t) < th" using Cons.prems(1) y by simp_all
    then have "card (ts_items ?t \<union> snd ` set xs) < th"
      using Cons.prems(2) y by (intro quiet_no_restart [of w th ?t xs t0]) simp_all
    then have "ts_items t \<union> snd ` set (y # xs) = ts_items t \<union> ({x} \<union> snd ` set xs) \<and> card (ts_items t) < th \<and> card ({x} \<union> snd ` set xs) < th"
      using y Cons.prems(4) by simp
    then show ?thesis by blast
  next
    case False
    let ?t = "t\<lparr>ts_items := insert x (ts_items t)\<rparr>"
    have "extended w now x t = insert x (ts_items t)" "expire_window w now t = t" using False by (simp_all add: extended_def expire_window_def)
    then have "quiet w th ?t xs" "card (ts_items ?t) < th" using Cons.prems(1) y by simp_all
    then have "\<exists>A B. ts_items ?t \<union> snd ` set xs = A \<union> B \<and> card A < th \<and> card B < th"
      using Cons.prems(2,3) by (intro Cons.IH) simp_all
    then show ?thesis using y by simp
  qed
qed

corollary quiet_items:
  assumes "quiet w th t xs" "\<forall>x\<in>set xs. t0 \<le> fst x \<and> fst x < t0 + w" "finite (ts_items t)" "card (ts_items t) < th"
  shows "card (snd ` set xs) < 2 * th - 1"
proof -
  obtain A B where "ts_items t \<union> snd ` set xs = A \<union> B" "card A < th" "card B < th" using quiet_split [OF assms] by blast
  then have "snd ` set xs \<subseteq> A \<union> B" "finite (A \<union> B)" using assms(3) by (blast, metis finite_UnI finite_imageI List.finite_set)
  then have "card (snd ` set xs) \<le> card (A \<union> B)" by (simp add: card_mono)
  also have "\<dots> \<le> card A + card B" by (rule card_Un_le)
  finally show ?thesis using \<open>card A < th\<close> \<open>card B < th\<close> by linarith
qed

section \<open>Detectors\<close>

record flow_observation =
  fo_src_ip :: string
  fo_dst_ip :: string
  fo_dst_port :: u16
  fo_protocol :: u8
  fo_packet_count :: u64
  fo_flow_duration_us :: u64

definition fresh_set :: "instant \<Rightarrow> 'a timed_set" where
  "fresh_set now = \<lparr>ts_items = {}, ts_window_start = now, ts_last_alerted = None\<rparr>"

datatype detector_op = Observe instant flow_observation | CleanUp instant

primrec op_time :: "detector_op \<Rightarrow> instant" where
  "op_time (Observe now _) = now"
| "op_time (CleanUp now) = now"

text \<open>A sequence of operations: the alerts with their times and the observations that raised them, and the final state.\<close>

type_synonym alerts = "(instant \<times> flow_observation \<times> detection_event) list"

definition alert_of :: "instant \<Rightarrow> flow_observation \<Rightarrow> detection_event option \<Rightarrow> alerts" where
  "alert_of now a ev = (case ev of Some e \<Rightarrow> [(now, a, e)] | None \<Rightarrow> [])"

fun detector_run ::
    "(instant \<Rightarrow> flow_observation \<Rightarrow> 'd \<Rightarrow> detection_event option \<times> 'd) \<Rightarrow> (instant \<Rightarrow> 'd \<Rightarrow> 'd) \<Rightarrow> detector_op list \<Rightarrow> 'd \<Rightarrow> alerts \<times> 'd" where
  "detector_run process cleanup [] d = ([], d)"
| "detector_run process cleanup (Observe now a # ops) d =
     (case process now a d of (ev, d) \<Rightarrow> (case detector_run process cleanup ops d of (out, d) \<Rightarrow> (alert_of now a ev @ out, d)))"
| "detector_run process cleanup (CleanUp now # ops) d = detector_run process cleanup ops (cleanup now d)"

lemma detector_run_append:
  "detector_run process cleanup (xs @ ys) d =
     (case detector_run process cleanup xs d of (out, d) \<Rightarrow> (case detector_run process cleanup ys d of (out', d) \<Rightarrow> (out @ out', d)))"
proof (induction xs arbitrary: d)
  case (Cons x xs)
  then show ?case by (cases x) (auto split: prod.splits)
qed (simp split: prod.splits)

locale timed_detector =
  fixes process :: "instant \<Rightarrow> flow_observation \<Rightarrow> 'd \<Rightarrow> detection_event option \<times> 'd"
    and cleanup :: "instant \<Rightarrow> 'd \<Rightarrow> 'd"
    and entry :: "'d \<Rightarrow> 'k \<Rightarrow> 'x timed_set option"
    and wf :: "'d \<Rightarrow> bool"
    and relevant :: "flow_observation \<Rightarrow> bool"
    and key_of :: "flow_observation \<Rightarrow> 'k"
    and item :: "flow_observation \<Rightarrow> 'x"
    and window threshold max_tracked :: "'d \<Rightarrow> nat"
  assumes irrelevant: "\<not> relevant a \<Longrightarrow> process now a d = (None, d)"
    and step: "wf d \<Longrightarrow> relevant a \<Longrightarrow>
      window_step (window d) (threshold d) now (item a) (case entry d (key_of a) of Some t \<Rightarrow> t | None \<Rightarrow> fresh_set now) = (hit, t') \<Longrightarrow>
      (fst (process now a d) \<noteq> None) = hit \<and> entry (snd (process now a d)) = (entry d)(key_of a \<mapsto> t')"
    and wf_process: "wf d \<Longrightarrow> wf (snd (process now a d))"
    and wf_cleanup: "wf d \<Longrightarrow> wf (cleanup now d)"
    and params: "window (snd (process now a d)) = window d" "threshold (snd (process now a d)) = threshold d"
      "max_tracked (snd (process now a d)) = max_tracked d"
      "window (cleanup now d) = window d" "threshold (cleanup now d) = threshold d" "max_tracked (cleanup now d) = max_tracked d"
    and cleanup_sub: "wf d \<Longrightarrow> entry (cleanup now d) \<subseteq>\<^sub>m entry d"
    and cleanup_keeps: "wf d \<Longrightarrow> card (dom (entry d)) \<le> max_tracked d \<Longrightarrow> entry d k = Some t \<Longrightarrow> now - ts_window_start t < window d \<Longrightarrow>
      entry (cleanup now d) k = Some t"
    and finite_entries: "finite (dom (entry d))"
begin

text \<open>The observations of a key, and the items among them.\<close>

definition observed :: "detector_op list \<Rightarrow> 'k \<Rightarrow> instant \<Rightarrow> instant \<Rightarrow> 'x set" where
  "observed ops k lo hi = item ` {b. \<exists>t. Observe t b \<in> set ops \<and> relevant b \<and> key_of b = k \<and> lo \<le> t \<and> t \<le> hi}"

definition recent :: "detector_op list \<Rightarrow> nat \<Rightarrow> 'k \<Rightarrow> instant \<Rightarrow> 'x set" where
  "recent ops w k now = item ` {b. \<exists>t. Observe t b \<in> set ops \<and> relevant b \<and> key_of b = k \<and> t \<le> now \<and> now < t + w}"

lemma finite_recent [simp]: "finite (recent ops w k now)"
proof -
  have "recent ops w k now \<subseteq> (\<lambda>op. case op of Observe _ b \<Rightarrow> item b | _ \<Rightarrow> undefined) ` set ops"
    unfolding recent_def by (force split: detector_op.splits)
  then show ?thesis by (rule finite_subset) simp
qed

lemma recent_mono: "recent ops w k now \<subseteq> recent (ops @ ops') w k now"
  by (auto simp: recent_def)

lemma observed_mono: "observed ops k lo hi \<subseteq> observed (ops @ ops') k lo (max hi u)"
  unfolding observed_def by (intro image_mono) (auto simp: le_max_iff_disj)

definition good_entry :: "detector_op list \<Rightarrow> alerts \<Rightarrow> nat \<Rightarrow> instant \<Rightarrow> 'k \<Rightarrow> 'x timed_set \<Rightarrow> bool" where
  "good_entry ops out th now k t \<longleftrightarrow>
     finite (ts_items t) \<and> card (ts_items t) < th \<and> ts_window_start t \<le> now \<and> ts_items t \<subseteq> observed ops k (ts_window_start t) now
     \<and> (\<forall>l. ts_last_alerted t = Some l \<longrightarrow> l \<le> ts_window_start t \<and> (\<exists>a ev. (l, a, ev) \<in> set out \<and> relevant a \<and> key_of a = k))"

definition good :: "detector_op list \<Rightarrow> alerts \<Rightarrow> nat \<Rightarrow> nat \<Rightarrow> instant \<Rightarrow> 'd \<Rightarrow> bool" where
  "good ops out w th now d \<longleftrightarrow>
     wf d \<and> window d = w \<and> threshold d = th \<and> (\<forall>k t. entry d k = Some t \<longrightarrow> good_entry ops out th now k t)
     \<and> (\<forall>(t, a, ev)\<in>set out. relevant a \<and> t \<le> now \<and> th \<le> card (recent ops w (key_of a) t))"

lemma good_entry_later: "good_entry ops out th now k t \<Longrightarrow> now \<le> now' \<Longrightarrow> good_entry (ops @ ops') (out @ out') th now' k t"
  using observed_mono [of ops k "ts_window_start t" now ops' now'] by (fastforce simp: good_entry_def max_absorb2)

lemma good_fresh: "0 < th \<Longrightarrow> good_entry ops out th now k (fresh_set now)"
  by (simp add: good_entry_def fresh_set_def)

lemma extended_recent:
  assumes "good_entry ops out th now (key_of a) t" "relevant a" "0 < w"
  shows "finite (extended w now (item a) t)" "ts_window_start (expire_window w now t) \<le> now"
    "extended w now (item a) t \<subseteq> observed (ops @ [Observe now a]) (key_of a) (ts_window_start (expire_window w now t)) now"
    "extended w now (item a) t \<subseteq> recent (ops @ [Observe now a]) w (key_of a) now"
proof -
  let ?t = "expire_window w now t"
  have t: "finite (ts_items t)" "ts_window_start t \<le> now" "ts_items t \<subseteq> observed ops (key_of a) (ts_window_start t) now"
    using assms(1) by (simp_all add: good_entry_def)
  then show start: "ts_window_start ?t \<le> now" and "finite (extended w now (item a) t)" by (simp_all add: expire_window_def extended_def)
  have "ts_items ?t \<subseteq> observed ops (key_of a) (ts_window_start ?t) now" using t(3) by (simp add: expire_window_def)
  moreover have "observed ops (key_of a) s now \<subseteq> observed (ops @ [Observe now a]) (key_of a) s now" for s
    using observed_mono [of ops "key_of a" s now "[Observe now a]" now] by simp
  moreover have "item a \<in> observed (ops @ [Observe now a]) (key_of a) (ts_window_start ?t) now"
    using assms(2) start by (auto simp: observed_def)
  ultimately show sub: "extended w now (item a) t \<subseteq> observed (ops @ [Observe now a]) (key_of a) (ts_window_start ?t) now"
    unfolding extended_def by blast
  have "now < ts_window_start ?t + w" using t(2) assms(3) by (auto simp: expire_window_def)
  then have "observed (ops @ [Observe now a]) (key_of a) (ts_window_start ?t) now \<subseteq> recent (ops @ [Observe now a]) w (key_of a) now"
    unfolding observed_def recent_def by (intro image_mono) auto
  with sub show "extended w now (item a) t \<subseteq> recent (ops @ [Observe now a]) w (key_of a) now" by blast
qed

lemma good_entry_step:
  assumes t: "good_entry ops out th now (key_of a) t" "relevant a" "0 < w" "0 < th"
    and step: "window_step w th now (item a) t = (hit, t')" and new: "hit \<Longrightarrow> (now, a, ev) \<in> set out'"
  shows "good_entry (ops @ [Observe now a]) (out @ out') th now (key_of a) t'"
    and "hit \<Longrightarrow> th \<le> card (recent (ops @ [Observe now a]) w (key_of a) now)"
proof -
  note ex = extended_recent [OF t(1-3)]
  have last: "l \<le> ts_window_start t \<and> (\<exists>b e. (l, b, e) \<in> set (out @ out') \<and> relevant b \<and> key_of b = key_of a)" if "ts_last_alerted t = Some l" for l
    using t(1) that unfolding good_entry_def by auto
  have "good_entry (ops @ [Observe now a]) (out @ out') th now (key_of a) t' \<and> (hit \<longrightarrow> th \<le> card (recent (ops @ [Observe now a]) w (key_of a) now))"
  proof (cases rule: window_step_cases [where w = w and now = now and x = "item a" and t = t and th = th])
    case quiet
    have "ts_window_start t \<le> ts_window_start (expire_window w now t)" using t(1) by (simp add: expire_window_def good_entry_def)
    with quiet step ex last show ?thesis by (fastforce simp: good_entry_def)
  next
    case (held l)
    have "ts_window_start t \<le> now" using t(1) by (simp add: good_entry_def)
    with held step t(4) last [of l] show ?thesis by (auto simp: good_entry_def)
  next
    case (alert t'')
    have "th \<le> card (recent (ops @ [Observe now a]) w (key_of a) now)"
      using card_mono [OF finite_recent ex(4)] alert(1) by linarith
    with alert step t(2,4) new show ?thesis by (auto simp: good_entry_def)
  qed
  then show "good_entry (ops @ [Observe now a]) (out @ out') th now (key_of a) t'"
    "hit \<Longrightarrow> th \<le> card (recent (ops @ [Observe now a]) w (key_of a) now)" by blast+
qed

lemma good_later: "good ops out w th now d \<Longrightarrow> now \<le> now' \<Longrightarrow> good ops out w th now' d"
  using good_entry_later [of ops out th now _ _ now' "[]" "[]"] by (fastforce simp: good_def)

lemma alert_recent_mono: "th \<le> card (recent ops w k t) \<Longrightarrow> th \<le> card (recent (ops @ ops') w k t)"
  using card_mono [OF finite_recent recent_mono, of ops w k t ops'] by linarith

lemma good_process:
  assumes g: "good ops out w th now0 d" and le: "now0 \<le> now" and pos: "0 < w" "0 < th" and pr: "process now a d = (ev, d')"
  shows "good (ops @ [Observe now a]) (out @ alert_of now a ev) w th now d'"
proof -
  note gl = good_later [OF g le]
  have old: "good_entry (ops @ [Observe now a]) (out @ alert_of now a ev) th now k t" if "entry d k = Some t" for k t
    using gl that good_entry_later [of ops out th now k t now] unfolding good_def by blast
  have oldout: "relevant b \<and> t \<le> now \<and> th \<le> card (recent (ops @ [Observe now a]) w (key_of b) t)" if "(t, b, e) \<in> set out" for t b e
    using gl that alert_recent_mono unfolding good_def by fast
  have wd: "wf d" "window d = w" "threshold d = th" using g by (simp_all add: good_def)
  show ?thesis
  proof (cases "relevant a")
    case False
    then have "ev = None" "d' = d" using irrelevant [of a now d] pr by simp_all
    then show ?thesis using old oldout wd by (auto simp: good_def alert_of_def)
  next
    case True
    define t where "t = (case entry d (key_of a) of Some t \<Rightarrow> t | None \<Rightarrow> fresh_set now)"
    obtain hit t' where st: "window_step w th now (item a) t = (hit, t')" by fastforce
    have e: "(ev \<noteq> None) = hit" "entry d' = (entry d)(key_of a \<mapsto> t')"
      using step [OF wd(1) True, of now hit t'] st pr wd by (simp_all add: t_def)
    have gt: "good_entry ops out th now (key_of a) t"
      using gl good_fresh [OF pos(2)] unfolding good_def t_def by (auto split: option.splits)
    have new: "(now, a, the ev) \<in> set (alert_of now a ev)" if hit using e(1) that by (auto simp: alert_of_def)
    note es = good_entry_step [OF gt True pos st new]
    have "wf d'" "window d' = w" "threshold d' = th" using wf_process [OF wd(1), of now a] params(1-3) [of now a d] pr wd by simp_all
    moreover have "good_entry (ops @ [Observe now a]) (out @ alert_of now a ev) th now k u" if "entry d' k = Some u" for k u
      using that e(2) es(1) old by (cases "k = key_of a") auto
    moreover have "relevant b \<and> u \<le> now \<and> th \<le> card (recent (ops @ [Observe now a]) w (key_of b) u)"
      if "(u, b, x) \<in> set (out @ alert_of now a ev)" for u b x
      using that oldout [of u b x] es(2) e(1) True by (auto simp: alert_of_def split: option.splits)
    ultimately show ?thesis unfolding good_def by fast
  qed
qed

lemma good_cleanup:
  assumes g: "good ops out w th now0 d" and le: "now0 \<le> now"
  shows "good (ops @ [CleanUp now]) out w th now (cleanup now d)"
proof -
  have wd: "wf d" "window d = w" "threshold d = th" using g by (simp_all add: good_def)
  have "entry d k = Some t" if "entry (cleanup now d) k = Some t" for k t
    using cleanup_sub [OF wd(1), of now] that unfolding map_le_def by (metis domI)
  then have "good_entry (ops @ [CleanUp now]) out th now k t" if "entry (cleanup now d) k = Some t" for k t
    using g le that good_entry_later [of ops out th now0 k t now "[CleanUp now]" "[]"] unfolding good_def by auto
  moreover have "relevant b \<and> t \<le> now \<and> th \<le> card (recent (ops @ [CleanUp now]) w (key_of b) t)" if "(t, b, e) \<in> set out" for t b e
    using good_later [OF g le] that alert_recent_mono unfolding good_def by fast
  ultimately show ?thesis using wf_cleanup [OF wd(1), of now] params(4-6) [of now d] wd unfolding good_def by fastforce
qed

lemma good_run:
  assumes "wf d0" "entry d0 = Map.empty" "0 < window d0" "0 < threshold d0"
    and "sorted (map op_time ops)" "detector_run process cleanup ops d0 = (out, d)" "\<forall>op\<in>set ops. op_time op \<le> now"
  shows "good ops out (window d0) (threshold d0) now d"
  using assms(5-7)
proof (induction ops arbitrary: out d now rule: rev_induct)
  case Nil
  then show ?case using assms(1,2) by (simp add: good_def)
next
  case (snoc op ops)
  obtain out1 d1 where r: "detector_run process cleanup ops d0 = (out1, d1)" by fastforce
  have "good ops out1 (window d0) (threshold d0) (op_time op) d1" using snoc r by (simp add: sorted_append)
  then have "good (ops @ [op]) out (window d0) (threshold d0) (op_time op) d"
    using good_process [OF _ order_refl assms(3,4)] good_cleanup [OF _ order_refl] snoc.prems(2) r
    by (cases op) (auto simp: detector_run_append split: prod.splits)
  then show ?case using snoc.prems(3) by (auto intro: good_later)
qed

text \<open>An alert is justified: as many distinct items of its key as the threshold asks for were observed within the window before it.\<close>

lemma alerts_justified:
  assumes "wf d0" "entry d0 = Map.empty" "0 < window d0" "0 < threshold d0" "sorted (map op_time ops)"
    and "detector_run process cleanup ops d0 = (out, d)" "(t, a, ev) \<in> set out"
  shows "relevant a \<and> threshold d0 \<le>
    card {item b | b u. Observe u b \<in> set ops \<and> relevant b \<and> key_of b = key_of a \<and> u \<le> t \<and> t < u + window d0}"
proof -
  obtain m where "\<forall>op\<in>set ops. op_time op \<le> m" using finite_nat_set_iff_bounded_le [of "op_time ` set ops"] by auto
  from good_run [OF assms(1-6) this] assms(7)
  have "relevant a \<and> threshold d0 \<le> card (recent ops (window d0) (key_of a) t)" by (fastforce simp: good_def)
  moreover have "recent ops (window d0) (key_of a) t =
      {item b | b u. Observe u b \<in> set ops \<and> relevant b \<and> key_of b = key_of a \<and> u \<le> t \<and> t < u + window d0}"
    by (auto simp: recent_def)
  ultimately show ?thesis by simp
qed

text \<open>The items of one key in a list of observations.\<close>

definition items_of :: "'k \<Rightarrow> (instant \<times> flow_observation) list \<Rightarrow> (instant \<times> 'x) list" where
  "items_of k bs = map (\<lambda>(t, a). (t, item a)) (filter (\<lambda>(t, a). relevant a \<and> key_of a = k) bs)"

definition current :: "'d \<Rightarrow> 'k \<Rightarrow> (instant \<times> 'x) list \<Rightarrow> 'x timed_set" where
  "current d k xs = (case entry d k of Some t \<Rightarrow> t | None \<Rightarrow> fresh_set (fst (hd xs)))"

lemma burst_quiet:
  assumes "good ops out w th now d" "0 < w" "0 < th" "sorted (map fst bs)" "\<forall>(t, a)\<in>set bs. now \<le> t \<and> t0 \<le> t"
    and "detector_run process cleanup (map (\<lambda>(t, a). Observe t a) bs) d = (outb, d')"
    and "\<forall>(l, a, ev)\<in>set (out @ outb). relevant a \<longrightarrow> key_of a = k \<longrightarrow> l + w \<le> t0"
  shows "quiet w th (current d k (items_of k bs)) (items_of k bs)"
  using assms(1,4-7)
proof (induction bs arbitrary: ops out now d outb)
  case (Cons b bs)
  obtain t a where b: "b = (t, a)" by (cases b)
  obtain ev d1 where pr: "process t a d = (ev, d1)" by fastforce
  obtain out1 where r: "detector_run process cleanup (map (\<lambda>(t, a). Observe t a) bs) d1 = (out1, d')" and ob: "outb = alert_of t a ev @ out1"
    using Cons.prems(4) b pr by (auto split: prod.splits)
  have g: "good (ops @ [Observe t a]) (out @ alert_of t a ev) w th t d1"
    using good_process [OF Cons.prems(1) _ assms(2,3) pr] Cons.prems(3) b by simp
  have IH: "quiet w th (current d1 k (items_of k bs)) (items_of k bs)"
    using Cons.prems(2,3,5) b ob by (intro Cons.IH [OF g _ _ r]) auto
  have wd: "wf d" "window d = w" "threshold d = th" using Cons.prems(1) by (simp_all add: good_def)
  show ?case
  proof (cases "relevant a \<and> key_of a = k")
    case False
    have "entry d1 k = entry d k"
    proof (cases "relevant a")
      case True
      obtain hit t' where "window_step (window d) (threshold d) t (item a) (case entry d (key_of a) of Some t \<Rightarrow> t | None \<Rightarrow> fresh_set t) = (hit, t')"
        by fastforce
      from step [OF wd(1) True this] True False pr show ?thesis by simp
    qed (use irrelevant [of a t d] pr in simp)
    moreover have "items_of k (b # bs) = items_of k bs" using False by (auto simp: items_of_def b)
    ultimately show ?thesis using IH by (simp add: current_def)
  next
    case True
    let ?t = "case entry d k of Some u \<Rightarrow> u | None \<Rightarrow> fresh_set t"
    have items: "items_of k (b # bs) = (t, item a) # items_of k bs" "current d k (items_of k (b # bs)) = ?t"
      using True by (simp_all add: items_of_def current_def b split: option.split)
    obtain hit t' where st: "window_step w th t (item a) ?t = (hit, t')" by fastforce
    have e: "(ev \<noteq> None) = hit" "entry d1 k = Some t'" using step [OF wd(1), of a t hit t'] True st pr wd by simp_all
    show ?thesis
    proof (cases rule: window_step_cases [where w = w and now = t and x = "item a" and t = ?t and th = th])
      case quiet
      then show ?thesis using st e IH items by (simp add: current_def)
    next
      case (held l)
      then obtain u where "entry d k = Some u" "ts_last_alerted u = Some l" by (auto simp: fresh_set_def split: option.splits)
      then obtain c x where "(l, c, x) \<in> set out" "relevant c" "key_of c = k" using Cons.prems(1) unfolding good_def good_entry_def by blast
      then have "l + w \<le> t0" using Cons.prems(5) by fastforce
      moreover have "t0 \<le> t" using Cons.prems(3) b by simp
      ultimately have False using held(3) by linarith
      then show ?thesis ..
    next
      case alert
      then have "(t, a, the ev) \<in> set outb" using st e ob by (auto simp: alert_of_def)
      then have "t + w \<le> t0" using Cons.prems(5) True by fastforce
      then have False using assms(2) Cons.prems(3) b by simp
      then show ?thesis ..
    qed
  qed
qed (simp add: items_of_def)

text \<open>
  A burst is detected: where a key shows \<open>2 \<cdot> threshold - 1\<close> distinct items within one window's length, it has an
  alert in the burst, or had one less than a window before it.
\<close>

lemma burst_detected:
  assumes "wf d0" "entry d0 = Map.empty" "0 < window d0" "0 < threshold d0"
    and "sorted (map op_time h @ map fst bs)" "\<forall>(t, a)\<in>set bs. t0 \<le> t \<and> t < t0 + window d0"
    and "detector_run process cleanup (h @ map (\<lambda>(t, a). Observe t a) bs) d0 = (out, d)"
    and "2 * threshold d0 - 1 \<le> card {item a | a t. (t, a) \<in> set bs \<and> relevant a \<and> key_of a = k}"
  shows "\<exists>(l, a, ev)\<in>set out. relevant a \<and> key_of a = k \<and> t0 < l + window d0"
proof (rule ccontr)
  assume no: "\<not> ?thesis"
  let ?w = "window d0" and ?th = "threshold d0"
  obtain out1 d1 out2 where r: "detector_run process cleanup h d0 = (out1, d1)" "detector_run process cleanup (map (\<lambda>(t, a). Observe t a) bs) d1 = (out2, d)"
    "out = out1 @ out2" using assms(7) by (auto simp: detector_run_append split: prod.splits)
  define now where "now = Max (insert 0 (op_time ` set h))"
  have "\<forall>op\<in>set h. op_time op \<le> now" by (simp add: now_def)
  then have g: "good h out1 ?w ?th now d1" using assms(1-5) r(1) by (intro good_run) (simp_all add: sorted_append)
  have "now \<le> t" if "(t, a) \<in> set bs" for t a
    using assms(5) that by (force simp: now_def sorted_append)
  moreover have "\<forall>(l, a, ev)\<in>set (out1 @ out2). relevant a \<longrightarrow> key_of a = k \<longrightarrow> l + ?w \<le> t0"
    using no r(3) by (simp add: not_less split_beta')
  ultimately have q: "quiet ?w ?th (current d1 k (items_of k bs)) (items_of k bs)"
    using assms(3-6) by (intro burst_quiet [OF g _ _ _ _ r(2), where ?t0.0 = t0]) (auto simp: sorted_append)
  have "finite (ts_items (current d1 k (items_of k bs))) \<and> card (ts_items (current d1 k (items_of k bs))) < ?th"
    using g assms(4) by (auto simp: current_def good_def good_entry_def fresh_set_def split: option.splits)
  then have "card (snd ` set (items_of k bs)) < 2 * ?th - 1"
    using assms(6) by (intro quiet_items [OF q, where ?t0.0 = t0]) (auto simp: items_of_def)
  moreover have "{item a | a t. (t, a) \<in> set bs \<and> relevant a \<and> key_of a = k} = snd ` set (items_of k bs)" by (force simp: items_of_def)
  ultimately show False using assms(8) by simp
qed

text \<open>Where the keys fit in, the alerts of a key are a window apart: the entry of a key remembers its last alert as long as it matters.\<close>

definition spaced :: "nat \<Rightarrow> alerts \<Rightarrow> bool" where
  "spaced w out = sorted_wrt (\<lambda>(t, a, _) (t', a', _). key_of a = key_of a' \<longrightarrow> t + w \<le> t') out"

definition keeps_alert :: "nat \<Rightarrow> instant \<Rightarrow> 'd \<Rightarrow> instant \<Rightarrow> 'k \<Rightarrow> bool" where
  "keeps_alert w now d l k \<longleftrightarrow> l + w \<le> now \<or> (\<exists>t l'. entry d k = Some t \<and> ts_last_alerted t = Some l' \<and> l \<le> l')"

definition remembered :: "nat \<Rightarrow> instant \<Rightarrow> 'd \<Rightarrow> alerts \<Rightarrow> bool" where
  "remembered w now d out \<longleftrightarrow> (\<forall>(l, a, ev)\<in>set out. keeps_alert w now d l (key_of a))"

lemma remembered_later: "remembered w now d out \<Longrightarrow> now \<le> now' \<Longrightarrow> remembered w now' d out"
  unfolding remembered_def keeps_alert_def by fastforce

lemma spaced_process:
  assumes g: "good ops out w th now d" and pos: "0 < w" "0 < th" and sp: "spaced w out" "remembered w now d out" and pr: "process now a d = (ev, d')"
  shows "spaced w (out @ alert_of now a ev) \<and> remembered w now d' (out @ alert_of now a ev) \<and> dom (entry d') \<subseteq> insert (key_of a) (dom (entry d))"
proof (cases "relevant a")
  case False
  then show ?thesis using irrelevant [of a now d] pr sp by (auto simp: alert_of_def)
next
  case True
  define t where "t = (case entry d (key_of a) of Some t \<Rightarrow> t | None \<Rightarrow> fresh_set now)"
  obtain hit t' where st: "window_step w th now (item a) t = (hit, t')" by fastforce
  have e: "(ev \<noteq> None) = hit" "entry d' = (entry d)(key_of a \<mapsto> t')"
    using step [OF _ True, of d now hit t'] st pr g by (simp_all add: t_def good_def)
  have kept: "keeps_alert w now d l (key_of b)" if "(l, b, x) \<in> set out" for l b x
    using sp(2) that unfolding remembered_def by fastforce
  have last: "l + w \<le> now \<or> (\<exists>l'. ts_last_alerted t = Some l' \<and> l \<le> l')" if "(l, b, x) \<in> set out" "key_of b = key_of a" for l b x
    using kept [OF that(1)] that(2) by (auto simp: keeps_alert_def t_def)
  have other: "keeps_alert w now d' l (key_of b)" if "(l, b, x) \<in> set out" "key_of b \<noteq> key_of a" for l b x
    using kept [OF that(1)] that(2) e(2) by (simp add: keeps_alert_def)
  have le: "l' \<le> now" if "ts_last_alerted t = Some l'" for l'
  proof -
    have "entry d (key_of a) = Some t" using that by (auto simp: t_def fresh_set_def split: option.splits)
    then have "good_entry ops out th now (key_of a) t" using g by (simp add: good_def)
    then show ?thesis using that by (auto simp: good_entry_def)
  qed
  have same: "remembered w now d' out" if "ts_last_alerted t' = ts_last_alerted t"
    unfolding remembered_def
  proof clarify
    fix l b x assume o: "(l, b, x) \<in> set out"
    show "keeps_alert w now d' l (key_of b)"
      using last [OF o] other [OF o] that e(2) by (cases "key_of b = key_of a") (auto simp: keeps_alert_def)
  qed
  show ?thesis
  proof (cases rule: window_step_cases [where w = w and now = now and x = "item a" and t = t and th = th])
    case quiet
    then have "ev = None" "ts_last_alerted t' = ts_last_alerted t" using st e(1) by auto
    then show ?thesis using same e(2) sp(1) by (auto simp: alert_of_def)
  next
    case (held l)
    then have "ev = None" "ts_last_alerted t' = ts_last_alerted t" using st e(1) by auto
    then show ?thesis using same e(2) sp(1) by (auto simp: alert_of_def)
  next
    case alert
    then have t': "ts_last_alerted t' = Some now" and al: "alert_of now a ev = [(now, a, the ev)]" using st e(1) by (auto simp: alert_of_def)
    have old: "l + w \<le> now" if "(l, b, x) \<in> set out" "key_of b = key_of a" for l b x
    proof -
      from last [OF that] consider "l + w \<le> now" | l' where "ts_last_alerted t = Some l'" "l \<le> l'" by blast
      then show ?thesis
      proof cases
        case 2
        then have "w \<le> now - l'" "l' \<le> now" using alert(2) le by blast+
        with 2 show ?thesis by linarith
      qed
    qed
    then have "spaced w (out @ alert_of now a ev)" using sp(1) unfolding al spaced_def by (fastforce simp: sorted_wrt_append)
    moreover have "keeps_alert w now d' l (key_of b)" if "(l, b, x) \<in> set (out @ alert_of now a ev)" for l b x
      using that old [of l b x] other [of l b x] t' e(2) unfolding al by (cases "key_of b = key_of a") (auto simp: keeps_alert_def)
    ultimately show ?thesis using e(2) unfolding remembered_def by auto
  qed
qed

lemma spaced_cleanup:
  assumes g: "good ops out w th now d" and sp: "remembered w now d out" and cap: "card (dom (entry d)) \<le> max_tracked d"
  shows "remembered w now (cleanup now d) out"
  unfolding remembered_def
proof clarify
  fix l a ev assume "(l, a, ev) \<in> set out"
  then have "keeps_alert w now d l (key_of a)" using sp unfolding remembered_def by fastforce
  then consider "l + w \<le> now" | t l' where "entry d (key_of a) = Some t" "ts_last_alerted t = Some l'" "l \<le> l'" by (auto simp: keeps_alert_def)
  then show "keeps_alert w now (cleanup now d) l (key_of a)"
  proof cases
    case 2
    have wd: "wf d" "window d = w" "good_entry ops out th now (key_of a) t" using g 2(1) by (simp_all add: good_def)
    then have le: "l' \<le> ts_window_start t" "ts_window_start t \<le> now" using 2(2) by (auto simp: good_entry_def)
    show ?thesis
    proof (cases "now - ts_window_start t < w")
      case True
      then show ?thesis using cleanup_keeps [OF wd(1) cap 2(1), of now] wd(2) 2(2,3) by (simp add: keeps_alert_def)
    next
      case False
      then have "l + w \<le> now" using le 2(3) by linarith
      then show ?thesis by (simp add: keeps_alert_def)
    qed
  qed (simp add: keeps_alert_def)
qed

lemma alerts_spaced:
  assumes "wf d0" "entry d0 = Map.empty" "0 < window d0" "0 < threshold d0" "sorted (map op_time ops)"
    and "detector_run process cleanup ops d0 = (out, d)" "\<forall>op\<in>set ops. op_time op \<le> now"
    and "card (key_of ` {a. \<exists>t. Observe t a \<in> set ops}) \<le> max_tracked d0"
  shows "spaced (window d0) out \<and> remembered (window d0) now d out \<and> dom (entry d) \<subseteq> key_of ` {a. \<exists>t. Observe t a \<in> set ops}
    \<and> max_tracked d = max_tracked d0"
  using assms(5-8)
proof (induction ops arbitrary: out d now rule: rev_induct)
  case Nil
  then show ?case using assms(2) by (simp add: spaced_def remembered_def)
next
  case (snoc op ops)
  let ?keys = "\<lambda>ops. key_of ` {a. \<exists>t. Observe t a \<in> set ops}"
  obtain out1 d1 where r: "detector_run process cleanup ops d0 = (out1, d1)" by fastforce
  have "{a. \<exists>t. Observe t a \<in> set (ops @ [op])} \<subseteq> (\<lambda>op. case op of Observe _ a \<Rightarrow> a | _ \<Rightarrow> undefined) ` set (ops @ [op])"
    by (force split: detector_op.splits)
  then have fin: "finite (?keys (ops @ [op]))" using finite_subset by blast
  have sub: "?keys ops \<subseteq> ?keys (ops @ [op])" by auto
  then have cap: "card (?keys ops) \<le> max_tracked d0" using snoc.prems(4) card_mono [OF fin sub] by linarith
  have t: "\<forall>op'\<in>set ops. op_time op' \<le> op_time op" "sorted (map op_time ops)" using snoc.prems(1) by (simp_all add: sorted_append)
  note IH = snoc.IH [OF t(2) r t(1) cap]
  have g: "good ops out1 (window d0) (threshold d0) (op_time op) d1" using good_run [OF assms(1-4) t(2) r t(1)] .
  have "finite (?keys ops)" using fin sub by (rule finite_subset [rotated])
  then have capd: "card (dom (entry d1)) \<le> max_tracked d1" using IH cap card_mono [of "?keys ops" "dom (entry d1)"] by linarith
  have "spaced (window d0) out \<and> remembered (window d0) (op_time op) d out \<and> dom (entry d) \<subseteq> ?keys (ops @ [op]) \<and> max_tracked d = max_tracked d0"
  proof (cases op)
    case (Observe u a)
    obtain ev where pr: "process u a d1 = (ev, d)" "out = out1 @ alert_of u a ev"
      using snoc.prems(2) r Observe by (auto simp: detector_run_append split: prod.splits)
    have "max_tracked d = max_tracked d1" using params(3) [of u a d1] pr by simp
    moreover have "?keys (ops @ [op]) = insert (key_of a) (?keys ops)" using Observe by auto
    moreover have "spaced (window d0) out \<and> remembered (window d0) u d out \<and> dom (entry d) \<subseteq> insert (key_of a) (dom (entry d1))"
      using IH pr spaced_process [of ops out1 "window d0" "threshold d0" u d1 a ev d] g assms(3,4) Observe by simp
    ultimately show ?thesis using IH Observe by simp blast
  next
    case (CleanUp u)
    have pr: "d = cleanup u d1" "out = out1" using snoc.prems(2) r CleanUp by (simp_all add: detector_run_append)
    have "wf d1" using g by (simp add: good_def)
    then have "dom (entry d) \<subseteq> dom (entry d1)" using cleanup_sub [of d1 u] pr by (simp add: map_le_implies_dom_le)
    moreover have "max_tracked d = max_tracked d1" using params(6) [of u d1] pr by simp
    moreover have "remembered (window d0) u d out" using IH pr spaced_cleanup [OF g _ capd] CleanUp by simp
    ultimately show ?thesis using IH pr(2) CleanUp by simp blast
  qed
  then show ?case using snoc.prems(3) remembered_later [of _ "op_time op" d out now] by simp
qed

corollary alerts_apart:
  assumes "wf d0" "entry d0 = Map.empty" "0 < window d0" "0 < threshold d0" "sorted (map op_time ops)"
    and "detector_run process cleanup ops d0 = (out, d)" "card (key_of ` {a. \<exists>t. Observe t a \<in> set ops}) \<le> max_tracked d0"
  shows "sorted_wrt (\<lambda>(t, a, _) (t', a', _). key_of a = key_of a' \<longrightarrow> t + window d0 \<le> t') out"
proof -
  obtain m where "\<forall>op\<in>set ops. op_time op \<le> m" using finite_nat_set_iff_bounded_le [of "op_time ` set ops"] by auto
  from alerts_spaced [OF assms(1-6) this assms(7)] show ?thesis by (simp add: spaced_def)
qed

end

end
