(* ===== verification/Fusion_Math.thy ===== *)
theory Fusion_Math
  imports Timed_Windows
begin

text \<open>
  Combining what several detectors say of one source: the confidence that at least one is right and
  the lengths of the fusion windows (\<^verbatim>\<open>domain/detection/fusion_math.rs\<close>), and the counters of the
  fusion (\<^verbatim>\<open>core/detection/metrics.rs\<close>).
\<close>

section \<open>Floating point\<close>

fun fsub :: "float_format \<Rightarrow> flt \<Rightarrow> flt \<Rightarrow> flt" where
  "fsub f (Fin a) (Fin b) = to_flt f (a - b)"
| "fsub f NaN _ = NaN"
| "fsub f _ NaN = NaN"
| "fsub f PosInf PosInf = NaN"
| "fsub f NegInf NegInf = NaN"
| "fsub f PosInf _ = PosInf"
| "fsub f NegInf _ = NegInf"
| "fsub f (Fin _) PosInf = NegInf"
| "fsub f (Fin _) NegInf = PosInf"

fun fdiv :: "float_format \<Rightarrow> flt \<Rightarrow> flt \<Rightarrow> flt" where
  "fdiv f (Fin a) (Fin b) = (if b = 0 then (if a = 0 then NaN else if a > 0 then PosInf else NegInf) else to_flt f (a / b))"
| "fdiv f NaN _ = NaN"
| "fdiv f _ NaN = NaN"
| "fdiv f (Fin _) _ = Fin 0"
| "fdiv f PosInf (Fin b) = (if b \<ge> 0 then PosInf else NegInf)"
| "fdiv f NegInf (Fin b) = (if b \<ge> 0 then NegInf else PosInf)"
| "fdiv f _ _ = NaN"

definition flt_less :: "flt \<Rightarrow> flt \<Rightarrow> bool" where
  "flt_less a b \<longleftrightarrow> fle a b \<and> \<not> fle b a"

fun fneg :: "flt \<Rightarrow> flt" where
  "fneg NaN = NaN"
| "fneg PosInf = NegInf"
| "fneg NegInf = PosInf"
| "fneg (Fin q) = Fin (- q)"

definition fadd :: "float_format \<Rightarrow> flt \<Rightarrow> flt \<Rightarrow> flt" where
  "fadd f a b = fsub f a (fneg b)"

text \<open>\<^verbatim>\<open>max\<close>, which prefers the number where the other is NaN.\<close>

definition fmax :: "flt \<Rightarrow> flt \<Rightarrow> flt" where
  "fmax a b = (if a = NaN then b else if b = NaN then a else if fle a b then b else a)"

text \<open>\<^verbatim>\<open>clamp(0.0, 1.0)\<close>, which leaves NaN as it is, and \<^verbatim>\<open>x as f32\<close>.\<close>

definition fclamp01 :: "flt \<Rightarrow> flt" where
  "fclamp01 x = (if x = NaN then NaN else if \<not> fle (Fin 0) x then Fin 0 else if \<not> fle x (Fin 1) then Fin 1 else x)"

fun f64_as_f32 :: "flt \<Rightarrow> flt" where
  "f64_as_f32 (Fin q) = to_flt f32 q"
| "f64_as_f32 x = x"

section \<open>Confidence\<close>

definition sanitize_confidence :: "flt \<Rightarrow> flt" where
  "sanitize_confidence c = (if c = NaN then Fin 0 else fclamp01 c)"

definition inverse_of :: "flt list \<Rightarrow> flt" where
  "inverse_of per_source = foldl (\<lambda>inv c. fmul f64 inv (fsub f64 (Fin 1) (sanitize_confidence c))) (Fin 1) per_source"

definition fused_confidence :: "flt list \<Rightarrow> flt" where
  "fused_confidence per_source =
     (if per_source = [] then Fin 0 else f64_as_f32 (fclamp01 (fsub f64 (Fin 1) (inverse_of per_source))))"

section \<open>Windows\<close>

record fusion_window_lengths =
  fw_suricata_secs :: u64
  fw_cv_secs :: u64
  fw_ml_secs :: u64
  fw_graph_secs :: u64

definition FUSION_WINDOW_MIN_SECS :: u64 where
  "FUSION_WINDOW_MIN_SECS = 1"

definition FUSION_WINDOW_MAX_SECS :: u64 where
  "FUSION_WINDOW_MAX_SECS = 30"

definition FusionWindowLengths_default :: fusion_window_lengths where
  "FusionWindowLengths_default = \<lparr>fw_suricata_secs = 10, fw_cv_secs = 8, fw_ml_secs = 2, fw_graph_secs = 5\<rparr>"

definition for_source :: "fusion_window_lengths \<Rightarrow> detection_source \<Rightarrow> u64" where
  "for_source w s =
     (let raw = (case s of Suricata \<Rightarrow> fw_suricata_secs w | Beaconing \<Rightarrow> fw_cv_secs w | MlSource \<Rightarrow> fw_ml_secs w | Correlation \<Rightarrow> fw_graph_secs w)
      in max FUSION_WINDOW_MIN_SECS (min raw FUSION_WINDOW_MAX_SECS))"

section \<open>Counters\<close>

record fusion_metrics =
  fm_total_emits :: u64
  fm_multi_source_emits :: u64
  fm_windows_evicted :: u64
  fm_ml_fires :: u64
  fm_suricata_fires :: u64
  fm_beaconing_fires :: u64
  fm_correlation_fires :: u64

definition FusionMetrics_new :: fusion_metrics where
  "FusionMetrics_new = \<lparr>fm_total_emits = 0, fm_multi_source_emits = 0, fm_windows_evicted = 0, fm_ml_fires = 0, fm_suricata_fires = 0,
     fm_beaconing_fires = 0, fm_correlation_fires = 0\<rparr>"

definition record_fire :: "detection_source \<Rightarrow> fusion_metrics \<Rightarrow> fusion_metrics" where
  "record_fire s m =
     (case s of
        MlSource \<Rightarrow> m\<lparr>fm_ml_fires := fm_ml_fires m + 1\<rparr>
      | Suricata \<Rightarrow> m\<lparr>fm_suricata_fires := fm_suricata_fires m + 1\<rparr>
      | Beaconing \<Rightarrow> m\<lparr>fm_beaconing_fires := fm_beaconing_fires m + 1\<rparr>
      | Correlation \<Rightarrow> m\<lparr>fm_correlation_fires := fm_correlation_fires m + 1\<rparr>)"

definition record_emit :: "nat \<Rightarrow> fusion_metrics \<Rightarrow> fusion_metrics" where
  "record_emit source_count m =
     (let m = m\<lparr>fm_total_emits := fm_total_emits m + 1\<rparr>
      in if source_count \<ge> 2 then m\<lparr>fm_multi_source_emits := fm_multi_source_emits m + 1\<rparr> else m)"

definition record_eviction :: "fusion_metrics \<Rightarrow> fusion_metrics" where
  "record_eviction m = m\<lparr>fm_windows_evicted := fm_windows_evicted m + 1\<rparr>"

definition saturating_sum :: "u64 list \<Rightarrow> u64" where
  "saturating_sum vs = foldl saturating_add 0 vs"

definition ratio :: "u64 \<Rightarrow> u64 \<Rightarrow> flt" where
  "ratio numerator denominator = (if denominator = 0 then Fin 0 else fdiv f64 (u64_as_f64 numerator) (u64_as_f64 denominator))"

record fusion_metrics_snapshot =
  fs_total_emits :: u64
  fs_multi_source_emits :: u64
  fs_agreed_rate :: flt
  fs_windows_evicted :: u64
  fs_window_drop_rate :: flt
  fs_per_source_fires :: "u64 \<times> u64 \<times> u64 \<times> u64"
  fs_per_source_fire_rate :: "flt \<times> flt \<times> flt \<times> flt"

text \<open>The per-source values are in the order ML, Suricata, beaconing, correlation.\<close>

definition fusion_snapshot :: "fusion_metrics \<Rightarrow> fusion_metrics_snapshot" where
  "fusion_snapshot m =
     (let ml = fm_ml_fires m; su = fm_suricata_fires m; be = fm_beaconing_fires m; co = fm_correlation_fires m;
          total_fires = saturating_sum [ml, su, be, co]
      in \<lparr>fs_total_emits = fm_total_emits m, fs_multi_source_emits = fm_multi_source_emits m,
          fs_agreed_rate = ratio (fm_multi_source_emits m) (fm_total_emits m), fs_windows_evicted = fm_windows_evicted m,
          fs_window_drop_rate = ratio (fm_windows_evicted m) (saturating_sum [fm_total_emits m, fm_windows_evicted m]),
          fs_per_source_fires = (ml, su, be, co),
          fs_per_source_fire_rate = (ratio ml total_fires, ratio su total_fires, ratio be total_fires, ratio co total_fires)\<rparr>)"

section \<open>Rounding twice\<close>

definition representable :: "float_format \<Rightarrow> rat \<Rightarrow> bool" where
  "representable f x \<longleftrightarrow> (\<exists>n e. x = of_nat n * 2 powi e \<and> n < 2 ^ prec f \<and> min_exp f \<le> e)"

lemma round_representable:
  assumes "representable f x"
  shows "round_pos f x = x"
proof -
  obtain n e where x: "x = of_nat n * 2 powi e" "n < 2 ^ prec f" "min_exp f \<le> e" using assms by (auto simp: representable_def)
  show ?thesis
  proof (cases "n = 0")
    case False
    define e' where e': "e' = max (exponent x - int (prec f) + 1) (min_exp f)"
    have pos: "0 < x" using False x(1) by simp
    have "(2 :: rat) powi exponent x \<le> x" using pos by (rule exponent_bounds(1))
    also have "x < of_nat (2 ^ prec f) * 2 powi e" using x(1,2) by (simp only: x(1)) (intro mult_strict_right_mono, simp_all only: of_nat_less_iff, simp)
    also have "\<dots> = 2 powi (int (prec f) + e)" by (simp add: power_int_add)
    finally have "exponent x < int (prec f) + e" by (rule powi_less_imp)
    then have "e' \<le> e" using x(3) by (simp add: e')
    then obtain k where k: "e = e' + int k" using zle_iff_zadd by blast
    have "x = of_nat n * (2 powi e' * 2 ^ k)" using x(1) k by (simp add: power_int_add)
    then have "x / 2 powi e' = of_int (int n * 2 ^ k)" by simp
    then have "round_half_even (x / 2 powi e') = int n * 2 ^ k" by (simp only: round_half_even_int)
    moreover have "of_int (int n * 2 ^ k) * 2 powi e' = x" using \<open>x = of_nat n * (2 powi e' * 2 ^ k)\<close> by simp
    ultimately show ?thesis using pos by (simp add: round_pos_def Let_def e')
  qed (simp add: x(1) round_pos_def)
qed

lemma representable_round:
  assumes "0 < prec f"
  shows "representable f (round_pos f q)"
proof (cases "q \<le> 0")
  case True
  then show ?thesis unfolding representable_def by (intro exI [of _ 0] exI [of _ "min_exp f"]) (simp add: round_pos_def)
next
  case False
  let ?e = "max (exponent q - int (prec f) + 1) (min_exp f)"
  define m where "m = round_half_even (q / 2 powi ?e)"
  have "0 \<le> m" unfolding m_def by (rule round_half_even_ge) (use False in simp)
  have "q < 2 powi (exponent q + 1)" by (rule exponent_bounds(2)) (use False in simp)
  also have "\<dots> \<le> 2 powi (?e + int (prec f))" by (rule power_int_increasing) auto
  finally have "q / 2 powi ?e \<le> 2 powi (int (prec f))" by (simp add: power_int_add divide_le_eq mult.commute less_imp_le)
  then have "m \<le> 2 ^ prec f" unfolding m_def by (intro round_half_even_le) simp
  have r: "round_pos f q = of_nat (nat m) * 2 powi ?e" using False \<open>0 \<le> m\<close> by (simp add: round_pos_def Let_def m_def)
  show ?thesis
  proof (cases "m = 2 ^ prec f")
    case True
    have "round_pos f q = of_nat (2 ^ (prec f - 1)) * 2 powi (?e + 1)"
      unfolding r True using assms by (cases "prec f") (simp_all add: power_int_add)
    moreover have "2 ^ (prec f - 1) < (2 :: nat) ^ prec f" using assms by simp
    moreover have "min_exp f \<le> ?e + 1" by simp
    ultimately show ?thesis unfolding representable_def by blast
  next
    case False
    then have "nat m < 2 ^ prec f" using \<open>m \<le> 2 ^ prec f\<close> \<open>0 \<le> m\<close> by (simp add: nat_less_iff)
    moreover have "min_exp f \<le> ?e" by simp
    ultimately show ?thesis unfolding representable_def r by blast
  qed
qed

corollary round_round: "0 < prec f \<Longrightarrow> round_pos f (round_pos f q) = round_pos f q"
  by (simp add: round_representable representable_round)

section \<open>The unit interval\<close>

definition in_unit :: "flt \<Rightarrow> bool" where
  "in_unit x \<longleftrightarrow> fle (Fin 0) x \<and> fle x (Fin 1)"

lemma in_unit_iff: "in_unit x \<longleftrightarrow> (\<exists>q. x = Fin q \<and> 0 \<le> q \<and> q \<le> 1)"
  by (cases x) (auto simp: in_unit_def)

lemma round_unit:
  assumes "0 \<le> q" "q \<le> 1" "f \<in> {f32, f64}"
  shows "to_flt f q = Fin (round_pos f q)" "0 \<le> round_pos f q" "round_pos f q \<le> 1"
proof -
  have "(0 :: rat) < 2 powi max_exp f" by (simp add: zero_less_power_int)
  then show "to_flt f q = Fin (round_pos f q)" "0 \<le> round_pos f q" "round_pos f q \<le> 1"
    using assms to_flt_unit [of q f] by (cases "q = 0"; simp add: to_flt_def round_pos_def not_le)+
qed

lemma round_unit_mono:
  assumes "0 \<le> p" "p \<le> q" "q \<le> 1" "f \<in> {f32, f64}"
  shows "round_pos f p \<le> round_pos f q"
proof (cases "p = 0")
  case True
  then show ?thesis using round_unit [of q f] assms by (simp add: round_pos_def)
next
  case False
  then show ?thesis using assms by (intro round_pos_mono) auto
qed

lemma fclamp01_unit: "x \<noteq> NaN \<Longrightarrow> in_unit (fclamp01 x)" "in_unit x \<Longrightarrow> fclamp01 x = x"
  by (cases x; auto simp: fclamp01_def in_unit_def)+

lemma sanitize_unit: "in_unit (sanitize_confidence c)"
  using fclamp01_unit(1) [of c] by (simp add: sanitize_confidence_def) (simp add: in_unit_def)

lemma complement_unit:
  assumes "in_unit x"
  shows "in_unit (fsub f64 (Fin 1) x)"
  using assms round_unit [of "1 - _" f64] by (auto simp: in_unit_iff)

lemma complement_antimono:
  assumes "in_unit x" "in_unit y" "fle x y"
  shows "fle (fsub f64 (Fin 1) y) (fsub f64 (Fin 1) x)"
  using assms round_unit [of "1 - _" f64] round_unit_mono [of "1 - _" "1 - _" f64] by (auto simp: in_unit_iff)

text \<open>A confidence as the product carries it: a value of the format in the unit interval.\<close>

definition unit64 :: "flt \<Rightarrow> bool" where
  "unit64 x \<longleftrightarrow> (\<exists>q. x = Fin q \<and> 0 \<le> q \<and> q \<le> 1 \<and> representable f64 q)"

lemma unit64_in_unit: "unit64 x \<Longrightarrow> in_unit x"
  by (auto simp: unit64_def in_unit_iff)

lemma unit64_one: "unit64 (Fin 1)"
proof -
  have "representable f64 1" unfolding representable_def by (intro exI [of _ 1] exI [of _ 0]) simp
  then show ?thesis by (auto simp: unit64_def)
qed

lemma fmul_shrinks:
  assumes "unit64 x" "in_unit y"
  shows "unit64 (fmul f64 x y)" "fle (fmul f64 x y) x"
proof -
  obtain p q where pq: "x = Fin p" "0 \<le> p" "p \<le> 1" "representable f64 p" "y = Fin q" "0 \<le> q" "q \<le> 1"
    using assms by (auto simp: unit64_def in_unit_iff)
  have u: "0 \<le> p * q" "p * q \<le> p" using pq by (simp_all add: mult_left_le)
  note r = round_unit [of "p * q" f64] and m = round_unit_mono [of "p * q" p f64]
  show "unit64 (fmul f64 x y)" using r u pq representable_round [of f64 "p * q"] by (auto simp: unit64_def)
  show "fle (fmul f64 x y) x" using r m u pq round_representable [OF pq(4)] by simp
qed

lemma fle_trans: "fle x y \<Longrightarrow> fle y z \<Longrightarrow> fle x z"
  by (cases x; cases y; cases z) auto

lemma inverse_shrinks:
  "unit64 x \<Longrightarrow> unit64 (foldl (\<lambda>inv c. fmul f64 inv (fsub f64 (Fin 1) (sanitize_confidence c))) x cs)
    \<and> fle (foldl (\<lambda>inv c. fmul f64 inv (fsub f64 (Fin 1) (sanitize_confidence c))) x cs) x"
proof (induction cs arbitrary: x)
  case Nil
  then show ?case by (auto simp: unit64_def)
next
  case (Cons c cs)
  note s = fmul_shrinks [OF Cons.prems complement_unit [OF sanitize_unit [of c]]]
  from Cons.IH [OF s(1)] s(2) show ?case by (auto intro: fle_trans)
qed

lemma f64_as_f32_mono: "in_unit x \<Longrightarrow> in_unit y \<Longrightarrow> fle x y \<Longrightarrow> fle (f64_as_f32 x) (f64_as_f32 y)"
  using round_unit [of _ f32] round_unit_mono [of _ _ f32] by (auto simp: in_unit_iff)

lemma f64_as_f32_unit: "in_unit x \<Longrightarrow> in_unit (f64_as_f32 x)"
  using round_unit [of _ f32] by (auto simp: in_unit_iff)

lemma fused_append:
  "in_unit (fused_confidence per_source) \<and> fle (fused_confidence per_source) (fused_confidence (per_source @ others))"
proof -
  define x where "x = inverse_of per_source"
  define y where "y = inverse_of (per_source @ others)"
  have x: "unit64 x" and y: "unit64 y" "fle y x"
    using inverse_shrinks [OF unit64_one, of per_source] inverse_shrinks [of x others] by (simp_all add: x_def y_def inverse_of_def)
  let ?c = "\<lambda>x. fsub f64 (Fin 1) x"
  have u: "in_unit (?c x)" "in_unit (?c y)" and le: "fle (?c x) (?c y)"
    using x y complement_unit complement_antimono unit64_in_unit by blast+
  have "fused_confidence (per_source @ others) = (if per_source @ others = [] then Fin 0 else f64_as_f32 (?c y))"
    "fused_confidence per_source = (if per_source = [] then Fin 0 else f64_as_f32 (?c x))"
    using u fclamp01_unit(2) by (simp_all add: fused_confidence_def x_def y_def)
  then show ?thesis using u le f64_as_f32_mono f64_as_f32_unit by (auto simp: in_unit_def)
qed

section \<open>Properties\<close>

text \<open>
  Fusing confidences is bounded and monotone, in the arithmetic of the machine: whatever the detectors report,
  infinities and NaN included, the fused confidence is a number between 0 and 1, and hearing of further detectors never
  lowers it.
\<close>

theorem fused_confidence_is_monotone:
  "in_unit (fused_confidence per_source) \<and> fle (fused_confidence per_source) (fused_confidence (per_source @ others))"
  by (rule fused_append)

end
