(* ===== verification/Feature_Registry.thy ===== *)
theory Feature_Registry
  imports Fusion_Math "HOL-Library.Char_ord" "HOL-Library.List_Lexorder"
begin

text \<open>
  The statistics of a flow and the registry of the features computed from them
  (\<^verbatim>\<open>domain/detection/feature_extractor.rs\<close>): each feature has several names, as the data sets and the
  models of the field spell it, and one function of the statistics. Values are \<^verbatim>\<open>f64\<close>.
\<close>

record feature_stats =
  fs_dst_port :: flt
  fs_protocol :: flt
  fs_duration_us :: flt
  fs_fwd_count :: flt
  fs_bwd_count :: flt
  fs_total_count :: flt
  fs_fwd_total_bytes :: flt
  fs_bwd_total_bytes :: flt
  fs_total_bytes :: flt
  fs_duration_s :: flt
  fs_fwd_len_max :: flt
  fs_fwd_len_min :: flt
  fs_fwd_len_mean :: flt
  fs_fwd_len_std :: flt
  fs_bwd_len_max :: flt
  fs_bwd_len_min :: flt
  fs_bwd_len_mean :: flt
  fs_bwd_len_std :: flt
  fs_all_len_max :: flt
  fs_all_len_min :: flt
  fs_all_len_mean :: flt
  fs_all_len_std :: flt
  fs_flow_iat_max :: flt
  fs_flow_iat_min :: flt
  fs_flow_iat_mean :: flt
  fs_flow_iat_std :: flt
  fs_fwd_iat_total :: flt
  fs_fwd_iat_max :: flt
  fs_fwd_iat_min :: flt
  fs_fwd_iat_mean :: flt
  fs_fwd_iat_std :: flt
  fs_bwd_iat_total :: flt
  fs_bwd_iat_max :: flt
  fs_bwd_iat_min :: flt
  fs_bwd_iat_mean :: flt
  fs_bwd_iat_std :: flt
  fs_fwd_psh :: flt
  fs_bwd_psh :: flt
  fs_fwd_urg :: flt
  fs_bwd_urg :: flt
  fs_fwd_header_bytes :: flt
  fs_bwd_header_bytes :: flt
  fs_fin_count :: flt
  fs_syn_count :: flt
  fs_rst_count :: flt
  fs_psh_count :: flt
  fs_ack_count :: flt
  fs_urg_count :: flt
  fs_cwe_count :: flt
  fs_ece_count :: flt
  fs_fwd_avg_bytes_bulk :: flt
  fs_fwd_avg_packets_bulk :: flt
  fs_fwd_avg_bulk_rate :: flt
  fs_bwd_avg_bytes_bulk :: flt
  fs_bwd_avg_packets_bulk :: flt
  fs_bwd_avg_bulk_rate :: flt
  fs_init_win_bytes_fwd :: flt
  fs_init_win_bytes_bwd :: flt
  fs_act_data_pkt_fwd :: flt
  fs_min_seg_size_forward :: flt
  fs_active_max :: flt
  fs_active_min :: flt
  fs_active_mean :: flt
  fs_active_std :: flt
  fs_idle_max :: flt
  fs_idle_min :: flt
  fs_idle_mean :: flt
  fs_idle_std :: flt
  fs_fwd_bwd_bytes_ratio :: flt
  fs_fwd_iat_skewness :: flt

type_synonym feature_getter = "feature_stats \<Rightarrow> flt"

definition reg_safe_div :: "flt \<Rightarrow> flt \<Rightarrow> flt" where
  "reg_safe_div a b = (if fle b (Fin 0) \<or> b = NaN then Fin 0 else fdiv f64 a b)"

definition reg_insert :: "string list \<times> feature_getter \<Rightarrow> (string \<Rightarrow> feature_getter option) \<Rightarrow> string \<Rightarrow> feature_getter option" where
  "reg_insert entry m = fold (\<lambda>n m. m(n \<mapsto> snd entry)) (fst entry) m"

definition feature_groups :: "(string list \<times> feature_getter) list" where
  "feature_groups =
     [([''Destination Port'', ''Dst Port'', ''dst_port''], fs_dst_port),
      ([''Protocol'', ''protocol''], fs_protocol),
      ([''Flow Duration'', ''flow_duration''], fs_duration_us),
      ([''Total Fwd Packets'', ''Tot Fwd Pkts'', ''fwd_packets'', ''Subflow Fwd Packets''], fs_fwd_count),
      ([''Total Backward Packets'', ''Tot Bwd Pkts'', ''bwd_packets'', ''Subflow Bwd Packets''], fs_bwd_count),
      ([''Total Length of Fwd Packets'', ''TotLen Fwd Pkts'', ''fwd_bytes'', ''Subflow Fwd Bytes''], fs_fwd_total_bytes),
      ([''Total Length of Bwd Packets'', ''TotLen Bwd Pkts'', ''bwd_bytes'', ''Subflow Bwd Bytes''], fs_bwd_total_bytes),
      ([''Fwd Packet Length Max''], fs_fwd_len_max),
      ([''Fwd Packet Length Min''], fs_fwd_len_min),
      ([''Fwd Packet Length Mean'', ''Fwd Pkt Len Mean'', ''fwd_pkt_len_mean''], fs_fwd_len_mean),
      ([''Fwd Packet Length Std'', ''Fwd Pkt Len Std'', ''fwd_pkt_len_std''], fs_fwd_len_std),
      ([''Bwd Packet Length Max''], fs_bwd_len_max),
      ([''Bwd Packet Length Min''], fs_bwd_len_min),
      ([''Bwd Packet Length Mean'', ''Bwd Pkt Len Mean'', ''bwd_pkt_len_mean''], fs_bwd_len_mean),
      ([''Bwd Packet Length Std'', ''Bwd Pkt Len Std'', ''bwd_pkt_len_std''], fs_bwd_len_std),
      ([''Flow Bytes/s'', ''Flow Byts/s'', ''flow_bytes_per_sec''], (\<lambda>s. reg_safe_div (fs_total_bytes s) (fs_duration_s s))),
      ([''Flow Packets/s'', ''Flow Pkts/s'', ''flow_pkts_per_sec''], (\<lambda>s. reg_safe_div (fs_total_count s) (fs_duration_s s))),
      ([''Flow IAT Mean'', ''flow_iat_mean''], fs_flow_iat_mean),
      ([''Flow IAT Std'', ''flow_iat_std''], fs_flow_iat_std),
      ([''Flow IAT Max''], fs_flow_iat_max),
      ([''Flow IAT Min''], fs_flow_iat_min),
      ([''Fwd IAT Total''], fs_fwd_iat_total),
      ([''Fwd IAT Mean'', ''fwd_iat_mean''], fs_fwd_iat_mean),
      ([''Fwd IAT Std'', ''fwd_iat_std''], fs_fwd_iat_std),
      ([''Fwd IAT Max''], fs_fwd_iat_max),
      ([''Fwd IAT Min''], fs_fwd_iat_min),
      ([''Bwd IAT Total''], fs_bwd_iat_total),
      ([''Bwd IAT Mean'', ''bwd_iat_mean''], fs_bwd_iat_mean),
      ([''Bwd IAT Std'', ''bwd_iat_std''], fs_bwd_iat_std),
      ([''Bwd IAT Max''], fs_bwd_iat_max),
      ([''Bwd IAT Min''], fs_bwd_iat_min),
      ([''Fwd PSH Flags''], fs_fwd_psh),
      ([''Bwd PSH Flags''], fs_bwd_psh),
      ([''Fwd URG Flags''], fs_fwd_urg),
      ([''Bwd URG Flags''], fs_bwd_urg),
      ([''Fwd Header Length'', ''Fwd Header Length.1''], fs_fwd_header_bytes),
      ([''Bwd Header Length''], fs_bwd_header_bytes),
      ([''Fwd Packets/s''], (\<lambda>s. reg_safe_div (fs_fwd_count s) (fs_duration_s s))),
      ([''Bwd Packets/s''], (\<lambda>s. reg_safe_div (fs_bwd_count s) (fs_duration_s s))),
      ([''Min Packet Length''], fs_all_len_min),
      ([''Max Packet Length''], fs_all_len_max),
      ([''Packet Length Mean'', ''Pkt Len Mean'', ''pkt_len_mean''], fs_all_len_mean),
      ([''Packet Length Std'', ''Pkt Len Std'', ''pkt_len_std''], fs_all_len_std),
      ([''Packet Length Variance'', ''pkt_len_variance''], (\<lambda>s. fmul f64 (fs_all_len_std s) (fs_all_len_std s))),
      ([''FIN Flag Count'', ''FIN Flag Cnt'', ''fin_flag_cnt''], fs_fin_count),
      ([''SYN Flag Count'', ''SYN Flag Cnt'', ''syn_flag_cnt''], fs_syn_count),
      ([''RST Flag Count'', ''RST Flag Cnt'', ''rst_flag_cnt''], fs_rst_count),
      ([''PSH Flag Count'', ''PSH Flag Cnt'', ''psh_flag_cnt''], fs_psh_count),
      ([''ACK Flag Count'', ''ACK Flag Cnt'', ''ack_flag_cnt''], fs_ack_count),
      ([''URG Flag Count''], fs_urg_count),
      ([''CWE Flag Count''], fs_cwe_count),
      ([''ECE Flag Count''], fs_ece_count),
      ([''Down/Up Ratio''], (\<lambda>s. reg_safe_div (fs_bwd_count s) (fs_fwd_count s))),
      ([''Average Packet Size''], (\<lambda>s. reg_safe_div (fs_total_bytes s) (fs_total_count s))),
      ([''Avg Fwd Segment Size''], (\<lambda>s. reg_safe_div (fs_fwd_total_bytes s) (fs_fwd_count s))),
      ([''Avg Bwd Segment Size''], (\<lambda>s. reg_safe_div (fs_bwd_total_bytes s) (fs_bwd_count s))),
      ([''Fwd Avg Bytes/Bulk''], fs_fwd_avg_bytes_bulk),
      ([''Fwd Avg Packets/Bulk''], fs_fwd_avg_packets_bulk),
      ([''Fwd Avg Bulk Rate''], fs_fwd_avg_bulk_rate),
      ([''Bwd Avg Bytes/Bulk''], fs_bwd_avg_bytes_bulk),
      ([''Bwd Avg Packets/Bulk''], fs_bwd_avg_packets_bulk),
      ([''Bwd Avg Bulk Rate''], fs_bwd_avg_bulk_rate),
      ([''Init_Win_bytes_forward'', ''fwd_win_bytes''], fs_init_win_bytes_fwd),
      ([''Init_Win_bytes_backward'', ''bwd_win_bytes''], fs_init_win_bytes_bwd),
      ([''act_data_pkt_fwd'', ''fwd_act_data_pkts''], fs_act_data_pkt_fwd),
      ([''min_seg_size_forward'', ''fwd_seg_size_min''], fs_min_seg_size_forward),
      ([''Active Mean''], fs_active_mean),
      ([''Active Std''], fs_active_std),
      ([''Active Max''], fs_active_max),
      ([''Active Min''], fs_active_min),
      ([''Idle Mean''], fs_idle_mean),
      ([''Idle Std''], fs_idle_std),
      ([''Idle Max''], fs_idle_max),
      ([''Idle Min''], fs_idle_min),
      ([''fwd_bwd_bytes_ratio''], fs_fwd_bwd_bytes_ratio),
      ([''fwd_iat_skewness''], fs_fwd_iat_skewness),
      ([''iat_cv''], (\<lambda>s. reg_safe_div (fs_flow_iat_std s) (fs_flow_iat_mean s)))]"

definition FEATURE_REGISTRY :: "string \<Rightarrow> feature_getter option" where
  "FEATURE_REGISTRY = fold reg_insert feature_groups Map.empty"

definition feature_is_known :: "string \<Rightarrow> bool" where
  "feature_is_known name \<longleftrightarrow> FEATURE_REGISTRY name \<noteq> None"

definition feature_registry_names :: "string list" where
  "feature_registry_names = sort (remdups (concat (map fst feature_groups)))"

definition get_feature :: "feature_stats \<Rightarrow> string \<Rightarrow> flt" where
  "get_feature s name = (case FEATURE_REGISTRY name of Some g \<Rightarrow> g s | None \<Rightarrow> Fin 0)"

text \<open>The features of a flow, in the order of the names.\<close>

definition extract_from_stats :: "feature_stats \<Rightarrow> string list \<Rightarrow> flt list" where
  "extract_from_stats s names = map (\<lambda>n. get_feature s (trim n)) names"

section \<open>The names of the registry\<close>

lemma dom_reg_insert: "dom (reg_insert entry m) = set (fst entry) \<union> dom m"
proof -
  have "dom (fold (\<lambda>n m. m(n \<mapsto> g)) ns m) = set ns \<union> dom m" for g :: feature_getter and ns and m :: "string \<Rightarrow> feature_getter option"
    by (induction ns arbitrary: m) auto
  then show ?thesis by (simp add: reg_insert_def)
qed

lemma feature_is_known_iff: "feature_is_known name \<longleftrightarrow> name \<in> set feature_registry_names"
proof -
  have "dom (fold reg_insert gs m) = \<Union> (set ` fst ` set gs) \<union> dom m" for gs m
    by (induction gs arbitrary: m) (auto simp: dom_reg_insert)
  then have "dom FEATURE_REGISTRY = set (concat (map fst feature_groups))" by (simp add: FEATURE_REGISTRY_def)
  then show ?thesis by (auto simp: feature_is_known_def feature_registry_names_def)
qed

lemma registered_name: "entry \<in> set feature_groups \<Longrightarrow> n \<in> set (fst entry) \<Longrightarrow> n \<in> set feature_registry_names"
  by (auto simp: feature_registry_names_def)

lemma dst_port_known: "''dst_port'' \<in> set feature_registry_names"
proof (rule registered_name)
  show "([''Destination Port'', ''Dst Port'', ''dst_port''], fs_dst_port) \<in> set feature_groups"
    unfolding feature_groups_def by (rule list.set_intros(1))
qed simp

end
