(* ===== verification/Rust_Parse.thy ===== *)
theory Rust_Parse
  imports Rust_Float Rust_Net Rust_Text
begin

text \<open>
  Reading numbers from text with \<^verbatim>\<open>str::parse\<close>: unsigned integers of a width, and floating-point
  numbers, whose decimal value is rounded once to the format.
\<close>

section \<open>Unsigned integers\<close>

fun decimal_value :: "nat \<Rightarrow> string \<Rightarrow> nat option" where
  "decimal_value acc [] = Some acc"
| "decimal_value acc (c # cs) = (case digit_of 10 c of None \<Rightarrow> None | Some d \<Rightarrow> decimal_value (10 * acc + d) cs)"

definition parse_unsigned :: "nat \<Rightarrow> string \<Rightarrow> nat option" where
  "parse_unsigned bits s =
     (let digits = (case s of c # cs \<Rightarrow> if c = CHR ''+'' then cs else s | [] \<Rightarrow> s)
      in if digits = [] then None
         else case decimal_value 0 digits of
                None \<Rightarrow> None
              | Some v \<Rightarrow> if v < 2 ^ bits then Some v else None)"

text \<open>Writing a natural number.\<close>

function show_nat :: "nat \<Rightarrow> string" where
  "show_nat n = (if n < 10 then [decimal_digit n] else show_nat (n div 10) @ [decimal_digit (n mod 10)])"
  by auto
termination by (relation "measure id") auto

declare show_nat.simps [simp del]

lemma decimal_value_append:
  "decimal_value acc (xs @ [c]) = (case decimal_value acc xs of None \<Rightarrow> None | Some v \<Rightarrow> map_option (\<lambda>d. 10 * v + d) (digit_of 10 c))"
  by (induction xs arbitrary: acc) (auto split: option.splits)

lemma decimal_value_show_nat [simp]: "decimal_value 0 (show_nat n) = Some n"
proof (induction n rule: show_nat.induct)
  case (1 n)
  then show ?case
    by (cases "n < 10") (simp_all add: show_nat.simps [of n] decimal_value_append digit_of_decimal)
qed

lemma show_nat_not_Nil [simp]: "show_nat n \<noteq> []"
  by (subst show_nat.simps) simp

lemma show_nat_chars: "x \<in> set (show_nat n) \<Longrightarrow> \<exists>d<10. x = decimal_digit d"
proof (induction n rule: show_nat.induct)
  case (1 n)
  then show ?case using digit_ex [of "n mod 10"] by (cases "n < 10") (auto simp: show_nat.simps [of n])
qed

text \<open>What is written as a number is read as it.\<close>

lemma parse_show_nat [simp]: "n < 2 ^ bits \<Longrightarrow> parse_unsigned bits (show_nat n) = Some n"
proof -
  assume n: "n < 2 ^ bits"
  have "hd (show_nat n) \<noteq> CHR ''+''"
  proof
    assume "hd (show_nat n) = CHR ''+''"
    then obtain d where "d < 10" "CHR ''+'' = decimal_digit d" using show_nat_chars [of "hd (show_nat n)" n] by (metis hd_in_set show_nat_not_Nil)
    then have "(of_char (CHR ''+'') :: nat) = 48 + d" by (simp add: of_char_decimal_digit)
    moreover have "(of_char (CHR ''+'') :: nat) = 43" by code_simp
    ultimately show False by simp
  qed
  then obtain c cs where "show_nat n = c # cs" "c \<noteq> CHR ''+''" by (metis list.collapse show_nat_not_Nil)
  then show ?thesis using n decimal_value_show_nat [of n] by (simp add: parse_unsigned_def)
qed

section \<open>Floating-point numbers\<close>

fun split_sign :: "string \<Rightarrow> bool \<times> string" where
  "split_sign [] = (False, [])"
| "split_sign (c # cs) = (if c = CHR ''-'' then (True, cs) else if c = CHR ''+'' then (False, cs) else (False, c # cs))"

definition is_digit :: "char \<Rightarrow> bool" where
  "is_digit c \<longleftrightarrow> digit_of 10 c \<noteq> None"

definition digits_value :: "string \<Rightarrow> nat" where
  "digits_value cs = (case decimal_value 0 cs of Some v \<Rightarrow> v | None \<Rightarrow> 0)"

text \<open>An exponent, if there is one, ends the text.\<close>

definition parse_exponent :: "string \<Rightarrow> int option" where
  "parse_exponent s =
     (case s of
        [] \<Rightarrow> Some 0
      | c # cs \<Rightarrow>
          if c = CHR ''e'' \<or> c = CHR ''E'' then
            (let (neg, ds) = split_sign cs
             in if ds \<noteq> [] \<and> list_all is_digit ds
                then Some ((if neg then - 1 else 1) * int (digits_value ds)) else None)
          else None)"

definition parse_decimal :: "string \<Rightarrow> rat option" where
  "parse_decimal s =
     (let ip = takeWhile is_digit s; rest = dropWhile is_digit s;
          (fp, rest) = (case rest of c # cs \<Rightarrow> if c = CHR ''.'' then (takeWhile is_digit cs, dropWhile is_digit cs) else ([], rest)
                        | [] \<Rightarrow> ([], rest))
      in if ip = [] \<and> fp = [] then None
         else map_option (\<lambda>e. of_nat (digits_value (ip @ fp)) * 10 powi (e - int (length fp))) (parse_exponent rest))"

definition parse_float :: "float_format \<Rightarrow> string \<Rightarrow> flt option" where
  "parse_float f s =
     (let (neg, t) = split_sign s; lower = to_ascii_lowercase t
      in if lower = ''inf'' \<or> lower = ''infinity'' then Some (if neg then NegInf else PosInf)
         else if lower = ''nan'' then Some NaN
         else map_option (\<lambda>q. to_flt f (if neg then - q else q)) (parse_decimal t))"

fun is_finite :: "flt \<Rightarrow> bool" where
  "is_finite (Fin _) = True"
| "is_finite _ = False"

text \<open>Whether a text is a number does not depend on the format.\<close>

lemma parse_float_formats: "parse_float f s = None \<longleftrightarrow> parse_float g s = None"
  by (auto simp: parse_float_def Let_def split: prod.splits)

end
