(* ===== verification/Model_Manifest.thy ===== *)
theory Model_Manifest
  imports Feature_Registry Rust_Parse
begin

text \<open>
  The manifest of an uploaded detection model (\<^verbatim>\<open>domain/detection/manifest.rs\<close>): the files of the
  model, its stages, which feed features and each other's outputs into ONNX models, the outputs of the pipeline and
  the rules that make detections of them. \<open>manifest_validate\<close> decides what is installed. An error has the constant
  part of its text and the names it mentions.
\<close>

section \<open>Paths\<close>

text \<open>
  The components of a path on Unix: separators are merged, \<^verbatim>\<open>.\<close> counts only at the beginning of a
  relative path. Paths are equal when their components are, so a \<^verbatim>\<open>PathBuf\<close> is its list of components.
\<close>

datatype path_component = RootDir | CurDir | ParentDir | Normal string

definition component_of :: "string \<Rightarrow> path_component" where
  "component_of s = (if s = ''..'' then ParentDir else Normal s)"

definition is_absolute :: "string \<Rightarrow> bool" where
  "is_absolute s \<longleftrightarrow> starts_with s ''/''"

definition path_components :: "string \<Rightarrow> path_component list" where
  "path_components s =
     (let segments = split_on (CHR ''/'') s;
          rest = map component_of (filter (\<lambda>p. p \<noteq> [] \<and> p \<noteq> ''.'') segments)
      in if is_absolute s then RootDir # rest
         else if hd segments = ''.'' then CurDir # rest
         else rest)"

definition file_name :: "path_component list \<Rightarrow> string option" where
  "file_name cs = (if cs = [] then None else case last cs of Normal s \<Rightarrow> Some s | _ \<Rightarrow> None)"

definition path_parent :: "path_component list \<Rightarrow> path_component list option" where
  "path_parent cs = (if cs = [] \<or> last cs = RootDir then None else Some (butlast cs))"

definition path_join :: "path_component list \<Rightarrow> path_component list \<Rightarrow> path_component list" where
  "path_join base rel =
     (if rel \<noteq> [] \<and> hd rel = RootDir then rel
      else if base = [] then rel
      else base @ (if rel \<noteq> [] \<and> hd rel = CurDir then tl rel else rel))"

section \<open>The manifest\<close>

definition MANIFEST_VERSION :: u32 where "MANIFEST_VERSION = 1"

datatype artifact_kind = Onnx | Sidecar

datatype stage_kind = Autoencoder | Classifier | Generic

datatype stage_input_source = FeatureInput | StageOutput

datatype output_role = AnomalyScore | BinaryScore | ClassProbabilities | C2Score | Embedding | IgnoreOutput

datatype preprocessing_step =
    StandardScaler string | MinMaxScaler string | RobustScaler string | LogTransform flt | Clip flt flt | Quantile string

datatype output_semantic = AnomalySemantic | Binary | Multiclass | Multilabel | Regression | Passthrough

record runtime_spec =
  rn_pipeline_mode :: string
  rn_normal_label :: string

record artifact_spec =
  af_id :: string
  af_file :: string
  af_kind :: artifact_kind

record stage_input_spec =
  in_name :: string
  in_source :: stage_input_source
  in_stage :: "string option"
  in_output :: "string option"

record output_head_spec =
  oh_name :: string
  oh_index :: nat
  oh_shape :: "string list"
  oh_semantic :: output_semantic
  oh_threshold :: "flt option"
  oh_min_confidence :: "flt option"

record stage_spec =
  sg_id :: string
  sg_kind :: stage_kind
  sg_model_file :: string
  sg_depends_on :: "string list"
  sg_inputs :: "stage_input_spec list"
  sg_preprocessing :: "preprocessing_step list"
  sg_output_heads :: "output_head_spec list"

record pipeline_output_spec =
  po_stage :: string
  po_output :: string
  po_alias :: "string option"
  po_role :: output_role

datatype attack_mapping_spec = PredictedClass string bool | FixedLabel string

datatype detection_rule_spec = ThresholdRule string string attack_mapping_spec | ClassConfidence string string attack_mapping_spec

record label_spec =
  lb_name :: string
  lb_confirmations :: "nat option"
  lb_playbook :: "string option"

record alert_rule_spec =
  al_condition :: string
  al_source_label :: string

text \<open>The labels are a map in the order of its keys.\<close>

record model_manifest =
  mf_name :: string
  mf_version :: u32
  mf_runtime :: runtime_spec
  mf_artifacts :: "artifact_spec list"
  mf_stages :: "stage_spec list"
  mf_outputs :: "pipeline_output_spec list"
  mf_detection_rules :: "detection_rule_spec list"
  mf_labels :: "(string \<times> label_spec) list"
  mf_alert_rules :: "alert_rule_spec list"

datatype manifest_issue = Issue string "string list"

datatype ml_error = ManifestInvalid manifest_issue | UnknownFeature string | ConfigInvalid

type_synonym check = "(ml_error, unit) result"

definition require :: "bool \<Rightarrow> manifest_issue \<Rightarrow> check" where
  "require b e = (if b then Inr () else Inl (ManifestInvalid e))"

definition also_then :: "check \<Rightarrow> check \<Rightarrow> check" where
  "also_then a b = and_then a (\<lambda>_. b)"

fun check_all :: "check list \<Rightarrow> check" where
  "check_all [] = Inr ()"
| "check_all (c # cs) = also_then c (check_all cs)"

text \<open>A loop with an accumulator: the check of an element sees what the earlier ones left.\<close>

fun check_each :: "('s \<Rightarrow> 'a \<Rightarrow> check) \<Rightarrow> ('s \<Rightarrow> 'a \<Rightarrow> 's) \<Rightarrow> 's \<Rightarrow> 'a list \<Rightarrow> check" where
  "check_each c upd s [] = Inr ()"
| "check_each c upd s (x # xs) = also_then (c s x) (check_each c upd (upd s x) xs)"

definition blank :: "string \<Rightarrow> bool" where
  "blank s \<longleftrightarrow> trim s = []"

section \<open>Files\<close>

definition normalized_artifact_components :: "string \<Rightarrow> string list" where
  "normalized_artifact_components value =
     concat (map (\<lambda>c. case c of Normal s \<Rightarrow> [s] | _ \<Rightarrow> []) (path_components value))"

definition validate_relative_artifact_path :: "string \<Rightarrow> check" where
  "validate_relative_artifact_path value =
     check_all
       [require (value \<noteq> []) (Issue ''is empty'' []),
        require (\<not> is_absolute value) (Issue ''must be relative, not absolute'' [value]),
        require (\<not> list_ex (\<lambda>c. c = CurDir \<or> c = ParentDir \<or> c = RootDir) (path_components value)) (Issue ''must not contain root, current-directory, or parent-directory segments'' [value])]"

definition validate_artifact_not_manifest_path :: "string \<Rightarrow> string \<Rightarrow> check" where
  "validate_artifact_not_manifest_path path value =
     (case file_name (path_components path) of
        None \<Rightarrow> Inr ()
      | Some n \<Rightarrow> require (normalized_artifact_components value \<noteq> [n]) (Issue ''must not point at the manifest file itself'' [value]))"

definition resolve_relative :: "string \<Rightarrow> string \<Rightarrow> path_component list" where
  "resolve_relative manifest_path relative =
     path_join (case path_parent (path_components manifest_path) of Some p \<Rightarrow> p | None \<Rightarrow> [CurDir]) (path_components relative)"

definition preprocessing_sidecar :: "preprocessing_step \<Rightarrow> string option" where
  "preprocessing_sidecar step =
     (case step of
        StandardScaler s \<Rightarrow> Some s | MinMaxScaler s \<Rightarrow> Some s | RobustScaler s \<Rightarrow> Some s | Quantile s \<Rightarrow> Some s
      | LogTransform _ \<Rightarrow> None | Clip _ _ \<Rightarrow> None)"

definition validate_artifact :: "string \<Rightarrow> string list \<times> string list list \<Rightarrow> artifact_spec \<Rightarrow> check" where
  "validate_artifact path seen a =
     check_all
       [require (\<not> blank (af_id a)) (Issue ''artifact id is empty'' []),
        require (af_id a \<notin> set (fst seen)) (Issue ''duplicate artifact id'' [af_id a]),
        validate_relative_artifact_path (af_file a),
        validate_artifact_not_manifest_path path (af_file a),
        require (normalized_artifact_components (af_file a) \<notin> set (snd seen)) (Issue ''duplicate artifact file'' [af_file a])]"

definition validate_artifacts :: "string \<Rightarrow> model_manifest \<Rightarrow> check" where
  "validate_artifacts path m =
     also_then (require (mf_artifacts m \<noteq> []) (Issue ''artifacts is empty'' []))
       (check_each (validate_artifact path)
          (\<lambda>(ids, files) a. (ids @ [af_id a], files @ [normalized_artifact_components (af_file a)])) ([], []) (mf_artifacts m))"

definition validate_runtime :: "model_manifest \<Rightarrow> check" where
  "validate_runtime m =
     check_all
       [require (rn_pipeline_mode (mf_runtime m) = ''dag'') (Issue ''runtime.pipeline_mode must be dag'' [rn_pipeline_mode (mf_runtime m)]),
        require (\<not> blank (rn_normal_label (mf_runtime m))) (Issue ''runtime.normal_label is empty'' [])]"

section \<open>Stages\<close>

definition stage_output_key :: "string \<Rightarrow> string \<Rightarrow> string" where
  "stage_output_key stage out = stage @ ''.'' @ out"

definition validate_stage_input :: "stage_spec \<Rightarrow> string list \<Rightarrow> stage_input_spec \<Rightarrow> check" where
  "validate_stage_input stage seen i =
     check_all
       [require (\<not> blank (in_name i)) (Issue ''has an input with empty name'' [sg_id stage]),
        require (in_name i \<notin> set seen) (Issue ''has duplicate input'' [sg_id stage, in_name i]),
        (case in_source i of
           FeatureInput \<Rightarrow> require (in_stage i = None \<and> in_output i = None) (Issue ''feature input must not declare stage/output'' [sg_id stage, in_name i])
         | StageOutput \<Rightarrow>
             require (\<not> (case in_stage i of None \<Rightarrow> True | Some v \<Rightarrow> blank v) \<and> \<not> (case in_output i of None \<Rightarrow> True | Some v \<Rightarrow> blank v))
               (Issue ''stage_output input requires stage and output'' [sg_id stage, in_name i]))]"

definition validate_stage_inputs :: "stage_spec \<Rightarrow> check" where
  "validate_stage_inputs stage =
     check_each (validate_stage_input stage) (\<lambda>seen i. seen @ [in_name i]) [] (sg_inputs stage)"

definition validate_preprocessing_step :: "string \<Rightarrow> string \<Rightarrow> preprocessing_step \<Rightarrow> check" where
  "validate_preprocessing_step path model_id step =
     (case preprocessing_sidecar step of
        Some sidecar \<Rightarrow> also_then (validate_relative_artifact_path sidecar) (validate_artifact_not_manifest_path path sidecar)
      | None \<Rightarrow>
          (case step of
             LogTransform offset \<Rightarrow> require (is_finite offset \<and> fle (Fin 0) offset) (Issue ''offset must be finite and >= 0'' [model_id])
           | Clip mn mx \<Rightarrow> require (is_finite mn \<and> is_finite mx \<and> fle mn mx) (Issue ''clip range must be finite and ordered lower <= upper'' [model_id])
           | _ \<Rightarrow> Inr ()))"

definition validate_preprocessing :: "string \<Rightarrow> string \<Rightarrow> preprocessing_step list \<Rightarrow> check" where
  "validate_preprocessing path model_id steps = check_all (map (validate_preprocessing_step path model_id) steps)"

definition validate_output_shape_dim :: "string \<Rightarrow> string \<Rightarrow> string \<Rightarrow> check" where
  "validate_output_shape_dim model_id output_name d =
     (let trimmed = trim d
      in if trimmed = [] then Inl (ManifestInvalid (Issue ''has an empty shape dimension'' [model_id, output_name]))
         else if parse_unsigned 64 trimmed \<noteq> None then Inr ()
         else if list_all (\<lambda>c. is_ascii_alphanumeric c \<or> c = CHR ''_'' \<or> c = CHR ''-'') trimmed then Inr ()
         else Inl (ManifestInvalid (Issue ''has invalid shape dimension'' [model_id, output_name, d])))"

definition validate_output_head :: "string \<Rightarrow> string list \<times> nat list \<Rightarrow> output_head_spec \<Rightarrow> check" where
  "validate_output_head model_id seen h =
     check_all
       [require (\<not> blank (oh_name h)) (Issue ''has an output with empty name'' [model_id]),
        require (oh_shape h \<noteq> []) (Issue ''shape is empty'' [model_id, oh_name h]),
        check_all (map (validate_output_shape_dim model_id (oh_name h)) (oh_shape h)),
        require (oh_name h \<notin> set (fst seen)) (Issue ''has duplicate output name'' [model_id, oh_name h]),
        require (oh_index h \<notin> set (snd seen)) (Issue ''has duplicate output index'' [model_id, show_nat (oh_index h)]),
        require (case oh_threshold h of None \<Rightarrow> True | Some v \<Rightarrow> is_finite v \<and> fle (Fin 0) v) (Issue ''threshold must be finite and >= 0'' [model_id, oh_name h]),
        require (case oh_min_confidence h of None \<Rightarrow> True | Some v \<Rightarrow> is_finite v \<and> fle (Fin 0) v \<and> fle v (Fin 1))
          (Issue ''min_confidence must be finite and in [0, 1]'' [model_id, oh_name h])]"

definition validate_outputs :: "string \<Rightarrow> output_head_spec list \<Rightarrow> check" where
  "validate_outputs model_id heads =
     check_each (validate_output_head model_id) (\<lambda>(names, indexes) h. (names @ [oh_name h], indexes @ [oh_index h])) ([], []) heads"

definition artifact_with_file :: "model_manifest \<Rightarrow> string \<Rightarrow> artifact_spec option" where
  "artifact_with_file m file = find (\<lambda>a. af_file a = file) (mf_artifacts m)"

definition validate_sidecar :: "model_manifest \<Rightarrow> stage_spec \<Rightarrow> preprocessing_step \<Rightarrow> check" where
  "validate_sidecar m stage step =
     (case preprocessing_sidecar step of
        None \<Rightarrow> Inr ()
      | Some sidecar \<Rightarrow>
          (case artifact_with_file m sidecar of
             None \<Rightarrow> Inl (ManifestInvalid (Issue ''preprocessing sidecar is not declared in artifacts'' [sg_id stage]))
           | Some a \<Rightarrow> require (af_kind a = Sidecar) (Issue ''preprocessing sidecar must reference a sidecar artifact'' [sg_id stage])))"

definition validate_model_stage :: "string \<Rightarrow> model_manifest \<Rightarrow> string list \<Rightarrow> stage_spec \<Rightarrow> check" where
  "validate_model_stage path m seen stage =
     check_all
       [require (\<not> blank (sg_id stage)) (Issue ''stage id is empty'' []),
        require (sg_id stage \<notin> set seen) (Issue ''duplicate stage id'' [sg_id stage]),
        validate_relative_artifact_path (sg_model_file stage),
        validate_artifact_not_manifest_path path (sg_model_file stage),
        require (mf_artifacts m = [] \<or> sg_model_file stage \<in> af_file ` set (mf_artifacts m)) (Issue ''model_file is not declared in artifacts'' [sg_id stage]),
        require (case artifact_with_file m (sg_model_file stage) of None \<Rightarrow> True | Some a \<Rightarrow> af_kind a = Onnx)
          (Issue ''model_file must reference an onnx artifact'' [sg_id stage]),
        require (sg_inputs stage \<noteq> []) (Issue ''inputs is empty'' [sg_id stage]),
        require (sg_output_heads stage \<noteq> []) (Issue ''output_heads is empty'' [sg_id stage]),
        validate_stage_inputs stage,
        validate_preprocessing path (sg_id stage) (sg_preprocessing stage),
        check_all (map (validate_sidecar m stage) (sg_preprocessing stage)),
        validate_outputs (sg_id stage) (sg_output_heads stage)]"

definition validate_stages :: "string \<Rightarrow> model_manifest \<Rightarrow> check" where
  "validate_stages path m = check_each (validate_model_stage path m) (\<lambda>seen s. seen @ [sg_id s]) [] (mf_stages m)"

definition stage_by_id :: "model_manifest \<Rightarrow> string \<Rightarrow> stage_spec option" where
  "stage_by_id m i = find (\<lambda>s. sg_id s = i) (mf_stages m)"

section \<open>The order of the stages\<close>

text \<open>One pass over the stages appends those whose dependencies have been emitted; passes are repeated while they help.\<close>

definition topo_visit :: "stage_spec \<Rightarrow> string set \<times> stage_spec list \<Rightarrow> string set \<times> stage_spec list" where
  "topo_visit stage acc =
     (case acc of (emitted, ordered) \<Rightarrow>
        if sg_id stage \<in> emitted then acc
        else if list_all (\<lambda>d. d \<in> emitted) (sg_depends_on stage) then (insert (sg_id stage) emitted, ordered @ [stage])
        else acc)"

definition topo_pass :: "stage_spec list \<Rightarrow> string set \<times> stage_spec list \<Rightarrow> string set \<times> stage_spec list" where
  "topo_pass stages acc = fold topo_visit stages acc"

text \<open>What a pass does: it emits the stages it appends, and no others.\<close>

lemma topo_visit_step:
  "topo_visit s (e, o') = (if sg_id s \<notin> e \<and> set (sg_depends_on s) \<subseteq> e then (insert (sg_id s) e, o' @ [s]) else (e, o'))"
  by (auto simp: topo_visit_def list_all_iff)

lemma topo_pass_grows:
  assumes "topo_pass ss (e, o') = (e', o'')"
  shows "\<exists>new. o'' = o' @ new \<and> e' = e \<union> sg_id ` set new \<and> set new \<subseteq> set ss \<and> distinct (map sg_id new) \<and> sg_id ` set new \<inter> e = {}"
  using assms
proof (induction ss arbitrary: e o')
  case Nil
  then show ?case by (simp add: topo_pass_def)
next
  case (Cons s ss)
  show ?case
  proof (cases "sg_id s \<notin> e \<and> set (sg_depends_on s) \<subseteq> e")
    case True
    then have "topo_pass ss (insert (sg_id s) e, o' @ [s]) = (e', o'')"
      using Cons.prems by (simp add: topo_pass_def topo_visit_step)
    from Cons.IH [OF this] obtain new where "o'' = (o' @ [s]) @ new" "e' = insert (sg_id s) e \<union> sg_id ` set new"
      "set new \<subseteq> set ss" "distinct (map sg_id new)" "sg_id ` set new \<inter> insert (sg_id s) e = {}" by blast
    then show ?thesis using True by (intro exI [of _ "s # new"]) auto
  next
    case False
    then have "topo_pass ss (e, o') = (e', o'')"
      using Cons.prems by (simp add: topo_pass_def topo_visit_step split: if_splits)
    from Cons.IH [OF this] show ?thesis by fastforce
  qed
qed

function topo_loop :: "stage_spec list \<Rightarrow> string set \<times> stage_spec list \<Rightarrow> (ml_error, stage_spec list) result" where
  "topo_loop stages (emitted, ordered) =
     (case topo_pass stages (emitted, ordered) of (emitted', ordered') \<Rightarrow>
        if length ordered' = length stages then Inr ordered'
        else if length ordered' = length ordered then Inl (ManifestInvalid (Issue ''stages contain a dependency cycle or unresolved dependency'' []))
        else topo_loop stages (emitted', ordered'))"
  by pat_completeness auto
termination
proof (relation "measure (\<lambda>(ss, e, _). length (filter (\<lambda>s. sg_id s \<notin> e) ss))", goal_cases)
  case (2 ss e o' e' o'')
  then obtain new where new: "o'' = o' @ new" "e' = e \<union> sg_id ` set new" "set new \<subseteq> set ss" "sg_id ` set new \<inter> e = {}"
    using topo_pass_grows [of ss e o' e' o''] by auto
  with 2 obtain s where s: "s \<in> set new" by (cases new) auto
  have "length (filter (\<lambda>x. sg_id x \<notin> e') ss) < length (filter (\<lambda>x. sg_id x \<notin> e) ss)"
  proof -
    have "filter (\<lambda>x. sg_id x \<notin> e') ss = filter (\<lambda>x. sg_id x \<notin> e') (filter (\<lambda>x. sg_id x \<notin> e) ss)"
      using new(2) by simp
    moreover have "s \<in> set (filter (\<lambda>x. sg_id x \<notin> e) ss)" "sg_id s \<in> e'" using s new by auto
    ultimately show ?thesis by (metis (no_types, lifting) length_filter_less)
  qed
  then show ?case by simp
qed simp

definition topological_stages :: "model_manifest \<Rightarrow> (ml_error, stage_spec list) result" where
  "topological_stages m = topo_loop (mf_stages m) ({}, [])"

definition validate_dependency :: "model_manifest \<Rightarrow> stage_spec \<Rightarrow> string \<Rightarrow> check" where
  "validate_dependency m stage dep =
     check_all [require (stage_by_id m dep \<noteq> None) (Issue ''depends on unknown stage'' [sg_id stage, dep]),
                require (dep \<noteq> sg_id stage) (Issue ''depends on itself'' [sg_id stage])]"

definition validate_stage_graph :: "model_manifest \<Rightarrow> check" where
  "validate_stage_graph m =
     also_then (check_all (map (\<lambda>s. check_all (map (validate_dependency m s) (sg_depends_on s))) (mf_stages m)))
       (and_then (topological_stages m) (\<lambda>_. Inr ()))"

definition validate_input_available :: "stage_spec \<Rightarrow> string set \<Rightarrow> stage_input_spec \<Rightarrow> check" where
  "validate_input_available stage available i =
     (case in_source i of
        FeatureInput \<Rightarrow> if in_name i \<in> available then Inr () else Inl (UnknownFeature (in_name i))
      | StageOutput \<Rightarrow>
          (case (in_stage i, in_output i) of
             (Some s, Some out) \<Rightarrow> require (stage_output_key s out \<in> available) (Issue ''references unavailable output'' [sg_id stage, in_name i])
           | _ \<Rightarrow> Inl (ManifestInvalid (Issue ''stage_output input requires stage and output'' [sg_id stage, in_name i]))))"

definition head_keys :: "stage_spec \<Rightarrow> string set" where
  "head_keys stage = (\<lambda>h. stage_output_key (sg_id stage) (oh_name h)) ` set (sg_output_heads stage)"

definition validate_stage_features :: "model_manifest \<Rightarrow> check" where
  "validate_stage_features m =
     and_then (topological_stages m) (\<lambda>ordered.
       check_each (\<lambda>available s. check_all (map (validate_input_available s available) (sg_inputs s)))
         (\<lambda>available s. available \<union> head_keys s) (set feature_registry_names) ordered)"

section \<open>Outputs, labels and rules\<close>

definition output_reference :: "pipeline_output_spec \<Rightarrow> string" where
  "output_reference out =
     (case po_alias out of
        Some a \<Rightarrow> if \<not> blank a then a else stage_output_key (po_stage out) (po_output out)
      | None \<Rightarrow> stage_output_key (po_stage out) (po_output out))"

definition output_matches_ref :: "pipeline_output_spec \<Rightarrow> string \<Rightarrow> bool" where
  "output_matches_ref out reference \<longleftrightarrow> po_alias out = Some reference \<or> stage_output_key (po_stage out) (po_output out) = reference"

definition output_semantic_is_matrix :: "output_semantic \<Rightarrow> bool" where
  "output_semantic_is_matrix sem \<longleftrightarrow> sem = Multiclass \<or> sem = Multilabel"

definition head_of :: "stage_spec \<Rightarrow> string \<Rightarrow> output_head_spec option" where
  "head_of stage name = find (\<lambda>h. oh_name h = name) (sg_output_heads stage)"

definition validate_output_role :: "pipeline_output_spec \<Rightarrow> output_head_spec \<Rightarrow> check" where
  "validate_output_role out head =
     (let is_matrix = output_semantic_is_matrix (oh_semantic head); r = po_role out
      in if (r = ClassProbabilities \<or> r = Embedding) \<and> \<not> is_matrix then Inl (ManifestInvalid (Issue ''requires a matrix output semantic'' [output_reference out]))
         else if (r = AnomalyScore \<or> r = BinaryScore \<or> r = C2Score) \<and> is_matrix
           then Inl (ManifestInvalid (Issue ''requires a scalar output semantic'' [output_reference out]))
         else if r = ClassProbabilities \<and> oh_semantic head \<noteq> Multiclass \<and> oh_semantic head \<noteq> Multilabel
           then Inl (ManifestInvalid (Issue ''role class_probabilities requires multiclass or multilabel semantic'' [output_reference out]))
         else Inr ())"

definition validate_pipeline_output :: "model_manifest \<Rightarrow> string list \<Rightarrow> pipeline_output_spec \<Rightarrow> check" where
  "validate_pipeline_output m seen out =
     (case stage_by_id m (po_stage out) of
        None \<Rightarrow> Inl (ManifestInvalid (Issue ''pipeline output references unknown stage'' [po_stage out]))
      | Some stage \<Rightarrow>
          check_all
            [require (list_ex (\<lambda>h. oh_name h = po_output out) (sg_output_heads stage)) (Issue ''pipeline output references unknown output'' [po_stage out, po_output out]),
             require (case po_alias out of Some a \<Rightarrow> \<not> blank a | None \<Rightarrow> True) (Issue ''has an empty alias'' [po_stage out, po_output out]),
             require (output_reference out \<notin> set seen) (Issue ''duplicate pipeline output reference'' [output_reference out]),
             (case head_of stage (po_output out) of None \<Rightarrow> Inr () | Some head \<Rightarrow> validate_output_role out head)])"

definition validate_pipeline_outputs :: "model_manifest \<Rightarrow> check" where
  "validate_pipeline_outputs m = check_each (validate_pipeline_output m) (\<lambda>seen out. seen @ [output_reference out]) [] (mf_outputs m)"

definition validate_label :: "string list \<Rightarrow> string \<times> label_spec \<Rightarrow> check" where
  "validate_label seen entry =
     (case entry of (key, spec) \<Rightarrow>
        check_all
          [require (parse_unsigned 64 key \<noteq> None) (Issue ''must be a non-negative classifier output index'' [key]),
           require (lb_confirmations spec \<noteq> Some 0) (Issue ''has confirmations: 0 (must be >= 1)'' [lb_name spec]),
           require (to_ascii_lowercase (lb_name spec) \<notin> set seen) (Issue ''duplicate label name'' [lb_name spec])])"

definition validate_labels :: "model_manifest \<Rightarrow> check" where
  "validate_labels m =
     also_then (require (mf_labels m \<noteq> []) (Issue ''labels is empty'' []))
       (check_each validate_label (\<lambda>seen e. seen @ [to_ascii_lowercase (lb_name (snd e))]) [] (mf_labels m))"

definition eq_ignore_ascii_case :: "string \<Rightarrow> string \<Rightarrow> bool" where
  "eq_ignore_ascii_case a b \<longleftrightarrow> to_ascii_lowercase a = to_ascii_lowercase b"

definition pipeline_output_by_ref :: "model_manifest \<Rightarrow> string \<Rightarrow> pipeline_output_spec option" where
  "pipeline_output_by_ref m reference = find (\<lambda>out. output_matches_ref out reference) (mf_outputs m)"

definition pipeline_output_head :: "model_manifest \<Rightarrow> string \<Rightarrow> (ml_error, pipeline_output_spec \<times> output_head_spec) result" where
  "pipeline_output_head m reference =
     and_then (ok_or (pipeline_output_by_ref m reference) (ManifestInvalid (Issue ''pipeline output reference is not declared in outputs'' [reference]))) (\<lambda>out.
     and_then (ok_or (stage_by_id m (po_stage out)) (ManifestInvalid (Issue ''pipeline output references unknown stage'' [po_stage out]))) (\<lambda>stage.
     and_then (ok_or (head_of stage (po_output out)) (ManifestInvalid (Issue ''pipeline output references unknown output'' [po_stage out, po_output out]))) (\<lambda>head.
     Inr (out, head))))"

definition validate_attack_mapping :: "model_manifest \<Rightarrow> string \<Rightarrow> attack_mapping_spec \<Rightarrow> check" where
  "validate_attack_mapping m rule_id attack =
     (case attack of
        PredictedClass out _ \<Rightarrow>
          and_then (pipeline_output_head m out) (\<lambda>(po, head).
            require (output_semantic_is_matrix (oh_semantic head) \<and> po_role po = ClassProbabilities) (Issue ''predicted_class output must be a class_probabilities output'' [rule_id, out]))
      | FixedLabel label \<Rightarrow>
          require (list_ex (\<lambda>(_, spec). eq_ignore_ascii_case (lb_name spec) label) (mf_labels m)) (Issue ''fixed label is not declared in labels'' [rule_id, label]))"

fun rule_id :: "detection_rule_spec \<Rightarrow> string" where
  "rule_id (ThresholdRule i _ _) = i"
| "rule_id (ClassConfidence i _ _) = i"

definition validate_rule_output :: "model_manifest \<Rightarrow> detection_rule_spec \<Rightarrow> check" where
  "validate_rule_output m rule =
     (case rule of
        ThresholdRule i out attack \<Rightarrow>
          and_then (pipeline_output_head m out) (\<lambda>(_, head).
            check_all [require (\<not> output_semantic_is_matrix (oh_semantic head)) (Issue ''threshold output must be scalar'' [i, out]),
                       require (oh_threshold head \<noteq> None) (Issue ''threshold output requires threshold'' [i, out]),
                       validate_attack_mapping m i attack])
      | ClassConfidence i out attack \<Rightarrow>
          and_then (pipeline_output_head m out) (\<lambda>(_, head).
            check_all [require (output_semantic_is_matrix (oh_semantic head)) (Issue ''class output must be matrix'' [i, out]),
                       require (oh_min_confidence head \<noteq> None) (Issue ''class output requires min_confidence'' [i, out]),
                       validate_attack_mapping m i attack]))"

definition validate_detection_rules :: "model_manifest \<Rightarrow> check" where
  "validate_detection_rules m =
     also_then (require (mf_detection_rules m \<noteq> []) (Issue ''detection_rules is empty'' []))
       (check_each
          (\<lambda>seen r. check_all [require (\<not> blank (rule_id r)) (Issue ''detection rule id is empty'' []), require (rule_id r \<notin> set seen) (Issue ''duplicate detection rule id'' [rule_id r]),
                                validate_rule_output m r])
          (\<lambda>seen r. seen @ [rule_id r]) [] (mf_detection_rules m))"

definition validate_alert_rules :: "model_manifest \<Rightarrow> check" where
  "validate_alert_rules m =
     also_then (require (mf_alert_rules m \<noteq> []) (Issue ''alert_rules is empty'' []))
       (check_each
          (\<lambda>i r. check_all [require (\<not> blank (al_condition r)) (Issue ''condition is empty'' [show_nat i]),
                             require (\<not> blank (al_source_label r)) (Issue ''source_label is empty'' [show_nat i])])
          (\<lambda>i _. Suc i) 0 (mf_alert_rules m))"

definition manifest_validate :: "string \<Rightarrow> model_manifest \<Rightarrow> check" where
  "manifest_validate path m =
     check_all
       [require (mf_version m = MANIFEST_VERSION) (Issue ''version must be'' [show_nat (unat (mf_version m))]),
        require (\<not> blank (mf_name m)) (Issue ''name is empty'' []),
        require (mf_stages m \<noteq> []) (Issue ''stages is empty'' []),
        require (mf_outputs m \<noteq> []) (Issue ''outputs is empty'' []),
        validate_runtime m, validate_artifacts path m, validate_stages path m, validate_stage_graph m,
        validate_stage_features m, validate_pipeline_outputs m, validate_labels m, validate_detection_rules m,
        validate_alert_rules m]"

definition runtime_feature_count :: "model_manifest \<Rightarrow> nat" where
  "runtime_feature_count m = (case mf_stages m of [] \<Rightarrow> 0 | s # _ \<Rightarrow> length (sg_inputs s))"

definition primary_scaler_sidecar :: "model_manifest \<Rightarrow> string option" where
  "primary_scaler_sidecar m =
     (case concat (map (\<lambda>s. concat (map (\<lambda>p. case preprocessing_sidecar p of Some x \<Rightarrow> [x] | None \<Rightarrow> []) (sg_preprocessing s)))
                        (mf_stages m)) of
        [] \<Rightarrow> None | x # _ \<Rightarrow> Some x)"

section \<open>Checks\<close>

lemma require_Inr [simp]: "require b e = Inr u \<longleftrightarrow> b"
  by (simp add: require_def)

lemma also_then_Inr [simp]: "also_then a b = Inr u \<longleftrightarrow> a = Inr () \<and> b = Inr ()"
  by (auto simp: also_then_def and_then_Inr_iff)

lemma check_all_Inr [simp]: "check_all cs = Inr u \<longleftrightarrow> (\<forall>c\<in>set cs. c = Inr ())"
  by (induction cs) auto

lemma check_each_Inr:
  "check_each c upd s xs = Inr u \<Longrightarrow> i < length xs \<Longrightarrow> c (foldl upd s (take i xs)) (xs ! i) = Inr ()"
proof (induction xs arbitrary: s i)
  case (Cons x xs)
  then show ?case by (cases i) auto
qed simp

lemma foldl_snoc: "foldl (\<lambda>seen x. seen @ [f x]) s xs = s @ map f xs"
  by (induction xs arbitrary: s) auto

lemma distinct_by_prefix: "(\<And>i. i < length xs \<Longrightarrow> f (xs ! i) \<notin> f ` set (take i xs)) \<Longrightarrow> distinct (map f xs)"
proof (induction xs rule: rev_induct)
  case (snoc x xs)
  have "f (xs ! i) \<notin> f ` set (take i xs)" if "i < length xs" for i
    using snoc.prems [of i] that by (simp add: nth_append)
  with snoc.IH snoc.prems [of "length xs"] show ?case by simp
qed simp

lemma check_each_distinct:
  assumes "check_each c (\<lambda>seen x. seen @ [f x]) [] xs = Inr u" "\<And>seen x. c seen x = Inr () \<Longrightarrow> f x \<notin> set seen"
  shows "distinct (map f xs)"
proof (rule distinct_by_prefix)
  fix i assume "i < length xs"
  from assms(2) [OF check_each_Inr [OF assms(1) this]] show "f (xs ! i) \<notin> f ` set (take i xs)" by (simp add: foldl_snoc)
qed

section \<open>The order of the stages is found\<close>

text \<open>An order of the stages in which every dependency comes first.\<close>

definition dependency_order :: "stage_spec list \<Rightarrow> bool" where
  "dependency_order ss \<longleftrightarrow> (\<forall>i<length ss. set (sg_depends_on (ss ! i)) \<subseteq> sg_id ` set (take i ss))"

lemma dependency_order_snoc:
  "dependency_order ss \<Longrightarrow> set (sg_depends_on s) \<subseteq> sg_id ` set ss \<Longrightarrow> dependency_order (ss @ [s])"
  by (auto simp: dependency_order_def nth_append less_Suc_eq)

definition topo_inv :: "stage_spec list \<Rightarrow> string set \<times> stage_spec list \<Rightarrow> bool" where
  "topo_inv stages acc \<longleftrightarrow>
     fst acc = sg_id ` set (snd acc) \<and> distinct (map sg_id (snd acc)) \<and> set (snd acc) \<subseteq> set stages \<and> dependency_order (snd acc)"

lemma topo_inv_visit: "s \<in> set stages \<Longrightarrow> topo_inv stages acc \<Longrightarrow> topo_inv stages (topo_visit s acc)"
  by (cases acc) (auto simp: topo_inv_def topo_visit_step intro: dependency_order_snoc)

lemma topo_inv_pass: "set ss \<subseteq> set stages \<Longrightarrow> topo_inv stages acc \<Longrightarrow> topo_inv stages (topo_pass ss acc)"
proof (induction ss arbitrary: acc)
  case (Cons s ss)
  then show ?case using topo_inv_visit [of s stages acc] by (simp add: topo_pass_def)
qed (simp add: topo_pass_def)

lemma topo_loop_sound:
  "topo_loop stages acc = Inr ordered \<Longrightarrow> topo_inv stages acc \<Longrightarrow> topo_inv stages (sg_id ` set ordered, ordered) \<and> length ordered = length stages"
proof (induction stages acc rule: topo_loop.induct)
  case (1 stages emitted ord)
  obtain e' o' where p: "topo_pass stages (emitted, ord) = (e', o')" by (cases "topo_pass stages (emitted, ord)")
  have inv: "topo_inv stages (e', o')" using topo_inv_pass [of stages stages "(emitted, ord)"] 1(3) p by simp
  show ?case
    using 1(1) [OF p [symmetric]] 1(2) inv p
    by (auto split: if_splits) (auto simp: topo_inv_def)
qed

text \<open>A pass that appends nothing has no stage left whose dependencies are there.\<close>

lemma topo_pass_mono: "topo_pass ss (e, ord) = (e', o') \<Longrightarrow> e \<subseteq> e' \<and> length ord \<le> length o'"
  by (auto dest!: topo_pass_grows)

lemma topo_pass_stuck:
  "topo_pass ss (e, ord) = (e', o') \<Longrightarrow> length o' = length ord \<Longrightarrow> s \<in> set ss \<Longrightarrow> set (sg_depends_on s) \<subseteq> e \<Longrightarrow> sg_id s \<in> e"
proof (induction ss arbitrary: e ord)
  case (Cons x ss)
  obtain e1 o1 where v: "topo_visit x (e, ord) = (e1, o1)" by (cases "topo_visit x (e, ord)")
  then have p: "topo_pass ss (e1, o1) = (e', o')" using Cons.prems(1) by (simp add: topo_pass_def)
  have "length o1 \<le> length ord" using topo_pass_mono [OF p] Cons.prems(2) by simp
  with v have "e1 = e" "o1 = ord" "set (sg_depends_on x) \<subseteq> e \<longrightarrow> sg_id x \<in> e"
    by (auto simp: topo_visit_step split: if_splits)
  then show ?case using Cons p by (cases "s = x") auto
qed simp

lemma topo_stuck_all:
  assumes inv: "topo_inv stages (e, ord)" and dist: "distinct (map sg_id stages)" and ss: "set ss = set stages" "dependency_order ss"
    and p: "topo_pass stages (e, ord) = (e', o')" "length o' = length ord"
  shows "length ord = length stages"
proof -
  have "sg_id (ss ! i) \<in> e" if "i < length ss" for i
    using that
  proof (induction i rule: less_induct)
    case (less i)
    have "sg_id ` set (take i ss) \<subseteq> e"
    proof clarify
      fix s assume "s \<in> set (take i ss)"
      then obtain j where "j < i" "s = ss ! j" by (auto simp: in_set_conv_nth)
      then show "sg_id s \<in> e" using less by simp
    qed
    moreover have "set (sg_depends_on (ss ! i)) \<subseteq> sg_id ` set (take i ss)"
      using ss(2) less.prems by (simp add: dependency_order_def)
    ultimately have "set (sg_depends_on (ss ! i)) \<subseteq> e" by (rule order_trans [rotated])
    moreover have "ss ! i \<in> set stages" using less.prems ss(1) nth_mem by blast
    ultimately show ?case using topo_pass_stuck [OF p] by simp
  qed
  then have "sg_id ` set stages \<subseteq> sg_id ` set ord"
    using inv ss(1) by (metis (no_types, lifting) fst_conv image_subsetI in_set_conv_nth snd_conv topo_inv_def)
  moreover have "set ord \<subseteq> set stages" "distinct (map sg_id ord)" using inv by (auto simp: topo_inv_def)
  ultimately have "sg_id ` set stages = sg_id ` set ord" "distinct (map sg_id ord)" by auto
  then show ?thesis using dist by (metis distinct_card length_map list.set_map)
qed

lemma topo_loop_complete:
  "topo_inv stages acc \<Longrightarrow> distinct (map sg_id stages) \<Longrightarrow> set ss = set stages \<Longrightarrow> dependency_order ss \<Longrightarrow>
   \<exists>ordered. topo_loop stages acc = Inr ordered"
proof (induction stages acc rule: topo_loop.induct)
  case (1 stages emitted ord)
  obtain e' o' where p: "topo_pass stages (emitted, ord) = (e', o')" by (cases "topo_pass stages (emitted, ord)")
  have inv: "topo_inv stages (e', o')" using topo_inv_pass [of stages stages "(emitted, ord)"] 1(2) p by simp
  show ?case
  proof (cases "length o' = length ord")
    case True
    then have "length ord = length stages" using topo_stuck_all [OF 1(2,3,4,5) p] by simp
    then show ?thesis using True p by simp
  next
    case False
    then show ?thesis using 1(1) [OF p [symmetric] _ _ inv 1(3,4,5)] p by (cases "length o' = length stages") simp_all
  qed
qed

lemma topo_inv_start: "topo_inv stages ({}, [])"
  by (simp add: topo_inv_def dependency_order_def)

lemma same_stages:
  assumes "distinct (map sg_id stages)" "distinct (map sg_id ord)" "set ord \<subseteq> set stages" "length ord = length stages"
  shows "mset ord = mset stages"
proof -
  have "distinct ord" "distinct stages" using assms by (auto simp: distinct_map)
  then have "set ord = set stages" using assms by (metis card_subset_eq distinct_card List.finite_set)
  then show ?thesis using \<open>distinct ord\<close> \<open>distinct stages\<close> by (simp add: set_eq_iff_mset_eq_distinct)
qed

text \<open>
  C25. The order of the stages: for stages with distinct ids, the search by repeated passes ends, and it gives an
  order of exactly the manifest's stages in which every dependency comes before its user, or it reports an error
  and there is no such order: no manifest without a cycle is refused.
\<close>

theorem topological_order_is_found:
  assumes "distinct (map sg_id (mf_stages m))"
  shows "case topological_stages m of
           Inr ordered \<Rightarrow> mset ordered = mset (mf_stages m) \<and> dependency_order ordered
         | Inl _ \<Rightarrow> \<not> (\<exists>ss. mset ss = mset (mf_stages m) \<and> dependency_order ss)"
proof (cases "topological_stages m")
  case (Inr ordered)
  have "topo_inv (mf_stages m) (sg_id ` set ordered, ordered) \<and> length ordered = length (mf_stages m)"
    by (rule topo_loop_sound [OF Inr [unfolded topological_stages_def] topo_inv_start])
  then show ?thesis using Inr same_stages [OF assms] by (simp add: topo_inv_def)
next
  case (Inl e)
  have "\<not> dependency_order ss" if "mset ss = mset (mf_stages m)" for ss
    using topo_loop_complete [OF topo_inv_start assms mset_eq_setD [OF that]] Inl by (auto simp: topological_stages_def)
  then show ?thesis using Inl by auto
qed

section \<open>The files of an accepted manifest\<close>

lemma components_relative:
  assumes "validate_relative_artifact_path s = Inr ()"
  shows "\<exists>names. path_components s = map Normal names \<and> names \<noteq> []
           \<and> (\<forall>n\<in>set names. n \<noteq> [] \<and> n \<noteq> ''.'' \<and> n \<noteq> ''..'' \<and> CHR ''/'' \<notin> set n)"
proof -
  let ?segs = "split_on (CHR ''/'') s"
  let ?names = "filter (\<lambda>p. p \<noteq> [] \<and> p \<noteq> ''.'') ?segs"
  have c: "s \<noteq> []" "\<not> is_absolute s" "CurDir \<notin> set (path_components s)" "ParentDir \<notin> set (path_components s)"
    using assms by (auto simp: validate_relative_artifact_path_def list_ex_iff)
  then have comps: "path_components s = map component_of ?names" and first: "hd ?segs \<noteq> ''.''"
    by (auto simp: path_components_def Let_def split: if_splits)
  have norm: "component_of n = Normal n \<and> n \<noteq> ''..''" if "n \<in> set ?names" for n
    using that c(4) comps by (auto simp: component_of_def)
  have "hd ?segs \<noteq> []"
    using c(1,2) by (cases s) (auto simp: is_absolute_def starts_with_def split: list.splits)
  then have "hd ?segs \<in> set ?names" using first by (simp add: split_on_not_Nil)
  then have "?names \<noteq> []" by (metis empty_iff list.set(1))
  moreover have "CHR ''/'' \<notin> set n" if "n \<in> set ?names" for n
    using that split_on_no_sep [of n "CHR ''/''" s] by simp
  ultimately show ?thesis using comps norm by (intro exI [of _ ?names]) (auto intro!: map_cong)
qed

definition manifest_directory :: "string \<Rightarrow> path_component list" where
  "manifest_directory path = (case path_parent (path_components path) of Some p \<Rightarrow> p | None \<Rightarrow> [CurDir])"

definition manifest_files :: "model_manifest \<Rightarrow> string set" where
  "manifest_files m =
     af_file ` set (mf_artifacts m) \<union> sg_model_file ` set (mf_stages m)
     \<union> {f. \<exists>s\<in>set (mf_stages m). \<exists>p\<in>set (sg_preprocessing s). preprocessing_sidecar p = Some f}"

lemma manifest_files_checked:
  assumes "manifest_validate path m = Inr ()" "f \<in> manifest_files m"
  shows "validate_relative_artifact_path f = Inr () \<and> validate_artifact_not_manifest_path path f = Inr ()"
proof -
  have art: "validate_artifacts path m = Inr ()" and st: "validate_stages path m = Inr ()"
    using assms(1) by (auto simp: manifest_validate_def)
  have stage: "\<exists>seen. validate_model_stage path m seen s = Inr ()" if "s \<in> set (mf_stages m)" for s
    using that check_each_Inr [OF st [unfolded validate_stages_def]] by (auto simp: in_set_conv_nth)
  from assms(2) consider a where "a \<in> set (mf_artifacts m)" "f = af_file a"
    | s where "s \<in> set (mf_stages m)" "f = sg_model_file s"
    | s p where "s \<in> set (mf_stages m)" "p \<in> set (sg_preprocessing s)" "preprocessing_sidecar p = Some f"
    by (auto simp: manifest_files_def)
  then show ?thesis
  proof cases
    case 1
    have "check_each (validate_artifact path)
          (\<lambda>(ids, files) a. (ids @ [af_id a], files @ [normalized_artifact_components (af_file a)])) ([], []) (mf_artifacts m) = Inr ()"
      using art by (simp add: validate_artifacts_def)
    then show ?thesis using 1 check_each_Inr by (fastforce simp: in_set_conv_nth validate_artifact_def)
  next
    case 2
    then show ?thesis using stage [OF 2(1)] by (auto simp: validate_model_stage_def)
  next
    case 3
    then have "validate_preprocessing_step path (sg_id s) p = Inr ()"
      using stage [OF 3(1)] by (auto simp: validate_model_stage_def validate_preprocessing_def)
    then show ?thesis using 3 by (simp add: validate_preprocessing_step_def)
  qed
qed

text \<open>
  C26. Files of a model stay where the model is: every file that an accepted manifest names (artifacts, model
  files, preprocessing sidecars) is resolved to a path below the directory of the manifest, with plain names
  only, and never to the manifest itself. Symbolic links are not considered.
\<close>

theorem accepted_files_stay_in_directory:
  assumes "manifest_validate path m = Inr ()" "f \<in> manifest_files m"
  shows "\<exists>names. resolve_relative path f = manifest_directory path @ map Normal names \<and> names \<noteq> []
           \<and> (\<forall>n\<in>set names. n \<noteq> ''..'' \<and> n \<noteq> ''.'' \<and> CHR ''/'' \<notin> set n)
           \<and> (file_name (path_components path) \<noteq> None \<longrightarrow> resolve_relative path f \<noteq> path_components path)"
proof -
  have f: "validate_relative_artifact_path f = Inr ()" "validate_artifact_not_manifest_path path f = Inr ()"
    using manifest_files_checked [OF assms] by auto
  obtain names where names: "path_components f = map Normal names" "names \<noteq> []"
    "\<forall>n\<in>set names. n \<noteq> ''..'' \<and> n \<noteq> ''.'' \<and> CHR ''/'' \<notin> set n"
    using components_relative [OF f(1)] by blast
  have res: "resolve_relative path f = manifest_directory path @ map Normal names"
    using names(1,2) by (cases names) (auto simp: resolve_relative_def path_join_def manifest_directory_def)
  have "resolve_relative path f \<noteq> path_components path" if n: "file_name (path_components path) = Some n" for n
  proof
    assume eq: "resolve_relative path f = path_components path"
    have nonempty: "path_components path \<noteq> []" "last (path_components path) = Normal n"
      using n by (auto simp: file_name_def split: if_splits path_component.splits)
    then have "manifest_directory path = butlast (path_components path)" by (auto simp: manifest_directory_def path_parent_def)
    with eq res nonempty have "map Normal names = [Normal n]"
      by (metis append_butlast_last_id same_append_eq)
    then have "normalized_artifact_components f = [n]"
      using names(1) by (auto simp: normalized_artifact_components_def)
    then show False using f(2) n by (simp add: validate_artifact_not_manifest_path_def)
  qed
  then show ?thesis using res names(2,3) by blast
qed

section \<open>A model of two stages\<close>

text \<open>A classifier that uses the score of an autoencoder, declared before it.\<close>

definition sample_head :: output_head_spec where
  "sample_head = \<lparr>oh_name = ''score'', oh_index = 0, oh_shape = [''batch''], oh_semantic = AnomalySemantic,
                  oh_threshold = Some (Fin (1 / 2)), oh_min_confidence = None\<rparr>"

definition sample_encoder :: stage_spec where
  "sample_encoder =
     \<lparr>sg_id = ''ae'', sg_kind = Autoencoder, sg_model_file = ''ae.onnx'', sg_depends_on = [],
      sg_inputs = [\<lparr>in_name = ''dst_port'', in_source = FeatureInput, in_stage = None, in_output = None\<rparr>],
      sg_preprocessing = [], sg_output_heads = [sample_head]\<rparr>"

definition sample_classifier :: stage_spec where
  "sample_classifier =
     \<lparr>sg_id = ''clf'', sg_kind = Classifier, sg_model_file = ''m/clf.onnx'', sg_depends_on = [''ae''],
      sg_inputs = [\<lparr>in_name = ''ae_score'', in_source = StageOutput, in_stage = Some ''ae'', in_output = Some ''score''\<rparr>],
      sg_preprocessing = [], sg_output_heads = [sample_head]\<rparr>"

definition sample_manifest :: model_manifest where
  "sample_manifest =
     \<lparr>mf_name = ''ids'', mf_version = 1, mf_runtime = \<lparr>rn_pipeline_mode = ''dag'', rn_normal_label = ''Normal''\<rparr>,
      mf_artifacts = [\<lparr>af_id = ''a'', af_file = ''ae.onnx'', af_kind = Onnx\<rparr>, \<lparr>af_id = ''c'', af_file = ''m/clf.onnx'', af_kind = Onnx\<rparr>],
      mf_stages = [sample_classifier, sample_encoder],
      mf_outputs = [\<lparr>po_stage = ''clf'', po_output = ''score'', po_alias = None, po_role = BinaryScore\<rparr>],
      mf_detection_rules = [ThresholdRule ''r'' ''clf.score'' (FixedLabel ''Bot'')],
      mf_labels = [(''0'', \<lparr>lb_name = ''Bot'', lb_confirmations = Some 2, lb_playbook = None\<rparr>)],
      mf_alert_rules = [\<lparr>al_condition = ''c'', al_source_label = ''l''\<rparr>]\<rparr>"

lemmas sample_stage_defs = sample_head_def sample_encoder_def sample_classifier_def

lemma sample_topological: "topological_stages sample_manifest = Inr [sample_encoder, sample_classifier]"
proof -
  have stages: "mf_stages sample_manifest = [sample_classifier, sample_encoder]" by (simp add: sample_manifest_def)
  show ?thesis
    unfolding topological_stages_def stages
    by (simp add: topo_pass_def topo_visit_def sample_stage_defs)
qed

lemma not_blank [simp]: "\<forall>c\<in>set s. \<not> is_ascii_whitespace c \<Longrightarrow> blank s \<longleftrightarrow> s = []"
  by (simp add: blank_def trim_clean)

lemma sample_texts [simp]:
  "\<not> blank ''ids''" "\<not> blank ''Normal''" "\<not> blank ''a''" "\<not> blank ''c''" "\<not> blank ''ae''" "\<not> blank ''clf''" "\<not> blank ''score''"
  "\<not> blank ''dst_port''" "\<not> blank ''ae_score''" "\<not> blank ''r''" "\<not> blank ''l''"
  by (simp_all add: is_ascii_whitespace_def)

lemma sample_paths [simp]:
  "path_components ''ae.onnx'' = [Normal ''ae.onnx'']" "path_components ''m/clf.onnx'' = [Normal ''m'', Normal ''clf.onnx'']"
  "path_components ''models/manifest.json'' = [Normal ''models'', Normal ''manifest.json'']"
  "\<not> is_absolute ''ae.onnx''" "\<not> is_absolute ''m/clf.onnx''"
  by (simp_all add: path_components_def is_absolute_def starts_with_def component_of_def)

lemma sample_parts:
  "validate_artifacts ''models/manifest.json'' sample_manifest = Inr ()"
  "validate_stages ''models/manifest.json'' sample_manifest = Inr ()"
  "validate_stage_graph sample_manifest = Inr ()"
  "validate_stage_features sample_manifest = Inr ()"
proof -
  let ?p = "''models/manifest.json''"
  have fname [simp]: "file_name (path_components ?p) = Some ''manifest.json''" by (simp add: file_name_def)
  have paths [simp]: "validate_relative_artifact_path ''ae.onnx'' = Inr ()" "validate_relative_artifact_path ''m/clf.onnx'' = Inr ()"
    "validate_artifact_not_manifest_path ?p ''ae.onnx'' = Inr ()" "validate_artifact_not_manifest_path ?p ''m/clf.onnx'' = Inr ()"
    by (simp_all add: validate_relative_artifact_path_def validate_artifact_not_manifest_path_def normalized_artifact_components_def
                      file_name_def)
  show "validate_artifacts ?p sample_manifest = Inr ()"
    by (simp add: validate_artifacts_def validate_artifact_def sample_manifest_def normalized_artifact_components_def)
  have heads: "validate_outputs i [sample_head] = Inr ()" for i
    by (simp add: validate_outputs_def validate_output_head_def sample_head_def validate_output_shape_dim_def trim_clean
                  is_ascii_whitespace_def is_ascii_alphanumeric_def Let_def)
  show "validate_stages ?p sample_manifest = Inr ()"
    using heads
    by (simp add: validate_stages_def validate_model_stage_def sample_manifest_def sample_encoder_def sample_classifier_def
                  validate_stage_inputs_def validate_stage_input_def validate_preprocessing_def artifact_with_file_def)
  show "validate_stage_graph sample_manifest = Inr ()"
    unfolding validate_stage_graph_def sample_topological
    by (simp add: sample_manifest_def sample_stage_defs validate_dependency_def stage_by_id_def)
  show "validate_stage_features sample_manifest = Inr ()"
    unfolding validate_stage_features_def sample_topological
    using dst_port_known by (simp add: sample_stage_defs validate_input_available_def head_keys_def)
qed

lemma sample_accepted: "manifest_validate ''models/manifest.json'' sample_manifest = Inr ()"
proof -
  have "validate_pipeline_outputs sample_manifest = Inr ()"
    by (simp add: validate_pipeline_outputs_def validate_pipeline_output_def stage_by_id_def sample_manifest_def sample_stage_defs
                  output_reference_def stage_output_key_def head_of_def validate_output_role_def output_semantic_is_matrix_def)
  moreover have "show_nat 0 = ''0''" by (subst show_nat.simps) (simp add: decimal_digit_def char_of_def bit_0)
  then have "parse_unsigned 64 ''0'' = Some 0" using parse_show_nat [of 0 64] by simp
  then have "validate_labels sample_manifest = Inr ()"
    by (simp add: validate_labels_def validate_label_def sample_manifest_def)
  moreover have "validate_detection_rules sample_manifest = Inr ()"
    by (simp add: validate_detection_rules_def validate_rule_output_def pipeline_output_head_def pipeline_output_by_ref_def
                  output_matches_ref_def stage_output_key_def stage_by_id_def head_of_def sample_manifest_def sample_stage_defs
                  output_semantic_is_matrix_def validate_attack_mapping_def eq_ignore_ascii_case_def to_ascii_lowercase_def
                  to_ascii_lower_def)
  moreover have "validate_alert_rules sample_manifest = Inr ()" "validate_runtime sample_manifest = Inr ()"
    by (simp_all add: validate_alert_rules_def validate_runtime_def sample_manifest_def)
  ultimately show ?thesis
    using sample_parts by (simp add: manifest_validate_def) (simp add: sample_manifest_def MANIFEST_VERSION_def)
qed

theorem topological_order_is_found_witness:
  "topological_stages sample_manifest = Inr [sample_encoder, sample_classifier]
   \<and> mset [sample_encoder, sample_classifier] = mset (mf_stages sample_manifest) \<and> dependency_order [sample_encoder, sample_classifier]"
  using topological_order_is_found [of sample_manifest] sample_topological
  by (simp add: sample_manifest_def sample_stage_defs)

theorem accepted_files_stay_in_directory_witness:
  "\<exists>names. resolve_relative ''models/manifest.json'' ''m/clf.onnx'' = [Normal ''models''] @ map Normal names \<and> names \<noteq> []"
proof -
  have "''m/clf.onnx'' \<in> manifest_files sample_manifest" by (simp add: manifest_files_def sample_manifest_def)
  from accepted_files_stay_in_directory [OF sample_accepted this] show ?thesis
    by (simp add: manifest_directory_def path_parent_def) blast
qed

end
