(* ===== verification/Flow_Tracker.thy ===== *)
theory Flow_Tracker
  imports Abi_Models Rust_Net
begin

text \<open>
  Flows: the packets of a connection in both directions, with the counters the features are computed from
  (\<^verbatim>\<open>domain/detection/flow_tracker.rs\<close>, \<^verbatim>\<open>domain/detection/ml_detection.rs\<close>), and the table of
  flows of a receive queue (\<^verbatim>\<open>core/inference/flow_tracker.rs\<close>). The table is a bounded cache of a library;
  which entries it evicts is an argument of the operations, and so is the order of its iteration. Counters wrap at their
  widths, as in a release build.
\<close>

definition TCP_URG :: u8 where "TCP_URG = 0x20"
definition TCP_ECE :: u8 where "TCP_ECE = 0x40"
definition TCP_CWR :: u8 where "TCP_CWR = 0x80"

section \<open>Keys and packets\<close>

datatype traffic_direction = Ingress | Egress

record user_packet =
  up_ip_version :: ip_version
  up_protocol :: u8
  up_tcp_flags :: u8
  up_src_ip :: bytes
  up_dst_ip :: bytes
  up_src_port :: u16
  up_dst_port :: u16
  up_packet_length :: u32
  up_payload_length :: u32
  up_header_length :: u16
  up_tcp_window_size :: u16
  up_timestamp_us :: u64
  up_is_forward :: bool

record flow_key =
  fk_src_ip :: bytes
  fk_dst_ip :: bytes
  fk_src_port :: u16
  fk_dst_port :: u16
  fk_protocol :: u8
  fk_ip_version :: ip_version

definition flow_key_from_packet :: "user_packet \<Rightarrow> flow_key" where
  "flow_key_from_packet p =
     \<lparr>fk_src_ip = up_src_ip p, fk_dst_ip = up_dst_ip p, fk_src_port = up_src_port p, fk_dst_port = up_dst_port p,
      fk_protocol = up_protocol p, fk_ip_version = up_ip_version p\<rparr>"

definition reverse_key :: "flow_key \<Rightarrow> flow_key" where
  "reverse_key k =
     \<lparr>fk_src_ip = fk_dst_ip k, fk_dst_ip = fk_src_ip k, fk_src_port = fk_dst_port k, fk_dst_port = fk_src_port k,
      fk_protocol = fk_protocol k, fk_ip_version = fk_ip_version k\<rparr>"

definition ip_bytes_to_string :: "flow_key \<Rightarrow> bytes \<Rightarrow> string" where
  "ip_bytes_to_string k bs =
     (if fk_ip_version k = V6 then show_ipv6 (from_be_bytes bs) else show_ipv4 (from_be_bytes (take 4 bs)))"

record packet_data =
  pd_timestamp_us :: u64
  pd_length :: u32
  pd_header_length :: u16
  pd_payload_length :: u32
  pd_flags :: u8

record bulk_state =
  bs_bulk_count :: u32
  bs_total_bytes :: u64
  bs_total_packets :: u64
  bs_total_duration_us :: u64
  bs_last_bulk_bytes :: u64
  bs_last_bulk_packets :: u64
  bs_last_bulk_start_us :: u64
  bs_last_bulk_packet_us :: u64
  bs_in_bulk :: bool

definition BulkState_default :: bulk_state where
  "BulkState_default =
     \<lparr>bs_bulk_count = 0, bs_total_bytes = 0, bs_total_packets = 0, bs_total_duration_us = 0, bs_last_bulk_bytes = 0,
      bs_last_bulk_packets = 0, bs_last_bulk_start_us = 0, bs_last_bulk_packet_us = 0, bs_in_bulk = False\<rparr>"

section \<open>A flow\<close>

record flow_limits =
  fl_max_packets_per_direction :: nat
  fl_max_periods :: nat
  fl_idle_threshold_us :: u64
  fl_bulk_min_packets :: u64
  fl_bulk_min_bytes :: u64
  fl_idle_timeout_us :: u64
  fl_terminated_timeout_us :: u64

record flow_data =
  fd_flow_key :: flow_key
  fd_direction :: traffic_direction
  fd_start_time_us :: u64
  fd_last_time_us :: u64
  fd_fwd_packets :: "packet_data list"
  fd_fwd_total_bytes :: u64
  fd_fwd_header_bytes :: u64
  fd_bwd_packets :: "packet_data list"
  fd_bwd_total_bytes :: u64
  fd_bwd_header_bytes :: u64
  fd_fin_count :: u32
  fd_syn_count :: u32
  fd_rst_count :: u32
  fd_psh_count :: u32
  fd_ack_count :: u32
  fd_urg_count :: u32
  fd_cwe_count :: u32
  fd_ece_count :: u32
  fd_init_win_bytes_fwd :: u16
  fd_init_win_bytes_bwd :: u16
  fd_active_periods :: "u64 list"
  fd_idle_periods :: "u64 list"
  fd_last_packet_time :: u64
  fd_fwd_bulk_state :: bulk_state
  fd_bwd_bulk_state :: bulk_state
  fd_act_data_pkt_fwd :: u32
  fd_is_first_packet :: bool

definition FlowData_new :: "flow_key \<Rightarrow> user_packet \<Rightarrow> traffic_direction \<Rightarrow> flow_data" where
  "FlowData_new key first dir =
     \<lparr>fd_flow_key = key, fd_direction = dir, fd_start_time_us = up_timestamp_us first, fd_last_time_us = up_timestamp_us first,
      fd_fwd_packets = [], fd_fwd_total_bytes = 0, fd_fwd_header_bytes = 0, fd_bwd_packets = [], fd_bwd_total_bytes = 0,
      fd_bwd_header_bytes = 0, fd_fin_count = 0, fd_syn_count = 0, fd_rst_count = 0, fd_psh_count = 0, fd_ack_count = 0,
      fd_urg_count = 0, fd_cwe_count = 0, fd_ece_count = 0,
      fd_init_win_bytes_fwd = (if up_is_forward first then up_tcp_window_size first else 0),
      fd_init_win_bytes_bwd = (if \<not> up_is_forward first then up_tcp_window_size first else 0),
      fd_active_periods = [], fd_idle_periods = [], fd_last_packet_time = up_timestamp_us first,
      fd_fwd_bulk_state = BulkState_default, fd_bwd_bulk_state = BulkState_default, fd_act_data_pkt_fwd = 0,
      fd_is_first_packet = True\<rparr>"

definition update_bulk_state :: "flow_limits \<Rightarrow> packet_data \<Rightarrow> bulk_state \<Rightarrow> bulk_state" where
  "update_bulk_state limits p b =
     (if pd_payload_length p > 0 then
        if \<not> bs_in_bulk b then
          b\<lparr>bs_in_bulk := True, bs_last_bulk_bytes := ucast (pd_length p), bs_last_bulk_packets := 1,
            bs_last_bulk_start_us := pd_timestamp_us p, bs_last_bulk_packet_us := pd_timestamp_us p\<rparr>
        else
          b\<lparr>bs_last_bulk_bytes := bs_last_bulk_bytes b + ucast (pd_length p), bs_last_bulk_packets := bs_last_bulk_packets b + 1,
            bs_last_bulk_packet_us := pd_timestamp_us p\<rparr>
      else
        let b = (if bs_in_bulk b \<and> bs_last_bulk_packets b \<ge> fl_bulk_min_packets limits
                    \<and> bs_last_bulk_bytes b \<ge> fl_bulk_min_bytes limits
                 then b\<lparr>bs_bulk_count := bs_bulk_count b + 1, bs_total_bytes := bs_total_bytes b + bs_last_bulk_bytes b,
                        bs_total_packets := bs_total_packets b + bs_last_bulk_packets b,
                        bs_total_duration_us :=
                          bs_total_duration_us b + saturating_sub (bs_last_bulk_packet_us b) (bs_last_bulk_start_us b)\<rparr>
                 else b)
        in b\<lparr>bs_in_bulk := False, bs_last_bulk_bytes := 0, bs_last_bulk_packets := 0, bs_last_bulk_start_us := 0,
             bs_last_bulk_packet_us := 0\<rparr>)"

definition has_flag :: "user_packet \<Rightarrow> u8 \<Rightarrow> bool" where
  "has_flag p f \<longleftrightarrow> up_tcp_flags p AND f \<noteq> 0"

definition bump :: "user_packet \<Rightarrow> u8 \<Rightarrow> u32 \<Rightarrow> u32" where
  "bump p f n = (if has_flag p f then n + 1 else n)"

definition packet_data_of :: "user_packet \<Rightarrow> packet_data" where
  "packet_data_of p =
     \<lparr>pd_timestamp_us = up_timestamp_us p, pd_length = up_packet_length p, pd_header_length = up_header_length p,
      pd_payload_length = up_payload_length p, pd_flags = up_tcp_flags p\<rparr>"

definition count_flags :: "user_packet \<Rightarrow> flow_data \<Rightarrow> flow_data" where
  "count_flags p d =
     d\<lparr>fd_fin_count := bump p TCP_FIN (fd_fin_count d), fd_syn_count := bump p TCP_SYN (fd_syn_count d),
       fd_rst_count := bump p TCP_RST (fd_rst_count d), fd_psh_count := bump p TCP_PSH (fd_psh_count d),
       fd_ack_count := bump p TCP_ACK (fd_ack_count d), fd_urg_count := bump p TCP_URG (fd_urg_count d),
       fd_cwe_count := bump p TCP_CWR (fd_cwe_count d), fd_ece_count := bump p TCP_ECE (fd_ece_count d)\<rparr>"

definition note_period :: "flow_limits \<Rightarrow> u64 \<Rightarrow> flow_data \<Rightarrow> flow_data" where
  "note_period limits iat d =
     (if iat > fl_idle_threshold_us limits
      then (if length (fd_idle_periods d) < fl_max_periods limits then d\<lparr>fd_idle_periods := fd_idle_periods d @ [iat]\<rparr> else d)
      else if iat > 0 \<and> length (fd_active_periods d) < fl_max_periods limits
      then d\<lparr>fd_active_periods := fd_active_periods d @ [iat]\<rparr>
      else d)"

definition push_bounded :: "nat \<Rightarrow> 'a \<Rightarrow> 'a list \<Rightarrow> 'a list" where
  "push_bounded n x xs = (if length xs < n then xs @ [x] else xs)"

definition add_packet :: "flow_limits \<Rightarrow> user_packet \<Rightarrow> flow_data \<Rightarrow> flow_data" where
  "add_packet limits p d =
     (let pd = packet_data_of p;
          d = count_flags p d;
          d = note_period limits (saturating_sub (up_timestamp_us p) (fd_last_packet_time d)) d;
          d = d\<lparr>fd_last_packet_time := up_timestamp_us p, fd_last_time_us := up_timestamp_us p\<rparr>;
          d = (if fd_is_first_packet d then d\<lparr>fd_is_first_packet := False\<rparr>
               else if up_is_forward p \<and> up_payload_length p > 0 then d\<lparr>fd_act_data_pkt_fwd := fd_act_data_pkt_fwd d + 1\<rparr>
               else d)
      in if up_is_forward p then
           d\<lparr>fd_fwd_packets := push_bounded (fl_max_packets_per_direction limits) pd (fd_fwd_packets d),
             fd_fwd_total_bytes := fd_fwd_total_bytes d + ucast (up_packet_length p),
             fd_fwd_header_bytes := fd_fwd_header_bytes d + ucast (up_header_length p),
             fd_init_win_bytes_fwd := (if fd_init_win_bytes_fwd d = 0 then up_tcp_window_size p else fd_init_win_bytes_fwd d),
             fd_fwd_bulk_state := update_bulk_state limits pd (fd_fwd_bulk_state d)\<rparr>
         else
           d\<lparr>fd_bwd_packets := push_bounded (fl_max_packets_per_direction limits) pd (fd_bwd_packets d),
             fd_bwd_total_bytes := fd_bwd_total_bytes d + ucast (up_packet_length p),
             fd_bwd_header_bytes := fd_bwd_header_bytes d + ucast (up_header_length p),
             fd_init_win_bytes_bwd := (if fd_init_win_bytes_bwd d = 0 then up_tcp_window_size p else fd_init_win_bytes_bwd d),
             fd_bwd_bulk_state := update_bulk_state limits pd (fd_bwd_bulk_state d)\<rparr>)"

definition flow_duration_us :: "flow_data \<Rightarrow> u64" where
  "flow_duration_us d = saturating_sub (fd_last_time_us d) (fd_start_time_us d)"

definition flow_packet_count :: "flow_data \<Rightarrow> nat" where
  "flow_packet_count d = length (fd_fwd_packets d) + length (fd_bwd_packets d)"

section \<open>The table of flows\<close>

record tracked_flow =
  tf_data :: flow_data
  tf_last_inferred_us :: u64

type_synonym flow_table = "flow_key \<Rightarrow> tracked_flow option"

text \<open>What the cache keeps of its entries after an insertion.\<close>

type_synonym eviction = "flow_table \<Rightarrow> flow_table"

definition append_packet :: "flow_limits \<Rightarrow> flow_key \<Rightarrow> user_packet \<Rightarrow> tracked_flow \<Rightarrow> flow_table \<Rightarrow> flow_table" where
  "append_packet limits k p e t = t(k \<mapsto> e\<lparr>tf_data := add_packet limits p (tf_data e)\<rparr>)"

definition initiating :: "user_packet \<Rightarrow> bool \<Rightarrow> bool" where
  "initiating p is_ingress =
     (if has_flag p TCP_SYN \<and> has_flag p TCP_ACK then \<not> is_ingress
      else if has_flag p TCP_SYN then True
      else \<not> is_ingress)"

definition process_packet :: "flow_limits \<Rightarrow> eviction \<Rightarrow> user_packet \<Rightarrow> bool \<Rightarrow> flow_table \<Rightarrow> flow_table" where
  "process_packet limits evict p is_ingress t =
     (let key = flow_key_from_packet p; rkey = reverse_key key
      in case t key of
           Some e \<Rightarrow> append_packet limits key (p\<lparr>up_is_forward := True\<rparr>) e t
         | None \<Rightarrow>
             (case t rkey of
                Some e \<Rightarrow> append_packet limits rkey (p\<lparr>up_is_forward := False\<rparr>) e t
              | None \<Rightarrow>
                  let is_forward = initiating p is_ingress;
                      actual = (if is_forward then key else rkey);
                      p = p\<lparr>up_is_forward := is_forward\<rparr>;
                      dir = (if is_forward then (if is_ingress then Ingress else Egress) else (if is_ingress then Egress else Ingress));
                      e = \<lparr>tf_data = FlowData_new actual p dir, tf_last_inferred_us = 0\<rparr>
                  in evict (append_packet limits actual p e t)))"

text \<open>\<open>keys\<close> is the order in which the table is iterated.\<close>

fun get_uninferred :: "nat \<Rightarrow> flow_key list \<Rightarrow> flow_table \<Rightarrow> flow_data list \<times> flow_table" where
  "get_uninferred limit [] t = ([], t)"
| "get_uninferred limit (k # ks) t =
     (if limit = 0 then ([], t)
      else case t k of
             None \<Rightarrow> get_uninferred limit ks t
           | Some e \<Rightarrow>
               if fd_last_time_us (tf_data e) > tf_last_inferred_us e then
                 let (ds, t') = get_uninferred (limit - 1) ks (t(k \<mapsto> e\<lparr>tf_last_inferred_us := fd_last_time_us (tf_data e)\<rparr>))
                 in (tf_data e # ds, t')
               else get_uninferred limit ks t)"

definition is_stale :: "flow_limits \<Rightarrow> u64 \<Rightarrow> flow_data \<Rightarrow> bool" where
  "is_stale limits now_us d =
     (let idle = saturating_sub now_us (fd_last_time_us d)
      in if fd_fin_count d > 0 \<or> fd_rst_count d > 0 then idle \<ge> fl_terminated_timeout_us limits
         else idle \<ge> fl_idle_timeout_us limits)"

definition cleanup_stale_flows :: "flow_limits \<Rightarrow> u64 \<Rightarrow> flow_table \<Rightarrow> flow_table" where
  "cleanup_stale_flows limits now_us t =
     (\<lambda>k. case t k of Some e \<Rightarrow> if is_stale limits now_us (tf_data e) then None else Some e | None \<Rightarrow> None)"

section \<open>What a flow says of its packets\<close>

lemma add_packet_fields [simp]:
  "fd_flow_key (add_packet l p d) = fd_flow_key d"
  "fd_start_time_us (add_packet l p d) = fd_start_time_us d"
  "fd_last_time_us (add_packet l p d) = up_timestamp_us p"
  "fd_fwd_packets (add_packet l p d) =
     (if up_is_forward p then push_bounded (fl_max_packets_per_direction l) (packet_data_of p) (fd_fwd_packets d) else fd_fwd_packets d)"
  "fd_bwd_packets (add_packet l p d) =
     (if up_is_forward p then fd_bwd_packets d else push_bounded (fl_max_packets_per_direction l) (packet_data_of p) (fd_bwd_packets d))"
  "fd_fwd_total_bytes (add_packet l p d) =
     (if up_is_forward p then fd_fwd_total_bytes d + ucast (up_packet_length p) else fd_fwd_total_bytes d)"
  "fd_bwd_total_bytes (add_packet l p d) =
     (if up_is_forward p then fd_bwd_total_bytes d else fd_bwd_total_bytes d + ucast (up_packet_length p))"
  "fd_syn_count (add_packet l p d) = bump p TCP_SYN (fd_syn_count d)"
  "fd_fin_count (add_packet l p d) = bump p TCP_FIN (fd_fin_count d)"
  "fd_rst_count (add_packet l p d) = bump p TCP_RST (fd_rst_count d)"
  by (simp_all add: add_packet_def note_period_def count_flags_def Let_def)

lemma packet_data_of_direction [simp]: "packet_data_of (p\<lparr>up_is_forward := b\<rparr>) = packet_data_of p"
  by (simp add: packet_data_of_def)

lemma bump_direction [simp]: "bump (p\<lparr>up_is_forward := b\<rparr>) f n = bump p f n"
  by (simp add: bump_def has_flag_def)

lemma FlowData_new_fields [simp]:
  "fd_flow_key (FlowData_new k p dir) = k" "fd_start_time_us (FlowData_new k p dir) = up_timestamp_us p"
  "fd_fwd_packets (FlowData_new k p dir) = []" "fd_bwd_packets (FlowData_new k p dir) = []"
  "fd_fwd_total_bytes (FlowData_new k p dir) = 0" "fd_bwd_total_bytes (FlowData_new k p dir) = 0"
  "fd_syn_count (FlowData_new k p dir) = 0" "fd_fin_count (FlowData_new k p dir) = 0" "fd_rst_count (FlowData_new k p dir) = 0"
  by (simp_all add: FlowData_new_def)

lemma push_bounded_take: "push_bounded n x (take n xs) = take n (xs @ [x])"
  by (auto simp: push_bounded_def)

lemma reverse_reverse [simp]: "reverse_key (reverse_key k) = k"
  by (simp add: reverse_key_def)

text \<open>The packets of a connection in the order of arrival, and what its flow records of them.\<close>

definition of_connection :: "flow_key \<Rightarrow> user_packet \<Rightarrow> bool" where
  "of_connection k p \<longleftrightarrow> flow_key_from_packet p = k \<or> flow_key_from_packet p = reverse_key k"

definition forward_of :: "flow_key \<Rightarrow> user_packet list \<Rightarrow> user_packet list" where
  "forward_of k ps = filter (\<lambda>p. flow_key_from_packet p = k) ps"

definition backward_of :: "flow_key \<Rightarrow> user_packet list \<Rightarrow> user_packet list" where
  "backward_of k ps = filter (\<lambda>p. flow_key_from_packet p \<noteq> k) ps"

definition total_bytes_of :: "user_packet list \<Rightarrow> u64" where
  "total_bytes_of ps = sum_list (map (\<lambda>p. ucast (up_packet_length p)) ps)"

definition flagged :: "u8 \<Rightarrow> user_packet list \<Rightarrow> u32" where
  "flagged f ps = of_nat (length (filter (\<lambda>p. has_flag p f) ps))"

definition summarises :: "flow_limits \<Rightarrow> flow_key \<Rightarrow> user_packet list \<Rightarrow> flow_data \<Rightarrow> bool" where
  "summarises l k ps d \<longleftrightarrow>
     ps \<noteq> [] \<and> fd_flow_key d = k
     \<and> fd_start_time_us d = up_timestamp_us (hd ps) \<and> fd_last_time_us d = up_timestamp_us (last ps)
     \<and> fd_fwd_packets d = take (fl_max_packets_per_direction l) (map packet_data_of (forward_of k ps))
     \<and> fd_bwd_packets d = take (fl_max_packets_per_direction l) (map packet_data_of (backward_of k ps))
     \<and> fd_fwd_total_bytes d = total_bytes_of (forward_of k ps) \<and> fd_bwd_total_bytes d = total_bytes_of (backward_of k ps)
     \<and> fd_syn_count d = flagged TCP_SYN ps \<and> fd_fin_count d = flagged TCP_FIN ps \<and> fd_rst_count d = flagged TCP_RST ps"

lemma flagged_snoc [simp]: "flagged f (ps @ [p]) = bump p f (flagged f ps)"
  by (simp add: flagged_def bump_def)

lemma flagged_Nil [simp]: "flagged f [] = 0"
  by (simp add: flagged_def)

lemma summarises_add:
  assumes "summarises l k ps d"
  shows "summarises l k (ps @ [p]) (add_packet l (p\<lparr>up_is_forward := (flow_key_from_packet p = k)\<rparr>) d)"
  using assms
  by (simp add: summarises_def forward_of_def backward_of_def total_bytes_of_def push_bounded_take del: take_append)

lemma summarises_first:
  assumes "fwd = (flow_key_from_packet p = k)"
  shows "summarises l k [p] (add_packet l (p\<lparr>up_is_forward := fwd\<rparr>) (FlowData_new k (p\<lparr>up_is_forward := fwd\<rparr>) dir))"
  using assms flagged_snoc [of _ "[]" p]
  by (auto simp: summarises_def forward_of_def backward_of_def total_bytes_of_def push_bounded_def)

section \<open>The table over time\<close>

inductive tracked :: "flow_limits \<Rightarrow> user_packet list \<Rightarrow> flow_table \<Rightarrow> bool" for l :: flow_limits where
  start: "tracked l [] Map.empty"
| packet: "tracked l h t \<Longrightarrow> (\<And>t. evict t \<subseteq>\<^sub>m t) \<Longrightarrow> tracked l (h @ [p]) (process_packet l evict p is_ingress t)"
| evict: "tracked l h t \<Longrightarrow> t' \<subseteq>\<^sub>m t \<Longrightarrow> tracked l h t'"
| cleanup: "tracked l h t \<Longrightarrow> tracked l h (cleanup_stale_flows l now t)"
| infer: "tracked l h t \<Longrightarrow> get_uninferred limit ks t = (ds, t') \<Longrightarrow> tracked l h t'"

text \<open>The packets of the connection since some point of the history.\<close>

definition recent :: "flow_key \<Rightarrow> nat \<Rightarrow> user_packet list \<Rightarrow> user_packet list" where
  "recent k n h = filter (of_connection k) (drop n h)"

definition flow_inv :: "flow_limits \<Rightarrow> user_packet list \<Rightarrow> flow_table \<Rightarrow> bool" where
  "flow_inv l h t \<longleftrightarrow>
     (\<forall>k e. t k = Some e \<longrightarrow> reverse_key k \<noteq> k \<longrightarrow>
        t (reverse_key k) = None \<and> (\<exists>n\<le>length h. summarises l k (recent k n h) (tf_data e)))"

lemma recent_snoc:
  "n \<le> length h \<Longrightarrow> recent k n (h @ [p]) = (if of_connection k p then recent k n h @ [p] else recent k n h)"
  by (simp add: recent_def)

lemma flow_inv_submap: "flow_inv l h t \<Longrightarrow> t' \<subseteq>\<^sub>m t \<Longrightarrow> flow_inv l h t'"
  unfolding flow_inv_def map_le_def by (metis domI domIff)

lemma flow_inv_same_data:
  assumes "flow_inv l h t" "\<And>k. map_option tf_data (t' k) = map_option tf_data (t k)"
  shows "flow_inv l h t'"
  unfolding flow_inv_def
proof (intro allI impI)
  fix k e assume e: "t' k = Some e" and k: "reverse_key k \<noteq> k"
  obtain e0 where "t k = Some e0" "tf_data e0 = tf_data e" using assms(2) [of k] e by (cases "t k") auto
  moreover have "t' (reverse_key k) = None \<longleftrightarrow> t (reverse_key k) = None" using assms(2) [of "reverse_key k"] by (metis map_option_is_None)
  ultimately show "t' (reverse_key k) = None \<and> (\<exists>n\<le>length h. summarises l k (recent k n h) (tf_data e))"
    using assms(1) k unfolding flow_inv_def by metis
qed

text \<open>A packet goes to one flow \<open>k\<close> of its connection; the other flows are left alone and do not miss a packet.\<close>

lemma flow_inv_upd:
  assumes inv: "flow_inv l h t" and conn: "of_connection k p" and rev: "reverse_key k \<noteq> k \<Longrightarrow> t (reverse_key k) = None"
    and data: "reverse_key k \<noteq> k \<Longrightarrow> \<exists>n\<le>length h. summarises l k (recent k n h @ [p]) (tf_data e)"
  shows "flow_inv l (h @ [p]) (t(k \<mapsto> e))"
  unfolding flow_inv_def
proof (intro allI impI)
  fix j f assume f: "(t(k \<mapsto> e)) j = Some f" and j: "reverse_key j \<noteq> j"
  show "(t(k \<mapsto> e)) (reverse_key j) = None \<and> (\<exists>n\<le>length (h @ [p]). summarises l j (recent j n (h @ [p])) (tf_data f))"
  proof (cases "j = k")
    case True
    then obtain n where n: "n \<le> length h" "summarises l k (recent k n h @ [p]) (tf_data f)" using f j data by auto
    then have "summarises l k (recent k n (h @ [p])) (tf_data f)" using recent_snoc conn by simp
    with n(1) True j rev show ?thesis by (intro conjI exI [of _ n]) auto
  next
    case False
    have jk: "reverse_key j \<noteq> k"
    proof
      assume "reverse_key j = k"
      then have "reverse_key k = j" by (metis reverse_reverse)
      then show False using rev f False j \<open>reverse_key j = k\<close> by auto
    qed
    then have "\<not> of_connection j p" using conn False by (auto simp: of_connection_def) (metis reverse_reverse)+
    moreover from False f have fj: "t j = Some f" by simp
    with inv j obtain n where n: "n \<le> length h" "summarises l j (recent j n h) (tf_data f)" unfolding flow_inv_def by blast
    ultimately have "summarises l j (recent j n (h @ [p])) (tf_data f)" using recent_snoc by simp
    moreover have "t (reverse_key j) = None" using inv j fj by (simp add: flow_inv_def)
    ultimately show ?thesis using n(1) jk by (intro conjI exI [of _ n]) auto
  qed
qed

lemma flow_inv_packet:
  assumes inv: "flow_inv l h t" and ev: "\<And>t. evict t \<subseteq>\<^sub>m t"
  shows "flow_inv l (h @ [p]) (process_packet l evict p is_ingress t)"
proof -
  let ?k = "flow_key_from_packet p"
  have conn: "of_connection ?k p" "of_connection (reverse_key ?k) p" by (simp_all add: of_connection_def)
  have known: "flow_inv l (h @ [p]) (append_packet l k (p\<lparr>up_is_forward := fwd\<rparr>) e t)"
    if e: "t k = Some e" and k: "of_connection k p" "fwd = (?k = k)" for k fwd e
    unfolding append_packet_def
  proof (rule flow_inv_upd [OF inv k(1)])
    assume r: "reverse_key k \<noteq> k"
    then show "t (reverse_key k) = None" using inv e by (simp add: flow_inv_def)
    obtain n where "n \<le> length h" "summarises l k (recent k n h) (tf_data e)" using inv e r unfolding flow_inv_def by blast
    then show "\<exists>n\<le>length h. summarises l k (recent k n h @ [p]) (tf_data (e\<lparr>tf_data := add_packet l (p\<lparr>up_is_forward := fwd\<rparr>) (tf_data e)\<rparr>))"
      using summarises_add [of l k "recent k n h" "tf_data e" p] k(2) by auto
  qed
  have new: "flow_inv l (h @ [p]) (append_packet l k (p\<lparr>up_is_forward := fwd\<rparr>)
      \<lparr>tf_data = FlowData_new k (p\<lparr>up_is_forward := fwd\<rparr>) dir, tf_last_inferred_us = 0\<rparr> t)"
    if k: "of_connection k p" "t (reverse_key k) = None" "reverse_key k \<noteq> k \<Longrightarrow> fwd = (?k = k)" for k fwd dir
    unfolding append_packet_def
  proof (rule flow_inv_upd [OF inv k(1,2)])
    assume "reverse_key k \<noteq> k"
    then show "\<exists>n\<le>length h. summarises l k (recent k n h @ [p]) (tf_data (\<lparr>tf_data = FlowData_new k (p\<lparr>up_is_forward := fwd\<rparr>) dir,
        tf_last_inferred_us = 0\<rparr>\<lparr>tf_data := add_packet l (p\<lparr>up_is_forward := fwd\<rparr>)
          (tf_data \<lparr>tf_data = FlowData_new k (p\<lparr>up_is_forward := fwd\<rparr>) dir, tf_last_inferred_us = 0\<rparr>)\<rparr>))"
      using summarises_first [OF k(3)] by (intro exI [of _ "length h"]) (simp add: recent_def)
  qed
  show ?thesis
  proof (cases "t ?k")
    case (Some e)
    then show ?thesis using known [OF Some conn(1) refl] by (simp add: process_packet_def Let_def)
  next
    case None
    show ?thesis
    proof (cases "t (reverse_key ?k)")
      case (Some e)
      have "(?k = reverse_key ?k) = False" using None Some by (cases "?k = reverse_key ?k") auto
      then show ?thesis using known [OF Some conn(2)] None Some by (simp add: process_packet_def Let_def)
    next
      case none: None
      have "flow_inv l (h @ [p]) (append_packet l (if initiating p is_ingress then ?k else reverse_key ?k)
              (p\<lparr>up_is_forward := initiating p is_ingress\<rparr>)
              \<lparr>tf_data = FlowData_new (if initiating p is_ingress then ?k else reverse_key ?k)
                 (p\<lparr>up_is_forward := initiating p is_ingress\<rparr>) dir, tf_last_inferred_us = 0\<rparr> t)" for dir
        by (rule new) (use conn none None in \<open>auto split: if_splits\<close>)
      then show ?thesis
        using None none flow_inv_submap [OF _ ev] by (auto simp: process_packet_def Let_def)
    qed
  qed
qed

lemma uninferred_keeps: "get_uninferred limit ks t = (ds, t') \<Longrightarrow> map_option tf_data (t' k) = map_option tf_data (t k)"
proof (induction ks arbitrary: limit t ds)
  case (Cons ka ks)
  show ?case
  proof (cases "limit = 0 \<or> t ka = None \<or> fd_last_time_us (tf_data (the (t ka))) \<le> tf_last_inferred_us (the (t ka))")
    case True
    then show ?thesis using Cons by (cases "t ka") (auto simp: not_less split: if_splits)
  next
    case False
    then obtain e where e: "t ka = Some e" by auto
    let ?t = "t(ka \<mapsto> e\<lparr>tf_last_inferred_us := fd_last_time_us (tf_data e)\<rparr>)"
    obtain ds1 where "get_uninferred (limit - 1) ks ?t = (ds1, t')"
      using Cons.prems False e by (auto simp: not_le split: prod.splits if_splits)
    from Cons.IH [OF this] e show ?thesis by (auto split: if_splits)
  qed
qed simp

lemma flow_inv_infer: "flow_inv l h t \<Longrightarrow> get_uninferred limit ks t = (ds, t') \<Longrightarrow> flow_inv l h t'"
  by (erule flow_inv_same_data) (rule uninferred_keeps)

lemma flow_cleanup_submap: "cleanup_stale_flows l now t \<subseteq>\<^sub>m t"
  by (auto simp: map_le_def cleanup_stale_flows_def split: option.splits if_splits)

lemma tracked_inv: "tracked l h t \<Longrightarrow> flow_inv l h t"
proof (induction rule: tracked.induct)
  case start
  then show ?case by (simp add: flow_inv_def)
next
  case (packet h t evict p is_ingress)
  then show ?case by (blast intro: flow_inv_packet)
next
  case (infer h t limit ks ds t')
  then show ?case by (blast intro: flow_inv_infer)
qed (blast intro: flow_inv_submap flow_cleanup_submap)+

text \<open>
  C24. Flow accounting is exact: whatever packets arrived, in whatever interleaving of connections, and whatever the
  cache evicted, was cleaned up or handed to the models, the entry of a key between two different ends is the only one
  of its connection, and since some point of the history it has recorded every packet of the connection and nothing
  else, each on its side: the first packets of either side up to the limit, the bytes of both sides (modulo
  \<open>2\<^sup>6\<^sup>4\<close>), the SYN, FIN and RST counts (modulo \<open>2\<^sup>3\<^sup>2\<close>) and the times of the first and the last packet.
\<close>

theorem flow_accounting_is_exact:
  assumes "tracked l h t" "t k = Some e" "reverse_key k \<noteq> k"
  shows "t (reverse_key k) = None \<and> (\<exists>n\<le>length h. summarises l k (filter (of_connection k) (drop n h)) (tf_data e))"
  using tracked_inv [OF assms(1)] assms(2,3) by (simp add: flow_inv_def recent_def)

definition sample_packet :: user_packet where
  "sample_packet =
     \<lparr>up_ip_version = V4, up_protocol = 6, up_tcp_flags = 2, up_src_ip = [10, 0, 0, 1], up_dst_ip = [10, 0, 0, 2],
      up_src_port = 40000, up_dst_port = 80, up_packet_length = 60, up_payload_length = 0, up_header_length = 40,
      up_tcp_window_size = 1024, up_timestamp_us = 5, up_is_forward = True\<rparr>"

definition sample_limits :: flow_limits where
  "sample_limits =
     \<lparr>fl_max_packets_per_direction = 100, fl_max_periods = 10, fl_idle_threshold_us = 1000, fl_bulk_min_packets = 4,
      fl_bulk_min_bytes = 1000, fl_idle_timeout_us = 120000000, fl_terminated_timeout_us = 5000000\<rparr>"

theorem flow_accounting_is_exact_witness:
  "\<exists>t e. tracked sample_limits [sample_packet] t \<and> t (flow_key_from_packet sample_packet) = Some e
     \<and> fd_fwd_total_bytes (tf_data e) = 60 \<and> fd_syn_count (tf_data e) = 1"
proof -
  let ?k = "flow_key_from_packet sample_packet"
  let ?t = "process_packet sample_limits id sample_packet True Map.empty"
  have t: "tracked sample_limits [sample_packet] ?t" using tracked.packet [OF tracked.start, of id sample_limits sample_packet True] by simp
  have "has_flag sample_packet TCP_SYN" "\<not> has_flag sample_packet TCP_ACK"
    by (simp_all add: has_flag_def sample_packet_def TCP_SYN_def TCP_ACK_def)
  then obtain e where e: "?t ?k = Some e"
    by (auto simp: process_packet_def append_packet_def initiating_def Let_def)
  have r: "reverse_key ?k \<noteq> ?k" by (simp add: reverse_key_def flow_key_from_packet_def sample_packet_def)
  obtain n where n: "n \<le> 1" "summarises sample_limits ?k (filter (of_connection ?k) (drop n [sample_packet])) (tf_data e)"
    using flow_accounting_is_exact [OF t e r] by auto
  then have "n = 0" by (cases n) (auto simp: summarises_def)
  with n have "summarises sample_limits ?k [sample_packet] (tf_data e)" by (simp add: of_connection_def)
  then have "fd_fwd_total_bytes (tf_data e) = 60 \<and> fd_syn_count (tf_data e) = 1"
    using \<open>has_flag sample_packet TCP_SYN\<close> by (simp add: summarises_def forward_of_def total_bytes_of_def flagged_def) (simp add: sample_packet_def)
  with t e show ?thesis by blast
qed

end
