(* ===== verification/Model_Inference.thy ===== *)
theory Model_Inference
  imports Model_Manifest Flow_Tracker Attack_Types
begin

text \<open>
  Running a model (\<^verbatim>\<open>core/inference/runner.rs\<close>, \<^verbatim>\<open>model_adapter.rs\<close>, \<^verbatim>\<open>model_loader.rs\<close>):
  the stages of the pipeline on a batch of flows, the rules that make detections of the outputs, and the circuit breaker
  around them. The ONNX runtime is code of a library: a stage has its model as a function, which may fail or panic;
  so are the logarithm and the clock arguments.
\<close>

section \<open>Snapshots and results\<close>

record flow_snapshot =
  sn_flow_key :: flow_key
  sn_direction :: traffic_direction
  sn_start_time_us :: u64
  sn_last_time_us :: u64
  sn_packet_count :: nat
  sn_fwd_packet_count :: nat
  sn_bwd_packet_count :: nat
  sn_total_bytes :: u64
  sn_feature_stats :: feature_stats

record detection_result =
  dr_flow_key :: string
  dr_flow_key_raw :: flow_key
  dr_direction :: traffic_direction
  dr_is_attack :: bool
  dr_attack_type :: "attack_type option"
  dr_confidence :: flt
  dr_alert_threshold :: flt
  dr_ae_score :: flt
  dr_anomaly_score :: flt
  dr_c2_score :: flt
  dr_packet_count :: u64
  dr_flow_duration_us :: u64

section \<open>Settings and models\<close>

record quantile_params =
  qp_values :: "flt list"
  qp_quantiles :: "flt list"

record ml_inference_config =
  mc_ae_feature_names :: "string list"
  mc_ae_scaler_mean :: "flt list"
  mc_ae_scaler_std :: "flt list"
  mc_minmax_params :: "string \<Rightarrow> (flt \<times> flt) option"
  mc_robust_params :: "string \<Rightarrow> (flt \<times> flt) option"
  mc_quantile_params :: "string \<Rightarrow> quantile_params option"

datatype runtime_tensor = Scalar string "flt list" | Matrix string "flt list list"

datatype 'a model_call = Done 'a | ModelFailed ml_error | Panicked

type_synonym model_runtime = "flt list list \<Rightarrow> nat \<Rightarrow> nat \<Rightarrow> stage_kind \<Rightarrow> output_head_spec list \<Rightarrow> runtime_tensor list model_call"

record pipeline_stage_adapter =
  ps_id :: string
  ps_kind :: stage_kind
  ps_model :: model_runtime
  ps_batch_size :: nat
  ps_n_features :: nat
  ps_inputs :: "stage_input_spec list"
  ps_preprocessing :: "preprocessing_step list"
  ps_output_heads :: "output_head_spec list"

record ml_model_adapter =
  ad_stages :: "pipeline_stage_adapter list"
  ad_outputs :: "pipeline_output_spec list"
  ad_detection_rules :: "detection_rule_spec list"
  ad_labels :: "(string \<times> label_spec) list"
  ad_normal_label :: string

definition call_then :: "'a model_call \<Rightarrow> ('a \<Rightarrow> 'b model_call) \<Rightarrow> 'b model_call" where
  "call_then c f = (case c of Done x \<Rightarrow> f x | ModelFailed e \<Rightarrow> ModelFailed e | Panicked \<Rightarrow> Panicked)"

fun call_each :: "('a \<Rightarrow> 'b model_call) \<Rightarrow> 'a list \<Rightarrow> 'b list model_call" where
  "call_each f [] = Done []"
| "call_each f (x # xs) = call_then (f x) (\<lambda>y. call_then (call_each f xs) (\<lambda>ys. Done (y # ys)))"

text \<open>Loading: one runtime per stage, in the order of the stages.\<close>

definition resolve_model_path :: "string option \<Rightarrow> string \<Rightarrow> path_component list" where
  "resolve_model_path manifest_path relative_path =
     (case manifest_path of
        Some p \<Rightarrow> resolve_relative p relative_path
      | None \<Rightarrow> path_join [Normal ''models''] (path_components relative_path))"

fun load_model_stages ::
  "(path_component list \<Rightarrow> string \<Rightarrow> nat \<Rightarrow> nat \<Rightarrow> (ml_error, model_runtime) result) \<Rightarrow> string option \<Rightarrow> nat \<Rightarrow> stage_spec list
   \<Rightarrow> (ml_error, pipeline_stage_adapter list) result" where
  "load_model_stages load path batch_size [] = Inr []"
| "load_model_stages load path batch_size (s # ss) =
     and_then (load (resolve_model_path path (sg_model_file s)) (sg_model_file s) (length (sg_inputs s)) batch_size) (\<lambda>model.
     and_then (load_model_stages load path batch_size ss) (\<lambda>rest.
     Inr (\<lparr>ps_id = sg_id s, ps_kind = sg_kind s, ps_model = model, ps_batch_size = batch_size, ps_n_features = length (sg_inputs s),
           ps_inputs = sg_inputs s, ps_preprocessing = sg_preprocessing s, ps_output_heads = sg_output_heads s\<rparr> # rest)))"

definition build_adapter ::
  "(path_component list \<Rightarrow> string \<Rightarrow> nat \<Rightarrow> nat \<Rightarrow> (ml_error, model_runtime) result) \<Rightarrow> model_manifest \<Rightarrow> string option \<Rightarrow> nat
   \<Rightarrow> (ml_error, ml_model_adapter) result" where
  "build_adapter load m path batch_size =
     and_then (topological_stages m) (\<lambda>ordered.
     and_then (load_model_stages load path batch_size ordered) (\<lambda>stages.
     Inr \<lparr>ad_stages = stages, ad_outputs = mf_outputs m, ad_detection_rules = mf_detection_rules m, ad_labels = mf_labels m,
          ad_normal_label = rn_normal_label (mf_runtime m)\<rparr>))"

definition confirmations_from_labels :: "(string \<times> label_spec) list \<Rightarrow> attack_type \<Rightarrow> nat option" where
  "confirmations_from_labels labels t =
     Option.bind (find (\<lambda>(_, spec). translate_label MlSource (lb_name spec) = t) labels) (\<lambda>(_, spec). lb_confirmations spec)"

section \<open>Preparing the features\<close>

definition list_get :: "'a list \<Rightarrow> nat \<Rightarrow> 'a option" where
  "list_get xs i = (if i < length xs then Some (xs ! i) else None)"

definition position :: "('a \<Rightarrow> bool) \<Rightarrow> 'a list \<Rightarrow> nat option" where
  "position P xs = find (\<lambda>i. P (xs ! i)) [0..<length xs]"

definition call_or :: "'a option \<Rightarrow> 'a model_call" where
  "call_or v = (case v of Some x \<Rightarrow> Done x | None \<Rightarrow> ModelFailed ConfigInvalid)"

definition quantile_transform :: "flt \<Rightarrow> flt list \<Rightarrow> flt list \<Rightarrow> flt model_call" where
  "quantile_transform value values quantiles =
     (if length values \<noteq> length quantiles \<or> length values < 2 then ModelFailed ConfigInvalid
      else if fle value (values ! 0) then Done (quantiles ! 0)
      else case find (\<lambda>i. fle value (values ! i)) [1..<length values] of
             Some i \<Rightarrow>
               (let low_value = values ! (i - 1); high_value = values ! i; low_quantile = quantiles ! (i - 1);
                    high_quantile = quantiles ! i; span = fsub f64 high_value low_value
                in if fle span (Fin 0) then Done high_quantile
                   else let ratio = fdiv f64 (fsub f64 value low_value) span
                        in Done (fadd f64 low_quantile (fmul f64 ratio (fsub f64 high_quantile low_quantile))))
           | None \<Rightarrow> Done (last quantiles))"

text \<open>\<^verbatim>\<open>clamp\<close> panics where its bounds are not ordered.\<close>

definition clamp_call :: "flt \<Rightarrow> flt \<Rightarrow> flt \<Rightarrow> flt model_call" where
  "clamp_call lo hi v =
     (if \<not> fle lo hi then Panicked else Done (if flt_less v lo then lo else if flt_less hi v then hi else v))"

definition apply_preprocessing_step ::
  "(flt \<Rightarrow> flt) \<Rightarrow> ml_inference_config \<Rightarrow> string \<Rightarrow> flt \<Rightarrow> preprocessing_step \<Rightarrow> flt model_call" where
  "apply_preprocessing_step logf cfg feature v step =
     (case step of
        StandardScaler _ \<Rightarrow>
          call_then (call_or (position (\<lambda>n. n = feature) (mc_ae_feature_names cfg))) (\<lambda>i.
          call_then (call_or (list_get (mc_ae_scaler_mean cfg) i)) (\<lambda>mean.
          call_then (call_or (list_get (mc_ae_scaler_std cfg) i)) (\<lambda>std.
          Done (if flt_less (Fin 0) std then fdiv f64 (fsub f64 v mean) std else Fin 0))))
      | MinMaxScaler _ \<Rightarrow>
          call_then (call_or (mc_minmax_params cfg feature)) (\<lambda>(mn, mx).
          let range = fsub f64 mx mn in Done (if flt_less (Fin 0) range then fdiv f64 (fsub f64 v mn) range else Fin 0))
      | RobustScaler _ \<Rightarrow>
          call_then (call_or (mc_robust_params cfg feature)) (\<lambda>(center, scale).
          Done (if flt_less (Fin 0) scale then fdiv f64 (fsub f64 v center) scale else Fin 0))
      | LogTransform offset \<Rightarrow>
          (let shifted = fadd f64 v offset in if fle shifted (Fin 0) then ModelFailed ConfigInvalid else Done (logf shifted))
      | Clip mn mx \<Rightarrow> clamp_call mn mx v
      | Quantile _ \<Rightarrow>
          call_then (call_or (mc_quantile_params cfg feature)) (\<lambda>params. quantile_transform v (qp_values params) (qp_quantiles params)))"

fun preprocess_steps :: "(flt \<Rightarrow> flt) \<Rightarrow> ml_inference_config \<Rightarrow> string \<Rightarrow> flt \<Rightarrow> preprocessing_step list \<Rightarrow> flt model_call" where
  "preprocess_steps logf cfg feature v [] = Done v"
| "preprocess_steps logf cfg feature v (s # ss) =
     call_then (apply_preprocessing_step logf cfg feature v s) (\<lambda>v. preprocess_steps logf cfg feature v ss)"

definition preprocess_pipeline_feature ::
  "(flt \<Rightarrow> flt) \<Rightarrow> ml_inference_config \<Rightarrow> flow_snapshot \<Rightarrow> string \<Rightarrow> preprocessing_step list \<Rightarrow> flt model_call" where
  "preprocess_pipeline_feature logf cfg flow feature steps =
     preprocess_steps logf cfg feature (get_feature (sn_feature_stats flow) feature) steps"

definition stage_input_value ::
  "(flt \<Rightarrow> flt) \<Rightarrow> ml_inference_config \<Rightarrow> pipeline_stage_adapter \<Rightarrow> (string \<Rightarrow> flt list option) \<Rightarrow> nat \<Rightarrow> flow_snapshot \<Rightarrow> stage_input_spec
   \<Rightarrow> flt model_call" where
  "stage_input_value logf cfg stage scalars row flow i =
     (case in_source i of
        FeatureInput \<Rightarrow>
          call_then (preprocess_pipeline_feature logf cfg flow (in_name i) (ps_preprocessing stage)) (\<lambda>v. Done (f64_as_f32 v))
      | StageOutput \<Rightarrow>
          call_then (call_or (in_stage i)) (\<lambda>s.
          call_then (call_or (in_output i)) (\<lambda>out.
          call_then (call_or (scalars (stage_output_key s out))) (\<lambda>values. call_or (list_get values row)))))"

definition pipeline_stage_rows ::
  "(flt \<Rightarrow> flt) \<Rightarrow> ml_inference_config \<Rightarrow> pipeline_stage_adapter \<Rightarrow> flow_snapshot list \<Rightarrow> (string \<Rightarrow> flt list option)
   \<Rightarrow> flt list list model_call" where
  "pipeline_stage_rows logf cfg stage flows scalars =
     call_each (\<lambda>(row, flow). call_each (stage_input_value logf cfg stage scalars row flow) (ps_inputs stage)) (enumerate 0 flows)"


section \<open>Running the stages\<close>

text \<open>The tensors of one run are appended to those of the earlier runs of the stage, by name.\<close>

type_synonym stage_values = "(string \<Rightarrow> flt list option) \<times> (string \<Rightarrow> flt list list option)"

definition extend_entry :: "string \<Rightarrow> 'a list \<Rightarrow> (string \<Rightarrow> 'a list option) \<Rightarrow> (string \<Rightarrow> 'a list option)" where
  "extend_entry name xs m = m(name \<mapsto> (case m name of Some ys \<Rightarrow> ys | None \<Rightarrow> []) @ xs)"

definition append_tensor :: "runtime_tensor \<Rightarrow> stage_values \<Rightarrow> stage_values" where
  "append_tensor t acc =
     (case t of
        Scalar name values \<Rightarrow> (extend_entry name values (fst acc), snd acc)
      | Matrix name rows \<Rightarrow> (fst acc, extend_entry name rows (snd acc)))"

definition append_stage_tensors :: "runtime_tensor list \<Rightarrow> stage_values \<Rightarrow> stage_values" where
  "append_stage_tensors tensors acc = fold append_tensor tensors acc"

text \<open>The loop over the chunks of a batch. With a batch size of 0 it would not end.\<close>

partial_function (option) run_chunks ::
  "pipeline_stage_adapter \<Rightarrow> flt list list \<Rightarrow> nat \<Rightarrow> stage_values \<Rightarrow> stage_values model_call option" where
  "run_chunks stage rows chunk_start acc =
     (if chunk_start < length rows
      then let chunk_end = min (chunk_start + ps_batch_size stage) (length rows);
               chunk = take (chunk_end - chunk_start) (drop chunk_start rows)
           in case ps_model stage chunk (ps_batch_size stage) (ps_n_features stage) (ps_kind stage) (ps_output_heads stage) of
                Done tensors \<Rightarrow> run_chunks stage rows chunk_end (append_stage_tensors tensors acc)
              | ModelFailed e \<Rightarrow> Some (ModelFailed e)
              | Panicked \<Rightarrow> Some Panicked
      else Some (Done acc))"

record pipeline_outputs =
  po_scalars :: "string \<Rightarrow> flt list option"
  po_matrices :: "string \<Rightarrow> flt list list option"
  po_thresholds :: "string \<Rightarrow> flt option"
  po_min_confidences :: "string \<Rightarrow> flt option"

definition no_outputs :: pipeline_outputs where
  "no_outputs = \<lparr>po_scalars = Map.empty, po_matrices = Map.empty, po_thresholds = Map.empty, po_min_confidences = Map.empty\<rparr>"

definition collect_head :: "string \<Rightarrow> output_head_spec \<Rightarrow> stage_values \<times> pipeline_outputs \<Rightarrow> stage_values \<times> pipeline_outputs" where
  "collect_head stage_id head acc =
     (case acc of ((scalars, matrices), po) \<Rightarrow>
        let key = stage_output_key stage_id (oh_name head);
            po = (case oh_threshold head of Some t \<Rightarrow> po\<lparr>po_thresholds := (po_thresholds po)(key \<mapsto> t)\<rparr> | None \<Rightarrow> po);
            po = (case oh_min_confidence head of Some c \<Rightarrow> po\<lparr>po_min_confidences := (po_min_confidences po)(key \<mapsto> c)\<rparr> | None \<Rightarrow> po)
        in case scalars (oh_name head) of
             Some values \<Rightarrow> ((scalars(oh_name head := None), matrices), po\<lparr>po_scalars := (po_scalars po)(key \<mapsto> values)\<rparr>)
           | None \<Rightarrow>
               (case matrices (oh_name head) of
                  Some rows \<Rightarrow> ((scalars, matrices(oh_name head := None)), po\<lparr>po_matrices := (po_matrices po)(key \<mapsto> rows)\<rparr>)
                | None \<Rightarrow> ((scalars, matrices), po)))"

definition collect_heads :: "pipeline_stage_adapter \<Rightarrow> stage_values \<Rightarrow> pipeline_outputs \<Rightarrow> pipeline_outputs" where
  "collect_heads stage values po = snd (fold (collect_head (ps_id stage)) (ps_output_heads stage) (values, po))"

fun run_stages ::
  "(flt \<Rightarrow> flt) \<Rightarrow> ml_inference_config \<Rightarrow> pipeline_stage_adapter list \<Rightarrow> flow_snapshot list \<Rightarrow> pipeline_outputs
   \<Rightarrow> pipeline_outputs model_call option" where
  "run_stages logf cfg [] flows po = Some (Done po)"
| "run_stages logf cfg (stage # stages) flows po =
     (case pipeline_stage_rows logf cfg stage flows (po_scalars po) of
        Done rows \<Rightarrow>
          (case run_chunks stage rows 0 (Map.empty, Map.empty) of
             None \<Rightarrow> None
           | Some (Done values) \<Rightarrow> run_stages logf cfg stages flows (collect_heads stage values po)
           | Some (ModelFailed e) \<Rightarrow> Some (ModelFailed e)
           | Some Panicked \<Rightarrow> Some Panicked)
      | ModelFailed e \<Rightarrow> Some (ModelFailed e)
      | Panicked \<Rightarrow> Some Panicked)"

section \<open>Rules\<close>

text \<open>
  \<^verbatim>\<open>max_by\<close> keeps the later of two that compare as equal; what cannot be compared (NaN) counts as equal.
\<close>

definition keep_max :: "('a \<Rightarrow> flt) \<Rightarrow> 'a \<Rightarrow> 'a \<Rightarrow> 'a" where
  "keep_max key x y = (if flt_less (key y) (key x) then x else y)"

definition max_by :: "('a \<Rightarrow> flt) \<Rightarrow> 'a list \<Rightarrow> 'a option" where
  "max_by key xs = (case xs of [] \<Rightarrow> None | x # ys \<Rightarrow> Some (foldl (keep_max key) x ys))"

definition argmax :: "flt list \<Rightarrow> nat \<times> flt" where
  "argmax probs = (case max_by snd (enumerate 0 probs) of Some p \<Rightarrow> p | None \<Rightarrow> (0, Fin 0))"

record rule_candidate =
  rc_confidence :: flt
  rc_alert_threshold :: flt
  rc_attack_type :: attack_type

definition pipeline_output_key :: "pipeline_output_spec list \<Rightarrow> string \<Rightarrow> string option" where
  "pipeline_output_key outputs reference =
     map_option (\<lambda>o'. stage_output_key (po_stage o') (po_output o')) (find (\<lambda>o'. output_matches_ref o' reference) outputs)"


definition value_at :: "(string \<Rightarrow> 'a list option) \<Rightarrow> string \<Rightarrow> nat \<Rightarrow> 'a option" where
  "value_at m key row = Option.bind (m key) (\<lambda>values. list_get values row)"

record detection_scores =
  ds_confidence :: flt
  ds_alert_threshold :: flt
  ds_ae :: flt
  ds_anomaly :: flt
  ds_c2 :: flt

definition score_of_role :: "pipeline_outputs \<Rightarrow> nat \<Rightarrow> detection_scores \<Rightarrow> pipeline_output_spec \<Rightarrow> detection_scores" where
  "score_of_role po row scores out =
     (case (po_role out, value_at (po_scalars po) (stage_output_key (po_stage out) (po_output out)) row) of
        (AnomalyScore, Some v) \<Rightarrow> scores\<lparr>ds_ae := fmax (ds_ae scores) v\<rparr>
      | (BinaryScore, Some v) \<Rightarrow> scores\<lparr>ds_anomaly := fmax (ds_anomaly scores) v\<rparr>
      | (C2Score, Some v) \<Rightarrow> scores\<lparr>ds_c2 := fmax (ds_c2 scores) v\<rparr>
      | _ \<Rightarrow> scores)"

definition detection_scores_from_roles :: "pipeline_output_spec list \<Rightarrow> pipeline_outputs \<Rightarrow> nat \<Rightarrow> detection_scores" where
  "detection_scores_from_roles outputs po row =
     (let scores = foldl (score_of_role po row)
            \<lparr>ds_confidence = Fin 0, ds_alert_threshold = Fin 1, ds_ae = Fin 0, ds_anomaly = Fin 0, ds_c2 = Fin 0\<rparr> outputs
      in scores\<lparr>ds_confidence := fmax (fmax (ds_ae scores) (ds_anomaly scores)) (ds_c2 scores)\<rparr>)"

definition attack_type_from_mapping ::
  "attack_mapping_spec \<Rightarrow> ml_model_adapter \<Rightarrow> pipeline_outputs \<Rightarrow> nat \<Rightarrow> attack_type option" where
  "attack_type_from_mapping attack ad po row =
     (case attack of
        PredictedClass out exclude_normal \<Rightarrow>
          Option.bind (pipeline_output_key (ad_outputs ad) out) (\<lambda>key.
          Option.bind (value_at (po_matrices po) key row) (\<lambda>probs.
          Option.bind (map_of (ad_labels ad) (show_nat (fst (argmax probs)))) (\<lambda>label.
          if exclude_normal \<and> eq_ignore_ascii_case (lb_name label) (ad_normal_label ad) then None
          else Some (translate_label MlSource (lb_name label)))))
      | FixedLabel label \<Rightarrow> Some (translate_label MlSource label))"

definition evaluate_rule :: "ml_model_adapter \<Rightarrow> pipeline_outputs \<Rightarrow> nat \<Rightarrow> detection_rule_spec \<Rightarrow> rule_candidate option" where
  "evaluate_rule ad po row rule =
     (case rule of
        ThresholdRule _ out attack \<Rightarrow>
          Option.bind (pipeline_output_key (ad_outputs ad) out) (\<lambda>key.
          Option.bind (value_at (po_scalars po) key row) (\<lambda>value.
          Option.bind (po_thresholds po key) (\<lambda>threshold.
          if fle value threshold then None
          else map_option (\<lambda>t. \<lparr>rc_confidence = value, rc_alert_threshold = threshold, rc_attack_type = t\<rparr>)
                 (attack_type_from_mapping attack ad po row))))
      | ClassConfidence _ out attack \<Rightarrow>
          Option.bind (pipeline_output_key (ad_outputs ad) out) (\<lambda>key.
          Option.bind (value_at (po_matrices po) key row) (\<lambda>probs.
          Option.bind (po_min_confidences po key) (\<lambda>min_confidence.
          if flt_less (snd (argmax probs)) min_confidence then None
          else map_option (\<lambda>t. \<lparr>rc_confidence = snd (argmax probs), rc_alert_threshold = min_confidence, rc_attack_type = t\<rparr>)
                 (attack_type_from_mapping attack ad po row)))))"

definition best_rule_candidate :: "ml_model_adapter \<Rightarrow> pipeline_outputs \<Rightarrow> nat \<Rightarrow> rule_candidate option" where
  "best_rule_candidate ad po row = max_by rc_confidence (List.map_filter (evaluate_rule ad po row) (ad_detection_rules ad))"

definition snapshot_duration_us :: "flow_snapshot \<Rightarrow> u64" where
  "snapshot_duration_us f = saturating_sub (sn_last_time_us f) (sn_start_time_us f)"

definition direction_text :: "traffic_direction \<Rightarrow> string" where
  "direction_text d = (case d of Ingress \<Rightarrow> ''Ingress'' | Egress \<Rightarrow> ''Egress'')"

definition build_flow_key_label :: "flow_snapshot \<Rightarrow> string" where
  "build_flow_key_label f =
     (let k = sn_flow_key f
      in ip_bytes_to_string k (fk_src_ip k) @ '':'' @ show_nat (unat (fk_src_port k)) @ '' -> ''
         @ ip_bytes_to_string k (fk_dst_ip k) @ '':'' @ show_nat (unat (fk_dst_port k)) @ '' (proto ''
         @ show_nat (unat (fk_protocol k)) @ '') ['' @ direction_text (sn_direction f) @ '']'')"

definition detection_result_of :: "flow_snapshot \<Rightarrow> bool \<Rightarrow> attack_type option \<Rightarrow> detection_scores \<Rightarrow> detection_result" where
  "detection_result_of f is_attack t scores =
     \<lparr>dr_flow_key = (if is_attack then build_flow_key_label f else []), dr_flow_key_raw = sn_flow_key f,
      dr_direction = sn_direction f, dr_is_attack = is_attack, dr_attack_type = t, dr_confidence = ds_confidence scores,
      dr_alert_threshold = ds_alert_threshold scores, dr_ae_score = ds_ae scores, dr_anomaly_score = ds_anomaly scores,
      dr_c2_score = ds_c2 scores, dr_packet_count = of_nat (sn_packet_count f), dr_flow_duration_us = snapshot_duration_us f\<rparr>"

definition verdict_of :: "ml_model_adapter \<Rightarrow> pipeline_outputs \<Rightarrow> nat \<Rightarrow> flow_snapshot \<Rightarrow> detection_result" where
  "verdict_of ad po row f =
     (let scores = detection_scores_from_roles (ad_outputs ad) po row; candidate = best_rule_candidate ad po row
      in detection_result_of f (candidate \<noteq> None) (map_option rc_attack_type candidate)
           (scores\<lparr>ds_confidence := (case candidate of Some c \<Rightarrow> rc_confidence c | None \<Rightarrow> ds_confidence scores),
                   ds_alert_threshold := (case candidate of Some c \<Rightarrow> rc_alert_threshold c | None \<Rightarrow> Fin 1)\<rparr>))"

definition pipeline_detection_results :: "ml_model_adapter \<Rightarrow> flow_snapshot list \<Rightarrow> pipeline_outputs \<Rightarrow> detection_result list" where
  "pipeline_detection_results ad flows po = map (\<lambda>(row, f). verdict_of ad po row f) (enumerate 0 flows)"

section \<open>The circuit breaker\<close>

text \<open>
  The batches come from one task, one after the other, so every compare-and-exchange finds the phase that was read.
\<close>

record circuit_breaker_config =
  cb_threshold :: u32
  cb_window_secs :: u64
  cb_cooldown_secs :: u64

datatype cb_phase = CB_CLOSED | CB_OPEN | CB_HALF_OPEN

record model_info =
  mi_name :: string
  mi_adapter_kind :: string
  mi_features_count :: nat
  mi_loaded_at_secs :: u64
  mi_qps_recent :: flt

datatype model_source_state = Dormant | Active ml_model_adapter model_info | SourceError string u64 "string option"

record inference =
  inf_state :: model_source_state
  inf_cb_phase :: cb_phase
  inf_cb_failure_count :: u32
  inf_cb_window_start_secs :: u64
  inf_cb_open_since_secs :: u64

fun source_is_active :: "model_source_state \<Rightarrow> bool" where
  "source_is_active (Active _ _) = True"
| "source_is_active _ = False"

definition Inference_new :: "model_source_state \<Rightarrow> inference" where
  "Inference_new st =
     \<lparr>inf_state = st, inf_cb_phase = CB_CLOSED, inf_cb_failure_count = 0, inf_cb_window_start_secs = 0, inf_cb_open_since_secs = 0\<rparr>"

definition record_success :: "inference \<Rightarrow> inference" where
  "record_success s = s\<lparr>inf_cb_phase := CB_CLOSED, inf_cb_failure_count := 0, inf_cb_window_start_secs := 0\<rparr>"

definition record_failure :: "circuit_breaker_config \<Rightarrow> u64 \<Rightarrow> inference \<Rightarrow> inference" where
  "record_failure cfg now s =
     (case inf_cb_phase s of
        CB_OPEN \<Rightarrow> s
      | CB_HALF_OPEN \<Rightarrow>
          s\<lparr>inf_cb_phase := CB_OPEN, inf_cb_open_since_secs := now, inf_cb_failure_count := max (cb_threshold cfg) 1,
            inf_cb_window_start_secs := now\<rparr>
      | CB_CLOSED \<Rightarrow>
          let window_start = inf_cb_window_start_secs s;
              s = (if window_start = 0 \<or> saturating_sub now window_start > cb_window_secs cfg
                   then s\<lparr>inf_cb_window_start_secs := now, inf_cb_failure_count := 1\<rparr>
                   else s\<lparr>inf_cb_failure_count := inf_cb_failure_count s + 1\<rparr>)
          in if inf_cb_failure_count s \<ge> cb_threshold cfg then s\<lparr>inf_cb_phase := CB_OPEN, inf_cb_open_since_secs := now\<rparr> else s)"

definition is_circuit_open :: "circuit_breaker_config \<Rightarrow> u64 \<Rightarrow> inference \<Rightarrow> bool \<times> inference" where
  "is_circuit_open cfg now s =
     (case inf_cb_phase s of
        CB_OPEN \<Rightarrow>
          if saturating_sub now (inf_cb_open_since_secs s) \<ge> cb_cooldown_secs cfg then (False, s\<lparr>inf_cb_phase := CB_HALF_OPEN\<rparr>)
          else (True, s)
      | CB_HALF_OPEN \<Rightarrow> (True, s)
      | CB_CLOSED \<Rightarrow> (False, s))"

definition swap_state :: "model_source_state \<Rightarrow> inference \<Rightarrow> inference" where
  "swap_state st s = (let s = s\<lparr>inf_state := st\<rparr> in if source_is_active st then record_success s else s)"

text \<open>A failure of a stage is recorded, and the batch has no results.\<close>

definition infer_pipeline ::
  "(flt \<Rightarrow> flt) \<Rightarrow> ml_inference_config \<Rightarrow> circuit_breaker_config \<Rightarrow> u64 \<Rightarrow> ml_model_adapter \<Rightarrow> flow_snapshot list \<Rightarrow> inference
   \<Rightarrow> (detection_result list option \<times> inference) option" where
  "infer_pipeline logf cfg cb now ad flows s =
     (case run_stages logf cfg (ad_stages ad) flows no_outputs of
        None \<Rightarrow> None
      | Some (Done po) \<Rightarrow> Some (Some (pipeline_detection_results ad flows po), s)
      | Some (ModelFailed _) \<Rightarrow> Some (Some [], record_failure cb now s)
      | Some Panicked \<Rightarrow> Some (None, s))"

definition infer_batch ::
  "(flt \<Rightarrow> flt) \<Rightarrow> ml_inference_config \<Rightarrow> circuit_breaker_config \<Rightarrow> u64 \<Rightarrow> u64 \<Rightarrow> flow_snapshot list \<Rightarrow> inference
   \<Rightarrow> (detection_result list \<times> inference) option" where
  "infer_batch logf cfg cb now later flows s =
     (case is_circuit_open cb now s of
        (True, s) \<Rightarrow> Some ([], s)
      | (False, s) \<Rightarrow>
          (case inf_state s of
             Active ad _ \<Rightarrow>
               (case infer_pipeline logf cfg cb later ad flows s of
                  None \<Rightarrow> None
                | Some (Some results, s) \<Rightarrow> Some (results, record_success s)
                | Some (None, s) \<Rightarrow> Some ([], record_failure cb later s))
           | _ \<Rightarrow> Some ([], s)))"

section \<open>The breaker does not stay open\<close>

inductive serving :: "(flt \<Rightarrow> flt) \<Rightarrow> ml_inference_config \<Rightarrow> circuit_breaker_config \<Rightarrow> u64 \<Rightarrow> inference \<Rightarrow> bool"
  for logf :: "flt \<Rightarrow> flt" and cfg :: ml_inference_config and cb :: circuit_breaker_config where
  start: "serving logf cfg cb t (Inference_new st)"
| batch: "serving logf cfg cb t s \<Longrightarrow> t \<le> now \<Longrightarrow> now \<le> later \<Longrightarrow> infer_batch logf cfg cb now later flows s = Some (rs, s')
          \<Longrightarrow> serving logf cfg cb later s'"
| swap: "serving logf cfg cb t s \<Longrightarrow> serving logf cfg cb t (swap_state st s)"

text \<open>
  Between the operations the half-open phase occurs only without a model: a batch that runs in it ends in another phase.
\<close>

definition breaker_inv :: "u64 \<Rightarrow> inference \<Rightarrow> bool" where
  "breaker_inv t s \<longleftrightarrow>
     (inf_cb_phase s = CB_HALF_OPEN \<longrightarrow> \<not> source_is_active (inf_state s)) \<and> (inf_cb_phase s = CB_OPEN \<longrightarrow> inf_cb_open_since_secs s \<le> t)"

lemma breaker_inv_later: "breaker_inv t s \<Longrightarrow> t \<le> t' \<Longrightarrow> breaker_inv t' s"
  by (auto simp: breaker_inv_def)

lemma breaker_inv_success [simp]: "breaker_inv t (record_success s)"
  by (simp add: breaker_inv_def record_success_def)

lemma failure_phase:
  "inf_cb_phase (record_failure cb now s) \<noteq> CB_HALF_OPEN"
  "inf_cb_phase s \<noteq> CB_OPEN \<Longrightarrow> inf_cb_phase (record_failure cb now s) = CB_OPEN \<Longrightarrow> inf_cb_open_since_secs (record_failure cb now s) = now"
  by (auto simp: record_failure_def Let_def split: cb_phase.splits)

lemma admitted_phase:
  assumes "is_circuit_open cb now s = (False, s1)"
  shows "inf_cb_phase s1 \<noteq> CB_OPEN" "inf_state s1 = inf_state s"
  using assms by (auto simp: is_circuit_open_def split: cb_phase.splits if_splits)

lemma refused_state: "is_circuit_open cb now s = (True, s1) \<Longrightarrow> s1 = s"
  by (auto simp: is_circuit_open_def split: cb_phase.splits if_splits)

lemma breaker_inv_batch:
  assumes "breaker_inv t s" "t \<le> now" "now \<le> later" "infer_batch logf cfg cb now later flows s = Some (rs, s')"
  shows "breaker_inv later s'"
proof (cases "is_circuit_open cb now s")
  case (Pair refused s1)
  show ?thesis
  proof (cases refused)
    case True
    then have "s' = s" using assms(4) Pair refused_state by (auto simp: infer_batch_def)
    then show ?thesis using assms(1-3) breaker_inv_later by (metis order_trans)
  next
    case False
    note admitted = admitted_phase [OF Pair [unfolded False [THEN eq_False [THEN iffD2]]]]
    show ?thesis
    proof (cases "inf_state s1")
      case (Active ad info)
      then show ?thesis
        using assms(4) Pair False admitted(1) failure_phase
        by (auto simp: infer_batch_def infer_pipeline_def breaker_inv_def [of later "record_failure _ _ _"]
            split: option.splits model_call.splits)
    qed (use assms(4) Pair False admitted in \<open>auto simp: infer_batch_def breaker_inv_def\<close>)
  qed
qed

lemma serving_inv: "serving logf cfg cb t s \<Longrightarrow> breaker_inv t s"
proof (induction rule: serving.induct)
  case (start t st)
  then show ?case by (simp add: breaker_inv_def Inference_new_def)
next
  case (batch t s now later flows rs s')
  then show ?case by (blast intro: breaker_inv_batch)
next
  case (swap t s st)
  then show ?case by (auto simp: swap_state_def Let_def breaker_inv_def record_success_def)
qed

text \<open>
  C28. Detection recovers: whatever batches, failures, panics and changes of the model came before, once the
  cool-down has passed since the last of them a batch reaches the active model again; and where the model answers,
  every flow gets its verdict and the breaker is closed.
\<close>

theorem breaker_recovers:
  assumes "serving logf cfg cb t s" "inf_state s = Active ad info"
    and "unat t + unat (cb_cooldown_secs cb) \<le> unat now"
    and "run_stages logf cfg (ad_stages ad) flows no_outputs = Some (Done po)"
  shows "\<exists>s'. infer_batch logf cfg cb now later flows s = Some (pipeline_detection_results ad flows po, s')
           \<and> inf_cb_phase s' = CB_CLOSED \<and> inf_state s' = inf_state s"
proof -
  have inv: "breaker_inv t s" using serving_inv [OF assms(1)] .
  have "\<exists>s1. is_circuit_open cb now s = (False, s1)"
  proof (cases "inf_cb_phase s")
    case CB_OPEN
    then have "unat (inf_cb_open_since_secs s) \<le> unat t" using inv by (simp add: breaker_inv_def word_le_nat_alt)
    then have "cb_cooldown_secs cb \<le> saturating_sub now (inf_cb_open_since_secs s)"
      using assms(3) by (simp add: word_le_nat_alt unat_saturating_sub)
    then show ?thesis using CB_OPEN by (simp add: is_circuit_open_def)
  qed (use assms(2) inv in \<open>auto simp: is_circuit_open_def breaker_inv_def\<close>)
  then obtain s1 where admitted: "is_circuit_open cb now s = (False, s1)" ..
  then show ?thesis
    using assms(2,4) admitted_phase [OF admitted]
    by (simp add: infer_batch_def infer_pipeline_def record_success_def)
qed

text \<open>An error of the model does not count against it: the batch that ends in an error closes the breaker.\<close>

lemma model_errors_never_trip:
  assumes "inf_cb_phase s = CB_CLOSED" "inf_state s = Active ad info"
    and "run_stages logf cfg (ad_stages ad) flows no_outputs = Some (ModelFailed e)"
  shows "\<exists>s'. infer_batch logf cfg cb now later flows s = Some ([], s') \<and> inf_cb_phase s' = CB_CLOSED \<and> inf_cb_failure_count s' = 0"
  using assms by (simp add: infer_batch_def infer_pipeline_def is_circuit_open_def record_success_def)

section \<open>A verdict is a matter of the flow alone\<close>

text \<open>
  A model whose outputs for a row are functions of the row: the runtime evaluates the rows of a batch independently.
  It fails where one of the rows is not acceptable.
\<close>

datatype row_output = ScalarOut (out_name: string) "flt list \<Rightarrow> flt" | MatrixOut (out_name: string) "flt list \<Rightarrow> flt list"

fun apply_out :: "flt list list \<Rightarrow> row_output \<Rightarrow> runtime_tensor" where
  "apply_out rows (ScalarOut n g) = Scalar n (map g rows)"
| "apply_out rows (MatrixOut n g) = Matrix n (map g rows)"

definition answers_rowwise :: "pipeline_stage_adapter \<Rightarrow> row_output list \<Rightarrow> (flt list \<Rightarrow> bool) \<Rightarrow> bool" where
  "answers_rowwise st outs ok \<longleftrightarrow>
     0 < ps_batch_size st \<and> distinct (map out_name outs)
     \<and> (\<forall>rows. rows \<noteq> [] \<and> length rows \<le> ps_batch_size st \<longrightarrow>
          (case ps_model st rows (ps_batch_size st) (ps_n_features st) (ps_kind st) (ps_output_heads st) of
             Done ts \<Rightarrow> list_all ok rows \<and> ts = map (apply_out rows) outs
           | _ \<Rightarrow> \<not> list_all ok rows))"

definition rowwise :: "pipeline_stage_adapter \<Rightarrow> bool" where
  "rowwise st \<longleftrightarrow> (\<exists>outs ok. answers_rowwise st outs ok)"

fun scalar_fun :: "row_output list \<Rightarrow> string \<Rightarrow> (flt list \<Rightarrow> flt) option" where
  "scalar_fun [] n = None"
| "scalar_fun (ScalarOut m g # outs) n = (if m = n then Some g else scalar_fun outs n)"
| "scalar_fun (MatrixOut _ _ # outs) n = scalar_fun outs n"

fun matrix_fun :: "row_output list \<Rightarrow> string \<Rightarrow> (flt list \<Rightarrow> flt list) option" where
  "matrix_fun [] n = None"
| "matrix_fun (MatrixOut m g # outs) n = (if m = n then Some g else matrix_fun outs n)"
| "matrix_fun (ScalarOut _ _ # outs) n = matrix_fun outs n"

definition extended :: "('c \<Rightarrow> 'b) option \<Rightarrow> 'c list \<Rightarrow> 'b list option \<Rightarrow> 'b list option" where
  "extended f rows old = (case f of None \<Rightarrow> old | Some g \<Rightarrow> Some ((case old of Some v \<Rightarrow> v | None \<Rightarrow> []) @ map g rows))"

lemma funs_fresh:
  "n \<notin> out_name ` set outs \<Longrightarrow> scalar_fun outs n = None \<and> matrix_fun outs n = None"
  by (induction outs n rule: scalar_fun.induct) auto

lemma append_outs:
  "distinct (map out_name outs) \<Longrightarrow>
   append_stage_tensors (map (apply_out rows) outs) (sc, mt)
   = (\<lambda>n. extended (scalar_fun outs n) rows (sc n), \<lambda>n. extended (matrix_fun outs n) rows (mt n))"
proof (induction outs arbitrary: sc mt)
  case Nil
  then show ?case by (simp add: append_stage_tensors_def extended_def)
next
  case (Cons x outs)
  have fresh: "scalar_fun outs (out_name x) = None" "matrix_fun outs (out_name x) = None"
    using Cons.prems funs_fresh [of "out_name x" outs] by auto
  show ?case
    using Cons fresh
    by (cases x) (auto simp: append_stage_tensors_def append_tensor_def extend_entry_def extended_def fun_eq_iff split: option.splits)
qed

definition outs_values :: "row_output list \<Rightarrow> flt list list \<Rightarrow> stage_values" where
  "outs_values outs rows =
     (if rows = [] then (Map.empty, Map.empty)
      else (\<lambda>n. map_option (\<lambda>g. map g rows) (scalar_fun outs n), \<lambda>n. map_option (\<lambda>g. map g rows) (matrix_fun outs n)))"

lemma append_outs_values:
  assumes "distinct (map out_name outs)" "ys \<noteq> []"
  shows "append_stage_tensors (map (apply_out ys) outs) (outs_values outs xs) = outs_values outs (xs @ ys)"
  using assms by (cases "xs = []") (auto simp: outs_values_def append_outs extended_def fun_eq_iff split: option.splits)

lemma run_chunks_rowwise:
  assumes st: "answers_rowwise st outs ok" and "start \<le> length rows"
  shows "run_chunks st rows start (outs_values outs (take start rows)) = Some (Done v)
         \<longleftrightarrow> list_all ok (drop start rows) \<and> v = outs_values outs rows"
  using assms(2)
proof (induction "length rows - start" arbitrary: start rule: less_induct)
  case less
  show ?case
  proof (cases "start < length rows")
    case False
    then show ?thesis using less.prems by (subst run_chunks.simps) auto
  next
    case True
    define e where "e = min (start + ps_batch_size st) (length rows)"
    define chunk where "chunk = take (e - start) (drop start rows)"
    have pos: "0 < ps_batch_size st" and names: "distinct (map out_name outs)" using st by (auto simp: answers_rowwise_def)
    then have e: "start < e" "e \<le> length rows" using True by (auto simp: e_def)
    have chunk: "chunk \<noteq> []" "length chunk \<le> ps_batch_size st" using e True by (auto simp: chunk_def e_def)
    have split: "take e rows = take start rows @ chunk" "drop start rows = chunk @ drop e rows"
      using e by (auto simp: chunk_def) (metis le_add_diff_inverse less_imp_le take_add, metis append_take_drop_id drop_drop le_add_diff_inverse2 less_imp_le)
    have model: "case ps_model st chunk (ps_batch_size st) (ps_n_features st) (ps_kind st) (ps_output_heads st) of
             Done ts \<Rightarrow> list_all ok chunk \<and> ts = map (apply_out chunk) outs | _ \<Rightarrow> \<not> list_all ok chunk"
      using st chunk by (auto simp: answers_rowwise_def)
    have rest: "run_chunks st rows e (outs_values outs (take e rows)) = Some (Done v) \<longleftrightarrow> list_all ok (drop e rows) \<and> v = outs_values outs rows"
      using less.hyps [of e] e by (metis diff_less_mono2 less_le_trans)
    have unfold: "run_chunks st rows start acc =
       (case ps_model st chunk (ps_batch_size st) (ps_n_features st) (ps_kind st) (ps_output_heads st) of
          Done tensors \<Rightarrow> run_chunks st rows e (append_stage_tensors tensors acc)
        | ModelFailed e \<Rightarrow> Some (ModelFailed e) | Panicked \<Rightarrow> Some Panicked)" for acc
      using True unfolding chunk_def e_def by (subst run_chunks.simps) (simp add: Let_def)
    show ?thesis
      using model rest append_outs_values [OF names chunk(1), of "take start rows"]
      by (auto simp: unfold split split: model_call.splits)
  qed
qed

lemma run_chunks_all:
  assumes "answers_rowwise st outs ok"
  shows "run_chunks st rows 0 (Map.empty, Map.empty) = Some (Done v) \<longleftrightarrow> list_all ok rows \<and> v = outs_values outs rows"
  using run_chunks_rowwise [OF assms, of 0 rows v] by (simp add: outs_values_def [of outs "[]"])

text \<open>What a run on the batch and a run on the \<open>i\<close>-th flow alone have in common.\<close>

definition sliced :: "nat \<Rightarrow> nat \<Rightarrow> (string \<Rightarrow> 'a list option) \<Rightarrow> (string \<Rightarrow> 'a list option) \<Rightarrow> bool" where
  "sliced n i m m' \<longleftrightarrow> (\<forall>k. (m k = None \<longrightarrow> m' k = None) \<and> (\<forall>vs. m k = Some vs \<longrightarrow> length vs = n \<and> m' k = Some [vs ! i]))"

definition sliced_outputs :: "nat \<Rightarrow> nat \<Rightarrow> pipeline_outputs \<Rightarrow> pipeline_outputs \<Rightarrow> bool" where
  "sliced_outputs n i po po' \<longleftrightarrow>
     sliced n i (po_scalars po) (po_scalars po') \<and> sliced n i (po_matrices po) (po_matrices po')
     \<and> po_thresholds po = po_thresholds po' \<and> po_min_confidences po = po_min_confidences po'"

lemma slicedD:
  assumes "sliced n i m m'"
  shows "m k = None \<Longrightarrow> m' k = None" "m k = Some vs \<Longrightarrow> length vs = n \<and> m' k = Some [vs ! i]"
  using assms by (auto simp: sliced_def)

lemma sliced_upd [intro]: "sliced n i m m' \<Longrightarrow> length vs = n \<Longrightarrow> sliced n i (m(k \<mapsto> vs)) (m'(k \<mapsto> [vs ! i]))"
  by (simp add: sliced_def)

lemma sliced_remove [intro]: "sliced n i m m' \<Longrightarrow> sliced n i (m(k := None)) (m'(k := None))"
  by (simp add: sliced_def)

lemma value_at_sliced: "sliced n i m m' \<Longrightarrow> i < n \<Longrightarrow> value_at m k i = value_at m' k 0"
  by (cases "m k") (auto simp: value_at_def list_get_def dest: slicedD)

lemma sliced_outs_values:
  assumes "i < length rows"
  shows "sliced (length rows) i (fst (outs_values outs rows)) (fst (outs_values outs [rows ! i]))"
    and "sliced (length rows) i (snd (outs_values outs rows)) (snd (outs_values outs [rows ! i]))"
  using assms by (auto simp: sliced_def outs_values_def split: option.splits)

lemma collect_head_sliced:
  assumes "sliced n i sc sc'" "sliced n i mt mt'" "sliced_outputs n i po po'"
    and "collect_head st h ((sc, mt), po) = ((sc1, mt1), po1)" "collect_head st h ((sc', mt'), po') = ((sc2, mt2), po2)"
  shows "sliced n i sc1 sc2 \<and> sliced n i mt1 mt2 \<and> sliced_outputs n i po1 po2"
proof -
  define key where "key = stage_output_key st (oh_name h)"
  define noted :: "pipeline_outputs \<Rightarrow> pipeline_outputs" where
    "noted po = (let po = (case oh_threshold h of Some t \<Rightarrow> po\<lparr>po_thresholds := (po_thresholds po)(key \<mapsto> t)\<rparr> | None \<Rightarrow> po)
       in (case oh_min_confidence h of Some c \<Rightarrow> po\<lparr>po_min_confidences := (po_min_confidences po)(key \<mapsto> c)\<rparr> | None \<Rightarrow> po))" for po
  have unfold: "collect_head st h ((a, b), p) =
      (case a (oh_name h) of
         Some values \<Rightarrow> ((a(oh_name h := None), b), (noted p)\<lparr>po_scalars := (po_scalars (noted p))(key \<mapsto> values)\<rparr>)
       | None \<Rightarrow> (case b (oh_name h) of
             Some rows \<Rightarrow> ((a, b(oh_name h := None)), (noted p)\<lparr>po_matrices := (po_matrices (noted p))(key \<mapsto> rows)\<rparr>)
           | None \<Rightarrow> ((a, b), noted p)))" for a b p
    unfolding collect_head_def noted_def key_def Let_def by simp
  have "sliced_outputs n i (noted po) (noted po')"
    using assms(3) by (cases "oh_threshold h"; cases "oh_min_confidence h") (auto simp: noted_def sliced_outputs_def)
  then have noted: "sliced n i (po_scalars (noted po)) (po_scalars (noted po'))" "sliced n i (po_matrices (noted po)) (po_matrices (noted po'))"
    "po_thresholds (noted po) = po_thresholds (noted po')" "po_min_confidences (noted po) = po_min_confidences (noted po')"
    by (auto simp: sliced_outputs_def)
  show ?thesis
  proof (cases "sc (oh_name h)")
    case (Some vs)
    then have "length vs = n" "sc' (oh_name h) = Some [vs ! i]" using slicedD [OF assms(1)] by auto
    with Some assms(4,5) show ?thesis
      using assms(1,2) noted by (auto simp: unfold sliced_outputs_def)
  next
    case None
    then have none: "sc' (oh_name h) = None" using slicedD [OF assms(1)] by auto
    show ?thesis
    proof (cases "mt (oh_name h)")
      case (Some vs)
      then have "length vs = n" "mt' (oh_name h) = Some [vs ! i]" using slicedD [OF assms(2)] by auto
      with Some None none assms(4,5) show ?thesis
        using assms(1,2) noted by (auto simp: unfold sliced_outputs_def)
    next
      case mt: None
      then have "mt' (oh_name h) = None" using slicedD [OF assms(2)] by auto
      with mt None none assms(4,5) show ?thesis
        using assms(1,2) noted by (auto simp: unfold sliced_outputs_def)
    qed
  qed
qed

lemma collect_heads_sliced_aux:
  assumes "sliced n i sc sc'" "sliced n i mt mt'" "sliced_outputs n i po po'"
  shows "sliced_outputs n i (snd (fold (collect_head st) hs ((sc, mt), po))) (snd (fold (collect_head st) hs ((sc', mt'), po')))"
  using assms
proof (induction hs arbitrary: sc mt po sc' mt' po')
  case (Cons h hs)
  obtain sc1 mt1 po1 where one: "collect_head st h ((sc, mt), po) = ((sc1, mt1), po1)" by (metis surj_pair)
  obtain sc2 mt2 po2 where two: "collect_head st h ((sc', mt'), po') = ((sc2, mt2), po2)" by (metis surj_pair)
  have "sliced n i sc1 sc2" "sliced n i mt1 mt2" "sliced_outputs n i po1 po2"
    using collect_head_sliced [OF Cons.prems one two] by auto
  then show ?case using Cons.IH by (simp add: one two)
qed simp

lemma collect_heads_sliced:
  assumes "sliced n i (fst v) (fst v')" "sliced n i (snd v) (snd v')" "sliced_outputs n i po po'"
  shows "sliced_outputs n i (collect_heads st v po) (collect_heads st v' po')"
  using collect_heads_sliced_aux [OF assms] by (simp add: collect_heads_def)

lemma call_each_Done: "call_each f xs = Done ys \<longleftrightarrow> list_all2 (\<lambda>x y. f x = Done y) xs ys"
proof (induction xs arbitrary: ys)
  case (Cons x xs)
  show ?case
    by (cases ys; cases "f x"; cases "call_each f xs") (auto simp: call_then_def simp flip: Cons.IH)
qed auto

lemma stage_input_sliced:
  assumes "sliced n i m m'" "i < n"
  shows "stage_input_value logf cfg st m i f inp = stage_input_value logf cfg st m' 0 f inp"
proof -
  have slice: "call_then (call_or (m k)) (\<lambda>vs. call_or (list_get vs i)) = call_then (call_or (m' k)) (\<lambda>vs. call_or (list_get vs 0))" for k
    using assms by (cases "m k") (auto simp: call_then_def call_or_def list_get_def dest: slicedD)
  show ?thesis unfolding stage_input_value_def slice ..
qed

lemma stage_rows_sliced:
  assumes "pipeline_stage_rows logf cfg st flows m = Done rows" "sliced (length flows) i m m'" "i < length flows"
  shows "length rows = length flows \<and> pipeline_stage_rows logf cfg st [flows ! i] m' = Done [rows ! i]"
proof -
  have rows: "list_all2 (\<lambda>(r, f) y. call_each (stage_input_value logf cfg st m r f) (ps_inputs st) = Done y) (enumerate 0 flows) rows"
    using assms(1) by (simp add: pipeline_stage_rows_def call_each_Done case_prod_unfold)
  then have "call_each (stage_input_value logf cfg st m i (flows ! i)) (ps_inputs st) = Done (rows ! i)"
    using assms(3) by (auto simp: list_all2_conv_all_nth nth_enumerate_eq)
  moreover have "stage_input_value logf cfg st m i (flows ! i) = stage_input_value logf cfg st m' 0 (flows ! i)"
    using stage_input_sliced [OF assms(2,3)] by blast
  ultimately show ?thesis using list_all2_lengthD [OF rows]
    by (simp add: pipeline_stage_rows_def call_then_def enumerate_eq_zip)
qed

lemma run_stages_sliced:
  assumes "\<forall>st\<in>set stages. rowwise st" "i < length flows" "run_stages logf cfg stages flows po = Some (Done po1)"
    and "sliced_outputs (length flows) i po po'"
  shows "\<exists>po1'. run_stages logf cfg stages [flows ! i] po' = Some (Done po1') \<and> sliced_outputs (length flows) i po1 po1'"
  using assms
proof (induction stages arbitrary: po po')
  case (Cons st stages)
  obtain outs ok where st: "answers_rowwise st outs ok" using Cons.prems(1) by (auto simp: rowwise_def)
  obtain rows v where rows: "pipeline_stage_rows logf cfg st flows (po_scalars po) = Done rows"
    and v: "run_chunks st rows 0 (Map.empty, Map.empty) = Some (Done v)"
    and rest: "run_stages logf cfg stages flows (collect_heads st v po) = Some (Done po1)"
    using Cons.prems(3) by (auto split: model_call.splits option.splits)
  have ok: "list_all ok rows" "v = outs_values outs rows" using v run_chunks_all [OF st] by auto
  have row: "length rows = length flows" "pipeline_stage_rows logf cfg st [flows ! i] (po_scalars po') = Done [rows ! i]"
    using stage_rows_sliced [OF rows _ Cons.prems(2)] Cons.prems(4) by (auto simp: sliced_outputs_def)
  have one: "run_chunks st [rows ! i] 0 (Map.empty, Map.empty) = Some (Done (outs_values outs [rows ! i]))"
    using run_chunks_all [OF st, of "[rows ! i]"] ok(1) row(1) Cons.prems(2) by (auto simp: list_all_length)
  have "sliced_outputs (length flows) i (collect_heads st v po) (collect_heads st (outs_values outs [rows ! i]) po')"
    using collect_heads_sliced sliced_outs_values [of i rows outs] ok(2) row(1) Cons.prems(2,4) by metis
  with Cons.IH [OF _ Cons.prems(2) rest] Cons.prems(1) row(2) one show ?case by auto
qed auto

lemma verdict_sliced:
  assumes "sliced_outputs n i po po'" "i < n"
  shows "verdict_of ad po i f = verdict_of ad po' 0 f"
proof -
  have s: "value_at (po_scalars po) k i = value_at (po_scalars po') k 0" "value_at (po_matrices po) k i = value_at (po_matrices po') k 0" for k
    using assms value_at_sliced by (auto simp: sliced_outputs_def)
  have types: "attack_type_from_mapping a ad po i = attack_type_from_mapping a ad po' 0" for a
    unfolding attack_type_from_mapping_def s ..
  have limits: "po_thresholds po = po_thresholds po'" "po_min_confidences po = po_min_confidences po'"
    using assms(1) by (auto simp: sliced_outputs_def)
  have "evaluate_rule ad po i = evaluate_rule ad po' 0"
    unfolding fun_eq_iff evaluate_rule_def s types limits by (rule allI) (rule refl)
  moreover have "score_of_role po i = score_of_role po' 0" unfolding fun_eq_iff score_of_role_def s by simp
  ultimately show ?thesis by (simp add: verdict_of_def best_rule_candidate_def detection_scores_from_roles_def)
qed

text \<open>
  C27. A verdict is a matter of the flow alone: where the models answer row by row, the verdict of a flow in a batch
  is the one it would get alone, whatever the sizes of the batch and of the chunks the models run on, and whatever the
  other flows are; the verdicts come in the order of the flows.
\<close>

theorem verdicts_are_independent:
  assumes "\<forall>st\<in>set (ad_stages ad). rowwise st"
    and "infer_pipeline logf cfg cb now ad flows s = Some (Some rs, s)" "rs \<noteq> []" "i < length flows"
  shows "length rs = length flows \<and> infer_pipeline logf cfg cb now ad [flows ! i] s = Some (Some [rs ! i], s)"
proof -
  obtain po where po: "run_stages logf cfg (ad_stages ad) flows no_outputs = Some (Done po)"
    and rs: "rs = pipeline_detection_results ad flows po"
    using assms(2,3) by (auto simp: infer_pipeline_def split: option.splits model_call.splits)
  have "sliced_outputs (length flows) i no_outputs no_outputs" by (simp add: sliced_outputs_def sliced_def no_outputs_def)
  then obtain po' where po': "run_stages logf cfg (ad_stages ad) [flows ! i] no_outputs = Some (Done po')"
    "sliced_outputs (length flows) i po po'"
    using run_stages_sliced [OF assms(1,4) po] by blast
  have "rs ! i = verdict_of ad po i (flows ! i)"
    using assms(4) by (simp add: rs pipeline_detection_results_def nth_enumerate_eq)
  then show ?thesis
    using po'(1) verdict_sliced [OF po'(2) assms(4)]
    by (simp add: infer_pipeline_def rs pipeline_detection_results_def enumerate_eq_zip)
qed

section \<open>An example\<close>

text \<open>One stage that gives every flow the score 2, above its threshold.\<close>

definition sample_score_head :: output_head_spec where
  "sample_score_head =
     \<lparr>oh_name = ''score'', oh_index = 0, oh_shape = [''1''], oh_semantic = Binary, oh_threshold = Some (Fin (1 / 2)), oh_min_confidence = None\<rparr>"

definition sample_stage :: pipeline_stage_adapter where
  "sample_stage =
     \<lparr>ps_id = ''detector'', ps_kind = Generic, ps_model = (\<lambda>rows _ _ _ _. Done [Scalar ''score'' (map (\<lambda>_. Fin 2) rows)]),
      ps_batch_size = 1, ps_n_features = 1,
      ps_inputs = [\<lparr>in_name = ''dst_port'', in_source = FeatureInput, in_stage = None, in_output = None\<rparr>],
      ps_preprocessing = [], ps_output_heads = [sample_score_head]\<rparr>"

definition sample_adapter :: ml_model_adapter where
  "sample_adapter =
     \<lparr>ad_stages = [sample_stage],
      ad_outputs = [\<lparr>po_stage = ''detector'', po_output = ''score'', po_alias = None, po_role = BinaryScore\<rparr>],
      ad_detection_rules = [ThresholdRule ''bots'' ''detector.score'' (FixedLabel ''bot'')],
      ad_labels = [(''0'', \<lparr>lb_name = ''Bot'', lb_confirmations = Some 1, lb_playbook = None\<rparr>)], ad_normal_label = ''Normal''\<rparr>"

definition sample_settings :: ml_inference_config where
  "sample_settings =
     \<lparr>mc_ae_feature_names = [], mc_ae_scaler_mean = [], mc_ae_scaler_std = [], mc_minmax_params = Map.empty,
      mc_robust_params = Map.empty, mc_quantile_params = Map.empty\<rparr>"

definition sample_breaker :: circuit_breaker_config where
  "sample_breaker = \<lparr>cb_threshold = 5, cb_window_secs = 60, cb_cooldown_secs = 120\<rparr>"

definition sample_info :: model_info where
  "sample_info = \<lparr>mi_name = ''sample'', mi_adapter_kind = ''pipeline'', mi_features_count = 1, mi_loaded_at_secs = 0, mi_qps_recent = Fin 0\<rparr>"

lemma sample_stage_answers: "answers_rowwise sample_stage [ScalarOut ''score'' (\<lambda>_. Fin 2)] (\<lambda>_. True)"
  by (simp add: answers_rowwise_def sample_stage_def list_all_iff)

lemma sample_run: "\<exists>po. run_stages logf cfg [sample_stage] flows no_outputs = Some (Done po)"
proof -
  have "\<exists>rows. pipeline_stage_rows logf cfg sample_stage flows (po_scalars no_outputs) = Done rows"
    unfolding pipeline_stage_rows_def call_each_Done
    by (rule exI [of _ "map (\<lambda>f. [f64_as_f32 (get_feature (sn_feature_stats f) ''dst_port'')]) flows"])
      (auto simp: list_all2_conv_all_nth nth_enumerate_eq sample_stage_def stage_input_value_def preprocess_pipeline_feature_def call_then_def)
  then obtain rows where rows: "pipeline_stage_rows logf cfg sample_stage flows (po_scalars no_outputs) = Done rows" ..
  have "run_chunks sample_stage rows 0 (Map.empty, Map.empty) = Some (Done (outs_values [ScalarOut ''score'' (\<lambda>_. Fin 2)] rows))"
    by (subst run_chunks_all [OF sample_stage_answers]) (simp add: list_all_iff)
  then show ?thesis by (simp add: rows)
qed

lemma sample_adapter_stages: "ad_stages sample_adapter = [sample_stage]"
  by (simp add: sample_adapter_def)

text \<open>The witnesses: a fresh model is served after the cool-down, and the second of two flows has a verdict of its own.\<close>

theorem breaker_recovers_witness:
  "\<forall>f. \<exists>po s'. infer_batch (\<lambda>x. x) sample_settings sample_breaker 1000 1001 [f] (Inference_new (Active sample_adapter sample_info))
          = Some (pipeline_detection_results sample_adapter [f] po, s') \<and> inf_cb_phase s' = CB_CLOSED"
proof
  fix f
  obtain po where po: "run_stages (\<lambda>x. x) sample_settings (ad_stages sample_adapter) [f] no_outputs = Some (Done po)"
    using sample_run unfolding sample_adapter_stages by blast
  then show "\<exists>po s'. infer_batch (\<lambda>x. x) sample_settings sample_breaker 1000 1001 [f] (Inference_new (Active sample_adapter sample_info))
          = Some (pipeline_detection_results sample_adapter [f] po, s') \<and> inf_cb_phase s' = CB_CLOSED"
    using breaker_recovers [OF serving.start [of "\<lambda>x. x" sample_settings sample_breaker 0 "Active sample_adapter sample_info"], of sample_adapter sample_info 1000 "[f]" po 1001]
    by (force simp: Inference_new_def sample_breaker_def)
qed

theorem verdicts_are_independent_witness:
  "\<forall>f g. \<exists>r r'. infer_pipeline (\<lambda>x. x) sample_settings sample_breaker 0 sample_adapter [f, g] (Inference_new Dormant)
             = Some (Some [r, r'], Inference_new Dormant)
         \<and> infer_pipeline (\<lambda>x. x) sample_settings sample_breaker 0 sample_adapter [g] (Inference_new Dormant) = Some (Some [r'], Inference_new Dormant)"
proof (intro allI)
  fix f g
  obtain po where po: "run_stages (\<lambda>x. x) sample_settings (ad_stages sample_adapter) [f, g] no_outputs = Some (Done po)"
    using sample_run unfolding sample_adapter_stages by blast
  obtain r r' where rs: "infer_pipeline (\<lambda>x. x) sample_settings sample_breaker 0 sample_adapter [f, g] (Inference_new Dormant)
             = Some (Some [r, r'], Inference_new Dormant)"
    using po by (auto simp: infer_pipeline_def pipeline_detection_results_def)
  have "\<forall>st\<in>set (ad_stages sample_adapter). rowwise st"
    using sample_stage_answers by (auto simp: sample_adapter_def rowwise_def)
  from verdicts_are_independent [OF this rs, of 1] rs
  show "\<exists>r r'. infer_pipeline (\<lambda>x. x) sample_settings sample_breaker 0 sample_adapter [f, g] (Inference_new Dormant)
             = Some (Some [r, r'], Inference_new Dormant)
         \<and> infer_pipeline (\<lambda>x. x) sample_settings sample_breaker 0 sample_adapter [g] (Inference_new Dormant) = Some (Some [r'], Inference_new Dormant)"
    by auto
qed

end
