(* ===== verification/Flow_Features.thy ===== *)
theory Flow_Features
  imports Feature_Registry Flow_Tracker "HOL-Library.Product_Lexorder" "HOL-Library.Multiset"
begin

text \<open>
  The statistics of a flow (\<^verbatim>\<open>FeatureStats::compute\<close> of \<^verbatim>\<open>domain/detection/feature_extractor.rs\<close>): running
  means and variances, times between packets, quartiles. All values are \<^verbatim>\<open>f64\<close> with its rounding.
\<close>

section \<open>More of floating point\<close>

text \<open>\<^verbatim>\<open>total_cmp\<close>, on values without a sign bit of NaN or zero.\<close>

fun flt_rank :: "flt \<Rightarrow> nat \<times> rat" where
  "flt_rank NegInf = (0, 0)"
| "flt_rank (Fin q) = (1, q)"
| "flt_rank PosInf = (2, 0)"
| "flt_rank NaN = (3, 0)"

lemma flt_rank_inj: "flt_rank a = flt_rank b \<Longrightarrow> a = b"
  by (cases a; cases b) auto

instantiation flt :: linorder
begin

definition less_eq_flt :: "flt \<Rightarrow> flt \<Rightarrow> bool" where
  "less_eq_flt a b \<longleftrightarrow> flt_rank a \<le> flt_rank b"

definition less_flt :: "flt \<Rightarrow> flt \<Rightarrow> bool" where
  "less_flt a b \<longleftrightarrow> flt_rank a < flt_rank b"

instance
  by standard (auto simp: less_eq_flt_def less_flt_def intro: flt_rank_inj)

end

lemma less_eq_Fin [simp]: "Fin a \<le> Fin b \<longleftrightarrow> a \<le> b"
  by (simp add: less_eq_flt_def)

definition nat_as_f64 :: "nat \<Rightarrow> flt" where
  "nat_as_f64 n = to_flt f64 (of_nat n)"

text \<open>The integer square root, and the square root rounded once: the exact value is compared with the middle of two neighbours.\<close>

fun isqrt :: "nat \<Rightarrow> nat" where
  "isqrt n = (if n = 0 then 0 else let r = 2 * isqrt (n div 4) in if (r + 1) * (r + 1) \<le> n then r + 1 else r)"

declare isqrt.simps [simp del]

lemma isqrt_bounds: "isqrt n * isqrt n \<le> n \<and> n < (isqrt n + 1) * (isqrt n + 1)"
proof (induction n rule: isqrt.induct)
  case (1 n)
  show ?case
  proof (cases "n = 0")
    case False
    define s where "s = isqrt (n div 4)"
    have "s * s \<le> n div 4" "n div 4 < (s + 1) * (s + 1)" using 1 False by (simp_all add: s_def)
    then have "4 * (s * s) \<le> n" "n < 4 * ((s + 1) * (s + 1))" by linarith+
    then have "(2 * s) * (2 * s) \<le> n" "n < (2 * s + 2) * (2 * s + 2)" by (simp_all add: algebra_simps)
    then show ?thesis using False by (subst (1 2 3 4) isqrt.simps) (simp add: s_def [symmetric] Let_def algebra_simps)
  qed (simp add: isqrt.simps)
qed

fun fsqrt :: "float_format \<Rightarrow> flt \<Rightarrow> flt" where
  "fsqrt f NaN = NaN"
| "fsqrt f NegInf = NaN"
| "fsqrt f PosInf = PosInf"
| "fsqrt f (Fin q) =
     (if q < 0 then NaN
      else if q = 0 then Fin 0
      else let u = max (exponent q div 2 - int (prec f) + 1) (min_exp f);
               x = q / (2 powi u * 2 powi u);
               n = isqrt (nat \<lfloor>x\<rfloor>);
               mid = (of_nat n + 1 / 2) * (of_nat n + 1 / 2);
               r = (if x < mid then n else if x > mid then n + 1 else if even n then n else n + 1)
           in Fin (of_nat r * 2 powi u))"

section \<open>Running statistics\<close>

record streaming_stats =
  st_count :: nat
  st_min :: flt
  st_max :: flt
  st_mean :: flt
  st_m2 :: flt

definition StreamingStats_new :: streaming_stats where
  "StreamingStats_new = \<lparr>st_count = 0, st_min = PosInf, st_max = NegInf, st_mean = Fin 0, st_m2 = Fin 0\<rparr>"

definition stats_push :: "flt \<Rightarrow> streaming_stats \<Rightarrow> streaming_stats" where
  "stats_push x s =
     (let n = st_count s + 1;
          mn = (if flt_less x (st_min s) then x else st_min s);
          mx = (if flt_less (st_max s) x then x else st_max s);
          delta = fsub f64 x (st_mean s);
          mean = fadd f64 (st_mean s) (fdiv f64 delta (nat_as_f64 n));
          delta2 = fsub f64 x mean
      in \<lparr>st_count = n, st_min = mn, st_max = mx, st_mean = mean, st_m2 = fadd f64 (st_m2 s) (fmul f64 delta delta2)\<rparr>)"

definition stats_finalize :: "streaming_stats \<Rightarrow> flt \<times> flt \<times> flt \<times> flt" where
  "stats_finalize s =
     (if st_count s = 0 then (Fin 0, Fin 0, Fin 0, Fin 0)
      else let variance = (if st_count s > 1 then fdiv f64 (st_m2 s) (nat_as_f64 (st_count s - 1)) else Fin 0)
           in (st_max s, st_min s, st_mean s, fsqrt f64 variance))"

definition stats_of :: "flt list \<Rightarrow> flt \<times> flt \<times> flt \<times> flt" where
  "stats_of xs = stats_finalize (foldl (\<lambda>s x. stats_push x s) StreamingStats_new xs)"

section \<open>Times between packets\<close>

definition packet_iat :: "packet_data \<Rightarrow> packet_data \<Rightarrow> u64" where
  "packet_iat prev current = saturating_sub (pd_timestamp_us current) (pd_timestamp_us prev)"

definition compute_iats :: "packet_data list \<Rightarrow> flt list" where
  "compute_iats packets = map (\<lambda>(a, b). u64_as_f64 (packet_iat a b)) (zip packets (tl packets))"

definition iat_stats_from_iter :: "flt list \<Rightarrow> flt \<times> flt \<times> flt \<times> flt \<times> flt" where
  "iat_stats_from_iter values = (foldl (fadd f64) (Fin 0) values, stats_of values)"

text \<open>The two directions are merged by time, the forward packet first where the times are equal.\<close>

fun merge_times :: "u64 list \<Rightarrow> u64 list \<Rightarrow> u64 list" where
  "merge_times (f # fs) (b # bs) = (if f \<le> b then f # merge_times fs (b # bs) else b # merge_times (f # fs) bs)"
| "merge_times fs [] = fs"
| "merge_times [] bs = bs"

fun push_gaps :: "u64 option \<Rightarrow> u64 list \<Rightarrow> streaming_stats \<Rightarrow> streaming_stats" where
  "push_gaps prev [] s = s"
| "push_gaps None (t # ts) s = push_gaps (Some t) ts s"
| "push_gaps (Some p) (t # ts) s = push_gaps (Some t) ts (stats_push (u64_as_f64 (saturating_sub t p)) s)"

definition compute_flow_iat_stats :: "packet_data list \<Rightarrow> packet_data list \<Rightarrow> flt \<times> flt \<times> flt \<times> flt" where
  "compute_flow_iat_stats fwd_packets bwd_packets =
     (let s = push_gaps None (merge_times (map pd_timestamp_us fwd_packets) (map pd_timestamp_us bwd_packets)) StreamingStats_new
      in if st_count s = 0 then (Fin 0, Fin 0, Fin 0, Fin 0) else stats_finalize s)"

text \<open>
  The quartiles by selection: \<^verbatim>\<open>select_nth_unstable_by\<close> permutes a slice so that one element is where sorting would put it, with
  nothing greater before it and nothing smaller after it. The selection is an argument; an index out of range is a panic (\<open>None\<close>).
\<close>

definition nth_or_panic :: "'a list \<Rightarrow> nat \<Rightarrow> 'a option" where
  "nth_or_panic xs i = (if i < length xs then Some (xs ! i) else None)"

definition compute_bowley_skewness :: "(nat \<Rightarrow> flt list \<Rightarrow> flt list) \<Rightarrow> flt list \<Rightarrow> flt option" where
  "compute_bowley_skewness sel values =
     (let n = length values
      in if n < 4 then Some (Fin 0)
         else let i_q1 = n div 4; i_q2 = n div 2; i_q3 = 3 * n div 4;
                  values = sel i_q2 values;
                  lower = sel i_q1 (take i_q2 values);
                  offset = i_q2 + 1
              in do {
                q2 \<leftarrow> nth_or_panic values i_q2;
                q1 \<leftarrow> nth_or_panic lower i_q1;
                (if i_q3 < offset then None
                 else do {
                   q3 \<leftarrow> nth_or_panic (sel (i_q3 - offset) (drop offset values)) (i_q3 - offset);
                   let iqr = fsub f64 q3 q1;
                   Some (if fle iqr (Fin 0) then Fin 0
                         else fdiv f64 (fsub f64 (fadd f64 q3 q1) (fmul f64 (Fin 2) q2)) iqr)
                 })
              })"

section \<open>The statistics of a flow\<close>

definition flag_count :: "u8 \<Rightarrow> packet_data list \<Rightarrow> flt" where
  "flag_count f packets = nat_as_f64 (length (filter (\<lambda>p. pd_flags p AND f \<noteq> 0) packets))"

definition payload_stats :: "packet_data list \<Rightarrow> flt \<times> flt \<times> flt \<times> flt" where
  "payload_stats packets = stats_of (map (\<lambda>p. nat_as_f64 (unat (pd_payload_length p))) packets)"

definition bulk_rates :: "bulk_state \<Rightarrow> flt \<times> flt \<times> flt" where
  "bulk_rates b =
     (reg_safe_div (u64_as_f64 (bs_total_bytes b)) (nat_as_f64 (unat (bs_bulk_count b))),
      reg_safe_div (u64_as_f64 (bs_total_packets b)) (nat_as_f64 (unat (bs_bulk_count b))),
      reg_safe_div (u64_as_f64 (bs_total_bytes b)) (fdiv f64 (u64_as_f64 (bs_total_duration_us b)) (Fin 1000000)))"

definition FeatureStats_compute :: "(nat \<Rightarrow> flt list \<Rightarrow> flt list) \<Rightarrow> flow_data \<Rightarrow> feature_stats option" where
  "FeatureStats_compute sel flow =
     (let fwd_n = nat_as_f64 (length (fd_fwd_packets flow));
          bwd_n = nat_as_f64 (length (fd_bwd_packets flow));
          duration = u64_as_f64 (flow_duration_us flow);
          secs = (let s = fdiv f64 duration (Fin 1000000) in if flt_less (Fin 0) s then s else to_flt f64 (1 / 1000000));
          fwd_bytes = u64_as_f64 (fd_fwd_total_bytes flow);
          bwd_bytes = u64_as_f64 (fd_bwd_total_bytes flow);
          (fwd_len_max, fwd_len_min, fwd_len_mean, fwd_len_std) = payload_stats (fd_fwd_packets flow);
          (bwd_len_max, bwd_len_min, bwd_len_mean, bwd_len_std) = payload_stats (fd_bwd_packets flow);
          (all_len_max, all_len_min, all_len_mean, all_len_std) = payload_stats (fd_fwd_packets flow @ fd_bwd_packets flow);
          (flow_iat_max, flow_iat_min, flow_iat_mean, flow_iat_std) = compute_flow_iat_stats (fd_fwd_packets flow) (fd_bwd_packets flow);
          fwd_iats = compute_iats (fd_fwd_packets flow);
          (fwd_iat_total, fwd_iat_max, fwd_iat_min, fwd_iat_mean, fwd_iat_std) = iat_stats_from_iter fwd_iats;
          (bwd_iat_total, bwd_iat_max, bwd_iat_min, bwd_iat_mean, bwd_iat_std) = iat_stats_from_iter (compute_iats (fd_bwd_packets flow));
          (fwd_avg_bytes_bulk, fwd_avg_packets_bulk, fwd_avg_bulk_rate) = bulk_rates (fd_fwd_bulk_state flow);
          (bwd_avg_bytes_bulk, bwd_avg_packets_bulk, bwd_avg_bulk_rate) = bulk_rates (fd_bwd_bulk_state flow);
          (active_max, active_min, active_mean, active_std) = stats_of (map u64_as_f64 (fd_active_periods flow));
          (idle_max, idle_min, idle_mean, idle_std) = stats_of (map u64_as_f64 (fd_idle_periods flow))
      in map_option (\<lambda>skewness.
           \<lparr>fs_dst_port = nat_as_f64 (unat (fk_dst_port (fd_flow_key flow))),
             fs_protocol = nat_as_f64 (unat (fk_protocol (fd_flow_key flow))),
             fs_duration_us = duration,
             fs_fwd_count = fwd_n,
             fs_bwd_count = bwd_n,
             fs_total_count = fadd f64 fwd_n bwd_n,
             fs_fwd_total_bytes = fwd_bytes,
             fs_bwd_total_bytes = bwd_bytes,
             fs_total_bytes = fadd f64 fwd_bytes bwd_bytes,
             fs_duration_s = secs,
             fs_fwd_len_max = fwd_len_max,
             fs_fwd_len_min = fwd_len_min,
             fs_fwd_len_mean = fwd_len_mean,
             fs_fwd_len_std = fwd_len_std,
             fs_bwd_len_max = bwd_len_max,
             fs_bwd_len_min = bwd_len_min,
             fs_bwd_len_mean = bwd_len_mean,
             fs_bwd_len_std = bwd_len_std,
             fs_all_len_max = all_len_max,
             fs_all_len_min = all_len_min,
             fs_all_len_mean = all_len_mean,
             fs_all_len_std = all_len_std,
             fs_flow_iat_max = flow_iat_max,
             fs_flow_iat_min = flow_iat_min,
             fs_flow_iat_mean = flow_iat_mean,
             fs_flow_iat_std = flow_iat_std,
             fs_fwd_iat_total = fwd_iat_total,
             fs_fwd_iat_max = fwd_iat_max,
             fs_fwd_iat_min = fwd_iat_min,
             fs_fwd_iat_mean = fwd_iat_mean,
             fs_fwd_iat_std = fwd_iat_std,
             fs_bwd_iat_total = bwd_iat_total,
             fs_bwd_iat_max = bwd_iat_max,
             fs_bwd_iat_min = bwd_iat_min,
             fs_bwd_iat_mean = bwd_iat_mean,
             fs_bwd_iat_std = bwd_iat_std,
             fs_fwd_psh = flag_count TCP_PSH (fd_fwd_packets flow),
             fs_bwd_psh = flag_count TCP_PSH (fd_bwd_packets flow),
             fs_fwd_urg = flag_count TCP_URG (fd_fwd_packets flow),
             fs_bwd_urg = flag_count TCP_URG (fd_bwd_packets flow),
             fs_fwd_header_bytes = u64_as_f64 (fd_fwd_header_bytes flow),
             fs_bwd_header_bytes = u64_as_f64 (fd_bwd_header_bytes flow),
             fs_fin_count = nat_as_f64 (unat (fd_fin_count flow)),
             fs_syn_count = nat_as_f64 (unat (fd_syn_count flow)),
             fs_rst_count = nat_as_f64 (unat (fd_rst_count flow)),
             fs_psh_count = nat_as_f64 (unat (fd_psh_count flow)),
             fs_ack_count = nat_as_f64 (unat (fd_ack_count flow)),
             fs_urg_count = nat_as_f64 (unat (fd_urg_count flow)),
             fs_cwe_count = nat_as_f64 (unat (fd_cwe_count flow)),
             fs_ece_count = nat_as_f64 (unat (fd_ece_count flow)),
             fs_fwd_avg_bytes_bulk = fwd_avg_bytes_bulk,
             fs_fwd_avg_packets_bulk = fwd_avg_packets_bulk,
             fs_fwd_avg_bulk_rate = fwd_avg_bulk_rate,
             fs_bwd_avg_bytes_bulk = bwd_avg_bytes_bulk,
             fs_bwd_avg_packets_bulk = bwd_avg_packets_bulk,
             fs_bwd_avg_bulk_rate = bwd_avg_bulk_rate,
             fs_init_win_bytes_fwd = nat_as_f64 (unat (fd_init_win_bytes_fwd flow)),
             fs_init_win_bytes_bwd = nat_as_f64 (unat (fd_init_win_bytes_bwd flow)),
             fs_act_data_pkt_fwd = nat_as_f64 (unat (fd_act_data_pkt_fwd flow)),
             fs_min_seg_size_forward = (case map (\<lambda>p. nat_as_f64 (unat (pd_header_length p))) (fd_fwd_packets flow) of [] \<Rightarrow> Fin 0 | x # xs \<Rightarrow> foldl min x xs),
             fs_active_max = active_max,
             fs_active_min = active_min,
             fs_active_mean = active_mean,
             fs_active_std = active_std,
             fs_idle_max = idle_max,
             fs_idle_min = idle_min,
             fs_idle_mean = idle_mean,
             fs_idle_std = idle_std,
             fs_fwd_bwd_bytes_ratio = reg_safe_div fwd_bytes (fadd f64 fwd_bytes bwd_bytes),
             fs_fwd_iat_skewness = skewness\<rparr>) (compute_bowley_skewness sel fwd_iats))"

section \<open>Selecting the quartiles\<close>

text \<open>What the library promises of a selection.\<close>

locale nth_selection =
  fixes sel :: "nat \<Rightarrow> flt list \<Rightarrow> flt list"
  assumes sel_perm: "mset (sel i xs) = mset xs"
    and sel_before: "i < length xs \<Longrightarrow> x \<in> set (take i (sel i xs)) \<Longrightarrow> x \<le> sel i xs ! i"
    and sel_after: "i < length xs \<Longrightarrow> x \<in> set (drop (Suc i) (sel i xs)) \<Longrightarrow> sel i xs ! i \<le> x"

text \<open>The quartiles of the sorted values.\<close>

definition bowley_reference :: "flt list \<Rightarrow> flt" where
  "bowley_reference xs =
     (let n = length xs; s = sort xs; q1 = s ! (n div 4); q2 = s ! (n div 2); q3 = s ! (3 * n div 4); iqr = fsub f64 q3 q1
      in if n < 4 \<or> fle iqr (Fin 0) then Fin 0 else fdiv f64 (fsub f64 (fadd f64 q3 q1) (fmul f64 (Fin 2) q2)) iqr)"

context nth_selection
begin

lemma sel_length [simp]: "length (sel i xs) = length xs"
  by (metis sel_perm size_mset)

lemma sort_by_selection:
  assumes "i < length xs"
  shows "sort xs = sort (take i (sel i xs)) @ sel i xs ! i # sort (drop (Suc i) (sel i xs))"
proof (rule properties_for_sort)
  have "take i (sel i xs) @ sel i xs ! i # drop (Suc i) (sel i xs) = sel i xs"
    using assms by (simp add: id_take_nth_drop [symmetric])
  then show "mset (sort (take i (sel i xs)) @ sel i xs ! i # sort (drop (Suc i) (sel i xs))) = mset xs"
    by (metis mset_append mset.simps(2) mset_sort sel_perm)
  show "sorted (sort (take i (sel i xs)) @ sel i xs ! i # sort (drop (Suc i) (sel i xs)))"
    using sel_before [OF assms] sel_after [OF assms] by (fastforce simp: sorted_append)
qed

lemma sel_nth: "i < length xs \<Longrightarrow> sel i xs ! i = sort xs ! i"
  using sort_by_selection [of i xs] by (metis length_sort length_take min.absorb4 nth_append_length sel_length)

lemma sort_lower: "i < length xs \<Longrightarrow> sort (take i (sel i xs)) = take i (sort xs)"
  using sort_by_selection [of i xs] by simp

lemma sort_upper: "i < length xs \<Longrightarrow> sort (drop (Suc i) (sel i xs)) = drop (Suc i) (sort xs)"
  using sort_by_selection [of i xs] by simp

lemma bowley_by_sorting: "compute_bowley_skewness sel xs = Some (bowley_reference xs)"
proof (cases "length xs < 4")
  case True
  then show ?thesis by (simp add: compute_bowley_skewness_def bowley_reference_def)
next
  case False
  define n where "n = length xs"
  have i: "n div 4 < n div 2" "n div 2 < n" "n div 2 + 1 \<le> 3 * n div 4" "3 * n div 4 < n" using False by (auto simp: n_def)
  define ys where "ys = sel (n div 2) xs"
  have q2: "ys ! (n div 2) = sort xs ! (n div 2)" using sel_nth [of "n div 2" xs] i by (simp add: ys_def n_def)
  have q1: "sel (n div 4) (take (n div 2) ys) ! (n div 4) = sort xs ! (n div 4)"
    using sel_nth [of "n div 4" "take (n div 2) ys"] sort_lower [of "n div 2" xs] i by (simp add: ys_def n_def)
  have q3: "sel (3 * n div 4 - Suc (n div 2)) (drop (Suc (n div 2)) ys) ! (3 * n div 4 - Suc (n div 2)) = sort xs ! (3 * n div 4)"
  proof -
    have "3 * n div 4 - Suc (n div 2) < length (drop (Suc (n div 2)) ys)" using i by (simp add: ys_def n_def [symmetric] diff_less_mono)
    from sel_nth [OF this] show ?thesis using sort_upper [of "n div 2" xs] i by (simp add: ys_def n_def)
  qed
  have "length ys = n" "3 * n div 4 - Suc (n div 2) < n - Suc (n div 2)" using i by (simp_all add: ys_def n_def [symmetric] diff_less_mono)
  then show ?thesis
    using False i q1 q2 q3
    by (simp add: compute_bowley_skewness_def bowley_reference_def nth_or_panic_def n_def [symmetric] ys_def [symmetric] Let_def not_less)
qed

end

interpretation sorting: nth_selection "\<lambda>_. sort"
proof
  fix i :: nat and x :: flt and xs :: "flt list"
  show "mset (sort xs) = mset xs" by simp
  assume i: "i < length xs"
  { assume "x \<in> set (take i (sort xs))"
    then obtain j where "j < i" "x = sort xs ! j" by (auto simp: in_set_conv_nth)
    then show "x \<le> sort xs ! i" using i by (simp add: sorted_nth_mono) }
  { assume "x \<in> set (drop (Suc i) (sort xs))"
    then obtain j where "j < length xs - Suc i" "x = sort xs ! (Suc i + j)" by (auto simp: in_set_conv_nth)
    then show "sort xs ! i \<le> x" by (auto intro!: sorted_nth_mono) }
qed

section \<open>Extremes and times\<close>

lemma flt_less_Fin [simp]: "flt_less (Fin a) (Fin b) \<longleftrightarrow> a < b" "flt_less (Fin a) PosInf" "flt_less NegInf (Fin b)"
  by (auto simp: flt_less_def)

lemma push_extremes:
  assumes "st_count s = length xs" "xs = [] \<and> st_min s = PosInf \<and> st_max s = NegInf \<or> xs \<noteq> [] \<and> st_min s = Fin (Min (set xs)) \<and> st_max s = Fin (Max (set xs))"
  shows "st_count (stats_push (Fin x) s) = length (xs @ [x])" "st_min (stats_push (Fin x) s) = Fin (Min (set (xs @ [x])))"
    "st_max (stats_push (Fin x) s) = Fin (Max (set (xs @ [x])))"
proof -
  have ends: "st_min (stats_push (Fin x) s) = Fin (Min (set (xs @ [x]))) \<and> st_max (stats_push (Fin x) s) = Fin (Max (set (xs @ [x])))"
  proof (cases "xs = []")
    case True
    then show ?thesis using assms(2) by (simp add: stats_push_def Let_def)
  next
    case False
    then obtain lo hi where "Min (set xs) = lo" "Max (set xs) = hi"
      "Min (set (xs @ [x])) = min x lo" "Max (set (xs @ [x])) = max x hi" by auto
    then show ?thesis using assms(2) False by (simp add: stats_push_def Let_def min_def max_def)
  qed
  then show "st_min (stats_push (Fin x) s) = Fin (Min (set (xs @ [x])))" "st_max (stats_push (Fin x) s) = Fin (Max (set (xs @ [x])))" by auto
  show "st_count (stats_push (Fin x) s) = length (xs @ [x])" using assms(1) by (simp add: stats_push_def Let_def)
qed

lemma fold_extremes:
  "xs \<noteq> [] \<Longrightarrow>
   (let s = foldl (\<lambda>s x. stats_push x s) StreamingStats_new (map Fin xs)
    in st_count s = length xs \<and> st_min s = Fin (Min (set xs)) \<and> st_max s = Fin (Max (set xs)))"
proof (induction xs rule: rev_induct)
  case (snoc x xs)
  define s where "s = foldl (\<lambda>s x. stats_push x s) StreamingStats_new (map Fin xs)"
  have "st_count s = length xs" "xs = [] \<and> st_min s = PosInf \<and> st_max s = NegInf \<or> xs \<noteq> [] \<and> st_min s = Fin (Min (set xs)) \<and> st_max s = Fin (Max (set xs))"
    using snoc.IH by (cases "xs = []"; simp add: s_def StreamingStats_new_def Let_def)+
  from push_extremes [OF this, of x] show ?case by (simp add: s_def [symmetric] Let_def)
qed simp

lemma stats_of_extremes:
  assumes "xs \<noteq> []"
  shows "fst (stats_of (map Fin xs)) = Fin (Max (set xs))" "fst (snd (stats_of (map Fin xs))) = Fin (Min (set xs))"
  using fold_extremes [OF assms] assms by (auto simp: stats_of_def stats_finalize_def Let_def)

lemma mset_merge_times: "mset (merge_times xs ys) = mset xs + mset ys"
  by (induction xs ys rule: merge_times.induct) auto

lemma sorted_merge_times: "sorted xs \<Longrightarrow> sorted ys \<Longrightarrow> sorted (merge_times xs ys)"
proof (induction xs ys rule: merge_times.induct)
  case (1 f fs b bs)
  have "set (merge_times xs ys) = set xs \<union> set ys" for xs ys by (metis mset_merge_times set_mset_mset set_mset_union)
  with 1 show ?case by auto
qed auto

lemma merge_times_sorts: "sorted xs \<Longrightarrow> sorted ys \<Longrightarrow> merge_times xs ys = sort (xs @ ys)"
  by (rule properties_for_sort [symmetric]) (simp_all add: mset_merge_times sorted_merge_times)

lemma nat_as_f64_exact: "n < 2 ^ 53 \<Longrightarrow> nat_as_f64 n = Fin (of_nat n)"
  by (simp add: nat_as_f64_def to_flt_nat)

lemma payload_exact: "nat_as_f64 (unat (w :: u32)) = Fin (of_nat (unat w))"
  using unsigned_less [where 'a = nat and w = w] by (intro nat_as_f64_exact) simp

lemma compute_Some:
  "FeatureStats_compute sel flow = Some s \<Longrightarrow>
     Some (fs_fwd_iat_skewness s) = compute_bowley_skewness sel (compute_iats (fd_fwd_packets flow))
     \<and> (fs_fwd_len_max s, fs_fwd_len_min s, fs_fwd_len_mean s, fs_fwd_len_std s) = payload_stats (fd_fwd_packets flow)
     \<and> (fs_flow_iat_max s, fs_flow_iat_min s, fs_flow_iat_mean s, fs_flow_iat_std s) = compute_flow_iat_stats (fd_fwd_packets flow) (fd_bwd_packets flow)"
  by (auto simp: FeatureStats_compute_def Let_def case_prod_unfold)

lemma compute_None: "FeatureStats_compute sel flow = None \<longleftrightarrow> compute_bowley_skewness sel (compute_iats (fd_fwd_packets flow)) = None"
  by (simp add: FeatureStats_compute_def Let_def case_prod_unfold)

lemma payload_stats_exact:
  assumes "ps \<noteq> []" "payload_stats ps = (mx, mn, mean, std)"
  shows "mx = Fin (of_nat (Max ((\<lambda>p. unat (pd_payload_length p)) ` set ps)))" "mn = Fin (of_nat (Min ((\<lambda>p. unat (pd_payload_length p)) ` set ps)))"
proof -
  define ns where "ns = map (\<lambda>p. unat (pd_payload_length p)) ps"
  have ns: "ns \<noteq> []" "set ns = (\<lambda>p. unat (pd_payload_length p)) ` set ps" using assms(1) by (auto simp: ns_def)
  have "payload_stats ps = stats_of (map Fin (map of_nat ns))"
    unfolding payload_stats_def by (rule arg_cong [of _ _ stats_of]) (simp add: ns_def payload_exact)
  then have "mx = Fin (Max (of_nat ` set ns))" "mn = Fin (Min (of_nat ` set ns))"
    using stats_of_extremes [of "map of_nat ns"] ns(1) assms(2) by (metis fst_conv snd_conv list.map_disc_iff set_map)+
  moreover have "Max (of_nat ` set ns) = (of_nat (Max (set ns)) :: rat)" "Min (of_nat ` set ns) = (of_nat (Min (set ns)) :: rat)"
    using ns(1) by (auto simp: mono_def mono_Max_commute [symmetric] mono_Min_commute [symmetric])
  ultimately show "mx = Fin (of_nat (Max ((\<lambda>p. unat (pd_payload_length p)) ` set ps)))" "mn = Fin (of_nat (Min ((\<lambda>p. unat (pd_payload_length p)) ` set ps)))"
    by (simp_all add: ns(2))
qed

text \<open>
  The statistics of a flow are what they are named: they are computed for every flow without a panic,
  whatever selection the library uses; the skewness is that of the quartiles of the sorted times between the forward packets;
  the extremes of the payload sizes are exact; and where either direction is in order, the times between packets are
  those of all packets in order.
\<close>

theorem flow_statistics_are_determined:
  assumes "nth_selection sel"
  shows "\<exists>s. FeatureStats_compute sel flow = Some s
     \<and> fs_fwd_iat_skewness s = bowley_reference (compute_iats (fd_fwd_packets flow))
     \<and> (fd_fwd_packets flow \<noteq> [] \<longrightarrow>
          fs_fwd_len_max s = Fin (of_nat (Max ((\<lambda>p. unat (pd_payload_length p)) ` set (fd_fwd_packets flow))))
          \<and> fs_fwd_len_min s = Fin (of_nat (Min ((\<lambda>p. unat (pd_payload_length p)) ` set (fd_fwd_packets flow)))))
     \<and> (sorted (map pd_timestamp_us (fd_fwd_packets flow)) \<longrightarrow> sorted (map pd_timestamp_us (fd_bwd_packets flow)) \<longrightarrow>
          (fs_flow_iat_max s, fs_flow_iat_min s, fs_flow_iat_mean s, fs_flow_iat_std s)
          = stats_finalize (push_gaps None (sort (map pd_timestamp_us (fd_fwd_packets flow @ fd_bwd_packets flow))) StreamingStats_new))"
proof -
  note skewness = nth_selection.bowley_by_sorting [OF assms]
  obtain s where s: "FeatureStats_compute sel flow = Some s" using compute_None [of sel flow] skewness by (cases "FeatureStats_compute sel flow") auto
  note fields = compute_Some [OF s]
  have "compute_flow_iat_stats (fd_fwd_packets flow) (fd_bwd_packets flow)
      = stats_finalize (push_gaps None (sort (map pd_timestamp_us (fd_fwd_packets flow @ fd_bwd_packets flow))) StreamingStats_new)"
    if "sorted (map pd_timestamp_us (fd_fwd_packets flow))" "sorted (map pd_timestamp_us (fd_bwd_packets flow))"
    using merge_times_sorts [OF that] by (simp add: compute_flow_iat_stats_def stats_finalize_def Let_def)
  then have gaps: "sorted (map pd_timestamp_us (fd_fwd_packets flow)) \<longrightarrow> sorted (map pd_timestamp_us (fd_bwd_packets flow)) \<longrightarrow>
      (fs_flow_iat_max s, fs_flow_iat_min s, fs_flow_iat_mean s, fs_flow_iat_std s)
      = stats_finalize (push_gaps None (sort (map pd_timestamp_us (fd_fwd_packets flow @ fd_bwd_packets flow))) StreamingStats_new)"
    using fields by metis
  have ends: "fd_fwd_packets flow \<noteq> [] \<longrightarrow>
      fs_fwd_len_max s = Fin (of_nat (Max ((\<lambda>p. unat (pd_payload_length p)) ` set (fd_fwd_packets flow))))
      \<and> fs_fwd_len_min s = Fin (of_nat (Min ((\<lambda>p. unat (pd_payload_length p)) ` set (fd_fwd_packets flow))))"
    using payload_stats_exact [OF _ fields [THEN conjunct2, THEN conjunct1, symmetric]] by blast
  have "fs_fwd_iat_skewness s = bowley_reference (compute_iats (fd_fwd_packets flow))"
    using fields [THEN conjunct1] unfolding skewness by simp
  with s gaps ends show ?thesis by blast
qed

text \<open>At a flow of one packet.\<close>

theorem flow_statistics_are_determined_witness:
  "\<exists>s. FeatureStats_compute (\<lambda>_. sort) (add_packet sample_limits sample_packet (FlowData_new (flow_key_from_packet sample_packet) sample_packet Ingress)) = Some s
     \<and> fs_fwd_iat_skewness s = Fin 0 \<and> fs_fwd_len_max s = Fin 0"
proof -
  define flow where "flow = add_packet sample_limits sample_packet (FlowData_new (flow_key_from_packet sample_packet) sample_packet Ingress)"
  have fwd: "fd_fwd_packets flow = [packet_data_of sample_packet]"
    by (simp add: flow_def add_packet_def FlowData_new_def sample_packet_def sample_limits_def push_bounded_def count_flags_def note_period_def Let_def)
  show ?thesis
    using flow_statistics_are_determined [OF sorting.nth_selection_axioms, of flow]
    unfolding flow_def [symmetric] by (auto simp: fwd bowley_reference_def compute_iats_def packet_data_of_def sample_packet_def)
qed

end
