(* ===== verification/Soar_Config.thy ===== *)
theory Soar_Config
  imports Domain_Errors
begin

text \<open>
  The settings of the automatic response (\<^verbatim>\<open>domain/common/config/soar.rs\<close>) with their check and
  defaults. Sizes of the platform's word are natural numbers, signed settings are integers.
\<close>

record soar_config =
  max_auto_block_cap :: u32
  max_ttl_secs :: u64
  handle_concurrency :: nat
  max_pending_unblock_retries :: int
  default_block_ttl_secs :: u64
  default_rate_limit_factor :: flt
  default_rate_limit_ttl_secs :: u64
  default_webhook_timeout_secs :: u64
  default_frequency_window_secs :: u64
  default_single_source_high_min_confidence :: flt
  default_cooldown_expiry_secs :: u64
  rate_limit_cmd_channel_capacity :: nat
  frequency_max_tracked_keys :: nat
  frequency_max_events_per_key :: nat
  frequency_retention_secs :: u64
  fallback_cooldown_secs :: int
  execution_list_limit :: int

definition SoarConfig_defaults :: soar_config where
  "SoarConfig_defaults =
     \<lparr>max_auto_block_cap = 100, max_ttl_secs = 86400, handle_concurrency = 16, max_pending_unblock_retries = 5,
      default_block_ttl_secs = 1800, default_rate_limit_factor = to_flt f64 (1 / 2), default_rate_limit_ttl_secs = 600,
      default_webhook_timeout_secs = 10, default_frequency_window_secs = 60,
      default_single_source_high_min_confidence = to_flt f32 (95 / 100), default_cooldown_expiry_secs = 3600,
      rate_limit_cmd_channel_capacity = 64, frequency_max_tracked_keys = 50000, frequency_max_events_per_key = 200,
      frequency_retention_secs = 7200, fallback_cooldown_secs = 300, execution_list_limit = 100\<rparr>"

definition require_config_field :: "bool \<Rightarrow> string \<Rightarrow> (error, unit) result" where
  "require_config_field ok field = (if ok then Inr () else Inl (System (InvalidConfigField field)))"

definition SoarConfig_validate :: "soar_config \<Rightarrow> (error, unit) result" where
  "SoarConfig_validate c =
     and_then (require_config_field (handle_concurrency c > 0) ''soar.handle_concurrency'') (\<lambda>_.
     and_then (require_config_field (rate_limit_cmd_channel_capacity c > 0) ''soar.rate_limit_cmd_channel_capacity'') (\<lambda>_.
     and_then (require_config_field (max_auto_block_cap c > 0) ''soar.max_auto_block_cap'') (\<lambda>_.
     and_then (require_config_field (max_ttl_secs c > 0) ''soar.max_ttl_secs'') (\<lambda>_.
     and_then (require_config_field (max_pending_unblock_retries c \<ge> 0) ''soar.max_pending_unblock_retries'') (\<lambda>_.
     and_then (require_config_field (default_block_ttl_secs c > 0) ''soar.default_block_ttl_secs'') (\<lambda>_.
     and_then (require_config_field (default_block_ttl_secs c \<le> max_ttl_secs c) ''soar.default_block_ttl_secs'') (\<lambda>_.
     and_then (require_config_field (fle (to_flt f64 (1 / 100)) (default_rate_limit_factor c) \<and> fle (default_rate_limit_factor c) (Fin 1))
       ''soar.default_rate_limit_factor'') (\<lambda>_.
     and_then (require_config_field (default_rate_limit_ttl_secs c > 0) ''soar.default_rate_limit_ttl_secs'') (\<lambda>_.
     and_then (require_config_field (default_rate_limit_ttl_secs c \<le> max_ttl_secs c) ''soar.default_rate_limit_ttl_secs'') (\<lambda>_.
     and_then (require_config_field (default_webhook_timeout_secs c > 0) ''soar.default_webhook_timeout_secs'') (\<lambda>_.
     and_then (require_config_field (default_frequency_window_secs c > 0) ''soar.default_frequency_window_secs'') (\<lambda>_.
     and_then (require_config_field (default_cooldown_expiry_secs c > 0) ''soar.default_cooldown_expiry_secs'') (\<lambda>_.
     and_then (require_config_field (frequency_max_tracked_keys c > 0) ''soar.frequency_max_tracked_keys'') (\<lambda>_.
     and_then (require_config_field (execution_list_limit c > 0) ''soar.execution_list_limit'') (\<lambda>_.
     and_then (require_config_field (frequency_max_events_per_key c > 0) ''soar.frequency_max_events_per_key'') (\<lambda>_.
     and_then (require_config_field (frequency_retention_secs c > 0) ''soar.frequency_retention_secs'') (\<lambda>_.
     and_then (require_config_field (fallback_cooldown_secs c \<ge> 0) ''soar.fallback_cooldown_secs'') (\<lambda>_.
       require_config_field (fle (Fin 0) (default_single_source_high_min_confidence c) \<and> fle (default_single_source_high_min_confidence c) (Fin 1))
         ''soar.default_single_source_high_min_confidence''))))))))))))))))))"

lemma require_config_field_Inr [simp]: "require_config_field ok field = Inr u \<longleftrightarrow> ok"
  by (simp add: require_config_field_def)

text \<open>What the other components rely on.\<close>

lemma validated_config:
  assumes "SoarConfig_validate c = Inr ()"
  shows "0 < max_auto_block_cap c" "0 < default_block_ttl_secs c" "default_block_ttl_secs c \<le> max_ttl_secs c"
    "0 < default_rate_limit_ttl_secs c" "default_rate_limit_ttl_secs c \<le> max_ttl_secs c" "0 \<le> fallback_cooldown_secs c"
    "0 \<le> max_pending_unblock_retries c"
  using assms by (auto simp: SoarConfig_validate_def and_then_Inr_iff)

text \<open>The defaults pass the check, with any cool-down of the fallback that is not negative.\<close>

lemma default_floats_in_range:
  "fle (to_flt f64 (1 / 100)) (to_flt f64 (1 / 2))" "fle (to_flt f64 (1 / 2)) (Fin 1)"
  "fle (Fin 0) (to_flt f32 (95 / 100))" "fle (to_flt f32 (95 / 100)) (Fin 1)"
  using fle_unit [of "1 / 100" "1 / 2" f64] fle_unit [of "95 / 100" "95 / 100" f32] by simp_all

lemma defaults_valid:
  assumes "0 \<le> n"
  shows "SoarConfig_validate (SoarConfig_defaults\<lparr>fallback_cooldown_secs := n\<rparr>) = Inr ()"
  using default_floats_in_range assms
  by (simp add: SoarConfig_validate_def SoarConfig_defaults_def and_then_Inr_iff)

end
