(* ===== verification/Correlation.thy ===== *)
theory Correlation
  imports Timed_Windows Ip_Utils Soar_Config
begin

text \<open>
  Detection across flows (\<^verbatim>\<open>core/correlation\<close>): a source that tries many ports (\<^verbatim>\<open>scan.rs\<close>), an internal
  source that contacts many internal hosts (\<^verbatim>\<open>lateral.rs\<close>), a service contacted by many sources
  (\<^verbatim>\<open>botnet.rs\<close>), and the engine that feeds them (\<^verbatim>\<open>engine.rs\<close>). The engine's task owns its detectors,
  so an operation of theirs is one step. A detector reads the clock once an operation.
\<close>

section \<open>Settings\<close>

record correlation_params =
  cp_window_secs :: u64
  cp_threshold :: nat

record correlation_config =
  cc_scan :: correlation_params
  cc_lateral :: correlation_params
  cc_botnet :: correlation_params
  cc_max_tracked_entries :: nat

definition correlation_params_validate :: "string \<Rightarrow> correlation_params \<Rightarrow> (error, unit) result" where
  "correlation_params_validate prefix p =
     and_then (require_config_field (cp_window_secs p > 0) (prefix @ ''.window_secs'')) (\<lambda>_.
       require_config_field (cp_threshold p > 0) (prefix @ ''.threshold''))"

definition correlation_config_validate :: "correlation_config \<Rightarrow> (error, unit) result" where
  "correlation_config_validate c =
     and_then (require_config_field (cc_max_tracked_entries c > 0) ''correlation.max_tracked_entries'') (\<lambda>_.
     and_then (correlation_params_validate ''correlation.scan'' (cc_scan c)) (\<lambda>_.
     and_then (correlation_params_validate ''correlation.lateral'' (cc_lateral c)) (\<lambda>_.
       correlation_params_validate ''correlation.botnet'' (cc_botnet c))))"

definition correlation_defaults :: correlation_config where
  "correlation_defaults =
     \<lparr>cc_scan = \<lparr>cp_window_secs = 120, cp_threshold = 20\<rparr>, cc_lateral = \<lparr>cp_window_secs = 300, cp_threshold = 5\<rparr>,
      cc_botnet = \<lparr>cp_window_secs = 300, cp_threshold = 10\<rparr>, cc_max_tracked_entries = 10000\<rparr>"

definition window_nanos :: "correlation_params \<Rightarrow> nat" where
  "window_nanos p = unat (cp_window_secs p) * 10 ^ 9"

definition correlation_event :: "attack_type \<Rightarrow> rat \<Rightarrow> string \<Rightarrow> string \<Rightarrow> flow_observation \<Rightarrow> detection_event" where
  "correlation_event t confidence source_ip dest_ip a =
     \<lparr>de_source = Correlation, de_attack_type = attack_type_as_str t, de_confidence = to_flt f32 confidence, de_source_ip = source_ip,
      de_dest_ip = dest_ip, de_protocol = fo_protocol a, de_packet_count = fo_packet_count a, de_flow_duration_us = fo_flow_duration_us a,
      de_ae_score = Fin 0, de_anomaly_score = Fin 0, de_c2_score = Fin 0\<rparr>"

section \<open>Port scans\<close>

record timed_port_set = "u16 timed_set" +
  tp_last_dst_ip :: string

record scan_detector =
  sd_state :: "(string \<times> timed_port_set) list"
  sd_window :: nat
  sd_threshold :: nat
  sd_max_tracked :: nat

definition ScanDetector_new :: "correlation_params \<Rightarrow> nat \<Rightarrow> scan_detector" where
  "ScanDetector_new p max_tracked =
     \<lparr>sd_state = [], sd_window = window_nanos p, sd_threshold = cp_threshold p, sd_max_tracked = max_tracked\<rparr>"

definition scan_process :: "instant \<Rightarrow> flow_observation \<Rightarrow> scan_detector \<Rightarrow> detection_event option \<times> scan_detector" where
  "scan_process now a d =
     (let key = fo_src_ip a;
          ports = (case map_of (sd_state d) key of
                     Some e \<Rightarrow> e
                   | None \<Rightarrow> \<lparr>ts_items = {}, ts_window_start = now, ts_last_alerted = None, tp_last_dst_ip = fo_dst_ip a\<rparr>);
          (should_alert, ports) = window_step (sd_window d) (sd_threshold d) now (fo_dst_port a) (ports\<lparr>tp_last_dst_ip := fo_dst_ip a\<rparr>);
          d = d\<lparr>sd_state := AList.update key ports (sd_state d)\<rparr>
      in (if should_alert then Some (correlation_event PortScan (80 / 100) key (tp_last_dst_ip ports) a) else None, d))"

definition scan_cleanup :: "(string list \<Rightarrow> string list) \<Rightarrow> instant \<Rightarrow> scan_detector \<Rightarrow> nat \<times> scan_detector" where
  "scan_cleanup it now d =
     (let (removed, st) = capped_cleanup it now (sd_window d) (sd_max_tracked d) (sd_state d) in (removed, d\<lparr>sd_state := st\<rparr>))"

section \<open>Lateral movement\<close>

record lateral_detector =
  ld_state :: "(string \<times> string timed_set) list"
  ld_window :: nat
  ld_threshold :: nat
  ld_max_tracked :: nat

definition LateralMovementDetector_new :: "correlation_params \<Rightarrow> nat \<Rightarrow> lateral_detector" where
  "LateralMovementDetector_new p max_tracked =
     \<lparr>ld_state = [], ld_window = window_nanos p, ld_threshold = cp_threshold p, ld_max_tracked = max_tracked\<rparr>"

definition lateral_process :: "instant \<Rightarrow> flow_observation \<Rightarrow> lateral_detector \<Rightarrow> detection_event option \<times> lateral_detector" where
  "lateral_process now a d =
     (if \<not> is_internal_ip (fo_src_ip a) \<or> \<not> is_internal_ip (fo_dst_ip a) then (None, d)
      else
        let key = fo_src_ip a;
            dests = (case map_of (ld_state d) key of Some e \<Rightarrow> e | None \<Rightarrow> fresh_set now);
            (should_alert, dests) = window_step (ld_window d) (ld_threshold d) now (fo_dst_ip a) dests;
            d = d\<lparr>ld_state := AList.update key dests (ld_state d)\<rparr>
        in (if should_alert then Some (correlation_event LateralMovement (75 / 100) key (fo_dst_ip a) a) else None, d))"

definition lateral_cleanup :: "(string list \<Rightarrow> string list) \<Rightarrow> instant \<Rightarrow> lateral_detector \<Rightarrow> nat \<times> lateral_detector" where
  "lateral_cleanup it now d =
     (let (removed, st) = capped_cleanup it now (ld_window d) (ld_max_tracked d) (ld_state d) in (removed, d\<lparr>ld_state := st\<rparr>))"

section \<open>Botnets\<close>

type_synonym botnet_key = "string \<times> u8 \<times> u16"

record botnet_detector =
  bd_state :: "(botnet_key \<times> string timed_set) list"
  bd_window :: nat
  bd_threshold :: nat
  bd_max_tracked :: nat

definition botnet_key_of :: "flow_observation \<Rightarrow> botnet_key" where
  "botnet_key_of a = (fo_dst_ip a, fo_protocol a, fo_dst_port a)"

definition BotnetDetector_new :: "correlation_params \<Rightarrow> nat \<Rightarrow> botnet_detector" where
  "BotnetDetector_new p max_tracked =
     \<lparr>bd_state = [], bd_window = window_nanos p, bd_threshold = cp_threshold p, bd_max_tracked = max_tracked\<rparr>"

definition botnet_process :: "instant \<Rightarrow> flow_observation \<Rightarrow> botnet_detector \<Rightarrow> detection_event option \<times> botnet_detector" where
  "botnet_process now a d =
     (let key = botnet_key_of a;
          sources = (case map_of (bd_state d) key of Some e \<Rightarrow> e | None \<Rightarrow> fresh_set now);
          (should_alert, sources) = window_step (bd_window d) (bd_threshold d) now (fo_src_ip a) sources;
          d = d\<lparr>bd_state := AList.update key sources (bd_state d)\<rparr>
      in (if should_alert then Some (correlation_event BotActivity (85 / 100) (fo_src_ip a) (fo_dst_ip a) a) else None, d))"

definition botnet_cleanup :: "(botnet_key list \<Rightarrow> botnet_key list) \<Rightarrow> instant \<Rightarrow> botnet_detector \<Rightarrow> nat \<times> botnet_detector" where
  "botnet_cleanup it now d =
     (let (removed, st) = capped_cleanup it now (bd_window d) (bd_max_tracked d) (bd_state d) in (removed, d\<lparr>bd_state := st\<rparr>))"

section \<open>The engine\<close>

text \<open>The bounded channel to the orchestrator: a full or closed channel drops the event.\<close>

record detection_channel =
  dc_queue :: "detection_event list"
  dc_capacity :: nat
  dc_closed :: bool

definition send_detection_or_log :: "detection_event \<Rightarrow> detection_channel \<Rightarrow> bool \<times> detection_channel" where
  "send_detection_or_log ev ch =
     (if dc_closed ch \<or> length (dc_queue ch) \<ge> dc_capacity ch then (False, ch) else (True, ch\<lparr>dc_queue := dc_queue ch @ [ev]\<rparr>))"

record correlation_engine =
  en_botnet :: botnet_detector
  en_scan :: scan_detector
  en_lateral :: lateral_detector

definition CorrelationEngine_new :: "correlation_config \<Rightarrow> correlation_engine" where
  "CorrelationEngine_new c =
     \<lparr>en_botnet = BotnetDetector_new (cc_botnet c) (cc_max_tracked_entries c),
      en_scan = ScanDetector_new (cc_scan c) (cc_max_tracked_entries c),
      en_lateral = LateralMovementDetector_new (cc_lateral c) (cc_max_tracked_entries c)\<rparr>"

definition forward :: "detection_event option \<Rightarrow> detection_channel \<Rightarrow> detection_channel" where
  "forward ev ch = (case ev of Some e \<Rightarrow> snd (send_detection_or_log e ch) | None \<Rightarrow> ch)"

text \<open>The three detectors read the clock one after the other.\<close>

definition process_alert :: "instant \<Rightarrow> instant \<Rightarrow> instant \<Rightarrow> flow_observation \<Rightarrow> correlation_engine \<times> detection_channel \<Rightarrow> correlation_engine \<times> detection_channel" where
  "process_alert now1 now2 now3 a s =
     (let (e, ch) = s;
          (ev, b) = botnet_process now1 a (en_botnet e); ch = forward ev ch;
          (ev, sc) = scan_process now2 a (en_scan e); ch = forward ev ch;
          (ev, l) = lateral_process now3 a (en_lateral e); ch = forward ev ch
      in (\<lparr>en_botnet = b, en_scan = sc, en_lateral = l\<rparr>, ch))"

definition engine_cleanup ::
    "(botnet_key list \<Rightarrow> botnet_key list) \<Rightarrow> (string list \<Rightarrow> string list) \<Rightarrow> instant \<Rightarrow> instant \<Rightarrow> instant \<Rightarrow> correlation_engine \<Rightarrow> nat \<times> correlation_engine" where
  "engine_cleanup itb its now1 now2 now3 e =
     (let (n1, b) = botnet_cleanup itb now1 (en_botnet e);
          (n2, sc) = scan_cleanup its now2 (en_scan e);
          (n3, l) = lateral_cleanup its now3 (en_lateral e)
      in (n1 + n2 + n3, \<lparr>en_botnet = b, en_scan = sc, en_lateral = l\<rparr>))"

section \<open>The detectors keep the contract of windows\<close>

lemma truncate_step:
  "window_step w th now x (timed_set.truncate t) = map_prod id timed_set.truncate (window_step w th now x t)"
  by (simp add: window_step_def expire_window_def restart_window_def suppressed_def timed_set.truncate_def Let_def)

lemma dom_entries: "dom (map_of xs) = fst ` set xs" "distinct (map fst xs) \<Longrightarrow> card (dom (map_of xs)) = length xs"
  by (simp_all add: dom_map_of_conv_image_fst) (metis distinct_card length_map set_map)

definition scan_entry :: "scan_detector \<Rightarrow> string \<Rightarrow> u16 timed_set option" where
  "scan_entry d k = map_option timed_set.truncate (map_of (sd_state d) k)"

lemma scan_entry_dom: "dom (scan_entry d) = dom (map_of (sd_state d))"
  by (auto simp: scan_entry_def)

context iteration
begin

lemma cleanup_sub_map:
  assumes "distinct (map fst xs)" "map_of (snd (capped_cleanup it now w mx xs)) k = Some t"
  shows "map_of xs k = Some t"
  using cleanup_submap [OF assms(1), of now w mx] assms(2) by (metis domI map_le_def)

lemma cleanup_keeps_map:
  assumes "distinct (map fst xs)" "card (dom (map_of xs)) \<le> mx" "map_of xs k = Some t" "now - ts_window_start t < w"
  shows "map_of (snd (capped_cleanup it now w mx xs)) k = Some t"
  using cleanup_uncapped [OF assms(1) _ assms(3), of mx now w] assms(2,4) dom_entries(2) [OF assms(1)] by simp

end

lemma scan_step:
  assumes "window_step (sd_window d) (sd_threshold d) now (fo_dst_port a) (case scan_entry d (fo_src_ip a) of Some t \<Rightarrow> t | None \<Rightarrow> fresh_set now) = (hit, t')"
  shows "(fst (scan_process now a d) \<noteq> None) = hit \<and> scan_entry (snd (scan_process now a d)) = (scan_entry d)(fo_src_ip a \<mapsto> t')"
proof -
  define e where "e = (case map_of (sd_state d) (fo_src_ip a) of Some e \<Rightarrow> e
    | None \<Rightarrow> \<lparr>ts_items = {}, ts_window_start = now, ts_last_alerted = None, tp_last_dst_ip = fo_dst_ip a\<rparr>)"
  have tr: "timed_set.truncate (e\<lparr>tp_last_dst_ip := fo_dst_ip a\<rparr>) = (case scan_entry d (fo_src_ip a) of Some t \<Rightarrow> t | None \<Rightarrow> fresh_set now)"
    by (simp add: e_def scan_entry_def fresh_set_def timed_set.truncate_def split: option.split)
  obtain h u where st: "window_step (sd_window d) (sd_threshold d) now (fo_dst_port a) (e\<lparr>tp_last_dst_ip := fo_dst_ip a\<rparr>) = (h, u)" by fastforce
  then have "hit = h" "t' = timed_set.truncate u" using assms truncate_step [of _ _ _ _ "e\<lparr>tp_last_dst_ip := fo_dst_ip a\<rparr>"] tr by simp_all
  then show ?thesis using st unfolding e_def by (simp add: scan_process_def scan_entry_def Let_def fun_eq_iff update_conv')
qed

lemma process_params [simp]:
  "sd_window (snd (scan_process now a d)) = sd_window d" "sd_threshold (snd (scan_process now a d)) = sd_threshold d"
  "sd_max_tracked (snd (scan_process now a d)) = sd_max_tracked d"
  "ld_window (snd (lateral_process now a l)) = ld_window l" "ld_threshold (snd (lateral_process now a l)) = ld_threshold l"
  "ld_max_tracked (snd (lateral_process now a l)) = ld_max_tracked l"
  "bd_window (snd (botnet_process now a b)) = bd_window b" "bd_threshold (snd (botnet_process now a b)) = bd_threshold b"
  "bd_max_tracked (snd (botnet_process now a b)) = bd_max_tracked b"
  by (simp_all add: scan_process_def lateral_process_def botnet_process_def Let_def split: prod.splits)

lemma process_distinct:
  "distinct (map fst (sd_state d)) \<Longrightarrow> distinct (map fst (sd_state (snd (scan_process now a d))))"
  "distinct (map fst (ld_state l)) \<Longrightarrow> distinct (map fst (ld_state (snd (lateral_process now a l))))"
  "distinct (map fst (bd_state b)) \<Longrightarrow> distinct (map fst (bd_state (snd (botnet_process now a b))))"
  by (simp_all add: scan_process_def lateral_process_def botnet_process_def Let_def distinct_update split: prod.splits)

lemma cleanup_simps [simp]:
  "snd (scan_cleanup it now d) = d\<lparr>sd_state := snd (capped_cleanup it now (sd_window d) (sd_max_tracked d) (sd_state d))\<rparr>"
  "snd (lateral_cleanup it now l) = l\<lparr>ld_state := snd (capped_cleanup it now (ld_window l) (ld_max_tracked l) (ld_state l))\<rparr>"
  "snd (botnet_cleanup itb now b) = b\<lparr>bd_state := snd (capped_cleanup itb now (bd_window b) (bd_max_tracked b) (bd_state b))\<rparr>"
  by (simp_all add: scan_cleanup_def lateral_cleanup_def botnet_cleanup_def split: prod.splits)

lemma lateral_step:
  assumes "is_internal_ip (fo_src_ip a) \<and> is_internal_ip (fo_dst_ip a)"
    and "window_step (ld_window d) (ld_threshold d) now (fo_dst_ip a) (case map_of (ld_state d) (fo_src_ip a) of Some t \<Rightarrow> t | None \<Rightarrow> fresh_set now) = (hit, t')"
  shows "(fst (lateral_process now a d) \<noteq> None) = hit \<and> map_of (ld_state (snd (lateral_process now a d))) = (map_of (ld_state d))(fo_src_ip a \<mapsto> t')"
  using assms by (simp add: lateral_process_def Let_def update_conv')

lemma botnet_step:
  assumes "window_step (bd_window d) (bd_threshold d) now (fo_src_ip a) (case map_of (bd_state d) (botnet_key_of a) of Some t \<Rightarrow> t | None \<Rightarrow> fresh_set now) = (hit, t')"
  shows "(fst (botnet_process now a d) \<noteq> None) = hit \<and> map_of (bd_state (snd (botnet_process now a d))) = (map_of (bd_state d))(botnet_key_of a \<mapsto> t')"
  using assms by (simp add: botnet_process_def Let_def update_conv')

text \<open>Walking the maps in any order, the three detectors are timed detectors.\<close>

locale string_iteration = iteration it for it :: "string list \<Rightarrow> string list"

locale service_iteration = iteration it for it :: "botnet_key list \<Rightarrow> botnet_key list"

sublocale string_iteration \<subseteq> scan: timed_detector scan_process "\<lambda>now d. snd (scan_cleanup it now d)" scan_entry
  "\<lambda>d. distinct (map fst (sd_state d))" "\<lambda>_. True" fo_src_ip fo_dst_port sd_window sd_threshold sd_max_tracked
proof (unfold_locales, goal_cases)
  case (1 a now d)
  then show ?case by simp
next
  case (2 d a now hit t')
  then show ?case using scan_step by blast
next
  case (11 d now)
  show ?case using cleanup_sub_map [OF 11] by (auto simp: map_le_def scan_entry_def)
next
  case (12 d k t now)
  then show ?case using cleanup_keeps_map [OF 12(1), of "sd_max_tracked d" k _ now "sd_window d"]
    by (auto simp: scan_entry_dom scan_entry_def timed_set.truncate_def)
qed (simp_all add: process_distinct cleanup_distinct scan_entry_dom finite_dom_map_of)

sublocale string_iteration \<subseteq> lateral: timed_detector lateral_process "\<lambda>now d. snd (lateral_cleanup it now d)" "\<lambda>d. map_of (ld_state d)"
  "\<lambda>d. distinct (map fst (ld_state d))" "\<lambda>a. is_internal_ip (fo_src_ip a) \<and> is_internal_ip (fo_dst_ip a)" fo_src_ip fo_dst_ip
  ld_window ld_threshold ld_max_tracked
proof (unfold_locales, goal_cases)
  case (1 a now d)
  then show ?case by (auto simp: lateral_process_def)
next
  case (2 d a now hit t')
  then show ?case using lateral_step by blast
next
  case (11 d now)
  then show ?case using cleanup_submap by simp
next
  case (12 d k t now)
  then show ?case using cleanup_keeps_map [OF 12] by simp
qed (simp_all add: process_distinct cleanup_distinct finite_dom_map_of)

sublocale service_iteration \<subseteq> botnet: timed_detector botnet_process "\<lambda>now d. snd (botnet_cleanup it now d)" "\<lambda>d. map_of (bd_state d)"
  "\<lambda>d. distinct (map fst (bd_state d))" "\<lambda>_. True" botnet_key_of fo_src_ip bd_window bd_threshold bd_max_tracked
proof (unfold_locales, goal_cases)
  case (2 d a now hit t')
  then show ?case using botnet_step by blast
next
  case (11 d now)
  then show ?case using cleanup_submap by simp
next
  case (12 d k t now)
  then show ?case using cleanup_keeps_map [OF 12] by simp
qed (simp_all add: process_distinct cleanup_distinct finite_dom_map_of)

context string_iteration
begin

lemmas scan_facts = scan.burst_detected scan.alerts_justified scan.alerts_apart

lemmas lateral_facts = lateral.burst_detected lateral.alerts_justified lateral.alerts_apart

end

context service_iteration
begin

lemmas botnet_facts = botnet.burst_detected botnet.alerts_justified botnet.alerts_apart

end

interpretation strings_in_order: string_iteration "\<lambda>ks. ks"
  by unfold_locales

interpretation services_in_order: service_iteration "\<lambda>ks. ks"
  by unfold_locales

section \<open>What the detectors guarantee\<close>

lemma detector_events:
  assumes "\<And>now a d e. fst (process now a d) = Some e \<Longrightarrow> P a e" "detector_run process cleanup ops d = (out, d')" "(l, a, e) \<in> set out"
  shows "P a e"
  using assms(2,3)
proof (induction ops arbitrary: d out)
  case (Cons op ops)
  show ?case
  proof (cases op)
    case (Observe now b)
    obtain ev d1 out1 where r: "process now b d = (ev, d1)" "detector_run process cleanup ops d1 = (out1, d')" "out = alert_of now b ev @ out1"
      using Cons.prems(1) Observe by (auto split: prod.splits)
    show ?thesis using Cons.IH [OF r(2)] Cons.prems(2) r(3) assms(1) [of now b d e] r(1) by (auto simp: alert_of_def split: option.splits)
  next
    case (CleanUp now)
    then show ?thesis using Cons by simp
  qed
qed simp

lemma valid_params: "correlation_params_validate prefix p = Inr () \<Longrightarrow> 0 < window_nanos p \<and> 0 < cp_threshold p"
  by (simp add: correlation_params_validate_def require_config_field_def window_nanos_def and_then_Inr_iff unat_gt_0 word_neq_0_conv split: if_splits)

definition as_ops :: "(instant \<times> flow_observation) list \<Rightarrow> detector_op list" where
  "as_ops bs = map (\<lambda>(t, a). Observe t a) bs"

text \<open>
  C8. Port scans are found: after any history of observations and clean-ups, let observations of any sources
  follow within one window's length, among them \<open>2 \<cdot> threshold - 1\<close> distinct ports tried by one source. Then
  the run has an alert of a port scan that names the source, raised during these observations or less than a
  window before them. (The window of a source starts anew at most once in between.)
\<close>

theorem port_scan_is_detected:
  assumes "string_iteration it" "correlation_params_validate prefix p = Inr ()"
    and "sorted (map op_time (history @ as_ops burst))" "\<forall>(t, a)\<in>set burst. t0 \<le> t \<and> t < t0 + window_nanos p"
    and "2 * cp_threshold p - 1 \<le> card {fo_dst_port a | a t. (t, a) \<in> set burst \<and> fo_src_ip a = source}"
    and "detector_run scan_process (\<lambda>now d. snd (scan_cleanup it now d)) (history @ as_ops burst) (ScanDetector_new p mx) = (out, d)"
  shows "\<exists>(l, a, ev)\<in>set out. de_source_ip ev = source \<and> de_attack_type ev = attack_type_as_str PortScan \<and> t0 < l + window_nanos p"
proof -
  have new: "distinct (map fst (sd_state (ScanDetector_new p mx)))" "scan_entry (ScanDetector_new p mx) = Map.empty"
    "sd_window (ScanDetector_new p mx) = window_nanos p" "sd_threshold (ScanDetector_new p mx) = cp_threshold p"
    by (simp_all add: ScanDetector_new_def scan_entry_def fun_eq_iff)
  have pos: "0 < sd_window (ScanDetector_new p mx)" "0 < sd_threshold (ScanDetector_new p mx)"
    using valid_params [OF assms(2)] new(3,4) by simp_all
  have times: "sorted (map op_time history @ map fst burst)" using assms(3) by (simp add: as_ops_def comp_def case_prod_unfold)
  have "\<exists>(l, a, ev)\<in>set out. True \<and> fo_src_ip a = source \<and> t0 < l + sd_window (ScanDetector_new p mx)"
    using assms(4-6) new(3,4)
    by (intro string_iteration.scan_facts(1) [OF assms(1) new(1,2) pos times]) (simp_all add: as_ops_def)
  then obtain l a ev where o: "(l, a, ev) \<in> set out" "fo_src_ip a = source" "t0 < l + window_nanos p" using new(3) by auto
  have "de_source_ip ev = fo_src_ip a \<and> de_attack_type ev = attack_type_as_str PortScan"
    by (rule detector_events [OF _ assms(6) o(1), where P = "\<lambda>a e. de_source_ip e = fo_src_ip a \<and> de_attack_type e = attack_type_as_str PortScan"])
      (auto simp: scan_process_def correlation_event_def Let_def split: prod.splits if_splits)
  with o show ?thesis by auto
qed

lemma values_of_list: "{f a | a t. (t, a) \<in> set xs \<and> P a} = set (map (f \<circ> snd) (filter (\<lambda>(t, a). P a) xs))"
  by (force simp: image_iff)

definition probe :: "u16 \<Rightarrow> flow_observation" where
  "probe port = \<lparr>fo_src_ip = ''10.0.0.9'', fo_dst_ip = ''10.0.0.1'', fo_dst_port = port, fo_protocol = 6, fo_packet_count = 1, fo_flow_duration_us = 0\<rparr>"

definition sample_burst :: "(instant \<times> flow_observation) list" where
  "sample_burst = [(5, probe 22), (6, probe 23), (7, probe 24)]"

theorem port_scan_is_detected_witness:
  "\<exists>(l, a, ev)\<in>set (fst (detector_run scan_process (\<lambda>now d. snd (scan_cleanup (\<lambda>ks. ks) now d))
       (as_ops sample_burst) (ScanDetector_new \<lparr>cp_window_secs = 120, cp_threshold = 2\<rparr> 10))).
     de_source_ip ev = ''10.0.0.9''"
proof -
  let ?p = "\<lparr>cp_window_secs = 120, cp_threshold = 2\<rparr>" and ?burst = sample_burst
  have v: "correlation_params_validate ''scan'' ?p = Inr ()" by (simp add: correlation_params_validate_def require_config_field_def)
  have w: "window_nanos ?p = 120000000000" by (simp add: window_nanos_def)
  have "{fo_dst_port a | a t. (t, a) \<in> set ?burst \<and> fo_src_ip a = ''10.0.0.9''} = {22, 23, 24}"
    unfolding values_of_list by (simp add: probe_def sample_burst_def)
  then have c: "2 * cp_threshold ?p - 1 \<le> card {fo_dst_port a | a t. (t, a) \<in> set ?burst \<and> fo_src_ip a = ''10.0.0.9''}" by simp
  obtain out d where r: "detector_run scan_process (\<lambda>now d. snd (scan_cleanup (\<lambda>ks. ks) now d)) ([] @ as_ops ?burst) (ScanDetector_new ?p 10) = (out, d)"
    by fastforce
  have "sorted (map op_time ([] @ as_ops ?burst))" "\<forall>(t, a)\<in>set ?burst. 5 \<le> t \<and> t < 5 + window_nanos ?p" by (simp_all add: as_ops_def w sample_burst_def)
  from port_scan_is_detected [OF strings_in_order.string_iteration_axioms v this c r] r show ?thesis by auto
qed

text \<open>
  Alerts of lateral movement are justified and spaced: each names an internal source that had contacted, within
  the window before the alert, as many distinct internal hosts as the threshold asks for; and where the sources fit into
  the table, two alerts of one source are at least a window apart, however observations and clean-ups are interleaved.
\<close>

theorem lateral_alerts_are_justified:
  assumes "string_iteration it" "correlation_params_validate prefix p = Inr ()" "sorted (map op_time ops)"
    and "detector_run lateral_process (\<lambda>now d. snd (lateral_cleanup it now d)) ops (LateralMovementDetector_new p mx) = (out, d)"
    and "card {fo_src_ip a | a t. Observe t a \<in> set ops} \<le> mx"
  shows "(\<forall>(t, a, ev)\<in>set out. de_source_ip ev = fo_src_ip a \<and> is_internal_ip (de_source_ip ev) \<and>
      cp_threshold p \<le> card {fo_dst_ip b | b u. Observe u b \<in> set ops \<and> fo_src_ip b = de_source_ip ev
        \<and> is_internal_ip (fo_dst_ip b) \<and> u \<le> t \<and> t < u + window_nanos p})
    \<and> sorted_wrt (\<lambda>(t, a, ev) (t', a', ev'). de_source_ip ev = de_source_ip ev' \<longrightarrow> t + window_nanos p \<le> t') out"
proof -
  let ?d = "LateralMovementDetector_new p mx"
  have new: "distinct (map fst (ld_state ?d))" "map_of (ld_state ?d) = Map.empty" "ld_window ?d = window_nanos p"
    "ld_threshold ?d = cp_threshold p" "ld_max_tracked ?d = mx"
    by (simp_all add: LateralMovementDetector_new_def)
  have pos: "0 < ld_window ?d" "0 < ld_threshold ?d" using valid_params [OF assms(2)] new(3,4) by simp_all
  have keys: "fo_src_ip ` {a. \<exists>t. Observe t a \<in> set ops} = {fo_src_ip a | a t. Observe t a \<in> set ops}" by auto
  have src: "de_source_ip ev = fo_src_ip a" if "(t, a, ev) \<in> set out" for t a ev
    by (rule detector_events [OF _ assms(4) that, where P = "\<lambda>a e. de_source_ip e = fo_src_ip a"])
      (auto simp: lateral_process_def correlation_event_def Let_def split: prod.splits if_splits)
  have "sorted_wrt (\<lambda>(t, a, _) (t', a', _). fo_src_ip a = fo_src_ip a' \<longrightarrow> t + window_nanos p \<le> t') out"
    using string_iteration.lateral_facts(3) [OF assms(1) new(1,2) pos assms(3,4)] assms(5) keys new(3,5) by simp
  then have "sorted_wrt (\<lambda>(t, a, ev) (t', a', ev'). de_source_ip ev = de_source_ip ev' \<longrightarrow> t + window_nanos p \<le> t') out"
    by (rule sorted_wrt_mono_rel [rotated]) (auto simp: src)
  moreover have "de_source_ip ev = fo_src_ip a \<and> is_internal_ip (de_source_ip ev) \<and>
      cp_threshold p \<le> card {fo_dst_ip b | b u. Observe u b \<in> set ops \<and> fo_src_ip b = de_source_ip ev
        \<and> is_internal_ip (fo_dst_ip b) \<and> u \<le> t \<and> t < u + window_nanos p}" if o: "(t, a, ev) \<in> set out" for t a ev
  proof -
    let ?A = "{fo_dst_ip b | b u. Observe u b \<in> set ops \<and> (is_internal_ip (fo_src_ip b) \<and> is_internal_ip (fo_dst_ip b)) \<and> fo_src_ip b = fo_src_ip a
        \<and> u \<le> t \<and> t < u + window_nanos p}"
    have j: "is_internal_ip (fo_src_ip a) \<and> is_internal_ip (fo_dst_ip a)" "cp_threshold p \<le> card ?A"
      using string_iteration.lateral_facts(2) [OF assms(1) new(1,2) pos assms(3,4) o] new(3,4) by simp_all
    have "?A = {fo_dst_ip b | b u. Observe u b \<in> set ops \<and> fo_src_ip b = fo_src_ip a \<and> is_internal_ip (fo_dst_ip b) \<and> u \<le> t \<and> t < u + window_nanos p}"
      using j(1) by (intro Collect_cong ex_cong1) auto
    then show ?thesis using j src [OF o] by simp
  qed
  ultimately show ?thesis by blast
qed

theorem lateral_alerts_are_justified_witness:
  "sorted_wrt (\<lambda>(t, a, ev) (t', a', ev'). de_source_ip ev = de_source_ip ev' \<longrightarrow> t + 300 * 10 ^ 9 \<le> t')
     (fst (detector_run lateral_process (\<lambda>now d. snd (lateral_cleanup (\<lambda>ks. ks) now d)) (as_ops sample_burst)
        (LateralMovementDetector_new \<lparr>cp_window_secs = 300, cp_threshold = 1\<rparr> 10)))"
proof -
  let ?p = "\<lparr>cp_window_secs = 300, cp_threshold = 1\<rparr>" and ?ops = "as_ops sample_burst"
  have v: "correlation_params_validate ''lateral'' ?p = Inr ()" by (simp add: correlation_params_validate_def require_config_field_def)
  have w: "window_nanos ?p = 300 * 10 ^ 9" by (simp add: window_nanos_def)
  obtain out d where r: "detector_run lateral_process (\<lambda>now d. snd (lateral_cleanup (\<lambda>ks. ks) now d)) ?ops (LateralMovementDetector_new ?p 10) = (out, d)"
    by fastforce
  have "{fo_src_ip a | a t. Observe t a \<in> set ?ops} \<subseteq> {''10.0.0.9''}" by (auto simp: as_ops_def probe_def sample_burst_def)
  then have "card {fo_src_ip a | a t. Observe t a \<in> set ?ops} \<le> card {''10.0.0.9''}" by (intro card_mono) simp_all
  then have "card {fo_src_ip a | a t. Observe t a \<in> set ?ops} \<le> 10" by simp
  moreover have "sorted (map op_time ?ops)" by (simp add: as_ops_def sample_burst_def)
  ultimately have "sorted_wrt (\<lambda>(t, a, ev) (t', a', ev'). de_source_ip ev = de_source_ip ev' \<longrightarrow> t + window_nanos ?p \<le> t') out"
    using lateral_alerts_are_justified [OF strings_in_order.string_iteration_axioms v _ r] by blast
  then show ?thesis unfolding w r fst_conv .
qed

end
