(* ===== verification/Lru_Cache.thy ===== *)
theory Lru_Cache
  imports Prelude "HOL-Library.AList"
begin

text \<open>
  The least-recently-used caches of the \<^verbatim>\<open>lru\<close> crate, as an interface: the operations the sources call
  (\<open>lru_api\<close>), and what the crate documents of them (\<open>lru_cache\<close>). A value read for writing is written back
  with \<open>lru_write\<close>. The list with the most recently used entry first is one such cache.
\<close>

record ('c, 'k, 'v) lru_api =
  lru_get :: "'k \<Rightarrow> 'c \<Rightarrow> 'v option \<times> 'c"
  lru_peek :: "'k \<Rightarrow> 'c \<Rightarrow> 'v option"
  lru_write :: "'k \<Rightarrow> 'v \<Rightarrow> 'c \<Rightarrow> 'c"
  lru_put :: "'k \<Rightarrow> 'v \<Rightarrow> 'c \<Rightarrow> 'c"
  lru_pop :: "'k \<Rightarrow> 'c \<Rightarrow> 'c"
  lru_len :: "'c \<Rightarrow> nat"
  lru_cap :: "'c \<Rightarrow> nat"
  lru_iter :: "'c \<Rightarrow> ('k \<times> 'v) list"
  lru_new :: "nat \<Rightarrow> 'c"

locale lru_cache =
  fixes L :: "('c, 'k, 'v) lru_api"
  assumes get_value [simp]: "fst (lru_get L k c) = lru_peek L k c"
    and get_keeps [simp]: "lru_peek L k' (snd (lru_get L k c)) = lru_peek L k' c"
    and written: "lru_peek L k c \<noteq> None \<Longrightarrow> lru_peek L k' (lru_write L k v c) = (if k' = k then Some v else lru_peek L k' c)"
    and put_same [simp]: "lru_peek L k (lru_put L k v c) = Some v"
    and put_other: "k' \<noteq> k \<Longrightarrow> lru_peek L k' (lru_put L k v c) \<in> {lru_peek L k' c, None}"
    and put_room: "k' \<noteq> k \<Longrightarrow> lru_len L c < lru_cap L c \<Longrightarrow> lru_peek L k' (lru_put L k v c) = lru_peek L k' c"
    and pop [simp]: "lru_peek L k' (lru_pop L k c) = (if k' = k then None else lru_peek L k' c)"
    and iter: "(k, v) \<in> set (lru_iter L c) \<longleftrightarrow> lru_peek L k c = Some v"
    and empty [simp]: "lru_peek L k (lru_new L n) = None"
begin

lemma get_eq: "lru_get L k c = (v, c') \<Longrightarrow> v = lru_peek L k c \<and> (\<forall>k'. lru_peek L k' c' = lru_peek L k' c)"
  using get_value [of k c] get_keeps [of _ k c] by simp

lemma put_Some: "lru_peek L k' (lru_put L k v c) = Some x \<Longrightarrow> k' = k \<and> x = v \<or> k' \<noteq> k \<and> lru_peek L k' c = Some x"
  using put_other [of k' k v c] by (cases "k' = k") auto

end

section \<open>A list of entries\<close>

type_synonym ('k, 'v) lru_list = "nat \<times> ('k \<times> 'v) list"

definition promote :: "'k \<Rightarrow> 'v \<Rightarrow> ('k \<times> 'v) list \<Rightarrow> ('k \<times> 'v) list" where
  "promote k v xs = (k, v) # filter (\<lambda>e. fst e \<noteq> k) xs"

definition list_lru :: "(('k, 'v) lru_list, 'k, 'v) lru_api" where
  "list_lru =
     \<lparr>lru_get = (\<lambda>k (n, xs). case map_of xs k of Some v \<Rightarrow> (Some v, n, promote k v xs) | None \<Rightarrow> (None, n, xs)),
      lru_peek = (\<lambda>k (n, xs). map_of xs k),
      lru_write = (\<lambda>k v (n, xs). (n, promote k v xs)),
      lru_put = (\<lambda>k v (n, xs). if map_of xs k = None \<and> length xs \<ge> n then (n, (k, v) # butlast xs) else (n, promote k v xs)),
      lru_pop = (\<lambda>k (n, xs). (n, filter (\<lambda>e. fst e \<noteq> k) xs)),
      lru_len = (\<lambda>(n, xs). length xs),
      lru_cap = fst,
      lru_iter = (\<lambda>(n, xs). AList.clearjunk xs),
      lru_new = (\<lambda>n. (n, []))\<rparr>"

lemma map_of_drop_key: "map_of (filter (\<lambda>e. fst e \<noteq> k) xs) k' = (if k' = k then None else map_of xs k')"
  by (induction xs) auto

lemma map_of_promote [simp]: "map_of (promote k v xs) k' = (if k' = k then Some v else map_of xs k')"
  by (simp add: promote_def map_of_drop_key)

lemma map_of_butlast: "map_of (butlast xs) k \<in> {map_of xs k, None}"
  by (induction xs) auto

interpretation lru: lru_cache "list_lru :: (('k, 'v) lru_list, 'k, 'v) lru_api"
proof (unfold_locales, goal_cases)
  case (5 k' k v c)
  obtain n xs where "c = (n, xs)" by (cases c)
  with 5 map_of_butlast [of xs k'] show ?case by (auto simp: list_lru_def)
next
  case (8 k v c)
  obtain n xs where "c = (n, xs)" by (cases c)
  moreover have "(k, v) \<in> set (AList.clearjunk xs) \<longleftrightarrow> map_of xs k = Some v"
    by (metis distinct_clearjunk map_of_clearjunk map_of_eq_Some_iff)
  ultimately show ?case by (simp add: list_lru_def)
qed (auto simp: list_lru_def map_of_drop_key split: prod.splits option.splits)

end
