(* ===== verification/Orchestrator.thy ===== *)
theory Orchestrator
  imports Correlation Fusion_Math Lru_Cache Rust_Net
begin

text \<open>
  The fusion of detections (\<^verbatim>\<open>core/detection/orchestrator.rs\<close>): detections of one kind from one source are
  one threat for the length of a window, in which further detectors raise its confidence. The three caches
  are those of the interface \<open>lru_cache\<close>, where a record of operations stands for the crate; the lookup of
  a country is a parameter. A detection reads the clock when it arrives, and again when it is published.
\<close>

section \<open>State\<close>

record source_sample =
  sm_source :: detection_source
  sm_confidence :: flt
  sm_local_attack_type :: string
  sm_diagnostics :: "detection_diagnostic list"

record dedup_entry =
  dn_sources :: "source_sample list"
  dn_first_emitted_at :: instant
  dn_emitted_at :: instant
  dn_fusion_window :: nat

type_synonym dedup_key = "string \<times> attack_type"

record fusion_audit =
  fa_src_ip :: string
  fa_attack_type :: string
  fa_fused_confidence :: flt
  fa_per_source :: "source_sample list"

record ('d, 's, 'r) orchestrator =
  or_dedup :: 'd
  or_src_ip_counts :: 's
  or_repeat_tracker :: 'r
  or_dedup_window :: nat
  or_repeat_offender_window :: nat
  or_fusion_windows :: fusion_window_lengths
  or_metrics :: fusion_metrics
  or_audits :: "fusion_audit list"

record ('d, 's, 'r) orchestrator_env =
  oe_dedup :: "('d, dedup_key, dedup_entry) lru_api"
  oe_counts :: "('s, string, u32) lru_api"
  oe_repeat :: "('r, string, instant) lru_api"
  oe_geoip :: "(ip_addr \<Rightarrow> string option) option"

record fusion_config =
  fc_dedup_window_secs :: u64
  fc_repeat_offender_window_secs :: u64
  fc_max_dedup_entries :: nat
  fc_source_count_max_entries :: nat
  fc_repeat_tracker_max_entries :: nat

definition fusion_config_validate :: "fusion_config \<Rightarrow> (error, unit) result" where
  "fusion_config_validate c =
     and_then (require_config_field (fc_max_dedup_entries c > 0) ''detection.fusion.max_dedup_entries'') (\<lambda>_.
     and_then (require_config_field (fc_source_count_max_entries c > 0) ''detection.fusion.source_count_max_entries'') (\<lambda>_.
     and_then (require_config_field (fc_repeat_tracker_max_entries c > 0) ''detection.fusion.repeat_tracker_max_entries'') (\<lambda>_.
       require_config_field (fc_dedup_window_secs c > 0) ''detection.fusion.dedup_window_secs'')))"

definition nonzero_cache_size :: "nat \<Rightarrow> nat" where
  "nonzero_cache_size n = (if n = 0 then 1 else n)"

definition DetectionOrchestrator_new :: "('d, 's, 'r) orchestrator_env \<Rightarrow> fusion_config \<Rightarrow> ('d, 's, 'r) orchestrator" where
  "DetectionOrchestrator_new E c =
     \<lparr>or_dedup = lru_new (oe_dedup E) (nonzero_cache_size (fc_max_dedup_entries c)),
      or_src_ip_counts = lru_new (oe_counts E) (nonzero_cache_size (fc_source_count_max_entries c)),
      or_repeat_tracker = lru_new (oe_repeat E) (nonzero_cache_size (fc_repeat_tracker_max_entries c)),
      or_dedup_window = unat (fc_dedup_window_secs c) * 10 ^ 9, or_repeat_offender_window = unat (fc_repeat_offender_window_secs c) * 10 ^ 9,
      or_fusion_windows = FusionWindowLengths_default, or_metrics = FusionMetrics_new, or_audits = []\<rparr>"

section \<open>Publishing\<close>

definition diagnostics_for_event :: "detection_event \<Rightarrow> detection_diagnostic list" where
  "diagnostics_for_event ev =
     (if de_source ev \<noteq> MlSource then []
      else [\<lparr>dd_source = de_source ev, dd_name = ''ae_score'', dd_value = de_ae_score ev\<rparr>,
            \<lparr>dd_source = de_source ev, dd_name = ''anomaly_score'', dd_value = de_anomaly_score ev\<rparr>,
            \<lparr>dd_source = de_source ev, dd_name = ''c2_score'', dd_value = de_c2_score ev\<rparr>])"

definition packet_rate :: "detection_event \<Rightarrow> flt" where
  "packet_rate ev =
     (if de_flow_duration_us ev > 0
      then fdiv f64 (u64_as_f64 (de_packet_count ev)) (fdiv f64 (u64_as_f64 (de_flow_duration_us ev)) (Fin 1000000)) else Fin 0)"

definition enrich :: "('d, 's, 'r) orchestrator_env \<Rightarrow> instant \<Rightarrow> detection_event \<Rightarrow> ('d, 's, 'r) orchestrator \<Rightarrow> threat_event \<times> ('d, 's, 'r) orchestrator" where
  "enrich E now ev s =
     (let src_ip = de_source_ip ev;
          (n, cs) = lru_get (oe_counts E) src_ip (or_src_ip_counts s);
          (hit_count, cs) = (case n of
              Some c \<Rightarrow> let c = (if c = - 1 then c else c + 1) in (c, lru_write (oe_counts E) src_ip c cs)
            | None \<Rightarrow> (1, lru_put (oe_counts E) src_ip 1 cs));
          (last, rt) = lru_get (oe_repeat E) src_ip (or_repeat_tracker s);
          is_repeat = (case last of Some l \<Rightarrow> now - l < or_repeat_offender_window s | None \<Rightarrow> False);
          rt = lru_put (oe_repeat E) src_ip now rt;
          country = Option.bind (oe_geoip E) (\<lambda>lookup. Option.bind (parse_ip_addr src_ip) lookup)
      in (\<lparr>te_attack_type = de_attack_type ev, te_confidence = de_confidence ev, te_source_ip = de_source_ip ev, te_dest_ip = de_dest_ip ev,
           te_flow_count = hit_count, te_packet_rate = packet_rate ev, te_protocol = de_protocol ev, te_geoip_country = country,
           te_is_repeat_offender = is_repeat, te_sources = [de_source ev], te_active_source_count = 1, te_fused_confidence = de_confidence ev,
           te_diagnostics = diagnostics_for_event ev\<rparr>,
          s\<lparr>or_src_ip_counts := cs, or_repeat_tracker := rt\<rparr>))"

definition publish_fusion_audit :: "detection_event \<Rightarrow> flt \<Rightarrow> source_sample list \<Rightarrow> ('d, 's, 'r) orchestrator \<Rightarrow> ('d, 's, 'r) orchestrator" where
  "publish_fusion_audit ev fused samples s =
     s\<lparr>or_audits := or_audits s @ [\<lparr>fa_src_ip = de_source_ip ev, fa_attack_type = de_attack_type ev, fa_fused_confidence = fused, fa_per_source = samples\<rparr>]\<rparr>"

definition emit_fused ::
    "('d, 's, 'r) orchestrator_env \<Rightarrow> instant \<Rightarrow> detection_event \<Rightarrow> dedup_key \<Rightarrow> ('d, 's, 'r) orchestrator \<Rightarrow> threat_event option \<times> ('d, 's, 'r) orchestrator" where
  "emit_fused E now ev key s =
     (case lru_get (oe_dedup E) key (or_dedup s) of
        (None, dd) \<Rightarrow> (None, s\<lparr>or_dedup := dd\<rparr>)
      | (Some entry, dd) \<Rightarrow>
          let samples = dn_sources entry; s = s\<lparr>or_dedup := dd\<rparr>;
              fused = fused_confidence (map sm_confidence samples);
              (te, s) = enrich E now ev s;
              te = te\<lparr>te_sources := map sm_source samples, te_diagnostics := concat (map sm_diagnostics samples),
                      te_active_source_count := length samples, te_fused_confidence := fused, te_confidence := fused\<rparr>;
              s = s\<lparr>or_metrics := record_emit (te_active_source_count te) (or_metrics s)\<rparr>
          in (Some te, publish_fusion_audit ev fused samples s))"

section \<open>Handling a detection\<close>

definition sample_of :: "detection_event \<Rightarrow> string \<Rightarrow> source_sample" where
  "sample_of ev raw_label =
     \<lparr>sm_source = de_source ev, sm_confidence = de_confidence ev, sm_local_attack_type = raw_label, sm_diagnostics = diagnostics_for_event ev\<rparr>"

fun raise_sample :: "detection_event \<Rightarrow> string \<Rightarrow> source_sample list \<Rightarrow> source_sample list" where
  "raise_sample ev raw_label [] = []"
| "raise_sample ev raw_label (x # xs) =
     (if sm_source x = de_source ev
      then (if flt_less (sm_confidence x) (de_confidence ev)
            then x\<lparr>sm_confidence := de_confidence ev, sm_local_attack_type := raw_label, sm_diagnostics := diagnostics_for_event ev\<rparr> else x) # xs
      else x # raise_sample ev raw_label xs)"

text \<open>A window is opened; where the cache is full, the least recently used window is given up.\<close>

definition open_window ::
    "('d, 's, 'r) orchestrator_env \<Rightarrow> instant \<Rightarrow> instant \<Rightarrow> detection_event \<Rightarrow> string \<Rightarrow> dedup_key \<Rightarrow> ('d, 's, 'r) orchestrator
     \<Rightarrow> threat_event option \<times> ('d, 's, 'r) orchestrator" where
  "open_window E now now2 ev raw_label key s =
     (let fusion_window = unat (for_source (or_fusion_windows s) (de_source ev)) * 10 ^ 9;
          was_full = lru_len (oe_dedup E) (or_dedup s) \<ge> lru_cap (oe_dedup E) (or_dedup s);
          key_was_absent = (lru_peek (oe_dedup E) key (or_dedup s) = None);
          s = (if was_full \<and> key_was_absent then s\<lparr>or_metrics := record_eviction (or_metrics s)\<rparr> else s);
          entry = \<lparr>dn_sources = [sample_of ev raw_label], dn_first_emitted_at = now, dn_emitted_at = now, dn_fusion_window = fusion_window\<rparr>
      in emit_fused E now2 ev key (s\<lparr>or_dedup := lru_put (oe_dedup E) key entry (or_dedup s)\<rparr>))"

definition handle_detection ::
    "('d, 's, 'r) orchestrator_env \<Rightarrow> instant \<Rightarrow> instant \<Rightarrow> detection_event \<Rightarrow> ('d, 's, 'r) orchestrator \<Rightarrow> threat_event option \<times> ('d, 's, 'r) orchestrator" where
  "handle_detection E now now2 event s =
     (let s = s\<lparr>or_metrics := record_fire (de_source event) (or_metrics s)\<rparr>;
          raw_label = de_attack_type event;
          canonical = translate_label (de_source event) (de_attack_type event);
          event = event\<lparr>de_attack_type := attack_type_as_str canonical\<rparr>;
          key = (de_source_ip event, canonical);
          (found, dd) = lru_get (oe_dedup E) key (or_dedup s);
          s = s\<lparr>or_dedup := dd\<rparr>
      in case found of
           None \<Rightarrow> open_window E now now2 event raw_label key s
         | Some entry \<Rightarrow>
             let since_first = now - dn_first_emitted_at entry
             in if since_first \<ge> or_dedup_window s
                then open_window E now now2 event raw_label key (s\<lparr>or_dedup := lru_pop (oe_dedup E) key (or_dedup s)\<rparr>)
                else if since_first < dn_fusion_window entry
                then if \<not> list_ex (\<lambda>x. sm_source x = de_source event) (dn_sources entry)
                     then emit_fused E now2 event key
                            (s\<lparr>or_dedup := lru_write (oe_dedup E) key
                                 (entry\<lparr>dn_sources := dn_sources entry @ [sample_of event raw_label], dn_emitted_at := now\<rparr>) (or_dedup s)\<rparr>)
                     else (None, s\<lparr>or_dedup := lru_write (oe_dedup E) key
                                 (entry\<lparr>dn_sources := raise_sample event raw_label (dn_sources entry)\<rparr>) (or_dedup s)\<rparr>)
                else (None, s))"

definition cleanup_expired :: "('d, 's, 'r) orchestrator_env \<Rightarrow> instant \<Rightarrow> ('d, 's, 'r) orchestrator \<Rightarrow> ('d, 's, 'r) orchestrator" where
  "cleanup_expired E now s =
     (let expired = map fst (filter (\<lambda>(k, entry). now - dn_first_emitted_at entry \<ge> or_dedup_window s) (lru_iter (oe_dedup E) (or_dedup s)))
      in s\<lparr>or_dedup := foldl (\<lambda>dd k. lru_pop (oe_dedup E) k dd) (or_dedup s) expired\<rparr>)"

section \<open>The bridges from the model's alerts\<close>

record alert_message =
  am_timestamp :: u64
  am_flow_key :: string
  am_src_ip :: string
  am_dst_ip :: string
  am_src_port :: u16
  am_dst_port :: u16
  am_protocol :: u8
  am_is_attack :: bool
  am_attack_type :: "string option"
  am_confidence :: flt
  am_ae_score :: flt
  am_anomaly_score :: flt
  am_c2_score :: flt
  am_packet_count :: u64
  am_flow_duration_us :: u64

definition bridge_ml_to_detection :: "alert_message \<Rightarrow> detection_channel \<Rightarrow> detection_channel" where
  "bridge_ml_to_detection alert ch =
     (let raw_type = (case am_attack_type alert of Some t \<Rightarrow> t | None \<Rightarrow> ''unknown'')
      in if to_ascii_lowercase raw_type = ''normal'' then ch
         else snd (send_detection_or_log
           \<lparr>de_source = MlSource, de_attack_type = raw_type, de_confidence = am_confidence alert, de_source_ip = am_src_ip alert,
            de_dest_ip = am_dst_ip alert, de_protocol = am_protocol alert, de_packet_count = am_packet_count alert,
            de_flow_duration_us = am_flow_duration_us alert, de_ae_score = am_ae_score alert, de_anomaly_score = am_anomaly_score alert,
            de_c2_score = am_c2_score alert\<rparr> ch))"

definition bridge_ml_to_flow_observation :: "alert_message \<Rightarrow> flow_observation" where
  "bridge_ml_to_flow_observation alert =
     \<lparr>fo_src_ip = am_src_ip alert, fo_dst_ip = am_dst_ip alert, fo_dst_port = am_dst_port alert, fo_protocol = am_protocol alert,
      fo_packet_count = am_packet_count alert, fo_flow_duration_us = am_flow_duration_us alert\<rparr>"

section \<open>What the caches hold\<close>

definition good_window :: "dedup_entry \<Rightarrow> bool" where
  "good_window e \<longleftrightarrow> dn_sources e \<noteq> [] \<and> distinct (map sm_source (dn_sources e))"

definition good_windows :: "('d, 's, 'r) orchestrator_env \<Rightarrow> ('d, 's, 'r) orchestrator \<Rightarrow> bool" where
  "good_windows E s \<longleftrightarrow> (\<forall>k e. lru_peek (oe_dedup E) k (or_dedup s) = Some e \<longrightarrow> good_window e)"

lemma enrich_keeps:
  "or_dedup (snd (enrich E now ev s)) = or_dedup s" "or_dedup_window (snd (enrich E now ev s)) = or_dedup_window s"
  "te_source_ip (fst (enrich E now ev s)) = de_source_ip ev" "te_attack_type (fst (enrich E now ev s)) = de_attack_type ev"
  by (simp_all add: enrich_def Let_def split: prod.splits option.splits)

lemma raise_sample_sources [simp]: "map sm_source (raise_sample ev l xs) = map sm_source xs" "raise_sample ev l xs = [] \<longleftrightarrow> xs = []"
  by (induction xs) auto

text \<open>What a threat says, published over the samples of its window.\<close>

definition publishes :: "detection_event \<Rightarrow> source_sample list \<Rightarrow> threat_event \<Rightarrow> bool" where
  "publishes ev samples te \<longleftrightarrow>
     te_source_ip te = de_source_ip ev \<and> te_attack_type te = de_attack_type ev \<and> te_sources te = map sm_source samples
     \<and> te_active_source_count te = length samples \<and> te_confidence te = fused_confidence (map sm_confidence samples)
     \<and> te_fused_confidence te = te_confidence te"

text \<open>When a detection is published, and over which samples.\<close>

definition window_samples ::
    "('d, 's, 'r) orchestrator_env \<Rightarrow> instant \<Rightarrow> detection_event \<Rightarrow> ('d, 's, 'r) orchestrator \<Rightarrow> source_sample list option" where
  "window_samples E now ev s =
     (let canonical = translate_label (de_source ev) (de_attack_type ev);
          fresh = sample_of (ev\<lparr>de_attack_type := attack_type_as_str canonical\<rparr>) (de_attack_type ev)
      in case lru_peek (oe_dedup E) (de_source_ip ev, canonical) (or_dedup s) of
           None \<Rightarrow> Some [fresh]
         | Some e \<Rightarrow>
             if now - dn_first_emitted_at e \<ge> or_dedup_window s then Some [fresh]
             else if now - dn_first_emitted_at e < dn_fusion_window e \<and> de_source ev \<notin> sm_source ` set (dn_sources e)
             then Some (dn_sources e @ [fresh]) else None)"

locale dedup_cache = cache: lru_cache "oe_dedup E" for E :: "('d, 's, 'r) orchestrator_env"
begin

abbreviation window_of :: "dedup_key \<Rightarrow> ('d, 's, 'r) orchestrator \<Rightarrow> dedup_entry option" where
  "window_of k s \<equiv> lru_peek (oe_dedup E) k (or_dedup s)"

lemma emit_fused_spec:
  assumes "window_of key s = Some entry"
  shows "\<exists>te s'. emit_fused E now ev key s = (Some te, s') \<and> publishes ev (dn_sources entry) te
    \<and> (\<forall>k. window_of k s' = window_of k s) \<and> or_dedup_window s' = or_dedup_window s"
proof -
  obtain dd where dd: "lru_get (oe_dedup E) key (or_dedup s) = (Some entry, dd)" "\<forall>k. lru_peek (oe_dedup E) k dd = window_of k s"
    using cache.get_eq [of key "or_dedup s"] assms by (cases "lru_get (oe_dedup E) key (or_dedup s)") auto
  note k = enrich_keeps [of E now ev "s\<lparr>or_dedup := dd\<rparr>"]
  show ?thesis using dd k
    by (cases "enrich E now ev (s\<lparr>or_dedup := dd\<rparr>)") (simp add: emit_fused_def publishes_def publish_fusion_audit_def Let_def split: prod.splits)
qed

lemma open_window_spec:
  "\<exists>te s'. open_window E now now2 ev raw key s = (Some te, s') \<and> publishes ev [sample_of ev raw] te
    \<and> (\<forall>k e. window_of k s' = Some e \<longrightarrow> k \<noteq> key \<and> window_of k s = Some e
         \<or> k = key \<and> dn_sources e = [sample_of ev raw] \<and> dn_first_emitted_at e = now)
    \<and> or_dedup_window s' = or_dedup_window s"
proof -
  define entry where "entry = \<lparr>dn_sources = [sample_of ev raw], dn_first_emitted_at = now, dn_emitted_at = now,
    dn_fusion_window = unat (for_source (or_fusion_windows s) (de_source ev)) * 10 ^ 9\<rparr>"
  define s1 where "s1 = (if lru_len (oe_dedup E) (or_dedup s) \<ge> lru_cap (oe_dedup E) (or_dedup s) \<and> window_of key s = None
    then s\<lparr>or_metrics := record_eviction (or_metrics s)\<rparr> else s)"
  define s2 where "s2 = s1\<lparr>or_dedup := lru_put (oe_dedup E) key entry (or_dedup s1)\<rparr>"
  have same: "or_dedup s1 = or_dedup s" "or_dedup_window s2 = or_dedup_window s" by (simp_all add: s1_def s2_def)
  have "window_of key s2 = Some entry" by (simp add: s2_def)
  from emit_fused_spec [OF this, of now2 ev]
  obtain te s' where r: "emit_fused E now2 ev key s2 = (Some te, s')" "publishes ev (dn_sources entry) te" "\<forall>k. window_of k s' = window_of k s2"
    "or_dedup_window s' = or_dedup_window s2" by blast
  have "open_window E now now2 ev raw key s = emit_fused E now2 ev key s2"
    by (simp add: open_window_def Let_def entry_def s1_def s2_def)
  moreover have "k \<noteq> key \<and> window_of k s = Some e \<or> k = key \<and> dn_sources e = [sample_of ev raw] \<and> dn_first_emitted_at e = now"
    if "window_of k s' = Some e" for k e
  proof -
    have "lru_peek (oe_dedup E) k (lru_put (oe_dedup E) key entry (or_dedup s1)) = Some e" using that r(3) by (simp add: s2_def)
    from cache.put_Some [OF this] show ?thesis unfolding same(1) by (elim disjE) (simp_all add: entry_def)
  qed
  moreover have "publishes ev [sample_of ev raw] te" using r(2) by (simp add: entry_def)
  ultimately show ?thesis using r(1,4) same(2) by simp
qed

text \<open>What handling a detection does: it publishes over the samples of the window, or nothing.\<close>

lemma handle_detection_spec:
  fixes ev s
  defines "canonical \<equiv> translate_label (de_source ev) (de_attack_type ev)"
  assumes good: "good_windows E s"
  shows "good_windows E (snd (handle_detection E now now2 ev s))
    \<and> or_dedup_window (snd (handle_detection E now now2 ev s)) = or_dedup_window s
    \<and> (case window_samples E now ev s of
          None \<Rightarrow> fst (handle_detection E now now2 ev s) = None
        | Some samples \<Rightarrow> \<exists>te. fst (handle_detection E now now2 ev s) = Some te
            \<and> publishes (ev\<lparr>de_attack_type := attack_type_as_str canonical\<rparr>) samples te \<and> samples \<noteq> [] \<and> distinct (map sm_source samples)
            \<and> de_source ev \<in> sm_source ` set samples)"
proof -
  let ?ev = "ev\<lparr>de_attack_type := attack_type_as_str canonical\<rparr>" and ?key = "(de_source_ip ev, canonical)"
  let ?s = "s\<lparr>or_metrics := record_fire (de_source ev) (or_metrics s)\<rparr>"
  obtain found dd where get: "lru_get (oe_dedup E) ?key (or_dedup s) = (found, dd)" by fastforce
  have found: "found = window_of ?key s" and dd: "lru_peek (oe_dedup E) k dd = window_of k s" for k
    using cache.get_eq [OF get] by blast+
  let ?s1 = "?s\<lparr>or_dedup := dd\<rparr>"
  have g1: "good_windows E ?s1" using good dd by (simp add: good_windows_def)
  have open': "good_windows E (snd (open_window E now now2 ?ev raw ?key s')) \<and> or_dedup_window (snd (open_window E now now2 ?ev raw ?key s')) = or_dedup_window s
     \<and> (\<exists>te. fst (open_window E now now2 ?ev raw ?key s') = Some te \<and> publishes ?ev [sample_of ?ev raw] te)"
    if "good_windows E s'" "or_dedup_window s' = or_dedup_window s" for s' raw
    using open_window_spec [of now now2 ?ev raw ?key s'] that by (fastforce simp: good_windows_def good_window_def)
  show ?thesis
  proof (cases "window_of ?key s")
    case None
    then have "handle_detection E now now2 ev s = open_window E now now2 ?ev (de_attack_type ev) ?key ?s1"
      using get found by (simp add: handle_detection_def canonical_def Let_def)
    moreover have "window_samples E now ev s = Some [sample_of ?ev (de_attack_type ev)]"
      using None by (simp add: window_samples_def canonical_def Let_def)
    ultimately show ?thesis using open' [OF g1] by (auto simp: sample_of_def)
  next
    case (Some e)
    have e: "good_window e" using good Some by (simp add: good_windows_def)
    have in_ex: "list_ex (\<lambda>x. sm_source x = de_source ev) (dn_sources e) \<longleftrightarrow> de_source ev \<in> sm_source ` set (dn_sources e)"
      by (force simp: list_ex_iff)
    let ?since = "now - dn_first_emitted_at e"
    consider (expired) "?since \<ge> or_dedup_window s"
      | (joins) "?since < or_dedup_window s" "?since < dn_fusion_window e" "de_source ev \<notin> sm_source ` set (dn_sources e)"
      | (repeats) "?since < or_dedup_window s" "?since < dn_fusion_window e" "de_source ev \<in> sm_source ` set (dn_sources e)"
      | (closed) "?since < or_dedup_window s" "\<not> ?since < dn_fusion_window e" by linarith
    then show ?thesis
    proof cases
      case expired
      let ?s2 = "?s1\<lparr>or_dedup := lru_pop (oe_dedup E) ?key dd\<rparr>"
      have "handle_detection E now now2 ev s = open_window E now now2 ?ev (de_attack_type ev) ?key ?s2"
        using get found Some expired by (simp add: handle_detection_def canonical_def Let_def)
      moreover have "window_samples E now ev s = Some [sample_of ?ev (de_attack_type ev)]"
        using Some expired by (simp add: window_samples_def canonical_def Let_def)
      moreover have "good_windows E ?s2" using g1 by (simp add: good_windows_def)
      ultimately show ?thesis using open' [of ?s2] by (auto simp: sample_of_def)
    next
      case joins
      let ?e = "e\<lparr>dn_sources := dn_sources e @ [sample_of ?ev (de_attack_type ev)], dn_emitted_at := now\<rparr>"
      let ?s2 = "?s1\<lparr>or_dedup := lru_write (oe_dedup E) ?key ?e dd\<rparr>"
      have w: "lru_peek (oe_dedup E) k (or_dedup ?s2) = (if k = ?key then Some ?e else window_of k s)" for k
        using cache.written [of ?key dd k ?e] dd Some by simp
      have ge: "good_window ?e" using e joins(3) by (auto simp: good_window_def sample_of_def)
      have "handle_detection E now now2 ev s = emit_fused E now2 ?ev ?key ?s2"
        using get found Some joins in_ex by (simp add: handle_detection_def canonical_def Let_def)
      moreover have "window_samples E now ev s = Some (dn_sources ?e)"
        using Some joins by (simp add: window_samples_def canonical_def Let_def)
      moreover obtain te s' where "emit_fused E now2 ?ev ?key ?s2 = (Some te, s')" "publishes ?ev (dn_sources ?e) te"
        "\<forall>k. window_of k s' = lru_peek (oe_dedup E) k (or_dedup ?s2)" "or_dedup_window s' = or_dedup_window s"
        using emit_fused_spec [of ?key ?s2 ?e now2 ?ev] w by auto
      moreover have "good_windows E s'" if "\<forall>k. window_of k s' = lru_peek (oe_dedup E) k (or_dedup ?s2)" for s'
        unfolding good_windows_def using that ge good w by (metis good_windows_def option.inject)
      ultimately show ?thesis using ge by (auto simp: good_window_def sample_of_def)
    next
      case repeats
      let ?e = "e\<lparr>dn_sources := raise_sample ?ev (de_attack_type ev) (dn_sources e)\<rparr>"
      let ?s2 = "?s1\<lparr>or_dedup := lru_write (oe_dedup E) ?key ?e dd\<rparr>"
      have w: "lru_peek (oe_dedup E) k (or_dedup ?s2) = (if k = ?key then Some ?e else window_of k s)" for k
        using cache.written [of ?key dd k ?e] dd Some by simp
      have "good_window ?e" using e by (simp add: good_window_def)
      then have "good_windows E ?s2" unfolding good_windows_def using good w by (metis good_windows_def option.inject)
      moreover have "handle_detection E now now2 ev s = (None, ?s2)"
        using get found Some repeats in_ex by (simp add: handle_detection_def canonical_def Let_def)
      moreover have "window_samples E now ev s = None" using Some repeats by (simp add: window_samples_def canonical_def Let_def)
      ultimately show ?thesis by simp
    next
      case closed
      have "handle_detection E now now2 ev s = (None, ?s1)" using get found Some closed by (simp add: handle_detection_def canonical_def Let_def)
      moreover have "window_samples E now ev s = None" using Some closed by (simp add: window_samples_def canonical_def Let_def)
      ultimately show ?thesis using g1 by simp
    qed
  qed
qed

lemma pop_all: "lru_peek (oe_dedup E) k (foldl (\<lambda>dd k. lru_pop (oe_dedup E) k dd) c ks) = (if k \<in> set ks then None else lru_peek (oe_dedup E) k c)"
  by (induction ks arbitrary: c) auto

lemma cleanup_windows:
  "window_of k (cleanup_expired E now s) =
     (case window_of k s of Some e \<Rightarrow> if now - dn_first_emitted_at e \<ge> or_dedup_window s then None else Some e | None \<Rightarrow> None)"
proof -
  have "k \<in> set (map fst (filter (\<lambda>(k, entry). now - dn_first_emitted_at entry \<ge> or_dedup_window s) (lru_iter (oe_dedup E) (or_dedup s)))) \<longleftrightarrow>
      (\<exists>e. window_of k s = Some e \<and> now - dn_first_emitted_at e \<ge> or_dedup_window s)"
    using cache.iter [of k _ "or_dedup s"] by force
  then show ?thesis by (simp add: cleanup_expired_def Let_def pop_all split: option.split)
qed

lemma cleanup_good: "good_windows E s \<Longrightarrow> good_windows E (cleanup_expired E now s)"
  by (auto simp: good_windows_def cleanup_windows split: option.splits if_splits)

lemma new_good: "good_windows E (DetectionOrchestrator_new E c)"
  by (simp add: good_windows_def DetectionOrchestrator_new_def)

end

text \<open>The states the task goes through.\<close>

inductive orchestrator_reach :: "('d, 's, 'r) orchestrator_env \<Rightarrow> fusion_config \<Rightarrow> ('d, 's, 'r) orchestrator \<Rightarrow> bool"
  for E c where
  start: "orchestrator_reach E c (DetectionOrchestrator_new E c)"
| detection: "orchestrator_reach E c s \<Longrightarrow> orchestrator_reach E c (snd (handle_detection E now now2 ev s))"
| tick: "orchestrator_reach E c s \<Longrightarrow> orchestrator_reach E c (cleanup_expired E now s)"

inductive_cases orchestrator_reachE: "orchestrator_reach E c s"

context dedup_cache
begin

lemma reach_good: "orchestrator_reach E c s \<Longrightarrow> good_windows E s"
proof (induction rule: orchestrator_reach.induct)
  case start
  show ?case by (rule new_good)
next
  case detection
  then show ?case using handle_detection_spec by blast
next
  case tick
  then show ?case using cleanup_good by blast
qed

end

section \<open>Properties\<close>

lemma sources_bound: "distinct xs \<Longrightarrow> length xs \<le> 4" for xs :: "detection_source list"
proof -
  assume "distinct xs"
  moreover have "set xs \<subseteq> {MlSource, Correlation, Beaconing, Suricata}" using detection_source.exhaust by auto
  ultimately show ?thesis using card_mono [of "{MlSource, Correlation, Beaconing, Suricata}" "set xs"] by (simp add: distinct_card)
qed

text \<open>
  C9. What the fusion publishes: in every state the task can reach, a detection is published exactly if no window of its
  source address and canonical type is open (or the open one has passed), or if its window still fuses and has not heard of
  this detector. The threat then names the address and a canonical type, lists the detectors of the window once each, the new
  one among them, at most four, and its confidence is a number between 0 and 1, not below that of the detectors heard before.
\<close>

theorem published_threats_are_fused:
  assumes "lru_cache (oe_dedup E)" "orchestrator_reach E c s"
  shows "case window_samples E now ev s of
      None \<Rightarrow> fst (handle_detection E now now2 ev s) = None
    | Some samples \<Rightarrow> \<exists>te. fst (handle_detection E now now2 ev s) = Some te
        \<and> te_source_ip te = de_source_ip ev
        \<and> canonical_from_str (te_attack_type te) = Some (translate_label (de_source ev) (de_attack_type ev))
        \<and> te_sources te = map sm_source samples \<and> distinct (te_sources te) \<and> de_source ev \<in> set (te_sources te)
        \<and> te_active_source_count te = length (te_sources te) \<and> te_active_source_count te \<le> 4
        \<and> te_fused_confidence te = te_confidence te \<and> in_unit (te_confidence te)
        \<and> fle (fused_confidence (map sm_confidence (butlast samples))) (te_confidence te)"
proof -
  have d: "dedup_cache E" using assms(1) by (simp add: dedup_cache_def)
  note spec = dedup_cache.handle_detection_spec [OF d dedup_cache.reach_good [OF d assms(2)], of now now2 ev]
  show ?thesis
  proof (cases "window_samples E now ev s")
    case (Some samples)
    with spec obtain te where te: "fst (handle_detection E now now2 ev s) = Some te"
        "publishes (ev\<lparr>de_attack_type := attack_type_as_str (translate_label (de_source ev) (de_attack_type ev))\<rparr>) samples te"
        "samples \<noteq> []" "distinct (map sm_source samples)" "de_source ev \<in> sm_source ` set samples" by auto
    have "samples = butlast samples @ [last samples]" using te(3) by simp
    then have "map sm_confidence samples = map sm_confidence (butlast samples) @ [sm_confidence (last samples)]" by (metis list.simps(8,9) map_append)
    then have "fle (fused_confidence (map sm_confidence (butlast samples))) (fused_confidence (map sm_confidence samples))"
      using fused_append by metis
    with Some te sources_bound [OF te(4)] fused_append show ?thesis by (auto simp: publishes_def)
  qed (use spec in simp)
qed

type_synonym list_orchestrator_env =
  "((dedup_key, dedup_entry) lru_list, (string, u32) lru_list, (string, instant) lru_list) orchestrator_env"

definition list_env :: list_orchestrator_env where
  "list_env = \<lparr>oe_dedup = list_lru, oe_counts = list_lru, oe_repeat = list_lru, oe_geoip = None\<rparr>"

interpretation listed: dedup_cache list_env
  by (simp add: dedup_cache_def list_env_def lru.lru_cache_axioms)

definition fusion_defaults :: fusion_config where
  "fusion_defaults = \<lparr>fc_dedup_window_secs = 30, fc_repeat_offender_window_secs = 7200, fc_max_dedup_entries = 50000,
     fc_source_count_max_entries = 10000, fc_repeat_tracker_max_entries = 5000\<rparr>"

definition scan_event :: detection_event where
  "scan_event = correlation_event PortScan (80 / 100) ''10.0.0.9'' ''10.0.0.1'' (probe 22)"

theorem published_threats_are_fused_witness:
  "\<exists>te. fst (handle_detection list_env 0 0 scan_event (DetectionOrchestrator_new list_env fusion_defaults)) = Some te
    \<and> te_source_ip te = ''10.0.0.9'' \<and> te_sources te = [Correlation] \<and> in_unit (te_confidence te)"
proof -
  have "window_samples list_env 0 scan_event (DetectionOrchestrator_new list_env fusion_defaults) =
      Some [sample_of (scan_event\<lparr>de_attack_type := attack_type_as_str (translate_label (de_source scan_event) (de_attack_type scan_event))\<rparr>)
              (de_attack_type scan_event)]"
    by (simp add: window_samples_def DetectionOrchestrator_new_def Let_def)
  with published_threats_are_fused [OF listed.cache.lru_cache_axioms orchestrator_reach.start, where now = 0 and ?now2.0 = 0 and ev = scan_event and c = fusion_defaults]
  show ?thesis by (auto simp: sample_of_def scan_event_def correlation_event_def)
qed

end
