(* ===== verification/Inference_Engine.thy ===== *)
theory Inference_Engine
  imports Model_Inference Flow_Features Orchestrator "HOL-Library.Sublist"
begin

text \<open>
  The task around the models (\<^verbatim>\<open>core/inference/engine.rs\<close>, \<^verbatim>\<open>aggregator.rs\<close>, \<^verbatim>\<open>alert.rs\<close>): which flows of
  the trackers are looked at, how many attack verdicts make an alert, and the message that goes to the orchestrator.
  Instants are nanoseconds; the order in which a cache is walked, the library's selection and the logarithm are parts of the environment.
\<close>

section \<open>Confirming verdicts\<close>

definition MAX_DETECTIONS_PER_FLOW :: nat where "MAX_DETECTIONS_PER_FLOW = 256"

record attack_aggregator =
  ag_detections :: "(flow_key \<times> (instant \<times> flt) list) list"
  ag_window_duration :: nat
  ag_max_flow_keys :: nat

definition AttackAggregator_new :: "u64 \<Rightarrow> nat \<Rightarrow> attack_aggregator" where
  "AttackAggregator_new window_secs max_flow_keys =
     \<lparr>ag_detections = [], ag_window_duration = unat window_secs * 10 ^ 9, ag_max_flow_keys = max max_flow_keys 1\<rparr>"

definition retain_recent :: "nat \<Rightarrow> instant \<Rightarrow> (instant \<times> flt) list \<Rightarrow> (instant \<times> flt) list" where
  "retain_recent window now ds = filter (\<lambda>(time, _). now - time < window) ds"

definition aggregator_cleanup_at :: "instant \<Rightarrow> attack_aggregator \<Rightarrow> attack_aggregator" where
  "aggregator_cleanup_at now ag =
     ag\<lparr>ag_detections := filter (\<lambda>(_, ds). ds \<noteq> []) (map (\<lambda>(k, ds). (k, retain_recent (ag_window_duration ag) now ds)) (ag_detections ag))\<rparr>"

definition average_score :: "(instant \<times> flt) list \<Rightarrow> flt" where
  "average_score ds = fdiv f32 (foldl (fadd f32) (Fin 0) (map snd ds)) (to_flt f32 (of_nat (length ds)))"

definition should_alert :: "instant \<Rightarrow> flow_key \<Rightarrow> flt \<Rightarrow> flt \<Rightarrow> nat \<Rightarrow> flt \<Rightarrow> attack_aggregator \<Rightarrow> bool \<times> attack_aggregator" where
  "should_alert now key score threshold required alert_multiplier ag =
     (let full = (length (ag_detections ag) \<ge> ag_max_flow_keys ag \<and> map_of (ag_detections ag) key = None);
          ag = (if full then aggregator_cleanup_at now ag else ag)
      in if full \<and> length (ag_detections ag) \<ge> ag_max_flow_keys ag then (False, ag)
         else let old = (case map_of (ag_detections ag) key of Some ds \<Rightarrow> ds | None \<Rightarrow> []);
                  ds = retain_recent (ag_window_duration ag) now old @ [(now, score)];
                  limit = max MAX_DETECTIONS_PER_FLOW required;
                  ds = drop (length ds - limit) ds;
                  ag = ag\<lparr>ag_detections := AList.update key ds (ag_detections ag)\<rparr>
              in if length ds < required then (False, ag)
                 else (flt_less (fmul f32 threshold alert_multiplier) (average_score ds), ag))"

section \<open>Which flows are looked at\<close>

definition ICMP_PROTOCOL :: u8 where "ICMP_PROTOCOL = 1"
definition TCP_PROTOCOL :: u8 where "TCP_PROTOCOL = 6"
definition UDP_PROTOCOL :: u8 where "UDP_PROTOCOL = 17"
definition HTTPS_PORT :: u16 where "HTTPS_PORT = 443"
definition NTP_PORT :: u16 where "NTP_PORT = 123"
definition DNS_FLOW_PORT :: u16 where "DNS_FLOW_PORT = 53"
definition NTP_MAX_AVG_PACKET_BYTES :: nat where "NTP_MAX_AVG_PACKET_BYTES = 90"
definition KNOWN_C2_PORTS :: "u16 list" where "KNOWN_C2_PORTS = [4444, 8443, 8080, 1337, 31337]"
definition ALERT_THRESHOLD_MULTIPLIER :: flt where "ALERT_THRESHOLD_MULTIPLIER = to_flt f32 (6 / 5)"

definition is_strong_benign :: "flow_key \<Rightarrow> nat \<Rightarrow> nat \<Rightarrow> u64 \<Rightarrow> bool" where
  "is_strong_benign k fwd_count bwd_count total_bytes =
     (if fk_protocol k = TCP_PROTOCOL \<and> fk_dst_port k = HTTPS_PORT then fwd_count > 0 \<and> bwd_count > 0
      else if fk_protocol k = UDP_PROTOCOL \<and> fk_dst_port k = DNS_FLOW_PORT then fwd_count + bwd_count \<le> 4
      else if fk_protocol k = UDP_PROTOCOL \<and> fk_dst_port k = NTP_PORT
      then let total_pkts = fwd_count + bwd_count in total_pkts > 0 \<and> unat total_bytes div total_pkts \<le> NTP_MAX_AVG_PACKET_BYTES
      else False)"

definition effective_min_packets :: "flow_key \<Rightarrow> nat \<Rightarrow> nat \<Rightarrow> nat" where
  "effective_min_packets k global lowest =
     (let floored = max global (max lowest 1)
      in if fk_protocol k = ICMP_PROTOCOL then 1
         else if fk_protocol k = UDP_PROTOCOL
         then (if fk_dst_port k = DNS_FLOW_PORT then 1 else if fk_dst_port k = NTP_PORT then 2
               else if fk_dst_port k \<in> {3333, 45700} then 2 else floored)
         else if fk_protocol k = TCP_PROTOCOL
         then (if fk_dst_port k = DNS_FLOW_PORT then 2 else if fk_dst_port k \<in> {3333, 45700} then 2
               else if fk_dst_port k \<in> set KNOWN_C2_PORTS then 2 else floored)
         else floored)"

definition FlowSnapshot_from_flow_data :: "(nat \<Rightarrow> flt list \<Rightarrow> flt list) \<Rightarrow> flow_data \<Rightarrow> flow_snapshot option" where
  "FlowSnapshot_from_flow_data sel d =
     map_option (\<lambda>stats.
       \<lparr>sn_flow_key = fd_flow_key d, sn_direction = fd_direction d, sn_start_time_us = fd_start_time_us d, sn_last_time_us = fd_last_time_us d,
        sn_packet_count = flow_packet_count d, sn_fwd_packet_count = length (fd_fwd_packets d), sn_bwd_packet_count = length (fd_bwd_packets d),
        sn_total_bytes = fd_fwd_total_bytes d + fd_bwd_total_bytes d, sn_feature_stats = stats\<rparr>) (FeatureStats_compute sel d)"

section \<open>A tick\<close>

record engine_env =
  ev_logf :: "flt \<Rightarrow> flt"
  ev_config :: ml_inference_config
  ev_breaker :: circuit_breaker_config
  ev_select :: "nat \<Rightarrow> flt list \<Rightarrow> flt list"
  ev_keys :: "flow_table \<Rightarrow> flow_key list"
  ev_limits :: flow_limits

record ml_engine =
  en_trackers :: "flow_table list"
  en_inference :: inference
  en_aggregator :: attack_aggregator
  en_min_packets :: nat
  en_min_packets_floor :: nat
  en_default_confirmations :: nat
  en_batch_size :: nat

definition default_confirmations :: "u64 \<Rightarrow> u64 \<Rightarrow> u64 \<Rightarrow> nat" where
  "default_confirmations aggregator_window_secs inference_interval_secs confirmation_window_fraction =
     (let ticks_per_window = aggregator_window_secs div max inference_interval_secs 1
      in unat (max (ticks_per_window div max confirmation_window_fraction 1) 1))"

definition Engine_new :: "inference \<Rightarrow> nat \<Rightarrow> nat \<Rightarrow> nat \<Rightarrow> nat \<Rightarrow> u64 \<Rightarrow> u64 \<Rightarrow> u64 \<Rightarrow> nat \<Rightarrow> ml_engine" where
  "Engine_new infr max_flows min_packets min_packets_floor batch_size interval_secs window_secs window_fraction num_threads =
     \<lparr>en_trackers = replicate num_threads Map.empty, en_inference = infr, en_aggregator = AttackAggregator_new window_secs max_flows,
      en_min_packets = min_packets, en_min_packets_floor = max min_packets_floor 1,
      en_default_confirmations = default_confirmations window_secs interval_secs window_fraction, en_batch_size = batch_size\<rparr>"

definition confirmations_for_attack_type :: "inference \<Rightarrow> attack_type \<Rightarrow> nat option" where
  "confirmations_for_attack_type infr t = (case inf_state infr of Active ad _ \<Rightarrow> confirmations_from_labels (ad_labels ad) t | _ \<Rightarrow> None)"

definition required_confirmations :: "inference \<Rightarrow> nat \<Rightarrow> detection_result \<Rightarrow> nat" where
  "required_confirmations infr fallback r =
     (case Option.bind (dr_attack_type r) (confirmations_for_attack_type infr) of Some n \<Rightarrow> n | None \<Rightarrow> fallback)"

text \<open>The verdicts of a batch, each at the time it is looked at; an attack verdict that is confirmed becomes an alert.\<close>

fun process_results ::
  "(detection_result \<Rightarrow> nat) \<Rightarrow> (instant \<times> detection_result) list \<Rightarrow> attack_aggregator \<Rightarrow> (instant \<times> detection_result) list \<times> attack_aggregator" where
  "process_results required [] ag = ([], ag)"
| "process_results required ((now, r) # rs) ag =
     (if dr_is_attack r
      then let (alert, ag) = should_alert now (dr_flow_key_raw r) (dr_confidence r) (dr_alert_threshold r) (required r) ALERT_THRESHOLD_MULTIPLIER ag;
               (alerts, ag) = process_results required rs ag
           in (if alert then (now, r) # alerts else alerts, ag)
      else process_results required rs ag)"

definition alert_of_result :: "detection_result \<Rightarrow> u64 \<Rightarrow> alert_message" where
  "alert_of_result r timestamp =
     (let k = dr_flow_key_raw r
      in \<lparr>am_timestamp = timestamp, am_flow_key = dr_flow_key r, am_src_ip = ip_bytes_to_string k (fk_src_ip k),
          am_dst_ip = ip_bytes_to_string k (fk_dst_ip k), am_src_port = fk_src_port k, am_dst_port = fk_dst_port k,
          am_protocol = fk_protocol k, am_is_attack = dr_is_attack r, am_attack_type = map_option attack_type_as_str (dr_attack_type r),
          am_confidence = dr_confidence r, am_ae_score = dr_ae_score r, am_anomaly_score = dr_anomaly_score r,
          am_c2_score = dr_c2_score r, am_packet_count = dr_packet_count r, am_flow_duration_us = dr_flow_duration_us r\<rparr>)"

text \<open>
  One run of the models over the flows of a tick: \<open>now\<close> and \<open>later\<close> are the breaker's readings of the clock in seconds, \<open>clk\<close> the
  instants at which the verdicts are looked at, \<open>end_time\<close> that of the clean-up. The messages carry the time of \<open>later\<close>.
\<close>

definition run_inference ::
  "engine_env \<Rightarrow> u64 \<Rightarrow> u64 \<Rightarrow> (nat \<Rightarrow> instant) \<Rightarrow> instant \<Rightarrow> flow_snapshot list \<Rightarrow> ml_engine \<Rightarrow> (alert_message list \<times> ml_engine) option" where
  "run_inference E now later clk end_time flows e =
     (case infer_batch (ev_logf E) (ev_config E) (ev_breaker E) now later (take (en_batch_size e) flows) (en_inference e) of
        None \<Rightarrow> None
      | Some (results, infr) \<Rightarrow>
          let timed = map (\<lambda>(i, r). (clk i, r)) (enumerate 0 results);
              (alerts, ag) = process_results (required_confirmations infr (en_default_confirmations e)) timed (en_aggregator e)
          in Some (map (\<lambda>(_, r). alert_of_result r later) alerts,
                   e\<lparr>en_inference := infr, en_aggregator := aggregator_cleanup_at end_time ag\<rparr>))"

definition worth_inferring :: "ml_engine \<Rightarrow> flow_snapshot \<Rightarrow> bool" where
  "worth_inferring e f \<longleftrightarrow>
     sn_packet_count f \<ge> effective_min_packets (sn_flow_key f) (en_min_packets e) (en_min_packets_floor e)
     \<and> \<not> is_strong_benign (sn_flow_key f) (sn_fwd_packet_count f) (sn_bwd_packet_count f) (sn_total_bytes f)"

definition tracker_flows :: "engine_env \<Rightarrow> ml_engine \<Rightarrow> flow_table \<Rightarrow> flow_snapshot list option \<times> flow_table" where
  "tracker_flows E e t =
     (case get_uninferred (en_batch_size e) (ev_keys E t) t of
        (ds, t) \<Rightarrow> (map_option (filter (worth_inferring e)) (those (map (FlowSnapshot_from_flow_data (ev_select E)) ds)), t))"

definition run_inference_tick ::
  "engine_env \<Rightarrow> u64 \<Rightarrow> u64 \<Rightarrow> u64 \<Rightarrow> (nat \<Rightarrow> instant) \<Rightarrow> instant \<Rightarrow> ml_engine \<Rightarrow> (alert_message list \<times> ml_engine) option" where
  "run_inference_tick E now_us now later clk end_time e =
     (let cleaned = map (cleanup_stale_flows (ev_limits E) now_us) (en_trackers e);
          looked = map (tracker_flows E e) cleaned;
          e = e\<lparr>en_trackers := map snd looked\<rparr>
      in case those (map fst looked) of
           None \<Rightarrow> None
         | Some flows \<Rightarrow>
             if concat flows = [] \<or> \<not> source_is_active (inf_state (en_inference e)) then Some ([], e)
             else run_inference E now later clk end_time (concat flows) e)"

section \<open>Alerts are confirmed\<close>

text \<open>The attack verdicts so far, and those of one flow.\<close>

type_synonym verdict = "instant \<times> flow_key \<times> flt"

definition events_of :: "flow_key \<Rightarrow> verdict list \<Rightarrow> (instant \<times> flt) list" where
  "events_of k h = map (\<lambda>(t, _, s). (t, s)) (filter (\<lambda>(_, k', _). k' = k) h)"

definition attack_verdicts :: "(instant \<times> detection_result) list \<Rightarrow> verdict list" where
  "attack_verdicts rs = map (\<lambda>(t, r). (t, dr_flow_key_raw r, dr_confidence r)) (filter (\<lambda>(_, r). dr_is_attack r) rs)"

inductive aggregated :: "nat \<Rightarrow> nat \<Rightarrow> verdict list \<Rightarrow> attack_aggregator \<Rightarrow> bool" for w :: nat and mx :: nat where
  start: "1 \<le> mx \<Longrightarrow> aggregated w mx [] \<lparr>ag_detections = [], ag_window_duration = w, ag_max_flow_keys = mx\<rparr>"
| verdict: "aggregated w mx h ag \<Longrightarrow> should_alert now k s threshold required m ag = (b, ag') \<Longrightarrow> aggregated w mx (h @ [(now, k, s)]) ag'"
| cleanup: "aggregated w mx h ag \<Longrightarrow> aggregated w mx h (aggregator_cleanup_at now ag)"

definition aggregator_inv :: "nat \<Rightarrow> nat \<Rightarrow> verdict list \<Rightarrow> attack_aggregator \<Rightarrow> bool" where
  "aggregator_inv w mx h ag \<longleftrightarrow>
     ag_window_duration ag = w \<and> ag_max_flow_keys ag = mx \<and> 1 \<le> mx \<and> length (ag_detections ag) \<le> mx
     \<and> (\<forall>(k, ds)\<in>set (ag_detections ag). subseq ds (events_of k h))"

lemma length_AList_update: "length (AList.update k v al) = (if k \<in> fst ` set al then length al else Suc (length al))"
  by (induction al) auto

lemma set_AList_update: "set (AList.update k v al) \<subseteq> insert (k, v) (set al)"
  by (induction al) auto

lemma events_of_snoc: "events_of k (h @ [(t, k', s)]) = events_of k h @ (if k' = k then [(t, s)] else [])"
  by (simp add: events_of_def)

lemma cleanup_inv: "aggregator_inv w mx h ag \<Longrightarrow> aggregator_inv w mx h (aggregator_cleanup_at now ag)"
proof -
  assume inv: "aggregator_inv w mx h ag"
  have "length (ag_detections (aggregator_cleanup_at now ag)) \<le> length (ag_detections ag)"
    unfolding aggregator_cleanup_at_def using length_filter_le by (fastforce intro: order_trans)
  moreover have "subseq (retain_recent w now ds) (events_of k h)" if "subseq ds (events_of k h)" for ds k
    unfolding retain_recent_def using subseq_filter_left that by (rule subseq_order.trans)
  moreover have "\<exists>ds. (k, ds) \<in> set (ag_detections ag) \<and> ds' = retain_recent w now ds" if "(k, ds') \<in> set (ag_detections (aggregator_cleanup_at now ag))" for k ds'
    using that inv by (auto simp: aggregator_cleanup_at_def aggregator_inv_def)
  moreover have "ag_window_duration (aggregator_cleanup_at now ag) = ag_window_duration ag" "ag_max_flow_keys (aggregator_cleanup_at now ag) = ag_max_flow_keys ag"
    by (simp_all add: aggregator_cleanup_at_def)
  ultimately show "aggregator_inv w mx h (aggregator_cleanup_at now ag)"
    using inv unfolding aggregator_inv_def by (metis (no_types, lifting) case_prodD case_prodI2 order_trans)
qed

lemma inv_snoc: "aggregator_inv w mx h ag \<Longrightarrow> aggregator_inv w mx (h @ [e]) ag"
  by (cases e) (fastforce simp: aggregator_inv_def events_of_snoc)

lemma should_alert_inv:
  assumes inv: "aggregator_inv w mx h ag" and alert: "should_alert now k s threshold required m ag = (b, ag')"
  shows "aggregator_inv w mx (h @ [(now, k, s)]) ag'
    \<and> (b \<longrightarrow> 0 < w \<longrightarrow> (\<exists>ds. subseq ds (filter (\<lambda>(t, _). now - t < w) (events_of k (h @ [(now, k, s)])))
          \<and> required \<le> length ds \<and> flt_less (fmul f32 threshold m) (average_score ds)))"
proof -
  define full where "full \<longleftrightarrow> length (ag_detections ag) \<ge> ag_max_flow_keys ag \<and> map_of (ag_detections ag) k = None"
  define ag1 where "ag1 = (if full then aggregator_cleanup_at now ag else ag)"
  have inv1: "aggregator_inv w mx h ag1" using inv cleanup_inv by (auto simp: ag1_def)
  define old where "old = (case map_of (ag_detections ag1) k of Some ds \<Rightarrow> ds | None \<Rightarrow> [])"
  define pushed where "pushed = retain_recent (ag_window_duration ag1) now old @ [(now, s)]"
  define ds where "ds = drop (length pushed - max MAX_DETECTIONS_PER_FLOW required) pushed"
  define ag2 where "ag2 = ag1\<lparr>ag_detections := AList.update k ds (ag_detections ag1)\<rparr>"
  have w: "ag_window_duration ag1 = w" "ag_max_flow_keys ag1 = mx" using inv1 by (auto simp: aggregator_inv_def)
  have eq: "should_alert now k s threshold required m ag =
      (if full \<and> length (ag_detections ag1) \<ge> ag_max_flow_keys ag1 then (False, ag1)
       else if length ds < required then (False, ag2) else (flt_less (fmul f32 threshold m) (average_score ds), ag2))"
    unfolding should_alert_def Let_def full_def ag1_def old_def pushed_def ds_def ag2_def by (rule refl)
  show ?thesis
  proof (cases "full \<and> length (ag_detections ag1) \<ge> ag_max_flow_keys ag1")
    case True
    then have "ag' = ag1" "\<not> b" using alert eq by auto
    then show ?thesis using inv_snoc [OF inv1] by simp
  next
    case False
    then have res: "ag' = ag2" "b \<longleftrightarrow> required \<le> length ds \<and> flt_less (fmul f32 threshold m) (average_score ds)"
      using alert unfolding eq by (auto split: if_splits)
    have old: "subseq old (events_of k h)"
      using inv1 by (auto simp: old_def aggregator_inv_def dest!: map_of_SomeD split: option.split)
    have "subseq (retain_recent w now old) (filter (\<lambda>(t, _). now - t < w) (events_of k h))"
      unfolding retain_recent_def by (rule subseq_filter [OF old])
    then have recent: "subseq pushed (filter (\<lambda>(t, _). now - t < w) (events_of k (h @ [(now, k, s)])))" if "0 < w"
      using that by (simp add: pushed_def events_of_snoc w)
    have tail: "subseq ds pushed" unfolding ds_def by (simp add: suffix_imp_subseq suffix_drop)
    have "subseq (retain_recent w now old) (events_of k h)"
      using old subseq_filter_left unfolding retain_recent_def by (rule subseq_order.trans [rotated])
    then have "subseq pushed (events_of k (h @ [(now, k, s)]))" by (simp add: pushed_def events_of_snoc w)
    then have all: "subseq ds (events_of k (h @ [(now, k, s)]))" using tail by (rule subseq_order.trans [rotated])
    have "length (AList.update k ds (ag_detections ag1)) \<le> mx"
    proof (cases "k \<in> fst ` set (ag_detections ag1)")
      case True
      then show ?thesis using inv1 by (simp add: length_AList_update aggregator_inv_def)
    next
      case fresh: False
      have "length (ag_detections ag1) < mx"
      proof (cases full)
        case True
        then show ?thesis using False w by simp
      next
        case False
        then have "ag1 = ag" by (simp add: ag1_def)
        then show ?thesis using False fresh w by (auto simp: full_def map_of_eq_None_iff)
      qed
      then show ?thesis using fresh by (simp add: length_AList_update)
    qed
    then have "aggregator_inv w mx (h @ [(now, k, s)]) ag'"
      using inv_snoc [OF inv1, of "(now, k, s)"] all set_AList_update [of k ds "ag_detections ag1"]
      by (auto simp: aggregator_inv_def res(1) ag2_def)
    moreover have "subseq ds (filter (\<lambda>(t, _). now - t < w) (events_of k (h @ [(now, k, s)])))" if "0 < w"
      using tail recent [OF that] by (rule subseq_order.trans)
    ultimately show ?thesis using res(2) by blast
  qed
qed

lemma aggregated_inv: "aggregated w mx h ag \<Longrightarrow> aggregator_inv w mx h ag"
proof (induction rule: aggregated.induct)
  case start
  then show ?case by (simp add: aggregator_inv_def)
next
  case (verdict h ag now k s threshold required m b ag')
  then show ?case using should_alert_inv by blast
next
  case (cleanup h ag now)
  then show ?case using cleanup_inv by blast
qed

text \<open>A verdict of the list is confirmed by enough recent verdicts of its flow, up to itself.\<close>

definition confirmed :: "nat \<Rightarrow> (detection_result \<Rightarrow> nat) \<Rightarrow> verdict list \<Rightarrow> (instant \<times> detection_result) list \<Rightarrow> instant \<Rightarrow> detection_result \<Rightarrow> bool" where
  "confirmed w required h timed now r \<longleftrightarrow>
     (\<exists>pre post ds. timed = pre @ (now, r) # post \<and> dr_is_attack r
        \<and> subseq ds (filter (\<lambda>(t, _). now - t < w) (events_of (dr_flow_key_raw r) (h @ attack_verdicts (pre @ [(now, r)]))))
        \<and> required r \<le> length ds \<and> flt_less (fmul f32 (dr_alert_threshold r) ALERT_THRESHOLD_MULTIPLIER) (average_score ds))"

lemma attack_verdicts_append [simp]: "attack_verdicts (xs @ ys) = attack_verdicts xs @ attack_verdicts ys"
  by (simp add: attack_verdicts_def)

lemma confirmed_Cons:
  assumes "confirmed w required (h @ attack_verdicts [x]) timed now r"
  shows "confirmed w required h (x # timed) now r"
proof -
  obtain pre post ds where "timed = pre @ (now, r) # post" "dr_is_attack r"
    "subseq ds (filter (\<lambda>(t, _). now - t < w) (events_of (dr_flow_key_raw r) ((h @ attack_verdicts [x]) @ attack_verdicts (pre @ [(now, r)]))))"
    "required r \<le> length ds" "flt_less (fmul f32 (dr_alert_threshold r) ALERT_THRESHOLD_MULTIPLIER) (average_score ds)"
    using assms unfolding confirmed_def by blast
  moreover have "(h @ attack_verdicts [x]) @ attack_verdicts (pre @ [(now, r)]) = h @ attack_verdicts ((x # pre) @ [(now, r)])" for pre
    using attack_verdicts_append [of "[x]" "pre @ [(now, r)]"] by simp
  ultimately show ?thesis unfolding confirmed_def by (metis append_Cons)
qed

lemma process_results_confirmed:
  assumes "aggregated w mx h ag" "process_results required timed ag = (alerts, ag')" "0 < w"
  shows "aggregated w mx (h @ attack_verdicts timed) ag' \<and> (\<forall>(now, r)\<in>set alerts. confirmed w required h timed now r)"
  using assms(1,2)
proof (induction timed arbitrary: h ag alerts)
  case Nil
  then show ?case by (simp add: attack_verdicts_def)
next
  case (Cons x timed)
  obtain t r where x: "x = (t, r)" by (cases x)
  have all: "h @ attack_verdicts (x # timed) = (h @ attack_verdicts [x]) @ attack_verdicts timed"
    using attack_verdicts_append [of "[x]" timed] by simp
  show ?case
  proof (cases "dr_is_attack r")
    case False
    then have none: "attack_verdicts [x] = []" by (simp add: attack_verdicts_def x)
    have "process_results required timed ag = (alerts, ag')" using Cons.prems(2) False by (simp add: x)
    from Cons.IH [OF Cons.prems(1) this] show ?thesis
      unfolding all using confirmed_Cons [of w required h x] by (auto simp: none)
  next
    case True
    then have one: "attack_verdicts [x] = [(t, dr_flow_key_raw r, dr_confidence r)]" by (simp add: attack_verdicts_def x)
    obtain b ag1 where b: "should_alert t (dr_flow_key_raw r) (dr_confidence r) (dr_alert_threshold r) (required r) ALERT_THRESHOLD_MULTIPLIER ag = (b, ag1)"
      by (metis surj_pair)
    obtain rest where rest: "process_results required timed ag1 = (rest, ag')" "alerts = (if b then (t, r) # rest else rest)"
      using Cons.prems(2) True b by (auto simp: x split: prod.splits)
    have IH: "aggregated w mx ((h @ attack_verdicts [x]) @ attack_verdicts timed) ag'"
      "\<forall>(now, r)\<in>set rest. confirmed w required (h @ attack_verdicts [x]) timed now r"
      using Cons.IH [OF aggregated.verdict [OF Cons.prems(1) b] rest(1)] by (auto simp: one)
    have "confirmed w required h (x # timed) t r" if alerted: b
    proof -
      obtain ds where "subseq ds (filter (\<lambda>(t', _). t - t' < w) (events_of (dr_flow_key_raw r) (h @ attack_verdicts [(t, r)])))"
        "required r \<le> length ds" "flt_less (fmul f32 (dr_alert_threshold r) ALERT_THRESHOLD_MULTIPLIER) (average_score ds)"
        using should_alert_inv [OF aggregated_inv [OF Cons.prems(1)] b] alerted assms(3) by (auto simp: one [unfolded x])
      then show ?thesis using True unfolding confirmed_def x by (metis append_Nil)
    qed
    moreover have "\<forall>(now, r)\<in>set rest. confirmed w required h (x # timed) now r"
      using IH(2) confirmed_Cons [of w required h x timed] by fast
    ultimately show ?thesis using IH(1) unfolding all rest(2) by (cases b) simp_all
  qed
qed

text \<open>
  Alerts are confirmed: whatever verdicts and clean-ups came before, a message that a run of the models sends out
  comes from an attack verdict of the run whose flow had, within the window and up to this verdict, at least as many attack
  verdicts as its type requires, with an average score above the scaled threshold of the rule; and the table of
  verdicts never holds more flows than configured.
\<close>

theorem alerts_are_confirmed:
  assumes "aggregated w mx h (en_aggregator e)" "0 < w"
    and run: "run_inference E now later clk end_time flows e = Some (messages, e')"
  shows "\<exists>results infr. infer_batch (ev_logf E) (ev_config E) (ev_breaker E) now later (take (en_batch_size e) flows) (en_inference e) = Some (results, infr)
     \<and> (\<forall>msg\<in>set messages. \<exists>t r. r \<in> set results \<and> msg = alert_of_result r later \<and> dr_is_attack r
          \<and> confirmed w (required_confirmations infr (en_default_confirmations e)) h (map (\<lambda>(i, r). (clk i, r)) (enumerate 0 results)) t r)
     \<and> length (ag_detections (en_aggregator e')) \<le> mx"
proof -
  obtain results infr where batch: "infer_batch (ev_logf E) (ev_config E) (ev_breaker E) now later (take (en_batch_size e) flows) (en_inference e) = Some (results, infr)"
    using run by (auto simp: run_inference_def split: option.splits)
  define timed where "timed = map (\<lambda>(i, r). (clk i, r)) (enumerate 0 results)"
  obtain alerts ag where alerts: "process_results (required_confirmations infr (en_default_confirmations e)) timed (en_aggregator e) = (alerts, ag)"
    by (metis surj_pair)
  have out: "messages = map (\<lambda>(_, r). alert_of_result r later) alerts" "en_aggregator e' = aggregator_cleanup_at end_time ag"
    using run batch alerts by (auto simp: run_inference_def timed_def)
  have ok: "aggregated w mx (h @ attack_verdicts timed) ag"
    "\<forall>(now, r)\<in>set alerts. confirmed w (required_confirmations infr (en_default_confirmations e)) h timed now r"
    using process_results_confirmed [OF assms(1) alerts assms(2)] by auto
  have "map snd timed = results" by (simp add: timed_def comp_def case_prod_unfold)
  then have "snd ` set timed = set results" by (metis set_map)
  then have member: "r \<in> set results \<and> dr_is_attack r" if "confirmed w q h timed t r" for q t r
    using that by (force simp: confirmed_def)
  have "\<exists>t r. r \<in> set results \<and> msg = alert_of_result r later \<and> dr_is_attack r
      \<and> confirmed w (required_confirmations infr (en_default_confirmations e)) h timed t r" if "msg \<in> set messages" for msg
  proof -
    from that obtain t r where "(t, r) \<in> set alerts" "msg = alert_of_result r later" by (auto simp: out(1))
    then show ?thesis using ok(2) member by blast
  qed
  moreover have "length (ag_detections (en_aggregator e')) \<le> mx"
    using aggregated_inv [OF aggregated.cleanup [OF ok(1)]] unfolding out(2) by (simp add: aggregator_inv_def)
  ultimately show ?thesis using batch unfolding timed_def by (intro exI [of _ results] exI [of _ infr] conjI ballI) auto
qed

text \<open>
  The trackers mark up to a batch of flows each as looked at, but one batch in all is run: the flows after it are not looked at
  until they have new packets.
\<close>

lemma flows_after_batch_are_skipped:
  "run_inference E now later clk end_time flows e = run_inference E now later clk end_time (take (en_batch_size e) flows) e"
  by (simp add: run_inference_def)

section \<open>An example\<close>

text \<open>The flow gets the score 2 from the sample model, and one verdict is enough for its type.\<close>

lemma to_flt_f32_nat: "m < 2 ^ 24 \<Longrightarrow> to_flt f32 (of_nat m) = Fin (of_nat m)"
proof -
  assume m: "m < 2 ^ 24"
  have "(of_nat m :: rat) < of_nat (2 ^ 24)" using m by (simp only: of_nat_less_iff)
  also have "(of_nat (2 ^ 24) :: rat) \<le> 2 powi 128" by (simp add: power_int_def)
  finally show ?thesis using round_pos_nat [of m f32] m by (simp add: to_flt_def Let_def not_le)
qed

lemma to_flt_f32_small:
  assumes "0 \<le> q" "q \<le> of_nat m" "m < 2 ^ 24"
  shows "\<exists>r. to_flt f32 q = Fin r \<and> 0 \<le> r \<and> r \<le> of_nat m"
proof -
  have r: "round_pos f32 q \<le> of_nat m"
    using round_pos_mono [of q "of_nat m" f32] round_pos_nat [of m f32] assms by (cases "q = 0") (simp_all add: round_pos_def [of f32 0])
  have "(of_nat m :: rat) < of_nat (2 ^ 24)" using assms(3) by (simp only: of_nat_less_iff)
  also have "(of_nat (2 ^ 24) :: rat) \<le> 2 powi 128" by (simp add: power_int_def)
  finally have "round_pos f32 q < 2 powi 128" using r by linarith
  moreover have "0 \<le> round_pos f32 q" 
    using round_half_even_ge [of 0] assms(1) by (auto simp: round_pos_def Let_def)
  ultimately show ?thesis using r assms(1) by (simp add: to_flt_def Let_def not_le)
qed

lemma sample_scaled_threshold: "flt_less (fmul f32 (Fin (1 / 2)) ALERT_THRESHOLD_MULTIPLIER) (average_score [(t, Fin 2)])"
proof -
  obtain r where r: "to_flt f32 (6 / 5) = Fin r" "0 \<le> r" "r \<le> 2" using to_flt_f32_small [of "6 / 5" 2] by auto
  obtain r' where r': "to_flt f32 (r / 2) = Fin r'" "r' \<le> 1" using to_flt_f32_small [of "r / 2" 1] r(2,3) by auto
  have "average_score [(t, Fin 2)] = Fin 2"
    using to_flt_f32_nat [of 2] to_flt_f32_nat [of 1] by (simp add: average_score_def fadd_def)
  then show ?thesis using r r' by (simp add: ALERT_THRESHOLD_MULTIPLIER_def)
qed

lemma sample_outputs:
  "\<exists>po. run_stages logf cfg (ad_stages sample_adapter) [f] no_outputs = Some (Done po)
     \<and> value_at (po_scalars po) ''detector.score'' 0 = Some (Fin 2) \<and> po_thresholds po ''detector.score'' = Some (Fin (1 / 2))"
proof -
  have rows: "\<exists>row. pipeline_stage_rows logf cfg sample_stage [f] (po_scalars no_outputs) = Done [row]"
    by (simp add: pipeline_stage_rows_def sample_stage_def stage_input_value_def preprocess_pipeline_feature_def call_then_def enumerate_eq_zip)
  then obtain row where row: "pipeline_stage_rows logf cfg sample_stage [f] (po_scalars no_outputs) = Done [row]" ..
  define vals where "vals = outs_values [ScalarOut ''score'' (\<lambda>_. Fin 2)] [row]"
  have chunks: "run_chunks sample_stage [row] 0 (Map.empty, Map.empty) = Some (Done (outs_values [ScalarOut ''score'' (\<lambda>_. Fin 2)] [row]))"
    by (subst run_chunks_all [OF sample_stage_answers]) (simp add: list_all_iff)
  have run: "run_stages logf cfg (ad_stages sample_adapter) [f] no_outputs = Some (Done (collect_heads sample_stage vals no_outputs))"
    by (simp add: sample_adapter_stages row chunks vals_def)
  have "value_at (po_scalars (collect_heads sample_stage vals no_outputs)) ''detector.score'' 0 = Some (Fin 2)
      \<and> po_thresholds (collect_heads sample_stage vals no_outputs) ''detector.score'' = Some (Fin (1 / 2))"
    by (simp add: collect_heads_def collect_head_def sample_stage_def sample_score_head_def vals_def outs_values_def
        no_outputs_def Let_def stage_output_key_def value_at_def list_get_def)
  with run show ?thesis by blast
qed

lemma sample_verdict:
  assumes "value_at (po_scalars po) ''detector.score'' 0 = Some (Fin 2)" "po_thresholds po ''detector.score'' = Some (Fin (1 / 2))"
  shows "dr_is_attack (verdict_of sample_adapter po 0 f) \<and> dr_attack_type (verdict_of sample_adapter po 0 f) = Some BotActivity
     \<and> dr_confidence (verdict_of sample_adapter po 0 f) = Fin 2 \<and> dr_alert_threshold (verdict_of sample_adapter po 0 f) = Fin (1 / 2)"
proof -
  have bot: "translate_label MlSource ''bot'' = BotActivity" by code_simp
  have "evaluate_rule sample_adapter po 0 (ThresholdRule ''bots'' ''detector.score'' (FixedLabel ''bot''))
      = Some \<lparr>rc_confidence = Fin 2, rc_alert_threshold = Fin (1 / 2), rc_attack_type = BotActivity\<rparr>"
    using assms by (simp add: evaluate_rule_def attack_type_from_mapping_def bot pipeline_output_key_def sample_adapter_def output_matches_ref_def stage_output_key_def)
  then have "best_rule_candidate sample_adapter po 0 = Some \<lparr>rc_confidence = Fin 2, rc_alert_threshold = Fin (1 / 2), rc_attack_type = BotActivity\<rparr>"
    by (simp add: best_rule_candidate_def List.map_filter_def max_by_def) (simp add: sample_adapter_def)
  then show ?thesis by (simp add: verdict_of_def detection_result_of_def Let_def)
qed

definition sample_engine_env :: engine_env where
  "sample_engine_env =
     \<lparr>ev_logf = (\<lambda>x. x), ev_config = sample_settings, ev_breaker = sample_breaker, ev_select = (\<lambda>_. sort), ev_keys = (\<lambda>_. []), ev_limits = sample_limits\<rparr>"

definition sample_engine :: ml_engine where
  "sample_engine = Engine_new (Inference_new (Active sample_adapter sample_info)) 1000 5 5 64 5 60 2 1"

lemma sample_engine_started: "aggregated (60 * 10 ^ 9) 1000 [] (en_aggregator sample_engine)"
  using aggregated.start [of 1000 "60 * 10 ^ 9"] by (simp add: sample_engine_def Engine_new_def AttackAggregator_new_def)

lemma sample_message:
  "\<exists>msg e'. run_inference sample_engine_env 1000 1001 (\<lambda>i. i) 9 [f] sample_engine = Some ([msg], e')"
proof -
  obtain po where po: "run_stages (\<lambda>x. x) sample_settings (ad_stages sample_adapter) [f] no_outputs = Some (Done po)"
    "value_at (po_scalars po) ''detector.score'' 0 = Some (Fin 2)" "po_thresholds po ''detector.score'' = Some (Fin (1 / 2))"
    using sample_outputs by blast
  define r where "r = verdict_of sample_adapter po 0 f"
  note r = sample_verdict [OF po(2,3), of f, folded r_def]
  have bot: "confirmations_from_labels (ad_labels sample_adapter) BotActivity = Some 1" by code_simp
  have "infer_batch (\<lambda>x. x) sample_settings sample_breaker 1000 1001 [f] (Inference_new (Active sample_adapter sample_info))
      = Some ([r], Inference_new (Active sample_adapter sample_info))"
    using po(1) by (simp add: infer_batch_def infer_pipeline_def is_circuit_open_def Inference_new_def record_success_def
        pipeline_detection_results_def enumerate_eq_zip r_def)
  moreover have "fst (should_alert 0 (dr_flow_key_raw r) (Fin 2) (Fin (1 / 2)) 1 ALERT_THRESHOLD_MULTIPLIER (en_aggregator sample_engine))"
    using sample_scaled_threshold [of 0]
    by (simp add: should_alert_def Let_def sample_engine_def Engine_new_def AttackAggregator_new_def retain_recent_def MAX_DETECTIONS_PER_FLOW_def)
  ultimately show ?thesis using r
    by (auto simp: run_inference_def sample_engine_env_def enumerate_eq_zip required_confirmations_def confirmations_for_attack_type_def bot
        sample_engine_def Engine_new_def Inference_new_def case_prod_unfold Let_def)
qed

theorem alerts_are_confirmed_witness:
  "\<forall>f. \<exists>msg e' r. run_inference sample_engine_env 1000 1001 (\<lambda>i. i) 9 [f] sample_engine = Some ([msg], e')
     \<and> msg = alert_of_result r 1001 \<and> dr_is_attack r \<and> length (ag_detections (en_aggregator e')) \<le> 1000"
proof
  fix f
  obtain msg e' where run: "run_inference sample_engine_env 1000 1001 (\<lambda>i. i) 9 [f] sample_engine = Some ([msg], e')"
    using sample_message by blast
  from alerts_are_confirmed [OF sample_engine_started _ run] run
  show "\<exists>msg e' r. run_inference sample_engine_env 1000 1001 (\<lambda>i. i) 9 [f] sample_engine = Some ([msg], e')
     \<and> msg = alert_of_result r 1001 \<and> dr_is_attack r \<and> length (ag_detections (en_aggregator e')) \<le> 1000"
    by auto
qed

end
