(* ===== verification/User_Packet_Parser.thy ===== *)
theory User_Packet_Parser
  imports Flow_Tracker Packet_Parsing
begin

unbundle bit_operations_syntax

text \<open>
  The second packet parser, of the frames that reach user space (\<^verbatim>\<open>common/utils/packet_parser.rs\<close>): it makes
  the packets the flows are tracked from. Indexing outside a slice panics, so the functions have an option whose \<open>None\<close>
  is the panic around the source's own; and the parser is compared with the one of the kernel programs.
\<close>

definition ETH_HEADER_LEN :: nat where "ETH_HEADER_LEN = 14"
definition IPV4_MIN_HEADER_LEN :: nat where "IPV4_MIN_HEADER_LEN = 20"
definition IPV6_HEADER_LEN :: nat where "IPV6_HEADER_LEN = 40"
definition TCP_MIN_HEADER_LEN :: nat where "TCP_MIN_HEADER_LEN = 20"
definition UDP_HEADER_LEN :: nat where "UDP_HEADER_LEN = 8"

lemmas user_header_lens =
  ETH_HEADER_LEN_def IPV4_MIN_HEADER_LEN_def IPV6_HEADER_LEN_def TCP_MIN_HEADER_LEN_def UDP_HEADER_LEN_def

text \<open>Flags, window, length of the transport header, length of header and payload.\<close>

type_synonym transport_info = "u8 \<times> u16 \<times> nat \<times> nat"

definition ipv4_transport :: "bytes \<Rightarrow> u8 \<Rightarrow> nat \<Rightarrow> nat \<Rightarrow> transport_info option option" where
  "ipv4_transport bs protocol_byte ihl total_len =
     (let start = ETH_HEADER_LEN + ihl
      in if protocol_byte = 6
         then if total_len < ihl + TCP_MIN_HEADER_LEN then Some None
              else do {
                off \<leftarrow> rd bs (start + 12);
                let data_offset = unat (drop_bit 4 off) * 4;
                if data_offset < TCP_MIN_HEADER_LEN \<or> total_len < ihl + data_offset then Some None
                else do {
                  flags \<leftarrow> rd bs (start + 13);
                  window \<leftarrow> rd_slice bs (start + 14) 2;
                  Some (Some (flags, from_be_bytes window, data_offset, total_len - ihl))
                }
              }
         else if protocol_byte = 17
         then if total_len < ihl + UDP_HEADER_LEN then Some None
              else do {
                len \<leftarrow> rd_slice bs (start + 4) 2;
                let udp_len = unat (from_be_bytes len :: u16);
                if udp_len < UDP_HEADER_LEN \<or> total_len < ihl + udp_len then Some None
                else Some (Some (0, 0, UDP_HEADER_LEN, udp_len))
              }
         else Some None)"

definition ipv6_transport :: "bytes \<Rightarrow> u8 \<Rightarrow> nat \<Rightarrow> transport_info option option" where
  "ipv6_transport bs protocol_byte payload_len =
     (let start = ETH_HEADER_LEN + IPV6_HEADER_LEN
      in if protocol_byte = 6
         then if payload_len < TCP_MIN_HEADER_LEN then Some None
              else do {
                off \<leftarrow> rd bs (start + 12);
                let data_offset = unat (drop_bit 4 off) * 4;
                if data_offset < TCP_MIN_HEADER_LEN \<or> payload_len < data_offset then Some None
                else do {
                  flags \<leftarrow> rd bs (start + 13);
                  window \<leftarrow> rd_slice bs (start + 14) 2;
                  Some (Some (flags, from_be_bytes window, data_offset, payload_len))
                }
              }
         else if protocol_byte = 17
         then if payload_len < UDP_HEADER_LEN then Some None
              else do {
                len \<leftarrow> rd_slice bs (start + 4) 2;
                let udp_len = unat (from_be_bytes len :: u16);
                if udp_len < UDP_HEADER_LEN \<or> udp_len > payload_len then Some None
                else Some (Some (0, 0, UDP_HEADER_LEN, udp_len))
              }
         else Some None)"

definition packet_of ::
  "ip_version \<Rightarrow> u8 \<Rightarrow> bytes \<Rightarrow> bytes \<Rightarrow> bytes \<Rightarrow> bytes \<Rightarrow> nat \<Rightarrow> u64 \<Rightarrow> transport_info \<Rightarrow> user_packet" where
  "packet_of version protocol_byte src dst sport dport total_len timestamp_us info =
     (case info of (flags, window, header_length, transport_len) \<Rightarrow>
        \<lparr>up_ip_version = version, up_protocol = protocol_byte, up_tcp_flags = flags, up_src_ip = src, up_dst_ip = dst,
         up_src_port = from_be_bytes sport, up_dst_port = from_be_bytes dport, up_packet_length = word_of_nat total_len,
         up_payload_length = saturating_sub (word_of_nat transport_len) (word_of_nat header_length),
         up_header_length = word_of_nat header_length, up_tcp_window_size = window, up_timestamp_us = timestamp_us,
         up_is_forward = False\<rparr>)"

definition parse_ipv4_frame :: "bytes \<Rightarrow> u64 \<Rightarrow> (user_packet \<times> nat) option option" where
  "parse_ipv4_frame bs timestamp_us =
     (if length bs < ETH_HEADER_LEN + IPV4_MIN_HEADER_LEN then Some None
      else do {
        b0 \<leftarrow> rd bs ETH_HEADER_LEN;
        if drop_bit 4 b0 \<noteq> 4 then Some None
        else do {
          protocol_byte \<leftarrow> rd bs (ETH_HEADER_LEN + 9);
          len \<leftarrow> rd_slice bs (ETH_HEADER_LEN + 2) 2;
          let ihl = unat (b0 AND 0x0F) * 4;
          let total_len = unat (from_be_bytes len :: u16);
          if ihl < IPV4_MIN_HEADER_LEN \<or> total_len < ihl \<or> length bs < ETH_HEADER_LEN + total_len then Some None
          else do {
            src \<leftarrow> rd_slice bs (ETH_HEADER_LEN + 12) 4;
            dst \<leftarrow> rd_slice bs (ETH_HEADER_LEN + 16) 4;
            if total_len < ihl + 4 then Some None
            else do {
              sport \<leftarrow> rd_slice bs (ETH_HEADER_LEN + ihl) 2;
              dport \<leftarrow> rd_slice bs (ETH_HEADER_LEN + ihl + 2) 2;
              l4 \<leftarrow> ipv4_transport bs protocol_byte ihl total_len;
              case l4 of
                None \<Rightarrow> Some None
              | Some info \<Rightarrow>
                  Some (Some (packet_of V4 protocol_byte (src @ replicate 12 0) (dst @ replicate 12 0) sport dport total_len timestamp_us info,
                              ETH_HEADER_LEN + ihl + fst (snd (snd info))))
            }
          }
        }
      })"

definition parse_ipv6_frame :: "bytes \<Rightarrow> u64 \<Rightarrow> (user_packet \<times> nat) option option" where
  "parse_ipv6_frame bs timestamp_us =
     (if length bs < ETH_HEADER_LEN + IPV6_HEADER_LEN then Some None
      else do {
        b0 \<leftarrow> rd bs ETH_HEADER_LEN;
        if drop_bit 4 b0 \<noteq> 6 then Some None
        else do {
          protocol_byte \<leftarrow> rd bs (ETH_HEADER_LEN + 6);
          src \<leftarrow> rd_slice bs (ETH_HEADER_LEN + 8) 16;
          dst \<leftarrow> rd_slice bs (ETH_HEADER_LEN + 24) 16;
          len \<leftarrow> rd_slice bs (ETH_HEADER_LEN + 4) 2;
          let payload_len = unat (from_be_bytes len :: u16);
          let total_len = payload_len + IPV6_HEADER_LEN;
          if length bs < ETH_HEADER_LEN + total_len \<or> payload_len < 4 then Some None
          else do {
            sport \<leftarrow> rd_slice bs (ETH_HEADER_LEN + IPV6_HEADER_LEN) 2;
            dport \<leftarrow> rd_slice bs (ETH_HEADER_LEN + IPV6_HEADER_LEN + 2) 2;
            l4 \<leftarrow> ipv6_transport bs protocol_byte payload_len;
            case l4 of
              None \<Rightarrow> Some None
            | Some info \<Rightarrow>
                Some (Some (packet_of V6 protocol_byte src dst sport dport total_len timestamp_us info,
                            ETH_HEADER_LEN + IPV6_HEADER_LEN + fst (snd (snd info))))
          }
        }
      })"

definition parse_packet_at :: "bytes \<Rightarrow> u64 \<Rightarrow> (user_packet \<times> nat) option option" where
  "parse_packet_at bs timestamp_us =
     (if length bs < ETH_HEADER_LEN then Some None
      else do {
        ty \<leftarrow> rd_slice bs 12 2;
        let eth_type = (from_be_bytes ty :: u16);
        if eth_type = 0x0800 then parse_ipv4_frame bs timestamp_us
        else if eth_type = 0x86DD then parse_ipv6_frame bs timestamp_us
        else Some None
      })"

section \<open>No index leaves the frame\<close>

lemma ipv4_transport_safe: "ipv4_transport bs proto ihl m = None \<Longrightarrow> length bs < 14 + m"
  by (rule ccontr) (auto simp: ipv4_transport_def user_header_lens Let_def mem_safe split: if_splits)

lemma ipv6_transport_safe: "ipv6_transport bs proto n = None \<Longrightarrow> length bs < 54 + n"
  by (rule ccontr) (auto simp: ipv6_transport_def user_header_lens Let_def mem_safe split: if_splits)

lemma parse_ipv4_frame_eq:
  "parse_ipv4_frame bs ts =
     (let ihl = unat (bs ! 14 AND 0x0F) * 4; m = unat (from_be_bytes (take 2 (drop 16 bs)) :: u16)
      in if length bs < 34 \<or> drop_bit 4 (bs ! 14) \<noteq> 4 \<or> ihl < 20 \<or> length bs < 14 + m \<or> m < ihl + 4 then Some None
         else case ipv4_transport bs (bs ! 23) ihl m of
                None \<Rightarrow> None
              | Some None \<Rightarrow> Some None
              | Some (Some info) \<Rightarrow>
                  Some (Some (packet_of V4 (bs ! 23) (take 4 (drop 26 bs) @ replicate 12 0) (take 4 (drop 30 bs) @ replicate 12 0)
                    (take 2 (drop (14 + ihl) bs)) (take 2 (drop (16 + ihl) bs)) m ts info, 14 + ihl + fst (snd (snd info)))))"
  by (auto simp: parse_ipv4_frame_def user_header_lens Let_def mem_safe split: option.splits)

lemma parse_ipv6_frame_eq:
  "parse_ipv6_frame bs ts =
     (let n = unat (from_be_bytes (take 2 (drop 18 bs)) :: u16)
      in if length bs < 54 \<or> drop_bit 4 (bs ! 14) \<noteq> 6 \<or> length bs < 54 + n \<or> n < 4 then Some None
         else case ipv6_transport bs (bs ! 20) n of
                None \<Rightarrow> None
              | Some None \<Rightarrow> Some None
              | Some (Some info) \<Rightarrow>
                  Some (Some (packet_of V6 (bs ! 20) (take 16 (drop 22 bs)) (take 16 (drop 38 bs))
                    (take 2 (drop 54 bs)) (take 2 (drop 56 bs)) (n + 40) ts info, 54 + fst (snd (snd info)))))"
  by (auto simp: parse_ipv6_frame_def user_header_lens Let_def mem_safe split: option.splits)

lemma parse_packet_at_safe: "parse_packet_at bs ts \<noteq> None"
proof -
  have "parse_ipv4_frame bs ts \<noteq> None" by (auto simp: parse_ipv4_frame_eq Let_def dest!: ipv4_transport_safe split: option.splits)
  moreover have "parse_ipv6_frame bs ts \<noteq> None" by (auto simp: parse_ipv6_frame_eq Let_def dest!: ipv6_transport_safe split: option.splits)
  ultimately show ?thesis by (auto simp: parse_packet_at_def user_header_lens Let_def mem_safe)
qed

section \<open>Both parsers see the same packet\<close>

lemma nibble_bounds: "unat (drop_bit 4 (b :: u8)) \<le> 15" "unat (b AND 0x0F) \<le> 15"
proof -
  have "unat (drop_bit 4 b) = drop_bit 4 (unat b)" 
    using unsigned_less [where 'a = nat and w = b] by (simp add: unsigned_drop_bit_eq take_bit_nat_eq_self)
  then have "unat (drop_bit 4 b) = unat b div 16" by (simp only: drop_bit_eq_div) simp
  then show "unat (drop_bit 4 b) \<le> 15" using unsigned_less [where 'a = nat and w = b] by simp
  have "b AND 0x0F = take_bit 4 b" by (simp add: take_bit_eq_mask mask_eq_exp_minus_1)
  then have "unat (b AND 0x0F) = take_bit 4 (unat b)" by (simp only: unsigned_take_bit_eq)
  then have "unat (b AND 0x0F) = unat b mod 16" by (simp only: take_bit_eq_mod) simp
  then show "unat (b AND 0x0F) \<le> 15" by simp
qed

context ip_platform
begin

lemma ipv4_transport_agrees:
  assumes "ipv4_transport bs proto ihl n = Some (Some (fl, w, hl, trl))" "14 + n \<le> length bs" "ihl \<le> n"
  shows "parse_l4 P bs proto (14 + ihl) (14 + ihl) (n - ihl)
           = Some (Some (from_be_bytes (take 2 (drop (14 + ihl) bs)), from_be_bytes (take 2 (drop (16 + ihl) bs)), fl, hl, trl))
         \<and> hl \<le> trl \<and> trl \<le> n - ihl"
  using assms nibble_bounds(1) [of "bs ! (26 + ihl)"]
  by (auto simp: ipv4_transport_def parse_l4_def parse_tcp_def parse_udp_def tcp_number udp_number user_header_lens
      TCP_HDR_SIZE_def UDP_HDR_SIZE_def Let_def mem_safe add_ac split: if_splits)

lemma ipv6_transport_agrees:
  assumes "ipv6_transport bs proto n = Some (Some (fl, w, hl, trl))" "54 + n \<le> length bs"
  shows "parse_l4 P bs proto 54 54 n
           = Some (Some (from_be_bytes (take 2 (drop 54 bs)), from_be_bytes (take 2 (drop 56 bs)), fl, hl, trl))
         \<and> hl \<le> trl \<and> trl \<le> n"
  using assms nibble_bounds(1) [of "bs ! 66"]
  by (auto simp: ipv6_transport_def parse_l4_def parse_tcp_def parse_udp_def tcp_number udp_number user_header_lens
      TCP_HDR_SIZE_def UDP_HDR_SIZE_def Let_def mem_safe split: if_splits)

end

text \<open>The packet of the one parser is that of the other.\<close>

definition same_packet :: "user_packet \<Rightarrow> parsed_packet \<Rightarrow> bool" where
  "same_packet up p \<longleftrightarrow>
     as_u8 (up_ip_version up) = ip_version p \<and> up_protocol up = protocol p \<and> up_tcp_flags up = tcp_flags p
     \<and> up_src_port up = src_port p \<and> up_dst_port up = dst_port p
     \<and> up_packet_length up = packet_length p \<and> up_payload_length up = payload_length p
     \<and> (case up_ip_version up of
          V4 \<Rightarrow> up_src_ip up = take 4 (src_ip p) @ replicate 12 0 \<and> up_dst_ip up = take 4 (dst_ip p) @ replicate 12 0
        | V6 \<Rightarrow> up_src_ip up = src_ip p \<and> up_dst_ip up = dst_ip p)"

lemma first_two: "i + 2 \<le> length bs \<Longrightarrow> take 2 (drop i bs) = [bs ! i, bs ! (i + 1)]"
  by (simp add: take_Suc_conv_app_nth numeral_2_eq_2)

lemma payload_in_frame:
  assumes "hl \<le> trl" "trl \<le> m" "m < 65536" "base + m \<le> len"
  shows "base + hl + unat (saturating_sub (word_of_nat trl) (word_of_nat hl) :: u32) \<le> len"
  using assms by (simp add: unat_saturating_sub unat_of_nat)

context ip_platform
begin

lemma parse_ipv4_agrees:
  assumes "parse_ipv4_frame bs ts = Some (Some (up, start))" "wf_packet t"
  shows "\<exists>p. parse_ipv4_packet P bs t = Some (True, p) \<and> same_packet up p \<and> start + unat (up_payload_length up) \<le> length bs"
proof -
  define ihl where "ihl = unat (bs ! 14 AND 0x0F) * 4"
  define n where "n = unat (from_be_bytes (take 2 (drop 16 bs)) :: u16)"
  obtain info where g: "34 \<le> length bs" "drop_bit 4 (bs ! 14) = 4" "20 \<le> ihl" "14 + n \<le> length bs" "ihl + 4 \<le> n"
    and info: "ipv4_transport bs (bs ! 23) ihl n = Some (Some info)"
    and up: "up = packet_of V4 (bs ! 23) (take 4 (drop 26 bs) @ replicate 12 0) (take 4 (drop 30 bs) @ replicate 12 0)
               (take 2 (drop (14 + ihl) bs)) (take 2 (drop (16 + ihl) bs)) n ts info" "start = 14 + ihl + fst (snd (snd info))"
    using assms(1) by (auto simp: parse_ipv4_frame_eq Let_def ihl_def n_def split: if_splits option.splits)
  obtain fl w hl trl where i: "info = (fl, w, hl, trl)" by (cases info) auto
  have two: "take 2 (drop 16 bs) = [bs ! 16, bs ! 17]" using first_two [of 16 bs] g(1) by simp
  have l4: "parse_l4 P bs (bs ! 23) (14 + ihl) (14 + ihl) (n - ihl)
      = Some (Some (from_be_bytes (take 2 (drop (14 + ihl) bs)), from_be_bytes (take 2 (drop (16 + ihl) bs)), fl, hl, trl))"
    and le: "hl \<le> trl" "trl \<le> n - ihl"
    using ipv4_transport_agrees [OF info [unfolded i] g(4)] g(5) by auto
  have "parse_ipv4_header_len bs = Some (Some ihl)"
    using g nibble_bounds(2) [of "bs ! 14"] by (auto simp: parse_ipv4_header_len_def offset_defs Let_def mem_safe ihl_def)
  then have ok: "parse_ipv4_packet P bs t = finish_l4 (ipv4_written bs t) (parse_l4 P bs (bs ! 23) (14 + ihl) (14 + ihl) (n - ihl))"
    using g by (simp add: parse_ipv4_packet_eq n_def two Let_def)
  have "same_packet up (write_l4 (ipv4_written bs t)
      (from_be_bytes (take 2 (drop (14 + ihl) bs)), from_be_bytes (take 2 (drop (16 + ihl) bs)), fl, hl, trl))"
    using assms(2) g(1) by (simp add: same_packet_def up i packet_of_def write_l4_def ipv4_written_def as_u8_def wf_packet_def n_def two)
  moreover have "start + unat (up_payload_length up) \<le> length bs"
    using payload_in_frame [OF le, of "14 + ihl" "length bs"] g unat_u16_bound [of "from_be_bytes (take 2 (drop 16 bs))"]
    by (simp add: up i packet_of_def n_def)
  ultimately show ?thesis unfolding ok l4 by (auto simp: finish_l4_def)
qed

lemma parse_ipv6_agrees:
  assumes "parse_ipv6_frame bs ts = Some (Some (up, start))" "wf_packet t"
  shows "\<exists>p. parse_ipv6_packet P bs t = Some (True, p) \<and> same_packet up p \<and> start + unat (up_payload_length up) \<le> length bs"
proof -
  define n where "n = unat (from_be_bytes (take 2 (drop 18 bs)) :: u16)"
  obtain info where g: "54 \<le> length bs" "54 + n \<le> length bs"
    and info: "ipv6_transport bs (bs ! 20) n = Some (Some info)"
    and up: "up = packet_of V6 (bs ! 20) (take 16 (drop 22 bs)) (take 16 (drop 38 bs))
               (take 2 (drop 54 bs)) (take 2 (drop 56 bs)) (n + 40) ts info" "start = 54 + fst (snd (snd info))"
    using assms(1) by (auto simp: parse_ipv6_frame_eq Let_def n_def split: if_splits option.splits)
  obtain fl w hl trl where i: "info = (fl, w, hl, trl)" by (cases info) auto
  have two: "take 2 (drop 18 bs) = [bs ! 18, bs ! 19]" using first_two [of 18 bs] g(1) by simp
  have l4: "parse_l4 P bs (bs ! 20) 54 54 n
      = Some (Some (from_be_bytes (take 2 (drop 54 bs)), from_be_bytes (take 2 (drop 56 bs)), fl, hl, trl))"
    and le: "hl \<le> trl" "trl \<le> n"
    using ipv6_transport_agrees [OF info [unfolded i] g(2)] by auto
  have ok: "parse_ipv6_packet P bs t = finish_l4 (ipv6_written bs t) (parse_l4 P bs (bs ! 20) 54 54 n)"
    using g by (simp add: parse_ipv6_packet_eq n_def two)
  have "same_packet up (write_l4 (ipv6_written bs t)
      (from_be_bytes (take 2 (drop 54 bs)), from_be_bytes (take 2 (drop 56 bs)), fl, hl, trl))"
    using assms(2) g(1) by (simp add: same_packet_def up i packet_of_def write_l4_def ipv6_written_def as_u8_def wf_packet_def write_slice_def n_def two add.commute)
  moreover have "start + unat (up_payload_length up) \<le> length bs"
    using payload_in_frame [OF le, of 54 "length bs"] g unat_u16_bound [of "from_be_bytes (take 2 (drop 18 bs))"]
    by (simp add: up i packet_of_def n_def)
  ultimately show ?thesis unfolding ok l4 by (auto simp: finish_l4_def)
qed

lemma parse_packet_at_agrees:
  assumes "parse_packet_at bs ts = Some (Some (up, start))" "wf_packet t"
  shows "\<exists>p. parse_packet P bs t = Some (True, p) \<and> same_packet up p \<and> start + unat (up_payload_length up) \<le> length bs"
proof -
  have "ether_type_of P 0x0800 = Some EtIpv4" "ether_type_of P 0x86DD = Some EtIpv6" using ether_ipv4 ether_ipv6 by blast+
  then show ?thesis
    using assms(1) parse_ipv4_agrees [OF _ assms(2)] parse_ipv6_agrees [OF _ assms(2)]
    by (auto simp: parse_packet_at_def parse_packet_eq user_header_lens Let_def mem_safe split: if_splits)
qed

end

text \<open>
  Detection sees what the filters saw: the user-space parser returns for every frame, no index leaves it, and
  every frame it accepts the kernel's parser accepts with the same addresses, ports, protocol, flags and lengths; the
  payload it points at lies inside the frame.
\<close>

theorem user_parser_agrees_with_kernel:
  assumes "ip_platform P" "wf_packet t"
  shows "parse_packet_at bs ts \<noteq> None
         \<and> (\<forall>up start. parse_packet_at bs ts = Some (Some (up, start)) \<longrightarrow>
              (\<exists>p. parse_packet P bs t = Some (True, p) \<and> same_packet up p) \<and> start + unat (up_payload_length up) \<le> length bs)"
  using parse_packet_at_safe ip_platform.parse_packet_at_agrees [OF assms(1) _ assms(2)] by blast

text \<open>A DNS query without payload, from 10.0.0.1 to 10.0.0.2.\<close>

definition sample_frame :: bytes where
  "sample_frame =
     [0, 0, 0, 0, 0, 1, 0, 0, 0, 0, 0, 2, 0x08, 0x00,
      0x45, 0, 0, 28, 0, 0, 0, 0, 64, 17, 0, 0, 10, 0, 0, 1, 10, 0, 0, 2,
      0x9C, 0x40, 0, 53, 0, 8, 0, 0]"

lemma sample_frame_parsed: "\<exists>up. parse_packet_at sample_frame 7 = Some (Some (up, 42)) \<and> up_dst_port up = 53"
proof -
  have "sample_frame ! 14 AND 0x0F = 5" "drop_bit 4 (sample_frame ! 14) = 4"
    by (simp_all add: sample_frame_def)
  then show ?thesis
    by (simp add: parse_packet_at_def parse_ipv4_frame_def ipv4_transport_def user_header_lens rd_def rd_slice_def sample_frame_def
        from_be_bytes_def packet_of_def)
qed

theorem user_parser_agrees_with_kernel_witness:
  "\<exists>up p. parse_packet_at sample_frame 7 = Some (Some (up, 42)) \<and> up_dst_port up = 53
     \<and> parse_packet (std_platform LittleEndian) sample_frame zeroed_packet = Some (True, p) \<and> same_packet up p"
proof -
  have "ip_platform (std_platform LittleEndian)" by (rule std.ip_platform_axioms)
  moreover have "wf_packet zeroed_packet" by (simp add: wf_packet_def zeroed_packet_def)
  moreover obtain up where "parse_packet_at sample_frame 7 = Some (Some (up, 42))" "up_dst_port up = 53"
    using sample_frame_parsed by blast
  ultimately show ?thesis using user_parser_agrees_with_kernel [of "std_platform LittleEndian" zeroed_packet sample_frame 7] by blast
qed

end
