(* ===== verification/Identity_Domain.thy ===== *)
theory Identity_Domain
  imports Prelude Rust_Text
begin

text \<open>
  The vocabulary of accounts (\<^verbatim>\<open>domain/identity/auth.rs\<close>, \<^verbatim>\<open>user.rs\<close>, \<^verbatim>\<open>validation.rs\<close>, \<^verbatim>\<open>error.rs\<close> and
  \<^verbatim>\<open>common/error/database.rs\<close>): the built-in roles and groups, the permissions of the levels of an API
  key, the claims of an authenticated caller, and the rules for names and passwords. A string is the list
  of its UTF-8 bytes, so \<^verbatim>\<open>len()\<close> is the length of the list.
\<close>

section \<open>Roles, groups and permissions\<close>

definition ROLE_ADMIN :: string where "ROLE_ADMIN = ''admin''"
definition ROLE_VIEWER :: string where "ROLE_VIEWER = ''viewer''"
definition GROUP_ADMIN :: string where "GROUP_ADMIN = ''Administrator''"
definition GROUP_VIEWER :: string where "GROUP_VIEWER = ''Viewer''"
definition DEFAULT_ADMIN_USERNAME :: string where "DEFAULT_ADMIN_USERNAME = ''admin''"
definition LOGIN_MAX_FAILURES :: u32 where "LOGIN_MAX_FAILURES = 5"
definition LOGIN_LOCKOUT_SECS :: u64 where "LOGIN_LOCKOUT_SECS = 900"

lemmas role_consts = ROLE_ADMIN_def ROLE_VIEWER_def GROUP_ADMIN_def GROUP_VIEWER_def

datatype permission_level = ReadOnly | ReadWrite | FullAccess

definition level_as_str :: "permission_level \<Rightarrow> string" where
  "level_as_str l = (case l of ReadOnly \<Rightarrow> ''read_only'' | ReadWrite \<Rightarrow> ''read_write'' | FullAccess \<Rightarrow> ''full_access'')"

definition level_from_str :: "string \<Rightarrow> permission_level option" where
  "level_from_str s =
     (if s = ''read_only'' then Some ReadOnly
      else if s = ''read_write'' then Some ReadWrite
      else if s = ''full_access'' then Some FullAccess
      else None)"

definition ADMIN_PERMISSIONS :: "string list" where
  "ADMIN_PERMISSIONS =
     [''dashboard:read'', ''statistics:read'', ''traffic_map:read'', ''drops:read'', ''ai_detection:read'',
      ''ai_detection:write'', ''access_control:read'', ''access_control:write'', ''geo_block:read'',
      ''geo_block:write'', ''dns_filter:read'', ''dns_filter:write'', ''rate_limit:read'', ''rate_limit:write'',
      ''protocol_filter:read'', ''protocol_filter:write'', ''system:read'', ''system:write'', ''system:admin'',
      ''api_keys:admin'', ''users:read'', ''users:write'', ''users:admin'', ''fusion:read'', ''fusion:write'',
      ''flow_trace:read'', ''flow_trace:write'']"

definition VIEWER_PERMISSIONS :: "string list" where
  "VIEWER_PERMISSIONS =
     [''dashboard:read'', ''statistics:read'', ''traffic_map:read'', ''drops:read'', ''ai_detection:read'',
      ''access_control:read'', ''geo_block:read'', ''dns_filter:read'', ''rate_limit:read'',
      ''protocol_filter:read'', ''system:read'', ''fusion:read'', ''flow_trace:read'']"

definition API_KEY_READ_WRITE_PERMISSIONS :: "string list" where
  "API_KEY_READ_WRITE_PERMISSIONS =
     [''dashboard:read'', ''statistics:read'', ''ai_detection:read'', ''ai_detection:write'',
      ''access_control:read'', ''access_control:write'', ''geo_block:read'', ''geo_block:write'',
      ''dns_filter:read'', ''dns_filter:write'', ''rate_limit:read'', ''rate_limit:write'', ''system:read'',
      ''system:write'']"

definition API_KEY_READ_ONLY_PERMISSIONS :: "string list" where
  "API_KEY_READ_ONLY_PERMISSIONS =
     [''dashboard:read'', ''statistics:read'', ''ai_detection:read'', ''access_control:read'', ''geo_block:read'',
      ''dns_filter:read'', ''rate_limit:read'', ''system:read'']"

definition API_KEY_FULL_ACCESS_PERMISSIONS :: "string list" where
  "API_KEY_FULL_ACCESS_PERMISSIONS = ADMIN_PERMISSIONS"

definition level_permissions :: "permission_level \<Rightarrow> string list" where
  "level_permissions l =
     (case l of
        ReadOnly \<Rightarrow> API_KEY_READ_ONLY_PERMISSIONS
      | ReadWrite \<Rightarrow> API_KEY_READ_WRITE_PERMISSIONS
      | FullAccess \<Rightarrow> API_KEY_FULL_ACCESS_PERMISSIONS)"

lemmas permission_lists =
  ADMIN_PERMISSIONS_def VIEWER_PERMISSIONS_def API_KEY_READ_WRITE_PERMISSIONS_def
  API_KEY_READ_ONLY_PERMISSIONS_def API_KEY_FULL_ACCESS_PERMISSIONS_def

record claims =
  cl_sub :: int
  cl_username :: string
  cl_role :: string
  cl_permissions :: "string list"

section \<open>What the callers of the store see\<close>

record user_view =
  uv_id :: int
  uv_username :: string
  uv_password_hash :: string
  uv_force_password_change :: bool

record user_group_membership =
  gm_group_id :: int
  gm_group_name :: string

record user_with_groups_view =
  ug_id :: int
  ug_username :: string
  ug_force_password_change :: bool
  ug_created_at :: string
  ug_groups :: "user_group_membership list"

record user_group_view =
  gv_id :: int
  gv_name :: string
  gv_description :: string
  gv_permissions :: string
  gv_created_at :: string

record group_member_view =
  mv_id :: int
  mv_username :: string

record api_key_view =
  kv_id :: int
  kv_name :: string
  kv_permission_level :: string
  kv_created_at :: string
  kv_last_used_at :: "string option"

section \<open>Errors\<close>

datatype database_error =
    QueryFailed
  | UserAlreadyExists string
  | UserNotFound int
  | GroupAlreadyExists string
  | EncryptionKeyInvalid
  | DatabaseNotReadable
  | SourceDatabaseNotReadable
  | AuditPrevHashMismatch int string string
  | AuditRowHashMismatch int string string
  | AuditCheckpointMissing int
  | PersistedJsonInvalid int string
  | PersistedValueInvalid string string string

text \<open>What a service wraps into its own errors: an error of the store, of a JSON text, or a message.\<close>

datatype cause = FromStore database_error | DeserializeFailed | SerializeFailed | Message string

datatype login_error = Locked u64 | InvalidCredentials | LoginInternal

datatype register_error =
    RegisterValidation string | InvalidRole | RegisterForbidden | RegisterHashFailed | RegisterConflict cause
  | RegisterInternal cause

datatype user_error =
    UserValidation string | Unauthorized | UserForbidden string | UserMissing string | UserHashFailed
  | UserConflict cause | UserInternal cause

datatype group_error =
    GroupValidation string | GroupForbidden string | GroupMissing string | GroupConflict cause | GroupInternal cause

section \<open>Names and passwords\<close>

definition validate_username :: "string \<Rightarrow> (string, unit) result" where
  "validate_username username =
     (if username = [] \<or> length username > 32 then Inl ''Username must be 1-32 characters''
      else if \<not> list_all (\<lambda>c. is_ascii_alphanumeric c \<or> c = CHR ''_'') username
        then Inl ''Username must contain only alphanumeric characters and underscores''
      else Inr ())"

text \<open>
  \<^verbatim>\<open>chars().count()\<close> counts the bytes that start a character. A control character is one of ASCII or
  one from U+0080 to U+009F, which is the byte 0xC2 before one of the bytes from 0x80 to 0x9F.
\<close>

definition char_count :: "string \<Rightarrow> nat" where
  "char_count s = length (filter (\<lambda>c. \<not> (128 \<le> (of_char c :: nat) \<and> (of_char c :: nat) < 192)) s)"

fun has_control :: "string \<Rightarrow> bool" where
  "has_control [] = False"
| "has_control (c # s) \<longleftrightarrow>
     (of_char c :: nat) < 32 \<or> (of_char c :: nat) = 127
     \<or> (of_char c :: nat) = 194 \<and> (case s of d # _ \<Rightarrow> 128 \<le> (of_char d :: nat) \<and> (of_char d :: nat) < 160 | [] \<Rightarrow> False)
     \<or> has_control s"

definition validate_api_key_name :: "string \<Rightarrow> (string, unit) result" where
  "validate_api_key_name name =
     (let n = char_count name
      in if n = 0 \<or> n > 64 then Inl ''API key name must be 1-64 characters''
         else if has_control name then Inl ''API key name must not contain control characters''
         else Inr ())"

definition validate_password :: "string \<Rightarrow> (string, unit) result" where
  "validate_password password =
     (if length password < 8 then Inl ''Password must be at least 8 characters''
      else
        let has_letter = list_ex is_ascii_alphabetic password;
            has_digit = list_ex is_ascii_digit password;
            has_symbol = list_ex (\<lambda>c. \<not> is_ascii_alphanumeric c) password
        in if \<not> has_letter \<or> \<not> has_digit \<or> \<not> has_symbol
             then Inl ''Password must contain at least one letter, one digit, and one symbol''
           else Inr ())"

section \<open>Lemmas\<close>

lemma level_from_as_str [simp]: "level_from_str (level_as_str l) = Some l"
  by (cases l) (simp_all add: level_as_str_def level_from_str_def)

lemma level_from_str_Some: "level_from_str s = Some l \<Longrightarrow> s = level_as_str l"
  by (auto simp: level_from_str_def level_as_str_def split: if_splits)

lemma api_key_levels_nest:
  "set (level_permissions ReadOnly) \<subseteq> set (level_permissions ReadWrite)"
  "set (level_permissions ReadWrite) \<subseteq> set (level_permissions FullAccess)"
  unfolding level_permissions_def permission_lists by simp_all

lemma no_administration_below_full_access:
  "l \<noteq> FullAccess \<Longrightarrow>
   ''users:admin'' \<notin> set (level_permissions l) \<and> ''api_keys:admin'' \<notin> set (level_permissions l)
   \<and> ''system:admin'' \<notin> set (level_permissions l)"
  by (cases l) (simp_all add: level_permissions_def permission_lists)

lemma viewer_only_reads: "p \<in> set VIEWER_PERMISSIONS \<Longrightarrow> ends_with p '':read''"
  by (auto simp: VIEWER_PERMISSIONS_def ends_with_def starts_with_def)

text \<open>A valid user name has none of the characters that separate the parts of a lockout key.\<close>

lemma valid_username_plain:
  assumes "validate_username u = Inr ()" "c \<in> set u"
  shows "is_ascii_alphanumeric c \<or> c = CHR ''_''"
  using assms by (auto simp: validate_username_def list_all_iff split: if_splits)

lemma valid_username_no_colon: "validate_username u = Inr () \<Longrightarrow> CHR '':'' \<notin> set u"
  using valid_username_plain [of u "CHR '':''"] by (auto simp: is_ascii_alphanumeric_def)

end
