(* ===== verification/Playbook_Conditions.thy ===== *)
theory Playbook_Conditions
  imports Attack_Types Rust_Parse
begin

unbundle bit_operations_syntax

text \<open>
  Playbooks and their conditions (\<^verbatim>\<open>domain/response/playbook.rs\<close>, \<^verbatim>\<open>domain/response/condition.rs\<close>) and
  what the validator accepts (\<^verbatim>\<open>domain/response/playbook_validator.rs\<close>). The explanation that goes with
  the evaluation of a condition is a value that says which of the texts it is.
\<close>

section \<open>Condition types\<close>

datatype condition_type =
    Threshold | SourceCountry | IpPattern | RepeatOffender | Frequency | MultiSourceMin | SingleSourceHigh
  | FusedConfidenceAbove

definition condition_type_display :: "condition_type \<Rightarrow> string" where
  "condition_type_display t =
     (case t of
        Threshold \<Rightarrow> ''threshold'' | SourceCountry \<Rightarrow> ''source_country'' | IpPattern \<Rightarrow> ''ip_pattern''
      | RepeatOffender \<Rightarrow> ''repeat_offender'' | Frequency \<Rightarrow> ''frequency'' | MultiSourceMin \<Rightarrow> ''multi_source_min''
      | SingleSourceHigh \<Rightarrow> ''single_source_high'' | FusedConfidenceAbove \<Rightarrow> ''fused_confidence_above'')"

definition condition_type_from_str :: "string \<Rightarrow> (soar_error, condition_type) result" where
  "condition_type_from_str s =
     (if s = ''threshold'' then Inr Threshold
      else if s = ''source_country'' then Inr SourceCountry
      else if s = ''ip_pattern'' then Inr IpPattern
      else if s = ''repeat_offender'' then Inr RepeatOffender
      else if s = ''frequency'' then Inr Frequency
      else if s = ''multi_source_min'' then Inr MultiSourceMin
      else if s = ''single_source_high'' then Inr SingleSourceHigh
      else if s = ''fused_confidence_above'' then Inr FusedConfidenceAbove
      else Inl (UnknownConditionType s))"

definition default_operator :: "condition_type \<Rightarrow> string" where
  "default_operator t =
     (case t of
        Threshold \<Rightarrow> ''>='' | Frequency \<Rightarrow> ''>='' | MultiSourceMin \<Rightarrow> ''>='' | SingleSourceHigh \<Rightarrow> ''>=''
      | FusedConfidenceAbove \<Rightarrow> ''>='' | SourceCountry \<Rightarrow> ''in'' | IpPattern \<Rightarrow> ''in'' | RepeatOffender \<Rightarrow> ''=='')"

definition is_valid_operator :: "condition_type \<Rightarrow> string \<Rightarrow> bool" where
  "is_valid_operator t operator =
     (case t of
        Threshold \<Rightarrow> operator \<in> {''>='', ''<=''}
      | SourceCountry \<Rightarrow> operator \<in> {''in'', ''not_in''}
      | IpPattern \<Rightarrow> operator \<in> {''in'', ''not_in''}
      | RepeatOffender \<Rightarrow> operator = ''==''
      | Frequency \<Rightarrow> operator = ''>=''
      | MultiSourceMin \<Rightarrow> operator = ''>=''
      | SingleSourceHigh \<Rightarrow> operator = ''>=''
      | FusedConfidenceAbove \<Rightarrow> operator \<in> {''>='', ''<=''})"

record playbook_condition =
  pc_condition_type :: condition_type
  pc_operator :: string
  pc_value :: string
  pc_value2 :: "string option"

datatype eval_details = InvalidOperator | InvalidValue string | EventField | NeedsHistory

record condition_evaluation =
  ce_met :: bool
  ce_details :: eval_details

section \<open>Address patterns\<close>

definition split_once :: "char \<Rightarrow> string \<Rightarrow> (string \<times> string) option" where
  "split_once c s =
     (case dropWhile (\<lambda>x. x \<noteq> c) s of [] \<Rightarrow> None | _ # post \<Rightarrow> Some (takeWhile (\<lambda>x. x \<noteq> c) s, post))"

definition parse_ip_pattern :: "string \<Rightarrow> (ip_addr \<times> u8) option" where
  "parse_ip_pattern pattern =
     (let trimmed = trim pattern
      in case split_once (CHR ''/'') trimmed of
           None \<Rightarrow> map_option (\<lambda>ip. (ip, case ip of IpV4 _ \<Rightarrow> 32 | IpV6 _ \<Rightarrow> 128)) (parse_ip_addr trimmed)
         | Some (ip_part, prefix_part) \<Rightarrow>
             (case parse_ip_addr ip_part of
                None \<Rightarrow> None
              | Some ip \<Rightarrow> map_option (\<lambda>prefix. (ip, word_of_nat prefix)) (parse_unsigned 8 prefix_part)))"

definition validate_prefix :: "u8 \<Rightarrow> u8 \<Rightarrow> u8 option" where
  "validate_prefix prefix mx = (if prefix \<le> mx then Some prefix else None)"

definition prefix_mask_u32 :: "u8 \<Rightarrow> u32" where
  "prefix_mask_u32 prefix = (if prefix = 0 then 0 else push_bit (unat (32 - prefix)) (- 1))"

definition prefix_mask_u128 :: "u8 \<Rightarrow> u128" where
  "prefix_mask_u128 prefix = (if prefix = 0 then 0 else push_bit (unat (128 - prefix)) (- 1))"

definition ip_matches_cidr_pattern :: "string \<Rightarrow> ip_addr \<Rightarrow> bool option" where
  "ip_matches_cidr_pattern pattern ip =
     (case parse_ip_pattern pattern of
        None \<Rightarrow> None
      | Some (network, prefix) \<Rightarrow>
          (case (network, ip) of
             (IpV4 network, IpV4 ip) \<Rightarrow>
               map_option (\<lambda>prefix. let mask = prefix_mask_u32 prefix in network AND mask = ip AND mask) (validate_prefix prefix 32)
           | (IpV6 network, IpV6 ip) \<Rightarrow>
               map_option (\<lambda>prefix. let mask = prefix_mask_u128 prefix in network AND mask = ip AND mask) (validate_prefix prefix 128)
           | _ \<Rightarrow> Some False))"

definition is_valid_ip_pattern :: "string \<Rightarrow> bool" where
  "is_valid_ip_pattern pattern =
     (case parse_ip_pattern pattern of
        None \<Rightarrow> False
      | Some (network, prefix) \<Rightarrow>
          (case network of IpV4 _ \<Rightarrow> validate_prefix prefix 32 \<noteq> None | IpV6 _ \<Rightarrow> validate_prefix prefix 128 \<noteq> None))"

section \<open>Evaluating a condition\<close>

definition eq_ignore_ascii_case :: "string \<Rightarrow> string \<Rightarrow> bool" where
  "eq_ignore_ascii_case a b \<longleftrightarrow> to_ascii_lowercase a = to_ascii_lowercase b"

definition evaluation :: "bool \<Rightarrow> eval_details \<Rightarrow> condition_evaluation" where
  "evaluation met details = \<lparr>ce_met = met, ce_details = details\<rparr>"

definition evaluate_event_fields :: "playbook_condition \<Rightarrow> threat_event \<Rightarrow> flt \<Rightarrow> condition_evaluation" where
  "evaluate_event_fields c event default_single_source_min_conf =
     (if \<not> is_valid_operator (pc_condition_type c) (pc_operator c) then evaluation False InvalidOperator
      else case pc_condition_type c of
        Threshold \<Rightarrow>
          (case parse_float f64 (pc_value c) of
             None \<Rightarrow> evaluation False (InvalidValue (pc_value c))
           | Some threshold \<Rightarrow>
               evaluation (if pc_operator c = ''<='' then fle (te_confidence event) threshold
                           else fge (te_confidence event) threshold) EventField)
      | SourceCountry \<Rightarrow>
          let matches = (case te_geoip_country event of
                None \<Rightarrow> False
              | Some country \<Rightarrow> list_ex (\<lambda>candidate. eq_ignore_ascii_case (trim candidate) country) (split_on (CHR '','') (pc_value c)))
          in evaluation (if pc_operator c = ''not_in'' then \<not> matches else matches) EventField
      | IpPattern \<Rightarrow>
          (case parse_ip_addr (te_source_ip event) of
             None \<Rightarrow> evaluation False (InvalidValue (te_source_ip event))
           | Some ip \<Rightarrow>
               (case ip_matches_cidr_pattern (pc_value c) ip of
                  None \<Rightarrow> evaluation False (InvalidValue (pc_value c))
                | Some matches \<Rightarrow> evaluation (if pc_operator c = ''not_in'' then \<not> matches else matches) EventField))
      | RepeatOffender \<Rightarrow>
          evaluation (te_is_repeat_offender event = eq_ignore_ascii_case (pc_value c) ''true'') EventField
      | Frequency \<Rightarrow> evaluation False NeedsHistory
      | MultiSourceMin \<Rightarrow>
          (case parse_unsigned 64 (pc_value c) of
             None \<Rightarrow> evaluation False (InvalidValue (pc_value c))
           | Some required \<Rightarrow> evaluation (te_active_source_count event \<ge> required) EventField)
      | SingleSourceHigh \<Rightarrow>
          (case detection_source_from_str (pc_value c) of
             None \<Rightarrow> evaluation False (InvalidValue (pc_value c))
           | Some target_source \<Rightarrow>
               let min_conf = (case Option.bind (pc_value2 c) (parse_float f32) of Some v \<Rightarrow> v | None \<Rightarrow> default_single_source_min_conf);
                   solo_match = (te_active_source_count event = 1 \<and> te_sources event = [target_source])
               in evaluation (solo_match \<and> fge (te_confidence event) min_conf) EventField)
      | FusedConfidenceAbove \<Rightarrow>
          (case parse_float f32 (pc_value c) of
             None \<Rightarrow> evaluation False (InvalidValue (pc_value c))
           | Some threshold \<Rightarrow>
               evaluation (if pc_operator c = ''<='' then fle (te_fused_confidence event) threshold
                           else fge (te_fused_confidence event) threshold) EventField))"

section \<open>Actions and playbooks\<close>

datatype action_type = BlockIp | AdjustRateLimit | SendTelegram | SendEmail | Webhook | LogAction

definition action_type_as_str :: "action_type \<Rightarrow> string" where
  "action_type_as_str t =
     (case t of BlockIp \<Rightarrow> ''block_ip'' | AdjustRateLimit \<Rightarrow> ''adjust_rate_limit'' | SendTelegram \<Rightarrow> ''send_telegram''
      | SendEmail \<Rightarrow> ''send_email'' | Webhook \<Rightarrow> ''webhook'' | LogAction \<Rightarrow> ''log'')"

definition action_type_from_str :: "string \<Rightarrow> (soar_error, action_type) result" where
  "action_type_from_str s =
     (if s = ''block_ip'' then Inr BlockIp
      else if s = ''adjust_rate_limit'' then Inr AdjustRateLimit
      else if s = ''send_telegram'' then Inr SendTelegram
      else if s = ''send_email'' then Inr SendEmail
      else if s = ''webhook'' then Inr Webhook
      else if s = ''log'' then Inr LogAction
      else Inl (UnknownActionType s))"

record action_params =
  ap_ttl_secs :: "u64 option"
  ap_factor :: "flt option"
  ap_url :: "string option"
  ap_timeout_secs :: "u64 option"
  ap_level :: "string option"

record playbook_action =
  pa_action_order :: int
  pa_action_type :: action_type
  pa_params :: action_params

record playbook =
  pb_id :: int
  pb_name :: string
  pb_enabled :: bool
  pb_trigger_event :: attack_type
  pb_cooldown_secs :: int
  pb_actions :: "playbook_action list"
  pb_conditions :: "playbook_condition list"

definition matches_trigger :: "playbook \<Rightarrow> threat_event \<Rightarrow> bool" where
  "matches_trigger pb event \<longleftrightarrow> pb_enabled pb \<and> canonical_from_str (te_attack_type event) = Some (pb_trigger_event pb)"

section \<open>What a pattern matches\<close>

lemma and_high_mask: "a AND NOT (mask n) = push_bit n (drop_bit n a)" for a :: "'w::len word"
  by (rule bit_word_eqI) (auto simp: bit_simps)

lemma push_drop_eq_iff: "push_bit n (drop_bit n a) = push_bit n (drop_bit n b) \<longleftrightarrow> drop_bit n a = drop_bit n b" for a b :: "'w::len word"
proof
  assume h: "push_bit n (drop_bit n a) = push_bit n (drop_bit n b)"
  show "drop_bit n a = drop_bit n b"
  proof (rule bit_word_eqI)
    fix i assume "i < LENGTH('w)"
    show "bit (drop_bit n a) i = bit (drop_bit n b) i"
    proof (cases "n + i < LENGTH('w)")
      case True
      have "bit (push_bit n (drop_bit n a)) (n + i) = bit (push_bit n (drop_bit n b)) (n + i)" using h by simp
      with True show ?thesis by (simp add: bit_simps)
    next
      case False
      then show ?thesis by (simp add: bit_simps bit_imp_le_length linorder_not_less) (meson bit_imp_le_length linorder_not_less)
    qed
  qed
qed simp

lemma prefix_mask_u32_eq:
  assumes "prefix \<le> 32"
  shows "a AND prefix_mask_u32 prefix = b AND prefix_mask_u32 prefix \<longleftrightarrow> drop_bit (32 - unat prefix) a = drop_bit (32 - unat prefix) b"
proof (cases "prefix = 0")
  case True
  then show ?thesis by (simp add: prefix_mask_u32_def)
next
  case False
  have "unat (32 - prefix) = 32 - unat prefix" using assms by (simp add: unat_sub)
  with False show ?thesis by (simp add: prefix_mask_u32_def and_high_mask push_drop_eq_iff)
qed

lemma prefix_mask_u128_eq:
  assumes "prefix \<le> 128"
  shows "a AND prefix_mask_u128 prefix = b AND prefix_mask_u128 prefix \<longleftrightarrow> drop_bit (128 - unat prefix) a = drop_bit (128 - unat prefix) b"
proof (cases "prefix = 0")
  case True
  then show ?thesis by (simp add: prefix_mask_u128_def)
next
  case False
  have "unat (128 - prefix) = 128 - unat prefix" using assms by (simp add: unat_sub)
  with False show ?thesis by (simp add: prefix_mask_u128_def and_high_mask push_drop_eq_iff)
qed

text \<open>A network written as an address, a slash and a prefix length is read as such.\<close>

lemma split_once_append: "c \<notin> set p \<Longrightarrow> split_once c (p @ c # s) = Some (p, s)"
proof -
  assume "c \<notin> set p"
  then have "\<And>x. x \<in> set p \<Longrightarrow> x \<noteq> c" by auto
  then have "dropWhile (\<lambda>x. x \<noteq> c) (p @ c # s) = c # s" "takeWhile (\<lambda>x. x \<noteq> c) (p @ c # s) = p"
    by (simp_all add: dropWhile_append2 takeWhile_append2)
  then show ?thesis by (simp add: split_once_def)
qed

lemma parse_show_pattern:
  assumes "p < 256"
  shows "parse_ip_pattern (show_ipv4 w @ CHR ''/'' # show_nat p) = Some (IpV4 w, word_of_nat p)"
proof -
  have c: "(of_char (CHR ''/'') :: nat) = 47" "(of_char (CHR ''.'') :: nat) = 46" "\<not> is_ascii_whitespace (CHR ''/'')"
    "\<not> is_ascii_whitespace (CHR ''.'')" by code_simp+
  have d: "\<not> is_ascii_whitespace (decimal_digit k) \<and> decimal_digit k \<noteq> CHR ''/''" if "k < 10" for k
  proof -
    have "(of_char (decimal_digit k) :: nat) = 48 + k" using that by (rule of_char_decimal_digit)
    moreover have "(of_char (CHR '' '') :: nat) = 32" by code_simp
    ultimately show ?thesis using c(1) that by (auto simp: is_ascii_whitespace_def)
  qed
  have "CHR ''/'' \<notin> set (show_ipv4 w)" using show_ipv4_chars [of "CHR ''/''" w] d by fastforce
  moreover have "trim (show_ipv4 w @ CHR ''/'' # show_nat p) = show_ipv4 w @ CHR ''/'' # show_nat p"
  proof (intro trim_clean ballI)
    fix x assume "x \<in> set (show_ipv4 w @ CHR ''/'' # show_nat p)"
    then consider "x = CHR ''.''" | "x = CHR ''/''" | k where "k < 10" "x = decimal_digit k"
      using show_ipv4_chars [of x w] show_nat_chars [of x p] by auto
    then show "\<not> is_ascii_whitespace x" using c d by cases auto
  qed
  ultimately show ?thesis
    using assms by (simp add: parse_ip_pattern_def split_once_append)
qed

section \<open>Properties\<close>

text \<open>
  C34. A pattern condition tests membership in the network: for a pattern \<open>a/p\<close> that parses, with a
  prefix in range, the masks match an address of the same family exactly where the address agrees
  with the network on its leading \<open>p\<close> bits (all addresses for \<open>/0\<close>, one for \<open>/32\<close> and \<open>/128\<close>), and
  never match one of the other family.
\<close>

theorem cidr_pattern_is_membership:
  assumes "parse_ip_pattern pattern = Some (network, prefix)" "is_valid_ip_pattern pattern"
  shows "ip_matches_cidr_pattern pattern ip =
    Some (case (network, ip) of
            (IpV4 n, IpV4 a) \<Rightarrow> drop_bit (32 - unat prefix) n = drop_bit (32 - unat prefix) a
          | (IpV6 n, IpV6 a) \<Rightarrow> drop_bit (128 - unat prefix) n = drop_bit (128 - unat prefix) a
          | _ \<Rightarrow> False)"
  using assms
  by (auto simp: ip_matches_cidr_pattern_def is_valid_ip_pattern_def validate_prefix_def prefix_mask_u32_eq prefix_mask_u128_eq Let_def
      split: ip_addr.splits if_splits)

definition sample_pattern :: string where
  "sample_pattern = show_ipv4 3221225984 @ CHR ''/'' # show_nat 24"

theorem cidr_pattern_is_membership_witness:
  "ip_matches_cidr_pattern sample_pattern (IpV4 3221225985) = Some True
   \<and> ip_matches_cidr_pattern sample_pattern (IpV4 3221226241) = Some False"
proof -
  have p: "parse_ip_pattern sample_pattern = Some (IpV4 3221225984, 24)"
    using parse_show_pattern [of 24 3221225984] by (simp add: sample_pattern_def)
  then have v: "is_valid_ip_pattern sample_pattern" by (simp add: is_valid_ip_pattern_def validate_prefix_def)
  have "drop_bit 8 (3221225984 :: u32) = drop_bit 8 3221225985" "drop_bit 8 (3221225984 :: u32) \<noteq> drop_bit 8 3221226241"
    by (simp_all add: drop_bit_eq_div)
  with cidr_pattern_is_membership [OF p v, of "IpV4 3221225985"] cidr_pattern_is_membership [OF p v, of "IpV4 3221226241"]
  show ?thesis by simp
qed

end
