(* ===== verification/Playbook_Validator.thy ===== *)
theory Playbook_Validator
  imports Playbook_Conditions
begin

text \<open>
  What the playbook validator accepts (\<^verbatim>\<open>domain/response/playbook_validator.rs\<close>) and how the engine
  reads the stored parameters of an action back (\<^verbatim>\<open>core/response/engine/playbook.rs\<close>). A JSON value is
  the data model of \<^verbatim>\<open>serde_json\<close>: a number is a non-negative integer of 64 bits, a negative one, or a
  floating-point number; an object maps names to values.
\<close>

datatype json =
    JNull | JBool bool | JPosInt u64 | JNegInt int | JFloat flt | JString string | JArray "json list"
  | JObject "(string \<times> json) list"

definition json_get :: "string \<Rightarrow> json \<Rightarrow> json option" where
  "json_get key j = (case j of JObject kvs \<Rightarrow> map_of kvs key | _ \<Rightarrow> None)"

definition as_u64 :: "json \<Rightarrow> u64 option" where
  "as_u64 j = (case j of JPosInt n \<Rightarrow> Some n | _ \<Rightarrow> None)"

definition as_f64 :: "json \<Rightarrow> flt option" where
  "as_f64 j = (case j of JPosInt n \<Rightarrow> Some (u64_as_f64 n) | JNegInt i \<Rightarrow> Some (to_flt f64 (of_int i)) | JFloat x \<Rightarrow> Some x | _ \<Rightarrow> None)"

definition as_json_str :: "json \<Rightarrow> string option" where
  "as_json_str j = (case j of JString s \<Rightarrow> Some s | _ \<Rightarrow> None)"

section \<open>Fields\<close>

definition RATE_LIMIT_FACTOR_MIN :: flt where "RATE_LIMIT_FACTOR_MIN = to_flt f64 (1 / 100)"
definition RATE_LIMIT_FACTOR_MAX :: flt where "RATE_LIMIT_FACTOR_MAX = Fin 1"

definition factor_in_range :: "flt \<Rightarrow> bool" where
  "factor_in_range x \<longleftrightarrow> fle RATE_LIMIT_FACTOR_MIN x \<and> fle x RATE_LIMIT_FACTOR_MAX"

definition validate_optional_positive_i64 :: "string \<Rightarrow> int option \<Rightarrow> (soar_error, unit) result" where
  "validate_optional_positive_i64 field v =
     (case v of
        Some n \<Rightarrow> if n \<le> 0 then Inl (ValidationFailed (field @ '' must be greater than 0'')) else Inr ()
      | None \<Rightarrow> Inr ())"

definition validate_cooldown_secs :: "int \<Rightarrow> (soar_error, unit) result" where
  "validate_cooldown_secs cooldown_secs =
     (if cooldown_secs < 0 then Inl (ValidationFailed ''cooldown_secs must be greater than or equal to 0'') else Inr ())"

definition parse_finite_f64 :: "string \<Rightarrow> string \<Rightarrow> (soar_error, flt) result" where
  "parse_finite_f64 v field =
     (case parse_float f64 v of
        Some parsed \<Rightarrow> if is_finite parsed then Inr parsed else Inl (ValidationFailed (field @ '' value must be a finite number''))
      | None \<Rightarrow> Inl (ValidationFailed (field @ '' value must be a finite number'')))"

definition parse_positive_usize :: "string \<Rightarrow> string \<Rightarrow> (soar_error, nat) result" where
  "parse_positive_usize v field =
     (case parse_unsigned 64 v of
        Some parsed \<Rightarrow> if parsed > 0 then Inr parsed else Inl (ValidationFailed (field @ '' value must be a positive integer''))
      | None \<Rightarrow> Inl (ValidationFailed (field @ '' value must be a positive integer'')))"

definition parse_positive_u64 :: "string \<Rightarrow> string \<Rightarrow> (soar_error, nat) result" where
  "parse_positive_u64 v field =
     (case parse_unsigned 64 v of
        Some parsed \<Rightarrow> if parsed > 0 then Inr parsed else Inl (ValidationFailed (field @ '' must be a positive integer''))
      | None \<Rightarrow> Inl (ValidationFailed (field @ '' must be a positive integer'')))"

definition quoted :: "string \<Rightarrow> string" where
  "quoted s = CHR 0x27 # s @ [CHR 0x27]"

definition parse_bool_literal :: "string \<Rightarrow> string \<Rightarrow> (soar_error, bool) result" where
  "parse_bool_literal v field =
     (let lower = to_ascii_lowercase v
      in if lower = ''true'' then Inr True
         else if lower = ''false'' then Inr False
         else Inl (ValidationFailed (field @ '' value must be '' @ quoted ''true'' @ '' or '' @ quoted ''false'')))"

definition validate_optional_positive_u64 :: "string \<Rightarrow> json option \<Rightarrow> (soar_error, unit) result" where
  "validate_optional_positive_u64 field v =
     (case v of
        None \<Rightarrow> Inr ()
      | Some j \<Rightarrow>
          (case as_u64 j of
             Some n \<Rightarrow> if n > 0 then Inr () else Inl (ValidationFailed (field @ '' must be greater than 0''))
           | None \<Rightarrow> Inl (ValidationFailed (field @ '' must be a positive integer''))))"

definition validate_optional_max_u64 :: "string \<Rightarrow> json option \<Rightarrow> u64 \<Rightarrow> (soar_error, unit) result" where
  "validate_optional_max_u64 field v mx =
     (case Option.bind v as_u64 of
        None \<Rightarrow> Inr ()
      | Some n \<Rightarrow>
          if n > mx then Inl (ValidationFailed (field @ '' must be less than or equal to '' @ show_nat (unat mx))) else Inr ())"

definition validate_optional_rate_limit_factor :: "json option \<Rightarrow> (soar_error, unit) result" where
  "validate_optional_rate_limit_factor v =
     (case v of
        None \<Rightarrow> Inr ()
      | Some j \<Rightarrow>
          (case as_f64 j of
             Some x \<Rightarrow> if factor_in_range x then Inr () else Inl (ValidationFailed ''factor must be between 0.01 and 1'')
           | None \<Rightarrow> Inl (ValidationFailed ''factor must be a number'')))"

definition validate_required_non_empty_string :: "string \<Rightarrow> json option \<Rightarrow> (soar_error, unit) result" where
  "validate_required_non_empty_string field v =
     (case Option.bind v as_json_str of
        Some s \<Rightarrow> if trim s \<noteq> [] then Inr () else Inl (ValidationFailed (field @ '' must not be empty''))
      | None \<Rightarrow> Inl (ValidationFailed (field @ '' is required'')))"

definition validate_optional_string :: "string \<Rightarrow> json option \<Rightarrow> (soar_error, unit) result" where
  "validate_optional_string field v =
     (case v of
        None \<Rightarrow> Inr ()
      | Some j \<Rightarrow> if as_json_str j \<noteq> None then Inr () else Inl (ValidationFailed (field @ '' must be a string'')))"

section \<open>Conditions\<close>

record create_condition_input =
  ci_condition_type :: string
  ci_operator :: string
  ci_value :: string
  ci_value2 :: "string option"

definition create_condition_input_new ::
    "string \<Rightarrow> string option \<Rightarrow> string \<Rightarrow> string option \<Rightarrow> (soar_error, create_condition_input) result" where
  "create_condition_input_new ctype operator v v2 =
     and_then (case operator of
                 Some op \<Rightarrow> Inr op
               | None \<Rightarrow> and_then (condition_type_from_str ctype) (\<lambda>t. Inr (default_operator t)))
       (\<lambda>op. Inr \<lparr>ci_condition_type = ctype, ci_operator = op, ci_value = v, ci_value2 = v2\<rparr>)"

definition validate_count_value :: "create_condition_input \<Rightarrow> (soar_error, unit) result" where
  "validate_count_value c =
     and_then (parse_positive_usize (ci_value c) (ci_condition_type c))
       (\<lambda>_. case ci_value2 c of
              Some value2 \<Rightarrow> and_then (parse_positive_u64 value2 ''value2'') (\<lambda>_. Inr ())
            | None \<Rightarrow> Inr ())"

definition validate_condition_value :: "condition_type \<Rightarrow> create_condition_input \<Rightarrow> (soar_error, unit) result" where
  "validate_condition_value t c =
     (case t of
        Threshold \<Rightarrow> and_then (parse_finite_f64 (ci_value c) (ci_condition_type c)) (\<lambda>_. Inr ())
      | FusedConfidenceAbove \<Rightarrow> and_then (parse_finite_f64 (ci_value c) (ci_condition_type c)) (\<lambda>_. Inr ())
      | Frequency \<Rightarrow> validate_count_value c
      | MultiSourceMin \<Rightarrow> validate_count_value c
      | SourceCountry \<Rightarrow>
          if list_all (\<lambda>part. trim part = []) (split_on (CHR '','') (ci_value c))
          then Inl (ValidationFailed ''source_country value must contain at least one country code'') else Inr ()
      | IpPattern \<Rightarrow>
          if \<not> is_valid_ip_pattern (ci_value c)
          then Inl (ValidationFailed (''ip_pattern value must be a valid CIDR: '' @ ci_value c)) else Inr ()
      | RepeatOffender \<Rightarrow> and_then (parse_bool_literal (ci_value c) (ci_condition_type c)) (\<lambda>_. Inr ())
      | SingleSourceHigh \<Rightarrow>
          (case detection_source_from_str (ci_value c) of
             None \<Rightarrow> Inl (ValidationFailed (''single_source_high value must be a valid DetectionSource: '' @ ci_value c))
           | Some _ \<Rightarrow>
               (case ci_value2 c of
                  Some value2 \<Rightarrow> and_then (parse_finite_f64 value2 ''value2'') (\<lambda>_. Inr ())
                | None \<Rightarrow> Inr ())))"

definition validate_condition_input :: "create_condition_input \<Rightarrow> (soar_error, unit) result" where
  "validate_condition_input c =
     (case condition_type_from_str (ci_condition_type c) of
        Inl _ \<Rightarrow> Inl (ValidationFailed (''unknown condition_type: '' @ ci_condition_type c))
      | Inr t \<Rightarrow>
          if \<not> is_valid_operator t (ci_operator c)
          then Inl (ValidationFailed (''invalid operator '' @ quoted (ci_operator c) @ '' for condition_type '' @ quoted (ci_condition_type c)))
          else validate_condition_value t c)"

section \<open>Actions\<close>

definition validate_action :: "string \<Rightarrow> json option \<Rightarrow> u64 \<Rightarrow> (soar_error, unit) result" where
  "validate_action atype params max_ttl_secs =
     (let field = (\<lambda>name. Option.bind params (json_get name))
      in if (case params of Some (JObject _) \<Rightarrow> False | None \<Rightarrow> False | _ \<Rightarrow> True)
         then Inl (ValidationFailed (''action '' @ quoted atype @ '' params must be a JSON object''))
         else case action_type_from_str atype of
           Inr BlockIp \<Rightarrow>
             and_then (validate_optional_positive_u64 ''ttl_secs'' (field ''ttl_secs''))
               (\<lambda>_. validate_optional_max_u64 ''ttl_secs'' (field ''ttl_secs'') max_ttl_secs)
         | Inr AdjustRateLimit \<Rightarrow>
             and_then (validate_optional_positive_u64 ''ttl_secs'' (field ''ttl_secs''))
               (\<lambda>_. and_then (validate_optional_max_u64 ''ttl_secs'' (field ''ttl_secs'') max_ttl_secs)
                 (\<lambda>_. validate_optional_rate_limit_factor (field ''factor'')))
         | Inr SendTelegram \<Rightarrow> Inr ()
         | Inr SendEmail \<Rightarrow> Inr ()
         | Inr Webhook \<Rightarrow>
             and_then (validate_required_non_empty_string ''url'' (field ''url''))
               (\<lambda>_. validate_optional_positive_u64 ''timeout_secs'' (field ''timeout_secs''))
         | Inr LogAction \<Rightarrow> validate_optional_string ''level'' (field ''level'')
         | Inl _ \<Rightarrow> Inl (ValidationFailed (''unknown action_type: '' @ atype)))"

text \<open>How the engine reads the stored parameters.\<close>

definition parse_action_params :: "json \<Rightarrow> action_params" where
  "parse_action_params params =
     \<lparr>ap_ttl_secs = Option.bind (json_get ''ttl_secs'' params) as_u64,
      ap_factor = Option.bind (json_get ''factor'' params) as_f64,
      ap_url = Option.bind (json_get ''url'' params) as_json_str,
      ap_timeout_secs = Option.bind (json_get ''timeout_secs'' params) as_u64,
      ap_level = Option.bind (json_get ''level'' params) as_json_str\<rparr>"

text \<open>The condition that the engine loads from an accepted input.\<close>

definition condition_of_input :: "condition_type \<Rightarrow> create_condition_input \<Rightarrow> playbook_condition" where
  "condition_of_input t c =
     \<lparr>pc_condition_type = t, pc_operator = ci_operator c, pc_value = ci_value c, pc_value2 = ci_value2 c\<rparr>"

section \<open>What acceptance guarantees\<close>

lemma parse_finite_f64_Inr: "parse_finite_f64 v field = Inr x \<Longrightarrow> parse_float f64 v = Some x \<and> is_finite x"
  by (auto simp: parse_finite_f64_def split: option.splits if_splits)

lemma parse_positive_usize_Inr: "parse_positive_usize v field = Inr n \<longleftrightarrow> parse_unsigned 64 v = Some n \<and> 0 < n"
  by (auto simp: parse_positive_usize_def split: option.splits if_splits)

lemma validate_optional_positive_u64_Inr:
  "validate_optional_positive_u64 field v = Inr u \<longleftrightarrow> (\<forall>j. v = Some j \<longrightarrow> (\<exists>n. as_u64 j = Some n \<and> 0 < n))"
  by (auto simp: validate_optional_positive_u64_def split: option.splits if_splits)

lemma validate_optional_max_u64_Inr:
  "validate_optional_max_u64 field v mx = Inr u \<longleftrightarrow> (\<forall>n. Option.bind v as_u64 = Some n \<longrightarrow> n \<le> mx)"
  by (auto simp: validate_optional_max_u64_def split: option.splits if_splits)

lemma validate_optional_rate_limit_factor_Inr:
  "validate_optional_rate_limit_factor v = Inr u \<longleftrightarrow> (\<forall>j. v = Some j \<longrightarrow> (\<exists>x. as_f64 j = Some x \<and> factor_in_range x))"
  by (auto simp: validate_optional_rate_limit_factor_def split: option.splits if_splits)

lemmas field_checks = validate_optional_positive_u64_Inr validate_optional_max_u64_Inr validate_optional_rate_limit_factor_Inr

text \<open>A checked field is read as a number in its range, or is absent.\<close>

lemma checked_ttl_read:
  assumes "validate_optional_positive_u64 field v = Inr u" "validate_optional_max_u64 field v mx = Inr w"
  shows "case Option.bind v as_u64 of None \<Rightarrow> v = None | Some n \<Rightarrow> 0 < n \<and> n \<le> mx"
  using assms by (cases v) (auto simp: field_checks)

lemma checked_factor_read:
  assumes "validate_optional_rate_limit_factor v = Inr u"
  shows "case Option.bind v as_f64 of None \<Rightarrow> v = None | Some x \<Rightarrow> factor_in_range x"
  using assms by (cases v) (auto simp: field_checks)

lemma ip_matches_valid: "is_valid_ip_pattern pattern \<Longrightarrow> ip_matches_cidr_pattern pattern ip \<noteq> None"
  by (auto simp: is_valid_ip_pattern_def ip_matches_cidr_pattern_def split: option.splits ip_addr.splits)

lemma action_type_roundtrip [simp]: "action_type_from_str (action_type_as_str t) = Inr t"
  by (cases t) (simp_all add: action_type_from_str_def action_type_as_str_def)

lemma condition_type_roundtrip [simp]: "condition_type_from_str (condition_type_display t) = Inr t"
  by (cases t) (simp_all add: condition_type_from_str_def condition_type_display_def)

section \<open>Properties\<close>

text \<open>
  C35. The validator of the API and the evaluator of the engine agree: a condition that the validator
  accepts is never dismissed at run time as having an invalid operator or an unreadable value (for an
  event whose source address is one), whatever the event and the default confidence; it is decided on
  the fields of the event, or, exactly for a frequency condition, left to the history.
\<close>

theorem accepted_condition_is_evaluable:
  assumes accepted: "validate_condition_input c = Inr ()"
    and t: "condition_type_from_str (ci_condition_type c) = Inr t"
    and source: "parse_ip_addr (te_source_ip event) \<noteq> None"
  shows "ce_details (evaluate_event_fields (condition_of_input t c) event d) = (if t = Frequency then NeedsHistory else EventField)"
proof -
  have op: "is_valid_operator t (ci_operator c)" and v: "validate_condition_value t c = Inr ()"
    using accepted t by (auto simp: validate_condition_input_def split: if_splits)
  note ev = evaluate_event_fields_def condition_of_input_def evaluation_def op
  show ?thesis
  proof (cases t)
    case FusedConfidenceAbove
    then obtain x where "parse_float f64 (ci_value c) = Some x"
      using v by (auto simp: validate_condition_value_def result_iffs dest: parse_finite_f64_Inr)
    then have "parse_float f32 (ci_value c) \<noteq> None" using parse_float_formats [of f32 "ci_value c" f64] by simp
    then show ?thesis using FusedConfidenceAbove op by (auto simp: ev)
  next
    case IpPattern
    then have "is_valid_ip_pattern (ci_value c)" using v by (simp add: validate_condition_value_def split: if_splits)
    then have m: "ip_matches_cidr_pattern (ci_value c) ip \<noteq> None" for ip by (rule ip_matches_valid)
    show ?thesis using IpPattern op source by (auto simp: ev m split: option.splits)
  qed (use v op in \<open>auto simp: ev validate_condition_value_def validate_count_value_def result_iffs parse_positive_usize_Inr Let_def
        dest: parse_finite_f64_Inr split: option.splits\<close>)
qed

definition sample_condition :: create_condition_input where
  "sample_condition =
     \<lparr>ci_condition_type = ''ip_pattern'', ci_operator = ''in'', ci_value = sample_pattern, ci_value2 = None\<rparr>"

definition sample_event :: threat_event where
  "sample_event =
     \<lparr>te_attack_type = ''port_scan'', te_confidence = Fin (9 / 10), te_source_ip = show_ipv4 3221225985, te_dest_ip = show_ipv4 167772161,
      te_flow_count = 1, te_packet_rate = Fin 0, te_protocol = 6, te_geoip_country = None, te_is_repeat_offender = False,
      te_sources = [Correlation], te_active_source_count = 1, te_fused_confidence = Fin (9 / 10), te_diagnostics = []\<rparr>"

theorem accepted_condition_is_evaluable_witness:
  "validate_condition_input sample_condition = Inr ()
   \<and> ce_details (evaluate_event_fields (condition_of_input IpPattern sample_condition) sample_event (Fin 1)) = EventField"
proof -
  have p: "parse_ip_pattern sample_pattern = Some (IpV4 3221225984, 24)"
    using parse_show_pattern [of 24 3221225984] by (simp add: sample_pattern_def)
  then have "is_valid_ip_pattern sample_pattern" by (simp add: is_valid_ip_pattern_def validate_prefix_def)
  then have a: "validate_condition_input sample_condition = Inr ()"
    by (simp add: validate_condition_input_def sample_condition_def condition_type_from_str_def is_valid_operator_def validate_condition_value_def)
  have t: "condition_type_from_str (ci_condition_type sample_condition) = Inr IpPattern"
    by (simp add: sample_condition_def condition_type_from_str_def)
  have "parse_ip_addr (te_source_ip sample_event) \<noteq> None" by (simp add: sample_event_def)
  from accepted_condition_is_evaluable [OF a t this] a show ?thesis by simp
qed

text \<open>
  What the validator accepts of an action is what the engine later reads: for a block or a rate
  change with accepted parameters, a duration or a factor that is present in the JSON is read back
  (never lost to a wrong type), the duration lies between one second and the configured maximum, and
  the factor of a rate change between 0.01 and 1.
\<close>

theorem accepted_action_is_read_back:
  assumes accepted: "validate_action (action_type_as_str t) (Some params) max_ttl_secs = Inr ()"
    and t: "t \<in> {BlockIp, AdjustRateLimit}"
  shows "(case ap_ttl_secs (parse_action_params params) of
            None \<Rightarrow> json_get ''ttl_secs'' params = None
          | Some ttl \<Rightarrow> 0 < ttl \<and> ttl \<le> max_ttl_secs)
       \<and> (t = AdjustRateLimit \<longrightarrow>
            (case ap_factor (parse_action_params params) of
               None \<Rightarrow> json_get ''factor'' params = None
             | Some x \<Rightarrow> factor_in_range x))"
  using assms
  by (auto simp: validate_action_def parse_action_params_def result_iffs dest: checked_ttl_read checked_factor_read split: if_splits)

theorem accepted_action_is_read_back_witness:
  "case ap_ttl_secs (parse_action_params (JObject [(''ttl_secs'', JPosInt 600)])) of None \<Rightarrow> False | Some ttl \<Rightarrow> 0 < ttl \<and> ttl \<le> 3600"
proof -
  have "validate_action (action_type_as_str AdjustRateLimit) (Some (JObject [(''ttl_secs'', JPosInt 600)])) 3600 = Inr ()"
    by (simp add: validate_action_def result_iffs field_checks json_get_def as_u64_def)
  from accepted_action_is_read_back [OF this] show ?thesis by (simp add: parse_action_params_def json_get_def as_u64_def)
qed

end
