(* ===== verification/Identity_Store.thy ===== *)
theory Identity_Store
  imports Identity_Domain Playbook_Validator "HOL-Library.List_Lexorder" "HOL-Library.Char_ord"
begin

text \<open>
  The tables of accounts, groups, failed logins and API keys (\<^verbatim>\<open>adapter/persistence/user.rs\<close>,
  \<^verbatim>\<open>api_key.rs\<close>, schema and first groups in \<^verbatim>\<open>adapter/persistence/mod.rs\<close>). A row is appended with the next
  number, so the order of a list is the order of the ids. The statements check the constraints of the
  schema: unique user and group names, the primary key of a membership and its foreign keys, which the
  connection turns on. The first argument of an operation says whether the database serves it; a
  transaction that fails changes nothing. \<open>pj\<close> is \<^verbatim>\<open>serde_json::from_str\<close>, \<open>sj\<close> is \<^verbatim>\<open>serde_json::to_string\<close>,
  \<open>stamp\<close> the text of \<^verbatim>\<open>datetime('now')\<close> and \<open>now\<close> the seconds since the epoch.
\<close>

section \<open>Tables\<close>

record user_row =
  ur_id :: int
  ur_username :: string
  ur_password_hash :: string
  ur_role :: string
  ur_force_password_change :: bool
  ur_created_at :: string

record attempt_row =
  la_failure_count :: int
  la_locked_until :: "int option"

record api_key_row =
  kr_id :: int
  kr_key_hash :: string
  kr_name :: string
  kr_permission_level :: string
  kr_created_at :: string
  kr_last_used_at :: "string option"

record identity_db =
  t_users :: "user_row list"
  t_user_seq :: int
  t_groups :: "user_group_view list"
  t_group_seq :: int
  t_members :: "(int \<times> int) list"
  t_attempts :: "string \<Rightarrow> attempt_row option"
  t_keys :: "api_key_row list"
  t_key_seq :: int

definition user_exists :: "int \<Rightarrow> identity_db \<Rightarrow> bool" where
  "user_exists i db \<longleftrightarrow> list_ex (\<lambda>r. ur_id r = i) (t_users db)"

definition group_exists :: "int \<Rightarrow> identity_db \<Rightarrow> bool" where
  "group_exists i db \<longleftrightarrow> list_ex (\<lambda>g. gv_id g = i) (t_groups db)"

section \<open>Accounts\<close>

definition user_from_row :: "user_row \<Rightarrow> user_view" where
  "user_from_row r =
     \<lparr>uv_id = ur_id r, uv_username = ur_username r, uv_password_hash = ur_password_hash r,
      uv_force_password_change = ur_force_password_change r\<rparr>"

definition find_user :: "bool \<Rightarrow> string \<Rightarrow> identity_db \<Rightarrow> (database_error, user_view option) result" where
  "find_user ok username db =
     (if \<not> ok then Inl QueryFailed
      else Inr (map_option user_from_row (find (\<lambda>r. ur_username r = username) (t_users db))))"

definition find_user_by_id :: "bool \<Rightarrow> int \<Rightarrow> identity_db \<Rightarrow> (database_error, user_view option) result" where
  "find_user_by_id ok i db =
     (if \<not> ok then Inl QueryFailed
      else Inr (map_option user_from_row (find (\<lambda>r. ur_id r = i) (t_users db))))"

definition insert_user ::
  "bool \<Rightarrow> string \<Rightarrow> string \<Rightarrow> string \<Rightarrow> string \<Rightarrow> bool \<Rightarrow> identity_db \<Rightarrow> (database_error, int \<times> identity_db) result" where
  "insert_user ok stamp username password_hash role force db =
     (if \<not> ok then Inl QueryFailed
      else if list_ex (\<lambda>r. ur_username r = username) (t_users db) then Inl (UserAlreadyExists username)
      else
        let i = t_user_seq db + 1;
            r = \<lparr>ur_id = i, ur_username = username, ur_password_hash = password_hash, ur_role = role,
                 ur_force_password_change = force, ur_created_at = stamp\<rparr>
        in Inr (i, db\<lparr>t_users := t_users db @ [r], t_user_seq := i\<rparr>))"

definition set_password :: "int \<Rightarrow> string \<Rightarrow> bool \<Rightarrow> identity_db \<Rightarrow> identity_db" where
  "set_password i password_hash force db =
     db\<lparr>t_users := map (\<lambda>r. if ur_id r = i then r\<lparr>ur_password_hash := password_hash, ur_force_password_change := force\<rparr>
                             else r) (t_users db)\<rparr>"

definition update_user_password :: "bool \<Rightarrow> int \<Rightarrow> string \<Rightarrow> identity_db \<Rightarrow> (database_error, identity_db) result" where
  "update_user_password ok i password_hash db =
     (if \<not> ok then Inl QueryFailed
      else if \<not> user_exists i db then Inl (UserNotFound i)
      else Inr (set_password i password_hash False db))"

definition reset_user_password :: "bool \<Rightarrow> int \<Rightarrow> string \<Rightarrow> identity_db \<Rightarrow> (database_error, identity_db) result" where
  "reset_user_password ok i password_hash db =
     (if \<not> ok then Inl QueryFailed
      else if \<not> user_exists i db then Inl (UserNotFound i)
      else Inr (set_password i password_hash True db))"

definition drop_memberships :: "(int \<times> int \<Rightarrow> bool) \<Rightarrow> identity_db \<Rightarrow> identity_db" where
  "drop_memberships p db = db\<lparr>t_members := filter (\<lambda>m. \<not> p m) (t_members db)\<rparr>"

definition delete_user :: "bool \<Rightarrow> int \<Rightarrow> identity_db \<Rightarrow> (database_error, bool \<times> identity_db) result" where
  "delete_user ok i db =
     (if \<not> ok then Inl QueryFailed
      else
        let db1 = drop_memberships (\<lambda>m. fst m = i) db
        in Inr (user_exists i db1, db1\<lparr>t_users := filter (\<lambda>r. ur_id r \<noteq> i) (t_users db1)\<rparr>))"

definition insert_membership :: "int \<Rightarrow> int \<Rightarrow> identity_db \<Rightarrow> (database_error, identity_db) result" where
  "insert_membership i gid db =
     (if (i, gid) \<in> set (t_members db) \<or> \<not> user_exists i db \<or> \<not> group_exists gid db then Inl QueryFailed
      else Inr (db\<lparr>t_members := t_members db @ [(i, gid)]\<rparr>))"

fun insert_memberships :: "int \<Rightarrow> int list \<Rightarrow> identity_db \<Rightarrow> (database_error, identity_db) result" where
  "insert_memberships i [] db = Inr db"
| "insert_memberships i (gid # gids) db =
     and_then (insert_membership i gid db) (\<lambda>db. insert_memberships i gids db)"

definition update_user_role :: "bool \<Rightarrow> int \<Rightarrow> string \<Rightarrow> identity_db \<Rightarrow> (database_error, identity_db) result" where
  "update_user_role ok i role db =
     (if \<not> ok then Inl QueryFailed
      else
        let db1 = db\<lparr>t_users := map (\<lambda>r. if ur_id r = i then r\<lparr>ur_role := role\<rparr> else r) (t_users db)\<rparr>;
            group_name = (if role = ROLE_ADMIN then GROUP_ADMIN else GROUP_VIEWER)
        in and_then (ok_or (find (\<lambda>g. gv_name g = group_name) (t_groups db1)) QueryFailed) (\<lambda>g.
           insert_membership i (gv_id g) (drop_memberships (\<lambda>m. fst m = i) db1)))"

section \<open>Groups\<close>

definition list_user_groups :: "bool \<Rightarrow> identity_db \<Rightarrow> (database_error, user_group_view list) result" where
  "list_user_groups ok db = (if \<not> ok then Inl QueryFailed else Inr (t_groups db))"

definition create_user_group ::
  "bool \<Rightarrow> string \<Rightarrow> string \<Rightarrow> string \<Rightarrow> string \<Rightarrow> identity_db \<Rightarrow> (database_error, int \<times> identity_db) result" where
  "create_user_group ok stamp name description permissions db =
     (if \<not> ok then Inl QueryFailed
      else if list_ex (\<lambda>g. gv_name g = name) (t_groups db) then Inl (GroupAlreadyExists name)
      else
        let i = t_group_seq db + 1;
            g = \<lparr>gv_id = i, gv_name = name, gv_description = description, gv_permissions = permissions,
                 gv_created_at = stamp\<rparr>
        in Inr (i, db\<lparr>t_groups := t_groups db @ [g], t_group_seq := i\<rparr>))"

definition update_user_group ::
  "bool \<Rightarrow> int \<Rightarrow> string \<Rightarrow> string \<Rightarrow> string \<Rightarrow> identity_db \<Rightarrow> (database_error, identity_db) result" where
  "update_user_group ok i name description permissions db =
     (if \<not> ok then Inl QueryFailed
      else if group_exists i db \<and> list_ex (\<lambda>g. gv_name g = name \<and> gv_id g \<noteq> i) (t_groups db) then Inl QueryFailed
      else Inr (db\<lparr>t_groups := map (\<lambda>g. if gv_id g = i
                                          then g\<lparr>gv_name := name, gv_description := description, gv_permissions := permissions\<rparr>
                                          else g) (t_groups db)\<rparr>))"

definition delete_user_group :: "bool \<Rightarrow> int \<Rightarrow> identity_db \<Rightarrow> (database_error, bool \<times> identity_db) result" where
  "delete_user_group ok i db =
     (if \<not> ok then Inl QueryFailed
      else
        let db1 = drop_memberships (\<lambda>m. snd m = i) db
        in Inr (group_exists i db1, db1\<lparr>t_groups := filter (\<lambda>g. gv_id g \<noteq> i) (t_groups db1)\<rparr>))"

definition get_user_group :: "bool \<Rightarrow> int \<Rightarrow> identity_db \<Rightarrow> (database_error, user_group_view option) result" where
  "get_user_group ok i db = (if \<not> ok then Inl QueryFailed else Inr (find (\<lambda>g. gv_id g = i) (t_groups db)))"

definition groups_of :: "int \<Rightarrow> identity_db \<Rightarrow> user_group_view list" where
  "groups_of i db = filter (\<lambda>g. (i, gv_id g) \<in> set (t_members db)) (t_groups db)"

definition list_groups_for_user :: "bool \<Rightarrow> int \<Rightarrow> identity_db \<Rightarrow> (database_error, user_group_view list) result" where
  "list_groups_for_user ok i db = (if \<not> ok then Inl QueryFailed else Inr (groups_of i db))"

text \<open>A check of the groups, then the replacement of the memberships.\<close>

definition set_user_groups :: "bool \<Rightarrow> int \<Rightarrow> int list \<Rightarrow> identity_db \<Rightarrow> (database_error, identity_db) result" where
  "set_user_groups ok i gids db =
     (if \<not> ok then Inl QueryFailed
      else if \<not> list_all (\<lambda>gid. group_exists gid db) gids then Inl QueryFailed
      else insert_memberships i gids (drop_memberships (\<lambda>m. fst m = i) db))"

definition string_array :: "json \<Rightarrow> string list option" where
  "string_array j = (case j of JArray js \<Rightarrow> those (map as_json_str js) | _ \<Rightarrow> None)"

definition parse_string_array :: "(string \<Rightarrow> json option) \<Rightarrow> string \<Rightarrow> string list option" where
  "parse_string_array pj s = Option.bind (pj s) string_array"

fun collect_permissions ::
  "(string \<Rightarrow> json option) \<Rightarrow> user_group_view list \<Rightarrow> (database_error, string list) result" where
  "collect_permissions pj [] = Inr []"
| "collect_permissions pj (g # gs) =
     and_then (ok_or (parse_string_array pj (gv_permissions g)) (PersistedJsonInvalid (gv_id g) ''user_groups.permissions'')) (\<lambda>ps.
     and_then (collect_permissions pj gs) (\<lambda>qs. Inr (ps @ qs)))"

definition list_user_permissions ::
  "bool \<Rightarrow> (string \<Rightarrow> json option) \<Rightarrow> int \<Rightarrow> identity_db \<Rightarrow> (database_error, string list) result" where
  "list_user_permissions ok pj i db =
     and_then (list_groups_for_user ok i db) (\<lambda>gs.
     and_then (collect_permissions pj gs) (\<lambda>ps. Inr (sort (remdups ps))))"

definition list_group_member_ids :: "bool \<Rightarrow> int \<Rightarrow> identity_db \<Rightarrow> (database_error, int list) result" where
  "list_group_member_ids ok gid db =
     (if \<not> ok then Inl QueryFailed else Inr (map fst (filter (\<lambda>m. snd m = gid) (t_members db))))"

definition list_group_members :: "bool \<Rightarrow> int \<Rightarrow> identity_db \<Rightarrow> (database_error, group_member_view list) result" where
  "list_group_members ok gid db =
     (if \<not> ok then Inl QueryFailed
      else Inr (sort_key mv_username
                  (map (\<lambda>r. \<lparr>mv_id = ur_id r, mv_username = ur_username r\<rparr>)
                       (filter (\<lambda>r. (ur_id r, gid) \<in> set (t_members db)) (t_users db)))))"

text \<open>The left join of accounts with their groups, folded back into one view per account.\<close>

definition user_group_rows :: "identity_db \<Rightarrow> (user_row \<times> user_group_view option) list" where
  "user_group_rows db =
     concat (map (\<lambda>r. case groups_of (ur_id r) db of [] \<Rightarrow> [(r, None)] | gs \<Rightarrow> map (\<lambda>g. (r, Some g)) gs) (t_users db))"

definition push_user_row :: "user_with_groups_view list \<Rightarrow> user_row \<times> user_group_view option \<Rightarrow> user_with_groups_view list" where
  "push_user_row users row =
     (let r = fst row;
          users = (if users = [] \<or> ug_id (last users) \<noteq> ur_id r
                   then users @ [\<lparr>ug_id = ur_id r, ug_username = ur_username r,
                                  ug_force_password_change = ur_force_password_change r, ug_created_at = ur_created_at r,
                                  ug_groups = []\<rparr>]
                   else users)
      in case snd row of
           None \<Rightarrow> users
         | Some g \<Rightarrow> butlast users
                     @ [(last users)\<lparr>ug_groups := ug_groups (last users) @ [\<lparr>gm_group_id = gv_id g, gm_group_name = gv_name g\<rparr>]\<rparr>])"

definition list_users_with_groups :: "bool \<Rightarrow> identity_db \<Rightarrow> (database_error, user_with_groups_view list) result" where
  "list_users_with_groups ok db = (if \<not> ok then Inl QueryFailed else Inr (foldl push_user_row [] (user_group_rows db)))"

text \<open>The groups a new database starts with.\<close>

definition seed_groups :: "(json \<Rightarrow> string) \<Rightarrow> string \<Rightarrow> identity_db \<Rightarrow> (database_error, identity_db) result" where
  "seed_groups sj stamp db =
     (if t_groups db \<noteq> [] then Inr db
      else
        and_then (create_user_group True stamp GROUP_ADMIN ''Full system access with all permissions''
                    (sj (JArray (map JString ADMIN_PERMISSIONS))) db) (\<lambda>(_, db).
        and_then (create_user_group True stamp GROUP_VIEWER ''Read-only access to all modules''
                    (sj (JArray (map JString VIEWER_PERMISSIONS))) db) (\<lambda>(_, db). Inr db)))"

section \<open>Failed logins\<close>

definition show_int :: "int \<Rightarrow> string" where
  "show_int i = (if i < 0 then CHR ''-'' # show_nat (nat (- i)) else show_nat (nat i))"

definition decode_login_failure_count :: "int \<Rightarrow> (database_error, u32) result" where
  "decode_login_failure_count v =
     (if 0 \<le> v \<and> v < 2 ^ 32 then Inr (word_of_int v)
      else Inl (PersistedValueInvalid ''login_attempts'' ''failure_count'' (show_int v)))"

definition encode_login_locked_until :: "u64 \<Rightarrow> (database_error, int) result" where
  "encode_login_locked_until v =
     (if uint v < 2 ^ 63 then Inr (uint v)
      else Inl (PersistedValueInvalid ''login_attempts'' ''locked_until'' (show_int (uint v))))"

definition decode_login_locked_until :: "int option \<Rightarrow> (database_error, u64 option) result" where
  "decode_login_locked_until v =
     (case v of
        Some i \<Rightarrow> if 0 \<le> i then Inr (Some (word_of_int i))
                   else Inl (PersistedValueInvalid ''login_attempts'' ''locked_until'' (show_int i))
      | None \<Rightarrow> Inr None)"

definition record_login_failure ::
  "bool \<Rightarrow> u64 \<Rightarrow> string \<Rightarrow> identity_db \<Rightarrow> (database_error, (u32 \<times> u64 option) \<times> identity_db) result" where
  "record_login_failure ok now username db =
     (if \<not> ok then Inl QueryFailed
      else
        and_then (case t_attempts db username of
                    Some a \<Rightarrow> decode_login_failure_count (la_failure_count a)
                  | None \<Rightarrow> Inr 0) (\<lambda>current.
        let failures = saturating_add current 1;
            locked_until = (if failures \<ge> LOGIN_MAX_FAILURES then Some (saturating_add now LOGIN_LOCKOUT_SECS) else None)
        in and_then (case locked_until of
                       Some t \<Rightarrow> and_then (encode_login_locked_until t) (\<lambda>i. Inr (Some i))
                     | None \<Rightarrow> Inr None) (\<lambda>enc.
           Inr ((failures, locked_until),
                db\<lparr>t_attempts := (t_attempts db)(username \<mapsto> \<lparr>la_failure_count = uint failures, la_locked_until = enc\<rparr>)\<rparr>))))"

definition get_remaining_lock_secs :: "bool \<Rightarrow> u64 \<Rightarrow> string \<Rightarrow> identity_db \<Rightarrow> (database_error, u64 option) result" where
  "get_remaining_lock_secs ok now username db =
     and_then (if \<not> ok then Inl QueryFailed
               else case t_attempts db username of
                      Some a \<Rightarrow> decode_login_locked_until (la_locked_until a)
                    | None \<Rightarrow> Inr None) (\<lambda>locked_until.
     Inr (case locked_until of
            Some t \<Rightarrow> if now < t then Some (t - now) else None
          | None \<Rightarrow> None))"

definition clear_expired_login_lock :: "bool \<Rightarrow> u64 \<Rightarrow> string \<Rightarrow> identity_db \<Rightarrow> (database_error, identity_db) result" where
  "clear_expired_login_lock ok now username db =
     (if \<not> ok then Inl QueryFailed
      else case t_attempts db username of
             Some a \<Rightarrow> (case la_locked_until a of
                          Some t \<Rightarrow> Inr (if t \<le> sint now then db\<lparr>t_attempts := (t_attempts db)(username := None)\<rparr> else db)
                        | None \<Rightarrow> Inr db)
           | None \<Rightarrow> Inr db)"

definition clear_login_failures :: "bool \<Rightarrow> string \<Rightarrow> identity_db \<Rightarrow> (database_error, identity_db) result" where
  "clear_login_failures ok username db =
     (if \<not> ok then Inl QueryFailed else Inr (db\<lparr>t_attempts := (t_attempts db)(username := None)\<rparr>))"

section \<open>API keys\<close>

text \<open>The use of a key is recorded before its level is read, so it stays recorded when the level is unknown.\<close>

definition validate_api_key ::
  "bool \<Rightarrow> string \<Rightarrow> string \<Rightarrow> identity_db \<Rightarrow> (database_error, claims option) result \<times> identity_db" where
  "validate_api_key ok stamp key_hash db =
     (if \<not> ok then (Inl QueryFailed, db)
      else case find (\<lambda>r. kr_key_hash r = key_hash) (t_keys db) of
             None \<Rightarrow> (Inr None, db)
           | Some k \<Rightarrow>
               (and_then (ok_or (level_from_str (kr_permission_level k))
                           (PersistedValueInvalid ''api_keys'' ''permission_level'' (kr_permission_level k))) (\<lambda>l.
                Inr (Some \<lparr>cl_sub = - kr_id k, cl_username = ''api:'' @ kr_name k, cl_role = kr_permission_level k,
                           cl_permissions = level_permissions l\<rparr>)),
                db\<lparr>t_keys := map (\<lambda>r. if kr_id r = kr_id k then r\<lparr>kr_last_used_at := Some stamp\<rparr> else r) (t_keys db)\<rparr>))"

definition insert_api_key ::
  "bool \<Rightarrow> string \<Rightarrow> string \<Rightarrow> string \<Rightarrow> string \<Rightarrow> identity_db \<Rightarrow> (database_error, int \<times> identity_db) result" where
  "insert_api_key ok stamp key_hash name level db =
     (if \<not> ok then Inl QueryFailed
      else
        let i = t_key_seq db + 1;
            r = \<lparr>kr_id = i, kr_key_hash = key_hash, kr_name = name, kr_permission_level = level, kr_created_at = stamp,
                 kr_last_used_at = None\<rparr>
        in Inr (i, db\<lparr>t_keys := t_keys db @ [r], t_key_seq := i\<rparr>))"

definition api_key_from_row :: "api_key_row \<Rightarrow> api_key_view" where
  "api_key_from_row r =
     \<lparr>kv_id = kr_id r, kv_name = kr_name r, kv_permission_level = kr_permission_level r,
      kv_created_at = kr_created_at r, kv_last_used_at = kr_last_used_at r\<rparr>"

definition list_api_keys :: "bool \<Rightarrow> identity_db \<Rightarrow> (database_error, api_key_view list) result" where
  "list_api_keys ok db = (if \<not> ok then Inl QueryFailed else Inr (map api_key_from_row (t_keys db)))"

definition delete_api_key :: "bool \<Rightarrow> int \<Rightarrow> identity_db \<Rightarrow> (database_error, bool \<times> identity_db) result" where
  "delete_api_key ok i db =
     (if \<not> ok then Inl QueryFailed
      else Inr (list_ex (\<lambda>r. kr_id r = i) (t_keys db), db\<lparr>t_keys := filter (\<lambda>r. kr_id r \<noteq> i) (t_keys db)\<rparr>))"

section \<open>Consistency of the tables\<close>

text \<open>
  Ids are positive, distinct and below the next number, names are unique, a membership names an account
  and a group that exist and appears once, and the columns of a failed login are in range: there is a
  deadline exactly when the counter has reached its limit.
\<close>

definition wf_users :: "user_row list \<Rightarrow> int \<Rightarrow> bool" where
  "wf_users us n \<longleftrightarrow>
     distinct (map ur_id us) \<and> distinct (map ur_username us) \<and> (\<forall>r\<in>set us. 0 < ur_id r \<and> ur_id r \<le> n) \<and> 0 \<le> n"

definition wf_groups :: "user_group_view list \<Rightarrow> int \<Rightarrow> bool" where
  "wf_groups gs n \<longleftrightarrow>
     distinct (map gv_id gs) \<and> distinct (map gv_name gs) \<and> (\<forall>g\<in>set gs. 0 < gv_id g \<and> gv_id g \<le> n) \<and> 0 \<le> n"

definition wf_members :: "user_row list \<Rightarrow> user_group_view list \<Rightarrow> (int \<times> int) list \<Rightarrow> bool" where
  "wf_members us gs ms \<longleftrightarrow>
     distinct ms \<and> fst ` set ms \<subseteq> ur_id ` set us \<and> snd ` set ms \<subseteq> gv_id ` set gs"

definition wf_keys :: "api_key_row list \<Rightarrow> int \<Rightarrow> bool" where
  "wf_keys ks n \<longleftrightarrow> distinct (map kr_id ks) \<and> (\<forall>r\<in>set ks. 0 < kr_id r \<and> kr_id r \<le> n) \<and> 0 \<le> n"

definition wf_attempt :: "attempt_row \<Rightarrow> bool" where
  "wf_attempt a \<longleftrightarrow>
     0 \<le> la_failure_count a \<and> la_failure_count a < 2 ^ 32
     \<and> (case la_locked_until a of
            None \<Rightarrow> la_failure_count a < uint LOGIN_MAX_FAILURES
          | Some t \<Rightarrow> uint LOGIN_MAX_FAILURES \<le> la_failure_count a \<and> 0 \<le> t \<and> t < 2 ^ 63)"

definition wf_attempts :: "(string \<Rightarrow> attempt_row option) \<Rightarrow> bool" where
  "wf_attempts m \<longleftrightarrow> (\<forall>u a. m u = Some a \<longrightarrow> wf_attempt a)"

definition wf_identity :: "identity_db \<Rightarrow> bool" where
  "wf_identity db \<longleftrightarrow>
     wf_users (t_users db) (t_user_seq db) \<and> wf_groups (t_groups db) (t_group_seq db) \<and> wf_members (t_users db) (t_groups db) (t_members db)
     \<and> wf_attempts (t_attempts db) \<and> wf_keys (t_keys db) (t_key_seq db)"

definition empty_identity :: identity_db where
  "empty_identity =
     \<lparr>t_users = [], t_user_seq = 0, t_groups = [], t_group_seq = 0, t_members = [], t_attempts = (\<lambda>_. None),
      t_keys = [], t_key_seq = 0\<rparr>"

text \<open>One write of the store.\<close>

inductive identity_step :: "identity_db \<Rightarrow> identity_db \<Rightarrow> bool" where
  insert_user: "insert_user ok stamp name h role force db = Inr (i, db') \<Longrightarrow> identity_step db db'"
| update_password: "update_user_password ok i h db = Inr db' \<Longrightarrow> identity_step db db'"
| reset_password: "reset_user_password ok i h db = Inr db' \<Longrightarrow> identity_step db db'"
| delete_user: "delete_user ok i db = Inr (b, db') \<Longrightarrow> identity_step db db'"
| update_role: "update_user_role ok i role db = Inr db' \<Longrightarrow> identity_step db db'"
| create_group: "create_user_group ok stamp name desc ps db = Inr (i, db') \<Longrightarrow> identity_step db db'"
| update_group: "update_user_group ok i name desc ps db = Inr db' \<Longrightarrow> identity_step db db'"
| delete_group: "delete_user_group ok i db = Inr (b, db') \<Longrightarrow> identity_step db db'"
| set_groups: "set_user_groups ok i gids db = Inr db' \<Longrightarrow> identity_step db db'"
| record_failure: "record_login_failure ok now name db = Inr (r, db') \<Longrightarrow> identity_step db db'"
| clear_lock: "clear_expired_login_lock ok now name db = Inr db' \<Longrightarrow> identity_step db db'"
| clear_failures: "clear_login_failures ok name db = Inr db' \<Longrightarrow> identity_step db db'"
| use_key: "validate_api_key ok stamp h db = (r, db') \<Longrightarrow> identity_step db db'"
| insert_key: "insert_api_key ok stamp h name level db = Inr (i, db') \<Longrightarrow> identity_step db db'"
| delete_key: "delete_api_key ok i db = Inr (b, db') \<Longrightarrow> identity_step db db'"

lemma find_mem: "find P xs = Some x \<Longrightarrow> x \<in> set xs \<and> P x"
  by (auto simp: find_Some_iff)

lemma user_exists_iff: "user_exists i db \<longleftrightarrow> i \<in> ur_id ` set (t_users db)"
  by (auto simp: user_exists_def list_ex_iff)

lemma group_exists_iff: "group_exists i db \<longleftrightarrow> i \<in> gv_id ` set (t_groups db)"
  by (auto simp: group_exists_def list_ex_iff)

text \<open>A change of other columns keeps the ids and the names.\<close>

lemma map_ur_id [simp]:
  "map ur_id (map (\<lambda>r. if ur_id r = i then r\<lparr>ur_password_hash := h, ur_force_password_change := f\<rparr> else r) us) = map ur_id us"
  "map ur_username (map (\<lambda>r. if ur_id r = i then r\<lparr>ur_password_hash := h, ur_force_password_change := f\<rparr> else r) us) = map ur_username us"
  "map ur_id (map (\<lambda>r. if ur_id r = i then r\<lparr>ur_role := role\<rparr> else r) us) = map ur_id us"
  "map ur_username (map (\<lambda>r. if ur_id r = i then r\<lparr>ur_role := role\<rparr> else r) us) = map ur_username us"
  by (auto simp: o_def)

lemma map_gv_id [simp]:
  "map gv_id (map (\<lambda>g. if gv_id g = i then g\<lparr>gv_name := name, gv_description := d, gv_permissions := ps\<rparr> else g) gs) = map gv_id gs"
  by (auto simp: o_def)

lemma wf_users_cong:
  "map ur_id us' = map ur_id us \<Longrightarrow> map ur_username us' = map ur_username us \<Longrightarrow> wf_users us' n = wf_users us n"
  unfolding wf_users_def by (metis (mono_tags, lifting) image_eqI list.set_map imageE)

lemma wf_members_cong:
  "map ur_id us' = map ur_id us \<Longrightarrow> map gv_id gs' = map gv_id gs \<Longrightarrow> wf_members us' gs' ms = wf_members us gs ms"
  unfolding wf_members_def by (metis list.set_map)

lemma wf_users_append:
  assumes "wf_users us n" "ur_id r = n + 1" "\<not> list_ex (\<lambda>q. ur_username q = ur_username r) us"
  shows "wf_users (us @ [r]) (n + 1)"
  using assms by (force simp: wf_users_def list_ex_iff)

lemma wf_users_filter: "wf_users us n \<Longrightarrow> wf_users (filter p us) n"
  by (auto simp: wf_users_def distinct_map_filter)

lemma wf_groups_append:
  assumes "wf_groups gs n" "gv_id g = n + 1" "\<not> list_ex (\<lambda>q. gv_name q = gv_name g) gs"
  shows "wf_groups (gs @ [g]) (n + 1)"
  using assms by (force simp: wf_groups_def list_ex_iff)

lemma wf_groups_filter: "wf_groups gs n \<Longrightarrow> wf_groups (filter p gs) n"
  by (auto simp: wf_groups_def distinct_map_filter)

lemma wf_groups_rename:
  assumes "wf_groups gs n" "\<not> list_ex (\<lambda>g. gv_name g = name \<and> gv_id g \<noteq> i) gs"
  shows "wf_groups (map (\<lambda>g. if gv_id g = i then g\<lparr>gv_name := name, gv_description := d, gv_permissions := ps\<rparr> else g) gs) n"
    (is "wf_groups (map ?f gs) n")
proof -
  have "inj_on (\<lambda>g. gv_name (?f g)) (set gs)"
  proof (rule inj_onI)
    fix g h assume gh: "g \<in> set gs" "h \<in> set gs" "gv_name (?f g) = gv_name (?f h)"
    have "inj_on gv_id (set gs)" "inj_on gv_name (set gs)"
      using assms(1) by (auto simp: wf_groups_def distinct_map)
    then show "g = h" using gh assms(2) by (auto simp: list_ex_iff dest: inj_onD split: if_splits)
  qed
  then have "distinct (map gv_name (map ?f gs))"
    using assms(1) by (auto simp: wf_groups_def distinct_map o_def)
  moreover have "distinct (map gv_id (map ?f gs))"
    using assms(1) by (simp only: map_gv_id wf_groups_def)
  ultimately show ?thesis using assms(1) by (auto simp: wf_groups_def)
qed

lemma wf_members_mono:
  "wf_members us gs ms \<Longrightarrow> set us \<subseteq> set us' \<Longrightarrow> set gs \<subseteq> set gs' \<Longrightarrow> wf_members us' gs' ms"
  unfolding wf_members_def by blast

lemma wf_members_filter: "wf_members us gs ms \<Longrightarrow> wf_members us gs (filter p ms)"
  by (auto simp: wf_members_def)

lemma image_filter_neq: "f ` set (filter (\<lambda>x. f x \<noteq> i) xs) = f ` set xs - {i}"
  by auto

lemma wf_members_without_user:
  "wf_members us gs ms \<Longrightarrow> wf_members (filter (\<lambda>r. ur_id r \<noteq> i) us) gs (filter (\<lambda>m. fst m \<noteq> i) ms)"
  unfolding wf_members_def image_filter_neq by (auto simp del: image_eqI intro: Diff_mono image_mono [THEN subsetD])

lemma wf_members_without_group:
  "wf_members us gs ms \<Longrightarrow> wf_members us (filter (\<lambda>g. gv_id g \<noteq> i) gs) (filter (\<lambda>m. snd m \<noteq> i) ms)"
  unfolding wf_members_def image_filter_neq by (auto simp del: image_eqI intro: Diff_mono image_mono [THEN subsetD])

lemma wf_drop_memberships [intro]: "wf_identity db \<Longrightarrow> wf_identity (drop_memberships p db)"
  by (simp add: wf_identity_def drop_memberships_def wf_members_filter)

lemma wf_set_password: "wf_identity db \<Longrightarrow> wf_identity (set_password i h f db)"
  by (simp add: wf_identity_def set_password_def wf_users_cong [OF map_ur_id(1,2)] wf_members_cong [OF map_ur_id(1) refl]
           del: map_map)

lemma wf_insert_membership:
  "wf_identity db \<Longrightarrow> insert_membership i gid db = Inr db' \<Longrightarrow> wf_identity db'"
  by (clarsimp simp: insert_membership_def wf_identity_def wf_members_def user_exists_iff group_exists_iff split: if_splits)

lemma wf_insert_memberships:
  "wf_identity db \<Longrightarrow> insert_memberships i gids db = Inr db' \<Longrightarrow> wf_identity db'"
  by (induction i gids db rule: insert_memberships.induct) (auto simp: and_then_Inr_iff dest: wf_insert_membership)

lemma wf_insert_user:
  assumes "wf_identity db" "insert_user ok stamp name h role force db = Inr (i, db')"
  shows "wf_identity db'"
  using assms wf_users_append [of "t_users db" "t_user_seq db"]
  by (auto simp: insert_user_def wf_identity_def Let_def intro: wf_members_mono split: if_splits)

lemma wf_delete_user:
  assumes "wf_identity db" "delete_user ok i db = Inr (b, db')"
  shows "wf_identity db'"
  using assms
  by (auto simp: delete_user_def wf_identity_def drop_memberships_def wf_users_filter wf_members_without_user Let_def
           split: if_splits)

definition with_role :: "int \<Rightarrow> string \<Rightarrow> identity_db \<Rightarrow> identity_db" where
  "with_role i role db = db\<lparr>t_users := map (\<lambda>r. if ur_id r = i then r\<lparr>ur_role := role\<rparr> else r) (t_users db)\<rparr>"

lemma update_user_role_Inr_iff:
  "update_user_role ok i role db = Inr db' \<longleftrightarrow>
     ok \<and> (\<exists>g. find (\<lambda>g. gv_name g = (if role = ROLE_ADMIN then GROUP_ADMIN else GROUP_VIEWER)) (t_groups db) = Some g
            \<and> insert_membership i (gv_id g) (drop_memberships (\<lambda>m. fst m = i) (with_role i role db)) = Inr db')"
  by (cases ok) (simp_all add: update_user_role_def with_role_def Let_def result_iffs)

lemma wf_update_role:
  assumes wf: "wf_identity db" and r: "update_user_role ok i role db = Inr db'"
  shows "wf_identity db'"
proof -
  have "wf_identity (with_role i role db)"
    using wf by (simp add: wf_identity_def with_role_def wf_users_cong [OF map_ur_id(3,4)]
                           wf_members_cong [OF map_ur_id(3) refl] del: map_map)
  then show ?thesis using r by (auto simp: update_user_role_Inr_iff intro: wf_insert_membership)
qed

lemma wf_create_group:
  assumes "wf_identity db" "create_user_group ok stamp name d ps db = Inr (i, db')"
  shows "wf_identity db'"
  using assms wf_groups_append [of "t_groups db" "t_group_seq db"]
  by (auto simp: create_user_group_def wf_identity_def Let_def intro: wf_members_mono split: if_splits)

lemma rename_missing_group:
  "\<not> group_exists i db \<Longrightarrow> map (\<lambda>g. if gv_id g = i then f g else g) (t_groups db) = t_groups db"
  by (intro map_idI) (auto simp: group_exists_iff)

lemma wf_update_group:
  assumes wf: "wf_identity db" and r: "update_user_group ok i name d ps db = Inr db'"
  shows "wf_identity db'"
proof (cases "group_exists i db")
  case True
  then have "\<not> list_ex (\<lambda>g. gv_name g = name \<and> gv_id g \<noteq> i) (t_groups db)"
    using r by (auto simp: update_user_group_def split: if_splits)
  from wf_groups_rename [OF _ this] True show ?thesis
    using wf r by (auto simp: update_user_group_def wf_identity_def wf_members_cong [OF refl map_gv_id] simp del: map_map
                        split: if_splits)
next
  case False
  then have "db' = db" using r by (auto simp: update_user_group_def rename_missing_group split: if_splits)
  then show ?thesis using wf by simp
qed

lemma wf_delete_group:
  assumes "wf_identity db" "delete_user_group ok i db = Inr (b, db')"
  shows "wf_identity db'"
  using assms
  by (auto simp: delete_user_group_def wf_identity_def drop_memberships_def wf_groups_filter wf_members_without_group Let_def
           split: if_splits)

lemma wf_set_groups:
  "wf_identity db \<Longrightarrow> set_user_groups ok i gids db = Inr db' \<Longrightarrow> wf_identity db'"
  by (auto simp: set_user_groups_def intro: wf_insert_memberships split: if_splits)

text \<open>The lock of a login: the counter and its deadline.\<close>

lemma encoded_lock_in_range:
  assumes "(case if LOGIN_MAX_FAILURES \<le> c then Some t else None of
              Some t \<Rightarrow> and_then (encode_login_locked_until t) (\<lambda>i. Inr (Some i)) | None \<Rightarrow> Inr None) = Inr e"
  shows "wf_attempt \<lparr>la_failure_count = uint c, la_locked_until = e\<rparr>"
  using assms uint_lt2p [of c] word_le_def [of LOGIN_MAX_FAILURES c]
  by (auto simp: wf_attempt_def encode_login_locked_until_def and_then_Inr_iff split: if_splits)

lemma record_login_failure_row:
  assumes "record_login_failure ok now name db = Inr (x, db')"
  obtains a where "wf_attempt a" "db' = db\<lparr>t_attempts := (t_attempts db)(name \<mapsto> a)\<rparr>"
proof (cases ok)
  case True
  then show ?thesis
    using assms encoded_lock_in_range that
    by (auto simp: record_login_failure_def Let_def and_then_Inr_iff simp del: option.case split del: if_split)
qed (use assms in \<open>simp add: record_login_failure_def\<close>)

lemma wf_record_failure:
  "wf_identity db \<Longrightarrow> record_login_failure ok now name db = Inr (x, db') \<Longrightarrow> wf_identity db'"
  by (erule record_login_failure_row) (simp add: wf_identity_def wf_attempts_def)

lemma wf_clear_lock:
  "wf_identity db \<Longrightarrow> clear_expired_login_lock ok now name db = Inr db' \<Longrightarrow> wf_identity db'"
  by (auto simp: clear_expired_login_lock_def wf_identity_def wf_attempts_def split: if_splits option.splits)

lemma wf_clear_failures:
  "wf_identity db \<Longrightarrow> clear_login_failures ok name db = Inr db' \<Longrightarrow> wf_identity db'"
  by (auto simp: clear_login_failures_def wf_identity_def wf_attempts_def split: if_splits)

lemma wf_keys_cong: "map kr_id ks' = map kr_id ks \<Longrightarrow> wf_keys ks' n = wf_keys ks n"
  unfolding wf_keys_def by (metis (mono_tags, lifting) image_eqI list.set_map imageE)

lemma map_kr_id: "map kr_id (map (\<lambda>r. if kr_id r = k then r\<lparr>kr_last_used_at := t\<rparr> else r) ks) = map kr_id ks"
  by (auto simp: o_def)

lemma wf_use_key:
  "wf_identity db \<Longrightarrow> validate_api_key ok stamp h db = (r, db') \<Longrightarrow> wf_identity db'"
  by (auto simp: validate_api_key_def wf_identity_def wf_keys_cong [OF map_kr_id] simp del: map_map
           split: if_splits option.splits)

lemma wf_insert_key:
  "wf_identity db \<Longrightarrow> insert_api_key ok stamp h name level db = Inr (i, db') \<Longrightarrow> wf_identity db'"
  by (force simp: insert_api_key_def wf_identity_def wf_keys_def Let_def split: if_splits)

lemma wf_delete_key:
  "wf_identity db \<Longrightarrow> delete_api_key ok i db = Inr (b, db') \<Longrightarrow> wf_identity db'"
  by (auto simp: delete_api_key_def wf_identity_def wf_keys_def distinct_map_filter split: if_splits)

lemma wf_update_password: "wf_identity db \<Longrightarrow> update_user_password ok i h db = Inr db' \<Longrightarrow> wf_identity db'"
  by (auto simp: update_user_password_def wf_set_password split: if_splits)

lemma wf_reset_password: "wf_identity db \<Longrightarrow> reset_user_password ok i h db = Inr db' \<Longrightarrow> wf_identity db'"
  by (auto simp: reset_user_password_def wf_set_password split: if_splits)

lemmas wf_operations =
  wf_insert_user wf_update_password wf_reset_password wf_delete_user wf_update_role wf_create_group wf_update_group
  wf_delete_group wf_set_groups wf_record_failure wf_clear_lock wf_clear_failures wf_use_key wf_insert_key wf_delete_key

lemma wf_identity_step: "identity_step db db' \<Longrightarrow> wf_identity db \<Longrightarrow> wf_identity db'"
  by (induction rule: identity_step.induct) (rule wf_operations, assumption, assumption)+

text \<open>
  C21. Identity tables: from the empty database, whatever the sequence of writes of the store, two
  accounts never share an id or a name, nor do two groups, every membership names an account and a group
  that exist and appears once, and every failure counter and lock deadline can be read back.
\<close>

theorem identity_tables_stay_consistent:
  assumes "identity_step\<^sup>*\<^sup>* empty_identity db"
  shows "wf_identity db"
  using assms
proof (induction rule: rtranclp_induct)
  case base
  show ?case
    by (simp add: wf_identity_def empty_identity_def wf_users_def wf_groups_def wf_members_def wf_keys_def wf_attempts_def)
next
  case (step db db')
  then show ?case by (blast intro: wf_identity_step)
qed

theorem identity_tables_stay_consistent_witness:
  "wf_identity (empty_identity\<lparr>t_groups := [\<lparr>gv_id = 1, gv_name = ''Viewer'', gv_description = [], gv_permissions = ''[]'',
                                             gv_created_at = []\<rparr>], t_group_seq := 1\<rparr>)"
proof (rule identity_tables_stay_consistent)
  let ?db = "empty_identity\<lparr>t_groups := [\<lparr>gv_id = 1, gv_name = ''Viewer'', gv_description = [], gv_permissions = ''[]'',
                                           gv_created_at = []\<rparr>], t_group_seq := 1\<rparr>"
  have "create_user_group True [] ''Viewer'' [] ''[]'' empty_identity = Inr (1, ?db)"
    by (simp add: create_user_group_def empty_identity_def)
  then show "identity_step\<^sup>*\<^sup>* empty_identity ?db" by (blast intro: identity_step.create_group)
qed

text \<open>Two groups and the built-in administrator, for the witnesses.\<close>

definition sample_identity :: identity_db where
  "sample_identity =
     \<lparr>t_users = [\<lparr>ur_id = 1, ur_username = ''admin'', ur_password_hash = ''Secret-1'', ur_role = ''admin'',
                  ur_force_password_change = False, ur_created_at = []\<rparr>],
      t_user_seq = 1,
      t_groups = [\<lparr>gv_id = 1, gv_name = ''Administrator'', gv_description = [], gv_permissions = ''A'', gv_created_at = []\<rparr>,
                  \<lparr>gv_id = 2, gv_name = ''Viewer'', gv_description = [], gv_permissions = ''V'', gv_created_at = []\<rparr>],
      t_group_seq = 2, t_members = [(1, 1)], t_attempts = (\<lambda>_. None), t_keys = [], t_key_seq = 0\<rparr>"

lemma wf_sample_identity: "wf_identity sample_identity"
  by (simp add: sample_identity_def wf_identity_def wf_users_def wf_groups_def wf_members_def wf_attempts_def wf_keys_def)

end
