(* ===== verification/Auth_Service.thy ===== *)
theory Auth_Service
  imports Identity_Store
begin

text \<open>
  Logging in and registering (\<^verbatim>\<open>core/identity/auth_service.rs\<close>), accounts (\<^verbatim>\<open>user_service.rs\<close>) and
  groups (\<^verbatim>\<open>group_service.rs\<close>). \<open>up\<close> says which calls of the store are served, \<open>verify\<close> and \<open>hash\<close> are the
  password hasher (Argon2, a library), where \<open>None\<close> is an error. A service that fails returns its error with
  the tables as it leaves them. During one request the clock stands still at \<open>now\<close>.
\<close>

datatype db_call =
    FindUser | FindUserById | InsertUser | UpdatePassword | ResetPassword | DeleteUser | UpdateRole | ListUsers
  | ListGroups | CreateGroup | UpdateGroup | DeleteGroup | GetGroup | GroupsForUser | SetGroups | UserPermissions
  | MemberIds | Members int | RecordFailure | RemainingLock | ClearLock | ClearFailures | ValidateKey | InsertKey
  | ListKeys | DeleteKey

type_synonym faults = "db_call \<Rightarrow> bool"

section \<open>Logging in\<close>

record login_result =
  lr_user_id :: int
  lr_username :: string
  lr_role :: string
  lr_permissions :: "string list"
  lr_force_password_change :: bool

definition role_from_group_names :: "string list \<Rightarrow> string" where
  "role_from_group_names names = (if list_ex (\<lambda>name. name = GROUP_ADMIN) names then ROLE_ADMIN else ROLE_VIEWER)"

definition derive_role :: "bool \<Rightarrow> int \<Rightarrow> identity_db \<Rightarrow> (database_error, string) result" where
  "derive_role ok i db =
     and_then (list_groups_for_user ok i db) (\<lambda>gs. Inr (role_from_group_names (map gv_name gs)))"

definition note_login_failure :: "faults \<Rightarrow> u64 \<Rightarrow> string \<Rightarrow> identity_db \<Rightarrow> identity_db" where
  "note_login_failure up now username db =
     (case record_login_failure (up RecordFailure) now username db of Inr (_, db') \<Rightarrow> db' | Inl _ \<Rightarrow> db)"

definition login ::
  "faults \<Rightarrow> (string \<Rightarrow> json option) \<Rightarrow> (string \<Rightarrow> string \<Rightarrow> bool option) \<Rightarrow> u64 \<Rightarrow> string \<Rightarrow> string \<Rightarrow> identity_db
   \<Rightarrow> (login_error, login_result) result \<times> identity_db" where
  "login up pj verify now username raw_password db =
     (case get_remaining_lock_secs (up RemainingLock) now username db of
        Inr (Some remaining) \<Rightarrow> (Inl (Locked remaining), db)
      | Inl _ \<Rightarrow> (Inl LoginInternal, db)
      | Inr None \<Rightarrow>
          (case clear_expired_login_lock (up ClearLock) now username db of
             Inl _ \<Rightarrow> (Inl LoginInternal, db)
           | Inr db \<Rightarrow>
               (case find_user (up FindUser) username db of
                  Inr (Some user) \<Rightarrow>
                    if verify raw_password (uv_password_hash user) \<noteq> Some True
                      then (Inl InvalidCredentials, note_login_failure up now username db)
                    else
                      let db = (case clear_login_failures (up ClearFailures) username db of Inr db' \<Rightarrow> db' | Inl _ \<Rightarrow> db)
                      in (and_then (map_err (\<lambda>_. LoginInternal) (list_user_permissions (up UserPermissions) pj (uv_id user) db)) (\<lambda>ps.
                          and_then (map_err (\<lambda>_. LoginInternal) (derive_role (up GroupsForUser) (uv_id user) db)) (\<lambda>role.
                          Inr \<lparr>lr_user_id = uv_id user, lr_username = uv_username user, lr_role = role,
                               lr_permissions = (if uv_force_password_change user then [] else ps),
                               lr_force_password_change = uv_force_password_change user\<rparr>)), db)
                | _ \<Rightarrow> (Inl InvalidCredentials, note_login_failure up now username db))))"

section \<open>Registering\<close>

definition default_group_id :: "bool \<Rightarrow> string \<Rightarrow> identity_db \<Rightarrow> (register_error, int) result" where
  "default_group_id ok group_name db =
     and_then (map_err (\<lambda>e. RegisterInternal (FromStore e)) (list_user_groups ok db)) (\<lambda>gs.
     ok_or (map_option gv_id (find (\<lambda>g. gv_name g = group_name) gs))
       (RegisterInternal (Message (''Default group '' @ [CHR 0x27] @ group_name @ [CHR 0x27] @ '' is missing''))))"

text \<open>The checks and the insertion of the account; then the assignment of its group, which is undone when it fails.\<close>

definition insert_checked_user ::
  "faults \<Rightarrow> (string \<Rightarrow> string option) \<Rightarrow> string \<Rightarrow> string \<Rightarrow> string \<Rightarrow> string \<Rightarrow> string \<Rightarrow> identity_db
   \<Rightarrow> (register_error, int \<times> int \<times> identity_db) result" where
  "insert_checked_user up hash stamp username raw_password role caller_role db =
     and_then (map_err RegisterValidation (validate_username username)) (\<lambda>_.
     and_then (map_err RegisterValidation (validate_password raw_password)) (\<lambda>_.
     if role \<noteq> ROLE_ADMIN \<and> role \<noteq> ROLE_VIEWER then Inl InvalidRole
     else if role = ROLE_ADMIN \<and> caller_role \<noteq> ROLE_ADMIN then Inl RegisterForbidden
     else
       let default_group = (if role = ROLE_ADMIN then GROUP_ADMIN else GROUP_VIEWER)
       in and_then (default_group_id (up ListGroups) default_group db) (\<lambda>gid.
          and_then (ok_or (hash raw_password) RegisterHashFailed) (\<lambda>h.
          and_then (map_err (\<lambda>e. RegisterConflict (FromStore e))
                      (insert_user (up InsertUser) stamp username h role False db)) (\<lambda>(new_id, db1). Inr (gid, new_id, db1))))))"

definition register ::
  "faults \<Rightarrow> (string \<Rightarrow> string option) \<Rightarrow> string \<Rightarrow> string \<Rightarrow> string \<Rightarrow> string \<Rightarrow> string \<Rightarrow> identity_db
   \<Rightarrow> (register_error, int) result \<times> identity_db" where
  "register up hash stamp username raw_password role caller_role db =
     (case insert_checked_user up hash stamp username raw_password role caller_role db of
        Inl e \<Rightarrow> (Inl e, db)
      | Inr (gid, new_id, db1) \<Rightarrow>
          (case set_user_groups (up SetGroups) new_id [gid] db1 of
             Inr db2 \<Rightarrow> (Inr new_id, db2)
           | Inl e \<Rightarrow>
               (Inl (RegisterInternal (FromStore e)),
                case delete_user (up DeleteUser) new_id db1 of Inr (_, db2) \<Rightarrow> db2 | Inl _ \<Rightarrow> db1)))"

section \<open>Accounts\<close>

record user_profile =
  up_id :: int
  up_username :: string
  up_role :: string
  up_permissions :: "string list"
  up_groups :: "string list"

record user_list_response =
  ul_id :: int
  ul_username :: string
  ul_role :: string
  ul_force_password_change :: bool
  ul_created_at :: string
  ul_groups :: "(int \<times> string) list"

definition svc_user_profile ::
  "faults \<Rightarrow> (string \<Rightarrow> json option) \<Rightarrow> int \<Rightarrow> string \<Rightarrow> identity_db \<Rightarrow> (database_error, user_profile) result" where
  "svc_user_profile up pj i username db =
     and_then (list_groups_for_user (up GroupsForUser) i db) (\<lambda>gs.
     and_then (list_user_permissions (up UserPermissions) pj i db) (\<lambda>ps.
     Inr \<lparr>up_id = i, up_username = username, up_role = role_from_group_names (map gv_name gs), up_permissions = ps,
          up_groups = map gv_name gs\<rparr>))"

definition svc_list_users :: "faults \<Rightarrow> identity_db \<Rightarrow> (database_error, user_list_response list) result" where
  "svc_list_users up db =
     and_then (list_users_with_groups (up ListUsers) db) (\<lambda>us.
     Inr (map (\<lambda>u. \<lparr>ul_id = ug_id u, ul_username = ug_username u,
                    ul_role = role_from_group_names (map gm_group_name (ug_groups u)),
                    ul_force_password_change = ug_force_password_change u, ul_created_at = ug_created_at u,
                    ul_groups = map (\<lambda>g. (gm_group_id g, gm_group_name g)) (ug_groups u)\<rparr>) us))"

text \<open>\<^verbatim>\<open>find_user_by_id\<close> with its two refusals, as the services write it.\<close>

definition existing_user :: "faults \<Rightarrow> int \<Rightarrow> identity_db \<Rightarrow> (user_error, user_view) result" where
  "existing_user up i db =
     and_then (map_err (\<lambda>e. UserInternal (FromStore e)) (find_user_by_id (up FindUserById) i db)) (\<lambda>u.
     ok_or u (UserMissing ''User not found''))"

definition svc_change_password ::
  "faults \<Rightarrow> (string \<Rightarrow> string \<Rightarrow> bool option) \<Rightarrow> (string \<Rightarrow> string option) \<Rightarrow> int \<Rightarrow> string \<Rightarrow> string \<Rightarrow> identity_db
   \<Rightarrow> (user_error, identity_db) result" where
  "svc_change_password up verify hash i current_password new_password db =
     and_then (map_err UserValidation (validate_password new_password)) (\<lambda>_.
     and_then (existing_user up i db) (\<lambda>user.
     if verify current_password (uv_password_hash user) \<noteq> Some True then Inl Unauthorized
     else
       and_then (ok_or (hash new_password) UserHashFailed) (\<lambda>h.
       map_err (\<lambda>e. UserInternal (FromStore e)) (update_user_password (up UpdatePassword) i h db))))"

definition svc_delete_user :: "faults \<Rightarrow> int \<Rightarrow> int \<Rightarrow> identity_db \<Rightarrow> (user_error, bool \<times> identity_db) result" where
  "svc_delete_user up caller target db =
     (if caller = target then Inl (UserValidation ''Cannot delete your own account'')
      else
        and_then (map_err (\<lambda>e. UserInternal (FromStore e)) (find_user_by_id (up FindUserById) target db)) (\<lambda>u.
        if (case u of Some user \<Rightarrow> uv_username user = DEFAULT_ADMIN_USERNAME | None \<Rightarrow> False)
          then Inl (UserForbidden ''Cannot delete the built-in admin account'')
        else map_err (\<lambda>e. UserInternal (FromStore e)) (delete_user (up DeleteUser) target db)))"

definition svc_update_role :: "faults \<Rightarrow> int \<Rightarrow> int \<Rightarrow> string \<Rightarrow> identity_db \<Rightarrow> (user_error, identity_db) result" where
  "svc_update_role up caller target role db =
     (if caller = target then Inl (UserValidation ''Cannot change your own role'')
      else if role \<noteq> ROLE_ADMIN \<and> role \<noteq> ROLE_VIEWER then Inl (UserValidation (''Role must be '' @ [CHR 0x27] @ ''admin'' @ [CHR 0x27] @ '' or '' @ [CHR 0x27] @ ''viewer'' @ [CHR 0x27]))
      else
        and_then (existing_user up target db) (\<lambda>user.
        if uv_username user = DEFAULT_ADMIN_USERNAME then Inl (UserForbidden ''Cannot change the built-in admin account role'')
        else map_err (\<lambda>e. UserInternal (FromStore e)) (update_user_role (up UpdateRole) target role db)))"

definition svc_reset_password ::
  "faults \<Rightarrow> (string \<Rightarrow> string option) \<Rightarrow> int \<Rightarrow> string \<Rightarrow> identity_db \<Rightarrow> (user_error, identity_db) result" where
  "svc_reset_password up hash target new_password db =
     and_then (map_err UserValidation (validate_password new_password)) (\<lambda>_.
     and_then (existing_user up target db) (\<lambda>_.
     and_then (ok_or (hash new_password) UserHashFailed) (\<lambda>h.
     map_err (\<lambda>e. UserInternal (FromStore e)) (reset_user_password (up ResetPassword) target h db))))"

definition svc_set_user_groups :: "faults \<Rightarrow> int \<Rightarrow> int \<Rightarrow> int list \<Rightarrow> identity_db \<Rightarrow> (user_error, identity_db) result" where
  "svc_set_user_groups up caller target gids db =
     (if caller = target then Inl (UserValidation ''Cannot modify your own groups'')
      else
        and_then (existing_user up target db) (\<lambda>user.
        if uv_username user = DEFAULT_ADMIN_USERNAME
          then Inl (UserForbidden ''Cannot modify groups for the built-in admin account'')
        else map_err (\<lambda>e. UserInternal (FromStore e)) (set_user_groups (up SetGroups) target gids db)))"

section \<open>Groups\<close>

record group_list_response =
  gl_id :: int
  gl_name :: string
  gl_description :: string
  gl_permissions :: json
  gl_created_at :: string
  gl_members :: "(int \<times> string) list"

record group_detail_response =
  gd_id :: int
  gd_name :: string
  gd_description :: string
  gd_permissions :: json
  gd_created_at :: string
  gd_members :: "int list"

record group_mutation_response =
  gr_id :: int
  gr_name :: string
  gr_description :: string
  gr_permissions :: json

definition parse_permissions :: "(string \<Rightarrow> json option) \<Rightarrow> string \<Rightarrow> (cause, json) result" where
  "parse_permissions pj raw = ok_or (pj raw) DeserializeFailed"

definition is_builtin_group :: "string \<Rightarrow> bool" where
  "is_builtin_group name \<longleftrightarrow> name = GROUP_ADMIN \<or> name = GROUP_VIEWER"

definition group_member_response :: "group_member_view \<Rightarrow> int \<times> string" where
  "group_member_response m = (mv_id m, mv_username m)"

definition group_detail_response_of :: "user_group_view \<Rightarrow> json \<Rightarrow> int list \<Rightarrow> group_detail_response" where
  "group_detail_response_of g ps members =
     \<lparr>gd_id = gv_id g, gd_name = gv_name g, gd_description = gv_description g, gd_permissions = ps,
      gd_created_at = gv_created_at g, gd_members = members\<rparr>"

text \<open>The stored text of the permissions and their JSON value: given ones are written anew, absent ones keep the default.\<close>

definition permission_array_json ::
  "(string \<Rightarrow> json option) \<Rightarrow> (json \<Rightarrow> string) \<Rightarrow> json option \<Rightarrow> string \<Rightarrow> (group_error, string \<times> json) result" where
  "permission_array_json pj sj permissions dflt =
     (case permissions of
        Some v \<Rightarrow>
          and_then (ok_or (string_array v) (GroupValidation ''Permissions must be an array of strings'')) (\<lambda>ps.
          let j = JArray (map JString ps) in Inr (sj j, j))
      | None \<Rightarrow> and_then (map_err GroupInternal (parse_permissions pj dflt)) (\<lambda>j. Inr (dflt, j)))"

fun svc_list_groups_loop ::
  "faults \<Rightarrow> (string \<Rightarrow> json option) \<Rightarrow> identity_db \<Rightarrow> user_group_view list \<Rightarrow> (cause, group_list_response list) result" where
  "svc_list_groups_loop up pj db [] = Inr []"
| "svc_list_groups_loop up pj db (g # gs) =
     and_then (parse_permissions pj (gv_permissions g)) (\<lambda>ps.
     and_then (map_err FromStore (list_group_members (up (Members (gv_id g))) (gv_id g) db)) (\<lambda>ms.
     and_then (svc_list_groups_loop up pj db gs) (\<lambda>rest.
     Inr (\<lparr>gl_id = gv_id g, gl_name = gv_name g, gl_description = gv_description g, gl_permissions = ps,
           gl_created_at = gv_created_at g, gl_members = map group_member_response ms\<rparr> # rest))))"

definition svc_list_groups ::
  "faults \<Rightarrow> (string \<Rightarrow> json option) \<Rightarrow> identity_db \<Rightarrow> (cause, group_list_response list) result" where
  "svc_list_groups up pj db =
     and_then (map_err FromStore (list_user_groups (up ListGroups) db)) (\<lambda>gs. svc_list_groups_loop up pj db gs)"

definition svc_create_group ::
  "faults \<Rightarrow> (string \<Rightarrow> json option) \<Rightarrow> (json \<Rightarrow> string) \<Rightarrow> string \<Rightarrow> string option \<Rightarrow> string option \<Rightarrow> json option \<Rightarrow> identity_db
   \<Rightarrow> (group_error, group_mutation_response \<times> identity_db) result" where
  "svc_create_group up pj sj stamp name description permissions db =
     (case name of
        None \<Rightarrow> Inl (GroupValidation ''Group name is required'')
      | Some name \<Rightarrow>
          if name = [] then Inl (GroupValidation ''Group name is required'')
          else
            let description = (case description of Some d \<Rightarrow> d | None \<Rightarrow> [])
            in and_then (permission_array_json pj sj permissions ''[]'') (\<lambda>(ps, j).
               and_then (map_err (\<lambda>e. GroupConflict (FromStore e))
                           (create_user_group (up CreateGroup) stamp name description ps db)) (\<lambda>(i, db).
               Inr (\<lparr>gr_id = i, gr_name = name, gr_description = description, gr_permissions = j\<rparr>, db))))"

definition svc_get_group ::
  "faults \<Rightarrow> (string \<Rightarrow> json option) \<Rightarrow> int \<Rightarrow> identity_db \<Rightarrow> (cause, group_detail_response option) result" where
  "svc_get_group up pj gid db =
     and_then (map_err FromStore (get_user_group (up GetGroup) gid db)) (\<lambda>g.
     case g of
       None \<Rightarrow> Inr None
     | Some g \<Rightarrow>
         and_then (parse_permissions pj (gv_permissions g)) (\<lambda>ps.
         and_then (map_err FromStore (list_group_member_ids (up MemberIds) gid db)) (\<lambda>members.
         Inr (Some (group_detail_response_of g ps members)))))"

definition svc_update_group ::
  "faults \<Rightarrow> (string \<Rightarrow> json option) \<Rightarrow> (json \<Rightarrow> string) \<Rightarrow> int \<Rightarrow> string option \<Rightarrow> string option \<Rightarrow> json option \<Rightarrow> identity_db
   \<Rightarrow> (group_error, group_mutation_response \<times> identity_db) result" where
  "svc_update_group up pj sj gid name description permissions db =
     and_then (map_err (\<lambda>e. GroupInternal (FromStore e)) (get_user_group (up GetGroup) gid db)) (\<lambda>g.
     and_then (ok_or g (GroupMissing ''Group not found'')) (\<lambda>existing.
     if is_builtin_group (gv_name existing) then Inl (GroupForbidden ''Cannot modify built-in groups'')
     else
       let name = (case name of Some n \<Rightarrow> n | None \<Rightarrow> gv_name existing);
           description = (case description of Some d \<Rightarrow> d | None \<Rightarrow> gv_description existing)
       in and_then (permission_array_json pj sj permissions (gv_permissions existing)) (\<lambda>(ps, j).
          and_then (map_err (\<lambda>e. GroupInternal (FromStore e))
                      (update_user_group (up UpdateGroup) gid name description ps db)) (\<lambda>db.
          Inr (\<lparr>gr_id = gid, gr_name = name, gr_description = description, gr_permissions = j\<rparr>, db)))))"

definition svc_delete_group :: "faults \<Rightarrow> int \<Rightarrow> identity_db \<Rightarrow> (group_error, bool \<times> identity_db) result" where
  "svc_delete_group up gid db =
     and_then (map_err (\<lambda>e. GroupInternal (FromStore e)) (get_user_group (up GetGroup) gid db)) (\<lambda>g.
     if (case g of Some g \<Rightarrow> is_builtin_group (gv_name g) | None \<Rightarrow> False)
       then Inl (GroupForbidden ''Cannot delete built-in groups'')
     else map_err (\<lambda>e. GroupInternal (FromStore e)) (delete_user_group (up DeleteGroup) gid db))"

section \<open>The lockout\<close>

text \<open>The failures that count against a name, and the row a further failure leaves.\<close>

definition failures :: "identity_db \<Rightarrow> string \<Rightarrow> int" where
  "failures db name =
     (case t_attempts db name of
        Some a \<Rightarrow> (case la_locked_until a of None \<Rightarrow> la_failure_count a | Some _ \<Rightarrow> 0)
      | None \<Rightarrow> 0)"

definition failure_row :: "int \<Rightarrow> u64 \<Rightarrow> attempt_row" where
  "failure_row c now =
     \<lparr>la_failure_count = c + 1, la_locked_until = (if 5 \<le> c + 1 then Some (uint now + 900) else None)\<rparr>"

definition locked_at :: "u64 \<Rightarrow> identity_db \<Rightarrow> string \<Rightarrow> bool" where
  "locked_at now db name \<longleftrightarrow>
     (case t_attempts db name of
        Some a \<Rightarrow> (case la_locked_until a of Some t \<Rightarrow> uint now < t | None \<Rightarrow> False)
      | None \<Rightarrow> False)"

text \<open>No clock of the machine comes near the range where deadlines no longer fit the column.\<close>

definition sane_clock :: "u64 \<Rightarrow> bool" where
  "sane_clock now \<longleftrightarrow> uint now + 900 < 2 ^ 63"

lemma wf_attempt_of: "wf_identity db \<Longrightarrow> t_attempts db name = Some a \<Longrightarrow> wf_attempt a"
  by (auto simp: wf_identity_def wf_attempts_def)

lemma failures_range: "wf_identity db \<Longrightarrow> 0 \<le> failures db name \<and> failures db name < 5"
  using wf_attempt_of [of db name]
  by (auto simp: failures_def wf_attempt_def LOGIN_MAX_FAILURES_def split: option.splits)

lemma uint_deadline: "sane_clock now \<Longrightarrow> uint (saturating_add now LOGIN_LOCKOUT_SECS) = uint now + 900"
  by (simp add: sane_clock_def LOGIN_LOCKOUT_SECS_def uint_saturating_add)

lemma uint_next_failure:
  "0 \<le> c \<Longrightarrow> c < 5 \<Longrightarrow> uint (saturating_add (word_of_int c :: u32) 1) = c + 1"
  by (simp add: uint_saturating_add uint_word_of_int)

lemma record_failure_counts:
  assumes wf: "wf_identity db" and clock: "sane_clock now"
    and row: "t_attempts db name = None \<or> (\<exists>a. t_attempts db name = Some a \<and> la_locked_until a = None)"
  shows "\<exists>r. record_login_failure True now name db =
             Inr (r, db\<lparr>t_attempts := (t_attempts db)(name \<mapsto> failure_row (failures db name) now)\<rparr>)"
proof -
  let ?c = "failures db name" and ?w = "word_of_int (failures db name) :: u32"
  note c = failures_range [OF wf, of name]
  have "(case t_attempts db name of Some a \<Rightarrow> decode_login_failure_count (la_failure_count a) | None \<Rightarrow> Inr 0) = Inr ?w"
    using row c by (auto simp: failures_def decode_login_failure_count_def)
  moreover have n: "uint (saturating_add ?w 1) = ?c + 1" using uint_next_failure c by blast
  moreover have "LOGIN_MAX_FAILURES \<le> saturating_add ?w 1 \<longleftrightarrow> 5 \<le> ?c + 1"
    unfolding word_le_def n by (simp add: LOGIN_MAX_FAILURES_def)
  moreover have "encode_login_locked_until (saturating_add now LOGIN_LOCKOUT_SECS) = Inr (uint now + 900)"
    using clock by (simp add: encode_login_locked_until_def uint_deadline) (simp add: sane_clock_def)
  ultimately show ?thesis
    by (simp add: record_login_failure_def failure_row_def Let_def)
qed

text \<open>What a lookup of the lock answers, and what clearing an expired lock leaves.\<close>

lemma decode_lock:
  assumes "wf_identity db" "t_attempts db name = Some a" "la_locked_until a = Some t"
  shows "decode_login_locked_until (Some t) = Inr (Some (word_of_int t))" "uint (word_of_int t :: u64) = t"
  using wf_attempt_of [OF assms(1,2)] assms(3)
  by (auto simp: wf_attempt_def decode_login_locked_until_def uint_word_of_int)

lemma remaining_lock_iff:
  assumes wf: "wf_identity db"
  shows "\<exists>r. get_remaining_lock_secs True now name db = Inr r \<and> (r \<noteq> None \<longleftrightarrow> locked_at now db name)"
proof (cases "t_attempts db name")
  case None
  then show ?thesis by (simp add: get_remaining_lock_secs_def locked_at_def)
next
  case (Some a)
  show ?thesis
  proof (cases "la_locked_until a")
    case None
    then show ?thesis using Some by (simp add: get_remaining_lock_secs_def decode_login_locked_until_def locked_at_def)
  next
    case lock: (Some t)
    from decode_lock [OF wf Some lock] show ?thesis
      using Some lock by (simp add: get_remaining_lock_secs_def locked_at_def word_less_def)
  qed
qed

lemma remaining_lock_secs:
  assumes wf: "wf_identity db" and a: "t_attempts db name = Some a" "la_locked_until a = Some t" and "uint now < t"
  shows "\<exists>r. get_remaining_lock_secs True now name db = Inr (Some r) \<and> uint r = t - uint now"
proof -
  note d = decode_lock [OF wf a]
  then have "now < word_of_int t" using assms(4) by (simp add: word_less_def)
  moreover have "uint (word_of_int t - now) = t - uint now"
    using assms(4) d(2) uint_sub_lem [of now "word_of_int t"] by simp
  ultimately show ?thesis using a d by (simp add: get_remaining_lock_secs_def)
qed

lemma sint_clock:
  assumes "sane_clock now"
  shows "sint now = uint now"
proof -
  have "- (2 ^ 63) \<le> (0 :: int)" by simp
  then have "- (2 ^ 63) \<le> uint now" using uint_ge_0 [of now] by (rule order_trans)
  moreover have "uint now < 2 ^ 63" using assms by (simp add: sane_clock_def)
  ultimately show ?thesis by (simp add: sint_uint signed_take_bit_int_eq_self)
qed

definition without_lock :: "identity_db \<Rightarrow> string \<Rightarrow> identity_db" where
  "without_lock db name =
     (case t_attempts db name of
        Some a \<Rightarrow> if la_locked_until a = None then db else db\<lparr>t_attempts := (t_attempts db)(name := None)\<rparr>
      | None \<Rightarrow> db)"

lemma clear_expired_lock:
  assumes "sane_clock now" "\<not> locked_at now db name"
  shows "clear_expired_login_lock True now name db = Inr (without_lock db name)"
  using assms by (auto simp: clear_expired_login_lock_def without_lock_def locked_at_def sint_clock split: option.splits)

lemma without_lock_simps [simp]:
  "t_users (without_lock db name) = t_users db" "t_groups (without_lock db name) = t_groups db"
  "t_members (without_lock db name) = t_members db" "failures (without_lock db name) name = failures db name"
  by (auto simp: without_lock_def failures_def split: option.splits)

lemma without_lock_row:
  "t_attempts (without_lock db name) name = None \<or> (\<exists>a. t_attempts (without_lock db name) name = Some a \<and> la_locked_until a = None)"
  by (auto simp: without_lock_def split: option.splits)

lemma wf_without_lock: "wf_identity db \<Longrightarrow> wf_identity (without_lock db name)"
  by (auto simp: without_lock_def wf_identity_def wf_attempts_def split: option.splits)

lemma update_without_lock:
  "(without_lock db name)\<lparr>t_attempts := (t_attempts (without_lock db name))(name \<mapsto> a)\<rparr> =
   db\<lparr>t_attempts := (t_attempts db)(name \<mapsto> a)\<rparr>"
  by (auto simp: without_lock_def split: option.splits)

text \<open>A wrong password, for an account that exists or not.\<close>

definition wrong_password :: "(string \<Rightarrow> string \<Rightarrow> bool option) \<Rightarrow> string \<Rightarrow> string \<Rightarrow> identity_db \<Rightarrow> bool" where
  "wrong_password verify name pw db \<longleftrightarrow>
     list_all (\<lambda>r. ur_username r = name \<longrightarrow> verify pw (ur_password_hash r) \<noteq> Some True) (t_users db)"

lemma login_locked:
  assumes "wf_identity db" "up RemainingLock" "locked_at now db name"
  shows "\<exists>r. login up pj verify now name pw db = (Inl (Locked r), db)"
  using remaining_lock_iff [OF assms(1), of now name] assms by (auto simp: login_def)

lemma note_failure_eq:
  assumes "wf_identity db" "sane_clock now" "up RecordFailure"
  shows "note_login_failure up now name (without_lock db name) =
         db\<lparr>t_attempts := (t_attempts db)(name \<mapsto> failure_row (failures db name) now)\<rparr>"
  using record_failure_counts [OF wf_without_lock [OF assms(1)] assms(2) without_lock_row, of name] assms(3)
  by (auto simp: note_login_failure_def update_without_lock)

lemma login_wrong:
  assumes wf: "wf_identity db" and up: "\<And>c. up c" and clock: "sane_clock now" and free: "\<not> locked_at now db name"
    and wrong: "wrong_password verify name pw db"
  shows "login up pj verify now name pw db =
         (Inl InvalidCredentials, db\<lparr>t_attempts := (t_attempts db)(name \<mapsto> failure_row (failures db name) now)\<rparr>)"
proof -
  have "verify pw (ur_password_hash r) \<noteq> Some True" if "find (\<lambda>r. ur_username r = name) (t_users db) = Some r" for r
    using that wrong by (auto simp: wrong_password_def find_Some_iff list_all_length)
  then show ?thesis
    using remaining_lock_iff [OF wf, of now name] free up
    by (auto simp: login_def clear_expired_lock [OF clock free] note_failure_eq [OF wf clock] find_user_def user_from_row_def
             split: option.splits)
qed

section \<open>Guessing a password\<close>

text \<open>A sequence of logins for one name, each at its own time with its own password.\<close>

fun login_run ::
  "faults \<Rightarrow> (string \<Rightarrow> json option) \<Rightarrow> (string \<Rightarrow> string \<Rightarrow> bool option) \<Rightarrow> string \<Rightarrow> (u64 \<times> string) list \<Rightarrow> identity_db
   \<Rightarrow> (login_error, login_result) result list" where
  "login_run up pj verify name [] db = []"
| "login_run up pj verify name ((now, pw) # rest) db =
     fst (login up pj verify now name pw db) # login_run up pj verify name rest (snd (login up pj verify now name pw db))"

text \<open>The guesses left before the end of a window of 900 seconds that starts at \<open>start\<close>.\<close>

definition guesses_left :: "int \<Rightarrow> identity_db \<Rightarrow> string \<Rightarrow> nat" where
  "guesses_left start db name =
     (case t_attempts db name of
        None \<Rightarrow> 5
      | Some a \<Rightarrow> (case la_locked_until a of
                     None \<Rightarrow> 5 - nat (la_failure_count a)
                   | Some t \<Rightarrow> if start + 900 \<le> t then 0 else 5))"

lemma guess_costs:
  assumes "wf_identity db" "\<not> locked_at now db name" "start \<le> uint now" "uint now < start + 900"
  shows "Suc (guesses_left start (db\<lparr>t_attempts := (t_attempts db)(name \<mapsto> failure_row (failures db name) now)\<rparr>) name)
         \<le> guesses_left start db name"
proof -
  note f = failures_range [OF assms(1), of name]
  have "guesses_left start db name = 5 - nat (failures db name)"
    using assms by (auto simp: guesses_left_def failures_def locked_at_def split: option.splits)
  moreover have "guesses_left start (db\<lparr>t_attempts := (t_attempts db)(name \<mapsto> failure_row (failures db name) now)\<rparr>) name
      = 5 - nat (failures db name + 1)"
    using f assms by (auto simp: guesses_left_def failure_row_def)
  ultimately show ?thesis using f by linarith
qed

lemma wrong_password_attempts [simp]:
  "wrong_password verify name pw (db\<lparr>t_attempts := f\<rparr>) = wrong_password verify name pw db"
  by (simp add: wrong_password_def)

lemma wf_failure_row:
  "wf_identity db \<Longrightarrow> sane_clock now \<Longrightarrow> wf_identity (db\<lparr>t_attempts := (t_attempts db)(name \<mapsto> failure_row (failures db name) now)\<rparr>)"
  using failures_range [of db name] uint_ge_0 [of now]
  by (auto simp: wf_identity_def wf_attempts_def wf_attempt_def failure_row_def LOGIN_MAX_FAILURES_def sane_clock_def)

lemma guesses_bounded:
  assumes "wf_identity db" "\<And>c. up c"
    and "\<forall>(now, pw)\<in>set as. sane_clock now \<and> start \<le> uint now \<and> uint now < start + 900 \<and> wrong_password verify name pw db"
  shows "length (filter (\<lambda>r. r = Inl InvalidCredentials) (login_run up pj verify name as db)) \<le> guesses_left start db name"
  using assms
proof (induction as arbitrary: db)
  case (Cons a as)
  obtain now pw where a: "a = (now, pw)" by force
  have now: "sane_clock now" "start \<le> uint now" "uint now < start + 900" "wrong_password verify name pw db"
    using Cons.prems(3) a by auto
  show ?case
  proof (cases "locked_at now db name")
    case True
    obtain r where "login up pj verify now name pw db = (Inl (Locked r), db)"
      using login_locked [where up = up and db = db, OF Cons.prems(1,2) True] by blast
    then show ?thesis using Cons.IH [OF Cons.prems(1,2)] Cons.prems(3) a by simp
  next
    case False
    let ?db = "db\<lparr>t_attempts := (t_attempts db)(name \<mapsto> failure_row (failures db name) now)\<rparr>"
    have "length (filter (\<lambda>r. r = Inl InvalidCredentials) (login_run up pj verify name as ?db)) \<le> guesses_left start ?db name"
      using Cons.prems(3) by (intro Cons.IH wf_failure_row Cons.prems(1,2) now(1)) auto
    then show ?thesis
      using guess_costs [OF Cons.prems(1) False now(2,3)] login_wrong [OF Cons.prems(1,2) now(1) False now(4)] a by simp
  qed
qed simp

text \<open>
  C19. Guessing a password: in a window of 900 seconds, whatever the number of logins with wrong passwords for
  one name, and whatever failures the tables already hold, at most five of them have their password
  checked; the others are answered that the account is locked.
\<close>

theorem password_guesses_are_limited:
  assumes "wf_identity db" "\<And>c. up c"
    and "\<forall>(now, pw)\<in>set as. sane_clock now \<and> start \<le> uint now \<and> uint now < start + 900 \<and> wrong_password verify name pw db"
  shows "length (filter (\<lambda>r. r = Inl InvalidCredentials) (login_run up pj verify name as db)) \<le> 5"
proof -
  have "guesses_left start db name \<le> 5" by (simp add: guesses_left_def split: option.splits)
  then show ?thesis using guesses_bounded [OF assms, where pj = pj] by (rule le_trans [rotated])
qed

theorem password_guesses_are_limited_witness:
  "length (filter (\<lambda>r. r = Inl InvalidCredentials)
     (login_run (\<lambda>_. True) (\<lambda>_. None) (\<lambda>p h. Some (p = h)) ''admin''
        [(1000, ''a''), (1001, ''b''), (1002, ''c''), (1003, ''d''), (1004, ''e''), (1500, ''f'')] sample_identity)) \<le> 5"
  by (rule password_guesses_are_limited [where start = 1000, OF wf_sample_identity])
     (simp_all add: sane_clock_def wrong_password_def sample_identity_def)

end
