(* ===== verification/Account_Rules.thy ===== *)
theory Account_Rules
  imports Auth_Service
begin

text \<open>
  What the services promise of accounts: a registration is complete or leaves nothing behind, a registered
  account can log in with the rights of its role, and no operation of the services takes the rights of the
  built-in administrator away.
\<close>

lemma filter_distinct_key: "distinct (map f xs) \<Longrightarrow> x \<in> set xs \<Longrightarrow> filter (\<lambda>y. f y = f x) xs = [x]"
proof (induction xs)
  case (Cons y ys)
  have "f z \<noteq> f x" if "f y = f x" "z \<in> set ys" for z
    using that Cons.prems(1) by (metis distinct.simps(2) image_eqI list.set_map list.simps(9))
  then have "filter (\<lambda>z. f z = f x) ys = []" if "f y = f x"
    using that by (auto simp: filter_empty_conv)
  then show ?case using Cons by (cases "x = y") (auto simp: rev_image_eqI)
qed simp

lemma find_filter: "find P xs = (case filter P xs of [] \<Rightarrow> None | x # _ \<Rightarrow> Some x)"
  by (induction xs) auto

lemma find_distinct_key: "distinct (map f xs) \<Longrightarrow> x \<in> set xs \<Longrightarrow> find (\<lambda>y. f y = f x) xs = Some x"
  by (simp add: find_filter filter_distinct_key)

section \<open>Registration\<close>

lemma insert_user_Inr_iff:
  "insert_user ok stamp name h role f db = Inr (i, db') \<longleftrightarrow>
     ok \<and> \<not> list_ex (\<lambda>r. ur_username r = name) (t_users db) \<and> i = t_user_seq db + 1
     \<and> db' = db\<lparr>t_users := t_users db @ [\<lparr>ur_id = i, ur_username = name, ur_password_hash = h, ur_role = role,
                                          ur_force_password_change = f, ur_created_at = stamp\<rparr>], t_user_seq := i\<rparr>"
  by (auto simp: insert_user_def Let_def)

lemma fresh_user_id:
  assumes "wf_identity db"
  shows "\<not> user_exists (t_user_seq db + 1) db" "(t_user_seq db + 1, g) \<notin> set (t_members db)"
proof -
  show n: "\<not> user_exists (t_user_seq db + 1) db"
    using assms by (auto simp: wf_identity_def wf_users_def user_exists_iff)
  then show "(t_user_seq db + 1, g) \<notin> set (t_members db)"
    using assms by (force simp: wf_identity_def wf_members_def user_exists_iff)
qed

lemma no_membership_of_fresh_user:
  "wf_identity db \<Longrightarrow> filter (\<lambda>m. fst m \<noteq> t_user_seq db + 1) (t_members db) = t_members db"
  using fresh_user_id(2) [of db] by (intro filter_True) force

lemma no_row_of_fresh_user:
  "wf_identity db \<Longrightarrow> filter (\<lambda>r. ur_id r \<noteq> t_user_seq db + 1) (t_users db) = t_users db"
  using fresh_user_id(1) [of db] by (intro filter_True) (force simp: user_exists_iff)

text \<open>The checks of a registration, and the account and membership it writes.\<close>

definition default_group :: "string \<Rightarrow> string" where
  "default_group role = (if role = ROLE_ADMIN then GROUP_ADMIN else GROUP_VIEWER)"

definition new_account :: "string \<Rightarrow> string \<Rightarrow> string \<Rightarrow> string \<Rightarrow> identity_db \<Rightarrow> identity_db" where
  "new_account stamp name h role db =
     db\<lparr>t_users := t_users db @ [\<lparr>ur_id = t_user_seq db + 1, ur_username = name, ur_password_hash = h, ur_role = role,
                                  ur_force_password_change = False, ur_created_at = stamp\<rparr>],
        t_user_seq := t_user_seq db + 1\<rparr>"

lemma default_group_id_Inr_iff:
  "default_group_id ok n db = Inr i \<longleftrightarrow> ok \<and> (\<exists>g. find (\<lambda>g. gv_name g = n) (t_groups db) = Some g \<and> i = gv_id g)"
  by (auto simp: default_group_id_def list_user_groups_def result_iffs)

lemma set_single_group:
  assumes wf: "wf_identity db" and g: "g \<in> set (t_groups db)"
  shows "set_user_groups True (t_user_seq db + 1) [gv_id g] (new_account stamp name h role db) =
         Inr ((new_account stamp name h role db)\<lparr>t_members := t_members db @ [(t_user_seq db + 1, gv_id g)]\<rparr>)"
  using g no_membership_of_fresh_user [OF wf] fresh_user_id(2) [OF wf]
  by (auto simp: set_user_groups_def new_account_def drop_memberships_def insert_membership_def user_exists_def
                 group_exists_iff list_ex_iff)

lemma map_err_Inr_iff: "map_err f r = Inr x \<longleftrightarrow> r = Inr x"
  by (cases r) auto

lemma insert_checked_user_Inr:
  assumes "insert_checked_user up hash stamp name pw role caller db = Inr (gid, i, db1)"
  shows "\<exists>g h. find (\<lambda>g. gv_name g = default_group role) (t_groups db) = Some g \<and> gid = gv_id g \<and> hash pw = Some h
           \<and> i = t_user_seq db + 1 \<and> db1 = new_account stamp name h role db"
    and "role = ROLE_ADMIN \<or> role = ROLE_VIEWER" "\<not> list_ex (\<lambda>r. ur_username r = name) (t_users db)"
    and "role = ROLE_ADMIN \<Longrightarrow> caller = ROLE_ADMIN"
  using assms
  by (auto simp: insert_checked_user_def Let_def result_iffs map_err_Inr_iff default_group_id_Inr_iff insert_user_Inr_iff
                 default_group_def new_account_def
           split: if_split_asm)

text \<open>The two outcomes of a registration on consistent tables.\<close>

lemma register_cases:
  assumes wf: "wf_identity db" and r: "register up hash stamp name pw role caller db = (r, db')"
  obtains (refused) e where "r = Inl e" "db' = db"
  | (undone) e h where "r = Inl e" "\<not> up SetGroups"
      "db' = (case delete_user (up DeleteUser) (t_user_seq db + 1) (new_account stamp name h role db) of
                Inr (_, db2) \<Rightarrow> db2 | Inl _ \<Rightarrow> new_account stamp name h role db)"
  | (registered) g h where "r = Inr (t_user_seq db + 1)"
      "g \<in> set (t_groups db)" "gv_name g = default_group role" "hash pw = Some h"
      "db' = (new_account stamp name h role db)\<lparr>t_members := t_members db @ [(t_user_seq db + 1, gv_id g)]\<rparr>"
      "role = ROLE_ADMIN \<or> role = ROLE_VIEWER" "\<not> list_ex (\<lambda>r. ur_username r = name) (t_users db)"
      "role = ROLE_ADMIN \<longrightarrow> caller = ROLE_ADMIN"
proof (cases "insert_checked_user up hash stamp name pw role caller db")
  case (Inl e)
  then show ?thesis using r refused by (auto simp: register_def)
next
  case (Inr x)
  obtain gid i db1 where x: "x = (gid, i, db1)" by (cases x)
  note ic = insert_checked_user_Inr [OF Inr [unfolded x]]
  obtain g h where g: "g \<in> set (t_groups db)" "gv_name g = default_group role" "gid = gv_id g" "hash pw = Some h"
    "i = t_user_seq db + 1" "db1 = new_account stamp name h role db"
    using ic(1) by (auto dest: find_mem)
  show ?thesis
  proof (cases "up SetGroups")
    case True
    then show ?thesis
      using r Inr x g ic(2-4) set_single_group [OF wf g(1), of stamp name h role]
      by (intro registered [of g h]) (auto simp: register_def)
  next
    case False
    then show ?thesis using r Inr x g by (intro undone [of "RegisterInternal (FromStore QueryFailed)" h]) (auto simp: register_def set_user_groups_def)
  qed
qed

text \<open>
  A registration that fails, in the checks, at the hasher, at the insertion or at the assignment of the
  group, leaves the accounts and the memberships as they were, as long as the database serves the
  deletion that undoes it.
\<close>

theorem failed_registration_leaves_no_account:
  assumes "wf_identity db" "register up hash stamp name pw role caller db = (Inl e, db')" "up DeleteUser"
  shows "t_users db' = t_users db \<and> t_members db' = t_members db"
  using assms(1,2)
proof (cases rule: register_cases)
  case (undone e h)
  then show ?thesis
    using assms(3) no_row_of_fresh_user [OF assms(1)] no_membership_of_fresh_user [OF assms(1)]
    by (simp add: delete_user_def new_account_def drop_memberships_def Let_def)
qed simp_all

text \<open>A registration whose group assignment is not served.\<close>

lemma sample_registration:
  "up ListGroups \<Longrightarrow> up InsertUser \<Longrightarrow>
   insert_checked_user up Some [] ''bob'' ''Passw0rd!'' ''viewer'' ''admin'' sample_identity =
   Inr (2, 2, new_account [] ''bob'' ''Passw0rd!'' ''viewer'' sample_identity)"
  by (simp add: insert_checked_user_def validate_username_def validate_password_def is_ascii_alphanumeric_def
                is_ascii_alphabetic_def is_ascii_digit_def default_group_id_def list_user_groups_def insert_user_def
                role_consts new_account_def sample_identity_def)

theorem failed_registration_leaves_no_account_witness:
  "\<exists>e db'. register (\<lambda>c. c \<noteq> SetGroups) Some [] ''bob'' ''Passw0rd!'' ''viewer'' ''admin'' sample_identity = (Inl e, db')
     \<and> t_users db' = t_users sample_identity \<and> t_members db' = t_members sample_identity"
proof -
  obtain e db' where r: "register (\<lambda>c. c \<noteq> SetGroups) Some [] ''bob'' ''Passw0rd!'' ''viewer'' ''admin'' sample_identity = (Inl e, db')"
    using sample_registration [of "\<lambda>c. c \<noteq> SetGroups"] by (simp add: register_def set_user_groups_def)
  have "t_users db' = t_users sample_identity \<and> t_members db' = t_members sample_identity"
    by (rule failed_registration_leaves_no_account [OF wf_sample_identity r]) simp
  with r show ?thesis by blast
qed

section \<open>The rights of an account\<close>

lemma role_of_default_group:
  "role = ROLE_ADMIN \<or> role = ROLE_VIEWER \<Longrightarrow> role_from_group_names [default_group role] = role"
  by (auto simp: role_from_group_names_def default_group_def role_consts)

lemma groups_of_new_account:
  assumes wf: "wf_identity db" and g: "g \<in> set (t_groups db)"
  shows "groups_of (t_user_seq db + 1)
           ((new_account stamp name h role db)\<lparr>t_members := t_members db @ [(t_user_seq db + 1, gv_id g)]\<rparr>) = [g]"
proof -
  have "distinct (map gv_id (t_groups db))" using wf by (simp add: wf_identity_def wf_groups_def)
  then have "filter (\<lambda>g'. gv_id g' = gv_id g) (t_groups db) = [g]"
    using g by (rule filter_distinct_key)
  then show ?thesis using fresh_user_id(2) [OF wf] by (simp add: groups_of_def new_account_def)
qed

lemma find_appended: "\<not> list_ex P xs \<Longrightarrow> P y \<Longrightarrow> find P (xs @ [y]) = Some y"
  by (induction xs) auto

lemma login_right_password:
  assumes wf: "wf_identity db" and up: "\<And>c. up c" and clock: "sane_clock now" and free: "\<not> locked_at now db name"
    and user: "find (\<lambda>r. ur_username r = name) (t_users db) = Some r" and pw: "verify pw (ur_password_hash r) = Some True"
    and ps: "collect_permissions pj (groups_of (ur_id r) db) = Inr ps"
  shows "fst (login up pj verify now name pw db) =
         Inr \<lparr>lr_user_id = ur_id r, lr_username = ur_username r,
              lr_role = role_from_group_names (map gv_name (groups_of (ur_id r) db)),
              lr_permissions = (if ur_force_password_change r then [] else sort (remdups ps)),
              lr_force_password_change = ur_force_password_change r\<rparr>"
proof -
  have "get_remaining_lock_secs True now name db = Inr None"
    using remaining_lock_iff [OF wf, of now name] free by auto
  moreover have "groups_of i ((without_lock db name)\<lparr>t_attempts := f\<rparr>) = groups_of i db" for i f
    by (simp add: groups_of_def)
  ultimately show ?thesis
    using up user pw ps
    by (simp add: login_def clear_expired_lock [OF clock free] find_user_def user_from_row_def clear_login_failures_def
                  list_user_permissions_def list_groups_for_user_def derive_role_def Let_def)
qed

text \<open>
  Registering, then logging in: after a successful registration, the account logs in with its password,
  has the requested role, and holds the permissions of that role's group and no others. \<open>hasher\<close> is the
  contract of the password hasher: it verifies what it hashed. The role \<^verbatim>\<open>admin\<close> is granted only to
  a caller who has it.
\<close>

theorem registered_account_can_log_in:
  assumes wf: "wf_identity db"
    and reg: "register up hash stamp name pw role caller db = (Inr i, db')"
    and hasher: "\<And>p h. hash p = Some h \<Longrightarrow> verify p h = Some True"
    and up: "\<And>c. up' c" and clock: "sane_clock now" and free: "\<not> locked_at now db name"
    and readable: "\<forall>g\<in>set (t_groups db). parse_string_array pj (gv_permissions g) = Some (perms g)"
  shows "(role = ROLE_ADMIN \<longrightarrow> caller = ROLE_ADMIN)
         \<and> (\<exists>g\<in>set (t_groups db). gv_name g = (if role = ROLE_ADMIN then GROUP_ADMIN else GROUP_VIEWER)
              \<and> fst (login up' pj verify now name pw db') =
                Inr \<lparr>lr_user_id = i, lr_username = name, lr_role = role, lr_permissions = sort (remdups (perms g)),
                     lr_force_password_change = False\<rparr>)"
  using wf reg
proof (cases rule: register_cases)
  case (registered g h)
  have wf': "wf_identity db'"
  proof -
    have "wf_identity (new_account stamp name h role db)"
      by (rule wf_insert_user [OF wf, of True stamp name h role False "t_user_seq db + 1"])
         (use registered(7) in \<open>simp add: insert_user_Inr_iff new_account_def\<close>)
    then show ?thesis
      using set_single_group [OF wf registered(2), of stamp name h role] registered(5) by (auto intro: wf_set_groups)
  qed
  have gs: "groups_of i db' = [g]"
    using groups_of_new_account [OF wf registered(2)] registered(1,5) by simp
  have "fst (login up' pj verify now name pw db') =
        Inr \<lparr>lr_user_id = i, lr_username = name, lr_role = role_from_group_names [gv_name g],
             lr_permissions = sort (remdups (perms g)), lr_force_password_change = False\<rparr>"
    using login_right_password [OF wf' up clock, where name = name and verify = verify and pw = pw and pj = pj
        and ps = "perms g" and r = "\<lparr>ur_id = i, ur_username = name, ur_password_hash = h, ur_role = role,
                               ur_force_password_change = False, ur_created_at = stamp\<rparr>"]
      registered free hasher [OF registered(4)] gs readable find_appended [OF registered(7)]
    by (simp add: new_account_def locked_at_def)
  then show ?thesis
    using registered(2,3,6,8) role_of_default_group by (auto simp: default_group_def)
qed simp_all

theorem registered_account_can_log_in_witness:
  "\<exists>db' g. register (\<lambda>_. True) Some [] ''bob'' ''Passw0rd!'' ''viewer'' ''admin'' sample_identity = (Inr 2, db')
     \<and> g \<in> set (t_groups sample_identity) \<and> gv_name g = ''Viewer''
     \<and> fst (login (\<lambda>_. True) (\<lambda>s. Some (JArray [JString s])) (\<lambda>p h. Some (p = h)) 1000 ''bob'' ''Passw0rd!'' db') =
       Inr \<lparr>lr_user_id = 2, lr_username = ''bob'', lr_role = ''viewer'', lr_permissions = [gv_permissions g],
            lr_force_password_change = False\<rparr>"
proof -
  have "set_user_groups True 2 [2] (new_account [] ''bob'' ''Passw0rd!'' ''viewer'' sample_identity) =
        Inr ((new_account [] ''bob'' ''Passw0rd!'' ''viewer'' sample_identity)\<lparr>t_members := [(1, 1), (2, 2)]\<rparr>)"
    by (simp add: set_user_groups_def insert_membership_def user_exists_def group_exists_def drop_memberships_def new_account_def
                  sample_identity_def)
  then obtain db' where r: "register (\<lambda>_. True) Some [] ''bob'' ''Passw0rd!'' ''viewer'' ''admin'' sample_identity = (Inr 2, db')"
    using sample_registration [of "\<lambda>_. True"] by (simp add: register_def)
  have "\<not> locked_at 1000 sample_identity ''bob''" by (simp add: locked_at_def sample_identity_def)
  from registered_account_can_log_in [OF wf_sample_identity r, where up' = "\<lambda>_. True" and verify = "\<lambda>p h. Some (p = h)"
      and now = 1000 and pj = "\<lambda>s. Some (JArray [JString s])" and perms = "\<lambda>g. [gv_permissions g]"] this r
  show ?thesis
    by (auto simp: sane_clock_def parse_string_array_def string_array_def as_json_str_def role_consts)
qed

section \<open>The built-in administrator\<close>

text \<open>Every operation of the services that writes, for any caller.\<close>

inductive service_step :: "identity_db \<Rightarrow> identity_db \<Rightarrow> bool" where
  login: "login up pj verify now name pw db = (r, db') \<Longrightarrow> service_step db db'"
| register: "register up hash stamp name pw role caller db = (r, db') \<Longrightarrow> service_step db db'"
| change_password: "svc_change_password up verify hash i pw pw' db = Inr db' \<Longrightarrow> service_step db db'"
| delete_user: "svc_delete_user up caller i db = Inr (b, db') \<Longrightarrow> service_step db db'"
| update_role: "svc_update_role up caller i role db = Inr db' \<Longrightarrow> service_step db db'"
| reset_password: "svc_reset_password up hash i pw db = Inr db' \<Longrightarrow> service_step db db'"
| set_groups: "svc_set_user_groups up caller i gids db = Inr db' \<Longrightarrow> service_step db db'"
| create_group: "svc_create_group up pj sj stamp name desc ps db = Inr (r, db') \<Longrightarrow> service_step db db'"
| update_group: "svc_update_group up pj sj gid name desc ps db = Inr (r, db') \<Longrightarrow> service_step db db'"
| delete_group: "svc_delete_group up gid db = Inr (b, db') \<Longrightarrow> service_step db db'"

text \<open>The built-in account exists and is in the group of administrators, whose permissions are \<open>ps\<close>.\<close>

definition admin_in_place :: "string \<Rightarrow> identity_db \<Rightarrow> bool" where
  "admin_in_place ps db \<longleftrightarrow>
     (\<exists>r\<in>set (t_users db). \<exists>g\<in>set (t_groups db).
        ur_username r = DEFAULT_ADMIN_USERNAME \<and> gv_name g = GROUP_ADMIN \<and> gv_permissions g = ps
        \<and> (ur_id r, gv_id g) \<in> set (t_members db))"

lemma admin_in_place_same:
  "t_users db' = t_users db \<Longrightarrow> t_groups db' = t_groups db \<Longrightarrow> t_members db' = t_members db \<Longrightarrow>
   admin_in_place ps db' = admin_in_place ps db"
  by (simp add: admin_in_place_def)

lemma admin_in_place_grows:
  "admin_in_place ps db \<Longrightarrow> set (t_users db) \<subseteq> set (t_users db') \<Longrightarrow> set (t_groups db) \<subseteq> set (t_groups db') \<Longrightarrow>
   set (t_members db) \<subseteq> set (t_members db') \<Longrightarrow> admin_in_place ps db'"
  unfolding admin_in_place_def by blast

lemma note_failure_tables:
  "t_users (note_login_failure up now name db) = t_users db \<and> t_groups (note_login_failure up now name db) = t_groups db
   \<and> t_members (note_login_failure up now name db) = t_members db"
  by (auto simp: note_login_failure_def split: sum.splits elim: record_login_failure_row)

lemma clear_lock_tables:
  "clear_expired_login_lock ok now name db = Inr db' \<Longrightarrow>
   t_users db' = t_users db \<and> t_groups db' = t_groups db \<and> t_members db' = t_members db"
  by (auto simp: clear_expired_login_lock_def split: if_splits option.splits)

lemma login_tables:
  assumes "login up pj verify now name pw db = (r, db')"
  shows "t_users db' = t_users db \<and> t_groups db' = t_groups db \<and> t_members db' = t_members db"
  using assms note_failure_tables clear_lock_tables
  by (auto simp: login_def clear_login_failures_def Let_def split: sum.splits option.splits if_splits)

lemma insert_membership_tables:
  "insert_membership i gid db = Inr db' \<Longrightarrow>
   t_users db' = t_users db \<and> t_groups db' = t_groups db \<and> set (t_members db') = insert (i, gid) (set (t_members db))"
  by (auto simp: insert_membership_def split: if_splits)

lemma insert_memberships_tables:
  "insert_memberships i gids db = Inr db' \<Longrightarrow>
   t_users db' = t_users db \<and> t_groups db' = t_groups db \<and> set (t_members db') = Pair i ` set gids \<union> set (t_members db)"
  by (induction i gids db rule: insert_memberships.induct)
     (auto simp: and_then_Inr_iff dest!: insert_membership_tables)

text \<open>An account that the services agree to change is not the built-in one.\<close>

lemma other_id:
  assumes "wf_identity db" "find_user_by_id ok i db = Inr u" "\<forall>v. u = Some v \<longrightarrow> uv_username v \<noteq> DEFAULT_ADMIN_USERNAME"
    and "r \<in> set (t_users db)" "ur_username r = DEFAULT_ADMIN_USERNAME"
  shows "ur_id r \<noteq> i"
proof
  assume i: "ur_id r = i"
  have "distinct (map ur_id (t_users db))" using assms(1) by (simp add: wf_identity_def wf_users_def)
  with assms(4) i have "find (\<lambda>q. ur_id q = i) (t_users db) = Some r" by (metis find_distinct_key)
  then show False using assms(2,3,5) by (auto simp: find_user_by_id_def user_from_row_def split: if_splits)
qed

lemma other_existing_id:
  assumes "wf_identity db" "existing_user up i db = Inr u" "uv_username u \<noteq> DEFAULT_ADMIN_USERNAME"
    and "r \<in> set (t_users db)" "ur_username r = DEFAULT_ADMIN_USERNAME"
  shows "ur_id r \<noteq> i"
  using other_id [OF assms(1), of "up FindUserById" i "Some u" r] assms
  by (auto simp: existing_user_def result_iffs map_err_Inr_iff)

lemma admin_in_place_without:
  assumes "admin_in_place ps db"
    and "\<And>r. r \<in> set (t_users db) \<Longrightarrow> ur_username r = DEFAULT_ADMIN_USERNAME \<Longrightarrow> ur_id r \<noteq> i"
    and "\<And>r. r \<in> set (t_users db) \<Longrightarrow> ur_id r \<noteq> i \<Longrightarrow> r \<in> set (t_users db')" "t_groups db' = t_groups db"
    and "set (filter (\<lambda>m. fst m \<noteq> i) (t_members db)) \<subseteq> set (t_members db')"
  shows "admin_in_place ps db'"
  using assms unfolding admin_in_place_def by fastforce

lemma admin_delete_user:
  assumes "wf_identity db" "admin_in_place ps db" "svc_delete_user up caller i db = Inr (b, db')"
  shows "admin_in_place ps db'"
proof -
  obtain u where "find_user_by_id (up FindUserById) i db = Inr u" "\<forall>v. u = Some v \<longrightarrow> uv_username v \<noteq> DEFAULT_ADMIN_USERNAME"
    and del: "delete_user (up DeleteUser) i db = Inr (b, db')"
    using assms(3) by (auto simp: svc_delete_user_def result_iffs map_err_Inr_iff split: if_splits option.splits)
  then show ?thesis
    by (intro admin_in_place_without [OF assms(2) other_id [OF assms(1)]])
       (auto simp: delete_user_def drop_memberships_def Let_def split: if_splits)
qed

lemma svc_update_role_Inr:
  assumes "svc_update_role up caller i role db = Inr db'"
  shows "\<exists>u g. existing_user up i db = Inr u \<and> uv_username u \<noteq> DEFAULT_ADMIN_USERNAME
           \<and> find (\<lambda>g. gv_name g = default_group role) (t_groups db) = Some g
           \<and> insert_membership i (gv_id g) (drop_memberships (\<lambda>m. fst m = i) (with_role i role db)) = Inr db'"
  using assms unfolding svc_update_role_def default_group_def [symmetric]
  by (auto simp: result_iffs map_err_Inr_iff update_user_role_Inr_iff default_group_def split: if_split_asm)

lemma admin_update_role:
  assumes "wf_identity db" "admin_in_place ps db" "svc_update_role up caller i role db = Inr db'"
  shows "admin_in_place ps db'"
proof -
  obtain u and g :: user_group_view where u: "existing_user up i db = Inr u" "uv_username u \<noteq> DEFAULT_ADMIN_USERNAME"
    and r: "insert_membership i (gv_id g) (drop_memberships (\<lambda>m. fst m = i) (with_role i role db)) = Inr db'"
    using svc_update_role_Inr [OF assms(3)] by blast
  note t = insert_membership_tables [OF r]
  show ?thesis
    by (rule admin_in_place_without [OF assms(2) other_existing_id [OF assms(1) u]])
       (use t in \<open>auto simp: with_role_def drop_memberships_def\<close>)
qed

lemma admin_set_groups:
  assumes "wf_identity db" "admin_in_place ps db" "svc_set_user_groups up caller i gids db = Inr db'"
  shows "admin_in_place ps db'"
proof -
  obtain u where u: "existing_user up i db = Inr u" "uv_username u \<noteq> DEFAULT_ADMIN_USERNAME"
    and r: "insert_memberships i gids (drop_memberships (\<lambda>m. fst m = i) db) = Inr db'"
    using assms(3)
    by (auto simp: svc_set_user_groups_def result_iffs map_err_Inr_iff set_user_groups_def split: if_split_asm)
  note t = insert_memberships_tables [OF r]
  show ?thesis
    by (rule admin_in_place_without [OF assms(2) other_existing_id [OF assms(1) u]])
       (use t in \<open>auto simp: drop_memberships_def\<close>)
qed

lemma admin_set_password: "admin_in_place ps db \<Longrightarrow> admin_in_place ps (set_password i h f db)"
proof -
  let ?f = "\<lambda>r. if ur_id r = i then r\<lparr>ur_password_hash := h, ur_force_password_change := f\<rparr> else r"
  assume "admin_in_place ps db"
  then obtain r g where "r \<in> set (t_users db)" "g \<in> set (t_groups db)" "ur_username r = DEFAULT_ADMIN_USERNAME"
    "gv_name g = GROUP_ADMIN" "gv_permissions g = ps" "(ur_id r, gv_id g) \<in> set (t_members db)"
    unfolding admin_in_place_def by blast
  moreover have "ur_id (?f r) = ur_id r" "ur_username (?f r) = ur_username r" by simp_all
  ultimately show ?thesis
    unfolding admin_in_place_def set_password_def by (intro bexI [of _ "?f r"] bexI [of _ g]) (auto intro: rev_image_eqI)
qed

lemma admin_register:
  assumes "wf_identity db" "admin_in_place ps db" "register up hash stamp name pw role caller db = (r, db')"
  shows "admin_in_place ps db'"
  using assms(1,3)
proof (cases rule: register_cases)
  case (undone e h)
  then show ?thesis
    using assms(2) no_row_of_fresh_user [OF assms(1)] no_membership_of_fresh_user [OF assms(1)]
    by (elim admin_in_place_grows)
       (auto simp: delete_user_def new_account_def drop_memberships_def Let_def split: sum.splits if_splits)
qed (use assms(2) in \<open>auto elim!: admin_in_place_grows simp: new_account_def\<close>)

lemma existing_group_name:
  assumes "wf_identity db" "get_user_group ok gid db = Inr g" "\<forall>q. g = Some q \<longrightarrow> \<not> is_builtin_group (gv_name q)"
    and "q \<in> set (t_groups db)" "gv_name q = GROUP_ADMIN"
  shows "gv_id q \<noteq> gid"
proof
  assume i: "gv_id q = gid"
  have "distinct (map gv_id (t_groups db))" using assms(1) by (simp add: wf_identity_def wf_groups_def)
  with assms(4) i have "find (\<lambda>q. gv_id q = gid) (t_groups db) = Some q" by (metis find_distinct_key)
  then show False using assms(2,3,5) by (auto simp: get_user_group_def is_builtin_group_def split: if_splits)
qed

lemma admin_delete_group:
  assumes "wf_identity db" "admin_in_place ps db" "svc_delete_group up gid db = Inr (b, db')"
  shows "admin_in_place ps db'"
proof -
  obtain g where g: "get_user_group (up GetGroup) gid db = Inr g" "\<forall>q. g = Some q \<longrightarrow> \<not> is_builtin_group (gv_name q)"
    and d: "delete_user_group (up DeleteGroup) gid db = Inr (b, db')"
    using assms(3) by (auto simp: svc_delete_group_def result_iffs map_err_Inr_iff split: if_splits option.splits)
  note o = existing_group_name [OF assms(1) g]
  show ?thesis
    using assms(2) d o unfolding admin_in_place_def delete_user_group_def drop_memberships_def
    by (fastforce simp: Let_def split: if_splits)
qed

lemma admin_update_group:
  assumes "wf_identity db" "admin_in_place ps db" "svc_update_group up pj sj gid name d p db = Inr (r, db')"
  shows "admin_in_place ps db'"
proof -
  obtain q n d' p' where g: "get_user_group (up GetGroup) gid db = Inr (Some q)" "\<not> is_builtin_group (gv_name q)"
    and u: "update_user_group (up UpdateGroup) gid n d' p' db = Inr db'"
    using assms(3) by (auto simp: svc_update_group_def Let_def result_iffs map_err_Inr_iff split: if_split_asm)
  note o = existing_group_name [OF assms(1) g(1)]
  have keep: "g \<in> set (t_groups db')" if "g \<in> set (t_groups db)" "gv_name g = GROUP_ADMIN" for g
  proof -
    have "gv_id g \<noteq> gid" using o that g(2) by simp
    then show ?thesis using that u by (force simp: update_user_group_def split: if_splits)
  qed
  moreover have "t_users db' = t_users db" "t_members db' = t_members db"
    using u by (auto simp: update_user_group_def split: if_splits)
  ultimately show ?thesis using assms(2) unfolding admin_in_place_def by auto
qed

lemma admin_create_group:
  "admin_in_place ps db \<Longrightarrow> svc_create_group up pj sj stamp name d p db = Inr (r, db') \<Longrightarrow> admin_in_place ps db'"
  by (erule admin_in_place_grows)
     (auto simp: svc_create_group_def create_user_group_def Let_def result_iffs map_err_Inr_iff
           split: option.splits if_split_asm)

text \<open>The services keep the tables consistent, because they write through the store.\<close>

lemma wf_note_failure: "wf_identity db \<Longrightarrow> wf_identity (note_login_failure up now name db)"
  by (auto simp: note_login_failure_def split: sum.splits intro: wf_record_failure)

lemma wf_login:
  assumes "wf_identity db" "login up pj verify now name pw db = (r, db')"
  shows "wf_identity db'"
  using assms
  by (auto simp: login_def Let_def split: sum.splits option.splits if_splits
           intro: wf_note_failure wf_clear_lock wf_clear_failures [OF wf_clear_lock])

lemma wf_new_account:
  "wf_identity db \<Longrightarrow> \<not> list_ex (\<lambda>r. ur_username r = name) (t_users db) \<Longrightarrow> wf_identity (new_account stamp name h role db)"
  by (erule wf_insert_user [of _ True stamp name h role False "t_user_seq db + 1"])
     (simp add: insert_user_Inr_iff new_account_def)

lemma wf_register:
  assumes wf: "wf_identity db" and r: "register up hash stamp name pw role caller db = (r, db')"
  shows "wf_identity db'"
proof (cases "insert_checked_user up hash stamp name pw role caller db")
  case (Inl e)
  then show ?thesis using assms by (simp add: register_def)
next
  case (Inr x)
  obtain gid i db1 where x: "x = (gid, i, db1)" by (cases x)
  then have "wf_identity db1"
    using insert_checked_user_Inr [OF Inr [unfolded x]] wf_new_account [OF wf] by auto
  then show ?thesis
    using r Inr x by (auto simp: register_def split: sum.splits intro: wf_set_groups wf_delete_user)
qed

lemma wf_service_step: "service_step db db' \<Longrightarrow> wf_identity db \<Longrightarrow> wf_identity db'"
proof (induction rule: service_step.induct)
  case (create_group up pj sj stamp name desc ps db r db')
  then show ?case
    by (auto simp: svc_create_group_def Let_def result_iffs map_err_Inr_iff split: option.splits if_split_asm
             intro: wf_create_group)
next
  case (update_group up pj sj gid name desc ps db r db')
  then show ?case
    by (auto simp: svc_update_group_def Let_def result_iffs map_err_Inr_iff split: if_split_asm intro: wf_update_group)
qed (auto simp: svc_change_password_def svc_delete_user_def svc_update_role_def svc_reset_password_def svc_set_user_groups_def
                svc_delete_group_def result_iffs map_err_Inr_iff
          split: if_split_asm intro: wf_operations wf_login wf_register)

lemma admin_service_step:
  "service_step db db' \<Longrightarrow> wf_identity db \<Longrightarrow> admin_in_place ps db \<Longrightarrow> admin_in_place ps db'"
proof (induction rule: service_step.induct)
  case (login up pj verify now name pw db r db')
  then show ?case using login_tables [OF login(1)] admin_in_place_same by blast
qed (auto intro: admin_register admin_delete_user admin_update_role admin_set_groups admin_create_group admin_update_group
                 admin_delete_group admin_set_password
          simp: svc_change_password_def svc_reset_password_def update_user_password_def reset_user_password_def
                result_iffs map_err_Inr_iff split: if_split_asm)

lemma admin_role:
  assumes "wf_identity db" "admin_in_place ps db" "find (\<lambda>r. ur_username r = DEFAULT_ADMIN_USERNAME) (t_users db) = Some r"
  shows "role_from_group_names (map gv_name (groups_of (ur_id r) db)) = ROLE_ADMIN"
proof -
  obtain r' g where a: "r' \<in> set (t_users db)" "g \<in> set (t_groups db)" "ur_username r' = DEFAULT_ADMIN_USERNAME"
    "gv_name g = GROUP_ADMIN" "(ur_id r', gv_id g) \<in> set (t_members db)"
    using assms(2) unfolding admin_in_place_def by blast
  have "distinct (map ur_username (t_users db))" using assms(1) by (simp add: wf_identity_def wf_users_def)
  then have "r' = r" using find_distinct_key [of ur_username "t_users db" r'] a(1,3) assms(3) by simp
  then have "g \<in> set (groups_of (ur_id r) db)" using a by (simp add: groups_of_def)
  then have "GROUP_ADMIN \<in> gv_name ` set (groups_of (ur_id r) db)" using a(4) by (metis image_eqI)
  then show ?thesis by (auto simp: role_from_group_names_def list_ex_iff)
qed

text \<open>
  C20. The built-in administrator: whatever sequence of operations the services carry out, for whatever
  callers (accounts registered, deleted, moved between groups, given another role, passwords changed and reset,
  groups created, renamed and deleted, logins), the account \<^verbatim>\<open>admin\<close> still exists, is still in the group
  \<^verbatim>\<open>Administrator\<close>, that group still has the permissions it had, and the account's role is \<^verbatim>\<open>admin\<close>.
\<close>

theorem built_in_admin_keeps_access:
  assumes "service_step\<^sup>*\<^sup>* db db'" "wf_identity db" "admin_in_place ps db"
  shows "admin_in_place ps db'
         \<and> (\<forall>r. find (\<lambda>r. ur_username r = DEFAULT_ADMIN_USERNAME) (t_users db') = Some r \<longrightarrow>
              derive_role True (ur_id r) db' = Inr ROLE_ADMIN)"
proof -
  have "wf_identity db' \<and> admin_in_place ps db'"
    using assms
  proof (induction rule: rtranclp_induct)
    case (step db1 db2)
    then show ?case by (blast intro: wf_service_step admin_service_step)
  qed simp
  then show ?thesis using admin_role by (auto simp: derive_role_def list_groups_for_user_def)
qed

theorem built_in_admin_keeps_access_witness:
  "service_step\<^sup>*\<^sup>* sample_identity (set_password 1 ''New-pass1'' True sample_identity)
   \<and> admin_in_place ''A'' (set_password 1 ''New-pass1'' True sample_identity)"
proof -
  let ?db = "set_password 1 ''New-pass1'' True sample_identity"
  have "svc_reset_password (\<lambda>_. True) Some 1 ''New-pass1'' sample_identity = Inr ?db"
    by (simp add: svc_reset_password_def validate_password_def is_ascii_alphanumeric_def is_ascii_alphabetic_def is_ascii_digit_def
                  existing_user_def find_user_by_id_def reset_user_password_def user_exists_def sample_identity_def set_password_def)
  then have step: "service_step\<^sup>*\<^sup>* sample_identity ?db" by (blast intro: service_step.reset_password)
  have "admin_in_place ''A'' sample_identity"
    by (simp add: admin_in_place_def sample_identity_def DEFAULT_ADMIN_USERNAME_def role_consts)
  with step built_in_admin_keeps_access [OF step wf_sample_identity] show ?thesis by blast
qed

end
