(* ===== verification/Sessions.thy ===== *)
theory Sessions
  imports Identity_Domain
begin

text \<open>
  Sessions of logged-in browsers (\<^verbatim>\<open>core/identity/session_service.rs\<close>, with \<^verbatim>\<open>constant_time_eq\<close> of
  \<^verbatim>\<open>common/utils/security.rs\<close>). The table is a map from session ids; each operation is atomic on it. The
  random tokens of a new session are arguments, and so are the clock and the two settings it reads.
\<close>

section \<open>Comparing tokens\<close>

text \<open>The loop reads every byte of the expected text, and a byte beyond the candidate's end as 0.\<close>

definition byte_of :: "char \<Rightarrow> u8" where
  "byte_of c = word_of_nat (of_char c)"

definition constant_time_eq :: "string \<Rightarrow> string \<Rightarrow> bool" where
  "constant_time_eq expected candidate \<longleftrightarrow>
     foldl (\<lambda>diff i. diff OR ucast (byte_of (expected ! i) XOR (if i < length candidate then byte_of (candidate ! i) else 0)))
       ((word_of_nat (length expected) :: u64) XOR word_of_nat (length candidate)) [0..<length expected] = 0"

section \<open>The table\<close>

record session_record =
  sr_claims :: claims
  sr_csrf_token :: string
  sr_expires_at_secs :: u64
  sr_last_seen_secs :: u64

record created_session =
  cs_id :: string
  cs_csrf_token :: string
  cs_max_age_secs :: u64

datatype csrf_status = CsrfValid | CsrfInvalid | CsrfExpired | MissingSession

definition GC_INTERVAL_LOGINS :: u32 where "GC_INTERVAL_LOGINS = 64"

record session_settings =
  ss_session_expiry_hours :: u64
  ss_session_idle_timeout_minutes :: u64

record session_service =
  sv_sessions :: "string \<Rightarrow> session_record option"
  sv_login_counter :: u32

definition SessionService_new :: session_service where
  "SessionService_new = \<lparr>sv_sessions = (\<lambda>_. None), sv_login_counter = 0\<rparr>"

definition session_max_age_secs :: "session_settings \<Rightarrow> u64" where
  "session_max_age_secs cfg = saturating_mul (ss_session_expiry_hours cfg) 3600"

definition session_idle_timeout_secs :: "session_settings \<Rightarrow> u64" where
  "session_idle_timeout_secs cfg = saturating_mul (ss_session_idle_timeout_minutes cfg) 60"

definition record_expired :: "session_settings \<Rightarrow> u64 \<Rightarrow> session_record \<Rightarrow> bool" where
  "record_expired cfg now r \<longleftrightarrow>
     now \<ge> sr_expires_at_secs r \<or> saturating_sub now (sr_last_seen_secs r) \<ge> session_idle_timeout_secs cfg"

definition retain :: "(session_record \<Rightarrow> bool) \<Rightarrow> session_service \<Rightarrow> session_service" where
  "retain p s = s\<lparr>sv_sessions := (\<lambda>i. case sv_sessions s i of Some r \<Rightarrow> if p r then Some r else None | None \<Rightarrow> None)\<rparr>"

definition remove_expired_sessions :: "session_settings \<Rightarrow> u64 \<Rightarrow> session_service \<Rightarrow> session_service" where
  "remove_expired_sessions cfg now s = retain (\<lambda>r. \<not> record_expired cfg now r) s"

definition remove_session :: "string \<Rightarrow> session_service \<Rightarrow> session_service" where
  "remove_session i s = s\<lparr>sv_sessions := (sv_sessions s)(i := None)\<rparr>"

definition remove_sessions_for_user :: "int \<Rightarrow> session_service \<Rightarrow> session_service" where
  "remove_sessions_for_user u s = retain (\<lambda>r. cl_sub (sr_claims r) \<noteq> u) s"

text \<open>The counter of logins wraps at 32 bits, as \<^verbatim>\<open>fetch_add\<close> does.\<close>

definition create_session ::
  "session_settings \<Rightarrow> u64 \<Rightarrow> string \<Rightarrow> string \<Rightarrow> claims \<Rightarrow> session_service \<Rightarrow> created_session \<times> session_service" where
  "create_session cfg now session_id csrf_token cl s =
     (let n = sv_login_counter s;
          s = s\<lparr>sv_login_counter := n + 1\<rparr>;
          s = (if n mod GC_INTERVAL_LOGINS = 0 then remove_expired_sessions cfg now s else s);
          max_age = session_max_age_secs cfg;
          r = \<lparr>sr_claims = cl, sr_csrf_token = csrf_token, sr_expires_at_secs = saturating_add now max_age,
               sr_last_seen_secs = now\<rparr>
      in (\<lparr>cs_id = session_id, cs_csrf_token = csrf_token, cs_max_age_secs = max_age\<rparr>,
          s\<lparr>sv_sessions := (sv_sessions s)(session_id \<mapsto> r)\<rparr>))"

definition claims_for_session :: "session_settings \<Rightarrow> u64 \<Rightarrow> string \<Rightarrow> session_service \<Rightarrow> claims option \<times> session_service" where
  "claims_for_session cfg now i s =
     (case sv_sessions s i of
        None \<Rightarrow> (None, s)
      | Some r \<Rightarrow>
          if record_expired cfg now r then (None, remove_session i s)
          else (Some (sr_claims r), s\<lparr>sv_sessions := (sv_sessions s)(i \<mapsto> r\<lparr>sr_last_seen_secs := now\<rparr>)\<rparr>))"

definition csrf_token_status :: "session_settings \<Rightarrow> u64 \<Rightarrow> string \<Rightarrow> string \<Rightarrow> session_service \<Rightarrow> csrf_status" where
  "csrf_token_status cfg now i token s =
     (case sv_sessions s i of
        None \<Rightarrow> MissingSession
      | Some r \<Rightarrow>
          if record_expired cfg now r then CsrfExpired
          else if constant_time_eq (sr_csrf_token r) token then CsrfValid
          else CsrfInvalid)"

definition csrf_token_for_session :: "session_settings \<Rightarrow> u64 \<Rightarrow> string \<Rightarrow> session_service \<Rightarrow> string option" where
  "csrf_token_for_session cfg now i s =
     (case sv_sessions s i of
        None \<Rightarrow> None
      | Some r \<Rightarrow> if record_expired cfg now r then None else Some (sr_csrf_token r))"

section \<open>The comparison is equality\<close>

lemma word_or_zero_iff: "(a :: 'w::len word) OR b = 0 \<longleftrightarrow> a = 0 \<and> b = 0"
  by (auto simp: bit_eq_iff bit_simps)

lemma word_xor_zero_iff: "(a :: 'w::len word) XOR b = 0 \<longleftrightarrow> a = b"
  by (auto simp: bit_eq_iff bit_simps)

lemma ucast_zero_iff: "(ucast (x :: u8) :: u64) = 0 \<longleftrightarrow> x = 0"
proof -
  have "bit x n \<Longrightarrow> n < 8" for n using bit_imp_le_length [of x n] by simp
  then show ?thesis by (fastforce simp: bit_eq_iff bit_simps)
qed

lemma foldl_or_eq_0: "foldl (\<lambda>d i. d OR f i) (a :: 'w::len word) is = 0 \<longleftrightarrow> a = 0 \<and> (\<forall>i\<in>set is. f i = 0)"
  by (induction "is" arbitrary: a) (auto simp: word_or_zero_iff)

lemma byte_of_inj [simp]: "byte_of c = byte_of d \<longleftrightarrow> c = d"
proof
  assume "byte_of c = byte_of d"
  then have "unat (byte_of c) = unat (byte_of d)" by simp
  then have "(of_char c :: nat) = of_char d"
    using nat_of_char_less_256 [of c] nat_of_char_less_256 [of d] by (simp add: byte_of_def unat_of_nat)
  then show "c = d" by simp
qed simp

text \<open>
  On texts whose lengths fit the machine word, the comparison without early exit is equality of the
  two texts.
\<close>

lemma constant_time_eq_iff:
  assumes "length expected < 2 ^ 64" "length candidate < 2 ^ 64"
  shows "constant_time_eq expected candidate \<longleftrightarrow> expected = candidate"
proof -
  have len: "(word_of_nat (length expected) :: u64) XOR word_of_nat (length candidate) = 0 \<longleftrightarrow> length expected = length candidate"
    unfolding word_xor_zero_iff using assms by (auto simp: word_unat_eq_iff unat_of_nat)
  have byte: "(ucast (a XOR b) :: u64) = 0 \<longleftrightarrow> a = b" for a b :: u8
    by (simp add: ucast_zero_iff word_xor_zero_iff)
  show ?thesis
    unfolding constant_time_eq_def foldl_or_eq_0 len byte list_eq_iff_nth_eq [of expected candidate]
    by (auto split: if_splits)
qed

section \<open>The life of a session\<close>

text \<open>What may happen to the table while the session \<open>i\<close> exists: other logins, uses of any session, removals.\<close>

inductive session_step :: "string \<Rightarrow> session_service \<Rightarrow> session_service \<Rightarrow> bool" for i where
  other_login: "j \<noteq> i \<Longrightarrow> create_session cfg now j token cl s = (c, s') \<Longrightarrow> session_step i s s'"
| use_session: "claims_for_session cfg now j s = (c, s') \<Longrightarrow> session_step i s s'"
| logout: "session_step i s (remove_session j s)"
| invalidate: "session_step i s (remove_sessions_for_user u s)"

text \<open>The session \<open>i\<close>, where it still exists, is the one that was created.\<close>

definition issued :: "string \<Rightarrow> claims \<Rightarrow> string \<Rightarrow> u64 \<Rightarrow> session_service \<Rightarrow> bool" where
  "issued i cl token deadline s \<longleftrightarrow>
     (case sv_sessions s i of
        None \<Rightarrow> True
      | Some r \<Rightarrow> sr_claims r = cl \<and> sr_csrf_token r = token \<and> sr_expires_at_secs r = deadline)"

lemma retain_Some_iff: "sv_sessions (retain p s) i = Some r \<longleftrightarrow> sv_sessions s i = Some r \<and> p r"
  by (auto simp: retain_def split: option.splits)

lemma issued_retain: "issued i cl token d s \<Longrightarrow> issued i cl token d (retain p s)"
  by (auto simp: issued_def retain_Some_iff split: option.splits)

lemma issued_step: "session_step i s s' \<Longrightarrow> issued i cl token d s \<Longrightarrow> issued i cl token d s'"
proof (induction rule: session_step.induct)
  case (other_login j cfg now t cl' s c s')
  have "issued i cl token d (s\<lparr>sv_login_counter := n\<rparr>)" for n using other_login(3) by (simp add: issued_def)
  with other_login(1,2) show ?case
    by (auto simp: create_session_def remove_expired_sessions_def Let_def issued_retain [unfolded issued_def] issued_def
             split: if_splits)
next
  case (use_session cfg now j s c s')
  then show ?case
    by (auto simp: claims_for_session_def remove_session_def issued_def split: option.splits if_splits)
qed (auto simp: remove_session_def remove_sessions_for_user_def issued_retain, auto simp: issued_def)

lemma issued_steps: "(session_step i)\<^sup>*\<^sup>* s s' \<Longrightarrow> issued i cl token d s \<Longrightarrow> issued i cl token d s'"
  by (induction rule: rtranclp_induct) (auto intro: issued_step)

lemma created_is_issued:
  "create_session cfg now i token cl s = (c, s') \<Longrightarrow> issued i cl token (saturating_add now (session_max_age_secs cfg)) s'"
  by (auto simp: create_session_def issued_def Let_def)

text \<open>
  C40. The life of a session: whatever happens after a login (other logins, any use of this or another
  session, removals, changed settings), a session that is accepted carries the claims of its login and no
  other, is younger than the age the settings gave it then, was idle for less than the timeout, and its
  CSRF check passes exactly for the token issued with it.
\<close>

theorem accepted_session_is_the_issued_one:
  assumes login: "create_session cfg now i token cl s = (c, s1)"
    and later: "(session_step i)\<^sup>*\<^sup>* s1 s2"
    and accepted: "claims_for_session cfg' now' i s2 = (Some cl', s3)"
    and fits: "length token < 2 ^ 64" "length candidate < 2 ^ 64"
  shows "cl' = cl \<and> now' < saturating_add now (session_max_age_secs cfg)
         \<and> (\<exists>r. sv_sessions s2 i = Some r \<and> saturating_sub now' (sr_last_seen_secs r) < session_idle_timeout_secs cfg')
         \<and> (csrf_token_status cfg' now' i candidate s2 = CsrfValid \<longleftrightarrow> candidate = token)"
proof -
  have "issued i cl token (saturating_add now (session_max_age_secs cfg)) s2"
    using issued_steps [OF later created_is_issued [OF login]] .
  moreover obtain r where "sv_sessions s2 i = Some r" "\<not> record_expired cfg' now' r" "cl' = sr_claims r"
    using accepted by (auto simp: claims_for_session_def split: option.splits if_splits)
  ultimately show ?thesis
    using constant_time_eq_iff [OF fits] by (auto simp: issued_def csrf_token_status_def record_expired_def not_le)
qed

text \<open>A login of hours ago, used once.\<close>

definition sample_claims :: claims where
  "sample_claims = \<lparr>cl_sub = 1, cl_username = ''admin'', cl_role = ''admin'', cl_permissions = [''users:admin'']\<rparr>"

definition sample_settings :: session_settings where
  "sample_settings = \<lparr>ss_session_expiry_hours = 24, ss_session_idle_timeout_minutes = 30\<rparr>"

lemma sample_settings_secs [simp]:
  "session_max_age_secs sample_settings = 86400" "session_idle_timeout_secs sample_settings = 1800"
  by (simp_all add: session_max_age_secs_def session_idle_timeout_secs_def saturating_mul_def sample_settings_def)

definition sample_session :: session_service where
  "sample_session = snd (create_session sample_settings 1000 ''sid'' ''tok'' sample_claims SessionService_new)"

lemma sample_session_accepted:
  "fst (claims_for_session sample_settings 2000 ''sid'' sample_session) = Some sample_claims"
  by (simp add: sample_session_def create_session_def claims_for_session_def record_expired_def saturating_add_def
                saturating_sub_def remove_expired_sessions_def retain_def SessionService_new_def GC_INTERVAL_LOGINS_def)

theorem accepted_session_is_the_issued_one_witness:
  "fst (claims_for_session sample_settings 2000 ''sid'' sample_session) = Some sample_claims
   \<and> (2000 :: u64) < saturating_add 1000 (session_max_age_secs sample_settings)
   \<and> (csrf_token_status sample_settings 2000 ''sid'' ''tok'' sample_session = CsrfValid)"
proof -
  obtain c where c: "create_session sample_settings 1000 ''sid'' ''tok'' sample_claims SessionService_new = (c, sample_session)"
    unfolding sample_session_def by (metis prod.collapse)
  obtain s3 where s3: "claims_for_session sample_settings 2000 ''sid'' sample_session = (Some sample_claims, s3)"
    using sample_session_accepted by (metis prod.collapse)
  from accepted_session_is_the_issued_one [OF c rtranclp.rtrancl_refl s3, of "''tok''"] sample_session_accepted
  show ?thesis by simp
qed

section \<open>Removing the sessions of an account\<close>

lemma removed_sessions_are_refused:
  assumes "claims_for_session cfg now i (remove_sessions_for_user u s) = (Some cl, s')"
  shows "cl_sub cl \<noteq> u"
  using assms retain_Some_iff [of "\<lambda>r. cl_sub (sr_claims r) \<noteq> u" s i]
  by (auto simp: claims_for_session_def remove_sessions_for_user_def split: option.splits if_splits)

end
