(* ===== verification/Http_Method.thy ===== *)
theory Http_Method
  imports Abi_Models
begin

text \<open>
  The HTTP methods and their 16-bit bitmap (\<^verbatim>\<open>net-guardia-abi/src/model/http_method.rs\<close>): the
  user-space daemon writes a set of methods as a bitmap, the kernel tests one method against it,
  and the management interface reads the set back.
\<close>

datatype http_method = GET | POST | PUT | DELETE | HEAD | OPTIONS | PATCH | TRACE | CONNECT

definition method_code :: "http_method \<Rightarrow> u16" where
  "method_code m =
     (case m of
        GET \<Rightarrow> 0b0000000000000001
      | POST \<Rightarrow> 0b0000000000000010
      | PUT \<Rightarrow> 0b0000000000000100
      | DELETE \<Rightarrow> 0b0000000000001000
      | HEAD \<Rightarrow> 0b0000000000010000
      | OPTIONS \<Rightarrow> 0b0000000000100000
      | PATCH \<Rightarrow> 0b0000000001000000
      | TRACE \<Rightarrow> 0b0000000010000000
      | CONNECT \<Rightarrow> 0b0000000100000000)"

definition all_methods :: "http_method list" where
  "all_methods = [GET, POST, PUT, DELETE, HEAD, OPTIONS, PATCH, TRACE, CONNECT]"

definition convert_from_bitmap :: "u16 \<Rightarrow> http_method list" where
  "convert_from_bitmap value = filter (\<lambda>m. value AND method_code m \<noteq> 0) all_methods"

definition convert_to_bitmap :: "http_method list \<Rightarrow> u16" where
  "convert_to_bitmap ms = foldl (\<lambda>acc m. acc OR method_code m) 0 ms"

instantiation http_method :: enum
begin

definition enum_http_method :: "http_method list" where
  "enum_http_method = all_methods"

definition enum_all_http_method :: "(http_method \<Rightarrow> bool) \<Rightarrow> bool" where
  "enum_all_http_method P = list_all P all_methods"

definition enum_ex_http_method :: "(http_method \<Rightarrow> bool) \<Rightarrow> bool" where
  "enum_ex_http_method P = list_ex P all_methods"

instance
proof
  have univ: "(UNIV :: http_method set) = set all_methods"
    by (auto simp: all_methods_def intro: http_method.exhaust)
  show "(UNIV :: http_method set) = set enum_class.enum"
    by (simp add: enum_http_method_def univ)
  show "distinct (enum_class.enum :: http_method list)"
    by (simp add: enum_http_method_def all_methods_def)
  fix P :: "http_method \<Rightarrow> bool"
  show "enum_class.enum_all P = Ball UNIV P"
    by (simp only: enum_all_http_method_def univ list_all_iff)
  show "enum_class.enum_ex P = Bex UNIV P"
    by (simp only: enum_ex_http_method_def univ list_ex_iff)
qed

end

lemma set_all_methods [simp]: "set all_methods = UNIV"
  by (auto simp: all_methods_def intro: http_method.exhaust)

text \<open>Each method owns one bit.\<close>

definition method_bit :: "http_method \<Rightarrow> nat" where
  "method_bit m =
     (case m of GET \<Rightarrow> 0 | POST \<Rightarrow> 1 | PUT \<Rightarrow> 2 | DELETE \<Rightarrow> 3 | HEAD \<Rightarrow> 4 | OPTIONS \<Rightarrow> 5
      | PATCH \<Rightarrow> 6 | TRACE \<Rightarrow> 7 | CONNECT \<Rightarrow> 8)"

lemma method_code_bit: "method_code m = 2 ^ method_bit m"
  by (cases m) (simp_all add: method_code_def method_bit_def)

lemma method_bit_inj [simp]: "method_bit m = method_bit m' \<longleftrightarrow> m = m'"
  by (cases m; cases m') (simp_all add: method_bit_def)

lemma method_code_inject [simp]: "method_code m = method_code m' \<longleftrightarrow> m = m'"
  by (cases m; cases m') (simp_all add: method_code_def)

lemma method_bit_less: "method_bit m < 9"
  by (cases m) (simp_all add: method_bit_def)

lemma method_bit_surj: "n < 9 \<Longrightarrow> \<exists>m. method_bit m = n"
proof -
  assume "n < 9"
  then have "method_bit (all_methods ! n) = n"
    by (auto simp: numeral_eq_Suc less_Suc_eq all_methods_def method_bit_def)
  then show ?thesis by blast
qed

lemma and_method_code: "value AND method_code m \<noteq> 0 \<longleftrightarrow> bit value (method_bit m)"
  by (simp add: method_code_bit and_exp_eq_0_iff_not_bit)

lemma bit_foldl_or:
  "bit (foldl (\<lambda>acc m. acc OR method_code m) a ms) n \<longleftrightarrow>
     bit a n \<or> (\<exists>m \<in> set ms. n = method_bit m)"
proof (induction ms arbitrary: a)
  case (Cons m ms)
  have "bit (method_code m) n \<longleftrightarrow> n = method_bit m"
    using method_bit_less [of m] by (auto simp: method_code_bit bit_exp_iff)
  then show ?case
    by (auto simp: Cons.IH bit_or_iff)
qed simp

lemma bit_convert_to_bitmap: "bit (convert_to_bitmap ms) n \<longleftrightarrow> (\<exists>m \<in> set ms. n = method_bit m)"
  by (simp add: convert_to_bitmap_def bit_foldl_or)

text \<open>The bitmap allows exactly the methods it was built from.\<close>

lemma bitmap_allows: "convert_to_bitmap ms AND method_code m \<noteq> 0 \<longleftrightarrow> m \<in> set ms"
  by (auto simp: and_method_code bit_convert_to_bitmap)

lemma convert_from_to_bitmap: "convert_from_bitmap (convert_to_bitmap ms) = filter (\<lambda>m. m \<in> set ms) all_methods"
  by (simp add: convert_from_bitmap_def bitmap_allows)

lemma convert_to_from_bitmap: "convert_to_bitmap (convert_from_bitmap value) = value AND 0x1FF"
proof (rule bit_eqI)
  fix n
  have m: "bit (0x1FF :: u16) n \<longleftrightarrow> n < 9"
  proof -
    have mask: "(0x1FF :: u16) = mask 9" by (simp add: mask_eq_exp_minus_1)
    show ?thesis unfolding mask bit_mask_iff by auto
  qed
  have "bit (value AND 0x1FF) n \<longleftrightarrow> bit value n \<and> n < 9"
    by (simp only: bit_and_iff m)
  moreover have "bit (convert_to_bitmap (convert_from_bitmap value)) n \<longleftrightarrow> bit value n \<and> n < 9"
    using method_bit_less method_bit_surj [of n]
    by (auto simp: bit_convert_to_bitmap convert_from_bitmap_def and_method_code)
  ultimately show "bit (convert_to_bitmap (convert_from_bitmap value)) n = bit (value AND 0x1FF) n"
    by simp
qed

end
