(* ===== verification/Access_Gate.thy ===== *)
theory Access_Gate
  imports Auth_Service Sessions Http_Method Rust_Net
begin

text \<open>
  What stands before the handlers of the administration API (\<^verbatim>\<open>adapter/http/middleware\<close>): the guard of
  the setup wizard, the redirection to HTTPS, authentication with the required permission, the check of CSRF
  tokens; the session cookie (\<^verbatim>\<open>adapter/http/session.rs\<close>) and the table of routes that the modules of
  \<^verbatim>\<open>adapter/http\<close> register. The server wraps them so that they run in this order
  (\<^verbatim>\<open>infrastructure/http_server\<close>), and registers every piece of shared data the middleware asks for. A
  middleware answers with a status, or lets the request pass.
\<close>

section \<open>Requests\<close>

text \<open>
  A header whose value is not text reads as the empty text for the API key and as absent for the CSRF token;
  \<open>rq_peer\<close> is the text of the peer's address, empty when it is unknown.
\<close>

record http_request =
  rq_path :: string
  rq_method :: http_method
  rq_api_key :: "string option"
  rq_csrf_token :: "string option"
  rq_cookies :: "string \<Rightarrow> string option"
  rq_peer :: string

datatype 'a gate = Refused nat | Passed 'a

section \<open>The session cookie\<close>

definition SESSION_COOKIE_NAME :: string where "SESSION_COOKIE_NAME = ''netguardia_session''"
definition SECURE_SESSION_COOKIE_NAME :: string where "SECURE_SESSION_COOKIE_NAME = ''__Host-netguardia_session''"

definition cookie_name :: "bool \<Rightarrow> string" where
  "cookie_name force_https = (if force_https then SECURE_SESSION_COOKIE_NAME else SESSION_COOKIE_NAME)"

record cookie =
  ck_name :: string
  ck_value :: string
  ck_path :: string
  ck_http_only :: bool
  ck_secure :: bool
  ck_same_site_strict :: bool
  ck_max_age :: int

definition cookie_duration :: "u64 \<Rightarrow> int" where
  "cookie_duration secs = (if uint secs < 2 ^ 63 then uint secs else 2 ^ 63 - 1)"

definition session_cookie :: "bool \<Rightarrow> created_session \<Rightarrow> cookie" where
  "session_cookie force_https session =
     \<lparr>ck_name = cookie_name force_https, ck_value = cs_id session, ck_path = ''/'', ck_http_only = True,
      ck_secure = force_https, ck_same_site_strict = True, ck_max_age = cookie_duration (cs_max_age_secs session)\<rparr>"

definition removal_cookie_for :: "bool \<Rightarrow> string \<Rightarrow> cookie" where
  "removal_cookie_for force_https name =
     \<lparr>ck_name = name, ck_value = [], ck_path = ''/'', ck_http_only = True, ck_secure = force_https,
      ck_same_site_strict = True, ck_max_age = 0\<rparr>"

definition removal_cookies :: "bool \<Rightarrow> cookie list" where
  "removal_cookies force_https =
     removal_cookie_for force_https (cookie_name force_https)
     # (if cookie_name force_https \<noteq> SESSION_COOKIE_NAME then [removal_cookie_for force_https SESSION_COOKIE_NAME] else [])"

section \<open>The guard of the setup wizard\<close>

definition setup_guard :: "bool \<Rightarrow> http_request \<Rightarrow> unit gate" where
  "setup_guard setup_complete req =
     (let path = rq_path req
      in if setup_complete then
           (if starts_with path ''/api/setup/'' \<and> path \<noteq> ''/api/setup/status'' then Refused 410 else Passed ())
         else if starts_with path ''/api/setup/'' \<or> starts_with path ''/api/health/'' \<or> path = ''/api/auth/login''
                 \<or> \<not> starts_with path ''/api/'' then Passed ()
         else Refused 503)"

section \<open>Authentication\<close>

definition PERMISSION_USERS_ADMIN :: string where "PERMISSION_USERS_ADMIN = ''users:admin''"
definition PERMISSION_API_KEYS_ADMIN :: string where "PERMISSION_API_KEYS_ADMIN = ''api_keys:admin''"
definition PERMISSION_ACCESS_CONTROL_WRITE :: string where "PERMISSION_ACCESS_CONTROL_WRITE = ''access_control:write''"

datatype requirement = NoPermission | Permission string | Resource string

text \<open>The chain of comparisons: no permission, a permission by name, or the resource of a permission.\<close>

definition path_requirement :: "string \<Rightarrow> requirement" where
  "path_requirement path =
     (if path = ''/api/auth/login'' \<or> path = ''/api/auth/logout'' \<or> path = ''/api/auth/me''
         \<or> path = ''/api/auth/change-password'' then NoPermission
      else if starts_with path ''/api/auth/'' then Permission PERMISSION_USERS_ADMIN
      else if starts_with path ''/api/health/'' then Resource ''dashboard''
      else if starts_with path ''/api/stats/drops'' then Resource ''drops''
      else if starts_with path ''/api/stats/flows'' then Resource ''traffic_map''
      else if starts_with path ''/api/stats/summary'' then Resource ''statistics''
      else if starts_with path ''/api/ml/'' \<or> starts_with path ''/api/byo/'' then Resource ''ai_detection''
      else if starts_with path ''/api/fusion/'' then Resource ''fusion''
      else if starts_with path ''/api/flow-trace/'' then Resource ''flow_trace''
      else if starts_with path ''/api/acl/geo/'' then Resource ''geo_block''
      else if starts_with path ''/api/acl/'' then Resource ''access_control''
      else if starts_with path ''/api/filter/dns/'' then Resource ''dns_filter''
      else if starts_with path ''/api/filter/http/'' \<or> starts_with path ''/api/filter/ssh/'' then Resource ''protocol_filter''
      else if starts_with path ''/api/rate-limit/'' then Resource ''rate_limit''
      else if starts_with path ''/api/system/'' then Resource ''system''
      else if path = ''/api/api-keys'' \<or> starts_with path ''/api/api-keys/'' then Permission PERMISSION_API_KEYS_ADMIN
      else if contains_str path ''/soar/blocks/'' \<and> ends_with path ''/unblock''
        then Permission PERMISSION_ACCESS_CONTROL_WRITE
      else if starts_with path ''/api/soar/'' \<or> starts_with path ''/api/notifications/'' \<or> path = ''/api/report''
              \<or> starts_with path ''/api/report/'' \<or> path = ''/api/logs'' \<or> starts_with path ''/api/logs/''
              \<or> path = ''/api/audit'' \<or> starts_with path ''/api/audit/'' then Resource ''system''
      else NoPermission)"

definition required_permission :: "string \<Rightarrow> http_method \<Rightarrow> string option" where
  "required_permission path method =
     (case path_requirement path of
        NoPermission \<Rightarrow> None
      | Permission p \<Rightarrow> Some p
      | Resource r \<Rightarrow> Some (r @ '':'' @ (if method = GET then ''read'' else ''write'')))"

definition is_auth_exempt_request :: "string \<Rightarrow> http_method \<Rightarrow> bool" where
  "is_auth_exempt_request path method \<longleftrightarrow>
     method = OPTIONS \<or> path = ''/api/auth/login'' \<or> starts_with path ''/api/setup/'' \<or> \<not> starts_with path ''/api/''"

record gate_state =
  gs_db :: identity_db
  gs_sessions :: session_service

record gate_env =
  ge_up :: faults
  ge_hash_api_key :: "string \<Rightarrow> string"
  ge_settings :: session_settings
  ge_force_https :: bool
  ge_now :: u64
  ge_stamp :: string

text \<open>Failures with API keys are counted in the table of failed logins under the address of the client.\<close>

definition api_key_rate_key :: "http_request \<Rightarrow> string" where
  "api_key_rate_key req = ''apikey:'' @ rq_peer req"

definition api_key_claims :: "gate_env \<Rightarrow> string \<Rightarrow> string \<Rightarrow> identity_db \<Rightarrow> claims gate \<times> identity_db" where
  "api_key_claims env rate_key api_key db =
     (case get_remaining_lock_secs (ge_up env RemainingLock) (ge_now env) rate_key db of
        Inr (Some _) \<Rightarrow> (Refused 429, db)
      | Inl _ \<Rightarrow> (Refused 500, db)
      | Inr None \<Rightarrow>
          (case clear_expired_login_lock (ge_up env ClearLock) (ge_now env) rate_key db of
             Inl _ \<Rightarrow> (Refused 500, db)
           | Inr db \<Rightarrow>
               (case validate_api_key (ge_up env ValidateKey) (ge_stamp env) (ge_hash_api_key env api_key) db of
                  (Inr (Some cl), db) \<Rightarrow>
                    (Passed cl, case clear_login_failures (ge_up env ClearFailures) rate_key db of Inr db' \<Rightarrow> db' | Inl _ \<Rightarrow> db)
                | (Inr None, db) \<Rightarrow> (Refused 401, note_login_failure (ge_up env) (ge_now env) rate_key db)
                | (Inl _, db) \<Rightarrow> (Refused 500, db))))"

definition session_claims :: "gate_env \<Rightarrow> http_request \<Rightarrow> session_service \<Rightarrow> claims gate \<times> session_service" where
  "session_claims env req s =
     (case rq_cookies req (cookie_name (ge_force_https env)) of
        None \<Rightarrow> (Refused 401, s)
      | Some sid \<Rightarrow>
          (case claims_for_session (ge_settings env) (ge_now env) sid s of
             (Some cl, s) \<Rightarrow> (Passed cl, s)
           | (None, s) \<Rightarrow> (Refused 401, s)))"

definition auth_middleware :: "gate_env \<Rightarrow> http_request \<Rightarrow> gate_state \<Rightarrow> claims option gate \<times> gate_state" where
  "auth_middleware env req st =
     (if is_auth_exempt_request (rq_path req) (rq_method req) then (Passed None, st)
      else
        let (r, st) =
          (case rq_api_key req of
             Some key \<Rightarrow>
               (let (r, db) = api_key_claims env (api_key_rate_key req) key (gs_db st) in (r, st\<lparr>gs_db := db\<rparr>))
           | None \<Rightarrow>
               (let (r, s) = session_claims env req (gs_sessions st) in (r, st\<lparr>gs_sessions := s\<rparr>)))
        in (case r of
              Refused n \<Rightarrow> Refused n
            | Passed cl \<Rightarrow>
                (case required_permission (rq_path req) (rq_method req) of
                   Some p \<Rightarrow> if p \<in> set (cl_permissions cl) then Passed (Some cl) else Refused 403
                 | None \<Rightarrow> Passed (Some cl)),
            st))"

section \<open>CSRF tokens\<close>

definition is_state_changing :: "http_method \<Rightarrow> bool" where
  "is_state_changing method \<longleftrightarrow> \<not> (method = GET \<or> method = HEAD \<or> method = OPTIONS)"

definition is_csrf_exempt_path :: "string \<Rightarrow> bool" where
  "is_csrf_exempt_path path \<longleftrightarrow>
     path = ''/api/auth/login'' \<or> starts_with path ''/api/setup/'' \<or> starts_with path ''/ws/''"

definition should_require_csrf_token :: "string \<Rightarrow> http_method \<Rightarrow> bool \<Rightarrow> bool" where
  "should_require_csrf_token path method has_api_key \<longleftrightarrow>
     \<not> has_api_key \<and> is_state_changing method \<and> \<not> is_csrf_exempt_path path"

definition csrf_middleware :: "gate_env \<Rightarrow> http_request \<Rightarrow> session_service \<Rightarrow> unit gate \<times> session_service" where
  "csrf_middleware env req s =
     (if \<not> should_require_csrf_token (rq_path req) (rq_method req) (rq_api_key req \<noteq> None) then (Passed (), s)
      else case rq_csrf_token req of
             None \<Rightarrow> (Refused 403, s)
           | Some token \<Rightarrow>
               (case rq_cookies req (cookie_name (ge_force_https env)) of
                  None \<Rightarrow> (Refused 403, s)
                | Some sid \<Rightarrow>
                    (case csrf_token_status (ge_settings env) (ge_now env) sid token s of
                       CsrfValid \<Rightarrow> (Passed (), s)
                     | CsrfExpired \<Rightarrow> (Refused 403, remove_session sid s)
                     | CsrfInvalid \<Rightarrow> (Refused 403, s)
                     | MissingSession \<Rightarrow> (Refused 403, s))))"

text \<open>The layers of the server around the routes of \<^verbatim>\<open>/api\<close>: authentication, then the CSRF check.\<close>

definition api_gate :: "gate_env \<Rightarrow> bool \<Rightarrow> http_request \<Rightarrow> gate_state \<Rightarrow> claims option gate \<times> gate_state" where
  "api_gate env setup_complete req st =
     (case setup_guard setup_complete req of
        Refused n \<Rightarrow> (Refused n, st)
      | Passed _ \<Rightarrow>
          (case auth_middleware env req st of
             (Refused n, st) \<Rightarrow> (Refused n, st)
           | (Passed c, st) \<Rightarrow>
               (case csrf_middleware env req (gs_sessions st) of
                  (Refused n, s) \<Rightarrow> (Refused n, st\<lparr>gs_sessions := s\<rparr>)
                | (Passed _, s) \<Rightarrow> (Passed c, st\<lparr>gs_sessions := s\<rparr>))))"

section \<open>Redirection to HTTPS\<close>

definition valid_port :: "string \<Rightarrow> bool" where
  "valid_port port \<longleftrightarrow> port \<noteq> [] \<and> parse_unsigned 16 port \<noteq> None"

definition valid_optional_port :: "string \<Rightarrow> bool" where
  "valid_optional_port suffix \<longleftrightarrow>
     (case suffix of [] \<Rightarrow> True | c # port \<Rightarrow> c = CHR '':'' \<and> valid_port port)"

definition is_valid_redirect_hostname_label :: "string \<Rightarrow> bool" where
  "is_valid_redirect_hostname_label label \<longleftrightarrow>
     label \<noteq> [] \<and> length label \<le> 63 \<and> is_ascii_alphanumeric (hd label) \<and> is_ascii_alphanumeric (last label)
     \<and> list_all (\<lambda>c. is_ascii_alphanumeric c \<or> c = CHR ''-'') label"

definition is_valid_redirect_hostname :: "string \<Rightarrow> bool" where
  "is_valid_redirect_hostname hostname \<longleftrightarrow>
     hostname \<noteq> [] \<and> length hostname \<le> 253 \<and> list_all is_valid_redirect_hostname_label (split_on (CHR ''.'') hostname)"

text \<open>The host of a \<^verbatim>\<open>Host\<close> header: in brackets for IPv6, else before the only colon.\<close>

definition redirect_hostname :: "string \<Rightarrow> string option" where
  "redirect_hostname host =
     (if host = [] then None
      else if hd host = CHR ''['' then
        (if CHR '']'' \<notin> set host then None
         else
           let hostname = takeWhile (\<lambda>c. c \<noteq> CHR '']'') (tl host);
               rest = tl (dropWhile (\<lambda>c. c \<noteq> CHR '']'') (tl host))
           in if hostname = [] \<or> \<not> valid_optional_port rest then None else Some hostname)
      else if CHR ''['' \<in> set host \<or> CHR '']'' \<in> set host then None
      else if length (filter (\<lambda>c. c = CHR '':'') host) > 1 then None
      else if CHR '':'' \<in> set host then
        (let hostname = takeWhile (\<lambda>c. c \<noteq> CHR '':'') host;
             port = tl (dropWhile (\<lambda>c. c \<noteq> CHR '':'') host)
         in if hostname = [] \<or> \<not> valid_port port then None else Some hostname)
      else Some host)"

definition is_safe_redirect_host :: "string \<Rightarrow> bool" where
  "is_safe_redirect_host host =
     (case redirect_hostname host of
        None \<Rightarrow> False
      | Some hostname \<Rightarrow>
          if to_ascii_lowercase hostname = ''localhost'' then True
          else case parse_ip_addr hostname of
                 Some (IpV4 a) \<Rightarrow>
                   (let o0 = unat (drop_bit 24 a); o1 = unat (drop_bit 16 a) mod 256
                    in o0 = 10 \<or> (o0 = 172 \<and> 16 \<le> o1 \<and> o1 \<le> 31) \<or> (o0 = 192 \<and> o1 = 168) \<or> o0 = 127)
               | Some (IpV6 a) \<Rightarrow> a = 1 \<or> (drop_bit 112 a AND 0xfe00) = 0xfc00
               | None \<Rightarrow>
                   is_valid_redirect_hostname hostname
                   \<and> (ends_with (to_ascii_lowercase hostname) ''.local'' \<or> CHR ''.'' \<notin> set hostname))"

definition is_forwarded_https :: "string \<Rightarrow> bool" where
  "is_forwarded_https proto \<longleftrightarrow> to_ascii_lowercase (trim (hd (split_on (CHR '','') proto))) = ''https''"

datatype redirection = Continue | RedirectTo string | BadHost

definition https_redirect :: "bool \<Rightarrow> string \<Rightarrow> string option \<Rightarrow> string \<Rightarrow> string \<Rightarrow> redirection" where
  "https_redirect force path forwarded_proto host uri =
     (if \<not> force \<or> starts_with path ''/health/'' then Continue
      else if is_forwarded_https (case forwarded_proto of Some p \<Rightarrow> p | None \<Rightarrow> ''http'') then Continue
      else if \<not> is_safe_redirect_host host then BadHost
      else RedirectTo (''https://'' @ host @ uri))"

section \<open>The table of routes\<close>

text \<open>A segment of a pattern is a literal or stands for any text without a slash.\<close>

datatype segment = Lit string | Param

type_synonym api_route = "http_method \<times> segment list"

definition scope :: "string list \<Rightarrow> api_route list \<Rightarrow> api_route list" where
  "scope prefix routes = map (\<lambda>(m, p). (m, map Lit prefix @ p)) routes"

definition auth_routes :: "api_route list" where
  "auth_routes = scope [''auth'']
     [(POST, [Lit ''login'']), (POST, [Lit ''logout'']), (POST, [Lit ''register'']), (GET, [Lit ''me'']),
      (POST, [Lit ''change-password'']), (GET, [Lit ''users'']), (DELETE, [Lit ''users'', Param]),
      (PUT, [Lit ''users'', Param, Lit ''role'']), (POST, [Lit ''users'', Param, Lit ''reset-password'']),
      (PUT, [Lit ''users'', Param, Lit ''groups'']), (GET, [Lit ''groups'']), (POST, [Lit ''groups'']),
      (GET, [Lit ''groups'', Param]), (PUT, [Lit ''groups'', Param]), (DELETE, [Lit ''groups'', Param])]"

definition api_key_routes :: "api_route list" where
  "api_key_routes = scope [''api-keys''] [(GET, []), (POST, [Lit ''generate'']), (DELETE, [Param])]"

definition dns_routes :: "api_route list" where
  "dns_routes = scope [''dns'', ''blacklist''] [(GET, []), (PUT, []), (DELETE, [])]"

definition http_routes :: "api_route list" where
  "http_routes = scope [''http''] [(GET, [Param]), (PUT, [Param]), (DELETE, [Param])]"

definition ssh_whitelist_routes :: "api_route list" where
  "ssh_whitelist_routes = scope [''whitelist'']
     [(GET, [Lit ''status'']), (POST, [Lit ''enable'']), (POST, [Lit ''disable'']), (GET, [Param]), (PUT, [Param]),
      (DELETE, [Param])]"

definition ssh_blacklist_routes :: "api_route list" where
  "ssh_blacklist_routes = scope [''blacklist''] [(GET, [Param]), (PUT, [Param]), (DELETE, [Param])]"

definition ssh_routes :: "api_route list" where
  "ssh_routes = scope [''ssh''] ([(GET, [Param]), (PUT, [Param]), (DELETE, [Param])] @ ssh_whitelist_routes @ ssh_blacklist_routes)"

definition filter_routes :: "api_route list" where
  "filter_routes = scope [''filter''] (http_routes @ ssh_routes @ dns_routes)"

definition acl_routes :: "api_route list" where
  "acl_routes = scope [''acl'']
     [(GET, [Lit ''ipv4'', Param, Param]), (GET, [Lit ''ipv6'', Param, Param]), (PUT, [Lit ''ipv4'', Param, Param]),
      (PUT, [Lit ''ipv6'', Param, Param]), (DELETE, [Lit ''ipv4'', Param, Param]), (DELETE, [Lit ''ipv6'', Param, Param]),
      (GET, [Lit ''geo'', Lit ''blocked'']), (PUT, [Lit ''geo'', Lit ''block'']), (DELETE, [Lit ''geo'', Lit ''unblock''])]"

definition rate_limit_routes :: "api_route list" where
  "rate_limit_routes = scope [''rate-limit''] [(GET, [Lit ''config'']), (PUT, [Lit ''config''])]"

definition notification_routes :: "api_route list" where
  "notification_routes = scope [''notifications'']
     [(GET, [Lit ''telegram'', Lit ''config'']), (POST, [Lit ''telegram'', Lit ''config'']),
      (POST, [Lit ''telegram'', Lit ''test'']), (POST, [Lit ''smtp'', Lit ''test''])]"

definition soar_routes :: "api_route list" where
  "soar_routes = scope [''soar'']
     [(GET, [Lit ''playbooks'']), (POST, [Lit ''playbooks'']), (PUT, [Lit ''playbooks'', Param]),
      (DELETE, [Lit ''playbooks'', Param]), (POST, [Lit ''playbooks'', Param, Lit ''toggle'']), (GET, [Lit ''blocks'']),
      (POST, [Lit ''blocks'', Param, Lit ''unblock'']), (GET, [Lit ''executions'']), (GET, [Lit ''whitelist'']),
      (POST, [Lit ''whitelist'']), (DELETE, [Lit ''whitelist'', Param]), (POST, [Lit ''dry-run''])]"

definition report_routes :: "api_route list" where
  "report_routes = scope [''report''] [(POST, [Lit ''generate'']), (GET, [Lit ''data'']), (POST, [Lit ''send''])]"

definition audit_routes :: "api_route list" where
  "audit_routes = scope [''audit''] [(GET, []), (GET, [Lit ''verify''])]"

definition system_routes :: "api_route list" where
  "system_routes = scope [''system'']
     [(GET, [Lit ''boot-time'']), (GET, [Lit ''enforce-mode'']), (PUT, [Lit ''enforce-mode'']), (GET, [Lit ''xdp-mode'']),
      (GET, [Lit ''config'']), (PUT, [Lit ''config'']), (GET, [Lit ''log-level'']), (PUT, [Lit ''log-level'']),
      (POST, [Lit ''shutdown'']), (POST, [Lit ''restart''])]"

definition logs_routes :: "api_route list" where
  "logs_routes = scope [''logs''] [(GET, []), (GET, [Lit ''live'']), (GET, [Param])]"

definition stats_routes :: "api_route list" where
  "stats_routes = scope [''stats'']
     [(GET, [Lit ''flows'']), (GET, [Lit ''flows'', Lit ''top'', Param]), (GET, [Lit ''summary'']), (GET, [Lit ''drops''])]"

definition fusion_routes :: "api_route list" where
  "fusion_routes = scope [''fusion''] [(GET, [Lit ''metrics'']), (GET, [Lit ''explain'', Param])]"

definition health_routes :: "api_route list" where
  "health_routes = scope [''health''] [(GET, [Lit ''metrics'']), (GET, [Lit ''status'']), (GET, [Lit ''ebpf'']), (GET, [Lit ''suricata''])]"

definition flow_trace_routes :: "api_route list" where
  "flow_trace_routes = scope [''flow-trace''] [(GET, [Lit ''files'']), (GET, [Lit ''download'', Param])]"

definition byo_routes :: "api_route list" where
  "byo_routes = scope [''byo''] [(GET, [Lit ''feature-registry'']), (GET, [Lit ''schema'']), (POST, [Lit ''validate''])]"

definition model_upload_routes :: "api_route list" where
  "model_upload_routes = scope [''ml'', ''models''] [(POST, [Lit ''upload''])]"

definition ml_routes :: "api_route list" where
  "ml_routes = scope [''ml'']
     [(GET, [Lit ''status'']), (GET, [Lit ''models'', Lit ''current'']), (DELETE, [Lit ''models'', Lit ''current'']),
      (POST, [Lit ''models'', Lit ''current'', Lit ''enable''])]"

definition setup_routes :: "api_route list" where
  "setup_routes = scope [''setup''] [(GET, [Lit ''status'']), (GET, [Lit ''interfaces'']), (POST, [Lit ''complete''])]"

definition authenticated_api :: "api_route list" where
  "authenticated_api = scope [''api'']
     (health_routes @ ml_routes @ model_upload_routes @ byo_routes @ fusion_routes @ flow_trace_routes @ stats_routes
      @ auth_routes @ acl_routes @ filter_routes @ rate_limit_routes @ soar_routes @ notification_routes @ report_routes
      @ system_routes @ setup_routes @ api_key_routes @ logs_routes @ audit_routes)"

text \<open>A path that a pattern matches, with the texts of its parameters.\<close>

fun path_of :: "segment list \<Rightarrow> string list \<Rightarrow> string" where
  "path_of [] vs = []"
| "path_of (Lit l # ps) vs = CHR ''/'' # l @ path_of ps vs"
| "path_of (Param # ps) (v # vs) = CHR ''/'' # v @ path_of ps vs"
| "path_of (Param # ps) [] = CHR ''/'' # path_of ps []"

section \<open>Every route is guarded\<close>

text \<open>The literal text a path starts with, and the prefixes that decide the required permission.\<close>

fun lead :: "segment list \<Rightarrow> string" where
  "lead [] = []"
| "lead (Lit l # ps) = CHR ''/'' # l @ lead ps"
| "lead (Param # ps) = ''/''"

fun is_lit :: "segment \<Rightarrow> bool" where
  "is_lit (Lit _) = True"
| "is_lit Param = False"

lemma path_starts_with_lead: "\<exists>t. path_of p vs = lead p @ t"
  by (induction p vs rule: path_of.induct) auto

lemma literal_path: "list_all is_lit p \<Longrightarrow> path_of p vs = lead p"
  by (induction p vs rule: path_of.induct) auto

definition guards :: "string list" where
  "guards =
     [''/api/auth/users/'', ''/api/auth/groups/'', ''/api/stats/flows'', ''/api/fusion/'', ''/api/flow-trace/'', ''/api/acl/'',
      ''/api/filter/http/'', ''/api/filter/ssh/'', ''/api/api-keys/'', ''/api/soar/'', ''/api/logs/'']"

lemma guard_requirements:
  "path_requirement (''/api/auth/users/'' @ t) = Permission PERMISSION_USERS_ADMIN"
  "path_requirement (''/api/auth/groups/'' @ t) = Permission PERMISSION_USERS_ADMIN"
  "path_requirement (''/api/stats/flows'' @ t) = Resource ''traffic_map''"
  "path_requirement (''/api/fusion/'' @ t) = Resource ''fusion''"
  "path_requirement (''/api/flow-trace/'' @ t) = Resource ''flow_trace''"
  "path_requirement (''/api/filter/http/'' @ t) = Resource ''protocol_filter''"
  "path_requirement (''/api/filter/ssh/'' @ t) = Resource ''protocol_filter''"
  "path_requirement (''/api/api-keys/'' @ t) = Permission PERMISSION_API_KEYS_ADMIN"
  by (simp_all add: path_requirement_def starts_with_def)

lemma guard_not_open:
  "path_requirement (''/api/acl/'' @ t) \<noteq> NoPermission" "path_requirement (''/api/soar/'' @ t) \<noteq> NoPermission"
  "path_requirement (''/api/logs/'' @ t) \<noteq> NoPermission"
  by (simp_all add: path_requirement_def starts_with_def)

lemma guarded_path:
  assumes "q \<in> set guards"
  shows "path_requirement (q @ t) \<noteq> NoPermission"
  using assms unfolding guards_def by (auto simp del: append_Cons simp: guard_requirements guard_not_open)

text \<open>The paths for which the table asks for no permission: those of the own session, and the setup wizard.\<close>

definition self_service :: "string list" where
  "self_service = [''/api/auth/login'', ''/api/auth/logout'', ''/api/auth/me'', ''/api/auth/change-password'']"

definition open_route :: "segment list \<Rightarrow> bool" where
  "open_route p \<longleftrightarrow> lead p \<in> set self_service \<or> starts_with (lead p) ''/api/setup/''"

definition route_guarded :: "segment list \<Rightarrow> bool" where
  "route_guarded p \<longleftrightarrow>
     open_route p
     \<or> (if list_all is_lit p then path_requirement (lead p) \<noteq> NoPermission else list_ex (\<lambda>q. starts_with (lead p) q) guards)"

lemmas route_tables =
  authenticated_api_def health_routes_def ml_routes_def model_upload_routes_def byo_routes_def fusion_routes_def
  flow_trace_routes_def stats_routes_def auth_routes_def acl_routes_def filter_routes_def http_routes_def ssh_routes_def
  ssh_whitelist_routes_def ssh_blacklist_routes_def dns_routes_def rate_limit_routes_def soar_routes_def
  notification_routes_def report_routes_def system_routes_def setup_routes_def api_key_routes_def logs_routes_def
  audit_routes_def scope_def

lemma routes_guarded: "list_all (\<lambda>(m, p). route_guarded p) authenticated_api"
  by code_simp

lemma required_iff: "required_permission path m = None \<longleftrightarrow> path_requirement path = NoPermission"
  by (auto simp: required_permission_def split: requirement.splits)

text \<open>A permission to change something is not one of those that only read.\<close>

lemma read_only_permissions:
  "p \<in> set VIEWER_PERMISSIONS \<Longrightarrow> ends_with p '':read''" "p \<in> set API_KEY_READ_ONLY_PERMISSIONS \<Longrightarrow> ends_with p '':read''"
  by (auto simp: VIEWER_PERMISSIONS_def API_KEY_READ_ONLY_PERMISSIONS_def ends_with_def starts_with_def)

lemma named_requirement:
  "path_requirement path = Permission p \<Longrightarrow>
   p = PERMISSION_USERS_ADMIN \<or> p = PERMISSION_API_KEYS_ADMIN \<or> p = PERMISSION_ACCESS_CONTROL_WRITE"
  by (simp add: path_requirement_def split: if_split_asm)

lemma changing_needs_more:
  assumes "required_permission path m = Some p" "m \<noteq> GET"
  shows "\<not> ends_with p '':read''"
proof (cases "path_requirement path")
  case (Permission q)
  then have "p = q" using assms by (simp add: required_permission_def)
  with named_requirement [OF Permission] show ?thesis
    by (auto simp: PERMISSION_USERS_ADMIN_def PERMISSION_API_KEYS_ADMIN_def PERMISSION_ACCESS_CONTROL_WRITE_def
                   ends_with_def starts_with_def)
qed (use assms in \<open>auto simp: required_permission_def ends_with_def starts_with_def\<close>)

text \<open>
  C18. Every route is guarded: a route of the administration API, with any texts for its parameters, requires a
  permission, except the four that concern the caller's own session and those of the setup wizard; and a
  route that is not a plain read requires a permission that neither the group of viewers nor an API key of the
  level read-only has.
\<close>

theorem every_route_is_guarded:
  assumes "(m, p) \<in> set authenticated_api" "\<not> open_route p"
  shows "\<exists>perm. required_permission (path_of p vs) m = Some perm
           \<and> (m \<noteq> GET \<longrightarrow> perm \<notin> set VIEWER_PERMISSIONS \<and> perm \<notin> set API_KEY_READ_ONLY_PERMISSIONS)"
proof -
  have g: "route_guarded p" using routes_guarded assms(1) by (auto simp: list_all_iff)
  have "path_requirement (path_of p vs) \<noteq> NoPermission"
  proof (cases "list_all is_lit p")
    case True
    then show ?thesis using g assms(2) by (simp add: route_guarded_def literal_path)
  next
    case False
    then obtain q where q: "q \<in> set guards" "starts_with (lead p) q"
      using g assms(2) by (auto simp: route_guarded_def list_ex_iff)
    obtain t where "path_of p vs = q @ t"
      using path_starts_with_lead [of p vs] q(2) by (auto simp: starts_with_iff)
    then show ?thesis using guarded_path [OF q(1)] by simp
  qed
  then obtain perm where perm: "required_permission (path_of p vs) m = Some perm" using required_iff by (metis option.exhaust)
  then show ?thesis using changing_needs_more read_only_permissions by blast
qed

theorem every_route_is_guarded_witness:
  "\<exists>perm. required_permission ''/api/soar/blocks/7/unblock'' POST = Some perm
     \<and> perm \<notin> set VIEWER_PERMISSIONS \<and> perm \<notin> set API_KEY_READ_ONLY_PERMISSIONS"
proof -
  let ?p = "[Lit ''api'', Lit ''soar'', Lit ''blocks'', Param, Lit ''unblock'']"
  have "(POST, ?p) \<in> set authenticated_api" by (simp add: route_tables)
  moreover have "\<not> open_route ?p" by (simp add: open_route_def self_service_def starts_with_def)
  moreover have "path_of ?p [''7''] = ''/api/soar/blocks/7/unblock''" by simp
  ultimately show ?thesis using every_route_is_guarded [of POST ?p "[''7'']"] by auto
qed

section \<open>What passes the gate\<close>

text \<open>The claims of a request with an API key are those of a stored key.\<close>

lemma api_key_claims_Passed:
  assumes "api_key_claims env k key db = (Passed cl, db')"
  shows "\<exists>row l. row \<in> set (t_keys db) \<and> kr_key_hash row = ge_hash_api_key env key
           \<and> level_from_str (kr_permission_level row) = Some l \<and> cl_sub cl = - kr_id row \<and> cl_permissions cl = level_permissions l"
proof -
  obtain db1 where db1: "clear_expired_login_lock (ge_up env ClearLock) (ge_now env) k db = Inr db1"
    and v: "fst (validate_api_key (ge_up env ValidateKey) (ge_stamp env) (ge_hash_api_key env key) db1) = Inr (Some cl)"
    using assms by (auto simp: api_key_claims_def split: sum.splits option.splits prod.splits)
  have "t_keys db1 = t_keys db"
    using db1 by (auto simp: clear_expired_login_lock_def split: if_splits option.splits)
  with v obtain row l where "find (\<lambda>r. kr_key_hash r = ge_hash_api_key env key) (t_keys db) = Some row"
    "level_from_str (kr_permission_level row) = Some l" "cl_sub cl = - kr_id row" "cl_permissions cl = level_permissions l"
    by (auto simp: validate_api_key_def result_iffs split: if_splits option.splits)
  then show ?thesis by (blast dest: find_mem)
qed

lemma session_claims_Passed:
  assumes "session_claims env req s = (Passed cl, s')"
  shows "\<exists>sid r. rq_cookies req (cookie_name (ge_force_https env)) = Some sid \<and> sv_sessions s sid = Some r
           \<and> \<not> record_expired (ge_settings env) (ge_now env) r \<and> cl = sr_claims r
           \<and> (\<exists>r'. sv_sessions s' sid = Some r' \<and> sr_csrf_token r' = sr_csrf_token r)"
  using assms by (auto simp: session_claims_def claims_for_session_def split: option.splits prod.splits if_splits)

text \<open>
  C16. What passes the gate: a request that reaches a handler, and that is not one of the exempt ones, either
  carries an API key whose digest is stored and whose level grants the required permission, or the cookie of
  a session that exists, has neither expired nor idled out and whose claims hold the required permission; in
  the second case, if it may change state, it also carries the CSRF token of that session. A handler sees
  exactly these claims.
\<close>

theorem admitted_request_is_authorised:
  assumes pass: "api_gate env set_up req st = (Passed c, st')"
    and guarded: "\<not> is_auth_exempt_request (rq_path req) (rq_method req)"
    and fits: "\<forall>sid r. sv_sessions (gs_sessions st) sid = Some r \<longrightarrow> length (sr_csrf_token r) < 2 ^ 64"
      "\<forall>t. rq_csrf_token req = Some t \<longrightarrow> length t < 2 ^ 64"
  shows "\<exists>cl. c = Some cl
     \<and> (\<forall>perm. required_permission (rq_path req) (rq_method req) = Some perm \<longrightarrow> perm \<in> set (cl_permissions cl))
     \<and> (case rq_api_key req of
          Some key \<Rightarrow>
            (\<exists>row l. row \<in> set (t_keys (gs_db st)) \<and> kr_key_hash row = ge_hash_api_key env key
               \<and> level_from_str (kr_permission_level row) = Some l \<and> cl_permissions cl = level_permissions l)
        | None \<Rightarrow>
            (\<exists>sid r. rq_cookies req (cookie_name (ge_force_https env)) = Some sid
               \<and> sv_sessions (gs_sessions st) sid = Some r \<and> \<not> record_expired (ge_settings env) (ge_now env) r
               \<and> cl = sr_claims r \<and> (is_state_changing (rq_method req) \<longrightarrow> rq_csrf_token req = Some (sr_csrf_token r))))"
proof -
  obtain st1 where auth: "auth_middleware env req st = (Passed c, st1)"
    and csrf: "fst (csrf_middleware env req (gs_sessions st1)) = Passed ()"
    using pass by (auto simp: api_gate_def split: gate.splits prod.splits)
  have csrf_path: "\<not> is_csrf_exempt_path (rq_path req)"
    using guarded by (auto simp: is_auth_exempt_request_def is_csrf_exempt_path_def starts_with_iff)
  show ?thesis
  proof (cases "rq_api_key req")
    case (Some key)
    obtain cl db' where k: "api_key_claims env (api_key_rate_key req) key (gs_db st) = (Passed cl, db')" and c: "c = Some cl"
      and perm: "\<forall>perm. required_permission (rq_path req) (rq_method req) = Some perm \<longrightarrow> perm \<in> set (cl_permissions cl)"
      using auth guarded Some by (auto simp: auth_middleware_def split: gate.splits prod.splits option.splits if_splits)
    from api_key_claims_Passed [OF k] perm c Some show ?thesis by auto
  next
    case None
    obtain cl s1 where k: "session_claims env req (gs_sessions st) = (Passed cl, s1)" and c: "c = Some cl" "gs_sessions st1 = s1"
      and perm: "\<forall>perm. required_permission (rq_path req) (rq_method req) = Some perm \<longrightarrow> perm \<in> set (cl_permissions cl)"
      using auth guarded None by (auto simp: auth_middleware_def split: gate.splits prod.splits option.splits if_splits)
    obtain sid r r' where r: "rq_cookies req (cookie_name (ge_force_https env)) = Some sid"
      "sv_sessions (gs_sessions st) sid = Some r" "\<not> record_expired (ge_settings env) (ge_now env) r" "cl = sr_claims r"
      "sv_sessions s1 sid = Some r'" "sr_csrf_token r' = sr_csrf_token r"
      using session_claims_Passed [OF k] by blast
    have "rq_csrf_token req = Some (sr_csrf_token r)" if changing: "is_state_changing (rq_method req)"
    proof -
      obtain t where t: "rq_csrf_token req = Some t" "csrf_token_status (ge_settings env) (ge_now env) sid t s1 = CsrfValid"
        using csrf None changing csrf_path r(1) c(2)
        by (auto simp: csrf_middleware_def should_require_csrf_token_def split: option.splits csrf_status.splits)
      then have "constant_time_eq (sr_csrf_token r) t"
        using r(5,6) by (auto simp: csrf_token_status_def split: if_splits)
      then show ?thesis using t(1) fits r(2) constant_time_eq_iff by blast
    qed
    with r perm c(1) None show ?thesis by auto
  qed
qed

text \<open>A browser with the session of the sample, listing the accounts.\<close>

definition sample_request :: http_request where
  "sample_request =
     \<lparr>rq_path = ''/api/auth/users'', rq_method = GET, rq_api_key = None, rq_csrf_token = None,
      rq_cookies = (\<lambda>n. if n = ''netguardia_session'' then Some ''sid'' else None), rq_peer = ''10.0.0.9''\<rparr>"

definition sample_env :: gate_env where
  "sample_env = \<lparr>ge_up = (\<lambda>_. True), ge_hash_api_key = (\<lambda>k. k), ge_settings = sample_settings, ge_force_https = False,
                 ge_now = 2000, ge_stamp = []\<rparr>"

definition sample_state :: gate_state where
  "sample_state = \<lparr>gs_db = sample_identity, gs_sessions = sample_session\<rparr>"

lemma sample_request_passes: "\<exists>st'. api_gate sample_env True sample_request sample_state = (Passed (Some sample_claims), st')"
proof -
  obtain s3 where "claims_for_session sample_settings 2000 ''sid'' sample_session = (Some sample_claims, s3)"
    using sample_session_accepted by (metis prod.collapse)
  then have "session_claims sample_env sample_request sample_session = (Passed sample_claims, s3)"
    by (simp add: session_claims_def sample_env_def sample_request_def cookie_name_def SESSION_COOKIE_NAME_def)
  moreover have "required_permission (rq_path sample_request) (rq_method sample_request) = Some ''users:admin''"
    by (simp add: required_permission_def path_requirement_def starts_with_def PERMISSION_USERS_ADMIN_def sample_request_def)
  moreover have "\<not> is_auth_exempt_request (rq_path sample_request) (rq_method sample_request)" "rq_api_key sample_request = None"
    "''users:admin'' \<in> set (cl_permissions sample_claims)"
    by (simp_all add: is_auth_exempt_request_def starts_with_def sample_request_def sample_claims_def)
  ultimately have "auth_middleware sample_env sample_request sample_state =
      (Passed (Some sample_claims), sample_state\<lparr>gs_sessions := s3\<rparr>)"
    by (simp add: auth_middleware_def sample_state_def)
  moreover have "csrf_middleware sample_env sample_request s = (Passed (), s)" for s
    by (simp add: csrf_middleware_def should_require_csrf_token_def is_state_changing_def sample_request_def)
  moreover have "setup_guard True sample_request = Passed ()"
    by (simp add: setup_guard_def starts_with_def sample_request_def)
  ultimately show ?thesis by (simp add: api_gate_def)
qed

theorem admitted_request_is_authorised_witness:
  "(\<exists>st'. api_gate sample_env True sample_request sample_state = (Passed (Some sample_claims), st'))
   \<and> required_permission ''/api/auth/users'' GET = Some ''users:admin'' \<and> ''users:admin'' \<in> set (cl_permissions sample_claims)"
proof -
  obtain st' where p: "api_gate sample_env True sample_request sample_state = (Passed (Some sample_claims), st')"
    using sample_request_passes by blast
  have tokens: "\<forall>sid r. sv_sessions (gs_sessions sample_state) sid = Some r \<longrightarrow> length (sr_csrf_token r) < 2 ^ 64"
    by (simp add: sample_state_def sample_session_def create_session_def SessionService_new_def GC_INTERVAL_LOGINS_def
                  remove_expired_sessions_def retain_def Let_def)
  have "required_permission ''/api/auth/users'' GET = Some ''users:admin''"
    by (simp add: required_permission_def path_requirement_def starts_with_def PERMISSION_USERS_ADMIN_def)
  with admitted_request_is_authorised [OF p _ tokens] p show ?thesis
    by (simp add: is_auth_exempt_request_def starts_with_def sample_request_def)
qed

section \<open>Shared counters\<close>

text \<open>
  Failed logins and failed API keys are counted in one table: five logins under the name
  \<^verbatim>\<open>apikey:\<close> followed by an address, which need no account and no key, lock the API clients of that
  address out for 900 seconds, whatever key they present.
\<close>

lemma failure_row_at:
  fixes db :: identity_db
  defines "db' \<equiv> \<lambda>now name. db\<lparr>t_attempts := (t_attempts db)(name \<mapsto> failure_row (failures db name) now)\<rparr>"
  shows "failures db name + 1 < 5 \<Longrightarrow> failures (db' now name) name = failures db name + 1 \<and> \<not> locked_at t (db' now name) name"
    and "failures db name + 1 = 5 \<Longrightarrow> locked_at t (db' now name) name \<longleftrightarrow> uint t < uint now + 900"
  by (simp_all add: db'_def failures_def failure_row_def locked_at_def)

lemma wrong_logins_count:
  assumes "wf_identity db" "\<And>c. up c" "sane_clock now" "wrong_password verify name pw db" "\<not> locked_at now db name"
    "failures db name = c" "c + int n < 5"
  shows "\<exists>db'. ((\<lambda>d. snd (login up pj verify now name pw d)) ^^ n) db = db' \<and> wf_identity db' \<and> \<not> locked_at now db' name
           \<and> failures db' name = c + int n \<and> wrong_password verify name pw db'"
  using assms(7)
proof (induction n)
  case (Suc n)
  then obtain d where d: "((\<lambda>d. snd (login up pj verify now name pw d)) ^^ n) db = d" "wf_identity d"
    "\<not> locked_at now d name" "failures d name = c + int n" "wrong_password verify name pw d"
    by auto
  from login_wrong [OF d(2) assms(2,3) d(3,5), where pj = pj] failure_row_at(1) [of d name now now] d Suc.prems
  show ?case using wf_failure_row [OF d(2) assms(3), of name] by simp
qed (use assms in simp)

lemma logins_lock_api_clients:
  assumes "wf_identity db" "t_attempts db (api_key_rate_key req) = None" "sane_clock now"
    "wrong_password verify (api_key_rate_key req) pw db" "\<And>c. up c"
    and env: "ge_up env RemainingLock" "uint (ge_now env) < uint now + 900"
  shows "fst (api_key_claims env (api_key_rate_key req) key
               (((\<lambda>d. snd (login up pj verify now (api_key_rate_key req) pw d)) ^^ 5) db)) = Refused 429"
proof -
  let ?k = "api_key_rate_key req" and ?f = "\<lambda>d. snd (login up pj verify now (api_key_rate_key req) pw d)"
  have "\<not> locked_at now db ?k" "failures db ?k = 0" using assms(2) by (simp_all add: locked_at_def failures_def)
  from wrong_logins_count [OF assms(1,5,3,4) this, where n = 4 and pj = pj] obtain d where d: "(?f ^^ 4) db = d"
    "wf_identity d" "\<not> locked_at now d ?k" "failures d ?k = 4" "wrong_password verify ?k pw d" by auto
  let ?d5 = "d\<lparr>t_attempts := (t_attempts d)(?k \<mapsto> failure_row (failures d ?k) now)\<rparr>"
  have "(?f ^^ 5) db = ?f ((?f ^^ 4) db)" by (simp add: numeral_eq_Suc)
  then have "(?f ^^ 5) db = ?d5" using login_wrong [OF d(2) assms(5,3) d(3,5), where pj = pj] d(1) by simp
  moreover have "locked_at (ge_now env) ?d5 ?k" using failure_row_at(2) [of d ?k] d(4) env(2) by simp
  moreover have "wf_identity ?d5" using d(2) assms(3) by (rule wf_failure_row)
  ultimately show ?thesis using remaining_lock_iff [of ?d5 "ge_now env" ?k] env(1) by (auto simp: api_key_claims_def)
qed

end
