(* ===== verification/Identity_Api.thy ===== *)
theory Identity_Api
  imports Account_Rules Access_Gate
begin

text \<open>
  The handlers for accounts, groups and API keys (\<^verbatim>\<open>adapter/http/identity/auth.rs\<close> and
  \<^verbatim>\<open>api_keys.rs\<close>). A handler answers with a status and a body and changes the tables and the sessions; it
  runs after the gate, with the caller's claims, and its calls of the store are served or not as \<open>ge_up\<close>
  says. Decoding of requests and encoding of answers are the framework's.
\<close>

datatype 'a reply = Reply nat 'a "cookie list" | ErrorReply nat

section \<open>Errors\<close>

definition user_error_reply :: "user_error \<Rightarrow> 'a reply" where
  "user_error_reply e =
     (case e of
        UserValidation _ \<Rightarrow> ErrorReply 400
      | Unauthorized \<Rightarrow> ErrorReply 401
      | UserForbidden _ \<Rightarrow> ErrorReply 403
      | UserMissing _ \<Rightarrow> ErrorReply 404
      | UserHashFailed \<Rightarrow> ErrorReply 500
      | UserConflict _ \<Rightarrow> ErrorReply 409
      | UserInternal _ \<Rightarrow> ErrorReply 500)"

definition group_error_reply :: "group_error \<Rightarrow> 'a reply" where
  "group_error_reply e =
     (case e of
        GroupValidation _ \<Rightarrow> ErrorReply 400
      | GroupForbidden _ \<Rightarrow> ErrorReply 403
      | GroupMissing _ \<Rightarrow> ErrorReply 404
      | GroupConflict _ \<Rightarrow> ErrorReply 409
      | GroupInternal _ \<Rightarrow> ErrorReply 500)"

definition register_error_reply :: "register_error \<Rightarrow> 'a reply" where
  "register_error_reply e =
     (case e of
        RegisterValidation _ \<Rightarrow> ErrorReply 400
      | InvalidRole \<Rightarrow> ErrorReply 400
      | RegisterForbidden \<Rightarrow> ErrorReply 403
      | RegisterHashFailed \<Rightarrow> ErrorReply 500
      | RegisterConflict _ \<Rightarrow> ErrorReply 409
      | RegisterInternal _ \<Rightarrow> ErrorReply 500)"

section \<open>Sessions\<close>

definition login_handler ::
  "gate_env \<Rightarrow> (string \<Rightarrow> json option) \<Rightarrow> (string \<Rightarrow> string \<Rightarrow> bool option) \<Rightarrow> string \<Rightarrow> string \<Rightarrow> string \<Rightarrow> string \<Rightarrow> gate_state
   \<Rightarrow> (string \<times> bool \<times> string) reply \<times> gate_state" where
  "login_handler env pj verify session_id token username password st =
     (case login (ge_up env) pj verify (ge_now env) username password (gs_db st) of
        (Inr result, db) \<Rightarrow>
          (let cl = \<lparr>cl_sub = lr_user_id result, cl_username = lr_username result, cl_role = lr_role result,
                     cl_permissions = lr_permissions result\<rparr>;
               (session, s) = create_session (ge_settings env) (ge_now env) session_id token cl (gs_sessions st)
           in (Reply 200 (lr_role result, lr_force_password_change result, cs_csrf_token session)
                 [session_cookie (ge_force_https env) session],
               st\<lparr>gs_db := db, gs_sessions := s\<rparr>))
      | (Inl (Locked _), db) \<Rightarrow> (ErrorReply 429, st\<lparr>gs_db := db\<rparr>)
      | (Inl InvalidCredentials, db) \<Rightarrow> (ErrorReply 401, st\<lparr>gs_db := db\<rparr>)
      | (Inl LoginInternal, db) \<Rightarrow> (ErrorReply 500, st\<lparr>gs_db := db\<rparr>))"

definition logout_handler :: "gate_env \<Rightarrow> http_request \<Rightarrow> gate_state \<Rightarrow> unit reply \<times> gate_state" where
  "logout_handler env req st =
     (Reply 200 () (removal_cookies (ge_force_https env)),
      case rq_cookies req (cookie_name (ge_force_https env)) of
        Some sid \<Rightarrow> st\<lparr>gs_sessions := remove_session sid (gs_sessions st)\<rparr>
      | None \<Rightarrow> st)"

definition me_handler ::
  "gate_env \<Rightarrow> (string \<Rightarrow> json option) \<Rightarrow> http_request \<Rightarrow> claims \<Rightarrow> gate_state \<Rightarrow> (user_profile \<times> string option) reply" where
  "me_handler env pj req auth st =
     (case svc_user_profile (ge_up env) pj (cl_sub auth) (cl_username auth) (gs_db st) of
        Inr profile \<Rightarrow>
          Reply 200 (profile,
            Option.bind (rq_cookies req (cookie_name (ge_force_https env)))
              (\<lambda>sid. csrf_token_for_session (ge_settings env) (ge_now env) sid (gs_sessions st))) []
      | Inl _ \<Rightarrow> ErrorReply 500)"

definition forget_user :: "int \<Rightarrow> identity_db \<Rightarrow> gate_state \<Rightarrow> gate_state" where
  "forget_user i db st = st\<lparr>gs_db := db, gs_sessions := remove_sessions_for_user i (gs_sessions st)\<rparr>"

section \<open>Accounts\<close>

definition register_handler ::
  "gate_env \<Rightarrow> (string \<Rightarrow> string option) \<Rightarrow> claims \<Rightarrow> string \<Rightarrow> string \<Rightarrow> string \<Rightarrow> gate_state \<Rightarrow> (string \<times> string) reply \<times> gate_state" where
  "register_handler env hash auth username password role st =
     (case register (ge_up env) hash (ge_stamp env) username password role (cl_role auth) (gs_db st) of
        (Inr _, db) \<Rightarrow> (Reply 201 (username, role) [], st\<lparr>gs_db := db\<rparr>)
      | (Inl e, db) \<Rightarrow> (register_error_reply e, st\<lparr>gs_db := db\<rparr>))"

definition change_password_handler ::
  "gate_env \<Rightarrow> (string \<Rightarrow> string \<Rightarrow> bool option) \<Rightarrow> (string \<Rightarrow> string option) \<Rightarrow> claims \<Rightarrow> string \<Rightarrow> string \<Rightarrow> gate_state
   \<Rightarrow> unit reply \<times> gate_state" where
  "change_password_handler env verify hash auth current_password new_password st =
     (case svc_change_password (ge_up env) verify hash (cl_sub auth) current_password new_password (gs_db st) of
        Inr db \<Rightarrow> (Reply 200 () (removal_cookies (ge_force_https env)), forget_user (cl_sub auth) db st)
      | Inl e \<Rightarrow> (user_error_reply e, st))"

definition list_users_handler :: "gate_env \<Rightarrow> gate_state \<Rightarrow> user_list_response list reply" where
  "list_users_handler env st =
     (case svc_list_users (ge_up env) (gs_db st) of Inr us \<Rightarrow> Reply 200 us [] | Inl _ \<Rightarrow> ErrorReply 500)"

definition delete_user_handler :: "gate_env \<Rightarrow> claims \<Rightarrow> int \<Rightarrow> gate_state \<Rightarrow> unit reply \<times> gate_state" where
  "delete_user_handler env auth i st =
     (case svc_delete_user (ge_up env) (cl_sub auth) i (gs_db st) of
        Inr (True, db) \<Rightarrow> (Reply 200 () [], forget_user i db st)
      | Inr (False, db) \<Rightarrow> (ErrorReply 404, st\<lparr>gs_db := db\<rparr>)
      | Inl e \<Rightarrow> (user_error_reply e, st))"

definition update_role_handler :: "gate_env \<Rightarrow> claims \<Rightarrow> int \<Rightarrow> string \<Rightarrow> gate_state \<Rightarrow> string reply \<times> gate_state" where
  "update_role_handler env auth i role st =
     (if role \<noteq> ROLE_ADMIN \<and> role \<noteq> ROLE_VIEWER then (ErrorReply 400, st)
      else case svc_update_role (ge_up env) (cl_sub auth) i role (gs_db st) of
             Inr db \<Rightarrow> (Reply 200 role [], forget_user i db st)
           | Inl e \<Rightarrow> (user_error_reply e, st))"

definition reset_password_handler ::
  "gate_env \<Rightarrow> (string \<Rightarrow> string option) \<Rightarrow> claims \<Rightarrow> int \<Rightarrow> string option \<Rightarrow> string option \<Rightarrow> gate_state \<Rightarrow> unit reply \<times> gate_state" where
  "reset_password_handler env hash auth i new_password password st =
     (case (case new_password of Some p \<Rightarrow> Some p | None \<Rightarrow> password) of
        None \<Rightarrow> (ErrorReply 400, st)
      | Some p \<Rightarrow>
          (case svc_reset_password (ge_up env) hash i p (gs_db st) of
             Inr db \<Rightarrow>
               (Reply 200 () (if i = cl_sub auth then removal_cookies (ge_force_https env) else []), forget_user i db st)
           | Inl e \<Rightarrow> (user_error_reply e, st)))"

definition set_user_groups_handler :: "gate_env \<Rightarrow> claims \<Rightarrow> int \<Rightarrow> int list \<Rightarrow> gate_state \<Rightarrow> int list reply \<times> gate_state" where
  "set_user_groups_handler env auth i gids st =
     (case svc_set_user_groups (ge_up env) (cl_sub auth) i gids (gs_db st) of
        Inr db \<Rightarrow> (Reply 200 gids [], forget_user i db st)
      | Inl e \<Rightarrow> (user_error_reply e, st))"

section \<open>Groups\<close>

definition forget_users :: "int list \<Rightarrow> session_service \<Rightarrow> session_service" where
  "forget_users us s = fold remove_sessions_for_user us s"

definition invalidate_group_member_sessions ::
  "faults \<Rightarrow> (string \<Rightarrow> json option) \<Rightarrow> int \<Rightarrow> identity_db \<Rightarrow> session_service \<Rightarrow> session_service" where
  "invalidate_group_member_sessions up pj gid db s =
     (case svc_get_group up pj gid db of
        Inr (Some grp) \<Rightarrow> forget_users (gd_members grp) s
      | _ \<Rightarrow> s)"

definition group_member_ids :: "faults \<Rightarrow> (string \<Rightarrow> json option) \<Rightarrow> int \<Rightarrow> identity_db \<Rightarrow> int list" where
  "group_member_ids up pj gid db =
     (case svc_get_group up pj gid db of Inr (Some grp) \<Rightarrow> gd_members grp | _ \<Rightarrow> [])"

definition list_groups_handler :: "gate_env \<Rightarrow> (string \<Rightarrow> json option) \<Rightarrow> gate_state \<Rightarrow> group_list_response list reply" where
  "list_groups_handler env pj st =
     (case svc_list_groups (ge_up env) pj (gs_db st) of Inr gs \<Rightarrow> Reply 200 gs [] | Inl _ \<Rightarrow> ErrorReply 500)"

definition create_group_handler ::
  "gate_env \<Rightarrow> (string \<Rightarrow> json option) \<Rightarrow> (json \<Rightarrow> string) \<Rightarrow> string option \<Rightarrow> string option \<Rightarrow> json option \<Rightarrow> gate_state
   \<Rightarrow> group_mutation_response reply \<times> gate_state" where
  "create_group_handler env pj sj name description permissions st =
     (case svc_create_group (ge_up env) pj sj (ge_stamp env) name description permissions (gs_db st) of
        Inr (grp, db) \<Rightarrow> (Reply 201 grp [], st\<lparr>gs_db := db\<rparr>)
      | Inl e \<Rightarrow> (group_error_reply e, st))"

definition get_group_handler :: "gate_env \<Rightarrow> (string \<Rightarrow> json option) \<Rightarrow> int \<Rightarrow> gate_state \<Rightarrow> group_detail_response reply" where
  "get_group_handler env pj gid st =
     (case svc_get_group (ge_up env) pj gid (gs_db st) of
        Inr (Some grp) \<Rightarrow> Reply 200 grp []
      | Inr None \<Rightarrow> ErrorReply 404
      | Inl _ \<Rightarrow> ErrorReply 500)"

text \<open>\<open>up'\<close> are the calls of the second reading of the group, whose failure is ignored.\<close>

definition update_group_handler ::
  "gate_env \<Rightarrow> faults \<Rightarrow> (string \<Rightarrow> json option) \<Rightarrow> (json \<Rightarrow> string) \<Rightarrow> int \<Rightarrow> string option \<Rightarrow> string option \<Rightarrow> json option \<Rightarrow> gate_state
   \<Rightarrow> group_mutation_response reply \<times> gate_state" where
  "update_group_handler env up' pj sj gid name description permissions st =
     (case svc_update_group (ge_up env) pj sj gid name description permissions (gs_db st) of
        Inr (grp, db) \<Rightarrow>
          (Reply 200 grp [],
           st\<lparr>gs_db := db, gs_sessions := invalidate_group_member_sessions up' pj gid db (gs_sessions st)\<rparr>)
      | Inl e \<Rightarrow> (group_error_reply e, st))"

definition delete_group_handler ::
  "gate_env \<Rightarrow> faults \<Rightarrow> (string \<Rightarrow> json option) \<Rightarrow> int \<Rightarrow> gate_state \<Rightarrow> unit reply \<times> gate_state" where
  "delete_group_handler env up' pj gid st =
     (let members = group_member_ids up' pj gid (gs_db st)
      in case svc_delete_group (ge_up env) gid (gs_db st) of
           Inr (True, db) \<Rightarrow> (Reply 200 () [], st\<lparr>gs_db := db, gs_sessions := forget_users members (gs_sessions st)\<rparr>)
         | Inr (False, db) \<Rightarrow> (ErrorReply 404, st\<lparr>gs_db := db\<rparr>)
         | Inl e \<Rightarrow> (group_error_reply e, st))"

section \<open>API keys\<close>

definition list_keys_handler :: "gate_env \<Rightarrow> gate_state \<Rightarrow> api_key_view list reply" where
  "list_keys_handler env st =
     (case list_api_keys (ge_up env ListKeys) (gs_db st) of Inr ks \<Rightarrow> Reply 200 ks [] | Inl _ \<Rightarrow> ErrorReply 500)"

definition generate_key_handler ::
  "gate_env \<Rightarrow> string \<Rightarrow> string \<Rightarrow> string option \<Rightarrow> gate_state \<Rightarrow> (int \<times> string \<times> string \<times> string) reply \<times> gate_state" where
  "generate_key_handler env raw_key name level st =
     (case level_from_str (case level of Some l \<Rightarrow> l | None \<Rightarrow> ''read_only'') of
        None \<Rightarrow> (ErrorReply 400, st)
      | Some l \<Rightarrow>
          (let name = trim name
           in case validate_api_key_name name of
                Inl _ \<Rightarrow> (ErrorReply 400, st)
              | Inr _ \<Rightarrow>
                  (case insert_api_key (ge_up env InsertKey) (ge_stamp env) (ge_hash_api_key env raw_key) name (level_as_str l) (gs_db st) of
                     Inr (i, db) \<Rightarrow> (Reply 201 (i, raw_key, name, level_as_str l) [], st\<lparr>gs_db := db\<rparr>)
                   | Inl _ \<Rightarrow> (ErrorReply 500, st))))"

definition delete_key_handler :: "gate_env \<Rightarrow> int \<Rightarrow> gate_state \<Rightarrow> unit reply \<times> gate_state" where
  "delete_key_handler env i st =
     (case delete_api_key (ge_up env DeleteKey) i (gs_db st) of
        Inr (True, db) \<Rightarrow> (Reply 200 () [], st\<lparr>gs_db := db\<rparr>)
      | Inr (False, db) \<Rightarrow> (ErrorReply 404, st\<lparr>gs_db := db\<rparr>)
      | Inl _ \<Rightarrow> (ErrorReply 500, st))"

section \<open>Sessions and rights\<close>

text \<open>
  The claims of a session are a copy, made at the login. They agree with the tables when the account exists,
  the permissions are among those its groups grant and the role is the one its groups give.
\<close>

definition claims_current :: "(string \<Rightarrow> json option) \<Rightarrow> identity_db \<Rightarrow> claims \<Rightarrow> bool" where
  "claims_current pj db cl \<longleftrightarrow>
     user_exists (cl_sub cl) db
     \<and> (\<exists>ps. collect_permissions pj (groups_of (cl_sub cl) db) = Inr ps \<and> set (cl_permissions cl) \<subseteq> set ps)
     \<and> cl_role cl = role_from_group_names (map gv_name (groups_of (cl_sub cl) db))"

definition sessions_current :: "(string \<Rightarrow> json option) \<Rightarrow> gate_state \<Rightarrow> bool" where
  "sessions_current pj st \<longleftrightarrow> (\<forall>i r. sv_sessions (gs_sessions st) i = Some r \<longrightarrow> claims_current pj (gs_db st) (sr_claims r))"

text \<open>The claims that the sessions of a table hold.\<close>

definition live_claims :: "session_service \<Rightarrow> claims set" where
  "live_claims s = {sr_claims r | i r. sv_sessions s i = Some r}"

lemma sessions_current_iff: "sessions_current pj st \<longleftrightarrow> (\<forall>cl\<in>live_claims (gs_sessions st). claims_current pj (gs_db st) cl)"
  by (auto simp: sessions_current_def live_claims_def)

lemma live_claims_retain: "live_claims (retain p s) \<subseteq> live_claims s"
  by (auto simp: live_claims_def retain_Some_iff)

lemma live_claims_remove: "live_claims (remove_session i s) \<subseteq> live_claims s"
  by (auto simp: live_claims_def remove_session_def split: if_splits)

lemma live_claims_forget: "live_claims (remove_sessions_for_user u s) = {cl \<in> live_claims s. cl_sub cl \<noteq> u}"
  by (auto simp: live_claims_def remove_sessions_for_user_def retain_Some_iff)

lemma live_claims_forget_all: "live_claims (forget_users us s) = {cl \<in> live_claims s. cl_sub cl \<notin> set us}"
  unfolding forget_users_def by (induction us arbitrary: s) (auto simp: live_claims_forget)

lemma live_claims_insert: "live_claims (s\<lparr>sv_sessions := (sv_sessions s)(i \<mapsto> r)\<rparr>) \<subseteq> insert (sr_claims r) (live_claims s)"
  by (auto simp: live_claims_def split: if_splits)

lemma live_claims_counter [simp]: "live_claims (s\<lparr>sv_login_counter := n\<rparr>) = live_claims s"
  by (simp add: live_claims_def)

lemma live_claims_create:
  assumes "create_session cfg now i token cl s = (c, s')"
  shows "live_claims s' \<subseteq> insert cl (live_claims s)"
proof -
  obtain s1 r where s1: "s' = s1\<lparr>sv_sessions := (sv_sessions s1)(i \<mapsto> r)\<rparr>" "sr_claims r = cl"
    "s1 = s\<lparr>sv_login_counter := sv_login_counter s + 1\<rparr>
     \<or> s1 = remove_expired_sessions cfg now (s\<lparr>sv_login_counter := sv_login_counter s + 1\<rparr>)"
    using assms by (force simp: create_session_def Let_def split: if_splits)
  have "live_claims s1 \<subseteq> live_claims s"
    using s1(3)
  proof
    assume "s1 = remove_expired_sessions cfg now (s\<lparr>sv_login_counter := sv_login_counter s + 1\<rparr>)"
    then show ?thesis
      using live_claims_retain [of _ "s\<lparr>sv_login_counter := sv_login_counter s + 1\<rparr>"]
      by (simp add: remove_expired_sessions_def)
  qed simp
  then show ?thesis using live_claims_insert [of s1 i r] s1(1,2) by blast
qed

lemma live_claims_use:
  assumes "claims_for_session cfg now i s = (c, s')"
  shows "live_claims s' \<subseteq> live_claims s"
proof (cases "sv_sessions s i")
  case None
  then show ?thesis using assms by (simp add: claims_for_session_def)
next
  case (Some r)
  then have "sr_claims r \<in> live_claims s" by (auto simp: live_claims_def)
  then have "live_claims (s\<lparr>sv_sessions := (sv_sessions s)(i \<mapsto> r\<lparr>sr_last_seen_secs := now\<rparr>)\<rparr>) \<subseteq> live_claims s"
    using live_claims_insert [of s i "r\<lparr>sr_last_seen_secs := now\<rparr>"] by auto
  then show ?thesis
    using assms Some live_claims_remove [of i s] by (auto simp: claims_for_session_def split: if_splits)
qed

text \<open>An account whose groups a change leaves alone keeps its current claims.\<close>

lemma claims_current_cong:
  assumes "claims_current pj db cl" "user_exists (cl_sub cl) db'" "groups_of (cl_sub cl) db' = groups_of (cl_sub cl) db"
  shows "claims_current pj db' cl"
  using assms by (simp add: claims_current_def)

lemma sessions_current_change:
  assumes "sessions_current pj st"
    and "\<And>cl. cl \<in> live_claims (gs_sessions st') \<Longrightarrow> cl \<in> live_claims (gs_sessions st) \<and> cl_sub cl \<notin> U"
    and "\<And>u. u \<notin> U \<Longrightarrow> user_exists u (gs_db st) \<Longrightarrow> user_exists u (gs_db st') \<and> groups_of u (gs_db st') = groups_of u (gs_db st)"
  shows "sessions_current pj st'"
  unfolding sessions_current_iff
proof
  fix cl assume cl: "cl \<in> live_claims (gs_sessions st')"
  then have "claims_current pj (gs_db st) cl" using assms(1,2) by (auto simp: sessions_current_iff)
  moreover from this have "user_exists (cl_sub cl) (gs_db st)" by (simp add: claims_current_def)
  ultimately show "claims_current pj (gs_db st') cl" using assms(2) [OF cl] assms(3) by (blast intro: claims_current_cong)
qed

text \<open>What a service leaves of the groups of the other accounts.\<close>

lemma groups_of_cong:
  "t_groups db' = t_groups db \<Longrightarrow> (\<And>g. (u, g) \<in> set (t_members db') \<longleftrightarrow> (u, g) \<in> set (t_members db)) \<Longrightarrow>
   groups_of u db' = groups_of u db"
  by (simp add: groups_of_def)

lemma other_set_groups:
  assumes "svc_set_user_groups up caller i gids db = Inr db'" "u \<noteq> i"
  shows "user_exists u db' = user_exists u db \<and> groups_of u db' = groups_of u db"
proof -
  have "insert_memberships i gids (drop_memberships (\<lambda>m. fst m = i) db) = Inr db'"
    using assms by (auto simp: svc_set_user_groups_def set_user_groups_def result_iffs map_err_Inr_iff split: if_split_asm)
  from insert_memberships_tables [OF this] assms(2) show ?thesis
    by (auto simp: drop_memberships_def user_exists_def intro!: groups_of_cong)
qed

lemma user_exists_cong: "map ur_id (t_users db') = map ur_id (t_users db) \<Longrightarrow> user_exists u db' = user_exists u db"
  by (metis user_exists_iff list.set_map)

lemma other_update_role:
  assumes "svc_update_role up caller i role db = Inr db'" "u \<noteq> i"
  shows "user_exists u db' = user_exists u db \<and> groups_of u db' = groups_of u db"
proof -
  obtain g :: user_group_view where "insert_membership i (gv_id g) (drop_memberships (\<lambda>m. fst m = i) (with_role i role db)) = Inr db'"
    using svc_update_role_Inr [OF assms(1)] by blast
  note t = insert_membership_tables [OF this]
  have "map ur_id (t_users db') = map ur_id (t_users db)"
    using t by (simp add: drop_memberships_def with_role_def del: map_map)
  moreover have "t_groups db' = t_groups db" using t by (simp add: drop_memberships_def with_role_def)
  moreover have "(u, k) \<in> set (t_members db') \<longleftrightarrow> (u, k) \<in> set (t_members db)" for k
    using t assms(2) by (simp add: drop_memberships_def with_role_def)
  ultimately show ?thesis using groups_of_cong user_exists_cong by blast
qed

lemma other_delete_user:
  assumes "svc_delete_user up caller i db = Inr (b, db')" "u \<noteq> i"
  shows "user_exists u db' = user_exists u db \<and> groups_of u db' = groups_of u db"
  using assms
  by (auto simp: svc_delete_user_def delete_user_def drop_memberships_def result_iffs map_err_Inr_iff Let_def user_exists_iff
           split: if_splits intro!: groups_of_cong)

lemma tables_set_password:
  "user_exists u (set_password i h f db) = user_exists u db" "groups_of u (set_password i h f db) = groups_of u db"
  by (rule user_exists_cong, simp add: set_password_def del: map_map) (simp add: set_password_def groups_of_def)

lemma other_register:
  assumes wf: "wf_identity db" and r: "register up hash stamp name pw role caller db = (r, db')" and u: "user_exists u db"
  shows "user_exists u db' \<and> groups_of u db' = groups_of u db"
proof -
  have "u \<noteq> t_user_seq db + 1" using fresh_user_id(1) [OF wf] u by auto
  with wf r show ?thesis
  proof (cases rule: register_cases)
    case (undone e h)
    then show ?thesis
      using u no_row_of_fresh_user [OF wf] no_membership_of_fresh_user [OF wf]
      by (auto simp: delete_user_def new_account_def drop_memberships_def user_exists_def list_ex_iff Let_def
               split: if_splits sum.splits intro!: groups_of_cong)
  qed (use u in \<open>auto simp: new_account_def user_exists_def list_ex_iff intro!: groups_of_cong\<close>)
qed

lemma same_tables:
  "t_users db' = t_users db \<Longrightarrow> t_groups db' = t_groups db \<Longrightarrow> t_members db' = t_members db \<Longrightarrow>
   user_exists u db' = user_exists u db \<and> groups_of u db' = groups_of u db"
  by (simp add: user_exists_def groups_of_def)

text \<open>A new group has no members yet: its id is fresh, and memberships refer to existing groups.\<close>

lemma other_create_group:
  assumes wf: "wf_identity db" and r: "svc_create_group up pj sj stamp name d p db = Inr (r, db')"
  shows "user_exists u db' = user_exists u db \<and> groups_of u db' = groups_of u db"
proof -
  obtain g :: user_group_view where db': "db' = db\<lparr>t_groups := t_groups db @ [g], t_group_seq := t_group_seq db + 1\<rparr>"
    and g: "gv_id g = t_group_seq db + 1"
    using r by (auto simp: svc_create_group_def create_user_group_def Let_def result_iffs map_err_Inr_iff
                     split: option.splits if_split_asm)
  have "(u, t_group_seq db + 1) \<notin> set (t_members db)"
    using wf by (fastforce simp: wf_identity_def wf_members_def wf_groups_def)
  then show ?thesis by (simp add: db' g groups_of_def user_exists_def)
qed

lemma other_update_group:
  assumes r: "svc_update_group up pj sj gid name d p db = Inr (r, db')" and u: "(u, gid) \<notin> set (t_members db)"
  shows "user_exists u db' = user_exists u db \<and> groups_of u db' = groups_of u db"
proof -
  obtain n d' p' where "update_user_group (up UpdateGroup) gid n d' p' db = Inr db'"
    using r by (auto simp: svc_update_group_def Let_def result_iffs map_err_Inr_iff split: if_split_asm)
  then obtain f where db': "db' = db\<lparr>t_groups := map (\<lambda>g. if gv_id g = gid then f g else g) (t_groups db)\<rparr>"
    and f: "\<And>g. gv_id g = gid \<Longrightarrow> gv_id (f g) = gid"
    by (auto simp: update_user_group_def split: if_splits)
  have "filter (\<lambda>g. (u, gv_id g) \<in> set (t_members db)) (map (\<lambda>g. if gv_id g = gid then f g else g) gs)
        = filter (\<lambda>g. (u, gv_id g) \<in> set (t_members db)) gs" for gs
    using u f by (induction gs) auto
  then show ?thesis by (simp add: db' groups_of_def user_exists_def)
qed

lemma other_delete_group:
  assumes r: "svc_delete_group up gid db = Inr (b, db')" and u: "(u, gid) \<notin> set (t_members db)"
  shows "user_exists u db' = user_exists u db \<and> groups_of u db' = groups_of u db"
proof -
  have db': "db' = db\<lparr>t_members := filter (\<lambda>m. snd m \<noteq> gid) (t_members db), t_groups := filter (\<lambda>g. gv_id g \<noteq> gid) (t_groups db)\<rparr>"
    using r by (auto simp: svc_delete_group_def delete_user_group_def drop_memberships_def Let_def result_iffs map_err_Inr_iff
                     split: if_split_asm)
  have "filter (\<lambda>g. (u, gv_id g) \<in> set (filter (\<lambda>m. snd m \<noteq> gid) (t_members db))) (filter (\<lambda>g. gv_id g \<noteq> gid) gs)
        = filter (\<lambda>g. (u, gv_id g) \<in> set (t_members db)) gs" for gs
    using u by (induction gs) auto
  then show ?thesis by (simp add: db' groups_of_def user_exists_def)
qed

text \<open>A successful login copies the rights of the account as they are in the tables.\<close>

lemma login_current:
  assumes "login up pj verify now name pw db = (Inr r, db')"
    and "cl = \<lparr>cl_sub = lr_user_id r, cl_username = lr_username r, cl_role = lr_role r, cl_permissions = lr_permissions r\<rparr>"
  shows "claims_current pj db' cl"
proof -
  obtain db1 u where db1: "clear_expired_login_lock (up ClearLock) now name db = Inr db1"
    and u: "find_user (up FindUser) name db1 = Inr (Some u)"
    and r: "and_then (map_err (\<lambda>_. LoginInternal) (list_user_permissions (up UserPermissions) pj (uv_id u) db')) (\<lambda>ps.
            and_then (map_err (\<lambda>_. LoginInternal) (derive_role (up GroupsForUser) (uv_id u) db')) (\<lambda>role.
            Inr \<lparr>lr_user_id = uv_id u, lr_username = uv_username u, lr_role = role,
                 lr_permissions = (if uv_force_password_change u then [] else ps),
                 lr_force_password_change = uv_force_password_change u\<rparr>)) = Inr r"
    using assms(1) by (auto simp: login_def Let_def split: sum.splits option.splits if_split_asm)
  have "t_users db' = t_users db1" using login_tables [OF assms(1)] clear_lock_tables [OF db1] by simp
  then have "user_exists (uv_id u) db'"
    using u by (auto simp: find_user_def user_exists_iff user_from_row_def dest!: find_mem split: if_splits)
  moreover obtain ps where "collect_permissions pj (groups_of (uv_id u) db') = Inr ps"
    "lr_user_id r = uv_id u" "set (lr_permissions r) \<subseteq> set ps"
    "lr_role r = role_from_group_names (map gv_name (groups_of (uv_id u) db'))"
    using r by (auto simp: result_iffs map_err_Inr_iff list_user_permissions_def derive_role_def list_groups_for_user_def
                     split: if_splits)
  ultimately show ?thesis by (simp add: claims_current_def assms(2))
qed

text \<open>The permissions of a group of an account with current claims can be read, so its members are found.\<close>

lemma collected_permissions_parse:
  "collect_permissions pj gs = Inr ps \<Longrightarrow> g \<in> set gs \<Longrightarrow> \<exists>j. pj (gv_permissions g) = Some j"
  by (induction gs arbitrary: ps) (auto simp: result_iffs parse_string_array_def bind_eq_Some_conv)

lemma group_member_ids_up:
  assumes up: "\<forall>c. up c" and g: "find (\<lambda>g. gv_id g = gid) (t_groups db) = Some g" and j: "pj (gv_permissions g) = Some j"
  shows "set (group_member_ids up pj gid db) = {u. (u, gid) \<in> set (t_members db)}"
proof -
  have "svc_get_group up pj gid db
        = Inr (Some (group_detail_response_of g j (map fst (filter (\<lambda>m. snd m = gid) (t_members db)))))"
    using assms by (simp add: svc_get_group_def get_user_group_def parse_permissions_def list_group_member_ids_def)
  then show ?thesis by (force simp: group_member_ids_def group_detail_response_of_def)
qed

lemma invalidate_eq: "invalidate_group_member_sessions up pj gid db s = forget_users (group_member_ids up pj gid db) s"
  by (auto simp: invalidate_group_member_sessions_def group_member_ids_def forget_users_def split: sum.splits option.splits)

text \<open>The gate only forgets sessions, or notes when they were used; of the tables it changes the failed logins and the keys.\<close>

definition rights :: "identity_db \<Rightarrow> user_row list \<times> user_group_view list \<times> (int \<times> int) list" where
  "rights db = (t_users db, t_groups db, t_members db)"

lemma rights_note_failure: "rights (note_login_failure up now name db) = rights db"
  using note_failure_tables by (simp add: rights_def)

lemma rights_clear_lock: "clear_expired_login_lock ok now name db = Inr db' \<Longrightarrow> rights db' = rights db"
  using clear_lock_tables by (simp add: rights_def)

lemma rights_clear_failures: "clear_login_failures ok name db = Inr db' \<Longrightarrow> rights db' = rights db"
  by (auto simp: clear_login_failures_def rights_def split: if_splits)

lemma rights_use_key: "validate_api_key ok stamp h db = (r, db') \<Longrightarrow> rights db' = rights db"
  by (auto simp: validate_api_key_def rights_def split: if_splits option.splits)

lemma api_key_claims_tables:
  assumes "api_key_claims env rk key db = (r, db')"
  shows "rights db' = rights db"
proof (cases "clear_expired_login_lock (ge_up env ClearLock) (ge_now env) rk db")
  case (Inl e)
  then show ?thesis using assms by (simp add: api_key_claims_def split: sum.splits option.splits)
next
  case (Inr db1)
  obtain v db2 where v: "validate_api_key (ge_up env ValidateKey) (ge_stamp env) (ge_hash_api_key env key) db1 = (v, db2)"
    by (cases "validate_api_key (ge_up env ValidateKey) (ge_stamp env) (ge_hash_api_key env key) db1")
  show ?thesis
    using assms Inr v rights_clear_lock [OF Inr] rights_use_key [OF v]
    by (auto simp: api_key_claims_def rights_note_failure split: sum.splits option.splits dest: rights_clear_failures)
qed

lemma live_claims_session_claims: "session_claims env req s = (r, s') \<Longrightarrow> live_claims s' \<subseteq> live_claims s"
  using live_claims_use by (auto simp: session_claims_def split: option.splits prod.splits)

lemma live_claims_csrf: "csrf_middleware env req s = (r, s') \<Longrightarrow> live_claims s' \<subseteq> live_claims s"
  using live_claims_remove
  by (auto simp: csrf_middleware_def split: option.splits if_splits csrf_status.splits)

definition same_rights :: "gate_state \<Rightarrow> gate_state \<Rightarrow> bool" where
  "same_rights st st' \<longleftrightarrow>
     live_claims (gs_sessions st') \<subseteq> live_claims (gs_sessions st) \<and> rights (gs_db st') = rights (gs_db st)"

lemma same_rights_auth:
  assumes "auth_middleware env req st = (r, st')"
  shows "same_rights st st'"
proof (cases "is_auth_exempt_request (rq_path req) (rq_method req)")
  case True
  then show ?thesis using assms by (simp add: auth_middleware_def same_rights_def)
next
  case False
  show ?thesis
  proof (cases "rq_api_key req")
    case None
    then show ?thesis
      using assms False live_claims_session_claims [of env req "gs_sessions st"]
      by (auto simp: auth_middleware_def same_rights_def split: prod.splits)
  next
    case (Some key)
    then show ?thesis
      using assms False api_key_claims_tables [of env "api_key_rate_key req" key "gs_db st"]
      by (auto simp: auth_middleware_def same_rights_def split: prod.splits)
  qed
qed

lemma same_rights_gate:
  assumes "api_gate env b req st = (r, st')"
  shows "same_rights st st'"
proof (cases "auth_middleware env req st")
  case (Pair a st1)
  then have "same_rights st st1" by (rule same_rights_auth)
  moreover obtain c s2 where c: "csrf_middleware env req (gs_sessions st1) = (c, s2)"
    by (cases "csrf_middleware env req (gs_sessions st1)")
  moreover from c have "live_claims s2 \<subseteq> live_claims (gs_sessions st1)" by (rule live_claims_csrf)
  ultimately show ?thesis
    using assms Pair by (auto simp: api_gate_def same_rights_def split: gate.splits)
qed

lemma sessions_current_same_rights: "sessions_current pj st \<Longrightarrow> same_rights st st' \<Longrightarrow> sessions_current pj st'"
  by (erule sessions_current_change [where U = "{}"]) (auto simp: same_rights_def rights_def user_exists_def groups_of_def)

text \<open>
  The requests that change the tables or the sessions, each after its passage through the gate. The group
  handlers read the group once more to find its members; the steps are those in which this reading is served.
\<close>

inductive api_step :: "(string \<Rightarrow> json option) \<Rightarrow> (json \<Rightarrow> string) \<Rightarrow> gate_state \<Rightarrow> gate_state \<Rightarrow> bool"
  for pj :: "string \<Rightarrow> json option" and sj :: "json \<Rightarrow> string" where
  pass_gate: "api_gate env b req st = (g, st') \<Longrightarrow> api_step pj sj st st'"
| login: "login_handler env pj verify sid token name pw st = (r, st') \<Longrightarrow> api_step pj sj st st'"
| logout: "logout_handler env req st = (r, st') \<Longrightarrow> api_step pj sj st st'"
| register: "register_handler env hash auth name pw role st = (r, st') \<Longrightarrow> api_step pj sj st st'"
| change_password: "change_password_handler env verify hash auth pw pw' st = (r, st') \<Longrightarrow> api_step pj sj st st'"
| delete_user: "delete_user_handler env auth i st = (r, st') \<Longrightarrow> api_step pj sj st st'"
| update_role: "update_role_handler env auth i role st = (r, st') \<Longrightarrow> api_step pj sj st st'"
| reset_password: "reset_password_handler env hash auth i p p' st = (r, st') \<Longrightarrow> api_step pj sj st st'"
| set_user_groups: "set_user_groups_handler env auth i gids st = (r, st') \<Longrightarrow> api_step pj sj st st'"
| create_group: "create_group_handler env pj sj name d p st = (r, st') \<Longrightarrow> api_step pj sj st st'"
| update_group: "update_group_handler env up' pj sj gid name d p st = (r, st') \<Longrightarrow> \<forall>c. up' c \<Longrightarrow> api_step pj sj st st'"
| delete_group: "delete_group_handler env up' pj gid st = (r, st') \<Longrightarrow> \<forall>c. up' c \<Longrightarrow> api_step pj sj st st'"
| generate_key: "generate_key_handler env raw name level st = (r, st') \<Longrightarrow> api_step pj sj st st'"
| delete_key: "delete_key_handler env i st = (r, st') \<Longrightarrow> api_step pj sj st st'"

lemma sessions_current_forget:
  assumes "sessions_current pj st"
    and "\<And>u. u \<noteq> i \<Longrightarrow> user_exists u db = user_exists u (gs_db st) \<and> groups_of u db = groups_of u (gs_db st)"
  shows "sessions_current pj (forget_user i db st)"
  by (rule sessions_current_change [OF assms(1), where U = "{i}"]) (use assms(2) in \<open>auto simp: forget_user_def live_claims_forget\<close>)

lemma sessions_current_tables:
  assumes "sessions_current pj st"
    and "\<And>u. user_exists u (gs_db st) \<Longrightarrow> user_exists u db \<and> groups_of u db = groups_of u (gs_db st)"
  shows "sessions_current pj (st\<lparr>gs_db := db\<rparr>)"
  by (rule sessions_current_change [OF assms(1), where U = "{}"]) (use assms(2) in auto)

lemma sessions_current_login:
  assumes "sessions_current pj st" "login_handler env pj verify sid token name pw st = (r, st')"
  shows "sessions_current pj st'"
proof -
  obtain x db where l: "login (ge_up env) pj verify (ge_now env) name pw (gs_db st) = (x, db)"
    by (cases "login (ge_up env) pj verify (ge_now env) name pw (gs_db st)")
  note keep = sessions_current_tables [OF assms(1), of db] same_tables [of db "gs_db st"] login_tables [OF l]
  show ?thesis
  proof (cases x)
    case (Inl e)
    then show ?thesis using assms l keep by (cases e) (simp_all add: login_handler_def)
  next
    case (Inr res)
    define cl where "cl = \<lparr>cl_sub = lr_user_id res, cl_username = lr_username res, cl_role = lr_role res,
                           cl_permissions = lr_permissions res\<rparr>"
    obtain c s where c: "create_session (ge_settings env) (ge_now env) sid token cl (gs_sessions st) = (c, s)"
      by (cases "create_session (ge_settings env) (ge_now env) sid token cl (gs_sessions st)")
    have "st' = st\<lparr>gs_db := db, gs_sessions := s\<rparr>"
      using assms(2) l Inr c by (simp add: login_handler_def cl_def)
    moreover have "claims_current pj db cl" using login_current [OF l [unfolded Inr] cl_def] .
    ultimately show ?thesis using keep live_claims_create [OF c] by (auto simp: sessions_current_iff)
  qed
qed

text \<open>After a change or the deletion of a group its members are forgotten.\<close>

lemma permission_array_json_parses:
  assumes "permission_array_json pj sj p dflt = Inr (ps, j)" "\<forall>ps. pj (sj (JArray (map JString ps))) = Some (JArray (map JString ps))"
  shows "\<exists>j. pj ps = Some j"
  using assms by (auto simp: permission_array_json_def parse_permissions_def Let_def result_iffs map_err_Inr_iff split: option.splits)

lemma updated_group_parses:
  assumes "svc_update_group up pj sj gid name d p db = Inr (r, db')" "\<forall>ps. pj (sj (JArray (map JString ps))) = Some (JArray (map JString ps))"
  shows "t_members db' = t_members db"
    and "\<exists>g j. find (\<lambda>g. gv_id g = gid) (t_groups db') = Some g \<and> pj (gv_permissions g) = Some j"
proof -
  obtain q n d' ps j where q: "find (\<lambda>g. gv_id g = gid) (t_groups db) = Some q"
    and ps: "permission_array_json pj sj p (gv_permissions q) = Inr (ps, j)"
    and u: "update_user_group (up UpdateGroup) gid n d' ps db = Inr db'"
    using assms(1)
    by (auto simp: svc_update_group_def get_user_group_def Let_def result_iffs map_err_Inr_iff split: if_split_asm)
  let ?f = "\<lambda>g. g\<lparr>gv_name := n, gv_description := d', gv_permissions := ps\<rparr>"
  have db': "db' = db\<lparr>t_groups := map (\<lambda>g. if gv_id g = gid then ?f g else g) (t_groups db)\<rparr>"
    using u by (auto simp: update_user_group_def split: if_splits)
  show "t_members db' = t_members db" by (simp add: db')
  have "find (\<lambda>g. gv_id g = gid) (map (\<lambda>g. if gv_id g = gid then ?f g else g) gs)
        = map_option ?f (find (\<lambda>g. gv_id g = gid) gs)" for gs :: "user_group_view list"
    by (induction gs) auto
  then have "find (\<lambda>g. gv_id g = gid) (t_groups db') = Some (?f q)" using q by (simp add: db')
  then show "\<exists>g j. find (\<lambda>g. gv_id g = gid) (t_groups db') = Some g \<and> pj (gv_permissions g) = Some j"
    using permission_array_json_parses [OF ps assms(2)] by auto
qed

lemma sessions_current_update_group:
  assumes cur: "sessions_current pj st" and r: "update_group_handler env up' pj sj gid name d p st = (r, st')"
    and up: "\<forall>c. up' c" and j: "\<forall>ps. pj (sj (JArray (map JString ps))) = Some (JArray (map JString ps))"
  shows "sessions_current pj st'"
proof (cases "svc_update_group (ge_up env) pj sj gid name d p (gs_db st)")
  case (Inl e)
  then show ?thesis using cur r by (simp add: update_group_handler_def)
next
  case (Inr x)
  obtain grp db where x: "x = (grp, db)" by (cases x)
  note u = Inr [unfolded x]
  have st': "st' = st\<lparr>gs_db := db, gs_sessions := forget_users (group_member_ids up' pj gid db) (gs_sessions st)\<rparr>"
    using r u by (simp add: update_group_handler_def invalidate_eq)
  have "set (group_member_ids up' pj gid db) = {u. (u, gid) \<in> set (t_members (gs_db st))}"
    using updated_group_parses [OF u j] group_member_ids_up [OF up, of gid db] by auto
  then show ?thesis
    unfolding st' using other_update_group [OF u]
    by (intro sessions_current_change [OF cur, where U = "{u. (u, gid) \<in> set (t_members (gs_db st))}"])
       (auto simp: live_claims_forget_all)
qed

lemma sessions_current_delete_group:
  assumes cur: "sessions_current pj st" and wf: "wf_identity (gs_db st)"
    and r: "delete_group_handler env up' pj gid st = (r, st')" and up: "\<forall>c. up' c"
  shows "sessions_current pj st'"
proof (cases "svc_delete_group (ge_up env) gid (gs_db st)")
  case (Inl e)
  then show ?thesis using cur r by (simp add: delete_group_handler_def)
next
  case (Inr x)
  obtain b db where x: "x = (b, db)" by (cases x)
  note d = Inr [unfolded x]
  let ?U = "{u. (u, gid) \<in> set (t_members (gs_db st))}"
  have members: "cl_sub cl \<in> set (group_member_ids up' pj gid (gs_db st))"
    if live: "cl \<in> live_claims (gs_sessions st)" and mem: "cl_sub cl \<in> ?U" for cl
  proof -
    obtain g where g: "g \<in> set (t_groups (gs_db st))" "gv_id g = gid"
      using wf mem by (auto simp: wf_identity_def wf_members_def)
    then have "find (\<lambda>g. gv_id g = gid) (t_groups (gs_db st)) = Some g"
      using wf find_distinct_key [of gv_id "t_groups (gs_db st)" g] by (simp add: wf_identity_def wf_groups_def)
    moreover have "g \<in> set (groups_of (cl_sub cl) (gs_db st))" using g mem by (simp add: groups_of_def)
    then obtain j where "pj (gv_permissions g) = Some j"
      using cur live collected_permissions_parse by (fastforce simp: sessions_current_iff claims_current_def)
    ultimately show ?thesis using group_member_ids_up [OF up] mem by blast
  qed
  have missing: "\<not> b \<Longrightarrow> ?U = {}"
    using d wf by (auto simp: svc_delete_group_def delete_user_group_def Let_def result_iffs map_err_Inr_iff
                        drop_memberships_def group_exists_iff wf_identity_def wf_members_def split: if_split_asm)
  have "live_claims (gs_sessions st') \<subseteq> {cl \<in> live_claims (gs_sessions st). cl_sub cl \<notin> ?U} \<and> gs_db st' = db"
    using r d members missing by (cases b) (auto simp: delete_group_handler_def live_claims_forget_all Let_def)
  then show ?thesis
    using other_delete_group [OF d] by (intro sessions_current_change [OF cur, where U = ?U]) auto
qed

text \<open>The tables stay consistent, since the handlers change them through the services and the store.\<close>

lemma wf_api_key_claims:
  assumes "wf_identity db" "api_key_claims env rk key db = (r, db')"
  shows "wf_identity db'"
proof (cases "clear_expired_login_lock (ge_up env ClearLock) (ge_now env) rk db")
  case (Inl e)
  then show ?thesis using assms by (simp add: api_key_claims_def split: sum.splits option.splits)
next
  case (Inr db1)
  obtain v db2 where v: "validate_api_key (ge_up env ValidateKey) (ge_stamp env) (ge_hash_api_key env key) db1 = (v, db2)"
    by (cases "validate_api_key (ge_up env ValidateKey) (ge_stamp env) (ge_hash_api_key env key) db1")
  have wf2: "wf_identity db2" using wf_use_key [OF wf_clear_lock [OF assms(1) Inr] v] .
  show ?thesis
    using assms Inr v wf2 wf_note_failure [OF wf2]
    by (auto simp: api_key_claims_def split: sum.splits option.splits intro: wf_clear_failures)
qed

lemma wf_gate:
  assumes "wf_identity (gs_db st)" "api_gate env b req st = (g, st')"
  shows "wf_identity (gs_db st')"
proof -
  have "wf_identity (gs_db st1)" if "auth_middleware env req st = (c, st1)" for c st1
    using that assms(1) wf_api_key_claims [OF assms(1)]
    by (auto simp: auth_middleware_def Let_def split: if_splits option.splits prod.splits)
  then show ?thesis
    using assms by (auto simp: api_gate_def split: gate.splits prod.splits)
qed

lemma wf_api_step:
  assumes "api_step pj sj st st'" "wf_identity (gs_db st)"
  shows "wf_identity (gs_db st')"
  using assms
proof (induction rule: api_step.induct)
  case (pass_gate env b req st g st')
  then show ?case by (blast intro: wf_gate)
next
  case (login env verify sid token name pw st r st')
  then show ?case
    by (auto simp: login_handler_def Let_def split: prod.splits sum.splits login_error.splits
             intro: wf_service_step [OF service_step.login])
next
  case (register env hash auth name pw role st r st')
  then show ?case
    by (auto simp: register_handler_def split: prod.splits sum.splits intro: wf_service_step [OF service_step.register])
next
  case (generate_key env raw name level st r st')
  then show ?case
    by (auto simp: generate_key_handler_def Let_def split: option.splits sum.splits prod.splits intro: wf_insert_key)
next
  case (delete_key env i st r st')
  then show ?case
    by (auto simp: delete_key_handler_def split: option.splits sum.splits prod.splits bool.splits intro: wf_delete_key)
next
  case (delete_user env auth i st r st')
  then show ?case
    by (auto simp: delete_user_handler_def forget_user_def split: sum.splits prod.splits bool.splits
             intro: wf_service_step [OF service_step.delete_user])
next
  case (update_role env auth i role st r st')
  then show ?case
    by (auto simp: update_role_handler_def forget_user_def split: sum.splits if_splits
             intro: wf_service_step [OF service_step.update_role])
next
  case (set_user_groups env auth i gids st r st')
  then show ?case
    by (auto simp: set_user_groups_handler_def forget_user_def split: sum.splits intro: wf_service_step [OF service_step.set_groups])
next
  case (change_password env verify hash auth pw pw' st r st')
  then show ?case
    by (auto simp: change_password_handler_def forget_user_def split: sum.splits intro: wf_service_step [OF service_step.change_password])
next
  case (reset_password env hash auth i p p' st r st')
  then show ?case
    by (auto simp: reset_password_handler_def forget_user_def split: sum.splits option.splits
             intro: wf_service_step [OF service_step.reset_password])
next
  case (create_group env name d p st r st')
  then show ?case
    by (auto simp: create_group_handler_def split: sum.splits prod.splits intro: wf_service_step [OF service_step.create_group])
next
  case (update_group env up' gid name d p st r st')
  then show ?case
    by (auto simp: update_group_handler_def split: sum.splits prod.splits intro: wf_service_step [OF service_step.update_group])
next
  case (delete_group env up' gid st r st')
  then show ?case
    by (auto simp: delete_group_handler_def Let_def split: sum.splits prod.splits bool.splits
             intro: wf_service_step [OF service_step.delete_group])
qed (auto simp: logout_handler_def split: option.splits)

lemma sessions_current_delete_user:
  assumes "sessions_current pj st" "delete_user_handler env auth i st = (r, st')"
  shows "sessions_current pj st'"
proof (cases "svc_delete_user (ge_up env) (cl_sub auth) i (gs_db st)")
  case (Inl e)
  then show ?thesis using assms by (simp add: delete_user_handler_def)
next
  case (Inr x)
  obtain b db where x: "x = (b, db)" by (cases x)
  note other = other_delete_user [OF Inr [unfolded x]]
  have "\<not> b \<Longrightarrow> \<not> user_exists i (gs_db st)"
    using Inr x by (auto simp: svc_delete_user_def delete_user_def drop_memberships_def user_exists_def Let_def result_iffs
                               map_err_Inr_iff split: if_split_asm)
  then have "\<not> b \<Longrightarrow> sessions_current pj (st\<lparr>gs_db := db\<rparr>)"
    using other by (intro sessions_current_tables [OF assms(1)]) metis
  moreover have "sessions_current pj (forget_user i db st)" using other by (rule sessions_current_forget [OF assms(1)])
  ultimately show ?thesis using assms(2) Inr x by (cases b) (auto simp: delete_user_handler_def)
qed

lemma sessions_current_api_step:
  assumes "api_step pj sj st st'" "sessions_current pj st" "wf_identity (gs_db st)"
    "\<forall>ps. pj (sj (JArray (map JString ps))) = Some (JArray (map JString ps))"
  shows "sessions_current pj st'"
  using assms
proof (induction rule: api_step.induct)
  case (pass_gate env b req st g st')
  then show ?case using same_rights_gate sessions_current_same_rights by blast
next
  case (login env verify sid token name pw st r st')
  then show ?case by (blast intro: sessions_current_login)
next
  case (logout env req st r st')
  have "same_rights st st'"
    using logout(1) by (cases "rq_cookies req (cookie_name (ge_force_https env))")
      (clarsimp simp: logout_handler_def same_rights_def live_claims_remove simp del: subset_iff)+
  with logout show ?case by (blast intro: sessions_current_same_rights)
next
  case (register env hash auth name pw role st r st')
  then show ?case
    by (auto simp: register_handler_def split: prod.splits sum.splits intro!: sessions_current_tables elim!: other_register)
next
  case (change_password env verify hash auth pw pw' st r st')
  then show ?case
    by (auto simp: change_password_handler_def svc_change_password_def update_user_password_def result_iffs map_err_Inr_iff
                   tables_set_password split: sum.splits if_split_asm intro!: sessions_current_forget)
next
  case (delete_user env auth i st r st')
  then show ?case by (blast intro: sessions_current_delete_user)
next
  case (update_role env auth i role st r st')
  then show ?case
    by (auto simp: update_role_handler_def split: sum.splits if_splits intro!: sessions_current_forget dest: other_update_role)
next
  case (reset_password env hash auth i p p' st r st')
  then show ?case
    by (auto simp: reset_password_handler_def svc_reset_password_def reset_user_password_def result_iffs map_err_Inr_iff
                   tables_set_password split: sum.splits option.splits if_split_asm intro!: sessions_current_forget)
next
  case (set_user_groups env auth i gids st r st')
  then show ?case
    by (auto simp: set_user_groups_handler_def split: sum.splits intro!: sessions_current_forget dest: other_set_groups)
next
  case (create_group env name d p st r st')
  then show ?case
    by (auto simp: create_group_handler_def split: sum.splits prod.splits intro!: sessions_current_tables
             dest: other_create_group)
next
  case (update_group env up' gid name d p st r st')
  then show ?case by (blast intro: sessions_current_update_group)
next
  case (delete_group env up' gid st r st')
  then show ?case by (blast intro: sessions_current_delete_group)
next
  case (generate_key env raw name level st r st')
  then show ?case
    by (auto simp: generate_key_handler_def insert_api_key_def Let_def user_exists_def groups_of_def
             split: option.splits sum.splits prod.splits if_split_asm intro!: sessions_current_tables)
next
  case (delete_key env i st r st')
  then show ?case
    by (auto simp: delete_key_handler_def delete_api_key_def Let_def user_exists_def groups_of_def
             split: option.splits sum.splits prod.splits bool.splits if_split_asm intro!: sessions_current_tables)
qed

lemma gate_claims_live:
  assumes "api_gate env b req st = (Passed (Some cl), st')" "rq_api_key req = None"
  shows "cl \<in> live_claims (gs_sessions st)"
proof -
  obtain st1 where "auth_middleware env req st = (Passed (Some cl), st1)"
    using assms(1) by (auto simp: api_gate_def split: gate.splits prod.splits)
  then obtain s where "session_claims env req (gs_sessions st) = (Passed cl, s)"
    using assms(2) by (auto simp: auth_middleware_def split: if_splits gate.splits prod.splits option.splits)
  then show ?thesis
    by (auto simp: session_claims_def claims_for_session_def live_claims_def split: option.splits if_splits)
qed

text \<open>
  C17. Changes of rights take effect at once: after any sequence of API requests since the start of the server
  (logins, changes of accounts, roles and groups, group definitions, keys; failures of the store included, but
  for the second reading of a group by the group handlers), a request that the gate admits with a session runs
  with claims of an account that exists, the role its groups give it now, and permissions that its groups grant
  now. No session outlives a demotion, a deletion or a change of its groups. The hypothesis on \<open>pj\<close> and
  \<open>sj\<close> is that a JSON array of strings, written, reads back.
\<close>

theorem session_rights_are_current:
  assumes start: "gs_sessions st = SessionService_new" "wf_identity (gs_db st)"
    and steps: "(api_step pj sj)\<^sup>*\<^sup>* st st'"
    and json: "\<forall>ps. pj (sj (JArray (map JString ps))) = Some (JArray (map JString ps))"
    and gate: "api_gate env set_up req st' = (Passed (Some cl), st'')" "rq_api_key req = None"
  shows "claims_current pj (gs_db st') cl"
proof -
  have "sessions_current pj st" using start(1) by (simp add: sessions_current_def SessionService_new_def)
  with steps start(2) have "sessions_current pj st' \<and> wf_identity (gs_db st')"
    by (induction rule: rtranclp_induct) (auto intro: sessions_current_api_step [OF _ _ _ json] wf_api_step)
  with gate_claims_live [OF gate] show ?thesis by (simp add: sessions_current_iff)
qed

text \<open>A toy encoding of arrays of strings, and the login of the sample administrator.\<close>

fun toy_read :: "string \<Rightarrow> string \<Rightarrow> string list" where
  "toy_read acc (m # c # s) = (if m = CHR '';'' then rev acc # toy_read [] (c # s) else toy_read (c # acc) s)"
| "toy_read acc [m] = [rev acc]"
| "toy_read acc [] = []"

definition toy_write :: "string list \<Rightarrow> string" where
  "toy_write ps = concat (map (\<lambda>p. concat (map (\<lambda>c. [CHR ''c'', c]) p) @ '';'') ps)"

lemma toy_read_end: "toy_read acc (CHR '';'' # s) = rev acc # toy_read [] s"
  by (cases s) auto

lemma toy_read_write: "toy_read [] (toy_write ps) = ps"
proof -
  have "toy_read acc (concat (map (\<lambda>c. [CHR ''c'', c]) p) @ CHR '';'' # s) = (rev acc @ p) # toy_read [] s" for acc p s
    by (induction p arbitrary: acc) (simp_all add: toy_read_end)
  then show ?thesis by (induction ps) (simp_all add: toy_write_def)
qed

definition toy_json :: "string \<Rightarrow> json option" where
  "toy_json s = Some (JArray (map JString (if s = ''A'' then [''users:admin''] else toy_read [] s)))"

definition toy_text :: "json \<Rightarrow> string" where
  "toy_text j = (case string_array j of Some ps \<Rightarrow> toy_write ps | None \<Rightarrow> [])"

lemma those_map_JString: "those (map (as_json_str \<circ> JString) ps) = Some ps"
  by (induction ps) (simp_all add: as_json_str_def)

lemma toy_codec: "\<forall>ps. toy_json (toy_text (JArray (map JString ps))) = Some (JArray (map JString ps))"
proof -
  have "toy_write ps \<noteq> ''A''" for ps
  proof (cases ps)
    case (Cons p qs)
    then show ?thesis by (cases p) (simp_all add: toy_write_def)
  qed (simp add: toy_write_def)
  then show ?thesis by (simp add: toy_json_def toy_text_def string_array_def those_map_JString toy_read_write)
qed

lemma sample_login:
  "\<exists>r. login_handler (sample_env\<lparr>ge_now := 1000\<rparr>) toy_json (\<lambda>p h. Some (p = h)) ''sid'' ''tok'' ''admin'' ''Secret-1''
         \<lparr>gs_db = sample_identity, gs_sessions = SessionService_new\<rparr> = (r, sample_state)"
  by (simp add: login_handler_def login_def sample_env_def sample_state_def sample_session_def sample_claims_def
      get_remaining_lock_secs_def clear_expired_login_lock_def find_user_def user_from_row_def clear_login_failures_def
      list_user_permissions_def list_groups_for_user_def derive_role_def Let_def sample_identity_def groups_of_def
      parse_string_array_def string_array_def toy_json_def as_json_str_def ok_or_def role_from_group_names_def role_consts
      encode_login_locked_until_def split: prod.splits)

theorem session_rights_are_current_witness:
  "\<exists>st''. api_gate sample_env True sample_request sample_state = (Passed (Some sample_claims), st'')
      \<and> claims_current toy_json sample_identity sample_claims"
proof -
  let ?st = "\<lparr>gs_db = sample_identity, gs_sessions = SessionService_new\<rparr>"
  obtain st'' where g: "api_gate sample_env True sample_request sample_state = (Passed (Some sample_claims), st'')"
    using sample_request_passes by blast
  have steps: "(api_step toy_json toy_text)\<^sup>*\<^sup>* ?st sample_state" using sample_login by (blast intro: api_step.login)
  have "claims_current toy_json (gs_db sample_state) sample_claims"
    by (rule session_rights_are_current [OF _ _ steps toy_codec g]) (simp_all add: wf_sample_identity sample_request_def)
  with g show ?thesis by (auto simp: sample_state_def)
qed

text \<open>
  When the second reading of the group fails, the handlers answer with success and every session stays, those
  of the members included.
\<close>

lemma unread_group_keeps_sessions:
  assumes "\<not> up' GetGroup"
  shows "update_group_handler env up' pj sj gid name d p st = (r, st') \<Longrightarrow> gs_sessions st' = gs_sessions st"
    and "delete_group_handler env up' pj gid st = (r', st') \<Longrightarrow> gs_sessions st' = gs_sessions st"
  using assms
  by (auto simp: update_group_handler_def delete_group_handler_def invalidate_eq group_member_ids_def forget_users_def
                 svc_get_group_def get_user_group_def Let_def split: sum.splits bool.splits)

end
