(* ===== verification/Protocol_Filter_Stage.thy ===== *)
theory Protocol_Filter_Stage
  imports Packet_Parsing Http_Method
begin

text \<open>
  The service rules of the ingress program (\<^verbatim>\<open>ingress-ebpf/src/action/protocol_filter.rs\<close>): the
  HTTP methods a registered service admits and the SSH allow and deny lists. The raw reads of
  the frame are bounds-checked as in the parser.
\<close>

record service_maps =
  IPV4_HTTP_SERVICE :: "addr_port_v4 \<Rightarrow> u16 option"
  IPV6_HTTP_SERVICE :: "addr_port_v6 \<Rightarrow> u16 option"
  SSH_WHITE_LIST_ENABLE :: "u8 option"
  IPV4_SSH_SERVICE :: "addr_port_v4 \<Rightarrow> u8 option"
  IPV6_SSH_SERVICE :: "addr_port_v6 \<Rightarrow> u8 option"
  IPV4_SSH_WHITE_LIST :: "u32 \<Rightarrow> u8 option"
  IPV6_SSH_WHITE_LIST :: "u128 \<Rightarrow> u8 option"
  IPV4_SSH_BLACK_LIST :: "u32 \<Rightarrow> u8 option"
  IPV6_SSH_BLACK_LIST :: "u128 \<Rightarrow> u8 option"

section \<open>HTTP request methods\<close>

definition ascii :: "string \<Rightarrow> bytes" where
  "ascii s = map (\<lambda>c. word_of_nat (of_char c)) s"

definition match_method :: "bytes \<Rightarrow> u16 option" where
  "match_method data =
     (let h = take 4 data in
      if h = ascii ''GET '' then Some (push_bit 0 1)
      else if h = ascii ''POST'' \<and> take 1 (drop 4 data) = ascii '' '' then Some (push_bit 1 1)
      else if h = ascii ''PUT '' then Some (push_bit 2 1)
      else if h = ascii ''DELE'' \<and> take 3 (drop 4 data) = ascii ''TE '' then Some (push_bit 3 1)
      else if h = ascii ''HEAD'' \<and> take 1 (drop 4 data) = ascii '' '' then Some (push_bit 4 1)
      else if h = ascii ''OPTI'' \<and> take 4 (drop 4 data) = ascii ''ONS '' then Some (push_bit 5 1)
      else if h = ascii ''PATC'' \<and> take 2 (drop 4 data) = ascii ''H '' then Some (push_bit 6 1)
      else if h = ascii ''TRAC'' \<and> take 2 (drop 4 data) = ascii ''E '' then Some (push_bit 7 1)
      else if h = ascii ''CONN'' \<and> take 4 (drop 4 data) = ascii ''ECT '' then Some (push_bit 8 1)
      else None)"

definition get_http_request_method :: "bytes \<Rightarrow> nat \<Rightarrow> u16 option option" where
  "get_http_request_method bs offset =
     (if offset + 8 > length bs then Some None
      else do { data \<leftarrow> rd_slice bs offset 8; Some (match_method data) })"

definition http_service_violation ::
  "platform \<Rightarrow> bytes \<Rightarrow> parsed_packet \<Rightarrow> ('k \<Rightarrow> u16 option) \<Rightarrow> 'k \<Rightarrow> bool option" where
  "http_service_violation P bs pkt m destination =
     (case m destination of
        None \<Rightarrow> Some False
      | Some allow_method \<Rightarrow>
          if protocol pkt \<noteq> IpProto_Tcp P then Some False
          else if tcp_flags pkt AND (TCP_SYN OR TCP_RST OR TCP_FIN) \<noteq> 0 then Some False
          else if tcp_flags pkt AND (TCP_PSH OR TCP_ACK) \<noteq> (TCP_PSH OR TCP_ACK) then Some False
          else if 15 > length bs then Some False
          else do {
            l4 \<leftarrow> (if ip_version pkt = as_u8 V4
                   then do { b \<leftarrow> rd bs 14; Some (Some (14 + unat (b AND 0x0F) * 4)) }
                   else if ip_version pkt = as_u8 V6 then Some (Some (14 + 40))
                   else Some None);
            case l4 of
              None \<Rightarrow> Some False
            | Some l4_offset \<Rightarrow>
                if l4_offset + 13 > length bs then Some False
                else do {
                  b \<leftarrow> rd bs (l4_offset + 12);
                  let doff = unat (drop_bit 4 b)
                  in if \<not> (5 \<le> doff \<and> doff \<le> 15) then Some False
                     else let payload_offset = l4_offset + doff * 4
                          in do {
                            hm \<leftarrow> get_http_request_method bs payload_offset;
                            case hm of
                              Some http_method \<Rightarrow> Some (allow_method AND http_method = 0)
                            | None \<Rightarrow> Some False
                          }
                }
          })"

section \<open>SSH services\<close>

definition ssh_white_list_on :: "service_maps \<Rightarrow> bool" where
  "ssh_white_list_on M = (case SSH_WHITE_LIST_ENABLE M of Some v \<Rightarrow> v \<noteq> 0 | None \<Rightarrow> False)"

definition ipv4_ssh_service_violation :: "endian \<Rightarrow> service_maps \<Rightarrow> addr_port_v4 \<Rightarrow> addr_port_v4 \<Rightarrow> bool" where
  "ipv4_ssh_service_violation e M source destination =
     (if IPV4_SSH_SERVICE M destination \<noteq> None then
        if ssh_white_list_on M then IPV4_SSH_WHITE_LIST M (AddrPortV4_ip e source) = None
        else IPV4_SSH_BLACK_LIST M (AddrPortV4_ip e source) \<noteq> None
      else False)"

definition ipv6_ssh_service_violation :: "endian \<Rightarrow> service_maps \<Rightarrow> addr_port_v6 \<Rightarrow> addr_port_v6 \<Rightarrow> bool" where
  "ipv6_ssh_service_violation e M source destination =
     (if IPV6_SSH_SERVICE M destination \<noteq> None then
        if ssh_white_list_on M then IPV6_SSH_WHITE_LIST M (AddrPortV6_ip e source) = None
        else IPV6_SSH_BLACK_LIST M (AddrPortV6_ip e source) \<noteq> None
      else False)"

definition ipv4_service_rule_violation :: "platform \<Rightarrow> service_maps \<Rightarrow> bytes \<Rightarrow> parsed_packet \<Rightarrow> bool option" where
  "ipv4_service_rule_violation P M bs pkt =
     (let source = src_addr_v4 (ne P) pkt; destination = dst_addr_v4 (ne P) pkt
      in do {
        http \<leftarrow> http_service_violation P bs pkt (IPV4_HTTP_SERVICE M) destination;
        Some (http \<or> ipv4_ssh_service_violation (ne P) M source destination)
      })"

definition ipv6_service_rule_violation :: "platform \<Rightarrow> service_maps \<Rightarrow> bytes \<Rightarrow> parsed_packet \<Rightarrow> bool option" where
  "ipv6_service_rule_violation P M bs pkt =
     (let source = src_addr_v6 (ne P) pkt; destination = dst_addr_v6 (ne P) pkt
      in do {
        http \<leftarrow> http_service_violation P bs pkt (IPV6_HTTP_SERVICE M) destination;
        Some (http \<or> ipv6_ssh_service_violation (ne P) M source destination)
      })"

section \<open>No read leaves the frame\<close>

lemma get_http_request_method_safe:
  "get_http_request_method bs off =
     Some (if off + 8 \<le> length bs then match_method (take 8 (drop off bs)) else None)"
  by (auto simp: get_http_request_method_def mem_safe)

lemma http_service_violation_eq:
  assumes "m destination = Some allow"
  shows "http_service_violation P bs pkt m destination =
    Some (protocol pkt = IpProto_Tcp P
      \<and> tcp_flags pkt AND (TCP_SYN OR TCP_RST OR TCP_FIN) = 0
      \<and> tcp_flags pkt AND (TCP_PSH OR TCP_ACK) = (TCP_PSH OR TCP_ACK)
      \<and> 15 \<le> length bs \<and> (ip_version pkt = 4 \<or> ip_version pkt = 6)
      \<and> (let l4 = (if ip_version pkt = 4 then 14 + unat (bs ! 14 AND 0x0F) * 4 else 54);
             doff = unat (drop_bit 4 (bs ! (l4 + 12)));
             off = l4 + doff * 4
         in l4 + 13 \<le> length bs \<and> 5 \<le> doff \<and> doff \<le> 15 \<and> off + 8 \<le> length bs \<and>
            (case match_method (take 8 (drop off bs)) of
               Some hm \<Rightarrow> allow AND hm = 0 | None \<Rightarrow> False)))"
  using assms
  by (auto simp: http_service_violation_def mem_safe Let_def get_http_request_method_safe
      split: option.splits)

lemma http_service_violation_safe [simp]: "http_service_violation P bs pkt m destination \<noteq> None"
proof (cases "m destination")
  case (Some allow)
  then show ?thesis by (simp add: http_service_violation_eq)
qed (simp add: http_service_violation_def)

lemma ipv4_service_rule_violation_safe [simp]: "ipv4_service_rule_violation P M bs pkt \<noteq> None"
  and ipv6_service_rule_violation_safe [simp]: "ipv6_service_rule_violation P M bs pkt \<noteq> None"
  by (simp_all add: ipv4_service_rule_violation_def ipv6_service_rule_violation_def Let_def
      split: Option.bind_split del: not_None_eq)

section \<open>The request line and the bitmap\<close>

text \<open>What an HTTP request with a given method starts with.\<close>

definition method_token :: "http_method \<Rightarrow> string" where
  "method_token m =
     (case m of GET \<Rightarrow> ''GET '' | POST \<Rightarrow> ''POST '' | PUT \<Rightarrow> ''PUT '' | DELETE \<Rightarrow> ''DELETE ''
      | HEAD \<Rightarrow> ''HEAD '' | OPTIONS \<Rightarrow> ''OPTIONS '' | PATCH \<Rightarrow> ''PATCH '' | TRACE \<Rightarrow> ''TRACE ''
      | CONNECT \<Rightarrow> ''CONNECT '')"

definition starts_with_method :: "bytes \<Rightarrow> http_method \<Rightarrow> bool" where
  "starts_with_method data m \<longleftrightarrow> take (length (method_token m)) data = ascii (method_token m)"

lemma length_ascii [simp]: "length (ascii s) = length s"
  by (simp add: ascii_def)

lemma ascii_append: "ascii (s @ t) = ascii s @ ascii t"
  by (simp add: ascii_def)

lemma take_token:
  assumes "length s = 4" "length data \<ge> 4"
  shows "take (4 + k) data = ascii (s @ t) \<longleftrightarrow> take 4 data = ascii s \<and> take k (drop 4 data) = ascii t"
  using assms by (simp add: take_add ascii_append)

lemma starts_with_method_iff:
  assumes "8 \<le> length data"
  shows "starts_with_method data m \<longleftrightarrow>
    (case m of
       GET \<Rightarrow> take 4 data = ascii ''GET ''
     | POST \<Rightarrow> take 4 data = ascii ''POST'' \<and> take 1 (drop 4 data) = ascii '' ''
     | PUT \<Rightarrow> take 4 data = ascii ''PUT ''
     | DELETE \<Rightarrow> take 4 data = ascii ''DELE'' \<and> take 3 (drop 4 data) = ascii ''TE ''
     | HEAD \<Rightarrow> take 4 data = ascii ''HEAD'' \<and> take 1 (drop 4 data) = ascii '' ''
     | OPTIONS \<Rightarrow> take 4 data = ascii ''OPTI'' \<and> take 4 (drop 4 data) = ascii ''ONS ''
     | PATCH \<Rightarrow> take 4 data = ascii ''PATC'' \<and> take 2 (drop 4 data) = ascii ''H ''
     | TRACE \<Rightarrow> take 4 data = ascii ''TRAC'' \<and> take 2 (drop 4 data) = ascii ''E ''
     | CONNECT \<Rightarrow> take 4 data = ascii ''CONN'' \<and> take 4 (drop 4 data) = ascii ''ECT '')"
proof -
  note tok = take_token [of _ data, symmetric]
  have l: "4 \<le> length data" using assms by simp
  show ?thesis
    using l by (cases m) (simp_all add: starts_with_method_def method_token_def tok,
        simp_all add: numeral_eq_Suc)
qed

lemma ex_http_method:
  "(\<exists>m. Q m) \<longleftrightarrow> Q GET \<or> Q POST \<or> Q PUT \<or> Q DELETE \<or> Q HEAD \<or> Q OPTIONS \<or> Q PATCH \<or> Q TRACE \<or> Q CONNECT"
  by (metis http_method.exhaust)

lemma match_method_iff:
  assumes "8 \<le> length data"
  shows "match_method (take 8 data) = Some c \<longleftrightarrow> (\<exists>m. c = method_code m \<and> starts_with_method data m)"
proof -
  have t: "take 4 (take 8 data) = take 4 data"
    "take 1 (drop 4 (take 8 data)) = take 1 (drop 4 data)"
    "take 2 (drop 4 (take 8 data)) = take 2 (drop 4 data)"
    "take 3 (drop 4 (take 8 data)) = take 3 (drop 4 data)"
    "take 4 (drop 4 (take 8 data)) = take 4 (drop 4 data)"
    by (simp_all add: drop_take)
  show ?thesis
    unfolding match_method_def Let_def t ex_http_method starts_with_method_iff [OF assms]
    by (auto simp: ascii_def method_code_def)
qed

text \<open>
  The HTTP rule is exact: for a data segment of a registered service, a violation is a request
  whose method is not among the methods the bitmap was built from.
\<close>

lemma bitmap_match_method:
  assumes "8 \<le> length data"
  shows "(case match_method (take 8 data) of Some hm \<Rightarrow> convert_to_bitmap ms AND hm = 0 | None \<Rightarrow> False)
     \<longleftrightarrow> (\<exists>m. m \<notin> set ms \<and> starts_with_method data m)"
proof (cases "match_method (take 8 data)")
  case None
  then have "\<not> starts_with_method data m" for m
    using match_method_iff [OF assms, of "method_code m"] by auto
  with None show ?thesis by simp
next
  case (Some c)
  then obtain m where m: "c = method_code m" "starts_with_method data m"
    using match_method_iff [OF assms] by blast
  have only: "starts_with_method data m' \<longleftrightarrow> m' = m" for m'
  proof
    assume "starts_with_method data m'"
    then have "match_method (take 8 data) = Some (method_code m')"
      using match_method_iff [OF assms] by blast
    then show "m' = m" using Some m(1) by simp
  qed (simp add: m(2))
  show ?thesis
    using bitmap_allows [of ms m] by (simp add: Some m(1) only) blast
qed

end
