(* ===== verification/Symmetric_Hash.thy ===== *)
theory Symmetric_Hash
  imports Packet_Parsing
begin

text \<open>
  The queue a packet is steered to (\<^verbatim>\<open>net-guardia-abi/src/ebpf/symmetric_hash.rs\<close>): both
  directions of a flow hash to the same queue, on either interface, so that one worker sees the
  whole conversation.
\<close>

definition fold_u128 :: "u128 \<Rightarrow> u32" where
  "fold_u128 x = ucast x XOR ucast (drop_bit 32 x) XOR ucast (drop_bit 64 x) XOR ucast (drop_bit 96 x)"

definition ip_hash :: "endian \<Rightarrow> parsed_packet \<Rightarrow> u32 option" where
  "ip_hash e pkt =
     (if ip_version pkt = as_u8 V4 then Some (src_ip_v4 e pkt XOR dst_ip_v4 e pkt)
      else if ip_version pkt = as_u8 V6 then Some (fold_u128 (src_ip_v6 e pkt XOR dst_ip_v6 e pkt))
      else None)"

definition symmetric_queue_id :: "endian \<Rightarrow> parsed_packet \<Rightarrow> u32 \<Rightarrow> u32 option" where
  "symmetric_queue_id e pkt num_queues =
     (if num_queues = 0 then None
      else case ip_hash e pkt of
             None \<Rightarrow> None
           | Some ih \<Rightarrow>
               let port_hash = (ucast (src_port pkt) XOR ucast (dst_port pkt) :: u32);
                   h = (ih XOR word_rotl 16 port_hash XOR ucast (protocol pkt)) * 2654435761
               in Some (h mod num_queues))"

text \<open>The same flow seen in the other direction.\<close>

definition reverse_flow :: "parsed_packet \<Rightarrow> parsed_packet" where
  "reverse_flow p = p\<lparr>src_ip := dst_ip p, dst_ip := src_ip p, src_port := dst_port p, dst_port := src_port p\<rparr>"

lemma ip_hash_reverse: "ip_hash e (reverse_flow p) = ip_hash e p"
  by (simp add: ip_hash_def reverse_flow_def src_ip_v4_def dst_ip_v4_def src_ip_v6_def
      dst_ip_v6_def xor.commute)

lemma queue_reverse: "symmetric_queue_id e (reverse_flow p) n = symmetric_queue_id e p n"
proof -
  have "(ucast (src_port (reverse_flow p)) XOR ucast (dst_port (reverse_flow p)) :: u32) =
      ucast (src_port p) XOR ucast (dst_port p)"
    by (simp add: reverse_flow_def xor.commute)
  moreover have "protocol (reverse_flow p) = protocol p"
    by (simp add: reverse_flow_def)
  ultimately show ?thesis
    by (simp only: symmetric_queue_id_def ip_hash_reverse)
qed

lemma queue_in_range: "symmetric_queue_id e p n = Some q \<Longrightarrow> q < n"
  by (auto simp: symmetric_queue_id_def Let_def word_less_nat_alt unat_mod unat_gt_0
      split: if_splits option.splits)

lemma queue_defined:
  "symmetric_queue_id e p n \<noteq> None \<longleftrightarrow> n \<noteq> 0 \<and> (ip_version p = 4 \<or> ip_version p = 6)"
  by (auto simp: symmetric_queue_id_def ip_hash_def Let_def split: option.splits)

text \<open>
  A packet of the other direction: the addresses are compared on the bytes its version uses, four or sixteen,
  since the parser leaves the other bytes of the sixteen-byte fields as the reused buffer had them.
\<close>

definition address_bytes :: "parsed_packet \<Rightarrow> nat" where
  "address_bytes p = (if ip_version p = 4 then 4 else 16)"

definition replies_to :: "parsed_packet \<Rightarrow> parsed_packet \<Rightarrow> bool" where
  "replies_to q p \<longleftrightarrow>
     ip_version q = ip_version p \<and> protocol q = protocol p \<and> src_port q = dst_port p \<and> dst_port q = src_port p
     \<and> take (address_bytes p) (src_ip q) = take (address_bytes p) (dst_ip p)
     \<and> take (address_bytes p) (dst_ip q) = take (address_bytes p) (src_ip p)"

text \<open>The queue depends on nothing but the five-tuple and the number of queues.\<close>

lemma queue_of_reply:
  assumes "replies_to q p" "wf_packet p" "wf_packet q"
  shows "symmetric_queue_id e q n = symmetric_queue_id e p n"
proof -
  have "ip_hash e q = ip_hash e (reverse_flow p)"
    using assms
    by (auto simp: replies_to_def address_bytes_def wf_packet_def ip_hash_def reverse_flow_def src_ip_v4_def dst_ip_v4_def
        src_ip_v6_def dst_ip_v6_def split: if_splits)
  moreover have "src_port q = src_port (reverse_flow p)" "dst_port q = dst_port (reverse_flow p)"
    "protocol q = protocol (reverse_flow p)"
    using assms(1) by (simp_all add: replies_to_def reverse_flow_def)
  ultimately have "symmetric_queue_id e q n = symmetric_queue_id e (reverse_flow p) n"
    by (simp only: symmetric_queue_id_def)
  then show ?thesis by (simp add: queue_reverse)
qed

end
