(* ===== verification/Ingress_Pipeline.thy ===== *)
theory Ingress_Pipeline
  imports Access_Control_Stage Protocol_Filter_Stage Rate_Limit_Stage Symmetric_Hash
begin

text \<open>
  The ingress XDP programs (\<^verbatim>\<open>ingress-ebpf/src/main.rs\<close>): packet intake, the three filter stages
  and the transmission stage, chained by tail calls through \<^verbatim>\<open>PROGRAM_ARRAY\<close> and \<^verbatim>\<open>NEXT_STAGE\<close>.

  A successful tail call does not return: the callee's result is the result. A failed one (an
  empty slot, or the kernel's bound on chained tail calls reached) returns to the caller, which
  goes on. A program is therefore written against the operation \<open>tc\<close> that runs a slot (\<open>None\<close>
  where the call fails), with the rest of the caller as a continuation; \<open>run_prog\<close> ties the knot
  with the number of tail calls still allowed. The outer option is a read outside the frame.

  The arguments that stand for the kernel: the BPF maps as read, the LRU insertions, the clock
  \<open>ktime\<close> (the \<open>n\<close>-th call of \<^verbatim>\<open>bpf_ktime_get_ns\<close>), whether the ring buffer can reserve a record,
  and the XSK redirect.
\<close>

section \<open>State and environment\<close>

datatype xdp_action = XDP_ABORTED | XDP_DROP | XDP_PASS | XDP_TX | XDP_REDIRECT

datatype xdp_prog = NetGuardia | AccessControl | RateLimit | ProtocolFilter | Transmission

record ingress_env =
  plat :: platform
  acl :: acl_maps
  svc :: service_maps
  RATE_LIMIT_CONFIG :: rate_config
  lru :: lru_api
  PROGRAM_ARRAY :: "u32 \<Rightarrow> xdp_prog option"
  NEXT_STAGE :: "u32 \<Rightarrow> u32 option"
  NUM_QUEUES :: "u32 option"
  xsk_redirect :: "u32 \<Rightarrow> xdp_action option"
  ktime :: "nat \<Rightarrow> u64"
  ring_reserve :: "drop_event list \<Rightarrow> bool"

record ingress_state =
  PARSED_PACKET :: "parsed_packet option"
  rates :: rate_maps
  DROP_EVENTS :: "drop_event list"
  n_ktime :: nat

record xdp_ctx =
  frame :: bytes
  rx_queue_index :: u32

type_synonym xdp_result = "(xdp_action \<times> ingress_state) option"
type_synonym tail_op = "u32 \<Rightarrow> ingress_state \<Rightarrow> xdp_result option"

section \<open>Helpers\<close>

definition bpf_ktime_get_ns :: "ingress_env \<Rightarrow> ingress_state \<Rightarrow> u64 \<times> ingress_state" where
  "bpf_ktime_get_ns E s = (ktime E (n_ktime s), s\<lparr>n_ktime := Suc (n_ktime s)\<rparr>)"

definition tail_call :: "tail_op \<Rightarrow> u32 \<Rightarrow> ingress_state \<Rightarrow> (ingress_state \<Rightarrow> xdp_result) \<Rightarrow> xdp_result" where
  "tail_call tc slot s k = (case tc slot s of Some r \<Rightarrow> r | None \<Rightarrow> k s)"

definition chain_next ::
  "ingress_env \<Rightarrow> tail_op \<Rightarrow> u32 \<Rightarrow> ingress_state \<Rightarrow> (ingress_state \<Rightarrow> xdp_result) \<Rightarrow> xdp_result" where
  "chain_next E tc current_id s k =
     (case NEXT_STAGE E current_id of
        Some next_slot \<Rightarrow>
          if next_slot \<noteq> STAGE_NONE
          then tail_call tc next_slot s (\<lambda>s. tail_call tc STAGE_TRANSMISSION s k)
          else tail_call tc STAGE_TRANSMISSION s k
      | None \<Rightarrow> tail_call tc STAGE_TRANSMISSION s k)"

definition emit_drop_event :: "ingress_env \<Rightarrow> parsed_packet \<Rightarrow> u8 \<Rightarrow> ingress_state \<Rightarrow> ingress_state" where
  "emit_drop_event E pkt reason s =
     (if ring_reserve E (DROP_EVENTS s) then
        let (now, s) = bpf_ktime_get_ns E s;
            event = \<lparr>de_timestamp_ns = now, de_src_ip = src_ip pkt, de_dst_ip = dst_ip pkt,
                     de_src_port = src_port pkt, de_dst_port = dst_port pkt,
                     de_protocol = protocol pkt, de_reason = reason, de_ip_version = ip_version pkt\<rparr>
        in s\<lparr>DROP_EVENTS := DROP_EVENTS s @ [event]\<rparr>
      else s)"

section \<open>The programs\<close>

definition packet_intake ::
  "ingress_env \<Rightarrow> xdp_ctx \<Rightarrow> tail_op \<Rightarrow> ingress_state \<Rightarrow> (ingress_state \<Rightarrow> xdp_result) \<Rightarrow> xdp_result" where
  "packet_intake E ctx tc s k =
     (case PARSED_PACKET s of
        None \<Rightarrow> k s
      | Some target \<Rightarrow>
          (case parse_packet (plat E) (frame ctx) target of
             None \<Rightarrow> None
           | Some (ok, pkt) \<Rightarrow>
               let s = s\<lparr>PARSED_PACKET := Some pkt\<rparr>
               in if ok then
                    let (now, s) = bpf_ktime_get_ns E s;
                        s = s\<lparr>PARSED_PACKET := Some (pkt\<lparr>timestamp_ns := now\<rparr>)\<rparr>
                    in chain_next E tc STAGE_ENTRY s k
                  else k s))"

definition net_guardia :: "ingress_env \<Rightarrow> xdp_ctx \<Rightarrow> tail_op \<Rightarrow> ingress_state \<Rightarrow> xdp_result" where
  "net_guardia E ctx tc s =
     packet_intake E ctx tc s (\<lambda>s. tail_call tc STAGE_TRANSMISSION s (\<lambda>s. Some (XDP_PASS, s)))"

definition try_access_control ::
  "ingress_env \<Rightarrow> tail_op \<Rightarrow> ingress_state \<Rightarrow> (xdp_action \<Rightarrow> ingress_state \<Rightarrow> xdp_result)
   \<Rightarrow> (ingress_state \<Rightarrow> xdp_result) \<Rightarrow> xdp_result" where
  "try_access_control E tc s ok err =
     (case PARSED_PACKET s of
        None \<Rightarrow> err s
      | Some pkt \<Rightarrow>
          (case acl_verdict_of (ne (plat E)) (acl E) pkt of
             Whitelisted \<Rightarrow> tail_call tc STAGE_TRANSMISSION s err
           | Blocked reason \<Rightarrow> ok XDP_DROP (emit_drop_event E pkt reason s)
           | NoMatch \<Rightarrow> chain_next E tc STAGE_ACCESS_CONTROL s err))"

definition access_control :: "ingress_env \<Rightarrow> xdp_ctx \<Rightarrow> tail_op \<Rightarrow> ingress_state \<Rightarrow> xdp_result" where
  "access_control E ctx tc s =
     try_access_control E tc s (\<lambda>action s. Some (action, s))
       (\<lambda>s. chain_next E tc STAGE_ACCESS_CONTROL s (\<lambda>s. Some (XDP_PASS, s)))"

text \<open>
  \<^verbatim>\<open>rate_limit::should_drop\<close> reads the clock once, in the branch of the packet's IP version.
\<close>

definition rate_verdict :: "ingress_env \<Rightarrow> parsed_packet \<Rightarrow> ingress_state \<Rightarrow> u8 option \<times> ingress_state" where
  "rate_verdict E pkt s =
     (if ip_version pkt = as_u8 V4 \<or> ip_version pkt = as_u8 V6 then
        let (now, s) = bpf_ktime_get_ns E s;
            (reason, R) = should_drop (plat E) (lru E) (RATE_LIMIT_CONFIG E) now (rates s) pkt
        in (reason, s\<lparr>rates := R\<rparr>)
      else (None, s))"

definition try_rate_limit ::
  "ingress_env \<Rightarrow> tail_op \<Rightarrow> ingress_state \<Rightarrow> (xdp_action \<Rightarrow> ingress_state \<Rightarrow> xdp_result)
   \<Rightarrow> (ingress_state \<Rightarrow> xdp_result) \<Rightarrow> xdp_result" where
  "try_rate_limit E tc s ok err =
     (case PARSED_PACKET s of
        None \<Rightarrow> err s
      | Some pkt \<Rightarrow>
          (case rate_verdict E pkt s of
             (Some reason, s) \<Rightarrow> ok XDP_DROP (emit_drop_event E pkt reason s)
           | (None, s) \<Rightarrow> chain_next E tc STAGE_RATE_LIMIT s err))"

definition rate_limit :: "ingress_env \<Rightarrow> xdp_ctx \<Rightarrow> tail_op \<Rightarrow> ingress_state \<Rightarrow> xdp_result" where
  "rate_limit E ctx tc s =
     try_rate_limit E tc s (\<lambda>action s. Some (action, s))
       (\<lambda>s. chain_next E tc STAGE_RATE_LIMIT s (\<lambda>s. Some (XDP_PASS, s)))"

definition service_verdict :: "ingress_env \<Rightarrow> bytes \<Rightarrow> parsed_packet \<Rightarrow> bool option" where
  "service_verdict E bs pkt =
     (if ip_version pkt = as_u8 V4 then ipv4_service_rule_violation (plat E) (svc E) bs pkt
      else if ip_version pkt = as_u8 V6 then ipv6_service_rule_violation (plat E) (svc E) bs pkt
      else Some False)"

definition try_protocol_filter ::
  "ingress_env \<Rightarrow> xdp_ctx \<Rightarrow> tail_op \<Rightarrow> ingress_state \<Rightarrow> (xdp_action \<Rightarrow> ingress_state \<Rightarrow> xdp_result)
   \<Rightarrow> (ingress_state \<Rightarrow> xdp_result) \<Rightarrow> xdp_result" where
  "try_protocol_filter E ctx tc s ok err =
     (case PARSED_PACKET s of
        None \<Rightarrow> err s
      | Some pkt \<Rightarrow>
          (case service_verdict E (frame ctx) pkt of
             None \<Rightarrow> None
           | Some True \<Rightarrow> ok XDP_DROP (emit_drop_event E pkt DROP_REASON_PROTOCOL_FILTER s)
           | Some False \<Rightarrow> chain_next E tc STAGE_SERVICE s err))"

definition protocol_filter :: "ingress_env \<Rightarrow> xdp_ctx \<Rightarrow> tail_op \<Rightarrow> ingress_state \<Rightarrow> xdp_result" where
  "protocol_filter E ctx tc s =
     try_protocol_filter E ctx tc s (\<lambda>action s. Some (action, s))
       (\<lambda>s. chain_next E tc STAGE_SERVICE s (\<lambda>s. Some (XDP_PASS, s)))"

definition compute_symmetric_queue_id :: "ingress_env \<Rightarrow> ingress_state \<Rightarrow> u32 option" where
  "compute_symmetric_queue_id E s =
     do { pkt \<leftarrow> PARSED_PACKET s; num_q \<leftarrow> NUM_QUEUES E; symmetric_queue_id (ne (plat E)) pkt num_q }"

definition transmission :: "ingress_env \<Rightarrow> xdp_ctx \<Rightarrow> ingress_state \<Rightarrow> xdp_result" where
  "transmission E ctx s =
     (let queue_id = (case compute_symmetric_queue_id E s of Some q \<Rightarrow> q | None \<Rightarrow> rx_queue_index ctx)
      in case xsk_redirect E queue_id of
           Some action \<Rightarrow> Some (action, s)
         | None \<Rightarrow> Some (XDP_PASS, s))"

definition prog_body :: "ingress_env \<Rightarrow> xdp_ctx \<Rightarrow> tail_op \<Rightarrow> xdp_prog \<Rightarrow> ingress_state \<Rightarrow> xdp_result" where
  "prog_body E ctx tc prog s =
     (case prog of
        NetGuardia \<Rightarrow> net_guardia E ctx tc s
      | AccessControl \<Rightarrow> access_control E ctx tc s
      | RateLimit \<Rightarrow> rate_limit E ctx tc s
      | ProtocolFilter \<Rightarrow> protocol_filter E ctx tc s
      | Transmission \<Rightarrow> transmission E ctx s)"

text \<open>The program in a slot, with \<open>n\<close> tail calls left.\<close>

fun run_prog :: "ingress_env \<Rightarrow> xdp_ctx \<Rightarrow> nat \<Rightarrow> xdp_prog \<Rightarrow> ingress_state \<Rightarrow> xdp_result" where
  "run_prog E ctx 0 prog s = prog_body E ctx (\<lambda>slot s. None) prog s"
| "run_prog E ctx (Suc n) prog s =
     prog_body E ctx (\<lambda>slot s. map_option (\<lambda>p. run_prog E ctx n p s) (PROGRAM_ARRAY E slot)) prog s"

section \<open>No program reads outside the frame, and every program ends\<close>

definition returns :: "'a option \<Rightarrow> bool" where
  "returns r \<longleftrightarrow> r \<noteq> None"

lemma returns_simps [simp]: "returns (Some x)" "\<not> returns None"
  by (simp_all add: returns_def)

lemma returnsE: "returns r \<Longrightarrow> (\<And>x. r = Some x \<Longrightarrow> P) \<Longrightarrow> P"
  by (auto simp: returns_def)

definition tc_safe :: "tail_op \<Rightarrow> bool" where
  "tc_safe tc \<longleftrightarrow> (\<forall>slot s. pred_option returns (tc slot s))"

lemma tail_call_safe [mem_safe]:
  "tc_safe tc \<Longrightarrow> (\<And>s. returns (k s)) \<Longrightarrow> returns (tail_call tc slot s k)"
  by (metis (mono_tags, lifting) option.case_eq_if option.pred_inject(2) option.collapse tail_call_def tc_safe_def)

lemma chain_next_safe [mem_safe]:
  "tc_safe tc \<Longrightarrow> (\<And>s. returns (k s)) \<Longrightarrow> returns (chain_next E tc i s k)"
  by (simp add: chain_next_def tail_call_safe split: option.split)

lemma service_verdict_safe [mem_safe]: "service_verdict E bs pkt \<noteq> None"
  by (simp add: service_verdict_def del: not_None_eq)

lemma packet_intake_safe [mem_safe]:
  assumes "tc_safe tc" "\<And>s. returns (k s)"
  shows "returns (packet_intake E ctx tc s k)"
proof (cases "PARSED_PACKET s")
  case None
  with assms(2) show ?thesis by (simp add: packet_intake_def)
next
  case (Some target)
  obtain ok pkt where "parse_packet (plat E) (frame ctx) target = Some (ok, pkt)"
    using parse_packet_total [of "plat E" "frame ctx" target] by (metis not_None_eq prod.exhaust)
  with Some show ?thesis
    using chain_next_safe [OF assms(1), of k] assms(2)
    by (simp add: packet_intake_def Let_def bpf_ktime_get_ns_def)
qed

lemma prog_body_safe:
  assumes tc: "tc_safe tc"
  shows "returns (prog_body E ctx tc prog s)"
proof (cases prog)
  case NetGuardia
  then show ?thesis
    by (simp add: prog_body_def net_guardia_def mem_safe tc)
next
  case AccessControl
  then show ?thesis
    by (simp add: prog_body_def access_control_def try_access_control_def mem_safe tc
        split: option.split acl_verdict.split)
next
  case RateLimit
  then show ?thesis
    by (simp add: prog_body_def rate_limit_def try_rate_limit_def mem_safe tc
        split: option.split prod.split)
next
  case ProtocolFilter
  then show ?thesis
    using service_verdict_safe [of E "frame ctx"]
    by (auto simp: prog_body_def protocol_filter_def try_protocol_filter_def mem_safe tc
        split: option.split bool.split)
next
  case Transmission
  then show ?thesis
    by (simp add: prog_body_def transmission_def Let_def split: option.split)
qed

lemma run_prog_safe: "returns (run_prog E ctx n prog s)"
  by (induction n arbitrary: prog s)
    (auto simp: option.pred_map comp_def tc_safe_def option.pred_True intro!: prog_body_safe)

section \<open>The pipeline as a sequence of stages\<close>

text \<open>
  The specification: the stages one after the other, with no slots and no tail calls. A stage
  drops the packet (with a drop event), sends it straight to the transmission stage, or lets the
  next stage look at it.
\<close>

datatype stage = AclStage | RateStage | ServiceStage

datatype stage_verdict = Drop u8 | Bypass | Continue

definition stage_id :: "stage \<Rightarrow> u32" where
  "stage_id st = (case st of AclStage \<Rightarrow> STAGE_ACCESS_CONTROL | RateStage \<Rightarrow> STAGE_RATE_LIMIT
                  | ServiceStage \<Rightarrow> STAGE_SERVICE)"

definition stage_prog :: "stage \<Rightarrow> xdp_prog" where
  "stage_prog st = (case st of AclStage \<Rightarrow> AccessControl | RateStage \<Rightarrow> RateLimit
                    | ServiceStage \<Rightarrow> ProtocolFilter)"

definition judge :: "ingress_env \<Rightarrow> bytes \<Rightarrow> stage \<Rightarrow> parsed_packet \<Rightarrow> ingress_state \<Rightarrow> stage_verdict \<times> ingress_state" where
  "judge E bs st pkt s =
     (case st of
        AclStage \<Rightarrow>
          ((case acl_verdict_of (ne (plat E)) (acl E) pkt of
              Whitelisted \<Rightarrow> Bypass | Blocked r \<Rightarrow> Drop r | NoMatch \<Rightarrow> Continue), s)
      | RateStage \<Rightarrow>
          (case rate_verdict E pkt s of (Some r, s) \<Rightarrow> (Drop r, s) | (None, s) \<Rightarrow> (Continue, s))
      | ServiceStage \<Rightarrow>
          (if service_verdict E bs pkt = Some True then Drop DROP_REASON_PROTOCOL_FILTER else Continue, s))"

fun stages_spec :: "ingress_env \<Rightarrow> xdp_ctx \<Rightarrow> stage list \<Rightarrow> parsed_packet \<Rightarrow> ingress_state \<Rightarrow> xdp_result" where
  "stages_spec E ctx [] pkt s = transmission E ctx s"
| "stages_spec E ctx (st # sts) pkt s =
     (case judge E (frame ctx) st pkt s of
        (Drop r, s) \<Rightarrow> Some (XDP_DROP, emit_drop_event E pkt r s)
      | (Bypass, s) \<Rightarrow> transmission E ctx s
      | (Continue, s) \<Rightarrow> stages_spec E ctx sts pkt s)"

definition pipeline_spec :: "ingress_env \<Rightarrow> xdp_ctx \<Rightarrow> stage list \<Rightarrow> ingress_state \<Rightarrow> xdp_result" where
  "pipeline_spec E ctx sts s =
     (case PARSED_PACKET s of
        None \<Rightarrow> transmission E ctx s
      | Some target \<Rightarrow>
          (case parse_packet (plat E) (frame ctx) target of
             None \<Rightarrow> None
           | Some (ok, pkt) \<Rightarrow>
               if ok then
                 let pkt = pkt\<lparr>timestamp_ns := ktime E (n_ktime s)\<rparr>
                 in stages_spec E ctx sts pkt
                      (s\<lparr>n_ktime := Suc (n_ktime s), PARSED_PACKET := Some pkt\<rparr>)
               else transmission E ctx (s\<lparr>PARSED_PACKET := Some pkt\<rparr>)))"

text \<open>
  The two maps realise a list of stages when \<open>NEXT_STAGE\<close> leads from the current stage through
  the slots of the programs of the list, and then to the transmission stage.
\<close>

fun linked :: "ingress_env \<Rightarrow> u32 \<Rightarrow> stage list \<Rightarrow> bool" where
  "linked E cur [] \<longleftrightarrow> NEXT_STAGE E cur = Some STAGE_TRANSMISSION"
| "linked E cur (st # sts) \<longleftrightarrow>
     (case NEXT_STAGE E cur of
        None \<Rightarrow> False
      | Some slot \<Rightarrow> slot \<noteq> STAGE_NONE \<and> PROGRAM_ARRAY E slot = Some (stage_prog st)
                     \<and> linked E (stage_id st) sts)"

definition slots_of :: "ingress_env \<Rightarrow> xdp_ctx \<Rightarrow> nat \<Rightarrow> tail_op" where
  "slots_of E ctx n slot s = map_option (\<lambda>p. run_prog E ctx n p s) (PROGRAM_ARRAY E slot)"

lemma run_prog_Suc: "run_prog E ctx (Suc n) prog s = prog_body E ctx (slots_of E ctx n) prog s"
  by (simp add: slots_of_def [abs_def])

lemma run_transmission: "run_prog E ctx n Transmission s = transmission E ctx s"
  by (cases n) (simp_all add: prog_body_def)

lemma tail_call_hit:
  "PROGRAM_ARRAY E slot = Some p \<Longrightarrow> tail_call (slots_of E ctx n) slot s k = run_prog E ctx n p s"
  by (simp add: tail_call_def slots_of_def)

lemma rate_verdict_packet: "rate_verdict E pkt s = (r, s') \<Longrightarrow> PARSED_PACKET s' = PARSED_PACKET s"
  by (auto simp: rate_verdict_def bpf_ktime_get_ns_def Let_def split: prod.splits if_splits)

lemma judge_packet: "judge E bs st pkt s = (v, s') \<Longrightarrow> PARSED_PACKET s' = PARSED_PACKET s"
  by (auto simp: judge_def rate_verdict_packet split: stage.splits prod.splits option.splits)

text \<open>One stage program, with the transmission program reachable.\<close>

lemma run_stage:
  assumes tx: "PROGRAM_ARRAY E STAGE_TRANSMISSION = Some Transmission" and pkt: "PARSED_PACKET s = Some pkt"
    and judge: "judge E (frame ctx) st pkt s = (v, s')"
  obtains k where "run_prog E ctx (Suc n) (stage_prog st) s =
    (case v of Drop r \<Rightarrow> Some (XDP_DROP, emit_drop_event E pkt r s')
     | Bypass \<Rightarrow> transmission E ctx s'
     | Continue \<Rightarrow> chain_next E (slots_of E ctx n) (stage_id st) s' k)"
proof -
  have tx': "tail_call (slots_of E ctx n) STAGE_TRANSMISSION s k = transmission E ctx s" for k s
    using tail_call_hit [OF tx] by (simp add: run_transmission)
  obtain b where b: "service_verdict E (frame ctx) pkt = Some b"
    using service_verdict_safe [of E "frame ctx" pkt] by auto
  show thesis
  proof (cases st)
    case AclStage
    with judge pkt show thesis
      by (intro that) (auto simp: judge_def run_prog_Suc prog_body_def stage_prog_def access_control_def
          try_access_control_def stage_id_def tx' simp del: run_prog.simps split: acl_verdict.splits)
  next
    case RateStage
    with judge pkt show thesis
      by (intro that) (auto simp: judge_def run_prog_Suc prog_body_def stage_prog_def rate_limit_def
          try_rate_limit_def stage_id_def simp del: run_prog.simps split: prod.splits option.splits)
  next
    case ServiceStage
    with judge pkt b show thesis
      by (intro that) (auto simp: judge_def run_prog_Suc prog_body_def stage_prog_def protocol_filter_def
          try_protocol_filter_def stage_id_def simp del: run_prog.simps split: bool.splits if_splits)
  qed
qed

lemma chain_next_linked:
  assumes tx: "PROGRAM_ARRAY E STAGE_TRANSMISSION = Some Transmission"
  shows "\<lbrakk>linked E cur sts; length sts \<le> n; PARSED_PACKET s = Some pkt\<rbrakk>
    \<Longrightarrow> chain_next E (slots_of E ctx n) cur s k = stages_spec E ctx sts pkt s"
proof (induction sts arbitrary: cur n s k)
  case Nil
  then show ?case
    by (simp add: chain_next_def tail_call_hit [OF tx] run_transmission)
      (simp add: stage_defs)
next
  case (Cons st sts)
  obtain m where n: "n = Suc m" "length sts \<le> m"
    using Cons.prems(2) by (cases n) auto
  obtain slot where slot: "NEXT_STAGE E cur = Some slot" "slot \<noteq> STAGE_NONE"
    "PROGRAM_ARRAY E slot = Some (stage_prog st)" "linked E (stage_id st) sts"
    using Cons.prems(1) by (auto split: option.splits)
  obtain v s' where v: "judge E (frame ctx) st pkt s = (v, s')" by force
  have "PARSED_PACKET s' = Some pkt" using judge_packet [OF v] Cons.prems(3) by simp
  note IH = Cons.IH [OF slot(4) n(2) this]
  have "chain_next E (slots_of E ctx n) cur s k = run_prog E ctx (Suc m) (stage_prog st) s"
    using slot by (simp add: chain_next_def tail_call_hit n(1) del: run_prog.simps)
  moreover obtain k' where "run_prog E ctx (Suc m) (stage_prog st) s =
    (case v of Drop r \<Rightarrow> Some (XDP_DROP, emit_drop_event E pkt r s')
     | Bypass \<Rightarrow> transmission E ctx s'
     | Continue \<Rightarrow> chain_next E (slots_of E ctx m) (stage_id st) s' k')"
    by (rule run_stage [OF tx Cons.prems(3) v])
  ultimately show ?case
    using v by (simp add: IH del: run_prog.simps split: stage_verdict.split)
qed

text \<open>The tail-called programs refine the sequence of stages.\<close>

lemma run_pipeline:
  assumes tx: "PROGRAM_ARRAY E STAGE_TRANSMISSION = Some Transmission"
    and "linked E STAGE_ENTRY sts" "length sts < n"
  shows "run_prog E ctx n NetGuardia s = pipeline_spec E ctx sts s"
proof -
  obtain m where n: "n = Suc m" "length sts \<le> m" using assms(3) by (cases n) auto
  show ?thesis
    using assms(2) n
    by (auto simp: run_prog_Suc prog_body_def net_guardia_def packet_intake_def pipeline_spec_def
        Let_def bpf_ktime_get_ns_def chain_next_linked [OF tx] tail_call_hit [OF tx] run_transmission
        simp del: run_prog.simps split: option.split)
qed

end
