(* ===== verification/Ingress_Startup.thy ===== *)
theory Ingress_Startup
  imports Ingress_Pipeline Rust_Text Domain_Errors
begin

text \<open>
  Bring-up of the ingress pipeline: validation of the configured stage names
  (\<^verbatim>\<open>domain/common/config/pipeline.rs\<close>) and the loading of the programs and of the two maps that
  chain them (\<^verbatim>\<open>infrastructure/startup/data_plane.rs\<close>).

  The eBPF object file and the kernel's arrays are reached through aya: they are the record
  \<open>bpf_object\<close>, and the locale \<open>ingress_object\<close> states what the code relies on. The programs are
  those of \<^verbatim>\<open>ingress-ebpf\<close>, and writing to an array succeeds exactly below its size.
\<close>

section \<open>Configured stage names\<close>

definition VALID_PIPELINE_STAGES :: "string list" where
  "VALID_PIPELINE_STAGES = [''access_control'', ''rate_limit'', ''service'']"

definition validate_stage :: "string \<Rightarrow> (system_error, unit) result" where
  "validate_stage stage =
     (if stage \<noteq> [] \<and> stage \<in> set VALID_PIPELINE_STAGES then Inr ()
      else Inl (InvalidPipelineStage stage (join_str '', '' VALID_PIPELINE_STAGES)))"

fun validate_stage_list :: "string list \<Rightarrow> (system_error, unit) result" where
  "validate_stage_list [] = Inr ()"
| "validate_stage_list (stage # stages) =
     and_then (validate_stage stage) (\<lambda>_. validate_stage_list stages)"

record pipeline_config =
  ingress :: "string list"
  egress :: "string list"

definition PipelineConfig_validate :: "pipeline_config \<Rightarrow> (system_error, unit) result" where
  "PipelineConfig_validate cfg =
     and_then (validate_stage_list (ingress cfg)) (\<lambda>_. validate_stage_list (egress cfg))"

fun collect_stages :: "string list \<Rightarrow> (system_error, string list) result" where
  "collect_stages [] = Inr []"
| "collect_stages (s # ss) =
     (let stage = trim s in
      and_then (validate_stage stage) (\<lambda>_. and_then (collect_stages ss) (\<lambda>r. Inr (stage # r))))"

definition normalize_pipeline_stages :: "string \<Rightarrow> (system_error, string list) result" where
  "normalize_pipeline_stages raw =
     (let raw = trim raw in if raw = [] then Inr [] else collect_stages (split_on (CHR '','') raw))"

section \<open>Loading the programs and chaining them\<close>

type_synonym 'v bpf_array = "u32 \<Rightarrow> 'v option"

record bpf_object =
  program_mut :: "string \<Rightarrow> xdp_prog option"
  xdp_load :: "xdp_prog \<Rightarrow> bool"
  has_map :: "string \<Rightarrow> bool"
  pa_set :: "xdp_prog bpf_array \<Rightarrow> u32 \<Rightarrow> xdp_prog \<Rightarrow> xdp_prog bpf_array option"
  ns_set :: "u32 bpf_array \<Rightarrow> u32 \<Rightarrow> u32 \<Rightarrow> u32 bpf_array option"

text \<open>A fresh program array is empty; a fresh array of numbers holds zeros.\<close>

definition fresh_program_array :: "xdp_prog bpf_array" where
  "fresh_program_array = (\<lambda>slot. None)"

definition fresh_next_stage :: "u32 bpf_array" where
  "fresh_next_stage = (\<lambda>i. if i < MAX_STAGES then Some 0 else None)"

definition load_program ::
  "bpf_object \<Rightarrow> xdp_prog bpf_array \<Rightarrow> string \<Rightarrow> u32 \<Rightarrow> (ebpf_error, xdp_prog bpf_array) result" where
  "load_program B program_array function_name slot =
     and_then (ok_or (program_mut B function_name) ProgramNotFound) (\<lambda>program.
       if \<not> xdp_load B program then Inl AttachProgramFailed
       else ok_or (pa_set B program_array slot program) MapOperationError)"

definition stage_lookup :: "string \<Rightarrow> (string \<times> u32) option" where
  "stage_lookup stage_name =
     (if stage_name = ''access_control'' then Some (''access_control'', STAGE_ACCESS_CONTROL)
      else if stage_name = ''rate_limit'' then Some (''rate_limit'', STAGE_RATE_LIMIT)
      else if stage_name = ''service'' then Some (''protocol_filter'', STAGE_SERVICE)
      else None)"

text \<open>The loop over the stages, \<open>i\<close> the index of the first one; it returns the array and \<open>slots\<close>.\<close>

fun load_stages ::
  "bpf_object \<Rightarrow> nat \<Rightarrow> string list \<Rightarrow> xdp_prog bpf_array
   \<Rightarrow> (ebpf_error, xdp_prog bpf_array \<times> (u32 \<times> u32) list) result" where
  "load_stages B i [] pa = Inr (pa, [])"
| "load_stages B i (stage_name # stages) pa =
     and_then (ok_or (stage_lookup stage_name) ProgramNotFound) (\<lambda>(func_name, sid).
       let slot = word_of_nat (i + 1) in
       and_then (load_program B pa func_name slot) (\<lambda>pa.
         and_then (load_stages B (Suc i) stages pa) (\<lambda>(pa, slots). Inr (pa, (sid, slot) # slots))))"

fun link_slots :: "bpf_object \<Rightarrow> (u32 \<times> u32) list \<Rightarrow> u32 bpf_array \<Rightarrow> (ebpf_error, u32 bpf_array) result" where
  "link_slots B [] ns = Inr ns"
| "link_slots B ((sid, slot) # rest) ns =
     (let next_slot = (case rest of [] \<Rightarrow> STAGE_TRANSMISSION | (_, s) # _ \<Rightarrow> s)
      in and_then (ok_or (ns_set B ns sid next_slot) MapOperationError) (link_slots B rest))"

definition configure_ingress_pipeline ::
  "bpf_object \<Rightarrow> string list \<Rightarrow> (ebpf_error, xdp_prog bpf_array \<times> u32 bpf_array) result" where
  "configure_ingress_pipeline B stages =
     and_then (ok_or (program_mut B ''net_guardia'') ProgramNotFound) (\<lambda>entry.
     if \<not> xdp_load B entry then Inl LoadProgramFailed
     else if \<not> has_map B ''PROGRAM_ARRAY'' then Inl MapNotFound
     else if \<not> has_map B ''NEXT_STAGE'' then Inl MapNotFound
     else
       and_then (load_program B fresh_program_array ''transmission'' STAGE_TRANSMISSION) (\<lambda>pa.
       if stages = [] then
         and_then (ok_or (ns_set B fresh_next_stage STAGE_ENTRY STAGE_TRANSMISSION) MapOperationError)
           (\<lambda>ns. Inr (pa, ns))
       else
         and_then (load_stages B 0 stages pa) (\<lambda>(pa, slots).
         and_then (ok_or (ns_set B fresh_next_stage STAGE_ENTRY (snd (hd slots))) MapOperationError) (\<lambda>ns.
         and_then (link_slots B slots ns) (\<lambda>ns. Inr (pa, ns))))))"

section \<open>What the code relies on of the object and the kernel's arrays\<close>

locale ingress_object =
  fixes B :: bpf_object
  assumes programs:
      "program_mut B ''net_guardia'' = Some NetGuardia" "program_mut B ''transmission'' = Some Transmission"
      "program_mut B ''access_control'' = Some AccessControl" "program_mut B ''rate_limit'' = Some RateLimit"
      "program_mut B ''protocol_filter'' = Some ProtocolFilter"
    and loads: "xdp_load B p"
    and maps: "has_map B ''PROGRAM_ARRAY''" "has_map B ''NEXT_STAGE''"
    and pa_set: "pa_set B pa slot p = (if slot < MAX_STAGES then Some (pa(slot \<mapsto> p)) else None)"
    and ns_set: "ns_set B ns i v = (if i < MAX_STAGES then Some (ns(i \<mapsto> v)) else None)"

definition array_set :: "'v bpf_array \<Rightarrow> u32 \<Rightarrow> 'v \<Rightarrow> 'v bpf_array option" where
  "array_set m i v = (if i < MAX_STAGES then Some (m(i \<mapsto> v)) else None)"

definition ingress_elf :: bpf_object where
  "ingress_elf = \<lparr>program_mut = map_of [(''net_guardia'', NetGuardia), (''transmission'', Transmission),
      (''access_control'', AccessControl), (''rate_limit'', RateLimit), (''protocol_filter'', ProtocolFilter)],
    xdp_load = (\<lambda>_. True), has_map = (\<lambda>m. m = ''PROGRAM_ARRAY'' \<or> m = ''NEXT_STAGE''),
    pa_set = array_set, ns_set = array_set\<rparr>"

interpretation elf: ingress_object ingress_elf
  by unfold_locales (simp_all add: ingress_elf_def array_set_def)

section \<open>Stage names\<close>

definition stage_name :: "stage \<Rightarrow> string" where
  "stage_name st = (case st of AclStage \<Rightarrow> ''access_control'' | RateStage \<Rightarrow> ''rate_limit'' | ServiceStage \<Rightarrow> ''service'')"

lemma validate_stage_iff: "validate_stage n = Inr () \<longleftrightarrow> n \<in> range stage_name"
proof -
  have "range stage_name = set VALID_PIPELINE_STAGES"
    by (auto simp: stage_name_def VALID_PIPELINE_STAGES_def image_iff split: stage.splits
        intro: stage.case [symmetric])
  then show ?thesis
    by (auto simp: validate_stage_def VALID_PIPELINE_STAGES_def)
qed

lemma validate_stage_list_iff: "validate_stage_list ns = Inr () \<longleftrightarrow> (\<exists>sts. ns = map stage_name sts)"
proof (induction ns)
  case (Cons n ns)
  have "validate_stage_list (n # ns) = Inr () \<longleftrightarrow> validate_stage n = Inr () \<and> validate_stage_list ns = Inr ()"
    by (cases "validate_stage n") auto
  then show ?case
    by (auto simp: validate_stage_iff Cons.IH Cons_eq_map_conv)
qed simp

lemma stage_id_simps: "stage_id st < MAX_STAGES" "stage_id st \<noteq> STAGE_ENTRY" "stage_id st = stage_id st' \<longleftrightarrow> st = st'"
  by (cases st; cases st'; simp add: stage_id_def stage_defs)+

section \<open>Configuring the pipeline\<close>

text \<open>The slots the loop assigns, the first stage of the list being number \<open>i\<close>.\<close>

fun slots_at :: "nat \<Rightarrow> stage list \<Rightarrow> (u32 \<times> u32) list" where
  "slots_at i [] = []"
| "slots_at i (st # sts) = (stage_id st, word_of_nat (i + 1)) # slots_at (Suc i) sts"

definition first_slot :: "nat \<Rightarrow> stage list \<Rightarrow> u32" where
  "first_slot i sts = (if sts = [] then STAGE_TRANSMISSION else word_of_nat (i + 1))"

fun programs_at :: "nat \<Rightarrow> stage list \<Rightarrow> xdp_prog bpf_array \<Rightarrow> xdp_prog bpf_array" where
  "programs_at i [] pa = pa"
| "programs_at i (st # sts) pa = programs_at (Suc i) sts (pa(word_of_nat (i + 1) \<mapsto> stage_prog st))"

lemma slot_word:
  assumes "i < 8"
  shows "(word_of_nat i :: u32) < MAX_STAGES" "(word_of_nat i :: u32) \<noteq> STAGE_NONE"
    "unat (word_of_nat i :: u32) = i"
proof -
  show u: "unat (word_of_nat i :: u32) = i"
    using assms by (simp add: unat_of_nat)
  then show "(word_of_nat i :: u32) < MAX_STAGES"
    using assms by (simp add: word_less_nat_alt stage_defs)
  have "unat STAGE_NONE = 2 ^ 32 - 1" by (simp add: stage_defs unsigned_minus_1_eq_mask mask_eq_exp_minus_1)
  with u assms show "(word_of_nat i :: u32) \<noteq> STAGE_NONE" by auto
qed

lemma programs_at_other: "(\<forall>j. i < j \<and> j \<le> i + length sts \<longrightarrow> slot \<noteq> word_of_nat j) \<Longrightarrow> programs_at i sts pa slot = pa slot"
  by (induction i sts pa rule: programs_at.induct) auto

lemma programs_at_hit:
  "\<lbrakk>i + length sts < 7; j < length sts\<rbrakk> \<Longrightarrow> programs_at i sts pa (word_of_nat (i + j + 1)) = Some (stage_prog (sts ! j))"
proof (induction i sts pa arbitrary: j rule: programs_at.induct)
  case (2 i st sts pa)
  show ?case
  proof (cases j)
    case 0
    have "(word_of_nat (i + 1) :: u32) \<noteq> word_of_nat k" if "Suc i < k" "k \<le> Suc i + length sts" for k
      using that "2.prems"(1) slot_word(3) [of "i + 1"] slot_word(3) [of k] by fastforce
    then have "programs_at (Suc i) sts (pa(word_of_nat (i + 1) \<mapsto> stage_prog st)) (word_of_nat (i + 1))
        = Some (stage_prog st)"
      by (subst programs_at_other) auto
    with 0 show ?thesis by simp
  next
    case (Suc j')
    have "programs_at (Suc i) sts (pa(word_of_nat (i + 1) \<mapsto> stage_prog st)) (word_of_nat (Suc i + j' + 1))
        = Some (stage_prog (sts ! j'))"
      by (rule "2.IH") (use "2.prems" Suc in auto)
    with Suc show ?thesis by (simp only: programs_at.simps nth_Cons_Suc add_Suc add_Suc_right)
  qed
qed simp

context ingress_object
begin

lemma load_stage:
  "slot < MAX_STAGES \<Longrightarrow> \<exists>f. stage_lookup (stage_name st) = Some (f, stage_id st)
     \<and> load_program B pa f slot = Inr (pa(slot \<mapsto> stage_prog st))"
  by (cases st) (simp_all add: stage_lookup_def stage_name_def stage_id_def stage_prog_def load_program_def
      programs loads pa_set)

lemma load_stages_ok:
  "i + length sts < 7 \<Longrightarrow> load_stages B i (map stage_name sts) pa = Inr (programs_at i sts pa, slots_at i sts)"
proof (induction i sts pa rule: programs_at.induct)
  case (2 i st sts pa)
  then have slot: "(word_of_nat (i + 1) :: u32) < MAX_STAGES" using slot_word(1) [of "i + 1"] by simp
  obtain f where "stage_lookup (stage_name st) = Some (f, stage_id st)"
    "load_program B pa f (word_of_nat (i + 1)) = Inr (pa(word_of_nat (i + 1) \<mapsto> stage_prog st))"
    using load_stage [OF slot] by blast
  moreover have "load_stages B (Suc i) (map stage_name sts) (pa(word_of_nat (i + 1) \<mapsto> stage_prog st))
      = Inr (programs_at (Suc i) sts (pa(word_of_nat (i + 1) \<mapsto> stage_prog st)), slots_at (Suc i) sts)"
    by (rule "2.IH") (use "2.prems" in simp)
  ultimately show ?case by (simp add: Let_def)
qed simp

lemma link_slots_ok:
  assumes "\<And>j. j < length sts \<Longrightarrow> PA (word_of_nat (i + j + 1)) = Some (stage_prog (sts ! j))"
    and "i + length sts < 7" "distinct sts" "ns cur = Some (first_slot i sts)" "cur \<notin> stage_id ` set sts"
  shows "\<exists>ns'. link_slots B (slots_at i sts) ns = Inr ns' \<and> (\<forall>j. j \<notin> stage_id ` set sts \<longrightarrow> ns' j = ns j)
    \<and> linked (E\<lparr>PROGRAM_ARRAY := PA, NEXT_STAGE := ns'\<rparr>) cur sts"
  using assms
proof (induction sts arbitrary: i ns cur)
  case Nil
  then show ?case by (simp add: first_slot_def)
next
  case (Cons st sts)
  let ?ns = "ns(stage_id st \<mapsto> first_slot (Suc i) sts)"
  have "\<exists>ns'. link_slots B (slots_at (Suc i) sts) ?ns = Inr ns' \<and> (\<forall>j. j \<notin> stage_id ` set sts \<longrightarrow> ns' j = ?ns j)
    \<and> linked (E\<lparr>PROGRAM_ARRAY := PA, NEXT_STAGE := ns'\<rparr>) (stage_id st) sts"
  proof (rule Cons.IH)
    show "PA (word_of_nat (Suc i + j + 1)) = Some (stage_prog (sts ! j))" if "j < length sts" for j
      using Cons.prems(1) [of "Suc j"] that by simp
    show "stage_id st \<notin> stage_id ` set sts" using Cons.prems(3) by (auto simp: stage_id_simps)
  qed (use Cons.prems(2,3) in auto)
  then obtain ns' where ns': "link_slots B (slots_at (Suc i) sts) ?ns = Inr ns'"
      "\<And>j. j \<notin> stage_id ` set sts \<Longrightarrow> ns' j = ?ns j"
      "linked (E\<lparr>PROGRAM_ARRAY := PA, NEXT_STAGE := ns'\<rparr>) (stage_id st) sts"
    by blast
  have "link_slots B (slots_at i (st # sts)) ns = Inr ns'"
    using ns'(1) by (cases sts) (simp_all add: Let_def ns_set stage_id_simps first_slot_def)
  moreover have "ns' cur = Some (word_of_nat (i + 1))"
    using ns'(2) [of cur] Cons.prems(4,5) by (auto simp: first_slot_def)
  moreover have "PA (word_of_nat (i + 1)) = Some (stage_prog st)"
    using Cons.prems(1) [of 0] by simp
  moreover have "(word_of_nat (i + 1) :: u32) \<noteq> STAGE_NONE"
    using Cons.prems(2) slot_word(2) [of "i + 1"] by simp
  ultimately show ?case
    using ns'(2,3) by (intro exI [of _ ns']) auto
qed

lemma configure_links:
  assumes "distinct sts"
  shows "\<exists>PA NS. configure_ingress_pipeline B (map stage_name sts) = Inr (PA, NS)
    \<and> PA STAGE_TRANSMISSION = Some Transmission
    \<and> linked (E\<lparr>PROGRAM_ARRAY := PA, NEXT_STAGE := NS\<rparr>) STAGE_ENTRY sts"
proof -
  have "card (set sts) \<le> card {AclStage, RateStage, ServiceStage}"
    by (rule card_mono) (auto intro: stage.exhaust)
  then have len: "length sts \<le> 3" using assms by (simp add: distinct_card)
  let ?pa = "fresh_program_array(STAGE_TRANSMISSION \<mapsto> Transmission)"
  let ?PA = "programs_at 0 sts ?pa"
  have PA: "?PA (word_of_nat (0 + j + 1)) = Some (stage_prog (sts ! j))" if "j < length sts" for j
    using programs_at_hit [of 0 sts j] that len by simp
  have "STAGE_TRANSMISSION \<noteq> word_of_nat j" if "j \<le> 3" for j
    using slot_word(3) [of j] that by (auto simp: stage_defs)
  then have tx: "?PA STAGE_TRANSMISSION = Some Transmission"
    using len by (subst programs_at_other) auto
  let ?ns = "fresh_next_stage(STAGE_ENTRY \<mapsto> first_slot 0 sts)"
  have "STAGE_ENTRY \<notin> stage_id ` set sts" using stage_id_simps(2) by (metis imageE)
  then obtain ns' where ns': "link_slots B (slots_at 0 sts) ?ns = Inr ns'"
    "linked (E\<lparr>PROGRAM_ARRAY := ?PA, NEXT_STAGE := ns'\<rparr>) STAGE_ENTRY sts"
    using link_slots_ok [of sts ?PA 0 ?ns STAGE_ENTRY E, OF PA] len assms by auto
  have "configure_ingress_pipeline B (map stage_name sts) = Inr (?PA, ns')"
    using ns'(1) load_stages_ok [of 0 sts ?pa] len
    by (cases sts) (simp_all add: configure_ingress_pipeline_def load_program_def programs loads maps pa_set ns_set
        first_slot_def stage_defs)
  with tx ns'(2) show ?thesis by blast
qed

end

section \<open>Properties of the configured pipeline\<close>

text \<open>The specification does not look at the two maps.\<close>

abbreviation configured :: "ingress_env \<Rightarrow> xdp_prog bpf_array \<Rightarrow> u32 bpf_array \<Rightarrow> ingress_env" where
  "configured E PA NS \<equiv> E\<lparr>PROGRAM_ARRAY := PA, NEXT_STAGE := NS\<rparr>"

lemma spec_configured [simp]:
  "rate_verdict (configured E PA NS) pkt s = rate_verdict E pkt s"
  "service_verdict (configured E PA NS) bs pkt = service_verdict E bs pkt"
  "emit_drop_event (configured E PA NS) pkt r s = emit_drop_event E pkt r s"
  "transmission (configured E PA NS) ctx s = transmission E ctx s"
  by (simp_all add: rate_verdict_def service_verdict_def emit_drop_event_def bpf_ktime_get_ns_def
      transmission_def compute_symmetric_queue_id_def)

lemma judge_configured [simp]: "judge (configured E PA NS) bs st pkt s = judge E bs st pkt s"
  by (cases st) (simp_all add: judge_def)

lemma stages_spec_configured [simp]:
  "stages_spec (configured E PA NS) ctx sts pkt s = stages_spec E ctx sts pkt s"
  by (induction sts arbitrary: s) (simp_all split: prod.split stage_verdict.split)

lemma pipeline_spec_configured [simp]:
  "pipeline_spec (configured E PA NS) ctx sts s = pipeline_spec E ctx sts s"
  by (simp add: pipeline_spec_def Let_def split: option.split prod.split)

lemma configure_refines:
  assumes "ingress_object B" "distinct sts"
  obtains PA NS where "configure_ingress_pipeline B (map stage_name sts) = Inr (PA, NS)"
    "\<And>E ctx n s. length sts < n \<Longrightarrow> run_prog (configured E PA NS) ctx n NetGuardia s = pipeline_spec E ctx sts s"
proof -
  obtain PA NS where c: "configure_ingress_pipeline B (map stage_name sts) = Inr (PA, NS)"
    "PA STAGE_TRANSMISSION = Some Transmission" "linked (configured undefined PA NS) STAGE_ENTRY sts"
    using ingress_object.configure_links [OF assms] by blast
  have "linked (configured E PA NS) cur sts = linked (configured E' PA NS) cur sts" for E E' cur
    by (induction sts arbitrary: cur) (auto split: option.split)
  with c(3) have "linked (configured E PA NS) STAGE_ENTRY sts" for E by metis
  then show thesis
    using that [OF c(1)] run_pipeline [of "configured E PA NS" sts for E] c(2) by simp
qed

text \<open>
  The stages other than access control never send a packet past the rest of the pipeline, so a
  packet that access control blocks is dropped wherever that stage stands.
\<close>

lemma blocked_dropped:
  "\<lbrakk>AclStage \<in> set sts; acl_verdict_of (ne (plat E)) (acl E) pkt = Blocked r\<rbrakk>
   \<Longrightarrow> \<exists>s'. stages_spec E ctx sts pkt s = Some (XDP_DROP, s')"
proof (induction sts arbitrary: s)
  case (Cons st sts)
  show ?case
  proof (cases st)
    case AclStage
    then show ?thesis using Cons.prems(2) by (simp add: judge_def)
  next
    case RateStage
    with Cons show ?thesis by (simp add: judge_def split: prod.split option.split)
  next
    case ServiceStage
    with Cons show ?thesis by (simp add: judge_def)
  qed
qed simp

end
