(* ===== verification/Egress_Program.thy ===== *)
theory Egress_Program
  imports Ingress_Pipeline
begin

text \<open>
  The egress XDP program (\<^verbatim>\<open>egress-ebpf/src/main.rs\<close>): it parses the frame into a zeroed packet,
  computes the queue of the flow and redirects to that queue's socket.
\<close>

record egress_env =
  e_plat :: platform
  e_NUM_QUEUES :: "u32 option"
  e_xsk_redirect :: "u32 \<Rightarrow> xdp_action option"

definition egress_compute_symmetric_queue_id :: "egress_env \<Rightarrow> xdp_ctx \<Rightarrow> u32 option option" where
  "egress_compute_symmetric_queue_id E ctx =
     (case parse_packet (e_plat E) (frame ctx) zeroed_packet of
        None \<Rightarrow> None
      | Some (ok, pkt) \<Rightarrow>
          if ok then Some (do { num_q \<leftarrow> e_NUM_QUEUES E; symmetric_queue_id (ne (e_plat E)) pkt num_q })
          else Some None)"

definition egress_net_guardia :: "egress_env \<Rightarrow> xdp_ctx \<Rightarrow> xdp_action option" where
  "egress_net_guardia E ctx =
     (case egress_compute_symmetric_queue_id E ctx of
        None \<Rightarrow> None
      | Some q \<Rightarrow>
          let queue_id = (case q of Some q \<Rightarrow> q | None \<Rightarrow> rx_queue_index ctx)
          in Some (case e_xsk_redirect E queue_id of Some action \<Rightarrow> action | None \<Rightarrow> XDP_PASS))"

lemma egress_safe: "returns (egress_net_guardia E ctx)"
  using parse_packet_total [of "e_plat E" "frame ctx" zeroed_packet]
  by (auto simp: egress_net_guardia_def egress_compute_symmetric_queue_id_def Let_def
      split: option.split prod.split)

text \<open>The queue the egress program uses for a frame it can parse.\<close>

lemma egress_queue:
  "\<lbrakk>parse_packet (e_plat E) (frame ctx) zeroed_packet = Some (True, q); e_NUM_QUEUES E = Some n;
    symmetric_queue_id (ne (e_plat E)) q n = Some i\<rbrakk>
   \<Longrightarrow> egress_net_guardia E ctx = Some (case e_xsk_redirect E i of Some a \<Rightarrow> a | None \<Rightarrow> XDP_PASS)"
  by (simp add: egress_net_guardia_def egress_compute_symmetric_queue_id_def)

end
