(* ===== verification/Wire_Frames.thy ===== *)
theory Wire_Frames
  imports Packet_Parsing
begin

text \<open>
  A reference writer for Ethernet frames that carry UDP over IPv4, written from the protocol's
  header layout, against which the parser of \<open>Packet_Parsing\<close> is checked: parsing a written
  frame gives back its addresses, ports and lengths.
\<close>

definition udp_segment :: "u16 \<Rightarrow> u16 \<Rightarrow> bytes \<Rightarrow> bytes \<Rightarrow> bytes" where
  "udp_segment sport dport cksum payload =
     to_be_bytes 2 sport @ to_be_bytes 2 dport @ to_be_bytes 2 (word_of_nat (8 + length payload) :: u16)
     @ cksum @ payload"

definition ipv4_frame :: "bytes \<Rightarrow> u8 \<Rightarrow> bytes \<Rightarrow> u8 \<Rightarrow> bytes \<Rightarrow> bytes \<Rightarrow> bytes \<Rightarrow> bytes \<Rightarrow> bytes" where
  "ipv4_frame macs tos ident_frag_ttl proto cksum src dst segment =
     macs @ [0x08, 0x00] @ [0x45, tos] @ to_be_bytes 2 (word_of_nat (20 + length segment) :: u16)
     @ ident_frag_ttl @ [proto] @ cksum @ src @ dst @ segment"

lemma to_be_bytes_2:
  obtains hi lo where "to_be_bytes 2 (w :: u16) = [hi, lo]" "from_be_bytes [hi, lo] = w"
proof -
  obtain hi lo where l: "to_be_bytes 2 w = [hi, lo]"
    by (simp add: to_be_bytes_def numeral_2_eq_2)
  moreover have "from_be_bytes (to_be_bytes 2 w) = w"
    by (rule from_be_to_be_bytes) simp
  ultimately show ?thesis by (auto intro: that)
qed

context ip_platform
begin

lemma parse_udp_written:
  assumes "length pre = n" "length cksum = 2" "8 + length payload \<le> m" "length payload < 65528"
  shows "parse_udp (pre @ udp_segment sport dport cksum payload) n m =
     Some (Some (sport, dport, 0, 8, 8 + length payload))"
proof -
  obtain h1 l1 where sp: "to_be_bytes 2 sport = [h1, l1]" "from_be_bytes [h1, l1] = sport"
    by (rule to_be_bytes_2)
  obtain h2 l2 where dp: "to_be_bytes 2 dport = [h2, l2]" "from_be_bytes [h2, l2] = dport"
    by (rule to_be_bytes_2)
  obtain h3 l3 where len: "to_be_bytes 2 (word_of_nat (8 + length payload) :: u16) = [h3, l3]"
    "from_be_bytes [h3, l3] = (word_of_nat (8 + length payload) :: u16)"
    by (rule to_be_bytes_2)
  have u: "unat (word_of_nat (8 + length payload) :: u16) = 8 + length payload"
    using assms(4) by (simp add: unat_of_nat del: of_nat_add)
  have seg: "udp_segment sport dport cksum payload = [h1, l1, h2, l2, h3, l3] @ cksum @ payload"
    by (simp only: udp_segment_def sp dp len) simp
  have slices: "take 2 (drop n (pre @ udp_segment sport dport cksum payload)) = [h1, l1]"
    "take 2 (drop (n + 2) (pre @ udp_segment sport dport cksum payload)) = [h2, l2]"
    "take 2 (drop (n + 4) (pre @ udp_segment sport dport cksum payload)) = [h3, l3]"
    "length (pre @ udp_segment sport dport cksum payload) = n + 8 + length payload"
    using assms(1,2) by (simp_all add: seg)
  show ?thesis
    using assms(3)
    by (simp only: parse_udp_def UDP_HDR_SIZE_def rd_slice_def slices Let_def)
      (simp add: sp(2) dp(2) len(2) u del: of_nat_add)
qed

lemma parse_ipv4_udp_written:
  fixes sport dport :: u16
  assumes "length macs = 12" "length ident = 5" "length ck = 2" "length src = 4" "length dst = 4"
    and "length uck = 2" "length payload \<le> 65507"
  defines "seg \<equiv> udp_segment sport dport uck payload"
  shows "parse_packet P (ipv4_frame macs tos ident 17 ck src dst seg) t =
     Some (True, t\<lparr>src_ip := write_slice (src_ip t) 0 src, dst_ip := write_slice (dst_ip t) 0 dst,
       packet_length := word_of_nat (28 + length payload),
       payload_length := word_of_nat (length payload), src_port := sport, dst_port := dport,
       ip_version := 4, protocol := 17, tcp_flags := 0\<rparr>)"
proof -
  let ?bs = "ipv4_frame macs tos ident 17 ck src dst seg"
  have ls: "length seg = 8 + length payload"
    using assms(6) by (simp add: seg_def udp_segment_def)
  obtain hi lo where tot: "to_be_bytes 2 (word_of_nat (20 + length seg) :: u16) = [hi, lo]"
    "from_be_bytes [hi, lo] = (word_of_nat (20 + length seg) :: u16)"
    by (rule to_be_bytes_2)
  have u: "unat (word_of_nat (20 + length seg) :: u16) = 28 + length payload"
    using assms(7) by (simp add: unat_of_nat ls del: of_nat_add)
  have bs: "?bs = macs @ [0x08, 0x00, 0x45, tos, hi, lo] @ ident @ [17] @ ck @ src @ dst @ seg"
    by (simp only: ipv4_frame_def tot) simp
  have len: "length ?bs = 42 + length payload"
    using assms(1-5) ls by (simp add: bs)
  have at: "take 2 (drop 12 ?bs) = [0x08, 0x00]" "?bs ! 14 = 0x45" "?bs ! 16 = hi" "?bs ! 17 = lo"
    "?bs ! 23 = 17" "take 4 (drop 26 ?bs) = src" "take 4 (drop 30 ?bs) = dst"
    using assms(1-5) by (simp_all add: bs nth_append)
  have hl: "parse_ipv4_header_len ?bs = Some (Some 20)"
    using len at(2)
    by (simp add: parse_ipv4_header_len_def IPV4_HEADER_START_def ETHER_HEADER_END_def mem_safe Let_def)
  have udp: "parse_udp ?bs 34 (8 + length payload) = Some (Some (sport, dport, 0, 8, 8 + length payload))"
  proof -
    have "?bs = (macs @ [0x08, 0x00, 0x45, tos, hi, lo] @ ident @ [17] @ ck @ src @ dst) @ seg"
      by (simp add: bs)
    then show ?thesis
      using parse_udp_written [of "macs @ [0x08, 0x00, 0x45, tos, hi, lo] @ ident @ [17] @ ck @ src @ dst"
          34 uck payload "8 + length payload" sport dport] assms by (simp add: seg_def)
  qed
  have l4: "parse_l4 P ?bs 17 34 34 (8 + length payload) = Some (Some (sport, dport, 0, 8, 8 + length payload))"
    by (simp add: parse_l4_def tcp_number udp_number udp)
  have ty: "ether_type_of P (from_be_bytes [0x08, 0x00]) = Some EtIpv4"
    by (simp add: ether_ipv4 from_be_bytes_def)
  have sat: "saturating_sub (word_of_nat (8 + length payload)) 8 = (word_of_nat (length payload) :: u32)"
    using assms(7) by (simp add: word_unat_eq_iff unat_saturating_sub unat_of_nat del: of_nat_add)
  have p4: "parse_packet P ?bs t = parse_ipv4_packet P ?bs t"
    using len by (simp add: parse_packet_eq at(1) ty)
  show ?thesis
    unfolding p4 parse_ipv4_packet_eq hl
    using len by (simp add: at tot(2) u l4 finish_l4_def ipv4_written_def write_l4_def sat del: of_nat_add)
qed

end

lemmas parse_ipv4_udp_roundtrip = ip_platform.parse_ipv4_udp_written

end
