(* ===== verification/Ingress_Properties.thy ===== *)
theory Ingress_Properties
  imports Ingress_Startup Egress_Program Wire_Frames
begin

text \<open>
  The properties of the two XDP programs, over the configured pipeline. The environment
  \<open>quiet_env\<close> and the frame \<open>sample_frame\<close> are the concrete inputs of the witnesses.
\<close>

section \<open>Concrete inputs\<close>

definition empty_acl :: acl_maps where
  "empty_acl = \<lparr>IPV4_SRC_WHITELIST = (\<lambda>_. None), IPV6_SRC_WHITELIST = (\<lambda>_. None),
     IPV4_DST_WHITELIST = (\<lambda>_. None), IPV6_DST_WHITELIST = (\<lambda>_. None),
     IPV4_SRC_BLACKLIST = (\<lambda>_. None), IPV6_SRC_BLACKLIST = (\<lambda>_. None),
     IPV4_DST_BLACKLIST = (\<lambda>_. None), IPV6_DST_BLACKLIST = (\<lambda>_. None),
     GEO_BLOCK_V4 = (\<lambda>_ _. None), GEO_BLOCK_V6 = (\<lambda>_ _. None)\<rparr>"

definition no_services :: service_maps where
  "no_services = \<lparr>IPV4_HTTP_SERVICE = (\<lambda>_. None), IPV6_HTTP_SERVICE = (\<lambda>_. None),
     SSH_WHITE_LIST_ENABLE = None, IPV4_SSH_SERVICE = (\<lambda>_. None), IPV6_SSH_SERVICE = (\<lambda>_. None),
     IPV4_SSH_WHITE_LIST = (\<lambda>_. None), IPV6_SSH_WHITE_LIST = (\<lambda>_. None),
     IPV4_SSH_BLACK_LIST = (\<lambda>_. None), IPV6_SSH_BLACK_LIST = (\<lambda>_. None)\<rparr>"

definition no_rates :: rate_maps where
  "no_rates = \<lparr>IPV4_PACKET_RATE_MAP = (\<lambda>_. None), IPV6_PACKET_RATE_MAP = (\<lambda>_. None),
     IPV4_SYN_RATE_MAP = (\<lambda>_. None), IPV6_SYN_RATE_MAP = (\<lambda>_. None),
     IPV4_UDP_RATE_MAP = (\<lambda>_. None), IPV6_UDP_RATE_MAP = (\<lambda>_. None),
     IPV4_DNS_RATE_MAP = (\<lambda>_. None), IPV6_DNS_RATE_MAP = (\<lambda>_. None)\<rparr>"

definition quiet_env :: ingress_env where
  "quiet_env = \<lparr>plat = std_platform LittleEndian, acl = empty_acl, svc = no_services,
     RATE_LIMIT_CONFIG = (\<lambda>_. None), lru = \<lparr>lru4 = (\<lambda>m k v. m(k \<mapsto> v)), lru6 = (\<lambda>m k v. m(k \<mapsto> v))\<rparr>,
     PROGRAM_ARRAY = (\<lambda>_. None), NEXT_STAGE = (\<lambda>_. None), NUM_QUEUES = Some 4,
     xsk_redirect = (\<lambda>_. Some XDP_REDIRECT), ktime = (\<lambda>n. word_of_nat n), ring_reserve = (\<lambda>_. True)\<rparr>"

definition blocking_env :: ingress_env where
  "blocking_env = quiet_env\<lparr>acl := empty_acl\<lparr>IPV4_SRC_BLACKLIST :=
     (\<lambda>k. if k = from_ne_bytes LittleEndian [192, 0, 2, 1] then Some new_match_all else None)\<rparr>\<rparr>"

definition trusting_env :: ingress_env where
  "trusting_env = blocking_env\<lparr>acl := (acl blocking_env)\<lparr>IPV4_DST_WHITELIST :=
     (\<lambda>k. if k = from_ne_bytes LittleEndian [198, 51, 100, 7] then Some new_match_all else None)\<rparr>\<rparr>"

definition boot_state :: ingress_state where
  "boot_state = \<lparr>PARSED_PACKET = Some zeroed_packet, rates = no_rates, DROP_EVENTS = [], n_ktime = 0\<rparr>"

definition sample_frame :: bytes where
  "sample_frame = ipv4_frame (replicate 12 0) 0 (replicate 5 0) 17 [0, 0] [192, 0, 2, 1] [198, 51, 100, 7]
     (udp_segment 5000 53 [0, 0] [1, 2, 3])"

definition sample_ctx :: xdp_ctx where
  "sample_ctx = \<lparr>frame = sample_frame, rx_queue_index = 0\<rparr>"

definition sample_packet :: parsed_packet where
  "sample_packet = zeroed_packet\<lparr>src_ip := write_slice (src_ip zeroed_packet) 0 [192, 0, 2, 1],
     dst_ip := write_slice (dst_ip zeroed_packet) 0 [198, 51, 100, 7],
     packet_length := 31, payload_length := 3, src_port := 5000, dst_port := 53,
     ip_version := 4, protocol := 17, tcp_flags := 0\<rparr>"

lemma sample_parse: "parse_packet (std_platform e) sample_frame zeroed_packet = Some (True, sample_packet)"
  unfolding sample_frame_def
  by (subst std.parse_ipv4_udp_written) (simp_all add: sample_packet_def)

lemma sample_addresses:
  "src_ip_v4 e sample_packet = from_ne_bytes e [192, 0, 2, 1]"
  "dst_ip_v4 e sample_packet = from_ne_bytes e [198, 51, 100, 7]"
  by (simp_all add: sample_packet_def src_ip_v4_def dst_ip_v4_def write_slice_def zeroed_packet_def)

lemma env_fields [simp]:
  "plat quiet_env = std_platform LittleEndian" "plat blocking_env = std_platform LittleEndian"
  "plat trusting_env = std_platform LittleEndian" "ne (std_platform e) = e"
  "frame sample_ctx = sample_frame" "PARSED_PACKET boot_state = Some zeroed_packet"
  by (simp_all add: quiet_env_def blocking_env_def trusting_env_def std_platform_def sample_ctx_def boot_state_def)

lemma sample_blocked:
  "acl_verdict_of LittleEndian (acl blocking_env) sample_packet = Blocked DROP_REASON_ACL_BLACKLIST"
  by (simp add: acl_verdict_of_def ipv4_is_whitelisted_def ipv4_is_geo_blocked_def ipv4_is_blacklisted_def
      sample_addresses rule_hit_def blocking_env_def quiet_env_def empty_acl_def contains_def
      is_match_all_def new_match_all_def Let_def)
    (simp add: sample_packet_def)

lemma sample_trusted: "acl_verdict_of LittleEndian (acl trusting_env) sample_packet = Whitelisted"
  by (simp add: acl_verdict_of_def ipv4_is_whitelisted_def
      sample_addresses rule_hit_def trusting_env_def blocking_env_def quiet_env_def empty_acl_def contains_def
      is_match_all_def new_match_all_def Let_def)
    (simp add: sample_packet_def)

section \<open>Shared steps\<close>

lemma run_configured:
  assumes "ingress_object B" "distinct sts" "configure_ingress_pipeline B (map stage_name sts) = Inr (PA, NS)"
    and "length sts < n"
  shows "run_prog (configured E PA NS) ctx n NetGuardia s = pipeline_spec E ctx sts s"
  by (rule configure_refines [OF assms(1,2)]) (use assms(3,4) in auto)

lemma acl_verdict_timestamp [simp]:
  "acl_verdict_of e M (pkt\<lparr>timestamp_ns := t\<rparr>) = acl_verdict_of e M pkt"
  by (simp add: acl_verdict_of_def ipv4_is_whitelisted_def ipv6_is_whitelisted_def ipv4_is_geo_blocked_def
      ipv6_is_geo_blocked_def ipv4_is_blacklisted_def ipv6_is_blacklisted_def src_ip_v4_def dst_ip_v4_def
      src_ip_v6_def dst_ip_v6_def)

lemma transmission_action: "\<exists>action. transmission E ctx s = Some (action, s)"
  by (simp add: transmission_def Let_def split: option.split)

lemma stage_name_inj: "inj stage_name"
  by (auto simp: inj_def stage_name_def split: stage.splits)

lemma default_configured:
  "\<exists>PA NS. configure_ingress_pipeline ingress_elf (map stage_name [AclStage, RateStage, ServiceStage]) = Inr (PA, NS)"
  by (rule configure_refines [OF elf.ingress_object_axioms, of "[AclStage, RateStage, ServiceStage]"]) auto

section \<open>The pipeline\<close>

text \<open>
  C2. A list of distinct stage names that passes the validation of the settings is brought up
  without an error, and the chain of tail-called programs it gives behaves on every frame as the
  listed stages run one after the other, provided the kernel allows one tail call more than there
  are stages (it allows 33): \<open>configure_ingress_pipeline\<close> and the five programs refine \<open>pipeline_spec\<close>.
\<close>

theorem configured_pipeline_refines_stages:
  assumes "ingress_object B" "validate_stage_list names = Inr ()" "distinct names"
  shows "\<exists>sts PA NS. names = map stage_name sts \<and> configure_ingress_pipeline B names = Inr (PA, NS)
    \<and> (\<forall>E ctx n s. length names < n \<longrightarrow>
          run_prog (configured E PA NS) ctx n NetGuardia s = pipeline_spec E ctx sts s)"
proof -
  obtain sts where sts: "names = map stage_name sts" using assms(2) validate_stage_list_iff by blast
  with assms(3) have "distinct sts" by (simp add: distinct_map)
  then show ?thesis
    using configure_refines [OF assms(1)] sts by (metis length_map)
qed

theorem configured_pipeline_refines_stages_witness:
  "\<exists>sts PA NS. [''rate_limit'', ''access_control''] = map stage_name sts
    \<and> configure_ingress_pipeline ingress_elf [''rate_limit'', ''access_control''] = Inr (PA, NS)
    \<and> run_prog (configured quiet_env PA NS) sample_ctx 33 NetGuardia boot_state
        = pipeline_spec quiet_env sample_ctx sts boot_state"
proof -
  define names where names: "names = [''rate_limit'', ''access_control'']"
  have "validate_stage_list names = Inr ()" "distinct names" "length names < 33"
    by (simp_all add: names validate_stage_def VALID_PIPELINE_STAGES_def)
  then show ?thesis
    unfolding names [symmetric]
    using configured_pipeline_refines_stages [OF elf.ingress_object_axioms, of names] by blast
qed

text \<open>
  C3. A packet that the parser accepts and that access control blocks (its source is in a blocked
  country or an address is on the blacklist, and it is not whitelisted) is dropped, wherever the
  access-control stage stands in the configured list.
\<close>

theorem blocked_packet_is_dropped:
  assumes "ingress_object B" "distinct sts" "AclStage \<in> set sts" "length sts < n"
    and "configure_ingress_pipeline B (map stage_name sts) = Inr (PA, NS)"
    and "PARSED_PACKET s = Some target" "parse_packet (plat E) (frame ctx) target = Some (True, pkt)"
    and "acl_verdict_of (ne (plat E)) (acl E) pkt = Blocked reason"
  shows "\<exists>s'. run_prog (configured E PA NS) ctx n NetGuardia s = Some (XDP_DROP, s')"
  using assms(6-8) blocked_dropped [OF assms(3)]
  by (simp add: run_configured [OF assms(1,2,5,4)] pipeline_spec_def Let_def)

theorem blocked_packet_is_dropped_witness:
  "\<exists>PA NS s'. configure_ingress_pipeline ingress_elf (map stage_name [AclStage, RateStage, ServiceStage]) = Inr (PA, NS)
    \<and> run_prog (configured blocking_env PA NS) sample_ctx 33 NetGuardia boot_state = Some (XDP_DROP, s')"
proof -
  obtain PA NS where c: "configure_ingress_pipeline ingress_elf (map stage_name [AclStage, RateStage, ServiceStage]) = Inr (PA, NS)"
    using default_configured by blast
  show ?thesis
    using blocked_packet_is_dropped [OF elf.ingress_object_axioms _ _ _ c, of 33 boot_state zeroed_packet
        blocking_env sample_ctx sample_packet] sample_blocked sample_parse c
    by (simp del: run_prog.simps)
qed

text \<open>
  A packet that matches the whitelist reaches the transmission stage when access control is the
  first stage: no later stage sees it, no counter changes and no drop event is written, even if an
  address is also blacklisted or its country blocked.
\<close>

theorem whitelisted_packet_is_transmitted:
  assumes "ingress_object B" "distinct (AclStage # sts)" "Suc (length sts) < n"
    and "configure_ingress_pipeline B (map stage_name (AclStage # sts)) = Inr (PA, NS)"
    and "PARSED_PACKET s = Some target" "parse_packet (plat E) (frame ctx) target = Some (True, pkt)"
    and "acl_verdict_of (ne (plat E)) (acl E) pkt = Whitelisted"
  shows "\<exists>s' action. run_prog (configured E PA NS) ctx n NetGuardia s = Some (action, s')
    \<and> transmission E ctx s' = Some (action, s') \<and> rates s' = rates s \<and> DROP_EVENTS s' = DROP_EVENTS s"
proof -
  let ?pkt = "pkt\<lparr>timestamp_ns := ktime E (n_ktime s)\<rparr>"
  let ?s = "s\<lparr>n_ktime := Suc (n_ktime s), PARSED_PACKET := Some ?pkt\<rparr>"
  have "run_prog (configured E PA NS) ctx n NetGuardia s = transmission E ctx ?s"
    using assms(5-7) run_configured [OF assms(1,2,4), of n E ctx s] assms(3)
    by (simp add: pipeline_spec_def judge_def Let_def)
  moreover obtain action where "transmission E ctx ?s = Some (action, ?s)"
    using transmission_action by blast
  ultimately show ?thesis by (intro exI [of _ ?s] exI [of _ action]) simp
qed

theorem whitelisted_packet_is_transmitted_witness:
  "\<exists>PA NS s' action. configure_ingress_pipeline ingress_elf (map stage_name [AclStage, RateStage, ServiceStage]) = Inr (PA, NS)
    \<and> run_prog (configured trusting_env PA NS) sample_ctx 33 NetGuardia boot_state = Some (action, s')
    \<and> rates s' = rates boot_state"
proof -
  obtain PA NS where c: "configure_ingress_pipeline ingress_elf (map stage_name [AclStage, RateStage, ServiceStage]) = Inr (PA, NS)"
    using default_configured by blast
  show ?thesis
    using whitelisted_packet_is_transmitted [OF elf.ingress_object_axioms _ _ c, of 33 boot_state zeroed_packet
        trusting_env sample_ctx sample_packet] sample_trusted sample_parse c
    by (auto simp del: run_prog.simps)
qed

text \<open>
  A frame the parser refuses (too short, not IP, neither TCP nor UDP, or a truncated header) is
  never filtered: whatever stages are configured and whatever the lists say, the result is the
  transmission stage's, no counter changes and no drop event is written.
\<close>

theorem unparsable_frame_is_not_filtered:
  assumes "ingress_object B" "distinct sts" "length sts < n"
    and "configure_ingress_pipeline B (map stage_name sts) = Inr (PA, NS)"
    and "PARSED_PACKET s = Some target" "parse_packet (plat E) (frame ctx) target = Some (False, pkt)"
  shows "run_prog (configured E PA NS) ctx n NetGuardia s = transmission E ctx (s\<lparr>PARSED_PACKET := Some pkt\<rparr>)"
  using assms(5,6) by (simp add: run_configured [OF assms(1,2,4,3)] pipeline_spec_def)

theorem unparsable_frame_is_not_filtered_witness:
  "\<exists>PA NS. configure_ingress_pipeline ingress_elf (map stage_name [AclStage, RateStage, ServiceStage]) = Inr (PA, NS)
    \<and> run_prog (configured blocking_env PA NS) \<lparr>frame = [1, 2, 3], rx_queue_index = 0\<rparr> 33 NetGuardia boot_state
      = transmission blocking_env \<lparr>frame = [1, 2, 3], rx_queue_index = 0\<rparr> boot_state"
proof -
  obtain PA NS where c: "configure_ingress_pipeline ingress_elf (map stage_name [AclStage, RateStage, ServiceStage]) = Inr (PA, NS)"
    using default_configured by blast
  have "parse_packet (std_platform LittleEndian) [1, 2, 3] zeroed_packet = Some (False, zeroed_packet)"
    by code_simp
  moreover have upd: "boot_state\<lparr>PARSED_PACKET := Some zeroed_packet\<rparr> = boot_state" by (simp add: boot_state_def)
  ultimately show ?thesis
    using unparsable_frame_is_not_filtered [OF elf.ingress_object_axioms _ _ c, of 33 boot_state zeroed_packet
        blocking_env "\<lparr>frame = [1, 2, 3], rx_queue_index = 0\<rparr>" zeroed_packet] c
    by (simp add: upd del: run_prog.simps)
qed

text \<open>
  A list that names a stage twice passes the validation of the settings, but \<open>NEXT_STAGE\<close> is
  keyed by the stage, so its second entry overwrites the first: the list "access_control,
  rate_limit, access_control, service" runs access control and the service stage only, and the
  rate limits are never applied.
\<close>

theorem duplicate_stage_skips_rate_limit:
  defines "names \<equiv> [''access_control'', ''rate_limit'', ''access_control'', ''service'']"
  shows "validate_stage_list names = Inr () \<and> (\<exists>PA NS. configure_ingress_pipeline ingress_elf names = Inr (PA, NS)
    \<and> (\<forall>E ctx s. run_prog (configured E PA NS) ctx 33 NetGuardia s = pipeline_spec E ctx [AclStage, ServiceStage] s))"
proof -
  let ?PA = "fresh_program_array(7 \<mapsto> Transmission, 1 \<mapsto> AccessControl, 2 \<mapsto> RateLimit,
    3 \<mapsto> AccessControl, 4 \<mapsto> ProtocolFilter)"
  let ?NS = "fresh_next_stage(0 \<mapsto> 1, 1 \<mapsto> 2, 2 \<mapsto> 3, 1 \<mapsto> 4, 3 \<mapsto> 7)"
  have "configure_ingress_pipeline ingress_elf names = Inr (?PA, ?NS)"
    by (simp add: configure_ingress_pipeline_def names_def ingress_elf_def load_program_def stage_lookup_def
        array_set_def stage_defs Let_def)
  moreover have "run_prog (configured E ?PA ?NS) ctx 33 NetGuardia s = pipeline_spec E ctx [AclStage, ServiceStage] s" for E ctx s
    by (subst run_pipeline [of _ "[AclStage, ServiceStage]"])
      (simp_all add: stage_defs stage_prog_def stage_id_def)
  moreover have "validate_stage_list names = Inr ()"
    by (simp add: names_def validate_stage_def VALID_PIPELINE_STAGES_def)
  ultimately show ?thesis by blast
qed

text \<open>
  C6. None of the ingress programs reads a byte outside the frame and each returns an action,
  whatever the frame, the maps, the slots of the program array and the number of tail calls the
  kernel still allows: the bounds checks before each raw read are enough.
\<close>

theorem ingress_programs_stay_in_frame:
  "\<exists>action s'. run_prog E ctx n prog s = Some (action, s')"
  using run_prog_safe [of E ctx n prog s] by (auto elim: returnsE)

section \<open>Drop events\<close>

definition drop_event_of :: "u64 \<Rightarrow> parsed_packet \<Rightarrow> u8 \<Rightarrow> drop_event" where
  "drop_event_of now pkt reason =
     \<lparr>de_timestamp_ns = now, de_src_ip = src_ip pkt, de_dst_ip = dst_ip pkt, de_src_port = src_port pkt,
      de_dst_port = dst_port pkt, de_protocol = protocol pkt, de_reason = reason, de_ip_version = ip_version pkt\<rparr>"

lemma emit_appends:
  "DROP_EVENTS (emit_drop_event E pkt r s) = DROP_EVENTS s
     @ (if ring_reserve E (DROP_EVENTS s) then [drop_event_of (ktime E (n_ktime s)) pkt r] else [])"
  by (simp add: emit_drop_event_def bpf_ktime_get_ns_def drop_event_of_def Let_def)

lemma rate_verdict_events: "rate_verdict E pkt s = (r, s') \<Longrightarrow> DROP_EVENTS s' = DROP_EVENTS s"
  by (auto simp: rate_verdict_def bpf_ktime_get_ns_def Let_def split: prod.splits if_splits)

lemma judge_events: "judge E bs st pkt s = (v, s') \<Longrightarrow> DROP_EVENTS s' = DROP_EVENTS s"
  by (auto simp: judge_def rate_verdict_events split: stage.splits prod.splits option.splits)

text \<open>
  The first stage of a list to drop a packet, after the stages before it have let it on: the reason it gives and the
  state its verdict leaves. There is none where a stage exempts the packet before, or all let it on.
\<close>

fun first_drop :: "ingress_env \<Rightarrow> bytes \<Rightarrow> stage list \<Rightarrow> parsed_packet \<Rightarrow> ingress_state \<Rightarrow> (u8 \<times> ingress_state) option" where
  "first_drop E bs [] pkt s = None"
| "first_drop E bs (st # sts) pkt s =
     (case judge E bs st pkt s of
        (Drop r, s) \<Rightarrow> Some (r, s)
      | (Bypass, s) \<Rightarrow> None
      | (Continue, s) \<Rightarrow> first_drop E bs sts pkt s)"

text \<open>The same for a frame: the packet is the one parsed into the buffer of the CPU; a refused frame meets no stage.\<close>

definition dropped_frame ::
  "ingress_env \<Rightarrow> xdp_ctx \<Rightarrow> stage list \<Rightarrow> ingress_state \<Rightarrow> (parsed_packet \<times> u8 \<times> ingress_state) option" where
  "dropped_frame E ctx sts s =
     (case PARSED_PACKET s of
        None \<Rightarrow> None
      | Some buffer \<Rightarrow>
          (case parse_packet (plat E) (frame ctx) buffer of
             Some (True, pkt) \<Rightarrow>
               let stamped = pkt\<lparr>timestamp_ns := ktime E (n_ktime s)\<rparr>
               in map_option (Pair pkt)
                    (first_drop E (frame ctx) sts stamped (s\<lparr>n_ktime := Suc (n_ktime s), PARSED_PACKET := Some stamped\<rparr>))
           | _ \<Rightarrow> None))"

lemma transmission_redirects:
  assumes "transmission E ctx s = Some (action, s')"
  shows "s' = s \<and> (\<exists>q. action = (case xsk_redirect E q of Some a \<Rightarrow> a | None \<Rightarrow> XDP_PASS))"
proof -
  define q where "q = (case compute_symmetric_queue_id E s of Some q \<Rightarrow> q | None \<Rightarrow> rx_queue_index ctx)"
  from assms have "(case xsk_redirect E q of Some action \<Rightarrow> Some (action, s) | None \<Rightarrow> Some (XDP_PASS, s)) = Some (action, s')"
    by (simp add: transmission_def q_def)
  then show ?thesis by (auto split: option.split_asm intro!: exI [of _ q])
qed

lemma stages_spec_events:
  assumes "stages_spec E ctx sts pkt s = Some (action, s')"
  shows "case first_drop E (frame ctx) sts pkt s of
      Some (r, t) \<Rightarrow> action = XDP_DROP \<and> DROP_EVENTS s' = DROP_EVENTS s
        @ (if ring_reserve E (DROP_EVENTS s) then [drop_event_of (ktime E (n_ktime t)) pkt r] else [])
    | None \<Rightarrow> \<exists>q. action = (case xsk_redirect E q of Some a \<Rightarrow> a | None \<Rightarrow> XDP_PASS) \<and> DROP_EVENTS s' = DROP_EVENTS s"
  using assms
proof (induction sts arbitrary: s)
  case Nil
  then show ?case using transmission_redirects by fastforce
next
  case (Cons st sts)
  obtain v t where v: "judge E (frame ctx) st pkt s = (v, t)" by force
  note ev = judge_events [OF v]
  show ?case
  proof (cases v)
    case (Drop r)
    with Cons.prems v ev show ?thesis by (auto simp: emit_appends)
  next
    case Bypass
    with Cons.prems v have "transmission E ctx t = Some (action, s')" by simp
    from transmission_redirects [OF this] ev v Bypass show ?thesis by auto
  next
    case Continue
    with Cons.prems v have "stages_spec E ctx sts pkt t = Some (action, s')" by simp
    from Cons.IH [OF this] v Continue ev show ?thesis by (cases "first_drop E (frame ctx) sts pkt t") auto
  qed
qed

lemma pipeline_spec_cases:
  assumes "pipeline_spec E ctx sts s = Some (action, s')"
  obtains (tx) t where "transmission E ctx t = Some (action, s')" "DROP_EVENTS t = DROP_EVENTS s" "dropped_frame E ctx sts s = None"
  | (stages) target pkt where "PARSED_PACKET s = Some target" "parse_packet (plat E) (frame ctx) target = Some (True, pkt)"
      "stages_spec E ctx sts (pkt\<lparr>timestamp_ns := ktime E (n_ktime s)\<rparr>)
         (s\<lparr>n_ktime := Suc (n_ktime s), PARSED_PACKET := Some (pkt\<lparr>timestamp_ns := ktime E (n_ktime s)\<rparr>)\<rparr>) = Some (action, s')"
proof (cases "PARSED_PACKET s")
  case None
  with assms tx [of s] show ?thesis by (simp add: pipeline_spec_def dropped_frame_def)
next
  case (Some target)
  obtain ok pkt where p: "parse_packet (plat E) (frame ctx) target = Some (ok, pkt)"
    using parse_packet_total [of "plat E" "frame ctx" target] by auto
  show ?thesis
  proof (cases ok)
    case True
    with assms Some p stages show ?thesis by (simp add: pipeline_spec_def Let_def)
  next
    case False
    with assms Some p tx [of "s\<lparr>PARSED_PACKET := Some pkt\<rparr>"] show ?thesis by (simp add: pipeline_spec_def dropped_frame_def)
  qed
qed

text \<open>
  C29. Every run of the configured pipeline on a frame accounts for its drop, if it has one. Where a stage drops the parsed
  packet, the stages before it having let it on, the action is to drop it, and exactly one event is appended, with the
  addresses, ports, protocol and IP version of the packet just parsed, the reason that stage gave and the time of the clock
  after its verdict; or none when the ring buffer has no room, and the packet is dropped all the same. Where no stage drops
  it, no event is appended and the action is that of the redirection to a queue, or a pass when that fails.
\<close>

theorem drop_is_accounted_for:
  assumes "ingress_object B" "distinct sts" "length sts < n"
    and "configure_ingress_pipeline B (map stage_name sts) = Inr (PA, NS)"
    and "run_prog (configured E PA NS) ctx n NetGuardia s = Some (action, s')"
  shows "case dropped_frame E ctx sts s of
      Some (pkt, r, t) \<Rightarrow> action = XDP_DROP \<and> DROP_EVENTS s' = DROP_EVENTS s
        @ (if ring_reserve E (DROP_EVENTS s) then [drop_event_of (ktime E (n_ktime t)) pkt r] else [])
    | None \<Rightarrow> \<exists>q. action = (case xsk_redirect E q of Some a \<Rightarrow> a | None \<Rightarrow> XDP_PASS) \<and> DROP_EVENTS s' = DROP_EVENTS s"
proof -
  have "pipeline_spec E ctx sts s = Some (action, s')"
    using assms(5) run_configured [OF assms(1,2,4,3)] by simp
  then show ?thesis
  proof (cases rule: pipeline_spec_cases)
    case (tx t)
    then show ?thesis using transmission_redirects [OF tx(1)] by auto
  next
    case (stages buffer pkt)
    have "drop_event_of now (pkt\<lparr>timestamp_ns := t\<rparr>) r = drop_event_of now pkt r" for now t r
      by (simp add: drop_event_of_def)
    with stages_spec_events [OF stages(3)] stages(1,2) show ?thesis
      by (cases "first_drop E (frame ctx) sts (pkt\<lparr>timestamp_ns := ktime E (n_ktime s)\<rparr>)
            (s\<lparr>n_ktime := Suc (n_ktime s), PARSED_PACKET := Some (pkt\<lparr>timestamp_ns := ktime E (n_ktime s)\<rparr>)\<rparr>)")
        (auto simp: dropped_frame_def Let_def)
  qed
qed

theorem drop_is_accounted_for_witness:
  "\<exists>s'. run_prog (configured blocking_env (fresh_program_array(7 \<mapsto> Transmission, 1 \<mapsto> AccessControl))
        (fresh_next_stage(0 \<mapsto> 1, 1 \<mapsto> 7))) sample_ctx 33 NetGuardia boot_state = Some (XDP_DROP, s')
    \<and> DROP_EVENTS s' = [drop_event_of 1 sample_packet DROP_REASON_ACL_BLACKLIST]"
proof -
  let ?PA = "fresh_program_array(7 \<mapsto> Transmission, 1 \<mapsto> AccessControl)" and ?NS = "fresh_next_stage(0 \<mapsto> 1, 1 \<mapsto> 7)"
  have c: "configure_ingress_pipeline ingress_elf (map stage_name [AclStage]) = Inr (?PA, ?NS)"
    by (simp add: configure_ingress_pipeline_def ingress_elf_def load_program_def stage_lookup_def
        array_set_def stage_defs Let_def stage_name_def)
  obtain s' where s': "pipeline_spec blocking_env sample_ctx [AclStage] boot_state = Some (XDP_DROP, s')"
    using sample_parse sample_blocked by (simp add: pipeline_spec_def Let_def judge_def)
  then have run: "run_prog (configured blocking_env ?PA ?NS) sample_ctx 33 NetGuardia boot_state = Some (XDP_DROP, s')"
    using run_configured [OF elf.ingress_object_axioms _ c, of 33] by simp
  have E: "xsk_redirect blocking_env q = Some XDP_REDIRECT" "ring_reserve blocking_env ev" "DROP_EVENTS boot_state = []" "ktime blocking_env (Suc (n_ktime boot_state)) = 1" for q ev
    by (simp_all add: blocking_env_def quiet_env_def boot_state_def)
  show ?thesis
    using drop_is_accounted_for [OF elf.ingress_object_axioms _ _ c run] sample_parse sample_blocked run E
    by (auto simp: dropped_frame_def Let_def judge_def simp del: run_prog.simps)
qed

section \<open>Both directions of a flow use one queue\<close>

definition sample_egress :: egress_env where
  "sample_egress = \<lparr>e_plat = std_platform LittleEndian, e_NUM_QUEUES = Some 4, e_xsk_redirect = (\<lambda>_. Some XDP_REDIRECT)\<rparr>"

text \<open>The answer to the sample datagram, parsed into a buffer that still holds other addresses.\<close>

definition stale_packet :: parsed_packet where
  "stale_packet = zeroed_packet\<lparr>src_ip := replicate 16 255, dst_ip := replicate 16 254\<rparr>"

definition answer_ctx :: xdp_ctx where
  "answer_ctx = \<lparr>frame = ipv4_frame (replicate 12 0) 0 (replicate 5 0) 17 [0, 0] [198, 51, 100, 7] [192, 0, 2, 1]
     (udp_segment 53 5000 [0, 0] [4, 5]), rx_queue_index = 0\<rparr>"

definition answer_packet :: parsed_packet where
  "answer_packet = stale_packet\<lparr>src_ip := write_slice (src_ip stale_packet) 0 [198, 51, 100, 7],
     dst_ip := write_slice (dst_ip stale_packet) 0 [192, 0, 2, 1],
     packet_length := 30, payload_length := 2, src_port := 53, dst_port := 5000,
     ip_version := 4, protocol := 17, tcp_flags := 0\<rparr>"

definition answer_state :: ingress_state where
  "answer_state = boot_state\<lparr>PARSED_PACKET := Some (answer_packet\<lparr>timestamp_ns := 77\<rparr>)\<rparr>"

lemma answer_parse: "parse_packet (std_platform e) (frame answer_ctx) stale_packet = Some (True, answer_packet)"
  unfolding answer_ctx_def xdp_ctx.select_convs
  by (subst std.parse_ipv4_udp_written) (simp_all add: answer_packet_def)

text \<open>
  C30. The ingress and the egress program steer the two directions of a flow to the same queue: if the ingress
  interface parses a packet into the reused per-CPU buffer, whatever addresses and fields that buffer held before, and
  the egress interface parses a packet of the reverse direction (same version and protocol, ports exchanged, addresses
  exchanged on the four bytes of IPv4 or the sixteen of IPv6), then both redirect to one queue, whose number is below
  the number of queues both are configured with.
\<close>

theorem both_directions_use_one_queue:
  assumes "n \<noteq> 0" "NUM_QUEUES E = Some n" "e_NUM_QUEUES G = Some n" "ne (plat E) = ne (e_plat G)"
    and "wf_packet buffer" "parse_packet (plat E) (frame ctx) buffer = Some (True, p)"
    and "PARSED_PACKET s = Some (p\<lparr>timestamp_ns := now\<rparr>)"
    and "parse_packet (e_plat G) (frame ctx') zeroed_packet = Some (True, q)" "replies_to q p"
  shows "\<exists>i < n. transmission E ctx s = Some (case xsk_redirect E i of Some a \<Rightarrow> a | None \<Rightarrow> XDP_PASS, s)
    \<and> egress_net_guardia G ctx' = Some (case e_xsk_redirect G i of Some a \<Rightarrow> a | None \<Rightarrow> XDP_PASS)"
proof -
  let ?p = "p\<lparr>timestamp_ns := now\<rparr>"
  have p: "wf_packet p" "ip_version p = 4 \<or> ip_version p = 6"
    using parse_packet_ok_fields [OF assms(6,5)] by (auto simp: ipv4_fields_def ipv6_fields_def)
  have "wf_packet zeroed_packet" by (simp add: wf_packet_def zeroed_packet_def)
  then have q: "wf_packet q" using parse_packet_ok_fields [OF assms(8)] by simp
  obtain i where i: "symmetric_queue_id (ne (plat E)) ?p n = Some i"
    using assms(1) p(2) queue_defined [of "ne (plat E)" ?p n] by auto
  have "replies_to q ?p" "wf_packet ?p"
    using assms(9) p(1) by (simp_all add: replies_to_def address_bytes_def wf_packet_def)
  from queue_of_reply [OF this q] i have "symmetric_queue_id (ne (e_plat G)) q n = Some i"
    using assms(4) by simp
  from egress_queue [OF assms(8,3) this] show ?thesis
    using i queue_in_range [OF i] assms(2,7)
    by (intro exI [of _ i]) (simp add: transmission_def compute_symmetric_queue_id_def split: option.split)
qed

theorem both_directions_use_one_queue_witness:
  "\<exists>i < 4. transmission quiet_env answer_ctx answer_state
      = Some (case xsk_redirect quiet_env i of Some a \<Rightarrow> a | None \<Rightarrow> XDP_PASS, answer_state)
    \<and> egress_net_guardia sample_egress sample_ctx
      = Some (case e_xsk_redirect sample_egress i of Some a \<Rightarrow> a | None \<Rightarrow> XDP_PASS)"
proof (rule both_directions_use_one_queue [of _ _ _ stale_packet _ answer_packet _ 77 _ sample_packet])
  show "parse_packet (e_plat sample_egress) (frame sample_ctx) zeroed_packet = Some (True, sample_packet)"
    using sample_parse by (simp add: sample_egress_def)
  show "parse_packet (plat quiet_env) (frame answer_ctx) stale_packet = Some (True, answer_packet)"
    using answer_parse by simp
  show "replies_to sample_packet answer_packet"
    by (simp add: replies_to_def address_bytes_def sample_packet_def answer_packet_def)
  show "wf_packet stale_packet" by (simp add: wf_packet_def stale_packet_def)
qed (simp_all add: quiet_env_def sample_egress_def answer_state_def)

end
