(* ===== verification/Frequency_Tracker.thy ===== *)
theory Frequency_Tracker
  imports Rate_Limit_Owner "HOL-Library.Multiset"
begin

text \<open>
  How often a playbook has been triggered by a source within a window
  (\<^verbatim>\<open>core/response/frequency.rs\<close>). The concurrent map is the list of its entries, one for a key; an
  operation holds the entry it works on, and reads the clock once. Which of the entries
  \<^verbatim>\<open>select_nth_unstable_by_key\<close> moves to the front is the interface \<open>selection\<close>.
\<close>

section \<open>State\<close>

type_synonym freq_key = "int \<times> string"

record frequency_entry =
  fe_events :: "instant list"
  fe_last_seen :: instant

record frequency_tracker =
  ft_events :: "(freq_key \<times> frequency_entry) list"
  ft_max_deque_size :: nat
  ft_max_tracked_keys :: nat
  ft_max_retention :: nat

definition FrequencyEntry_new :: "instant \<Rightarrow> frequency_entry" where
  "FrequencyEntry_new now = \<lparr>fe_events = [], fe_last_seen = now\<rparr>"

definition FrequencyTracker_new :: "nat \<Rightarrow> nat \<Rightarrow> u64 \<Rightarrow> frequency_tracker" where
  "FrequencyTracker_new max_tracked_keys max_events_per_key retention_secs =
     \<lparr>ft_events = [], ft_max_deque_size = max max_events_per_key 1, ft_max_tracked_keys = max max_tracked_keys 1,
      ft_max_retention = max (unat retention_secs) 1 * 10 ^ 9\<rparr>"

section \<open>Operations\<close>

type_synonym selector = "nat \<Rightarrow> (freq_key \<times> instant) list \<Rightarrow> (freq_key \<times> instant) list"

fun remove_keys :: "freq_key list \<Rightarrow> nat \<Rightarrow> (freq_key \<times> frequency_entry) list \<Rightarrow> nat \<times> (freq_key \<times> frequency_entry) list" where
  "remove_keys [] removed evs = (removed, evs)"
| "remove_keys (k # ks) removed evs =
     (if k \<in> fst ` set evs then remove_keys ks (removed + 1) (filter (\<lambda>e. fst e \<noteq> k) evs) else remove_keys ks removed evs)"

definition evict_oldest_inner :: "selector \<Rightarrow> nat \<Rightarrow> freq_key option \<Rightarrow> frequency_tracker \<Rightarrow> nat \<times> frequency_tracker" where
  "evict_oldest_inner sel n exclude ft =
     (let entries = map (\<lambda>(k, e). (k, fe_last_seen e)) (filter (\<lambda>e. exclude \<noteq> Some (fst e)) (ft_events ft));
          entries = (if n < length entries then sel n entries else entries);
          (removed, evs) = remove_keys (map fst (take n entries)) 0 (ft_events ft)
      in (removed, ft\<lparr>ft_events := evs\<rparr>))"

definition evict_oldest :: "selector \<Rightarrow> nat \<Rightarrow> frequency_tracker \<Rightarrow> nat \<times> frequency_tracker" where
  "evict_oldest sel n ft = evict_oldest_inner sel n None ft"

definition evict_oldest_excluding :: "selector \<Rightarrow> nat \<Rightarrow> freq_key \<Rightarrow> frequency_tracker \<Rightarrow> nat \<times> frequency_tracker" where
  "evict_oldest_excluding sel n exclude ft = evict_oldest_inner sel n (Some exclude) ft"

text \<open>The entry of a key is replaced in place, or added.\<close>

definition put_entry :: "freq_key \<Rightarrow> frequency_entry \<Rightarrow> (freq_key \<times> frequency_entry) list \<Rightarrow> (freq_key \<times> frequency_entry) list" where
  "put_entry k e evs = (if k \<in> fst ` set evs then map (\<lambda>x. if fst x = k then (k, e) else x) evs else evs @ [(k, e)])"

definition record_and_count :: "selector \<Rightarrow> instant \<Rightarrow> int \<Rightarrow> string \<Rightarrow> nat \<Rightarrow> frequency_tracker \<Rightarrow> nat \<times> frequency_tracker" where
  "record_and_count sel now playbook_id source_ip window_secs ft =
     (let key = (playbook_id, source_ip); window = window_secs * 10 ^ 9;
          entry = (case map_of (ft_events ft) key of Some e \<Rightarrow> e | None \<Rightarrow> FrequencyEntry_new now);
          deque = dropWhile (\<lambda>front. now - front > window) (fe_events entry) @ [now];
          deque = drop (length deque - ft_max_deque_size ft) deque;
          ft = ft\<lparr>ft_events := put_entry key \<lparr>fe_events = deque, fe_last_seen = now\<rparr> (ft_events ft)\<rparr>;
          ft = (if length (ft_events ft) > ft_max_tracked_keys ft
                then snd (evict_oldest_excluding sel (length (ft_events ft) - ft_max_tracked_keys ft) key ft) else ft)
      in (length deque, ft))"

definition stale :: "instant \<Rightarrow> frequency_tracker \<Rightarrow> frequency_entry \<Rightarrow> bool" where
  "stale now ft e \<longleftrightarrow> fe_events e = [] \<or> now - last (fe_events e) > ft_max_retention ft"

definition frequency_cleanup :: "selector \<Rightarrow> instant \<Rightarrow> frequency_tracker \<Rightarrow> nat \<times> frequency_tracker" where
  "frequency_cleanup sel now ft =
     (let kept = filter (\<lambda>e. \<not> stale now ft (snd e)) (ft_events ft);
          removed = length (ft_events ft) - length kept;
          ft = ft\<lparr>ft_events := kept\<rparr>
      in if length (ft_events ft) > ft_max_tracked_keys ft
         then (let (n, ft) = evict_oldest sel (length (ft_events ft) - ft_max_tracked_keys ft) ft in (removed + n, ft))
         else (removed, ft))"

section \<open>Selecting the oldest\<close>

text \<open>
  What the standard library promises of \<^verbatim>\<open>select_nth_unstable_by_key\<close>: a permutation in which no
  element before the position is later than one from the position on.
\<close>

locale selection =
  fixes sel :: selector
  assumes sel_perm: "n < length xs \<Longrightarrow> mset (sel n xs) = mset xs"
    and sel_oldest: "n < length xs \<Longrightarrow> x \<in> set (take n (sel n xs)) \<Longrightarrow> y \<in> set (drop n (sel n xs)) \<Longrightarrow> snd x \<le> snd y"

text \<open>Sorting is one such selection.\<close>

definition sort_select :: selector where
  "sort_select n xs = sort_key snd xs"

interpretation sorting: selection sort_select
proof
  fix n :: nat and xs :: "(freq_key \<times> instant) list" and x y
  assume x: "x \<in> set (take n (sort_select n xs))" and y: "y \<in> set (drop n (sort_select n xs))"
  have "sorted (map snd (take n (sort_select n xs) @ drop n (sort_select n xs)))" by (simp add: sort_select_def)
  then have "sorted (map snd (take n (sort_select n xs)) @ map snd (drop n (sort_select n xs)))" by (simp only: map_append)
  then show "snd x \<le> snd y" using x y by (auto simp only: sorted_append set_map image_iff Ball_def)
qed (simp add: sort_select_def)

section \<open>Removing entries\<close>

lemma remove_keys_spec:
  assumes "distinct ks" "set ks \<subseteq> fst ` set evs"
  shows "remove_keys ks n evs = (n + length ks, filter (\<lambda>e. fst e \<notin> set ks) evs)"
  using assms
proof (induction ks arbitrary: n evs)
  case (Cons k ks)
  have "set ks \<subseteq> fst ` set (filter (\<lambda>e. fst e \<noteq> k) evs)" using Cons.prems by fastforce
  with Cons show ?case by (auto intro!: arg_cong2 [where f = filter])
qed simp

lemma length_filter_keys:
  assumes "distinct (map fst evs)" "distinct ks" "set ks \<subseteq> fst ` set evs"
  shows "length (filter (\<lambda>e. fst e \<notin> set ks) evs) = length evs - length ks"
proof -
  have "length (filter (\<lambda>e. fst e \<notin> set ks) evs) = card (fst ` set (filter (\<lambda>e. fst e \<notin> set ks) evs))"
    using assms(1) by (metis distinct_card distinct_map_filter length_map set_map)
  also have "fst ` set (filter (\<lambda>e. fst e \<notin> set ks) evs) = fst ` set evs - set ks" by auto
  also have "card \<dots> = card (fst ` set evs) - card (set ks)" using assms(3) by (simp add: card_Diff_subset)
  also have "\<dots> = length evs - length ks" using assms(1,2) by (metis distinct_card length_map set_map)
  finally show ?thesis .
qed

context selection
begin

text \<open>An eviction removes as many entries as it is asked to, never the excluded one, and only the oldest.\<close>

lemma evict_spec:
  assumes d: "distinct (map fst (ft_events ft))" and n: "n \<le> length (filter (\<lambda>e. exclude \<noteq> Some (fst e)) (ft_events ft))"
  shows "\<exists>ks. evict_oldest_inner sel n exclude ft = (n, ft\<lparr>ft_events := filter (\<lambda>e. fst e \<notin> set ks) (ft_events ft)\<rparr>)
    \<and> distinct ks \<and> length ks = n \<and> set ks \<subseteq> fst ` set (ft_events ft) \<and> exclude \<notin> Some ` set ks
    \<and> (\<forall>k e k' e'. k \<in> set ks \<longrightarrow> (k, e) \<in> set (ft_events ft) \<longrightarrow> (k', e') \<in> set (ft_events ft) \<longrightarrow> k' \<notin> set ks
         \<longrightarrow> exclude \<noteq> Some k' \<longrightarrow> fe_last_seen e \<le> fe_last_seen e')"
proof -
  let ?cand = "filter (\<lambda>e. exclude \<noteq> Some (fst e)) (ft_events ft)"
  define xs where "xs = map (\<lambda>(k, e). (k, fe_last_seen e)) ?cand"
  define ys where "ys = (if n < length xs then sel n xs else xs)"
  define ks where "ks = map fst (take n ys)"
  have ys: "mset ys = mset xs" using sel_perm by (simp add: ys_def)
  have keys: "map fst xs = map fst ?cand" by (simp add: xs_def comp_def case_prod_unfold)
  have dx: "distinct (map fst xs)" using d keys by (simp add: distinct_map_filter)
  have dy: "distinct (map fst ys)" using dx ys by (metis mset_eq_imp_distinct_iff mset_map)
  have sy: "set ys = set xs" using ys by (metis set_mset_mset)
  have len: "length ys = length ?cand" using ys by (metis length_map size_mset xs_def)
  have inx: "(k, t) \<in> set xs \<longleftrightarrow> (\<exists>e. (k, e) \<in> set (ft_events ft) \<and> t = fe_last_seen e \<and> exclude \<noteq> Some k)" for k t
    by (auto simp: xs_def)
  have dk: "distinct ks" using dy by (simp add: ks_def take_map [symmetric])
  have lk: "length ks = n" using n len by (simp add: ks_def)
  have sub: "set ks \<subseteq> fst ` set xs" using sy set_take_subset [of n ys] by (auto simp: ks_def)
  have "k \<in> fst ` set (ft_events ft) \<and> exclude \<noteq> Some k" if "k \<in> fst ` set xs" for k
    using that by (force simp: xs_def)
  with sub have sub': "set ks \<subseteq> fst ` set (ft_events ft)" and ex: "exclude \<notin> Some ` set ks" by blast+
  have "fe_last_seen e \<le> fe_last_seen e'"
    if "k \<in> set ks" "(k, e) \<in> set (ft_events ft)" "(k', e') \<in> set (ft_events ft)" "k' \<notin> set ks" "exclude \<noteq> Some k'" for k e k' e'
  proof -
    have "exclude \<noteq> Some k" using ex that(1) by auto
    with that inx have x: "(k, fe_last_seen e) \<in> set ys" and y: "(k', fe_last_seen e') \<in> set ys" using sy by auto
    have "k \<in> fst ` set (take n ys)" using that(1) by (simp add: ks_def)
    then obtain t where t: "(k, t) \<in> set (take n ys)" by force
    then have "(k, t) \<in> set ys" by (rule in_set_takeD)
    with x dy have "t = fe_last_seen e" by (metis eq_key_imp_eq_value)
    with t have x': "(k, fe_last_seen e) \<in> set (take n ys)" by simp
    have "(k', fe_last_seen e') \<notin> set (take n ys)" using that(4) by (force simp: ks_def)
    moreover have "set ys = set (take n ys) \<union> set (drop n ys)" by (metis append_take_drop_id set_append)
    ultimately have y': "(k', fe_last_seen e') \<in> set (drop n ys)" using y by blast
    then have "n < length ys" by (metis drop_all empty_iff empty_set leI)
    then have "n < length xs" using len by (simp add: xs_def)
    then show ?thesis using sel_oldest [of n xs "(k, fe_last_seen e)" "(k', fe_last_seen e')"] x' y' by (simp add: ys_def)
  qed
  moreover have "evict_oldest_inner sel n exclude ft = (n, ft\<lparr>ft_events := filter (\<lambda>e. fst e \<notin> set ks) (ft_events ft)\<rparr>)"
    using remove_keys_spec [OF dk sub', of 0] lk
    by (simp add: evict_oldest_inner_def Let_def xs_def [symmetric] ys_def [symmetric] ks_def [symmetric])
  ultimately show ?thesis using dk lk sub' ex by blast
qed

end

section \<open>The invariant\<close>

definition wf_entry :: "nat \<Rightarrow> instant \<Rightarrow> frequency_entry \<Rightarrow> bool" where
  "wf_entry cap now e \<longleftrightarrow>
     fe_events e \<noteq> [] \<and> sorted (fe_events e) \<and> last (fe_events e) = fe_last_seen e \<and> fe_last_seen e \<le> now \<and> length (fe_events e) \<le> cap"

text \<open>The tracker at a time of the clock.\<close>

definition wf_tracker :: "instant \<Rightarrow> frequency_tracker \<Rightarrow> bool" where
  "wf_tracker now ft \<longleftrightarrow>
     distinct (map fst (ft_events ft)) \<and> length (ft_events ft) \<le> ft_max_tracked_keys ft
     \<and> 1 \<le> ft_max_deque_size ft \<and> 1 \<le> ft_max_tracked_keys ft
     \<and> (\<forall>x\<in>set (ft_events ft). wf_entry (ft_max_deque_size ft) now (snd x))"

lemma wf_tracker_new [simp]: "wf_tracker now (FrequencyTracker_new mk me ret)"
  by (simp add: wf_tracker_def FrequencyTracker_new_def)

lemma put_entry_keys: "map fst (put_entry k e evs) = (if k \<in> fst ` set evs then map fst evs else map fst evs @ [k])"
  by (induction evs) (auto simp: put_entry_def)

lemma put_entry_set: "x \<in> set (put_entry k e evs) \<Longrightarrow> x = (k, e) \<or> x \<in> set evs"
  by (auto simp: put_entry_def split: if_splits)

lemma map_of_replace:
  "map_of (map (\<lambda>x. if fst x = k then (k, e) else x) evs) k' = (if k' = k then map_option (\<lambda>_. e) (map_of evs k) else map_of evs k')"
  by (induction evs) auto

lemma map_of_put_entry: "map_of (put_entry k e evs) k' = (if k' = k then Some e else map_of evs k')"
proof (cases "k \<in> fst ` set evs")
  case True
  then have "map_of evs k \<noteq> None" by (simp add: map_of_eq_None_iff)
  with True show ?thesis by (auto simp: put_entry_def map_of_replace)
next
  case False
  then have "map_of evs k = None" by (simp add: map_of_eq_None_iff)
  with False show ?thesis by (auto simp: put_entry_def map_add_def split: option.splits)
qed

lemma sorted_dropWhile: "sorted (xs :: nat list) \<Longrightarrow> sorted (dropWhile P xs)"
  by (simp add: dropWhile_eq_drop sorted_wrt_drop)

lemma recorded_entry_wf:
  assumes "sorted evs" "\<forall>t\<in>set evs. t \<le> now" "1 \<le> cap"
  shows "wf_entry cap now \<lparr>fe_events = drop (length (dropWhile P evs @ [now]) - cap) (dropWhile P evs @ [now]), fe_last_seen = now\<rparr>"
proof -
  have "sorted (dropWhile P evs @ [now])"
    using assms set_dropWhileD [of _ P evs] by (auto simp: sorted_append sorted_dropWhile)
  then have "sorted (drop (length (dropWhile P evs @ [now]) - cap) (dropWhile P evs @ [now]))" by (rule sorted_wrt_drop)
  then show ?thesis using assms(3) by (simp add: wf_entry_def)
qed

lemma distinct_filter_eq: "distinct xs \<Longrightarrow> length (filter (\<lambda>x. k = x) xs) \<le> 1"
  by (induction xs) (auto simp: filter_empty_conv)

lemma sorted_last_max: "sorted xs \<Longrightarrow> t \<in> set xs \<Longrightarrow> t \<le> last (xs :: nat list)"
  by (induction xs) (auto split: if_splits)

text \<open>What the entry of a key becomes, before any eviction.\<close>

definition recorded :: "instant \<Rightarrow> freq_key \<Rightarrow> nat \<Rightarrow> frequency_tracker \<Rightarrow> instant list" where
  "recorded now key window_secs ft =
     (let old = (case map_of (ft_events ft) key of Some e \<Rightarrow> fe_events e | None \<Rightarrow> []);
          deque = dropWhile (\<lambda>front. now - front > window_secs * 10 ^ 9) old @ [now]
      in drop (length deque - ft_max_deque_size ft) deque)"

definition with_recorded :: "instant \<Rightarrow> freq_key \<Rightarrow> nat \<Rightarrow> frequency_tracker \<Rightarrow> frequency_tracker" where
  "with_recorded now key window_secs ft =
     ft\<lparr>ft_events := put_entry key \<lparr>fe_events = recorded now key window_secs ft, fe_last_seen = now\<rparr> (ft_events ft)\<rparr>"

lemma record_and_count_eq:
  "record_and_count sel now pid ip w ft =
     (length (recorded now (pid, ip) w ft),
      (let ft' = with_recorded now (pid, ip) w ft
       in if length (ft_events ft') > ft_max_tracked_keys ft'
          then snd (evict_oldest_excluding sel (length (ft_events ft') - ft_max_tracked_keys ft') (pid, ip) ft') else ft'))"
proof -
  have eq: "fe_events (case map_of (ft_events ft) key of None \<Rightarrow> FrequencyEntry_new now | Some e \<Rightarrow> e) =
        (case map_of (ft_events ft) key of Some e \<Rightarrow> fe_events e | None \<Rightarrow> [])" for key
    by (simp add: FrequencyEntry_new_def split: option.splits)
  show ?thesis unfolding record_and_count_def with_recorded_def recorded_def Let_def eq by (rule refl)
qed

lemma with_recorded_simps [simp]:
  "ft_max_deque_size (with_recorded now key w ft) = ft_max_deque_size ft"
  "ft_max_tracked_keys (with_recorded now key w ft) = ft_max_tracked_keys ft"
  "ft_max_retention (with_recorded now key w ft) = ft_max_retention ft"
  by (simp_all add: with_recorded_def)

lemma recorded_wf:
  assumes "wf_tracker now ft"
  shows "wf_entry (ft_max_deque_size ft) now \<lparr>fe_events = recorded now key w ft, fe_last_seen = now\<rparr>"
proof -
  have "sorted old \<and> (\<forall>t\<in>set old. t \<le> now)" if "old = (case map_of (ft_events ft) key of Some e \<Rightarrow> fe_events e | None \<Rightarrow> [])" for old
  proof (cases "map_of (ft_events ft) key")
    case (Some e)
    then have "wf_entry (ft_max_deque_size ft) now e" using assms map_of_SomeD [OF Some] by (fastforce simp: wf_tracker_def)
    with Some that show ?thesis using sorted_last_max [of "fe_events e"] by (fastforce simp: wf_entry_def)
  qed (use that in simp)
  from recorded_entry_wf [OF conjunct1 [OF this [OF refl]] conjunct2 [OF this [OF refl]]] assms
  show ?thesis by (simp add: recorded_def Let_def wf_tracker_def)
qed

lemma wf_tracker_mono: "wf_tracker now ft \<Longrightarrow> now \<le> now' \<Longrightarrow> wf_tracker now' ft"
  by (fastforce simp: wf_tracker_def wf_entry_def)

context selection
begin

lemma evict_wf:
  assumes "distinct (map fst (ft_events ft))" "1 \<le> ft_max_deque_size ft" "1 \<le> ft_max_tracked_keys ft"
    and "\<forall>x\<in>set (ft_events ft). wf_entry (ft_max_deque_size ft) now (snd x)"
    and "length (ft_events ft) > ft_max_tracked_keys ft"
  shows "wf_tracker now (snd (evict_oldest_inner sel (length (ft_events ft) - ft_max_tracked_keys ft) exclude ft))"
proof -
  let ?n = "length (ft_events ft) - ft_max_tracked_keys ft"
  have "length (filter (\<lambda>e. exclude = Some (fst e)) (ft_events ft)) \<le> 1"
  proof (cases exclude)
    case (Some k)
    have "length (filter (\<lambda>e. k = fst e) (ft_events ft)) = length (filter (\<lambda>x. k = x) (map fst (ft_events ft)))"
      by (simp add: filter_map comp_def)
    also have "\<dots> \<le> 1" using assms(1) by (rule distinct_filter_eq)
    finally show ?thesis using Some by simp
  qed simp
  then have "?n \<le> length (filter (\<lambda>e. exclude \<noteq> Some (fst e)) (ft_events ft))"
    using assms(3,5) sum_length_filter_compl [of "\<lambda>e. exclude \<noteq> Some (fst e)" "ft_events ft"] by simp
  from evict_spec [OF assms(1) this] obtain ks where
    ks: "evict_oldest_inner sel ?n exclude ft = (?n, ft\<lparr>ft_events := filter (\<lambda>e. fst e \<notin> set ks) (ft_events ft)\<rparr>)"
      "distinct ks" "length ks = ?n" "set ks \<subseteq> fst ` set (ft_events ft)" by blast
  with length_filter_keys [OF assms(1) ks(2,4)] assms show ?thesis
    by (auto simp: wf_tracker_def distinct_map_filter)
qed

lemma record_wf:
  assumes "wf_tracker now ft"
  shows "wf_tracker now (snd (record_and_count sel now pid ip w ft))"
proof -
  let ?ft = "with_recorded now (pid, ip) w ft"
  have d: "distinct (map fst (ft_events ?ft))"
    using assms by (auto simp: with_recorded_def put_entry_keys wf_tracker_def)
  have e: "\<forall>x\<in>set (ft_events ?ft). wf_entry (ft_max_deque_size ?ft) now (snd x)"
    using assms recorded_wf [OF assms, of "(pid, ip)" w] put_entry_set
    by (fastforce simp: with_recorded_def wf_tracker_def)
  show ?thesis
    using d e assms evict_wf [OF d _ _ e, of "Some (pid, ip)"]
    by (auto simp: record_and_count_eq Let_def evict_oldest_excluding_def wf_tracker_def)
qed

lemma cleanup_wf:
  assumes "wf_tracker now ft"
  shows "wf_tracker now (snd (frequency_cleanup sel now ft))"
proof -
  have "length (filter (\<lambda>e. \<not> stale now ft (snd e)) (ft_events ft)) \<le> ft_max_tracked_keys ft"
    using assms by (intro order_trans [OF length_filter_le]) (simp add: wf_tracker_def)
  with assms show ?thesis by (simp add: frequency_cleanup_def Let_def wf_tracker_def distinct_map_filter)
qed

end

section \<open>A run of the tracker\<close>

text \<open>The last \<open>c\<close> elements.\<close>

definition keep :: "nat \<Rightarrow> 'a list \<Rightarrow> 'a list" where
  "keep c xs = drop (length xs - c) xs"

definition in_window :: "nat \<Rightarrow> instant \<Rightarrow> instant list \<Rightarrow> instant list" where
  "in_window window_secs now ts = filter (\<lambda>t. now - t \<le> window_secs * 10 ^ 9) ts"

lemma in_window_dropWhile: "sorted ts \<Longrightarrow> dropWhile (\<lambda>t. now - t > window_secs * 10 ^ 9) ts = in_window window_secs now ts"
proof (induction ts)
  case (Cons t ts)
  show ?case
  proof (cases "now - t > window_secs * 10 ^ 9")
    case False
    then have "\<forall>x\<in>set (t # ts). now - x \<le> window_secs * 10 ^ 9" using Cons.prems by fastforce
    then have "in_window window_secs now (t # ts) = t # ts" unfolding in_window_def by (rule filter_True)
    with False show ?thesis by simp
  qed (use Cons in \<open>simp add: in_window_def\<close>)
qed (simp add: in_window_def)

lemma keep_append1: "1 \<le> c \<Longrightarrow> keep c (keep c xs @ [z]) = keep c (xs @ [z])"
proof -
  assume "1 \<le> c"
  then have "Suc (length xs) - (length xs - c + c) + (length xs - c) = Suc (length xs) - c" by arith
  then show ?thesis using \<open>1 \<le> c\<close> by (simp add: keep_def)
qed

lemma drop_dropWhile_commute:
  assumes "sorted (ts :: nat list)"
  shows "dropWhile (\<lambda>t. now - t > m) (drop i ts) = drop (i - length (takeWhile (\<lambda>t. now - t > m) ts)) (dropWhile (\<lambda>t. now - t > m) ts)"
  using assms
proof (induction ts arbitrary: i)
  case (Cons t ts)
  show ?case
  proof (cases i)
    case (Suc j)
    show ?thesis
    proof (cases "now - t > m")
      case False
      have "\<forall>x\<in>set (drop j ts). t \<le> x" using Cons.prems set_drop_subset [of j ts] by auto
      then have "\<forall>x\<in>set (drop j ts). now - x \<le> now - t" by (simp add: diff_le_mono2)
      with False have "\<forall>x\<in>set (drop j ts). \<not> now - x > m" by fastforce
      then have "dropWhile (\<lambda>t. now - t > m) (drop j ts) = drop j ts" by (cases "drop j ts") auto
      with False Suc show ?thesis by simp
    qed (use Cons Suc in simp)
  qed simp
qed simp

lemma window_step:
  assumes "sorted ts" "y \<le> now" "1 \<le> c"
  shows "keep c (in_window w now (keep c (in_window w y ts)) @ [now]) = keep c (in_window w now (ts @ [now]))"
proof -
  let ?P = "\<lambda>t. now - t > w * 10 ^ 9"
  define us where "us = in_window w y ts"
  have su: "sorted us" using assms(1) by (simp add: us_def in_window_def sorted_wrt_filter)
  have wu: "in_window w now us = in_window w now ts" unfolding us_def in_window_def filter_filter using assms(2) by (intro filter_cong) auto
  have "in_window w now (keep c us) = drop (length us - c - length (takeWhile ?P us)) (in_window w now us)"
    using drop_dropWhile_commute [OF su, where now = now and m = "w * 10 ^ 9" and i = "length us - c"] su
    by (simp add: keep_def in_window_dropWhile [symmetric] sorted_wrt_drop)
  also have "length us = length (takeWhile ?P us) + length (in_window w now us)"
    using in_window_dropWhile [OF su, of w now] by (metis length_append takeWhile_dropWhile_id)
  then have "length us - c - length (takeWhile ?P us) = length (in_window w now us) - c" by simp
  finally have "in_window w now (keep c us) = keep c (in_window w now ts)" by (simp add: keep_def wu)
  moreover have "in_window w now (ts @ [now]) = in_window w now ts @ [now]" by (simp add: in_window_def)
  ultimately show ?thesis using assms(3) by (simp add: us_def keep_append1)
qed

text \<open>Events recorded one after the other, each key with its own window.\<close>

definition record_run :: "selector \<Rightarrow> (freq_key \<Rightarrow> nat) \<Rightarrow> (instant \<times> freq_key) list \<Rightarrow> frequency_tracker \<Rightarrow> frequency_tracker" where
  "record_run sel w h ft = fold (\<lambda>(now, k) ft. snd (record_and_count sel now (fst k) (snd k) (w k) ft)) h ft"

definition times_of :: "freq_key \<Rightarrow> (instant \<times> freq_key) list \<Rightarrow> instant list" where
  "times_of k h = map fst (filter (\<lambda>x. snd x = k) h)"

text \<open>What the tracker holds after a history, where nothing had to be evicted.\<close>

definition holds_history :: "(freq_key \<Rightarrow> nat) \<Rightarrow> (instant \<times> freq_key) list \<Rightarrow> frequency_tracker \<Rightarrow> bool" where
  "holds_history w h ft \<longleftrightarrow>
     distinct (map fst (ft_events ft)) \<and> fst ` set (ft_events ft) = snd ` set h
     \<and> (\<forall>k\<in>snd ` set h. \<exists>y e. (y, k) \<in> set h \<and> map_of (ft_events ft) k = Some e
          \<and> fe_events e = keep (ft_max_deque_size ft) (in_window (w k) y (times_of k h)))"

lemma times_of_append [simp]: "times_of k (h @ [(now, k')]) = times_of k h @ (if k' = k then [now] else [])"
  by (simp add: times_of_def)

lemma sorted_times_of: "sorted (map fst h) \<Longrightarrow> sorted (times_of k h)"
  by (simp add: times_of_def sorted_filter)

lemma recorded_history:
  assumes h: "holds_history w h ft" and s: "sorted (map fst (h @ [(now, k)]))" and c: "1 \<le> ft_max_deque_size ft"
  shows "recorded now k (w k) ft = keep (ft_max_deque_size ft) (in_window (w k) now (times_of k (h @ [(now, k)])))"
proof (cases "k \<in> snd ` set h")
  case True
  then obtain y e where y: "(y, k) \<in> set h" "map_of (ft_events ft) k = Some e"
      "fe_events e = keep (ft_max_deque_size ft) (in_window (w k) y (times_of k h))"
    using h unfolding holds_history_def by blast
  have st: "sorted (times_of k h)" using s by (simp add: sorted_append sorted_times_of)
  then have "sorted (fe_events e)" using y(3) by (simp add: keep_def in_window_def sorted_wrt_drop sorted_wrt_filter)
  moreover have "y \<le> now" using s y(1) by (force simp: sorted_append)
  ultimately show ?thesis
    using window_step [OF st \<open>y \<le> now\<close> c, of "w k"] y(2,3)
    by (simp add: recorded_def Let_def in_window_dropWhile [symmetric] keep_def [of _ "_ @ [now]"] in_window_dropWhile)
next
  case False
  then have "map_of (ft_events ft) k = None" using h by (simp add: holds_history_def map_of_eq_None_iff)
  moreover have "times_of k h = []" using False by (force simp: times_of_def filter_empty_conv)
  ultimately show ?thesis by (simp add: recorded_def Let_def in_window_def keep_def)
qed

lemma with_recorded_history:
  assumes h: "holds_history w h ft" and s: "sorted (map fst (h @ [(now, k)]))" and c: "1 \<le> ft_max_deque_size ft"
  shows "holds_history w (h @ [(now, k)]) (with_recorded now k (w k) ft)"
proof -
  let ?ft = "with_recorded now k (w k) ft"
  have m: "map_of (ft_events ?ft) k' = (if k' = k then Some \<lparr>fe_events = recorded now k (w k) ft, fe_last_seen = now\<rparr> else map_of (ft_events ft) k')" for k'
    by (simp add: with_recorded_def map_of_put_entry)
  have d: "distinct (map fst (ft_events ?ft))" using h by (auto simp: with_recorded_def put_entry_keys holds_history_def)
  have "set (map fst (ft_events ?ft)) = insert k (set (map fst (ft_events ft)))"
    by (simp add: with_recorded_def put_entry_keys insert_absorb del: set_map) (simp add: insert_absorb)
  then have "fst ` set (ft_events ?ft) = snd ` set (h @ [(now, k)])" using h by (simp add: holds_history_def)
  moreover have "\<exists>y e. (y, k') \<in> set (h @ [(now, k)]) \<and> map_of (ft_events ?ft) k' = Some e
      \<and> fe_events e = keep (ft_max_deque_size ?ft) (in_window (w k') y (times_of k' (h @ [(now, k)])))"
    if "k' \<in> snd ` set (h @ [(now, k)])" for k'
  proof (cases "k' = k")
    case True
    then show ?thesis using recorded_history [OF h s c] by (intro exI [of _ now]) (simp add: m)
  next
    case False
    with that have "k' \<in> snd ` set h" by auto
    with h obtain y e where "(y, k') \<in> set h" "map_of (ft_events ft) k' = Some e"
      "fe_events e = keep (ft_max_deque_size ft) (in_window (w k') y (times_of k' h))" unfolding holds_history_def by blast
    with False show ?thesis by (intro exI [of _ y] exI [of _ e]) (simp add: m)
  qed
  ultimately show ?thesis using d unfolding holds_history_def by blast
qed

lemma holds_history_length: "holds_history w h ft \<Longrightarrow> length (ft_events ft) = card (snd ` set h)"
  unfolding holds_history_def by (metis distinct_card length_map set_map)

lemma record_step_history:
  assumes h: "holds_history w h ft" and s: "sorted (map fst (h @ [(now, k)]))" and c: "1 \<le> ft_max_deque_size ft"
    and few: "card (snd ` set (h @ [(now, k)])) \<le> ft_max_tracked_keys ft"
  shows "record_and_count sel now (fst k) (snd k) (w k) ft = (length (recorded now k (w k) ft), with_recorded now k (w k) ft)"
  using holds_history_length [OF with_recorded_history [OF h s c]] few by (simp add: record_and_count_eq Let_def)

lemma record_run_history:
  assumes "sorted (map fst h)" "card (snd ` set h) \<le> ft_max_tracked_keys ft" "ft_events ft = []" "1 \<le> ft_max_deque_size ft"
  shows "holds_history w h (record_run sel w h ft) \<and> ft_max_deque_size (record_run sel w h ft) = ft_max_deque_size ft
    \<and> ft_max_tracked_keys (record_run sel w h ft) = ft_max_tracked_keys ft"
  using assms(1,2)
proof (induction h rule: rev_induct)
  case Nil
  then show ?case using assms by (simp add: record_run_def holds_history_def)
next
  case (snoc x h)
  obtain now k where x: "x = (now, k)" by (cases x)
  have "card (snd ` set h) \<le> card (snd ` set (h @ [x]))" by (intro card_mono) auto
  with snoc have ih: "holds_history w h (record_run sel w h ft)" "ft_max_deque_size (record_run sel w h ft) = ft_max_deque_size ft"
      "ft_max_tracked_keys (record_run sel w h ft) = ft_max_tracked_keys ft"
    by (auto simp: sorted_append)
  have "record_run sel w (h @ [x]) ft = with_recorded now k (w k) (record_run sel w h ft)"
    using record_step_history [OF ih(1), of now k sel] snoc.prems assms(4) ih(2,3) x by (simp add: record_run_def)
  then show ?case using with_recorded_history [OF ih(1), of now k] snoc.prems assms(4) ih(2,3) x by simp
qed

section \<open>The trackers of a running engine\<close>

inductive tracker_reach :: "selector \<Rightarrow> nat \<Rightarrow> nat \<Rightarrow> instant \<Rightarrow> frequency_tracker \<Rightarrow> bool" for sel mk me where
  created: "tracker_reach sel mk me now (FrequencyTracker_new mk me ret)"
| recorded: "tracker_reach sel mk me now ft \<Longrightarrow> now \<le> now' \<Longrightarrow>
    tracker_reach sel mk me now' (snd (record_and_count sel now' pid ip w ft))"
| cleaned: "tracker_reach sel mk me now ft \<Longrightarrow> now \<le> now' \<Longrightarrow> tracker_reach sel mk me now' (snd (frequency_cleanup sel now' ft))"

lemma limits_kept [simp]:
  "ft_max_deque_size (snd (evict_oldest_inner sel n ex ft)) = ft_max_deque_size ft"
  "ft_max_tracked_keys (snd (evict_oldest_inner sel n ex ft)) = ft_max_tracked_keys ft"
  "ft_max_deque_size (snd (record_and_count sel now pid ip w ft)) = ft_max_deque_size ft"
  "ft_max_tracked_keys (snd (record_and_count sel now pid ip w ft)) = ft_max_tracked_keys ft"
  "ft_max_deque_size (snd (frequency_cleanup sel now ft)) = ft_max_deque_size ft"
  "ft_max_tracked_keys (snd (frequency_cleanup sel now ft)) = ft_max_tracked_keys ft"
proof -
  show e: "ft_max_deque_size (snd (evict_oldest_inner sel n ex ft)) = ft_max_deque_size ft"
    "ft_max_tracked_keys (snd (evict_oldest_inner sel n ex ft)) = ft_max_tracked_keys ft" for n ex ft
    by (simp_all add: evict_oldest_inner_def Let_def split: prod.splits)
  show "ft_max_deque_size (snd (record_and_count sel now pid ip w ft)) = ft_max_deque_size ft"
    "ft_max_tracked_keys (snd (record_and_count sel now pid ip w ft)) = ft_max_tracked_keys ft"
    by (simp_all add: record_and_count_eq Let_def evict_oldest_excluding_def e)
  show "ft_max_deque_size (snd (frequency_cleanup sel now ft)) = ft_max_deque_size ft"
    "ft_max_tracked_keys (snd (frequency_cleanup sel now ft)) = ft_max_tracked_keys ft"
    by (simp_all add: frequency_cleanup_def Let_def evict_oldest_def e case_prod_unfold)
qed

lemma tracker_reach_limits:
  "tracker_reach sel mk me now ft \<Longrightarrow> ft_max_deque_size ft = max me 1 \<and> ft_max_tracked_keys ft = max mk 1"
  by (induction rule: tracker_reach.induct) (simp_all add: FrequencyTracker_new_def)

context selection
begin

lemma tracker_reach_wf: "tracker_reach sel mk me now ft \<Longrightarrow> wf_tracker now ft"
  by (induction rule: tracker_reach.induct) (simp_all add: record_wf cleanup_wf wf_tracker_mono)

end

section \<open>Properties\<close>

text \<open>
  C36. The count a frequency condition is decided on is exact up to the cap: after any history of events in the order
  of time, recorded without a clean-up in between, each playbook and source with its own window, and with no more
  pairs of playbook and source than the tracker keeps, the count returned for an event is the number of events of
  its playbook and source (itself included) that are no older than the window, or the configured number of events
  per key (at least one) where there are more. It does not depend on how the standard library selects the oldest entries.
\<close>

theorem frequency_count_is_exact:
  assumes order: "sorted (map fst (h @ [(now, (pid, ip))]))"
    and few: "card (snd ` set (h @ [(now, (pid, ip))])) \<le> max mk 1"
  shows "fst (record_and_count sel now pid ip (w (pid, ip)) (record_run sel w h (FrequencyTracker_new mk me ret))) =
    min (max me 1) (length (filter (\<lambda>(t, k). k = (pid, ip) \<and> now - t \<le> w (pid, ip) * 10 ^ 9) (h @ [(now, (pid, ip))])))"
proof -
  let ?ft = "FrequencyTracker_new mk me ret" and ?k = "(pid, ip)" and ?h = "h @ [(now, (pid, ip))]"
  have new: "ft_events ?ft = []" "ft_max_deque_size ?ft = max me 1" "ft_max_tracked_keys ?ft = max mk 1"
    by (simp_all add: FrequencyTracker_new_def)
  have "card (snd ` set h) \<le> card (snd ` set ?h)" by (intro card_mono) auto
  then have r: "holds_history w h (record_run sel w h ?ft)" "ft_max_deque_size (record_run sel w h ?ft) = max me 1"
      "ft_max_tracked_keys (record_run sel w h ?ft) = max mk 1"
    using record_run_history [of h ?ft w sel] order few new by (auto simp: sorted_append)
  have "in_window (w ?k) now (times_of ?k ?h) = map fst (filter (\<lambda>(t, k). k = ?k \<and> now - t \<le> w ?k * 10 ^ 9) ?h)"
    by (simp only: in_window_def times_of_def filter_map comp_def filter_filter case_prod_unfold conj_commute)
  moreover have "fst (record_and_count sel now pid ip (w ?k) (record_run sel w h ?ft)) = length (keep (max me 1) (in_window (w ?k) now (times_of ?k ?h)))"
    using record_step_history [OF r(1) order, of sel] recorded_history [OF r(1) order] r(2,3) few by simp
  ultimately show ?thesis by (simp add: keep_def del: times_of_append)
qed

theorem frequency_count_is_exact_witness:
  "fst (record_and_count sort_select 70000000000 1 ''10.0.0.1'' 60
      (record_run sort_select (\<lambda>(p, _). if p = 1 then 60 else 10)
        [(0, (1, ''10.0.0.1'')), (20000000000, (1, ''10.0.0.1'')), (20000000000, (2, ''10.0.0.1''))]
        (FrequencyTracker_new 8 8 300))) = 2"
  using frequency_count_is_exact [where now = 70000000000 and pid = 1 and ip = "''10.0.0.1''" and w = "\<lambda>(p, _). if p = 1 then 60 else 10"
      and h = "[(0, (1, ''10.0.0.1'')), (20000000000, (1, ''10.0.0.1'')), (20000000000, (2, ''10.0.0.1''))]" and mk = 8 and me = 8
      and sel = sort_select and ret = 300]
  by (simp add: card_insert_if)

text \<open>
  The memory of the tracker is bounded: whatever is recorded, with whatever windows, and whenever
  it is cleaned up, it never has more keys than configured (at least one), at most one entry for a key,
  and no more events for a key than configured, in the order of time; the configured limits
  stay as they were.
\<close>

theorem frequency_tracker_is_bounded:
  assumes "selection sel" "tracker_reach sel mk me now ft"
  shows "length (ft_events ft) \<le> max mk 1 \<and> distinct (map fst (ft_events ft))
    \<and> (\<forall>(k, e) \<in> set (ft_events ft). 1 \<le> length (fe_events e) \<and> length (fe_events e) \<le> max me 1 \<and> sorted (fe_events e))"
proof -
  have "wf_tracker now ft" using assms by (rule selection.tracker_reach_wf)
  moreover have "ft_max_deque_size ft = max me 1" "ft_max_tracked_keys ft = max mk 1" using tracker_reach_limits [OF assms(2)] by auto
  ultimately show ?thesis by (fastforce simp: wf_tracker_def wf_entry_def Suc_le_eq)
qed

theorem frequency_tracker_is_bounded_witness:
  "length (ft_events (snd (record_and_count sort_select 5 1 ''10.0.0.2'' 60
      (snd (record_and_count sort_select 3 1 ''10.0.0.1'' 60 (FrequencyTracker_new 1 8 300)))))) \<le> 1"
proof -
  have "tracker_reach sort_select 1 8 5 (snd (record_and_count sort_select 5 1 ''10.0.0.2'' 60
      (snd (record_and_count sort_select 3 1 ''10.0.0.1'' 60 (FrequencyTracker_new 1 8 300)))))"
    by (rule recorded [of _ _ _ 3], rule recorded [of _ _ _ 0], rule created) simp_all
  from frequency_tracker_is_bounded [OF sorting.selection_axioms this] show ?thesis by simp
qed

end
