(* ===== verification/Playbook_Matcher.thy ===== *)
theory Playbook_Matcher
  imports Frequency_Tracker Playbook_Validator Soar_Config
begin

text \<open>
  Which playbooks an event sets off, their cool-downs, and the dry run of an event
  (\<^verbatim>\<open>core/response/matcher.rs\<close>). The matcher's shared maps are fields of its state; a call that reads
  the clock is given the time. The configuration is an argument, as it is loaded anew where it is used.
\<close>

section \<open>State\<close>

type_synonym cooldown_key = "int \<times> string"

record matcher =
  pm_playbooks :: "playbook list"
  pm_admin_whitelist :: "string set"
  pm_cooldowns :: "cooldown_key \<rightharpoonup> instant"
  pm_frequency_tracker :: frequency_tracker
  pm_active_block_count :: u32

definition PlaybookMatcher_new :: "nat \<Rightarrow> nat \<Rightarrow> u64 \<Rightarrow> matcher" where
  "PlaybookMatcher_new freq_max_tracked_keys freq_max_events_per_key freq_retention_secs =
     \<lparr>pm_playbooks = [], pm_admin_whitelist = {}, pm_cooldowns = Map.empty,
      pm_frequency_tracker = FrequencyTracker_new freq_max_tracked_keys freq_max_events_per_key freq_retention_secs,
      pm_active_block_count = 0\<rparr>"

section \<open>Conditions\<close>

definition evaluate_single_condition ::
    "selector \<Rightarrow> soar_config \<Rightarrow> instant \<Rightarrow> playbook_condition \<Rightarrow> playbook \<Rightarrow> threat_event \<Rightarrow> matcher \<Rightarrow> bool \<times> matcher" where
  "evaluate_single_condition sel cfg now c pb event m =
     (if pc_condition_type c = Frequency then
        case parse_unsigned 64 (pc_value c) of
          None \<Rightarrow> (False, m)
        | Some required \<Rightarrow>
            let window_secs = (case Option.bind (pc_value2 c) (parse_unsigned 64) of
                  Some v \<Rightarrow> v | None \<Rightarrow> unat (default_frequency_window_secs cfg));
                (n, ft) = record_and_count sel now (pb_id pb) (te_source_ip event) window_secs (pm_frequency_tracker m)
            in (n \<ge> required, m\<lparr>pm_frequency_tracker := ft\<rparr>)
      else (ce_met (evaluate_event_fields c event (default_single_source_high_min_confidence cfg)), m))"

text \<open>Two passes over the conditions: those on the event, then those on its history. Each stops at the first that fails.\<close>

fun evaluate_pass ::
    "selector \<Rightarrow> soar_config \<Rightarrow> instant \<Rightarrow> (playbook_condition \<Rightarrow> bool) \<Rightarrow> playbook_condition list \<Rightarrow> playbook \<Rightarrow> threat_event
     \<Rightarrow> matcher \<Rightarrow> bool \<times> matcher" where
  "evaluate_pass sel cfg now which [] pb event m = (True, m)"
| "evaluate_pass sel cfg now which (c # cs) pb event m =
     (if \<not> which c then evaluate_pass sel cfg now which cs pb event m
      else case evaluate_single_condition sel cfg now c pb event m of
             (False, m) \<Rightarrow> (False, m)
           | (True, m) \<Rightarrow> evaluate_pass sel cfg now which cs pb event m)"

definition is_frequency :: "playbook_condition \<Rightarrow> bool" where
  "is_frequency c \<longleftrightarrow> pc_condition_type c = Frequency"

definition evaluate_conditions :: "selector \<Rightarrow> soar_config \<Rightarrow> instant \<Rightarrow> playbook \<Rightarrow> threat_event \<Rightarrow> matcher \<Rightarrow> bool \<times> matcher" where
  "evaluate_conditions sel cfg now pb event m =
     (if pb_conditions pb = [] then (True, m)
      else case evaluate_pass sel cfg now (\<lambda>c. \<not> is_frequency c) (pb_conditions pb) pb event m of
             (False, m) \<Rightarrow> (False, m)
           | (True, m) \<Rightarrow> evaluate_pass sel cfg now is_frequency (pb_conditions pb) pb event m)"

fun match_playbooks :: "selector \<Rightarrow> soar_config \<Rightarrow> instant \<Rightarrow> threat_event \<Rightarrow> playbook list \<Rightarrow> matcher \<Rightarrow> playbook list \<times> matcher" where
  "match_playbooks sel cfg now event [] m = ([], m)"
| "match_playbooks sel cfg now event (pb # pbs) m =
     (if \<not> matches_trigger pb event then match_playbooks sel cfg now event pbs m
      else let (met, m) = evaluate_conditions sel cfg now pb event m; (rest, m) = match_playbooks sel cfg now event pbs m
           in (if met then pb # rest else rest, m))"

definition find_matching_playbooks :: "selector \<Rightarrow> soar_config \<Rightarrow> instant \<Rightarrow> threat_event \<Rightarrow> matcher \<Rightarrow> playbook list \<times> matcher" where
  "find_matching_playbooks sel cfg now event m = match_playbooks sel cfg now event (pm_playbooks m) m"

section \<open>Cool-downs\<close>

definition elapsed_secs :: "instant \<Rightarrow> instant \<Rightarrow> nat" where
  "elapsed_secs now t = (now - t) div 10 ^ 9"

definition is_cooldown_active :: "instant \<Rightarrow> int \<Rightarrow> string \<Rightarrow> int \<Rightarrow> matcher \<Rightarrow> bool" where
  "is_cooldown_active now playbook_id source_ip cooldown_secs m =
     (case pm_cooldowns m (playbook_id, source_ip) of
        Some last_exec \<Rightarrow> elapsed_secs now last_exec < nat (max cooldown_secs 0)
      | None \<Rightarrow> False)"

definition record_cooldown :: "instant \<Rightarrow> int \<Rightarrow> string \<Rightarrow> matcher \<Rightarrow> matcher" where
  "record_cooldown now playbook_id source_ip m = m\<lparr>pm_cooldowns := (pm_cooldowns m)((playbook_id, source_ip) \<mapsto> now)\<rparr>"

definition U64_MAX :: nat where "U64_MAX = 2 ^ 64 - 1"

text \<open>How long a cool-down is kept, in seconds.\<close>

definition cooldown_expiry :: "soar_config \<Rightarrow> playbook list \<Rightarrow> nat" where
  "cooldown_expiry cfg pbs =
     (let default_cooldown_expiry = unat (default_cooldown_expiry_secs cfg);
          max_cooldown_secs = (if pbs = [] then default_cooldown_expiry else Max (set (map (\<lambda>p. nat (max (pb_cooldown_secs p) 0)) pbs)))
      in max (min (max_cooldown_secs * 2) U64_MAX) default_cooldown_expiry)"

definition cleanup_expired_cooldowns :: "selector \<Rightarrow> soar_config \<Rightarrow> instant \<Rightarrow> matcher \<Rightarrow> matcher" where
  "cleanup_expired_cooldowns sel cfg now m =
     (let expiry = cooldown_expiry cfg (pm_playbooks m) * 10 ^ 9;
          m = m\<lparr>pm_cooldowns := (\<lambda>k. case pm_cooldowns m k of Some t \<Rightarrow> if now - t < expiry then Some t else None | None \<Rightarrow> None)\<rparr>
      in m\<lparr>pm_frequency_tracker := snd (frequency_cleanup sel now (pm_frequency_tracker m))\<rparr>)"

section \<open>Dry run\<close>

record dry_run_condition_result =
  dc_condition_type :: string
  dc_operator :: string
  dc_value :: string
  dc_value2 :: "string option"
  dc_met :: bool
  dc_note :: "eval_details option"

record dry_run_action =
  da_action_order :: int
  da_action_type :: string
  da_params :: json

record dry_run_match =
  dm_playbook_id :: int
  dm_playbook_name :: string
  dm_enabled :: bool
  dm_trigger_event :: string
  dm_trigger_matches :: bool
  dm_has_frequency_condition :: bool
  dm_would_fire :: bool
  dm_conditions :: "dry_run_condition_result list"
  dm_actions :: "dry_run_action list"

definition simulate_condition :: "playbook_condition \<Rightarrow> threat_event \<Rightarrow> flt \<Rightarrow> dry_run_condition_result" where
  "simulate_condition c event default_single_source_min_conf =
     (let result = evaluate_event_fields c event default_single_source_min_conf
      in \<lparr>dc_condition_type = condition_type_display (pc_condition_type c), dc_operator = pc_operator c, dc_value = pc_value c,
          dc_value2 = pc_value2 c, dc_met = ce_met result, dc_note = Some (ce_details result)\<rparr>)"

text \<open>The JSON value of a floating-point number that is not finite is \<open>null\<close>.\<close>

definition json_of_f64 :: "flt \<Rightarrow> json" where
  "json_of_f64 x = (if is_finite x then JFloat x else JNull)"

definition action_params_to_json :: "action_params \<Rightarrow> json" where
  "action_params_to_json p =
     JObject ((case ap_ttl_secs p of Some n \<Rightarrow> [(''ttl_secs'', JPosInt n)] | None \<Rightarrow> [])
       @ (case ap_factor p of Some x \<Rightarrow> [(''factor'', json_of_f64 x)] | None \<Rightarrow> [])
       @ (case ap_url p of Some s \<Rightarrow> [(''url'', JString s)] | None \<Rightarrow> [])
       @ (case ap_timeout_secs p of Some n \<Rightarrow> [(''timeout_secs'', JPosInt n)] | None \<Rightarrow> [])
       @ (case ap_level p of Some s \<Rightarrow> [(''level'', JString s)] | None \<Rightarrow> []))"

definition simulate_playbook :: "playbook \<Rightarrow> threat_event \<Rightarrow> flt \<Rightarrow> dry_run_match" where
  "simulate_playbook pb event default_single_source_min_conf =
     (let trigger_matches = (canonical_from_str (te_attack_type event) = Some (pb_trigger_event pb));
          conditions = map (\<lambda>c. simulate_condition c event default_single_source_min_conf) (pb_conditions pb)
      in \<lparr>dm_playbook_id = pb_id pb, dm_playbook_name = pb_name pb, dm_enabled = pb_enabled pb,
          dm_trigger_event = attack_type_as_str (pb_trigger_event pb), dm_trigger_matches = trigger_matches,
          dm_has_frequency_condition = list_ex is_frequency (pb_conditions pb),
          dm_would_fire = (matches_trigger pb event \<and> list_all dc_met conditions), dm_conditions = conditions,
          dm_actions = map (\<lambda>a. \<lparr>da_action_order = pa_action_order a, da_action_type = action_type_as_str (pa_action_type a),
                                da_params = action_params_to_json (pa_params a)\<rparr>) (pb_actions pb)\<rparr>)"

definition dry_run :: "soar_config \<Rightarrow> threat_event \<Rightarrow> matcher \<Rightarrow> dry_run_match list" where
  "dry_run cfg event m =
     map (\<lambda>pb. simulate_playbook pb event (default_single_source_high_min_confidence cfg)) (pm_playbooks m)"

section \<open>Matching\<close>

lemma evaluate_pass_keeps:
  assumes "evaluate_pass sel cfg now which cs pb event m = (b, m')"
  shows "pm_playbooks m' = pm_playbooks m \<and> pm_cooldowns m' = pm_cooldowns m \<and> pm_admin_whitelist m' = pm_admin_whitelist m
    \<and> pm_active_block_count m' = pm_active_block_count m"
  using assms
proof (induction cs arbitrary: m)
  case (Cons c cs)
  have "pm_playbooks m1 = pm_playbooks m \<and> pm_cooldowns m1 = pm_cooldowns m \<and> pm_admin_whitelist m1 = pm_admin_whitelist m
    \<and> pm_active_block_count m1 = pm_active_block_count m" if "evaluate_single_condition sel cfg now c pb event m = (r, m1)" for r m1
    using that by (auto simp: evaluate_single_condition_def Let_def split: if_splits option.splits prod.splits)
  with Cons show ?case by (fastforce split: if_splits prod.splits bool.splits)
qed simp

text \<open>Without a frequency condition the conditions are those of the event and nothing is recorded.\<close>

lemma evaluate_pass_event:
  assumes "\<forall>c\<in>set cs. which c \<longrightarrow> \<not> is_frequency c"
  shows "evaluate_pass sel cfg now which cs pb event m =
    (list_all (\<lambda>c. which c \<longrightarrow> ce_met (evaluate_event_fields c event (default_single_source_high_min_confidence cfg))) cs, m)"
  using assms
  by (induction cs) (auto simp: evaluate_single_condition_def is_frequency_def split: bool.splits)

lemma evaluate_conditions_event:
  assumes "list_all (\<lambda>c. \<not> is_frequency c) (pb_conditions pb)"
  shows "evaluate_conditions sel cfg now pb event m =
    (list_all (\<lambda>c. ce_met (evaluate_event_fields c event (default_single_source_high_min_confidence cfg))) (pb_conditions pb), m)"
proof -
  have "\<forall>c\<in>set (pb_conditions pb). \<not> is_frequency c" using assms by (simp add: list_all_iff)
  then have "evaluate_pass sel cfg now is_frequency (pb_conditions pb) pb event m = (True, m)"
    "evaluate_pass sel cfg now (\<lambda>c. \<not> is_frequency c) (pb_conditions pb) pb event m =
     (list_all (\<lambda>c. ce_met (evaluate_event_fields c event (default_single_source_high_min_confidence cfg))) (pb_conditions pb), m)"
    by (simp_all add: evaluate_pass_event list_all_iff)
  then show ?thesis by (auto simp: evaluate_conditions_def split: bool.splits)
qed

lemma would_fire_no_frequency:
  assumes "dm_would_fire (simulate_playbook pb event d)"
  shows "list_all (\<lambda>c. \<not> is_frequency c) (pb_conditions pb)"
  unfolding list_all_iff
proof (intro ballI notI)
  fix c assume c: "c \<in> set (pb_conditions pb)" "is_frequency c"
  then have "\<not> ce_met (evaluate_event_fields c event d)"
    by (simp add: evaluate_event_fields_def evaluation_def is_frequency_def)
  with c assms show False by (auto simp: simulate_playbook_def simulate_condition_def list_all_iff Let_def)
qed

lemma match_playbooks_event:
  "filter (\<lambda>pb. list_all (\<lambda>c. \<not> is_frequency c) (pb_conditions pb)) (fst (match_playbooks sel cfg now event pbs m)) =
   filter (\<lambda>pb. dm_would_fire (simulate_playbook pb event (default_single_source_high_min_confidence cfg))) pbs"
proof (induction pbs arbitrary: m)
  case (Cons pb pbs)
  let ?d = "default_single_source_high_min_confidence cfg" and ?ev = "list_all (\<lambda>c. \<not> is_frequency c) (pb_conditions pb)"
  have "dm_would_fire (simulate_playbook pb event ?d) \<longleftrightarrow>
      matches_trigger pb event \<and> list_all (\<lambda>c. ce_met (evaluate_event_fields c event ?d)) (pb_conditions pb)"
    by (simp add: simulate_playbook_def simulate_condition_def list_all_iff Let_def)
  moreover have "?ev \<or> \<not> dm_would_fire (simulate_playbook pb event ?d)" using would_fire_no_frequency by blast
  ultimately show ?case
    using evaluate_conditions_event [of pb sel cfg now event m] by (auto simp: Let_def case_prod_unfold Cons.IH)
qed simp

section \<open>Cool-downs and their clean-up\<close>

lemma cooldown_expiry_covers:
  assumes "pb \<in> set pbs" "pb_cooldown_secs pb < 2 ^ 63"
  shows "nat (max (pb_cooldown_secs pb) 0) \<le> cooldown_expiry cfg pbs"
proof -
  let ?c = "\<lambda>p. nat (max (pb_cooldown_secs p) 0)"
  have "?c pb \<le> Max (set (map ?c pbs))" using assms(1) by (intro Max_ge) auto
  moreover have "?c pb \<le> U64_MAX" using assms(2) by (simp add: U64_MAX_def)
  ultimately have "?c pb \<le> min (Max (set (map ?c pbs)) * 2) U64_MAX" by simp
  moreover have "pbs \<noteq> []" using assms(1) by auto
  ultimately show ?thesis by (simp add: cooldown_expiry_def Let_def le_max_iff_disj)
qed

lemma elapsed_secs_mono: "now \<le> now' \<Longrightarrow> elapsed_secs now t \<le> elapsed_secs now' t"
  by (simp add: elapsed_secs_def div_le_mono)

lemma elapsed_secs_less: "now - t < n * 1000000000 \<longleftrightarrow> elapsed_secs now t < n"
  by (simp add: elapsed_secs_def div_less_iff_less_mult)

section \<open>Properties\<close>

text \<open>
  The dry run predicts the engine: of the playbooks in the cache, those it says would fire are
  exactly the matching ones that have no frequency condition, in the same order. It never announces
  one that has a frequency condition, and it changes nothing. (What it leaves out are the checks at
  execution: the cool-down, the whitelist, the mode.)
\<close>

theorem dry_run_predicts_matches:
  "filter (\<lambda>pb. list_all (\<lambda>c. \<not> is_frequency c) (pb_conditions pb)) (fst (find_matching_playbooks sel cfg now event m)) =
   map snd (filter (\<lambda>(r, _). dm_would_fire r) (zip (dry_run cfg event m) (pm_playbooks m)))"
proof -
  have "map snd (filter (\<lambda>(r, _). dm_would_fire r) (zip (map f pbs) pbs)) = filter (\<lambda>pb. dm_would_fire (f pb)) pbs" for f :: "playbook \<Rightarrow> dry_run_match" and pbs
    by (induction pbs) auto
  then show ?thesis by (simp add: find_matching_playbooks_def match_playbooks_event dry_run_def)
qed

text \<open>
  The periodic clean-up never ends the cool-down of a loaded playbook early: for every playbook in
  the cache and every source, at the time of the clean-up and at any later time the cool-down is active
  after it exactly if it would have been without it.
\<close>

theorem cleanup_keeps_playbook_cooldowns:
  assumes "pb \<in> set (pm_playbooks m)" "pb_cooldown_secs pb < 2 ^ 63" "now \<le> now'"
  shows "is_cooldown_active now' (pb_id pb) ip (pb_cooldown_secs pb) (cleanup_expired_cooldowns sel cfg now m) =
    is_cooldown_active now' (pb_id pb) ip (pb_cooldown_secs pb) m"
proof (cases "pm_cooldowns m (pb_id pb, ip)")
  case (Some t)
  show ?thesis
  proof (cases "elapsed_secs now t < cooldown_expiry cfg (pm_playbooks m)")
    case True
    then show ?thesis using Some by (simp add: is_cooldown_active_def cleanup_expired_cooldowns_def Let_def elapsed_secs_less)
  next
    case False
    then have "\<not> elapsed_secs now' t < nat (max (pb_cooldown_secs pb) 0)"
      using cooldown_expiry_covers [OF assms(1,2), of cfg] elapsed_secs_mono [OF assms(3), of t] by simp
    with False Some show ?thesis by (simp add: is_cooldown_active_def cleanup_expired_cooldowns_def Let_def elapsed_secs_less)
  qed
qed (simp add: is_cooldown_active_def cleanup_expired_cooldowns_def Let_def)

definition sample_playbook :: playbook where
  "sample_playbook =
     \<lparr>pb_id = 1, pb_name = ''scan'', pb_enabled = True, pb_trigger_event = PortScan, pb_cooldown_secs = 60,
      pb_actions = [\<lparr>pa_action_order = 1, pa_action_type = BlockIp,
                     pa_params = \<lparr>ap_ttl_secs = Some 300, ap_factor = None, ap_url = None, ap_timeout_secs = None, ap_level = None\<rparr>\<rparr>],
      pb_conditions = []\<rparr>"

definition sample_matcher :: matcher where
  "sample_matcher = record_cooldown 0 1 ''10.0.0.1'' ((PlaybookMatcher_new 8 8 300)\<lparr>pm_playbooks := [sample_playbook]\<rparr>)"

theorem cleanup_keeps_playbook_cooldowns_witness:
  "is_cooldown_active 59000000000 1 ''10.0.0.1'' 60 (cleanup_expired_cooldowns sort_select SoarConfig_defaults 59000000000 sample_matcher)"
proof -
  have "sample_playbook \<in> set (pm_playbooks sample_matcher)" by (simp add: sample_matcher_def record_cooldown_def)
  from cleanup_keeps_playbook_cooldowns [OF this, of 59000000000 59000000000 "''10.0.0.1''" sort_select SoarConfig_defaults]
  show ?thesis by (simp add: sample_playbook_def is_cooldown_active_def sample_matcher_def record_cooldown_def elapsed_secs_def)
qed

definition long_fallback :: soar_config where
  "long_fallback = SoarConfig_defaults\<lparr>fallback_cooldown_secs := 7200\<rparr>"

text \<open>
  The cool-down of the fallback is not covered by the clean-up: with a configuration that the check
  accepts, a clean-up one second after \<^verbatim>\<open>default_cooldown_expiry_secs\<close> ends a fallback cool-down that
  would have lasted another hour.
\<close>

theorem cleanup_ends_fallback_cooldown:
  "let now = 3601 * 10 ^ 9; m = record_cooldown 0 (- 1) ip ((PlaybookMatcher_new 8 8 300)\<lparr>pm_playbooks := [sample_playbook]\<rparr>)
   in SoarConfig_validate long_fallback = Inr ()
    \<and> is_cooldown_active now (- 1) ip (fallback_cooldown_secs long_fallback) m
    \<and> \<not> is_cooldown_active now (- 1) ip (fallback_cooldown_secs long_fallback) (cleanup_expired_cooldowns sel long_fallback now m)"
proof -
  have "SoarConfig_validate long_fallback = Inr ()"
    unfolding long_fallback_def by (rule defaults_valid) simp
  then show ?thesis
    by (simp add: Let_def is_cooldown_active_def record_cooldown_def elapsed_secs_def cleanup_expired_cooldowns_def cooldown_expiry_def
        long_fallback_def SoarConfig_defaults_def sample_playbook_def U64_MAX_def)
qed

end
