(* ===== verification/Playbook_Store.thy ===== *)
theory Playbook_Store
  imports Playbook_Validator "HOL-Library.Multiset"
begin

text \<open>
  The tables of playbooks (\<^verbatim>\<open>adapter/persistence/soar.rs\<close>, schema in \<^verbatim>\<open>adapter/persistence/mod.rs\<close>): an
  insertion checks the uniqueness constraints, a transaction commits or changes nothing, deleting a
  playbook cascades. Time stamps that nothing reads are left out. The text of a JSON value is read by
  the library: \<open>pj\<close> is \<^verbatim>\<open>serde_json::from_str\<close>.
\<close>

section \<open>Tables\<close>

record playbook_row =
  pr_id :: int
  pr_name :: string
  pr_enabled :: bool
  pr_trigger_event :: string
  pr_condition_threshold :: "flt option"
  pr_condition_count :: "int option"
  pr_condition_window_secs :: "int option"
  pr_cooldown_secs :: int

record playbook_action_row =
  aw_id :: int
  aw_playbook_id :: int
  aw_action_order :: int
  aw_action_type :: string
  aw_params :: string

record playbook_condition_row =
  cw_id :: int
  cw_playbook_id :: int
  cw_condition_type :: string
  cw_operator :: string
  cw_value :: string
  cw_value2 :: "string option"

record playbook_tables =
  t_playbooks :: "playbook_row list"
  t_actions :: "playbook_action_row list"
  t_conditions :: "playbook_condition_row list"
  t_playbook_seq :: int
  t_action_seq :: int
  t_condition_seq :: int

section \<open>What the callers see\<close>

record action_view =
  av_id :: int
  av_action_order :: int
  av_action_type :: string
  av_params :: json

record condition_view =
  cv_id :: int
  cv_condition_type :: string
  cv_operator :: string
  cv_value :: string
  cv_value2 :: "string option"

record playbook_view =
  pv_id :: int
  pv_name :: string
  pv_enabled :: bool
  pv_trigger_event :: string
  pv_condition_threshold :: "flt option"
  pv_condition_count :: "int option"
  pv_condition_window_secs :: "int option"
  pv_cooldown_secs :: int
  pv_actions :: "action_view list"
  pv_conditions :: "condition_view list"

record action_input =
  ai_action_order :: int
  ai_action_type :: string
  ai_params_json :: string

record update_playbook_input =
  ui_name :: string
  ui_trigger_event :: string
  ui_condition_threshold :: "flt option"
  ui_condition_count :: "int option"
  ui_condition_window_secs :: "int option"
  ui_cooldown_secs :: int

record create_playbook_input =
  cp_name :: string
  cp_trigger_event :: string
  cp_condition_threshold :: "flt option"
  cp_condition_count :: "int option"
  cp_condition_window_secs :: "int option"
  cp_cooldown_secs :: int
  cp_actions :: "action_input list"
  cp_conditions :: "create_condition_input list"

definition store_error :: error where
  "store_error = Database ''query failed''"

section \<open>Statements\<close>

text \<open>The inserts of a transaction, refused by \<^verbatim>\<open>UNIQUE(playbook_id, action_order)\<close> and \<^verbatim>\<open>UNIQUE(playbook_id, condition_type)\<close>.\<close>

fun insert_actions :: "int \<Rightarrow> action_input list \<Rightarrow> playbook_tables \<Rightarrow> (error, playbook_tables) result" where
  "insert_actions pid [] t = Inr t"
| "insert_actions pid (a # as) t =
     (if list_ex (\<lambda>r. aw_playbook_id r = pid \<and> aw_action_order r = ai_action_order a) (t_actions t) then Inl store_error
      else
        let i = t_action_seq t + 1
        in insert_actions pid as
             (t\<lparr>t_actions := t_actions t @ [\<lparr>aw_id = i, aw_playbook_id = pid, aw_action_order = ai_action_order a,
                                             aw_action_type = ai_action_type a, aw_params = ai_params_json a\<rparr>],
                t_action_seq := i\<rparr>))"

fun insert_conditions :: "int \<Rightarrow> create_condition_input list \<Rightarrow> playbook_tables \<Rightarrow> (error, playbook_tables) result" where
  "insert_conditions pid [] t = Inr t"
| "insert_conditions pid (c # cs) t =
     (if list_ex (\<lambda>r. cw_playbook_id r = pid \<and> cw_condition_type r = ci_condition_type c) (t_conditions t) then Inl store_error
      else
        let i = t_condition_seq t + 1
        in insert_conditions pid cs
             (t\<lparr>t_conditions := t_conditions t @ [\<lparr>cw_id = i, cw_playbook_id = pid, cw_condition_type = ci_condition_type c,
                                                   cw_operator = ci_operator c, cw_value = ci_value c, cw_value2 = ci_value2 c\<rparr>],
                t_condition_seq := i\<rparr>))"

definition insert_playbook_atomic :: "bool \<Rightarrow> create_playbook_input \<Rightarrow> playbook_tables \<Rightarrow> (error, int \<times> playbook_tables) result" where
  "insert_playbook_atomic ok input t =
     (if \<not> ok then Inl store_error
      else
        let pid = t_playbook_seq t + 1;
            r = \<lparr>pr_id = pid, pr_name = cp_name input, pr_enabled = True, pr_trigger_event = cp_trigger_event input,
                 pr_condition_threshold = cp_condition_threshold input, pr_condition_count = cp_condition_count input,
                 pr_condition_window_secs = cp_condition_window_secs input, pr_cooldown_secs = cp_cooldown_secs input\<rparr>;
            t = t\<lparr>t_playbooks := t_playbooks t @ [r], t_playbook_seq := pid\<rparr>
        in and_then (insert_actions pid (cp_actions input) t) (\<lambda>t.
           and_then (insert_conditions pid (cp_conditions input) t) (\<lambda>t. Inr (pid, t))))"

definition update_playbook_enabled :: "bool \<Rightarrow> int \<Rightarrow> bool \<Rightarrow> playbook_tables \<Rightarrow> (error, bool \<times> playbook_tables) result" where
  "update_playbook_enabled ok i enabled t =
     (if \<not> ok then Inl store_error
      else Inr (list_ex (\<lambda>r. pr_id r = i) (t_playbooks t),
                t\<lparr>t_playbooks := map (\<lambda>r. if pr_id r = i then r\<lparr>pr_enabled := enabled\<rparr> else r) (t_playbooks t)\<rparr>))"

definition delete_children :: "int \<Rightarrow> playbook_tables \<Rightarrow> playbook_tables" where
  "delete_children i t =
     t\<lparr>t_actions := filter (\<lambda>r. aw_playbook_id r \<noteq> i) (t_actions t),
       t_conditions := filter (\<lambda>r. cw_playbook_id r \<noteq> i) (t_conditions t)\<rparr>"

definition delete_playbook :: "bool \<Rightarrow> int \<Rightarrow> playbook_tables \<Rightarrow> (error, bool \<times> playbook_tables) result" where
  "delete_playbook ok i t =
     (if \<not> ok then Inl store_error
      else Inr (list_ex (\<lambda>r. pr_id r = i) (t_playbooks t),
                (delete_children i t)\<lparr>t_playbooks := filter (\<lambda>r. pr_id r \<noteq> i) (t_playbooks t)\<rparr>))"

definition update_playbook_atomic ::
    "bool \<Rightarrow> int \<Rightarrow> update_playbook_input \<Rightarrow> action_input list \<Rightarrow> create_condition_input list \<Rightarrow> playbook_tables
     \<Rightarrow> (error, bool \<times> playbook_tables) result" where
  "update_playbook_atomic ok i row actions conditions t =
     (if \<not> ok then Inl store_error
      else if \<not> list_ex (\<lambda>r. pr_id r = i) (t_playbooks t) then Inr (False, t)
      else
        let t = t\<lparr>t_playbooks := map (\<lambda>r. if pr_id r = i
                    then r\<lparr>pr_name := ui_name row, pr_trigger_event := ui_trigger_event row,
                           pr_condition_threshold := ui_condition_threshold row, pr_condition_count := ui_condition_count row,
                           pr_condition_window_secs := ui_condition_window_secs row, pr_cooldown_secs := ui_cooldown_secs row\<rparr>
                    else r) (t_playbooks t)\<rparr>;
            t = delete_children i t
        in and_then (insert_actions i actions t) (\<lambda>t.
           and_then (insert_conditions i conditions t) (\<lambda>t. Inr (True, t))))"

section \<open>Listing\<close>

text \<open>The join of the playbooks with their actions, ordered by playbook and position; one row without an action where there is none.\<close>

definition list_playbooks_with_actions :: "playbook_tables \<Rightarrow> (playbook_row \<times> playbook_action_row option) list" where
  "list_playbooks_with_actions t =
     concat (map (\<lambda>p. case sort_key aw_action_order (filter (\<lambda>a. aw_playbook_id a = pr_id p) (t_actions t)) of
                        [] \<Rightarrow> [(p, None)]
                      | as \<Rightarrow> map (\<lambda>a. (p, Some a)) as)
               (sort_key pr_id (t_playbooks t)))"

definition condition_view_of :: "playbook_condition_row \<Rightarrow> condition_view" where
  "condition_view_of c =
     \<lparr>cv_id = cw_id c, cv_condition_type = cw_condition_type c, cv_operator = cw_operator c, cv_value = cw_value c, cv_value2 = cw_value2 c\<rparr>"

definition list_all_playbook_conditions :: "playbook_tables \<Rightarrow> (int \<times> condition_view) list" where
  "list_all_playbook_conditions t =
     map (\<lambda>c. (cw_playbook_id c, condition_view_of c)) (sort_key cw_playbook_id (sort_key cw_id (t_conditions t)))"

definition bare_view :: "playbook_row \<Rightarrow> playbook_view" where
  "bare_view p =
     \<lparr>pv_id = pr_id p, pv_name = pr_name p, pv_enabled = pr_enabled p, pv_trigger_event = pr_trigger_event p,
      pv_condition_threshold = pr_condition_threshold p, pv_condition_count = pr_condition_count p,
      pv_condition_window_secs = pr_condition_window_secs p, pv_cooldown_secs = pr_cooldown_secs p, pv_actions = [], pv_conditions = []\<rparr>"

definition parse_persisted_json :: "(string \<Rightarrow> json option) \<Rightarrow> string \<Rightarrow> (error, json) result" where
  "parse_persisted_json pj raw = ok_or (pj raw) (Database ''persisted JSON is invalid'')"

definition push_action :: "playbook_view \<Rightarrow> action_view \<Rightarrow> playbook_view" where
  "push_action v a = v\<lparr>pv_actions := pv_actions v @ [a]\<rparr>"

fun group_rows ::
    "(string \<Rightarrow> json option) \<Rightarrow> (playbook_row \<times> playbook_action_row option) list \<Rightarrow> playbook_view list \<Rightarrow> (error, playbook_view list) result" where
  "group_rows pj [] res = Inr res"
| "group_rows pj ((p, act) # rows) res =
     (let res = (if res = [] \<or> pv_id (last res) \<noteq> pr_id p then res @ [bare_view p] else res)
      in case act of
           None \<Rightarrow> group_rows pj rows res
         | Some a \<Rightarrow>
             and_then (parse_persisted_json pj (aw_params a)) (\<lambda>params.
               group_rows pj rows (butlast res @
                 [push_action (last res)
                    \<lparr>av_id = aw_id a, av_action_order = aw_action_order a, av_action_type = aw_action_type a, av_params = params\<rparr>])))"

text \<open>One pass over the conditions beside the playbooks, both in the order of the playbooks.\<close>

fun attach_conditions :: "playbook_view list \<Rightarrow> (int \<times> condition_view) list \<Rightarrow> playbook_view list" where
  "attach_conditions [] cs = []"
| "attach_conditions (pb # pbs) cs =
     (let cs = dropWhile (\<lambda>c. fst c < pv_id pb) cs
      in pb\<lparr>pv_conditions := pv_conditions pb @ map snd (takeWhile (\<lambda>c. fst c = pv_id pb) cs)\<rparr>
         # attach_conditions pbs (dropWhile (\<lambda>c. fst c = pv_id pb) cs))"

definition list_playbooks :: "bool \<Rightarrow> (string \<Rightarrow> json option) \<Rightarrow> playbook_tables \<Rightarrow> (error, playbook_view list) result" where
  "list_playbooks ok pj t =
     (if \<not> ok then Inl store_error
      else and_then (group_rows pj (list_playbooks_with_actions t) [])
             (\<lambda>res. Inr (attach_conditions res (list_all_playbook_conditions t))))"

section \<open>What a listing holds\<close>

definition action_view_of :: "(string \<Rightarrow> json option) \<Rightarrow> playbook_action_row \<Rightarrow> action_view" where
  "action_view_of pj a =
     \<lparr>av_id = aw_id a, av_action_order = aw_action_order a, av_action_type = aw_action_type a, av_params = the (pj (aw_params a))\<rparr>"

definition actions_of :: "playbook_tables \<Rightarrow> int \<Rightarrow> playbook_action_row list" where
  "actions_of t i = sort_key aw_action_order (filter (\<lambda>a. aw_playbook_id a = i) (t_actions t))"

definition conditions_of :: "playbook_tables \<Rightarrow> int \<Rightarrow> playbook_condition_row list" where
  "conditions_of t i = filter (\<lambda>c. cw_playbook_id c = i) (sort_key cw_id (t_conditions t))"

definition view_of :: "(string \<Rightarrow> json option) \<Rightarrow> playbook_tables \<Rightarrow> playbook_row \<Rightarrow> playbook_view" where
  "view_of pj t p =
     (bare_view p)\<lparr>pv_actions := map (action_view_of pj) (actions_of t (pr_id p)),
                   pv_conditions := map condition_view_of (conditions_of t (pr_id p))\<rparr>"

definition readable_params :: "(string \<Rightarrow> json option) \<Rightarrow> playbook_tables \<Rightarrow> bool" where
  "readable_params pj t = list_all (\<lambda>a. pj (aw_params a) \<noteq> None) (t_actions t)"

lemma bare_view_simps [simp]: "pv_id (bare_view p) = pr_id p" "pv_actions (bare_view p) = []" "pv_conditions (bare_view p) = []"
  by (simp_all add: bare_view_def)

lemma group_rows_actions:
  assumes "\<forall>a\<in>set as. pj (aw_params a) \<noteq> None" "pv_id v = pr_id p"
  shows "group_rows pj (map (\<lambda>a. (p, Some a)) as @ rows) (res @ [v]) =
    group_rows pj rows (res @ [v\<lparr>pv_actions := pv_actions v @ map (action_view_of pj) as\<rparr>])"
  using assms
proof (induction as arbitrary: v)
  case (Cons a as)
  then obtain j where "pj (aw_params a) = Some j" by auto
  with Cons show ?case by (simp add: parse_persisted_json_def push_action_def action_view_of_def)
qed simp

definition rows_of :: "playbook_tables \<Rightarrow> playbook_row \<Rightarrow> (playbook_row \<times> playbook_action_row option) list" where
  "rows_of t p = (case actions_of t (pr_id p) of [] \<Rightarrow> [(p, None)] | as \<Rightarrow> map (\<lambda>a. (p, Some a)) as)"

lemma group_rows_playbook:
  assumes "readable_params pj t" "res = [] \<or> pv_id (last res) \<noteq> pr_id p"
  shows "group_rows pj (rows_of t p @ rows) res =
    group_rows pj rows (res @ [(bare_view p)\<lparr>pv_actions := map (action_view_of pj) (actions_of t (pr_id p))\<rparr>])"
proof (cases "actions_of t (pr_id p)")
  case Nil
  with assms(2) show ?thesis by (auto simp: rows_of_def bare_view_def)
next
  case (Cons a as)
  have "set (actions_of t (pr_id p)) \<subseteq> set (t_actions t)" by (auto simp: actions_of_def)
  then have ok: "\<forall>x\<in>set (a # as). pj (aw_params x) \<noteq> None" using assms(1) Cons by (auto simp: readable_params_def list_all_iff)
  have "group_rows pj (rows_of t p @ rows) res = group_rows pj (rows_of t p @ rows) (res @ [bare_view p])"
    using assms(2) Cons by (auto simp: rows_of_def)
  also have "\<dots> = group_rows pj (map (\<lambda>x. (p, Some x)) (a # as) @ rows) (res @ [bare_view p])" using Cons by (simp add: rows_of_def)
  finally show ?thesis using group_rows_actions [OF ok, of "bare_view p" p rows res] Cons by simp
qed

lemma group_rows_all:
  assumes "readable_params pj t" "distinct (map pr_id ps)" "res = [] \<or> pv_id (last res) \<notin> pr_id ` set ps"
  shows "group_rows pj (concat (map (rows_of t) ps)) res =
    Inr (res @ map (\<lambda>p. (bare_view p)\<lparr>pv_actions := map (action_view_of pj) (actions_of t (pr_id p))\<rparr>) ps)"
  using assms(2,3)
proof (induction ps arbitrary: res)
  case (Cons p ps)
  then show ?case using group_rows_playbook [OF assms(1), of res p] by auto
qed simp

lemma sorted_map_dropWhile: "sorted (map f xs) \<Longrightarrow> sorted (map f (dropWhile P xs))"
  by (induction xs) auto

lemma sorted_takeWhile_eq:
  fixes i :: int
  assumes "sorted (map fst cs)" "\<forall>x\<in>set cs. i \<le> fst x"
  shows "takeWhile (\<lambda>c. fst c = i) cs = filter (\<lambda>c. fst c = i) cs"
  using assms
proof (induction cs)
  case (Cons c cs)
  show ?case
  proof (cases "fst c = i")
    case False
    then have "\<forall>x\<in>set cs. fst x \<noteq> i" using Cons.prems by fastforce
    then have "filter (\<lambda>c. fst c = i) cs = []" by (simp add: filter_empty_conv)
    with False show ?thesis by simp
  qed (use Cons in auto)
qed simp

lemma sorted_filter_eq:
  fixes i :: int
  assumes "sorted (map fst cs)"
  shows "takeWhile (\<lambda>c. fst c = i) (dropWhile (\<lambda>c. fst c < i) cs) = filter (\<lambda>c. fst c = i) cs"
  using assms
proof (induction cs)
  case (Cons c cs)
  show ?case
  proof (cases "fst c < i")
    case False
    then have "\<forall>x\<in>set (c # cs). i \<le> fst x" using Cons.prems by fastforce
    then show ?thesis using False sorted_takeWhile_eq [OF Cons.prems] by simp
  qed (use Cons in auto)
qed simp

lemma filter_after:
  fixes i j :: int
  assumes "sorted (map fst cs)" "i < j"
  shows "filter (\<lambda>c. fst c = j) (dropWhile (\<lambda>c. fst c = i) (dropWhile (\<lambda>c. fst c < i) cs)) = filter (\<lambda>c. fst c = j) cs"
proof -
  have drop: "filter Q (dropWhile P xs) = filter Q xs" if "\<And>x. P x \<Longrightarrow> \<not> Q x" for P Q and xs :: "(int \<times> 'a) list"
    using that by (induction xs) auto
  show ?thesis using assms(2) by (subst drop, simp, subst drop) simp_all
qed

lemma attach_conditions_filter:
  assumes "sorted (map fst cs)" "sorted (map pv_id pbs)" "distinct (map pv_id pbs)"
  shows "attach_conditions pbs cs = map (\<lambda>pb. pb\<lparr>pv_conditions := pv_conditions pb @ map snd (filter (\<lambda>c. fst c = pv_id pb) cs)\<rparr>) pbs"
  using assms
proof (induction pbs arbitrary: cs)
  case (Cons pb pbs)
  define rest where "rest = dropWhile (\<lambda>c. fst c = pv_id pb) (dropWhile (\<lambda>c. fst c < pv_id pb) cs)"
  have s: "sorted (map fst rest)" using Cons.prems(1) by (simp add: rest_def sorted_map_dropWhile)
  have "filter (\<lambda>c. fst c = pv_id x) rest = filter (\<lambda>c. fst c = pv_id x) cs" if "x \<in> set pbs" for x
  proof -
    have "pv_id pb \<le> pv_id x" "pv_id pb \<noteq> pv_id x" using Cons.prems that by auto
    then show ?thesis unfolding rest_def by (intro filter_after [OF Cons.prems(1)]) simp
  qed
  then have "attach_conditions pbs rest =
      map (\<lambda>pb. pb\<lparr>pv_conditions := pv_conditions pb @ map snd (filter (\<lambda>c. fst c = pv_id pb) cs)\<rparr>) pbs"
    using Cons.IH [OF s] Cons.prems by simp
  then show ?case using sorted_filter_eq [OF Cons.prems(1)] by (simp add: Let_def rest_def)
qed simp

lemma list_playbooks_spec:
  assumes "distinct (map pr_id (t_playbooks t))" "readable_params pj t"
  shows "list_playbooks True pj t = Inr (map (view_of pj t) (sort_key pr_id (t_playbooks t)))"
proof -
  let ?ps = "sort_key pr_id (t_playbooks t)" and ?cs = "list_all_playbook_conditions t"
  let ?v = "\<lambda>p. (bare_view p)\<lparr>pv_actions := map (action_view_of pj) (actions_of t (pr_id p))\<rparr>"
  have d: "distinct (map pr_id ?ps)" using assms(1) by (metis mset_eq_imp_distinct_iff mset_map mset_sort)
  have "list_playbooks_with_actions t = concat (map (rows_of t) ?ps)"
    unfolding list_playbooks_with_actions_def rows_of_def actions_of_def ..
  then have g: "group_rows pj (list_playbooks_with_actions t) [] = Inr (map ?v ?ps)"
    using group_rows_all [OF assms(2) d, of "[]"] by simp
  have "map fst ?cs = map cw_playbook_id (sort_key cw_playbook_id (sort_key cw_id (t_conditions t)))"
    by (simp add: list_all_playbook_conditions_def)
  then have s: "sorted (map fst ?cs)" by simp
  have f: "map snd (filter (\<lambda>c. fst c = i) ?cs) = map condition_view_of (conditions_of t i)" for i
    by (simp add: list_all_playbook_conditions_def filter_map comp_def sort_key_stable conditions_of_def)
  have "attach_conditions (map ?v ?ps) ?cs = map (view_of pj t) ?ps"
    using attach_conditions_filter [OF s, of "map ?v ?ps"] d by (simp add: comp_def f view_of_def)
  with g show ?thesis by (simp add: list_playbooks_def)
qed

section \<open>The invariant of the tables\<close>

definition wf_tables :: "playbook_tables \<Rightarrow> bool" where
  "wf_tables t \<longleftrightarrow>
     distinct (map pr_id (t_playbooks t)) \<and> (\<forall>p\<in>set (t_playbooks t). pr_id p \<le> t_playbook_seq t)
     \<and> (\<forall>a\<in>set (t_actions t). aw_playbook_id a \<in> pr_id ` set (t_playbooks t))
     \<and> (\<forall>c\<in>set (t_conditions t). cw_playbook_id c \<in> pr_id ` set (t_playbooks t))
     \<and> sorted (map cw_id (t_conditions t)) \<and> (\<forall>c\<in>set (t_conditions t). cw_id c \<le> t_condition_seq t)"

fun action_rows :: "int \<Rightarrow> int \<Rightarrow> action_input list \<Rightarrow> playbook_action_row list" where
  "action_rows pid n [] = []"
| "action_rows pid n (a # as) =
     \<lparr>aw_id = n + 1, aw_playbook_id = pid, aw_action_order = ai_action_order a, aw_action_type = ai_action_type a,
      aw_params = ai_params_json a\<rparr> # action_rows pid (n + 1) as"

fun condition_rows :: "int \<Rightarrow> int \<Rightarrow> create_condition_input list \<Rightarrow> playbook_condition_row list" where
  "condition_rows pid n [] = []"
| "condition_rows pid n (c # cs) =
     \<lparr>cw_id = n + 1, cw_playbook_id = pid, cw_condition_type = ci_condition_type c, cw_operator = ci_operator c,
      cw_value = ci_value c, cw_value2 = ci_value2 c\<rparr> # condition_rows pid (n + 1) cs"

lemma action_rows_fields:
  "map (\<lambda>r. (aw_playbook_id r, aw_action_order r, aw_action_type r, aw_params r)) (action_rows pid n as) =
   map (\<lambda>a. (pid, ai_action_order a, ai_action_type a, ai_params_json a)) as"
  by (induction as arbitrary: n) auto

lemma action_rows_pid: "r \<in> set (action_rows pid n as) \<Longrightarrow> aw_playbook_id r = pid"
  by (induction as arbitrary: n) auto

lemma condition_rows_pid: "r \<in> set (condition_rows pid n cs) \<Longrightarrow> cw_playbook_id r = pid \<and> n < cw_id r \<and> cw_id r \<le> n + int (length cs)"
  by (induction cs arbitrary: n) fastforce+

lemma condition_rows_fields:
  "map (\<lambda>r. (cw_condition_type r, cw_operator r, cw_value r, cw_value2 r)) (condition_rows pid n cs) =
   map (\<lambda>c. (ci_condition_type c, ci_operator c, ci_value c, ci_value2 c)) cs"
  by (induction cs arbitrary: n) auto

lemma condition_rows_sorted: "sorted (map cw_id (condition_rows pid n cs))"
  by (induction cs arbitrary: n) (force dest: condition_rows_pid)+

text \<open>A run of inserts succeeds exactly where the constraint holds, and then appends the rows.\<close>

lemma insert_actions_spec:
  "insert_actions pid as t =
     (if distinct (map ai_action_order as) \<and> (\<forall>r\<in>set (t_actions t). aw_playbook_id r = pid \<longrightarrow> aw_action_order r \<notin> ai_action_order ` set as)
      then Inr (t\<lparr>t_actions := t_actions t @ action_rows pid (t_action_seq t) as, t_action_seq := t_action_seq t + int (length as)\<rparr>)
      else Inl store_error)"
proof (induction as arbitrary: t)
  case (Cons a as)
  let ?t = "t\<lparr>t_actions := t_actions t @ action_rows pid (t_action_seq t) [a], t_action_seq := t_action_seq t + 1\<rparr>"
  show ?case
  proof (cases "list_ex (\<lambda>r. aw_playbook_id r = pid \<and> aw_action_order r = ai_action_order a) (t_actions t)")
    case False
    then have "insert_actions pid (a # as) t = insert_actions pid as ?t" by (simp add: Let_def)
    with False show ?thesis unfolding Cons.IH [of ?t] by (auto simp: list_ex_iff add.assoc)
  qed (auto simp: list_ex_iff)
qed simp

lemma insert_conditions_spec:
  "insert_conditions pid cs t =
     (if distinct (map ci_condition_type cs)
         \<and> (\<forall>r\<in>set (t_conditions t). cw_playbook_id r = pid \<longrightarrow> cw_condition_type r \<notin> ci_condition_type ` set cs)
      then Inr (t\<lparr>t_conditions := t_conditions t @ condition_rows pid (t_condition_seq t) cs, t_condition_seq := t_condition_seq t + int (length cs)\<rparr>)
      else Inl store_error)"
proof (induction cs arbitrary: t)
  case (Cons c cs)
  let ?t = "t\<lparr>t_conditions := t_conditions t @ condition_rows pid (t_condition_seq t) [c], t_condition_seq := t_condition_seq t + 1\<rparr>"
  show ?case
  proof (cases "list_ex (\<lambda>r. cw_playbook_id r = pid \<and> cw_condition_type r = ci_condition_type c) (t_conditions t)")
    case False
    then have "insert_conditions pid (c # cs) t = insert_conditions pid cs ?t" by (simp add: Let_def)
    with False show ?thesis unfolding Cons.IH [of ?t] by (auto simp: list_ex_iff add.assoc)
  qed (auto simp: list_ex_iff)
qed simp

text \<open>Adding the rows of one playbook keeps the invariant.\<close>

lemma wf_tables_append:
  assumes "wf_tables t" "pid \<in> pr_id ` set (t_playbooks t)"
  shows "wf_tables (t\<lparr>t_actions := t_actions t @ action_rows pid n as, t_action_seq := m,
      t_conditions := t_conditions t @ condition_rows pid (t_condition_seq t) cs, t_condition_seq := t_condition_seq t + int (length cs)\<rparr>)"
  using assms condition_rows_sorted [of pid "t_condition_seq t" cs]
  by (fastforce simp: wf_tables_def sorted_append dest: action_rows_pid condition_rows_pid)

lemma wf_delete_children: "wf_tables t \<Longrightarrow> wf_tables (delete_children i t)"
  by (auto simp: wf_tables_def delete_children_def sorted_filter)

definition playbook_row_of :: "int \<Rightarrow> create_playbook_input \<Rightarrow> playbook_row" where
  "playbook_row_of pid input =
     \<lparr>pr_id = pid, pr_name = cp_name input, pr_enabled = True, pr_trigger_event = cp_trigger_event input,
      pr_condition_threshold = cp_condition_threshold input, pr_condition_count = cp_condition_count input,
      pr_condition_window_secs = cp_condition_window_secs input, pr_cooldown_secs = cp_cooldown_secs input\<rparr>"

text \<open>The tables after a playbook was inserted.\<close>

definition inserted :: "create_playbook_input \<Rightarrow> playbook_tables \<Rightarrow> playbook_tables" where
  "inserted input t =
     (let pid = t_playbook_seq t + 1
      in t\<lparr>t_playbooks := t_playbooks t @ [playbook_row_of pid input], t_playbook_seq := pid,
           t_actions := t_actions t @ action_rows pid (t_action_seq t) (cp_actions input),
           t_action_seq := t_action_seq t + int (length (cp_actions input)),
           t_conditions := t_conditions t @ condition_rows pid (t_condition_seq t) (cp_conditions input),
           t_condition_seq := t_condition_seq t + int (length (cp_conditions input))\<rparr>)"

lemma insert_playbook_spec:
  assumes "wf_tables t"
  shows "insert_playbook_atomic True input t =
    (if distinct (map ai_action_order (cp_actions input)) \<and> distinct (map ci_condition_type (cp_conditions input))
     then Inr (t_playbook_seq t + 1, inserted input t) else Inl store_error)"
proof -
  have "aw_playbook_id a \<noteq> t_playbook_seq t + 1" if "a \<in> set (t_actions t)" for a using assms that by (fastforce simp: wf_tables_def)
  moreover have "cw_playbook_id c \<noteq> t_playbook_seq t + 1" if "c \<in> set (t_conditions t)" for c using assms that by (fastforce simp: wf_tables_def)
  ultimately show ?thesis
    by (auto simp: insert_playbook_atomic_def insert_actions_spec insert_conditions_spec inserted_def playbook_row_of_def Let_def)
qed

lemma wf_inserted: "wf_tables t \<Longrightarrow> wf_tables (inserted input t)"
proof -
  assume wf: "wf_tables t"
  let ?pid = "t_playbook_seq t + 1"
  have "wf_tables (t\<lparr>t_playbooks := t_playbooks t @ [playbook_row_of ?pid input], t_playbook_seq := ?pid\<rparr>)"
    using wf by (fastforce simp: wf_tables_def playbook_row_of_def)
  from wf_tables_append [OF this, of ?pid] show ?thesis by (simp add: inserted_def Let_def playbook_row_of_def)
qed

section \<open>Listing after an insertion\<close>

lemma sort_key_append_last:
  assumes "\<forall>y\<in>set xs. f y \<le> f x"
  shows "sort_key f (xs @ [x]) = sort_key f xs @ [x]"
proof (rule properties_for_sort_key)
  show "sorted (map f (sort_key f xs @ [x]))" using assms by (simp add: sorted_append)
  fix k
  have "filter (\<lambda>y. f k = f y) (sort_key f xs) = filter (\<lambda>y. f k = f y) xs"
    using sort_key_stable [of f "f k" xs] by (simp add: eq_commute)
  then show "filter (\<lambda>y. f k = f y) (sort_key f xs @ [x]) = filter (\<lambda>y. f k = f y) (xs @ [x])" by simp
qed simp

lemma inserted_simps:
  assumes "wf_tables t"
  shows "conditions_of (inserted input t) i =
      conditions_of t i @ (if i = t_playbook_seq t + 1 then condition_rows i (t_condition_seq t) (cp_conditions input) else [])"
    and "i \<noteq> t_playbook_seq t + 1 \<Longrightarrow> actions_of (inserted input t) i = actions_of t i"
    and "actions_of (inserted input t) (t_playbook_seq t + 1) = sort_key aw_action_order (action_rows (t_playbook_seq t + 1) (t_action_seq t) (cp_actions input))"
    and "conditions_of t (t_playbook_seq t + 1) = []"
proof -
  let ?pid = "t_playbook_seq t + 1"
  have sorted: "sorted (map cw_id (t_conditions t))" "sorted (map cw_id (t_conditions (inserted input t)))"
    using assms wf_inserted [OF assms] by (auto simp: wf_tables_def)
  have new: "t_conditions (inserted input t) = t_conditions t @ condition_rows ?pid (t_condition_seq t) (cp_conditions input)"
    "t_actions (inserted input t) = t_actions t @ action_rows ?pid (t_action_seq t) (cp_actions input)"
    by (simp_all add: inserted_def Let_def)
  have f: "filter (\<lambda>c. cw_playbook_id c = i) (condition_rows ?pid n cs) = (if i = ?pid then condition_rows ?pid n cs else [])" for i n cs
    using condition_rows_pid [of _ ?pid n cs] by (auto simp: filter_empty_conv filter_id_conv)
  show "conditions_of (inserted input t) i =
      conditions_of t i @ (if i = ?pid then condition_rows i (t_condition_seq t) (cp_conditions input) else [])"
    using sorted by (simp add: conditions_of_def sort_key_id_if_sorted new f)
  have "filter (\<lambda>a. aw_playbook_id a = i) (action_rows ?pid n as) = []" if "i \<noteq> ?pid" for i n as
    using action_rows_pid [of _ ?pid n as] that by (auto simp: filter_empty_conv)
  then show "i \<noteq> ?pid \<Longrightarrow> actions_of (inserted input t) i = actions_of t i" by (simp add: actions_of_def new)
  have "filter (\<lambda>a. aw_playbook_id a = ?pid) (t_actions t) = []" using assms by (fastforce simp: wf_tables_def filter_empty_conv)
  moreover have "filter (\<lambda>a. aw_playbook_id a = ?pid) (action_rows ?pid n as) = action_rows ?pid n as" for n as
    using action_rows_pid [of _ ?pid n as] by (auto simp: filter_id_conv)
  ultimately show "actions_of (inserted input t) ?pid = sort_key aw_action_order (action_rows ?pid (t_action_seq t) (cp_actions input))"
    by (simp add: actions_of_def new)
  show "conditions_of t ?pid = []" using assms by (fastforce simp: wf_tables_def conditions_of_def filter_empty_conv)
qed

lemma action_rows_orders: "map aw_action_order (action_rows pid n as) = map ai_action_order as"
  by (induction as arbitrary: n) auto

lemma action_rows_views:
  "map (\<lambda>a. (av_action_order a, av_action_type a, av_params a)) (map (action_view_of pj) (action_rows pid n as)) =
   map (\<lambda>a. (ai_action_order a, ai_action_type a, the (pj (ai_params_json a)))) as"
  by (induction as arbitrary: n) (auto simp: action_view_of_def)

lemma condition_rows_views:
  "map (\<lambda>c. (cv_condition_type c, cv_operator c, cv_value c, cv_value2 c)) (map condition_view_of (condition_rows pid n cs)) =
   map (\<lambda>c. (ci_condition_type c, ci_operator c, ci_value c, ci_value2 c)) cs"
  by (induction cs arbitrary: n) (auto simp: condition_view_of_def)

lemma list_inserted:
  assumes "wf_tables t" "readable_params pj t" "\<forall>a\<in>set (cp_actions input). pj (ai_params_json a) \<noteq> None"
  shows "list_playbooks True pj (inserted input t) =
    Inr (map (view_of pj t) (sort_key pr_id (t_playbooks t)) @ [view_of pj (inserted input t) (playbook_row_of (t_playbook_seq t + 1) input)])"
proof -
  let ?pid = "t_playbook_seq t + 1"
  have "\<forall>r\<in>set (action_rows ?pid n as). pj (aw_params r) \<noteq> None" if "\<forall>a\<in>set as. pj (ai_params_json a) \<noteq> None" for n as
    using that by (induction as arbitrary: n) auto
  with assms(2,3) have "readable_params pj (inserted input t)" by (auto simp: readable_params_def inserted_def Let_def list_all_iff)
  moreover have "distinct (map pr_id (t_playbooks (inserted input t)))" using wf_inserted [OF assms(1)] by (simp add: wf_tables_def)
  ultimately have l: "list_playbooks True pj (inserted input t) =
      Inr (map (view_of pj (inserted input t)) (sort_key pr_id (t_playbooks (inserted input t))))" by (rule list_playbooks_spec [rotated])
  have "sort_key pr_id (t_playbooks (inserted input t)) = sort_key pr_id (t_playbooks t) @ [playbook_row_of ?pid input]"
    using assms(1) by (simp add: inserted_def Let_def) (intro sort_key_append_last, fastforce simp: wf_tables_def playbook_row_of_def)
  moreover have "view_of pj (inserted input t) p = view_of pj t p" if "p \<in> set (t_playbooks t)" for p
  proof -
    have "pr_id p \<noteq> ?pid" using assms(1) that by (fastforce simp: wf_tables_def)
    then show ?thesis using inserted_simps(1,2) [OF assms(1), where input = input] by (simp add: view_of_def)
  qed
  ultimately show ?thesis using l by simp
qed

lemma inserted_view:
  assumes "wf_tables t" "sorted (map ai_action_order (cp_actions input))"
    and v_def: "v = view_of pj (inserted input t) (playbook_row_of (t_playbook_seq t + 1) input)"
  shows "map (\<lambda>a. (av_action_order a, av_action_type a, av_params a)) (pv_actions v) =
      map (\<lambda>a. (ai_action_order a, ai_action_type a, the (pj (ai_params_json a)))) (cp_actions input)"
    and "map (\<lambda>c. (cv_condition_type c, cv_operator c, cv_value c, cv_value2 c)) (pv_conditions v) =
      map (\<lambda>c. (ci_condition_type c, ci_operator c, ci_value c, ci_value2 c)) (cp_conditions input)"
proof -
  let ?pid = "t_playbook_seq t + 1"
  have "actions_of (inserted input t) ?pid = action_rows ?pid (t_action_seq t) (cp_actions input)"
    using inserted_simps(3) [OF assms(1), of input] assms(2) by (simp add: sort_key_id_if_sorted action_rows_orders)
  then show "map (\<lambda>a. (av_action_order a, av_action_type a, av_params a)) (pv_actions v) =
      map (\<lambda>a. (ai_action_order a, ai_action_type a, the (pj (ai_params_json a)))) (cp_actions input)"
    using action_rows_views [of pj ?pid "t_action_seq t" "cp_actions input"] by (simp add: v_def view_of_def playbook_row_of_def)
  show "map (\<lambda>c. (cv_condition_type c, cv_operator c, cv_value c, cv_value2 c)) (pv_conditions v) =
      map (\<lambda>c. (ci_condition_type c, ci_operator c, ci_value c, ci_value2 c)) (cp_conditions input)"
    using inserted_simps(1) [OF assms(1), where input = input] inserted_simps(4) [OF assms(1)]
      condition_rows_views [of ?pid "t_condition_seq t" "cp_conditions input"]
    by (simp add: v_def view_of_def playbook_row_of_def)
qed

section \<open>Properties\<close>

text \<open>
  C37. What the API stores is what the engine is given: storing a playbook succeeds exactly where its
  action positions and its condition types are distinct, and then the next listing, which walks the join
  of the tables and the conditions in one pass, is the listing from before with the new playbook at its
  end: enabled, under the returned id, with its actions in order and its conditions as they were given.
\<close>

theorem stored_playbook_is_listed:
  assumes "wf_tables t" "readable_params pj t" "\<forall>a\<in>set (cp_actions input). pj (ai_params_json a) \<noteq> None"
    and "sorted (map ai_action_order (cp_actions input))"
  shows "if distinct (map ai_action_order (cp_actions input)) \<and> distinct (map ci_condition_type (cp_conditions input))
    then \<exists>pid t'. insert_playbook_atomic True input t = Inr (pid, t')
      \<and> (\<exists>vs v. list_playbooks True pj t = Inr vs \<and> list_playbooks True pj t' = Inr (vs @ [v])
          \<and> pv_id v = pid \<and> pv_name v = cp_name input \<and> pv_enabled v \<and> pv_trigger_event v = cp_trigger_event input
          \<and> pv_cooldown_secs v = cp_cooldown_secs input
          \<and> map (\<lambda>a. (av_action_order a, av_action_type a, av_params a)) (pv_actions v) =
              map (\<lambda>a. (ai_action_order a, ai_action_type a, the (pj (ai_params_json a)))) (cp_actions input)
          \<and> map (\<lambda>c. (cv_condition_type c, cv_operator c, cv_value c, cv_value2 c)) (pv_conditions v) =
              map (\<lambda>c. (ci_condition_type c, ci_operator c, ci_value c, ci_value2 c)) (cp_conditions input))
    else insert_playbook_atomic True input t = Inl store_error"
proof (cases "distinct (map ai_action_order (cp_actions input)) \<and> distinct (map ci_condition_type (cp_conditions input))")
  case True
  define pid t' where t': "pid = t_playbook_seq t + 1" "t' = inserted input t"
  then have ins: "insert_playbook_atomic True input t = Inr (pid, t')" using insert_playbook_spec [OF assms(1), of input] True by simp
  define v where "v = view_of pj (inserted input t) (playbook_row_of pid input)"
  note inserted_view [OF assms(1,4) v_def [unfolded t'(1)]]
  moreover have "list_playbooks True pj t = Inr (map (view_of pj t) (sort_key pr_id (t_playbooks t)))"
    using assms(1,2) by (intro list_playbooks_spec) (simp_all add: wf_tables_def)
  moreover have "list_playbooks True pj t' = Inr (map (view_of pj t) (sort_key pr_id (t_playbooks t)) @ [v])"
    using list_inserted [OF assms(1-3)] t' by (simp add: v_def)
  ultimately have "\<exists>vs v. list_playbooks True pj t = Inr vs \<and> list_playbooks True pj t' = Inr (vs @ [v])
          \<and> pv_id v = pid \<and> pv_name v = cp_name input \<and> pv_enabled v \<and> pv_trigger_event v = cp_trigger_event input
          \<and> pv_cooldown_secs v = cp_cooldown_secs input
          \<and> map (\<lambda>a. (av_action_order a, av_action_type a, av_params a)) (pv_actions v) =
              map (\<lambda>a. (ai_action_order a, ai_action_type a, the (pj (ai_params_json a)))) (cp_actions input)
          \<and> map (\<lambda>c. (cv_condition_type c, cv_operator c, cv_value c, cv_value2 c)) (pv_conditions v) =
              map (\<lambda>c. (ci_condition_type c, ci_operator c, ci_value c, ci_value2 c)) (cp_conditions input)"
    by (intro exI [of _ "map (view_of pj t) (sort_key pr_id (t_playbooks t))"] exI [of _ v])
      (simp add: v_def view_of_def bare_view_def playbook_row_of_def)
  with ins True show ?thesis by auto
qed (use insert_playbook_spec [OF assms(1), of input] in auto)

definition no_tables :: playbook_tables where
  "no_tables = \<lparr>t_playbooks = [], t_actions = [], t_conditions = [], t_playbook_seq = 0, t_action_seq = 0, t_condition_seq = 0\<rparr>"

text \<open>A reader of two JSON texts.\<close>

definition two_texts :: "string \<Rightarrow> json option" where
  "two_texts = [''{}'' \<mapsto> JObject [], ''T'' \<mapsto> JObject [(''ttl_secs'', JPosInt 3600)]]"

definition sample_input :: create_playbook_input where
  "sample_input =
     \<lparr>cp_name = ''c2'', cp_trigger_event = ''c2_beacon'', cp_condition_threshold = None, cp_condition_count = None,
      cp_condition_window_secs = None, cp_cooldown_secs = 600,
      cp_actions = [\<lparr>ai_action_order = 1, ai_action_type = ''block_ip'', ai_params_json = ''T''\<rparr>,
                    \<lparr>ai_action_order = 2, ai_action_type = ''send_telegram'', ai_params_json = ''{}''\<rparr>],
      cp_conditions = [\<lparr>ci_condition_type = ''multi_source_min'', ci_operator = ''>='', ci_value = ''2'', ci_value2 = None\<rparr>]\<rparr>"

theorem stored_playbook_is_listed_witness:
  "\<exists>pid t' v. insert_playbook_atomic True sample_input no_tables = Inr (pid, t') \<and> list_playbooks True two_texts t' = Inr [v]
    \<and> pv_id v = pid \<and> map av_action_type (pv_actions v) = [''block_ip'', ''send_telegram'']"
proof -
  have "wf_tables no_tables" "readable_params two_texts no_tables" by (simp_all add: wf_tables_def readable_params_def no_tables_def)
  moreover have "\<forall>a\<in>set (cp_actions sample_input). two_texts (ai_params_json a) \<noteq> None" by (simp add: sample_input_def two_texts_def)
  moreover have "sorted (map ai_action_order (cp_actions sample_input))" by (simp add: sample_input_def)
  moreover have "distinct (map ai_action_order (cp_actions sample_input)) \<and> distinct (map ci_condition_type (cp_conditions sample_input))"
    by (simp add: sample_input_def)
  ultimately obtain pid t' vs v where v: "insert_playbook_atomic True sample_input no_tables = Inr (pid, t')"
      "list_playbooks True two_texts no_tables = Inr vs" "list_playbooks True two_texts t' = Inr (vs @ [v])" "pv_id v = pid"
      "map (\<lambda>a. (av_action_order a, av_action_type a, av_params a)) (pv_actions v) =
        map (\<lambda>a. (ai_action_order a, ai_action_type a, the (two_texts (ai_params_json a)))) (cp_actions sample_input)"
    using stored_playbook_is_listed [of no_tables two_texts sample_input] by auto
  have "vs = []" using v(2) by (simp add: list_playbooks_def list_playbooks_with_actions_def list_all_playbook_conditions_def no_tables_def)
  moreover have "map (\<lambda>x. fst (snd x)) (map (\<lambda>a. (av_action_order a, av_action_type a, av_params a)) (pv_actions v)) = [''block_ip'', ''send_telegram'']"
    unfolding v(5) by (simp add: sample_input_def)
  ultimately show ?thesis using v by (auto simp: comp_def)
qed

end
