(* ===== verification/Ip_Blocking.thy ===== *)
theory Ip_Blocking
  imports Acl_Adapter Rust_Net Ingress_Properties
begin

text \<open>
  Blocking an address (\<^verbatim>\<open>adapter/access_control.rs\<close>): the port the automatic response uses, on top
  of the source blacklist with port 0. The maps the control plane edits are the maps the ingress
  program reads; \<open>kernel_acl\<close> is that view, and the theorem at the end follows an address from the
  call of \<^verbatim>\<open>block_ip\<close> to the dropped frame.
\<close>

section \<open>The port\<close>

definition parse_ip :: "string \<Rightarrow> (ebpf_error, ip_addr) result" where
  "parse_ip ip = ok_or (parse_ip_addr ip) (InvalidIpAddress ip)"

definition block_ip :: "acl_api \<Rightarrow> string \<Rightarrow> access_control_lists \<Rightarrow> (ebpf_error, access_control_lists) result" where
  "block_ip A ip ac =
     and_then (parse_ip ip) (\<lambda>addr.
       case addr of
         IpV4 v4 \<Rightarrow> add_ipv4_list A Source Black \<lparr>sa4_ip = v4, sa4_port = 0\<rparr> ac
       | IpV6 v6 \<Rightarrow> add_ipv6_list A Source Black \<lparr>sa6_ip = v6, sa6_port = 0\<rparr> ac)"

definition unblock_ip :: "acl_api \<Rightarrow> string \<Rightarrow> access_control_lists \<Rightarrow> (ebpf_error, access_control_lists) result option" where
  "unblock_ip A ip ac =
     (case parse_ip ip of
        Inl e \<Rightarrow> Some (Inl e)
      | Inr addr \<Rightarrow>
          (case addr of
             IpV4 v4 \<Rightarrow> remove_ipv4_list A Source Black \<lparr>sa4_ip = v4, sa4_port = 0\<rparr> ac
           | IpV6 v6 \<Rightarrow> remove_ipv6_list A Source Black \<lparr>sa6_ip = v6, sa6_port = 0\<rparr> ac))"

section \<open>The ingress program's view of the lists\<close>

definition readable :: "'k map_wrapper \<Rightarrow> 'k \<Rightarrow> port_rule option" where
  "readable w k = (case w of Some m \<Rightarrow> m k | None \<Rightarrow> None)"

definition kernel_acl :: "access_control_lists \<Rightarrow> (u32 \<Rightarrow> u32 \<Rightarrow> u8 option) \<Rightarrow> (u32 \<Rightarrow> u128 \<Rightarrow> u8 option) \<Rightarrow> acl_maps" where
  "kernel_acl ac geo4 geo6 =
     \<lparr>IPV4_SRC_WHITELIST = readable (ipv4_src_whitelist ac), IPV6_SRC_WHITELIST = readable (ipv6_src_whitelist ac),
      IPV4_DST_WHITELIST = readable (ipv4_dst_whitelist ac), IPV6_DST_WHITELIST = readable (ipv6_dst_whitelist ac),
      IPV4_SRC_BLACKLIST = readable (ipv4_src_blacklist ac), IPV6_SRC_BLACKLIST = readable (ipv6_src_blacklist ac),
      IPV4_DST_BLACKLIST = readable (ipv4_dst_blacklist ac), IPV6_DST_BLACKLIST = readable (ipv6_dst_blacklist ac),
      GEO_BLOCK_V4 = geo4, GEO_BLOCK_V6 = geo6\<rparr>"

lemma readable_Some [simp]: "readable (Some m) = m"
  by (rule ext) (simp add: readable_def)

text \<open>The tests of the ingress program, in terms of what the lists match.\<close>

lemma kernel_tests_v4:
  assumes "wf_acl ac"
  shows "ipv4_is_whitelisted (acl_ne A) (kernel_acl ac g4 g6) pkt \<longleftrightarrow>
      (to_be (acl_ne A) 4 (src_ip_v4 (acl_ne A) pkt), src_port pkt) \<in> listed_v4 A ac Source White \<or>
      (to_be (acl_ne A) 4 (dst_ip_v4 (acl_ne A) pkt), dst_port pkt) \<in> listed_v4 A ac Destination White"
    and "ipv4_is_blacklisted (acl_ne A) (kernel_acl ac g4 g6) pkt \<longleftrightarrow>
      (to_be (acl_ne A) 4 (src_ip_v4 (acl_ne A) pkt), src_port pkt) \<in> listed_v4 A ac Source Black \<or>
      (to_be (acl_ne A) 4 (dst_ip_v4 (acl_ne A) pkt), dst_port pkt) \<in> listed_v4 A ac Destination Black"
proof -
  have "\<exists>m. ipv4_list d t ac = Some m" for d t using wf_acl_lists [OF assms] by metis
  then obtain m where m: "\<And>d t. ipv4_list d t ac = Some (m d t)" by metis
  have "ipv4_src_whitelist ac = Some (m Source White)" "ipv4_dst_whitelist ac = Some (m Destination White)"
    "ipv4_src_blacklist ac = Some (m Source Black)" "ipv4_dst_blacklist ac = Some (m Destination Black)"
    using m [of Source White] m [of Destination White] m [of Source Black] m [of Destination Black]
    by (simp_all add: ipv4_list_def)
  then show "ipv4_is_whitelisted (acl_ne A) (kernel_acl ac g4 g6) pkt \<longleftrightarrow>
      (to_be (acl_ne A) 4 (src_ip_v4 (acl_ne A) pkt), src_port pkt) \<in> listed_v4 A ac Source White \<or>
      (to_be (acl_ne A) 4 (dst_ip_v4 (acl_ne A) pkt), dst_port pkt) \<in> listed_v4 A ac Destination White"
    "ipv4_is_blacklisted (acl_ne A) (kernel_acl ac g4 g6) pkt \<longleftrightarrow>
      (to_be (acl_ne A) 4 (src_ip_v4 (acl_ne A) pkt), src_port pkt) \<in> listed_v4 A ac Source Black \<or>
      (to_be (acl_ne A) 4 (dst_ip_v4 (acl_ne A) pkt), dst_port pkt) \<in> listed_v4 A ac Destination Black"
    by (auto simp: ipv4_is_whitelisted_def ipv4_is_blacklisted_def kernel_acl_def listed_v4_def m Let_def)
qed

lemma kernel_tests_v6:
  assumes "wf_acl ac"
  shows "ipv6_is_whitelisted (acl_ne A) (kernel_acl ac g4 g6) pkt \<longleftrightarrow>
      (to_be (acl_ne A) 16 (src_ip_v6 (acl_ne A) pkt), src_port pkt) \<in> listed_v6 A ac Source White \<or>
      (to_be (acl_ne A) 16 (dst_ip_v6 (acl_ne A) pkt), dst_port pkt) \<in> listed_v6 A ac Destination White"
    and "ipv6_is_blacklisted (acl_ne A) (kernel_acl ac g4 g6) pkt \<longleftrightarrow>
      (to_be (acl_ne A) 16 (src_ip_v6 (acl_ne A) pkt), src_port pkt) \<in> listed_v6 A ac Source Black \<or>
      (to_be (acl_ne A) 16 (dst_ip_v6 (acl_ne A) pkt), dst_port pkt) \<in> listed_v6 A ac Destination Black"
proof -
  have "\<exists>m. ipv6_list d t ac = Some m" for d t using wf_acl_lists6 [OF assms] by metis
  then obtain m where m: "\<And>d t. ipv6_list d t ac = Some (m d t)" by metis
  have "ipv6_src_whitelist ac = Some (m Source White)" "ipv6_dst_whitelist ac = Some (m Destination White)"
    "ipv6_src_blacklist ac = Some (m Source Black)" "ipv6_dst_blacklist ac = Some (m Destination Black)"
    using m [of Source White] m [of Destination White] m [of Source Black] m [of Destination Black]
    by (simp_all add: ipv6_list_def)
  then show "ipv6_is_whitelisted (acl_ne A) (kernel_acl ac g4 g6) pkt \<longleftrightarrow>
      (to_be (acl_ne A) 16 (src_ip_v6 (acl_ne A) pkt), src_port pkt) \<in> listed_v6 A ac Source White \<or>
      (to_be (acl_ne A) 16 (dst_ip_v6 (acl_ne A) pkt), dst_port pkt) \<in> listed_v6 A ac Destination White"
    "ipv6_is_blacklisted (acl_ne A) (kernel_acl ac g4 g6) pkt \<longleftrightarrow>
      (to_be (acl_ne A) 16 (src_ip_v6 (acl_ne A) pkt), src_port pkt) \<in> listed_v6 A ac Source Black \<or>
      (to_be (acl_ne A) 16 (dst_ip_v6 (acl_ne A) pkt), dst_port pkt) \<in> listed_v6 A ac Destination Black"
    by (auto simp: ipv6_is_whitelisted_def ipv6_is_blacklisted_def kernel_acl_def listed_v6_def m Let_def)
qed

text \<open>The source address of a frame, in the byte order of the wire.\<close>

definition frame_from :: "bytes \<Rightarrow> parsed_packet \<Rightarrow> ip_addr \<Rightarrow> bool" where
  "frame_from bs pkt addr =
     (case addr of
        IpV4 a \<Rightarrow> ip_version pkt = 4 \<and> take 4 (drop 26 bs) = to_be_bytes 4 a
      | IpV6 a \<Rightarrow> ip_version pkt = 6 \<and> take 16 (drop 22 bs) = to_be_bytes 16 a)"

definition blocks :: "acl_api \<Rightarrow> access_control_lists \<Rightarrow> ip_addr \<Rightarrow> bool" where
  "blocks A ac addr =
     (case addr of
        IpV4 a \<Rightarrow> {a} \<times> UNIV \<subseteq> listed_v4 A ac Source Black
      | IpV6 a \<Rightarrow> {a} \<times> UNIV \<subseteq> listed_v6 A ac Source Black)"

definition unlisted :: "acl_api \<Rightarrow> access_control_lists \<Rightarrow> ip_addr \<Rightarrow> bool" where
  "unlisted A ac addr =
     (case addr of
        IpV4 a \<Rightarrow> {a} \<times> UNIV \<inter> listed_v4 A ac Source Black = {}
      | IpV6 a \<Rightarrow> {a} \<times> UNIV \<inter> listed_v6 A ac Source Black = {})"

lemma remove_ipv4_list_v6: "remove_ipv4_list A d t sa ac = Some (Inr ac') \<Longrightarrow> ipv6_list d' t' ac' = ipv6_list d' t' ac"
  by (auto simp: remove_ipv4_list_def Let_def result_iffs)

lemma remove_ipv6_list_v4: "remove_ipv6_list A d t sa ac = Some (Inr ac') \<Longrightarrow> ipv4_list d' t' ac' = ipv4_list d' t' ac"
  by (auto simp: remove_ipv6_list_def Let_def result_iffs)

text \<open>A whitelist entry for the source or the destination of the packet, with its port.\<close>

definition admits :: "acl_api \<Rightarrow> access_control_lists \<Rightarrow> parsed_packet \<Rightarrow> bool" where
  "admits A ac pkt \<longleftrightarrow>
     (if ip_version pkt = 4 then
        (to_be (acl_ne A) 4 (src_ip_v4 (acl_ne A) pkt), src_port pkt) \<in> listed_v4 A ac Source White
        \<or> (to_be (acl_ne A) 4 (dst_ip_v4 (acl_ne A) pkt), dst_port pkt) \<in> listed_v4 A ac Destination White
      else
        (to_be (acl_ne A) 16 (src_ip_v6 (acl_ne A) pkt), src_port pkt) \<in> listed_v6 A ac Source White
        \<or> (to_be (acl_ne A) 16 (dst_ip_v6 (acl_ne A) pkt), dst_port pkt) \<in> listed_v6 A ac Destination White)"

lemma blocks_verdict:
  assumes "wf_acl ac" "blocks A ac addr" "\<not> admits A ac pkt" "wf_packet t"
    and "parse_packet P bs t = Some (True, pkt)" "frame_from bs pkt addr"
  shows "\<exists>r. acl_verdict_of (acl_ne A) (kernel_acl ac g4 g6) pkt = Blocked r"
proof (cases addr)
  case (IpV4 a)
  have "ipv4_fields bs pkt"
    using parse_packet_ok_fields [OF assms(5,4)] assms(6) IpV4 by (auto simp: frame_from_def ipv6_fields_def)
  then have "src_ip_v4 (acl_ne A) pkt = to_be (acl_ne A) 4 a"
    using assms(6) IpV4 by (simp add: src_ip_v4_def ipv4_fields_def frame_from_def to_be_def)
  with assms(2,3) IpV4 show ?thesis
    using assms(6) by (auto simp: acl_verdict_of_def kernel_tests_v4 [OF assms(1)] blocks_def admits_def frame_from_def)
next
  case (IpV6 a)
  have "ipv6_fields bs pkt"
    using parse_packet_ok_fields [OF assms(5,4)] assms(6) IpV6 by (auto simp: frame_from_def ipv4_fields_def)
  then have "src_ip_v6 (acl_ne A) pkt = to_be (acl_ne A) 16 a"
    using assms(6) IpV6 by (simp add: src_ip_v6_def ipv6_fields_def frame_from_def to_be_def)
  with assms(2,3) IpV6 show ?thesis
    using assms(6) by (auto simp: acl_verdict_of_def kernel_tests_v6 [OF assms(1)] blocks_def admits_def frame_from_def)
qed

context acl_kernel
begin

lemma block_ip_blocks:
  assumes "wf_acl ac" "block_ip A ip ac = Inr ac'" "parse_ip_addr ip = Some addr"
  shows "wf_acl ac'" "blocks A ac' addr" "admits A ac' pkt = admits A ac pkt"
proof (atomize (full), cases addr)
  case (IpV4 a)
  then have add: "add_ipv4_list A Source Black \<lparr>sa4_ip = a, sa4_port = 0\<rparr> ac = Inr ac'"
    using assms(2,3) by (simp add: block_ip_def parse_ip_def)
  note ok = add_ipv4_list_Ok [OF assms(1) add]
  have "listed_v4 A ac' d White = listed_v4 A ac d White" "listed_v6 A ac' d White = listed_v6 A ac d White" for d
    using ok(3) [of d White] ok(4) [of d White] by (simp_all add: listed_v4_def listed_v6_def)
  with ok(1,2) IpV4 show "wf_acl ac' \<and> blocks A ac' addr \<and> admits A ac' pkt = admits A ac pkt"
    by (simp add: blocks_def entry_ports_def admits_def)
next
  case (IpV6 a)
  then have add: "add_ipv6_list A Source Black \<lparr>sa6_ip = a, sa6_port = 0\<rparr> ac = Inr ac'"
    using assms(2,3) by (simp add: block_ip_def parse_ip_def)
  note ok = add_ipv6_list_Ok [OF assms(1) add]
  have "listed_v4 A ac' d White = listed_v4 A ac d White" "listed_v6 A ac' d White = listed_v6 A ac d White" for d
    using ok(3) [of d White] ok(4) [of d White] by (simp_all add: listed_v4_def listed_v6_def)
  with ok(1,2) IpV6 show "wf_acl ac' \<and> blocks A ac' addr \<and> admits A ac' pkt = admits A ac pkt"
    by (simp add: blocks_def entry_ports_def admits_def)
qed

text \<open>
  Lifting a block: whatever the kernel answers, the address is off the list afterwards. It answers with
  an error exactly where the address was not on it, and then nothing changes; the others stay.
\<close>

lemma unblock_ip_unlists:
  assumes "wf_acl ac" "parse_ip_addr ip = Some addr"
  shows "(\<exists>ac'. unblock_ip A ip ac = Some (Inr ac') \<and> wf_acl ac' \<and> unlisted A ac' addr
      \<and> (\<forall>x. x \<noteq> addr \<longrightarrow> blocks A ac' x = blocks A ac x \<and> unlisted A ac' x = unlisted A ac x))
    \<or> (\<exists>e. unblock_ip A ip ac = Some (Inl e)) \<and> unlisted A ac addr"
proof (cases addr)
  case (IpV4 a)
  let ?sa = "\<lparr>sa4_ip = a, sa4_port = 0\<rparr>"
  obtain m where m: "ipv4_list Source Black ac = Some m" using wf_acl_lists [OF assms(1)] by metis
  show ?thesis
  proof (cases "m (to_be (acl_ne A) 4 (sa4_ip ?sa))")
    case None
    then have "unlisted A ac addr" using IpV4 m by (auto simp: unlisted_def listed_v4_def rule_hit_def)
    moreover have "\<exists>e. unblock_ip A ip ac = Some (Inl e)"
      using remove_ipv4_list_absent [OF m None] IpV4 assms(2) by (simp add: unblock_ip_def parse_ip_def)
    ultimately show ?thesis by blast
  next
    case (Some r)
    obtain ac' where ac': "remove_ipv4_list A Source Black ?sa ac = Some (Inr ac')" "wf_acl ac'"
        "listed_v4 A ac' Source Black = listed_v4 A ac Source Black - {a} \<times> UNIV"
      by (rule remove_ipv4_list_Ok [OF assms(1) m Some]) simp
    have "listed_v6 A ac' Source Black = listed_v6 A ac Source Black" by (simp add: listed_v6_def remove_ipv4_list_v6 [OF ac'(1)])
    with ac' IpV4 assms(2) show ?thesis
      by (intro disjI1 exI [of _ ac']) (auto simp: unblock_ip_def parse_ip_def unlisted_def blocks_def split: ip_addr.splits)
  qed
next
  case (IpV6 a)
  let ?sa = "\<lparr>sa6_ip = a, sa6_port = 0\<rparr>"
  obtain m where m: "ipv6_list Source Black ac = Some m" using wf_acl_lists6 [OF assms(1)] by metis
  show ?thesis
  proof (cases "m (to_be (acl_ne A) 16 (sa6_ip ?sa))")
    case None
    then have "unlisted A ac addr" using IpV6 m by (auto simp: unlisted_def listed_v6_def rule_hit_def)
    moreover have "\<exists>e. unblock_ip A ip ac = Some (Inl e)"
      using remove_ipv6_list_absent [OF m None] IpV6 assms(2) by (simp add: unblock_ip_def parse_ip_def)
    ultimately show ?thesis by blast
  next
    case (Some r)
    obtain ac' where ac': "remove_ipv6_list A Source Black ?sa ac = Some (Inr ac')" "wf_acl ac'"
        "listed_v6 A ac' Source Black = listed_v6 A ac Source Black - {a} \<times> UNIV"
      by (rule remove_ipv6_list_Ok [OF assms(1) m Some]) simp
    have "listed_v4 A ac' Source Black = listed_v4 A ac Source Black" by (simp add: listed_v4_def remove_ipv6_list_v4 [OF ac'(1)])
    with ac' IpV6 assms(2) show ?thesis
      by (intro disjI1 exI [of _ ac']) (auto simp: unblock_ip_def parse_ip_def unlisted_def blocks_def split: ip_addr.splits)
  qed
qed

lemma blocks_not_unlisted: "blocks A ac addr \<Longrightarrow> \<not> unlisted A ac addr"
  by (auto simp: blocks_def unlisted_def split: ip_addr.splits)

lemma unblock_ip_lifts:
  assumes "wf_acl ac" "blocks A ac addr" "parse_ip_addr ip = Some addr"
  shows "\<exists>ac'. unblock_ip A ip ac = Some (Inr ac') \<and> wf_acl ac' \<and> unlisted A ac' addr"
  using unblock_ip_unlists [OF assms(1,3)] blocks_not_unlisted [OF assms(2)] by blast

end

section \<open>From the call to the dropped frame\<close>

lemma block_ip_drops:
  assumes "acl_kernel A" "wf_acl ac" "\<not> admits A ac pkt"
    and "block_ip A ip ac = Inr ac'" "parse_ip_addr ip = Some addr"
    and "ingress_object B" "distinct sts" "AclStage \<in> set sts" "length sts < n"
    and "configure_ingress_pipeline B (map stage_name sts) = Inr (PA, NS)"
    and "acl E = kernel_acl ac' g4 g6" "ne (plat E) = acl_ne A"
    and "PARSED_PACKET s = Some target" "wf_packet target"
    and "parse_packet (plat E) (frame ctx) target = Some (True, pkt)" "frame_from (frame ctx) pkt addr"
  shows "\<exists>s'. run_prog (configured E PA NS) ctx n NetGuardia s = Some (XDP_DROP, s')"
proof -
  note b = acl_kernel.block_ip_blocks [OF assms(1,2,4,5)]
  obtain r where "acl_verdict_of (ne (plat E)) (acl E) pkt = Blocked r"
    using blocks_verdict [OF b(1,2) _ assms(14-16), of g4 g6] b(3) [of pkt] assms(3,11,12) by auto
  then show ?thesis
    using assms(13,15) blocked_dropped [OF assms(8)]
    by (simp add: run_configured [OF assms(6,7,10,9)] pipeline_spec_def Let_def)
qed

text \<open>
  C4. Once \<^verbatim>\<open>block_ip\<close> has returned without an error for an IPv4 or IPv6 address, and the access-control stage is
  among those configured, the ingress programs drop every frame that they parse, whose source bytes on the wire
  are that address and which no whitelist entry (for its source or its destination) admits: on either byte order of the
  host, whatever its ports, protocol and payload, whatever the other lists hold, wherever in the chain the stage
  stands. (A frame the parser refuses, and one a whitelist entry admits, is passed on.)
\<close>

theorem blocked_address_is_dropped:
  assumes "acl_kernel A" "wf_acl ac" "\<not> admits A ac pkt"
    and "block_ip A ip ac = Inr ac'" "parse_ip_addr ip = Some addr"
    and "ingress_object B" "distinct sts" "AclStage \<in> set sts" "length sts < n"
    and "configure_ingress_pipeline B (map stage_name sts) = Inr (PA, NS)"
    and "acl E = kernel_acl ac' g4 g6" "ne (plat E) = acl_ne A"
    and "PARSED_PACKET s = Some target" "wf_packet target"
    and "parse_packet (plat E) (frame ctx) target = Some (True, pkt)" "frame_from (frame ctx) pkt addr"
  shows "\<exists>s'. run_prog (configured E PA NS) ctx n NetGuardia s = Some (XDP_DROP, s')"
  using assms by (rule block_ip_drops)

text \<open>Concrete inputs: empty lists of the full capacity, and the sample frame from 192.0.2.1.\<close>

definition empty_lists :: access_control_lists where
  "empty_lists =
     \<lparr>ipv4_src_whitelist = Some Map.empty, ipv4_src_blacklist = Some Map.empty, ipv4_dst_whitelist = Some Map.empty,
      ipv4_dst_blacklist = Some Map.empty, ipv6_src_whitelist = Some Map.empty, ipv6_src_blacklist = Some Map.empty,
      ipv6_dst_whitelist = Some Map.empty, ipv6_dst_blacklist = Some Map.empty\<rparr>"

lemma empty_lists_simps [simp]:
  "ipv4_list d t empty_lists = Some Map.empty" "ipv6_list d t empty_lists = Some Map.empty"
  "wf_acl empty_lists" "\<not> admits A empty_lists pkt" "listed_v4 A empty_lists d t = {}"
proof -
  show l: "ipv4_list d t empty_lists = Some Map.empty" "ipv6_list d t empty_lists = Some Map.empty" for d t
    by (cases d; cases t; simp add: ipv4_list_def ipv6_list_def empty_lists_def)+
  then show "wf_acl empty_lists" "\<not> admits A empty_lists pkt" "listed_v4 A empty_lists d t = {}"
    by (simp_all add: wf_acl_def admits_def listed_v4_def listed_v6_def rule_hit_def)
qed

lemma block_empty_lists: "\<exists>ac'. block_ip (capped_api e) (show_ipv4 a) empty_lists = Inr ac'"
  by (simp add: block_ip_def parse_ip_def add_ipv4_list_def map_wrapper_add_def capped_api_def cap_insert_def
      MAX_RULES_def Let_def)

lemma to_be_bytes_4:
  "to_be_bytes 4 (w :: u32) = map word_of_nat [unat w div 16777216, unat w div 65536, unat w div 256, unat w]"
proof -
  have four: "(4 :: nat) = Suc (Suc (Suc (Suc 0)))" by simp
  show ?thesis
    unfolding to_be_bytes_def four by (simp add: div_mult2_eq [of _ 256 256, simplified] div_mult2_eq [of _ 65536 256, simplified])
qed

lemma wf_zeroed: "wf_packet zeroed_packet"
  by (simp add: wf_packet_def zeroed_packet_def)

lemma sample_frame_from: "frame_from sample_frame sample_packet (IpV4 3221225985)"
proof -
  have "take 4 (drop 26 sample_frame) = [192, 0, 2, 1]"
    by (simp add: sample_frame_def ipv4_frame_def)
  moreover have "to_be_bytes 4 (3221225985 :: u32) = [192, 0, 2, 1]"
    by (simp add: to_be_bytes_4)
  ultimately show ?thesis by (simp add: frame_from_def sample_packet_def)
qed

theorem blocked_address_is_dropped_witness:
  "\<exists>ac' PA NS s'. block_ip (capped_api LittleEndian) (show_ipv4 3221225985) empty_lists = Inr ac'
    \<and> configure_ingress_pipeline ingress_elf (map stage_name [AclStage, RateStage, ServiceStage]) = Inr (PA, NS)
    \<and> run_prog (configured (quiet_env\<lparr>acl := kernel_acl ac' (\<lambda>_ _. None) (\<lambda>_ _. None)\<rparr>) PA NS) sample_ctx 33 NetGuardia boot_state
        = Some (XDP_DROP, s')"
proof -
  obtain PA NS where c: "configure_ingress_pipeline ingress_elf (map stage_name [AclStage, RateStage, ServiceStage]) = Inr (PA, NS)"
    using default_configured by blast
  obtain ac' where b: "block_ip (capped_api LittleEndian) (show_ipv4 3221225985) empty_lists = Inr ac'"
    using block_empty_lists by blast
  have "\<exists>s'. run_prog (configured (quiet_env\<lparr>acl := kernel_acl ac' (\<lambda>_ _. None) (\<lambda>_ _. None)\<rparr>) PA NS) sample_ctx 33 NetGuardia boot_state
        = Some (XDP_DROP, s')"
    by (rule blocked_address_is_dropped [OF capped_acl.acl_kernel_axioms [of LittleEndian] _ _ b _
          elf.ingress_object_axioms _ _ _ c, where target = zeroed_packet and pkt = sample_packet
            and addr = "IpV4 3221225985"])
      (simp_all add: sample_parse sample_frame_from capped_api_def wf_zeroed)
  with b c show ?thesis by blast
qed

end
