(* ===== verification/Soar_Engine.thy ===== *)
theory Soar_Engine
  imports Playbook_Matcher Playbook_Store Block_Store Ip_Blocking
begin

text \<open>
  The response engine (\<^verbatim>\<open>core/response/engine\<close>, \<^verbatim>\<open>core/response/actions.rs\<close>): loading the playbooks, and
  carrying out the actions of those an event sets off. Its state is the kernel's lists, the tables of the
  database, the matcher and the rate-limit task. What lies outside is an environment: the kernel's maps,
  the notification services, the date arithmetic of \<^verbatim>\<open>chrono\<close>, and which of the calls to the database
  succeed, by their number. The clock and the configuration are those of one handled event.
\<close>

section \<open>State and environment\<close>

record alert_payload =
  al_source_ip :: string
  al_dest_ip :: string
  al_country :: "string option"
  al_threat_type :: string
  al_confidence :: flt
  al_action_description :: string
  al_timestamp :: int

datatype action_message =
    MonitorBlockSkipped string
  | MonitorRateSkipped
  | BlockedIp string u64
  | RateAdjusted adjust_message
  | TelegramSent
  | TelegramNotConfigured
  | EmailSent
  | NoRecipient
  | SmtpNotConfigured
  | WebhookSent string u16
  | Logged string

datatype outgoing =
    Alert alert_payload
  | Mail string string threat_event
  | Hook string u64 threat_event

record soar_execution =
  ex_playbook_id :: int
  ex_source_ip :: "string option"
  ex_trigger_event :: string
  ex_actions :: "(action_type \<times> (error, action_message) result) list"

record soar_state =
  ss_kernel :: access_control_lists
  ss_db :: database
  ss_tables :: playbook_tables
  ss_whitelist :: "string list"
  ss_executions :: "soar_execution list"
  ss_matcher :: matcher
  ss_owner :: "owner option"
  ss_enforce_level :: u8
  ss_sent :: "outgoing list"
  ss_calls :: nat

record soar_env =
  se_acl :: acl_api
  se_rl :: "nat \<Rightarrow> bool"
  se_owner_alive :: bool
  se_sel :: selector
  se_pj :: "string \<Rightarrow> json option"
  se_cfg :: soar_config
  se_db :: "nat \<Rightarrow> bool"
  se_now :: instant
  se_utc :: int
  se_try_seconds :: "u64 \<Rightarrow> bool"
  se_utc_add :: "int \<Rightarrow> u64 \<Rightarrow> int option"
  se_notifier :: "(alert_payload \<Rightarrow> (error, unit) result) option"
  se_country :: "ip_addr \<Rightarrow> string option"
  se_smtp :: "(error, (string \<Rightarrow> (error, unit) result) option) result"
  se_recipient :: string
  se_webhook :: "string \<Rightarrow> u64 \<Rightarrow> threat_event \<Rightarrow> (error, u16) result"

definition ENFORCE_LEVEL_MONITOR :: u8 where "ENFORCE_LEVEL_MONITOR = 0"
definition ENFORCE_LEVEL_ML_ONLY :: u8 where "ENFORCE_LEVEL_ML_ONLY = 1"
definition ENFORCE_LEVEL_ENFORCE :: u8 where "ENFORCE_LEVEL_ENFORCE = 2"
definition FALLBACK_PLAYBOOK_ID :: int where "FALLBACK_PLAYBOOK_ID = - 1"

section \<open>Calls to the database and the kernel\<close>

definition db_query :: "soar_env \<Rightarrow> (bool \<Rightarrow> (error, 'a) result) \<Rightarrow> soar_state \<Rightarrow> (error, 'a) result \<times> soar_state" where
  "db_query E f s = (f (se_db E (ss_calls s)), s\<lparr>ss_calls := Suc (ss_calls s)\<rparr>)"

definition db_update :: "soar_env \<Rightarrow> (bool \<Rightarrow> database \<Rightarrow> (error, database) result) \<Rightarrow> soar_state \<Rightarrow> (error, unit) result \<times> soar_state" where
  "db_update E f s =
     (let s' = s\<lparr>ss_calls := Suc (ss_calls s)\<rparr>
      in case f (se_db E (ss_calls s)) (ss_db s) of Inl e \<Rightarrow> (Inl e, s') | Inr db \<Rightarrow> (Inr (), s'\<lparr>ss_db := db\<rparr>))"

definition block_ip_blocking :: "soar_env \<Rightarrow> string \<Rightarrow> soar_state \<Rightarrow> (error, unit) result \<times> soar_state" where
  "block_ip_blocking E ip s =
     (case block_ip (se_acl E) ip (ss_kernel s) of
        Inl e \<Rightarrow> (Inl (Ebpf e), s)
      | Inr ac \<Rightarrow> (Inr (), s\<lparr>ss_kernel := ac\<rparr>))"

definition unblock_ip_blocking :: "soar_env \<Rightarrow> string \<Rightarrow> soar_state \<Rightarrow> (error, unit) result \<times> soar_state" where
  "unblock_ip_blocking E ip s =
     (case unblock_ip (se_acl E) ip (ss_kernel s) of
        None \<Rightarrow> (Inl (Soar (ActionFailed ''unblock_ip'')), s)
      | Some (Inl e) \<Rightarrow> (Inl (Ebpf e), s)
      | Some (Inr ac) \<Rightarrow> (Inr (), s\<lparr>ss_kernel := ac\<rparr>))"

definition set_block_count :: "u32 \<Rightarrow> soar_state \<Rightarrow> soar_state" where
  "set_block_count n s = s\<lparr>ss_matcher := (ss_matcher s)\<lparr>pm_active_block_count := n\<rparr>\<rparr>"

text \<open>The loop that decrements the counter, where nothing interferes with it.\<close>

definition decrement_block_count :: "soar_state \<Rightarrow> soar_state" where
  "decrement_block_count s =
     (let current = pm_active_block_count (ss_matcher s) in if current = 0 then s else set_block_count (current - 1) s)"

section \<open>Loading the playbooks\<close>

fun load_actions :: "action_view list \<Rightarrow> (error, playbook_action list) result" where
  "load_actions [] = Inr []"
| "load_actions (a # as) =
     and_then (map_err Soar (action_type_from_str (av_action_type a))) (\<lambda>t.
     and_then (load_actions as) (\<lambda>rest.
       Inr (\<lparr>pa_action_order = av_action_order a, pa_action_type = t, pa_params = parse_action_params (av_params a)\<rparr> # rest)))"

fun load_conditions :: "condition_view list \<Rightarrow> (error, playbook_condition list) result" where
  "load_conditions [] = Inr []"
| "load_conditions (c # cs) =
     and_then (map_err Soar (condition_type_from_str (cv_condition_type c))) (\<lambda>t.
       if \<not> is_valid_operator t (cv_operator c)
       then Inl (Soar (InvalidConditionOperator (cv_condition_type c) (cv_operator c)))
       else and_then (load_conditions cs) (\<lambda>rest.
         Inr (\<lparr>pc_condition_type = t, pc_operator = cv_operator c, pc_value = cv_value c, pc_value2 = cv_value2 c\<rparr> # rest)))"

text \<open>A playbook with a trigger that is not a canonical attack type is left out.\<close>

fun load_playbooks :: "playbook_view list \<Rightarrow> (error, playbook list) result" where
  "load_playbooks [] = Inr []"
| "load_playbooks (v # vs) =
     and_then (load_actions (pv_actions v)) (\<lambda>actions.
     and_then (load_conditions (pv_conditions v)) (\<lambda>conditions.
       case canonical_from_str (pv_trigger_event v) of
         None \<Rightarrow> load_playbooks vs
       | Some trigger_event \<Rightarrow>
           and_then (load_playbooks vs) (\<lambda>rest.
             Inr (\<lparr>pb_id = pv_id v, pb_name = pv_name v, pb_enabled = pv_enabled v, pb_trigger_event = trigger_event,
                   pb_cooldown_secs = pv_cooldown_secs v, pb_actions = actions, pb_conditions = conditions\<rparr> # rest))))"

definition list_admin_whitelist :: "bool \<Rightarrow> string list \<Rightarrow> (error, string list) result" where
  "list_admin_whitelist ok rows = (if \<not> ok then Inl store_error else Inr rows)"

definition reload_cache :: "soar_env \<Rightarrow> soar_state \<Rightarrow> (error, unit) result \<times> soar_state" where
  "reload_cache E s =
     try_then (db_query E (\<lambda>ok. list_playbooks ok (se_pj E) (ss_tables s)) s) (\<lambda>views s.
     try_then (load_playbooks views, s) (\<lambda>playbooks s.
     let s = s\<lparr>ss_matcher := (ss_matcher s)\<lparr>pm_playbooks := playbooks\<rparr>\<rparr>
     in try_then (db_query E (\<lambda>ok. list_admin_whitelist ok (ss_whitelist s)) s) (\<lambda>whitelist s.
     let s = s\<lparr>ss_matcher := (ss_matcher s)\<lparr>pm_admin_whitelist := set whitelist\<rparr>\<rparr>
     in try_then (db_query E (\<lambda>ok. count_active_soar_blocks ok (se_utc E) (ss_db s)) s) (\<lambda>n s.
       (Inr (), set_block_count (word_of_nat n) s)))))"

definition SoarEngine_new :: "soar_env \<Rightarrow> soar_state \<Rightarrow> (error, unit) result \<times> soar_state" where
  "SoarEngine_new E s =
     (let cfg = se_cfg E
      in reload_cache E (s\<lparr>ss_matcher := PlaybookMatcher_new (frequency_max_tracked_keys cfg) (frequency_max_events_per_key cfg)
                                          (frequency_retention_secs cfg)\<rparr>))"

section \<open>Actions\<close>

definition is_enforce_mode :: "soar_state \<Rightarrow> bool" where
  "is_enforce_mode s \<longleftrightarrow> ss_enforce_level s = ENFORCE_LEVEL_ENFORCE"

definition validate_action_ttl :: "soar_env \<Rightarrow> u64 \<Rightarrow> u64 \<Rightarrow> (error, unit) result" where
  "validate_action_ttl E ttl_secs max_ttl =
     (if ttl_secs = 0 then Inl (Soar (InvalidTtlNonPositive ttl_secs))
      else if ttl_secs > max_ttl then Inl (Soar (InvalidTtl ttl_secs max_ttl))
      else if unat ttl_secs \<ge> 2 ^ 63 then Inl (Soar (TtlTooLarge ttl_secs))
      else if \<not> se_try_seconds E ttl_secs then Inl (Soar (TtlTooLarge ttl_secs))
      else if instant_checked_add (se_now E) ttl_secs = None then Inl (Soar (TtlTooLarge ttl_secs))
      else Inr ())"

text \<open>The expiry, as the number the stored text stands for.\<close>

definition block_expiry :: "soar_env \<Rightarrow> u64 \<Rightarrow> (error, int) result" where
  "block_expiry E ttl_secs =
     (if unat ttl_secs \<ge> 2 ^ 63 then Inl (Soar (TtlTooLarge ttl_secs))
      else if \<not> se_try_seconds E ttl_secs then Inl (Soar (TtlTooLarge ttl_secs))
      else ok_or (se_utc_add E (se_utc E) ttl_secs) (Soar (TtlTooLarge ttl_secs)))"

text \<open>Where the commit fails: take the block back, or queue that for later, and give the reservation back.\<close>

definition undo_block :: "soar_env \<Rightarrow> string \<Rightarrow> error \<Rightarrow> soar_state \<Rightarrow> (error, action_message) result \<times> soar_state" where
  "undo_block E ip e s =
     (case unblock_ip_blocking E ip s of
        (Inr _, s) \<Rightarrow> (Inl e, decrement_block_count s)
      | (Inl _, s) \<Rightarrow>
          (case db_update E (\<lambda>ok db. map_sum id snd (insert_pending_unblock ok ip db)) s of
             (_, s) \<Rightarrow> (Inl e, decrement_block_count s)))"

definition action_block_ip :: "soar_env \<Rightarrow> playbook_action \<Rightarrow> threat_event \<Rightarrow> int \<Rightarrow> soar_state \<Rightarrow> (error, action_message) result \<times> soar_state" where
  "action_block_ip E action event playbook_id s =
     (let cfg = se_cfg E; ip = te_source_ip event;
          ttl_secs = (case ap_ttl_secs (pa_params action) of Some t \<Rightarrow> t | None \<Rightarrow> default_block_ttl_secs cfg);
          current_count = pm_active_block_count (ss_matcher s)
      in try_then (validate_action_ttl E ttl_secs (max_ttl_secs cfg), s) (\<lambda>_ s.
         if current_count \<ge> max_auto_block_cap cfg then (Inl (Soar (CapReached (max_auto_block_cap cfg))), s)
         else
           let s = set_block_count (current_count + 1) s
           in case block_ip_blocking E ip s of
                (Inl e, s) \<Rightarrow> (Inl e, decrement_block_count s)
              | (Inr _, s) \<Rightarrow>
                  try_then (block_expiry E ttl_secs, s) (\<lambda>expires s.
                  try_then (map_err Ebpf (ip_version_from_str ip), s) (\<lambda>ip_version s.
                  case db_update E (\<lambda>ok db. map_sum id snd (commit_soar_block_to_db ok (se_utc E) ip ip_version playbook_id expires db)) s of
                    (Inl e, s) \<Rightarrow> undo_block E ip e s
                  | (Inr _, s) \<Rightarrow> (Inr (BlockedIp ip ttl_secs), s)))))"

definition action_adjust_rate_limit :: "soar_env \<Rightarrow> playbook_action \<Rightarrow> threat_event \<Rightarrow> soar_state \<Rightarrow> (error, action_message) result \<times> soar_state" where
  "action_adjust_rate_limit E action event s =
     (case ss_owner s of
        None \<Rightarrow> (Inl (Soar RateLimitUnavailable), s)
      | Some ow \<Rightarrow>
          let cfg = se_cfg E;
              factor = (case ap_factor (pa_params action) of Some x \<Rightarrow> x | None \<Rightarrow> default_rate_limit_factor cfg);
              ttl_secs = (case ap_ttl_secs (pa_params action) of Some t \<Rightarrow> t | None \<Rightarrow> default_rate_limit_ttl_secs cfg)
          in if \<not> factor_in_range factor then (Inl (Soar (InvalidRateLimitFactor factor)), s)
             else try_then (validate_action_ttl E ttl_secs (max_ttl_secs cfg), s) (\<lambda>_ s.
               case owner_adjust (se_rl E) (se_owner_alive E) (se_now E) factor ttl_secs (te_source_ip event) (te_attack_type event) ow of
                 (Inl e, ow) \<Rightarrow> (Inl e, s\<lparr>ss_owner := Some ow\<rparr>)
               | (Inr msg, ow) \<Rightarrow> (Inr (RateAdjusted msg), s\<lparr>ss_owner := Some ow\<rparr>)))"

definition action_send_telegram :: "soar_env \<Rightarrow> threat_event \<Rightarrow> soar_state \<Rightarrow> (error, action_message) result \<times> soar_state" where
  "action_send_telegram E event s =
     (case se_notifier E of
        None \<Rightarrow> (Inr TelegramNotConfigured, s)
      | Some send \<Rightarrow>
          let payload = \<lparr>al_source_ip = te_source_ip event, al_dest_ip = te_dest_ip event,
                al_country = Option.bind (parse_ip_addr (te_source_ip event)) (se_country E), al_threat_type = te_attack_type event,
                al_confidence = te_confidence event, 
                al_action_description = ''SOAR auto-response triggered (hits: '' @ show_nat (unat (te_flow_count event))
                  @ (if te_is_repeat_offender event then '' [REPEAT]'' else []) @ '')'',
                al_timestamp = se_utc E\<rparr>
          in try_then (send payload, s\<lparr>ss_sent := ss_sent s @ [Alert payload]\<rparr>) (\<lambda>_ s. (Inr TelegramSent, s)))"

definition action_send_email :: "soar_env \<Rightarrow> threat_event \<Rightarrow> soar_state \<Rightarrow> (error, action_message) result \<times> soar_state" where
  "action_send_email E event s =
     try_then (se_smtp E, s) (\<lambda>smtp s.
       case smtp of
         None \<Rightarrow> (Inr SmtpNotConfigured, s)
       | Some send \<Rightarrow>
           if se_recipient E = [] then (Inr NoRecipient, s)
           else try_then (send (se_recipient E), s\<lparr>ss_sent := ss_sent s @ [Mail (se_recipient E) (''[NetGuardia] Threat Alert: '' @ te_attack_type event @ '' from '' @ te_source_ip event) event]\<rparr>)
                  (\<lambda>_ s. (Inr EmailSent, s)))"

definition action_webhook :: "soar_env \<Rightarrow> playbook_action \<Rightarrow> threat_event \<Rightarrow> soar_state \<Rightarrow> (error, action_message) result \<times> soar_state" where
  "action_webhook E action event s =
     (case ap_url (pa_params action) of
        None \<Rightarrow> (Inl (Soar (WebhookMissingParam ''url'')), s)
      | Some url \<Rightarrow>
          let timeout_secs = (case ap_timeout_secs (pa_params action) of Some t \<Rightarrow> t | None \<Rightarrow> default_webhook_timeout_secs (se_cfg E))
          in try_then (se_webhook E url timeout_secs event, s\<lparr>ss_sent := ss_sent s @ [Hook url timeout_secs event]\<rparr>) (\<lambda>status s.
               if 200 \<le> status \<and> status < 300 then (Inr (WebhookSent url status), s)
               else (Inl (Soar (WebhookHttpStatus status)), s)))"

definition action_log :: "playbook_action \<Rightarrow> (error, action_message) result" where
  "action_log action = Inr (Logged (case ap_level (pa_params action) of Some level \<Rightarrow> level | None \<Rightarrow> ''warn''))"

definition execute_action :: "soar_env \<Rightarrow> playbook_action \<Rightarrow> threat_event \<Rightarrow> int \<Rightarrow> soar_state \<Rightarrow> (error, action_message) result \<times> soar_state" where
  "execute_action E action event playbook_id s =
     (case pa_action_type action of
        BlockIp \<Rightarrow>
          if \<not> is_enforce_mode s then (Inr (MonitorBlockSkipped (te_source_ip event)), s)
          else action_block_ip E action event playbook_id s
      | AdjustRateLimit \<Rightarrow>
          if \<not> is_enforce_mode s then (Inr MonitorRateSkipped, s) else action_adjust_rate_limit E action event s
      | SendTelegram \<Rightarrow> action_send_telegram E event s
      | SendEmail \<Rightarrow> action_send_email E event s
      | Webhook \<Rightarrow> action_webhook E action event s
      | LogAction \<Rightarrow> (action_log action, s))"

section \<open>Playbooks and the fallback\<close>

fun execute_actions ::
    "soar_env \<Rightarrow> playbook_action list \<Rightarrow> threat_event \<Rightarrow> int \<Rightarrow> soar_state
     \<Rightarrow> (action_type \<times> (error, action_message) result) list \<times> soar_state" where
  "execute_actions E [] event playbook_id s = ([], s)"
| "execute_actions E (action # actions) event playbook_id s =
     (let (result, s) = execute_action E action event playbook_id s;
          (rest, s) = execute_actions E actions event playbook_id s
      in ((pa_action_type action, result) # rest, s))"

definition insert_soar_execution :: "soar_env \<Rightarrow> soar_execution \<Rightarrow> soar_state \<Rightarrow> (error, unit) result \<times> soar_state" where
  "insert_soar_execution E row s =
     (let s' = s\<lparr>ss_calls := Suc (ss_calls s)\<rparr>
      in if se_db E (ss_calls s) then (Inr (), s'\<lparr>ss_executions := ss_executions s @ [row]\<rparr>) else (Inl store_error, s'))"

definition execute_playbook :: "soar_env \<Rightarrow> playbook \<Rightarrow> threat_event \<Rightarrow> soar_state \<Rightarrow> (error, unit) result \<times> soar_state" where
  "execute_playbook E pb event s =
     (if is_cooldown_active (se_now E) (pb_id pb) (te_source_ip event) (pb_cooldown_secs pb) (ss_matcher s) then (Inr (), s)
      else if te_source_ip event \<in> pm_admin_whitelist (ss_matcher s) then (Inr (), s)
      else
        let (results, s) = execute_actions E (pb_actions pb) event (pb_id pb) s;
            s = s\<lparr>ss_matcher := record_cooldown (se_now E) (pb_id pb) (te_source_ip event) (ss_matcher s)\<rparr>
        in insert_soar_execution E
             \<lparr>ex_playbook_id = pb_id pb, ex_source_ip = Some (te_source_ip event), ex_trigger_event = te_attack_type event, ex_actions = results\<rparr> s)"

datatype fallback_outcome = FallbackBlocked | BlockFailed | WhitelistSkipped | CooldownSkipped

datatype threat_handle_outcome = PlaybooksExecuted nat nat | Fallback fallback_outcome | NoSourceIp

definition fallback_action :: "soar_config \<Rightarrow> playbook_action" where
  "fallback_action cfg =
     \<lparr>pa_action_order = 1, pa_action_type = BlockIp,
      pa_params = \<lparr>ap_ttl_secs = Some (default_block_ttl_secs cfg), ap_factor = None, ap_url = None, ap_timeout_secs = None, ap_level = None\<rparr>\<rparr>"

definition execute_fallback :: "soar_env \<Rightarrow> threat_event \<Rightarrow> soar_state \<Rightarrow> (error, fallback_outcome) result \<times> soar_state" where
  "execute_fallback E event s =
     (if te_source_ip event \<in> pm_admin_whitelist (ss_matcher s) then (Inr WhitelistSkipped, s)
      else if is_cooldown_active (se_now E) FALLBACK_PLAYBOOK_ID (te_source_ip event) (fallback_cooldown_secs (se_cfg E)) (ss_matcher s)
      then (Inr CooldownSkipped, s)
      else
        let (block_result, s) = execute_action E (fallback_action (se_cfg E)) event FALLBACK_PLAYBOOK_ID s;
            (outcome, s) = (if is_ok block_result
               then (FallbackBlocked, s\<lparr>ss_matcher := record_cooldown (se_now E) FALLBACK_PLAYBOOK_ID (te_source_ip event) (ss_matcher s)\<rparr>)
               else (BlockFailed, s))
        in try_then (insert_soar_execution E
             \<lparr>ex_playbook_id = FALLBACK_PLAYBOOK_ID, ex_source_ip = Some (te_source_ip event), ex_trigger_event = te_attack_type event,
              ex_actions = [(BlockIp, block_result)]\<rparr> s) (\<lambda>_ s. (Inr outcome, s)))"

fun execute_playbooks :: "soar_env \<Rightarrow> playbook list \<Rightarrow> threat_event \<Rightarrow> soar_state \<Rightarrow> nat \<times> soar_state" where
  "execute_playbooks E [] event s = (0, s)"
| "execute_playbooks E (pb # pbs) event s =
     (let (result, s) = execute_playbook E pb event s; (errors, s) = execute_playbooks E pbs event s
      in (if is_ok result then errors else Suc errors, s))"

definition handle_threat_event :: "soar_env \<Rightarrow> threat_event \<Rightarrow> soar_state \<Rightarrow> (error, threat_handle_outcome) result \<times> soar_state" where
  "handle_threat_event E event s =
     (let (matching, m) = find_matching_playbooks (se_sel E) (se_cfg E) (se_now E) event (ss_matcher s);
          s = s\<lparr>ss_matcher := m\<rparr>
      in if matching = [] then
           if te_source_ip event \<noteq> [] then try_then (execute_fallback E event s) (\<lambda>outcome s. (Inr (Fallback outcome), s))
           else (Inr NoSourceIp, s)
         else let (errors, s) = execute_playbooks E matching event s in (Inr (PlaybooksExecuted (length matching) errors), s))"

section \<open>Recovery after a restart\<close>

text \<open>The errors of the three statements below are only logged.\<close>

fun retry_pending_loop :: "soar_env \<Rightarrow> pending_unblock list \<Rightarrow> soar_state \<Rightarrow> soar_state" where
  "retry_pending_loop E [] s = s"
| "retry_pending_loop E (pu # pus) s =
     (if pu_exhausted_at pu \<noteq> None then retry_pending_loop E pus s
      else if pu_retry_count pu \<ge> max_pending_unblock_retries (se_cfg E) then
        retry_pending_loop E pus (snd (db_update E (\<lambda>ok db. mark_pending_unblock_exhausted ok (se_utc E) (pu_id pu) ''max retries exceeded'' db) s))
      else case unblock_ip_blocking E (pu_source_ip pu) s of
             (Inr _, s) \<Rightarrow> retry_pending_loop E pus (snd (db_update E (\<lambda>ok db. delete_pending_unblock ok (pu_id pu) db) s))
           | (Inl _, s) \<Rightarrow> retry_pending_loop E pus (snd (db_update E (\<lambda>ok db. increment_pending_unblock_retry ok (pu_id pu) db) s)))"

definition retry_pending_unblocks :: "soar_env \<Rightarrow> soar_state \<Rightarrow> soar_state" where
  "retry_pending_unblocks E s =
     (case db_query E (\<lambda>ok. list_pending_unblocks ok (ss_db s)) s of
        (Inl _, s) \<Rightarrow> s
      | (Inr pending, s) \<Rightarrow> retry_pending_loop E pending s)"

fun reblock :: "soar_env \<Rightarrow> active_block_view list \<Rightarrow> soar_state \<Rightarrow> soar_state" where
  "reblock E [] s = s"
| "reblock E (b # bs) s = reblock E bs (snd (block_ip_blocking E (ab_source_ip b) s))"

definition recover_active_blocks :: "soar_env \<Rightarrow> soar_state \<Rightarrow> (error, unit) result \<times> soar_state" where
  "recover_active_blocks E s =
     (let s = retry_pending_unblocks E s
      in try_then (db_query E (\<lambda>ok. list_active_soar_blocks ok (se_utc E) (ss_db s)) s) (\<lambda>blocks s. (Inr (), reblock E blocks s)))"

definition check_rate_limit_restoration :: "soar_env \<Rightarrow> soar_state \<Rightarrow> (error, restore_outcome option) result \<times> soar_state" where
  "check_rate_limit_restoration E s =
     (case ss_owner s of
        None \<Rightarrow> (Inr None, s)
      | Some ow \<Rightarrow>
          (case restore_if_expired (se_rl E) (se_owner_alive E) (se_now E) ow of
             (Inl e, ow) \<Rightarrow> (Inl e, s\<lparr>ss_owner := Some ow\<rparr>)
           | (Inr r, ow) \<Rightarrow> (Inr (Some r), s\<lparr>ss_owner := Some ow\<rparr>)))"

end
