(* ===== verification/Soar_Properties.thy ===== *)
theory Soar_Properties
  imports Soar_Engine
begin

text \<open>
  What the response engine guarantees of an event it handles: whom it never touches, what a block that
  is reported has done, and what is left of one that failed.
\<close>

section \<open>What an action may change\<close>

text \<open>The part of the state that enforcement acts on.\<close>

definition enforcement :: "soar_state \<Rightarrow> access_control_lists \<times> database \<times> owner option \<times> u32" where
  "enforcement s = (ss_kernel s, ss_db s, ss_owner s, pm_active_block_count (ss_matcher s))"

lemma try_then_state: "snd (try_then (r, s) f) = (case r of Inl _ \<Rightarrow> s | Inr x \<Rightarrow> snd (f x s))"
  by (cases r) simp_all

lemma execute_action_monitor:
  assumes "\<not> is_enforce_mode s" "execute_action E action event pid s = (r, s')"
  shows "enforcement s' = enforcement s \<and> ss_matcher s' = ss_matcher s \<and> ss_enforce_level s' = ss_enforce_level s"
  using assms
  by (auto simp: execute_action_def action_send_telegram_def action_send_email_def action_webhook_def try_then_def enforcement_def Let_def
      split: action_type.splits option.splits sum.splits if_splits)

lemma execute_actions_monitor:
  assumes "\<not> is_enforce_mode s" "execute_actions E actions event pid s = (r, s')"
  shows "enforcement s' = enforcement s \<and> ss_matcher s' = ss_matcher s \<and> ss_enforce_level s' = ss_enforce_level s"
  using assms
proof (induction actions arbitrary: s r s')
  case (Cons a as)
  obtain r1 s1 where 1: "execute_action E a event pid s = (r1, s1)" by fastforce
  obtain r2 s2 where 2: "execute_actions E as event pid s1 = (r2, s2)" by fastforce
  have "s' = s2" using Cons.prems(2) 1 2 by simp
  moreover have "\<not> is_enforce_mode s1" using execute_action_monitor [OF Cons.prems(1) 1] Cons.prems(1) by (simp add: is_enforce_mode_def)
  ultimately show ?case using Cons.IH [OF _ 2] execute_action_monitor [OF Cons.prems(1) 1] by simp
qed simp

lemma insert_execution_enforcement [simp]:
  "enforcement (snd (insert_soar_execution E row s)) = enforcement s"
  "ss_matcher (snd (insert_soar_execution E row s)) = ss_matcher s"
  "ss_enforce_level (snd (insert_soar_execution E row s)) = ss_enforce_level s"
  by (simp_all add: insert_soar_execution_def enforcement_def Let_def)

lemma record_cooldown_simps [simp]:
  "pm_active_block_count (record_cooldown now pid ip m) = pm_active_block_count m"
  "pm_admin_whitelist (record_cooldown now pid ip m) = pm_admin_whitelist m"
  "pm_playbooks (record_cooldown now pid ip m) = pm_playbooks m"
  by (simp_all add: record_cooldown_def)

lemma execute_playbook_monitor:
  assumes "\<not> is_enforce_mode s"
  shows "enforcement (snd (execute_playbook E pb event s)) = enforcement s
    \<and> ss_enforce_level (snd (execute_playbook E pb event s)) = ss_enforce_level s"
proof -
  obtain r s1 where 1: "execute_actions E (pb_actions pb) event (pb_id pb) s = (r, s1)" by fastforce
  from execute_actions_monitor [OF assms 1] show ?thesis
    by (auto simp: execute_playbook_def 1 Let_def) (auto simp: enforcement_def)
qed

lemma execute_playbooks_monitor:
  assumes "\<not> is_enforce_mode s"
  shows "enforcement (snd (execute_playbooks E pbs event s)) = enforcement s"
  using assms
proof (induction pbs arbitrary: s)
  case (Cons pb pbs)
  from execute_playbook_monitor [OF Cons.prems, of E pb event] Cons show ?case
    by (auto simp: Let_def is_enforce_mode_def case_prod_unfold)
qed simp

lemma execute_fallback_monitor:
  assumes "\<not> is_enforce_mode s"
  shows "enforcement (snd (execute_fallback E event s)) = enforcement s"
proof -
  have "execute_action E (fallback_action (se_cfg E)) event pid s = (Inr (MonitorBlockSkipped (te_source_ip event)), s)" for pid
    using assms by (simp add: execute_action_def fallback_action_def)
  moreover have "snd (try_then (insert_soar_execution E row s) (\<lambda>_ s. (Inr x, s))) = snd (insert_soar_execution E row s)" for row s and x :: fallback_outcome
    by (cases "insert_soar_execution E row s"; cases "fst (insert_soar_execution E row s)") (auto simp: try_then_def)
  ultimately show ?thesis by (simp add: execute_fallback_def Let_def) (simp add: enforcement_def)
qed

text \<open>Matching changes only the history of the frequency conditions.\<close>

lemma match_playbooks_keeps:
  "match_playbooks sel cfg now event pbs m = (r, m') \<Longrightarrow>
   pm_admin_whitelist m' = pm_admin_whitelist m \<and> pm_active_block_count m' = pm_active_block_count m \<and> pm_cooldowns m' = pm_cooldowns m
   \<and> pm_playbooks m' = pm_playbooks m"
proof (induction pbs arbitrary: m r m')
  case (Cons pb pbs)
  have c: "pm_admin_whitelist m1 = pm_admin_whitelist m \<and> pm_active_block_count m1 = pm_active_block_count m
      \<and> pm_cooldowns m1 = pm_cooldowns m \<and> pm_playbooks m1 = pm_playbooks m"
    if "evaluate_conditions sel cfg now pb event m = (b, m1)" for b m1
    using that evaluate_pass_keeps
    by (fastforce simp: evaluate_conditions_def split: if_splits prod.splits bool.splits)
  show ?case
  proof (cases "matches_trigger pb event")
    case True
    obtain b m1 where 1: "evaluate_conditions sel cfg now pb event m = (b, m1)" by fastforce
    obtain r2 m2 where 2: "match_playbooks sel cfg now event pbs m1 = (r2, m2)" by fastforce
    show ?thesis using Cons.prems True 1 2 c [OF 1] Cons.IH [OF 2] by (simp add: Let_def)
  qed (use Cons in simp)
qed simp

lemma find_matching_keeps:
  assumes "find_matching_playbooks sel cfg now event m = (pbs, m')"
  shows "pm_admin_whitelist m' = pm_admin_whitelist m" "pm_active_block_count m' = pm_active_block_count m" "pm_cooldowns m' = pm_cooldowns m"
  using match_playbooks_keeps [of sel cfg now event "pm_playbooks m" m] assms by (auto simp: find_matching_playbooks_def)

lemma handle_threat_event_state:
  assumes "find_matching_playbooks (se_sel E) (se_cfg E) (se_now E) event (ss_matcher s) = (pbs, m)"
  shows "snd (handle_threat_event E event s) =
    (if pbs = [] then if te_source_ip event \<noteq> [] then snd (execute_fallback E event (s\<lparr>ss_matcher := m\<rparr>)) else s\<lparr>ss_matcher := m\<rparr>
     else snd (execute_playbooks E pbs event (s\<lparr>ss_matcher := m\<rparr>)))"
  using assms by (auto simp: handle_threat_event_def Let_def try_then_def split: prod.splits sum.splits)

lemma execute_playbooks_whitelisted:
  assumes "te_source_ip event \<in> pm_admin_whitelist (ss_matcher s)"
  shows "execute_playbooks E pbs event s = (0, s)"
  using assms by (induction pbs) (simp_all add: execute_playbook_def)

section \<open>The block action\<close>

definition block_ttl :: "soar_env \<Rightarrow> playbook_action \<Rightarrow> u64" where
  "block_ttl E action = (case ap_ttl_secs (pa_params action) of Some t \<Rightarrow> t | None \<Rightarrow> default_block_ttl_secs (se_cfg E))"

definition block_count :: "soar_state \<Rightarrow> nat" where
  "block_count s = unat (pm_active_block_count (ss_matcher s))"

text \<open>The state in which the action calls the kernel.\<close>

definition reserved :: "soar_state \<Rightarrow> soar_state" where
  "reserved s = set_block_count (pm_active_block_count (ss_matcher s) + 1) s"

lemma reserved_simps [simp]:
  "ss_kernel (reserved s) = ss_kernel s" "ss_db (reserved s) = ss_db s" "ss_calls (reserved s) = ss_calls s"
  by (simp_all add: reserved_def set_block_count_def)

lemma block_count_reserved:
  assumes "\<not> pm_active_block_count (ss_matcher s) \<ge> cap"
  shows "block_count (reserved s) = block_count s + 1" "block_count (reserved s) \<le> unat cap" "decrement_block_count (reserved s) = s"
    "decrement_block_count (reserved s\<lparr>ss_kernel := ac, ss_calls := n\<rparr>) = s\<lparr>ss_kernel := ac, ss_calls := n\<rparr>"
proof -
  let ?c = "pm_active_block_count (ss_matcher s)"
  have lt: "unat ?c < unat cap" using assms by (simp add: word_le_nat_alt)
  moreover have "unat cap < 2 ^ 32" using unsigned_less [of cap] by simp
  ultimately have c: "unat (?c + 1) = unat ?c + 1" by (subst unat_word_ariths) simp
  then have nz: "?c + 1 \<noteq> 0" by (metis Suc_eq_plus1 nat.distinct(1) unat_0)
  show "block_count (reserved s) = block_count s + 1" "block_count (reserved s) \<le> unat cap"
    using lt c by (simp_all add: block_count_def reserved_def set_block_count_def)
  show "decrement_block_count (reserved s) = s"
    "decrement_block_count (reserved s\<lparr>ss_kernel := ac, ss_calls := n\<rparr>) = s\<lparr>ss_kernel := ac, ss_calls := n\<rparr>"
    using nz by (simp_all add: decrement_block_count_def reserved_def set_block_count_def Let_def)
qed

lemma action_block_ip_eq:
  "action_block_ip E action event pid s =
     (case validate_action_ttl E (block_ttl E action) (max_ttl_secs (se_cfg E)) of
        Inl e \<Rightarrow> (Inl e, s)
      | Inr _ \<Rightarrow>
          if pm_active_block_count (ss_matcher s) \<ge> max_auto_block_cap (se_cfg E)
          then (Inl (Soar (CapReached (max_auto_block_cap (se_cfg E)))), s)
          else case block_ip (se_acl E) (te_source_ip event) (ss_kernel s) of
                 Inl e \<Rightarrow> (Inl (Ebpf e), s)
               | Inr ac \<Rightarrow>
                   (let s1 = reserved s\<lparr>ss_kernel := ac\<rparr>
                    in case block_expiry E (block_ttl E action) of
                         Inl e \<Rightarrow> (Inl e, s1)
                       | Inr expires \<Rightarrow>
                           (case ip_version_from_str (te_source_ip event) of
                              Inl e \<Rightarrow> (Inl (Ebpf e), s1)
                            | Inr v \<Rightarrow>
                                (case db_update E (\<lambda>ok db. map_sum id snd
                                     (commit_soar_block_to_db ok (se_utc E) (te_source_ip event) v pid expires db)) s1 of
                                   (Inl e, s2) \<Rightarrow> undo_block E (te_source_ip event) e s2
                                 | (Inr _, s2) \<Rightarrow> (Inr (BlockedIp (te_source_ip event) (block_ttl E action)), s2)))))"
  using block_count_reserved(3) [of "max_auto_block_cap (se_cfg E)" s]
  unfolding action_block_ip_def Let_def block_ttl_def [symmetric] reserved_def [symmetric] block_ip_blocking_def try_then_def
  by (auto simp: reserved_def [symmetric] split: sum.splits)

lemma block_ip_parses: "block_ip A ip ac = Inr ac' \<Longrightarrow> \<exists>addr v. parse_ip_addr ip = Some addr \<and> ip_version_from_str ip = Inr v"
  by (cases "parse_ip_addr ip") (auto simp: block_ip_def parse_ip_def ip_version_from_str_def split: ip_addr.splits)

lemma undo_block_eq:
  assumes "acl_kernel (se_acl E)" "wf_acl (ss_kernel s)" "blocks (se_acl E) (ss_kernel s) addr" "parse_ip_addr ip = Some addr"
  shows "\<exists>ac. undo_block E ip e s = (Inl e, decrement_block_count (s\<lparr>ss_kernel := ac\<rparr>)) \<and> wf_acl ac \<and> unlisted (se_acl E) ac addr"
  using acl_kernel.unblock_ip_lifts [OF assms] by (auto simp: undo_block_def unblock_ip_blocking_def)

text \<open>What the action leaves where the database refuses the block.\<close>

lemma failed_commit:
  assumes "acl_kernel (se_acl E)" "wf_acl (ss_kernel s)" "\<not> pm_active_block_count (ss_matcher s) \<ge> cap"
    and "block_ip (se_acl E) ip (ss_kernel s) = Inr ac" "parse_ip_addr ip = Some addr"
    and "db_update E f (reserved s\<lparr>ss_kernel := ac\<rparr>) = (Inl e, s2)"
  shows "\<exists>ac'. undo_block E ip e s2 = (Inl e, s\<lparr>ss_kernel := ac', ss_calls := Suc (ss_calls s)\<rparr>) \<and> wf_acl ac' \<and> unlisted (se_acl E) ac' addr"
proof -
  note b = acl_kernel.block_ip_blocks [OF assms(1,2,4,5)]
  have s2: "s2 = reserved s\<lparr>ss_kernel := ac, ss_calls := Suc (ss_calls s)\<rparr>"
    using assms(6) by (auto simp: db_update_def Let_def split: sum.splits)
  then have k: "ss_kernel s2 = ac" by simp
  obtain ac' where "undo_block E ip e s2 = (Inl e, decrement_block_count (s2\<lparr>ss_kernel := ac'\<rparr>))" "wf_acl ac'" "unlisted (se_acl E) ac' addr"
    using undo_block_eq [OF assms(1) _ _ assms(5), of s2 e] b k by auto
  moreover have "s2\<lparr>ss_kernel := ac'\<rparr> = reserved s\<lparr>ss_kernel := ac', ss_calls := Suc (ss_calls s)\<rparr>" by (simp add: s2)
  ultimately show ?thesis using block_count_reserved(4) [OF assms(3), where ac = ac' and n = "Suc (ss_calls s)"] by auto
qed

lemma refused_block:
  assumes "acl_kernel (se_acl E)" "wf_acl (ss_kernel s)"
    and "parse_ip_addr (te_source_ip event) = Some addr" "block_ip (se_acl E) (te_source_ip event) (ss_kernel s) = Inr ac"
    and "validate_action_ttl E (block_ttl E action) (max_ttl_secs (se_cfg E)) = Inr ()"
    and "se_utc_add E (se_utc E) (block_ttl E action) \<noteq> None"
    and "pm_active_block_count (ss_matcher s) < max_auto_block_cap (se_cfg E)"
    and "\<not> se_db E (ss_calls s)"
  shows "\<exists>s'. action_block_ip E action event pid s = (Inl db_error, s') \<and> ss_db s' = ss_db s \<and> unlisted (se_acl E) (ss_kernel s') addr"
proof -
  let ?ip = "te_source_ip event" and ?ttl = "block_ttl E action"
  have cap: "\<not> pm_active_block_count (ss_matcher s) \<ge> max_auto_block_cap (se_cfg E)" using assms(7) by simp
  obtain v where v: "ip_version_from_str ?ip = Inr v" using block_ip_parses [OF assms(4)] by blast
  obtain expires where exp: "block_expiry E ?ttl = Inr expires"
    using assms(5,6) by (auto simp: block_expiry_def validate_action_ttl_def split: if_splits)
  have "db_update E (\<lambda>ok db. map_sum id snd (commit_soar_block_to_db ok (se_utc E) ?ip v pid expires db)) (reserved s\<lparr>ss_kernel := ac\<rparr>) =
      (Inl db_error, reserved s\<lparr>ss_kernel := ac, ss_calls := Suc (ss_calls s)\<rparr>)"
    using assms(8) by (simp add: db_update_def commit_soar_block_to_db_def)
  from failed_commit [OF assms(1,2) cap assms(4,3) this] this show ?thesis
    using cap by (auto simp: action_block_ip_eq assms(4,5) exp v Let_def)
qed

section \<open>A concrete engine\<close>

definition sample_env :: soar_env where
  "sample_env =
     \<lparr>se_acl = capped_api LittleEndian, se_rl = (\<lambda>_. True), se_owner_alive = True, se_sel = sort_select, se_pj = two_texts,
      se_cfg = SoarConfig_defaults, se_db = (\<lambda>_. True), se_now = 0, se_utc = 0, se_try_seconds = (\<lambda>_. True),
      se_utc_add = (\<lambda>t d. Some (t + int (unat d))), se_notifier = None, se_country = (\<lambda>_. None), se_smtp = Inr None,
      se_recipient = [], se_webhook = (\<lambda>_ _ _. Inr 200)\<rparr>"

definition sample_state :: soar_state where
  "sample_state =
     \<lparr>ss_kernel = empty_lists, ss_db = empty_db, ss_tables = no_tables, ss_whitelist = [], ss_executions = [],
      ss_matcher = PlaybookMatcher_new 8 8 300, ss_owner = None, ss_enforce_level = ENFORCE_LEVEL_ENFORCE, ss_sent = [], ss_calls = 0\<rparr>"

definition block_action :: playbook_action where
  "block_action = fallback_action SoarConfig_defaults"

lemma block_ttl_sample: "se_cfg E = SoarConfig_defaults \<Longrightarrow> block_ttl E block_action = 1800"
  by (simp add: block_ttl_def block_action_def fallback_action_def SoarConfig_defaults_def)

lemma sample_ttl_valid: "validate_action_ttl sample_env 1800 86400 = Inr ()" "validate_action_ttl (sample_env\<lparr>se_db := f\<rparr>) 1800 86400 = Inr ()"
  by (simp_all add: validate_action_ttl_def sample_env_def instant_checked_add_def)

lemma sample_event_ip [simp]: "te_source_ip sample_event = show_ipv4 3221225985" "ip_version_from_str (show_ipv4 a) = Inr V4"
  by (simp_all add: sample_event_def ip_version_from_str_def)

lemma unlisted_empty_lists [simp]: "unlisted A empty_lists addr"
  by (simp add: unlisted_def listed_v6_def rule_hit_def split: ip_addr.splits)

text \<open>The lists with the sample address on them, which a second block does not change.\<close>

definition blocked_lists :: access_control_lists where
  "blocked_lists = set_ipv4_list Source Black (Some [to_be LittleEndian 4 3221225985 \<mapsto> new_match_all]) empty_lists"

lemma sample_block_twice:
  "block_ip (capped_api LittleEndian) (show_ipv4 3221225985) empty_lists = Inr blocked_lists"
  "block_ip (capped_api LittleEndian) (show_ipv4 3221225985) blocked_lists = Inr blocked_lists"
proof -
  have w: "MAX_RULES > 1" by (simp add: MAX_RULES_def)
  show "block_ip (capped_api LittleEndian) (show_ipv4 3221225985) empty_lists = Inr blocked_lists"
    using w by (simp add: block_ip_def parse_ip_def add_ipv4_list_def map_wrapper_add_def capped_api_def cap_insert_def blocked_lists_def Let_def)
  show "block_ip (capped_api LittleEndian) (show_ipv4 3221225985) blocked_lists = Inr blocked_lists"
    using w by (simp add: block_ip_def parse_ip_def add_ipv4_list_def map_wrapper_add_def capped_api_def cap_insert_def blocked_lists_def Let_def)
      (simp add: set_ipv4_list_def)
qed

section \<open>Properties\<close>

text \<open>
  C10. An address on the administrator's whitelist is never acted upon: whatever the event, the playbooks
  it matches, the mode and the configuration, handling it changes neither the kernel's lists nor the
  tables, the rate limits or the count of blocks, sends nothing, and records no execution. Only the
  history of frequency conditions grows.
\<close>

theorem whitelisted_source_is_left_alone:
  assumes "te_source_ip event \<in> pm_admin_whitelist (ss_matcher s)"
  shows "\<exists>ft. snd (handle_threat_event E event s) = s\<lparr>ss_matcher := (ss_matcher s)\<lparr>pm_frequency_tracker := ft\<rparr>\<rparr>"
proof -
  obtain pbs m where m: "find_matching_playbooks (se_sel E) (se_cfg E) (se_now E) event (ss_matcher s) = (pbs, m)" by fastforce
  then have "match_playbooks (se_sel E) (se_cfg E) (se_now E) event (pm_playbooks (ss_matcher s)) (ss_matcher s) = (pbs, m)"
    by (simp add: find_matching_playbooks_def)
  from match_playbooks_keeps [OF this] have eq: "m = (ss_matcher s)\<lparr>pm_frequency_tracker := pm_frequency_tracker m\<rparr>" by simp
  have "te_source_ip event \<in> pm_admin_whitelist m" using assms find_matching_keeps [OF m] by simp
  then have "execute_fallback E event (s\<lparr>ss_matcher := m\<rparr>) = (Inr WhitelistSkipped, s\<lparr>ss_matcher := m\<rparr>)"
    "execute_playbooks E pbs event (s\<lparr>ss_matcher := m\<rparr>) = (0, s\<lparr>ss_matcher := m\<rparr>)"
    by (simp_all add: execute_fallback_def execute_playbooks_whitelisted)
  then have "snd (handle_threat_event E event s) = s\<lparr>ss_matcher := m\<rparr>" using handle_threat_event_state [OF m] by simp
  with eq show ?thesis by metis
qed

theorem whitelisted_source_is_left_alone_witness:
  "\<exists>ft. snd (handle_threat_event sample_env sample_event (sample_state\<lparr>ss_matcher := (ss_matcher sample_state)\<lparr>pm_admin_whitelist := {te_source_ip sample_event}\<rparr>\<rparr>)) =
     sample_state\<lparr>ss_matcher := (ss_matcher sample_state)\<lparr>pm_admin_whitelist := {te_source_ip sample_event}, pm_frequency_tracker := ft\<rparr>\<rparr>"
  using whitelisted_source_is_left_alone [of sample_event
    "sample_state\<lparr>ss_matcher := (ss_matcher sample_state)\<lparr>pm_admin_whitelist := {te_source_ip sample_event}\<rparr>\<rparr>" sample_env]
  by simp

text \<open>
  C11. Outside the enforcing mode nothing is enforced: in the monitoring and the detection-only mode
  handling an event, matched or not, leaves the kernel's lists, the block and rule tables, the rate limits
  and the count of blocks as they are. Notifications are still sent and executions recorded.
\<close>

theorem monitor_mode_enforces_nothing:
  assumes "ss_enforce_level s \<noteq> ENFORCE_LEVEL_ENFORCE"
  shows "enforcement (snd (handle_threat_event E event s)) = enforcement s"
proof -
  obtain pbs m where m: "find_matching_playbooks (se_sel E) (se_cfg E) (se_now E) event (ss_matcher s) = (pbs, m)" by fastforce
  have "enforcement (s\<lparr>ss_matcher := m\<rparr>) = enforcement s" using find_matching_keeps [OF m] by (simp add: enforcement_def)
  moreover have "\<not> is_enforce_mode (s\<lparr>ss_matcher := m\<rparr>)" using assms by (simp add: is_enforce_mode_def)
  ultimately show ?thesis
    using handle_threat_event_state [OF m] execute_playbooks_monitor execute_fallback_monitor by simp
qed

theorem monitor_mode_enforces_nothing_witness:
  "ss_kernel (snd (handle_threat_event sample_env sample_event (sample_state\<lparr>ss_enforce_level := ENFORCE_LEVEL_ML_ONLY\<rparr>))) = empty_lists"
  using monitor_mode_enforces_nothing [of "sample_state\<lparr>ss_enforce_level := ENFORCE_LEVEL_ML_ONLY\<rparr>" sample_env sample_event]
  by (simp add: enforcement_def sample_state_def ENFORCE_LEVEL_ML_ONLY_def ENFORCE_LEVEL_ENFORCE_def)

lemma block_reported:
  assumes "acl_kernel (se_acl E)" "wf_acl (ss_kernel s)"
    and "action_block_ip E action event pid s = (Inr msg, s')"
  shows "\<exists>addr v b. parse_ip_addr (te_source_ip event) = Some addr \<and> ip_version_from_str (te_source_ip event) = Inr v
    \<and> block_ip (se_acl E) (te_source_ip event) (ss_kernel s) = Inr (ss_kernel s')
    \<and> wf_acl (ss_kernel s') \<and> blocks (se_acl E) (ss_kernel s') addr
    \<and> soar_acl_row v (te_source_ip event) \<in> set (acl_rules (ss_db s'))
    \<and> b \<in> set (soar_block_rules (ss_db s')) \<and> sb_source_ip b = te_source_ip event \<and> sb_unblocked_at b = None
    \<and> se_utc_add E (se_utc E) (block_ttl E action) = Some (sb_expires_at b)
    \<and> 0 < block_ttl E action \<and> block_ttl E action \<le> max_ttl_secs (se_cfg E)
    \<and> block_count s' = block_count s + 1 \<and> block_count s' \<le> unat (max_auto_block_cap (se_cfg E))"
proof -
  let ?ip = "te_source_ip event" and ?ttl = "block_ttl E action" and ?cap = "max_auto_block_cap (se_cfg E)"
  have no_undo: "undo_block E ip e x \<noteq> (Inr m, y)" for ip e x m y by (simp add: undo_block_def split: prod.splits sum.splits)
  have ttl: "validate_action_ttl E ?ttl (max_ttl_secs (se_cfg E)) = Inr ()" and cap: "\<not> pm_active_block_count (ss_matcher s) \<ge> ?cap"
    using assms(3) by (auto simp: action_block_ip_eq split: sum.splits if_splits)
  then obtain ac expires v s2 where ac: "block_ip (se_acl E) ?ip (ss_kernel s) = Inr ac" and exp: "block_expiry E ?ttl = Inr expires"
      and v: "ip_version_from_str ?ip = Inr v"
      and db: "db_update E (\<lambda>ok db. map_sum id snd (commit_soar_block_to_db ok (se_utc E) ?ip v pid expires db)) (reserved s\<lparr>ss_kernel := ac\<rparr>) = (Inr (), s')"
    using assms(3) no_undo by (auto simp: action_block_ip_eq Let_def split: sum.splits prod.splits)
  obtain addr where addr: "parse_ip_addr ?ip = Some addr" using block_ip_parses [OF ac] by blast
  note b = acl_kernel.block_ip_blocks [OF assms(1,2) ac addr]
  obtain i db' where c: "commit_soar_block_to_db True (se_utc E) ?ip v pid expires (ss_db s) = Inr (i, db')"
      and s': "s' = reserved s\<lparr>ss_kernel := ac, ss_db := db', ss_calls := Suc (ss_calls s)\<rparr>"
    using db by (auto simp: db_update_def commit_soar_block_to_db_def Let_def split: sum.splits if_splits)
  from c have "soar_acl_row v ?ip \<in> set (acl_rules db')"
    and "\<exists>x\<in>set (soar_block_rules db'). sb_source_ip x = ?ip \<and> sb_unblocked_at x = None \<and> sb_expires_at x = expires"
    by (auto simp: commit_soar_block_to_db_def Let_def)
  moreover have "se_utc_add E (se_utc E) ?ttl = Some expires"
    using exp by (auto simp: block_expiry_def ok_or_Inr_iff split: if_splits)
  moreover have "0 < ?ttl" "?ttl \<le> max_ttl_secs (se_cfg E)"
    using ttl by (auto simp: validate_action_ttl_def word_neq_0_conv not_less split: if_splits)
  moreover have "block_count s' = block_count (reserved s)" by (simp add: s' block_count_def)
  ultimately show ?thesis using addr v ac b block_count_reserved(1,2) [OF cap] by (auto simp: s')
qed

text \<open>
  C7. A block that is reported is in force everywhere: when the block action succeeds, the source address
  parses, every packet from it is on the kernel's blacklist, the rule table holds its rule and the block
  table a block in force that expires the requested time from now; that time is between one second and the
  configured maximum, and the count of blocks has grown by one and is within the configured cap.
\<close>

theorem reported_block_is_in_force:
  assumes "acl_kernel (se_acl E)" "wf_acl (ss_kernel s)"
    and "action_block_ip E action event pid s = (Inr msg, s')"
  shows "\<exists>addr v b. parse_ip_addr (te_source_ip event) = Some addr \<and> ip_version_from_str (te_source_ip event) = Inr v
    \<and> wf_acl (ss_kernel s') \<and> blocks (se_acl E) (ss_kernel s') addr
    \<and> soar_acl_row v (te_source_ip event) \<in> set (acl_rules (ss_db s'))
    \<and> b \<in> set (soar_block_rules (ss_db s')) \<and> sb_source_ip b = te_source_ip event \<and> sb_unblocked_at b = None
    \<and> se_utc_add E (se_utc E) (block_ttl E action) = Some (sb_expires_at b)
    \<and> 0 < block_ttl E action \<and> block_ttl E action \<le> max_ttl_secs (se_cfg E)
    \<and> block_count s' = block_count s + 1 \<and> block_count s' \<le> unat (max_auto_block_cap (se_cfg E))"
  using block_reported [OF assms] by blast

theorem reported_block_is_in_force_witness:
  "\<exists>msg s' b. action_block_ip sample_env block_action sample_event 1 sample_state = (Inr msg, s')
    \<and> blocks (capped_api LittleEndian) (ss_kernel s') (IpV4 3221225985) \<and> b \<in> set (soar_block_rules (ss_db s')) \<and> sb_expires_at b = 1800"
proof -
  have "\<exists>msg s'. action_block_ip sample_env block_action sample_event 1 sample_state = (Inr msg, s')"
    using sample_ttl_valid(1) sample_block_twice(1)
    by (simp add: action_block_ip_eq sample_state_def block_ttl_sample sample_env_def PlaybookMatcher_new_def SoarConfig_defaults_def
        block_expiry_def db_update_def commit_soar_block_to_db_def Let_def)
  then obtain msg s' where r: "action_block_ip sample_env block_action sample_event 1 sample_state = (Inr msg, s')" by blast
  have k: "acl_kernel (se_acl sample_env)" by (simp add: sample_env_def capped_acl.acl_kernel_axioms)
  have w: "wf_acl (ss_kernel sample_state)" by (simp add: sample_state_def)
  have cfg: "block_ttl sample_env block_action = 1800" by (rule block_ttl_sample) (simp add: sample_env_def)
  from reported_block_is_in_force [OF k w r] r show ?thesis unfolding cfg by (auto simp: sample_env_def)
qed

text \<open>The kernel is asked only for a duration that is accepted, below the cap.\<close>

definition block_attempted :: "soar_env \<Rightarrow> playbook_action \<Rightarrow> threat_event \<Rightarrow> soar_state \<Rightarrow> access_control_lists \<Rightarrow> bool" where
  "block_attempted E action event s ac \<longleftrightarrow>
     validate_action_ttl E (block_ttl E action) (max_ttl_secs (se_cfg E)) = Inr ()
     \<and> pm_active_block_count (ss_matcher s) < max_auto_block_cap (se_cfg E)
     \<and> block_ip (se_acl E) (te_source_ip event) (ss_kernel s) = Inr ac"

text \<open>
  C38. What a block action that returns an error leaves behind, in every case. Where the duration is not accepted, the
  cap is reached or the kernel refuses the address (or it does not parse), nothing has changed. Where the kernel has
  taken the block and the commit to the database fails, the tables and the count of blocks are as before and the address
  is off the kernel's blacklist (also where an older block had put it there). Where the expiry of an accepted duration
  cannot be computed, the block is not undone: the address stays blocked and the count one higher, with no row in the
  tables that a sweep could find.
\<close>

theorem failed_block_outcome:
  assumes "acl_kernel (se_acl E)" "wf_acl (ss_kernel s)"
    and "action_block_ip E action event pid s = (Inl e, s')"
  shows "if \<exists>ac. block_attempted E action event s ac
         then ss_db s' = ss_db s \<and> (\<exists>addr. parse_ip_addr (te_source_ip event) = Some addr
              \<and> (if se_utc_add E (se_utc E) (block_ttl E action) = None
                 then blocks (se_acl E) (ss_kernel s') addr \<and> block_count s' = block_count s + 1
                 else unlisted (se_acl E) (ss_kernel s') addr \<and> ss_matcher s' = ss_matcher s))
         else s' = s"
proof (cases "\<exists>ac. block_attempted E action event s ac")
  case False
  then have "s' = s" using assms(3) by (auto simp: block_attempted_def action_block_ip_eq split: sum.splits if_splits)
  then show ?thesis using False by simp
next
  case True
  let ?ip = "te_source_ip event" and ?ttl = "block_ttl E action"
  let ?f = "\<lambda>v expires ok db. map_sum id snd (commit_soar_block_to_db ok (se_utc E) ?ip v pid expires db)"
  from True obtain ac where h: "validate_action_ttl E ?ttl (max_ttl_secs (se_cfg E)) = Inr ()" "block_ip (se_acl E) ?ip (ss_kernel s) = Inr ac"
    "\<not> pm_active_block_count (ss_matcher s) \<ge> max_auto_block_cap (se_cfg E)" by (auto simp: block_attempted_def not_le)
  obtain v addr where v: "ip_version_from_str ?ip = Inr v" and addr: "parse_ip_addr ?ip = Some addr" using block_ip_parses [OF h(2)] by blast
  have "ss_db s' = ss_db s \<and> (if se_utc_add E (se_utc E) ?ttl = None
      then blocks (se_acl E) (ss_kernel s') addr \<and> block_count s' = block_count s + 1
      else unlisted (se_acl E) (ss_kernel s') addr \<and> ss_matcher s' = ss_matcher s)"
  proof (cases "se_utc_add E (se_utc E) ?ttl")
    case None
    then have "s' = reserved s\<lparr>ss_kernel := ac\<rparr>"
      using assms(3) h by (auto simp: action_block_ip_eq block_expiry_def Let_def split: if_splits)
    moreover have "blocks (se_acl E) ac addr" by (rule acl_kernel.block_ip_blocks [OF assms(1,2) h(2) addr])
    moreover have "block_count (reserved s\<lparr>ss_kernel := ac\<rparr>) = block_count s + 1"
      using block_count_reserved(1) [OF h(3)] by (simp add: block_count_def)
    ultimately show ?thesis using None by simp
  next
    case (Some t)
    then obtain expires where exp: "block_expiry E ?ttl = Inr expires"
      using h(1) by (auto simp: block_expiry_def validate_action_ttl_def split: if_splits)
    obtain e' s2 where db: "db_update E (?f v expires) (reserved s\<lparr>ss_kernel := ac\<rparr>) = (Inl e', s2)" and u: "undo_block E ?ip e' s2 = (Inl e, s')"
      using assms(3) h exp v by (auto simp: action_block_ip_eq Let_def split: sum.splits prod.splits)
    from failed_commit [OF assms(1,2) h(3,2) addr db] u Some show ?thesis by auto
  qed
  then show ?thesis using True addr by auto
qed

theorem failed_block_outcome_witness:
  "\<exists>e s'. action_block_ip (sample_env\<lparr>se_db := (\<lambda>_. False)\<rparr>) block_action sample_event 1 sample_state = (Inl e, s')
    \<and> ss_db s' = empty_db \<and> unlisted (capped_api LittleEndian) (ss_kernel s') (IpV4 3221225985)"
proof -
  let ?E = "sample_env\<lparr>se_db := (\<lambda>_. False)\<rparr>"
  have cfg: "block_ttl ?E block_action = 1800" by (rule block_ttl_sample) (simp add: sample_env_def)
  have ttl: "validate_action_ttl ?E (block_ttl ?E block_action) (max_ttl_secs (se_cfg ?E)) = Inr ()"
    unfolding cfg using sample_ttl_valid(2) [of "\<lambda>_. False"] by (simp add: sample_env_def SoarConfig_defaults_def)
  then have "\<exists>s'. action_block_ip ?E block_action sample_event 1 sample_state = (Inl db_error, s') \<and> ss_db s' = ss_db sample_state
      \<and> unlisted (se_acl ?E) (ss_kernel s') (IpV4 3221225985)"
    by (rule refused_block [where ac = blocked_lists, rotated 4])
      (simp_all add: sample_block_twice(1) sample_env_def sample_state_def PlaybookMatcher_new_def SoarConfig_defaults_def capped_acl.acl_kernel_axioms)
  then obtain e s' where r: "action_block_ip ?E block_action sample_event 1 sample_state = (Inl e, s')" by blast
  have k: "acl_kernel (se_acl ?E)" by (simp add: sample_env_def capped_acl.acl_kernel_axioms)
  have w: "wf_acl (ss_kernel sample_state)" by (simp add: sample_state_def)
  have "se_utc_add ?E (se_utc ?E) (block_ttl ?E block_action) \<noteq> None" by (simp add: sample_env_def)
  moreover have "block_attempted ?E block_action sample_event sample_state blocked_lists"
    unfolding block_attempted_def using ttl
    by (simp add: sample_block_twice(1) sample_env_def sample_state_def PlaybookMatcher_new_def SoarConfig_defaults_def)
  ultimately show ?thesis
    using failed_block_outcome [OF k w r] r by (auto simp: sample_state_def sample_env_def split: if_splits)
qed

text \<open>
  Undoing a block lifts older ones: where the source is already blocked (by the administrator or by
  another playbook) and the database refuses the new block, the roll-back removes the address from the
  kernel's blacklist although the rule table still holds its rule and the block table its blocks.
\<close>

theorem failed_block_lifts_older_block:
  assumes "acl_kernel (se_acl E)" "wf_acl (ss_kernel s)"
    and "parse_ip_addr (te_source_ip event) = Some addr" "block_ip (se_acl E) (te_source_ip event) (ss_kernel s) = Inr ac"
    and "validate_action_ttl E (block_ttl E action) (max_ttl_secs (se_cfg E)) = Inr ()"
    and "se_utc_add E (se_utc E) (block_ttl E action) \<noteq> None"
    and "pm_active_block_count (ss_matcher s) < max_auto_block_cap (se_cfg E)"
    and "\<not> se_db E (ss_calls s)"
  shows "\<exists>s'. action_block_ip E action event pid s = (Inl db_error, s') \<and> ss_db s' = ss_db s \<and> unlisted (se_acl E) (ss_kernel s') addr"
  using assms by (rule refused_block)

theorem failed_block_lifts_older_block_witness:
  "\<exists>s'. action_block_ip (sample_env\<lparr>se_db := (\<lambda>_. False)\<rparr>) block_action sample_event 1 (sample_state\<lparr>ss_kernel := blocked_lists\<rparr>) = (Inl db_error, s')
    \<and> unlisted (capped_api LittleEndian) (ss_kernel s') (IpV4 3221225985)"
proof -
  let ?E = "sample_env\<lparr>se_db := (\<lambda>_. False)\<rparr>" and ?s = "sample_state\<lparr>ss_kernel := blocked_lists\<rparr>"
  have cfg: "block_ttl ?E block_action = 1800" by (rule block_ttl_sample) (simp add: sample_env_def)
  have k: "acl_kernel (se_acl ?E)" by (simp add: sample_env_def capped_acl.acl_kernel_axioms)
  have w: "wf_acl (ss_kernel ?s)"
    using acl_kernel.block_ip_blocks(1) [OF capped_acl.acl_kernel_axioms _ sample_block_twice(1)] by simp
  have "validate_action_ttl ?E (block_ttl ?E block_action) (max_ttl_secs (se_cfg ?E)) = Inr ()"
    unfolding cfg using sample_ttl_valid(2) [of "\<lambda>_. False"] by (simp add: sample_env_def SoarConfig_defaults_def)
  then have "\<exists>s'. action_block_ip ?E block_action sample_event 1 ?s = (Inl db_error, s') \<and> ss_db s' = ss_db ?s
      \<and> unlisted (se_acl ?E) (ss_kernel s') (IpV4 3221225985)"
    by (rule failed_block_lifts_older_block [OF k w, where ac = blocked_lists, rotated 2])
      (simp_all add: sample_block_twice(2) sample_env_def sample_state_def PlaybookMatcher_new_def SoarConfig_defaults_def)
  then show ?thesis by (auto simp: sample_env_def)
qed

end
