(* ===== verification/Soar_Lifecycle.thy ===== *)
theory Soar_Lifecycle
  imports Soar_Properties
begin

text \<open>
  How blocks end: the periodic sweep (\<^verbatim>\<open>core/response/scheduler.rs\<close>) and the operations of the
  administrator (\<^verbatim>\<open>core/response/playbook_service.rs\<close>). The sweep lifts up to sixteen blocks at once;
  they are taken in the order of the list here.
\<close>

section \<open>The sweep\<close>

fun sweep_loop :: "soar_env \<Rightarrow> active_block_view list \<Rightarrow> string list \<Rightarrow> soar_state \<Rightarrow> (error, string list) result \<times> soar_state" where
  "sweep_loop E [] committed s = (Inr committed, s)"
| "sweep_loop E (b # bs) committed s =
     try_then (db_query E (\<lambda>ok. has_manual_acl_rule ok (ab_source_ip b) (ss_db s)) s) (\<lambda>has_manual_rule s.
       if has_manual_rule then
         try_then (db_update E (\<lambda>ok db. mark_soar_block_unblocked ok (se_utc E) (ab_id b) db) s) (\<lambda>_ s.
           sweep_loop E bs committed (decrement_block_count s))
       else
         try_then (map_err Ebpf (ip_version_from_str (ab_source_ip b)), s) (\<lambda>v s.
         try_then (db_update E (\<lambda>ok db. commit_soar_unblock_to_db ok (se_utc E) (ab_id b) v (ab_source_ip b) db) s) (\<lambda>_ s.
           sweep_loop E bs (committed @ [ab_source_ip b]) (decrement_block_count s))))"

fun unblock_committed_blocks :: "soar_env \<Rightarrow> string list \<Rightarrow> soar_state \<Rightarrow> (error, nat \<times> nat) result \<times> soar_state" where
  "unblock_committed_blocks E [] s = (Inr (0, 0), s)"
| "unblock_committed_blocks E (ip # ips) s =
     (case unblock_ip_blocking E ip s of
        (Inl _, s) \<Rightarrow>
          try_then (db_update E (\<lambda>ok db. map_sum id snd (insert_pending_unblock ok ip db)) s) (\<lambda>_ s.
          try_then (unblock_committed_blocks E ips s) (\<lambda>(removed, skipped) s. (Inr (removed, Suc skipped), s)))
      | (Inr _, s) \<Rightarrow> try_then (unblock_committed_blocks E ips s) (\<lambda>(removed, skipped) s. (Inr (Suc removed, skipped), s)))"

definition sweep :: "soar_env \<Rightarrow> soar_state \<Rightarrow> (error, unit) result \<times> soar_state" where
  "sweep E s =
     (let s = snd (check_rate_limit_restoration E s);
          s = s\<lparr>ss_matcher := cleanup_expired_cooldowns (se_sel E) (se_cfg E) (se_now E) (ss_matcher s)\<rparr>
      in try_then (db_query E (\<lambda>ok. list_expired_soar_blocks ok (se_utc E) (ss_db s)) s) (\<lambda>expired s.
           if expired = [] then (Inr (), s)
           else try_then (sweep_loop E expired [] s) (\<lambda>committed s.
                try_then (unblock_committed_blocks E committed s) (\<lambda>_ s. (Inr (), s)))))"

section \<open>The administrator\<close>

definition manual_unblock :: "soar_env \<Rightarrow> int \<Rightarrow> soar_state \<Rightarrow> (error, unit) result \<times> soar_state" where
  "manual_unblock E i s =
     try_then (db_query E (\<lambda>ok. find_soar_block_by_id ok i (ss_db s)) s) (\<lambda>found s.
     try_then (ok_or found (Soar (UnblockRuleNotFound i)), s) (\<lambda>b s.
     try_then (db_query E (\<lambda>ok. has_manual_acl_rule ok (ab_source_ip b) (ss_db s)) s) (\<lambda>has_manual_rule s.
     try_then (map_err Ebpf (ip_version_from_str (ab_source_ip b)), s) (\<lambda>v s.
     try_then (db_update E (\<lambda>ok db. commit_soar_unblock_to_db ok (se_utc E) i v (ab_source_ip b) db) s) (\<lambda>_ s.
     let s = decrement_block_count s
     in if has_manual_rule then (Inr (), s)
        else case unblock_ip_blocking E (ab_source_ip b) s of
               (Inr _, s) \<Rightarrow> (Inr (), s)
             | (Inl e, s) \<Rightarrow>
                 (case db_update E (\<lambda>ok db. map_sum id snd (insert_pending_unblock ok (ab_source_ip b) db)) s of
                    (Inl _, s) \<Rightarrow> (Inl (Soar (PendingUnblockQueueFailed (ab_source_ip b))), s)
                  | (Inr _, s) \<Rightarrow> (Inl e, s)))))))"

definition tables_update :: "soar_env \<Rightarrow> (bool \<Rightarrow> playbook_tables \<Rightarrow> (error, 'a \<times> playbook_tables) result) \<Rightarrow> soar_state \<Rightarrow> (error, 'a) result \<times> soar_state" where
  "tables_update E f s =
     (let s' = s\<lparr>ss_calls := Suc (ss_calls s)\<rparr>
      in case f (se_db E (ss_calls s)) (ss_tables s) of Inl e \<Rightarrow> (Inl e, s') | Inr (x, t) \<Rightarrow> (Inr x, s'\<lparr>ss_tables := t\<rparr>))"

definition create_playbook :: "soar_env \<Rightarrow> create_playbook_input \<Rightarrow> soar_state \<Rightarrow> (error, int) result \<times> soar_state" where
  "create_playbook E input s =
     try_then (tables_update E (\<lambda>ok. insert_playbook_atomic ok input) s) (\<lambda>playbook_id s.
     try_then (reload_cache E s) (\<lambda>_ s. (Inr playbook_id, s)))"

definition update_playbook :: "soar_env \<Rightarrow> int \<Rightarrow> create_playbook_input \<Rightarrow> soar_state \<Rightarrow> (error, bool) result \<times> soar_state" where
  "update_playbook E i input s =
     (let row = \<lparr>ui_name = cp_name input, ui_trigger_event = cp_trigger_event input, ui_condition_threshold = cp_condition_threshold input,
                 ui_condition_count = cp_condition_count input, ui_condition_window_secs = cp_condition_window_secs input,
                 ui_cooldown_secs = cp_cooldown_secs input\<rparr>
      in try_then (tables_update E (\<lambda>ok. update_playbook_atomic ok i row (cp_actions input) (cp_conditions input)) s) (\<lambda>updated s.
           if \<not> updated then (Inr False, s) else try_then (reload_cache E s) (\<lambda>_ s. (Inr True, s))))"

definition toggle_playbook :: "soar_env \<Rightarrow> int \<Rightarrow> bool \<Rightarrow> soar_state \<Rightarrow> (error, bool) result \<times> soar_state" where
  "toggle_playbook E i enabled s =
     try_then (tables_update E (\<lambda>ok. update_playbook_enabled ok i enabled) s) (\<lambda>updated s.
       if updated then try_then (reload_cache E s) (\<lambda>_ s. (Inr updated, s)) else (Inr updated, s))"

definition delete_playbook_service :: "soar_env \<Rightarrow> int \<Rightarrow> soar_state \<Rightarrow> (error, bool) result \<times> soar_state" where
  "delete_playbook_service E i s =
     try_then (tables_update E (\<lambda>ok. delete_playbook ok i) s) (\<lambda>deleted s.
       if deleted then try_then (reload_cache E s) (\<lambda>_ s. (Inr deleted, s)) else (Inr deleted, s))"

definition normalize_admin_whitelist_ip :: "string \<Rightarrow> (error, string) result" where
  "normalize_admin_whitelist_ip ip =
     (case parse_ip_addr (trim ip) of None \<Rightarrow> Inl (Ebpf (InvalidIpAddress ip)) | Some parsed \<Rightarrow> Inr (show_ip_addr parsed))"

definition insert_admin_whitelist :: "bool \<Rightarrow> string \<Rightarrow> string list \<Rightarrow> (error, string list) result" where
  "insert_admin_whitelist ok ip rows = (if \<not> ok then Inl db_error else Inr (insert_or_ignore ip rows))"

definition delete_admin_whitelist :: "bool \<Rightarrow> string \<Rightarrow> string list \<Rightarrow> (error, string list) result" where
  "delete_admin_whitelist ok ip rows = (if \<not> ok then Inl db_error else Inr (filter (\<lambda>x. x \<noteq> ip) rows))"

definition whitelist_update :: "soar_env \<Rightarrow> (bool \<Rightarrow> string list \<Rightarrow> (error, string list) result) \<Rightarrow> soar_state \<Rightarrow> (error, unit) result \<times> soar_state" where
  "whitelist_update E f s =
     (let s' = s\<lparr>ss_calls := Suc (ss_calls s)\<rparr>
      in case f (se_db E (ss_calls s)) (ss_whitelist s) of Inl e \<Rightarrow> (Inl e, s') | Inr rows \<Rightarrow> (Inr (), s'\<lparr>ss_whitelist := rows\<rparr>))"

definition add_whitelist :: "soar_env \<Rightarrow> string \<Rightarrow> soar_state \<Rightarrow> (error, unit) result \<times> soar_state" where
  "add_whitelist E ip s =
     try_then (normalize_admin_whitelist_ip ip, s) (\<lambda>ip s.
     try_then (whitelist_update E (\<lambda>ok. insert_admin_whitelist ok ip) s) (\<lambda>_ s. reload_cache E s))"

definition remove_whitelist :: "soar_env \<Rightarrow> string \<Rightarrow> soar_state \<Rightarrow> (error, unit) result \<times> soar_state" where
  "remove_whitelist E ip s =
     try_then (normalize_admin_whitelist_ip ip, s) (\<lambda>ip s.
     try_then (whitelist_update E (\<lambda>ok. delete_admin_whitelist ok ip) s) (\<lambda>_ s. reload_cache E s))"

section \<open>What a sweep does\<close>

text \<open>How the block table may change: rows keep their id, address and expiry, and an ended block stays ended.\<close>

definition ends_only :: "database \<Rightarrow> database \<Rightarrow> bool" where
  "ends_only db db' \<longleftrightarrow>
     list_all2 (\<lambda>b b'. sb_id b' = sb_id b \<and> sb_source_ip b' = sb_source_ip b \<and> sb_expires_at b' = sb_expires_at b
       \<and> (sb_unblocked_at b' = None \<longrightarrow> sb_unblocked_at b = None)) (soar_block_rules db) (soar_block_rules db')"

lemma ends_only_refl [simp]: "ends_only db db"
  by (simp add: ends_only_def list.rel_refl)

lemma ends_only_trans: "ends_only a b \<Longrightarrow> ends_only b c \<Longrightarrow> ends_only a c"
  unfolding ends_only_def by (rule list_all2_trans) auto

lemma ends_only_ended:
  assumes "ends_only db db'" "b' \<in> set (soar_block_rules db')" "sb_unblocked_at b' = None"
  shows "\<exists>b\<in>set (soar_block_rules db). sb_unblocked_at b = None \<and> sb_id b = sb_id b' \<and> sb_source_ip b = sb_source_ip b' \<and> sb_expires_at b = sb_expires_at b'"
  using assms by (fastforce simp: ends_only_def list_all2_conv_all_nth in_set_conv_nth)

lemma marked_ends_only:
  assumes "soar_block_rules db' = map (\<lambda>b. if sb_id b = i then b\<lparr>sb_unblocked_at := Some now\<rparr> else b) (soar_block_rules db)"
  shows "ends_only db db'" "\<forall>b\<in>set (soar_block_rules db'). sb_id b = i \<longrightarrow> sb_unblocked_at b \<noteq> None"
proof -
  show "ends_only db db'" unfolding ends_only_def assms list.rel_map by (intro list.rel_refl) simp
  show "\<forall>b\<in>set (soar_block_rules db'). sb_id b = i \<longrightarrow> sb_unblocked_at b \<noteq> None"
    unfolding assms set_map by (intro ballI impI, elim imageE) (simp split: if_splits)
qed

text \<open>A rule of the blacklist for an address, whichever way it came about.\<close>

definition has_source_rule :: "string \<Rightarrow> database \<Rightarrow> bool" where
  "has_source_rule ip db \<longleftrightarrow> (\<exists>r\<in>set (acl_rules db). ar_ip_address r = ip \<and> ar_direction r = ''source'' \<and> ar_list_type r = ''blacklist'')"

lemma has_manual_rule_in_table:
  assumes "has_manual_acl_rule ok ip db = Inr True"
  shows "has_source_rule ip db"
proof -
  define P where "P r \<longleftrightarrow> list_ex (\<lambda>b. sb_source_ip b = ar_ip_address r \<and> sb_unblocked_at b = None
      \<and> (sb_preserve_acl_on_unblock b \<or> \<not> sb_created_acl_rule b)) (soar_block_rules db)" for r :: acl_row
  have "filter (\<lambda>r. ar_ip_address r = ip \<and> ar_direction r = ''source'' \<and> ar_list_type r = ''blacklist'' \<and> P r) (acl_rules db) \<noteq> []"
    using assms unfolding has_manual_acl_rule_def P_def by (simp split: if_splits)
  then show ?thesis unfolding filter_empty_conv has_source_rule_def by blast
qed

lemma commit_unblock_effect:
  assumes "commit_soar_unblock_to_db ok now i v ip db = Inr db'"
  shows "ends_only db db'" "\<forall>b\<in>set (soar_block_rules db'). sb_id b = i \<longrightarrow> sb_unblocked_at b \<noteq> None"
    "ip' \<noteq> ip \<Longrightarrow> has_source_rule ip' db' = has_source_rule ip' db"
proof -
  have "soar_block_rules db' = map (\<lambda>b. if sb_id b = i then b\<lparr>sb_unblocked_at := Some now\<rparr> else b) (soar_block_rules db)"
    using assms by (auto simp: commit_soar_unblock_to_db_def Let_def split: if_splits option.splits)
  from marked_ends_only [OF this] show "ends_only db db'" "\<forall>b\<in>set (soar_block_rules db'). sb_id b = i \<longrightarrow> sb_unblocked_at b \<noteq> None" by auto
  have "acl_rules db' = acl_rules db \<or> acl_rules db' = filter (\<lambda>r. r \<noteq> soar_acl_row v ip) (acl_rules db)"
    using assms by (auto simp: commit_soar_unblock_to_db_def Let_def split: if_splits option.splits)
  moreover have "ar_ip_address (soar_acl_row v ip) = ip" by (simp add: soar_acl_row_def)
  ultimately show "has_source_rule ip' db' = has_source_rule ip' db" if "ip' \<noteq> ip" using that unfolding has_source_rule_def by auto
qed

lemma mark_effect:
  assumes "mark_soar_block_unblocked ok now i db = Inr db'"
  shows "ends_only db db'" "\<forall>b\<in>set (soar_block_rules db'). sb_id b = i \<longrightarrow> sb_unblocked_at b \<noteq> None" "acl_rules db' = acl_rules db"
proof -
  have db': "db' = db\<lparr>soar_block_rules := map (\<lambda>b. if sb_id b = i then b\<lparr>sb_unblocked_at := Some now\<rparr> else b) (soar_block_rules db)\<rparr>"
    using assms by (auto simp: mark_soar_block_unblocked_def split: if_splits)
  then have "soar_block_rules db' = map (\<lambda>b. if sb_id b = i then b\<lparr>sb_unblocked_at := Some now\<rparr> else b) (soar_block_rules db)" by simp
  from marked_ends_only [OF this] db' show "ends_only db db'" "\<forall>b\<in>set (soar_block_rules db'). sb_id b = i \<longrightarrow> sb_unblocked_at b \<noteq> None"
    "acl_rules db' = acl_rules db" by auto
qed

lemma decrement_simps [simp]:
  "ss_kernel (decrement_block_count s) = ss_kernel s" "ss_db (decrement_block_count s) = ss_db s"
  "ss_calls (decrement_block_count s) = ss_calls s"
  by (simp_all add: decrement_block_count_def set_block_count_def Let_def)

lemma db_update_Inr: "db_update E f s = (Inr u, s') \<longleftrightarrow>
    (\<exists>db. f (se_db E (ss_calls s)) (ss_db s) = Inr db \<and> s' = s\<lparr>ss_calls := Suc (ss_calls s), ss_db := db\<rparr>)"
  by (auto simp: db_update_def Let_def split: sum.splits)

lemma db_query_Inr: "db_query E f s = (Inr x, s') \<longleftrightarrow> f (se_db E (ss_calls s)) = Inr x \<and> s' = s\<lparr>ss_calls := Suc (ss_calls s)\<rparr>"
  by (auto simp: db_query_def)

lemmas call_iffs = try_then_Inr_iff db_update_Inr db_query_Inr

text \<open>What the loop over the expired blocks guarantees when it ends without an error.\<close>

definition swept :: "active_block_view list \<Rightarrow> string list \<Rightarrow> soar_state \<Rightarrow> string list \<Rightarrow> soar_state \<Rightarrow> bool" where
  "swept bs com s com' s' \<longleftrightarrow>
     ss_kernel s' = ss_kernel s \<and> ends_only (ss_db s) (ss_db s') \<and> set com \<subseteq> set com'
     \<and> (\<forall>b\<in>set bs. (\<forall>x\<in>set (soar_block_rules (ss_db s')). sb_id x = ab_id b \<longrightarrow> sb_unblocked_at x \<noteq> None)
          \<and> (ab_source_ip b \<in> set com' \<or> has_source_rule (ab_source_ip b) (ss_db s')))
     \<and> (\<forall>ip. has_source_rule ip (ss_db s) \<longrightarrow> ip \<in> set com' \<or> has_source_rule ip (ss_db s'))
     \<and> (\<forall>ip\<in>set com'. ip \<in> set com \<or> (\<exists>v. ip_version_from_str ip = Inr v))"

lemma swept_step:
  assumes "swept bs com1 s1 com' s'" "ss_kernel s1 = ss_kernel s" "ends_only (ss_db s) (ss_db s1)" "set com \<subseteq> set com1"
    and "\<forall>x\<in>set (soar_block_rules (ss_db s1)). sb_id x = ab_id b \<longrightarrow> sb_unblocked_at x \<noteq> None"
    and "ab_source_ip b \<in> set com1 \<or> has_source_rule (ab_source_ip b) (ss_db s1)"
    and "\<forall>ip. has_source_rule ip (ss_db s) \<longrightarrow> ip \<in> set com1 \<or> has_source_rule ip (ss_db s1)"
    and "\<forall>ip\<in>set com1. ip \<in> set com \<or> (\<exists>v. ip_version_from_str ip = Inr v)"
  shows "swept (b # bs) com s com' s'"
proof -
  have "\<forall>x\<in>set (soar_block_rules (ss_db s')). sb_id x = ab_id b \<longrightarrow> sb_unblocked_at x \<noteq> None"
    using ends_only_ended [of "ss_db s1" "ss_db s'"] assms(1,5) unfolding swept_def by metis
  moreover have "ends_only (ss_db s) (ss_db s')" using assms(1,3) ends_only_trans unfolding swept_def by blast
  ultimately show ?thesis using assms unfolding swept_def by (auto dest: subsetD)
qed

lemma sweep_loop_swept:
  "sweep_loop E bs com s = (Inr com', s') \<Longrightarrow> swept bs com s com' s'"
proof (induction bs arbitrary: com s)
  case Nil
  then show ?case by (simp add: swept_def)
next
  case (Cons b bs)
  obtain manual where q: "has_manual_acl_rule (se_db E (ss_calls s)) (ab_source_ip b) (ss_db s) = Inr manual"
    using Cons.prems by (auto simp: call_iffs)
  show ?case
  proof (cases manual)
    case True
    then obtain n db1 where m: "mark_soar_block_unblocked (se_db E n) (se_utc E) (ab_id b) (ss_db s) = Inr db1"
      and l: "sweep_loop E bs com (decrement_block_count (s\<lparr>ss_calls := Suc n, ss_db := db1\<rparr>)) = (Inr com', s')"
      using Cons.prems q by (auto simp: call_iffs)
    from Cons.IH [OF l] mark_effect [OF m] has_manual_rule_in_table q True show ?thesis
      by (intro swept_step [OF Cons.IH [OF l]]) (auto simp: has_source_rule_def)
  next
    case False
    then obtain n db1 v where v: "ip_version_from_str (ab_source_ip b) = Inr v"
      and m: "commit_soar_unblock_to_db (se_db E n) (se_utc E) (ab_id b) v (ab_source_ip b) (ss_db s) = Inr db1"
      and l: "sweep_loop E bs (com @ [ab_source_ip b]) (decrement_block_count (s\<lparr>ss_calls := Suc n, ss_db := db1\<rparr>)) = (Inr com', s')"
      using Cons.prems q by (auto simp: call_iffs map_err_def split: sum.splits)
    from commit_unblock_effect [OF m] v show ?thesis by (intro swept_step [OF Cons.IH [OF l]]) auto
  qed
qed

text \<open>
  With a store that answers, the loop runs through: it ends exactly the listed blocks, and commits to lifting every
  address that has no rule of the administrator.
\<close>

definition kept_by_hand :: "string \<Rightarrow> database \<Rightarrow> bool" where
  "kept_by_hand ip db \<longleftrightarrow> has_manual_acl_rule True ip db = Inr True"

lemma kept_by_hand_iff:
  "kept_by_hand ip db \<longleftrightarrow> has_source_rule ip db
     \<and> (\<exists>b\<in>set (soar_block_rules db). sb_source_ip b = ip \<and> sb_unblocked_at b = None
          \<and> (sb_preserve_acl_on_unblock b \<or> \<not> sb_created_acl_rule b))"
  by (auto simp: kept_by_hand_def has_manual_acl_rule_def has_source_rule_def list_ex_iff filter_empty_conv)

lemma not_kept_by_hand: "has_manual_acl_rule True ip db = Inr (kept_by_hand ip db)"
  by (simp add: kept_by_hand_def has_manual_acl_rule_def)

definition ended_by :: "int \<Rightarrow> int set \<Rightarrow> soar_block_row \<Rightarrow> soar_block_row" where
  "ended_by now ids b = (if sb_id b \<in> ids then b\<lparr>sb_unblocked_at := Some now\<rparr> else b)"

lemma ended_by_simps [simp]:
  "sb_id (ended_by now ids b) = sb_id b" "sb_source_ip (ended_by now ids b) = sb_source_ip b"
  "sb_preserve_acl_on_unblock (ended_by now ids b) = sb_preserve_acl_on_unblock b"
  "sb_created_acl_rule (ended_by now ids b) = sb_created_acl_rule b"
  "sb_unblocked_at (ended_by now ids b) = None \<longleftrightarrow> sb_id b \<notin> ids \<and> sb_unblocked_at b = None"
  "ended_by now ids (ended_by now {i} b) = ended_by now (insert i ids) b"
  by (simp_all add: ended_by_def)

text \<open>One block of the list.\<close>

definition one_ended :: "int \<Rightarrow> int \<Rightarrow> database \<Rightarrow> database \<Rightarrow> bool" where
  "one_ended now i db db' \<longleftrightarrow>
     soar_block_rules db' = map (ended_by now {i}) (soar_block_rules db) \<and> set (acl_rules db') \<subseteq> set (acl_rules db)"

lemma one_ended_mark: "mark_soar_block_unblocked True now i db = Inr db' \<Longrightarrow> one_ended now i db db'"
  by (auto simp: one_ended_def ended_by_def)

lemma one_ended_commit:
  assumes "i \<in> sb_id ` set (soar_block_rules db)"
  shows "\<exists>db'. commit_soar_unblock_to_db True now i v ip db = Inr db' \<and> one_ended now i db db'"
proof -
  obtain b where "List.find (\<lambda>b. sb_id b = i) (soar_block_rules db) = Some b"
    using assms by (cases "List.find (\<lambda>b. sb_id b = i) (soar_block_rules db)") (auto simp: find_None_iff)
  then show ?thesis by (auto simp: commit_soar_unblock_to_db_def one_ended_def ended_by_def Let_def)
qed

lemma one_ended_kept: "one_ended now i db db' \<Longrightarrow> kept_by_hand ip db' \<Longrightarrow> kept_by_hand ip db"
  by (auto simp: kept_by_hand_iff one_ended_def has_source_rule_def)

lemma sweep_loop_runs:
  assumes "\<forall>n. se_db E n"
    and "\<forall>b\<in>set bs. (\<exists>v. ip_version_from_str (ab_source_ip b) = Inr v) \<and> ab_id b \<in> sb_id ` set (soar_block_rules (ss_db s))"
  shows "\<exists>com' s'. sweep_loop E bs com s = (Inr com', s') \<and> set com \<subseteq> set com'
    \<and> soar_block_rules (ss_db s') = map (ended_by (se_utc E) (ab_id ` set bs)) (soar_block_rules (ss_db s))
    \<and> (\<forall>b\<in>set bs. kept_by_hand (ab_source_ip b) (ss_db s) \<or> ab_source_ip b \<in> set com')"
  using assms(2)
proof (induction bs arbitrary: com s)
  case Nil
  then show ?case by (simp add: ended_by_def)
next
  case (Cons b bs)
  obtain v where v: "ip_version_from_str (ab_source_ip b) = Inr v" using Cons.prems by auto
  obtain db1 com1 s1 where db1: "one_ended (se_utc E) (ab_id b) (ss_db s) db1" "ss_db s1 = db1"
    and com1: "kept_by_hand (ab_source_ip b) (ss_db s) \<or> ab_source_ip b \<in> set com1" "set com \<subseteq> set com1"
    and loop: "sweep_loop E (b # bs) com s = sweep_loop E bs com1 s1"
  proof (cases "kept_by_hand (ab_source_ip b) (ss_db s)")
    case True
    obtain db1 where m: "mark_soar_block_unblocked True (se_utc E) (ab_id b) (ss_db s) = Inr db1" by simp
    show ?thesis
      by (rule that [OF one_ended_mark [OF m], of "decrement_block_count (s\<lparr>ss_calls := Suc (Suc (ss_calls s)), ss_db := db1\<rparr>)" com])
        (use True m assms(1) in \<open>simp_all add: db_query_def db_update_def not_kept_by_hand Let_def del: mark_simps\<close>)
  next
    case False
    have "ab_id b \<in> sb_id ` set (soar_block_rules (ss_db s))" using Cons.prems by simp
    from one_ended_commit [OF this, of "se_utc E" v "ab_source_ip b"] obtain db1
      where m: "commit_soar_unblock_to_db True (se_utc E) (ab_id b) v (ab_source_ip b) (ss_db s) = Inr db1" "one_ended (se_utc E) (ab_id b) (ss_db s) db1"
      by blast
    show ?thesis
      by (rule that [OF m(2), of "decrement_block_count (s\<lparr>ss_calls := Suc (Suc (ss_calls s)), ss_db := db1\<rparr>)" "com @ [ab_source_ip b]"])
        (use False m(1) v assms(1) in \<open>simp_all add: db_query_def db_update_def not_kept_by_hand subset_insertI Let_def\<close>)
  qed
  have rows: "soar_block_rules (ss_db s1) = map (ended_by (se_utc E) {ab_id b}) (soar_block_rules (ss_db s))"
    using db1 by (simp add: one_ended_def)
  then have "sb_id ` set (soar_block_rules (ss_db s1)) = sb_id ` set (soar_block_rules (ss_db s))" by (simp add: image_image)
  with Cons.prems have "\<forall>b\<in>set bs. (\<exists>v. ip_version_from_str (ab_source_ip b) = Inr v) \<and> ab_id b \<in> sb_id ` set (soar_block_rules (ss_db s1))"
    by simp
  from Cons.IH [OF this, of com1] obtain com' s' where r: "sweep_loop E bs com1 s1 = (Inr com', s')" "set com1 \<subseteq> set com'"
    "soar_block_rules (ss_db s') = map (ended_by (se_utc E) (ab_id ` set bs)) (soar_block_rules (ss_db s1))"
    "\<forall>b\<in>set bs. kept_by_hand (ab_source_ip b) (ss_db s1) \<or> ab_source_ip b \<in> set com'" by blast
  have "\<forall>b'\<in>set (b # bs). kept_by_hand (ab_source_ip b') (ss_db s) \<or> ab_source_ip b' \<in> set com'"
    using r(2,4) com1(1) one_ended_kept [OF db1(1) [folded db1(2)]] by auto
  moreover have "soar_block_rules (ss_db s') = map (ended_by (se_utc E) (ab_id ` set (b # bs))) (soar_block_rules (ss_db s))"
    by (simp add: r(3) rows comp_def)
  ultimately show ?case using loop r(1,2) com1(2) by auto
qed

text \<open>Lifting the committed blocks: afterwards none of the addresses is on the list.\<close>

lemma unblock_blocking_cases:
  assumes "acl_kernel (se_acl E)" "wf_acl (ss_kernel s)" "parse_ip_addr ip = Some addr"
  shows "\<exists>r ac. unblock_ip_blocking E ip s = (r, s\<lparr>ss_kernel := ac\<rparr>) \<and> wf_acl ac \<and> unlisted (se_acl E) ac addr
    \<and> (\<forall>x. unlisted (se_acl E) (ss_kernel s) x \<longrightarrow> unlisted (se_acl E) ac x)"
  using acl_kernel.unblock_ip_unlists [OF assms]
proof
  assume "\<exists>ac'. unblock_ip (se_acl E) ip (ss_kernel s) = Some (Inr ac') \<and> wf_acl ac' \<and> unlisted (se_acl E) ac' addr
    \<and> (\<forall>x. x \<noteq> addr \<longrightarrow> blocks (se_acl E) ac' x = blocks (se_acl E) (ss_kernel s) x \<and> unlisted (se_acl E) ac' x = unlisted (se_acl E) (ss_kernel s) x)"
  then obtain ac' where a: "unblock_ip (se_acl E) ip (ss_kernel s) = Some (Inr ac')" "wf_acl ac'" "unlisted (se_acl E) ac' addr"
    "\<forall>x. x \<noteq> addr \<longrightarrow> unlisted (se_acl E) ac' x = unlisted (se_acl E) (ss_kernel s) x" by blast
  then have "\<forall>x. unlisted (se_acl E) (ss_kernel s) x \<longrightarrow> unlisted (se_acl E) ac' x" by metis
  with a show ?thesis by (intro exI [of _ "Inr ()"] exI [of _ ac']) (simp add: unblock_ip_blocking_def)
next
  assume h: "(\<exists>e. unblock_ip (se_acl E) ip (ss_kernel s) = Some (Inl e)) \<and> unlisted (se_acl E) (ss_kernel s) addr"
  then obtain e where "unblock_ip (se_acl E) ip (ss_kernel s) = Some (Inl e)" by blast
  with h assms(2) show ?thesis by (intro exI [of _ "Inl (Ebpf e)"] exI [of _ "ss_kernel s"]) (simp add: unblock_ip_blocking_def)
qed

lemma unblock_committed_unlists:
  assumes "acl_kernel (se_acl E)" "wf_acl (ss_kernel s)" "\<forall>ip\<in>set ips. parse_ip_addr ip \<noteq> None"
    and "unblock_committed_blocks E ips s = (Inr r, s')"
  shows "wf_acl (ss_kernel s') \<and> soar_block_rules (ss_db s') = soar_block_rules (ss_db s) \<and> acl_rules (ss_db s') = acl_rules (ss_db s)
    \<and> (\<forall>x. unlisted (se_acl E) (ss_kernel s) x \<longrightarrow> unlisted (se_acl E) (ss_kernel s') x)
    \<and> (\<forall>ip\<in>set ips. \<forall>addr. parse_ip_addr ip = Some addr \<longrightarrow> unlisted (se_acl E) (ss_kernel s') addr)"
  using assms(2-4)
proof (induction ips arbitrary: s r)
  case (Cons ip ips)
  obtain addr where addr: "parse_ip_addr ip = Some addr" using Cons.prems(2) by auto
  obtain q ac where u: "unblock_ip_blocking E ip s = (q, s\<lparr>ss_kernel := ac\<rparr>)" "wf_acl ac" "unlisted (se_acl E) ac addr"
    "\<forall>x. unlisted (se_acl E) (ss_kernel s) x \<longrightarrow> unlisted (se_acl E) ac x"
    using unblock_blocking_cases [OF assms(1) Cons.prems(1) addr] by blast
  have "\<exists>s2 r2. unblock_committed_blocks E ips s2 = (Inr r2, s') \<and> ss_kernel s2 = ac
      \<and> soar_block_rules (ss_db s2) = soar_block_rules (ss_db s) \<and> acl_rules (ss_db s2) = acl_rules (ss_db s)"
  proof (cases q)
    case (Inl e)
    then obtain db x where db: "map_sum id snd (insert_pending_unblock (se_db E (ss_calls s)) ip (ss_db s)) = Inr db"
        and x: "unblock_committed_blocks E ips (s\<lparr>ss_kernel := ac, ss_calls := Suc (ss_calls s), ss_db := db\<rparr>) = (Inr x, s')"
      using Cons.prems(3) u(1) by (fastforce simp: call_iffs split: prod.splits)
    have "soar_block_rules db = soar_block_rules (ss_db s)" "acl_rules db = acl_rules (ss_db s)"
      using db by (auto simp: insert_pending_unblock_def Let_def split: if_splits)
    with x show ?thesis by (intro exI [of _ "s\<lparr>ss_kernel := ac, ss_calls := Suc (ss_calls s), ss_db := db\<rparr>"] exI [of _ x]) simp
  next
    case (Inr e)
    then obtain x where "unblock_committed_blocks E ips (s\<lparr>ss_kernel := ac\<rparr>) = (Inr x, s')"
      using Cons.prems(3) u(1) by (fastforce simp: try_then_Inr_iff split: prod.splits)
    then show ?thesis by (intro exI [of _ "s\<lparr>ss_kernel := ac\<rparr>"] exI [of _ x]) simp
  qed
  then obtain s2 r2 where s2: "unblock_committed_blocks E ips s2 = (Inr r2, s')" "ss_kernel s2 = ac"
    "soar_block_rules (ss_db s2) = soar_block_rules (ss_db s)" "acl_rules (ss_db s2) = acl_rules (ss_db s)" by blast
  have "wf_acl (ss_kernel s2)" "\<forall>ip\<in>set ips. parse_ip_addr ip \<noteq> None" using u(2) s2(2) Cons.prems(2) by simp_all
  from Cons.IH [OF this s2(1)] u s2 addr show ?case by auto
qed simp

lemma sweep_prefix_state:
  "ss_db (snd (check_rate_limit_restoration E s)) = ss_db s" "ss_kernel (snd (check_rate_limit_restoration E s)) = ss_kernel s"
  by (auto simp: check_rate_limit_restoration_def split: option.splits prod.splits sum.splits)

lemma ip_version_parses: "ip_version_from_str ip = Inr v \<Longrightarrow> parse_ip_addr ip \<noteq> None"
  by (auto simp: ip_version_from_str_def split: option.splits)

section \<open>Concrete sweeps\<close>

lemma unblock_committed_faultless:
  assumes "\<forall>n. se_db E n"
  shows "\<exists>r s'. unblock_committed_blocks E ips s = (Inr r, s')"
proof (induction ips arbitrary: s)
  case (Cons ip ips)
  obtain q s1 where q: "unblock_ip_blocking E ip s = (q, s1)" by fastforce
  obtain x s2 where u: "db_update E (\<lambda>ok db. map_sum id snd (insert_pending_unblock ok ip db)) s1 = (Inr x, s2)"
    using assms by (simp add: db_update_def insert_pending_unblock_def Let_def)
  have "\<exists>r s'. try_then (unblock_committed_blocks E ips t) (\<lambda>p s. (Inr (f p), s)) = (Inr r, s')" for t and f :: "nat \<times> nat \<Rightarrow> nat \<times> nat"
    using Cons.IH [of t] by (auto simp: try_then_def)
  from this [of s2 "\<lambda>(a, b). (a, Suc b)"] this [of s1 "\<lambda>(a, b). (Suc a, b)"] q u show ?case
    by (cases q) (simp_all add: case_prod_unfold)
qed simp

text \<open>The engine at the time the first of the sample blocks expires.\<close>

definition at_expiry :: soar_env where
  "at_expiry = sample_env\<lparr>se_utc := 100\<rparr>"

definition holding :: "database \<Rightarrow> soar_state" where
  "holding db = sample_state\<lparr>ss_kernel := blocked_lists, ss_db := db\<rparr>"

lemma at_expiry_simps [simp]:
  "se_acl at_expiry = capped_api LittleEndian" "se_utc at_expiry = 100" "se_db at_expiry = (\<lambda>_. True)"
  "ss_kernel (holding db) = blocked_lists" "ss_db (holding db) = db" "ss_calls (holding db) = 0" "ss_owner (holding db) = None"
  by (simp_all add: at_expiry_def sample_env_def holding_def sample_state_def)

lemma blocked_lists_simps [simp]: "wf_acl blocked_lists" "blocks (capped_api LittleEndian) blocked_lists (IpV4 3221225985)"
  using acl_kernel.block_ip_blocks [OF capped_acl.acl_kernel_axioms _ sample_block_twice(1)] by simp_all

lemma sample_ip_parses [simp]: "parse_ip_addr sample_ip = Some (IpV4 3221225985)"
  by (simp add: sample_ip_def)

text \<open>The sweep in which the first sample block has expired, and none else.\<close>

lemma first_block_swept:
  assumes "filter (\<lambda>b. sb_expires_at b \<le> 100 \<and> sb_unblocked_at b = None) (soar_block_rules db) = [sample_block 1 100]"
    and "has_manual_acl_rule True sample_ip db = Inr False"
    and "commit_soar_unblock_to_db True 100 1 V4 sample_ip db = Inr db2"
  shows "\<exists>s2 r s'. sweep at_expiry (holding db) = (Inr (), s') \<and> ss_db s2 = db2 \<and> ss_kernel s2 = blocked_lists
    \<and> unblock_committed_blocks at_expiry [sample_ip] s2 = (Inr r, s')"
proof -
  define s0 where "s0 = (holding db)\<lparr>ss_matcher := cleanup_expired_cooldowns (se_sel at_expiry) (se_cfg at_expiry) (se_now at_expiry) (ss_matcher (holding db))\<rparr>"
  define s2 where "s2 = decrement_block_count (s0\<lparr>ss_calls := Suc (Suc (Suc 0)), ss_db := db2\<rparr>)"
  obtain r s' where u: "unblock_committed_blocks at_expiry [sample_ip] s2 = (Inr r, s')" using unblock_committed_faultless [of at_expiry "[sample_ip]" s2] by auto
  have v: "active_block_from_row (sample_block 1 100) = \<lparr>ab_id = 1, ab_source_ip = sample_ip, ab_playbook_id = 1, ab_expires_at = 100\<rparr>"
    by (simp add: active_block_from_row_def sample_block_def)
  have s0: "ss_calls s0 = 0" "ss_db s0 = db" "ss_kernel s0 = blocked_lists" by (simp_all add: s0_def)
  have "check_rate_limit_restoration at_expiry (holding db) = (Inr None, holding db)" by (simp add: check_rate_limit_restoration_def)
  moreover have "list_expired_soar_blocks True 100 db = Inr [active_block_from_row (sample_block 1 100)]"
    using assms(1) by (simp add: list_expired_soar_blocks_def)
  moreover have "sweep_loop at_expiry [active_block_from_row (sample_block 1 100)] [] (s0\<lparr>ss_calls := Suc 0\<rparr>) = (Inr [sample_ip], s2)"
    using assms(2,3) s0 by (simp add: v db_query_def db_update_def sample_ip_version s2_def Let_def)
  ultimately have "sweep at_expiry (holding db) = try_then (unblock_committed_blocks at_expiry [sample_ip] s2) (\<lambda>_ s. (Inr (), s))"
    using s0 by (simp add: sweep_def s0_def [symmetric] db_query_def Let_def del: sweep_loop.simps unblock_committed_blocks.simps)
  then have "sweep at_expiry (holding db) = (Inr (), s')" by (simp add: u del: unblock_committed_blocks.simps)
  moreover have "ss_db s2 = db2" "ss_kernel s2 = blocked_lists" by (simp_all add: s2_def s0)
  ultimately show ?thesis using u by blast
qed

lemma sample_commits:
  "commit_soar_unblock_to_db True 100 1 V4 sample_ip one_block =
     Inr (one_block\<lparr>soar_block_rules := [(sample_block 1 100)\<lparr>sb_unblocked_at := Some 100\<rparr>], acl_rules := []\<rparr>)"
  "commit_soar_unblock_to_db True 100 1 V4 sample_ip two_blocks =
     Inr (two_blocks\<lparr>soar_block_rules := [(sample_block 1 100)\<lparr>sb_unblocked_at := Some 100\<rparr>, sample_block 2 200]\<rparr>)"
  by (simp_all add: commit_soar_unblock_to_db_def one_block_def two_blocks_def sample_block_def active_at_def Let_def)

lemma sample_not_manual [simp]: "has_manual_acl_rule True sample_ip one_block = Inr False" "has_manual_acl_rule True sample_ip two_blocks = Inr False"
  by (simp_all add: has_manual_acl_rule_def one_block_def two_blocks_def sample_block_def)

lemma sample_expired [simp]:
  "filter (\<lambda>b. sb_expires_at b \<le> 100 \<and> sb_unblocked_at b = None) (soar_block_rules one_block) = [sample_block 1 100]"
  "filter (\<lambda>b. sb_expires_at b \<le> 100 \<and> sb_unblocked_at b = None) (soar_block_rules two_blocks) = [sample_block 1 100]"
  by (simp_all add: one_block_def two_blocks_def sample_block_def)

section \<open>Properties\<close>

definition block_expired :: "int \<Rightarrow> soar_block_row \<Rightarrow> bool" where
  "block_expired now b \<longleftrightarrow> sb_expires_at b \<le> now \<and> sb_unblocked_at b = None"

lemma sweep_runs:
  assumes "\<forall>n. se_db E n"
  shows "\<exists>s1. ss_db s1 = ss_db s \<and> ss_kernel s1 = ss_kernel s
    \<and> sweep E s = (let expired = map active_block_from_row (filter (block_expired (se_utc E)) (soar_block_rules (ss_db s)))
                   in if expired = [] then (Inr (), s1)
                      else try_then (sweep_loop E expired [] s1) (\<lambda>committed s.
                           try_then (unblock_committed_blocks E committed s) (\<lambda>_ s. (Inr (), s))))"
proof -
  define s0 where "s0 = (snd (check_rate_limit_restoration E s))\<lparr>ss_matcher := cleanup_expired_cooldowns (se_sel E) (se_cfg E) (se_now E)
      (ss_matcher (snd (check_rate_limit_restoration E s)))\<rparr>"
  have s0: "ss_db s0 = ss_db s" "ss_kernel s0 = ss_kernel s" by (simp_all add: s0_def sweep_prefix_state)
  let ?s1 = "s0\<lparr>ss_calls := Suc (ss_calls s0)\<rparr>"
  have "ss_db ?s1 = ss_db s" "ss_kernel ?s1 = ss_kernel s" by (simp_all add: s0)
  then show ?thesis
    using assms unfolding sweep_def Let_def s0_def [symmetric]
    by (intro exI [of _ ?s1]) (simp add: db_query_def list_expired_soar_blocks_def block_expired_def [abs_def] s0)
qed

lemma ended_rows:
  assumes "wf_ids db"
  shows "map (ended_by now (ab_id ` set (map active_block_from_row (filter (block_expired now') (soar_block_rules db))))) (soar_block_rules db)
    = map (\<lambda>b. if block_expired now' b then b\<lparr>sb_unblocked_at := Some now\<rparr> else b) (soar_block_rules db)"
proof -
  have inj: "inj_on sb_id (set (soar_block_rules db))" using assms by (simp add: wf_ids_def distinct_map)
  have "sb_id b \<in> ab_id ` set (map active_block_from_row (filter (block_expired now') (soar_block_rules db))) \<longleftrightarrow> block_expired now' b"
    if "b \<in> set (soar_block_rules db)" for b
    using that inj by (auto simp: active_block_from_row_def image_image dest: inj_onD)
  then show ?thesis by (auto simp: ended_by_def)
qed

text \<open>
  C12. Where the store answers and the table is as the engine writes it (ids distinct, addresses that parse), a sweep
  succeeds and ends exactly the blocks that had expired and were still running, leaving every other row of the block
  table as it was. The address of each is then off the kernel's blacklist, whether the kernel held it or not, unless
  the administrator had claimed it (a rule of the table that a running block found there or was told to preserve) and
  the table still holds a blacklist rule for it.
\<close>

theorem expired_blocks_are_lifted:
  assumes "acl_kernel (se_acl E)" "wf_acl (ss_kernel s)" "\<forall>n. se_db E n" "wf_ids (ss_db s)"
    and "\<forall>b\<in>set (soar_block_rules (ss_db s)). \<exists>v. ip_version_from_str (sb_source_ip b) = Inr v"
  shows "\<exists>s'. sweep E s = (Inr (), s')
    \<and> soar_block_rules (ss_db s') =
        map (\<lambda>b. if block_expired (se_utc E) b then b\<lparr>sb_unblocked_at := Some (se_utc E)\<rparr> else b) (soar_block_rules (ss_db s))
    \<and> (\<forall>b\<in>set (soar_block_rules (ss_db s)). block_expired (se_utc E) b \<longrightarrow>
         (\<exists>addr. parse_ip_addr (sb_source_ip b) = Some addr \<and> unlisted (se_acl E) (ss_kernel s') addr)
         \<or> has_manual_acl_rule True (sb_source_ip b) (ss_db s) = Inr True \<and> has_source_rule (sb_source_ip b) (ss_db s'))"
proof -
  let ?exp = "map active_block_from_row (filter (block_expired (se_utc E)) (soar_block_rules (ss_db s)))"
  obtain s1 where s1: "ss_db s1 = ss_db s" "ss_kernel s1 = ss_kernel s"
    "sweep E s = (if ?exp = [] then (Inr (), s1)
       else try_then (sweep_loop E ?exp [] s1) (\<lambda>com s. try_then (unblock_committed_blocks E com s) (\<lambda>_ s. (Inr (), s))))"
    using sweep_runs [OF assms(3), of s] unfolding Let_def by blast
  show ?thesis
  proof (cases "?exp = []")
    case True
    then have "\<forall>b\<in>set (soar_block_rules (ss_db s)). \<not> block_expired (se_utc E) b" by (simp add: filter_empty_conv)
    with True s1 show ?thesis by (simp add: map_idI)
  next
    case False
    have "\<forall>b\<in>set ?exp. (\<exists>v. ip_version_from_str (ab_source_ip b) = Inr v) \<and> ab_id b \<in> sb_id ` set (soar_block_rules (ss_db s1))"
      using assms(5) s1(1) by (auto simp: active_block_from_row_def)
    from sweep_loop_runs [OF assms(3) this, of "[]"] obtain com s2 where l: "sweep_loop E ?exp [] s1 = (Inr com, s2)"
      "soar_block_rules (ss_db s2) = map (ended_by (se_utc E) (ab_id ` set ?exp)) (soar_block_rules (ss_db s1))"
      "\<forall>b\<in>set ?exp. kept_by_hand (ab_source_ip b) (ss_db s1) \<or> ab_source_ip b \<in> set com" by blast
    obtain r s' where u: "unblock_committed_blocks E com s2 = (Inr r, s')" using unblock_committed_faultless [OF assms(3)] by blast
    have sw: "swept ?exp [] s1 com s2" by (rule sweep_loop_swept [OF l(1)])
    have com: "\<forall>ip\<in>set com. parse_ip_addr ip \<noteq> None" using sw ip_version_parses unfolding swept_def by fastforce
    have "wf_acl (ss_kernel s2)" using sw s1(2) assms(2) by (simp add: swept_def)
    note un = unblock_committed_unlists [OF assms(1) this com u]
    have lifted: "(\<exists>addr. parse_ip_addr (sb_source_ip b) = Some addr \<and> unlisted (se_acl E) (ss_kernel s') addr)
        \<or> has_manual_acl_rule True (sb_source_ip b) (ss_db s) = Inr True \<and> has_source_rule (sb_source_ip b) (ss_db s')"
      if "b \<in> set (soar_block_rules (ss_db s))" "block_expired (se_utc E) b" for b
    proof (cases "sb_source_ip b \<in> set com")
      case True
      then show ?thesis using un com by auto
    next
      case False
      have b: "active_block_from_row b \<in> set ?exp" "ab_source_ip (active_block_from_row b) = sb_source_ip b"
        using that by (auto simp: active_block_from_row_def)
      then have "kept_by_hand (sb_source_ip b) (ss_db s)" using l(3) False s1(1) by metis
      moreover have "has_source_rule (sb_source_ip b) (ss_db s2)" using sw b False unfolding swept_def by metis
      ultimately show ?thesis using un by (simp add: kept_by_hand_def has_source_rule_def)
    qed
    have "sweep E s = (Inr (), s')" using s1(3) False l(1) u by simp
    moreover have "soar_block_rules (ss_db s') =
        map (\<lambda>b. if block_expired (se_utc E) b then b\<lparr>sb_unblocked_at := Some (se_utc E)\<rparr> else b) (soar_block_rules (ss_db s))"
      using un l(2) s1(1) ended_rows [OF assms(4)] by simp
    ultimately show ?thesis using lifted by blast
  qed
qed

theorem expired_blocks_are_lifted_witness:
  "\<exists>s'. sweep at_expiry (holding one_block) = (Inr (), s')
     \<and> soar_block_rules (ss_db s') = [(sample_block 1 100)\<lparr>sb_unblocked_at := Some 100\<rparr>]
     \<and> unlisted (capped_api LittleEndian) (ss_kernel s') (IpV4 3221225985)"
proof -
  have "acl_kernel (se_acl at_expiry)" "wf_acl (ss_kernel (holding one_block))" by (simp_all add: capped_acl.acl_kernel_axioms)
  moreover have "\<forall>n. se_db at_expiry n" "wf_ids (ss_db (holding one_block))"
    "\<forall>b\<in>set (soar_block_rules (ss_db (holding one_block))). \<exists>v. ip_version_from_str (sb_source_ip b) = Inr v"
    by (simp_all add: wf_ids_def one_block_def sample_block_def sample_ip_version)
  ultimately have "\<exists>s'. sweep at_expiry (holding one_block) = (Inr (), s')
    \<and> soar_block_rules (ss_db s') = map (\<lambda>b. if block_expired (se_utc at_expiry) b then b\<lparr>sb_unblocked_at := Some (se_utc at_expiry)\<rparr> else b)
        (soar_block_rules (ss_db (holding one_block)))
    \<and> (\<forall>b\<in>set (soar_block_rules (ss_db (holding one_block))). block_expired (se_utc at_expiry) b \<longrightarrow>
         (\<exists>addr. parse_ip_addr (sb_source_ip b) = Some addr \<and> unlisted (se_acl at_expiry) (ss_kernel s') addr)
         \<or> has_manual_acl_rule True (sb_source_ip b) (ss_db (holding one_block)) = Inr True \<and> has_source_rule (sb_source_ip b) (ss_db s'))"
    by (rule expired_blocks_are_lifted)
  moreover have "soar_block_rules one_block = [sample_block 1 100]" "block_expired 100 (sample_block 1 100)" "sb_source_ip (sample_block 1 100) = sample_ip"
    by (simp_all add: one_block_def sample_block_def block_expired_def)
  ultimately show ?thesis by simp
qed

text \<open>
  The sweep lifts a block that is still running: where an address has a second block with a later
  expiry, the table keeps the rule and the second block when the first expires, but the address is taken
  off the kernel's blacklist all the same, so that it is no longer blocked while the table says it is.
\<close>

theorem sweep_lifts_running_block:
  "\<exists>s'. sweep at_expiry (holding two_blocks) = (Inr (), s')
    \<and> unlisted (capped_api LittleEndian) (ss_kernel s') (IpV4 3221225985)
    \<and> sample_block 2 200 \<in> set (soar_block_rules (ss_db s')) \<and> active_at 100 (sample_block 2 200)
    \<and> soar_acl_row V4 sample_ip \<in> set (acl_rules (ss_db s'))"
proof -
  let ?db = "two_blocks\<lparr>soar_block_rules := [(sample_block 1 100)\<lparr>sb_unblocked_at := Some 100\<rparr>, sample_block 2 200]\<rparr>"
  obtain s2 r s' where s': "sweep at_expiry (holding two_blocks) = (Inr (), s')" "ss_db s2 = ?db" "ss_kernel s2 = blocked_lists"
      "unblock_committed_blocks at_expiry [sample_ip] s2 = (Inr r, s')"
    using first_block_swept [of two_blocks] sample_commits(2) by auto
  have "acl_kernel (se_acl at_expiry)" "wf_acl (ss_kernel s2)" "\<forall>ip\<in>set [sample_ip]. parse_ip_addr ip \<noteq> None"
    using s'(3) by (simp_all add: capped_acl.acl_kernel_axioms)
  from unblock_committed_unlists [OF this s'(4)] s' show ?thesis
    by (auto simp: two_blocks_def one_block_def active_at_def sample_block_def)
qed

definition two_addresses :: database where
  "two_addresses = one_block\<lparr>soar_block_rules := [sample_block 1 100, (sample_block 2 100)\<lparr>sb_source_ip := show_ipv4 3221225986\<rparr>],
     soar_block_seq := 2, acl_rules := [soar_acl_row V4 sample_ip, soar_acl_row V4 (show_ipv4 3221225986)]\<rparr>"

text \<open>
  An error in the middle of a sweep strands the blocks before it: the first block is ended in the
  table, its rule deleted, and when the query for the second fails the sweep returns at once. The first
  address stays on the kernel's blacklist, nothing is queued to lift it later, and as its block counts as
  ended no later sweep or restart looks at it again.
\<close>

theorem interrupted_sweep_strands_block:
  "\<exists>s'. sweep (at_expiry\<lparr>se_db := (\<lambda>n. n \<noteq> 3)\<rparr>) (holding two_addresses) = (Inl db_error, s')
    \<and> blocks (capped_api LittleEndian) (ss_kernel s') (IpV4 3221225985)
    \<and> filter (\<lambda>b. sb_source_ip b = sample_ip \<and> sb_unblocked_at b = None) (soar_block_rules (ss_db s')) = []
    \<and> soar_acl_row V4 sample_ip \<notin> set (acl_rules (ss_db s')) \<and> pending_unblocks (ss_db s') = []"
proof -
  have ne: "show_ipv4 3221225986 \<noteq> sample_ip"
  proof
    assume "show_ipv4 3221225986 = sample_ip"
    then have "parse_ip_addr (show_ipv4 3221225986) = parse_ip_addr sample_ip" by simp
    then show False by simp
  qed
  have "\<exists>s'. sweep (at_expiry\<lparr>se_db := (\<lambda>n. n \<noteq> 3)\<rparr>) (holding two_addresses) = (Inl db_error, s')
     \<and> ss_kernel s' = blocked_lists \<and> ss_db s' = two_addresses\<lparr>soar_block_rules := [(sample_block 1 100)\<lparr>sb_unblocked_at := Some 100\<rparr>,
         (sample_block 2 100)\<lparr>sb_source_ip := show_ipv4 3221225986\<rparr>], acl_rules := [soar_acl_row V4 (show_ipv4 3221225986)]\<rparr>"
    using ne
    by (simp add: sweep_def check_rate_limit_restoration_def db_query_def db_update_def list_expired_soar_blocks_def has_manual_acl_rule_def
        commit_soar_unblock_to_db_def two_addresses_def one_block_def empty_db_def sample_block_def active_block_from_row_def sample_ip_version
        soar_acl_row_def numeral_3_eq_3 Let_def)
  then show ?thesis using ne by (auto simp: two_addresses_def sample_block_def soar_acl_row_def one_block_def empty_db_def)
qed

end
