(* ===== verification/Http_Response.thy ===== *)
theory Http_Response
  imports Domain_Errors
begin

text \<open>
  What a handler of the administration API answers (\<^verbatim>\<open>adapter/http/helpers.rs\<close>): the status with a body or
  a refusal. The text of an error is that of its value.
\<close>

datatype refusal = RefusedBy error | RefusedText string

datatype 'a response = Created 'a | OkBody 'a | BadRequest refusal | NotFound | InternalError error

definition ok_or_error :: "(error, 'b) result \<Rightarrow> unit response" where
  "ok_or_error r = (case r of Inr _ \<Rightarrow> OkBody () | Inl e \<Rightarrow> InternalError e)"

definition ok_json_or_error :: "(error, 'a) result \<Rightarrow> 'a response" where
  "ok_json_or_error r = (case r of Inr v \<Rightarrow> OkBody v | Inl e \<Rightarrow> InternalError e)"

text \<open>The status code of an answer.\<close>

definition status :: "'a response \<Rightarrow> nat" where
  "status r = (case r of OkBody _ \<Rightarrow> 200 | Created _ \<Rightarrow> 201 | BadRequest _ \<Rightarrow> 400 | NotFound \<Rightarrow> 404 | InternalError _ \<Rightarrow> 500)"

lemma status_simps [simp]:
  "status (OkBody x) = 200" "status (Created x) = 201" "status (BadRequest f) = 400" "status NotFound = 404"
  "status (InternalError e) = 500"
  by (simp_all add: status_def)

end
