(* ===== verification/Playbook_Api.thy ===== *)
theory Playbook_Api
  imports Soar_Lifecycle Http_Response
begin

text \<open>
  The requests of the administration API about playbooks (\<^verbatim>\<open>adapter/http/response/soar.rs\<close>): what is
  accepted, and how it reaches the engine. \<open>sj\<close> writes a JSON value as text (\<^verbatim>\<open>serde_json::to_string\<close>).
  The texts of the refusals are those of the error values.
\<close>

section \<open>Requests\<close>

record create_action_request =
  rq_action_type :: string
  rq_params :: "json option"

record create_condition_request =
  rq_condition_type :: string
  rq_operator :: "string option"
  rq_value :: string
  rq_value2 :: "string option"

record create_playbook_request =
  rq_name :: string
  rq_trigger_event :: string
  rq_condition_threshold :: "flt option"
  rq_condition_count :: "int option"
  rq_condition_window_secs :: "int option"
  rq_cooldown_secs :: "int option"
  rq_actions :: "create_action_request list"
  rq_conditions :: "create_condition_request list option"

fun map_actions :: "(json \<Rightarrow> string) \<Rightarrow> u64 \<Rightarrow> nat \<Rightarrow> create_action_request list \<Rightarrow> (soar_error, action_input list) result" where
  "map_actions sj mx index [] = Inr []"
| "map_actions sj mx index (a # as) =
     and_then (validate_action (rq_action_type a) (rq_params a) mx) (\<lambda>_.
     and_then (map_actions sj mx (Suc index) as) (\<lambda>rest.
       Inr (\<lparr>ai_action_order = int (index + 1), ai_action_type = rq_action_type a,
             ai_params_json = (case rq_params a of Some v \<Rightarrow> sj v | None \<Rightarrow> ''{}'')\<rparr> # rest)))"

fun map_conditions :: "create_condition_request list \<Rightarrow> (soar_error, create_condition_input list) result" where
  "map_conditions [] = Inr []"
| "map_conditions (c # cs) =
     and_then (map_err (\<lambda>_. ValidationFailed (''unknown condition_type: '' @ rq_condition_type c))
                (create_condition_input_new (rq_condition_type c) (rq_operator c) (rq_value c) (rq_value2 c))) (\<lambda>input.
     and_then (validate_condition_input input) (\<lambda>_.
     and_then (map_conditions cs) (\<lambda>rest. Inr (input # rest))))"

definition map_request_to_input :: "(json \<Rightarrow> string) \<Rightarrow> create_playbook_request \<Rightarrow> int \<Rightarrow> u64 \<Rightarrow> (soar_error, create_playbook_input) result" where
  "map_request_to_input sj body fallback_cooldown mx =
     and_then (validate_optional_positive_i64 ''condition_count'' (rq_condition_count body)) (\<lambda>_.
     and_then (validate_optional_positive_i64 ''condition_window_secs'' (rq_condition_window_secs body)) (\<lambda>_.
     let cooldown_secs = (case rq_cooldown_secs body of Some c \<Rightarrow> c | None \<Rightarrow> fallback_cooldown)
     in and_then (validate_cooldown_secs cooldown_secs) (\<lambda>_.
        and_then (map_actions sj mx 0 (rq_actions body)) (\<lambda>actions.
        and_then (map_conditions (case rq_conditions body of Some cs \<Rightarrow> cs | None \<Rightarrow> [])) (\<lambda>conditions.
          Inr \<lparr>cp_name = rq_name body, cp_trigger_event = rq_trigger_event body, cp_condition_threshold = rq_condition_threshold body,
               cp_condition_count = rq_condition_count body, cp_condition_window_secs = rq_condition_window_secs body,
               cp_cooldown_secs = cooldown_secs, cp_actions = actions, cp_conditions = conditions\<rparr>)))))"

definition create_playbook_handler :: "(json \<Rightarrow> string) \<Rightarrow> soar_env \<Rightarrow> create_playbook_request \<Rightarrow> soar_state \<Rightarrow> int response \<times> soar_state" where
  "create_playbook_handler sj E body s =
     (case map_request_to_input sj body (fallback_cooldown_secs (se_cfg E)) (max_ttl_secs (se_cfg E)) of
        Inl e \<Rightarrow> (BadRequest (RefusedBy (Soar e)), s)
      | Inr input \<Rightarrow>
          (case create_playbook E input s of
             (Inr i, s) \<Rightarrow> (Created i, s)
           | (Inl e, s) \<Rightarrow> (InternalError e, s)))"

definition found_or_error :: "(error, bool) result \<times> soar_state \<Rightarrow> bool response \<times> soar_state" where
  "found_or_error r =
     (case r of (Inr True, s) \<Rightarrow> (OkBody True, s) | (Inr False, s) \<Rightarrow> (NotFound, s) | (Inl e, s) \<Rightarrow> (InternalError e, s))"

definition update_playbook_handler :: "(json \<Rightarrow> string) \<Rightarrow> soar_env \<Rightarrow> int \<Rightarrow> create_playbook_request \<Rightarrow> soar_state \<Rightarrow> bool response \<times> soar_state" where
  "update_playbook_handler sj E i body s =
     (case map_request_to_input sj body (fallback_cooldown_secs (se_cfg E)) (max_ttl_secs (se_cfg E)) of
        Inl e \<Rightarrow> (BadRequest (RefusedBy (Soar e)), s)
      | Inr input \<Rightarrow>
          found_or_error (update_playbook E i input s))"

definition toggle_playbook_handler :: "soar_env \<Rightarrow> int \<Rightarrow> bool \<Rightarrow> soar_state \<Rightarrow> bool response \<times> soar_state" where
  "toggle_playbook_handler E i enabled s = found_or_error (toggle_playbook E i enabled s)"

definition delete_playbook_handler :: "soar_env \<Rightarrow> int \<Rightarrow> soar_state \<Rightarrow> bool response \<times> soar_state" where
  "delete_playbook_handler E i s = found_or_error (delete_playbook_service E i s)"

definition manual_unblock_handler :: "soar_env \<Rightarrow> int \<Rightarrow> soar_state \<Rightarrow> unit response \<times> soar_state" where
  "manual_unblock_handler E i s =
     (case manual_unblock E i s of (Inr _, s) \<Rightarrow> (OkBody (), s) | (Inl e, s) \<Rightarrow> (InternalError e, s))"

definition whitelist_error :: "error \<Rightarrow> 'a response" where
  "whitelist_error e = (case e of Ebpf (InvalidIpAddress _) \<Rightarrow> BadRequest (RefusedBy e) | _ \<Rightarrow> InternalError e)"

definition add_whitelist_handler :: "soar_env \<Rightarrow> string \<Rightarrow> soar_state \<Rightarrow> unit response \<times> soar_state" where
  "add_whitelist_handler E ip s =
     (case add_whitelist E ip s of (Inr _, s) \<Rightarrow> (Created (), s) | (Inl e, s) \<Rightarrow> (whitelist_error e, s))"

definition remove_whitelist_handler :: "soar_env \<Rightarrow> string \<Rightarrow> soar_state \<Rightarrow> unit response \<times> soar_state" where
  "remove_whitelist_handler E ip s =
     (case remove_whitelist E ip s of (Inr _, s) \<Rightarrow> (OkBody (), s) | (Inl e, s) \<Rightarrow> (whitelist_error e, s))"

section \<open>Events for a dry run\<close>

record dry_run_request =
  dq_attack_type :: string
  dq_confidence :: flt
  dq_source_ip :: string
  dq_sources :: "string list option"
  dq_active_source_count :: "nat option"
  dq_fused_confidence :: "flt option"
  dq_geoip_country :: "string option"
  dq_is_repeat_offender :: "bool option"

definition parse_dry_run_sources :: "string list option \<Rightarrow> (string, detection_source list) result" where
  "parse_dry_run_sources names =
     and_then (case names of
                 Some names \<Rightarrow> collect_results (map (\<lambda>n. ok_or (detection_source_from_str n) (''unknown DetectionSource: '' @ n)) names)
               | None \<Rightarrow> Inr [MlSource])
       (\<lambda>sources. if sources = [] then Inl ''sources[] must contain at least one DetectionSource (send null to default to [ML])'' else Inr sources)"

definition resolve_dry_run_active_source_count :: "nat option \<Rightarrow> nat \<Rightarrow> (string, nat) result" where
  "resolve_dry_run_active_source_count n sources_len =
     (let n = (case n of Some n \<Rightarrow> n | None \<Rightarrow> sources_len)
      in if n \<noteq> sources_len 
         then Inl (''active_source_count must match sources.len() for dry-run events (got '' @ show_nat n @ '', expected '' @ show_nat sources_len @ '')'')
         else Inr n)"

definition build_event :: "dry_run_request \<Rightarrow> (string, threat_event) result" where
  "build_event req =
     and_then (parse_dry_run_sources (dq_sources req)) (\<lambda>sources.
     and_then (resolve_dry_run_active_source_count (dq_active_source_count req) (length sources)) (\<lambda>active_source_count.
       Inr \<lparr>te_attack_type = dq_attack_type req, te_confidence = dq_confidence req, te_source_ip = dq_source_ip req,
            te_dest_ip = ''0.0.0.0'', te_flow_count = 1, te_packet_rate = Fin 0, te_protocol = 6,
            te_geoip_country = dq_geoip_country req,
            te_is_repeat_offender = (case dq_is_repeat_offender req of Some b \<Rightarrow> b | None \<Rightarrow> False),
            te_sources = sources, te_active_source_count = active_source_count,
            te_fused_confidence = (case dq_fused_confidence req of Some x \<Rightarrow> x | None \<Rightarrow> dq_confidence req), te_diagnostics = []\<rparr>))"

definition dry_run_handler :: "soar_env \<Rightarrow> dry_run_request \<Rightarrow> soar_state \<Rightarrow> (nat \<times> nat \<times> dry_run_match list) response" where
  "dry_run_handler E body s =
     (case build_event body of
        Inl msg \<Rightarrow> BadRequest (RefusedText msg)
      | Inr event \<Rightarrow>
          let matches = dry_run (se_cfg E) event (ss_matcher s)
          in OkBody (length (filter dm_would_fire matches), length matches, matches))"

section \<open>Accepted requests load\<close>

lemma map_actions_accepted:
  assumes "map_actions sj mx n as = Inr inputs"
  shows "list_all (\<lambda>a. \<exists>t. action_type_from_str (ai_action_type a) = Inr t) inputs
    \<and> map ai_action_order inputs = map (\<lambda>i. int (i + 1)) [n..<n + length as]
    \<and> map ai_params_json inputs = map (\<lambda>a. case rq_params a of Some v \<Rightarrow> sj v | None \<Rightarrow> ''{}'') as
    \<and> map ai_action_type inputs = map rq_action_type as"
  using assms
proof (induction as arbitrary: n inputs)
  case (Cons a as)
  then obtain rest where v: "validate_action (rq_action_type a) (rq_params a) mx = Inr ()" and r: "map_actions sj mx (Suc n) as = Inr rest"
    and i: "inputs = \<lparr>ai_action_order = int (n + 1), ai_action_type = rq_action_type a,
             ai_params_json = (case rq_params a of Some v \<Rightarrow> sj v | None \<Rightarrow> ''{}'')\<rparr> # rest"
    by (auto simp: result_iffs)
  have "\<exists>t. action_type_from_str (rq_action_type a) = Inr t"
    using v by (auto simp: validate_action_def Let_def split: if_splits sum.splits)
  with Cons.IH [OF r] i show ?case by (simp add: upt_conv_Cons del: upt_Suc)
qed simp

text \<open>A condition without an operator has the one its type comes with.\<close>

definition requested_operator :: "create_condition_request \<Rightarrow> string" where
  "requested_operator c =
     (case rq_operator c of
        Some op \<Rightarrow> op
      | None \<Rightarrow> case condition_type_from_str (rq_condition_type c) of Inr t \<Rightarrow> default_operator t | Inl _ \<Rightarrow> [])"

lemma map_conditions_fields:
  assumes "map_conditions cs = Inr inputs"
  shows "map (\<lambda>c. (ci_condition_type c, ci_operator c, ci_value c, ci_value2 c)) inputs =
    map (\<lambda>c. (rq_condition_type c, requested_operator c, rq_value c, rq_value2 c)) cs"
  using assms
proof (induction cs arbitrary: inputs)
  case (Cons c cs)
  then obtain input rest where "create_condition_input_new (rq_condition_type c) (rq_operator c) (rq_value c) (rq_value2 c) = Inr input"
    "map_conditions cs = Inr rest" "inputs = input # rest"
    by (cases "create_condition_input_new (rq_condition_type c) (rq_operator c) (rq_value c) (rq_value2 c)") (auto simp: result_iffs)
  with Cons.IH [of rest] show ?case
    by (auto simp: create_condition_input_new_def requested_operator_def result_iffs split: option.splits)
qed simp

lemma map_conditions_accepted:
  assumes "map_conditions cs = Inr inputs"
  shows "list_all (\<lambda>c. \<exists>t. condition_type_from_str (ci_condition_type c) = Inr t \<and> is_valid_operator t (ci_operator c)) inputs"
  using assms
proof (induction cs arbitrary: inputs)
  case (Cons c cs)
  then obtain input rest where "validate_condition_input input = Inr ()" "map_conditions cs = Inr rest" "inputs = input # rest"
    by (auto simp: result_iffs)
  with Cons.IH [of rest] show ?case by (auto simp: validate_condition_input_def split: sum.splits if_splits)
qed simp

lemma load_actions_ok:
  assumes "map (\<lambda>a. (av_action_order a, av_action_type a, av_params a)) vs = map (\<lambda>a. (ai_action_order a, ai_action_type a, f a)) inputs"
    and "list_all (\<lambda>a. \<exists>t. action_type_from_str (ai_action_type a) = Inr t) inputs"
  shows "\<exists>as. load_actions vs = Inr as \<and> map (\<lambda>a. (pa_action_order a, Inr (pa_action_type a), pa_params a)) as =
    map (\<lambda>a. (ai_action_order a, action_type_from_str (ai_action_type a), parse_action_params (f a))) inputs"
  using assms
proof (induction inputs arbitrary: vs)
  case (Cons a inputs)
  then obtain v ws where "vs = v # ws" by (cases vs) auto
  with Cons.prems Cons.IH [of ws] show ?case by fastforce
qed simp

lemma load_conditions_ok:
  assumes "map (\<lambda>c. (cv_condition_type c, cv_operator c, cv_value c, cv_value2 c)) vs =
      map (\<lambda>c. (ci_condition_type c, ci_operator c, ci_value c, ci_value2 c)) inputs"
    and "list_all (\<lambda>c. \<exists>t. condition_type_from_str (ci_condition_type c) = Inr t \<and> is_valid_operator t (ci_operator c)) inputs"
  shows "\<exists>cs. load_conditions vs = Inr cs \<and> map (\<lambda>c. (Inr (pc_condition_type c), pc_operator c, pc_value c, pc_value2 c)) cs =
    map (\<lambda>c. (condition_type_from_str (ci_condition_type c), ci_operator c, ci_value c, ci_value2 c)) inputs"
  using assms
proof (induction inputs arbitrary: vs)
  case (Cons c inputs)
  then obtain v ws where "vs = v # ws" by (cases vs) auto
  with Cons.prems Cons.IH [of ws] show ?case by fastforce
qed simp

lemma load_playbooks_append:
  "load_playbooks vs = Inr old \<Longrightarrow> load_playbooks (vs @ ws) = and_then (load_playbooks ws) (\<lambda>new. Inr (old @ new))"
proof (induction vs arbitrary: old)
  case (Cons v vs)
  then show ?case by (cases "load_playbooks ws") (auto simp: result_iffs split: option.splits)
next
  case Nil
  then show ?case by (cases "load_playbooks ws") simp_all
qed

text \<open>With a store that answers, a reload brings the listed playbooks to the matcher.\<close>

lemma reload_cache_loads:
  assumes "\<forall>n. se_db E n" "list_playbooks True (se_pj E) (ss_tables s) = Inr vs" "load_playbooks vs = Inr pbs"
  shows "fst (reload_cache E s) = Inr () \<and> pm_playbooks (ss_matcher (snd (reload_cache E s))) = pbs"
  using assms by (simp add: reload_cache_def db_query_def list_admin_whitelist_def count_active_soar_blocks_def set_block_count_def Let_def)

lemma accepted_request:
  assumes "map_request_to_input sj body fallback mx = Inr input"
  shows "cp_name input = rq_name body" "cp_trigger_event input = rq_trigger_event body"
    "cp_cooldown_secs input = (case rq_cooldown_secs body of Some c \<Rightarrow> c | None \<Rightarrow> fallback)"
    "map_actions sj mx 0 (rq_actions body) = Inr (cp_actions input)"
    "map_conditions (case rq_conditions body of Some cs \<Rightarrow> cs | None \<Rightarrow> []) = Inr (cp_conditions input)"
  using assms by (auto simp: map_request_to_input_def result_iffs Let_def)

lemma map_actions_orders:
  "map_actions sj mx n as = Inr inputs \<Longrightarrow> sorted (map ai_action_order inputs) \<and> distinct (map ai_action_order inputs)"
  using map_actions_accepted [of sj mx n as inputs] by (auto simp: sorted_map distinct_map inj_on_def sorted_wrt_upt intro: sorted_wrt_mono_rel [OF _ sorted_wrt_upt])

text \<open>The playbook the engine works with after an accepted request: \<open>params\<close> reads the stored parameters back.\<close>

definition loaded_as :: "(string \<Rightarrow> json option) \<Rightarrow> create_playbook_input \<Rightarrow> int \<Rightarrow> attack_type \<Rightarrow> playbook \<Rightarrow> bool" where
  "loaded_as pj input i trigger p \<longleftrightarrow>
     pb_id p = i \<and> pb_name p = cp_name input \<and> pb_enabled p \<and> pb_trigger_event p = trigger \<and> pb_cooldown_secs p = cp_cooldown_secs input
     \<and> map (\<lambda>a. (pa_action_order a, Inr (pa_action_type a), pa_params a)) (pb_actions p) =
         map (\<lambda>a. (ai_action_order a, action_type_from_str (ai_action_type a), parse_action_params (the (pj (ai_params_json a))))) (cp_actions input)
     \<and> map (\<lambda>c. (Inr (pc_condition_type c), pc_operator c, pc_value c, pc_value2 c)) (pb_conditions p) =
         map (\<lambda>c. (condition_type_from_str (ci_condition_type c), ci_operator c, ci_value c, ci_value2 c)) (cp_conditions input)"

lemma loaded_view:
  assumes "wf_tables t" "map_request_to_input sj body fallback mx = Inr input"
    and v: "v = view_of pj (inserted input t) (playbook_row_of (t_playbook_seq t + 1) input)"
  shows "\<exists>new. load_playbooks [v] = Inr new \<and>
    (case canonical_from_str (rq_trigger_event body) of
       None \<Rightarrow> new = [] | Some trigger \<Rightarrow> \<exists>p. new = [p] \<and> loaded_as pj input (t_playbook_seq t + 1) trigger p)"
proof -
  note req = accepted_request [OF assms(2)]
  note view = inserted_view [OF assms(1) conjunct1 [OF map_actions_orders [OF req(4)]] v]
  obtain as where as: "load_actions (pv_actions v) = Inr as"
      "map (\<lambda>a. (pa_action_order a, Inr (pa_action_type a), pa_params a)) as =
       map (\<lambda>a. (ai_action_order a, action_type_from_str (ai_action_type a), parse_action_params (the (pj (ai_params_json a))))) (cp_actions input)"
    using load_actions_ok [OF view(1)] map_actions_accepted [OF req(4)] by blast
  obtain cs where cs: "load_conditions (pv_conditions v) = Inr cs"
      "map (\<lambda>c. (Inr (pc_condition_type c), pc_operator c, pc_value c, pc_value2 c)) cs =
       map (\<lambda>c. (condition_type_from_str (ci_condition_type c), ci_operator c, ci_value c, ci_value2 c)) (cp_conditions input)"
    using load_conditions_ok [OF view(2)] map_conditions_accepted [OF req(5)] by blast
  have "pv_id v = t_playbook_seq t + 1" "pv_name v = cp_name input" "pv_enabled v" "pv_trigger_event v = rq_trigger_event body"
    "pv_cooldown_secs v = cp_cooldown_secs input"
    using req(2) by (simp_all add: v view_of_def bare_view_def playbook_row_of_def)
  with as cs show ?thesis by (cases "canonical_from_str (rq_trigger_event body)") (simp_all add: loaded_as_def)
qed

text \<open>
  The same in terms of the request: the actions are numbered from 1 in the order of the request, each with its type and
  its parameters (none is an empty object), and the conditions stand in the order of the request with their operators.
\<close>

definition requested_conditions :: "create_playbook_request \<Rightarrow> create_condition_request list" where
  "requested_conditions body = (case rq_conditions body of Some cs \<Rightarrow> cs | None \<Rightarrow> [])"

definition loaded_from :: "create_playbook_request \<Rightarrow> int \<Rightarrow> int \<Rightarrow> attack_type \<Rightarrow> playbook \<Rightarrow> bool" where
  "loaded_from body fallback i trigger p \<longleftrightarrow>
     pb_id p = i \<and> pb_name p = rq_name body \<and> pb_enabled p \<and> pb_trigger_event p = trigger
     \<and> pb_cooldown_secs p = (case rq_cooldown_secs body of Some c \<Rightarrow> c | None \<Rightarrow> fallback)
     \<and> map (\<lambda>a. (pa_action_order a, Inr (pa_action_type a), pa_params a)) (pb_actions p) =
         map (\<lambda>(k, a). (int k, action_type_from_str (rq_action_type a),
                          parse_action_params (case rq_params a of Some j \<Rightarrow> j | None \<Rightarrow> JObject [])))
           (List.enumerate 1 (rq_actions body))
     \<and> map (\<lambda>c. (Inr (pc_condition_type c), pc_operator c, pc_value c, pc_value2 c)) (pb_conditions p) =
         map (\<lambda>c. (condition_type_from_str (rq_condition_type c), requested_operator c, rq_value c, rq_value2 c))
           (requested_conditions body)"

lemma map_actions_fields:
  assumes "map_actions sj mx n as = Inr inputs" "pj ''{}'' = Some (JObject [])"
    and "\<forall>a\<in>set as. \<forall>j. rq_params a = Some j \<longrightarrow> pj (sj j) = Some j"
  shows "map (\<lambda>a. (ai_action_order a, action_type_from_str (ai_action_type a), parse_action_params (the (pj (ai_params_json a))))) inputs =
    map (\<lambda>(k, a). (int k, action_type_from_str (rq_action_type a),
                   parse_action_params (case rq_params a of Some j \<Rightarrow> j | None \<Rightarrow> JObject []))) (List.enumerate (Suc n) as)"
  using assms
proof (induction as arbitrary: n inputs)
  case (Cons a as)
  then obtain rest where r: "map_actions sj mx (Suc n) as = Inr rest"
    and i: "inputs = \<lparr>ai_action_order = int (n + 1), ai_action_type = rq_action_type a,
             ai_params_json = (case rq_params a of Some v \<Rightarrow> sj v | None \<Rightarrow> ''{}'')\<rparr> # rest"
    by (auto simp: result_iffs)
  with Cons.IH [OF r] Cons.prems(2,3) show ?case by (auto split: option.splits)
qed simp

lemma loaded_as_requested:
  assumes "map_request_to_input sj body fallback mx = Inr input" "pj ''{}'' = Some (JObject [])"
    and "\<forall>a\<in>set (rq_actions body). \<forall>j. rq_params a = Some j \<longrightarrow> pj (sj j) = Some j"
    and "loaded_as pj input i trigger p"
  shows "loaded_from body fallback i trigger p"
proof -
  note req = accepted_request [OF assms(1)]
  have "map (\<lambda>c. (condition_type_from_str (ci_condition_type c), ci_operator c, ci_value c, ci_value2 c)) (cp_conditions input) =
      map (\<lambda>c. (condition_type_from_str (rq_condition_type c), requested_operator c, rq_value c, rq_value2 c)) (requested_conditions body)"
    using arg_cong [OF map_conditions_fields [OF req(5)], of "map (\<lambda>(t, r). (condition_type_from_str t, r))"]
    by (simp add: comp_def requested_conditions_def)
  with assms(4) req(1,3) map_actions_fields [OF req(4) assms(2,3)] show ?thesis by (simp add: loaded_as_def loaded_from_def)
qed

text \<open>
  C23. From an accepted request to the engine: where the tables are well-formed and load, the store answers, and
  the written parameters read back as themselves, an accepted request whose condition types are distinct is
  answered 201 and the matcher works with the playbooks of before and, where the trigger names a canonical
  attack type, one more that is what the request says: its name, trigger and cooldown (or the configured one), its
  actions numbered in their order with their types and parameters, and its conditions with their types, operators
  and values. A request whose trigger names no canonical type is answered 201 as well, and the engine never uses
  its playbook.
\<close>

theorem created_playbook_is_loaded:
  assumes "wf_tables (ss_tables s)" "readable_params (se_pj E) (ss_tables s)" "\<forall>n. se_db E n"
    and "\<forall>a\<in>set (rq_actions body). \<forall>j. rq_params a = Some j \<longrightarrow> se_pj E (sj j) = Some j" "se_pj E ''{}'' = Some (JObject [])"
    and "list_playbooks True (se_pj E) (ss_tables s) = Inr vs" "load_playbooks vs = Inr old"
    and "map_request_to_input sj body (fallback_cooldown_secs (se_cfg E)) (max_ttl_secs (se_cfg E)) = Inr input"
    and "distinct (map rq_condition_type (requested_conditions body))"
  shows "\<exists>i s' new. create_playbook_handler sj E body s = (Created i, s') \<and> pm_playbooks (ss_matcher s') = old @ new
    \<and> (case canonical_from_str (rq_trigger_event body) of
         None \<Rightarrow> new = []
       | Some trigger \<Rightarrow> \<exists>p. new = [p] \<and> loaded_from body (fallback_cooldown_secs (se_cfg E)) i trigger p)"
proof -
  let ?t = "ss_tables s" and ?i = "t_playbook_seq (ss_tables s) + 1"
  note req = accepted_request [OF assms(8)]
  define v where v: "v = view_of (se_pj E) (inserted input ?t) (playbook_row_of ?i input)"
  obtain new where new: "load_playbooks [v] = Inr new"
      "case canonical_from_str (rq_trigger_event body) of
         None \<Rightarrow> new = []
       | Some trigger \<Rightarrow> \<exists>p. new = [p] \<and> loaded_from body (fallback_cooldown_secs (se_cfg E)) ?i trigger p"
    using loaded_view [OF assms(1,8) v] loaded_as_requested [OF assms(8,5,4)] by (auto split: option.splits)
  have types: "distinct (map ci_condition_type (cp_conditions input))"
    using assms(9) arg_cong [OF map_conditions_fields [OF req(5)], of "map fst"] by (simp add: comp_def requested_conditions_def)
  let ?text = "\<lambda>a. case rq_params a of Some v \<Rightarrow> sj v | None \<Rightarrow> ''{}''"
  have texts: "map ai_params_json (cp_actions input) = map ?text (rq_actions body)" using map_actions_accepted [OF req(4)] by simp
  have "\<forall>x\<in>set (map ?text (rq_actions body)). se_pj E x \<noteq> None" using assms(4,5) by (auto split: option.splits)
  then have "\<forall>a\<in>set (cp_actions input). se_pj E (ai_params_json a) \<noteq> None" unfolding texts [symmetric] by simp
  then have "list_playbooks True (se_pj E) (inserted input ?t) = Inr (vs @ [v])"
    using list_inserted [OF assms(1,2)] list_playbooks_spec [OF _ assms(2)] assms(1,6) by (simp add: v wf_tables_def)
  moreover have "load_playbooks (vs @ [v]) = Inr (old @ new)" using load_playbooks_append [OF assms(7)] new(1) by simp
  ultimately have reload: "fst (reload_cache E s') = Inr () \<and> pm_playbooks (ss_matcher (snd (reload_cache E s'))) = old @ new"
    if "ss_tables s' = inserted input ?t" for s'
    using that by (intro reload_cache_loads [OF assms(3)]) simp_all
  have "create_playbook E input s = (Inr ?i, snd (reload_cache E (s\<lparr>ss_calls := Suc (ss_calls s), ss_tables := inserted input ?t\<rparr>)))"
    using insert_playbook_spec [OF assms(1), of input] assms(3) types map_actions_orders [OF req(4)]
      reload [of "s\<lparr>ss_calls := Suc (ss_calls s), ss_tables := inserted input ?t\<rparr>"]
    by (cases "reload_cache E (s\<lparr>ss_calls := Suc (ss_calls s), ss_tables := inserted input ?t\<rparr>)")
      (simp add: create_playbook_def tables_update_def Let_def)
  with assms(8) new(2) reload [of "s\<lparr>ss_calls := Suc (ss_calls s), ss_tables := inserted input ?t\<rparr>"] show ?thesis
    by (simp add: create_playbook_handler_def)
qed

definition sample_texts :: "json \<Rightarrow> string" where
  "sample_texts j = (if j = JObject [(''ttl_secs'', JPosInt 3600)] then ''T'' else ''{}'')"

definition sample_request :: create_playbook_request where
  "sample_request =
     \<lparr>rq_name = ''c2'', rq_trigger_event = attack_type_as_str C2Beacon, rq_condition_threshold = None, rq_condition_count = None,
      rq_condition_window_secs = None, rq_cooldown_secs = Some 600,
      rq_actions = [\<lparr>rq_action_type = ''block_ip'', rq_params = Some (JObject [(''ttl_secs'', JPosInt 3600)])\<rparr>,
                    \<lparr>rq_action_type = ''send_telegram'', rq_params = None\<rparr>],
      rq_conditions = Some [\<lparr>rq_condition_type = ''ip_pattern'', rq_operator = None, rq_value = sample_pattern, rq_value2 = None\<rparr>]\<rparr>"

theorem created_playbook_is_loaded_witness:
  "\<exists>i s' p. create_playbook_handler sample_texts sample_env sample_request sample_state = (Created i, s')
    \<and> pm_playbooks (ss_matcher s') = [p] \<and> pb_name p = ''c2'' \<and> pb_trigger_event p = C2Beacon
    \<and> map pa_action_type (pb_actions p) = [BlockIp, SendTelegram]
    \<and> map pc_condition_type (pb_conditions p) = [IpPattern] \<and> map pc_operator (pb_conditions p) = [''in'']"
proof -
  have a: "map_actions sample_texts 86400 0 (rq_actions sample_request) = Inr
      [\<lparr>ai_action_order = 1, ai_action_type = ''block_ip'', ai_params_json = ''T''\<rparr>,
       \<lparr>ai_action_order = 2, ai_action_type = ''send_telegram'', ai_params_json = ''{}''\<rparr>]"
    by (simp add: sample_request_def sample_texts_def validate_action_def action_type_from_str_def json_get_def as_u64_def
        validate_optional_positive_u64_def validate_optional_max_u64_def)
  have "parse_ip_pattern sample_pattern = Some (IpV4 3221225984, 24)"
    using parse_show_pattern [of 24 3221225984] by (simp add: sample_pattern_def)
  then have "is_valid_ip_pattern sample_pattern" by (simp add: is_valid_ip_pattern_def validate_prefix_def)
  then have b: "map_conditions [\<lparr>rq_condition_type = ''ip_pattern'', rq_operator = None, rq_value = sample_pattern, rq_value2 = None\<rparr>] = Inr
      [\<lparr>ci_condition_type = ''ip_pattern'', ci_operator = ''in'', ci_value = sample_pattern, ci_value2 = None\<rparr>]"
    by (simp add: create_condition_input_new_def condition_type_from_str_def default_operator_def validate_condition_input_def
        is_valid_operator_def validate_condition_value_def)
  obtain input where i: "map_request_to_input sample_texts sample_request (fallback_cooldown_secs (se_cfg sample_env)) (max_ttl_secs (se_cfg sample_env)) = Inr input"
    using a b by (auto simp: map_request_to_input_def sample_env_def SoarConfig_defaults_def sample_request_def validate_optional_positive_i64_def
        validate_cooldown_secs_def)
  have c: "distinct (map rq_condition_type (requested_conditions sample_request))" by (simp add: requested_conditions_def sample_request_def)
  have l: "list_playbooks True (se_pj sample_env) (ss_tables sample_state) = Inr []"
    by (simp add: sample_state_def list_playbooks_def list_playbooks_with_actions_def list_all_playbook_conditions_def no_tables_def)
  have "wf_tables (ss_tables sample_state)" "readable_params (se_pj sample_env) (ss_tables sample_state)"
    by (simp_all add: sample_state_def wf_tables_def readable_params_def no_tables_def)
  moreover have "\<forall>n. se_db sample_env n" "se_pj sample_env ''{}'' = Some (JObject [])"
      "\<forall>a\<in>set (rq_actions sample_request). \<forall>j. rq_params a = Some j \<longrightarrow> se_pj sample_env (sample_texts j) = Some j"
    by (simp_all add: sample_env_def two_texts_def sample_request_def sample_texts_def)
  ultimately obtain i s' new where "create_playbook_handler sample_texts sample_env sample_request sample_state = (Created i, s')"
      "pm_playbooks (ss_matcher s') = [] @ new"
      "case canonical_from_str (rq_trigger_event sample_request) of
         None \<Rightarrow> new = []
       | Some trigger \<Rightarrow> \<exists>p. new = [p] \<and> loaded_from sample_request (fallback_cooldown_secs (se_cfg sample_env)) i trigger p"
    using created_playbook_is_loaded [OF _ _ _ _ _ l _ i c] by auto
  then show ?thesis
    by (auto simp: sample_request_def loaded_from_def requested_conditions_def requested_operator_def condition_type_from_str_def
        default_operator_def action_type_from_str_def)
qed

end
