(* ===== verification/Detection_Response.thy ===== *)
theory Detection_Response
  imports Orchestrator Soar_Lifecycle
begin

text \<open>
  From a detection to the dropped packet: the threat the fusion publishes, the response of the engine to
  it, and the programs of the data plane that read the lists the response has changed.
\<close>

lemma execution_keeps_kernel: "insert_soar_execution E x s = (r, s') \<Longrightarrow> ss_kernel s' = ss_kernel s"
  by (auto simp: insert_soar_execution_def Let_def split: if_splits)

lemma fallback_blocks:
  assumes "execute_fallback E te s = (Inr FallbackBlocked, s')" "is_enforce_mode s"
  shows "\<exists>msg s1. action_block_ip E (fallback_action (se_cfg E)) te FALLBACK_PLAYBOOK_ID s = (Inr msg, s1) \<and> ss_kernel s' = ss_kernel s1"
proof -
  obtain r s1 where r: "action_block_ip E (fallback_action (se_cfg E)) te FALLBACK_PLAYBOOK_ID s = (r, s1)" by fastforce
  have x: "execute_action E (fallback_action (se_cfg E)) te FALLBACK_PLAYBOOK_ID s = (r, s1)"
    using r assms(2) by (simp add: execute_action_def fallback_action_def)
  show ?thesis
  proof (cases r)
    case (Inr msg)
    then show ?thesis using assms(1) r x
      by (auto simp: execute_fallback_def try_then_def Let_def split: if_splits prod.splits sum.splits dest!: execution_keeps_kernel)
  next
    case (Inl e)
    then show ?thesis using assms(1) x
      by (auto simp: execute_fallback_def try_then_def Let_def split: if_splits prod.splits sum.splits)
  qed
qed

lemma handled_by_fallback:
  assumes "handle_threat_event E te s = (Inr (Fallback FallbackBlocked), s')" "is_enforce_mode s"
  shows "\<exists>msg s0 s1. action_block_ip E (fallback_action (se_cfg E)) te FALLBACK_PLAYBOOK_ID s0 = (Inr msg, s1)
    \<and> ss_kernel s0 = ss_kernel s \<and> ss_kernel s' = ss_kernel s1"
proof -
  obtain matching m where m: "find_matching_playbooks (se_sel E) (se_cfg E) (se_now E) te (ss_matcher s) = (matching, m)" by fastforce
  let ?s = "s\<lparr>ss_matcher := m\<rparr>"
  have "execute_fallback E te ?s = (Inr FallbackBlocked, s')"
    using assms(1) m by (auto simp: handle_threat_event_def try_then_def Let_def split: if_splits prod.splits sum.splits)
  from fallback_blocks [OF this] assms(2) obtain msg s1
    where "action_block_ip E (fallback_action (se_cfg E)) te FALLBACK_PLAYBOOK_ID ?s = (Inr msg, s1)" "ss_kernel s' = ss_kernel s1"
    by (auto simp: is_enforce_mode_def)
  then show ?thesis by (intro exI [of _ msg] exI [of _ ?s] exI [of _ s1]) simp
qed

text \<open>
  C1. A detection is answered in the data plane: let the fusion publish a threat for a detection, and let the engine, in
  enforce mode, answer the threat with its fallback and report the source as blocked. Then every later frame from the
  detected address that the parser accepts and no whitelist entry admits is dropped by the chain of ingress programs,
  wherever in it the access-control stage stands, while the kernel's lists are as the engine left them. (In the
  monitor mode the engine reports the same and blocks nothing.)
\<close>

theorem detection_is_answered:
  assumes "lru_cache (oe_dedup F)" "orchestrator_reach F c f" "handle_detection F now now2 ev f = (Some te, f')"
    and "acl_kernel (se_acl E)" "wf_acl (ss_kernel s)" "\<not> admits (se_acl E) (ss_kernel s) pkt" "ss_enforce_level s = ENFORCE_LEVEL_ENFORCE"
    and "handle_threat_event E te s = (Inr (Fallback FallbackBlocked), s')"
    and "ingress_object B" "distinct sts" "AclStage \<in> set sts" "length sts < n"
    and "configure_ingress_pipeline B (map stage_name sts) = Inr (PA, NS)"
    and "acl X = kernel_acl (ss_kernel s') g4 g6" "ne (plat X) = acl_ne (se_acl E)"
    and "PARSED_PACKET i = Some target" "wf_packet target" "parse_packet (plat X) (frame ctx) target = Some (True, pkt)"
    and "parse_ip_addr (de_source_ip ev) = Some addr" "frame_from (frame ctx) pkt addr"
  shows "\<exists>i'. run_prog (configured X PA NS) ctx n NetGuardia i = Some (XDP_DROP, i')"
proof -
  have d: "dedup_cache F" using assms(1) by (simp add: dedup_cache_def)
  have ip: "te_source_ip te = de_source_ip ev"
    using dedup_cache.handle_detection_spec [OF d dedup_cache.reach_good [OF d assms(2)], of now now2 ev] assms(3)
    by (auto simp: publishes_def split: option.splits)
  obtain msg s0 s1 where r: "action_block_ip E (fallback_action (se_cfg E)) te FALLBACK_PLAYBOOK_ID s0 = (Inr msg, s1)"
      "ss_kernel s0 = ss_kernel s" "ss_kernel s' = ss_kernel s1"
    using handled_by_fallback [OF assms(8)] assms(7) by (auto simp: is_enforce_mode_def)
  have w: "wf_acl (ss_kernel s0)" using assms(5) r(2) by simp
  have "block_ip (se_acl E) (de_source_ip ev) (ss_kernel s) = Inr (ss_kernel s')"
    using block_reported [OF assms(4) w r(1)] r(2,3) ip by auto
  from block_ip_drops [OF assms(4,5,6) this assms(19,9,10,11,12,13,14,15,16,17,18,20)] show ?thesis .
qed

lemma sample_fallback:
  assumes "te_source_ip te = show_ipv4 3221225985"
  shows "\<exists>s'. handle_threat_event sample_env te sample_state = (Inr (Fallback FallbackBlocked), s')"
proof -
  have ne: "show_ipv4 3221225985 \<noteq> []" by (simp add: show_ipv4_def)
  have f: "find_matching_playbooks sel cfg t te (ss_matcher sample_state) = ([], ss_matcher sample_state)" for sel cfg t
    by (simp add: find_matching_playbooks_def sample_state_def PlaybookMatcher_new_def)
  have "\<exists>msg s1. action_block_ip sample_env block_action te FALLBACK_PLAYBOOK_ID sample_state = (Inr msg, s1)"
    using sample_ttl_valid(1) sample_block_twice(1) assms
    by (simp add: action_block_ip_eq sample_state_def block_ttl_sample sample_env_def PlaybookMatcher_new_def SoarConfig_defaults_def
        block_expiry_def db_update_def commit_soar_block_to_db_def Let_def)
  then obtain msg s1 where a: "action_block_ip sample_env (fallback_action (se_cfg sample_env)) te FALLBACK_PLAYBOOK_ID sample_state = (Inr msg, s1)"
    by (auto simp: block_action_def sample_env_def)
  have "execute_action sample_env (fallback_action (se_cfg sample_env)) te FALLBACK_PLAYBOOK_ID sample_state = (Inr msg, s1)"
    using a by (simp add: execute_action_def fallback_action_def is_enforce_mode_def sample_state_def)
  then have "\<exists>s'. execute_fallback sample_env te sample_state = (Inr FallbackBlocked, s')"
    by (simp add: execute_fallback_def insert_soar_execution_def is_cooldown_active_def Let_def)
       (simp add: sample_env_def sample_state_def PlaybookMatcher_new_def)
  then show ?thesis using ne f assms by (auto simp: handle_threat_event_def)
qed

definition attacker_event :: detection_event where
  "attacker_event = correlation_event PortScan (80 / 100) (show_ipv4 3221225985) ''10.0.0.1'' (probe 22)"

theorem detection_is_answered_witness:
  "\<exists>te f' s' PA NS i'. handle_detection list_env 0 0 attacker_event (DetectionOrchestrator_new list_env fusion_defaults) = (Some te, f')
    \<and> handle_threat_event sample_env te sample_state = (Inr (Fallback FallbackBlocked), s')
    \<and> run_prog (configured (quiet_env\<lparr>acl := kernel_acl (ss_kernel s') (\<lambda>_ _. None) (\<lambda>_ _. None)\<rparr>) PA NS) sample_ctx 33 NetGuardia boot_state
        = Some (XDP_DROP, i')"
proof -
  let ?f = "DetectionOrchestrator_new list_env fusion_defaults"
  have "\<exists>x. window_samples list_env 0 attacker_event ?f = Some x" by (simp add: window_samples_def DetectionOrchestrator_new_def Let_def)
  then obtain te where te: "fst (handle_detection list_env 0 0 attacker_event ?f) = Some te" "te_source_ip te = de_source_ip attacker_event"
    using listed.handle_detection_spec [OF listed.new_good [of fusion_defaults], where now = 0 and ?now2.0 = 0 and ev = attacker_event]
    by (auto simp: publishes_def)
  then obtain f' where h: "handle_detection list_env 0 0 attacker_event ?f = (Some te, f')" by (metis prod.collapse)
  obtain s' where r: "handle_threat_event sample_env te sample_state = (Inr (Fallback FallbackBlocked), s')"
    using sample_fallback [of te] te(2) by (auto simp: attacker_event_def correlation_event_def)
  obtain PA NS where c: "configure_ingress_pipeline ingress_elf (map stage_name [AclStage, RateStage, ServiceStage]) = Inr (PA, NS)"
    using default_configured by blast
  have k: "acl_kernel (se_acl sample_env)" by (simp add: sample_env_def capped_acl.acl_kernel_axioms)
  have "\<exists>i'. run_prog (configured (quiet_env\<lparr>acl := kernel_acl (ss_kernel s') (\<lambda>_ _. None) (\<lambda>_ _. None)\<rparr>) PA NS) sample_ctx 33 NetGuardia boot_state
        = Some (XDP_DROP, i')"
    by (rule detection_is_answered [OF listed.cache.lru_cache_axioms orchestrator_reach.start h k _ _ _ r elf.ingress_object_axioms _ _ _ c,
          where target = zeroed_packet and pkt = sample_packet and addr = "IpV4 3221225985"])
      (simp_all add: sample_parse sample_frame_from capped_api_def wf_zeroed sample_env_def sample_state_def attacker_event_def correlation_event_def)
  with h r c show ?thesis by blast
qed

end
