(* ===== verification/Protocol_Filter_Adapter.thy ===== *)
theory Protocol_Filter_Adapter
  imports Acl_Adapter Protocol_Filter_Stage Rust_Net
begin

text \<open>
  The user-space side of the service rules (\<^verbatim>\<open>adapter/ebpf/protocol_filter.rs\<close>): the HTTP services with
  their admitted methods, the SSH services and the SSH allow and deny lists, each a map of the kernel that
  the ingress program of \<open>Protocol_Filter_Stage\<close> reads. The maps are those of the locale \<open>bpf_hash\<close>.

  What the adapter promises is a policy over addresses and method sets (\<open>service_policy\<close>); the operations
  refine the operations on policies, and the program's verdict is the policy's.
\<close>

section \<open>State\<close>

datatype socket_addr = SockV4 socket_addr_v4 | SockV6 socket_addr_v6

type_synonym 'k http_service_wrapper = "('k \<rightharpoonup> u16) option"
type_synonym 'k entry_map = "('k \<rightharpoonup> u8) option"

text \<open>\<^verbatim>\<open>WhiteListControl\<close>: the first slot of an array map, once the object is loaded.\<close>

type_synonym white_list_control = "u8 option option"

record protocol_filter_adapter =
  ipv4_http_service :: "addr_port_v4 http_service_wrapper"
  ipv6_http_service :: "addr_port_v6 http_service_wrapper"
  ssh_white_list_enable :: white_list_control
  ipv4_ssh_service :: "addr_port_v4 entry_map"
  ipv6_ssh_service :: "addr_port_v6 entry_map"
  ipv4_ssh_white_list :: "u32 entry_map"
  ipv6_ssh_white_list :: "u128 entry_map"
  ipv4_ssh_black_list :: "u32 entry_map"
  ipv6_ssh_black_list :: "u128 entry_map"

definition ProtocolFilter_unavailable :: protocol_filter_adapter where
  "ProtocolFilter_unavailable =
     \<lparr>ipv4_http_service = None, ipv6_http_service = None, ssh_white_list_enable = None, ipv4_ssh_service = None,
      ipv6_ssh_service = None, ipv4_ssh_white_list = None, ipv6_ssh_white_list = None, ipv4_ssh_black_list = None,
      ipv6_ssh_black_list = None\<rparr>"

text \<open>The kernel's updates of the maps; every map has its own capacity.\<close>

record filter_api =
  fa_ne :: endian
  http_ins :: "ip_version \<Rightarrow> (bytes, u16) hm_insert"
  http_del :: "ip_version \<Rightarrow> (bytes, u16) hm_remove"
  ssh_ins :: "ip_version \<Rightarrow> (bytes, u8) hm_insert"
  ssh_del :: "ip_version \<Rightarrow> (bytes, u8) hm_remove"
  ip4_ins :: "list_type \<Rightarrow> (u32, u8) hm_insert"
  ip4_del :: "list_type \<Rightarrow> (u32, u8) hm_remove"
  ip6_ins :: "list_type \<Rightarrow> (u128, u8) hm_insert"
  ip6_del :: "list_type \<Rightarrow> (u128, u8) hm_remove"

section \<open>One map\<close>

definition require_v4_socket :: "socket_addr \<Rightarrow> (ebpf_error, socket_addr_v4) result" where
  "require_v4_socket addr = (case addr of SockV4 a \<Rightarrow> Inr a | SockV6 _ \<Rightarrow> Inl (IpVersionMismatch ''IPv4''))"

definition require_v6_socket :: "socket_addr \<Rightarrow> (ebpf_error, socket_addr_v6) result" where
  "require_v6_socket addr = (case addr of SockV6 a \<Rightarrow> Inr a | SockV4 _ \<Rightarrow> Inl (IpVersionMismatch ''IPv6''))"

definition require_v4_ip :: "ip_addr \<Rightarrow> (ebpf_error, u32) result" where
  "require_v4_ip ip = (case ip of IpV4 a \<Rightarrow> Inr a | IpV6 _ \<Rightarrow> Inl (IpVersionMismatch ''IPv4''))"

definition require_v6_ip :: "ip_addr \<Rightarrow> (ebpf_error, u128) result" where
  "require_v6_ip ip = (case ip of IpV6 a \<Rightarrow> Inr a | IpV4 _ \<Rightarrow> Inl (IpVersionMismatch ''IPv6''))"

lemmas require_defs = require_v4_socket_def require_v6_socket_def require_v4_ip_def require_v6_ip_def

definition is_white_list_enable :: "white_list_control \<Rightarrow> bool" where
  "is_white_list_enable w = (case w of Some (Some status) \<Rightarrow> status \<noteq> 0 | _ \<Rightarrow> False)"

definition set_white_list :: "bool \<Rightarrow> white_list_control \<Rightarrow> (ebpf_error, white_list_control) result" where
  "set_white_list enabled w =
     and_then (ok_or w NotLoaded) (\<lambda>slot.
     and_then (ok_or slot MapOperationError) (\<lambda>_. Inr (Some (Some (if enabled then 1 else 0)))))"

definition get_http_method :: "('k \<Rightarrow> 'n) \<Rightarrow> 'k http_service_wrapper \<Rightarrow> ('n \<times> http_method list) set" where
  "get_http_method into_native w =
     (case w of None \<Rightarrow> {} | Some m \<Rightarrow> {(into_native key, convert_from_bitmap v) | key v. m key = Some v})"

definition wrapper_add_http_service ::
  "('k, u16) hm_insert \<Rightarrow> 'k \<Rightarrow> http_method list \<Rightarrow> 'k http_service_wrapper \<Rightarrow> (ebpf_error, 'k http_service_wrapper) result" where
  "wrapper_add_http_service ins address methods w =
     and_then (ok_or w NotLoaded) (\<lambda>m.
     and_then (ok_or (ins m address (convert_to_bitmap methods)) MapOperationError) (\<lambda>m. Inr (Some m)))"

definition wrapper_remove_http_service ::
  "('k, u16) hm_insert \<Rightarrow> ('k, u16) hm_remove \<Rightarrow> 'k \<Rightarrow> http_method list \<Rightarrow> 'k http_service_wrapper
   \<Rightarrow> (ebpf_error, 'k http_service_wrapper) result" where
  "wrapper_remove_http_service ins del address removed w =
     and_then (ok_or w NotLoaded) (\<lambda>m.
       case m address of
         None \<Rightarrow> Inl IpDoesNotExist
       | Some current \<Rightarrow>
           let http_method = filter (\<lambda>x. x \<notin> set removed) (convert_from_bitmap current) in
           if http_method = [] then and_then (ok_or (del m address) MapOperationError) (\<lambda>m. Inr (Some m))
           else and_then (ok_or (ins m address (convert_to_bitmap http_method)) MapOperationError) (\<lambda>m. Inr (Some m)))"

definition entry_get_all :: "('k \<Rightarrow> 'n) \<Rightarrow> 'k entry_map \<Rightarrow> 'n set" where
  "entry_get_all into_native w = (case w of None \<Rightarrow> {} | Some m \<Rightarrow> into_native ` dom m)"

definition entry_add :: "('k, u8) hm_insert \<Rightarrow> 'k \<Rightarrow> 'k entry_map \<Rightarrow> (ebpf_error, 'k entry_map) result" where
  "entry_add ins key w =
     and_then (ok_or w NotLoaded) (\<lambda>m. and_then (ok_or (ins m key 0) MapOperationError) (\<lambda>m. Inr (Some m)))"

definition entry_remove :: "('k, u8) hm_remove \<Rightarrow> 'k \<Rightarrow> 'k entry_map \<Rightarrow> (ebpf_error, 'k entry_map) result" where
  "entry_remove del key w =
     and_then (ok_or w NotLoaded) (\<lambda>m. and_then (ok_or (del m key) MapOperationError) (\<lambda>m. Inr (Some m)))"

section \<open>The ports\<close>

definition get_http_service :: "filter_api \<Rightarrow> ip_version \<Rightarrow> protocol_filter_adapter \<Rightarrow> (socket_addr \<times> http_method list) set" where
  "get_http_service A version pf =
     (case version of
        V4 \<Rightarrow> (\<lambda>(k, v). (SockV4 k, v)) ` get_http_method (addr_port_v4_into_native (fa_ne A)) (ipv4_http_service pf)
      | V6 \<Rightarrow> (\<lambda>(k, v). (SockV6 k, v)) ` get_http_method (addr_port_v6_into_native (fa_ne A)) (ipv6_http_service pf))"

definition add_http_service ::
  "filter_api \<Rightarrow> ip_version \<Rightarrow> socket_addr \<Rightarrow> http_method list \<Rightarrow> protocol_filter_adapter \<Rightarrow> (ebpf_error, protocol_filter_adapter) result" where
  "add_http_service A version address methods pf =
     (case version of
        V4 \<Rightarrow> and_then (require_v4_socket address) (\<lambda>a.
          and_then (wrapper_add_http_service (http_ins A V4) (addr_port_v4_from_native (fa_ne A) a) methods (ipv4_http_service pf))
            (\<lambda>w. Inr (pf\<lparr>ipv4_http_service := w\<rparr>)))
      | V6 \<Rightarrow> and_then (require_v6_socket address) (\<lambda>a.
          and_then (wrapper_add_http_service (http_ins A V6) (addr_port_v6_from_native (fa_ne A) a) methods (ipv6_http_service pf))
            (\<lambda>w. Inr (pf\<lparr>ipv6_http_service := w\<rparr>))))"

definition remove_http_service ::
  "filter_api \<Rightarrow> ip_version \<Rightarrow> socket_addr \<Rightarrow> http_method list \<Rightarrow> protocol_filter_adapter \<Rightarrow> (ebpf_error, protocol_filter_adapter) result" where
  "remove_http_service A version address methods pf =
     (case version of
        V4 \<Rightarrow> and_then (require_v4_socket address) (\<lambda>a.
          and_then (wrapper_remove_http_service (http_ins A V4) (http_del A V4) (addr_port_v4_from_native (fa_ne A) a) methods (ipv4_http_service pf))
            (\<lambda>w. Inr (pf\<lparr>ipv4_http_service := w\<rparr>)))
      | V6 \<Rightarrow> and_then (require_v6_socket address) (\<lambda>a.
          and_then (wrapper_remove_http_service (http_ins A V6) (http_del A V6) (addr_port_v6_from_native (fa_ne A) a) methods (ipv6_http_service pf))
            (\<lambda>w. Inr (pf\<lparr>ipv6_http_service := w\<rparr>))))"

definition is_ssh_white_list_enable :: "protocol_filter_adapter \<Rightarrow> bool" where
  "is_ssh_white_list_enable pf = is_white_list_enable (ssh_white_list_enable pf)"

definition enable_ssh_white_list :: "protocol_filter_adapter \<Rightarrow> (ebpf_error, protocol_filter_adapter) result" where
  "enable_ssh_white_list pf = and_then (set_white_list True (ssh_white_list_enable pf)) (\<lambda>w. Inr (pf\<lparr>ssh_white_list_enable := w\<rparr>))"

definition disable_ssh_white_list :: "protocol_filter_adapter \<Rightarrow> (ebpf_error, protocol_filter_adapter) result" where
  "disable_ssh_white_list pf = and_then (set_white_list False (ssh_white_list_enable pf)) (\<lambda>w. Inr (pf\<lparr>ssh_white_list_enable := w\<rparr>))"

definition get_ssh_service :: "filter_api \<Rightarrow> ip_version \<Rightarrow> protocol_filter_adapter \<Rightarrow> socket_addr set" where
  "get_ssh_service A version pf =
     (case version of
        V4 \<Rightarrow> SockV4 ` entry_get_all (addr_port_v4_into_native (fa_ne A)) (ipv4_ssh_service pf)
      | V6 \<Rightarrow> SockV6 ` entry_get_all (addr_port_v6_into_native (fa_ne A)) (ipv6_ssh_service pf))"

definition add_ssh_service :: "filter_api \<Rightarrow> ip_version \<Rightarrow> socket_addr \<Rightarrow> protocol_filter_adapter \<Rightarrow> (ebpf_error, protocol_filter_adapter) result" where
  "add_ssh_service A version address pf =
     (case version of
        V4 \<Rightarrow> and_then (require_v4_socket address) (\<lambda>a.
          and_then (entry_add (ssh_ins A V4) (addr_port_v4_from_native (fa_ne A) a) (ipv4_ssh_service pf)) (\<lambda>w. Inr (pf\<lparr>ipv4_ssh_service := w\<rparr>)))
      | V6 \<Rightarrow> and_then (require_v6_socket address) (\<lambda>a.
          and_then (entry_add (ssh_ins A V6) (addr_port_v6_from_native (fa_ne A) a) (ipv6_ssh_service pf)) (\<lambda>w. Inr (pf\<lparr>ipv6_ssh_service := w\<rparr>))))"

definition remove_ssh_service :: "filter_api \<Rightarrow> ip_version \<Rightarrow> socket_addr \<Rightarrow> protocol_filter_adapter \<Rightarrow> (ebpf_error, protocol_filter_adapter) result" where
  "remove_ssh_service A version address pf =
     (case version of
        V4 \<Rightarrow> and_then (require_v4_socket address) (\<lambda>a.
          and_then (entry_remove (ssh_del A V4) (addr_port_v4_from_native (fa_ne A) a) (ipv4_ssh_service pf)) (\<lambda>w. Inr (pf\<lparr>ipv4_ssh_service := w\<rparr>)))
      | V6 \<Rightarrow> and_then (require_v6_socket address) (\<lambda>a.
          and_then (entry_remove (ssh_del A V6) (addr_port_v6_from_native (fa_ne A) a) (ipv6_ssh_service pf)) (\<lambda>w. Inr (pf\<lparr>ipv6_ssh_service := w\<rparr>))))"

definition get_ssh_white_list :: "filter_api \<Rightarrow> ip_version \<Rightarrow> protocol_filter_adapter \<Rightarrow> ip_addr set" where
  "get_ssh_white_list A version pf =
     (case version of
        V4 \<Rightarrow> IpV4 ` entry_get_all (ipv4_into_native (fa_ne A)) (ipv4_ssh_white_list pf)
      | V6 \<Rightarrow> IpV6 ` entry_get_all (ipv6_into_native (fa_ne A)) (ipv6_ssh_white_list pf))"

definition add_ssh_white_list :: "filter_api \<Rightarrow> ip_version \<Rightarrow> ip_addr \<Rightarrow> protocol_filter_adapter \<Rightarrow> (ebpf_error, protocol_filter_adapter) result" where
  "add_ssh_white_list A version ip pf =
     (case version of
        V4 \<Rightarrow> and_then (require_v4_ip ip) (\<lambda>a.
          and_then (entry_add (ip4_ins A White) (ipv4_from_native (fa_ne A) a) (ipv4_ssh_white_list pf)) (\<lambda>w. Inr (pf\<lparr>ipv4_ssh_white_list := w\<rparr>)))
      | V6 \<Rightarrow> and_then (require_v6_ip ip) (\<lambda>a.
          and_then (entry_add (ip6_ins A White) (ipv6_from_native (fa_ne A) a) (ipv6_ssh_white_list pf)) (\<lambda>w. Inr (pf\<lparr>ipv6_ssh_white_list := w\<rparr>))))"

definition remove_ssh_white_list :: "filter_api \<Rightarrow> ip_version \<Rightarrow> ip_addr \<Rightarrow> protocol_filter_adapter \<Rightarrow> (ebpf_error, protocol_filter_adapter) result" where
  "remove_ssh_white_list A version ip pf =
     (case version of
        V4 \<Rightarrow> and_then (require_v4_ip ip) (\<lambda>a.
          and_then (entry_remove (ip4_del A White) (ipv4_from_native (fa_ne A) a) (ipv4_ssh_white_list pf)) (\<lambda>w. Inr (pf\<lparr>ipv4_ssh_white_list := w\<rparr>)))
      | V6 \<Rightarrow> and_then (require_v6_ip ip) (\<lambda>a.
          and_then (entry_remove (ip6_del A White) (ipv6_from_native (fa_ne A) a) (ipv6_ssh_white_list pf)) (\<lambda>w. Inr (pf\<lparr>ipv6_ssh_white_list := w\<rparr>))))"

definition get_ssh_black_list :: "filter_api \<Rightarrow> ip_version \<Rightarrow> protocol_filter_adapter \<Rightarrow> ip_addr set" where
  "get_ssh_black_list A version pf =
     (case version of
        V4 \<Rightarrow> IpV4 ` entry_get_all (ipv4_into_native (fa_ne A)) (ipv4_ssh_black_list pf)
      | V6 \<Rightarrow> IpV6 ` entry_get_all (ipv6_into_native (fa_ne A)) (ipv6_ssh_black_list pf))"

definition add_ssh_black_list :: "filter_api \<Rightarrow> ip_version \<Rightarrow> ip_addr \<Rightarrow> protocol_filter_adapter \<Rightarrow> (ebpf_error, protocol_filter_adapter) result" where
  "add_ssh_black_list A version ip pf =
     (case version of
        V4 \<Rightarrow> and_then (require_v4_ip ip) (\<lambda>a.
          and_then (entry_add (ip4_ins A Black) (ipv4_from_native (fa_ne A) a) (ipv4_ssh_black_list pf)) (\<lambda>w. Inr (pf\<lparr>ipv4_ssh_black_list := w\<rparr>)))
      | V6 \<Rightarrow> and_then (require_v6_ip ip) (\<lambda>a.
          and_then (entry_add (ip6_ins A Black) (ipv6_from_native (fa_ne A) a) (ipv6_ssh_black_list pf)) (\<lambda>w. Inr (pf\<lparr>ipv6_ssh_black_list := w\<rparr>))))"

definition remove_ssh_black_list :: "filter_api \<Rightarrow> ip_version \<Rightarrow> ip_addr \<Rightarrow> protocol_filter_adapter \<Rightarrow> (ebpf_error, protocol_filter_adapter) result" where
  "remove_ssh_black_list A version ip pf =
     (case version of
        V4 \<Rightarrow> and_then (require_v4_ip ip) (\<lambda>a.
          and_then (entry_remove (ip4_del A Black) (ipv4_from_native (fa_ne A) a) (ipv4_ssh_black_list pf)) (\<lambda>w. Inr (pf\<lparr>ipv4_ssh_black_list := w\<rparr>)))
      | V6 \<Rightarrow> and_then (require_v6_ip ip) (\<lambda>a.
          and_then (entry_remove (ip6_del A Black) (ipv6_from_native (fa_ne A) a) (ipv6_ssh_black_list pf)) (\<lambda>w. Inr (pf\<lparr>ipv6_ssh_black_list := w\<rparr>))))"

section \<open>The policy the maps stand for\<close>

record service_policy =
  pol_http :: "socket_addr \<Rightarrow> http_method set option"
  pol_ssh :: "socket_addr set"
  pol_white :: "ip_addr set"
  pol_black :: "ip_addr set"
  pol_white_on :: bool

definition lookup :: "('k \<rightharpoonup> 'v) option \<Rightarrow> 'k \<Rightarrow> 'v option" where
  "lookup w k = (case w of None \<Rightarrow> None | Some m \<Rightarrow> m k)"

definition http_entry :: "endian \<Rightarrow> protocol_filter_adapter \<Rightarrow> socket_addr \<Rightarrow> u16 option" where
  "http_entry e pf sa =
     (case sa of SockV4 a \<Rightarrow> lookup (ipv4_http_service pf) (addr_port_v4_from_native e a)
      | SockV6 a \<Rightarrow> lookup (ipv6_http_service pf) (addr_port_v6_from_native e a))"

definition ssh_entry :: "endian \<Rightarrow> protocol_filter_adapter \<Rightarrow> socket_addr \<Rightarrow> u8 option" where
  "ssh_entry e pf sa =
     (case sa of SockV4 a \<Rightarrow> lookup (ipv4_ssh_service pf) (addr_port_v4_from_native e a)
      | SockV6 a \<Rightarrow> lookup (ipv6_ssh_service pf) (addr_port_v6_from_native e a))"

definition white_entry :: "endian \<Rightarrow> protocol_filter_adapter \<Rightarrow> ip_addr \<Rightarrow> u8 option" where
  "white_entry e pf ip =
     (case ip of IpV4 a \<Rightarrow> lookup (ipv4_ssh_white_list pf) (ipv4_from_native e a)
      | IpV6 a \<Rightarrow> lookup (ipv6_ssh_white_list pf) (ipv6_from_native e a))"

definition black_entry :: "endian \<Rightarrow> protocol_filter_adapter \<Rightarrow> ip_addr \<Rightarrow> u8 option" where
  "black_entry e pf ip =
     (case ip of IpV4 a \<Rightarrow> lookup (ipv4_ssh_black_list pf) (ipv4_from_native e a)
      | IpV6 a \<Rightarrow> lookup (ipv6_ssh_black_list pf) (ipv6_from_native e a))"

definition policy_of :: "endian \<Rightarrow> protocol_filter_adapter \<Rightarrow> service_policy" where
  "policy_of e pf =
     \<lparr>pol_http = (\<lambda>sa. map_option (\<lambda>v. set (convert_from_bitmap v)) (http_entry e pf sa)),
      pol_ssh = {sa. ssh_entry e pf sa \<noteq> None}, pol_white = {ip. white_entry e pf ip \<noteq> None},
      pol_black = {ip. black_entry e pf ip \<noteq> None}, pol_white_on = is_ssh_white_list_enable pf\<rparr>"

text \<open>The requests, how the adapter serves them and what they mean for the policy.\<close>

datatype filter_request =
    AddHttp ip_version socket_addr "http_method list"
  | RemoveHttp ip_version socket_addr "http_method list"
  | SwitchWhiteList bool
  | AddSsh ip_version socket_addr
  | RemoveSsh ip_version socket_addr
  | AddWhite ip_version ip_addr
  | RemoveWhite ip_version ip_addr
  | AddBlack ip_version ip_addr
  | RemoveBlack ip_version ip_addr

fun serve :: "filter_api \<Rightarrow> filter_request \<Rightarrow> protocol_filter_adapter \<Rightarrow> (ebpf_error, protocol_filter_adapter) result" where
  "serve A (AddHttp v sa ms) pf = add_http_service A v sa ms pf"
| "serve A (RemoveHttp v sa ms) pf = remove_http_service A v sa ms pf"
| "serve A (SwitchWhiteList b) pf = (if b then enable_ssh_white_list pf else disable_ssh_white_list pf)"
| "serve A (AddSsh v sa) pf = add_ssh_service A v sa pf"
| "serve A (RemoveSsh v sa) pf = remove_ssh_service A v sa pf"
| "serve A (AddWhite v ip) pf = add_ssh_white_list A v ip pf"
| "serve A (RemoveWhite v ip) pf = remove_ssh_white_list A v ip pf"
| "serve A (AddBlack v ip) pf = add_ssh_black_list A v ip pf"
| "serve A (RemoveBlack v ip) pf = remove_ssh_black_list A v ip pf"

fun policy_after :: "filter_request \<Rightarrow> service_policy \<Rightarrow> service_policy" where
  "policy_after (AddHttp v sa ms) p = p\<lparr>pol_http := (pol_http p)(sa \<mapsto> set ms)\<rparr>"
| "policy_after (RemoveHttp v sa ms) p =
     (let left = the (pol_http p sa) - set ms
      in p\<lparr>pol_http := (pol_http p)(sa := (if left = {} then None else Some left))\<rparr>)"
| "policy_after (SwitchWhiteList b) p = p\<lparr>pol_white_on := b\<rparr>"
| "policy_after (AddSsh v sa) p = p\<lparr>pol_ssh := insert sa (pol_ssh p)\<rparr>"
| "policy_after (RemoveSsh v sa) p = p\<lparr>pol_ssh := pol_ssh p - {sa}\<rparr>"
| "policy_after (AddWhite v ip) p = p\<lparr>pol_white := insert ip (pol_white p)\<rparr>"
| "policy_after (RemoveWhite v ip) p = p\<lparr>pol_white := pol_white p - {ip}\<rparr>"
| "policy_after (AddBlack v ip) p = p\<lparr>pol_black := insert ip (pol_black p)\<rparr>"
| "policy_after (RemoveBlack v ip) p = p\<lparr>pol_black := pol_black p - {ip}\<rparr>"

section \<open>The operations refine the policy's\<close>

lemma lookup_simps [simp]: "lookup (Some m) k = m k" "lookup None k = None"
  by (simp_all add: lookup_def)

lemma from_native_inject [simp]:
  "ipv4_from_native e a = ipv4_from_native e a' \<longleftrightarrow> a = a'"
  "ipv6_from_native e b = ipv6_from_native e b' \<longleftrightarrow> b = b'"
  "addr_port_v4_from_native e sa = addr_port_v4_from_native e sa' \<longleftrightarrow> sa = sa'"
  "addr_port_v6_from_native e sb = addr_port_v6_from_native e sb' \<longleftrightarrow> sb = sb'"
  by (metis native_roundtrip)+

text \<open>A change of one map changes one entry of the policy's tables.\<close>

lemma entry_upds:
  "ipv4_http_service pf = Some m4 \<Longrightarrow>
    http_entry e (pf\<lparr>ipv4_http_service := Some (m4(addr_port_v4_from_native e a4 := x))\<rparr>) = (http_entry e pf)(SockV4 a4 := x)"
  "ipv6_http_service pf = Some m4 \<Longrightarrow>
    http_entry e (pf\<lparr>ipv6_http_service := Some (m4(addr_port_v6_from_native e a6 := x))\<rparr>) = (http_entry e pf)(SockV6 a6 := x)"
  "ipv4_ssh_service pf = Some n \<Longrightarrow>
    ssh_entry e (pf\<lparr>ipv4_ssh_service := Some (n(addr_port_v4_from_native e a4 := y))\<rparr>) = (ssh_entry e pf)(SockV4 a4 := y)"
  "ipv6_ssh_service pf = Some n \<Longrightarrow>
    ssh_entry e (pf\<lparr>ipv6_ssh_service := Some (n(addr_port_v6_from_native e a6 := y))\<rparr>) = (ssh_entry e pf)(SockV6 a6 := y)"
  "ipv4_ssh_white_list pf = Some w4 \<Longrightarrow>
    white_entry e (pf\<lparr>ipv4_ssh_white_list := Some (w4(ipv4_from_native e b4 := y))\<rparr>) = (white_entry e pf)(IpV4 b4 := y)"
  "ipv6_ssh_white_list pf = Some w6 \<Longrightarrow>
    white_entry e (pf\<lparr>ipv6_ssh_white_list := Some (w6(ipv6_from_native e b6 := y))\<rparr>) = (white_entry e pf)(IpV6 b6 := y)"
  "ipv4_ssh_black_list pf = Some w4 \<Longrightarrow>
    black_entry e (pf\<lparr>ipv4_ssh_black_list := Some (w4(ipv4_from_native e b4 := y))\<rparr>) = (black_entry e pf)(IpV4 b4 := y)"
  "ipv6_ssh_black_list pf = Some w6 \<Longrightarrow>
    black_entry e (pf\<lparr>ipv6_ssh_black_list := Some (w6(ipv6_from_native e b6 := y))\<rparr>) = (black_entry e pf)(IpV6 b6 := y)"
  by (auto simp: fun_eq_iff http_entry_def ssh_entry_def white_entry_def black_entry_def split: socket_addr.splits ip_addr.splits)

lemma untouched:
  "ssh_entry e (pf\<lparr>ipv4_http_service := h\<rparr>) = ssh_entry e pf" "ssh_entry e (pf\<lparr>ipv6_http_service := h\<rparr>) = ssh_entry e pf"
  "white_entry e (pf\<lparr>ipv4_http_service := h\<rparr>) = white_entry e pf" "white_entry e (pf\<lparr>ipv6_http_service := h\<rparr>) = white_entry e pf"
  "black_entry e (pf\<lparr>ipv4_http_service := h\<rparr>) = black_entry e pf" "black_entry e (pf\<lparr>ipv6_http_service := h\<rparr>) = black_entry e pf"
  "http_entry e (pf\<lparr>ipv4_ssh_service := n\<rparr>) = http_entry e pf" "http_entry e (pf\<lparr>ipv6_ssh_service := n\<rparr>) = http_entry e pf"
  "white_entry e (pf\<lparr>ipv4_ssh_service := n\<rparr>) = white_entry e pf" "white_entry e (pf\<lparr>ipv6_ssh_service := n\<rparr>) = white_entry e pf"
  "black_entry e (pf\<lparr>ipv4_ssh_service := n\<rparr>) = black_entry e pf" "black_entry e (pf\<lparr>ipv6_ssh_service := n\<rparr>) = black_entry e pf"
  "http_entry e (pf\<lparr>ipv4_ssh_white_list := w\<rparr>) = http_entry e pf" "http_entry e (pf\<lparr>ipv6_ssh_white_list := x\<rparr>) = http_entry e pf"
  "ssh_entry e (pf\<lparr>ipv4_ssh_white_list := w\<rparr>) = ssh_entry e pf" "ssh_entry e (pf\<lparr>ipv6_ssh_white_list := x\<rparr>) = ssh_entry e pf"
  "black_entry e (pf\<lparr>ipv4_ssh_white_list := w\<rparr>) = black_entry e pf" "black_entry e (pf\<lparr>ipv6_ssh_white_list := x\<rparr>) = black_entry e pf"
  "http_entry e (pf\<lparr>ipv4_ssh_black_list := w\<rparr>) = http_entry e pf" "http_entry e (pf\<lparr>ipv6_ssh_black_list := x\<rparr>) = http_entry e pf"
  "ssh_entry e (pf\<lparr>ipv4_ssh_black_list := w\<rparr>) = ssh_entry e pf" "ssh_entry e (pf\<lparr>ipv6_ssh_black_list := x\<rparr>) = ssh_entry e pf"
  "white_entry e (pf\<lparr>ipv4_ssh_black_list := w\<rparr>) = white_entry e pf" "white_entry e (pf\<lparr>ipv6_ssh_black_list := x\<rparr>) = white_entry e pf"
  "http_entry e (pf\<lparr>ssh_white_list_enable := c\<rparr>) = http_entry e pf" "ssh_entry e (pf\<lparr>ssh_white_list_enable := c\<rparr>) = ssh_entry e pf"
  "white_entry e (pf\<lparr>ssh_white_list_enable := c\<rparr>) = white_entry e pf" "black_entry e (pf\<lparr>ssh_white_list_enable := c\<rparr>) = black_entry e pf"
  by (simp_all add: http_entry_def ssh_entry_def white_entry_def black_entry_def fun_eq_iff split: socket_addr.split ip_addr.split)

definition switch :: "bool \<Rightarrow> 'a \<Rightarrow> 'a set \<Rightarrow> 'a set" where
  "switch on x S = (if on then insert x S else S - {x})"

lemma Collect_upd: "{x. (f(a := y)) x \<noteq> None} = switch (y \<noteq> None) a {x. f x \<noteq> None}"
  by (auto simp: switch_def)

lemma policy_upds:
  "ipv4_http_service pf = Some m4 \<Longrightarrow> policy_of e (pf\<lparr>ipv4_http_service := Some (m4(addr_port_v4_from_native e a4 := x))\<rparr>)
    = (policy_of e pf)\<lparr>pol_http := (pol_http (policy_of e pf))(SockV4 a4 := map_option (\<lambda>v. set (convert_from_bitmap v)) x)\<rparr>"
  "ipv6_http_service pf = Some m4 \<Longrightarrow> policy_of e (pf\<lparr>ipv6_http_service := Some (m4(addr_port_v6_from_native e a6 := x))\<rparr>)
    = (policy_of e pf)\<lparr>pol_http := (pol_http (policy_of e pf))(SockV6 a6 := map_option (\<lambda>v. set (convert_from_bitmap v)) x)\<rparr>"
  "ipv4_ssh_service pf = Some n \<Longrightarrow> policy_of e (pf\<lparr>ipv4_ssh_service := Some (n(addr_port_v4_from_native e a4 := y))\<rparr>)
    = (policy_of e pf)\<lparr>pol_ssh := switch (y \<noteq> None) (SockV4 a4) (pol_ssh (policy_of e pf))\<rparr>"
  "ipv6_ssh_service pf = Some n \<Longrightarrow> policy_of e (pf\<lparr>ipv6_ssh_service := Some (n(addr_port_v6_from_native e a6 := y))\<rparr>)
    = (policy_of e pf)\<lparr>pol_ssh := switch (y \<noteq> None) (SockV6 a6) (pol_ssh (policy_of e pf))\<rparr>"
  "ipv4_ssh_white_list pf = Some w4 \<Longrightarrow> policy_of e (pf\<lparr>ipv4_ssh_white_list := Some (w4(ipv4_from_native e b4 := y))\<rparr>)
    = (policy_of e pf)\<lparr>pol_white := switch (y \<noteq> None) (IpV4 b4) (pol_white (policy_of e pf))\<rparr>"
  "ipv6_ssh_white_list pf = Some w6 \<Longrightarrow> policy_of e (pf\<lparr>ipv6_ssh_white_list := Some (w6(ipv6_from_native e b6 := y))\<rparr>)
    = (policy_of e pf)\<lparr>pol_white := switch (y \<noteq> None) (IpV6 b6) (pol_white (policy_of e pf))\<rparr>"
  "ipv4_ssh_black_list pf = Some w4 \<Longrightarrow> policy_of e (pf\<lparr>ipv4_ssh_black_list := Some (w4(ipv4_from_native e b4 := y))\<rparr>)
    = (policy_of e pf)\<lparr>pol_black := switch (y \<noteq> None) (IpV4 b4) (pol_black (policy_of e pf))\<rparr>"
  "ipv6_ssh_black_list pf = Some w6 \<Longrightarrow> policy_of e (pf\<lparr>ipv6_ssh_black_list := Some (w6(ipv6_from_native e b6 := y))\<rparr>)
    = (policy_of e pf)\<lparr>pol_black := switch (y \<noteq> None) (IpV6 b6) (pol_black (policy_of e pf))\<rparr>"
  by (simp_all only: policy_of_def entry_upds untouched Collect_upd is_ssh_white_list_enable_def service_policy.simps protocol_filter_adapter.simps)
    (auto simp: fun_eq_iff)

lemma policy_white_list: "policy_of e (pf\<lparr>ssh_white_list_enable := w\<rparr>) = (policy_of e pf)\<lparr>pol_white_on := is_white_list_enable w\<rparr>"
  by (simp add: policy_of_def untouched is_ssh_white_list_enable_def)

lemma wrapper_add_Inr:
  assumes "bpf_hash ins del" "wrapper_add_http_service ins k ms w = Inr w'"
  shows "\<exists>m. w = Some m \<and> w' = Some (m(k \<mapsto> convert_to_bitmap ms))"
  using assms bpf_hash.ins_Some [OF assms(1)]
  by (auto simp: wrapper_add_http_service_def and_then_Inr_iff ok_or_Inr_iff)

lemma wrapper_remove_Inr:
  assumes "bpf_hash ins del" "wrapper_remove_http_service ins del k ms w = Inr w'"
  shows "\<exists>m v. w = Some m \<and> m k = Some v \<and> w' = Some (m(k :=
    (let left = filter (\<lambda>x. x \<notin> set ms) (convert_from_bitmap v) in if left = [] then None else Some (convert_to_bitmap left))))"
proof -
  obtain m v where m: "w = Some m" "m k = Some v"
    using assms(2) by (auto simp: wrapper_remove_http_service_def and_then_Inr_iff ok_or_Inr_iff split: option.splits)
  then show ?thesis
    using assms(2) bpf_hash.ins_Some [OF assms(1)] bpf_hash.del_Some [OF assms(1)]
    by (auto simp: wrapper_remove_http_service_def and_then_Inr_iff ok_or_Inr_iff Let_def split: if_splits)
qed

lemma entry_add_Inr:
  assumes "bpf_hash ins del" "entry_add ins k w = Inr w'"
  shows "\<exists>m. w = Some m \<and> w' = Some (m(k \<mapsto> 0))"
  using assms bpf_hash.ins_Some [OF assms(1)] by (auto simp: entry_add_def and_then_Inr_iff ok_or_Inr_iff)

lemma entry_remove_Inr:
  assumes "bpf_hash ins del" "entry_remove del k w = Inr w'"
  shows "\<exists>m. w = Some m \<and> w' = Some (m(k := None))"
  using assms bpf_hash.del_Some [OF assms(1)] by (auto simp: entry_remove_def and_then_Inr_iff ok_or_Inr_iff)

lemma set_white_list_Inr: "set_white_list b w = Inr w' \<Longrightarrow> is_white_list_enable w' = b"
  by (auto simp: set_white_list_def is_white_list_enable_def and_then_Inr_iff split: if_splits)

lemma set_from_to_bitmap [simp]: "set (convert_from_bitmap (convert_to_bitmap ms)) = set ms"
  by (auto simp: convert_from_to_bitmap)

locale filter_kernel =
  fixes A :: filter_api
  assumes http_map: "bpf_hash (http_ins A v) (http_del A v)"
    and ssh_map: "bpf_hash (ssh_ins A v) (ssh_del A v)"
    and ip4_map: "bpf_hash (ip4_ins A t) (ip4_del A t)"
    and ip6_map: "bpf_hash (ip6_ins A t) (ip6_del A t)"
begin

lemmas inversions = wrapper_add_Inr [OF http_map] wrapper_remove_Inr [OF http_map] entry_add_Inr [OF ssh_map]
  entry_remove_Inr [OF ssh_map] entry_add_Inr [OF ip4_map] entry_remove_Inr [OF ip4_map] entry_add_Inr [OF ip6_map]
  entry_remove_Inr [OF ip6_map] set_white_list_Inr

lemmas serve_simps = add_http_service_def add_ssh_service_def remove_ssh_service_def add_ssh_white_list_def
  remove_ssh_white_list_def add_ssh_black_list_def remove_ssh_black_list_def require_defs and_then_Inr_iff policy_upds switch_def

lemma serve_refines:
  "serve A r pf = Inr pf' \<Longrightarrow> policy_of (fa_ne A) pf' = policy_after r (policy_of (fa_ne A) pf)"
proof (cases r)
  case (AddHttp v sa ms)
  then show "serve A r pf = Inr pf' \<Longrightarrow> ?thesis"
    by (cases v; cases sa)
      (auto simp: serve_simps dest!: inversions)
next
  case (RemoveHttp v sa ms)
  have left: "filter (\<lambda>x. x \<notin> set ms) bs = [] \<longleftrightarrow> set bs - set ms = {}" for bs :: "http_method list"
    by (auto simp: filter_empty_conv)
  have ent: "pol_http (policy_of e pf) a = map_option (\<lambda>v. set (convert_from_bitmap v)) (http_entry e pf a)" for e a
    by (simp add: policy_of_def)
  show "serve A r pf = Inr pf' \<Longrightarrow> ?thesis"
    using RemoveHttp
    by (cases v; cases sa)
      (auto simp: remove_http_service_def require_defs and_then_Inr_iff policy_upds ent http_entry_def Let_def set_diff_eq left
        dest!: inversions)
next
  case (SwitchWhiteList b)
  then show "serve A r pf = Inr pf' \<Longrightarrow> ?thesis"
    by (auto simp: enable_ssh_white_list_def disable_ssh_white_list_def and_then_Inr_iff policy_white_list
        dest!: inversions split: if_splits)
next
  case (AddSsh v sa)
  then show "serve A r pf = Inr pf' \<Longrightarrow> ?thesis"
    by (cases v; cases sa) (auto simp: serve_simps dest!: inversions)
next
  case (RemoveSsh v sa)
  then show "serve A r pf = Inr pf' \<Longrightarrow> ?thesis"
    by (cases v; cases sa) (auto simp: serve_simps dest!: inversions)
next
  case (AddWhite v ip)
  then show "serve A r pf = Inr pf' \<Longrightarrow> ?thesis"
    by (cases v; cases ip) (auto simp: serve_simps dest!: inversions)
next
  case (RemoveWhite v ip)
  then show "serve A r pf = Inr pf' \<Longrightarrow> ?thesis"
    by (cases v; cases ip) (auto simp: serve_simps dest!: inversions)
next
  case (AddBlack v ip)
  then show "serve A r pf = Inr pf' \<Longrightarrow> ?thesis"
    by (cases v; cases ip) (auto simp: serve_simps dest!: inversions)
next
  case (RemoveBlack v ip)
  then show "serve A r pf = Inr pf' \<Longrightarrow> ?thesis"
    by (cases v; cases ip) (auto simp: serve_simps dest!: inversions)
qed

end

text \<open>A sequence of requests: the filter reached and the requests that were carried out.\<close>

fun serve_all :: "filter_api \<Rightarrow> filter_request list \<Rightarrow> protocol_filter_adapter \<Rightarrow> filter_request list \<times> protocol_filter_adapter" where
  "serve_all A [] pf = ([], pf)"
| "serve_all A (r # rs) pf =
     (case serve A r pf of
        Inl _ \<Rightarrow> serve_all A rs pf
      | Inr pf \<Rightarrow> let (done, pf) = serve_all A rs pf in (r # done, pf))"

lemma serve_all_refines:
  assumes "filter_kernel A" "serve_all A rs pf = (served, pf')"
  shows "policy_of (fa_ne A) pf' = fold policy_after served (policy_of (fa_ne A) pf)"
  using assms(2)
proof (induction rs arbitrary: pf served)
  case (Cons r rs)
  then show ?case
    using filter_kernel.serve_refines [OF assms(1), of r pf]
    by (auto simp del: serve.simps policy_after.simps split: sum.splits prod.splits)
qed simp

section \<open>The verdict of the ingress program\<close>

text \<open>The frame is a data segment that starts with an HTTP request of a method.\<close>

definition http_request :: "platform \<Rightarrow> bytes \<Rightarrow> parsed_packet \<Rightarrow> http_method \<Rightarrow> bool" where
  "http_request P bs pkt h \<longleftrightarrow> protocol pkt = IpProto_Tcp P
      \<and> tcp_flags pkt AND (TCP_SYN OR TCP_RST OR TCP_FIN) = 0
      \<and> tcp_flags pkt AND (TCP_PSH OR TCP_ACK) = (TCP_PSH OR TCP_ACK)
      \<and> 15 \<le> length bs \<and> (ip_version pkt = 4 \<or> ip_version pkt = 6)
      \<and> (let l4 = (if ip_version pkt = 4 then 14 + unat (bs ! 14 AND 0x0F) * 4 else 54);
             doff = unat (drop_bit 4 (bs ! (l4 + 12)));
             off = l4 + doff * 4
         in l4 + 13 \<le> length bs \<and> 5 \<le> doff \<and> doff \<le> 15 \<and> off + 8 \<le> length bs \<and> starts_with_method (drop off bs) h)"

lemma match_method_refused:
  assumes "8 \<le> length data"
  shows "(case match_method (take 8 data) of Some hm \<Rightarrow> allow AND hm = 0 | None \<Rightarrow> False)
    \<longleftrightarrow> (\<exists>h. starts_with_method data h \<and> h \<notin> set (convert_from_bitmap allow))"
proof -
  have only: "match_method (take 8 data) = Some (method_code h) \<longleftrightarrow> starts_with_method data h" for h
    using match_method_iff [OF assms] by auto
  show ?thesis
  proof (cases "match_method (take 8 data)")
    case None
    then show ?thesis using only by auto
  next
    case (Some c)
    then obtain h where h: "c = method_code h" using match_method_iff [OF assms] by blast
    then have "starts_with_method data h' \<longleftrightarrow> h' = h" for h' using Some only [of h'] by auto
    then show ?thesis using Some h by (simp add: convert_from_bitmap_def)
  qed
qed

lemma http_violation_policy:
  "http_service_violation P bs pkt m destination =
     Some (\<exists>S h. map_option (\<lambda>v. set (convert_from_bitmap v)) (m destination) = Some S \<and> http_request P bs pkt h \<and> h \<notin> S)"
proof (cases "m destination")
  case (Some allow)
  let ?l4 = "if ip_version pkt = 4 then 14 + unat (bs ! 14 AND 0x0F) * 4 else 54"
  let ?off = "?l4 + unat (drop_bit 4 (bs ! (?l4 + 12))) * 4"
  show ?thesis
    using match_method_refused [of "drop ?off bs" allow] Some
    by (simp only: http_service_violation_eq [where m = m, OF Some] http_request_def Let_def option.map option.inject) auto
qed (simp add: http_service_violation_def)

text \<open>What a packet between two addresses has to respect.\<close>

definition policy_violation :: "(http_method \<Rightarrow> bool) \<Rightarrow> ip_addr \<Rightarrow> socket_addr \<Rightarrow> service_policy \<Rightarrow> bool" where
  "policy_violation requested src dst p \<longleftrightarrow>
     (\<exists>S h. pol_http p dst = Some S \<and> requested h \<and> h \<notin> S)
     \<or> dst \<in> pol_ssh p \<and> (if pol_white_on p then src \<notin> pol_white p else src \<in> pol_black p)"

definition attached :: "protocol_filter_adapter \<Rightarrow> service_maps \<Rightarrow> bool" where
  "attached pf M \<longleftrightarrow>
     ipv4_http_service pf = Some (IPV4_HTTP_SERVICE M) \<and> ipv6_http_service pf = Some (IPV6_HTTP_SERVICE M)
     \<and> ssh_white_list_enable pf = Some (SSH_WHITE_LIST_ENABLE M)
     \<and> ipv4_ssh_service pf = Some (IPV4_SSH_SERVICE M) \<and> ipv6_ssh_service pf = Some (IPV6_SSH_SERVICE M)
     \<and> ipv4_ssh_white_list pf = Some (IPV4_SSH_WHITE_LIST M) \<and> ipv6_ssh_white_list pf = Some (IPV6_SSH_WHITE_LIST M)
     \<and> ipv4_ssh_black_list pf = Some (IPV4_SSH_BLACK_LIST M) \<and> ipv6_ssh_black_list pf = Some (IPV6_SSH_BLACK_LIST M)"

definition src_v4 :: "endian \<Rightarrow> parsed_packet \<Rightarrow> ip_addr" where
  "src_v4 e pkt = IpV4 (ipv4_into_native e (src_ip_v4 e pkt))"

definition dst_v4 :: "endian \<Rightarrow> parsed_packet \<Rightarrow> socket_addr" where
  "dst_v4 e pkt = SockV4 \<lparr>sa4_ip = ipv4_into_native e (dst_ip_v4 e pkt), sa4_port = dst_port pkt\<rparr>"

definition src_v6 :: "endian \<Rightarrow> parsed_packet \<Rightarrow> ip_addr" where
  "src_v6 e pkt = IpV6 (ipv6_into_native e (src_ip_v6 e pkt))"

definition dst_v6 :: "endian \<Rightarrow> parsed_packet \<Rightarrow> socket_addr" where
  "dst_v6 e pkt = SockV6 \<lparr>sa6_ip = ipv6_into_native e (dst_ip_v6 e pkt), sa6_port = dst_port pkt\<rparr>"

lemma native_inverse:
  "ipv4_from_native e (ipv4_into_native e k) = k" "ipv6_from_native e (ipv6_into_native e l) = l"
  by (simp_all add: ipv4_from_native_def ipv4_into_native_def ipv6_from_native_def ipv6_into_native_def to_be_involution)

lemma packet_keys:
  "addr_port_v4_from_native e \<lparr>sa4_ip = ipv4_into_native e (dst_ip_v4 e pkt), sa4_port = dst_port pkt\<rparr> = dst_addr_v4 e pkt"
  "addr_port_v6_from_native e \<lparr>sa6_ip = ipv6_into_native e (dst_ip_v6 e pkt), sa6_port = dst_port pkt\<rparr> = dst_addr_v6 e pkt"
  using native_inverse
  by (simp_all add: addr_port_v4_from_native_def addr_port_v6_from_native_def dst_addr_v4_def dst_addr_v6_def
      ipv4_from_native_def ipv6_from_native_def)

lemma white_list_on_attached: "attached pf M \<Longrightarrow> is_ssh_white_list_enable pf = ssh_white_list_on M"
  by (auto simp: attached_def is_ssh_white_list_enable_def is_white_list_enable_def ssh_white_list_on_def split: option.split)

lemma ipv4_verdict:
  assumes "attached pf M"
  shows "ipv4_service_rule_violation P M bs pkt =
    Some (policy_violation (http_request P bs pkt) (src_v4 (ne P) pkt) (dst_v4 (ne P) pkt) (policy_of (ne P) pf))"
  using assms white_list_on_attached [OF assms]
  by (simp add: ipv4_service_rule_violation_def http_violation_policy policy_violation_def ipv4_ssh_service_violation_def
      policy_of_def attached_def http_entry_def ssh_entry_def white_entry_def black_entry_def dst_v4_def src_v4_def
      packet_keys native_inverse src_addr_v4_def Let_def)

lemma ipv6_verdict:
  assumes "attached pf M"
  shows "ipv6_service_rule_violation P M bs pkt =
    Some (policy_violation (http_request P bs pkt) (src_v6 (ne P) pkt) (dst_v6 (ne P) pkt) (policy_of (ne P) pf))"
  using assms white_list_on_attached [OF assms]
  by (simp add: ipv6_service_rule_violation_def http_violation_policy policy_violation_def ipv6_ssh_service_violation_def
      policy_of_def attached_def http_entry_def ssh_entry_def white_entry_def black_entry_def dst_v6_def src_v6_def
      packet_keys native_inverse src_addr_v6_def Let_def)

section \<open>Properties\<close>

text \<open>
  C13. The requests of an administrator reach the packets: after any sequence of requests, some refused and
  some carried out, the verdict of the ingress program on a packet of either IP version is the verdict of
  the policy that the carried-out requests spell, in their order: an HTTP request to a registered service is
  a violation where its method is not admitted, a packet to an SSH service where its source is not on the
  allow list (or, with that list switched off, is on the deny list). Removing the last admitted method of a
  service removes the service.
\<close>

theorem filter_requests_reach_packets:
  assumes "filter_kernel A" "fa_ne A = ne P" "serve_all A rs pf = (served, pf')" "attached pf' M"
  shows "ipv4_service_rule_violation P M bs pkt = Some (policy_violation (http_request P bs pkt) (src_v4 (ne P) pkt)
        (dst_v4 (ne P) pkt) (fold policy_after served (policy_of (ne P) pf)))
    \<and> ipv6_service_rule_violation P M bs pkt = Some (policy_violation (http_request P bs pkt) (src_v6 (ne P) pkt)
        (dst_v6 (ne P) pkt) (fold policy_after served (policy_of (ne P) pf)))"
  using ipv4_verdict [OF assms(4)] ipv6_verdict [OF assms(4)] serve_all_refines [OF assms(1,3)] assms(2) by simp

definition capped_filter :: "endian \<Rightarrow> filter_api" where
  "capped_filter e = \<lparr>fa_ne = e, http_ins = (\<lambda>_. cap_insert MAX_RULES), http_del = (\<lambda>_. key_remove),
     ssh_ins = (\<lambda>_. cap_insert MAX_RULES), ssh_del = (\<lambda>_. key_remove), ip4_ins = (\<lambda>_. cap_insert MAX_RULES),
     ip4_del = (\<lambda>_. key_remove), ip6_ins = (\<lambda>_. cap_insert MAX_RULES), ip6_del = (\<lambda>_. key_remove)\<rparr>"

interpretation capped_filter: filter_kernel "capped_filter e"
  by unfold_locales (auto simp: capped_filter_def capped.ins_Some capped.ins_present capped.del_Some capped.del_iff
      simp del: not_None_eq)

definition loaded_filter :: protocol_filter_adapter where
  "loaded_filter = \<lparr>ipv4_http_service = Some Map.empty, ipv6_http_service = Some Map.empty, ssh_white_list_enable = Some (Some 0),
     ipv4_ssh_service = Some Map.empty, ipv6_ssh_service = Some Map.empty, ipv4_ssh_white_list = Some Map.empty,
     ipv6_ssh_white_list = Some Map.empty, ipv4_ssh_black_list = Some Map.empty, ipv6_ssh_black_list = Some Map.empty\<rparr>"

definition guarded_addr :: socket_addr_v4 where
  "guarded_addr = \<lparr>sa4_ip = ipv4_into_native LittleEndian (dst_ip_v4 LittleEndian zeroed_packet), sa4_port = dst_port zeroed_packet\<rparr>"

definition guarded_maps :: service_maps where
  "guarded_maps = \<lparr>IPV4_HTTP_SERVICE = Map.empty, IPV6_HTTP_SERVICE = Map.empty, SSH_WHITE_LIST_ENABLE = Some 1,
     IPV4_SSH_SERVICE = [addr_port_v4_from_native LittleEndian guarded_addr \<mapsto> 0], IPV6_SSH_SERVICE = Map.empty,
     IPV4_SSH_WHITE_LIST = Map.empty, IPV6_SSH_WHITE_LIST = Map.empty, IPV4_SSH_BLACK_LIST = Map.empty, IPV6_SSH_BLACK_LIST = Map.empty\<rparr>"

theorem filter_requests_reach_packets_witness:
  "\<exists>served pf'. serve_all (capped_filter LittleEndian) [AddHttp V6 (SockV4 guarded_addr) [GET],
        AddSsh V4 (SockV4 guarded_addr), SwitchWhiteList True] loaded_filter = (served, pf')
     \<and> ipv4_service_rule_violation (std_platform LittleEndian) guarded_maps [] zeroed_packet = Some True"
proof -
  let ?sa = "guarded_addr" and ?P = "std_platform LittleEndian"
  let ?served = "[AddSsh V4 (SockV4 ?sa), SwitchWhiteList True]"
  let ?pf = "loaded_filter\<lparr>ipv4_ssh_service := Some [addr_port_v4_from_native LittleEndian ?sa \<mapsto> 0], ssh_white_list_enable := Some (Some 1)\<rparr>"
  have run: "serve_all (capped_filter LittleEndian) [AddHttp V6 (SockV4 ?sa) [GET], AddSsh V4 (SockV4 ?sa), SwitchWhiteList True]
      loaded_filter = (?served, ?pf)"
    by (simp add: add_http_service_def add_ssh_service_def enable_ssh_white_list_def set_white_list_def require_defs entry_add_def
        capped_filter_def loaded_filter_def cap_insert_def MAX_RULES_def)
  have a: "attached ?pf guarded_maps" by (simp add: attached_def loaded_filter_def guarded_maps_def)
  have e: "fa_ne (capped_filter LittleEndian) = ne ?P" "ne ?P = LittleEndian" by (simp_all add: capped_filter_def std_platform_def)
  have p: "policy_of LittleEndian loaded_filter = \<lparr>pol_http = (\<lambda>_. None), pol_ssh = {}, pol_white = {}, pol_black = {}, pol_white_on = False\<rparr>"
    by (auto simp: policy_of_def loaded_filter_def fun_eq_iff http_entry_def ssh_entry_def white_entry_def black_entry_def
        is_ssh_white_list_enable_def is_white_list_enable_def split: socket_addr.splits ip_addr.splits)
  show ?thesis
    using filter_requests_reach_packets [OF capped_filter.filter_kernel_axioms e(1) run a, of "[]" zeroed_packet] run
    by (simp add: e p policy_violation_def dst_v4_def guarded_addr_def del: serve_all.simps)
qed

end
