(* ===== verification/Dns_Filter.thy ===== *)
theory Dns_Filter
  imports Protocol_Filter_Stage Rust_Text Domain_Errors Wire_Frames "HOL-Library.Sublist"
begin

text \<open>
  The DNS filter of the packet path (\<^verbatim>\<open>core/data_plane/dns_filter.rs\<close>): blocked domains are kept as
  names in wire format, the name of a query is parsed out of a raw frame, and the name and each of its
  parent domains are looked up.

  Rust's indexing panics outside a slice, so the functions on raw bytes return an option whose \<open>None\<close>
  is a panic. The two \<^verbatim>\<open>loop\<close>s are partial functions, where \<open>None\<close> also stands for a loop that does not
  return. Domain texts are ASCII, as in \<open>Rust_Text\<close>.
\<close>

section \<open>Names in wire format\<close>

type_synonym dns_blacklist = "dns_name set"

definition DNS_NAME_CAPACITY :: nat where "DNS_NAME_CAPACITY = 128"
definition DNS_LABEL_CAPACITY :: nat where "DNS_LABEL_CAPACITY = 64"
definition DNS_MAX_LABELS :: nat where "DNS_MAX_LABELS = 32"
definition DNS_RESPONSE_FLAG :: u8 where "DNS_RESPONSE_FLAG = 0x80"
definition DNS_PORT :: u16 where "DNS_PORT = 53"

lemmas dns_consts = DNS_NAME_CAPACITY_def DNS_LABEL_CAPACITY_def DNS_MAX_LABELS_def

definition is_valid_domain_label :: "string \<Rightarrow> bool" where
  "is_valid_domain_label label \<longleftrightarrow>
     label \<noteq> [] \<and> is_ascii_alphanumeric (hd label) \<and> is_ascii_alphanumeric (last label)
     \<and> list_all (\<lambda>c. is_ascii_alphanumeric c \<or> c = CHR ''-'') label"

fun write_labels :: "string \<Rightarrow> string list \<Rightarrow> nat \<Rightarrow> dns_name \<Rightarrow> (ebpf_error, dns_name) result" where
  "write_labels domain [] pos name = Inr (if pos < 128 then name[pos := 0] else name)"
| "write_labels domain (label # labels) pos name =
     (let label_len = length label in
      if label_len = 0 \<or> label_len \<ge> 64 then Inl (DnsLabelOutOfRange label_len)
      else if \<not> is_valid_domain_label label then Inl (InvalidDnsDomain (''invalid label '' @ [char_of (39 :: nat)] @ label @ [char_of (39 :: nat)]))
      else if pos + 1 + label_len \<ge> 128 then Inl (DnsDomainTooLong domain)
      else write_labels domain labels (pos + 1 + label_len)
             (write_slice (name[pos := word_of_nat label_len]) (pos + 1) (ascii label)))"

definition canonical_dns_domain :: "string \<Rightarrow> string" where
  "canonical_dns_domain domain = to_ascii_lowercase (trim_end_char (CHR ''.'') (trim domain))"

definition domain_to_wire_format :: "string \<Rightarrow> (ebpf_error, dns_name) result" where
  "domain_to_wire_format domain =
     (let domain = to_ascii_lowercase (trim_end_char (CHR ''.'') (trim domain))
      in write_labels domain (split_on (CHR ''.'') domain) 0 DnsName_zeroed)"

text \<open>\<^verbatim>\<open>str::from_utf8\<close>: the well-formed byte sequences of the Unicode standard.\<close>

definition cont_byte :: "u8 \<Rightarrow> bool" where
  "cont_byte b \<longleftrightarrow> 0x80 \<le> b \<and> b \<le> 0xBF"

fun utf8_valid :: "bytes \<Rightarrow> bool" where
  "utf8_valid [] = True"
| "utf8_valid (b # bs) =
     (if b \<le> 0x7F then utf8_valid bs
      else case bs of
        [] \<Rightarrow> False
      | c # cs \<Rightarrow>
          if 0xC2 \<le> b \<and> b \<le> 0xDF then cont_byte c \<and> utf8_valid cs
          else case cs of
            [] \<Rightarrow> False
          | d # ds \<Rightarrow>
              if 0xE0 \<le> b \<and> b \<le> 0xEF then
                cont_byte c \<and> (b = 0xE0 \<longrightarrow> 0xA0 \<le> c) \<and> (b = 0xED \<longrightarrow> c \<le> 0x9F) \<and> cont_byte d \<and> utf8_valid ds
              else case ds of
                [] \<Rightarrow> False
              | x # xs \<Rightarrow>
                  0xF0 \<le> b \<and> b \<le> 0xF4 \<and> cont_byte c \<and> (b = 0xF0 \<longrightarrow> 0x90 \<le> c) \<and> (b = 0xF4 \<longrightarrow> c \<le> 0x8F)
                  \<and> cont_byte d \<and> cont_byte x \<and> utf8_valid xs)"

definition chars :: "bytes \<Rightarrow> string" where
  "chars bs = map (\<lambda>b. char_of (unat b)) bs"

definition from_utf8 :: "bytes \<Rightarrow> string option" where
  "from_utf8 bs = (if utf8_valid bs then Some (chars bs) else None)"

text \<open>
  The loop of \<^verbatim>\<open>wire_format_to_domain\<close>: \<open>None\<close> is a panic or no return, \<open>Some None\<close> the early return,
  \<open>Some (Some domain)\<close> the text collected.
\<close>

partial_function (option) read_labels :: "dns_name \<Rightarrow> nat \<Rightarrow> string \<Rightarrow> string option option" where
  "read_labels name pos domain =
     (if pos \<ge> 128 then Some (Some domain)
      else Option.bind (rd name pos) (\<lambda>b.
        if unat b = 0 then Some (Some domain)
        else if unat b \<ge> 64 \<or> pos + 1 + unat b > 128 then Some None
        else Option.bind (rd_slice name (pos + 1) (unat b)) (\<lambda>bs.
          case from_utf8 bs of
            None \<Rightarrow> Some None
          | Some label \<Rightarrow>
              read_labels name (pos + 1 + unat b) (if domain = [] then label else domain @ ''.'' @ label))))"

definition wire_format_to_domain :: "dns_name \<Rightarrow> string option option" where
  "wire_format_to_domain name =
     Option.bind (read_labels name 0 []) (\<lambda>r. Some (case r of None \<Rightarrow> None | Some domain \<Rightarrow> if domain = [] then None else Some domain))"

section \<open>The blacklist\<close>

definition add_domain :: "string \<Rightarrow> dns_blacklist \<Rightarrow> (ebpf_error, dns_blacklist) result" where
  "add_domain domain blacklist =
     and_then (domain_to_wire_format domain) (\<lambda>name. Inr (insert name blacklist))"

definition validate_domain :: "string \<Rightarrow> (ebpf_error, unit) result" where
  "validate_domain domain = and_then (domain_to_wire_format domain) (\<lambda>_. Inr ())"

definition remove_domain :: "string \<Rightarrow> dns_blacklist \<Rightarrow> (ebpf_error, dns_blacklist) result" where
  "remove_domain domain blacklist =
     and_then (domain_to_wire_format domain) (\<lambda>name. Inr (blacklist - {name}))"

text \<open>The domains listed, as a set: a hash set has no order to keep.\<close>

definition list_domains :: "dns_blacklist \<Rightarrow> string set option" where
  "list_domains blacklist =
     (if None \<in> wire_format_to_domain ` blacklist then None
      else Some (Option.these (Option.these (wire_format_to_domain ` blacklist))))"

text \<open>The loop over the parent domains of a name.\<close>

partial_function (option) parent_blacklisted :: "dns_blacklist \<Rightarrow> dns_name \<Rightarrow> nat \<Rightarrow> nat \<Rightarrow> bool option" where
  "parent_blacklisted blacklist name name_len offset =
     (if offset \<ge> name_len \<or> offset \<ge> DNS_NAME_CAPACITY then Some False
      else Option.bind (rd name offset) (\<lambda>lbl.
        if unat lbl = 0 then Some False
        else if offset + (1 + unat lbl) \<ge> name_len \<or> offset + (1 + unat lbl) \<ge> DNS_NAME_CAPACITY then Some False
        else Option.bind (rd name (offset + (1 + unat lbl))) (\<lambda>b.
          if b = 0 then Some False
          else Option.bind (rd_slice name (offset + (1 + unat lbl)) (min (name_len - (offset + (1 + unat lbl))) DNS_NAME_CAPACITY)) (\<lambda>rest.
            if write_slice DnsName_zeroed 0 rest \<in> blacklist then Some True
            else parent_blacklisted blacklist name name_len (offset + (1 + unat lbl))))))"

definition is_blacklisted :: "dns_blacklist \<Rightarrow> dns_name \<Rightarrow> nat \<Rightarrow> bool option" where
  "is_blacklisted blacklist name name_len =
     (if blacklist = {} then Some False
      else if name \<in> blacklist then Some True
      else parent_blacklisted blacklist name name_len 0)"

section \<open>The name of a query\<close>

definition to_lower_byte :: "u8 \<Rightarrow> u8" where
  "to_lower_byte b = (if 65 \<le> b \<and> b \<le> 90 then b + 32 else b)"

fun parse_labels :: "nat \<Rightarrow> bytes \<Rightarrow> nat \<Rightarrow> nat \<Rightarrow> nat \<Rightarrow> dns_name \<Rightarrow> (dns_name \<times> nat) option option" where
  "parse_labels 0 raw udp_payload_end pos out name = Some None"
| "parse_labels (Suc k) raw udp_payload_end pos out name =
     (if pos \<ge> udp_payload_end then Some None
      else do {
        b \<leftarrow> rd raw pos;
        let ll = unat b in
        if ll = 0 then Some (Some (if out < DNS_NAME_CAPACITY then name[out := 0] else name, out + 1))
        else if ll \<ge> DNS_LABEL_CAPACITY then Some None
        else if out + 1 + ll \<ge> DNS_NAME_CAPACITY then Some None
        else if pos + 1 + ll > udp_payload_end then Some None
        else do {
          label \<leftarrow> rd_slice raw (pos + 1) ll;
          parse_labels k raw udp_payload_end (pos + 1 + ll) (out + 1 + ll)
            (write_slice (name[out := b]) (out + 1) (map to_lower_byte label))
        }
      })"

text \<open>Length of the IP header and end of its payload, or the early return.\<close>

definition l3_bounds :: "bytes \<Rightarrow> (nat \<times> nat) option option" where
  "l3_bounds raw =
     do {
       t \<leftarrow> rd_slice raw 12 2;
       let eth_type = (from_be_bytes t :: u16) in
       if eth_type = 0x0800 then
         if length raw < 14 + 20 then Some None
         else do {
           b \<leftarrow> rd raw 14;
           let ihl = unat (b AND 0x0F) * 4 in
           if ihl < 20 then Some None
           else do {
             tl \<leftarrow> rd_slice raw 16 2;
             let total_len = unat (from_be_bytes tl :: u16) in
             if total_len < ihl \<or> length raw < 14 + total_len then Some None
             else do {
               p \<leftarrow> rd raw (14 + 9);
               if p \<noteq> 17 then Some None else Some (Some (ihl, 14 + total_len)) } } }
       else if eth_type = 0x86DD then
         if length raw < 14 + 40 + 8 then Some None
         else do {
           p \<leftarrow> rd raw (14 + 6);
           if p \<noteq> 17 then Some None
           else do {
             pl \<leftarrow> rd_slice raw 18 2;
             let payload_len = unat (from_be_bytes pl :: u16) in
             if length raw < 14 + 40 + payload_len then Some None
             else Some (Some (40, 14 + 40 + payload_len)) } }
       else Some None }"

definition parse_query_name :: "bytes \<Rightarrow> (dns_name \<times> nat) option option" where
  "parse_query_name raw =
     (if length raw < 14 then Some None
      else do {
        l3 \<leftarrow> l3_bounds raw;
        case l3 of
          None \<Rightarrow> Some None
        | Some (l3_header_len, l3_payload_end) \<Rightarrow>
            let udp_start = 14 + l3_header_len in
            if udp_start + 8 > l3_payload_end then Some None
            else do {
              dp \<leftarrow> rd_slice raw (udp_start + 2) 2;
              if (from_be_bytes dp :: u16) \<noteq> DNS_PORT then Some None
              else do {
                ul \<leftarrow> rd_slice raw (udp_start + 4) 2;
                let udp_len = unat (from_be_bytes ul :: u16) in
                if udp_len < 8 \<or> udp_start + udp_len > l3_payload_end then Some None
                else
                  let udp_payload_end = udp_start + udp_len; dns_header_offset = udp_start + 8 in
                  if dns_header_offset + 12 > udp_payload_end then Some None
                  else do {
                    fl \<leftarrow> rd raw (dns_header_offset + 2);
                    if fl AND DNS_RESPONSE_FLAG \<noteq> 0 then Some None
                    else do {
                      q1 \<leftarrow> rd raw (dns_header_offset + 4);
                      none_asked \<leftarrow> (if q1 = 0 then do { q2 \<leftarrow> rd raw (dns_header_offset + 5); Some (q2 = 0) } else Some False);
                      if none_asked then Some None
                      else if dns_header_offset + 12 \<ge> udp_payload_end then Some None
                      else parse_labels DNS_MAX_LABELS raw udp_payload_end (dns_header_offset + 12) 0 DnsName_zeroed } } } } })"

definition is_query_blacklisted :: "dns_blacklist \<Rightarrow> bytes \<Rightarrow> bool option" where
  "is_query_blacklisted blacklist raw =
     do {
       r \<leftarrow> parse_query_name raw;
       case r of
         None \<Rightarrow> Some False
       | Some (name, name_len) \<Rightarrow> is_blacklisted blacklist name name_len }"

section \<open>Label lists\<close>

text \<open>The wire format of a list of labels, and a name padded to its capacity.\<close>

definition enc_labels :: "bytes list \<Rightarrow> bytes" where
  "enc_labels ls = concat (map (\<lambda>l. word_of_nat (length l) # l) ls)"

definition pad_name :: "bytes \<Rightarrow> dns_name" where
  "pad_name bs = bs @ replicate (128 - length bs) 0"

definition wire_name :: "bytes list \<Rightarrow> dns_name" where
  "wire_name ls = pad_name (enc_labels ls)"

definition good_label :: "bytes \<Rightarrow> bool" where
  "good_label l \<longleftrightarrow> l \<noteq> [] \<and> length l < 64"

definition good_name :: "bytes list \<Rightarrow> bool" where
  "good_name ls \<longleftrightarrow> (\<forall>l\<in>set ls. good_label l) \<and> length (enc_labels ls) < 128"

lemma enc_labels_simps [simp]:
  "enc_labels [] = []" "enc_labels (l # ls) = word_of_nat (length l) # l @ enc_labels ls"
  "enc_labels (ls @ ms) = enc_labels ls @ enc_labels ms"
  by (simp_all add: enc_labels_def)

lemma length_pad_name [simp]: "length bs \<le> 128 \<Longrightarrow> length (pad_name bs) = 128"
  by (simp add: pad_name_def)

lemma pad_name_Nil: "pad_name [] = DnsName_zeroed"
  by (simp add: pad_name_def DnsName_zeroed_def)

lemma good_label_byte: "good_label l \<Longrightarrow> unat (word_of_nat (length l) :: u8) = length l"
  by (simp add: good_label_def unat_of_nat)

lemma good_label_byte_nonzero: "good_label l \<Longrightarrow> (word_of_nat (length l) :: u8) \<noteq> 0"
  using good_label_byte [of l] by (auto simp: good_label_def)

lemma good_name_Cons: "good_name (l # ls) \<longleftrightarrow> good_label l \<and> length l + 1 + length (enc_labels ls) < 128 \<and> good_name ls"
  by (auto simp: good_name_def)

lemma pad_extend:
  assumes "length pre + 1 + length l \<le> 128"
  shows "write_slice ((pad_name pre)[length pre := b]) (length pre + 1) l = pad_name (pre @ b # l)"
proof -
  obtain n where n: "128 - length pre = Suc n" "length l \<le> n" using assms by (cases "128 - length pre") auto
  have "(pad_name pre)[length pre := b] = pre @ b # replicate n 0"
    by (simp add: pad_name_def n(1))
  then show ?thesis using n by (simp add: write_slice_def pad_name_def)
qed

lemma pad_terminate: "length pre < 128 \<Longrightarrow> (pad_name pre)[length pre := 0] = pad_name pre"
  by (cases "128 - length pre") (auto simp: pad_name_def)

lemma write_slice_zeroed: "length bs \<le> 128 \<Longrightarrow> write_slice DnsName_zeroed 0 bs = pad_name bs"
  by (simp add: write_slice_def DnsName_zeroed_def pad_name_def)

lemma pad_snoc_zero: "length bs < 128 \<Longrightarrow> pad_name (bs @ [0]) = pad_name bs"
  by (cases "128 - length bs") (auto simp: pad_name_def)

text \<open>The format is a prefix code: equal names have equal labels.\<close>

lemma enc_labels_inject:
  assumes "\<forall>l\<in>set ls. good_label l" "\<forall>l\<in>set ms. good_label l" "enc_labels ls @ 0 # xs = enc_labels ms @ 0 # ys"
  shows "ls = ms"
  using assms
proof (induction ls arbitrary: ms)
  case Nil
  then show ?case using good_label_byte_nonzero by (cases ms) force+
next
  case (Cons l ls)
  show ?case
  proof (cases ms)
    case Nil
    then show ?thesis using Cons.prems good_label_byte_nonzero [of l] by simp
  next
    case m: (Cons m ms')
    have g: "good_label l" "good_label m" using Cons.prems(1,2) m by simp_all
    have "(word_of_nat (length l) :: u8) = word_of_nat (length m)" using Cons.prems(3) m by simp
    then have "length l = length m" using g good_label_byte by metis
    moreover have "l @ enc_labels ls @ 0 # xs = m @ enc_labels ms' @ 0 # ys" using Cons.prems(3) m by simp
    ultimately have "l = m" "enc_labels ls @ 0 # xs = enc_labels ms' @ 0 # ys" by simp_all
    with Cons.IH [of ms'] Cons.prems m show ?thesis by simp
  qed
qed

lemma wire_name_inject:
  assumes "good_name ls" "good_name ms"
  shows "wire_name ls = wire_name ms \<longleftrightarrow> ls = ms"
proof
  have e: "\<exists>xs. wire_name ks = enc_labels ks @ 0 # xs" if "good_name ks" for ks
  proof -
    have "0 < 128 - length (enc_labels ks)" using that by (simp add: good_name_def)
    then obtain n where "128 - length (enc_labels ks) = Suc n" using gr0_implies_Suc by blast
    then show ?thesis by (simp add: wire_name_def pad_name_def)
  qed
  obtain xs ys where "wire_name ls = enc_labels ls @ 0 # xs" "wire_name ms = enc_labels ms @ 0 # ys"
    using e [OF assms(1)] e [OF assms(2)] by blast
  moreover assume "wire_name ls = wire_name ms"
  ultimately show "ls = ms"
    using enc_labels_inject [of ls ms xs ys] assms by (simp add: good_name_def)
qed simp

section \<open>Writing and reading a domain\<close>

definition domain_labels :: "string \<Rightarrow> string list" where
  "domain_labels domain = split_on (CHR ''.'') (canonical_dns_domain domain)"

lemma ascii_good: "is_valid_domain_label l \<Longrightarrow> length l < 64 \<Longrightarrow> good_label (ascii l)"
  by (auto simp: is_valid_domain_label_def good_label_def ascii_def)

text \<open>Writing succeeds on valid labels that fit, and then gives their wire format.\<close>

lemma write_labels_Inr:
  "write_labels d labels (length pre) (pad_name pre) = Inr name \<and> length pre < 128 \<longleftrightarrow>
     (\<forall>l\<in>set labels. is_valid_domain_label l \<and> length l < 64)
     \<and> length (pre @ enc_labels (map ascii labels)) < 128
     \<and> name = pad_name (pre @ enc_labels (map ascii labels))"
proof (induction labels arbitrary: pre)
  case Nil
  then show ?case by (auto simp: pad_terminate)
next
  case (Cons l labels)
  show ?case
  proof (cases "is_valid_domain_label l \<and> length l < 64 \<and> length pre + 1 + length l < 128")
    case True
    then have "l \<noteq> []" by (auto simp: is_valid_domain_label_def)
    with True have "write_labels d (l # labels) (length pre) (pad_name pre) =
      write_labels d labels (length (pre @ word_of_nat (length l) # ascii l)) (pad_name (pre @ word_of_nat (length l) # ascii l))"
      using pad_extend [of pre "ascii l" "word_of_nat (length l)"] by (simp add: Let_def)
    with True Cons.IH [of "pre @ word_of_nat (length l) # ascii l"] show ?thesis by auto
  qed (auto simp: Let_def split: if_splits)
qed

definition valid_domain :: "string \<Rightarrow> bool" where
  "valid_domain d \<longleftrightarrow> (\<forall>l\<in>set (domain_labels d). is_valid_domain_label l \<and> length l < 64)
     \<and> length (enc_labels (map ascii (domain_labels d))) < 128"

lemma domain_to_wire_format_Inr:
  "domain_to_wire_format d = Inr name \<longleftrightarrow> valid_domain d \<and> name = wire_name (map ascii (domain_labels d))"
  using write_labels_Inr [of "canonical_dns_domain d" "domain_labels d" "[]" name]
  by (simp add: domain_to_wire_format_def valid_domain_def wire_name_def pad_name_Nil Let_def domain_labels_def
      canonical_dns_domain_def)

lemma valid_domain_good: "valid_domain d \<Longrightarrow> good_name (map ascii (domain_labels d))"
  by (auto simp: valid_domain_def good_name_def ascii_good)

lemma chars_ascii [simp]: "chars (ascii s) = s"
  by (induction s) (auto simp: chars_def ascii_def unat_of_nat)

lemma utf8_ascii: "(\<forall>b\<in>set bs. b \<le> 0x7F) \<Longrightarrow> utf8_valid bs"
  by (induction bs) auto

lemma from_utf8_label:
  assumes "is_valid_domain_label l"
  shows "from_utf8 (ascii l) = Some l"
proof -
  have "b \<le> 0x7F" if b: "b \<in> set (ascii l)" for b
  proof -
    obtain c where c: "c \<in> set l" "b = word_of_nat (of_char c)" using b by (auto simp: ascii_def)
    then have "is_ascii_alphanumeric c \<or> c = CHR ''-''" using assms by (auto simp: is_valid_domain_label_def list_all_iff)
    then have "of_char c \<le> (127 :: nat)" by (auto simp: is_ascii_alphanumeric_def Let_def)
    then show ?thesis using c(2) by (simp add: word_le_nat_alt unat_of_nat)
  qed
  then show ?thesis by (simp add: from_utf8_def utf8_ascii)
qed

lemma drop_wire:
  "drop (length (enc_labels ps) + k) (wire_name (ps @ qs)) = drop k (enc_labels qs @ replicate (128 - length (enc_labels (ps @ qs))) 0)"
  by (simp add: wire_name_def pad_name_def)

text \<open>What stands at the start of a label and behind the last one.\<close>

lemma wire_at_label:
  assumes "good_name (ps @ l # qs)"
  shows "rd (wire_name (ps @ l # qs)) (length (enc_labels ps)) = Some (word_of_nat (length l))"
    and "rd_slice (wire_name (ps @ l # qs)) (length (enc_labels ps) + 1) (length l) = Some l"
    and "length (enc_labels ps) + 1 + length l < 128"
proof -
  have len: "length (enc_labels ps) + 1 + length l + length (enc_labels qs) < 128" "length (wire_name (ps @ l # qs)) = 128"
    using assms by (simp_all add: good_name_def wire_name_def)
  then show "length (enc_labels ps) + 1 + length l < 128" by simp
  show "rd (wire_name (ps @ l # qs)) (length (enc_labels ps)) = Some (word_of_nat (length l))"
    using len by (simp add: rd_def) (simp add: wire_name_def pad_name_def nth_append)
  show "rd_slice (wire_name (ps @ l # qs)) (length (enc_labels ps) + 1) (length l) = Some l"
    using len drop_wire [of ps 1 "l # qs"] by (simp add: rd_slice_def)
qed

lemma wire_at_end:
  assumes "good_name ps"
  shows "rd (wire_name ps) (length (enc_labels ps)) = Some 0" "length (enc_labels ps) < 128"
proof -
  have len: "length (enc_labels ps) < 128" "length (wire_name ps) = 128"
    using assms by (simp_all add: good_name_def wire_name_def)
  then show "length (enc_labels ps) < 128" by simp
  show "rd (wire_name ps) (length (enc_labels ps)) = Some 0"
    using len by (simp add: rd_def) (simp add: wire_name_def pad_name_def nth_append)
qed

lemma enc_labels_snoc: "length (enc_labels (ps @ [l])) = length (enc_labels ps) + 1 + length l"
  by simp

definition join_onto :: "string \<Rightarrow> string list \<Rightarrow> string" where
  "join_onto acc labels = (if acc = [] then join_with (CHR ''.'') labels
     else if labels = [] then acc else acc @ ''.'' @ join_with (CHR ''.'') labels)"

lemma join_onto_Cons: "l \<noteq> [] \<Longrightarrow> join_onto acc (l # ls) = join_onto (if acc = [] then l else acc @ ''.'' @ l) ls"
  by (cases ls) (auto simp: join_onto_def)

lemma read_labels_wire:
  assumes "good_name (map ascii (ps @ qs))" "\<forall>l\<in>set qs. is_valid_domain_label l"
  shows "read_labels (wire_name (map ascii (ps @ qs))) (length (enc_labels (map ascii ps))) acc = Some (Some (join_onto acc qs))"
  using assms
proof (induction qs arbitrary: ps acc)
  case Nil
  then have "good_name (map ascii ps)" by simp
  from wire_at_end [OF this] show ?case by (subst read_labels.simps) (simp add: join_onto_def)
next
  case (Cons l qs)
  have g: "good_name (map ascii ps @ ascii l # map ascii qs)" using Cons.prems(1) by simp
  then have gl: "good_label (ascii l)" by (simp add: good_name_def)
  note at = wire_at_label [OF g]
  have l: "is_valid_domain_label l" "l \<noteq> []" using Cons.prems(2) by (auto simp: is_valid_domain_label_def)
  have u: "unat (word_of_nat (length l) :: u8) = length l" "length l < 64" using good_label_byte [OF gl] gl by (simp_all add: good_label_def)
  have IH: "read_labels (wire_name (map ascii ps @ ascii l # map ascii qs)) (length (enc_labels (map ascii ps)) + 1 + length l) acc'
      = Some (Some (join_onto acc' qs))" for acc'
    using Cons.IH [of "ps @ [l]" acc'] Cons.prems by simp
  show ?case
    using at l u IH by (subst read_labels.simps) (simp add: from_utf8_label join_onto_Cons)
qed

text \<open>A stored domain is listed in its canonical form.\<close>

lemma wire_format_to_domain_valid:
  assumes "valid_domain d"
  shows "wire_format_to_domain (wire_name (map ascii (domain_labels d))) = Some (Some (canonical_dns_domain d))"
proof -
  have v: "\<forall>l\<in>set (domain_labels d). is_valid_domain_label l" using assms by (simp add: valid_domain_def)
  have j: "join_with (CHR ''.'') (domain_labels d) = canonical_dns_domain d"
    by (simp add: domain_labels_def join_with_split_on)
  have "canonical_dns_domain d \<noteq> []"
  proof
    assume "canonical_dns_domain d = []"
    then have "[] \<in> set (domain_labels d)" by (simp add: domain_labels_def)
    with v show False by (auto simp: is_valid_domain_label_def)
  qed
  with read_labels_wire [of "[]" "domain_labels d" "[]"] valid_domain_good [OF assms] v j show ?thesis
    by (simp add: wire_format_to_domain_def join_onto_def)
qed

section \<open>Looking a name up\<close>

definition name_listed :: "dns_blacklist \<Rightarrow> bytes list \<Rightarrow> bool" where
  "name_listed blacklist ls \<longleftrightarrow> (\<exists>ms. suffix ms ls \<and> (ms = [] \<longrightarrow> ls = []) \<and> wire_name ms \<in> blacklist)"

lemma good_name_suffix: "good_name (ps @ qs) \<Longrightarrow> good_name qs"
  by (auto simp: good_name_def)

lemma parent_unfold:
  assumes "rd name off = Some lbl" "unat lbl \<noteq> 0" "p = off + 1 + unat lbl" "p < n" "n \<le> 128"
    and "rd name p = Some b" "b \<noteq> 0" "rd_slice name p (n - p) = Some rest"
  shows "parent_blacklisted blacklist name n off =
    (if write_slice DnsName_zeroed 0 rest \<in> blacklist then Some True else parent_blacklisted blacklist name n p)"
  using assms by (subst parent_blacklisted.simps) (simp add: DNS_NAME_CAPACITY_def)

lemma parent_step:
  assumes "good_name (ps @ l # qs)" "qs \<noteq> []"
  shows "parent_blacklisted blacklist (wire_name (ps @ l # qs)) (length (enc_labels (ps @ l # qs)) + 1) (length (enc_labels ps)) =
    (if wire_name qs \<in> blacklist then Some True
     else parent_blacklisted blacklist (wire_name (ps @ l # qs)) (length (enc_labels (ps @ l # qs)) + 1) (length (enc_labels (ps @ [l]))))"
proof -
  let ?w = "wire_name (ps @ l # qs)" and ?p = "length (enc_labels (ps @ [l]))"
  obtain m ms where qs: "qs = m # ms" using assms(2) by (cases qs) auto
  have g: "good_name ((ps @ [l]) @ m # ms)" using assms(1) qs by simp
  have gl: "good_label l" "good_label m" using g by (simp_all add: good_name_def)
  note at = wire_at_label [OF assms(1)]
  have len: "length (enc_labels (ps @ l # qs)) < 128" "length ?w = 128" using assms(1) by (simp_all add: good_name_def wire_name_def)
  have n: "length (enc_labels (ps @ l # qs)) + 1 - ?p = length (enc_labels qs) + 1" by simp
  have sl: "rd_slice ?w ?p (length (enc_labels qs) + 1) = Some (enc_labels qs @ [0])"
  proof -
    have "take (length (enc_labels qs) + 1) (drop ?p ?w) = enc_labels qs @ [0]"
      using len drop_wire [of "ps @ [l]" 0 qs] by (cases "128 - length (enc_labels (ps @ l # qs))") (auto simp del: enc_labels_simps)
    then show ?thesis using len by (simp add: rd_slice_def)
  qed
  have wq: "write_slice DnsName_zeroed 0 (enc_labels qs @ [0]) = wire_name qs"
    using len by (simp add: write_slice_zeroed pad_snoc_zero wire_name_def)
  have at': "rd ?w ?p = Some (word_of_nat (length m))" using wire_at_label(1) [OF g] qs by simp
  have "?p = length (enc_labels ps) + 1 + unat (word_of_nat (length l) :: u8)" "unat (word_of_nat (length l) :: u8) \<noteq> 0"
    using good_label_byte [OF gl(1)] gl(1) by (simp_all add: good_label_def)
  moreover have "?p < length (enc_labels (ps @ l # qs)) + 1" "length (enc_labels (ps @ l # qs)) + 1 \<le> 128"
    using len by simp_all
  moreover have "rd_slice ?w ?p (length (enc_labels (ps @ l # qs)) + 1 - ?p) = Some (enc_labels qs @ [0])" using sl n by simp
  ultimately show ?thesis
    using parent_unfold [OF at(1) _ _ _ _ at' good_label_byte_nonzero [OF gl(2)]] wq by metis
qed

lemma parent_last:
  assumes "good_name (ps @ [l])"
  shows "parent_blacklisted blacklist (wire_name (ps @ [l])) (length (enc_labels (ps @ [l])) + 1) (length (enc_labels ps)) = Some False"
  using wire_at_label [OF assms] wire_at_end [OF assms] good_label_byte [of l] assms
  by (subst parent_blacklisted.simps) (simp add: DNS_NAME_CAPACITY_def good_name_def)

lemma parent_root:
  assumes "good_name []"
  shows "parent_blacklisted blacklist (wire_name []) 1 0 = Some False"
  using wire_at_end [OF assms] by (subst parent_blacklisted.simps) (simp add: DNS_NAME_CAPACITY_def)

lemma parent_blacklisted_wire:
  assumes "good_name (ps @ qs)" "qs \<noteq> []"
  shows "parent_blacklisted blacklist (wire_name (ps @ qs)) (length (enc_labels (ps @ qs)) + 1) (length (enc_labels ps)) =
    Some (\<exists>ms. strict_suffix ms qs \<and> ms \<noteq> [] \<and> wire_name ms \<in> blacklist)"
  using assms
proof (induction qs arbitrary: ps)
  case (Cons l qs)
  show ?case
  proof (cases "qs = []")
    case True
    then show ?thesis using parent_last [of ps l] Cons.prems(1) by (auto simp: strict_suffix_def suffix_Cons)
  next
    case False
    have "strict_suffix ms (l # qs) \<longleftrightarrow> ms = qs \<or> strict_suffix ms qs" for ms
      by (auto simp: strict_suffix_def suffix_Cons dest: suffix_length_le)
    with False show ?thesis
      using parent_step [OF Cons.prems(1) False] Cons.IH [of "ps @ [l]"] Cons.prems(1) by auto
  qed
qed simp

lemma is_blacklisted_wire:
  assumes "good_name ls"
  shows "is_blacklisted blacklist (wire_name ls) (length (enc_labels ls) + 1) = Some (name_listed blacklist ls)"
proof (cases "ls = []")
  case True
  then show ?thesis using parent_root [of blacklist] assms by (auto simp: is_blacklisted_def name_listed_def)
next
  case False
  have "name_listed blacklist ls \<longleftrightarrow> wire_name ls \<in> blacklist \<or> (\<exists>ms. strict_suffix ms ls \<and> ms \<noteq> [] \<and> wire_name ms \<in> blacklist)"
    using False by (auto simp: name_listed_def strict_suffix_def)
  with False show ?thesis
    using parent_blacklisted_wire [of "[]" ls blacklist] assms by (auto simp: is_blacklisted_def)
qed

section \<open>Parsing a name\<close>

lemma to_lower_length [simp]: "length (map to_lower_byte l) = length l" by simp

lemma parse_labels_safe: "e \<le> length raw \<Longrightarrow> parse_labels k raw e pos out name \<noteq> None"
proof (induction k arbitrary: pos out name)
  case (Suc k)
  then show ?case by (auto simp: rd_def rd_slice_def Let_def simp del: not_None_eq)
qed simp

text \<open>A name of at most 31 labels that fits is read completely, in lower case.\<close>

abbreviation lower_labels :: "bytes list \<Rightarrow> bytes list" where
  "lower_labels ls \<equiv> map (map to_lower_byte) ls"

lemma length_enc_lower [simp]: "length (enc_labels (lower_labels ls)) = length (enc_labels ls)"
  by (induction ls) auto

lemma parse_labels_written:
  assumes "raw = pre @ enc_labels ls @ 0 # rest" "length pre + length (enc_labels ls) < e"
    and "length ls < k" "good_name (ps @ lower_labels ls)"
  shows "parse_labels k raw e (length pre) (length (enc_labels ps)) (wire_name ps) =
    Some (Some (wire_name (ps @ lower_labels ls), length (enc_labels (ps @ lower_labels ls)) + 1))"
  using assms
proof (induction ls arbitrary: pre ps k)
  case Nil
  then obtain k' where "k = Suc k'" using gr0_implies_Suc by auto
  moreover have "rd raw (length pre) = Some 0" using Nil.prems(1) by (simp add: rd_def)
  ultimately show ?case using Nil.prems by (simp add: DNS_NAME_CAPACITY_def good_name_def wire_name_def pad_terminate)
next
  case (Cons l ls)
  let ?b = "word_of_nat (length l) :: u8" and ?m = "map to_lower_byte l"
  obtain k' where k: "k = Suc k'" "length ls < k'" using Cons.prems(3) by (cases k) auto
  have g: "good_label ?m" "length (enc_labels ps) + 1 + length l < 128" using Cons.prems(4) by (auto simp: good_name_def)
  then have b: "unat ?b = length l" "length l < 64" "l \<noteq> []" using good_label_byte [of ?m] by (auto simp: good_label_def)
  have raw: "rd raw (length pre) = Some ?b" "rd_slice raw (length pre + 1) (length l) = Some l"
    using Cons.prems(1) by (simp_all add: rd_def rd_slice_def)
  have bw: "enc_labels (ps @ [?m]) = enc_labels ps @ ?b # ?m" by simp
  have w: "write_slice ((wire_name ps)[length (enc_labels ps) := ?b]) (length (enc_labels ps) + 1) ?m = wire_name (ps @ [?m])"
    using pad_extend [of "enc_labels ps" ?m ?b] g(2) by (simp only: wire_name_def bw) simp
  have IH: "parse_labels k' raw e (length pre + 1 + length l) (length (enc_labels ps) + 1 + length l) (wire_name (ps @ [?m])) =
      Some (Some (wire_name (ps @ lower_labels (l # ls)), length (enc_labels (ps @ lower_labels (l # ls))) + 1))"
    using Cons.IH [of "pre @ ?b # l" k' "ps @ [?m]"] Cons.prems k by simp
  show ?case
    using Cons.prems(2) k(1) raw b g w IH by (simp add: dns_consts)
qed

text \<open>Conversely, what is read are the labels of a name that ends, with its root label, before the payload does.\<close>

definition name_at :: "bytes \<Rightarrow> nat \<Rightarrow> nat \<Rightarrow> bytes list \<Rightarrow> bool" where
  "name_at raw e pos ls \<longleftrightarrow>
     list_all good_label ls \<and> pos + length (enc_labels ls) < e \<and> (\<exists>rest. drop pos raw = enc_labels ls @ 0 # rest)"

lemma good_label_lower [simp]: "good_label (map to_lower_byte l) = good_label l"
  by (simp add: good_label_def)

lemma good_name_lower: "good_name (lower_labels ls) \<longleftrightarrow> list_all good_label ls \<and> length (enc_labels ls) < 128"
  by (auto simp: good_name_def list_all_iff)

lemma parse_labels_read:
  assumes "parse_labels k raw e pos (length (enc_labels ps)) (wire_name ps) = Some (Some (name, n))" "good_name ps"
  shows "\<exists>ls. name_at raw e pos ls \<and> length ls < k \<and> good_name (ps @ lower_labels ls)
    \<and> name = wire_name (ps @ lower_labels ls) \<and> n = length (enc_labels (ps @ lower_labels ls)) + 1"
  using assms
proof (induction k arbitrary: pos ps)
  case (Suc k)
  have lt: "length (enc_labels ps) < 128" using Suc.prems(2) by (simp add: good_name_def)
  from Suc.prems(1) obtain b where b: "rd raw pos = Some b" and e: "pos < e"
    by (auto simp: bind_eq_Some_conv split: if_splits)
  then have at: "drop pos raw = b # drop (Suc pos) raw" by (auto simp: rd_def Cons_nth_drop_Suc split: if_splits)
  show ?case
  proof (cases "unat b = 0")
    case True
    then have "b = 0" by (simp add: unat_eq_0)
    with True show ?thesis using Suc.prems b e lt at
      by (intro exI [of _ "[]"]) (simp add: DNS_NAME_CAPACITY_def wire_name_def pad_terminate name_at_def split: if_splits)
  next
    case False
    obtain l where l: "rd_slice raw (pos + 1) (unat b) = Some l"
      and c: "unat b < 64" "length (enc_labels ps) + 1 + unat b < 128"
      and rec: "parse_labels k raw e (pos + 1 + unat b) (length (enc_labels ps) + 1 + unat b)
        (write_slice ((wire_name ps)[length (enc_labels ps) := b]) (length (enc_labels ps) + 1) (map to_lower_byte l)) = Some (Some (name, n))"
      using Suc.prems(1) b False by (auto simp: dns_consts Let_def bind_eq_Some_conv split: if_splits)
    have len: "length l = unat b" by (rule rd_slice_length [OF l])
    then have bw: "enc_labels (ps @ [map to_lower_byte l]) = enc_labels ps @ b # map to_lower_byte l" by simp
    have "write_slice ((wire_name ps)[length (enc_labels ps) := b]) (length (enc_labels ps) + 1) (map to_lower_byte l)
        = wire_name (ps @ [map to_lower_byte l])"
      using pad_extend [of "enc_labels ps" "map to_lower_byte l" b] c len by (simp only: wire_name_def bw) simp
    moreover have good: "good_label l" using c len False by (auto simp: good_label_def)
    then have "good_name (ps @ [map to_lower_byte l])"
      using Suc.prems(2) c len by (auto simp: good_name_def)
    ultimately obtain ls where ls: "name_at raw e (pos + 1 + unat b) ls" "length ls < k" "good_name (ps @ lower_labels (l # ls))"
      "name = wire_name (ps @ lower_labels (l # ls))" "n = length (enc_labels (ps @ lower_labels (l # ls))) + 1"
      using Suc.IH [of "pos + 1 + unat b" "ps @ [map to_lower_byte l]"] rec len by auto
    have "drop (Suc pos) raw = l @ drop (pos + 1 + unat b) raw"
      using l append_take_drop_id [of "unat b" "drop (Suc pos) raw"] by (simp add: rd_slice_def add.commute split: if_splits)
    then have "name_at raw e pos (l # ls)"
      using ls(1) at len good by (auto simp: name_at_def)
    with ls(2-5) show ?thesis by (intro exI [of _ "l # ls"]) simp
  qed
qed simp

lemma parse_labels_iff:
  "parse_labels k raw e pos 0 DnsName_zeroed = Some (Some (name, n)) \<longleftrightarrow>
     (\<exists>ls. name_at raw e pos ls \<and> length ls < k \<and> length (enc_labels ls) < 128
        \<and> name = wire_name (lower_labels ls) \<and> n = length (enc_labels ls) + 1)" (is "?l \<longleftrightarrow> ?r")
proof
  have z: "wire_name [] = DnsName_zeroed" by (simp add: wire_name_def pad_name_Nil)
  show ?r if ?l
    using parse_labels_read [of k raw e pos "[]" name n] that by (simp add: z good_name_lower) (use good_name_def in auto)
  assume ?r
  then obtain ls rest where ls: "list_all good_label ls" "pos + length (enc_labels ls) < e" "drop pos raw = enc_labels ls @ 0 # rest"
    "length ls < k" "length (enc_labels ls) < 128" "name = wire_name (lower_labels ls)" "n = length (enc_labels ls) + 1"
    by (auto simp: name_at_def)
  have "pos \<le> length raw" using arg_cong [OF ls(3), of length] by simp
  moreover have "raw = take pos raw @ enc_labels ls @ 0 # rest" by (simp flip: ls(3))
  ultimately show ?l
    using parse_labels_written [of raw "take pos raw" ls rest e k "[]"] ls by (simp add: z good_name_lower)
qed

section \<open>Every frame has a verdict\<close>

lemma l3_bounds_safe:
  "14 \<le> length raw \<Longrightarrow> \<exists>r. l3_bounds raw = Some r \<and> (\<forall>h e. r = Some (h, e) \<longrightarrow> e \<le> length raw)"
  by (auto simp: l3_bounds_def rd_def rd_slice_def Let_def)

lemma parse_query_name_result:
  "\<exists>r. parse_query_name raw = Some r \<and>
     (\<forall>name n. r = Some (name, n) \<longrightarrow> (\<exists>ls. good_name ls \<and> name = wire_name ls \<and> n = length (enc_labels ls) + 1))"
proof (cases "length raw < 14")
  case True
  then show ?thesis by (simp add: parse_query_name_def)
next
  case False
  then obtain r where r: "l3_bounds raw = Some r" "\<And>h e. r = Some (h, e) \<Longrightarrow> e \<le> length raw"
    using l3_bounds_safe [of raw] by auto
  show ?thesis
  proof (cases r)
    case None
    then show ?thesis using False r by (simp add: parse_query_name_def)
  next
    case (Some he)
    then obtain h e where he: "r = Some (h, e)" "e \<le> length raw" using r(2) by (cases he) auto
    have labels: "\<exists>x. parse_labels DNS_MAX_LABELS raw ue pos 0 DnsName_zeroed = Some x \<and>
        (\<forall>name n. x = Some (name, n) \<longrightarrow> (\<exists>ls. good_name ls \<and> name = wire_name ls \<and> n = length (enc_labels ls) + 1))"
      if "ue \<le> e" for ue pos
      using parse_labels_safe [of ue raw DNS_MAX_LABELS pos 0 DnsName_zeroed] that he(2)
        parse_labels_iff [of DNS_MAX_LABELS raw ue pos]
      by (fastforce simp: name_at_def good_name_lower)
    show ?thesis
      using False r(1) he labels
      by (simp add: parse_query_name_def rd_def rd_slice_def Let_def del: split_paired_All split_paired_Ex)
  qed
qed

lemma is_query_blacklisted_eq:
  "\<exists>b. is_query_blacklisted blacklist raw = Some b \<and> (b \<longleftrightarrow>
     (\<exists>ls. parse_query_name raw = Some (Some (wire_name ls, length (enc_labels ls) + 1)) \<and> good_name ls \<and> name_listed blacklist ls))"
proof -
  obtain r where r: "parse_query_name raw = Some r"
    "\<And>name n. r = Some (name, n) \<Longrightarrow> \<exists>ls. good_name ls \<and> name = wire_name ls \<and> n = length (enc_labels ls) + 1"
    using parse_query_name_result [of raw] by auto
  show ?thesis
  proof (cases r)
    case (Some x)
    then obtain ls where "r = Some (wire_name ls, length (enc_labels ls) + 1)" "good_name ls" using r(2) by (cases x) blast
    then show ?thesis using r(1) is_blacklisted_wire [of ls blacklist] wire_name_inject
      by (auto simp: is_query_blacklisted_def)
  next
    case None
    then show ?thesis using r by (intro exI [of _ False]) (simp add: is_query_blacklisted_def)
  qed
qed

section \<open>Properties\<close>

text \<open>
  C15. Looking a frame up in the DNS filter always returns a verdict, whatever the bytes of the frame and
  the names on the blacklist: no index leaves the frame or the 128-byte name, and the unbounded loop over
  the parent domains of the name ends.
\<close>

theorem dns_lookup_returns: "\<exists>verdict. is_query_blacklisted blacklist raw = Some verdict"
  using is_query_blacklisted_eq [of blacklist raw] by blast

text \<open>A blacklist that holds the wire formats of some domains.\<close>

definition blacklist_of :: "string set \<Rightarrow> dns_blacklist" where
  "blacklist_of ds = (\<lambda>d. wire_name (map ascii (domain_labels d))) ` {d \<in> ds. valid_domain d}"

lemma name_listed_blacklist_of:
  assumes "good_name ls"
  shows "name_listed (blacklist_of ds) ls \<longleftrightarrow> (\<exists>d\<in>ds. valid_domain d \<and> suffix (map ascii (domain_labels d)) ls)"
proof -
  have ne: "map ascii (domain_labels d) \<noteq> []" for d by (simp add: domain_labels_def)
  have inj: "wire_name ms = wire_name (map ascii (domain_labels d)) \<longleftrightarrow> ms = map ascii (domain_labels d)"
    if "suffix ms ls" "valid_domain d" for ms d
    using that assms(1) wire_name_inject valid_domain_good good_name_suffix by (metis suffixE)
  show ?thesis
    using ne inj by (auto simp: name_listed_def blacklist_of_def)
qed

definition dns_query :: "bytes \<Rightarrow> bytes list \<Rightarrow> bytes \<Rightarrow> bytes" where
  "dns_query hdr ls rest = hdr @ enc_labels ls @ 0 # rest"

text \<open>
  What a frame has to be for the filter to see a query in it: a UDP datagram directly in an IPv4 packet (with options or
  without) or an IPv6 packet, whose IP header of \<open>h\<close> bytes starts after the Ethernet header and whose IP payload ends at
  \<open>e\<close>, within the frame; in the datagram, to port 53, a DNS message that is a query with a question, and the name of
  the question before the end of the datagram.
\<close>

definition u16_at :: "bytes \<Rightarrow> nat \<Rightarrow> nat" where
  "u16_at raw i = unat (from_be_bytes (take 2 (drop i raw)) :: u16)"

definition udp_packet :: "bytes \<Rightarrow> nat \<Rightarrow> nat \<Rightarrow> bool" where
  "udp_packet raw h e \<longleftrightarrow> e \<le> length raw \<and>
     (u16_at raw 12 = 0x0800 \<and> 34 \<le> length raw \<and> h = 4 * unat (raw ! 14 AND 0x0F) \<and> 20 \<le> h \<and> h \<le> u16_at raw 16
        \<and> raw ! 23 = 17 \<and> e = 14 + u16_at raw 16
      \<or> u16_at raw 12 = 0x86DD \<and> 62 \<le> length raw \<and> h = 40 \<and> raw ! 20 = 17 \<and> e = 54 + u16_at raw 18)"

definition carries_query :: "bytes \<Rightarrow> bytes list \<Rightarrow> bool" where
  "carries_query raw ls \<longleftrightarrow> (\<exists>h e u end_of_udp.
     udp_packet raw h e \<and> u = 14 + h \<and> end_of_udp = u + u16_at raw (u + 4) \<and> end_of_udp \<le> e
     \<and> u16_at raw (u + 2) = 53 \<and> u + 20 < end_of_udp
     \<and> raw ! (u + 10) AND 0x80 = 0 \<and> (raw ! (u + 12) \<noteq> 0 \<or> raw ! (u + 13) \<noteq> 0)
     \<and> name_at raw end_of_udp (u + 20) ls)"

lemma u16_eq_iff: "(from_be_bytes (take 2 (drop i raw)) :: u16) = c \<longleftrightarrow> u16_at raw i = unat c"
  by (simp add: u16_at_def word_unat_eq_iff)

lemma l3_bounds_iff: "14 \<le> length raw \<Longrightarrow> l3_bounds raw = Some (Some (h, e)) \<longleftrightarrow> udp_packet raw h e"
  by (auto simp: l3_bounds_def udp_packet_def rd_def rd_slice_def u16_eq_iff u16_at_def [symmetric] Let_def)

lemma udp_packet_long: "udp_packet raw h e \<Longrightarrow> 14 \<le> length raw \<and> e \<le> length raw \<and> 14 + h \<le> e"
  by (auto simp: udp_packet_def)

lemma unat_DNS_PORT [simp]: "unat DNS_PORT = 53"
  by (simp add: DNS_PORT_def)

lemma parse_query_name_iff:
  "parse_query_name raw = Some (Some (name, n)) \<longleftrightarrow>
     (\<exists>ls. carries_query raw ls \<and> length ls < 32 \<and> length (enc_labels ls) < 128
        \<and> name = wire_name (lower_labels ls) \<and> n = length (enc_labels ls) + 1)"
proof (cases "\<exists>h e. udp_packet raw h e")
  case False
  then have "\<not> carries_query raw ls" for ls by (auto simp: carries_query_def)
  moreover have "parse_query_name raw = Some None"
  proof (cases "14 \<le> length raw")
    case long: True
    obtain r where r: "l3_bounds raw = Some r" using l3_bounds_safe [OF long] by blast
    have "r = None" using False r l3_bounds_iff [OF long] by (cases r) auto
    with r long show ?thesis by (simp add: parse_query_name_def)
  qed (simp add: parse_query_name_def)
  ultimately show ?thesis by simp
next
  case True
  then obtain h e where he: "udp_packet raw h e" by blast
  note long = udp_packet_long [OF he]
  have l3: "l3_bounds raw = Some (Some (h, e))" using l3_bounds_iff he long by blast
  have only: "udp_packet raw h' e' \<longleftrightarrow> h' = h \<and> e' = e" for h' e'
    using l3 l3_bounds_iff [of raw h' e'] long by auto
  let ?u = "14 + h" let ?p = "?u + u16_at raw (?u + 4)"
  have c: "carries_query raw ls \<longleftrightarrow> ?p \<le> e \<and> u16_at raw (?u + 2) = 53 \<and> ?u + 20 < ?p
      \<and> raw ! (?u + 10) AND 0x80 = 0 \<and> (raw ! (?u + 12) \<noteq> 0 \<or> raw ! (?u + 13) \<noteq> 0) \<and> name_at raw ?p (?u + 20) ls" for ls
    by (simp add: carries_query_def only)
  show ?thesis
  proof (cases "?p \<le> e \<and> u16_at raw (?u + 2) = 53 \<and> ?u + 20 < ?p \<and> raw ! (?u + 10) AND 0x80 = 0
      \<and> (raw ! (?u + 12) \<noteq> 0 \<or> raw ! (?u + 13) \<noteq> 0)")
    case True
    then have "parse_query_name raw = parse_labels 32 raw ?p (?u + 20) 0 DnsName_zeroed"
      using l3 long
      by (simp add: parse_query_name_def rd_def rd_slice_def u16_eq_iff u16_at_def [symmetric] DNS_RESPONSE_FLAG_def
          DNS_MAX_LABELS_def Let_def add.commute add.left_commute)
    with True parse_labels_iff [of 32 raw ?p "?u + 20" name n] show ?thesis by (simp add: c)
  next
    case False
    then have "\<not> carries_query raw ls" for ls using c by blast
    moreover have "parse_query_name raw = Some None"
      using False l3 long
      by (auto simp: parse_query_name_def rd_def rd_slice_def u16_eq_iff u16_at_def [symmetric] DNS_RESPONSE_FLAG_def Let_def)
    ultimately show ?thesis by simp
  qed
qed

lemma carried_good: "carries_query raw ls \<Longrightarrow> length (enc_labels ls) < 128 \<Longrightarrow> good_name (lower_labels ls)"
  by (auto simp: carries_query_def name_at_def good_name_lower)

lemma carried_name_unique:
  assumes "carries_query raw ls" "length ls < 32" "length (enc_labels ls) < 128"
    and "carries_query raw ms" "length ms < 32" "length (enc_labels ms) < 128"
  shows "lower_labels ls = lower_labels ms"
proof -
  have "parse_query_name raw = Some (Some (wire_name (lower_labels ks), length (enc_labels ks) + 1))"
    if "carries_query raw ks" "length ks < 32" "length (enc_labels ks) < 128" for ks
    using that parse_query_name_iff by blast
  from this [OF assms(1-3)] this [OF assms(4-6)] have "wire_name (lower_labels ls) = wire_name (lower_labels ms)" by simp
  then show ?thesis using wire_name_inject carried_good assms by blast
qed

text \<open>
  C14. The verdict on a frame is exact, for every raw frame and every set of blocked domains: the frame is blacklisted
  exactly where it is a UDP datagram to port 53, directly in an IPv4 packet (with or without options) or in an IPv6
  packet, that carries a DNS query for a name of at most 31 labels and at most 127 bytes in wire format, and a valid
  blocked domain, in canonical form, is that name or a parent of it, whatever the case of the name's letters. In
  particular a longer name is never blacklisted, although DNS allows 255 bytes.
\<close>

theorem dns_verdict_is_exact:
  "is_query_blacklisted (blacklist_of ds) raw =
     Some (\<exists>ls. carries_query raw ls \<and> length ls < 32 \<and> length (enc_labels ls) < 128
             \<and> (\<exists>d\<in>ds. valid_domain d \<and> suffix (map ascii (domain_labels d)) (lower_labels ls)))"
proof -
  obtain r where r: "parse_query_name raw = Some r" using parse_query_name_result by blast
  show ?thesis
  proof (cases r)
    case None
    then have "\<not> (carries_query raw ls \<and> length ls < 32 \<and> length (enc_labels ls) < 128)" for ls
      using parse_query_name_iff [of raw] r by auto
    with None r show ?thesis by (auto simp: is_query_blacklisted_def)
  next
    case (Some x)
    obtain name n where x: "x = (name, n)" by (cases x)
    with Some r obtain ls where ls: "carries_query raw ls" "length ls < 32" "length (enc_labels ls) < 128"
      "name = wire_name (lower_labels ls)" "n = length (enc_labels ls) + 1" using parse_query_name_iff [of raw name n] by auto
    note good = carried_good [OF ls(1,3)]
    have "is_query_blacklisted (blacklist_of ds) raw = Some (\<exists>d\<in>ds. valid_domain d \<and> suffix (map ascii (domain_labels d)) (lower_labels ls))"
      using r Some x ls(4,5) is_blacklisted_wire [OF good, of "blacklist_of ds"] name_listed_blacklist_of [OF good, of ds]
      by (simp add: is_query_blacklisted_def)
    moreover have "(\<exists>ms. carries_query raw ms \<and> length ms < 32 \<and> length (enc_labels ms) < 128
        \<and> (\<exists>d\<in>ds. valid_domain d \<and> suffix (map ascii (domain_labels d)) (lower_labels ms)))
      \<longleftrightarrow> (\<exists>d\<in>ds. valid_domain d \<and> suffix (map ascii (domain_labels d)) (lower_labels ls))"
      using ls(1-3) carried_name_unique by metis
    ultimately show ?thesis by simp
  qed
qed

definition sample_query :: "bytes list" where
  "sample_query = [ascii ''www'', ascii ''EXAMPLE'', ascii ''Com'']"

definition ipv6_query :: bytes where
  "ipv6_query = replicate 12 0 @ [0x86, 0xDD, 0x60, 0, 0, 0, 0, 41, 17, 64] @ replicate 32 0
     @ [19, 136, 0, 53, 0, 41, 0, 0] @ [7, 7, 1, 0, 0, 1, 0, 0, 0, 0, 0, 0] @ enc_labels sample_query @ 0 # [0, 1, 0, 1]"

lemma sample_domain: "valid_domain '' Example.COM. ''"
  "suffix (map ascii (domain_labels '' Example.COM. '')) (lower_labels sample_query)"
  unfolding sample_query_def valid_domain_def by code_simp+

lemma sample_query_length: "length (enc_labels sample_query) = 16" "list_all good_label sample_query"
  by (simp_all add: sample_query_def good_label_def ascii_def)

lemma ipv6_query_bytes:
  "length ipv6_query = 95" "take 2 (drop 12 ipv6_query) = [0x86, 0xDD]" "ipv6_query ! 20 = 17" "take 2 (drop 18 ipv6_query) = [0, 41]"
  "take 2 (drop 58 ipv6_query) = [0, 41]" "take 2 (drop 56 ipv6_query) = [0, 53]" "ipv6_query ! 64 = 1" "ipv6_query ! 67 = 1"
  "drop 74 ipv6_query = enc_labels sample_query @ 0 # [0, 1, 0, 1]"
  by (simp_all add: ipv6_query_def sample_query_length nth_append)

lemma sample_query_carried: "carries_query ipv6_query sample_query"
proof -
  have "u16_at ipv6_query 12 = 0x86DD" "u16_at ipv6_query 18 = 41" "u16_at ipv6_query 58 = 41" "u16_at ipv6_query 56 = 53"
    by (simp_all add: u16_at_def ipv6_query_bytes unat_be2)
  moreover have "name_at ipv6_query 95 74 sample_query" by (simp add: name_at_def ipv6_query_bytes(9) sample_query_length)
  ultimately show ?thesis
    unfolding carries_query_def
    by (intro exI [of _ 40] exI [of _ 95] exI [of _ 54]) (simp add: ipv6_query_bytes(1,3,7,8) udp_packet_def)
qed

theorem dns_verdict_is_exact_witness: "is_query_blacklisted (blacklist_of {'' Example.COM. ''}) ipv6_query = Some True"
proof -
  have "length sample_query < 32" "length (enc_labels sample_query) < 128" by (simp_all add: sample_query_def)
  then show ?thesis
    using dns_verdict_is_exact [of "{'' Example.COM. ''}" ipv6_query] sample_query_carried sample_domain by auto
qed

text \<open>
  Names of more than 127 bytes are not looked up at all (DNS allows 255): a long enough name under a
  blocked domain passes.
\<close>

definition long_query :: "bytes list" where
  "long_query = [replicate 63 0x61, replicate 63 0x61, ascii ''example'', ascii ''com'']"

lemma long_query_escapes:
  "is_query_blacklisted (blacklist_of {''example.com''})
      (ipv4_frame (replicate 12 0) 0 (replicate 5 0) 17 [0, 0] [192, 0, 2, 1] [198, 51, 100, 7]
        (udp_segment 5000 DNS_PORT [0, 0] (dns_query [7, 7, 1, 0, 0, 1, 0, 0, 0, 0, 0, 0] long_query [0, 1, 0, 1]))) = Some False
   \<and> suffix (map ascii (domain_labels ''example.com'')) (lower_labels long_query) \<and> length (enc_labels long_query) + 1 \<le> 255"
proof -
  have "parse_query_name (ipv4_frame (replicate 12 0) 0 (replicate 5 0) 17 [0, 0] [192, 0, 2, 1] [198, 51, 100, 7]
        (udp_segment 5000 DNS_PORT [0, 0] (dns_query [7, 7, 1, 0, 0, 1, 0, 0, 0, 0, 0, 0] long_query [0, 1, 0, 1]))) = Some None"
    unfolding long_query_def by code_simp
  moreover have "suffix (map ascii (domain_labels ''example.com'')) (lower_labels long_query)" "length (enc_labels long_query) + 1 \<le> 255"
    unfolding long_query_def by code_simp+
  ultimately show ?thesis by (simp add: is_query_blacklisted_def)
qed

end
