(* ===== verification/Dns_Service.thy ===== *)
theory Dns_Service
  imports Dns_Filter Block_Store
begin

text \<open>
  The service behind the DNS filter (\<^verbatim>\<open>core/data_plane/dns_filter_service.rs\<close>) and its table
  (\<^verbatim>\<open>dns_blacklist\<close> in \<^verbatim>\<open>adapter/persistence/enforcement.rs\<close>): requests are normalised, applied to the
  filter and then written to the table, with a roll-back of the filter where writing fails. The argument
  \<open>ok\<close> says whether the transaction commits; log messages are left out.
\<close>

record dns_state =
  ds_filter :: dns_blacklist
  ds_rows :: "string list"

section \<open>The table\<close>

definition insert_dns_domains :: "bool \<Rightarrow> string list \<Rightarrow> dns_state \<Rightarrow> (error, dns_state) result" where
  "insert_dns_domains ok domains st =
     (if ok then Inr (st\<lparr>ds_rows := fold insert_or_ignore domains (ds_rows st)\<rparr>) else Inl db_error)"

definition delete_dns_domains :: "bool \<Rightarrow> string list \<Rightarrow> dns_state \<Rightarrow> (error, dns_state) result" where
  "delete_dns_domains ok domains st =
     (if ok then Inr (st\<lparr>ds_rows := fold (\<lambda>d rows. filter (\<lambda>r. r \<noteq> d) rows) domains (ds_rows st)\<rparr>) else Inl db_error)"

definition load_dns_domains :: "bool \<Rightarrow> dns_state \<Rightarrow> (error, string list) result" where
  "load_dns_domains ok st = (if ok then Inr (ds_rows st) else Inl db_error)"

section \<open>The service\<close>

definition add_or_skip :: "string \<Rightarrow> dns_blacklist \<Rightarrow> dns_blacklist" where
  "add_or_skip d bl = (case add_domain d bl of Inl _ \<Rightarrow> bl | Inr bl \<Rightarrow> bl)"

definition remove_or_skip :: "string \<Rightarrow> dns_blacklist \<Rightarrow> dns_blacklist" where
  "remove_or_skip d bl = (case remove_domain d bl of Inl _ \<Rightarrow> bl | Inr bl \<Rightarrow> bl)"

definition dns_restore :: "bool \<Rightarrow> dns_state \<Rightarrow> dns_state" where
  "dns_restore ok st =
     (case load_dns_domains ok st of
        Inl _ \<Rightarrow> st
      | Inr domains \<Rightarrow> st\<lparr>ds_filter := fold add_or_skip domains (ds_filter st)\<rparr>)"

definition rollback_added :: "string list \<Rightarrow> dns_state \<Rightarrow> dns_state" where
  "rollback_added domains st = st\<lparr>ds_filter := fold remove_or_skip domains (ds_filter st)\<rparr>"

definition rollback_removed :: "string list \<Rightarrow> dns_state \<Rightarrow> dns_state" where
  "rollback_removed domains st = st\<lparr>ds_filter := fold add_or_skip domains (ds_filter st)\<rparr>"

definition ensure_request_within_limit :: "nat \<Rightarrow> string list \<Rightarrow> (error, unit) result" where
  "ensure_request_within_limit max_domains domains =
     (if length domains > max_domains then Inl (Ebpf (TooManyDnsDomains max_domains)) else Inr ())"

fun normalized_from :: "string list \<Rightarrow> string list \<Rightarrow> (error, string list) result" where
  "normalized_from seen [] = Inr []"
| "normalized_from seen (domain # domains) =
     (let domain = canonical_dns_domain domain in
      and_then (map_err Ebpf (validate_domain domain)) (\<lambda>_.
        if domain \<in> set seen then normalized_from seen domains
        else and_then (normalized_from (domain # seen) domains) (\<lambda>rest. Inr (domain # rest))))"

definition normalized_domains :: "string list \<Rightarrow> (error, string list) result" where
  "normalized_domains domains = normalized_from [] domains"

text \<open>The loop that applies a request to the filter; \<open>applied\<close> is what has been applied, latest last.\<close>

fun apply_domains ::
  "(string \<Rightarrow> dns_blacklist \<Rightarrow> (ebpf_error, dns_blacklist) result) \<Rightarrow> (string list \<Rightarrow> dns_state \<Rightarrow> dns_state)
   \<Rightarrow> string list \<Rightarrow> string list \<Rightarrow> dns_state \<Rightarrow> (error, unit) result \<times> dns_state" where
  "apply_domains op rollback [] applied st = (Inr (), st)"
| "apply_domains op rollback (domain # domains) applied st =
     (case op domain (ds_filter st) of
        Inl e \<Rightarrow> (Inl (Ebpf e), rollback applied st)
      | Inr bl \<Rightarrow> apply_domains op rollback domains (applied @ [domain]) (st\<lparr>ds_filter := bl\<rparr>))"

definition add_domains :: "bool \<Rightarrow> nat \<Rightarrow> string list \<Rightarrow> dns_state \<Rightarrow> (error, nat) result \<times> dns_state" where
  "add_domains ok max_domains domains st =
     (case and_then (ensure_request_within_limit max_domains domains) (\<lambda>_. normalized_domains domains) of
        Inl e \<Rightarrow> (Inl e, st)
      | Inr domains \<Rightarrow>
          try_then (apply_domains add_domain rollback_added domains [] st) (\<lambda>_ st.
            case insert_dns_domains ok domains st of
              Inl e \<Rightarrow> (Inl e, rollback_added domains st)
            | Inr st \<Rightarrow> (Inr (length domains), st)))"

definition remove_domains :: "bool \<Rightarrow> nat \<Rightarrow> string list \<Rightarrow> dns_state \<Rightarrow> (error, nat) result \<times> dns_state" where
  "remove_domains ok max_domains domains st =
     (case and_then (ensure_request_within_limit max_domains domains) (\<lambda>_. normalized_domains domains) of
        Inl e \<Rightarrow> (Inl e, st)
      | Inr domains \<Rightarrow>
          try_then (apply_domains remove_domain rollback_removed domains [] st) (\<lambda>_ st.
            case delete_dns_domains ok domains st of
              Inl e \<Rightarrow> (Inl e, rollback_removed domains st)
            | Inr st \<Rightarrow> (Inr (length domains), st)))"

section \<open>What the operations do to the filter\<close>

abbreviation wire_of :: "string \<Rightarrow> dns_name" where
  "wire_of d \<equiv> wire_name (map ascii (domain_labels d))"

lemma domain_op_simps:
  "valid_domain d \<Longrightarrow> add_domain d bl = Inr (insert (wire_of d) bl)"
  "valid_domain d \<Longrightarrow> remove_domain d bl = Inr (bl - {wire_of d})"
  "valid_domain d \<Longrightarrow> validate_domain d = Inr ()"
  by (simp_all add: add_domain_def remove_domain_def validate_domain_def
      domain_to_wire_format_Inr [THEN iffD2, OF conjI, OF _ refl])

lemma domain_op_invalid:
  "\<not> valid_domain d \<Longrightarrow> \<exists>e. add_domain d bl = Inl e" "\<not> valid_domain d \<Longrightarrow> \<exists>e. validate_domain d = Inl e"
  by (cases "domain_to_wire_format d"; auto simp: add_domain_def validate_domain_def domain_to_wire_format_Inr)+

lemma validate_domain_iff: "validate_domain d = Inr () \<longleftrightarrow> valid_domain d"
  using domain_op_simps(3) domain_op_invalid(2) by fastforce

lemma apply_add:
  assumes "\<forall>d\<in>set ds. valid_domain d"
  shows "apply_domains add_domain rb ds applied st = (Inr (), st\<lparr>ds_filter := wire_of ` set ds \<union> ds_filter st\<rparr>)"
  using assms
proof (induction ds arbitrary: applied st)
  case (Cons d ds)
  then show ?case by (simp add: domain_op_simps Un_commute)
qed simp

lemma apply_remove:
  assumes "\<forall>d\<in>set ds. valid_domain d"
  shows "apply_domains remove_domain rb ds applied st = (Inr (), st\<lparr>ds_filter := ds_filter st - wire_of ` set ds\<rparr>)"
  using assms
proof (induction ds arbitrary: applied st)
  case (Cons d ds)
  then show ?case by (auto simp add: domain_op_simps intro!: arg_cong [where f = "\<lambda>x. ds_filter_update x st"])
qed simp

lemma fold_add: "fold add_or_skip ds bl = bl \<union> blacklist_of (set ds)"
proof (induction ds arbitrary: bl)
  case (Cons d ds)
  then show ?case
    using domain_op_simps(1) [of d bl] domain_op_invalid(1) [of d bl]
    by (cases "valid_domain d") (auto simp: add_or_skip_def blacklist_of_def)
qed (simp add: blacklist_of_def)

lemma fold_remove: "\<forall>d\<in>set ds. valid_domain d \<Longrightarrow> fold remove_or_skip ds bl = bl - wire_of ` set ds"
  by (induction ds arbitrary: bl) (auto simp: remove_or_skip_def domain_op_simps)



lemma normalized_from_Inr:
  "normalized_from seen ds = Inr ns \<Longrightarrow>
     set ns = canonical_dns_domain ` set ds - set seen \<and> (\<forall>d\<in>set ds. valid_domain (canonical_dns_domain d))"
proof (induction ds arbitrary: seen ns)
  case (Cons d ds)
  let ?c = "canonical_dns_domain d"
  have v: "valid_domain ?c"
    using Cons.prems domain_op_invalid(2) [of ?c] by (cases "valid_domain ?c") (auto simp: Let_def)
  show ?case
  proof (cases "?c \<in> set seen")
    case True
    with Cons.prems v have "normalized_from seen ds = Inr ns" by (simp add: domain_op_simps Let_def)
    from Cons.IH [OF this] True v show ?thesis by auto
  next
    case False
    with Cons.prems v obtain rest where "normalized_from (?c # seen) ds = Inr rest" "ns = ?c # rest"
      by (auto simp: domain_op_simps Let_def and_then_Inr_iff)
    with Cons.IH [OF this(1)] False v show ?thesis by auto
  qed
qed simp

lemmas normalized_domains_Inr = normalized_from_Inr [where seen = "[]", folded normalized_domains_def, simplified]

lemma add_domains_cases:
  obtains (refused) e where "add_domains ok mx ds st = (Inl e, st)" "\<And>ns. normalized_domains ds = Inr ns \<Longrightarrow> length ds > mx"
  | (applied) ns where "normalized_domains ds = Inr ns" "length ds \<le> mx"
      "add_domains ok mx ds st =
        (if ok then (Inr (length ns), st\<lparr>ds_filter := wire_of ` set ns \<union> ds_filter st, ds_rows := fold insert_or_ignore ns (ds_rows st)\<rparr>)
         else (Inl db_error, st\<lparr>ds_filter := ds_filter st - wire_of ` set ns\<rparr>))"
proof (cases "length ds > mx")
  case False
  show ?thesis
  proof (cases "normalized_domains ds")
    case (Inr ns)
    have v: "\<forall>d\<in>set ns. valid_domain d" using normalized_domains_Inr [OF Inr] by auto
    have "(wire_of ` set ns \<union> ds_filter st) - wire_of ` set ns = ds_filter st - wire_of ` set ns" by blast
    then show ?thesis
      using False Inr v applied [OF Inr] by (simp add: add_domains_def ensure_request_within_limit_def apply_add insert_dns_domains_def
          rollback_added_def fold_remove)
  qed (use False refused in \<open>simp add: add_domains_def ensure_request_within_limit_def\<close>)
qed (use refused in \<open>simp add: add_domains_def ensure_request_within_limit_def\<close>)

lemma remove_domains_cases:
  obtains (refused) e where "remove_domains ok mx ds st = (Inl e, st)" "\<And>ns. normalized_domains ds = Inr ns \<Longrightarrow> length ds > mx"
  | (applied) ns where "normalized_domains ds = Inr ns" "length ds \<le> mx"
      "remove_domains ok mx ds st =
        (if ok then (Inr (length ns), st\<lparr>ds_filter := ds_filter st - wire_of ` set ns,
            ds_rows := fold (\<lambda>d rows. filter (\<lambda>r. r \<noteq> d) rows) ns (ds_rows st)\<rparr>)
         else (Inl db_error, st\<lparr>ds_filter := wire_of ` set ns \<union> ds_filter st\<rparr>))"
proof (cases "length ds > mx")
  case False
  show ?thesis
  proof (cases "normalized_domains ds")
    case (Inr ns)
    have v: "\<forall>d\<in>set ns. valid_domain d" using normalized_domains_Inr [OF Inr] by auto
    then have b: "blacklist_of (set ns) = wire_of ` set ns" by (auto simp: blacklist_of_def)
    have "(ds_filter st - wire_of ` set ns) \<union> wire_of ` set ns = wire_of ` set ns \<union> ds_filter st" by blast
    then show ?thesis
      using False Inr v b applied [OF Inr] by (simp add: remove_domains_def ensure_request_within_limit_def apply_remove delete_dns_domains_def
          rollback_removed_def fold_add)
  qed (use False refused in \<open>simp add: remove_domains_def ensure_request_within_limit_def\<close>)
qed (use refused in \<open>simp add: remove_domains_def ensure_request_within_limit_def\<close>)

lemma add_domains_Inr:
  "add_domains ok mx ds st = (Inr n, st') \<Longrightarrow> \<exists>ns. normalized_domains ds = Inr ns
     \<and> st' = st\<lparr>ds_filter := wire_of ` set ns \<union> ds_filter st, ds_rows := fold insert_or_ignore ns (ds_rows st)\<rparr>"
  by (cases rule: add_domains_cases [of ok mx ds st]) (auto split: if_splits)

lemma remove_domains_Inr:
  "remove_domains ok mx ds st = (Inr n, st') \<Longrightarrow> \<exists>ns. normalized_domains ds = Inr ns
     \<and> st' = st\<lparr>ds_filter := ds_filter st - wire_of ` set ns, ds_rows := fold (\<lambda>d rows. filter (\<lambda>r. r \<noteq> d) rows) ns (ds_rows st)\<rparr>"
  by (cases rule: remove_domains_cases [of ok mx ds st]) (auto split: if_splits)

section \<open>Filter and table in step\<close>

text \<open>
  The rows are valid domains in canonical form and the filter holds exactly their names. A requested
  domain is \<open>settled\<close> if bringing it to canonical form once is enough.
\<close>

definition in_step :: "dns_state \<Rightarrow> bool" where
  "in_step st \<longleftrightarrow> ds_filter st = wire_of ` set (ds_rows st)
     \<and> (\<forall>r\<in>set (ds_rows st). valid_domain r \<and> canonical_dns_domain r = r)"

definition settled :: "string \<Rightarrow> bool" where
  "settled d \<longleftrightarrow> canonical_dns_domain (canonical_dns_domain d) = canonical_dns_domain d"

lemma wire_of_inject:
  assumes "valid_domain d" "canonical_dns_domain d = d" "valid_domain d'" "canonical_dns_domain d' = d'"
  shows "wire_of d = wire_of d' \<longleftrightarrow> d = d'"
proof
  assume "wire_of d = wire_of d'"
  then have "map ascii (domain_labels d) = map ascii (domain_labels d')"
    using wire_name_inject valid_domain_good assms(1,3) by blast
  moreover have "inj ascii" by (metis chars_ascii injI)
  ultimately have "domain_labels d = domain_labels d'" by (simp add: inj_eq inj_map)
  then have "canonical_dns_domain d = canonical_dns_domain d'" by (metis domain_labels_def join_with_split_on)
  then show "d = d'" using assms(2,4) by simp
qed simp

lemma settled_normalized:
  assumes "normalized_domains ds = Inr ns" "\<forall>d\<in>set ds. settled d"
  shows "set ns = canonical_dns_domain ` set ds" "\<forall>n\<in>set ns. valid_domain n \<and> canonical_dns_domain n = n"
  using normalized_domains_Inr [OF assms(1)] assms(2) by (auto simp: settled_def)







definition one_domain :: dns_state where
  "one_domain = \<lparr>ds_filter = {wire_of ''example.com''}, ds_rows = [''example.com'']\<rparr>"

lemma one_domain_in_step: "in_step one_domain"
  unfolding one_domain_def in_step_def valid_domain_def by code_simp



text \<open>
  A refused or failed addition leaves the table alone, and the filter too where none of the requested
  domains was listed before.
\<close>

theorem failed_dns_addition_is_undone:
  assumes "in_step st" "\<forall>d\<in>set ds. settled d" "canonical_dns_domain ` set ds \<inter> set (ds_rows st) = {}"
    and "add_domains ok mx ds st = (Inl e, st')"
  shows "st' = st"
proof (cases rule: add_domains_cases [of ok mx ds st])
  case (applied ns)
  note s = settled_normalized [OF applied(1) assms(2)]
  have "wire_of r \<notin> wire_of ` set ns" if "r \<in> set (ds_rows st)" for r
    using that wire_of_inject assms(1,3) s by (fastforce simp: in_step_def)
  then have "ds_filter st - wire_of ` set ns = ds_filter st" using assms(1) by (auto simp: in_step_def)
  with applied(3) assms(4) show ?thesis by (auto split: if_splits)
qed (use assms(4) in auto)

theorem failed_dns_addition_is_undone_witness:
  "add_domains False 10 [''ads.example.org''] one_domain = (Inl db_error, one_domain)"
proof -
  have c: "canonical_dns_domain ''ads.example.org'' = ''ads.example.org''" by code_simp
  have "valid_domain ''ads.example.org''" unfolding valid_domain_def by code_simp
  then have "normalized_domains [''ads.example.org''] = Inr [''ads.example.org'']"
    using c by (simp add: normalized_domains_def domain_op_simps Let_def)
  then obtain st' where "add_domains False 10 [''ads.example.org''] one_domain = (Inl db_error, st')"
    by (cases rule: add_domains_cases [of False 10 "[''ads.example.org'']" one_domain]) auto
  with failed_dns_addition_is_undone [OF one_domain_in_step, of "[''ads.example.org'']" False 10 db_error st'] c show ?thesis
    by (simp add: settled_def one_domain_def)
qed

text \<open>
  The roll-back of a failed addition takes a domain off the filter that had been listed before: the table
  still has it and the filter does not.
\<close>

lemma failed_dns_addition_unlists_older:
  "\<exists>st'. add_domains False 10 [''example.com''] one_domain = (Inl db_error, st')
     \<and> ds_filter st' = {} \<and> ds_rows st' = [''example.com'']"
proof -
  have c: "canonical_dns_domain ''example.com'' = ''example.com''" by code_simp
  have "valid_domain ''example.com''" unfolding valid_domain_def by code_simp
  then have n: "normalized_domains [''example.com''] = Inr [''example.com'']"
    using c by (simp add: normalized_domains_def domain_op_simps Let_def)
  show ?thesis
    by (cases rule: add_domains_cases [of False 10 "[''example.com'']" one_domain]) (use n in \<open>auto simp: one_domain_def\<close>)
qed

text \<open>
  The canonical form of a text need not be canonical: \<open>''a. .''\<close> is stored as \<open>''a. ''\<close> and listed as
  \<open>''a''\<close>, and removing \<open>''a''\<close> leaves the row, which the next restart restores.
\<close>

lemma unsettled_domain_returns:
  "\<exists>st\<^sub>1 st\<^sub>2. add_domains True 10 [''a. .''] \<lparr>ds_filter = {}, ds_rows = []\<rparr> = (Inr 1, st\<^sub>1)
     \<and> list_domains (ds_filter st\<^sub>1) = Some {''a''}
     \<and> remove_domains True 10 [''a''] st\<^sub>1 = (Inr 1, st\<^sub>2) \<and> ds_filter st\<^sub>2 = {} \<and> dns_restore True st\<^sub>2 = st\<^sub>1"
proof -
  have c: "canonical_dns_domain ''a. .'' = ''a. ''" "canonical_dns_domain ''a. '' = ''a''" "canonical_dns_domain ''a'' = ''a''"
    by code_simp+
  then have l: "domain_labels ''a. '' = [''a'']" "domain_labels ''a'' = [''a'']" by (simp_all add: domain_labels_def)
  then have v: "valid_domain ''a. ''" "valid_domain ''a''"
    unfolding valid_domain_def by (simp_all add: is_valid_domain_label_def is_ascii_alphanumeric_def)
  have n: "normalized_domains [''a. .''] = Inr [''a. '']" "normalized_domains [''a''] = Inr [''a'']"
    using c v by (simp_all add: normalized_domains_def domain_op_simps Let_def)
  let ?s1 = "\<lparr>ds_filter = {wire_of ''a''}, ds_rows = [''a. '']\<rparr>" and ?s2 = "\<lparr>ds_filter = {}, ds_rows = [''a. '']\<rparr>"
  have "add_domains True 10 [''a. .''] \<lparr>ds_filter = {}, ds_rows = []\<rparr> = (Inr 1, ?s1)"
    by (cases rule: add_domains_cases [of True 10 "[''a. .'']" "\<lparr>ds_filter = {}, ds_rows = []\<rparr>"])
      (use n l in \<open>auto simp: insert_or_ignore_def\<close>)
  moreover have "remove_domains True 10 [''a''] ?s1 = (Inr 1, ?s2)"
    by (cases rule: remove_domains_cases [of True 10 "[''a'']" ?s1]) (use n l in auto)
  moreover have "list_domains {wire_of ''a''} = Some {''a''}"
    using wire_format_to_domain_valid [OF v(2)] c by (simp add: list_domains_def)
  moreover have "dns_restore True ?s2 = ?s1"
    using v l by (simp add: dns_restore_def load_dns_domains_def add_or_skip_def domain_op_simps)
  ultimately show ?thesis by (intro exI [of _ ?s1] exI [of _ ?s2]) simp
qed

end
