(* ===== verification/Geo_Block.thy ===== *)
theory Geo_Block
  imports Acl_Adapter Rust_Text "HOL-Library.Product_Lexorder"
begin

unbundle bit_operations_syntax

text \<open>
  Country blocking (\<^verbatim>\<open>adapter/ebpf/geo_block.rs\<close>): the networks of the blocked countries are written
  to two longest-prefix tries that the ingress program looks the source address up in.

  A trie is the set of its entries, an address in network byte order with a prefix length. The
  kernel decides whether an insertion has room (\<open>lpm_insert\<close>), a hash set is iterated in some order
  (\<open>order\<close>), and the index of networks by country comes from the GeoIP database through
  \<^verbatim>\<open>maxminddb\<close> (\<open>read_index\<close>); the locale \<open>lpm_kernel\<close> states what the code relies on.
\<close>

section \<open>State\<close>

type_synonym 'a lpm = "('a \<times> u32) set"

record geo_index =
  gi_v4 :: "string \<Rightarrow> (u32 \<times> u32) list option"
  gi_v6 :: "string \<Rightarrow> (u128 \<times> u32) list option"

record geo_block =
  geo_block_v4 :: "u32 lpm option"
  geo_block_v6 :: "u128 lpm option"
  blocked_countries :: "string set"
  cached_index :: "geo_index option"

record geo_api =
  lpm4_insert :: "u32 lpm \<Rightarrow> u32 \<times> u32 \<Rightarrow> u32 lpm option"
  lpm4_remove :: "u32 lpm \<Rightarrow> u32 \<times> u32 \<Rightarrow> u32 lpm option"
  lpm6_insert :: "u128 lpm \<Rightarrow> u128 \<times> u32 \<Rightarrow> u128 lpm option"
  lpm6_remove :: "u128 lpm \<Rightarrow> u128 \<times> u32 \<Rightarrow> u128 lpm option"
  order4 :: "(u32 \<times> u32) set \<Rightarrow> (u32 \<times> u32) list"
  order6 :: "(u128 \<times> u32) set \<Rightarrow> (u128 \<times> u32) list"
  read_index :: "(error, geo_index) result"

section \<open>Operations\<close>

definition to_ascii_upper :: "char \<Rightarrow> char" where
  "to_ascii_upper c =
     (if 97 \<le> (of_char c :: nat) \<and> (of_char c :: nat) \<le> 122 then char_of ((of_char c :: nat) - 32) else c)"

definition to_uppercase :: "string \<Rightarrow> string" where
  "to_uppercase s = map to_ascii_upper s"

definition is_ascii_alphabetic :: "char \<Rightarrow> bool" where
  "is_ascii_alphabetic c \<longleftrightarrow> (65 \<le> (of_char c :: nat) \<and> (of_char c :: nat) \<le> 90)
     \<or> (97 \<le> (of_char c :: nat) \<and> (of_char c :: nat) \<le> 122)"

definition country_code_ok :: "string \<Rightarrow> bool" where
  "country_code_ok upper \<longleftrightarrow> length upper = 2 \<and> list_all is_ascii_alphabetic upper"

text \<open>The lazily loaded index, kept once it has been read.\<close>

definition geo_index_of :: "geo_api \<Rightarrow> geo_block \<Rightarrow> (error, geo_index \<times> geo_block) result" where
  "geo_index_of G gb =
     (case cached_index gb of
        Some index \<Rightarrow> Inr (index, gb)
      | None \<Rightarrow> and_then (read_index G) (\<lambda>index. Inr (index, gb\<lparr>cached_index := Some index\<rparr>)))"

fun insert_entries :: "('a lpm \<Rightarrow> 'a \<times> u32 \<Rightarrow> 'a lpm option) \<Rightarrow> ('a \<times> u32) list \<Rightarrow> nat \<times> 'a lpm \<Rightarrow> nat \<times> 'a lpm" where
  "insert_entries ins [] (n, trie) = (n, trie)"
| "insert_entries ins (x # xs) (n, trie) =
     (case ins trie x of
        Some trie \<Rightarrow> insert_entries ins xs (n + 1, trie)
      | None \<Rightarrow> insert_entries ins xs (n, trie))"

fun remove_entries :: "('a lpm \<Rightarrow> 'a \<times> u32 \<Rightarrow> 'a lpm option) \<Rightarrow> ('a \<times> u32) list \<Rightarrow> 'a lpm \<Rightarrow> 'a lpm" where
  "remove_entries del [] trie = trie"
| "remove_entries del (x # xs) trie =
     remove_entries del xs (case del trie x of Some trie \<Rightarrow> trie | None \<Rightarrow> trie)"

definition remove_stale_v4 :: "geo_api \<Rightarrow> (u32 \<times> u32) set \<Rightarrow> u32 lpm \<Rightarrow> u32 lpm" where
  "remove_stale_v4 G desired trie = remove_entries (lpm4_remove G) (filter (\<lambda>k. k \<notin> desired) (order4 G trie)) trie"

definition remove_stale_v6 :: "geo_api \<Rightarrow> (u128 \<times> u32) set \<Rightarrow> u128 lpm \<Rightarrow> u128 lpm" where
  "remove_stale_v6 G desired trie = remove_entries (lpm6_remove G) (filter (\<lambda>k. k \<notin> desired) (order6 G trie)) trie"

text \<open>The prefixes of a set of countries.\<close>

definition entries_of :: "(string \<Rightarrow> ('a \<times> u32) list option) \<Rightarrow> string set \<Rightarrow> ('a \<times> u32) set" where
  "entries_of idx countries = (\<Union>code\<in>countries. case idx code of Some prefixes \<Rightarrow> set prefixes | None \<Rightarrow> {})"

definition rebuild_tries_for :: "geo_api \<Rightarrow> string set \<Rightarrow> geo_block \<Rightarrow> (error, nat \<times> geo_block) result" where
  "rebuild_tries_for G countries gb =
     (if geo_block_v4 gb = None \<or> geo_block_v6 gb = None then Inl (Ebpf NotLoaded)
      else
        and_then (if countries \<noteq> {} then
                    and_then (geo_index_of G gb) (\<lambda>(index, gb).
                      Inr (entries_of (gi_v4 index) countries, entries_of (gi_v6 index) countries, gb))
                  else Inr ({}, {}, gb))
          (\<lambda>(v4_entries, v6_entries, gb).
             case (geo_block_v4 gb, geo_block_v6 gb) of
               (Some v4_trie, Some v6_trie) \<Rightarrow>
                 let (count, v4_trie) = insert_entries (lpm4_insert G) (order4 G v4_entries) (0, v4_trie);
                     (count, v6_trie) = insert_entries (lpm6_insert G) (order6 G v6_entries) (count, v6_trie);
                     v4_trie = remove_stale_v4 G v4_entries v4_trie;
                     v6_trie = remove_stale_v6 G v6_entries v6_trie
                 in Inr (count, gb\<lparr>geo_block_v4 := Some v4_trie, geo_block_v6 := Some v6_trie\<rparr>)
             | _ \<Rightarrow> Inl (Ebpf NotLoaded)))"

definition block_countries :: "geo_api \<Rightarrow> string list \<Rightarrow> geo_block \<Rightarrow> (error, nat \<times> geo_block) result" where
  "block_countries G country_codes gb =
     (let next = blocked_countries gb \<union> {u \<in> (\<lambda>code. to_uppercase (trim code)) ` set country_codes. country_code_ok u}
      in and_then (rebuild_tries_for G next gb) (\<lambda>(count, gb). Inr (count, gb\<lparr>blocked_countries := next\<rparr>)))"

definition unblock_countries :: "geo_api \<Rightarrow> string list \<Rightarrow> geo_block \<Rightarrow> (error, nat \<times> geo_block) result" where
  "unblock_countries G country_codes gb =
     (let next = blocked_countries gb - (\<lambda>code. to_uppercase (trim code)) ` set country_codes
      in and_then (rebuild_tries_for G next gb) (\<lambda>(count, gb). Inr (count, gb\<lparr>blocked_countries := next\<rparr>)))"

section \<open>What the code relies on of the kernel's tries\<close>

locale lpm_kernel =
  fixes G :: geo_api
  assumes order4_set: "finite S \<Longrightarrow> set (order4 G S) = S"
    and order6_set: "finite T \<Longrightarrow> set (order6 G T) = T"
    and insert4: "lpm4_insert G t x = Some t' \<Longrightarrow> t' = insert x t"
    and insert6: "lpm6_insert G u y = Some u' \<Longrightarrow> u' = insert y u"
    and remove4: "lpm4_remove G t x = (if x \<in> t then Some (t - {x}) else None)"
    and remove6: "lpm6_remove G u y = (if y \<in> u then Some (u - {y}) else None)"

lemma insert_entries_bounds:
  assumes "\<And>t x t'. ins t x = Some t' \<Longrightarrow> t' = insert x t"
  shows "insert_entries ins xs (n, trie) = (m, trie') \<Longrightarrow> trie \<subseteq> trie' \<and> trie' \<subseteq> trie \<union> set xs
    \<and> m \<le> n + length xs \<and> (m = n + length xs \<longrightarrow> trie' = trie \<union> set xs)"
proof (induction xs arbitrary: n trie)
  case (Cons x xs)
  show ?case
  proof (cases "ins trie x")
    case None
    then show ?thesis using Cons by fastforce
  next
    case (Some t)
    then show ?thesis using Cons.IH [of "n + 1" t] Cons.prems assms [OF Some] by auto
  qed
qed simp

lemma remove_entries_eq:
  assumes "\<And>t x. del t x = (if x \<in> t then Some (t - {x}) else None)"
  shows "remove_entries del xs trie = trie - set xs"
  by (induction xs arbitrary: trie) (auto simp: assms split: if_splits)

text \<open>The longest-prefix match of a host address: some entry agrees with it on its prefix.\<close>

definition in_network_v4 :: "u32 \<Rightarrow> u32 \<Rightarrow> nat \<Rightarrow> bool" where
  "in_network_v4 a net prefix \<longleftrightarrow> drop_bit (32 - prefix) a = drop_bit (32 - prefix) net"

definition in_network_v6 :: "u128 \<Rightarrow> u128 \<Rightarrow> nat \<Rightarrow> bool" where
  "in_network_v6 a net prefix \<longleftrightarrow> drop_bit (128 - prefix) a = drop_bit (128 - prefix) net"

definition lpm_lookup_v4 :: "endian \<Rightarrow> u32 lpm \<Rightarrow> u32 \<Rightarrow> u32 \<Rightarrow> u8 option" where
  "lpm_lookup_v4 e trie prefix_len data =
     (if \<exists>(d, p)\<in>trie. p \<le> prefix_len \<and> in_network_v4 (to_be e 4 data) (to_be e 4 d) (unat p) then Some 1 else None)"

definition lpm_lookup_v6 :: "endian \<Rightarrow> u128 lpm \<Rightarrow> u32 \<Rightarrow> u128 \<Rightarrow> u8 option" where
  "lpm_lookup_v6 e trie prefix_len data =
     (if \<exists>(d, p)\<in>trie. p \<le> prefix_len \<and> in_network_v6 (to_be e 16 data) (to_be e 16 d) (unat p) then Some 1 else None)"

definition index_in_use :: "geo_api \<Rightarrow> geo_block \<Rightarrow> geo_index \<Rightarrow> bool" where
  "index_in_use G gb index = (case cached_index gb of Some i \<Rightarrow> i = index | None \<Rightarrow> read_index G = Inr index)"

definition finite_tries :: "geo_block \<Rightarrow> bool" where
  "finite_tries gb \<longleftrightarrow> finite (the (geo_block_v4 gb)) \<and> finite (the (geo_block_v6 gb)) \<and> finite (blocked_countries gb)"

lemma finite_entries_of: "finite C \<Longrightarrow> finite (entries_of idx C)"
  by (auto simp: entries_of_def split: option.split)

context lpm_kernel
begin

lemma rebuild_Ok:
  assumes r: "rebuild_tries_for G C gb = Inr (n, gb')" and idx: "index_in_use G gb index" and fin: "finite C" "finite_tries gb"
  defines "E4 \<equiv> entries_of (gi_v4 index) C" and "E6 \<equiv> entries_of (gi_v6 index) C"
  obtains t4 t6 where "geo_block_v4 gb' = Some t4" "geo_block_v6 gb' = Some t6" "t4 \<subseteq> E4" "t6 \<subseteq> E6"
    "n = length (order4 G E4) + length (order6 G E6) \<longrightarrow> t4 = E4 \<and> t6 = E6"
    "index_in_use G gb' index"
proof -
  obtain s4 s6 where s: "geo_block_v4 gb = Some s4" "geo_block_v6 gb = Some s6"
    using r by (auto simp: rebuild_tries_for_def split: if_splits)
  have E: "C = {} \<Longrightarrow> E4 = {} \<and> E6 = {}" by (simp add: E4_def E6_def entries_of_def)
  define gb1 where "gb1 = (if C = {} then gb else gb\<lparr>cached_index := Some index\<rparr>)"
  have idx': "geo_index_of G gb = Inr (index, gb\<lparr>cached_index := Some index\<rparr>)"
    using idx by (auto simp: geo_index_of_def index_in_use_def split: option.splits)
  obtain n1 t4 where i4: "insert_entries (lpm4_insert G) (order4 G E4) (0, s4) = (n1, t4)" by force
  obtain n2 t6 where i6: "insert_entries (lpm6_insert G) (order6 G E6) (n1, s6) = (n2, t6)" by force
  have res: "n = n2" "gb' = gb1\<lparr>geo_block_v4 := Some (remove_stale_v4 G E4 t4), geo_block_v6 := Some (remove_stale_v6 G E6 t6)\<rparr>"
    using r s E i4 i6 idx'
    by (auto simp: rebuild_tries_for_def gb1_def E4_def E6_def split: if_splits)
  note b4 = insert_entries_bounds [of "lpm4_insert G", OF insert4 i4]
  note b6 = insert_entries_bounds [of "lpm6_insert G", OF insert6 i6]
  have fE: "finite E4" "finite E6" using fin(1) by (simp_all add: E4_def E6_def finite_entries_of)
  then have ord: "set (order4 G E4) = E4" "set (order6 G E6) = E6" by (simp_all add: order4_set order6_set)
  have ft: "finite t4" "finite t6"
    using b4 b6 ord fE fin(2) s by (auto simp: finite_tries_def intro: finite_subset)
  have rem: "remove_stale_v4 G E4 t4 = t4 \<inter> E4" "remove_stale_v6 G E6 t6 = t6 \<inter> E6"
    using ft by (auto simp: remove_stale_v4_def remove_stale_v6_def remove_entries_eq remove4 remove6 order4_set order6_set)
  show thesis
  proof (rule that)
    have "t4 = s4 \<union> E4" "t6 = s6 \<union> E6" if "n = length (order4 G E4) + length (order6 G E6)"
      using that b4 b6 res(1) ord by auto
    then show "n = length (order4 G E4) + length (order6 G E6) \<longrightarrow>
        remove_stale_v4 G E4 t4 = E4 \<and> remove_stale_v6 G E6 t6 = E6" using rem by auto
  next
    show "index_in_use G gb' index" using idx by (auto simp: res(2) gb1_def index_in_use_def)
  qed (use rem in \<open>simp_all add: res(2)\<close>)
qed

end

text \<open>A kernel with room for every entry, iterating a finite set in the order of the addresses.\<close>

definition roomy_geo :: "geo_index \<Rightarrow> geo_api" where
  "roomy_geo index =
     \<lparr>lpm4_insert = (\<lambda>t x. Some (insert x t)), lpm4_remove = (\<lambda>t x. if x \<in> t then Some (t - {x}) else None),
      lpm6_insert = (\<lambda>t x. Some (insert x t)), lpm6_remove = (\<lambda>t x. if x \<in> t then Some (t - {x}) else None),
      order4 = (\<lambda>S. sorted_list_of_set S), order6 = (\<lambda>S. sorted_list_of_set S), read_index = Inr index\<rparr>"

interpretation roomy: lpm_kernel "roomy_geo index"
  by unfold_locales (auto simp: roomy_geo_def)

lemma block_countries_entries:
  assumes "lpm_kernel G" "index_in_use G gb index" "finite_tries gb" "block_countries G codes gb = Inr (n, gb')"
  defines "C \<equiv> blocked_countries gb'"
  shows "C = blocked_countries gb \<union> {u \<in> (\<lambda>code. to_uppercase (trim code)) ` set codes. country_code_ok u}"
    and "\<exists>t4 t6. geo_block_v4 gb' = Some t4 \<and> geo_block_v6 gb' = Some t6
      \<and> t4 \<subseteq> entries_of (gi_v4 index) C \<and> t6 \<subseteq> entries_of (gi_v6 index) C
      \<and> (n = length (order4 G (entries_of (gi_v4 index) C)) + length (order6 G (entries_of (gi_v6 index) C)) \<longrightarrow>
          t4 = entries_of (gi_v4 index) C \<and> t6 = entries_of (gi_v6 index) C)"
proof -
  let ?C = "blocked_countries gb \<union> {u \<in> (\<lambda>code. to_uppercase (trim code)) ` set codes. country_code_ok u}"
  obtain gb1 where g: "rebuild_tries_for G ?C gb = Inr (n, gb1)" "gb' = gb1\<lparr>blocked_countries := ?C\<rparr>"
    using assms(4) by (auto simp: block_countries_def Let_def result_iffs)
  show C: "C = ?C" by (simp add: C_def g(2))
  have "finite ?C" using assms(3) by (auto simp: finite_tries_def)
  then obtain t4 t6 where "geo_block_v4 gb1 = Some t4" "geo_block_v6 gb1 = Some t6"
    "t4 \<subseteq> entries_of (gi_v4 index) ?C" "t6 \<subseteq> entries_of (gi_v6 index) ?C"
    "n = length (order4 G (entries_of (gi_v4 index) ?C)) + length (order6 G (entries_of (gi_v6 index) ?C)) \<longrightarrow>
       t4 = entries_of (gi_v4 index) ?C \<and> t6 = entries_of (gi_v6 index) ?C" "index_in_use G gb1 index"
    by (rule lpm_kernel.rebuild_Ok [OF assms(1) g(1) assms(2) _ assms(3)]) blast
  then show "\<exists>t4 t6. geo_block_v4 gb' = Some t4 \<and> geo_block_v6 gb' = Some t6
      \<and> t4 \<subseteq> entries_of (gi_v4 index) C \<and> t6 \<subseteq> entries_of (gi_v6 index) C
      \<and> (n = length (order4 G (entries_of (gi_v4 index) C)) + length (order6 G (entries_of (gi_v6 index) C)) \<longrightarrow>
          t4 = entries_of (gi_v4 index) C \<and> t6 = entries_of (gi_v6 index) C)"
    unfolding C by (intro exI [of _ t4] exI [of _ t6]) (simp add: g(2))
qed

section \<open>Properties\<close>

text \<open>The source of the packet lies in a network that the index lists for one of the countries.\<close>

definition comes_from :: "endian \<Rightarrow> geo_index \<Rightarrow> string set \<Rightarrow> parsed_packet \<Rightarrow> bool" where
  "comes_from e index countries pkt \<longleftrightarrow>
     ip_version pkt = 4 \<and> (\<exists>(net, p)\<in>entries_of (gi_v4 index) countries.
        p \<le> 32 \<and> in_network_v4 (to_be e 4 (src_ip_v4 e pkt)) (to_be e 4 net) (unat p))
     \<or> ip_version pkt = 6 \<and> (\<exists>(net, p)\<in>entries_of (gi_v6 index) countries.
        p \<le> 128 \<and> in_network_v6 (to_be e 16 (src_ip_v6 e pkt)) (to_be e 16 net) (unat p))"

lemma geo_verdict:
  assumes "GEO_BLOCK_V4 M = lpm_lookup_v4 e t4" "GEO_BLOCK_V6 M = lpm_lookup_v6 e t6"
  shows "acl_verdict_of e M pkt = Blocked DROP_REASON_GEO_BLOCK \<longleftrightarrow> acl_verdict_of e M pkt \<noteq> Whitelisted \<and>
    (ip_version pkt = 4 \<and> (\<exists>(d, p)\<in>t4. p \<le> 32 \<and> in_network_v4 (to_be e 4 (src_ip_v4 e pkt)) (to_be e 4 d) (unat p))
     \<or> ip_version pkt = 6 \<and> (\<exists>(d, p)\<in>t6. p \<le> 128 \<and> in_network_v6 (to_be e 16 (src_ip_v6 e pkt)) (to_be e 16 d) (unat p)))"
  by (simp add: acl_verdict_of_def ipv4_is_geo_blocked_def ipv6_is_geo_blocked_def assms lpm_lookup_v4_def lpm_lookup_v6_def
      src_ip_v4_def src_ip_v6_def DROP_REASON_GEO_BLOCK_def DROP_REASON_ACL_BLACKLIST_def)

text \<open>
  C31. After \<^verbatim>\<open>block_countries\<close> has returned without an error, the blocked countries are those of before and the
  given ones with a well-formed code (named in any letter case, with white space around it), and the access-control
  stage gives an IPv4 or IPv6 packet the verdict of a blocked country only where its source lies in a network that the
  GeoIP index lists for one of them. Where every prefix was counted as inserted, it gives that verdict to every such
  packet, unless the packet is whitelisted. (With a full trie the call returns without an error and a smaller count, and
  only the first half holds.)
\<close>

theorem blocked_country_is_dropped:
  assumes "lpm_kernel G" "index_in_use G gb index" "finite_tries gb"
    and "block_countries G codes gb = Inr (n, gb')"
    and "GEO_BLOCK_V4 M = lpm_lookup_v4 e (the (geo_block_v4 gb'))"
    and "GEO_BLOCK_V6 M = lpm_lookup_v6 e (the (geo_block_v6 gb'))"
  shows "blocked_countries gb' = blocked_countries gb \<union> {u \<in> (\<lambda>code. to_uppercase (trim code)) ` set codes. country_code_ok u}
    \<and> (acl_verdict_of e M pkt = Blocked DROP_REASON_GEO_BLOCK \<longrightarrow> comes_from e index (blocked_countries gb') pkt)
    \<and> (n = length (order4 G (entries_of (gi_v4 index) (blocked_countries gb')))
            + length (order6 G (entries_of (gi_v6 index) (blocked_countries gb'))) \<longrightarrow>
        comes_from e index (blocked_countries gb') pkt \<longrightarrow>
        acl_verdict_of e M pkt = Blocked DROP_REASON_GEO_BLOCK \<or> acl_verdict_of e M pkt = Whitelisted)"
proof -
  note b = block_countries_entries [OF assms(1-4)]
  then obtain t4 t6 where t: "geo_block_v4 gb' = Some t4" "geo_block_v6 gb' = Some t6"
    "t4 \<subseteq> entries_of (gi_v4 index) (blocked_countries gb')" "t6 \<subseteq> entries_of (gi_v6 index) (blocked_countries gb')"
    "n = length (order4 G (entries_of (gi_v4 index) (blocked_countries gb')))
        + length (order6 G (entries_of (gi_v6 index) (blocked_countries gb'))) \<Longrightarrow>
      t4 = entries_of (gi_v4 index) (blocked_countries gb') \<and> t6 = entries_of (gi_v6 index) (blocked_countries gb')"
    by blast
  have v: "acl_verdict_of e M pkt = Blocked DROP_REASON_GEO_BLOCK \<longleftrightarrow> acl_verdict_of e M pkt \<noteq> Whitelisted \<and>
    (ip_version pkt = 4 \<and> (\<exists>(d, p)\<in>t4. p \<le> 32 \<and> in_network_v4 (to_be e 4 (src_ip_v4 e pkt)) (to_be e 4 d) (unat p))
     \<or> ip_version pkt = 6 \<and> (\<exists>(d, p)\<in>t6. p \<le> 128 \<and> in_network_v6 (to_be e 16 (src_ip_v6 e pkt)) (to_be e 16 d) (unat p)))"
    by (rule geo_verdict) (simp_all add: assms(5,6) t(1,2))
  show ?thesis
  proof (intro conjI impI)
    show "blocked_countries gb' = blocked_countries gb \<union> {u \<in> (\<lambda>code. to_uppercase (trim code)) ` set codes. country_code_ok u}"
      by (rule b(1))
    show "comes_from e index (blocked_countries gb') pkt" if "acl_verdict_of e M pkt = Blocked DROP_REASON_GEO_BLOCK"
      using that v t(3,4) unfolding comes_from_def by blast
    show "acl_verdict_of e M pkt = Blocked DROP_REASON_GEO_BLOCK \<or> acl_verdict_of e M pkt = Whitelisted"
      if "n = length (order4 G (entries_of (gi_v4 index) (blocked_countries gb')))
            + length (order6 G (entries_of (gi_v6 index) (blocked_countries gb')))" "comes_from e index (blocked_countries gb') pkt"
      using that(2) v t(5) [OF that(1)] unfolding comes_from_def by blast
  qed
qed

text \<open>A country XX with the network 192.0.2.0/24, and a packet from 192.0.2.1.\<close>

definition xx_index :: geo_index where
  "xx_index = \<lparr>gi_v4 = (\<lambda>c. if c = ''XX'' then Some [(to_be LittleEndian 4 3221225984, 24)] else None), gi_v6 = (\<lambda>_. None)\<rparr>"

definition empty_geo :: geo_block where
  "empty_geo = \<lparr>geo_block_v4 = Some {}, geo_block_v6 = Some {}, blocked_countries = {}, cached_index = None\<rparr>"

definition xx_geo :: geo_block where
  "xx_geo = \<lparr>geo_block_v4 = Some {(to_be LittleEndian 4 3221225984, 24)}, geo_block_v6 = Some {},
     blocked_countries = {''XX''}, cached_index = Some xx_index\<rparr>"

definition xx_packet :: parsed_packet where
  "xx_packet = zeroed_packet\<lparr>ip_version := 4, src_ip := [192, 0, 2, 1] @ replicate 12 0\<rparr>"

definition geo_maps :: "geo_block \<Rightarrow> acl_maps" where
  "geo_maps gb = \<lparr>IPV4_SRC_WHITELIST = (\<lambda>_. None), IPV6_SRC_WHITELIST = (\<lambda>_. None),
     IPV4_DST_WHITELIST = (\<lambda>_. None), IPV6_DST_WHITELIST = (\<lambda>_. None),
     IPV4_SRC_BLACKLIST = (\<lambda>_. None), IPV6_SRC_BLACKLIST = (\<lambda>_. None),
     IPV4_DST_BLACKLIST = (\<lambda>_. None), IPV6_DST_BLACKLIST = (\<lambda>_. None),
     GEO_BLOCK_V4 = lpm_lookup_v4 LittleEndian (the (geo_block_v4 gb)),
     GEO_BLOCK_V6 = lpm_lookup_v6 LittleEndian (the (geo_block_v6 gb))\<rparr>"

lemma xx_code: "to_uppercase (trim '' xx'') = ''XX''" "country_code_ok ''XX''"
  by code_simp+

lemma xx_entries: "entries_of (gi_v4 xx_index) {''XX''} = {(to_be LittleEndian 4 3221225984, 24)}"
  "entries_of (gi_v6 xx_index) C = {}"
  by (simp_all add: entries_of_def xx_index_def)

lemma xx_blocked: "block_countries (roomy_geo xx_index) ['' xx''] empty_geo = Inr (1, xx_geo)"
proof -
  have "rebuild_tries_for (roomy_geo xx_index) {''XX''} empty_geo = Inr (1, xx_geo\<lparr>blocked_countries := {}\<rparr>)"
    by (simp add: rebuild_tries_for_def empty_geo_def geo_index_of_def roomy_geo_def xx_entries xx_geo_def
        remove_stale_v4_def remove_stale_v6_def)
  moreover have "blocked_countries empty_geo \<union> {u \<in> (\<lambda>code. to_uppercase (trim code)) ` set ['' xx'']. country_code_ok u} = {''XX''}"
    by (auto simp: empty_geo_def xx_code)
  ultimately show ?thesis by (simp add: block_countries_def Let_def xx_geo_def)
qed

lemma xx_source: "to_be LittleEndian 4 (src_ip_v4 LittleEndian xx_packet) = 3221225985"
proof -
  have "to_be LittleEndian (length [192, 0, 2, 1 :: u8]) (from_be_bytes [192, 0, 2, 1] :: u32) = from_ne_bytes LittleEndian [192, 0, 2, 1]"
    by (rule to_be_of_wire) simp
  moreover have "length [192, 0, 2, 1 :: u8] = 4" by simp
  ultimately have "src_ip_v4 LittleEndian xx_packet = to_be LittleEndian 4 (from_be_bytes [192, 0, 2, 1] :: u32)"
    by (simp only: src_ip_v4_def) (simp add: xx_packet_def)
  then show ?thesis by (simp add: from_be_bytes_def)
qed

theorem blocked_country_is_dropped_witness:
  "block_countries (roomy_geo xx_index) ['' xx''] empty_geo = Inr (1, xx_geo)
   \<and> acl_verdict_of LittleEndian (geo_maps xx_geo) xx_packet = Blocked DROP_REASON_GEO_BLOCK"
proof
  show b: "block_countries (roomy_geo xx_index) ['' xx''] empty_geo = Inr (1, xx_geo)" by (rule xx_blocked)
  have "in_network_v4 (to_be LittleEndian 4 (src_ip_v4 LittleEndian xx_packet)) 3221225984 (unat (24 :: u32))"
    by (simp add: xx_source in_network_v4_def)
  then have "comes_from LittleEndian xx_index (blocked_countries xx_geo) xx_packet"
    by (simp add: comes_from_def xx_geo_def xx_entries) (simp add: xx_packet_def)
  moreover have "1 = length (order4 (roomy_geo xx_index) (entries_of (gi_v4 xx_index) (blocked_countries xx_geo)))
      + length (order6 (roomy_geo xx_index) (entries_of (gi_v6 xx_index) (blocked_countries xx_geo)))"
    by (simp add: xx_geo_def xx_entries roomy_geo_def)
  moreover have "index_in_use (roomy_geo xx_index) empty_geo xx_index" "finite_tries empty_geo"
    by (simp_all add: index_in_use_def finite_tries_def empty_geo_def roomy_geo_def)
  moreover have "acl_verdict_of LittleEndian (geo_maps xx_geo) xx_packet \<noteq> Whitelisted"
    by (simp add: acl_verdict_of_def geo_maps_def xx_packet_def ipv4_is_whitelisted_def rule_hit_def Let_def)
  ultimately show "acl_verdict_of LittleEndian (geo_maps xx_geo) xx_packet = Blocked DROP_REASON_GEO_BLOCK"
    using blocked_country_is_dropped [OF roomy.lpm_kernel_axioms [of xx_index] _ _ b, of xx_index "geo_maps xx_geo" LittleEndian xx_packet]
    by (auto simp: geo_maps_def)
qed

end
