(* ===== verification/Acl_Service.thy ===== *)
theory Acl_Service
  imports Block_Store Geo_Block Ip_Blocking
begin

text \<open>
  The access-control service (\<^verbatim>\<open>core/data_plane/acl_service.rs\<close>): every change is made in the kernel's
  maps first and then in the database, and undone in the maps where the database refuses it. At
  start-up the maps are filled from the database.

  The state is what the ports of the service hold: the maps, the country tries, the rule tables and
  the table of blocked countries (\<^verbatim>\<open>adapter/persistence/enforcement.rs\<close>). The argument \<open>ok\<close> of an
  operation says whether its database transaction commits. The outer option is the index panic of
  the port arrays, which the invariant \<open>wf_acl\<close> rules out; log messages are left out.
\<close>

record acl_state =
  as_ac :: access_control_lists
  as_geo :: geo_block
  as_db :: database
  as_geo_rows :: "string list"

section \<open>The table of blocked countries\<close>

definition load_geo_countries :: "bool \<Rightarrow> acl_state \<Rightarrow> (error, string list) result" where
  "load_geo_countries ok st = (if ok then Inr (as_geo_rows st) else Inl db_error)"

definition insert_geo_countries :: "bool \<Rightarrow> string list \<Rightarrow> acl_state \<Rightarrow> (error, acl_state) result" where
  "insert_geo_countries ok codes st =
     (if ok then Inr (st\<lparr>as_geo_rows := fold insert_or_ignore codes (as_geo_rows st)\<rparr>) else Inl db_error)"

definition delete_geo_countries :: "bool \<Rightarrow> string list \<Rightarrow> acl_state \<Rightarrow> (error, acl_state) result" where
  "delete_geo_countries ok codes st =
     (if ok then Inr (st\<lparr>as_geo_rows := filter (\<lambda>c. c \<notin> set codes) (as_geo_rows st)\<rparr>) else Inl db_error)"

section \<open>Restoring the maps\<close>

definition restore_geo_countries :: "geo_api \<Rightarrow> bool \<Rightarrow> acl_state \<Rightarrow> acl_state" where
  "restore_geo_countries G ok st =
     (case load_geo_countries ok st of
        Inl _ \<Rightarrow> st
      | Inr countries \<Rightarrow>
          if countries = [] then st
          else (case block_countries G countries (as_geo st) of
                  Inl _ \<Rightarrow> st
                | Inr (_, gb) \<Rightarrow> st\<lparr>as_geo := gb\<rparr>))"

definition restore_rule :: "acl_api \<Rightarrow> acl_rule_view \<Rightarrow> nat \<times> access_control_lists \<Rightarrow> nat \<times> access_control_lists" where
  "restore_rule A rule acc =
     (let (restored, ac) = acc;
          result = (case rv_ip_version rule of
             V4 \<Rightarrow> (case parse_ipv4 (rv_ip_address rule) of
                      Some addr \<Rightarrow> Some (add_ipv4_list A (rv_direction rule) (rv_list_type rule)
                                    \<lparr>sa4_ip = addr, sa4_port = rv_port rule\<rparr> ac)
                    | None \<Rightarrow> None)
           | V6 \<Rightarrow> (case parse_ipv6 (rv_ip_address rule) of
                      Some addr \<Rightarrow> Some (add_ipv6_list A (rv_direction rule) (rv_list_type rule)
                                    \<lparr>sa6_ip = addr, sa6_port = rv_port rule\<rparr> ac)
                    | None \<Rightarrow> None))
      in case result of
           None \<Rightarrow> (restored, ac)
         | Some (Inl _) \<Rightarrow> (restored, ac)
         | Some (Inr ac) \<Rightarrow> (restored + 1, ac))"

definition restore_acl_rules :: "acl_api \<Rightarrow> bool \<Rightarrow> acl_state \<Rightarrow> nat \<times> acl_state" where
  "restore_acl_rules A ok st =
     (case list_acl_rules ok (as_db st) of
        Inl _ \<Rightarrow> (0, st)
      | Inr rules \<Rightarrow>
          let (restored, ac) = fold (restore_rule A) rules (0, as_ac st) in (restored, st\<lparr>as_ac := ac\<rparr>))"

definition restore :: "acl_api \<Rightarrow> geo_api \<Rightarrow> bool \<Rightarrow> bool \<Rightarrow> acl_state \<Rightarrow> acl_state" where
  "restore A G ok ok' st = snd (restore_acl_rules A ok' (restore_geo_countries G ok st))"

section \<open>Adding and removing rules\<close>

definition should_preserve_active_soar_blocks :: "flow_direction \<Rightarrow> list_type \<Rightarrow> bool" where
  "should_preserve_active_soar_blocks d t \<longleftrightarrow> d = Source \<and> t = Black"

definition lift_ac :: "acl_state \<Rightarrow> (ebpf_error, access_control_lists) result \<Rightarrow> (error, acl_state) result" where
  "lift_ac st r = (case r of Inl e \<Rightarrow> Inl (Ebpf e) | Inr ac \<Rightarrow> Inr (st\<lparr>as_ac := ac\<rparr>))"

definition acl_add_ipv4 ::
  "acl_api \<Rightarrow> bool \<Rightarrow> flow_direction \<Rightarrow> list_type \<Rightarrow> socket_addr_v4 \<Rightarrow> acl_state
   \<Rightarrow> ((error, unit) result \<times> acl_state) option" where
  "acl_add_ipv4 A ok d t address st =
     (case lift_ac st (add_ipv4_list A d t address (as_ac st)) of
        Inl e \<Rightarrow> Some (Inl e, st)
      | Inr st \<Rightarrow>
          (case insert_acl_rule ok V4 d t (show_ipv4 (sa4_ip address)) (sa4_port address)
                  (should_preserve_active_soar_blocks d t) (as_db st) of
             Inr db \<Rightarrow> Some (Inr (), st\<lparr>as_db := db\<rparr>)
           | Inl e \<Rightarrow>
               map_option (\<lambda>rollback. (Inl e, case lift_ac st rollback of Inl _ \<Rightarrow> st | Inr st \<Rightarrow> st))
                 (remove_ipv4_list A d t address (as_ac st))))"

definition acl_add_ipv6 ::
  "acl_api \<Rightarrow> bool \<Rightarrow> flow_direction \<Rightarrow> list_type \<Rightarrow> socket_addr_v6 \<Rightarrow> acl_state
   \<Rightarrow> ((error, unit) result \<times> acl_state) option" where
  "acl_add_ipv6 A ok d t address st =
     (case lift_ac st (add_ipv6_list A d t address (as_ac st)) of
        Inl e \<Rightarrow> Some (Inl e, st)
      | Inr st \<Rightarrow>
          (case insert_acl_rule ok V6 d t (show_ipv6 (sa6_ip address)) (sa6_port address)
                  (should_preserve_active_soar_blocks d t) (as_db st) of
             Inr db \<Rightarrow> Some (Inr (), st\<lparr>as_db := db\<rparr>)
           | Inl e \<Rightarrow>
               map_option (\<lambda>rollback. (Inl e, case lift_ac st rollback of Inl _ \<Rightarrow> st | Inr st \<Rightarrow> st))
                 (remove_ipv6_list A d t address (as_ac st))))"

definition acl_remove_ipv4 ::
  "acl_api \<Rightarrow> bool \<Rightarrow> flow_direction \<Rightarrow> list_type \<Rightarrow> socket_addr_v4 \<Rightarrow> acl_state
   \<Rightarrow> ((error, unit) result \<times> acl_state) option" where
  "acl_remove_ipv4 A ok d t address st =
     (case remove_ipv4_list A d t address (as_ac st) of
        None \<Rightarrow> None
      | Some r \<Rightarrow>
          (case lift_ac st r of
             Inl e \<Rightarrow> Some (Inl e, st)
           | Inr st \<Rightarrow>
               (case delete_acl_rule ok V4 d t (show_ipv4 (sa4_ip address)) (sa4_port address) (as_db st) of
                  Inr db \<Rightarrow> Some (Inr (), st\<lparr>as_db := db\<rparr>)
                | Inl e \<Rightarrow>
                    Some (Inl e, case lift_ac st (add_ipv4_list A d t address (as_ac st)) of Inl _ \<Rightarrow> st | Inr st \<Rightarrow> st))))"

definition acl_remove_ipv6 ::
  "acl_api \<Rightarrow> bool \<Rightarrow> flow_direction \<Rightarrow> list_type \<Rightarrow> socket_addr_v6 \<Rightarrow> acl_state
   \<Rightarrow> ((error, unit) result \<times> acl_state) option" where
  "acl_remove_ipv6 A ok d t address st =
     (case remove_ipv6_list A d t address (as_ac st) of
        None \<Rightarrow> None
      | Some r \<Rightarrow>
          (case lift_ac st r of
             Inl e \<Rightarrow> Some (Inl e, st)
           | Inr st \<Rightarrow>
               (case delete_acl_rule ok V6 d t (show_ipv6 (sa6_ip address)) (sa6_port address) (as_db st) of
                  Inr db \<Rightarrow> Some (Inr (), st\<lparr>as_db := db\<rparr>)
                | Inl e \<Rightarrow>
                    Some (Inl e, case lift_ac st (add_ipv6_list A d t address (as_ac st)) of Inl _ \<Rightarrow> st | Inr st \<Rightarrow> st))))"

section \<open>Countries\<close>

fun normalize_geo_codes_from :: "string list \<Rightarrow> string list \<Rightarrow> (error, string list) result" where
  "normalize_geo_codes_from seen [] = Inr []"
| "normalize_geo_codes_from seen (code # codes) =
     (let upper = to_uppercase (trim code) in
      if \<not> country_code_ok upper then Inl (Ebpf (InvalidCountryCode code))
      else if upper \<in> set seen then normalize_geo_codes_from seen codes
      else and_then (normalize_geo_codes_from (upper # seen) codes) (\<lambda>rest. Inr (upper # rest)))"

definition normalize_geo_codes :: "string list \<Rightarrow> (error, string list) result" where
  "normalize_geo_codes codes = normalize_geo_codes_from [] codes"

definition current_geo_set :: "geo_block \<Rightarrow> string set" where
  "current_geo_set gb = (\<lambda>code. to_uppercase (trim code)) ` blocked_countries gb"

definition block_geo_countries :: "geo_api \<Rightarrow> bool \<Rightarrow> string list \<Rightarrow> acl_state \<Rightarrow> (error, nat) result \<times> acl_state" where
  "block_geo_countries G ok codes st =
     (case normalize_geo_codes codes of
        Inl e \<Rightarrow> (Inl e, st)
      | Inr codes \<Rightarrow>
          let current = current_geo_set (as_geo st);
              delta = filter (\<lambda>code. code \<notin> current) codes
          in case block_countries G codes (as_geo st) of
               Inl e \<Rightarrow> (Inl e, st)
             | Inr (tot, gb) \<Rightarrow>
                 let st = st\<lparr>as_geo := gb\<rparr>
                 in case insert_geo_countries ok codes st of
                      Inr st \<Rightarrow> (Inr tot, st)
                    | Inl e \<Rightarrow>
                        (Inl e, case unblock_countries G delta (as_geo st) of
                                  Inl _ \<Rightarrow> st | Inr (_, gb) \<Rightarrow> st\<lparr>as_geo := gb\<rparr>))"

definition unblock_geo_countries :: "geo_api \<Rightarrow> bool \<Rightarrow> string list \<Rightarrow> acl_state \<Rightarrow> (error, nat) result \<times> acl_state" where
  "unblock_geo_countries G ok codes st =
     (case normalize_geo_codes codes of
        Inl e \<Rightarrow> (Inl e, st)
      | Inr codes \<Rightarrow>
          let current = current_geo_set (as_geo st);
              delta = filter (\<lambda>code. code \<in> current) codes
          in case unblock_countries G codes (as_geo st) of
               Inl e \<Rightarrow> (Inl e, st)
             | Inr (tot, gb) \<Rightarrow>
                 let st = st\<lparr>as_geo := gb\<rparr>
                 in case delete_geo_countries ok codes st of
                      Inr st \<Rightarrow> (Inr tot, st)
                    | Inl e \<Rightarrow>
                        (Inl e, case block_countries G delta (as_geo st) of
                                  Inl _ \<Rightarrow> st | Inr (_, gb) \<Rightarrow> st\<lparr>as_geo := gb\<rparr>))"

section \<open>Normalised country codes\<close>

lemma trim_alphabetic:
  assumes "list_all is_ascii_alphabetic c"
  shows "trim c = c"
proof -
  have "\<not> is_ascii_whitespace x" if "is_ascii_alphabetic x" for x
    using that by (auto simp: is_ascii_alphabetic_def is_ascii_whitespace_def)
  then have "\<forall>x\<in>set c. \<not> is_ascii_whitespace x" using assms by (auto simp: list_all_iff)
  then show ?thesis by (rule trim_clean)
qed

lemma to_ascii_upper_idem [simp]: "to_ascii_upper (to_ascii_upper c) = to_ascii_upper c"
  by (auto simp: to_ascii_upper_def)

lemma to_uppercase_idem [simp]: "to_uppercase (to_uppercase s) = to_uppercase s"
  by (simp add: to_uppercase_def)

definition normal_code :: "string \<Rightarrow> bool" where
  "normal_code c \<longleftrightarrow> country_code_ok c \<and> to_uppercase c = c"

lemma normal_code_fix: "normal_code c \<Longrightarrow> to_uppercase (trim c) = c"
  by (simp add: normal_code_def country_code_ok_def trim_alphabetic)

lemma normalize_from_Ok:
  "normalize_geo_codes_from seen codes = Inr cs \<Longrightarrow>
   distinct cs \<and> list_all normal_code cs \<and> set cs = (\<lambda>c. to_uppercase (trim c)) ` set codes - set seen"
proof (induction seen codes arbitrary: cs rule: normalize_geo_codes_from.induct)
  case (2 seen code codes)
  let ?u = "to_uppercase (trim code)"
  have ok: "country_code_ok ?u" using "2.prems" by (auto simp: Let_def split: if_splits)
  show ?case
  proof (cases "?u \<in> set seen")
    case True
    with "2.prems" ok have "normalize_geo_codes_from seen codes = Inr cs" by (simp add: Let_def)
    from "2.IH"(1) [OF refl _ True this] ok True show ?thesis by auto
  next
    case False
    with "2.prems" ok obtain r where r: "normalize_geo_codes_from (?u # seen) codes = Inr r" "cs = ?u # r"
      by (auto simp: Let_def result_iffs)
    from "2.IH"(2) [OF refl _ False r(1)] ok False r(2) show ?thesis by (auto simp: normal_code_def)
  qed
qed simp

lemmas normalize_Ok = normalize_from_Ok [of "[]", folded normalize_geo_codes_def, simplified]

section \<open>Lemmas on the lists\<close>

context acl_kernel
begin

lemma add_entry:
  assumes "ipv4_list d t ac = Some m" "add_ipv4_list A d t sa ac = Inr ac'"
  shows "\<exists>m' r. ipv4_list d t ac' = Some m' \<and> m' (to_be (acl_ne A) 4 (sa4_ip sa)) = Some r
    \<and> (sa4_port sa \<noteq> 0 \<longrightarrow> m (to_be (acl_ne A) 4 (sa4_ip sa)) = None \<longrightarrow> \<not> is_match_all r)"
proof -
  let ?k = "to_be (acl_ne A) 4 (sa4_ip sa)"
  obtain w where w: "map_wrapper_add (ins4 A) (Some m) ?k (sa4_port sa) = Inr w" "ac' = set_ipv4_list d t w ac"
    using assms by (auto simp: add_ipv4_list_def Let_def result_iffs)
  have "\<exists>m' r. w = Some m' \<and> m' ?k = Some r \<and> (sa4_port sa \<noteq> 0 \<longrightarrow> m ?k = None \<longrightarrow> \<not> is_match_all r)"
  proof (cases "sa4_port sa = 0")
    case True
    then show ?thesis using w(1) v4.ins_Some by (fastforce simp: map_wrapper_add_def result_iffs)
  next
    case False
    define rule where "rule = (case m ?k of Some r \<Rightarrow> r | None \<Rightarrow> new_empty)"
    show ?thesis
    proof (cases "is_match_all rule")
      case True
      then have "m ?k = Some rule" by (auto simp: rule_def split: option.splits)
      moreover have "w = Some m" using w(1) False True by (simp add: map_wrapper_add_def rule_def [symmetric] Let_def)
      ultimately show ?thesis by simp
    next
      case nma: False
      obtain b rule' where add: "add_port rule (sa4_port sa) = (b, rule')" by force
      then have "\<not> is_match_all rule'" using is_match_all_add [of rule "sa4_port sa"] nma by simp
      moreover obtain m' where "ins4 A m ?k rule' = Some m'" "w = Some m'"
        using w(1) False nma add
        by (auto simp: map_wrapper_add_def rule_def [symmetric] Let_def result_iffs split: if_splits)
      ultimately show ?thesis using v4.ins_Some by fastforce
    qed
  qed
  with w(2) show ?thesis by (auto simp: list_set_get(1))
qed

text \<open>Undoing an addition removes the whole entry for port 0, and the port otherwise.\<close>

lemma add_then_remove:
  assumes "wf_acl ac" "ipv4_list d t ac = Some m" "add_ipv4_list A d t sa ac = Inr ac'"
  obtains ac'' where "remove_ipv4_list A d t sa ac' = Some (Inr ac'')" "wf_acl ac''"
    "sa4_port sa = 0 \<longrightarrow> listed_v4 A ac'' d t = listed_v4 A ac d t - {sa4_ip sa} \<times> UNIV"
    "m (to_be (acl_ne A) 4 (sa4_ip sa)) = None \<longrightarrow> listed_v4 A ac'' d t = listed_v4 A ac d t"
    "\<forall>d' t'. (d', t') \<noteq> (d, t) \<longrightarrow> ipv4_list d' t' ac'' = ipv4_list d' t' ac"
proof -
  let ?k = "to_be (acl_ne A) 4 (sa4_ip sa)"
  note ok = add_ipv4_list_Ok [OF assms(1,3)]
  obtain m' r where m': "ipv4_list d t ac' = Some m'" "m' ?k = Some r"
    "sa4_port sa \<noteq> 0 \<longrightarrow> m ?k = None \<longrightarrow> \<not> is_match_all r"
    using add_entry [OF assms(2,3)] by (elim exE conjE) (rule that)
  obtain ac'' where r: "remove_ipv4_list A d t sa ac' = Some (Inr ac'')" "wf_acl ac''"
    "listed_v4 A ac'' d t = listed_v4 A ac' d t - {sa4_ip sa} \<times>
       (if sa4_port sa = 0 then UNIV else if is_match_all r then {} else {sa4_port sa})"
    "\<And>d' t'. (d', t') \<noteq> (d, t) \<Longrightarrow> ipv4_list d' t' ac'' = ipv4_list d' t' ac'"
    using remove_ipv4_list_Ok [OF ok(1) m'(1,2)] by metis
  have "listed_v4 A ac d t \<inter> {sa4_ip sa} \<times> UNIV = {}" if "m ?k = None"
    using that by (auto simp: listed_v4_def assms(2) rule_hit_def)
  then have "listed_v4 A ac'' d t = listed_v4 A ac d t" if "m ?k = None"
    using that m'(3) ok(2) r(3) by (auto simp: entry_ports_def)
  with r ok(2,3) show thesis by (intro that [of ac'']) (auto simp: entry_ports_def)
qed

end

text \<open>A rule of the table is in force in the maps.\<close>

definition rule_in_force :: "acl_api \<Rightarrow> access_control_lists \<Rightarrow> acl_rule_view \<Rightarrow> bool" where
  "rule_in_force A ac rule =
     (case rv_ip_version rule of
        V4 \<Rightarrow> (case parse_ipv4 (rv_ip_address rule) of None \<Rightarrow> False
                | Some a \<Rightarrow> {a} \<times> entry_ports (rv_port rule) \<subseteq> listed_v4 A ac (rv_direction rule) (rv_list_type rule))
      | V6 \<Rightarrow> (case parse_ipv6 (rv_ip_address rule) of None \<Rightarrow> False
                | Some a \<Rightarrow> {a} \<times> entry_ports (rv_port rule) \<subseteq> listed_v6 A ac (rv_direction rule) (rv_list_type rule)))"

definition grows :: "acl_api \<Rightarrow> access_control_lists \<Rightarrow> access_control_lists \<Rightarrow> bool" where
  "grows A ac ac' \<longleftrightarrow> (\<forall>d t. listed_v4 A ac d t \<subseteq> listed_v4 A ac' d t \<and> listed_v6 A ac d t \<subseteq> listed_v6 A ac' d t)"

lemma grows_refl [simp]: "grows A ac ac"
  by (simp add: grows_def)

lemma grows_trans: "grows A a b \<Longrightarrow> grows A b c \<Longrightarrow> grows A a c"
  by (meson grows_def order_trans)

lemma rule_in_force_grows: "grows A ac ac' \<Longrightarrow> rule_in_force A ac rule \<Longrightarrow> rule_in_force A ac' rule"
  unfolding rule_in_force_def grows_def
  by (cases "rv_ip_version rule") (simp split: option.splits; meson order_trans)+

context acl_kernel
begin

lemma add_grows:
  assumes "wf_acl ac" "add_ipv4_list A d t sa ac = Inr ac'"
  shows "grows A ac ac'"
  using add_ipv4_list_Ok [OF assms] unfolding grows_def
  by (metis Un_upper1 listed_v4_def listed_v6_def order_refl prod.inject)

lemma add_grows6:
  assumes "wf_acl ac" "add_ipv6_list A d t sa ac = Inr ac'"
  shows "grows A ac ac'"
  using add_ipv6_list_Ok [OF assms] unfolding grows_def
  by (metis Un_upper1 listed_v4_def listed_v6_def order_refl prod.inject)

lemma restore_rule_step:
  assumes "wf_acl ac" "restore_rule A rule (n, ac) = (n', ac')"
  shows "wf_acl ac' \<and> grows A ac ac' \<and> (n' = n \<and> ac' = ac \<or> n' = Suc n \<and> rule_in_force A ac' rule)"
proof (cases "rv_ip_version rule")
  case V4
  with assms(2) consider "n' = n" "ac' = ac"
    | a where "parse_ipv4 (rv_ip_address rule) = Some a" "n' = Suc n"
        "add_ipv4_list A (rv_direction rule) (rv_list_type rule) \<lparr>sa4_ip = a, sa4_port = rv_port rule\<rparr> ac = Inr ac'"
    by (auto simp: restore_rule_def Let_def split: option.splits sum.splits)
  then show ?thesis
    using assms(1) V4 add_grows add_ipv4_list_Ok(1,2) by cases (auto simp: rule_in_force_def)
next
  case V6
  with assms(2) consider "n' = n" "ac' = ac"
    | a where "parse_ipv6 (rv_ip_address rule) = Some a" "n' = Suc n"
        "add_ipv6_list A (rv_direction rule) (rv_list_type rule) \<lparr>sa6_ip = a, sa6_port = rv_port rule\<rparr> ac = Inr ac'"
    by (auto simp: restore_rule_def Let_def split: option.splits sum.splits)
  then show ?thesis
    using assms(1) V6 add_grows6 add_ipv6_list_Ok(1,2) by cases (auto simp: rule_in_force_def)
qed

lemma restore_fold:
  "\<lbrakk>wf_acl ac; fold (restore_rule A) rules (n, ac) = (n', ac')\<rbrakk>
   \<Longrightarrow> wf_acl ac' \<and> grows A ac ac' \<and> n' \<le> n + length rules
     \<and> (n' = n + length rules \<longrightarrow> (\<forall>rule\<in>set rules. rule_in_force A ac' rule))"
proof (induction rules arbitrary: n ac)
  case (Cons rule rules)
  obtain n1 ac1 where s: "restore_rule A rule (n, ac) = (n1, ac1)" by force
  note st = restore_rule_step [OF Cons.prems(1) s]
  have "fold (restore_rule A) rules (n1, ac1) = (n', ac')" using Cons.prems(2) s by simp
  note IH = Cons.IH [OF conjunct1 [OF st] this]
  have "grows A ac ac'" using st IH grows_trans by blast
  moreover have "n' \<le> n + length (rule # rules)" using st IH by auto
  moreover have "\<forall>r\<in>set (rule # rules). rule_in_force A ac' r" if "n' = n + length (rule # rules)"
  proof -
    have "n1 = Suc n" "rule_in_force A ac1 rule" using that st IH by auto
    then show ?thesis using that IH rule_in_force_grows by auto
  qed
  ultimately show ?case using IH by blast
qed simp

end

text \<open>The tries can be rebuilt for another set of countries once they have been rebuilt.\<close>

lemma rebuild_tries:
  assumes "geo_block_v4 gb \<noteq> None" "geo_block_v6 gb \<noteq> None" "C \<noteq> {} \<longrightarrow> (\<exists>index gb'. geo_index_of G gb = Inr (index, gb'))"
  shows "\<exists>x. rebuild_tries_for G C gb = Inr x"
proof (cases "C = {}")
  case True
  with assms(1,2) show ?thesis by (auto simp: rebuild_tries_for_def split: prod.splits)
next
  case False
  with assms(3) obtain index gb' where g: "geo_index_of G gb = Inr (index, gb')" by blast
  then have "geo_block_v4 gb' = geo_block_v4 gb" "geo_block_v6 gb' = geo_block_v6 gb"
    by (auto simp: geo_index_of_def result_iffs split: option.splits)
  with assms(1,2) False g show ?thesis by (auto simp: rebuild_tries_for_def split: prod.splits)
qed

lemma rebuild_leaves:
  assumes "rebuild_tries_for G C gb = Inr (n, gb')"
  shows "geo_block_v4 gb' \<noteq> None \<and> geo_block_v6 gb' \<noteq> None \<and> (C \<noteq> {} \<longrightarrow> cached_index gb' \<noteq> None)"
proof (cases "C = {}")
  case True
  with assms show ?thesis
    by (simp add: rebuild_tries_for_def split: if_splits option.splits prod.splits) auto
next
  case False
  then obtain index gb1 where g: "geo_index_of G gb = Inr (index, gb1)"
    using assms by (auto simp: rebuild_tries_for_def result_iffs split: if_splits)
  then have "cached_index gb1 \<noteq> None" by (auto simp: geo_index_of_def result_iffs split: option.splits)
  with False assms g show ?thesis
    by (simp add: rebuild_tries_for_def split: if_splits option.splits prod.splits) auto
qed

lemma rebuild_again:
  assumes "rebuild_tries_for G C gb = Inr (n, gb')" "C' \<noteq> {} \<longrightarrow> C \<noteq> {}"
  shows "\<exists>x. rebuild_tries_for G C' (gb'\<lparr>blocked_countries := B\<rparr>) = Inr x"
  using rebuild_leaves [OF assms(1)] assms(2)
  by (intro rebuild_tries) (auto simp: geo_index_of_def split: option.splits)

lemma nonempty_rule_hits:
  assumes "wf_rule r" "\<not> is_empty r"
  shows "\<exists>p. contains r p"
proof (cases "is_match_all r")
  case False
  with assms(2) have "to_port_vec r \<noteq> []"
    using assms(1) wf_ruleD [OF assms(1)] by (auto simp: is_empty_def to_port_vec_wf unat_eq_0)
  then show ?thesis by (auto simp: contains_iff [OF assms(1)] neq_Nil_conv)
qed (auto simp: contains_iff [OF assms(1)])

lemma unlisted_None:
  assumes "ipv4_list d t ac = Some m" "wf_map m" "{a} \<times> UNIV \<inter> listed_v4 A ac d t = {}"
  shows "m (to_be (acl_ne A) 4 a) = None"
proof (rule ccontr)
  assume "m (to_be (acl_ne A) 4 a) \<noteq> None"
  then obtain r where r: "m (to_be (acl_ne A) 4 a) = Some r" by blast
  then obtain p where "contains r p" using assms(2) nonempty_rule_hits unfolding wf_map_def by blast
  then have "(a, p) \<in> listed_v4 A ac d t" using r assms(1) by (simp add: listed_v4_def rule_hit_def)
  with assms(3) show False by blast
qed

section \<open>Properties\<close>

text \<open>
  C32. Adding an IPv4 rule for an address that has no entry in the list yet is atomic over the kernel
  map and the database. Either both get it: the list then matches exactly the added pairs more, and
  the row is stored. Or the call fails, and neither has changed: what each of the lists matches is
  what it matched before, and the tables are those of before.
\<close>

theorem rule_addition_is_atomic:
  assumes "acl_kernel A" "wf_acl (as_ac st)"
    and "{sa4_ip sa} \<times> UNIV \<inter> listed_v4 A (as_ac st) d t = {}"
  shows "\<exists>r st'. acl_add_ipv4 A ok d t sa st = Some (r, st') \<and> wf_acl (as_ac st') \<and>
    (case r of
       Inr _ \<Rightarrow> listed_v4 A (as_ac st') d t = listed_v4 A (as_ac st) d t \<union> {sa4_ip sa} \<times> entry_ports (sa4_port sa)
         \<and> set (acl_rules (as_db st')) = insert (row_of V4 d t (show_ipv4 (sa4_ip sa)) (sa4_port sa)) (set (acl_rules (as_db st)))
     | Inl _ \<Rightarrow> (\<forall>d' t'. listed_v4 A (as_ac st') d' t' = listed_v4 A (as_ac st) d' t') \<and> as_db st' = as_db st)"
proof (cases "add_ipv4_list A d t sa (as_ac st)")
  case (Inl e)
  then show ?thesis using assms(2) by (simp add: acl_add_ipv4_def lift_ac_def)
next
  case (Inr ac')
  note ok = acl_kernel.add_ipv4_list_Ok [OF assms(1,2) Inr]
  obtain m where m: "ipv4_list d t (as_ac st) = Some m" "wf_map m" by (rule wf_acl_lists [OF assms(2)])
  obtain ac'' where rb: "remove_ipv4_list A d t sa ac' = Some (Inr ac'')" "wf_acl ac''"
      "listed_v4 A ac'' d t = listed_v4 A (as_ac st) d t"
      "\<forall>d' t'. (d', t') \<noteq> (d, t) \<longrightarrow> ipv4_list d' t' ac'' = ipv4_list d' t' (as_ac st)"
    by (rule acl_kernel.add_then_remove [OF assms(1,2) m(1) Inr]) (use unlisted_None [OF m assms(3)] that in blast)
  then have "\<forall>d' t'. listed_v4 A ac'' d' t' = listed_v4 A (as_ac st) d' t'" by (metis listed_v4_def prod.inject)
  with rb(1,2) ok(1,2) show ?thesis
    by (cases ok) (simp_all add: acl_add_ipv4_def lift_ac_def Inr insert_acl_rule_def Let_def)
qed

text \<open>An address, 192.0.2.1, and a service over empty lists and tables.\<close>

definition sample_addr :: "u16 \<Rightarrow> socket_addr_v4" where
  "sample_addr port = \<lparr>sa4_ip = 3221225985, sa4_port = port\<rparr>"

definition fresh_service :: "access_control_lists \<Rightarrow> database \<Rightarrow> acl_state" where
  "fresh_service ac db = \<lparr>as_ac = ac, as_geo = empty_geo, as_db = db, as_geo_rows = []\<rparr>"

lemma fresh_service_simps [simp]:
  "as_ac (fresh_service ac db) = ac" "as_db (fresh_service ac db) = db" "as_geo (fresh_service ac db) = empty_geo"
  "as_geo_rows (fresh_service ac db) = []"
  by (simp_all add: fresh_service_def)

lemma sample_addr_simps [simp]: "sa4_ip (sample_addr port) = 3221225985" "sa4_port (sample_addr port) = port"
  by (simp_all add: sample_addr_def)

lemma add_port_new_empty: "fst (add_port new_empty port)"
  using add_port_set(1) [of new_empty port] by (simp add: to_port_vec_wf MAX_RULES_PORT_def)

lemma add_to_empty: "\<exists>ac'. add_ipv4_list (capped_api e) d t sa empty_lists = Inr ac'"
proof -
  obtain r where "add_port new_empty (sa4_port sa) = (True, r)" using add_port_new_empty by (metis eq_fst_iff)
  then show ?thesis
    by (simp add: add_ipv4_list_def map_wrapper_add_def capped_api_def cap_insert_def MAX_RULES_def Let_def)
qed

theorem rule_addition_is_atomic_witness:
  "\<exists>st'. acl_add_ipv4 (capped_api LittleEndian) False Source Black (sample_addr 80) (fresh_service empty_lists empty_db)
       = Some (Inl db_error, st')
    \<and> (\<forall>d t. listed_v4 (capped_api LittleEndian) (as_ac st') d t = {}) \<and> as_db st' = empty_db"
proof -
  let ?A = "capped_api LittleEndian" and ?st = "fresh_service empty_lists empty_db"
  obtain ac' where "add_ipv4_list ?A Source Black (sample_addr 80) empty_lists = Inr ac'" using add_to_empty by blast
  then have "r = Inl db_error" if "acl_add_ipv4 ?A False Source Black (sample_addr 80) ?st = Some (r, st')" for r st'
    using that by (auto simp: acl_add_ipv4_def lift_ac_def insert_acl_rule_def)
  then show ?thesis
    using rule_addition_is_atomic [OF capped_acl.acl_kernel_axioms [of LittleEndian], of ?st "sample_addr 80" Source Black False]
    by fastforce
qed

text \<open>
  Adding a rule for all ports to an address that already has rules, and losing the database,
  deletes the rules it had: the roll-back removes the whole entry. (The address is in force in the
  stored table still, and is matched again only after a restart.)
\<close>

theorem failed_addition_erases_older_rules:
  assumes "acl_kernel A" "wf_acl (as_ac st)" "sa4_port sa = 0"
    and "(sa4_ip sa, p) \<in> listed_v4 A (as_ac st) d t"
    and "acl_add_ipv4 A False d t sa st = Some (Inl (Database msg), st')"
  shows "listed_v4 A (as_ac st') d t = listed_v4 A (as_ac st) d t - {sa4_ip sa} \<times> UNIV \<and> as_db st' = as_db st"
proof -
  obtain m where m: "ipv4_list d t (as_ac st) = Some m" by (rule wf_acl_lists [OF assms(2)])
  obtain ac' where ac': "add_ipv4_list A d t sa (as_ac st) = Inr ac'"
    using assms(5) by (auto simp: acl_add_ipv4_def lift_ac_def split: sum.splits)
  obtain ac'' where rb: "remove_ipv4_list A d t sa ac' = Some (Inr ac'')"
      "listed_v4 A ac'' d t = listed_v4 A (as_ac st) d t - {sa4_ip sa} \<times> UNIV"
    by (rule acl_kernel.add_then_remove [OF assms(1,2) m ac']) (use assms(3) that in blast)
  have "st' = st\<lparr>as_ac := ac''\<rparr>"
    using assms(5) by (simp add: acl_add_ipv4_def lift_ac_def insert_acl_rule_def ac' rb(1))
  with rb(2) show ?thesis by simp
qed

text \<open>The list after blocking port 80 of the sample address.\<close>

lemma erase_sample:
  obtains ac st' where "add_ipv4_list (capped_api LittleEndian) Source Black (sample_addr 80) empty_lists = Inr ac"
    "wf_acl ac" "listed_v4 (capped_api LittleEndian) ac Source Black = {(3221225985, 80)}"
    "acl_add_ipv4 (capped_api LittleEndian) False Source Black (sample_addr 0) (fresh_service ac empty_db)
       = Some (Inl (Database ''query failed''), st')"
proof -
  let ?A = "capped_api LittleEndian"
  obtain ac where ac: "add_ipv4_list ?A Source Black (sample_addr 80) empty_lists = Inr ac" using add_to_empty by blast
  note ok = capped_acl.add_ipv4_list_Ok [OF _ ac]
  obtain m where m: "ipv4_list Source Black ac = Some m" by (rule wf_acl_lists [OF ok(1)]) auto
  obtain m' r where "ipv4_list Source Black ac = Some m'" "m' (to_be LittleEndian 4 3221225985) = Some r"
    using capped_acl.add_entry [OF _ ac] by (fastforce simp: capped_api_def)
  then have "\<exists>ac'. add_ipv4_list ?A Source Black (sample_addr 0) ac = Inr ac'"
    by (simp add: add_ipv4_list_def map_wrapper_add_def capped_api_def cap_insert_def Let_def)
  then obtain ac' where ac': "add_ipv4_list ?A Source Black (sample_addr 0) ac = Inr ac'" by blast
  obtain ac'' where "remove_ipv4_list ?A Source Black (sample_addr 0) ac' = Some (Inr ac'')"
    by (rule capped_acl.add_then_remove [OF ok(1) m ac']) auto
  then have "\<exists>st'. acl_add_ipv4 ?A False Source Black (sample_addr 0) (fresh_service ac empty_db) = Some (Inl (Database ''query failed''), st')"
    by (simp add: acl_add_ipv4_def lift_ac_def insert_acl_rule_def ac' db_error_def)
  with ac ok that show thesis by (auto simp: entry_ports_def)
qed

theorem failed_addition_erases_older_rules_witness:
  "\<exists>ac st'. add_ipv4_list (capped_api LittleEndian) Source Black (sample_addr 80) empty_lists = Inr ac
    \<and> (3221225985, 80) \<in> listed_v4 (capped_api LittleEndian) ac Source Black
    \<and> acl_add_ipv4 (capped_api LittleEndian) False Source Black (sample_addr 0) (fresh_service ac empty_db)
        = Some (Inl (Database ''query failed''), st')
    \<and> listed_v4 (capped_api LittleEndian) (as_ac st') Source Black = {}"
proof -
  obtain ac st' where s: "add_ipv4_list (capped_api LittleEndian) Source Black (sample_addr 80) empty_lists = Inr ac"
    "wf_acl ac" "listed_v4 (capped_api LittleEndian) ac Source Black = {(3221225985, 80)}"
    "acl_add_ipv4 (capped_api LittleEndian) False Source Black (sample_addr 0) (fresh_service ac empty_db)
       = Some (Inl (Database ''query failed''), st')"
    by (rule erase_sample)
  have "listed_v4 (capped_api LittleEndian) (as_ac st') Source Black = {(3221225985, 80)} - {3221225985} \<times> UNIV"
    using failed_addition_erases_older_rules [OF capped_acl.acl_kernel_axioms _ _ _ s(4)] s(2,3) by simp
  with s show ?thesis by (intro exI [of _ ac] exI [of _ st']) auto
qed

text \<open>
  Restoring the lists at start-up loses nothing silently: where the service counts as many rules
  restored as the table holds, every rule of the table is in force in the kernel's lists, on the
  direction, list, address and port it was stored with, and the lists match all they matched before.
\<close>

theorem restored_rules_are_in_force:
  assumes "acl_kernel A" "wf_acl (as_ac st)"
    and "acl_rules (as_db st) = map row_of_view rules"
    and "restore_acl_rules A True st = (length rules, st')"
  shows "wf_acl (as_ac st') \<and> grows A (as_ac st) (as_ac st') \<and> (\<forall>rule\<in>set rules. rule_in_force A (as_ac st') rule)"
proof -
  obtain n ac' where f: "fold (restore_rule A) rules (0, as_ac st) = (n, ac')" by force
  then have "n = length rules" "st' = st\<lparr>as_ac := ac'\<rparr>"
    using assms(4) by (simp_all add: restore_acl_rules_def list_acl_rules_wf [OF assms(3)])
  then show ?thesis using acl_kernel.restore_fold [OF assms(1,2) f] by simp
qed

text \<open>One stored rule: port 80 of the sample address is blocked.\<close>

definition sample_rule :: acl_rule_view where
  "sample_rule = \<lparr>rv_ip_version = V4, rv_direction = Source, rv_list_type = Black, rv_ip_address = sample_ip, rv_port = 80\<rparr>"

definition one_rule :: database where
  "one_rule = empty_db\<lparr>acl_rules := [row_of_view sample_rule]\<rparr>"

theorem restored_rules_are_in_force_witness:
  "\<exists>st'. restore_acl_rules (capped_api LittleEndian) True (fresh_service empty_lists one_rule) = (1, st')
    \<and> rule_in_force (capped_api LittleEndian) (as_ac st') sample_rule"
proof -
  let ?A = "capped_api LittleEndian" and ?st = "fresh_service empty_lists one_rule"
  obtain ac' where ac': "add_ipv4_list ?A Source Black (sample_addr 80) empty_lists = Inr ac'" using add_to_empty by blast
  have rows: "acl_rules (as_db ?st) = map row_of_view [sample_rule]" by (simp add: one_rule_def)
  have "restore_rule ?A sample_rule (0, empty_lists) = (1, ac')"
    using ac' by (simp add: restore_rule_def sample_rule_def sample_ip_def sample_addr_def)
  then have r: "restore_acl_rules ?A True ?st = (length [sample_rule], ?st\<lparr>as_ac := ac'\<rparr>)"
    by (simp only: restore_acl_rules_def list_acl_rules_wf [OF rows]) simp
  from restored_rules_are_in_force [OF capped_acl.acl_kernel_axioms _ rows r] r show ?thesis by simp
qed

text \<open>
  Blocking countries and losing the database is undone: the set of blocked countries and the table
  are those of before, and the tries hold no network that does not belong to one of the countries
  that were blocked already.
\<close>

theorem failed_country_block_is_undone:
  assumes "lpm_kernel G" "index_in_use G (as_geo st) index" "finite_tries (as_geo st)"
    and "\<forall>c\<in>blocked_countries (as_geo st). normal_code c"
    and "normalize_geo_codes codes = Inr cs" "block_countries G cs (as_geo st) = Inr (n, gb)"
  shows "\<exists>st'. block_geo_countries G False codes st = (Inl db_error, st')
    \<and> blocked_countries (as_geo st') = blocked_countries (as_geo st) \<and> as_geo_rows st' = as_geo_rows st
    \<and> the (geo_block_v4 (as_geo st')) \<subseteq> entries_of (gi_v4 index) (blocked_countries (as_geo st))
    \<and> the (geo_block_v6 (as_geo st')) \<subseteq> entries_of (gi_v6 index) (blocked_countries (as_geo st))"
proof -
  let ?B = "blocked_countries (as_geo st)" and ?delta = "filter (\<lambda>c. c \<notin> current_geo_set (as_geo st)) cs"
  note b = block_countries_entries [OF assms(1-3,6)]
  have cs: "list_all normal_code cs" using normalize_Ok [OF assms(5)] by simp
  have fixed: "(\<lambda>c. to_uppercase (trim c)) ` S = S" if "\<forall>c\<in>S. normal_code c" for S
    using that normal_code_fix by force
  have cur: "current_geo_set (as_geo st) = ?B" using fixed [OF assms(4)] by (simp add: current_geo_set_def)
  have delta: "(\<lambda>c. to_uppercase (trim c)) ` set ?delta = set cs - ?B"
    using cs fixed [of "set ?delta"] by (auto simp: cur list_all_iff)
  have left: "blocked_countries gb - (set cs - ?B) = ?B"
    using cs normal_code_fix unfolding b(1) by (auto simp: list_all_iff)
  obtain gb1 where g: "rebuild_tries_for G (blocked_countries gb) (as_geo st) = Inr (n, gb1)"
      "gb = gb1\<lparr>blocked_countries := blocked_countries gb\<rparr>"
    using assms(6) by (auto simp: block_countries_def Let_def result_iffs)
  obtain m gb2 where u: "rebuild_tries_for G ?B gb = Inr (m, gb2)"
    using rebuild_again [OF g(1), of ?B "blocked_countries gb"] g(2) b(1) by auto
  have fin: "finite ?B" "finite (blocked_countries gb)" using assms(3) unfolding b(1) by (auto simp: finite_tries_def)
  have idx: "index_in_use G gb1 index" by (rule lpm_kernel.rebuild_Ok [OF assms(1) g(1) assms(2) fin(2) assms(3)])
  then have "index_in_use G gb index" by (subst g(2)) (simp add: index_in_use_def)
  moreover have "finite_tries gb"
    using b(2) fin finite_entries_of by (auto simp: finite_tries_def intro: finite_subset)
  ultimately have t: "the (geo_block_v4 gb2) \<subseteq> entries_of (gi_v4 index) ?B" "the (geo_block_v6 gb2) \<subseteq> entries_of (gi_v6 index) ?B"
    by (rule lpm_kernel.rebuild_Ok [OF assms(1) u _ fin(1)]; simp)+
  have "unblock_countries G ?delta gb = Inr (m, gb2\<lparr>blocked_countries := ?B\<rparr>)"
    by (simp only: unblock_countries_def delta left u Let_def) simp
  then show ?thesis
    using t by (simp add: block_geo_countries_def assms(5,6) insert_geo_countries_def Let_def)
qed

theorem failed_country_block_is_undone_witness:
  "\<exists>st'. block_geo_countries (roomy_geo xx_index) False ['' xx''] (fresh_service empty_lists empty_db) = (Inl db_error, st')
    \<and> blocked_countries (as_geo st') = {} \<and> as_geo_rows st' = [] \<and> the (geo_block_v4 (as_geo st')) = {}"
proof -
  let ?st = "fresh_service empty_lists empty_db"
  have n: "normalize_geo_codes ['' xx''] = Inr [''XX'']"
    by (simp add: normalize_geo_codes_def xx_code Let_def)
  have "to_uppercase (trim ''XX'') = ''XX''" by code_simp
  then have "block_countries (roomy_geo xx_index) [''XX''] empty_geo = Inr (1, xx_geo)"
    using xx_blocked by (simp add: block_countries_def xx_code)
  then show ?thesis
    using failed_country_block_is_undone [OF roomy.lpm_kernel_axioms, of xx_index ?st xx_index "['' xx'']" "[''XX'']"] n
    by (auto simp: index_in_use_def roomy_geo_def empty_geo_def finite_tries_def entries_of_def)
qed

end
