(* ===== verification/Data_Plane_Api.thy ===== *)
theory Data_Plane_Api
  imports Http_Response Protocol_Filter_Adapter Dns_Service Acl_Service Rate_Limit_Control
begin

text \<open>
  The requests of the administration API about the data plane (\<^verbatim>\<open>adapter/http/data_plane\<close>): the service
  filters, the DNS blacklist, the access-control lists, the blocked countries and the rate limits. Routing
  and decoding of the bodies are actix-web's and serde's; a handler gets the decoded values.
\<close>

section \<open>Service filters\<close>

definition parse_ip_version :: "string \<Rightarrow> ip_version option" where
  "parse_ip_version path = (if path = ''ipv4'' then Some V4 else if path = ''ipv6'' then Some V6 else None)"

definition protocol_filter_error :: "error \<Rightarrow> 'a response" where
  "protocol_filter_error e = (case e of Ebpf (IpVersionMismatch _) \<Rightarrow> BadRequest (RefusedBy e) | _ \<Rightarrow> InternalError e)"

definition protocol_filter_result :: "protocol_filter_adapter \<Rightarrow> (ebpf_error, protocol_filter_adapter) result \<Rightarrow> unit response \<times> protocol_filter_adapter" where
  "protocol_filter_result pf r = (case r of Inr pf' \<Rightarrow> (OkBody (), pf') | Inl e \<Rightarrow> (protocol_filter_error (Ebpf e), pf))"

definition invalid_version :: "'a response" where
  "invalid_version = BadRequest (RefusedText ''invalid IP version'')"

definition get_http_service_handler :: "filter_api \<Rightarrow> string \<Rightarrow> protocol_filter_adapter \<Rightarrow> (socket_addr \<times> http_method list) set response" where
  "get_http_service_handler A path pf =
     (case parse_ip_version path of None \<Rightarrow> invalid_version | Some version \<Rightarrow> OkBody (get_http_service A version pf))"

definition add_http_service_handler ::
  "filter_api \<Rightarrow> string \<Rightarrow> socket_addr \<times> http_method list \<Rightarrow> protocol_filter_adapter \<Rightarrow> unit response \<times> protocol_filter_adapter" where
  "add_http_service_handler A path payload pf =
     (case parse_ip_version path of
        None \<Rightarrow> (invalid_version, pf)
      | Some version \<Rightarrow> let (addr, methods) = payload in protocol_filter_result pf (add_http_service A version addr methods pf))"

definition remove_http_service_handler ::
  "filter_api \<Rightarrow> string \<Rightarrow> socket_addr \<times> http_method list \<Rightarrow> protocol_filter_adapter \<Rightarrow> unit response \<times> protocol_filter_adapter" where
  "remove_http_service_handler A path payload pf =
     (case parse_ip_version path of
        None \<Rightarrow> (invalid_version, pf)
      | Some version \<Rightarrow> let (addr, methods) = payload in protocol_filter_result pf (remove_http_service A version addr methods pf))"

definition get_ssh_service_handler :: "filter_api \<Rightarrow> string \<Rightarrow> protocol_filter_adapter \<Rightarrow> socket_addr set response" where
  "get_ssh_service_handler A path pf =
     (case parse_ip_version path of None \<Rightarrow> invalid_version | Some version \<Rightarrow> OkBody (get_ssh_service A version pf))"

definition add_ssh_service_handler :: "filter_api \<Rightarrow> string \<Rightarrow> socket_addr \<Rightarrow> protocol_filter_adapter \<Rightarrow> unit response \<times> protocol_filter_adapter" where
  "add_ssh_service_handler A path payload pf =
     (case parse_ip_version path of
        None \<Rightarrow> (invalid_version, pf)
      | Some version \<Rightarrow> protocol_filter_result pf (add_ssh_service A version payload pf))"

definition remove_ssh_service_handler :: "filter_api \<Rightarrow> string \<Rightarrow> socket_addr \<Rightarrow> protocol_filter_adapter \<Rightarrow> unit response \<times> protocol_filter_adapter" where
  "remove_ssh_service_handler A path payload pf =
     (case parse_ip_version path of
        None \<Rightarrow> (invalid_version, pf)
      | Some version \<Rightarrow> protocol_filter_result pf (remove_ssh_service A version payload pf))"

definition ssh_white_list_status_handler :: "protocol_filter_adapter \<Rightarrow> bool response" where
  "ssh_white_list_status_handler pf = OkBody (is_ssh_white_list_enable pf)"

definition enable_ssh_white_list_handler :: "protocol_filter_adapter \<Rightarrow> unit response \<times> protocol_filter_adapter" where
  "enable_ssh_white_list_handler pf = protocol_filter_result pf (enable_ssh_white_list pf)"

definition disable_ssh_white_list_handler :: "protocol_filter_adapter \<Rightarrow> unit response \<times> protocol_filter_adapter" where
  "disable_ssh_white_list_handler pf = protocol_filter_result pf (disable_ssh_white_list pf)"

definition get_ssh_white_list_handler :: "filter_api \<Rightarrow> string \<Rightarrow> protocol_filter_adapter \<Rightarrow> ip_addr set response" where
  "get_ssh_white_list_handler A path pf =
     (case parse_ip_version path of None \<Rightarrow> invalid_version | Some version \<Rightarrow> OkBody (get_ssh_white_list A version pf))"

definition add_ssh_white_list_handler :: "filter_api \<Rightarrow> string \<Rightarrow> ip_addr \<Rightarrow> protocol_filter_adapter \<Rightarrow> unit response \<times> protocol_filter_adapter" where
  "add_ssh_white_list_handler A path payload pf =
     (case parse_ip_version path of
        None \<Rightarrow> (invalid_version, pf)
      | Some version \<Rightarrow> protocol_filter_result pf (add_ssh_white_list A version payload pf))"

definition remove_ssh_white_list_handler :: "filter_api \<Rightarrow> string \<Rightarrow> ip_addr \<Rightarrow> protocol_filter_adapter \<Rightarrow> unit response \<times> protocol_filter_adapter" where
  "remove_ssh_white_list_handler A path payload pf =
     (case parse_ip_version path of
        None \<Rightarrow> (invalid_version, pf)
      | Some version \<Rightarrow> protocol_filter_result pf (remove_ssh_white_list A version payload pf))"

definition get_ssh_black_list_handler :: "filter_api \<Rightarrow> string \<Rightarrow> protocol_filter_adapter \<Rightarrow> ip_addr set response" where
  "get_ssh_black_list_handler A path pf =
     (case parse_ip_version path of None \<Rightarrow> invalid_version | Some version \<Rightarrow> OkBody (get_ssh_black_list A version pf))"

definition add_ssh_black_list_handler :: "filter_api \<Rightarrow> string \<Rightarrow> ip_addr \<Rightarrow> protocol_filter_adapter \<Rightarrow> unit response \<times> protocol_filter_adapter" where
  "add_ssh_black_list_handler A path payload pf =
     (case parse_ip_version path of
        None \<Rightarrow> (invalid_version, pf)
      | Some version \<Rightarrow> protocol_filter_result pf (add_ssh_black_list A version payload pf))"

definition remove_ssh_black_list_handler :: "filter_api \<Rightarrow> string \<Rightarrow> ip_addr \<Rightarrow> protocol_filter_adapter \<Rightarrow> unit response \<times> protocol_filter_adapter" where
  "remove_ssh_black_list_handler A path payload pf =
     (case parse_ip_version path of
        None \<Rightarrow> (invalid_version, pf)
      | Some version \<Rightarrow> protocol_filter_result pf (remove_ssh_black_list A version payload pf))"

section \<open>The DNS blacklist\<close>

definition dns_filter_error :: "error \<Rightarrow> 'a response" where
  "dns_filter_error e =
     (case e of
        Ebpf (InvalidDnsDomain _) \<Rightarrow> BadRequest (RefusedBy e)
      | Ebpf (DnsLabelOutOfRange _) \<Rightarrow> BadRequest (RefusedBy e)
      | Ebpf (DnsDomainTooLong _) \<Rightarrow> BadRequest (RefusedBy e)
      | Ebpf (TooManyDnsDomains _) \<Rightarrow> BadRequest (RefusedBy e)
      | _ \<Rightarrow> InternalError e)"

definition counted :: "(error, nat) result \<times> 's \<Rightarrow> nat response \<times> 's" where
  "counted r = (case r of (Inr n, s) \<Rightarrow> (OkBody n, s) | (Inl e, s) \<Rightarrow> (dns_filter_error e, s))"

definition get_dns_blacklist_handler :: "dns_state \<Rightarrow> string set response option" where
  "get_dns_blacklist_handler st = map_option OkBody (list_domains (ds_filter st))"

definition add_dns_blacklist_handler :: "bool \<Rightarrow> nat \<Rightarrow> string list \<Rightarrow> dns_state \<Rightarrow> nat response \<times> dns_state" where
  "add_dns_blacklist_handler ok mx domains st = counted (add_domains ok mx domains st)"

definition remove_dns_blacklist_handler :: "bool \<Rightarrow> nat \<Rightarrow> string list \<Rightarrow> dns_state \<Rightarrow> nat response \<times> dns_state" where
  "remove_dns_blacklist_handler ok mx domains st = counted (remove_domains ok mx domains st)"

section \<open>Access control and countries\<close>

definition get_ipv4_list_handler :: "acl_api \<Rightarrow> flow_direction \<times> list_type \<Rightarrow> acl_state \<Rightarrow> (u32 \<times> u16 list) set response" where
  "get_ipv4_list_handler A path st = (let (d, t) = path in OkBody (get_ipv4_list A (as_ac st) d t))"

definition get_ipv6_list_handler :: "acl_api \<Rightarrow> flow_direction \<times> list_type \<Rightarrow> acl_state \<Rightarrow> (u128 \<times> u16 list) set response" where
  "get_ipv6_list_handler A path st = (let (d, t) = path in OkBody (get_ipv6_list A (as_ac st) d t))"

definition answered :: "((error, unit) result \<times> 's) option \<Rightarrow> (unit response \<times> 's) option" where
  "answered r = map_option (\<lambda>(x, s). (ok_or_error x, s)) r"

definition add_ipv4_list_handler ::
  "acl_api \<Rightarrow> bool \<Rightarrow> socket_addr_v4 \<Rightarrow> flow_direction \<times> list_type \<Rightarrow> acl_state \<Rightarrow> (unit response \<times> acl_state) option" where
  "add_ipv4_list_handler A ok address path st = (let (d, t) = path in answered (acl_add_ipv4 A ok d t address st))"

definition add_ipv6_list_handler ::
  "acl_api \<Rightarrow> bool \<Rightarrow> socket_addr_v6 \<Rightarrow> flow_direction \<times> list_type \<Rightarrow> acl_state \<Rightarrow> (unit response \<times> acl_state) option" where
  "add_ipv6_list_handler A ok address path st = (let (d, t) = path in answered (acl_add_ipv6 A ok d t address st))"

definition remove_ipv4_list_handler ::
  "acl_api \<Rightarrow> bool \<Rightarrow> socket_addr_v4 \<Rightarrow> flow_direction \<times> list_type \<Rightarrow> acl_state \<Rightarrow> (unit response \<times> acl_state) option" where
  "remove_ipv4_list_handler A ok address path st = (let (d, t) = path in answered (acl_remove_ipv4 A ok d t address st))"

definition remove_ipv6_list_handler ::
  "acl_api \<Rightarrow> bool \<Rightarrow> socket_addr_v6 \<Rightarrow> flow_direction \<times> list_type \<Rightarrow> acl_state \<Rightarrow> (unit response \<times> acl_state) option" where
  "remove_ipv6_list_handler A ok address path st = (let (d, t) = path in answered (acl_remove_ipv6 A ok d t address st))"

definition geo_block_error :: "error \<Rightarrow> 'a response" where
  "geo_block_error e = (case e of Ebpf (InvalidCountryCode _) \<Rightarrow> BadRequest (RefusedBy e) | _ \<Rightarrow> InternalError e)"

definition get_geo_blocked_handler :: "acl_state \<Rightarrow> string set response" where
  "get_geo_blocked_handler st = OkBody (blocked_countries (as_geo st))"

definition block_geo_countries_handler :: "geo_api \<Rightarrow> bool \<Rightarrow> string list \<Rightarrow> acl_state \<Rightarrow> (string set \<times> nat) response \<times> acl_state" where
  "block_geo_countries_handler G ok codes st =
     (case block_geo_countries G ok codes st of
        (Inr total_prefixes, st) \<Rightarrow> (OkBody (blocked_countries (as_geo st), total_prefixes), st)
      | (Inl e, st) \<Rightarrow> (geo_block_error e, st))"

definition unblock_geo_countries_handler :: "geo_api \<Rightarrow> bool \<Rightarrow> string list \<Rightarrow> acl_state \<Rightarrow> (string set \<times> nat) response \<times> acl_state" where
  "unblock_geo_countries_handler G ok codes st =
     (case unblock_geo_countries G ok codes st of
        (Inr total_prefixes, st) \<Rightarrow> (OkBody (blocked_countries (as_geo st), total_prefixes), st)
      | (Inl e, st) \<Rightarrow> (geo_block_error e, st))"

section \<open>Rate limits\<close>

definition rate_limit_error :: "error \<Rightarrow> 'a response" where
  "rate_limit_error e = (case e of Ebpf (InvalidRateLimitValue _ _) \<Rightarrow> BadRequest (RefusedBy e) | _ \<Rightarrow> InternalError e)"

definition get_config_handler :: "(nat \<Rightarrow> bool) \<Rightarrow> rl_state \<Rightarrow> rate_limit_settings response \<times> rl_state" where
  "get_config_handler K st =
     (case current_settings K (rl_cfg st) of (r, cfg) \<Rightarrow> (ok_json_or_error r, st\<lparr>rl_cfg := cfg\<rparr>))"

definition set_config_handler :: "(nat \<Rightarrow> bool) \<Rightarrow> bool \<Rightarrow> rate_limit_settings \<Rightarrow> rl_state \<Rightarrow> unit response \<times> rl_state" where
  "set_config_handler K ok settings st =
     (case update_rate_limits K ok settings st of
        (Inr (), st) \<Rightarrow> (OkBody (), st)
      | (Inl e, st) \<Rightarrow> (rate_limit_error e, st))"

section \<open>Who is to blame\<close>

definition bad_domain :: "ebpf_error \<Rightarrow> bool" where
  "bad_domain e \<longleftrightarrow> (case e of InvalidDnsDomain _ \<Rightarrow> True | DnsLabelOutOfRange _ \<Rightarrow> True | DnsDomainTooLong _ \<Rightarrow> True | _ \<Rightarrow> False)"

lemma write_labels_Inl: "write_labels d ls pos name = Inl e \<Longrightarrow> bad_domain e"
  by (induction d ls pos name rule: write_labels.induct) (auto simp: Let_def bad_domain_def split: if_splits)

lemma bad_domain_status: "bad_domain x \<Longrightarrow> status (dns_filter_error (Ebpf x)) = 400"
  by (cases x) (simp_all add: bad_domain_def dns_filter_error_def)

lemma normalized_from_Inl:
  assumes "normalized_from seen ds = Inl e"
  shows "(\<exists>d\<in>set ds. \<not> valid_domain (canonical_dns_domain d)) \<and> (\<exists>x. e = Ebpf x \<and> bad_domain x)"
  using assms
proof (induction ds arbitrary: seen)
  case (Cons d ds)
  let ?c = "canonical_dns_domain d"
  show ?case
  proof (cases "valid_domain ?c")
    case True
    with Cons show ?thesis by (auto simp: domain_op_simps Let_def and_then_Inl_iff split: if_splits)
  next
    case False
    then obtain x where "validate_domain ?c = Inl x" using domain_op_invalid(2) by blast
    moreover then have "bad_domain x"
      using write_labels_Inl by (auto simp: validate_domain_def domain_to_wire_format_def Let_def and_then_Inl_iff)
    ultimately show ?thesis using Cons.prems False by (auto simp: Let_def)
  qed
qed simp

lemma normalized_domains_status:
  "(\<exists>ns. normalized_domains ds = Inr ns) \<longleftrightarrow> (\<forall>d\<in>set ds. valid_domain (canonical_dns_domain d))"
  using normalized_domains_Inr [of ds] normalized_from_Inl [of "[]" ds] by (cases "normalized_domains ds") (auto simp: normalized_domains_def)

text \<open>
  The API answers a request for the DNS blacklist with 400 exactly where the request is at fault (too
  many domains, or a text that is not a domain), and then nothing has changed; with 500 exactly where the
  request is good and the table could not be written; with 200 otherwise.
\<close>

theorem dns_api_status:
  "status (fst (add_dns_blacklist_handler ok mx ds st)) =
      (if length ds > mx \<or> (\<exists>d\<in>set ds. \<not> valid_domain (canonical_dns_domain d)) then 400 else if ok then 200 else 500)
   \<and> (if length ds > mx \<or> (\<exists>d\<in>set ds. \<not> valid_domain (canonical_dns_domain d))
      then snd (add_dns_blacklist_handler ok mx ds st) = st else True)"
proof (cases "length ds > mx")
  case True
  then show ?thesis
    by (simp add: add_dns_blacklist_handler_def add_domains_def ensure_request_within_limit_def counted_def dns_filter_error_def)
next
  case False
  show ?thesis
  proof (cases "normalized_domains ds")
    case (Inl e)
    then obtain x where "\<exists>d\<in>set ds. \<not> valid_domain (canonical_dns_domain d)" "e = Ebpf x" "bad_domain x"
      using normalized_from_Inl [of "[]" ds e] by (auto simp: normalized_domains_def)
    with Inl False bad_domain_status [of x] show ?thesis
      by (simp add: add_dns_blacklist_handler_def add_domains_def ensure_request_within_limit_def counted_def)
  next
    case (Inr ns)
    then have "\<forall>d\<in>set ds. valid_domain (canonical_dns_domain d)" using normalized_domains_status by blast
    with Inr False show ?thesis
      by (cases rule: add_domains_cases [of ok mx ds st])
        (auto simp: add_dns_blacklist_handler_def counted_def dns_filter_error_def db_error_def)
  qed
qed

end
