(* ===== verification/Spec2Isabelle.thy ===== *)
theory Spec2Isabelle
  imports Inference_Engine User_Packet_Parser Identity_Api Ingress_Properties Rate_Limit_Owner Playbook_Api Detection_Response Data_Plane_Api
begin

text \<open>
  A verification library for NetGuardia, a network gateway that filters packets in the kernel (XDP programs), detects
  threats in user space and answers them automatically. Paths are relative to \<^verbatim>\<open>src/\<close>, those without a first
  directory to \<^verbatim>\<open>src/net-guardia/src/\<close>.

  A frame enters the ingress programs, which pass it through the configured stages and hand it to a queue. User space
  reads the queues, tracks flows, and runs models and detectors over them; the orchestrator fuses what they report; the
  response engine answers a fused threat by writing the kernel's lists and the database; administrators do the same
  through the HTTP API. The theories follow this order.

  \<^bold>\<open>Foundations.\<close> \<open>Prelude\<close> has results (\<open>'e + 'a\<close>, an error is a value), the bind of fallible code, word and list
  lemmas. \<open>Rust_Text\<close>, \<open>Rust_Parse\<close>, \<open>Rust_Net\<close> and \<open>Rust_Float\<close> model what the code uses of Rust's standard
  library: trimming and splitting, parsing and printing of numbers, addresses, and IEEE floats (\<open>flt\<close>: exact rationals with
  rounding to the width, infinities, NaN). \<open>Domain_Errors\<close> has the error enums (\<^verbatim>\<open>domain/*/error.rs\<close>).

  \<^bold>\<open>Kernel side.\<close> \<open>Abi_Models\<close>, \<open>Port_Rule\<close>, \<open>Http_Method\<close> (\<^verbatim>\<open>net-guardia-abi/src/model\<close>, \<^verbatim>\<open>define\<close>), \<open>Packet_Parsing\<close>
  (\<^verbatim>\<open>ebpf/parsing.rs\<close>; a raw read is a bounds-checked read), \<open>Symmetric_Hash\<close>, the three stages \<open>Access_Control_Stage\<close>,
  \<open>Protocol_Filter_Stage\<close>, \<open>Rate_Limit_Stage\<close> (\<^verbatim>\<open>ingress-ebpf/src/action\<close>), the programs themselves in \<open>Ingress_Pipeline\<close> and
  \<open>Egress_Program\<close> (\<^verbatim>\<open>ingress-ebpf/src/main.rs\<close>, \<^verbatim>\<open>egress-ebpf/src/main.rs\<close>), their chaining at start-up in \<open>Ingress_Startup\<close>
  (\<^verbatim>\<open>infrastructure/startup/data_plane.rs\<close>). A tail call is a continuation; the kernel bounds chains at 33, which is the fuel of
  the pipeline. \<open>Ingress_Properties\<close> shows that the configured chain refines the list of stages in order, that no program reads
  outside the frame, that blocked packets are dropped, that a drop by a stage leaves exactly one event where the ring buffer has
  room, and that both directions of a flow use one queue whatever the reused packet buffer held. The properties of drops are
  about frames that the parser accepts: one it refuses is transmitted unfiltered (\<open>unparsable_frame_is_not_filtered\<close>).
  \<open>Wire_Frames\<close> builds the frames of the witnesses.

  \<^bold>\<open>Lists and limits.\<close> \<open>Acl_Adapter\<close>, \<open>Ip_Utils\<close>, \<open>Ip_Blocking\<close>, \<open>Geo_Block\<close>, \<open>Acl_Service\<close>, \<open>Rate_Limit_Control\<close>, \<open>Rate_Limit_Owner\<close>
  and \<open>Protocol_Filter_Adapter\<close> (\<^verbatim>\<open>adapter/ebpf\<close>, \<^verbatim>\<open>core/data_plane\<close>, \<^verbatim>\<open>core/response/rate_limit_owner.rs\<close>) over the tables of
  \<open>Block_Store\<close> (\<^verbatim>\<open>adapter/persistence\<close>). The kernel's maps are locales (\<open>acl_kernel\<close> and others), interpreted by bounded maps.
  The lemmas connect both sides: what user space reports as blocked is what the kernel program drops, unless a whitelist entry
  admits the packet; the requests about services are the policy the kernel applies; a change reaches map and table or neither;
  lowered rates come back. \<open>store_reach\<close> has every statement on the rule and block tables, the administrator's removal of a rule
  included, and remembers which rules were so removed. A country's networks are all in the tries only where all were counted as
  inserted, since a full trie is not an error.

  \<^bold>\<open>DNS.\<close> \<open>Dns_Filter\<close> (\<^verbatim>\<open>core/data_plane/dns_filter.rs\<close>) has the look-up of a raw frame, which returns on every frame and is
  exact up to the 31 labels and 127 bytes the code reads; \<open>Dns_Service\<close> (\<^verbatim>\<open>dns_filter_service.rs\<close>) keeps filter and table in step
  under the two conditions its text names. \<open>Http_Response\<close> and \<open>Data_Plane_Api\<close> (\<^verbatim>\<open>adapter/http/data_plane\<close>) are the handlers.

  \<^bold>\<open>Detection.\<close> \<open>User_Packet_Parser\<close> (\<^verbatim>\<open>common/utils/packet_parser.rs\<close>) agrees with the kernel's parser on what it accepts.
  \<open>Flow_Tracker\<close> (\<^verbatim>\<open>core/inference/flow_tracker.rs\<close>) accounts packets to flows; \<open>Feature_Registry\<close> and \<open>Flow_Features\<close>
  (\<^verbatim>\<open>domain/detection/feature_extractor.rs\<close>) compute the statistics and name them; \<open>Model_Manifest\<close> (\<^verbatim>\<open>domain/detection/manifest.rs\<close>)
  validates an uploaded model; \<open>Model_Inference\<close> (\<^verbatim>\<open>core/inference/runner.rs\<close> and the loader) runs its stages in chunks behind a
  circuit breaker; \<open>Inference_Engine\<close> (\<^verbatim>\<open>engine.rs\<close>, \<^verbatim>\<open>aggregator.rs\<close>, \<^verbatim>\<open>alert.rs\<close>) selects flows and confirms verdicts.
  \<open>Timed_Windows\<close> and \<open>Correlation\<close> (\<^verbatim>\<open>core/correlation\<close>) detect across flows; \<open>Fusion_Math\<close>, \<open>Lru_Cache\<close> (the contract of the crate) and
  \<open>Orchestrator\<close> (\<^verbatim>\<open>core/detection/orchestrator.rs\<close>) fuse detections into threats. \<open>Detection_Response\<close> follows one detection through
  fusion and response to the dropped frame, in the enforce mode and on the fallback path.

  \<^bold>\<open>Automatic response.\<close> \<open>Attack_Types\<close>, \<open>Playbook_Conditions\<close>, \<open>Playbook_Validator\<close> (\<^verbatim>\<open>domain/response\<close>, \<^verbatim>\<open>domain/detection\<close>),
  \<open>Frequency_Tracker\<close>, \<open>Soar_Config\<close>, \<open>Playbook_Matcher\<close>, \<open>Playbook_Store\<close>, \<open>Soar_Engine\<close>, \<open>Soar_Lifecycle\<close>
  (\<^verbatim>\<open>core/response\<close>) and \<open>Playbook_Api\<close> (\<^verbatim>\<open>adapter/http/response/soar.rs\<close>). The state of the engine (\<open>soar_state\<close>) is threaded
  through; what it does not own is its environment (\<open>soar_env\<close>): clock, mail, web hooks, and which calls of the store fail
  (\<open>se_db\<close>, by call number). \<open>Soar_Properties\<close> has what the engine guarantees of a block that is reported and what it leaves of
  one that fails, in every case; \<open>Soar_Lifecycle\<close> what a sweep ends and lifts; \<open>Playbook_Api\<close> that the matcher works with what the
  request said.

  \<^bold>\<open>Identity.\<close> \<open>Identity_Domain\<close>, \<open>Identity_Store\<close>, \<open>Auth_Service\<close>, \<open>Account_Rules\<close>, \<open>Sessions\<close> (\<^verbatim>\<open>domain/identity\<close>,
  \<^verbatim>\<open>core/identity\<close>, \<^verbatim>\<open>adapter/persistence\<close>), \<open>Access_Gate\<close> (\<^verbatim>\<open>adapter/http/middleware\<close> and the table of all routes) and
  \<open>Identity_Api\<close>: the tables stay consistent, guesses are limited, the built-in administrator keeps its rights, every route but
  the caller's own and the setup wizard's needs a permission, and sessions have the rights of the tables. Hashes of passwords
  and keys are parameters.

  \<^bold>\<open>Loops and bounds.\<close> Loops are structural or have a measure (the passes of \<open>topo_loop\<close>). Those that could run for ever are
  partial functions into an option and are shown to return: the two over the labels of a name in \<open>Dns_Filter\<close>
  (\<open>dns_lookup_returns\<close>) and the chunks of a batch in \<open>Model_Inference\<close> (\<open>run_chunks\<close>). The only budget is the kernel's number of
  tail calls, an argument of \<open>run_prog\<close>: one more than the stages is enough.

  \<^bold>\<open>Simplifications.\<close> Letter case is mapped for ASCII only (domains, country codes). A panic inside \<^verbatim>\<open>spawn_blocking\<close> (its
  \<^verbatim>\<open>JoinError\<close>) is not a path of \<open>Rate_Limit_Owner\<close>. Running one batch on a model (\<^verbatim>\<open>run_stage_batch\<close> of \<^verbatim>\<open>onnx_runtime.rs\<close>) is a
  parameter, with the row-wise answer as a hypothesis where it is used. Logging has no counterpart.

  \<^bold>\<open>Not modelled.\<close> The model runtime (ONNX), the HTTP framework and web sockets, reading the GeoIP and model files, uploading and
  promoting models, drift and beaconing statistics, notification transports, reports, the settings and audit tables, process
  supervision, the packet sockets and the macros of the build: they are I/O, display or libraries; where modelled code calls them
  they are parameters.
\<close>

end
